(* ===== verification/Prelude.thy ===== *)
theory Prelude
  imports Complex_Main
begin

text \<open>
  Shared vocabulary of the development: the error value of a handler and its result type, the
  sequencing of fallible checks, the machine-integer casts the server uses, and IEEE doubles as
  far as the server looks at them.  Component theories only add to the collections declared here.
\<close>

named_theorems spec_iff \<open>a check accepts exactly the values its specification describes\<close>
named_theorems row_simps \<open>reading back the fields of a row after an operation\<close>

section \<open>Results of fallible code\<close>

text \<open>
  \<open>error::AppError\<close>: the status of the answer and the rule that was broken.  The human-readable
  message is reduced to a label naming the rule; the interpolated values are dropped.  \<open>Invalid\<close> is a
  bad request with field errors, each the field and the rule it breaks.
\<close>

datatype app_error =
    Bad_request string
  | Internal string
  | Not_found string
  | Unavailable string
  | Payload_too_large string
  | Unauthorized string
  | Forbidden string
  | Conflict string
  | Too_many_requests nat
  | Invalid string "(string \<times> string) list"

type_synonym 'a app_result = "app_error + 'a"
type_synonym check = "unit app_result"

abbreviation ok :: check where
  "ok \<equiv> Inr ()"

definition refuse_if :: "bool \<Rightarrow> string \<Rightarrow> check" where
  "refuse_if b why = (if b then Inl (Bad_request why) else ok)"

text \<open>The \<open>?\<close> operator: go on with the value, or return the error.\<close>

definition and_then :: "'a app_result \<Rightarrow> ('a \<Rightarrow> 'b app_result) \<Rightarrow> 'b app_result" where
  "and_then m f = (case m of Inl e \<Rightarrow> Inl e | Inr x \<Rightarrow> f x)"

text \<open>A sequence of checks, each followed by \<open>?\<close>: the first that fails decides.\<close>

fun first_error :: "check list \<Rightarrow> check" where
  "first_error [] = ok"
| "first_error (c # cs) = (case c of Inl e \<Rightarrow> Inl e | Inr _ \<Rightarrow> first_error cs)"

text \<open>A \<open>for\<close> loop whose body only checks its element.\<close>

definition check_each :: "('a \<Rightarrow> check) \<Rightarrow> 'a list \<Rightarrow> check" where
  "check_each f xs = first_error (map f xs)"

definition ok_or :: "'a option \<Rightarrow> app_error \<Rightarrow> 'a app_result" where
  "ok_or v e = (case v of None \<Rightarrow> Inl e | Some x \<Rightarrow> Inr x)"

text \<open>\<open>with_field\<close> when a condition holds, and the answer once every field has been looked at.\<close>

definition field_if :: "bool \<Rightarrow> string \<Rightarrow> string \<Rightarrow> (string \<times> string) list" where
  "field_if b field why = (if b then [(field, why)] else [])"

definition no_fields :: "string \<Rightarrow> (string \<times> string) list \<Rightarrow> check" where
  "no_fields what fields = (if fields = [] then ok else Inl (Invalid what fields))"

definition check_opt :: "('a \<Rightarrow> check) \<Rightarrow> 'a option \<Rightarrow> check" where
  "check_opt f v = (case v of None \<Rightarrow> ok | Some x \<Rightarrow> f x)"

lemma refuse_if_ok [simp]: "refuse_if b why = ok \<longleftrightarrow> \<not> b"
  by (simp add: refuse_if_def)

lemma refuse_if_Inl [simp]: "refuse_if b why = Inl e \<longleftrightarrow> b \<and> e = Bad_request why"
  by (auto simp: refuse_if_def)

lemma field_if_Nil [simp]: "field_if b field why = [] \<longleftrightarrow> \<not> b" "[] = field_if b field why \<longleftrightarrow> \<not> b"
  by (auto simp: field_if_def)

lemma no_fields_ok [simp]: "no_fields what fields = ok \<longleftrightarrow> fields = []"
  by (simp add: no_fields_def)

lemma check_cases: "c = ok \<or> (\<exists>e. c = Inl e)" for c :: check
  by (cases c) auto

lemma and_then_simps [simp]:
  "and_then (Inl e) f = Inl e" "and_then (Inr x) f = f x"
  by (simp_all add: and_then_def)

lemma and_then_Inr: "and_then m f = Inr y \<longleftrightarrow> (\<exists>x. m = Inr x \<and> f x = Inr y)"
  by (cases m) simp_all

lemma and_then_check_Inr: "and_then (c :: check) f = Inr y \<longleftrightarrow> c = ok \<and> f () = Inr y"
  by (cases c) simp_all

lemma and_then_check_ok: "and_then m g = ok \<longleftrightarrow> (\<exists>x. m = Inr x \<and> g x = ok)"
  for g :: "'a \<Rightarrow> check"
  by (cases m) auto

lemma first_error_ok: "first_error cs = ok \<longleftrightarrow> (\<forall>c\<in>set cs. c = ok)"
proof (induction cs)
  case (Cons c cs)
  then show ?case by (cases c) simp_all
qed simp

lemma first_error_Cons_ok [simp]: "first_error (c # cs) = ok \<longleftrightarrow> c = ok \<and> first_error cs = ok"
  by (cases c) simp_all


declare first_error.simps(2) [simp del]

text \<open>When the sequence fails, the error is that of the first failing check.\<close>

lemma split_first_Cons:
  "(\<exists>as x bs. y # ys = as @ x # bs \<and> (\<forall>a\<in>set as. P a) \<and> Q x) \<longleftrightarrow>
   Q y \<or> (P y \<and> (\<exists>as x bs. ys = as @ x # bs \<and> (\<forall>a\<in>set as. P a) \<and> Q x))" (is "?L \<longleftrightarrow> ?R")
proof
  assume ?L
  then obtain as x bs where *: "y # ys = as @ x # bs" "\<forall>a\<in>set as. P a" "Q x"
    by blast
  show ?R
  proof (cases as)
    case Nil
    with * show ?thesis by simp
  next
    case (Cons a as')
    with * have "ys = as' @ x # bs" "\<forall>a\<in>set as'. P a" "P y" by auto
    with \<open>Q x\<close> show ?thesis by blast
  qed
next
  assume ?R
  then show ?L
  proof
    assume "Q y"
    then have "y # ys = [] @ y # ys \<and> (\<forall>a\<in>set []. P a) \<and> Q y" by simp
    then show ?L by blast
  next
    assume "P y \<and> (\<exists>as x bs. ys = as @ x # bs \<and> (\<forall>a\<in>set as. P a) \<and> Q x)"
    then obtain as x bs where *: "P y" "ys = as @ x # bs" "\<forall>a\<in>set as. P a" "Q x"
      by blast
    then have "y # ys = (y # as) @ x # bs \<and> (\<forall>a\<in>set (y # as). P a) \<and> Q x" by simp
    then show ?L by blast
  qed
qed

lemma first_error_first:
  "first_error cs = Inl e \<longleftrightarrow> (\<exists>as x bs. cs = as @ x # bs \<and> (\<forall>c\<in>set as. c = ok) \<and> x = Inl e)"
proof (induction cs)
  case (Cons c cs)
  show ?case
    unfolding split_first_Cons
    by (cases c) (simp_all add: Cons.IH first_error.simps)
qed simp

lemma check_each_ok: "check_each f xs = ok \<longleftrightarrow> (\<forall>x\<in>set xs. f x = ok)"
  by (simp add: check_each_def first_error_ok)

lemma check_opt_ok: "check_opt f v = ok \<longleftrightarrow> (\<forall>x. v = Some x \<longrightarrow> f x = ok)"
  by (cases v) (simp_all add: check_opt_def)

lemma check_opt_simps [simp]: "check_opt f None = ok" "check_opt f (Some x) = f x"
  by (simp_all add: check_opt_def)

section \<open>The contract of a check\<close>

text \<open>
  Every validation function of the server promises the same thing: it accepts exactly the values
  a specification describes.  The laws a caller needs of it, for one value, for an optional one
  and for a list, follow once here.
\<close>

locale validator =
  fixes check :: "'a \<Rightarrow> check" and spec :: "'a \<Rightarrow> bool"
  assumes accepts: "check x = ok \<longleftrightarrow> spec x"
begin

lemma rejects: "(\<exists>e. check x = Inl e) \<longleftrightarrow> \<not> spec x"
  using accepts [of x] by (cases "check x") auto

lemma each: "check_each check xs = ok \<longleftrightarrow> list_all spec xs"
  by (simp add: check_each_ok accepts list_all_iff)

lemma opt: "check_opt check v = ok \<longleftrightarrow> pred_option spec v"
  by (cases v) (simp_all add: accepts)

text \<open>A rejected list is rejected for its first element outside the specification.\<close>

lemma each_first:
  "check_each check xs = Inl e \<longleftrightarrow>
     (\<exists>as x bs. xs = as @ x # bs \<and> list_all spec as \<and> check x = Inl e)"
proof (induction xs)
  case (Cons y ys)
  show ?case
    unfolding list_all_iff split_first_Cons
    using accepts [of y] Cons.IH
    by (cases "check y") (simp_all add: check_each_def list_all_iff first_error.simps)
qed (simp add: check_each_def)

end

section \<open>Machine integers\<close>

text \<open>
  A Rust integer is an \<open>int\<close> in the range of its width; the range is a hypothesis or an invariant
  where it matters, and every cast and every saturating operation of the source is written out.
\<close>

definition i16_max :: int where "i16_max = 32767"
definition i32_max :: int where "i32_max = 2147483647"
definition i64_max :: int where "i64_max = 9223372036854775807"
definition u64_max :: int where "u64_max = 18446744073709551615"

definition in_i16 :: "int \<Rightarrow> bool" where "in_i16 x \<longleftrightarrow> - i16_max - 1 \<le> x \<and> x \<le> i16_max"
definition in_i32 :: "int \<Rightarrow> bool" where "in_i32 x \<longleftrightarrow> - i32_max - 1 \<le> x \<and> x \<le> i32_max"
definition in_i64 :: "int \<Rightarrow> bool" where "in_i64 x \<longleftrightarrow> - i64_max - 1 \<le> x \<and> x \<le> i64_max"

text \<open>\<open>x as u64\<close>, \<open>x as i32\<close>, \<open>x as i16\<close>: reduction modulo the width, reread as signed.\<close>

definition as_u64 :: "int \<Rightarrow> int" where "as_u64 x = x mod (u64_max + 1)"
definition as_i32 :: "int \<Rightarrow> int" where
  "as_i32 x = (x + i32_max + 1) mod (2 * (i32_max + 1)) - i32_max - 1"
definition as_i64 :: "int \<Rightarrow> int" where
  "as_i64 x = (x + i64_max + 1) mod (2 * (i64_max + 1)) - i64_max - 1"

definition sat_i32 :: "int \<Rightarrow> int" where "sat_i32 x = max (- i32_max - 1) (min i32_max x)"
definition sat_i64 :: "int \<Rightarrow> int" where "sat_i64 x = max (- i64_max - 1) (min i64_max x)"
definition sat_u64 :: "int \<Rightarrow> int" where "sat_u64 x = max 0 (min u64_max x)"

lemmas int_width_defs =
  i16_max_def i32_max_def i64_max_def u64_max_def in_i16_def in_i32_def in_i64_def

lemma as_u64_id: "0 \<le> x \<Longrightarrow> x \<le> u64_max \<Longrightarrow> as_u64 x = x"
  by (simp add: as_u64_def)

lemma as_i32_id: "in_i32 x \<Longrightarrow> as_i32 x = x"
  by (simp add: as_i32_def int_width_defs)

lemma as_i64_id: "in_i64 x \<Longrightarrow> as_i64 x = x"
  by (simp add: as_i64_def int_width_defs)

lemma as_i64_as_u64:
  assumes "in_i64 x"
  shows "as_i64 (as_u64 x) = x"
proof -
  have "(x mod (u64_max + 1) + i64_max + 1) mod (u64_max + 1) = (x + (i64_max + 1)) mod (u64_max + 1)"
    by (metis add.assoc mod_add_left_eq)
  also have "\<dots> = x + (i64_max + 1)"
    using assms by (simp add: int_width_defs)
  finally have "(x mod (u64_max + 1) + i64_max + 1) mod (u64_max + 1) = x + (i64_max + 1)" .
  moreover have "2 * (i64_max + 1) = u64_max + 1"
    by (simp add: int_width_defs)
  ultimately show ?thesis
    by (simp only: as_i64_def as_u64_def)
qed

lemma sat_i32_id: "in_i32 x \<Longrightarrow> sat_i32 x = x"
  by (simp add: sat_i32_def int_width_defs)

lemma sat_i64_id: "in_i64 x \<Longrightarrow> sat_i64 x = x"
  by (simp add: sat_i64_def int_width_defs)

lemma sat_i64_mono: "x \<le> y \<Longrightarrow> sat_i64 x \<le> sat_i64 y"
  by (auto simp: sat_i64_def)

section \<open>Doubles\<close>

text \<open>
  The server compares doubles, takes absolute values and asks whether they are finite: a value is
  a finite real or one of the three non-finite ones.  (The two zeros compare equal and are one
  value here.)
\<close>

datatype f64 = Fin real | PInf | NInf | NaN

fun is_finite :: "f64 \<Rightarrow> bool" where
  "is_finite (Fin _) = True"
| "is_finite _ = False"

fun f64_le :: "f64 \<Rightarrow> f64 \<Rightarrow> bool" where
  "f64_le (Fin a) (Fin b) = (a \<le> b)"
| "f64_le NInf (Fin _) = True"
| "f64_le (Fin _) PInf = True"
| "f64_le NInf NInf = True"
| "f64_le PInf PInf = True"
| "f64_le NInf PInf = True"
| "f64_le _ _ = False"

fun f64_lt :: "f64 \<Rightarrow> f64 \<Rightarrow> bool" where
  "f64_lt (Fin a) (Fin b) = (a < b)"
| "f64_lt NInf (Fin _) = True"
| "f64_lt (Fin _) PInf = True"
| "f64_lt NInf PInf = True"
| "f64_lt _ _ = False"

fun f64_abs :: "f64 \<Rightarrow> f64" where
  "f64_abs (Fin a) = Fin \<bar>a\<bar>"
| "f64_abs NaN = NaN"
| "f64_abs _ = PInf"

text \<open>\<open>(lo..=hi).contains(&x)\<close>.\<close>

definition f64_within :: "real \<Rightarrow> real \<Rightarrow> f64 \<Rightarrow> bool" where
  "f64_within lo hi x \<longleftrightarrow> f64_le (Fin lo) x \<and> f64_le x (Fin hi)"

lemma is_finite_iff: "is_finite x \<longleftrightarrow> (\<exists>r. x = Fin r)"
  by (cases x) simp_all

lemma f64_within_iff: "f64_within lo hi x \<longleftrightarrow> (\<exists>r. x = Fin r \<and> lo \<le> r \<and> r \<le> hi)"
  by (cases x) (auto simp: f64_within_def)

lemma f64_abs_gt: "\<not> f64_lt (Fin b) (f64_abs (Fin r)) \<longleftrightarrow> - b \<le> r \<and> r \<le> b"
  by auto

lemma finite_bounded_iff:
  "is_finite x \<and> \<not> f64_lt (Fin b) (f64_abs x) \<longleftrightarrow> (\<exists>r. x = Fin r \<and> \<bar>r\<bar> \<le> b)"
  by (cases x) auto

section \<open>Lists\<close>

lemma sum_list_map_filter_le:
  "(\<And>x. x \<in> set xs \<Longrightarrow> 0 \<le> f x) \<Longrightarrow> sum_list (map f (filter P xs)) \<le> sum_list (map f xs)"
  for f :: "'a \<Rightarrow> int"
  by (induction xs) (auto simp: add_increasing)

lemma count_filter_map_update:
  "length (filter P (map f xs)) = length (filter (\<lambda>x. P (f x)) xs)"
  by (simp add: filter_map o_def)

lemma distinct_map_inj_eq:
  "distinct (map f xs) \<Longrightarrow> x \<in> set xs \<Longrightarrow> y \<in> set xs \<Longrightarrow> f x = f y \<Longrightarrow> x = y"
  by (auto simp: distinct_map inj_on_def)

end
