(* ===== verification/Text.thy ===== *)
theory Text
  imports Prelude
begin

text \<open>
  Rust strings and the parts of \<open>str\<close> the server uses.  A string is the list of its Unicode scalar
  values, so that \<open>chars()\<close> is the list itself and \<open>len()\<close>, which counts UTF-8 bytes, is
  \<open>utf8_len\<close>.  \<open>lit\<close> writes a literal of the source.
\<close>

type_synonym uchar = nat
type_synonym ustr = "uchar list"

definition lit :: "string \<Rightarrow> ustr" where
  "lit s = map of_char s"

definition char_utf8_len :: "uchar \<Rightarrow> nat" where
  "char_utf8_len c = (if c < 128 then 1 else if c < 2048 then 2 else if c < 65536 then 3 else 4)"

definition utf8_len :: "ustr \<Rightarrow> nat" where
  "utf8_len s = sum_list (map char_utf8_len s)"

text \<open>\<open>char::is_whitespace\<close>: Unicode's \<open>White_Space\<close>.\<close>

definition is_whitespace :: "uchar \<Rightarrow> bool" where
  "is_whitespace c \<longleftrightarrow>
     (9 \<le> c \<and> c \<le> 13) \<or> c = 32 \<or> c = 133 \<or> c = 160 \<or> c = 5760 \<or> (8192 \<le> c \<and> c \<le> 8202) \<or>
     c = 8232 \<or> c = 8233 \<or> c = 8239 \<or> c = 8287 \<or> c = 12288"

definition trim_matches :: "(uchar \<Rightarrow> bool) \<Rightarrow> ustr \<Rightarrow> ustr" where
  "trim_matches p s = rev (dropWhile p (rev (dropWhile p s)))"

definition trim :: "ustr \<Rightarrow> ustr" where
  "trim = trim_matches is_whitespace"

text \<open>\<open>str::split\<close> with a character predicate: always at least one piece.\<close>

fun split_by :: "(uchar \<Rightarrow> bool) \<Rightarrow> ustr \<Rightarrow> ustr list" where
  "split_by p [] = [[]]"
| "split_by p (c # cs) =
     (if p c then [] # split_by p cs
      else (case split_by p cs of [] \<Rightarrow> [[c]] | w # ws \<Rightarrow> (c # w) # ws))"

text \<open>\<open>split_once\<close>: around the first of the character.\<close>

definition split_once :: "uchar \<Rightarrow> ustr \<Rightarrow> (ustr \<times> ustr) option" where
  "split_once c s = (if c \<in> set s then Some (takeWhile (\<lambda>x. x \<noteq> c) s, tl (dropWhile (\<lambda>x. x \<noteq> c) s)) else None)"

text \<open>\<open>join\<close>: the strings with the separator between them.\<close>

fun join_with :: "ustr \<Rightarrow> ustr list \<Rightarrow> ustr" where
  "join_with sep [] = []"
| "join_with sep [s] = s"
| "join_with sep (s # t # ts) = s @ sep @ join_with sep (t # ts)"

definition strip_suffix_char :: "uchar \<Rightarrow> ustr \<Rightarrow> ustr" where
  "strip_suffix_char c s = (if s \<noteq> [] \<and> last s = c then butlast s else s)"

definition is_ascii_digit :: "uchar \<Rightarrow> bool" where
  "is_ascii_digit c \<longleftrightarrow> 48 \<le> c \<and> c \<le> 57"

definition is_ascii_alnum :: "uchar \<Rightarrow> bool" where
  "is_ascii_alnum c \<longleftrightarrow> is_ascii_digit c \<or> (65 \<le> c \<and> c \<le> 90) \<or> (97 \<le> c \<and> c \<le> 122)"

definition digits_value :: "ustr \<Rightarrow> int" where
  "digits_value s = foldl (\<lambda>acc c. 10 * acc + (int c - 48)) 0 s"

text \<open>
  \<open>str::parse\<close> to an integer type: an optional sign, at least one digit, nothing else, and a value
  in the type's range.  A sign is accepted as the type allows it.
\<close>

definition parse_unsigned :: "int \<Rightarrow> ustr \<Rightarrow> int option" where
  "parse_unsigned hi s =
     (let d = (case s of c # cs \<Rightarrow> if c = 43 then cs else s | [] \<Rightarrow> s)
      in if d \<noteq> [] \<and> list_all is_ascii_digit d \<and> digits_value d \<le> hi then Some (digits_value d) else None)"

definition parse_signed :: "int \<Rightarrow> ustr \<Rightarrow> int option" where
  "parse_signed hi s =
     (case s of
        c # cs \<Rightarrow>
          if c = 45 then
            (if cs \<noteq> [] \<and> list_all is_ascii_digit cs \<and> digits_value cs \<le> hi + 1
             then Some (- digits_value cs) else None)
          else parse_unsigned hi s
      | [] \<Rightarrow> None)"

definition parse_i32 :: "ustr \<Rightarrow> int option" where "parse_i32 = parse_signed i32_max"
definition parse_u32 :: "ustr \<Rightarrow> int option" where "parse_u32 = parse_unsigned 4294967295"

text \<open>\<open>Display\<close> of integers.\<close>

fun show_nat :: "nat \<Rightarrow> ustr" where
  "show_nat n = (if n < 10 then [48 + n] else show_nat (n div 10) @ [48 + n mod 10])"

declare show_nat.simps [simp del]

definition show_int :: "int \<Rightarrow> ustr" where
  "show_int i = (if i < 0 then 45 # show_nat (nat (- i)) else show_nat (nat i))"

section \<open>Lemmas\<close>

lemma split_by_not_Nil [simp]: "split_by p s \<noteq> []"
  by (induction s) (auto split: list.splits)

lemma split_by_none: "list_all (\<lambda>c. \<not> p c) s \<Longrightarrow> split_by p s = [s]"
  by (induction s) auto

lemma split_by_sep: "list_all (\<lambda>c. \<not> p c) s \<Longrightarrow> p c \<Longrightarrow> split_by p (s @ c # t) = s # split_by p t"
  by (induction s) auto

lemma split_by_pieces: "w \<in> set (split_by p s) \<Longrightarrow> c \<in> set w \<Longrightarrow> \<not> p c \<and> c \<in> set s"
proof (induction s arbitrary: w)
  case (Cons d s)
  obtain a ws where sp: "split_by p s = a # ws"
    by (cases "split_by p s") auto
  have IH: "\<not> p c \<and> c \<in> set s" if "u = a \<or> u \<in> set ws" "c \<in> set u" for u
    using Cons.IH [of u] that sp by auto
  show ?case
    using Cons.prems sp IH [of w] IH [of a] by (auto split: if_splits)
qed simp

lemma dropWhile_id_hd: "(s = [] \<or> \<not> p (hd s)) \<Longrightarrow> dropWhile p s = s"
  by (cases s) auto

lemma trim_matches_id:
  "s = [] \<or> (\<not> p (hd s) \<and> \<not> p (last s)) \<Longrightarrow> trim_matches p s = s"
  unfolding trim_matches_def
  by (metis dropWhile_id_hd hd_rev rev_rev_ident rev.simps(1))

lemma trim_matches_all_not: "list_all (\<lambda>c. \<not> p c) s \<Longrightarrow> trim_matches p s = s"
  by (rule trim_matches_id) (cases s, auto simp: list_all_iff)

lemma set_trim_matches: "set (trim_matches p s) \<subseteq> set s"
  unfolding trim_matches_def by (auto dest!: set_dropWhileD)

lemma digit_not_whitespace: "is_ascii_digit c \<Longrightarrow> \<not> is_whitespace c"
  by (auto simp: is_ascii_digit_def is_whitespace_def)

lemma show_nat_not_Nil [simp]: "show_nat n \<noteq> []"
  by (subst show_nat.simps) simp

lemma show_nat_digits: "list_all is_ascii_digit (show_nat n)"
proof (induction n rule: show_nat.induct)
  case (1 n)
  show ?case
  proof (cases "n < 10")
    case True
    then show ?thesis by (subst show_nat.simps) (simp add: is_ascii_digit_def)
  next
    case False
    moreover have "is_ascii_digit (48 + n mod 10)"
      using mod_less_divisor [of 10 n] by (simp add: is_ascii_digit_def)
    ultimately show ?thesis using "1" by (subst show_nat.simps) simp
  qed
qed

lemma digits_value_append: "digits_value (s @ [c]) = 10 * digits_value s + (int c - 48)"
  by (simp add: digits_value_def)

lemma digits_value_show_nat: "digits_value (show_nat n) = int n"
proof (induction n rule: show_nat.induct)
  case (1 n)
  show ?case
  proof (cases "n < 10")
    case True
    then show ?thesis by (subst show_nat.simps) (simp add: digits_value_def)
  next
    case False
    then have "digits_value (show_nat n) = 10 * digits_value (show_nat (n div 10)) + int (n mod 10)"
      by (subst show_nat.simps) (simp add: digits_value_append)
    also have "\<dots> = 10 * int (n div 10) + int (n mod 10)"
      using "1" False by simp
    also have "\<dots> = int (10 * (n div 10) + n mod 10)"
      by (simp only: of_nat_add of_nat_mult of_nat_numeral)
    also have "\<dots> = int n"
      by simp
    finally show ?thesis .
  qed
qed

lemma digits_value_nonneg: "list_all is_ascii_digit s \<Longrightarrow> 0 \<le> digits_value s"
proof (induction s rule: rev_induct)
  case (snoc c s)
  then show ?case by (simp add: digits_value_append is_ascii_digit_def)
qed (simp add: digits_value_def)

lemma parse_unsigned_digits:
  assumes "list_all is_ascii_digit s" "s \<noteq> []"
  shows "parse_unsigned hi s = (if digits_value s \<le> hi then Some (digits_value s) else None)"
proof -
  from assms obtain c cs where "s = c # cs" "c \<noteq> 43"
    by (cases s) (auto simp: is_ascii_digit_def)
  with assms show ?thesis by (simp add: parse_unsigned_def)
qed

lemma parse_signed_digits:
  assumes "list_all is_ascii_digit s" "s \<noteq> []"
  shows "parse_signed hi s = (if digits_value s \<le> hi then Some (digits_value s) else None)"
proof -
  from assms obtain c cs where "s = c # cs" "c \<noteq> 45"
    by (cases s) (auto simp: is_ascii_digit_def)
  then show ?thesis
    using parse_unsigned_digits [OF assms, of hi] by (simp add: parse_signed_def)
qed

lemma parse_unsigned_range:
  "parse_unsigned hi s = Some v \<Longrightarrow> 0 \<le> v \<and> v \<le> hi"
  by (auto simp: parse_unsigned_def Let_def digits_value_nonneg split: list.splits if_splits)

lemma parse_signed_range:
  "0 \<le> hi \<Longrightarrow> parse_signed hi s = Some v \<Longrightarrow> - hi - 1 \<le> v \<and> v \<le> hi"
proof -
  assume hi: "0 \<le> hi" and s: "parse_signed hi s = Some v"
  then obtain c cs where cs: "s = c # cs" by (cases s) (simp_all add: parse_signed_def)
  show ?thesis
  proof (cases "c = 45")
    case True
    with s cs have "list_all is_ascii_digit cs" "digits_value cs \<le> hi + 1" "v = - digits_value cs"
      by (auto simp: parse_signed_def split: if_splits)
    with digits_value_nonneg [of cs] hi show ?thesis by simp
  next
    case False
    with s cs have "parse_unsigned hi s = Some v" by (simp add: parse_signed_def)
    then show ?thesis using parse_unsigned_range hi by fastforce
  qed
qed

lemma parse_signed_nonneg:
  assumes "parse_signed hi s = Some v" "45 \<notin> set s"
  shows "0 \<le> v"
proof -
  from assms obtain c cs where "s = c # cs" "c \<noteq> 45"
    by (cases s) (auto simp: parse_signed_def)
  with assms have "parse_unsigned hi s = Some v" by (simp add: parse_signed_def)
  then show ?thesis using parse_unsigned_range by blast
qed

end
