(* ===== verification/Version.thy ===== *)
theory Version
  imports Text "HOL-Library.List_Lexorder"
begin

text \<open>
  \<open>version.rs\<close>: MAGPIE versions as three integers, their order, the two parsers and the text form.
\<close>

datatype version = Version (major: int) (minor: int) (patch: int)

definition version_zero :: version where "version_zero = Version 0 0 0"

text \<open>\<open>derive(PartialOrd, Ord)\<close> on a struct: its fields in order.\<close>

instantiation version :: linorder
begin

definition less_eq_version :: "version \<Rightarrow> version \<Rightarrow> bool" where
  "less_eq_version v w \<longleftrightarrow>
     major v < major w \<or> (major v = major w \<and>
       (minor v < minor w \<or> (minor v = minor w \<and> patch v \<le> patch w)))"

definition less_version :: "version \<Rightarrow> version \<Rightarrow> bool" where
  "less_version v w \<longleftrightarrow>
     major v < major w \<or> (major v = major w \<and>
       (minor v < minor w \<or> (minor v = minor w \<and> patch v < patch w)))"

instance
  by standard (auto simp: less_eq_version_def less_version_def version.expand)

end

definition parse_strict :: "ustr \<Rightarrow> version option" where
  "parse_strict s =
     (let parts = split_by (\<lambda>c. c = 46) (trim s)
      in if \<not> (2 \<le> length parts \<and> length parts \<le> 3)
            \<or> list_ex (\<lambda>p. p = [] \<or> \<not> list_all is_ascii_digit p) parts
         then None
         else case (parse_i32 (parts ! 0), parse_i32 (parts ! 1)) of
             (Some a, Some b) \<Rightarrow>
               (if length parts = 3
                then map_option (Version a b) (parse_i32 (parts ! 2))
                else Some (Version a b 0))
           | _ \<Rightarrow> None)"

text \<open>\<open>next()\<close> of \<open>parse_or_zero\<close>: the next part, trimmed and parsed.\<close>

definition nth_number :: "ustr list \<Rightarrow> nat \<Rightarrow> int option" where
  "nth_number parts i = (if i < length parts then parse_i32 (trim (parts ! i)) else None)"

definition parse_or_zero :: "ustr \<Rightarrow> version" where
  "parse_or_zero s =
     (let core = hd (split_by (\<lambda>c. c = 45 \<or> c = 43) (trim s));
          parts = split_by (\<lambda>c. c = 46) core
      in case (nth_number parts 0, nth_number parts 1) of
           (Some a, Some b) \<Rightarrow> Version a b (case nth_number parts 2 of Some c \<Rightarrow> c | None \<Rightarrow> 0)
         | _ \<Rightarrow> version_zero)"

definition show_version :: "version \<Rightarrow> ustr" where
  "show_version v = show_int (major v) @ [46] @ show_int (minor v) @ [46] @ show_int (patch v)"

section \<open>Lemmas\<close>

text \<open>The row comparison of the SQL statements is the order of versions.\<close>

lemma version_le_lex:
  "v \<le> w \<longleftrightarrow> [major v, minor v, patch v] \<le> [major w, minor w, patch w]"
  by (auto simp: less_eq_version_def)

lemma parse_strict_parts:
  assumes "parse_strict s = Some v"
  obtains parts where "parts = split_by (\<lambda>c. c = 46) (trim s)" "length parts = 2 \<or> length parts = 3"
    "\<forall>p\<in>set parts. p \<noteq> [] \<and> list_all is_ascii_digit p"
    "parse_i32 (parts ! 0) = Some (major v)" "parse_i32 (parts ! 1) = Some (minor v)"
    "length parts = 3 \<Longrightarrow> parse_i32 (parts ! 2) = Some (patch v)"
    "length parts = 2 \<Longrightarrow> patch v = 0"
proof -
  define parts where "parts = split_by (\<lambda>c. c = 46) (trim s)"
  have len: "length parts = 2 \<or> length parts = 3"
    and dig: "\<forall>p\<in>set parts. p \<noteq> [] \<and> list_all is_ascii_digit p"
    using assms by (auto simp: parse_strict_def Let_def parts_def list_ex_iff split: if_splits)
  have "parse_i32 (parts ! 0) = Some (major v)" "parse_i32 (parts ! 1) = Some (minor v)"
    "length parts = 3 \<Longrightarrow> parse_i32 (parts ! 2) = Some (patch v)"
    "length parts = 2 \<Longrightarrow> patch v = 0"
    using assms by (auto simp: parse_strict_def Let_def parts_def split: if_splits option.splits)
  then show ?thesis using that [OF parts_def len dig] by blast
qed

text \<open>Every character of a string is a separator or in one of its pieces.\<close>

lemma split_by_chars:
  "c \<in> set s \<Longrightarrow> p c \<or> (\<exists>w\<in>set (split_by p s). c \<in> set w)"
proof (induction s)
  case (Cons d s)
  then show ?case
    by (cases "split_by p s") (auto simp: split_by_none)
qed simp

lemma strict_chars:
  assumes "parse_strict s = Some v"
  shows "\<forall>c\<in>set (trim s). c = 46 \<or> is_ascii_digit c"
proof
  fix c assume "c \<in> set (trim s)"
  then have "c = 46 \<or> (\<exists>w\<in>set (split_by (\<lambda>c. c = 46) (trim s)). c \<in> set w)"
    using split_by_chars [of c "trim s" "\<lambda>c. c = 46"] by blast
  with assms show "c = 46 \<or> is_ascii_digit c"
    by (auto elim!: parse_strict_parts simp: list_all_iff)
qed

lemma trim_digits: "list_all is_ascii_digit w \<Longrightarrow> trim w = w"
  unfolding trim_def by (rule trim_matches_all_not) (auto simp: list_all_iff digit_not_whitespace)

lemma nth_number_digits:
  "i < length parts \<Longrightarrow> list_all is_ascii_digit (parts ! i) \<Longrightarrow>
    nth_number parts i = parse_i32 (parts ! i)"
  by (simp add: nth_number_def trim_digits)

lemma parse_i32_show_nat:
  "int n \<le> i32_max \<Longrightarrow> parse_i32 (show_nat n) = Some (int n)"
  by (simp add: parse_i32_def parse_signed_digits show_nat_digits digits_value_show_nat)

lemma show_int_nonneg: "0 \<le> i \<Longrightarrow> show_int i = show_nat (nat i)"
  by (simp add: show_int_def)

lemma split_three:
  assumes "list_all is_ascii_digit a" "list_all is_ascii_digit b" "list_all is_ascii_digit c"
  shows "split_by (\<lambda>c. c = 46) (a @ [46] @ b @ [46] @ c) = [a, b, c]"
proof -
  have nodot: "list_all (\<lambda>c. c \<noteq> 46) w" if "list_all is_ascii_digit w" for w
    using that by (auto simp: list_all_iff is_ascii_digit_def)
  show ?thesis
    using assms by (simp add: split_by_sep split_by_none nodot)
qed

text \<open>C: what an administrator's strict parse accepts, the lenient one reads the same way.\<close>

lemma strict_agrees_with_lenient:
  assumes "parse_strict s = Some v"
  shows "parse_or_zero s = v"
proof -
  obtain parts where parts: "parts = split_by (\<lambda>c. c = 46) (trim s)"
      "length parts = 2 \<or> length parts = 3"
      "\<forall>p\<in>set parts. p \<noteq> [] \<and> list_all is_ascii_digit p"
      "parse_i32 (parts ! 0) = Some (major v)" "parse_i32 (parts ! 1) = Some (minor v)"
      "length parts = 3 \<Longrightarrow> parse_i32 (parts ! 2) = Some (patch v)"
      "length parts = 2 \<Longrightarrow> patch v = 0"
    using parse_strict_parts [OF assms] by metis
  have "list_all (\<lambda>c. \<not> (c = 45 \<or> c = 43)) (trim s)"
    using strict_chars [OF assms] by (auto simp: list_all_iff is_ascii_digit_def)
  then have core: "hd (split_by (\<lambda>c. c = 45 \<or> c = 43) (trim s)) = trim s"
    by (simp add: split_by_none)
  have num: "nth_number parts i = parse_i32 (parts ! i)" if "i < length parts" for i
    using that parts(3) by (simp add: nth_number_digits)
  have "nth_number parts 0 = Some (major v)" "nth_number parts 1 = Some (minor v)"
    using num [of 0] num [of 1] parts by auto
  moreover have "(case nth_number parts 2 of Some c \<Rightarrow> c | None \<Rightarrow> 0) = patch v"
  proof (cases "length parts = 3")
    case True
    then show ?thesis using num [of 2] parts(6) by simp
  next
    case False
    then show ?thesis using parts(2,7) by (simp add: nth_number_def)
  qed
  ultimately show ?thesis
    by (simp add: parse_or_zero_def Let_def core flip: parts(1))
qed

lemma strict_show_version:
  assumes "0 \<le> major v" "major v \<le> i32_max" "0 \<le> minor v" "minor v \<le> i32_max"
    "0 \<le> patch v" "patch v \<le> i32_max"
  shows "parse_strict (show_version v) = Some v"
proof -
  let ?a = "show_nat (nat (major v))" and ?b = "show_nat (nat (minor v))" and ?c = "show_nat (nat (patch v))"
  have shown: "show_version v = ?a @ [46] @ ?b @ [46] @ ?c"
    using assms by (simp add: show_version_def show_int_nonneg)
  have "list_all (\<lambda>c. \<not> is_whitespace c) (?a @ [46] @ ?b @ [46] @ ?c)"
    using show_nat_digits digit_not_whitespace
    by (auto simp: list_all_iff is_whitespace_def)
  then have trim: "trim (show_version v) = ?a @ [46] @ ?b @ [46] @ ?c"
    unfolding shown trim_def by (rule trim_matches_all_not)
  have "parse_i32 ?a = Some (major v)" "parse_i32 ?b = Some (minor v)" "parse_i32 ?c = Some (patch v)"
    using assms by (simp_all add: parse_i32_show_nat)
  then show ?thesis
    by (simp add: parse_strict_def trim split_three [simplified] show_nat_digits)
qed

lemma lenient_nonneg:
  "0 \<le> major (parse_or_zero s) \<and> 0 \<le> minor (parse_or_zero s) \<and> 0 \<le> patch (parse_or_zero s)"
proof -
  define core where "core = hd (split_by (\<lambda>c. c = 45 \<or> c = 43) (trim s))"
  have "45 \<notin> set core"
    using split_by_pieces [of core "\<lambda>c. c = 45 \<or> c = 43" "trim s" 45]
    by (auto simp: core_def)
  then have "45 \<notin> set w" if "w \<in> set (split_by (\<lambda>c. c = 46) core)" for w
    using that split_by_pieces by blast
  then have "0 \<le> n" if "nth_number (split_by (\<lambda>c. c = 46) core) i = Some n" for i n
    using that set_trim_matches
    by (auto simp: nth_number_def parse_i32_def trim_def split: if_splits
        intro!: parse_signed_nonneg dest!: nth_mem)
  then show ?thesis
    by (auto simp: parse_or_zero_def Let_def version_zero_def core_def [symmetric]
        split: option.splits)
qed

end
