(* ===== verification/Job_Model.thy ===== *)
theory Job_Model
  imports Version
begin

text \<open>
  \<open>models/job.rs\<close>: the rows a job is configured by, and the functions on them.  A UUID is a
  natural number and a timestamp a whole number of microseconds, as Postgres stores it.
\<close>

type_synonym uuid = nat
type_synonym time = int

datatype job_type = OpeningRack | Games | GamePairs | LeaveGeneration

fun job_type_as_str :: "job_type \<Rightarrow> ustr" where
  "job_type_as_str OpeningRack = lit ''opening_rack''"
| "job_type_as_str Games = lit ''games''"
| "job_type_as_str GamePairs = lit ''game_pairs''"
| "job_type_as_str LeaveGeneration = lit ''leave_generation''"

datatype job_status = Active | Inactive | Completed

record job =
  j_id :: nat
  j_title :: ustr
  j_job_type :: job_type
  j_allocation :: int
  j_status :: job_status
  j_created_by :: "nat option"
  j_variant :: ustr
  j_letterdist_id :: nat
  j_layout_id :: nat
  j_bingo_bonus :: int
  j_sim_cutoff :: f64
  j_min_magpie_major :: int
  j_min_magpie_minor :: int
  j_min_magpie_patch :: int
  j_max_task_seconds :: int
  j_claims_issued :: int
  j_claims_baseline :: int
  j_last_claimed_at :: "time option"
  j_test_decided_status :: "ustr option"
  j_test_decided_lower :: "f64 option"
  j_test_decided_upper :: "f64 option"
  j_test_decided_units :: "int option"
  j_time_limit_declines :: int
  j_time_limit_streak :: int
  j_set_aside_reason :: "ustr option"
  j_games_completed :: int
  j_racks_analyzed :: int
  j_racks_settled :: int
  j_racks_without_consensus :: int
  j_movegens :: int
  j_created_at :: time
  j_activated_at :: "time option"

text \<open>The columns of \<open>jobs\<close> that the struct does not read back but the statements write.\<close>

record job_row = job +
  j_tasks_total :: int
  j_tasks_completed :: int
  j_compute_ms :: int
  j_time_limit_streak_since :: "time option"
  j_last_completed_at :: "time option"

definition min_magpie_version :: "'a job_scheme \<Rightarrow> version" where
  "min_magpie_version j = Version (j_min_magpie_major j) (j_min_magpie_minor j) (j_min_magpie_patch j)"

definition job_name :: "ustr \<Rightarrow> (ustr \<times> ustr) option \<Rightarrow> ustr" where
  "job_name title players =
     (let title = trim title
      in case players of
           None \<Rightarrow> title
         | Some (a, b) \<Rightarrow>
             if title = [] then a @ lit '' vs '' @ b
             else title @ lit '': '' @ a @ lit '' vs '' @ b)"

section \<open>Player configurations\<close>

record player_config =
  pc_id :: nat
  pc_name :: ustr
  pc_recorder_type :: ustr
  pc_sort_strategy :: ustr
  pc_kwg_id :: nat
  pc_klv_id :: nat
  pc_winpct_id :: "nat option"
  pc_cloned_from_id :: "nat option"
  pc_max_iterations :: "int option"
  pc_num_plies :: int
  pc_num_plies_recorded :: int
  pc_num_plays :: int
  pc_num_plays_recorded :: int
  pc_stopping_pct :: "f64 option"
  pc_use_inference :: "bool option"
  pc_time_limit_secs :: "int option"
  pc_movegens_per_move :: "int option"
  pc_use_wordmap :: bool
  pc_use_rit :: bool
  pc_use_wit :: bool
  pc_min_play_iterations :: "int option"
  pc_threshold :: "ustr option"
  pc_sampling_rule :: "ustr option"
  pc_inference_margin :: "f64 option"
  pc_utility_w_winpct :: "f64 option"
  pc_utility_w_spread :: "f64 option"
  pc_utility_spread_scale :: "f64 option"
  pc_movegen_margin :: f64
  pc_endgame_plies :: int
  pc_peg_max_bag :: int
  pc_peg_stage_top_k :: "int list option"
  pc_peg_scenario_stride :: "int option"
  pc_peg_opp_model :: "ustr option"
  pc_peg_nested :: "bool option"
  pc_peg_nested_cand_caps :: "int list option"
  pc_peg_nested_max_depth :: "int option"
  pc_peg_nested_strides :: "int list option"
  pc_created_by :: "nat option"
  pc_created_at :: time

record named_player_config =
  n_config :: player_config
  n_kwg_name :: ustr
  n_klv_name :: ustr
  n_winpct_name :: "ustr option"

section \<open>Per-type configurations\<close>

record consensus_settings =
  cs_consensus_pct :: f64
  cs_min_results_per_rack :: int
  cs_max_results_per_rack :: int

record opening_rack_config =
  oc_player_config_id :: nat
  oc_racks_per_batch :: int
  oc_rack_size :: int
  oc_total_racks :: int
  oc_consensus_pct :: f64
  oc_min_results_per_rack :: int
  oc_max_results_per_rack :: int

definition consensus :: "opening_rack_config \<Rightarrow> consensus_settings" where
  "consensus c = \<lparr>cs_consensus_pct = oc_consensus_pct c,
     cs_min_results_per_rack = oc_min_results_per_rack c,
     cs_max_results_per_rack = oc_max_results_per_rack c\<rparr>"

definition reissues :: "consensus_settings \<Rightarrow> bool" where
  "reissues s \<longleftrightarrow> cs_max_results_per_rack s > 1"

record game_config =
  gc_player1_config_id :: nat
  gc_player2_config_id :: nat
  gc_games_per_batch :: int
  gc_test_enabled :: bool
  gc_min_games :: int
  gc_max_games :: int
  gc_confidence_pct :: f64
  gc_capture_positions :: bool
  gc_threading_mode :: ustr

record game_pair_config =
  pg_player1_config_id :: nat
  pg_player2_config_id :: nat
  pg_pairs_per_batch :: int
  pg_test_enabled :: bool
  pg_min_pairs :: int
  pg_max_pairs :: int
  pg_confidence_pct :: f64
  pg_capture_positions :: bool
  pg_capture_first_divergence :: bool
  pg_threading_mode :: ustr

record leave_config =
  lc_player_config_id :: nat
  lc_num_iterations :: int
  lc_target_rack_counts :: "int list"
  lc_racks_per_task :: int

definition generation_count :: "leave_config \<Rightarrow> int" where
  "generation_count c = as_i32 (int (length (lc_target_rack_counts c)))"

text \<open>\<open>usize::try_from(generation - 1).unwrap_or(0).min(last)\<close>, then a checked read.\<close>

definition target_for :: "leave_config \<Rightarrow> int \<Rightarrow> int" where
  "target_for c generation =
     (let ts = lc_target_rack_counts c;
          last_ix = length ts - 1;
          ix = min (if generation - 1 < 0 then 0 else nat (generation - 1)) last_ix
      in if ix < length ts then ts ! ix else 1)"

record test_params =
  tp_enabled :: bool
  tp_min_units :: int
  tp_max_units :: int
  tp_confidence_pct :: f64

definition game_test_params :: "game_config \<Rightarrow> test_params" where
  "game_test_params c = \<lparr>tp_enabled = gc_test_enabled c, tp_min_units = gc_min_games c,
     tp_max_units = gc_max_games c, tp_confidence_pct = gc_confidence_pct c\<rparr>"

definition game_pair_test_params :: "game_pair_config \<Rightarrow> test_params" where
  "game_pair_test_params c = \<lparr>tp_enabled = pg_test_enabled c, tp_min_units = pg_min_pairs c,
     tp_max_units = pg_max_pairs c, tp_confidence_pct = pg_confidence_pct c\<rparr>"

section \<open>Lemmas\<close>

lemma job_type_as_str_inj: "job_type_as_str s = job_type_as_str t \<longleftrightarrow> s = t"
  by (cases s; cases t) (simp_all add: lit_def)

lemma target_for_in_range:
  "1 \<le> g \<Longrightarrow> g \<le> int (length (lc_target_rack_counts c)) \<Longrightarrow>
    target_for c g = lc_target_rack_counts c ! nat (g - 1)"
  by (auto simp: target_for_def Let_def min_def)

lemma target_for_past:
  "lc_target_rack_counts c \<noteq> [] \<Longrightarrow> int (length (lc_target_rack_counts c)) < g \<Longrightarrow>
    target_for c g = last (lc_target_rack_counts c)"
  by (auto simp: target_for_def Let_def min_def last_conv_nth)

lemma target_for_low:
  "lc_target_rack_counts c \<noteq> [] \<Longrightarrow> g \<le> 1 \<Longrightarrow> target_for c g = hd (lc_target_rack_counts c)"
  by (auto simp: target_for_def Let_def min_def hd_conv_nth)

end
