(* ===== verification/Wire.thy ===== *)
theory Wire
  imports Job_Model
begin

text \<open>
  \<open>jobs/handler.rs\<close>: the messages between the server and a worker, the records a result is stored
  as, and the functions on them.
\<close>

section \<open>Players\<close>

record player_spec =
  ps_name :: ustr
  ps_recorder_type :: ustr
  ps_sort_strategy :: ustr
  ps_lexicon :: ustr
  ps_leaves :: ustr
  ps_max_iterations :: "int option"
  ps_num_plies :: int
  ps_num_plies_recorded :: int
  ps_num_plays :: int
  ps_num_plays_recorded :: int
  ps_stopping_pct :: "f64 option"
  ps_use_inference :: "bool option"
  ps_time_limit_secs :: "int option"
  ps_movegens_per_move :: "int option"
  ps_use_wordmap :: bool
  ps_use_rit :: bool
  ps_rit_name :: "ustr option"
  ps_use_wit :: bool
  ps_min_play_iterations :: "int option"
  ps_threshold :: "ustr option"
  ps_sampling_rule :: "ustr option"
  ps_inference_margin :: "f64 option"
  ps_utility_w_winpct :: "f64 option"
  ps_utility_w_spread :: "f64 option"
  ps_utility_spread_scale :: "f64 option"
  ps_win_pct_model :: "ustr option"
  ps_movegen_margin :: f64
  ps_endgame_plies :: int
  ps_peg_max_bag :: int
  ps_peg_stage_top_k :: "int list option"
  ps_peg_scenario_stride :: "int option"
  ps_peg_opp_model :: "ustr option"
  ps_peg_nested :: "bool option"
  ps_peg_nested_cand_caps :: "int list option"
  ps_peg_nested_max_depth :: "int option"
  ps_peg_nested_strides :: "int list option"

text \<open>\<open>derived::rack_info_table_name\<close>.\<close>

definition rack_info_table_name :: "ustr \<Rightarrow> ustr \<Rightarrow> ustr" where
  "rack_info_table_name lexicon leaves = lexicon @ lit ''.'' @ leaves"

definition player_spec_of :: "named_player_config \<Rightarrow> player_spec" where
  "player_spec_of named =
     (let c = n_config named; lexicon = n_kwg_name named; leaves = n_klv_name named in \<lparr>
        ps_name = pc_name c,
        ps_recorder_type = pc_recorder_type c,
        ps_sort_strategy = pc_sort_strategy c,
        ps_lexicon = lexicon,
        ps_leaves = leaves,
        ps_max_iterations = pc_max_iterations c,
        ps_num_plies = pc_num_plies c,
        ps_num_plies_recorded = pc_num_plies_recorded c,
        ps_num_plays = pc_num_plays c,
        ps_num_plays_recorded = pc_num_plays_recorded c,
        ps_stopping_pct = pc_stopping_pct c,
        ps_use_inference = pc_use_inference c,
        ps_time_limit_secs = pc_time_limit_secs c,
        ps_movegens_per_move = pc_movegens_per_move c,
        ps_use_wordmap = pc_use_wordmap c,
        ps_use_rit = pc_use_rit c,
        ps_rit_name = (if pc_use_rit c then Some (rack_info_table_name lexicon leaves) else None),
        ps_use_wit = pc_use_wit c,
        ps_min_play_iterations = pc_min_play_iterations c,
        ps_threshold = pc_threshold c,
        ps_sampling_rule = pc_sampling_rule c,
        ps_inference_margin = pc_inference_margin c,
        ps_utility_w_winpct = pc_utility_w_winpct c,
        ps_utility_w_spread = pc_utility_w_spread c,
        ps_utility_spread_scale = pc_utility_spread_scale c,
        ps_win_pct_model = n_winpct_name named,
        ps_movegen_margin = pc_movegen_margin c,
        ps_endgame_plies = pc_endgame_plies c,
        ps_peg_max_bag = pc_peg_max_bag c,
        ps_peg_stage_top_k = pc_peg_stage_top_k c,
        ps_peg_scenario_stride = pc_peg_scenario_stride c,
        ps_peg_opp_model = pc_peg_opp_model c,
        ps_peg_nested = pc_peg_nested c,
        ps_peg_nested_cand_caps = pc_peg_nested_cand_caps c,
        ps_peg_nested_max_depth = pc_peg_nested_max_depth c,
        ps_peg_nested_strides = pc_peg_nested_strides c\<rparr>)"

section \<open>Requests\<close>

record opening_rack_request =
  or_variant :: ustr
  or_letter_distribution :: ustr
  or_board_layout :: ustr
  or_racks :: "ustr list"
  or_seed :: int
  or_bingo_bonus :: int
  or_sim_cutoff :: f64
  or_player :: player_spec

record game_request =
  gr_variant :: ustr
  gr_letter_distribution :: ustr
  gr_board_layout :: ustr
  gr_seed :: int
  gr_num_games :: int
  gr_capture_positions :: bool
  gr_capture_first_divergence :: bool
  gr_bingo_bonus :: int
  gr_sim_cutoff :: f64
  gr_threading_mode :: ustr
  gr_player1 :: player_spec
  gr_player2 :: player_spec

record leave_request =
  lr_lexicon :: ustr
  lr_variant :: ustr
  lr_letter_distribution :: ustr
  lr_board_layout :: ustr
  lr_generation :: int
  lr_seed :: int
  lr_forced_racks :: "ustr list"
  lr_previous_artifact_key :: ustr
  lr_previous_artifact_sha256 :: ustr
  lr_num_games :: int
  lr_bingo_bonus :: int
  lr_player :: player_spec

datatype task_request =
    TaskOpeningRack opening_rack_request
  | TaskGames game_request
  | TaskGamePairs game_request
  | TaskLeaveGeneration leave_request

section \<open>Responses\<close>

record ply_stats =
  ply :: int
  bingo_percentage :: f64
  average_score :: f64

record move_entry =
  me_play :: ustr
  me_score :: int
  me_equity :: f64
  me_iterations :: "int option"
  me_win_percentage :: "f64 option"
  me_blended_utility :: "f64 option"
  me_mean_spread :: "f64 option"
  me_fidelity_plies :: "int option"
  me_plies :: "ply_stats list"

record rack_analysis =
  ra_rack :: ustr
  ra_moves :: "move_entry list"
  ra_num_moves :: int

record game_aggregate =
  games :: int
  wins :: int
  losses :: int
  ties :: int
  p1_score_mean :: f64
  p1_score_sd :: f64
  p2_score_mean :: f64
  p2_score_sd :: f64

definition is_consistent :: "game_aggregate \<Rightarrow> bool" where
  "is_consistent a \<longleftrightarrow>
     games a \<ge> 0 \<and> wins a \<ge> 0 \<and> losses a \<ge> 0 \<and> ties a \<ge> 0 \<and>
     wins a + losses a + ties a = games a"

record inferred_leave =
  il_leave :: ustr
  il_draws :: int
  il_equity :: f64

record inference_summary =
  is_num_leaves :: int
  is_total_draws :: int
  is_average_equity :: f64
  is_leaves :: "inferred_leave list"

record captured_position =
  cp_game_index :: int
  cp_turn_number :: int
  cp_player :: int
  cp_rack :: ustr
  cp_position :: ustr
  cp_previous_move :: "ustr option"
  cp_previous_move_score :: "int option"
  cp_played_move :: ustr
  cp_played_move_score :: int
  cp_num_moves :: int
  cp_analysis :: ustr
  cp_moves :: "move_entry list"
  cp_inference :: "inference_summary option"

datatype analysis = Static | Sim | Peg | Endgame

definition analysis_parse :: "ustr \<Rightarrow> analysis option" where
  "analysis_parse s =
     (if s = lit ''static'' then Some Static
      else if s = lit ''sim'' then Some Sim
      else if s = lit ''peg'' then Some Peg
      else if s = lit ''endgame'' then Some Endgame
      else None)"

fun analysis_as_str :: "analysis \<Rightarrow> ustr" where
  "analysis_as_str Static = lit ''static''"
| "analysis_as_str Sim = lit ''sim''"
| "analysis_as_str Peg = lit ''peg''"
| "analysis_as_str Endgame = lit ''endgame''"

text \<open>\<open>[i64; 5]\<close>: serde refuses an array of any other length.\<close>

type_synonym pentanomial = "int list"

record game_results_response =
  rs_all_games :: game_aggregate
  rs_pentanomial :: "pentanomial option"
  rs_divergent_games :: "game_aggregate option"
  rs_positions :: "captured_position list"

record rack_occurrence =
  ro_rack :: ustr
  ro_count :: int
  ro_mean :: f64

section \<open>Records\<close>

record position_analysis =
  pa_rack :: ustr
  pa_position :: "ustr option"
  pa_game_index :: "int option"
  pa_turn_number :: "int option"
  pa_player :: "int option"
  pa_previous_move :: "ustr option"
  pa_previous_move_score :: "int option"
  pa_played_move :: "ustr option"
  pa_played_move_score :: "int option"
  pa_num_moves :: int
  pa_analysis :: analysis
  pa_moves :: "move_entry list"
  pa_inference :: "inference_summary option"

definition opening_rack_position :: "ustr \<Rightarrow> move_entry list \<Rightarrow> int \<Rightarrow> position_analysis" where
  "opening_rack_position rack moves num_moves = \<lparr>
     pa_rack = rack, pa_position = None, pa_game_index = None, pa_turn_number = None,
     pa_player = None, pa_previous_move = None, pa_previous_move_score = None,
     pa_played_move = None, pa_played_move_score = None, pa_num_moves = num_moves,
     pa_analysis = (if list_ex (\<lambda>m. me_win_percentage m \<noteq> None) moves then Sim else Static),
     pa_moves = moves, pa_inference = None\<rparr>"

record game_results_record =
  rr_all_games :: game_aggregate
  rr_pentanomial :: "pentanomial option"
  rr_divergent_games :: "game_aggregate option"
  rr_positions :: "position_analysis list"

section \<open>Lemmas\<close>

lemma analysis_parse_as_str: "analysis_parse (analysis_as_str a) = Some a"
  by (cases a) (simp_all add: analysis_parse_def lit_def)

lemma analysis_parse_Some: "analysis_parse s = Some a \<longleftrightarrow> s = analysis_as_str a"
proof
  assume "analysis_parse s = Some a"
  then show "s = analysis_as_str a"
    by (cases a) (simp_all add: analysis_parse_def split: if_split_asm)
qed (simp add: analysis_parse_as_str)

text \<open>A rack info table is named exactly when the player asks for one.\<close>

lemma player_spec_rit: "ps_rit_name (player_spec_of n) \<noteq> None \<longleftrightarrow> ps_use_rit (player_spec_of n)"
  by (simp add: player_spec_of_def Let_def)

end
