(* ===== verification/Plausibility.thy ===== *)
theory Plausibility
  imports Wire
begin

text \<open>
  \<open>jobs/plausibility.rs\<close>: the rules a submission is held to, each rejecting something impossible.
  A check returns \<open>ok\<close> or the refusal; its specification says which values it accepts, and the
  \<open>validator\<close> interpretations connect the two.
\<close>

section \<open>Bounds\<close>

definition MIN_SCORE_MEAN :: real where "MIN_SCORE_MEAN = -100"
definition MAX_SCORE_MEAN :: real where "MAX_SCORE_MEAN = 3000"
definition MAX_MOVE_SCORE :: int where "MAX_MOVE_SCORE = 100000"
definition MAX_PLAY_CHARS :: nat where "MAX_PLAY_CHARS = 256"
definition MAX_POSITION_CHARS :: nat where "MAX_POSITION_CHARS = 4096"
definition MAX_TILE_CHARS :: nat where "MAX_TILE_CHARS = 8"
definition MAX_ABS_EQUITY :: real where "MAX_ABS_EQUITY = 200000"
definition MAX_ABS_RACK_MEAN :: real where "MAX_ABS_RACK_MEAN = 5000"
definition MAX_INFERRED_LEAVES :: nat where "MAX_INFERRED_LEAVES = 10"
definition MAX_ENDGAME_FIDELITY_PLIES :: int where "MAX_ENDGAME_FIDELITY_PLIES = 25"
definition MAX_PEG_FIDELITY_PLIES :: int where "MAX_PEG_FIDELITY_PLIES = 40"
definition MAX_RACK_OCCURRENCES_PER_GAME :: int where "MAX_RACK_OCCURRENCES_PER_GAME = 1000"

text \<open>\<open>leave_gen::RACK_SIZE\<close>.\<close>

definition RACK_SIZE :: nat where "RACK_SIZE = 7"

definition f64_finite :: "f64 \<Rightarrow> check" where
  "f64_finite value = refuse_if (\<not> is_finite value) ''not a finite number''"

definition check_game_aggregate :: "game_aggregate \<Rightarrow> check" where
  "check_game_aggregate a = first_error
     [check_each f64_finite [p1_score_mean a, p1_score_sd a, p2_score_mean a, p2_score_sd a],
      refuse_if (f64_lt (p1_score_sd a) (Fin 0) \<or> f64_lt (p2_score_sd a) (Fin 0))
        ''a standard deviation cannot be negative'',
      check_each (\<lambda>mean. refuse_if (\<not> f64_within MIN_SCORE_MEAN MAX_SCORE_MEAN mean)
        ''a mean outside anything a word game can produce'') [p1_score_mean a, p2_score_mean a]]"

section \<open>Racks\<close>

text \<open>
  The inner loop of \<open>rack_tiles\<close>: the letters of a bracketed tile up to its closing bracket, and
  what follows; \<open>None\<close> for an unclosed or a nested bracket.
\<close>

fun bracketed :: "nat \<Rightarrow> ustr \<Rightarrow> (nat \<times> ustr) option" where
  "bracketed letter_chars [] = None"
| "bracketed letter_chars (c # cs) =
     (if c = 93 then Some (letter_chars, cs)
      else if c = 91 then None
      else bracketed (Suc letter_chars) cs)"

lemma bracketed_shorter: "bracketed k cs = Some (n, rest) \<Longrightarrow> length rest < length cs"
  by (induction k cs rule: bracketed.induct) (auto split: if_splits)

function rack_tiles_loop :: "nat \<Rightarrow> ustr \<Rightarrow> nat option" where
  "rack_tiles_loop tiles [] = Some tiles"
| "rack_tiles_loop tiles (c # cs) =
     (if c = 91 then
        (case bracketed 0 cs of
           None \<Rightarrow> None
         | Some (letter_chars, rest) \<Rightarrow>
             if letter_chars = 0 \<or> letter_chars > MAX_TILE_CHARS then None
             else rack_tiles_loop (Suc tiles) rest)
      else if c = 93 then None
      else rack_tiles_loop (Suc tiles) cs)"
  by pat_completeness auto
termination
  by (relation "measure (\<lambda>(_, cs). length cs)") (auto dest: bracketed_shorter)

definition rack_tiles :: "ustr \<Rightarrow> nat option" where
  "rack_tiles rack = rack_tiles_loop 0 rack"

definition check_rack :: "ustr \<Rightarrow> check" where
  "check_rack rack =
     (case rack_tiles rack of
        None \<Rightarrow> Inl (Bad_request ''a malformed bracketed tile'')
      | Some tiles \<Rightarrow> first_error
          [refuse_if (tiles = 0) ''empty rack'',
           refuse_if (tiles > RACK_SIZE) ''more tiles than a rack holds''])"

section \<open>Plays, positions and moves\<close>

definition check_play_text :: "ustr \<Rightarrow> check" where
  "check_play_text play =
     refuse_if (length play > MAX_PLAY_CHARS) ''a play of more than 256 characters''"

definition check_play_score :: "int \<Rightarrow> string \<Rightarrow> check" where
  "check_play_score score why = refuse_if (\<not> (0 \<le> score \<and> score \<le> MAX_MOVE_SCORE)) why"

definition check_position_text ::
  "ustr \<Rightarrow> ustr option \<Rightarrow> int option \<Rightarrow> check" where
  "check_position_text position previous_move previous_move_score = first_error
     [refuse_if (length position > MAX_POSITION_CHARS) ''a position of more than 4096 characters'',
      check_opt check_play_text previous_move,
      check_opt (\<lambda>score. check_play_score score ''the previous play's score'') previous_move_score]"

definition check_played_move :: "ustr \<Rightarrow> int \<Rightarrow> check" where
  "check_played_move play score = first_error
     [refuse_if (trim play = []) ''no play made from it is stated'',
      check_play_text play,
      check_play_score score ''the play made from it scores'']"

text \<open>
  \<open>check_plies\<close>: the loop carries the previous ply's number.
\<close>

fun check_plies_from :: "int option \<Rightarrow> ply_stats list \<Rightarrow> check" where
  "check_plies_from previous [] = ok"
| "check_plies_from previous (p # ps) = first_error
     [refuse_if (ply p < 0 \<or> (case previous of None \<Rightarrow> False | Some q \<Rightarrow> ply p \<le> q))
        ''a ply out of order'',
      f64_finite (bingo_percentage p),
      refuse_if (\<not> f64_within 0 100 (bingo_percentage p)) ''a bingo percentage is not a percentage'',
      f64_finite (average_score p),
      refuse_if (\<not> f64_within 0 (of_int MAX_MOVE_SCORE) (average_score p))
        ''an average score no play can score'',
      check_plies_from (Some (ply p)) ps]"

definition check_plies :: "ply_stats list \<Rightarrow> check" where
  "check_plies = check_plies_from None"

text \<open>The body of the loop over the ranked moves.\<close>

definition check_move :: "move_entry \<Rightarrow> check" where
  "check_move e = first_error
     [check_play_text (me_play e),
      refuse_if (me_score e < 0 \<or> me_score e > MAX_MOVE_SCORE) ''no play can score'',
      f64_finite (me_equity e),
      refuse_if (f64_lt (Fin MAX_ABS_EQUITY) (f64_abs (me_equity e))) ''an implausible equity'',
      refuse_if (case me_iterations e of None \<Rightarrow> False | Some n \<Rightarrow> n < 0)
        ''simulated a negative number of times'',
      check_opt (\<lambda>w. first_error [f64_finite w,
        refuse_if (\<not> f64_within 0 100 w) ''a win percentage is not a percentage''])
        (me_win_percentage e),
      check_opt (\<lambda>u. first_error [f64_finite u,
        refuse_if (\<not> f64_within 0 1 u) ''a blended utility outside [0, 1]''])
        (me_blended_utility e),
      check_plies (me_plies e)]"

text \<open>The count is compared as \<open>usize\<close> only once it is known not to be negative.\<close>

definition check_moves :: "move_entry list \<Rightarrow> int option \<Rightarrow> check" where
  "check_moves moves num_moves = first_error
     [check_opt (\<lambda>n. refuse_if (n < 0 \<or> nat n < length moves)
        ''more moves reported than generated'') num_moves,
      check_each check_move moves]"

section \<open>Inferences\<close>

fun check_leaves_from :: "int \<Rightarrow> int \<Rightarrow> inferred_leave list \<Rightarrow> check" where
  "check_leaves_from total_draws previous [] = ok"
| "check_leaves_from total_draws previous (l # ls) = first_error
     [refuse_if (case rack_tiles (il_leave l) of None \<Rightarrow> True | Some tiles \<Rightarrow> tiles \<ge> RACK_SIZE)
        ''not a leave'',
      refuse_if (il_draws l < 1 \<or> il_draws l > total_draws \<or> il_draws l > previous)
        ''out of order or out of draws'',
      refuse_if (\<not> is_finite (il_equity l) \<or> f64_lt (Fin MAX_ABS_EQUITY) (f64_abs (il_equity l)))
        ''an inferred leave's equity'',
      check_leaves_from total_draws (il_draws l) ls]"

definition check_inference ::
  "inference_summary \<Rightarrow> analysis \<Rightarrow> int \<Rightarrow> bool \<Rightarrow> check" where
  "check_inference i an turn_number has_previous_move = first_error
     [refuse_if (an \<noteq> Sim) ''an inference comes with a simulation'',
      refuse_if (turn_number = 0 \<or> \<not> has_previous_move)
        ''an inference needs the opponent's previous move'',
      refuse_if (length (is_leaves i) > MAX_INFERRED_LEAVES) ''at most ten leaves'',
      refuse_if (is_num_leaves i < int (length (is_leaves i)) \<or> is_total_draws i < 0)
        ''more leaves listed than found'',
      refuse_if (\<not> is_finite (is_average_equity i) \<or>
          f64_lt (Fin MAX_ABS_EQUITY) (f64_abs (is_average_equity i)))
        ''an inferred average equity'',
      check_leaves_from (is_total_draws i) i64_max (is_leaves i)]"

section \<open>NUL characters\<close>

definition nul_digits :: ustr where "nul_digits = lit ''u0000''"

text \<open>\<open>json[from..].find("u0000").map(|i| from + i)\<close>.\<close>

definition find_nul_digits :: "ustr \<Rightarrow> nat \<Rightarrow> nat option" where
  "find_nul_digits json from =
     find (\<lambda>i. take 5 (drop i json) = nul_digits) [from..<length json]"

definition backslashes_before :: "ustr \<Rightarrow> nat \<Rightarrow> nat" where
  "backslashes_before json i = length (takeWhile (\<lambda>b. b = 92) (rev (take i json)))"

lemma find_nul_digits_Some:
  "find_nul_digits json from = Some i \<Longrightarrow> from \<le> i \<and> i < length json"
  by (auto simp: find_nul_digits_def find_Some_iff)

function refuse_nul_from :: "ustr \<Rightarrow> nat \<Rightarrow> check" where
  "refuse_nul_from json from =
     (case find_nul_digits json from of
        None \<Rightarrow> ok
      | Some i \<Rightarrow>
          if odd (backslashes_before json i) then Inl (Bad_request ''a NUL character'')
          else refuse_nul_from json (i + 5))"
  by pat_completeness auto
termination
  by (relation "measure (\<lambda>(json, from). length json - from)") (auto dest: find_nul_digits_Some)

declare refuse_nul_from.simps [simp del]

definition refuse_nul :: "ustr \<Rightarrow> check" where
  "refuse_nul json = refuse_nul_from json 0"

section \<open>How a position was analysed\<close>

definition deepest_peg_fidelity :: "int list option \<Rightarrow> int" where
  "deepest_peg_fidelity stage_top_k =
     (case stage_top_k of
        None \<Rightarrow> MAX_PEG_FIDELITY_PLIES
      | Some stages \<Rightarrow>
          if stages = [i32_max] then MAX_PEG_FIDELITY_PLIES
          else as_i32 (int (length stages)) + 1)"

text \<open>A solved position's move: its spread, and the depth it was ranked at.\<close>

definition check_solver_stats :: "int \<Rightarrow> move_entry \<Rightarrow> check" where
  "check_solver_stats deepest e =
     (case (me_mean_spread e, me_fidelity_plies e) of
        (Some spread, Some fidelity) \<Rightarrow> first_error
          [f64_finite spread,
           refuse_if (f64_lt (Fin MAX_ABS_EQUITY) (f64_abs spread)) ''an implausible spread'',
           refuse_if (\<not> (0 \<le> fidelity \<and> fidelity \<le> deepest)) ''an implausible depth'']
      | _ \<Rightarrow> Inl (Bad_request ''needs its mean_spread and fidelity_plies''))"

text \<open>The body of the loop over the moves.\<close>

definition check_analysed_move :: "analysis \<Rightarrow> move_entry \<Rightarrow> check" where
  "check_analysed_move an e =
     (let solved = (an = Peg \<or> an = Endgame);
          has_solver_stats = (me_mean_spread e \<noteq> None \<or> me_fidelity_plies e \<noteq> None)
      in first_error
        [refuse_if (an \<noteq> Sim \<and>
            ((case me_iterations e of None \<Rightarrow> False | Some n \<Rightarrow> n > 0) \<or> me_plies e \<noteq> []))
          ''carries a simulation's iterations or plies'',
         refuse_if (\<not> solved \<and> has_solver_stats) ''carries a solver's spread or depth'',
         (if solved
          then check_solver_stats
            (if an = Peg then MAX_PEG_FIDELITY_PLIES else MAX_ENDGAME_FIDELITY_PLIES) e
          else ok),
         (if an = Peg \<and> me_win_percentage e = None
          then Inl (Bad_request ''needs its win_percentage'')
          else if (an = Endgame \<or> an = Static) \<and>
              (me_win_percentage e \<noteq> None \<or> me_blended_utility e \<noteq> None)
          then Inl (Bad_request ''carries a simulation's statistics'')
          else ok)])"

definition check_analysis :: "analysis \<Rightarrow> move_entry list \<Rightarrow> check" where
  "check_analysis an moves = first_error
     [refuse_if (an = Endgame \<and> length moves \<noteq> 1) ''an endgame analysis reports the one move'',
      check_each (check_analysed_move an) moves]"

text \<open>
  \<open>check_analyses_against_players\<close>: the player who moved is the one the position names, or any
  player of the task when it names none.
\<close>

definition movers_of :: "player_spec list \<Rightarrow> position_analysis \<Rightarrow> player_spec list app_result" where
  "movers_of players position =
     (case pa_player position of
        None \<Rightarrow> Inr players
      | Some seat \<Rightarrow>
          if seat \<ge> 1 \<and> nat (seat - 1) < length players then Inr [players ! nat (seat - 1)]
          else Inl (Bad_request ''the task has no such player''))"

definition max_of :: "int list \<Rightarrow> int option" where
  "max_of xs = (case xs of [] \<Rightarrow> None | y # ys \<Rightarrow> Some (foldl max y ys))"

definition deeper_than :: "int \<Rightarrow> position_analysis \<Rightarrow> bool" where
  "deeper_than deepest position \<longleftrightarrow>
     list_ex (\<lambda>m. case me_fidelity_plies m of None \<Rightarrow> False | Some d \<Rightarrow> d > deepest) (pa_moves position)"

definition check_analysis_against_movers :: "player_spec list \<Rightarrow> position_analysis \<Rightarrow> check" where
  "check_analysis_against_movers movers position =
     (let simulates = list_ex (\<lambda>p. ps_num_plies p > 0) movers;
          infers = list_ex (\<lambda>p. ps_num_plies p > 0 \<and> ps_use_inference p \<noteq> Some False) movers;
          deepest_endgame = max_of (filter (\<lambda>d. d > 0) (map ps_endgame_plies movers));
          deepest_peg = max_of (map (\<lambda>p. deepest_peg_fidelity (ps_peg_stage_top_k p))
             (filter (\<lambda>p. ps_endgame_plies p > 0 \<and> ps_peg_max_bag p > 0) movers))
      in first_error
        [(case pa_analysis position of
            Static \<Rightarrow> ok
          | Sim \<Rightarrow> refuse_if (\<not> simulates) ''a simulation, and no player of this task simulates''
          | Peg \<Rightarrow> (case deepest_peg of
                None \<Rightarrow> Inl (Bad_request ''a pre-endgame solve, and no player of this task runs one'')
              | Some deepest \<Rightarrow> refuse_if (deeper_than deepest position)
                  ''a pre-endgame ranked deeper than any player's schedule reaches'')
          | Endgame \<Rightarrow> (case deepest_endgame of
                None \<Rightarrow> Inl (Bad_request ''an endgame solve, and no player of this task solves one'')
              | Some deepest \<Rightarrow> refuse_if (deeper_than deepest position)
                  ''an endgame solved deeper than any player's plies'')),
         refuse_if (pa_inference position \<noteq> None \<and> \<not> infers)
           ''an inference, and no player of this task infers''])"

definition check_analyses_against_players ::
  "position_analysis list \<Rightarrow> player_spec list \<Rightarrow> check" where
  "check_analyses_against_players positions players =
     check_each (\<lambda>position. and_then (movers_of players position)
       (\<lambda>movers. check_analysis_against_movers movers position)) positions"

section \<open>Leave generation\<close>

text \<open>The loop body of \<open>check_rack_occurrences\<close>; \<open>seen\<close> is the set it inserts into.\<close>

definition check_occurrence :: "rack_occurrence \<Rightarrow> check" where
  "check_occurrence r = first_error
     [check_rack (ro_rack r),
      refuse_if ((case rack_tiles (ro_rack r) of None \<Rightarrow> 0 | Some tiles \<Rightarrow> tiles) \<noteq> RACK_SIZE)
        ''leave generation reports full racks'',
      refuse_if (ro_count r < 1) ''a rack that did not occur'',
      f64_finite (ro_mean r),
      refuse_if (f64_lt (Fin MAX_ABS_RACK_MEAN) (f64_abs (ro_mean r))) ''an implausible mean equity'']"

fun check_occurrences_from :: "ustr list \<Rightarrow> rack_occurrence list \<Rightarrow> check" where
  "check_occurrences_from seen [] = ok"
| "check_occurrences_from seen (r # rs) = first_error
     [check_occurrence r,
      refuse_if (ro_rack r \<in> set seen) ''appears more than once'',
      check_occurrences_from (ro_rack r # seen) rs]"

definition check_rack_occurrences :: "rack_occurrence list \<Rightarrow> check" where
  "check_rack_occurrences = check_occurrences_from []"

fun occurrence_total_from :: "int \<Rightarrow> int \<Rightarrow> rack_occurrence list \<Rightarrow> check" where
  "occurrence_total_from bound so_far [] = ok"
| "occurrence_total_from bound so_far (r # rs) =
     (let so_far' = sat_i64 (so_far + ro_count r)
      in if so_far' > bound then Inl (Bad_request ''a game cannot draw that many racks'')
         else occurrence_total_from bound so_far' rs)"

definition check_rack_occurrence_total :: "rack_occurrence list \<Rightarrow> int \<Rightarrow> check" where
  "check_rack_occurrence_total racks num_games =
     occurrence_total_from (sat_i64 (max num_games 0 * MAX_RACK_OCCURRENCES_PER_GAME)) 0 racks"

section \<open>Batch sizes\<close>

definition games_dispatched :: "int \<Rightarrow> bool \<Rightarrow> int" where
  "games_dispatched batch_size game_pairs =
     (if game_pairs then sat_i32 (batch_size * 2) else batch_size)"

definition check_batch_size :: "int \<Rightarrow> int \<Rightarrow> check" where
  "check_batch_size reported_games expected_games =
     refuse_if (reported_games \<noteq> expected_games) ''this task dispatched another number of games''"

end
