(* ===== verification/Plausibility_Spec.thy ===== *)
theory Plausibility_Spec
  imports Plausibility
begin

text \<open>
  What the checks of \<open>jobs/plausibility.rs\<close> accept, stated without their loops and early returns:
  a grammar for racks, a reading of JSON escapes, and bounds on every reported number.  Each check
  is connected to its specification by an \<open>iff\<close>, collected in \<open>spec_iff\<close>.
\<close>

section \<open>Rack spellings\<close>

text \<open>
  How MAGPIE spells a tile: one character other than a bracket, or one to eight of them between
  brackets.  A rack is its tiles one after another.
\<close>

inductive tile :: "ustr \<Rightarrow> bool" where
  single: "c \<noteq> 91 \<Longrightarrow> c \<noteq> 93 \<Longrightarrow> tile [c]"
| bracket: "w \<noteq> [] \<Longrightarrow> length w \<le> MAX_TILE_CHARS \<Longrightarrow> 91 \<notin> set w \<Longrightarrow> 93 \<notin> set w \<Longrightarrow>
     tile (91 # w @ [93])"

inductive_simps tile_Nil [simp]: "tile []"
inductive_cases tileE: "tile t"

definition spells :: "ustr \<Rightarrow> ustr list \<Rightarrow> bool" where
  "spells rack ts \<longleftrightarrow> rack = concat ts \<and> list_all tile ts"

lemma bracketed_Some:
  "bracketed k cs = Some (n, rest) \<longleftrightarrow>
     (\<exists>w. cs = w @ 93 # rest \<and> 91 \<notin> set w \<and> 93 \<notin> set w \<and> n = k + length w)"
proof (induction k cs rule: bracketed.induct)
  case (2 k c cs)
  show ?case
  proof (cases "c = 93 \<or> c = 91")
    case True
    then show ?thesis by (auto simp: Cons_eq_append_conv)
  next
    case False
    with 2 show ?thesis
      by (fastforce simp: Cons_eq_append_conv)
  qed
qed simp

lemma rack_tiles_loop_sound:
  "rack_tiles_loop k cs = Some n \<Longrightarrow> \<exists>ts. spells cs ts \<and> n = k + length ts"
proof (induction k cs rule: rack_tiles_loop.induct)
  case (1 tiles)
  then show ?case by (intro exI [of _ "[]"]) (simp add: spells_def)
next
  case (2 tiles c cs)
  show ?case
  proof (cases "c = 91")
    case True
    with 2(3) obtain m rest where br: "bracketed 0 cs = Some (m, rest)"
        "m \<noteq> 0" "m \<le> MAX_TILE_CHARS" "rack_tiles_loop (Suc tiles) rest = Some n"
      by (auto split: option.splits if_splits)
    then obtain ts where ts: "spells rest ts" "n = Suc tiles + length ts"
      using 2(1) [OF True br(1)] by auto
    from br obtain w where w: "cs = w @ 93 # rest" "91 \<notin> set w" "93 \<notin> set w" "m = length w"
      by (auto simp: bracketed_Some)
    then have "tile (91 # w @ [93])"
      using br by (intro tile.bracket) auto
    with ts w True show ?thesis
      by (intro exI [of _ "(91 # w @ [93]) # ts"]) (simp add: spells_def)
  next
    case False
    with 2(3) have c: "c \<noteq> 93" "rack_tiles_loop (Suc tiles) cs = Some n"
      by (auto split: if_splits)
    then obtain ts where "spells cs ts" "n = Suc tiles + length ts"
      using 2(2) [OF False c(1)] by auto
    with False c show ?thesis
      by (intro exI [of _ "[c] # ts"]) (simp add: spells_def tile.single)
  qed
qed

lemma rack_tiles_loop_tile:
  assumes "tile t"
  shows "rack_tiles_loop k (t @ cs) = rack_tiles_loop (Suc k) cs"
  using assms
proof cases
  case (bracket w)
  have "bracketed 0 (w @ 93 # cs) = Some (length w, cs)"
    using bracket by (auto simp: bracketed_Some)
  with bracket show ?thesis by simp
qed simp

lemma rack_tiles_loop_complete:
  "spells cs ts \<Longrightarrow> rack_tiles_loop k cs = Some (k + length ts)"
  by (induction ts arbitrary: cs k) (auto simp: spells_def rack_tiles_loop_tile)

lemma rack_tiles_spells: "rack_tiles rack = Some n \<longleftrightarrow> (\<exists>ts. spells rack ts \<and> length ts = n)"
  using rack_tiles_loop_sound [of 0 rack n] rack_tiles_loop_complete [of rack _ 0]
  by (auto simp: rack_tiles_def)

text \<open>The spelling is unambiguous.\<close>

lemma sep_unique: "v @ c # x = w @ c # y \<Longrightarrow> c \<notin> set v \<Longrightarrow> c \<notin> set w \<Longrightarrow> v = w"
proof (induction v arbitrary: w)
  case Nil
  then show ?case by (cases w) auto
next
  case (Cons a v)
  then show ?case by (cases w) auto
qed

lemma tile_prefix: "tile s \<Longrightarrow> tile t \<Longrightarrow> s @ x = t @ y \<Longrightarrow> s = t"
proof (elim tileE)
  fix v w assume *: "s @ x = t @ y" "s = 91 # v @ [93]" "t = 91 # w @ [93]"
    "93 \<notin> set v" "93 \<notin> set w"
  then have "v @ 93 # x = w @ 93 # y" by simp
  then have "v = w"
    using *(4,5) by (rule sep_unique)
  with * show "s = t" by simp
qed auto

lemma spells_unique: "spells rack ts \<Longrightarrow> spells rack us \<Longrightarrow> ts = us"
proof (induction ts arbitrary: rack us)
  case Nil
  then show ?case by (cases us) (auto simp: spells_def)
next
  case (Cons t ts)
  then obtain u us' where us: "us = u # us'"
    by (cases us) (auto simp: spells_def)
  with Cons.prems have "t = u"
    by (intro tile_prefix [of t u "concat ts" "concat us'"]) (auto simp: spells_def)
  with Cons us show ?case by (auto simp: spells_def)
qed

section \<open>What each check accepts\<close>

definition rack_ok :: "ustr \<Rightarrow> bool" where
  "rack_ok rack \<longleftrightarrow> (\<exists>ts. spells rack ts \<and> 1 \<le> length ts \<and> length ts \<le> RACK_SIZE)"

lemma check_rack_iff [spec_iff]: "check_rack rack = ok \<longleftrightarrow> rack_ok rack"
proof (cases "rack_tiles rack")
  case None
  then have "\<nexists>ts. spells rack ts"
    using rack_tiles_spells [of rack] by auto
  with None show ?thesis by (simp add: check_rack_def rack_ok_def)
next
  case (Some n)
  then obtain ts where ts: "spells rack ts" "length ts = n"
    by (auto simp: rack_tiles_spells)
  then have "rack_ok rack \<longleftrightarrow> 1 \<le> n \<and> n \<le> RACK_SIZE"
    using spells_unique by (auto simp: rack_ok_def)
  with Some show ?thesis by (auto simp: check_rack_def)
qed

definition finite_within :: "real \<Rightarrow> real \<Rightarrow> f64 \<Rightarrow> bool" where
  "finite_within lo hi x \<longleftrightarrow> (\<exists>r. x = Fin r \<and> lo \<le> r \<and> r \<le> hi)"

lemma finite_within_simps [simp]:
  "finite_within lo hi (Fin r) \<longleftrightarrow> lo \<le> r \<and> r \<le> hi"
  "\<not> finite_within lo hi PInf" "\<not> finite_within lo hi NInf" "\<not> finite_within lo hi NaN"
  by (simp_all add: finite_within_def)

lemma f64_finite_ok [simp]: "f64_finite x = ok \<longleftrightarrow> is_finite x"
  by (simp add: f64_finite_def)

lemma f64_within_finite [simp]: "f64_within lo hi x \<longleftrightarrow> finite_within lo hi x"
  by (simp add: f64_within_iff finite_within_def)

lemma finite_within_is_finite: "finite_within lo hi x \<Longrightarrow> is_finite x"
  by (auto simp: finite_within_def)

lemma finite_abs_iff:
  "is_finite x \<and> \<not> f64_lt (Fin b) (f64_abs x) \<longleftrightarrow> finite_within (- b) b x"
  by (cases x) auto

definition aggregate_plausible :: "game_aggregate \<Rightarrow> bool" where
  "aggregate_plausible a \<longleftrightarrow>
     finite_within MIN_SCORE_MEAN MAX_SCORE_MEAN (p1_score_mean a) \<and>
     finite_within MIN_SCORE_MEAN MAX_SCORE_MEAN (p2_score_mean a) \<and>
     (\<exists>s. p1_score_sd a = Fin s \<and> 0 \<le> s) \<and> (\<exists>s. p2_score_sd a = Fin s \<and> 0 \<le> s)"

lemma check_game_aggregate_iff [spec_iff]: "check_game_aggregate a = ok \<longleftrightarrow> aggregate_plausible a"
proof -
  have sd: "is_finite x \<and> \<not> f64_lt x (Fin 0) \<longleftrightarrow> (\<exists>s. x = Fin s \<and> 0 \<le> s)" for x
    by (cases x) auto
  show ?thesis
    unfolding check_game_aggregate_def aggregate_plausible_def
    by (auto simp: check_each_ok finite_within_is_finite simp flip: sd)
qed

definition play_text_ok :: "ustr \<Rightarrow> bool" where
  "play_text_ok play \<longleftrightarrow> length play \<le> MAX_PLAY_CHARS"

definition play_score_ok :: "int \<Rightarrow> bool" where
  "play_score_ok score \<longleftrightarrow> 0 \<le> score \<and> score \<le> MAX_MOVE_SCORE"

lemma check_play_text_iff [spec_iff]: "check_play_text play = ok \<longleftrightarrow> play_text_ok play"
  by (auto simp: check_play_text_def play_text_ok_def)

lemma check_play_score_iff [spec_iff]: "check_play_score score why = ok \<longleftrightarrow> play_score_ok score"
  by (auto simp: check_play_score_def play_score_ok_def)

lemma check_position_text_iff [spec_iff]:
  "check_position_text position prev score = ok \<longleftrightarrow>
     length position \<le> MAX_POSITION_CHARS \<and> pred_option play_text_ok prev \<and>
     pred_option play_score_ok score"
  by (cases prev; cases score) (auto simp: check_position_text_def spec_iff)

lemma check_played_move_iff [spec_iff]:
  "check_played_move play score = ok \<longleftrightarrow> trim play \<noteq> [] \<and> play_text_ok play \<and> play_score_ok score"
  by (auto simp: check_played_move_def spec_iff)

definition ply_ok :: "ply_stats \<Rightarrow> bool" where
  "ply_ok p \<longleftrightarrow> 0 \<le> ply p \<and> finite_within 0 100 (bingo_percentage p) \<and>
     finite_within 0 (of_int MAX_MOVE_SCORE) (average_score p)"

text \<open>Plies are numbered from 0 upwards, ascending.\<close>

definition plies_ok :: "ply_stats list \<Rightarrow> bool" where
  "plies_ok ps \<longleftrightarrow> list_all ply_ok ps \<and> sorted_wrt (<) (map ply ps)"

lemma check_plies_from_iff:
  "check_plies_from prev ps = ok \<longleftrightarrow> plies_ok ps \<and> (\<forall>q p. prev = Some q \<longrightarrow> p \<in> set ps \<longrightarrow> q < ply p)"
proof (induction prev ps rule: check_plies_from.induct)
  case (2 prev p ps)
  show ?case
    unfolding check_plies_from.simps first_error_Cons_ok 2
    by (cases prev) (auto simp: plies_ok_def ply_ok_def finite_within_is_finite)
qed (simp add: plies_ok_def)

lemma check_plies_iff [spec_iff]: "check_plies ps = ok \<longleftrightarrow> plies_ok ps"
  by (simp add: check_plies_def check_plies_from_iff)

definition move_ok :: "move_entry \<Rightarrow> bool" where
  "move_ok e \<longleftrightarrow> play_text_ok (me_play e) \<and> play_score_ok (me_score e) \<and>
     finite_within (- MAX_ABS_EQUITY) MAX_ABS_EQUITY (me_equity e) \<and>
     pred_option (\<lambda>n. 0 \<le> n) (me_iterations e) \<and>
     pred_option (finite_within 0 100) (me_win_percentage e) \<and>
     pred_option (finite_within 0 1) (me_blended_utility e) \<and>
     plies_ok (me_plies e)"

lemma check_move_iff [spec_iff]: "check_move e = ok \<longleftrightarrow> move_ok e"
proof -
  have opt: "check_opt (\<lambda>w. first_error [f64_finite w, refuse_if (\<not> f64_within lo hi w) why]) v = ok
      \<longleftrightarrow> pred_option (finite_within lo hi) v" for lo hi why v
    by (cases v) (auto simp: finite_within_is_finite)
  show ?thesis
    unfolding check_move_def first_error_Cons_ok opt move_ok_def
    by (cases "me_iterations e")
      (auto simp: spec_iff play_score_ok_def simp flip: finite_abs_iff)
qed

interpretation rack: validator check_rack rack_ok
  by unfold_locales (rule check_rack_iff)

interpretation aggregate: validator check_game_aggregate aggregate_plausible
  by unfold_locales (rule check_game_aggregate_iff)

interpretation move: validator check_move move_ok
  by unfold_locales (rule check_move_iff)

lemma check_moves_iff [spec_iff]:
  "check_moves moves num_moves = ok \<longleftrightarrow>
     pred_option (\<lambda>n. int (length moves) \<le> n) num_moves \<and> list_all move_ok moves"
  by (cases num_moves) (auto simp: check_moves_def move.each)

section \<open>Inferences\<close>

definition leave_ok :: "int \<Rightarrow> inferred_leave \<Rightarrow> bool" where
  "leave_ok total_draws l \<longleftrightarrow>
     (\<exists>ts. spells (il_leave l) ts \<and> length ts < RACK_SIZE) \<and>
     1 \<le> il_draws l \<and> il_draws l \<le> total_draws \<and>
     finite_within (- MAX_ABS_EQUITY) MAX_ABS_EQUITY (il_equity l)"

lemma leave_tiles_iff:
  "(case rack_tiles s of None \<Rightarrow> True | Some tiles \<Rightarrow> tiles \<ge> RACK_SIZE) \<longleftrightarrow>
     \<not> (\<exists>ts. spells s ts \<and> length ts < RACK_SIZE)"
proof (cases "rack_tiles s")
  case None
  then show ?thesis using rack_tiles_spells [of s] by auto
next
  case (Some n)
  then obtain ts where "spells s ts" "length ts = n" by (auto simp: rack_tiles_spells)
  then have "(\<exists>ts. spells s ts \<and> length ts < RACK_SIZE) \<longleftrightarrow> n < RACK_SIZE"
    using spells_unique by blast
  with Some show ?thesis by auto
qed

lemma check_leaves_from_iff:
  "check_leaves_from total_draws previous ls = ok \<longleftrightarrow>
     list_all (leave_ok total_draws) ls \<and> sorted_wrt (\<ge>) (map il_draws ls) \<and>
     (\<forall>l\<in>set ls. il_draws l \<le> previous)"
proof (induction total_draws previous ls rule: check_leaves_from.induct)
  case (2 total_draws previous l ls)
  show ?case
    unfolding check_leaves_from.simps first_error_Cons_ok 2 leave_tiles_iff
    by (auto simp: leave_ok_def [of total_draws l] simp flip: finite_abs_iff)
qed simp

text \<open>
  An inference is believable when it goes with a simulation that had an opponent's move to infer
  from, and lists at most ten leaves, most drawn first, none drawn more often than all together.
\<close>

definition inference_ok :: "inference_summary \<Rightarrow> analysis \<Rightarrow> int \<Rightarrow> bool \<Rightarrow> bool" where
  "inference_ok i an turn has_previous \<longleftrightarrow>
     an = Sim \<and> turn \<noteq> 0 \<and> has_previous \<and>
     length (is_leaves i) \<le> MAX_INFERRED_LEAVES \<and>
     int (length (is_leaves i)) \<le> is_num_leaves i \<and> 0 \<le> is_total_draws i \<and>
     finite_within (- MAX_ABS_EQUITY) MAX_ABS_EQUITY (is_average_equity i) \<and>
     list_all (leave_ok (is_total_draws i)) (is_leaves i) \<and>
     sorted_wrt (\<ge>) (map il_draws (is_leaves i))"

lemma check_inference_iff:
  assumes "is_total_draws i \<le> i64_max"
  shows "check_inference i an turn has_previous = ok \<longleftrightarrow> inference_ok i an turn has_previous"
proof -
  have "\<forall>l\<in>set (is_leaves i). il_draws l \<le> i64_max"
    if "list_all (leave_ok (is_total_draws i)) (is_leaves i)"
    using that assms by (fastforce simp: list_all_iff leave_ok_def)
  then show ?thesis
    unfolding check_inference_def first_error_Cons_ok check_leaves_from_iff inference_ok_def
    by (auto simp flip: finite_abs_iff)
qed

section \<open>NUL characters\<close>

text \<open>
  What a JSON reader sees: \<open>esc\<close> says whether the previous character was a backslash that escapes
  the next one.  A NUL is the escape \<open>u0000\<close>.
\<close>

fun reads_nul :: "bool \<Rightarrow> ustr \<Rightarrow> bool" where
  "reads_nul esc [] = False"
| "reads_nul esc (c # cs) =
     ((esc \<and> take 5 (c # cs) = nul_digits) \<or> reads_nul (c = 92 \<and> \<not> esc) cs)"

lemma backslashes_before_Suc:
  "i < length json \<Longrightarrow> backslashes_before json (Suc i) =
     (if json ! i = 92 then Suc (backslashes_before json i) else 0)"
  by (simp add: backslashes_before_def take_Suc_conv_app_nth)

lemma backslashes_before_0 [simp]: "backslashes_before json 0 = 0"
  by (simp add: backslashes_before_def)

lemma reads_nul_drop:
  "i \<le> length json \<Longrightarrow> reads_nul (odd (backslashes_before json i)) (drop i json) \<longleftrightarrow>
     (\<exists>j\<ge>i. j < length json \<and> take 5 (drop j json) = nul_digits \<and> odd (backslashes_before json j))"
proof (induction "length json - i" arbitrary: i)
  case 0
  then show ?case by simp
next
  case (Suc n)
  then have i: "i < length json" by simp
  then have dr: "drop i json = json ! i # drop (Suc i) json"
    by (simp add: Cons_nth_drop_Suc)
  have esc: "(json ! i = 92 \<and> \<not> odd (backslashes_before json i)) =
      odd (backslashes_before json (Suc i))"
    using i by (simp add: backslashes_before_Suc)
  have IH: "reads_nul (odd (backslashes_before json (Suc i))) (drop (Suc i) json) \<longleftrightarrow>
     (\<exists>j\<ge>Suc i. j < length json \<and> take 5 (drop j json) = nul_digits \<and> odd (backslashes_before json j))"
    using Suc by (intro Suc.hyps) auto
  have "reads_nul (odd (backslashes_before json i)) (drop i json) \<longleftrightarrow>
     (odd (backslashes_before json i) \<and> take 5 (drop i json) = nul_digits) \<or>
     reads_nul (odd (backslashes_before json (Suc i))) (drop (Suc i) json)"
    by (subst dr) (simp only: reads_nul.simps esc dr)
  then show ?case
    unfolding IH using i by (metis Suc_leD le_antisym not_less_eq_eq order_refl)
qed

lemma find_nul_digits_next:
  assumes "find_nul_digits json from = Some i"
  shows "take 5 (drop i json) = nul_digits" "from \<le> i" "i < length json"
    "\<And>j. from \<le> j \<Longrightarrow> j < i \<Longrightarrow> take 5 (drop j json) \<noteq> nul_digits"
proof -
  from assms obtain k where k: "k < length [from..<length json]" "i = [from..<length json] ! k"
      "take 5 (drop i json) = nul_digits"
      "\<forall>j<k. take 5 (drop ([from..<length json] ! j) json) \<noteq> nul_digits"
    unfolding find_nul_digits_def find_Some_iff by auto
  then have i: "i = from + k" by simp
  with k show "take 5 (drop i json) = nul_digits" "from \<le> i" "i < length json" by auto
  fix j assume j: "from \<le> j" "j < i"
  then have "j - from < k" "[from..<length json] ! (j - from) = j"
    using i k(1) by auto
  with k(4) show "take 5 (drop j json) \<noteq> nul_digits" by metis
qed

text \<open>The match cannot overlap itself, so going on five characters later misses nothing.\<close>

lemma match_nth:
  assumes "take 5 (drop i s) = nul_digits" "k < 5"
  shows "s ! (i + k) = nul_digits ! k"
proof -
  have "length (take 5 (drop i s)) = 5"
    using assms(1) by (simp add: nul_digits_def lit_def)
  then have "i + k < length s" using assms(2) by auto
  then have "take 5 (drop i s) ! k = s ! (i + k)" using assms(2) by simp
  with assms(1) show ?thesis by simp
qed

lemma nul_digits_no_overlap:
  assumes "take 5 (drop i s) = nul_digits" "i < j" "j < i + 5"
  shows "take 5 (drop j s) \<noteq> nul_digits"
proof
  assume "take 5 (drop j s) = nul_digits"
  then have "s ! j = nul_digits ! 0" using match_nth [of j s 0] by simp
  moreover have "s ! j = nul_digits ! (j - i)"
    using match_nth [OF assms(1), of "j - i"] assms by simp
  moreover have "j - i \<in> {1, 2, 3, 4}" using assms by auto
  ultimately show False by (auto simp: nul_digits_def lit_def)
qed

lemma refuse_nul_from_iff:
  "refuse_nul_from json from = ok \<longleftrightarrow>
     (\<forall>j\<ge>from. j < length json \<longrightarrow> take 5 (drop j json) = nul_digits \<longrightarrow>
        even (backslashes_before json j))"
proof (induction json "from" rule: refuse_nul_from.induct)
  case (1 json "from")
  show ?case
  proof (cases "find_nul_digits json from")
    case None
    then have "\<forall>j\<ge>from. j < length json \<longrightarrow> take 5 (drop j json) \<noteq> nul_digits"
      by (auto simp: find_nul_digits_def find_None_iff)
    with None show ?thesis by (subst refuse_nul_from.simps) simp
  next
    case (Some i)
    note i = find_nul_digits_next [OF Some]
    have split: "(\<forall>j\<ge>from. P j) \<longleftrightarrow> (\<forall>j. from \<le> j \<and> j < i \<longrightarrow> P j) \<and> P i \<and>
        (\<forall>j. i < j \<and> j < i + 5 \<longrightarrow> P j) \<and> (\<forall>j\<ge>i + 5. P j)" (is "?L \<longleftrightarrow> ?R")
      for P :: "nat \<Rightarrow> bool"
    proof
      assume R: ?R
      show ?L
      proof (intro allI impI)
        fix j assume "from \<le> j"
        then consider "from \<le> j" "j < i" | "j = i" | "i < j" "j < i + 5" | "i + 5 \<le> j" by linarith
        then show "P j" using R by cases auto
      qed
    qed (use i(2) in auto)
    show ?thesis
      unfolding split [of "\<lambda>j. j < length json \<longrightarrow> take 5 (drop j json) = nul_digits \<longrightarrow>
        even (backslashes_before json j)"]
      using 1 [OF Some] Some i(1,3) i(4) nul_digits_no_overlap [OF i(1)]
      by (subst refuse_nul_from.simps) auto
  qed
qed

lemma refuse_nul_iff: "refuse_nul json = ok \<longleftrightarrow> \<not> reads_nul False json"
  using reads_nul_drop [of 0 json] by (auto simp: refuse_nul_def refuse_nul_from_iff)

section \<open>How a position was analysed\<close>

definition solver_stats_ok :: "int \<Rightarrow> move_entry \<Rightarrow> bool" where
  "solver_stats_ok deepest e \<longleftrightarrow>
     (\<exists>s d. me_mean_spread e = Some s \<and> me_fidelity_plies e = Some d \<and>
        finite_within (- MAX_ABS_EQUITY) MAX_ABS_EQUITY s \<and> 0 \<le> d \<and> d \<le> deepest)"

definition no_simulation :: "move_entry \<Rightarrow> bool" where
  "no_simulation e \<longleftrightarrow> \<not> (\<exists>n>0. me_iterations e = Some n) \<and> me_plies e = []"

fun analysed_move_ok :: "analysis \<Rightarrow> move_entry \<Rightarrow> bool" where
  "analysed_move_ok Static e \<longleftrightarrow> no_simulation e \<and> me_mean_spread e = None \<and>
     me_fidelity_plies e = None \<and> me_win_percentage e = None \<and> me_blended_utility e = None"
| "analysed_move_ok Sim e \<longleftrightarrow> me_mean_spread e = None \<and> me_fidelity_plies e = None"
| "analysed_move_ok Peg e \<longleftrightarrow> no_simulation e \<and> solver_stats_ok MAX_PEG_FIDELITY_PLIES e \<and>
     me_win_percentage e \<noteq> None"
| "analysed_move_ok Endgame e \<longleftrightarrow> no_simulation e \<and> solver_stats_ok MAX_ENDGAME_FIDELITY_PLIES e \<and>
     me_win_percentage e = None \<and> me_blended_utility e = None"

lemma no_simulation_iff:
  "\<not> ((case me_iterations e of None \<Rightarrow> False | Some n \<Rightarrow> n > 0) \<or> me_plies e \<noteq> []) \<longleftrightarrow> no_simulation e"
  by (cases "me_iterations e") (auto simp: no_simulation_def)

lemma check_solver_stats_iff [spec_iff]:
  "check_solver_stats deepest e = ok \<longleftrightarrow> solver_stats_ok deepest e"
  unfolding check_solver_stats_def
  by (cases "me_mean_spread e"; cases "me_fidelity_plies e")
    (auto simp: solver_stats_ok_def simp flip: finite_abs_iff)

lemma check_analysed_move_iff [spec_iff]:
  "check_analysed_move an e = ok \<longleftrightarrow> analysed_move_ok an e"
  unfolding check_analysed_move_def Let_def first_error_Cons_ok
  by (cases an) (auto simp: check_solver_stats_iff no_simulation_iff [symmetric])

interpretation analysed: validator "check_analysed_move an" "analysed_move_ok an" for an
  by unfold_locales (rule check_analysed_move_iff)

lemma check_analysis_iff [spec_iff]:
  "check_analysis an moves = ok \<longleftrightarrow>
     (an = Endgame \<longrightarrow> length moves = 1) \<and> list_all (analysed_move_ok an) moves"
  by (auto simp: check_analysis_def analysed.each)

section \<open>Analyses against the players of the task\<close>

definition no_deeper :: "int \<Rightarrow> position_analysis \<Rightarrow> bool" where
  "no_deeper deepest position \<longleftrightarrow>
     (\<forall>m\<in>set (pa_moves position). pred_option (\<lambda>d. d \<le> deepest) (me_fidelity_plies m))"

text \<open>What one player could have run, from its settings alone.\<close>

fun could_run :: "analysis \<Rightarrow> position_analysis \<Rightarrow> player_spec \<Rightarrow> bool" where
  "could_run Static position p \<longleftrightarrow> True"
| "could_run Sim position p \<longleftrightarrow> ps_num_plies p > 0"
| "could_run Peg position p \<longleftrightarrow> ps_endgame_plies p > 0 \<and> ps_peg_max_bag p > 0 \<and>
     no_deeper (deepest_peg_fidelity (ps_peg_stage_top_k p)) position"
| "could_run Endgame position p \<longleftrightarrow> ps_endgame_plies p > 0 \<and>
     no_deeper (ps_endgame_plies p) position"

definition could_infer :: "player_spec \<Rightarrow> bool" where
  "could_infer p \<longleftrightarrow> ps_num_plies p > 0 \<and> ps_use_inference p \<noteq> Some False"

definition mover_of :: "player_spec list \<Rightarrow> position_analysis \<Rightarrow> player_spec set" where
  "mover_of players position =
     (case pa_player position of None \<Rightarrow> set players
      | Some seat \<Rightarrow> {p. \<exists>i < length players. seat = int i + 1 \<and> p = players ! i})"

definition position_possible :: "player_spec list \<Rightarrow> position_analysis \<Rightarrow> bool" where
  "position_possible players position \<longleftrightarrow>
     (\<exists>p\<in>mover_of players position. could_run (pa_analysis position) position p) \<and>
     (pa_inference position \<noteq> None \<longrightarrow> (\<exists>p\<in>mover_of players position. could_infer p))"

lemma deeper_than_iff: "deeper_than d position \<longleftrightarrow> \<not> no_deeper d position"
proof -
  have "(case v of None \<Rightarrow> False | Some x \<Rightarrow> x > d) \<longleftrightarrow> \<not> pred_option (\<lambda>x. x \<le> d) v" for v
    by (cases v) auto
  then show ?thesis by (auto simp: deeper_than_def no_deeper_def list_ex_iff)
qed

lemma foldl_max_ge: "foldl max (y::int) ys \<ge> y \<and> (\<forall>x\<in>set ys. x \<le> foldl max y ys)"
  by (induction ys arbitrary: y) (auto, (meson max.boundedE order_trans)+)

lemma foldl_max_in: "foldl max (y::int) ys \<in> insert y (set ys)"
proof (induction ys arbitrary: y)
  case (Cons a ys)
  have "max y a \<in> {y, a}" by (auto simp: max_def)
  with Cons [of "max y a"] show ?case by auto
qed simp

lemma max_of_Some: "max_of xs = Some m \<longleftrightarrow> m \<in> set xs \<and> (\<forall>x\<in>set xs. x \<le> m)"
proof (cases xs)
  case (Cons y ys)
  then show ?thesis
    using foldl_max_ge [of y ys] foldl_max_in [of y ys]
    by (auto simp: max_of_def) (metis order_antisym)+
qed (simp add: max_of_def)

lemma max_of_None [simp]: "max_of xs = None \<longleftrightarrow> xs = []"
  by (cases xs) (simp_all add: max_of_def)

lemma no_deeper_mono: "no_deeper d position \<Longrightarrow> d \<le> d' \<Longrightarrow> no_deeper d' position"
  by (auto simp: no_deeper_def pred_option_def)

text \<open>The deepest schedule among the movers refuses nothing that some mover reaches.\<close>

lemma deepest_iff:
  "(case max_of ds of None \<Rightarrow> Inl err
     | Some deepest \<Rightarrow> refuse_if (deeper_than deepest position) why) = ok \<longleftrightarrow>
   (\<exists>d\<in>set ds. no_deeper d position)"
proof (cases "max_of ds")
  case (Some m)
  then have m: "m \<in> set ds" "\<forall>x\<in>set ds. x \<le> m" by (auto simp: max_of_Some)
  then have "(\<exists>d\<in>set ds. no_deeper d position) \<longleftrightarrow> no_deeper m position"
    using no_deeper_mono by blast
  with Some show ?thesis by (simp add: deeper_than_iff)
next
  case None
  then have "ds = []" by (cases ds) (simp_all add: max_of_def)
  with None show ?thesis by (simp add: max_of_def)
qed

lemma check_analysis_against_movers_iff:
  assumes "movers \<noteq> []"
  shows "check_analysis_against_movers movers position = ok \<longleftrightarrow>
     (\<exists>p\<in>set movers. could_run (pa_analysis position) position p) \<and>
     (pa_inference position \<noteq> None \<longrightarrow> (\<exists>p\<in>set movers. could_infer p))"
  unfolding check_analysis_against_movers_def Let_def first_error_Cons_ok
  using assms
  by (cases "pa_analysis position")
    (auto simp: deepest_iff list_ex_iff could_infer_def neq_Nil_conv)

lemma check_position_against_players_iff:
  assumes "players \<noteq> []"
  shows "and_then (movers_of players position)
      (\<lambda>movers. check_analysis_against_movers movers position) = ok \<longleftrightarrow>
    position_possible players position"
proof (cases "pa_player position")
  case None
  then show ?thesis
    using assms by (simp add: movers_of_def check_analysis_against_movers_iff position_possible_def mover_of_def)
next
  case (Some seat)
  show ?thesis
  proof (cases "seat \<ge> 1 \<and> nat (seat - 1) < length players")
    case True
    then have "mover_of players position = {players ! nat (seat - 1)}"
      using Some by (auto simp: mover_of_def)
    with True Some show ?thesis
      by (simp add: movers_of_def check_analysis_against_movers_iff position_possible_def)
  next
    case False
    then have "mover_of players position = {}"
      using Some by (auto simp: mover_of_def)
    with False Some show ?thesis
      by (auto simp: movers_of_def position_possible_def)
  qed
qed

lemma check_analyses_against_players_iff:
  "players \<noteq> [] \<Longrightarrow> check_analyses_against_players positions players = ok \<longleftrightarrow>
     list_all (position_possible players) positions"
  by (simp add: check_analyses_against_players_def check_each_ok list_all_iff
      check_position_against_players_iff)

section \<open>Leave generation\<close>

definition occurrence_ok :: "rack_occurrence \<Rightarrow> bool" where
  "occurrence_ok r \<longleftrightarrow> (\<exists>ts. spells (ro_rack r) ts \<and> length ts = RACK_SIZE) \<and> 1 \<le> ro_count r \<and>
     finite_within (- MAX_ABS_RACK_MEAN) MAX_ABS_RACK_MEAN (ro_mean r)"

lemma full_rack_iff:
  "rack_ok s \<and> (case rack_tiles s of None \<Rightarrow> 0 | Some tiles \<Rightarrow> tiles) = RACK_SIZE \<longleftrightarrow>
     (\<exists>ts. spells s ts \<and> length ts = RACK_SIZE)"
proof (cases "rack_tiles s")
  case None
  then have "\<nexists>ts. spells s ts" using rack_tiles_spells [of s] by auto
  then show ?thesis by (auto simp: rack_ok_def)
next
  case (Some n)
  then obtain ts where ts: "spells s ts" "length ts = n" by (auto simp: rack_tiles_spells)
  then have "(\<exists>us. spells s us \<and> length us = RACK_SIZE) \<longleftrightarrow> n = RACK_SIZE"
    using spells_unique by blast
  moreover have "n = RACK_SIZE \<Longrightarrow> rack_ok s"
    using ts by (auto simp: rack_ok_def RACK_SIZE_def)
  ultimately show ?thesis using Some by auto
qed

lemma check_occurrence_iff [spec_iff]: "check_occurrence r = ok \<longleftrightarrow> occurrence_ok r"
proof -
  have "check_occurrence r = ok \<longleftrightarrow>
      (rack_ok (ro_rack r) \<and>
        (case rack_tiles (ro_rack r) of None \<Rightarrow> 0 | Some tiles \<Rightarrow> tiles) = RACK_SIZE) \<and>
      1 \<le> ro_count r \<and>
      (is_finite (ro_mean r) \<and> \<not> f64_lt (Fin MAX_ABS_RACK_MEAN) (f64_abs (ro_mean r)))"
    unfolding check_occurrence_def first_error_Cons_ok check_rack_iff by auto
  then show ?thesis
    unfolding full_rack_iff finite_abs_iff occurrence_ok_def .
qed

lemma check_occurrences_from_iff:
  "check_occurrences_from seen rs = ok \<longleftrightarrow>
     list_all occurrence_ok rs \<and> distinct (map ro_rack rs) \<and> set (map ro_rack rs) \<inter> set seen = {}"
  by (induction seen rs rule: check_occurrences_from.induct) (auto simp: check_occurrence_iff)

lemma check_rack_occurrences_iff [spec_iff]:
  "check_rack_occurrences rs = ok \<longleftrightarrow> list_all occurrence_ok rs \<and> distinct (map ro_rack rs)"
  by (simp add: check_rack_occurrences_def check_occurrences_from_iff)

lemma sum_counts_nonneg: "list_all (\<lambda>r. 0 \<le> ro_count r) rs \<Longrightarrow> 0 \<le> sum_list (map ro_count rs)"
  by (induction rs) auto

text \<open>
  The saturating running total is over the bound exactly when the exact one ends there: no count
  is negative, so the total only grows, and a saturated total is over any bound below the largest
  \<open>i64\<close>.
\<close>

lemma occurrence_total_from_iff:
  assumes "list_all (\<lambda>r. 0 \<le> ro_count r) rs" "0 \<le> so_far" "so_far \<le> bound" "bound < i64_max"
  shows "occurrence_total_from bound so_far rs = ok \<longleftrightarrow> so_far + sum_list (map ro_count rs) \<le> bound"
  using assms
proof (induction bound so_far rs rule: occurrence_total_from.induct)
  case (2 bound so_far r rs)
  have sat: "sat_i64 (so_far + ro_count r) > bound \<longleftrightarrow> so_far + ro_count r > bound"
    using 2(2-5) by (auto simp: sat_i64_def i64_max_def)
  show ?case
  proof (cases "so_far + ro_count r > bound")
    case True
    with 2(2) sum_counts_nonneg [of rs] sat show ?thesis by (simp add: Let_def)
  next
    case False
    then have "sat_i64 (so_far + ro_count r) = so_far + ro_count r"
      using 2(2-5) by (intro sat_i64_id) (auto simp: int_width_defs)
    with 2 False show ?thesis by (simp add: Let_def add.assoc)
  qed
qed simp

lemma check_rack_occurrence_total_iff:
  assumes "list_all (\<lambda>r. 0 \<le> ro_count r) racks" "in_i32 num_games"
  shows "check_rack_occurrence_total racks num_games = ok \<longleftrightarrow>
     sum_list (map ro_count racks) \<le> max num_games 0 * MAX_RACK_OCCURRENCES_PER_GAME"
proof -
  have "sat_i64 (max num_games 0 * MAX_RACK_OCCURRENCES_PER_GAME) =
      max num_games 0 * MAX_RACK_OCCURRENCES_PER_GAME"
    "max num_games 0 * MAX_RACK_OCCURRENCES_PER_GAME < i64_max"
    "0 \<le> max num_games 0 * MAX_RACK_OCCURRENCES_PER_GAME"
    using assms(2)
    by (auto simp: sat_i64_def int_width_defs MAX_RACK_OCCURRENCES_PER_GAME_def max_def)
  then show ?thesis
    using assms(1)
    by (simp add: check_rack_occurrence_total_def occurrence_total_from_iff)
qed

section \<open>Properties\<close>

text \<open>
  \<open>check_rack\<close> accepts a rack exactly when it can be read as one to seven tiles, each a single
  character other than a bracket or one to eight of them between brackets; so no bracket is
  unclosed, nested, stray or empty, and the tiles of a multi-character letter count once.
\<close>

theorem check_rack_accepts_tile_spellings:
  "check_rack rack = ok \<longleftrightarrow>
     (\<exists>ts. rack = concat ts \<and> list_all tile ts \<and> 1 \<le> length ts \<and> length ts \<le> RACK_SIZE)"
  by (simp add: check_rack_iff rack_ok_def spells_def)

text \<open>
  \<open>refuse_nul\<close> refuses a JSON text exactly when a reader that tracks escapes meets the NUL
  escape: counting the backslashes before each match agrees with reading the text from its start,
  an escaped backslash followed by the same digits is let through, and skipping past a match
  misses no other.
\<close>

theorem refuse_nul_finds_every_escaped_nul:
  "refuse_nul json = ok \<longleftrightarrow> \<not> reads_nul False json"
  by (rule refuse_nul_iff)

text \<open>
  A captured position's inference is accepted exactly when it goes with a simulation that had
  an opponent's previous move to infer from, and lists at most ten leaves of fewer than seven tiles,
  no more than were found, most drawn first, none drawn more often than all together, with every
  equity finite and in range.
\<close>

theorem check_inference_accepts:
  assumes "is_total_draws i \<le> i64_max"
  shows "check_inference i an turn has_previous = ok \<longleftrightarrow>
     an = Sim \<and> turn \<noteq> 0 \<and> has_previous \<and>
     length (is_leaves i) \<le> 10 \<and>
     int (length (is_leaves i)) \<le> is_num_leaves i \<and> 0 \<le> is_total_draws i \<and>
     finite_within (-200000) 200000 (is_average_equity i) \<and>
     list_all (leave_ok (is_total_draws i)) (is_leaves i) \<and>
     sorted_wrt (\<ge>) (map il_draws (is_leaves i))"
  using check_inference_iff [OF assms]
  by (simp add: inference_ok_def MAX_INFERRED_LEAVES_def MAX_ABS_EQUITY_def)

definition sample_inference :: inference_summary where
  "sample_inference = \<lparr>is_num_leaves = 2, is_total_draws = 5, is_average_equity = Fin 1,
     is_leaves = [\<lparr>il_leave = lit ''AE'', il_draws = 3, il_equity = Fin 2\<rparr>,
       \<lparr>il_leave = lit ''[L.L]S'', il_draws = 1, il_equity = Fin 0\<rparr>]\<rparr>"

theorem check_inference_accepts_witness:
  "length (is_leaves sample_inference) \<le> 10 \<and>
   sorted_wrt (\<ge>) (map il_draws (is_leaves sample_inference)) \<and>
   list_all (leave_ok 5) (is_leaves sample_inference)"
proof -
  have "check_inference sample_inference Sim 4 True = ok"
    by (simp add: check_inference_def sample_inference_def rack_tiles_def RACK_SIZE_def lit_def
        MAX_TILE_CHARS_def MAX_ABS_EQUITY_def MAX_INFERRED_LEAVES_def i64_max_def
        finite_within_def)
  moreover have "is_total_draws sample_inference \<le> i64_max"
    by (simp add: sample_inference_def i64_max_def)
  ultimately show ?thesis
    using check_inference_accepts [of sample_inference Sim 4 True]
    by (simp add: sample_inference_def)
qed

text \<open>
  \<open>check_analyses_against_players\<close> accepts a result exactly when each position's stated analysis
  is one some player who could have moved was configured to run (the player the position names, or
  any player of the task): a simulation by one with plies, an endgame solve or a pre-endgame within
  the depth that player's own settings reach, an inference by one that simulates and was not told
  not to infer.
\<close>

theorem check_analyses_against_players_exact:
  "check_analyses_against_players positions (p # ps) = ok \<longleftrightarrow>
     list_all (position_possible (p # ps)) positions"
  by (simp add: check_analyses_against_players_iff)

text \<open>
  Leave generation's racks are accepted exactly when each is a full rack of seven tiles that
  occurred, with a finite mean in range, no two the same rack, and all occurrences together no more
  than a thousand a game played; the saturating total decides as the exact one would.
\<close>

theorem leave_results_accepted:
  assumes "in_i32 num_games"
  shows "check_rack_occurrences racks = ok \<and> check_rack_occurrence_total racks num_games = ok \<longleftrightarrow>
     list_all occurrence_ok racks \<and> distinct (map ro_rack racks) \<and>
     sum_list (map ro_count racks) \<le> max num_games 0 * 1000"
proof -
  have "list_all occurrence_ok racks \<Longrightarrow> list_all (\<lambda>r. 0 \<le> ro_count r) racks"
    by (auto simp: list_all_iff occurrence_ok_def)
  then show ?thesis
    using check_rack_occurrence_total_iff [OF _ assms, of racks]
    by (auto simp: check_rack_occurrences_iff MAX_RACK_OCCURRENCES_PER_GAME_def)
qed

theorem leave_results_accepted_witness:
  "check_rack_occurrences [\<lparr>ro_rack = lit ''AEINRST'', ro_count = 2, ro_mean = Fin 30\<rparr>] = ok \<and>
   \<not> (check_rack_occurrences [\<lparr>ro_rack = lit ''AEINRST'', ro_count = 2001, ro_mean = Fin 30\<rparr>] = ok \<and>
      check_rack_occurrence_total
        [\<lparr>ro_rack = lit ''AEINRST'', ro_count = 2001, ro_mean = Fin 30\<rparr>] 2 = ok)"
proof
  show "check_rack_occurrences [\<lparr>ro_rack = lit ''AEINRST'', ro_count = 2, ro_mean = Fin 30\<rparr>] = ok"
    by (simp add: check_rack_occurrences_def check_occurrence_def check_rack_def rack_tiles_def
        RACK_SIZE_def lit_def MAX_ABS_RACK_MEAN_def)
qed (use leave_results_accepted [of 2 "[\<lparr>ro_rack = lit ''AEINRST'', ro_count = 2001, ro_mean = Fin 30\<rparr>]"]
    in \<open>simp add: int_width_defs\<close>)

end
