(* ===== verification/Racks.thy ===== *)
theory Racks
  imports Text
begin

text \<open>
  \<open>jobs/racks.rs\<close>: reading a letter distribution, enumerating the racks that can be drawn from its
  bag, and the index that names the racks of a task by their numbers.  The bytes of a file are
  decoded as \<open>str::from_utf8\<close> does; Unicode's upper-case mapping is a parameter.
\<close>

section \<open>UTF-8\<close>

definition is_cont :: "nat \<Rightarrow> bool" where
  "is_cont b \<longleftrightarrow> 128 \<le> b \<and> b < 192"

text \<open>One character at the front of the bytes, and the rest; \<open>None\<close> where the bytes are not UTF-8.\<close>

definition decode_char :: "nat list \<Rightarrow> (uchar \<times> nat list) option" where
  "decode_char bs =
     (case bs of
        [] \<Rightarrow> None
      | a # bs1 \<Rightarrow>
          if a < 128 then Some (a, bs1)
          else if a < 194 then None
          else if a < 224 then
            (case bs1 of b # r \<Rightarrow> if is_cont b then Some ((a - 192) * 64 + (b - 128), r) else None
             | _ \<Rightarrow> None)
          else if a < 240 then
            (case bs1 of b # c # r \<Rightarrow>
               if is_cont b \<and> is_cont c \<and> (a = 224 \<longrightarrow> 160 \<le> b) \<and> (a = 237 \<longrightarrow> b < 160)
               then Some ((a - 224) * 4096 + (b - 128) * 64 + (c - 128), r) else None
             | _ \<Rightarrow> None)
          else if a < 245 then
            (case bs1 of b # c # d # r \<Rightarrow>
               if is_cont b \<and> is_cont c \<and> is_cont d \<and> (a = 240 \<longrightarrow> 144 \<le> b) \<and> (a = 244 \<longrightarrow> b < 144)
               then Some ((a - 240) * 262144 + (b - 128) * 4096 + (c - 128) * 64 + (d - 128), r)
               else None
             | _ \<Rightarrow> None)
          else None)"

lemma decode_char_shorter: "decode_char bs = Some (c, r) \<Longrightarrow> length r < length bs"
  by (auto simp: decode_char_def split: list.splits if_splits)

function utf8_decode :: "nat list \<Rightarrow> ustr option" where
  "utf8_decode bs =
     (if bs = [] then Some []
      else (case decode_char bs of
              None \<Rightarrow> None
            | Some (c, r) \<Rightarrow> map_option ((#) c) (utf8_decode r)))"
  by pat_completeness auto
termination
  by (relation "measure length") (auto dest: decode_char_shorter)

declare utf8_decode.simps [simp del]

section \<open>Letter distributions\<close>

record tile_row =
  tl_letter :: uchar
  tl_count :: nat

record letter_row =
  lt_letter :: ustr
  lt_blank :: ustr
  lt_score :: int

record letter_distribution =
  ld_name :: ustr
  ld_bytes :: "nat list"
  ld_tiles :: "tile_row list"
  ld_letters :: "letter_row list"
  ld_unenumerable :: "string option"

definition MAGPIE_MAX_ALPHABET_SIZE :: nat where "MAGPIE_MAX_ALPHABET_SIZE = 50"
definition MAGPIE_MAX_LETTER_BYTES :: nat where "MAGPIE_MAX_LETTER_BYTES = 4"

definition malformed :: "string \<Rightarrow> app_error" where
  "malformed why = Internal why"

text \<open>The columns of one line: empty fields dropped first, then a trailing return of each.\<close>

definition columns :: "ustr \<Rightarrow> ustr list" where
  "columns line =
     map (strip_suffix_char 13) (filter (\<lambda>c. c \<noteq> []) (split_by (\<lambda>c. c = 44) line))"

definition number :: "ustr \<Rightarrow> ustr" where
  "number c = trim_matches (\<lambda>x. x = 32 \<or> x = 9) c"

text \<open>What the checks of one line leave: the letter, its row, and its count.\<close>

definition parse_line :: "ustr \<Rightarrow> (uchar \<times> letter_row \<times> nat) app_result" where
  "parse_line raw =
     (let cols = columns (strip_suffix_char 13 raw);
          token = cols ! 0
      in if length cols \<noteq> 5 \<and> length cols \<noteq> 7 then Inl (malformed ''expected 5 or 7 columns'')
      else if trim token \<noteq> token \<or> trim (cols ! 1) \<noteq> cols ! 1
      then Inl (malformed ''space around a letter'')
      else and_then (ok_or (case token of [] \<Rightarrow> None | c # _ \<Rightarrow> Some c) (malformed ''empty letter''))
        (\<lambda>letter.
          if utf8_len token > MAGPIE_MAX_LETTER_BYTES \<or> utf8_len (cols ! 1) > MAGPIE_MAX_LETTER_BYTES
          then Inl (malformed ''a letter longer than 4 bytes'')
          else if length cols = 7 \<and> (utf8_len (cols ! 5) > 5 \<or> utf8_len (cols ! 6) > 5)
          then Inl (malformed ''a display form longer than 5 bytes'')
          else and_then (ok_or (parse_u32 (number (cols ! 2))) (Internal ''non-numeric tile count''))
            (\<lambda>count.
              if count > 255 then Inl (malformed ''a tile count above 255'')
              else and_then (ok_or (parse_i32 (number (cols ! 3))) (malformed ''non-numeric score''))
                (\<lambda>score.
                  if number (cols ! 4) \<noteq> lit ''0'' \<and> number (cols ! 4) \<noteq> lit ''1''
                  then Inl (malformed ''is_vowel must be 0 or 1'')
                  else Inr (letter,
                    \<lparr>lt_letter = token, lt_blank = cols ! 1, lt_score = score\<rparr>, nat count)))))"

text \<open>The state the loop over the lines keeps.\<close>

record parse_state =
  pst_tiles :: "tile_row list"
  pst_machine_letters :: "uchar list"
  pst_letters :: "letter_row list"
  pst_unenumerable :: "string option"

definition add_letter :: "parse_state \<Rightarrow> uchar \<times> letter_row \<times> nat \<Rightarrow> parse_state" where
  "add_letter s = (\<lambda>(letter, row, count).
     s\<lparr>pst_unenumerable :=
         (if pst_unenumerable s = None then
            (if length (lt_letter row) > 1 then Some ''a multi-character letter''
             else if letter \<in> set (pst_machine_letters s) then Some ''a duplicate letter''
             else None)
          else pst_unenumerable s),
       pst_machine_letters := pst_machine_letters s @ [letter],
       pst_letters := pst_letters s @ [row],
       pst_tiles := (if count > 0 then pst_tiles s @ [\<lparr>tl_letter = letter, tl_count = count\<rparr>]
                     else pst_tiles s)\<rparr>)"

fun parse_lines :: "parse_state \<Rightarrow> ustr list \<Rightarrow> parse_state app_result" where
  "parse_lines s [] = Inr s"
| "parse_lines s (raw # rest) =
     (if raw = [] then parse_lines s rest
      else and_then (parse_line raw) (\<lambda>l. parse_lines (add_letter s l) rest))"

definition parse :: "nat list \<Rightarrow> ustr \<Rightarrow> letter_distribution app_result" where
  "parse bytes origin =
     and_then (ok_or (utf8_decode bytes) (Internal ''not UTF-8'')) (\<lambda>text.
     and_then (parse_lines \<lparr>pst_tiles = [], pst_machine_letters = [], pst_letters = [],
                 pst_unenumerable = None\<rparr> (split_by (\<lambda>c. c = 10) text)) (\<lambda>s.
       if pst_tiles s = [] then Inl (Internal ''contains no tiles'')
       else if length (pst_machine_letters s) > MAGPIE_MAX_ALPHABET_SIZE
       then Inl (Internal ''too many letters'')
       else Inr \<lparr>ld_name = origin, ld_bytes = bytes, ld_tiles = sort_key tl_letter (pst_tiles s),
              ld_letters = pst_letters s, ld_unenumerable = pst_unenumerable s\<rparr>))"

section \<open>Canonical racks\<close>

definition position_of :: "letter_row list \<Rightarrow> ustr \<Rightarrow> nat option" where
  "position_of letters letter =
     find (\<lambda>i. lt_letter (letters ! i) = letter) [0..<length letters]"

definition starts_with :: "ustr \<Rightarrow> ustr \<Rightarrow> bool" where
  "starts_with s p \<longleftrightarrow> take (length p) s = p"

text \<open>\<open>Iterator::max_by_key\<close> keeps the last of the largest.\<close>

fun max_by_key :: "('a \<Rightarrow> nat) \<Rightarrow> 'a list \<Rightarrow> 'a option" where
  "max_by_key k [] = None"
| "max_by_key k (x # xs) =
     (case max_by_key k xs of None \<Rightarrow> Some x | Some y \<Rightarrow> Some (if k x > k y then x else y))"

definition longest_letter :: "letter_row list \<Rightarrow> ustr \<Rightarrow> nat option" where
  "longest_letter letters rest =
     max_by_key (\<lambda>i. utf8_len (lt_letter (letters ! i)))
       (filter (\<lambda>i. starts_with rest (lt_letter (letters ! i))) [0..<length letters])"

text \<open>The next tile of what was typed: its machine letter and the characters it takes.\<close>

definition next_tile :: "letter_row list \<Rightarrow> ustr \<Rightarrow> (nat \<times> nat) option" where
  "next_tile letters rest =
     (if rest \<noteq> [] \<and> hd rest = 91 then
        (let w = takeWhile (\<lambda>c. c \<noteq> 93) (tl rest)
         in if length w = length (tl rest) then None
            else map_option (\<lambda>ml. (ml, length w + 2)) (position_of letters w))
      else map_option (\<lambda>ml. (ml, length (lt_letter (letters ! ml)))) (longest_letter letters rest))"

text \<open>
  The loop does not end on a letter of no characters, which \<open>parse\<close> refuses: the outer option
  is whether it returns, the inner one whether everything typed is a tile.
\<close>

partial_function (option) read_tiles ::
  "letter_row list \<Rightarrow> ustr \<Rightarrow> nat list \<Rightarrow> nat list option option" where
  "read_tiles letters rest tiles =
     (if rest = [] then Some (Some tiles)
      else (case next_tile letters rest of
              None \<Rightarrow> Some None
            | Some (ml, n) \<Rightarrow> read_tiles letters (drop n rest) (tiles @ [ml])))"

definition spell_letter :: "ustr \<Rightarrow> ustr" where
  "spell_letter letter = (if length letter > 1 then 91 # letter @ [93] else letter)"

text \<open>Sorted by \<open>(ml == 0, ml)\<close>: the blank last.\<close>

definition sort_tiles :: "nat list \<Rightarrow> nat list" where
  "sort_tiles tiles = sort (filter (\<lambda>ml. ml \<noteq> 0) tiles) @ filter (\<lambda>ml. ml = 0) tiles"

definition canonical_rack ::
  "(ustr \<Rightarrow> ustr) \<Rightarrow> letter_distribution \<Rightarrow> ustr \<Rightarrow> ustr option option" where
  "canonical_rack to_uppercase ld typed =
     map_option (map_option (\<lambda>tiles.
         concat (map (\<lambda>ml. spell_letter (lt_letter (ld_letters ld ! ml))) (sort_tiles tiles))))
       (read_tiles (ld_letters ld) (to_uppercase (filter (\<lambda>c. \<not> is_whitespace c) typed)) [])"

section \<open>Enumerating the racks\<close>

fun walk :: "tile_row list \<Rightarrow> nat \<Rightarrow> ustr \<Rightarrow> ustr list" where
  "walk tiles 0 current = [current]"
| "walk [] remaining current = []"
| "walk (tile # tiles) remaining current =
     (if sum_list (map tl_count (tile # tiles)) < remaining then []
      else concat (map (\<lambda>take. walk tiles (remaining - take) (current @ replicate take (tl_letter tile)))
             (rev [0..<Suc (min (tl_count tile) remaining)])))"

definition enumerate_racks :: "letter_distribution \<Rightarrow> nat \<Rightarrow> ustr list" where
  "enumerate_racks ld rack_size = walk (ld_tiles ld) rack_size []"

definition enumerate_leaves :: "letter_distribution \<Rightarrow> nat \<Rightarrow> ustr list" where
  "enumerate_leaves ld max_size = concat (map (enumerate_racks ld) [1..<Suc max_size])"

section \<open>The rack index\<close>

record rack_index =
  ri_tiles :: "tile_row list"
  ri_counts :: "nat list list"
  ri_size :: nat

definition sat_add_u64 :: "nat \<Rightarrow> nat \<Rightarrow> nat" where
  "sat_add_u64 a b = min (a + b) 18446744073709551615"

text \<open>One row of the table from the row of the tiles after it.\<close>

definition counts_row :: "nat \<Rightarrow> nat list \<Rightarrow> nat \<Rightarrow> nat list" where
  "counts_row available next_row rack_size =
     map (\<lambda>k. foldl (\<lambda>total take. sat_add_u64 total (next_row ! (k - take))) 0
            [0..<Suc (min available k)])
       [0..<Suc rack_size]"

fun counts_table :: "tile_row list \<Rightarrow> nat \<Rightarrow> nat list list" where
  "counts_table [] rack_size = [1 # replicate rack_size 0]"
| "counts_table (tile # tiles) rack_size =
     (let rest = counts_table tiles rack_size in counts_row (tl_count tile) (hd rest) rack_size # rest)"

definition rack_index_new :: "letter_distribution \<Rightarrow> nat \<Rightarrow> rack_index app_result" where
  "rack_index_new ld rack_size =
     (if ld_unenumerable ld \<noteq> None then Inl (Bad_request ''cannot enumerate the racks of this distribution'')
      else Inr \<lparr>ri_tiles = ld_tiles ld, ri_counts = counts_table (ld_tiles ld) rack_size, ri_size = rack_size\<rparr>)"

definition rack_total :: "rack_index \<Rightarrow> nat" where
  "rack_total idx = ri_counts idx ! 0 ! ri_size idx"

definition spelling :: "(ustr \<Rightarrow> ustr) \<Rightarrow> ustr \<Rightarrow> ustr" where
  "spelling to_uppercase typed = sort (to_uppercase (filter (\<lambda>c. \<not> is_whitespace c) typed))"

definition MULTIPLIER :: nat where "MULTIPLIER = 2305843009213693951"

definition scatter :: "rack_index \<Rightarrow> nat \<Rightarrow> nat" where
  "scatter idx index = (index * MULTIPLIER) mod rack_total idx"

text \<open>The inner loop: how many of this tile the rack takes, and the index left within that block.\<close>

fun take_block :: "nat list \<Rightarrow> nat \<Rightarrow> nat list \<Rightarrow> nat \<Rightarrow> nat option \<times> nat" where
  "take_block next_row remaining_size [] remaining_index = (None, remaining_index)"
| "take_block next_row remaining_size (taken # takes) remaining_index =
     (let block = next_row ! (remaining_size - taken)
      in if remaining_index < block then (Some taken, remaining_index)
         else take_block next_row remaining_size takes (remaining_index - block))"

fun unrank :: "tile_row list \<Rightarrow> nat list list \<Rightarrow> nat \<Rightarrow> nat \<Rightarrow> ustr \<Rightarrow> ustr" where
  "unrank (tile # tiles) (row # next_row # rows) remaining_size remaining_index rack =
     (case take_block next_row remaining_size [0..<Suc (min (tl_count tile) remaining_size)]
             remaining_index of
        (Some taken, left) \<Rightarrow>
          unrank tiles (next_row # rows) (remaining_size - taken) left
            (rack @ replicate taken (tl_letter tile))
      | (None, left) \<Rightarrow> unrank tiles (next_row # rows) remaining_size left rack)"
| "unrank tiles rows remaining_size remaining_index rack = rack"

definition rack_at_enumeration_index :: "rack_index \<Rightarrow> nat \<Rightarrow> ustr option" where
  "rack_at_enumeration_index idx index =
     (if index \<ge> rack_total idx then None
      else Some (unrank (ri_tiles idx) (ri_counts idx) (ri_size idx) index []))"

definition rack_at :: "rack_index \<Rightarrow> nat \<Rightarrow> ustr option" where
  "rack_at idx index =
     (if index \<ge> rack_total idx then None else rack_at_enumeration_index idx (scatter idx index))"

fun map_while :: "('a \<Rightarrow> 'b option) \<Rightarrow> 'a list \<Rightarrow> 'b list" where
  "map_while f [] = []"
| "map_while f (x # xs) = (case f x of None \<Rightarrow> [] | Some y \<Rightarrow> y # map_while f xs)"

definition racks_in_enumeration_range :: "rack_index \<Rightarrow> nat \<Rightarrow> nat \<Rightarrow> ustr list" where
  "racks_in_enumeration_range idx start count =
     map_while (rack_at_enumeration_index idx) [start..<sat_add_u64 start count]"

definition racks_in_range :: "rack_index \<Rightarrow> nat \<Rightarrow> nat \<Rightarrow> ustr list" where
  "racks_in_range idx start count = map_while (rack_at idx) [start..<sat_add_u64 start count]"

end
