(* ===== verification/Racks_Spec.thy ===== *)
theory Racks_Spec
  imports Racks "HOL-Library.Multiset"
begin

text \<open>
  What the enumeration and the index of \<open>jobs/racks.rs\<close> mean: the racks of a bag as multisets, the
  counts behind the index, the bijection it gives, and the spelling of a canonical rack.
\<close>

section \<open>The racks of a bag\<close>

text \<open>
  The reference enumeration, without the accumulator and the pruning: ascending in how many of each
  tile a rack takes.
\<close>

fun racks :: "tile_row list \<Rightarrow> nat \<Rightarrow> ustr list" where
  "racks [] k = (if k = 0 then [[]] else [])"
| "racks (t # ts) k =
     concat (map (\<lambda>n. map ((@) (replicate n (tl_letter t))) (racks ts (k - n)))
       [0..<Suc (min (tl_count t) k)])"

lemma racks_0: "racks ts 0 = [[]]"
  by (induction ts) simp_all

lemma racks_too_few: "sum_list (map tl_count ts) < k \<Longrightarrow> racks ts k = []"
proof (induction ts arbitrary: k)
  case (Cons t ts)
  have "racks ts (k - n) = []" if "n \<le> tl_count t" for n
    using Cons.prems that by (intro Cons.IH) simp
  then show ?case by auto
qed simp

lemma rev_concat_map: "rev (concat (map f xs)) = concat (map (\<lambda>x. rev (f x)) (rev xs))"
  by (induction xs) simp_all

lemma walk_racks: "walk ts k cur = map ((@) cur) (rev (racks ts k))"
proof (induction ts k cur rule: walk.induct)
  case (3 t ts k cur)
  show ?case
  proof (cases "sum_list (map tl_count (t # ts)) < Suc k")
    case True
    then have "racks (t # ts) (Suc k) = []" by (rule racks_too_few)
    with True show ?thesis by (simp only: walk.simps if_True) simp
  next
    case False
    have app: "map ((@) (cur @ replicate n (tl_letter t))) rs =
        map ((@) cur) (map ((@) (replicate n (tl_letter t))) rs)" for n rs
      by simp
    have "walk (t # ts) (Suc k) cur =
        concat (map (\<lambda>n. walk ts (Suc k - n) (cur @ replicate n (tl_letter t)))
          (rev [0..<Suc (min (tl_count t) (Suc k))]))"
      using False by (simp only: walk.simps if_False)
    also have "\<dots> = concat (map (\<lambda>n. map ((@) (cur @ replicate n (tl_letter t))) (rev (racks ts (Suc k - n))))
          (rev [0..<Suc (min (tl_count t) (Suc k))]))"
      using 3 [OF False] by (intro arg_cong [where f = concat] map_cong refl) auto
    also have "\<dots> = map ((@) cur) (rev (racks (t # ts) (Suc k)))"
      unfolding app by (simp only: racks.simps rev_concat_map map_concat map_map o_def rev_map)
    finally show ?thesis .
  qed
qed (simp_all add: racks_0)

lemma enumerate_racks_eq: "enumerate_racks ld k = rev (racks (ld_tiles ld) k)"
  unfolding enumerate_racks_def walk_racks by (rule map_idI) simp

section \<open>Counting\<close>

definition draws :: "tile_row list \<Rightarrow> nat \<Rightarrow> nat" where
  "draws ts k = length (racks ts k)"

lemma draws_Cons: "draws (t # ts) k = (\<Sum>n\<leftarrow>[0..<Suc (min (tl_count t) k)]. draws ts (k - n))"
  by (simp only: draws_def racks.simps length_concat map_map o_def length_map)

lemma draws_block_le:
  assumes "n \<le> tl_count t" "n \<le> k"
  shows "draws ts (k - n) \<le> draws (t # ts) k"
  unfolding draws_Cons using assms by (intro member_le_sum_list) (auto simp del: upt_Suc)

lemma foldl_sat:
  "foldl (\<lambda>total n. sat_add_u64 total (min (f n) 18446744073709551615)) a ns =
     (if ns = [] then a else min (a + (\<Sum>n\<leftarrow>ns. f n)) 18446744073709551615)"
proof (induction ns arbitrary: a)
  case (Cons n ns)
  then show ?case by (cases ns) (auto simp: sat_add_u64_def min_def)
qed simp

lemma counts_table_hd:
  "k \<le> s \<Longrightarrow> hd (counts_table ts s) ! k = min (draws ts k) 18446744073709551615"
proof (induction ts arbitrary: k)
  case Nil
  then show ?case by (cases k) (simp_all add: draws_def)
next
  case (Cons t ts)
  have "hd (counts_table (t # ts) s) ! k =
      foldl (\<lambda>total n. sat_add_u64 total (hd (counts_table ts s) ! (k - n))) 0
        [0..<Suc (min (tl_count t) k)]"
    using Cons.prems by (simp add: Let_def counts_row_def nth_append less_Suc_eq_le del: upt_Suc)
  also have "\<dots> = foldl (\<lambda>total n. sat_add_u64 total (min (draws ts (k - n)) 18446744073709551615)) 0
        [0..<Suc (min (tl_count t) k)]"
    using Cons.prems by (intro foldl_cong refl) (auto simp: Cons.IH)
  also have "\<dots> = min (draws (t # ts) k) 18446744073709551615"
    by (simp only: foldl_sat draws_Cons) simp
  finally show ?case .
qed

lemma counts_table_Cons: "counts_table ts s = hd (counts_table ts s) # tl (counts_table ts s)"
  by (cases ts) (simp_all add: Let_def)

section \<open>Unranking\<close>

text \<open>Indexing a concatenation of blocks.\<close>

lemma take_block_index:
  assumes "\<forall>n\<in>set ns. length (f n) = row ! (rs - n)" "i < length (concat (map f ns))"
  shows "\<exists>n left. take_block row rs ns i = (Some n, left) \<and> n \<in> set ns \<and> left < length (f n) \<and>
    concat (map f ns) ! i = f n ! left"
  using assms
proof (induction ns arbitrary: i)
  case (Cons n ns)
  show ?case
  proof (cases "i < row ! (rs - n)")
    case True
    with Cons.prems show ?thesis by (auto simp: nth_append)
  next
    case False
    with Cons.prems have "i - row ! (rs - n) < length (concat (map f ns))" by auto
    then obtain m left where "take_block row rs ns (i - row ! (rs - n)) = (Some m, left)"
        "m \<in> set ns" "left < length (f m)"
        "concat (map f ns) ! (i - row ! (rs - n)) = f m ! left"
      using Cons.IH [of "i - row ! (rs - n)"] Cons.prems(1) by auto
    with False Cons.prems(1) show ?thesis by (auto simp: nth_append)
  qed
qed simp

lemma unrank_racks:
  assumes "k \<le> s" "draws ts k \<le> 18446744073709551615" "i < draws ts k"
  shows "unrank ts (counts_table ts s) k i rack = rack @ racks ts k ! i"
  using assms
proof (induction ts arbitrary: k i rack)
  case Nil
  then show ?case by (simp add: draws_def split: if_splits)
next
  case (Cons t ts)
  let ?ns = "[0..<Suc (min (tl_count t) k)]"
  let ?f = "\<lambda>n. map ((@) (replicate n (tl_letter t))) (racks ts (k - n))"
  have small: "draws ts (k - n) \<le> 18446744073709551615" if "n \<in> set ?ns" for n
    using draws_block_le [of n t k ts] Cons.prems(2) that by auto
  have blocks: "\<forall>n\<in>set ?ns. length (?f n) = hd (counts_table ts s) ! (k - n)"
    using small Cons.prems(1) by (simp add: counts_table_hd draws_def del: upt_Suc)
  have "i < length (concat (map ?f ?ns))"
    using Cons.prems(3) by (simp only: draws_def racks.simps)
  from take_block_index [OF blocks this] obtain n left where
    n: "take_block (hd (counts_table ts s)) k ?ns i = (Some n, left)" "n \<in> set ?ns"
      "left < length (?f n)" "concat (map ?f ?ns) ! i = ?f n ! left"
    by blast
  have "unrank (t # ts) (counts_table (t # ts) s) k i rack =
      unrank ts (counts_table ts s) (k - n) left (rack @ replicate n (tl_letter t))"
    using n(1) counts_table_Cons [of ts s]
    by (metis (no_types, lifting) counts_table.simps(2) unrank.simps(1) case_prod_conv option.simps(5))
  also have "\<dots> = (rack @ replicate n (tl_letter t)) @ racks ts (k - n) ! left"
    using n(3) small [OF n(2)] Cons.prems(1) by (intro Cons.IH) (auto simp: draws_def)
  also have "\<dots> = rack @ racks (t # ts) k ! i"
    using n(3,4) by (simp only: racks.simps) simp
  finally show ?case .
qed

section \<open>What the enumeration holds\<close>

definition bag :: "tile_row list \<Rightarrow> uchar multiset" where
  "bag ts = (\<Sum>t\<leftarrow>ts. replicate_mset (tl_count t) (tl_letter t))"

lemma bag_simps [simp]:
  "bag [] = {#}" "bag (t # ts) = replicate_mset (tl_count t) (tl_letter t) + bag ts"
  by (simp_all add: bag_def)

lemma set_mset_bag: "set_mset (bag ts) \<subseteq> set (map tl_letter ts)"
  by (induction ts) auto

abbreviation ascending :: "tile_row list \<Rightarrow> bool" where
  "ascending ts \<equiv> sorted_wrt (<) (map tl_letter ts)"

lemma letter_notin_bag: "ascending (t # ts) \<Longrightarrow> tl_letter t \<notin># bag ts"
  using set_mset_bag [of ts] by fastforce

lemma racks_ConsI:
  "r \<in> set (racks ts (k - n)) \<Longrightarrow> n \<le> tl_count t \<Longrightarrow> n \<le> k \<Longrightarrow>
    replicate n (tl_letter t) @ r \<in> set (racks (t # ts) k)"
  by (auto simp del: upt_Suc intro!: bexI [of _ n])

lemma racks_letters: "r \<in> set (racks ts k) \<Longrightarrow> set r \<subseteq> set (map tl_letter ts)"
proof (induction ts arbitrary: k r)
  case (Cons t ts)
  then obtain n r' where "r = replicate n (tl_letter t) @ r'" "r' \<in> set (racks ts (k - n))"
    by auto
  with Cons.IH [of r' "k - n"] show ?case by auto
qed (simp split: if_splits)

lemma sorted_split:
  "sorted r \<Longrightarrow> \<forall>y\<in>set r. x \<le> y \<Longrightarrow> r = replicate (count (mset r) x) x @ filter (\<lambda>y. y \<noteq> x) r"
  for x :: nat
proof (induction r)
  case (Cons y r)
  show ?case
  proof (cases "y = x")
    case True
    with Cons show ?thesis by auto
  next
    case False
    with Cons.prems have "x \<notin> set r" by auto
    then have "count (mset r) x = 0" "filter (\<lambda>y. y \<noteq> x) r = r"
      by (auto simp: not_in_iff [symmetric] filter_id_conv)
    with False show ?thesis by simp
  qed
qed simp

lemma racks_sound:
  "ascending ts \<Longrightarrow> r \<in> set (racks ts k) \<Longrightarrow> sorted r \<and> length r = k \<and> mset r \<subseteq># bag ts"
proof (induction ts arbitrary: k r)
  case (Cons t ts)
  from Cons.prems(2) obtain n r' where r: "r = replicate n (tl_letter t) @ r'"
      "r' \<in> set (racks ts (k - n))" "n \<le> tl_count t" "n \<le> k"
    by (auto simp del: upt_Suc)
  moreover have IH: "sorted r' \<and> length r' = k - n \<and> mset r' \<subseteq># bag ts"
    using Cons.prems(1) r(2) by (intro Cons.IH) simp_all
  moreover have "\<forall>y\<in>set r'. tl_letter t \<le> y"
    using racks_letters [OF r(2)] Cons.prems(1) by (force intro: less_imp_le)
  moreover have "replicate_mset n (tl_letter t) \<subseteq># replicate_mset (tl_count t) (tl_letter t)"
    using r(3) by (simp add: subseteq_mset_def)
  ultimately show ?case
    by (auto simp: sorted_append intro: subset_mset.add_mono)
qed (simp split: if_splits)

lemma racks_complete:
  "ascending ts \<Longrightarrow> sorted r \<Longrightarrow> length r = k \<Longrightarrow> mset r \<subseteq># bag ts \<Longrightarrow> r \<in> set (racks ts k)"
proof (induction ts arbitrary: k r)
  case (Cons t ts)
  let ?x = "tl_letter t" let ?n = "count (mset r) ?x" let ?r = "filter (\<lambda>y. y \<noteq> ?x) r"
  have "set r \<subseteq> set_mset (bag (t # ts))"
    using set_mset_mono [OF Cons.prems(4)] by simp
  then have "\<forall>y\<in>set r. ?x \<le> y"
    using Cons.prems(1) set_mset_bag [of ts] by (force intro: less_imp_le split: if_splits)
  then have r: "r = replicate ?n ?x @ ?r"
    using Cons.prems(2) by (rule_tac sorted_split)
  have "?n \<le> count (bag (t # ts)) ?x"
    using Cons.prems(4) by (rule mset_subset_eq_count)
  then have n: "?n \<le> tl_count t"
    using letter_notin_bag [OF Cons.prems(1)] by (simp add: not_in_iff)
  have "mset ?r \<subseteq># bag ts"
  proof (rule mset_subset_eqI)
    fix y
    show "count (mset ?r) y \<le> count (bag ts) y"
      using mset_subset_eq_count [OF Cons.prems(4), of y] by (auto simp: mset_filter split: if_splits)
  qed
  moreover have len: "length ?r = k - ?n" "?n \<le> k"
    using arg_cong [OF r, of length] Cons.prems(3) by (simp_all del: length_filter_conv_card)
  ultimately have "?r \<in> set (racks ts (k - ?n))"
    using Cons.prems by (intro Cons.IH) (auto intro: sorted_wrt_filter)
  then have "replicate ?n ?x @ ?r \<in> set (racks (t # ts) k)"
    using n len(2) by (rule racks_ConsI)
  then show ?case by (simp only: r [symmetric])
qed simp

lemma set_racks: "ascending ts \<Longrightarrow> set (racks ts k) = {r. sorted r \<and> length r = k \<and> mset r \<subseteq># bag ts}"
  using racks_sound racks_complete by blast

lemma replicate_append_eq:
  "x \<notin> set r \<Longrightarrow> x \<notin> set s \<Longrightarrow> replicate n x @ r = replicate m x @ s \<Longrightarrow> n = m \<and> r = s"
proof (induction n arbitrary: m)
  case 0
  then show ?case by (cases m) auto
next
  case (Suc n)
  then show ?case by (cases m) auto
qed

lemma distinct_racks: "ascending ts \<Longrightarrow> distinct (racks ts k)"
proof (induction ts arbitrary: k)
  case (Cons t ts)
  have notin: "tl_letter t \<notin> set r" if "r \<in> set (racks ts j)" for r j
    using racks_letters [OF that] Cons.prems by fastforce
  have "distinct (concat (map (\<lambda>n. map ((@) (replicate n (tl_letter t))) (racks ts (k - n))) ns))"
    if "distinct ns" for ns
    using that
  proof (induction ns)
    case (Cons n ns)
    moreover have "distinct (map ((@) (replicate n (tl_letter t))) (racks ts (k - n)))"
      using \<open>\<And>k. ascending ts \<Longrightarrow> distinct (racks ts k)\<close> \<open>ascending (t # ts)\<close>
      by (simp add: distinct_map inj_on_def)
    ultimately show ?case
      using notin by (auto dest!: replicate_append_eq [rotated 2])
  qed simp
  then show ?case by (simp del: upt_Suc)
qed simp

section \<open>The rack index\<close>

lemma rack_index_new_Inr:
  "rack_index_new ld s = Inr idx \<longleftrightarrow> ld_unenumerable ld = None \<and>
     idx = \<lparr>ri_tiles = ld_tiles ld, ri_counts = counts_table (ld_tiles ld) s, ri_size = s\<rparr>"
  by (auto simp: rack_index_new_def)

lemma rack_total_draws:
  "rack_index_new ld s = Inr idx \<Longrightarrow> rack_total idx = min (draws (ld_tiles ld) s) 18446744073709551615"
  using counts_table_hd [of s s "ld_tiles ld"] counts_table_Cons [of "ld_tiles ld" s]
  by (metis rack_index_new_Inr rack_total_def le_refl nth_Cons_0 rack_index.select_convs(2,3))

lemma rack_at_enumeration_index_racks:
  assumes "rack_index_new ld s = Inr idx" "draws (ld_tiles ld) s \<le> 18446744073709551615"
    and "i < draws (ld_tiles ld) s"
  shows "rack_at_enumeration_index idx i = Some (racks (ld_tiles ld) s ! i)"
  using assms unrank_racks [of s s "ld_tiles ld" i "[]"] rack_total_draws [OF assms(1)]
  by (simp add: rack_at_enumeration_index_def rack_index_new_Inr)

lemma scatter_bij:
  assumes "coprime MULTIPLIER (rack_total idx)" "rack_total idx > 0"
  shows "bij_betw (scatter idx) {0..<rack_total idx} {0..<rack_total idx}"
proof -
  let ?n = "rack_total idx"
  have inj: "i = j" if "i < ?n" "j < ?n" "scatter idx i = scatter idx j" "j \<le> i" for i j
  proof -
    from that have "?n dvd i * MULTIPLIER - j * MULTIPLIER"
      by (metis scatter_def mod_eq_dvd_iff_nat mult_le_mono1)
    then have "?n dvd (i - j) * MULTIPLIER" by (simp add: diff_mult_distrib)
    then have "?n dvd i - j"
      using assms(1) by (metis coprime_commute coprime_dvd_mult_left_iff)
    with that show "i = j" by (auto dest: dvd_imp_le)
  qed
  have "inj_on (scatter idx) {0..<?n}"
    by (rule inj_onI) (metis inj atLeastLessThan_iff nat_le_linear)
  moreover have "scatter idx ` {0..<?n} \<subseteq> {0..<?n}"
    using assms(2) by (auto simp: scatter_def)
  ultimately show ?thesis
    by (simp add: bij_betw_def endo_inj_surj)
qed

lemma rack_at_racks:
  assumes "rack_index_new ld s = Inr idx" "draws (ld_tiles ld) s \<le> 18446744073709551615"
    and "i < draws (ld_tiles ld) s"
  shows "rack_at idx i = Some (racks (ld_tiles ld) s ! scatter idx i)"
proof -
  have "rack_total idx = draws (ld_tiles ld) s"
    using rack_total_draws [OF assms(1)] assms(2) by simp
  moreover from this have "scatter idx i < draws (ld_tiles ld) s"
    using assms(3) by (metis scatter_def mod_less_divisor gr_implies_not0 neq0_conv)
  ultimately show ?thesis
    using assms by (simp add: rack_at_def rack_at_enumeration_index_racks)
qed

lemma map_while_Some:
  "(\<And>x. x \<in> set xs \<Longrightarrow> f x = Some (g x)) \<Longrightarrow> map_while f xs = map g xs"
  by (induction xs) auto

lemma map_while_append:
  "(\<And>x. x \<in> set xs \<Longrightarrow> f x = Some (g x)) \<Longrightarrow> map_while f (xs @ ys) = map_while f xs @ map_while f ys"
  by (induction xs) auto

text \<open>A range stops at the end of the space.\<close>

lemma map_while_range:
  fixes f :: "nat \<Rightarrow> 'a option"
  assumes "\<And>i. i < n \<Longrightarrow> f i = Some (g i)" "\<And>i. n \<le> i \<Longrightarrow> f i = None"
  shows "map_while f [a..<b] = map g [a..<min b n]"
proof (cases "a \<le> n \<and> n \<le> b")
  case True
  then have "[a..<b] = [a..<n] @ [n..<b]"
    by (metis le_add_diff_inverse upt_add_eq_append)
  moreover have "map_while f [n..<b] = []"
    using assms(2) by (cases "n < b") (simp_all add: upt_rec)
  moreover have "map_while f ([a..<n] @ [n..<b]) = map_while f [a..<n] @ map_while f [n..<b]"
    using assms(1) by (intro map_while_append [of _ f g]) simp
  moreover have "map_while f [a..<n] = map g [a..<n]"
    using assms(1) by (intro map_while_Some) simp
  ultimately show ?thesis using True by (simp add: min_absorb2)
next
  case False
  show ?thesis
  proof (cases "n < a")
    case True
    then show ?thesis using assms(2) [of a] by (cases "a < b") (simp_all add: upt_rec)
  next
    case False
    with \<open>\<not> (a \<le> n \<and> n \<le> b)\<close> have "b \<le> n" by simp
    then show ?thesis
      using assms(1) by (simp add: min_absorb1) (intro map_while_Some, simp)
  qed
qed

section \<open>What a parsed distribution is\<close>

definition state_ok :: "parse_state \<Rightarrow> bool" where
  "state_ok s \<longleftrightarrow>
     length (pst_letters s) = length (pst_machine_letters s) \<and>
     list_all (\<lambda>l. lt_letter l \<noteq> []) (pst_letters s) \<and>
     list_all (\<lambda>t. 1 \<le> tl_count t \<and> tl_count t \<le> 255) (pst_tiles s) \<and>
     set (map tl_letter (pst_tiles s)) \<subseteq> set (pst_machine_letters s) \<and>
     (pst_unenumerable s = None \<longrightarrow>
        map lt_letter (pst_letters s) = map (\<lambda>c. [c]) (pst_machine_letters s) \<and>
        distinct (pst_machine_letters s) \<and> distinct (map tl_letter (pst_tiles s)))"

lemma parse_line_Inr:
  assumes "parse_line raw = Inr (letter, row, n)"
  shows "lt_letter row \<noteq> [] \<and> hd (lt_letter row) = letter \<and> n \<le> 255"
  using assms
  by (auto simp: parse_line_def Let_def and_then_Inr ok_or_def split: if_splits list.splits option.splits)

lemma add_letter_ok:
  assumes "state_ok s" "parse_line raw = Inr l"
  shows "state_ok (add_letter s l)"
proof -
  obtain letter row n where l: "l = (letter, row, n)" by (cases l) auto
  with parse_line_Inr assms(2) have row: "lt_letter row \<noteq> []" "hd (lt_letter row) = letter" "n \<le> 255"
    by blast+
  have "lt_letter row = [letter]" if "\<not> length (lt_letter row) > 1"
    using that row by (cases "lt_letter row") auto
  with row assms(1) show ?thesis
    by (auto simp: l state_ok_def add_letter_def)
qed

lemma parse_lines_ok: "state_ok s \<Longrightarrow> parse_lines s ls = Inr s' \<Longrightarrow> state_ok s'"
proof (induction s ls rule: parse_lines.induct)
  case (2 s raw rest)
  then show ?case
    by (cases "raw = []") (auto simp: and_then_Inr intro: add_letter_ok)
qed simp

definition distribution_ok :: "letter_distribution \<Rightarrow> bool" where
  "distribution_ok ld \<longleftrightarrow>
     ld_tiles ld \<noteq> [] \<and> length (ld_letters ld) \<le> 50 \<and>
     list_all (\<lambda>l. lt_letter l \<noteq> []) (ld_letters ld) \<and>
     list_all (\<lambda>t. 1 \<le> tl_count t \<and> tl_count t \<le> 255) (ld_tiles ld) \<and>
     sorted (map tl_letter (ld_tiles ld)) \<and>
     (ld_unenumerable ld = None \<longrightarrow> ascending (ld_tiles ld) \<and> distinct (map lt_letter (ld_letters ld)))"

lemma parse_ok: "parse bytes origin = Inr ld \<Longrightarrow> distribution_ok ld"
proof -
  assume "parse bytes origin = Inr ld"
  then obtain lines s where s: "parse_lines \<lparr>pst_tiles = [], pst_machine_letters = [], pst_letters = [],
        pst_unenumerable = None\<rparr> lines = Inr s" "pst_tiles s \<noteq> []"
      "length (pst_machine_letters s) \<le> 50"
    and ld: "ld = \<lparr>ld_name = origin, ld_bytes = bytes, ld_tiles = sort_key tl_letter (pst_tiles s),
        ld_letters = pst_letters s, ld_unenumerable = pst_unenumerable s\<rparr>"
    by (auto simp: parse_def and_then_Inr MAGPIE_MAX_ALPHABET_SIZE_def split: if_splits)
  have "state_ok s"
    by (rule parse_lines_ok [OF _ s(1)]) (simp add: state_ok_def)
  moreover have "ascending (sort_key tl_letter (pst_tiles s))" if "distinct (map tl_letter (pst_tiles s))"
    using that by (simp add: strict_sorted_iff distinct_map inj_on_def)
  moreover have "distinct (map lt_letter (pst_letters s))"
    if "map lt_letter (pst_letters s) = map (\<lambda>c. [c]) (pst_machine_letters s)"
      "distinct (pst_machine_letters s)"
    using that by (simp add: distinct_map inj_on_def)
  moreover have "sort_key tl_letter (pst_tiles s) \<noteq> []"
    using s(2) by (metis set_empty set_sort)
  ultimately show ?thesis
    using s by (auto simp: ld distribution_ok_def state_ok_def list_all_iff)
qed

section \<open>Canonical racks\<close>

lemma max_by_key_in: "max_by_key k xs = Some x \<Longrightarrow> x \<in> set xs"
  by (induction xs arbitrary: x) (auto split: option.splits if_splits)

lemma longest_letter_in: "longest_letter ls rest = Some i \<Longrightarrow> i < length ls"
  unfolding longest_letter_def by (drule max_by_key_in) simp

lemma position_of_in: "position_of ls w = Some i \<Longrightarrow> i < length ls \<and> lt_letter (ls ! i) = w"
  by (auto simp: position_of_def find_Some_iff)

lemma next_tile_Some:
  assumes "list_all (\<lambda>l. lt_letter l \<noteq> []) ls" "next_tile ls rest = Some (i, n)"
  shows "i < length ls \<and> 0 < n"
  using assms
  by (auto simp: next_tile_def Let_def list_all_length split: if_splits
      dest: position_of_in longest_letter_in)

text \<open>Every step takes a character, so the loop ends.\<close>

lemma read_tiles_returns:
  assumes "list_all (\<lambda>l. lt_letter l \<noteq> []) ls" "list_all (\<lambda>i. i < length ls) tiles"
  shows "\<exists>r. read_tiles ls rest tiles = Some r \<and> pred_option (list_all (\<lambda>i. i < length ls)) r"
  using assms(2)
proof (induction "length rest" arbitrary: rest tiles rule: less_induct)
  case less
  show ?case
  proof (cases "rest = []")
    case True
    with less.prems show ?thesis by (subst read_tiles.simps) simp
  next
    case False
    show ?thesis
    proof (cases "next_tile ls rest")
      case None
      with False show ?thesis by (subst read_tiles.simps) simp
    next
      case (Some p)
      then obtain i n where p: "next_tile ls rest = Some (i, n)" by (cases p) auto
      from next_tile_Some [OF assms(1) p] have "i < length ls" "0 < n" by auto
      then have "\<exists>r. read_tiles ls (drop n rest) (tiles @ [i]) = Some r \<and>
          pred_option (list_all (\<lambda>i. i < length ls)) r"
        using False less.prems by (intro less.hyps) auto
      with False p show ?thesis by (subst read_tiles.simps) simp
    qed
  qed
qed

text \<open>
  Letters that a spelled rack can be read back from: all different, none of no characters or with a
  bracket in it, and no two single letters next to each other that would be read as a longer one.
\<close>

definition readable :: "letter_row list \<Rightarrow> bool" where
  "readable ls \<longleftrightarrow> distinct (map lt_letter ls) \<and>
     (\<forall>l\<in>set ls. lt_letter l \<noteq> [] \<and> 91 \<notin> set (lt_letter l) \<and> 93 \<notin> set (lt_letter l) \<and>
        (length (lt_letter l) > 1 \<longrightarrow>
           \<not> ([lt_letter l ! 0] \<in> lt_letter ` set ls \<and> [lt_letter l ! 1] \<in> lt_letter ` set ls)))"

lemma letters_eq:
  "readable ls \<Longrightarrow> i < length ls \<Longrightarrow> j < length ls \<Longrightarrow> lt_letter (ls ! i) = lt_letter (ls ! j) \<longleftrightarrow> i = j"
  by (auto simp: readable_def distinct_conv_nth)

lemma position_of_letter:
  "readable ls \<Longrightarrow> i < length ls \<Longrightarrow> position_of ls (lt_letter (ls ! i)) = Some i"
  by (auto simp: position_of_def find_Some_iff letters_eq intro!: exI [of _ i])

definition spelled :: "letter_row list \<Rightarrow> nat list \<Rightarrow> ustr" where
  "spelled ls tiles = concat (map (\<lambda>i. spell_letter (lt_letter (ls ! i))) tiles)"

lemma spelled_hd:
  assumes "readable ls" "list_all (\<lambda>i. i < length ls) tiles" "spelled ls tiles \<noteq> []"
  shows "hd (spelled ls tiles) = 91 \<or> [hd (spelled ls tiles)] \<in> lt_letter ` set ls"
proof -
  from assms(3) obtain i tiles' where t: "tiles = i # tiles'"
    by (cases tiles) (auto simp: spelled_def)
  let ?w = "lt_letter (ls ! i)"
  have i: "i < length ls" using assms(2) t by simp
  then have "?w \<noteq> []" using assms(1) by (simp add: readable_def)
  then show ?thesis
  proof (cases "length ?w > 1")
    case False
    with \<open>?w \<noteq> []\<close> obtain c where "?w = [c]" by (cases ?w) auto
    with i t show ?thesis by (auto simp: spelled_def spell_letter_def intro!: image_eqI [of _ _ "ls ! i"])
  qed (simp add: spelled_def spell_letter_def t)
qed

lemma next_tile_single:
  assumes "readable ls" "i < length ls" "lt_letter (ls ! i) = [c]"
    and "s = [] \<or> hd s = 91 \<or> [hd s] \<in> lt_letter ` set ls"
  shows "next_tile ls (c # s) = Some (i, 1)"
proof -
  have c: "c \<noteq> 91"
    using assms(1,3) nth_mem [OF assms(2)] unfolding readable_def by (metis list.set_intros(1))
  have "starts_with (c # s) (lt_letter (ls ! j)) \<longleftrightarrow> j = i" if j: "j < length ls" for j
  proof
    let ?w = "lt_letter (ls ! j)"
    have l: "?w \<noteq> [] \<and> 91 \<notin> set ?w \<and> (length ?w > 1 \<longrightarrow>
         \<not> ([?w ! 0] \<in> lt_letter ` set ls \<and> [?w ! 1] \<in> lt_letter ` set ls))"
      using assms(1) j by (simp add: readable_def)
    assume "starts_with (c # s) ?w"
    then have w: "take (length ?w) (c # s) = ?w" by (simp add: starts_with_def)
    with l obtain w' where w': "?w = c # w'" "take (length w') s = w'"
      by (cases ?w) auto
    have "w' = []"
    proof (rule ccontr)
      assume "w' \<noteq> []"
      then obtain d w'' where "w' = d # w''" by (cases w') auto
      with w' have "s \<noteq> []" "hd s = d" by (cases s, auto)+
      moreover have "[c] \<in> lt_letter ` set ls"
        using assms(2,3) by (metis image_eqI nth_mem)
      ultimately show False
        using l w' assms(4) \<open>w' = d # w''\<close> by auto
    qed
    with w' have "?w = lt_letter (ls ! i)" using assms(3) by simp
    then show "j = i" using letters_eq [OF assms(1) j assms(2)] by simp
  qed (simp add: starts_with_def assms(3))
  then have "set (filter (\<lambda>j. starts_with (c # s) (lt_letter (ls ! j))) [0..<length ls]) = {i}"
    using assms(2) by auto
  moreover have "distinct (filter (\<lambda>j. starts_with (c # s) (lt_letter (ls ! j))) [0..<length ls])"
    by simp
  ultimately have "filter (\<lambda>j. starts_with (c # s) (lt_letter (ls ! j))) [0..<length ls] = [i]"
    by (metis distinct_singleton sorted_distinct_set_unique sorted_upt sorted_wrt_filter
        distinct_upt list.set(1) list.simps(15) sorted1)
  then have "longest_letter ls (c # s) = Some i"
    by (simp add: longest_letter_def)
  with c assms(3) show ?thesis by (simp add: next_tile_def)
qed

lemma next_tile_bracketed:
  assumes "readable ls" "i < length ls"
  shows "next_tile ls (91 # lt_letter (ls ! i) @ 93 # s) = Some (i, length (lt_letter (ls ! i)) + 2)"
proof -
  have "93 \<notin> set (lt_letter (ls ! i))"
    using assms by (simp add: readable_def)
  then have "takeWhile (\<lambda>c. c \<noteq> 93) (lt_letter (ls ! i) @ 93 # s) = lt_letter (ls ! i)"
    by (subst takeWhile_append2) auto
  with assms show ?thesis
    by (simp add: next_tile_def position_of_letter)
qed

lemma read_tiles_spelled:
  assumes "readable ls"
  shows "list_all (\<lambda>i. i < length ls) tiles \<Longrightarrow>
    read_tiles ls (spelled ls tiles) acc = Some (Some (acc @ tiles))"
proof (induction tiles arbitrary: acc)
  case Nil
  then show ?case by (subst read_tiles.simps) (simp add: spelled_def)
next
  case (Cons i tiles)
  let ?w = "lt_letter (ls ! i)"
  have i: "i < length ls" "?w \<noteq> []" using Cons.prems assms by (simp_all add: readable_def)
  have IH: "read_tiles ls (spelled ls tiles) (acc @ [i]) = Some (Some (acc @ i # tiles))"
    using Cons by simp
  show ?case
  proof (cases "length ?w > 1")
    case True
    then have "spelled ls (i # tiles) = 91 # ?w @ 93 # spelled ls tiles"
      by (simp add: spelled_def spell_letter_def)
    with next_tile_bracketed [OF assms i(1)] IH show ?thesis
      by (subst read_tiles.simps) simp
  next
    case False
    with i obtain c where c: "?w = [c]" by (cases ?w) auto
    then have "spelled ls (i # tiles) = c # spelled ls tiles"
      by (simp add: spelled_def spell_letter_def)
    moreover have "next_tile ls (c # spelled ls tiles) = Some (i, 1)"
      using assms i(1) c spelled_hd [OF assms, of tiles] Cons.prems
      by (intro next_tile_single) auto
    ultimately show ?thesis using IH by (subst read_tiles.simps) simp
  qed
qed

lemma sort_tiles_idem: "sort_tiles (sort_tiles tiles) = sort_tiles tiles"
proof -
  have "filter (\<lambda>x. x = 0 \<and> 0 < x) tiles = []" "filter (\<lambda>x. 0 < x \<and> x = 0) tiles = []"
    by (auto simp: filter_empty_conv)
  then show ?thesis by (simp add: sort_tiles_def filter_sort sorted_sort_id)
qed

lemma mset_sort_tiles: "mset (sort_tiles tiles) = mset tiles"
  by (simp add: sort_tiles_def)

lemma utf8_decode_Nil: "utf8_decode [] = Some []"
  by (simp add: utf8_decode.simps)

lemma utf8_decode_ascii: "a < 128 \<Longrightarrow> utf8_decode (a # bs) = map_option ((#) a) (utf8_decode bs)"
  by (simp add: utf8_decode.simps [of "a # bs"] decode_char_def)

section \<open>Properties\<close>

text \<open>
  C6: the rack at each enumeration index is the rack the enumeration lists there: unranking an index
  by the table of counts, in ascending order of how many of each tile a rack takes, and walking the
  bag in descending order with pruning are the same enumeration, reversed, and the table's total is
  its length.
\<close>

theorem unranking_agrees_with_enumeration:
  assumes "rack_index_new ld s = Inr idx"
    and "length (enumerate_racks ld s) \<le> 18446744073709551615"
  shows "map (rack_at_enumeration_index idx) [0..<rack_total idx] =
    map Some (rev (enumerate_racks ld s))"
proof -
  have d: "draws (ld_tiles ld) s \<le> 18446744073709551615"
    using assms(2) by (simp add: enumerate_racks_eq draws_def)
  have "map (rack_at_enumeration_index idx) [0..<draws (ld_tiles ld) s] =
      map (\<lambda>i. Some (racks (ld_tiles ld) s ! i)) [0..<draws (ld_tiles ld) s]"
    using rack_at_enumeration_index_racks [OF assms(1) d] by simp
  also have "\<dots> = map Some (map ((!) (racks (ld_tiles ld) s)) [0..<length (racks (ld_tiles ld) s)])"
    by (simp add: draws_def)
  finally show ?thesis
    using rack_total_draws [OF assms(1)] d by (simp only: map_nth enumerate_racks_eq) simp
qed

definition tiny_file :: "nat list" where
  "tiny_file = map of_char ''?,?,1,0,0\<newline>B,b,2,3,0\<newline>A,a,2,1,1\<newline>''"

definition tiny :: letter_distribution where
  "tiny = \<lparr>ld_name = lit ''tiny'', ld_bytes = tiny_file,
     ld_tiles = [\<lparr>tl_letter = 63, tl_count = 1\<rparr>, \<lparr>tl_letter = 65, tl_count = 2\<rparr>,
       \<lparr>tl_letter = 66, tl_count = 2\<rparr>],
     ld_letters = [\<lparr>lt_letter = lit ''?'', lt_blank = lit ''?'', lt_score = 0\<rparr>,
       \<lparr>lt_letter = lit ''B'', lt_blank = lit ''b'', lt_score = 3\<rparr>,
       \<lparr>lt_letter = lit ''A'', lt_blank = lit ''a'', lt_score = 1\<rparr>],
     ld_unenumerable = None\<rparr>"

definition tiny_index :: rack_index where
  "tiny_index = \<lparr>ri_tiles = ld_tiles tiny, ri_counts = counts_table (ld_tiles tiny) 3, ri_size = 3\<rparr>"

lemma add_letter_row:
  "add_letter s (letter, row, n) =
     \<lparr>pst_tiles = (if n > 0 then pst_tiles s @ [\<lparr>tl_letter = letter, tl_count = n\<rparr>] else pst_tiles s),
      pst_machine_letters = pst_machine_letters s @ [letter],
      pst_letters = pst_letters s @ [row],
      pst_unenumerable =
         (if pst_unenumerable s = None then
            (if length (lt_letter row) > 1 then Some ''a multi-character letter''
             else if letter \<in> set (pst_machine_letters s) then Some ''a duplicate letter''
             else None)
          else pst_unenumerable s)\<rparr>"
  by (simp add: add_letter_def)

lemma parse_tiny: "parse tiny_file (lit ''tiny'') = Inr tiny"
  by (simp add: parse_def tiny_file_def utf8_decode_Nil utf8_decode_ascii ok_or_def parse_line_def
      columns_def strip_suffix_char_def trim_def trim_matches_def is_whitespace_def utf8_len_def
      char_utf8_len_def MAGPIE_MAX_LETTER_BYTES_def MAGPIE_MAX_ALPHABET_SIZE_def number_def
      parse_u32_def parse_i32_def parse_unsigned_def parse_signed_def is_ascii_digit_def
      digits_value_def i32_max_def add_letter_row tiny_def Let_def lit_def)

lemma tiny_index_new: "rack_index_new tiny 3 = Inr tiny_index"
  by (simp add: rack_index_new_def tiny_index_def tiny_def)

theorem unranking_agrees_with_enumeration_witness:
  "map (rack_at_enumeration_index tiny_index) [0..<rack_total tiny_index] =
     map Some (rev (enumerate_racks tiny 3)) \<and>
   map (rack_at_enumeration_index tiny_index) [0, 4] = [Some (lit ''ABB''), Some (lit ''?AA'')]"
proof
  have "length (enumerate_racks tiny 3) \<le> 18446744073709551615"
    by (simp add: enumerate_racks_def tiny_def numeral_3_eq_3)
  from unranking_agrees_with_enumeration [OF tiny_index_new this]
  show "map (rack_at_enumeration_index tiny_index) [0..<rack_total tiny_index] =
     map Some (rev (enumerate_racks tiny 3))" .
  show "map (rack_at_enumeration_index tiny_index) [0, 4] = [Some (lit ''ABB''), Some (lit ''?AA'')]"
    by (simp add: rack_at_enumeration_index_def rack_total_def tiny_index_def tiny_def counts_row_def
        sat_add_u64_def lit_def upt_rec)
qed

lemma rack_at_bij:
  assumes "parse bytes origin = Inr ld" "rack_index_new ld s = Inr idx"
    and "coprime MULTIPLIER (rack_total idx)" "rack_total idx < 18446744073709551615"
  shows "bij_betw (\<lambda>i. the (rack_at idx i)) {0..<rack_total idx}
      {r. sorted r \<and> length r = s \<and> mset r \<subseteq># bag (ld_tiles ld)}"
proof -
  let ?ts = "ld_tiles ld"
  have total_eq: "rack_total idx = draws ?ts s" and d: "draws ?ts s \<le> 18446744073709551615"
    using rack_total_draws [OF assms(2)] assms(4) by (auto simp: min_def split: if_splits)
  have asc: "ascending ?ts"
    using parse_ok [OF assms(1)] assms(2) by (simp add: distribution_ok_def rack_index_new_Inr)
  have "bij_betw ((!) (racks ?ts s)) {0..<rack_total idx} (set (racks ?ts s))"
    using distinct_racks [OF asc] total_eq by (intro bij_betw_nth) (simp_all add: draws_def atLeast0LessThan)
  moreover have "bij_betw (scatter idx) {0..<rack_total idx} {0..<rack_total idx}"
  proof (cases "rack_total idx = 0")
    case True
    then show ?thesis by (simp add: bij_betw_def)
  qed (use assms(3) in \<open>simp add: scatter_bij\<close>)
  ultimately have "bij_betw ((!) (racks ?ts s) \<circ> scatter idx) {0..<rack_total idx} (set (racks ?ts s))"
    by (rule bij_betw_trans [rotated])
  moreover have "the (rack_at idx i) = ((!) (racks ?ts s) \<circ> scatter idx) i" if "i \<in> {0..<rack_total idx}" for i
    using rack_at_racks [OF assms(2) d, of i] that total_eq by simp
  ultimately show ?thesis
    using bij_betw_cong [of "{0..<rack_total idx}" "\<lambda>i. the (rack_at idx i)" "(!) (racks ?ts s) \<circ> scatter idx"]
      set_racks [OF asc, of s] by simp
qed

text \<open>
  C5: for a distribution \<open>parse\<close> accepts and \<open>RackIndex::new\<close> does not refuse, \<open>rack_at\<close> is a bijection
  from the numbers below the total onto the racks that can be drawn from the bag, each spelt as its
  letters in order: scattering loses none and repeats none, and past the total there is no rack.
  The multiplier is assumed coprime with the total, and the total not to have saturated.
\<close>

theorem rack_at_names_every_rack_once:
  assumes "parse bytes origin = Inr ld" "rack_index_new ld s = Inr idx"
    and "coprime MULTIPLIER (rack_total idx)" "rack_total idx < 18446744073709551615"
  shows "bij_betw (\<lambda>i. the (rack_at idx i)) {0..<rack_total idx}
      {r. sorted r \<and> length r = s \<and> mset r \<subseteq># bag (ld_tiles ld)} \<and>
    rack_at idx (rack_total idx + k) = None"
  using rack_at_bij [OF assms] by (simp add: rack_at_def)

lemma tiny_total: "rack_total tiny_index = 5"
  by (simp add: rack_total_def tiny_index_def tiny_def counts_row_def sat_add_u64_def upt_rec)

lemma multiplier_coprime_5: "coprime MULTIPLIER 5"
proof -
  have "gcd MULTIPLIER 5 = 1"
    by (simp add: MULTIPLIER_def gcd_non_0_nat)
  then show ?thesis by (simp add: coprime_iff_gcd_eq_1)
qed

theorem rack_at_names_every_rack_once_witness:
  "bij_betw (\<lambda>i. the (rack_at tiny_index i)) {0..<5}
     {r. sorted r \<and> length r = 3 \<and> mset r \<subseteq># {#63, 65, 65, 66, 66#}}"
proof -
  have "bag (ld_tiles tiny) = {#63, 65, 65, 66, 66#}"
    by (simp add: tiny_def numeral_2_eq_2)
  then show ?thesis
    using rack_at_names_every_rack_once [OF parse_tiny tiny_index_new] multiplier_coprime_5
    by (simp add: tiny_total)
qed

text \<open>
  The batches of an opening-rack job, task \<open>k\<close> naming the range that starts at \<open>k\<close> times the
  batch size, hold every rack exactly once between them: the last comes up short, and the batches
  past the end of the space are empty.
\<close>

theorem batches_tile_the_rack_space:
  assumes "parse bytes origin = Inr ld" "rack_index_new ld s = Inr idx"
    and "coprime MULTIPLIER (rack_total idx)" "rack_total idx < 18446744073709551615"
    and "rack_total idx \<le> m * b" "m * b \<le> 18446744073709551615"
  shows "distinct (concat (map (\<lambda>k. racks_in_range idx (k * b) b) [0..<m])) \<and>
    set (concat (map (\<lambda>k. racks_in_range idx (k * b) b) [0..<m])) =
      {r. sorted r \<and> length r = s \<and> mset r \<subseteq># bag (ld_tiles ld)}"
proof -
  let ?n = "rack_total idx" let ?g = "\<lambda>i. the (rack_at idx i)"
  have total_eq: "?n = draws (ld_tiles ld) s" and d: "draws (ld_tiles ld) s \<le> 18446744073709551615"
    using rack_total_draws [OF assms(2)] assms(4) by (auto simp: min_def split: if_splits)
  have range: "racks_in_range idx (k * b) b = map ?g [min (k * b) ?n..<min (Suc k * b) ?n]" if "k < m" for k
  proof -
    have "Suc k * b \<le> m * b" using that by (intro mult_le_mono1) simp
    then have "sat_add_u64 (k * b) b = Suc k * b"
      using assms(6) by (simp add: sat_add_u64_def)
    moreover have "map_while (rack_at idx) [k * b..<Suc k * b] = map ?g [k * b..<min (Suc k * b) ?n]"
      using rack_at_racks [OF assms(2) d] total_eq
      by (intro map_while_range) (auto simp: rack_at_def)
    ultimately show ?thesis
      by (cases "k * b \<le> ?n") (simp_all add: racks_in_range_def min_def)
  qed
  have tile: "concat (map (\<lambda>k. racks_in_range idx (k * b) b) [0..<j]) = map ?g [0..<min (j * b) ?n]"
    if "j \<le> m" for j
    using that
  proof (induction j)
    case (Suc j)
    have "min (j * b) ?n \<le> min (Suc j * b) ?n" by auto
    then have "[0..<min (j * b) ?n] @ [min (j * b) ?n..<min (Suc j * b) ?n] = [0..<min (Suc j * b) ?n]"
      by (metis le_add_diff_inverse upt_add_eq_append zero_le)
    moreover have "concat (map (\<lambda>k. racks_in_range idx (k * b) b) [0..<Suc j]) =
        map ?g ([0..<min (j * b) ?n] @ [min (j * b) ?n..<min (Suc j * b) ?n])"
      using Suc range [of j] by simp
    ultimately show ?case by simp
  qed simp
  from rack_at_bij [OF assms(1-4)] show ?thesis
    using tile [of m] assms(5)
    by (simp add: bij_betw_def distinct_map min_absorb2 atLeast0LessThan)
qed

theorem batches_tile_the_rack_space_witness:
  "distinct (concat (map (\<lambda>k. racks_in_range tiny_index (k * 2) 2) [0..<3])) \<and>
   length (racks_in_range tiny_index 4 2) = 1"
proof
  have "coprime MULTIPLIER (rack_total tiny_index)" "rack_total tiny_index < 18446744073709551615"
    "rack_total tiny_index \<le> 3 * 2" "3 * 2 \<le> (18446744073709551615 :: nat)"
    using multiplier_coprime_5 by (simp_all add: tiny_total)
  from batches_tile_the_rack_space [OF parse_tiny tiny_index_new this]
  show "distinct (concat (map (\<lambda>k. racks_in_range tiny_index (k * 2) 2) [0..<3]))"
    by blast
  show "length (racks_in_range tiny_index 4 2) = 1"
    by (simp add: racks_in_range_def rack_at_def scatter_def tiny_total MULTIPLIER_def
        rack_at_enumeration_index_def sat_add_u64_def upt_rec)
qed

text \<open>
  A canonical rack is canonical: spelling what was typed and reading the spelling back gives the
  same spelling, whatever order the tiles were typed in, and the spelling holds the tiles typed.
  The letters are those of a parsed distribution that a spelled rack can be read back from, without
  spaces in them and their own upper case.
\<close>

theorem canonical_rack_is_canonical:
  assumes "parse bytes origin = Inr ld" "readable (ld_letters ld)"
    and "\<And>tiles. up (spelled (ld_letters ld) tiles) = spelled (ld_letters ld) tiles"
    and "\<And>l. l \<in> set (ld_letters ld) \<Longrightarrow> list_all (\<lambda>c. \<not> is_whitespace c) (lt_letter l)"
    and "canonical_rack up ld typed = Some (Some rack)"
  shows "canonical_rack up ld rack = Some (Some rack)"
proof -
  let ?ls = "ld_letters ld"
  have nonempty: "list_all (\<lambda>l. lt_letter l \<noteq> []) ?ls"
    using parse_ok [OF assms(1)] by (simp add: distribution_ok_def)
  obtain tiles where tiles: "read_tiles ?ls (up (filter (\<lambda>c. \<not> is_whitespace c) typed)) [] = Some (Some tiles)"
      "rack = spelled ?ls (sort_tiles tiles)"
    using assms(5) by (auto simp: canonical_rack_def spelled_def)
  have valid: "list_all (\<lambda>i. i < length ?ls) tiles"
    using read_tiles_returns [OF nonempty, of "[]" "up (filter (\<lambda>c. \<not> is_whitespace c) typed)"] tiles(1)
    by simp
  have sorted_valid: "list_all (\<lambda>i. i < length ?ls) (sort_tiles tiles)"
    using valid by (metis list_all_iff mset_sort_tiles set_mset_mset)
  have space: "\<not> is_whitespace 91" "\<not> is_whitespace 93"
    by (simp_all add: is_whitespace_def)
  have "\<not> is_whitespace c" if "i < length ?ls" "c \<in> set (spell_letter (lt_letter (?ls ! i)))" for i c
    using that(2) space assms(4) [OF nth_mem [OF that(1)]]
    by (auto simp: spell_letter_def list_all_iff split: if_splits)
  then have "list_all (\<lambda>c. \<not> is_whitespace c) (spelled ?ls (sort_tiles tiles))"
    using sorted_valid unfolding spelled_def list_all_iff by fastforce
  then have "filter (\<lambda>c. \<not> is_whitespace c) rack = rack"
    using tiles(2) by (simp add: filter_id_conv list_all_iff)
  then have "read_tiles ?ls (up (filter (\<lambda>c. \<not> is_whitespace c) rack)) [] = Some (Some (sort_tiles tiles))"
    using read_tiles_spelled [OF assms(2) sorted_valid, of "[]"] assms(3) tiles(2) by simp
  then show ?thesis
    by (simp add: canonical_rack_def sort_tiles_idem tiles(2) spelled_def)
qed

theorem canonical_rack_is_canonical_witness:
  "canonical_rack id tiny (lit ''AB?'') = Some (Some (lit ''BA?'')) \<and>
   canonical_rack id tiny (lit ''BA?'') = Some (Some (lit ''BA?''))"
proof
  show r: "canonical_rack id tiny (lit ''AB?'') = Some (Some (lit ''BA?''))"
    by (simp add: canonical_rack_def tiny_def lit_def is_whitespace_def read_tiles.simps next_tile_def
        longest_letter_def starts_with_def utf8_len_def char_utf8_len_def sort_tiles_def
        spell_letter_def upt_rec)
  have "readable (ld_letters tiny)"
    by (simp add: readable_def tiny_def lit_def)
  then show "canonical_rack id tiny (lit ''BA?'') = Some (Some (lit ''BA?''))"
    using r by (intro canonical_rack_is_canonical [OF parse_tiny])
      (auto simp: tiny_def lit_def is_whitespace_def)
qed

text \<open>
  \<open>canonical_rack\<close> returns for everything typed, whatever letters a distribution that parses has:
  each step of its loop takes at least one character, since no letter is empty.
\<close>

theorem canonical_rack_returns:
  assumes "parse bytes origin = Inr ld"
  shows "\<exists>r. canonical_rack up ld typed = Some r"
proof -
  have "list_all (\<lambda>l. lt_letter l \<noteq> []) (ld_letters ld)"
    using parse_ok [OF assms] by (simp add: distribution_ok_def)
  from read_tiles_returns [OF this, of "[]"] show ?thesis
    by (auto simp: canonical_rack_def)
qed

theorem canonical_rack_returns_witness:
  "\<exists>r. canonical_rack id tiny (lit ''A[B?'') = Some r"
  by (rule canonical_rack_returns [OF parse_tiny])

end
