(* ===== verification/Templates.thy ===== *)
theory Templates
  imports Wire Racks "HOL-Library.List_Lexorder" "HOL-Library.Product_Lexorder"
begin

text \<open>
  \<open>jobs/dispatch.rs\<close> and the loading functions of \<open>jobs/mod.rs\<close>: what a job's tasks are built from,
  read once per job and kept.  The catalogue holds the configuration tables a template is read from;
  \<open>fetch_one\<close> on a row that is not there is an internal error.
\<close>

section \<open>What a job pins\<close>

record job_data =
  jd_variant :: ustr
  jd_letterdist_name :: ustr
  jd_letterdist :: letter_distribution
  jd_layout_name :: ustr
  jd_bingo_bonus :: int
  jd_sim_cutoff :: f64

record expected_file =
  ef_role :: ustr
  ef_name :: ustr
  ef_path :: ustr
  ef_sha256 :: ustr
  ef_tarball_date :: ustr

datatype job_kind =
    Kind_OpeningRack opening_rack_config player_spec rack_index
  | Kind_Games game_config player_spec player_spec
  | Kind_GamePairs game_pair_config player_spec player_spec
  | Kind_LeaveGeneration leave_config player_spec

record job_template =
  jt_job_id :: nat
  jt_data :: job_data
  jt_expected :: "expected_file list"
  jt_kind :: job_kind

definition mismatch :: "string \<Rightarrow> app_error" where
  "mismatch wanted = Internal wanted"

section \<open>The catalogue\<close>

record input_row =
  in_id :: nat
  in_role :: ustr
  in_name :: ustr
  in_path :: ustr
  in_sha256 :: ustr
  in_tarball_date :: ustr
  in_content :: "nat list"

record catalogue =
  cat_input_data :: "input_row list"
  cat_players :: "named_player_config list"
  cat_opening_rack :: "(nat \<times> opening_rack_config) list"
  cat_game :: "(nat \<times> game_config) list"
  cat_game_pair :: "(nat \<times> game_pair_config) list"
  cat_leave :: "(nat \<times> leave_config) list"

definition fetch_one :: "'a option \<Rightarrow> 'a app_result" where
  "fetch_one row = ok_or row (Internal ''no such row'')"

definition input_of :: "catalogue \<Rightarrow> nat \<Rightarrow> input_row option" where
  "input_of cat i = find (\<lambda>r. in_id r = i) (cat_input_data cat)"

definition named_player :: "catalogue \<Rightarrow> nat \<Rightarrow> named_player_config option" where
  "named_player cat i = find (\<lambda>n. pc_id (n_config n) = i) (cat_players cat)"

definition load_player_spec :: "catalogue \<Rightarrow> nat \<Rightarrow> player_spec app_result" where
  "load_player_spec cat i = and_then (fetch_one (named_player cat i)) (\<lambda>n. Inr (player_spec_of n))"

definition load_job_data :: "catalogue \<Rightarrow> job_row \<Rightarrow> job_data app_result" where
  "load_job_data cat j =
     and_then (fetch_one (input_of cat (j_letterdist_id j))) (\<lambda>ld.
     and_then (fetch_one (input_of cat (j_layout_id j))) (\<lambda>layout.
     and_then (parse (in_content ld) (in_name ld)) (\<lambda>letterdist.
       Inr \<lparr>jd_variant = j_variant j, jd_letterdist_name = in_name ld, jd_letterdist = letterdist,
            jd_layout_name = in_name layout, jd_bingo_bonus = j_bingo_bonus j,
            jd_sim_cutoff = j_sim_cutoff j\<rparr>)))"

text \<open>The two common table expressions of \<open>expected_data\<close>.\<close>

definition job_players :: "catalogue \<Rightarrow> nat \<Rightarrow> nat list" where
  "job_players cat job_id =
     concat (map (\<lambda>(i, c). if i = job_id then [gc_player1_config_id c, gc_player2_config_id c] else [])
       (cat_game cat)) @
     concat (map (\<lambda>(i, c). if i = job_id then [pg_player1_config_id c, pg_player2_config_id c] else [])
       (cat_game_pair cat)) @
     concat (map (\<lambda>(i, c). if i = job_id then [oc_player_config_id c] else []) (cat_opening_rack cat))"

definition expected_ids :: "catalogue \<Rightarrow> job_row \<Rightarrow> nat list" where
  "expected_ids cat j =
     (let players = filter (\<lambda>n. pc_id (n_config n) \<in> set (job_players cat (j_id j))) (cat_players cat);
          leave_players = filter (\<lambda>n. (j_id j, pc_id (n_config n)) \<in>
             set (map (\<lambda>(i, c). (i, lc_player_config_id c)) (cat_leave cat))) (cat_players cat)
      in [j_letterdist_id j, j_layout_id j] @
         map (\<lambda>n. pc_kwg_id (n_config n)) leave_players @
         map (\<lambda>n. pc_kwg_id (n_config n)) players @
         map (\<lambda>n. pc_klv_id (n_config n)) players @
         concat (map (\<lambda>n. case pc_winpct_id (n_config n) of None \<Rightarrow> [] | Some i \<Rightarrow> [i]) players))"

definition expected_data :: "catalogue \<Rightarrow> job_row \<Rightarrow> expected_file list" where
  "expected_data cat j =
     map (\<lambda>r. \<lparr>ef_role = in_role r, ef_name = in_name r, ef_path = in_path r, ef_sha256 = in_sha256 r,
            ef_tarball_date = in_tarball_date r\<rparr>)
       (sort_key (\<lambda>r. (in_role r, in_name r))
         (filter (\<lambda>r. in_id r \<in> set (expected_ids cat j)) (cat_input_data cat)))"

definition load_template :: "catalogue \<Rightarrow> job_row \<Rightarrow> job_template app_result" where
  "load_template cat j =
     and_then (load_job_data cat j) (\<lambda>data.
     and_then
       (case j_job_type j of
          OpeningRack \<Rightarrow>
            and_then (fetch_one (map_of (cat_opening_rack cat) (j_id j))) (\<lambda>config.
            and_then (load_player_spec cat (oc_player_config_id config)) (\<lambda>player.
            and_then (rack_index_new (jd_letterdist data) (nat (oc_rack_size config))) (\<lambda>index.
              Inr (Kind_OpeningRack config player index))))
        | Games \<Rightarrow>
            and_then (fetch_one (map_of (cat_game cat) (j_id j))) (\<lambda>config.
            and_then (load_player_spec cat (gc_player1_config_id config)) (\<lambda>player1.
            and_then (load_player_spec cat (gc_player2_config_id config)) (\<lambda>player2.
              Inr (Kind_Games config player1 player2))))
        | GamePairs \<Rightarrow>
            and_then (fetch_one (map_of (cat_game_pair cat) (j_id j))) (\<lambda>config.
            and_then (load_player_spec cat (pg_player1_config_id config)) (\<lambda>player1.
            and_then (load_player_spec cat (pg_player2_config_id config)) (\<lambda>player2.
              Inr (Kind_GamePairs config player1 player2))))
        | LeaveGeneration \<Rightarrow>
            and_then (fetch_one (map_of (cat_leave cat) (j_id j))) (\<lambda>config.
            and_then (load_player_spec cat (lc_player_config_id config)) (\<lambda>player.
              Inr (Kind_LeaveGeneration config player))))
       (\<lambda>kind. Inr \<lparr>jt_job_id = j_id j, jt_data = data, jt_expected = expected_data cat j,
            jt_kind = kind\<rparr>))"

section \<open>The templates a process keeps\<close>

text \<open>\<open>Instant\<close> is a number of microseconds; the current one is an argument.\<close>

record job_templates =
  tc_loaded :: "nat \<rightharpoonup> job_template"
  tc_failed :: "nat \<rightharpoonup> time"

definition TEMPLATE_RETRY_AFTER :: time where "TEMPLATE_RETRY_AFTER = 60000000"

definition templates_new :: job_templates where
  "templates_new = \<lparr>tc_loaded = Map.empty, tc_failed = Map.empty\<rparr>"

definition templates_get :: "job_templates \<Rightarrow> nat \<Rightarrow> job_template option" where
  "templates_get tc job_id = tc_loaded tc job_id"

definition recently_failed :: "job_templates \<Rightarrow> time \<Rightarrow> nat \<Rightarrow> bool \<times> job_templates" where
  "recently_failed tc now job_id =
     (case tc_failed tc job_id of
        None \<Rightarrow> (False, tc)
      | Some failed_at \<Rightarrow>
          if now - failed_at < TEMPLATE_RETRY_AFTER then (True, tc)
          else (False, tc\<lparr>tc_failed := (tc_failed tc)(job_id := None)\<rparr>))"

definition get_or_load ::
  "job_templates \<Rightarrow> catalogue \<Rightarrow> time \<Rightarrow> job_row \<Rightarrow> job_template app_result \<times> job_templates" where
  "get_or_load tc cat now j =
     (case templates_get tc (j_id j) of
        Some template \<Rightarrow> (Inr template, tc)
      | None \<Rightarrow>
          (case load_template cat j of
             Inr template \<Rightarrow>
               (Inr template, tc\<lparr>tc_loaded := (tc_loaded tc)(j_id j \<mapsto> template)\<rparr>)
           | Inl err \<Rightarrow> (Inl err, tc\<lparr>tc_failed := (tc_failed tc)(j_id j \<mapsto> now)\<rparr>)))"

definition forget :: "job_templates \<Rightarrow> nat \<Rightarrow> job_templates" where
  "forget tc job_id = tc\<lparr>tc_loaded := (tc_loaded tc)(job_id := None),
     tc_failed := (tc_failed tc)(job_id := None)\<rparr>"

section \<open>Typed request rows\<close>

record game_request_row =
  gq_task_id :: nat
  gq_variant :: ustr
  gq_seed :: int
  gq_num_games :: int
  gq_player1_config_id :: nat
  gq_player2_config_id :: nat
  gq_capture_positions :: bool
  gq_letter_distribution :: ustr
  gq_board_layout :: ustr
  gq_capture_first_divergence :: bool

definition insert_game_request ::
  "game_request_row list \<Rightarrow> nat \<Rightarrow> game_request \<Rightarrow> nat \<Rightarrow> nat \<Rightarrow> game_request_row list" where
  "insert_game_request rows task_id req p1 p2 = rows @
     [\<lparr>gq_task_id = task_id, gq_variant = gr_variant req, gq_seed = as_i64 (gr_seed req),
       gq_num_games = gr_num_games req, gq_player1_config_id = p1, gq_player2_config_id = p2,
       gq_capture_positions = gr_capture_positions req,
       gq_letter_distribution = gr_letter_distribution req,
       gq_board_layout = gr_board_layout req,
       gq_capture_first_divergence = gr_capture_first_divergence req\<rparr>]"

definition load_game_request_row :: "game_request_row list \<Rightarrow> nat \<Rightarrow> game_request_row app_result" where
  "load_game_request_row rows task_id = fetch_one (find (\<lambda>r. gq_task_id r = task_id) rows)"

definition seed_from_row :: "game_request_row \<Rightarrow> int" where
  "seed_from_row r = as_u64 (gq_seed r)"

definition load_game_request ::
  "game_request_row list \<Rightarrow> job_template \<Rightarrow> nat \<Rightarrow> game_request app_result" where
  "load_game_request rows template task_id =
     and_then
       (case jt_kind template of
          Kind_Games config player1 player2 \<Rightarrow> Inr (player1, player2, gc_threading_mode config)
        | Kind_GamePairs config player1 player2 \<Rightarrow> Inr (player1, player2, pg_threading_mode config)
        | _ \<Rightarrow> Inl (mismatch ''games''))
     (\<lambda>(player1, player2, threading_mode).
     and_then (load_game_request_row rows task_id) (\<lambda>row.
       Inr \<lparr>gr_variant = gq_variant row, gr_letter_distribution = gq_letter_distribution row,
            gr_board_layout = gq_board_layout row, gr_seed = seed_from_row row,
            gr_num_games = gq_num_games row, gr_capture_positions = gq_capture_positions row,
            gr_capture_first_divergence = gq_capture_first_divergence row,
            gr_bingo_bonus = jd_bingo_bonus (jt_data template),
            gr_sim_cutoff = jd_sim_cutoff (jt_data template),
            gr_threading_mode = threading_mode, gr_player1 = player1, gr_player2 = player2\<rparr>))"

end
