(* ===== verification/Holds.thy ===== *)
theory Holds
  imports Job_Model
begin

text \<open>
  \<open>jobs/mod.rs\<close>, \<open>DispatchHolds\<close>: the jobs whose dispatch lock, or whose open claims, this process
  is holding for long.  Every method runs under one mutex, so an execution is a sequence of the
  operations below; a guard is a value, and dropping it is an operation.
\<close>

section \<open>State and operations\<close>

datatype hold_kind = DispatchOnly | Claims

record holds_inner =
  hi_held :: "nat \<rightharpoonup> nat \<times> nat"
  hi_reclaim_not_before :: "nat \<rightharpoonup> time"
  hi_claims_holds_taken :: "nat \<rightharpoonup> nat"

record dispatch_hold =
  dh_job_id :: nat
  dh_kind :: hold_kind
  dh_grace :: time
  dh_committed :: bool

definition holds_new :: holds_inner where
  "holds_new = \<lparr>hi_held = Map.empty, hi_reclaim_not_before = Map.empty,
     hi_claims_holds_taken = Map.empty\<rparr>"

definition held_counts :: "holds_inner \<Rightarrow> nat \<Rightarrow> nat \<times> nat" where
  "held_counts h job_id = (case hi_held h job_id of None \<Rightarrow> (0, 0) | Some counts \<Rightarrow> counts)"

fun count_up :: "hold_kind \<Rightarrow> nat \<times> nat \<Rightarrow> nat \<times> nat" where
  "count_up DispatchOnly (d, c) = (Suc d, c)"
| "count_up Claims (d, c) = (d, Suc c)"

fun count_down :: "hold_kind \<Rightarrow> nat \<times> nat \<Rightarrow> nat \<times> nat" where
  "count_down DispatchOnly (d, c) = (d - 1, c)"
| "count_down Claims (d, c) = (d, c - 1)"

definition hold :: "holds_inner \<Rightarrow> nat \<Rightarrow> hold_kind \<Rightarrow> time \<Rightarrow> holds_inner \<times> dispatch_hold" where
  "hold h job_id kind grace =
     (h\<lparr>hi_held := (hi_held h)(job_id \<mapsto> count_up kind (held_counts h job_id))\<rparr>,
      \<lparr>dh_job_id = job_id, dh_kind = kind, dh_grace = grace, dh_committed = False\<rparr>)"

text \<open>The entry is made before the check, so a refused attempt leaves the counts it read.\<close>

definition try_claims ::
  "holds_inner \<Rightarrow> nat \<Rightarrow> time \<Rightarrow> bool \<Rightarrow> holds_inner \<times> dispatch_hold option" where
  "try_claims h job_id grace counted =
     (let counts = held_counts h job_id;
          h1 = h\<lparr>hi_held := (hi_held h)(job_id \<mapsto> counts)\<rparr>
      in if snd counts > 0 then (h1, None)
         else
           (let h2 = h1\<lparr>hi_held := (hi_held h1)(job_id \<mapsto> count_up Claims counts)\<rparr>;
                h3 = (if counted
                  then h2\<lparr>hi_claims_holds_taken := (hi_claims_holds_taken h2)(job_id \<mapsto>
                    (case hi_claims_holds_taken h2 job_id of None \<Rightarrow> 0 | Some n \<Rightarrow> n) + 1)\<rparr>
                  else h2)
            in (h3, Some \<lparr>dh_job_id = job_id, dh_kind = Claims, dh_grace = grace,
                  dh_committed = False\<rparr>)))"

definition try_hold_claims ::
  "holds_inner \<Rightarrow> nat \<Rightarrow> time \<Rightarrow> holds_inner \<times> dispatch_hold option" where
  "try_hold_claims h job_id grace = try_claims h job_id grace True"

definition try_hold_claims_uncounted ::
  "holds_inner \<Rightarrow> nat \<Rightarrow> time \<Rightarrow> holds_inner \<times> dispatch_hold option" where
  "try_hold_claims_uncounted h job_id grace = try_claims h job_id grace False"

definition claims_holds_taken :: "holds_inner \<Rightarrow> nat \<Rightarrow> nat" where
  "claims_holds_taken h job_id =
     (case hi_claims_holds_taken h job_id of None \<Rightarrow> 0 | Some n \<Rightarrow> n)"

definition is_held :: "holds_inner \<Rightarrow> nat \<Rightarrow> bool" where
  "is_held h job_id \<longleftrightarrow> hi_held h job_id \<noteq> None"

definition claims_held :: "holds_inner \<Rightarrow> nat \<Rightarrow> bool" where
  "claims_held h job_id \<longleftrightarrow> (case hi_held h job_id of None \<Rightarrow> False | Some counts \<Rightarrow> snd counts > 0)"

definition any_claims_held :: "holds_inner \<Rightarrow> bool" where
  "any_claims_held h \<longleftrightarrow> (\<exists>counts\<in>ran (hi_held h). snd counts > 0)"

definition reclaimable :: "holds_inner \<Rightarrow> time \<Rightarrow> nat list \<Rightarrow> holds_inner \<times> nat list" where
  "reclaimable h now job_ids =
     (let kept = (\<lambda>i. case hi_reclaim_not_before h i of
            None \<Rightarrow> None | Some until \<Rightarrow> if until > now then Some until else None)
      in (h\<lparr>hi_reclaim_not_before := kept\<rparr>, filter (\<lambda>i. kept i = None) job_ids))"

definition committed :: "dispatch_hold \<Rightarrow> dispatch_hold" where
  "committed g = g\<lparr>dh_committed := True\<rparr>"

definition drop_hold :: "holds_inner \<Rightarrow> dispatch_hold \<Rightarrow> time \<Rightarrow> holds_inner" where
  "drop_hold h g now =
     (let h1 = (case hi_held h (dh_job_id g) of
            None \<Rightarrow> h
          | Some counts \<Rightarrow>
              (let counts' = count_down (dh_kind g) counts
               in if counts' = (0, 0) then h\<lparr>hi_held := (hi_held h)(dh_job_id g := None)\<rparr>
                  else h\<lparr>hi_held := (hi_held h)(dh_job_id g \<mapsto> counts')\<rparr>))
      in if dh_kind g = Claims \<and> \<not> dh_committed g
         then h1\<lparr>hi_reclaim_not_before :=
           (hi_reclaim_not_before h1)(dh_job_id g \<mapsto> now + dh_grace g)\<rparr>
         else h1)"

section \<open>Executions\<close>

text \<open>
  The steps of the callers: the scheduler's hold of a seeding, a purge, delete or edit trying for the
  claims, a holder that commits, and a guard that goes out of scope.  The state is the mutex's
  contents and the guards alive, in no order.
\<close>

inductive holds_step ::
  "holds_inner \<times> dispatch_hold list \<Rightarrow> holds_inner \<times> dispatch_hold list \<Rightarrow> bool" where
  seeding: "hold h job DispatchOnly grace = (h', g) \<Longrightarrow> holds_step (h, gs) (h', g # gs)"
| taken: "try_claims h job grace counted = (h', Some g) \<Longrightarrow> holds_step (h, gs) (h', g # gs)"
| refused: "try_claims h job grace counted = (h', None) \<Longrightarrow> holds_step (h, gs) (h', gs)"
| commit: "holds_step (h, as @ g # bs) (h, as @ committed g # bs)"
| dropped: "holds_step (h, as @ g # bs) (drop_hold h g now, as @ bs)"
| reclaim: "reclaimable h now jobs = (h', js) \<Longrightarrow> holds_step (h, gs) (h', gs)"

inductive holds_reachable :: "holds_inner \<times> dispatch_hold list \<Rightarrow> bool" where
  start: "holds_reachable (holds_new, [])"
| step: "holds_reachable s \<Longrightarrow> holds_step s s' \<Longrightarrow> holds_reachable s'"

section \<open>The counts are the guards alive\<close>

definition guards :: "hold_kind \<Rightarrow> nat \<Rightarrow> dispatch_hold list \<Rightarrow> nat" where
  "guards kind job gs = length (filter (\<lambda>g. dh_kind g = kind \<and> dh_job_id g = job) gs)"

text \<open>The entry of a job is absent rather than zero.\<close>

definition entry_of :: "nat \<Rightarrow> dispatch_hold list \<Rightarrow> (nat \<times> nat) option" where
  "entry_of job gs =
     (if guards DispatchOnly job gs = 0 \<and> guards Claims job gs = 0 then None
      else Some (guards DispatchOnly job gs, guards Claims job gs))"

definition counted :: "holds_inner \<times> dispatch_hold list \<Rightarrow> bool" where
  "counted s \<longleftrightarrow> (\<forall>job. hi_held (fst s) job = entry_of job (snd s) \<and> guards Claims job (snd s) \<le> 1)"

lemma guards_simps [simp]:
  "guards kind job [] = 0"
  "guards kind job (g # gs) = (if dh_kind g = kind \<and> dh_job_id g = job then 1 else 0) + guards kind job gs"
  "guards kind job (as @ bs) = guards kind job as + guards kind job bs"
  by (simp_all add: guards_def)

lemma committed_simps [simp]:
  "dh_kind (committed g) = dh_kind g" "dh_job_id (committed g) = dh_job_id g" "dh_committed (committed g)"
  by (simp_all add: committed_def)

lemma held_counts_upd [simp]:
  "held_counts (h\<lparr>hi_held := (hi_held h)(job \<mapsto> c)\<rparr>) i = (if i = job then c else held_counts h i)"
  "held_counts (h\<lparr>hi_held := (hi_held h)(job := None)\<rparr>) i = (if i = job then (0, 0) else held_counts h i)"
  "held_counts (h\<lparr>hi_reclaim_not_before := m\<rparr>) i = held_counts h i"
  "held_counts (h\<lparr>hi_claims_holds_taken := t\<rparr>) i = held_counts h i"
  by (simp_all add: held_counts_def)

lemma count_up_simps [simp]:
  "count_up kind c = (if kind = DispatchOnly then Suc (fst c) else fst c,
     if kind = Claims then Suc (snd c) else snd c)"
  "count_down kind c = (if kind = DispatchOnly then fst c - 1 else fst c,
     if kind = Claims then snd c - 1 else snd c)"
  by (cases kind; cases c; simp)+

lemma countedD:
  assumes "counted (h, gs)"
  shows "hi_held h job = entry_of job gs" "guards Claims job gs \<le> 1"
    "held_counts h job = (guards DispatchOnly job gs, guards Claims job gs)"
  using assms by (auto simp: counted_def held_counts_def entry_of_def)

lemma countedI:
  "(\<And>job. hi_held h job = entry_of job gs) \<Longrightarrow> (\<And>job. guards Claims job gs \<le> 1) \<Longrightarrow> counted (h, gs)"
  by (simp add: counted_def)

lemma counted_start: "counted (holds_new, [])"
  by (simp add: counted_def holds_new_def entry_of_def)

lemma hold_held:
  "hi_held (fst (hold h job kind grace)) i =
     (if i = job then Some (count_up kind (held_counts h job)) else hi_held h i)"
  by (simp add: hold_def del: count_up_simps)

lemma try_claims_held:
  "try_claims h job grace cnt = (h', r) \<Longrightarrow> hi_held h' i =
     (if i \<noteq> job then hi_held h i
      else if snd (held_counts h job) > 0 then Some (held_counts h job)
      else Some (count_up Claims (held_counts h job)))"
  by (auto simp: try_claims_def Let_def split: if_splits)

lemma try_claims_guard:
  "try_claims h job grace cnt = (h', Some g) \<Longrightarrow>
     snd (held_counts h job) = 0 \<and> dh_kind g = Claims \<and> dh_job_id g = job"
  "try_claims h job grace cnt = (h', None) \<Longrightarrow> snd (held_counts h job) > 0"
  by (auto simp: try_claims_def Let_def split: if_splits)

lemma counted_drop:
  assumes "counted (h, as @ g # bs)"
  shows "counted (drop_hold h g now, as @ bs)"
proof (rule countedI)
  fix i
  show "guards Claims i (as @ bs) \<le> 1"
    using countedD(2) [OF assms, of i] by (simp split: if_splits)
  have some: "hi_held h (dh_job_id g) = Some (held_counts h (dh_job_id g))"
    using countedD(1,3) [OF assms, of "dh_job_id g"]
    by (cases "dh_kind g") (simp_all add: entry_of_def)
  have held: "hi_held (drop_hold h g now) i =
      (if i \<noteq> dh_job_id g then hi_held h i
       else if count_down (dh_kind g) (held_counts h i) = (0, 0) then None
       else Some (count_down (dh_kind g) (held_counts h i)))"
    by (simp add: drop_hold_def some Let_def del: count_up_simps)
  show "hi_held (drop_hold h g now) i = entry_of i (as @ bs)"
  proof (cases "i = dh_job_id g")
    case True
    then show ?thesis
      unfolding held countedD(3) [OF assms] by (cases "dh_kind g") (simp_all add: entry_of_def)
  next
    case False
    then show ?thesis
      using held countedD(1) [OF assms, of i] by (simp add: entry_of_def)
  qed
qed

lemma counted_step: "holds_step s s' \<Longrightarrow> counted s \<Longrightarrow> counted s'"
proof (induction rule: holds_step.induct)
  case (seeding h job grace h' g gs)
  have g: "dh_kind g = DispatchOnly" "dh_job_id g = job"
    using seeding(1) by (auto simp: hold_def)
  show ?case
    using hold_held [of h job DispatchOnly grace] countedD [OF seeding(2)] g
    by (intro countedI) (auto simp: seeding(1) entry_of_def)
next
  case (taken h job grace cnt h' g gs)
  show ?case
    using try_claims_held [OF taken(1)] try_claims_guard(1) [OF taken(1)] countedD [OF taken(2)]
    by (intro countedI) (auto simp: entry_of_def)
next
  case (refused h job grace cnt h' gs)
  show ?case
    using try_claims_held [OF refused(1)] try_claims_guard(2) [OF refused(1)] countedD [OF refused(2)]
    by (intro countedI) (auto simp: entry_of_def)
next
  case (commit h as g bs)
  then show ?case by (simp add: counted_def entry_of_def)
next
  case (dropped h as g bs now)
  then show ?case by (rule counted_drop)
next
  case (reclaim h now jobs h' js gs)
  then show ?case by (auto simp: counted_def reclaimable_def Let_def)
qed

lemma counted_reachable: "holds_reachable s \<Longrightarrow> counted s"
  by (induction rule: holds_reachable.induct) (auto simp: counted_start counted_step)

lemma guards_pos: "0 < guards kind job gs \<longleftrightarrow> (\<exists>g\<in>set gs. dh_kind g = kind \<and> dh_job_id g = job)"
  by (auto simp: guards_def filter_empty_conv)

section \<open>Properties\<close>

text \<open>
  C7: in every execution of the callers, a job is held exactly while a guard of it is alive, its
  claims exactly while a purge's, a delete's or an edit's guard is, and of those there is never
  more than one: the counts behind the answers are the numbers of guards alive, so they come back
  to nothing when the last is dropped.
\<close>

theorem holds_are_the_guards_alive:
  assumes "holds_reachable (h, gs)"
  shows "(is_held h job \<longleftrightarrow> (\<exists>g\<in>set gs. dh_job_id g = job)) \<and>
    (claims_held h job \<longleftrightarrow> (\<exists>g\<in>set gs. dh_kind g = Claims \<and> dh_job_id g = job)) \<and>
    length (filter (\<lambda>g. dh_kind g = Claims \<and> dh_job_id g = job) gs) \<le> 1"
proof -
  note c = counted_reachable [OF assms]
  have kinds: "dh_kind g = DispatchOnly \<or> dh_kind g = Claims" for g
    by (cases "dh_kind g") simp_all
  have "is_held h job \<longleftrightarrow> 0 < guards DispatchOnly job gs \<or> 0 < guards Claims job gs"
    using countedD(1) [OF c, of job] by (auto simp: is_held_def entry_of_def)
  then have "is_held h job \<longleftrightarrow> (\<exists>g\<in>set gs. dh_job_id g = job)"
    unfolding guards_pos using kinds by blast
  moreover have "claims_held h job \<longleftrightarrow> 0 < guards Claims job gs"
    using countedD(1) [OF c, of job] by (auto simp: claims_held_def entry_of_def)
  ultimately show ?thesis
    using countedD(2) [OF c, of job] by (simp add: guards_pos) (simp add: guards_def)
qed

definition two_purges :: "holds_inner \<times> dispatch_hold list" where
  "two_purges = (let (h, g) = try_claims holds_new 7 10 True in
     (fst (try_claims h 7 10 True), [the g]))"

theorem holds_are_the_guards_alive_witness:
  "is_held (fst two_purges) 7 \<and> claims_held (fst two_purges) 7 \<and> \<not> is_held (fst two_purges) 8"
proof -
  obtain h g where s1: "try_claims holds_new 7 10 True = (h, Some g)"
    by (simp add: try_claims_def Let_def holds_new_def held_counts_def)
  obtain h' where s2: "try_claims h 7 10 True = (h', None)"
    using s1 by (auto simp: try_claims_def Let_def holds_new_def held_counts_def)
  have "holds_reachable (h, [g])"
    using holds_reachable.step [OF holds_reachable.start] holds_step.taken [OF s1] by blast
  then have r: "holds_reachable (h', [g])"
    using holds_reachable.step holds_step.refused [OF s2] by blast
  have "dh_job_id g = 7" "dh_kind g = Claims"
    using s1 by (auto simp: try_claims_def Let_def holds_new_def held_counts_def)
  moreover have "fst two_purges = h'"
    using s1 s2 by (simp add: two_purges_def)
  ultimately show ?thesis
    using holds_are_the_guards_alive [OF r, of 7] holds_are_the_guards_alive [OF r, of 8]
    by simp
qed

text \<open>
  The claims of a job whose purge, delete or edit ended without committing are not reclaimed
  before the grace has passed, while one that committed spares nothing.
\<close>

theorem uncommitted_hold_spares_the_claims:
  assumes "dh_kind g = Claims" "now' < now + dh_grace g" "hi_reclaim_not_before h (dh_job_id g) = None"
  shows "dh_job_id g \<in> set (snd (reclaimable (drop_hold h g now) now' [dh_job_id g])) \<longleftrightarrow>
    dh_committed g"
proof -
  have "hi_reclaim_not_before (drop_hold h g now) (dh_job_id g) =
      (if dh_committed g then None else Some (now + dh_grace g))"
    using assms(1,3) by (auto simp: drop_hold_def Let_def split: option.splits)
  then show ?thesis using assms(2) by (simp add: reclaimable_def Let_def)
qed

theorem uncommitted_hold_spares_the_claims_witness:
  "snd (reclaimable (drop_hold holds_new
     \<lparr>dh_job_id = 7, dh_kind = Claims, dh_grace = 60, dh_committed = False\<rparr> 100) 150 [7]) = []"
  using uncommitted_hold_spares_the_claims
    [of "\<lparr>dh_job_id = 7, dh_kind = Claims, dh_grace = 60, dh_committed = False\<rparr>" 150 100 holds_new]
  by (auto simp: holds_new_def reclaimable_def Let_def split: if_splits)

end
