(* ===== verification/Outcomes.thy ===== *)
theory Outcomes
  imports Prelude
begin

text \<open>
  \<open>stats/outcomes.rs\<close>: outcome counts, pair-outcome counts, and the sample either reduces to.  Counts
  are \<open>u64\<close> values with their wrap-around; a sample's mean and variance are exact reals, so rounding
  is not modelled.
\<close>

section \<open>Counts\<close>

record tally =
  ta_wins :: int
  ta_losses :: int
  ta_draws :: int

definition tally_total :: "tally \<Rightarrow> int" where
  "tally_total t = as_u64 (ta_wins t + ta_losses t + ta_draws t)"

text \<open>\<open>Pentanomial.counts\<close>: five counts, by player 1's half-points over the pair.\<close>

definition pairs_count :: "int list \<Rightarrow> int" where
  "pairs_count counts = as_u64 (sum_list counts)"

definition half_points :: "int list \<Rightarrow> int" where
  "half_points counts = as_u64 (sum_list (map (\<lambda>(i, c). int i * c) (enumerate 0 counts)))"

section \<open>Samples\<close>

record sample =
  sa_n :: int
  sa_mean :: real
  sa_variance :: real

definition from_games :: "tally \<Rightarrow> sample" where
  "from_games t =
     (let n = tally_total t
      in if n = 0 then \<lparr>sa_n = 0, sa_mean = 0, sa_variance = 0\<rparr>
         else
           (let n_f = of_int n;
                mean = (of_int (ta_wins t) + 0.5 * of_int (ta_draws t)) / n_f;
                second_moment = (of_int (ta_wins t) + 0.25 * of_int (ta_draws t)) / n_f
            in \<lparr>sa_n = n, sa_mean = mean, sa_variance = second_moment - mean * mean\<rparr>))"

text \<open>The loop over the buckets carries the mean and the second moment.\<close>

definition from_pentanomial :: "int list \<Rightarrow> sample" where
  "from_pentanomial counts =
     (let n = pairs_count counts
      in if n = 0 then \<lparr>sa_n = 0, sa_mean = 0, sa_variance = 0\<rparr>
         else
           (let n_f = of_int n;
                (mean, second_moment) =
                  foldl (\<lambda>(m, s) (i, count).
                    let score = of_nat i / 4; weight = of_int count / n_f
                    in (m + score * weight, s + score * score * weight))
                  (0, 0) (enumerate 0 counts)
            in \<lparr>sa_n = n, sa_mean = mean, sa_variance = second_moment - mean * mean\<rparr>))"

section \<open>The games and pairs counted\<close>

datatype outcome = Win | Loss | Draw

fun half_points_of :: "outcome \<Rightarrow> nat" where
  "half_points_of Win = 2"
| "half_points_of Loss = 0"
| "half_points_of Draw = 1"

text \<open>A pair is the outcomes of its two games for player 1.\<close>

type_synonym pair = "outcome \<times> outcome"

definition bucket :: "pair \<Rightarrow> nat" where
  "bucket p = half_points_of (fst p) + half_points_of (snd p)"

definition games_of :: "pair list \<Rightarrow> outcome list" where
  "games_of ps = concat (map (\<lambda>(a, b). [a, b]) ps)"

definition number_of :: "outcome \<Rightarrow> outcome list \<Rightarrow> int" where
  "number_of r gs = int (length (filter (\<lambda>g. g = r) gs))"

definition tally_of :: "outcome list \<Rightarrow> tally" where
  "tally_of gs = \<lparr>ta_wins = number_of Win gs, ta_losses = number_of Loss gs, ta_draws = number_of Draw gs\<rparr>"

definition pentanomial_of :: "pair list \<Rightarrow> int list" where
  "pentanomial_of ps = map (\<lambda>b. int (length (filter (\<lambda>p. bucket p = b) ps))) [0, 1, 2, 3, 4]"

text \<open>A game's score, and a pair's as half-points over four.\<close>

definition game_score :: "outcome \<Rightarrow> real" where
  "game_score g = of_nat (half_points_of g) / 2"

definition pair_score :: "pair \<Rightarrow> real" where
  "pair_score p = of_nat (bucket p) / 4"

definition mean_of :: "real list \<Rightarrow> real" where
  "mean_of xs = sum_list xs / of_nat (length xs)"

definition variance_of :: "real list \<Rightarrow> real" where
  "variance_of xs = mean_of (map (\<lambda>x. (x - mean_of xs)\<^sup>2) xs)"

lemma number_of_simps [simp]:
  "number_of r [] = 0" "number_of r (g # gs) = (if g = r then 1 else 0) + number_of r gs"
  "number_of r (as @ bs) = number_of r as + number_of r bs"
  by (simp_all add: number_of_def)

lemma number_of_nonneg: "0 \<le> number_of r gs"
  by (simp add: number_of_def)

lemma number_of_total: "number_of Win gs + number_of Loss gs + number_of Draw gs = int (length gs)"
proof (induction gs)
  case (Cons g gs)
  then show ?case by (cases g) simp_all
qed simp

lemma games_of_simps [simp]:
  "games_of [] = []" "games_of ((a, b) # ps) = a # b # games_of ps"
  "games_of (ps @ qs) = games_of ps @ games_of qs"
  by (simp_all add: games_of_def)

lemma pentanomial_of_simps:
  "pentanomial_of [] = [0, 0, 0, 0, 0]"
  "pentanomial_of (p # ps) =
     map2 (+) (map (\<lambda>b. if bucket p = b then 1 else 0) [0, 1, 2, 3, 4]) (pentanomial_of ps)"
  "pentanomial_of (ps @ qs) = map2 (+) (pentanomial_of ps) (pentanomial_of qs)"
  by (simp_all add: pentanomial_of_def)

lemma bucket_le: "bucket p \<le> 4"
  by (cases "fst p"; cases "snd p") (simp_all add: bucket_def)

text \<open>A variance is the second moment less the square of the mean.\<close>

lemma variance_moments:
  assumes "xs \<noteq> []"
  shows "variance_of xs = mean_of (map (\<lambda>x. x * x) xs) - mean_of xs * mean_of xs"
proof -
  have sq: "(\<Sum>x\<leftarrow>xs. (x - m)\<^sup>2) = (\<Sum>x\<leftarrow>xs. x * x) - 2 * m * sum_list xs + of_nat (length xs) * (m * m)"
    for m :: real
    by (induction xs) (simp_all add: power2_eq_square algebra_simps)
  have "sum_list xs = of_nat (length xs) * mean_of xs"
    using assms by (simp add: mean_of_def)
  then have "(\<Sum>x\<leftarrow>xs. (x - mean_of xs)\<^sup>2) =
      (\<Sum>x\<leftarrow>xs. x * x) - of_nat (length xs) * (mean_of xs * mean_of xs)"
    unfolding sq by (simp add: algebra_simps)
  then have "variance_of xs =
      ((\<Sum>x\<leftarrow>xs. x * x) - of_nat (length xs) * (mean_of xs * mean_of xs)) / of_nat (length xs)"
    by (simp add: variance_of_def mean_of_def [of "map (\<lambda>x. (x - mean_of xs)\<^sup>2) xs"])
  also have "\<dots> = (\<Sum>x\<leftarrow>xs. x * x) / of_nat (length xs) - mean_of xs * mean_of xs"
    using assms by (simp add: diff_divide_distrib)
  finally show ?thesis by (simp add: mean_of_def)
qed

lemma sum_game_scores:
  "(\<Sum>g\<leftarrow>gs. game_score g) = of_int (number_of Win gs) + 0.5 * of_int (number_of Draw gs)"
  "(\<Sum>g\<leftarrow>gs. game_score g * game_score g) =
     of_int (number_of Win gs) + 0.25 * of_int (number_of Draw gs)"
proof (induction gs)
  case (Cons g gs)
  { case 1 show ?case using Cons(1) by (cases g) (simp_all add: game_score_def) }
  { case 2 show ?case using Cons(2) by (cases g) (simp_all add: game_score_def) }
qed simp_all

lemma sum_pair_scores:
  "(\<Sum>p\<leftarrow>ps. f (bucket p)) =
     (\<Sum>b\<leftarrow>[0, 1, 2, 3, 4]. f b * of_int (int (length (filter (\<lambda>p. bucket p = b) ps))))"
  for f :: "nat \<Rightarrow> real"
proof (induction ps)
  case (Cons p ps)
  have "bucket p \<in> {0, 1, 2, 3, 4}" using bucket_le [of p] by auto
  with Cons show ?case by (auto simp: algebra_simps)
qed simp

lemma sum_pentanomial: "sum_list (pentanomial_of ps) = int (length ps)"
proof -
  have "real_of_int (sum_list (pentanomial_of ps)) = (\<Sum>p\<leftarrow>ps. 1)"
    using sum_pair_scores [of "\<lambda>_. 1" ps] by (simp add: pentanomial_of_def)
  also have "\<dots> = real_of_int (int (length ps))"
    by (simp add: sum_list_triv)
  finally show ?thesis by (simp only: of_int_eq_iff)
qed

lemma from_games_moments:
  assumes "gs \<noteq> []" "int (length gs) \<le> u64_max"
  shows "from_games (tally_of gs) = \<lparr>sa_n = int (length gs), sa_mean = mean_of (map game_score gs),
    sa_variance = variance_of (map game_score gs)\<rparr>"
proof -
  have n: "tally_total (tally_of gs) = int (length gs)"
    using assms(2) number_of_total [of gs] by (simp add: tally_total_def tally_of_def as_u64_id)
  have m: "variance_of (map game_score gs) =
      mean_of (map (\<lambda>g. game_score g * game_score g) gs) -
      mean_of (map game_score gs) * mean_of (map game_score gs)"
    using assms(1) by (subst variance_moments) (simp_all add: o_def)
  show ?thesis
    unfolding from_games_def n m using assms(1)
    by (simp add: Let_def mean_of_def sum_game_scores) (simp add: tally_of_def)
qed

lemma from_pentanomial_moments:
  assumes "ps \<noteq> []" "int (length ps) \<le> u64_max"
  shows "from_pentanomial (pentanomial_of ps) = \<lparr>sa_n = int (length ps),
    sa_mean = mean_of (map pair_score ps), sa_variance = variance_of (map pair_score ps)\<rparr>"
proof -
  have n: "pairs_count (pentanomial_of ps) = int (length ps)"
    using assms(2) by (simp add: pairs_count_def sum_pentanomial as_u64_id)
  have m: "variance_of (map pair_score ps) =
      mean_of (map (\<lambda>p. pair_score p * pair_score p) ps) -
      mean_of (map pair_score ps) * mean_of (map pair_score ps)"
    using assms(1) by (subst variance_moments) (simp_all add: o_def)
  have eta: "map pair_score ps = map (\<lambda>p. of_nat (bucket p) / 4) ps"
    by (simp add: pair_score_def)
  have "foldl (\<lambda>(m, s) (i, count).
          let score = of_nat i / 4; weight = of_int count / of_int (int (length ps))
          in (m + score * weight, s + score * score * weight))
        (0, 0) (enumerate 0 (pentanomial_of ps)) =
      (mean_of (map pair_score ps), mean_of (map (\<lambda>p. pair_score p * pair_score p) ps))"
    using sum_pair_scores [of "\<lambda>b. of_nat b / 4" ps]
      sum_pair_scores [of "\<lambda>b. (of_nat b / 4) * (of_nat b / 4)" ps]
    by (simp add: Let_def mean_of_def eta pair_score_def pentanomial_of_def add_divide_distrib)
  then show ?thesis
    unfolding from_pentanomial_def n m using assms(1) by (simp add: Let_def)
qed

section \<open>Properties\<close>

text \<open>
  The sample of a pairs job is the mean and the variance of its pairs' scores, every pair an
  observation, and its mean is the mean score of the games played; the sample of the same games
  taken one at a time has that same mean, so the two views of a result agree on the rate and differ
  only in what they count.
\<close>

theorem samples_are_moments_of_the_scores:
  assumes "ps \<noteq> []" "2 * int (length ps) \<le> u64_max"
  shows "from_pentanomial (pentanomial_of ps) = \<lparr>sa_n = int (length ps),
      sa_mean = mean_of (map pair_score ps), sa_variance = variance_of (map pair_score ps)\<rparr> \<and>
    from_games (tally_of (games_of ps)) = \<lparr>sa_n = 2 * int (length ps),
      sa_mean = mean_of (map pair_score ps), sa_variance = variance_of (map game_score (games_of ps))\<rparr>"
proof -
  have len: "length (games_of ps) = 2 * length ps"
    by (induction ps) (auto simp: games_of_def)
  then have ne: "games_of ps \<noteq> []" using assms(1) by auto
  have "sum_list (map game_score (games_of ps)) = 2 * sum_list (map pair_score ps)"
    by (induction ps) (auto simp: games_of_def game_score_def pair_score_def bucket_def field_simps)
  then have "mean_of (map game_score (games_of ps)) = mean_of (map pair_score ps)"
    using assms(1) by (simp add: mean_of_def len)
  moreover have "int (length ps) \<le> u64_max" using assms(2) by simp
  ultimately show ?thesis
    using from_pentanomial_moments [OF assms(1)] from_games_moments [OF ne] assms(2) len by simp
qed

theorem samples_are_moments_of_the_scores_witness:
  "sa_mean (from_pentanomial [0, 1, 0, 0, 1]) = 5 / 8"
proof -
  have "pentanomial_of [(Win, Win), (Loss, Draw)] = [0, 1, 0, 0, 1]"
    by (simp add: pentanomial_of_def bucket_def)
  moreover have "mean_of (map pair_score [(Win, Win), (Loss, Draw)]) = 5 / 8"
    by (simp add: mean_of_def pair_score_def bucket_def)
  ultimately show ?thesis
    using samples_are_moments_of_the_scores [of "[(Win, Win), (Loss, Draw)]"]
    by (simp add: u64_max_def)
qed

end
