(* ===== verification/Games.thy ===== *)
theory Games
  imports Plausibility Templates Outcomes
begin

text \<open>
  \<open>jobs/game.rs\<close> and \<open>jobs/game_pair.rs\<close>: what a games or game-pairs result must satisfy, the record
  it becomes, and the request of the next task.  Of the database only the job's task seeds are read.
\<close>

section \<open>Captured positions\<close>

definition MAX_TURNS_PER_GAME :: int where "MAX_TURNS_PER_GAME = 400"

text \<open>The body of the loop after the duplicate check.\<close>

definition validate_position :: "captured_position \<Rightarrow> int \<Rightarrow> position_analysis app_result" where
  "validate_position position games_in_batch =
     and_then (first_error
       [refuse_if (cp_game_index position < 0 \<or> cp_game_index position \<ge> games_in_batch)
          ''captured position names a game the batch does not have'',
        refuse_if (cp_player position \<noteq> 1 \<and> cp_player position \<noteq> 2)
          ''a position is player 1's or player 2's'',
        refuse_if (cp_turn_number position < 0 \<or> cp_turn_number position > MAX_TURNS_PER_GAME)
          ''an implausible turn number'',
        refuse_if (cp_moves position = [])
          ''a captured position must carry at least one ranked move'',
        check_rack (cp_rack position),
        check_position_text (cp_position position) (cp_previous_move position)
          (cp_previous_move_score position),
        check_played_move (cp_played_move position) (cp_played_move_score position),
        check_moves (cp_moves position) (Some (cp_num_moves position))]) (\<lambda>_.
     and_then (ok_or (analysis_parse (cp_analysis position))
       (Bad_request ''captured position has an unknown analysis'')) (\<lambda>an.
     and_then (first_error
       [check_analysis an (cp_moves position),
        check_opt (\<lambda>inference. check_inference inference an (cp_turn_number position)
          (cp_previous_move position \<noteq> None)) (cp_inference position)]) (\<lambda>_.
       Inr \<lparr>pa_rack = cp_rack position, pa_position = Some (cp_position position),
            pa_game_index = Some (cp_game_index position),
            pa_turn_number = Some (cp_turn_number position), pa_player = Some (cp_player position),
            pa_previous_move = cp_previous_move position,
            pa_previous_move_score = cp_previous_move_score position,
            pa_played_move = Some (cp_played_move position),
            pa_played_move_score = Some (cp_played_move_score position),
            pa_num_moves = cp_num_moves position, pa_analysis = an, pa_moves = cp_moves position,
            pa_inference = cp_inference position\<rparr>)))"

fun validate_positions_from ::
  "(int \<times> int) list \<Rightarrow> captured_position list \<Rightarrow> int \<Rightarrow> position_analysis list app_result" where
  "validate_positions_from seen [] games_in_batch = Inr []"
| "validate_positions_from seen (position # ps) games_in_batch =
     (if (cp_game_index position, cp_turn_number position) \<in> set seen
      then Inl (Bad_request ''two captured positions for one turn of a game'')
      else and_then (validate_position position games_in_batch) (\<lambda>row.
        and_then (validate_positions_from
            ((cp_game_index position, cp_turn_number position) # seen) ps games_in_batch)
          (\<lambda>rows. Inr (row # rows))))"

definition validate_positions ::
  "captured_position list \<Rightarrow> int \<Rightarrow> position_analysis list app_result" where
  "validate_positions = validate_positions_from []"

definition validate_aggregate :: "game_aggregate \<Rightarrow> check" where
  "validate_aggregate a =
     refuse_if (\<not> is_consistent a) ''wins + losses + ties must equal games, all non-negative''"

section \<open>Games\<close>

definition process_games :: "game_results_response \<Rightarrow> game_results_record app_result" where
  "process_games response =
     and_then (first_error
       [validate_aggregate (rs_all_games response),
        check_game_aggregate (rs_all_games response),
        refuse_if (games (rs_all_games response) = 0)
          ''a games result must contain at least one game'']) (\<lambda>_.
     and_then (validate_positions (rs_positions response) (games (rs_all_games response))) (\<lambda>positions.
       Inr \<lparr>rr_all_games = rs_all_games response, rr_pentanomial = None,
            rr_divergent_games = None, rr_positions = positions\<rparr>))"

text \<open>\<open>SELECT MAX(seed) FROM tasks WHERE job_id = $1\<close>, over the seeds of the job's tasks.\<close>

definition past_the_cap :: "int \<Rightarrow> int \<Rightarrow> bool" where
  "past_the_cap next_seed max_units \<longleftrightarrow> next_seed > max_units"

definition next_seed :: "int list \<Rightarrow> int \<Rightarrow> int" where
  "next_seed seeds batch = (case max_of seeds of None \<Rightarrow> 1 | Some m \<Rightarrow> m + batch)"

definition next_games_request ::
  "int list \<Rightarrow> game_config \<Rightarrow> job_data \<Rightarrow> player_spec \<Rightarrow> player_spec \<Rightarrow> (int \<times> game_request) option" where
  "next_games_request seeds config data player1 player2 =
     (let seed = next_seed seeds (gc_games_per_batch config)
      in if past_the_cap seed (gc_max_games config) then None
         else Some (seed, \<lparr>gr_variant = jd_variant data,
           gr_letter_distribution = jd_letterdist_name data, gr_board_layout = jd_layout_name data,
           gr_seed = as_u64 seed, gr_num_games = gc_games_per_batch config,
           gr_capture_positions = gc_capture_positions config, gr_capture_first_divergence = False,
           gr_bingo_bonus = jd_bingo_bonus data, gr_sim_cutoff = jd_sim_cutoff data,
           gr_threading_mode = gc_threading_mode config,
           gr_player1 = player1, gr_player2 = player2\<rparr>))"

section \<open>Game pairs\<close>

text \<open>\<open>check_divergent_against_the_whole\<close>; division by two of a count that is not negative.\<close>

definition check_divergent_against_the_whole ::
  "game_aggregate \<Rightarrow> pentanomial \<Rightarrow> game_aggregate \<Rightarrow> check" where
  "check_divergent_against_the_whole all pentanomial divergent =
     (let w = wins all - wins divergent;
          l = losses all - losses divergent;
          t = ties all - ties divergent;
          unsplit = pentanomial ! 0 + pentanomial ! 1 + pentanomial ! 3 + pentanomial ! 4
      in first_error
        [refuse_if (w < 0 \<or> l < 0 \<or> t < 0) ''divergent_games has more than all_games'',
         refuse_if (w \<noteq> l \<or> t mod 2 \<noteq> 0)
           ''the pairs outside divergent_games must each be a win and a loss or two draws'',
         refuse_if (unsplit > games divergent div 2) ''more pairs were not split than diverged''])"

text \<open>The checks of a pentanomial against the game counts.\<close>

definition check_pentanomial :: "game_aggregate \<Rightarrow> pentanomial \<Rightarrow> check" where
  "check_pentanomial all pentanomial =
     (let draws_in_even_pairs = ties all - pentanomial ! 1 - pentanomial ! 3
      in first_error
        [refuse_if (list_ex (\<lambda>count. count < 0 \<or> count > games all) pentanomial)
           ''pentanomial counts must be non-negative, and none can exceed the games played'',
         refuse_if (as_u64 (pairs_count (map as_u64 pentanomial) * 2) \<noteq> as_u64 (games all))
           ''pentanomial pair count must be exactly half the games played'',
         refuse_if (half_points (map as_u64 pentanomial) \<noteq>
             as_u64 (2 * as_u64 (wins all) + as_u64 (ties all)))
           ''pentanomial disagrees with the game counts about player 1's score'',
         refuse_if (draws_in_even_pairs < 0 \<or> draws_in_even_pairs mod 2 \<noteq> 0 \<or>
             draws_in_even_pairs div 2 > pentanomial ! 2)
           ''pentanomial disagrees with the game counts about the draws''])"

definition check_divergent :: "game_aggregate \<Rightarrow> pentanomial \<Rightarrow> game_aggregate \<Rightarrow> check" where
  "check_divergent all pentanomial divergent = first_error
     [validate_aggregate divergent,
      check_game_aggregate divergent,
      refuse_if (games divergent mod 2 \<noteq> 0 \<or> games divergent > games all)
        ''divergent_games must be even and no larger than the total games played'',
      check_divergent_against_the_whole all pentanomial divergent]"

definition process_game_pairs :: "game_results_response \<Rightarrow> game_results_record app_result" where
  "process_game_pairs response =
     (let all = rs_all_games response
      in and_then (first_error
        [validate_aggregate all,
         check_game_aggregate all,
         refuse_if (games all = 0 \<or> games all mod 2 \<noteq> 0)
           ''a game_pairs result must contain an even, non-zero number of games'']) (\<lambda>_.
      and_then (ok_or (rs_pentanomial response)
        (Bad_request ''a game_pairs result must report a pentanomial'')) (\<lambda>pentanomial.
      and_then (check_pentanomial all pentanomial) (\<lambda>_.
      and_then (check_opt (check_divergent all pentanomial) (rs_divergent_games response)) (\<lambda>_.
      and_then (validate_positions (rs_positions response) (games all)) (\<lambda>positions.
        Inr \<lparr>rr_all_games = all, rr_pentanomial = Some pentanomial,
             rr_divergent_games = rs_divergent_games response, rr_positions = positions\<rparr>))))))"

definition next_game_pairs_request ::
  "int list \<Rightarrow> game_pair_config \<Rightarrow> job_data \<Rightarrow> player_spec \<Rightarrow> player_spec \<Rightarrow>
    (int \<times> game_request) option" where
  "next_game_pairs_request seeds config data player1 player2 =
     (let seed = next_seed seeds (pg_pairs_per_batch config)
      in if past_the_cap seed (pg_max_pairs config) then None
         else Some (seed, \<lparr>gr_variant = jd_variant data,
           gr_letter_distribution = jd_letterdist_name data, gr_board_layout = jd_layout_name data,
           gr_seed = as_u64 seed, gr_num_games = pg_pairs_per_batch config,
           gr_capture_positions = pg_capture_positions config,
           gr_capture_first_divergence = pg_capture_first_divergence config,
           gr_bingo_bonus = jd_bingo_bonus data, gr_sim_cutoff = jd_sim_cutoff data,
           gr_threading_mode = pg_threading_mode config,
           gr_player1 = player1, gr_player2 = player2\<rparr>))"

section \<open>First divergences\<close>

definition board_of :: "ustr option \<Rightarrow> ustr option" where
  "board_of position = map_option (\<lambda>cgp. hd (split_by (\<lambda>c. c = 32) cgp)) position"

text \<open>\<open>game / 2\<close> truncates towards zero.\<close>

definition pair_of :: "int \<Rightarrow> int" where
  "pair_of game = (if game \<ge> 0 then game div 2 else - ((- game) div 2))"

text \<open>The loop keeps each pair's first position, by pair, and the number of complete pairs.\<close>

fun first_divergences_from ::
  "(int \<times> position_analysis) list \<Rightarrow> int \<Rightarrow> position_analysis list \<Rightarrow>
    ((int \<times> position_analysis) list \<times> int) app_result" where
  "first_divergences_from first completed [] = Inr (first, completed)"
| "first_divergences_from first completed (position # ps) =
     (case (pa_game_index position, pa_turn_number position) of
        (Some game, Some turn) \<Rightarrow>
          (case map_of first (pair_of game) of
             None \<Rightarrow> first_divergences_from ((pair_of game, position) # first) completed ps
           | Some other \<Rightarrow>
               and_then (first_error
                 [refuse_if (pa_game_index other = Some game)
                    ''a game has two first-divergence positions'',
                  refuse_if (pa_turn_number other \<noteq> Some turn)
                    ''first-divergence positions at different turns'',
                  refuse_if (board_of (pa_position other) \<noteq> board_of (pa_position position) \<or>
                      pa_rack other \<noteq> pa_rack position)
                    ''first-divergence positions are different positions''])
               (\<lambda>_. first_divergences_from first (completed + 1) ps))
      | _ \<Rightarrow> Inl (Bad_request ''a captured position names no game and turn''))"

definition check_first_divergences ::
  "position_analysis list \<Rightarrow> game_aggregate option \<Rightarrow> check" where
  "check_first_divergences positions divergent_games =
     and_then (ok_or divergent_games
       (Bad_request ''a result that keeps first divergences must report divergent_games'')) (\<lambda>divergent.
     and_then (first_divergences_from [] 0 positions) (\<lambda>(first, completed).
       first_error
         [refuse_if (int (length first) \<noteq> completed) ''a pair kept one first-divergence position'',
          refuse_if (completed * 2 \<noteq> games divergent)
            ''the pairs that kept a first divergence are not the ones that diverged'']))"

end
