(* ===== verification/Games_Spec.thy ===== *)
theory Games_Spec
  imports Games Plausibility_Spec
begin

text \<open>
  What a games or game-pairs result must be to be accepted: positions that describe turns of the
  batch's games, counts that some batch of games has, a divergent subset that some pairs explain,
  and first divergences that come in pairs.  The seeds of the tasks made on demand tile the job.
\<close>

section \<open>Captured positions\<close>

definition row_of :: "captured_position \<Rightarrow> analysis \<Rightarrow> position_analysis" where
  "row_of p an = \<lparr>pa_rack = cp_rack p, pa_position = Some (cp_position p),
     pa_game_index = Some (cp_game_index p), pa_turn_number = Some (cp_turn_number p),
     pa_player = Some (cp_player p), pa_previous_move = cp_previous_move p,
     pa_previous_move_score = cp_previous_move_score p, pa_played_move = Some (cp_played_move p),
     pa_played_move_score = Some (cp_played_move_score p), pa_num_moves = cp_num_moves p,
     pa_analysis = an, pa_moves = cp_moves p, pa_inference = cp_inference p\<rparr>"

definition analysis_of :: "captured_position \<Rightarrow> analysis" where
  "analysis_of p = (case analysis_parse (cp_analysis p) of None \<Rightarrow> Static | Some an \<Rightarrow> an)"

text \<open>An inference's counts are \<open>i64\<close> values.\<close>

definition position_fits :: "captured_position \<Rightarrow> bool" where
  "position_fits p \<longleftrightarrow> pred_option (\<lambda>i. is_total_draws i \<le> i64_max) (cp_inference p)"

definition position_ok :: "int \<Rightarrow> captured_position \<Rightarrow> bool" where
  "position_ok n p \<longleftrightarrow>
     0 \<le> cp_game_index p \<and> cp_game_index p < n \<and> cp_player p \<in> {1, 2} \<and>
     0 \<le> cp_turn_number p \<and> cp_turn_number p \<le> 400 \<and>
     rack_ok (cp_rack p) \<and> length (cp_position p) \<le> MAX_POSITION_CHARS \<and>
     pred_option play_text_ok (cp_previous_move p) \<and>
     pred_option play_score_ok (cp_previous_move_score p) \<and>
     trim (cp_played_move p) \<noteq> [] \<and> play_text_ok (cp_played_move p) \<and>
     play_score_ok (cp_played_move_score p) \<and>
     cp_moves p \<noteq> [] \<and> int (length (cp_moves p)) \<le> cp_num_moves p \<and> list_all move_ok (cp_moves p) \<and>
     analysis_as_str (analysis_of p) = cp_analysis p \<and>
     (analysis_of p = Endgame \<longrightarrow> length (cp_moves p) = 1) \<and>
     list_all (analysed_move_ok (analysis_of p)) (cp_moves p) \<and>
     pred_option (\<lambda>i. inference_ok i (analysis_of p) (cp_turn_number p) (cp_previous_move p \<noteq> None))
       (cp_inference p)"


lemma validate_position_iff:
  assumes "position_fits p"
  shows "validate_position p n = Inr row \<longleftrightarrow> position_ok n p \<and> row = row_of p (analysis_of p)"
proof (cases "analysis_parse (cp_analysis p)")
  case None
  then have "\<not> position_ok n p"
    using analysis_parse_as_str by (metis option.distinct(1) position_ok_def)
  with None show ?thesis
    by (auto simp: validate_position_def ok_or_def and_then_check_Inr)
next
  case (Some an)
  then have an: "analysis_of p = an" "cp_analysis p = analysis_as_str an"
    by (auto simp: analysis_of_def analysis_parse_Some analysis_parse_as_str)
  have inf: "check_opt (\<lambda>i. check_inference i an t b) (cp_inference p) = ok \<longleftrightarrow>
      pred_option (\<lambda>i. inference_ok i an t b) (cp_inference p)" for t b
    using assms by (cases "cp_inference p") (simp_all add: position_fits_def check_inference_iff)
  show ?thesis
    unfolding validate_position_def and_then_check_Inr first_error_Cons_ok Some ok_or_def inf
    by (simp add: and_then_check_Inr inf spec_iff an row_of_def MAX_TURNS_PER_GAME_def position_ok_def
        del: first_error.simps) auto
qed

abbreviation turn_key :: "captured_position \<Rightarrow> int \<times> int" where
  "turn_key p \<equiv> (cp_game_index p, cp_turn_number p)"

lemma validate_positions_from_iff:
  "list_all position_fits ps \<Longrightarrow> validate_positions_from seen ps n = Inr rows \<longleftrightarrow>
     list_all (position_ok n) ps \<and> distinct (map turn_key ps) \<and>
     set (map turn_key ps) \<inter> set seen = {} \<and> rows = map (\<lambda>p. row_of p (analysis_of p)) ps"
proof (induction seen ps n arbitrary: rows rule: validate_positions_from.induct)
  case (2 seen p ps n)
  show ?case
  proof (cases "turn_key p \<in> set seen")
    case False
    have fits: "position_fits p" "list_all position_fits ps" using 2(2) by simp_all
    show ?thesis
      using False
      by (auto simp: and_then_Inr validate_position_iff [OF fits(1)] 2(1) [OF False fits(2)])
  qed auto
qed auto

lemma validate_positions_iff:
  "list_all position_fits ps \<Longrightarrow> validate_positions ps n = Inr rows \<longleftrightarrow>
     list_all (position_ok n) ps \<and> distinct (map turn_key ps) \<and>
     rows = map (\<lambda>p. row_of p (analysis_of p)) ps"
  by (simp add: validate_positions_def validate_positions_from_iff)

lemma validate_aggregate_iff [spec_iff]: "validate_aggregate a = ok \<longleftrightarrow> is_consistent a"
  by (simp add: validate_aggregate_def)

interpretation consistent: validator validate_aggregate is_consistent
  by unfold_locales (rule validate_aggregate_iff)

section \<open>Pentanomials and tallies\<close>

definition in_bucket :: "nat \<Rightarrow> pair list \<Rightarrow> int" where
  "in_bucket b ps = int (length (filter (\<lambda>p. bucket p = b) ps))"

lemma in_bucket_simps [simp]:
  "in_bucket b [] = 0" "in_bucket b (p # ps) = (if bucket p = b then 1 else 0) + in_bucket b ps"
  "in_bucket b (ps @ qs) = in_bucket b ps + in_bucket b qs"
  "in_bucket b (replicate n p) = (if bucket p = b then int n else 0)"
  by (simp_all add: in_bucket_def)

lemma in_bucket_nonneg: "0 \<le> in_bucket b ps"
  by (simp add: in_bucket_def)

lemma pentanomial_of_buckets:
  "pentanomial_of ps = [in_bucket 0 ps, in_bucket 1 ps, in_bucket 2 ps, in_bucket 3 ps, in_bucket 4 ps]"
  by (simp add: pentanomial_of_def in_bucket_def)

definition double_draws :: "pair list \<Rightarrow> int" where
  "double_draws ps = int (length (filter (\<lambda>p. p = (Draw, Draw)) ps))"

lemma double_draws_simps [simp]:
  "double_draws [] = 0" "double_draws (p # ps) = (if p = (Draw, Draw) then 1 else 0) + double_draws ps"
  by (simp_all add: double_draws_def)

lemma pair_counts:
  "in_bucket 0 ps + in_bucket 1 ps + in_bucket 2 ps + in_bucket 3 ps + in_bucket 4 ps = int (length ps)"
  "in_bucket 1 ps + 2 * in_bucket 2 ps + 3 * in_bucket 3 ps + 4 * in_bucket 4 ps =
     2 * number_of Win (games_of ps) + number_of Draw (games_of ps)"
  "number_of Draw (games_of ps) = in_bucket 1 ps + in_bucket 3 ps + 2 * double_draws ps"
  "0 \<le> double_draws ps" "double_draws ps \<le> in_bucket 2 ps"
proof (induction ps)
  case (Cons p ps)
  obtain a b where p: "p = (a, b)" by (cases p)
  { case 1 show ?case using Cons(1) by (cases a; cases b) (simp_all add: p bucket_def) }
  { case 2 show ?case using Cons(2) by (cases a; cases b) (simp_all add: p bucket_def) }
  { case 3 show ?case using Cons(3) by (cases a; cases b) (simp_all add: p bucket_def) }
  { case 4 show ?case using Cons(4) by simp }
  { case 5 show ?case using Cons(5) by (cases a; cases b) (simp_all add: p bucket_def) }
qed simp_all

lemma length_games_of: "length (games_of ps) = 2 * length ps"
  by (induction ps) (auto simp: games_of_def)

text \<open>Pairs with given bucket counts, \<open>d\<close> of them two draws.\<close>

definition pairs_with :: "int \<Rightarrow> int \<Rightarrow> int \<Rightarrow> int \<Rightarrow> int \<Rightarrow> int \<Rightarrow> pair list" where
  "pairs_with p0 p1 p2 p3 p4 d =
     replicate (nat p0) (Loss, Loss) @ replicate (nat p1) (Loss, Draw) @
     replicate (nat (p2 - d)) (Win, Loss) @ replicate (nat d) (Draw, Draw) @
     replicate (nat p3) (Win, Draw) @ replicate (nat p4) (Win, Win)"

lemma number_of_games_replicate [simp]:
  "number_of r (games_of (replicate n (a, b))) = int n * (if a = r then 1 else 0) + int n * (if b = r then 1 else 0)"
  by (induction n) (simp_all add: algebra_simps)

lemma pairs_with_counts:
  assumes "0 \<le> p0" "0 \<le> p1" "0 \<le> p3" "0 \<le> p4" "0 \<le> d" "d \<le> p2"
  shows "pentanomial_of (pairs_with p0 p1 p2 p3 p4 d) = [p0, p1, p2, p3, p4]"
    "number_of Win (games_of (pairs_with p0 p1 p2 p3 p4 d)) = p2 - d + p3 + 2 * p4"
    "number_of Draw (games_of (pairs_with p0 p1 p2 p3 p4 d)) = p1 + 2 * d + p3"
    "int (length (pairs_with p0 p1 p2 p3 p4 d)) = p0 + p1 + p2 + p3 + p4"
  using assms by (simp_all add: pairs_with_def pentanomial_of_buckets bucket_def)

definition counts_pairs :: "game_aggregate \<Rightarrow> pentanomial \<Rightarrow> pair list \<Rightarrow> bool" where
  "counts_pairs all pent ps \<longleftrightarrow> pentanomial_of ps = pent \<and> games all = 2 * int (length ps) \<and>
     tally_of (games_of ps) = \<lparr>ta_wins = wins all, ta_losses = losses all, ta_draws = ties all\<rparr>"

lemma check_pentanomial_equations:
  assumes "is_consistent all" "games all \<le> i32_max"
  shows "check_pentanomial all [p0, p1, p2, p3, p4] = ok \<longleftrightarrow>
    (\<forall>p\<in>{p0, p1, p2, p3, p4}. 0 \<le> p \<and> p \<le> games all) \<and>
    2 * (p0 + p1 + p2 + p3 + p4) = games all \<and>
    p1 + 2 * p2 + 3 * p3 + 4 * p4 = 2 * wins all + ties all \<and>
    (\<exists>d. ties all = p1 + p3 + 2 * d \<and> 0 \<le> d \<and> d \<le> p2)"
proof (cases "\<forall>p\<in>{p0, p1, p2, p3, p4}. 0 \<le> p \<and> p \<le> games all")
  case True
  have g: "0 \<le> games all" "0 \<le> wins all" "0 \<le> ties all" "wins all \<le> games all" "ties all \<le> games all"
    "games all \<le> 2147483647"
    using assms by (auto simp: is_consistent_def i32_max_def)
  have u: "as_u64 p = p" if "0 \<le> p" "p \<le> 100000000000" for p
    using that by (simp add: as_u64_id u64_max_def)
  have p: "as_u64 p = p" if "p \<in> {p0, p1, p2, p3, p4}" for p
    using True that g(6) by (intro u) force+
  have "p0 + p1 + p2 + p3 + p4 \<le> 5 * games all" "0 \<le> p0 + p1 + p2 + p3 + p4"
    "p1 + 2 * p2 + 3 * p3 + 4 * p4 \<le> 10 * games all" "0 \<le> p1 + 2 * p2 + 3 * p3 + 4 * p4"
    using True by auto
  then have sums: "as_u64 (p0 + p1 + p2 + p3 + p4) = p0 + p1 + p2 + p3 + p4"
    "as_u64 ((p0 + p1 + p2 + p3 + p4) * 2) = (p0 + p1 + p2 + p3 + p4) * 2"
    "as_u64 (p1 + 2 * p2 + 3 * p3 + 4 * p4) = p1 + 2 * p2 + 3 * p3 + 4 * p4"
    "as_u64 (games all) = games all" "as_u64 (ties all) = ties all" "as_u64 (wins all) = wins all"
    "as_u64 (2 * wins all + ties all) = 2 * wins all + ties all"
    using g by (auto intro!: u)
  have pairs: "pairs_count (map as_u64 [p0, p1, p2, p3, p4]) = p0 + p1 + p2 + p3 + p4"
    using p sums(1) by (simp add: pairs_count_def add.assoc)
  have halves: "half_points (map as_u64 [p0, p1, p2, p3, p4]) = p1 + 2 * p2 + 3 * p3 + 4 * p4"
    using p sums(3) by (simp add: half_points_def add.assoc)
  have draws: "\<not> (t - p1 - p3 < 0 \<or> (t - p1 - p3) mod 2 \<noteq> 0 \<or> (t - p1 - p3) div 2 > p2) \<longleftrightarrow>
      (\<exists>d. t = p1 + p3 + 2 * d \<and> 0 \<le> d \<and> d \<le> p2)" (is "?L \<longleftrightarrow> ?R") for t
  proof
    assume ?L
    then show ?R by (intro exI [of _ "(t - p1 - p3) div 2"]) presburger
  qed auto
  show ?thesis
    unfolding check_pentanomial_def Let_def first_error_Cons_ok refuse_if_ok pairs halves sums
    using True draws [of "ties all"] by (auto simp: mult.commute)
next
  case False
  then have "list_ex (\<lambda>count. count < 0 \<or> count > games all) [p0, p1, p2, p3, p4]"
    by (auto simp: not_le)
  with False show ?thesis
    unfolding check_pentanomial_def Let_def first_error_Cons_ok refuse_if_ok by blast
qed

lemma check_pentanomial_iff:
  assumes "length pent = 5" "games all \<le> i32_max"
  shows "validate_aggregate all = ok \<and> check_pentanomial all pent = ok \<longleftrightarrow>
    (\<exists>ps. counts_pairs all pent ps)"
proof
  obtain p0 p1 p2 p3 p4 where pent: "pent = [p0, p1, p2, p3, p4]"
    using assms(1) by (auto simp: length_Suc_conv numeral_eq_Suc)
  { assume ok: "validate_aggregate all = ok \<and> check_pentanomial all pent = ok"
    then have c: "is_consistent all" by (simp add: validate_aggregate_iff)
    from ok obtain d where *: "\<forall>p\<in>{p0, p1, p2, p3, p4}. 0 \<le> p \<and> p \<le> games all"
        "2 * (p0 + p1 + p2 + p3 + p4) = games all"
        "p1 + 2 * p2 + 3 * p3 + 4 * p4 = 2 * wins all + ties all"
        "ties all = p1 + p3 + 2 * d" "0 \<le> d" "d \<le> p2"
      unfolding pent check_pentanomial_equations [OF c assms(2)] by blast
    let ?ps = "pairs_with p0 p1 p2 p3 p4 d"
    note counts = pairs_with_counts [of p0 p1 p3 p4 d p2]
    have "number_of Loss (games_of ?ps) = losses all"
      using number_of_total [of "games_of ?ps"] counts * c
      by (simp add: length_games_of is_consistent_def)
    with counts * have "counts_pairs all pent ?ps"
      by (simp add: counts_pairs_def pent tally_of_def)
    then show "\<exists>ps. counts_pairs all pent ps" by blast }
  { assume "\<exists>ps. counts_pairs all pent ps"
    then obtain ps where ps: "counts_pairs all pent ps" by blast
    then have e: "in_bucket 0 ps = p0" "in_bucket 1 ps = p1" "in_bucket 2 ps = p2" "in_bucket 3 ps = p3"
        "in_bucket 4 ps = p4" "games all = 2 * int (length ps)"
        "number_of Win (games_of ps) = wins all" "number_of Loss (games_of ps) = losses all"
        "number_of Draw (games_of ps) = ties all"
      by (simp_all add: counts_pairs_def pent pentanomial_of_buckets tally_of_def)
    note counts = pair_counts [of ps, unfolded e]
    have nonneg: "0 \<le> p0" "0 \<le> p1" "0 \<le> p2" "0 \<le> p3" "0 \<le> p4" "0 \<le> wins all" "0 \<le> losses all" "0 \<le> ties all"
      using in_bucket_nonneg [of _ ps] number_of_nonneg [of _ "games_of ps"] e by metis+
    have "wins all + losses all + ties all = games all"
      using number_of_total [of "games_of ps"] e by (simp add: length_games_of)
    then have c: "is_consistent all"
      using nonneg e(6) by (simp add: is_consistent_def)
    have "2 * (p0 + p1 + p2 + p3 + p4) = games all"
      using counts(1) e(6) by simp
    then have "check_pentanomial all pent = ok"
      unfolding pent check_pentanomial_equations [OF c assms(2)]
      using counts nonneg by auto
    with c show "validate_aggregate all = ok \<and> check_pentanomial all pent = ok"
      by (simp add: validate_aggregate_iff) }
qed

section \<open>The divergent subset\<close>

text \<open>A batch with, for each pair, whether its games diverged.\<close>

type_synonym batch = "(pair \<times> bool) list"

definition played_identically :: "pair \<Rightarrow> bool" where
  "played_identically p \<longleftrightarrow> p \<in> {(Win, Loss), (Loss, Win), (Draw, Draw)}"

definition honest :: "batch \<Rightarrow> bool" where
  "honest b \<longleftrightarrow> (\<forall>(p, diverged)\<in>set b. \<not> diverged \<longrightarrow> played_identically p)"

definition diverged_pairs :: "batch \<Rightarrow> pair list" where
  "diverged_pairs b = map fst (filter snd b)"

lemma honest_counts:
  "honest b \<Longrightarrow>
    number_of Win (games_of (map fst b)) - number_of Win (games_of (diverged_pairs b)) =
      number_of Loss (games_of (map fst b)) - number_of Loss (games_of (diverged_pairs b)) \<and>
    (\<forall>r. number_of r (games_of (diverged_pairs b)) \<le> number_of r (games_of (map fst b))) \<and>
    even (number_of Draw (games_of (map fst b)) - number_of Draw (games_of (diverged_pairs b))) \<and>
    in_bucket 0 (map fst b) + in_bucket 1 (map fst b) + in_bucket 3 (map fst b) + in_bucket 4 (map fst b)
       \<le> int (length (diverged_pairs b))"
proof (induction b)
  case (Cons x b)
  obtain a c d where x: "x = ((a, c), d)" by (cases x) auto
  have b: "honest b" and pd: "\<not> d \<Longrightarrow> played_identically (a, c)"
    using Cons.prems by (auto simp: honest_def x)
  show ?case
  proof (cases d)
    case True
    with Cons.IH [OF b] show ?thesis by (auto simp: x diverged_pairs_def)
  next
    case False
    with Cons.IH [OF b] pd show ?thesis
      by (auto simp: x diverged_pairs_def played_identically_def bucket_def add_increasing)
  qed
qed (simp add: diverged_pairs_def)

text \<open>An aggregate whose counts are those of some pairs.\<close>

definition aggregates :: "game_aggregate \<Rightarrow> pair list \<Rightarrow> bool" where
  "aggregates a ps \<longleftrightarrow> games a = 2 * int (length ps) \<and>
     wins a = number_of Win (games_of ps) \<and> losses a = number_of Loss (games_of ps) \<and>
     ties a = number_of Draw (games_of ps)"

lemma aggregates_consistent: "aggregates a ps \<Longrightarrow> is_consistent a"
  using number_of_total [of "games_of ps"] number_of_nonneg [of _ "games_of ps"]
  by (simp add: aggregates_def is_consistent_def length_games_of)

lemma honest_divergent_accepted:
  assumes "honest b" "aggregates all (map fst b)" "aggregates divergent (diverged_pairs b)"
  shows "check_divergent_against_the_whole all (pentanomial_of (map fst b)) divergent = ok"
    "games divergent mod 2 = 0" "games divergent \<le> games all"
proof -
  have "length (diverged_pairs b) \<le> length b" by (simp add: diverged_pairs_def)
  then show "games divergent mod 2 = 0" "games divergent \<le> games all"
    using assms(2,3) by (simp_all add: aggregates_def)
  show "check_divergent_against_the_whole all (pentanomial_of (map fst b)) divergent = ok"
    using honest_counts [OF assms(1)] assms(2,3)
    by (auto simp: check_divergent_against_the_whole_def Let_def pentanomial_of_buckets aggregates_def
        even_iff_mod_2_eq_zero not_less)
qed

section \<open>Seeds\<close>

text \<open>The seeds after \<open>n\<close> claims that each had to have a task made.\<close>

fun seeds_after :: "nat \<Rightarrow> int \<Rightarrow> int \<Rightarrow> int list" where
  "seeds_after 0 batch cap = []"
| "seeds_after (Suc n) batch cap =
     (let seeds = seeds_after n batch cap; seed = next_seed seeds batch
      in if past_the_cap seed cap then seeds else seeds @ [seed])"

definition batches :: "int \<Rightarrow> int \<Rightarrow> nat" where
  "batches batch cap = nat ((cap + batch - 1) div batch)"

lemma max_of_seeds:
  assumes "0 < batch"
  shows "max_of (map (\<lambda>k. 1 + int k * batch) [0..<Suc m]) = Some (1 + int m * batch)"
  using assms by (auto simp: max_of_Some mult_right_mono image_iff less_Suc_eq_le intro!: bexI [of _ m])

lemma next_seed_tiles:
  assumes "0 < batch"
  shows "next_seed (map (\<lambda>k. 1 + int k * batch) [0..<m]) batch = 1 + int m * batch"
proof (cases m)
  case 0
  then show ?thesis by (simp add: next_seed_def max_of_def)
next
  case (Suc m')
  then show ?thesis
    using max_of_seeds [OF assms, of m'] by (simp add: next_seed_def algebra_simps del: upt_Suc)
qed

lemma le_div_pos: "0 < b \<Longrightarrow> a \<le> c div b \<longleftrightarrow> a * b \<le> c" for a b c :: int
proof
  assume "0 < b" "a \<le> c div b"
  then have "a * b \<le> c div b * b" by (intro mult_right_mono) simp_all
  also have "\<dots> \<le> c" using pos_mod_sign [OF \<open>0 < b\<close>, of c] minus_mod_eq_div_mult [of c b] by linarith
  finally show "a * b \<le> c" .
next
  assume "0 < b" "a * b \<le> c"
  then have "a * b div b \<le> c div b" by (intro zdiv_mono1)
  then show "a \<le> c div b" using \<open>0 < b\<close> by simp
qed

lemma below_batches:
  assumes "0 < batch" "0 \<le> cap"
  shows "m < batches batch cap \<longleftrightarrow> int m * batch < cap"
proof -
  have "m < batches batch cap \<longleftrightarrow> int m + 1 \<le> (cap + batch - 1) div batch"
    by (auto simp: batches_def zless_nat_eq_int_zless)
  also have "\<dots> \<longleftrightarrow> (int m + 1) * batch \<le> cap + batch - 1"
    using assms(1) by (rule le_div_pos)
  also have "\<dots> \<longleftrightarrow> int m * batch < cap"
    by (simp add: algebra_simps) linarith
  finally show ?thesis .
qed

lemma seeds_after_tiles:
  assumes "0 < batch" "0 \<le> cap"
  shows "seeds_after n batch cap = map (\<lambda>k. 1 + int k * batch) [0..<min n (batches batch cap)]"
proof (induction n)
  case (Suc n)
  let ?m = "min n (batches batch cap)"
  have seed: "next_seed (seeds_after n batch cap) batch = 1 + int ?m * batch"
    unfolding Suc by (rule next_seed_tiles [OF assms(1)])
  show ?case
  proof (cases "n < batches batch cap")
    case True
    then have "int n * batch < cap" by (simp add: below_batches [OF assms])
    with True Suc seed show ?thesis by (simp add: Let_def past_the_cap_def)
  next
    case False
    then have "min n (batches batch cap) = batches batch cap" "min (Suc n) (batches batch cap) = batches batch cap"
      by simp_all
    moreover have "\<not> int (batches batch cap) * batch < cap"
      using below_batches [OF assms, of "batches batch cap"] by simp
    ultimately show ?thesis using Suc seed by (simp add: Let_def past_the_cap_def)
  qed
qed simp

section \<open>First divergences\<close>

definition named :: "position_analysis \<Rightarrow> bool" where
  "named p \<longleftrightarrow> (\<exists>g. pa_game_index p = Some g \<and> 0 \<le> g) \<and> pa_turn_number p \<noteq> None"

definition game_of :: "position_analysis \<Rightarrow> int" where
  "game_of p = the (pa_game_index p)"

definition partner :: "int \<Rightarrow> int" where
  "partner g = (if even g then g + 1 else g - 1)"

text \<open>The same turn, on the same board, with the same tiles.\<close>

definition same_view :: "position_analysis \<Rightarrow> position_analysis \<Rightarrow> bool" where
  "same_view p q \<longleftrightarrow> pa_turn_number p = pa_turn_number q \<and>
     board_of (pa_position p) = board_of (pa_position q) \<and> pa_rack p = pa_rack q"

definition matches :: "position_analysis \<Rightarrow> position_analysis \<Rightarrow> bool" where
  "matches p q \<longleftrightarrow> game_of p \<noteq> game_of q \<and> same_view p q"

abbreviation pair_key :: "position_analysis \<Rightarrow> int" where
  "pair_key p \<equiv> game_of p div 2"

lemma namedD:
  assumes "named p"
  shows "pa_game_index p = Some (game_of p)" "0 \<le> game_of p" "pair_of (game_of p) = pair_key p"
    "\<exists>t. pa_turn_number p = Some t"
  using assms by (auto simp: named_def game_of_def pair_of_def)

lemma first_divergences_Cons:
  assumes "named p"
  shows "first_divergences_from F c (p # ps) =
    (case map_of F (pair_key p) of
       None \<Rightarrow> first_divergences_from ((pair_key p, p) # F) c ps
     | Some other \<Rightarrow>
         and_then (first_error
           [refuse_if (pa_game_index other = pa_game_index p) ''a game has two first-divergence positions'',
            refuse_if (pa_turn_number other \<noteq> pa_turn_number p) ''first-divergence positions at different turns'',
            refuse_if (board_of (pa_position other) \<noteq> board_of (pa_position p) \<or> pa_rack other \<noteq> pa_rack p)
              ''first-divergence positions are different positions''])
         (\<lambda>_. first_divergences_from F (c + 1) ps))"
  using namedD [OF assms] by (cases "map_of F (pair_key p)") auto

declare first_divergences_from.simps(2) [simp del]

text \<open>Entries are named positions under their own pair.\<close>

definition entries_ok :: "(int \<times> position_analysis) list \<Rightarrow> bool" where
  "entries_ok F \<longleftrightarrow> distinct (map fst F) \<and> (\<forall>(k, q)\<in>set F. named q \<and> k = pair_key q)"

lemma entries_ok_map_of:
  "entries_ok F \<Longrightarrow> map_of F k = Some q \<longleftrightarrow> (k, q) \<in> set F"
  by (auto simp: entries_ok_def dest: map_of_SomeD)

lemma step_matches:
  assumes "entries_ok F" "named p" "map_of F (pair_key p) = Some q"
  shows "first_divergences_from F c (p # ps) = Inr r \<longleftrightarrow>
    matches q p \<and> first_divergences_from F (c + 1) ps = Inr r"
proof -
  have "named q" using assms(1,3) by (auto simp: entries_ok_def dest!: map_of_SomeD)
  then have "pa_game_index q = pa_game_index p \<longleftrightarrow> game_of q = game_of p"
    using assms(2) by (simp add: namedD)
  then show ?thesis
    by (auto simp: first_divergences_Cons [OF assms(2)] assms(3) and_then_check_Inr matches_def same_view_def)
qed

lemma step_first:
  assumes "named p" "map_of F (pair_key p) = None"
  shows "first_divergences_from F c (p # ps) = first_divergences_from ((pair_key p, p) # F) c ps"
  by (simp add: first_divergences_Cons [OF assms(1)] assms(2))

lemma entries_ok_Cons:
  "entries_ok F \<Longrightarrow> named p \<Longrightarrow> map_of F (pair_key p) = None \<Longrightarrow> entries_ok ((pair_key p, p) # F)"
  by (auto simp: entries_ok_def map_of_eq_None_iff)

lemma first_divergences_result:
  assumes "first_divergences_from F c ps = Inr (F', c')" "entries_ok F" "list_all named ps"
  shows "entries_ok F' \<and> int (length F') + c' = int (length F) + c + int (length ps) \<and>
    set F \<subseteq> set F' \<and> snd ` set F' \<subseteq> snd ` set F \<union> set ps \<and>
    (\<forall>p\<in>set ps. \<exists>q. (pair_key p, q) \<in> set F' \<and> (p = q \<or> matches q p))"
  using assms
proof (induction ps arbitrary: F c)
  case (Cons p ps)
  then have p: "named p" "list_all named ps" by simp_all
  show ?case
  proof (cases "map_of F (pair_key p)")
    case None
    then have "first_divergences_from ((pair_key p, p) # F) c ps = Inr (F', c')"
      using Cons.prems(1) by (simp add: step_first [OF p(1)])
    from Cons.IH [OF this entries_ok_Cons [OF Cons.prems(2) p(1) None] p(2)]
    show ?thesis by auto
  next
    case (Some q)
    then have *: "matches q p" "first_divergences_from F (c + 1) ps = Inr (F', c')"
      using Cons.prems(1) step_matches [OF Cons.prems(2) p(1) Some] by simp_all
    with Cons.IH [OF *(2) Cons.prems(2) p(2)] map_of_SomeD [OF Some] show ?thesis by auto
  qed
qed simp

lemma first_divergences_succeeds:
  assumes "entries_ok F" "list_all named ps"
    and "sorted_wrt (\<lambda>p q. pair_key p = pair_key q \<longrightarrow> matches p q) ps"
    and "\<forall>(k, q)\<in>set F. \<forall>p\<in>set ps. k = pair_key p \<longrightarrow> matches q p"
  shows "\<exists>r. first_divergences_from F c ps = Inr r"
  using assms
proof (induction ps arbitrary: F c)
  case (Cons p ps)
  then have p: "named p" "list_all named ps" by simp_all
  show ?case
  proof (cases "map_of F (pair_key p)")
    case None
    have "\<exists>r. first_divergences_from ((pair_key p, p) # F) c ps = Inr r"
      using Cons.prems entries_ok_Cons [OF Cons.prems(1) p(1) None] p(2)
      by (intro Cons.IH) auto
    then show ?thesis by (simp add: step_first [OF p(1) None])
  next
    case (Some q)
    then have "matches q p" using Cons.prems(4) by (auto dest: map_of_SomeD)
    moreover have "\<exists>r. first_divergences_from F (c + 1) ps = Inr r"
      using Cons.prems p(2) by (intro Cons.IH) auto
    ultimately show ?thesis by (simp add: step_matches [OF Cons.prems(1) p(1) Some])
  qed
qed simp

text \<open>What a first-divergence result keeps: both games' view of one turn, or neither's.\<close>

definition kept_in_pairs :: "position_analysis list \<Rightarrow> bool" where
  "kept_in_pairs ps \<longleftrightarrow> distinct (map game_of ps) \<and>
     (\<forall>p\<in>set ps. \<exists>q\<in>set ps. game_of q = partner (game_of p) \<and> same_view p q)"

lemma same_pair: "0 \<le> g \<Longrightarrow> 0 \<le> h \<Longrightarrow> g div 2 = h div 2 \<longleftrightarrow> h = g \<or> h = partner g" for g h :: int
  unfolding partner_def by (auto elim!: evenE oddE)

lemma matches_partner:
  assumes "matches p q" "pair_key p = pair_key q" "named p" "named q"
  shows "game_of q = partner (game_of p)" "game_of p = partner (game_of q)"
  using assms same_pair [of "game_of p" "game_of q"] same_pair [of "game_of q" "game_of p"]
    namedD(2) [OF assms(3)] namedD(2) [OF assms(4)]
  by (simp_all add: matches_def)

lemma partner_neq: "partner g \<noteq> g"
  by (simp add: partner_def)

lemma same_view_sym: "same_view p q \<longleftrightarrow> same_view q p"
  by (auto simp: same_view_def)

lemma kept_complete:
  assumes named: "list_all named ps"
    and keys: "distinct (map (\<lambda>p. (game_of p, pa_turn_number p)) ps)"
    and run: "first_divergences_from [] 0 ps = Inr (F, c)" "int (length F) = c"
  shows "kept_in_pairs ps \<and> int (length ps) = 2 * c"
proof -
  let ?S = "set ps" let ?K = "set (map fst F)" let ?Q = "snd ` set F"
  have n: "named p" if "p \<in> ?S" for p using named that by (simp add: list_all_iff)
  from first_divergences_result [OF run(1)] named
  have F: "entries_ok F" "int (length F) + c = int (length ps)" "?Q \<subseteq> ?S"
    "\<forall>p\<in>?S. \<exists>q. (pair_key p, q) \<in> set F \<and> (p = q \<or> matches q p)"
    by (auto simp: entries_ok_def)
  have len: "length ps = 2 * length F" using F(2) run(2) by simp
  have key: "k = pair_key q" "named q" if "(k, q) \<in> set F" for k q
    using F(1) that by (auto simp: entries_ok_def)
  have uniq: "q = q'" if "q \<in> ?Q" "q' \<in> ?Q" "pair_key q = pair_key q'" for q q'
  proof -
    from that obtain k k' where k: "(k, q) \<in> set F" "(k', q') \<in> set F" by auto
    then have "k = k'" using key(1) that(3) by metis
    with k F(1) show ?thesis by (metis entries_ok_def eq_key_imp_eq_value)
  qed
  have other: "\<exists>q\<in>?Q. pair_key p = pair_key q \<and> matches q p" if "p \<in> ?S - ?Q" for p
  proof -
    from that F(4) obtain q where "(pair_key p, q) \<in> set F" "p = q \<or> matches q p" by blast
    moreover from this that have "q \<in> ?Q" "p \<noteq> q" by force+
    ultimately show ?thesis using key(1) by blast
  qed
  have nQ: "named q" if "q \<in> ?Q" for q using that F(3) n by blast
  have same: "p = p'" if pp: "p \<in> ?S - ?Q" "p' \<in> ?S - ?Q" "pair_key p = pair_key p'" for p p'
  proof -
    obtain q q' where q: "q \<in> ?Q" "pair_key p = pair_key q" "matches q p"
      "q' \<in> ?Q" "pair_key p' = pair_key q'" "matches q' p'"
      using other [OF pp(1)] other [OF pp(2)] by blast
    then have "q = q'" using uniq pp(3) by simp
    moreover have "game_of p = partner (game_of q)" "game_of p' = partner (game_of q')"
      using matches_partner(1) [OF q(3) q(2) [symmetric] nQ [OF q(1)]]
        matches_partner(1) [OF q(6) q(5) [symmetric] nQ [OF q(4)]] pp n by simp_all
    ultimately have "game_of p = game_of p'" by simp
    moreover have "pa_turn_number p = pa_turn_number p'"
      using q \<open>q = q'\<close> by (auto simp add: matches_def same_view_def)
    ultimately show "p = p'"
      using keys pp(1,2) by (auto simp: distinct_map dest: inj_onD)
  qed
  have "distinct ps" using keys by (simp add: distinct_map)
  then have cS: "card ?S = 2 * length F" using len by (simp add: distinct_card)
  have dF: "distinct (map fst F)" using F(1) by (simp add: entries_ok_def)
  have cK: "card ?K = length F" using distinct_card [OF dF] by simp
  have "inj_on snd (set F)"
    using key(1) by (auto simp: inj_on_def) metis
  then have "card ?Q = length F"
    using distinct_card [of F] dF by (simp add: card_image distinct_map)
  then have "card (?S - ?Q) = card ?K"
    using cS cK F(3) by (simp add: card_Diff_subset)
  moreover have "pair_key ` (?S - ?Q) \<subseteq> ?K"
    using F(4) by force
  moreover have "inj_on pair_key (?S - ?Q)"
    using same by (auto simp: inj_on_def)
  ultimately have onto: "pair_key ` (?S - ?Q) = ?K"
    by (metis card_image card_subset_eq finite_set)
  have "\<exists>q\<in>?S. game_of q = partner (game_of p) \<and> same_view p q" if p: "p \<in> ?S" for p
  proof (cases "p \<in> ?Q")
    case True
    then have "pair_key p \<in> ?K" using key by force
    then obtain r where r: "r \<in> ?S - ?Q" "pair_key r = pair_key p" using onto by force
    with other [OF r(1)] uniq [OF True] have m: "matches p r" by metis
    then have "game_of r = partner (game_of p)"
      using r n [OF p] n [of r] by (intro matches_partner) auto
    with m r show ?thesis by (auto simp: matches_def)
  next
    case False
    with other p obtain q where q: "q \<in> ?Q" "pair_key p = pair_key q" "matches q p" by blast
    then have "game_of q = partner (game_of p)"
      using n [OF p] nQ by (intro matches_partner(2)) auto
    with q F(3) show ?thesis using same_view_sym by (auto simp: matches_def)
  qed
  moreover have "distinct (map game_of ps)"
  proof (unfold distinct_map, intro conjI \<open>distinct ps\<close> inj_onI)
    have mixed: "game_of r \<noteq> game_of r'" if r: "r \<in> ?Q" "r' \<in> ?S - ?Q" for r r'
    proof
      assume "game_of r = game_of r'"
      moreover obtain q where "q \<in> ?Q" "pair_key r' = pair_key q" "matches q r'"
        using other [OF r(2)] by blast
      ultimately show False using uniq [of q r] r(1) by (simp add: matches_def)
    qed
    fix p p' assume pp: "p \<in> ?S" "p' \<in> ?S" "game_of p = game_of p'"
    then have "pair_key p = pair_key p'" by simp
    with pp uniq [of p p'] same [of p p'] mixed [of p p'] mixed [of p' p]
    show "p = p'" by (cases "p \<in> ?Q"; cases "p' \<in> ?Q") simp_all
  qed
  ultimately show ?thesis using len run(2) by (simp add: kept_in_pairs_def)
qed

lemma kept_matches:
  assumes "list_all named ps" "kept_in_pairs ps" "p \<in> set ps" "q \<in> set ps" "p \<noteq> q"
    and "pair_key p = pair_key q"
  shows "matches p q"
proof -
  have dg: "distinct (map game_of ps)" using assms(2) by (simp add: kept_in_pairs_def)
  have n: "named p" "named q" using assms(1,3,4) by (simp_all add: list_all_iff)
  have "game_of p \<noteq> game_of q"
    using distinct_map_inj_eq [OF dg assms(3,4)] assms(5) by blast
  then have g: "game_of q = partner (game_of p)"
    using same_pair [OF namedD(2) [OF n(1)] namedD(2) [OF n(2)]] assms(6) by simp
  obtain r where r: "r \<in> set ps" "game_of r = partner (game_of p)" "same_view p r"
    using assms(2,3) by (auto simp: kept_in_pairs_def)
  then have "r = q" using distinct_map_inj_eq [OF dg r(1) assms(4)] g by simp
  with r g partner_neq show ?thesis by (simp add: matches_def partner_neq [symmetric])
qed

lemma kept_runs:
  assumes named: "list_all named ps" and kept: "kept_in_pairs ps"
  shows "\<exists>F c. first_divergences_from [] 0 ps = Inr (F, c) \<and> int (length F) = c"
proof -
  let ?S = "set ps"
  have n: "named p" if "p \<in> ?S" for p using named that by (simp add: list_all_iff)
  have dg: "distinct (map game_of ps)" using kept by (simp add: kept_in_pairs_def)
  then have dp: "distinct ps" by (simp add: distinct_map)
  have "sorted_wrt (\<lambda>p q. pair_key p = pair_key q \<longrightarrow> matches p q) ps"
    using kept_matches [OF named kept] dp
    by (auto simp: sorted_wrt_iff_nth_less nth_eq_iff_index_eq)
  then obtain F c where run: "first_divergences_from [] 0 ps = Inr (F, c)"
    using first_divergences_succeeds [of "[]" ps 0] named by (auto simp: entries_ok_def)
  from first_divergences_result [OF run] named
  have F: "entries_ok F" "int (length F) + c = int (length ps)" "snd ` set F \<subseteq> ?S"
    "\<forall>p\<in>?S. \<exists>q. (pair_key p, q) \<in> set F \<and> (p = q \<or> matches q p)"
    by (auto simp: entries_ok_def)
  let ?K = "set (map fst F)" let ?fib = "\<lambda>k. {p \<in> ?S. pair_key p = k}"
  have "?S = (\<Union>k\<in>?K. ?fib k)"
    using F(4) by force
  moreover have "card (\<Union>k\<in>?K. ?fib k) = (\<Sum>k\<in>?K. card (?fib k))"
    by (rule card_UN_disjoint) auto
  moreover have "card (?fib k) = 2" if "k \<in> ?K" for k
  proof -
    from that F(1,3) obtain p where p: "p \<in> ?S" "pair_key p = k"
      by (force simp: entries_ok_def)
    obtain q where q: "q \<in> ?S" "game_of q = partner (game_of p)"
      using kept p(1) by (auto simp: kept_in_pairs_def)
    have k: "pair_key q = k"
      using same_pair [OF namedD(2) [OF n [OF p(1)]] namedD(2) [OF n [OF q(1)]]] p(2) q(2) by simp
    have "r = p \<or> r = q" if "r \<in> ?fib k" for r
      using same_pair [OF namedD(2) [OF n [OF p(1)]], of "game_of r"] namedD(2) [OF n, of r] that p q
        distinct_map_inj_eq [OF dg _ p(1), of r] distinct_map_inj_eq [OF dg _ q(1), of r] by auto
    with p q k have "?fib k = {p, q}" by blast
    moreover have "p \<noteq> q" using q(2) partner_neq by metis
    ultimately show ?thesis by simp
  qed
  ultimately have "card ?S = 2 * card ?K" by simp
  moreover have "card ?K = length F"
    using F(1) distinct_card [of "map fst F"] by (simp add: entries_ok_def)
  ultimately have "length ps = 2 * length F"
    using dp by (simp add: distinct_card)
  with F(2) run show ?thesis by auto
qed

lemma check_first_divergences_iff:
  assumes "list_all named ps" "distinct (map (\<lambda>p. (game_of p, pa_turn_number p)) ps)"
  shows "check_first_divergences ps (Some d) = ok \<longleftrightarrow>
    kept_in_pairs ps \<and> int (length ps) = games d"
proof
  assume "check_first_divergences ps (Some d) = ok"
  then obtain F c where "first_divergences_from [] 0 ps = Inr (F, c)" "int (length F) = c" "c * 2 = games d"
    by (auto simp: check_first_divergences_def ok_or_def and_then_check_ok)
  with kept_complete [OF assms] show "kept_in_pairs ps \<and> int (length ps) = games d" by simp
next
  assume kept: "kept_in_pairs ps \<and> int (length ps) = games d"
  then obtain F c where run: "first_divergences_from [] 0 ps = Inr (F, c)" "int (length F) = c"
    using kept_runs [OF assms(1)] by blast
  from kept_complete [OF assms this] run kept
  show "check_first_divergences ps (Some d) = ok"
    by (simp add: check_first_divergences_def ok_or_def)
qed

section \<open>Properties\<close>

text \<open>
  C4: the pentanomial and the game counts of a pairs result are accepted together exactly when some
  pairs of games have both: the checks of the pair count, of player 1's half-points and of the draws
  refuse every pair of tallies no games produce, and none that games do, with the \<open>u64\<close> sums never
  wrapping.
\<close>

theorem pair_counts_accepted_iff_played:
  assumes "length pent = 5" "games all \<le> i32_max"
  shows "validate_aggregate all = ok \<and> check_pentanomial all pent = ok \<longleftrightarrow>
    (\<exists>ps. pentanomial_of ps = pent \<and> games all = 2 * int (length ps) \<and>
      tally_of (games_of ps) = \<lparr>ta_wins = wins all, ta_losses = losses all, ta_draws = ties all\<rparr>)"
  using check_pentanomial_iff [OF assms] by (simp add: counts_pairs_def)

definition counts :: "int \<Rightarrow> int \<Rightarrow> int \<Rightarrow> game_aggregate" where
  "counts w l t = \<lparr>games = w + l + t, wins = w, losses = l, ties = t, p1_score_mean = Fin 400,
     p1_score_sd = Fin 50, p2_score_mean = Fin 410, p2_score_sd = Fin 55\<rparr>"

theorem pair_counts_accepted_iff_played_witness:
  "check_pentanomial (counts 2 2 0) [0, 1, 0, 1, 0] \<noteq> ok \<and>
   (\<nexists>ps. pentanomial_of ps = [0, 1, 0, 1, 0] \<and> games (counts 2 2 0) = 2 * int (length ps) \<and>
     tally_of (games_of ps) = \<lparr>ta_wins = 2, ta_losses = 2, ta_draws = 0\<rparr>)"
proof -
  have "check_pentanomial (counts 2 2 0) [0, 1, 0, 1, 0] \<noteq> ok"
    by (simp add: check_pentanomial_def counts_def Let_def)
  moreover have "games (counts 2 2 0) \<le> i32_max" "length [0, 1, 0, 1, 0 :: int] = 5"
    by (simp_all add: counts_def i32_max_def)
  ultimately show ?thesis
    using pair_counts_accepted_iff_played [of "[0, 1, 0, 1, 0]" "counts 2 2 0"]
    by (simp add: counts_def)
qed

text \<open>
  A pairs result that reports what a batch really was is never refused for its counts: with the
  divergent games those of the pairs that did not play identically, every cross-check of the
  pentanomial, the game counts and the divergent subset passes, and the record keeps all three.
\<close>

theorem honest_pairs_result_accepted:
  assumes "honest b" "b \<noteq> []" "int (length b) \<le> 1000000000"
    and "aggregates (rs_all_games resp) (map fst b)" "aggregate_plausible (rs_all_games resp)"
    and "rs_pentanomial resp = Some (pentanomial_of (map fst b))"
    and "rs_divergent_games resp = Some divergent"
    and "aggregates divergent (diverged_pairs b)" "aggregate_plausible divergent"
    and "validate_positions (rs_positions resp) (games (rs_all_games resp)) = Inr rows"
  shows "process_game_pairs resp = Inr \<lparr>rr_all_games = rs_all_games resp,
    rr_pentanomial = Some (pentanomial_of (map fst b)), rr_divergent_games = Some divergent,
    rr_positions = rows\<rparr>"
proof -
  let ?all = "rs_all_games resp"
  have g: "games ?all = 2 * int (length b)" using assms(4) by (simp add: aggregates_def)
  have "counts_pairs ?all (pentanomial_of (map fst b)) (map fst b)"
    using assms(4) by (simp add: counts_pairs_def aggregates_def tally_of_def)
  then have pent: "check_pentanomial ?all (pentanomial_of (map fst b)) = ok"
    using check_pentanomial_iff [of "pentanomial_of (map fst b)" ?all] assms(3) g
    by (auto simp: pentanomial_of_def i32_max_def)
  have "check_divergent ?all (pentanomial_of (map fst b)) divergent = ok"
    using honest_divergent_accepted [OF assms(1,4,8)] aggregates_consistent [OF assms(8)] assms(9)
    by (simp add: check_divergent_def spec_iff)
  with pent show ?thesis
    using assms g aggregates_consistent [OF assms(4)]
    by (auto simp: process_game_pairs_def Let_def and_then_check_Inr ok_or_def spec_iff)
qed

definition sample_batch :: batch where
  "sample_batch = [((Win, Win), True), ((Loss, Win), False), ((Draw, Draw), False)]"

definition sample_response :: game_results_response where
  "sample_response = \<lparr>rs_all_games = counts 3 1 2, rs_pentanomial = Some [0, 0, 2, 0, 1],
     rs_divergent_games = Some (counts 2 0 0), rs_positions = []\<rparr>"

lemma counts_plausible: "aggregate_plausible (counts w l t)"
  by (simp add: counts_def aggregate_plausible_def MIN_SCORE_MEAN_def MAX_SCORE_MEAN_def)

theorem honest_pairs_result_accepted_witness:
  "process_game_pairs sample_response = Inr \<lparr>rr_all_games = counts 3 1 2,
     rr_pentanomial = Some [0, 0, 2, 0, 1], rr_divergent_games = Some (counts 2 0 0),
     rr_positions = []\<rparr>"
proof -
  have "pentanomial_of (map fst sample_batch) = [0, 0, 2, 0, 1]"
    by (simp add: sample_batch_def pentanomial_of_def bucket_def)
  moreover have "honest sample_batch" "sample_batch \<noteq> []" "int (length sample_batch) \<le> 1000000000"
    "aggregates (counts 3 1 2) (map fst sample_batch)" "aggregates (counts 2 0 0) (diverged_pairs sample_batch)"
    by (simp_all add: sample_batch_def honest_def played_identically_def aggregates_def counts_def
        diverged_pairs_def)
  ultimately show ?thesis
    using honest_pairs_result_accepted [of sample_batch sample_response "counts 2 0 0" "[]"] counts_plausible
    by (simp add: sample_response_def validate_positions_def)
qed

text \<open>
  \<open>validate_positions\<close> accepts the captured positions of a batch exactly when each describes a turn
  of one of the batch's games that could have been reached and analysed as it says, no two the same
  turn of the same game, and stores each as it came.
\<close>

theorem validate_positions_accepts:
  assumes "list_all position_fits ps"
  shows "validate_positions ps n = Inr rows \<longleftrightarrow>
     list_all (position_ok n) ps \<and> distinct (map (\<lambda>p. (cp_game_index p, cp_turn_number p)) ps) \<and>
     rows = map (\<lambda>p. row_of p (analysis_of p)) ps"
  using validate_positions_iff [OF assms] .

definition sample_move :: move_entry where
  "sample_move = \<lparr>me_play = lit ''8D.VIEW'', me_score = 26, me_equity = Fin 30, me_iterations = None,
     me_win_percentage = None, me_blended_utility = None, me_mean_spread = None,
     me_fidelity_plies = None, me_plies = []\<rparr>"

definition sample_position :: "int \<Rightarrow> int \<Rightarrow> captured_position" where
  "sample_position game turn = \<lparr>cp_game_index = game, cp_turn_number = turn, cp_player = 1,
     cp_rack = lit ''EIVW'', cp_position = lit ''15/15 EIVW/ 0/0 0'', cp_previous_move = None,
     cp_previous_move_score = None, cp_played_move = lit ''8D.VIEW'', cp_played_move_score = 26,
     cp_num_moves = 1, cp_analysis = lit ''static'', cp_moves = [sample_move], cp_inference = None\<rparr>"

lemma sample_position_ok: "position_ok 2 (sample_position 0 3)"
proof -
  have "spells (lit ''EIVW'') [lit ''E'', lit ''I'', lit ''V'', lit ''W'']"
    by (simp add: spells_def lit_def tile.single)
  then have "rack_ok (lit ''EIVW'')"
    unfolding rack_ok_def by (intro exI [of _ "[lit ''E'', lit ''I'', lit ''V'', lit ''W'']"])
      (simp add: RACK_SIZE_def)
  moreover have "analysis_of (sample_position 0 3) = Static"
    by (simp add: analysis_of_def sample_position_def analysis_parse_def)
  ultimately show ?thesis
    by (simp add: position_ok_def sample_position_def sample_move_def move_ok_def play_text_ok_def
        play_score_ok_def plies_ok_def MAX_PLAY_CHARS_def MAX_MOVE_SCORE_def MAX_POSITION_CHARS_def
        MAX_ABS_EQUITY_def no_simulation_def lit_def trim_def trim_matches_def is_whitespace_def)
qed

theorem validate_positions_accepts_witness:
  "validate_positions [sample_position 0 3] 2 =
     Inr [row_of (sample_position 0 3) (analysis_of (sample_position 0 3))] \<and>
   (\<nexists>rows. validate_positions [sample_position 0 3, sample_position 0 3] 2 = Inr rows)"
proof -
  have "position_fits (sample_position 0 3)"
    by (simp add: position_fits_def sample_position_def)
  then show ?thesis
    using validate_positions_accepts [of "[sample_position 0 3]" 2]
      validate_positions_accepts [of "[sample_position 0 3, sample_position 0 3]" 2] sample_position_ok
    by simp
qed

text \<open>
  On positions \<open>validate_positions\<close> let through, the first-divergence check accepts exactly when
  every position has its other one (the other game of its pair, at the same turn, on the same board
  with the same rack), no game keeps two, and there are as many as divergent games.
\<close>

theorem first_divergences_come_in_pairs:
  assumes "list_all position_fits ps" "validate_positions ps n = Inr rows"
  shows "check_first_divergences rows (Some divergent) = ok \<longleftrightarrow>
    distinct (map game_of rows) \<and>
    list_all (\<lambda>p. list_ex (\<lambda>q. game_of q = partner (game_of p) \<and> same_view p q) rows) rows \<and>
    int (length rows) = games divergent"
proof -
  have ps: "list_all (position_ok n) ps" "distinct (map turn_key ps)"
    "rows = map (\<lambda>p. row_of p (analysis_of p)) ps"
    using validate_positions_iff [OF assms(1)] assms(2) by blast+
  then have "list_all named rows"
    by (auto simp: list_all_iff named_def row_of_def position_ok_def)
  moreover have "map (\<lambda>p. (game_of p, pa_turn_number p)) rows = map (\<lambda>(g, t). (g, Some t)) (map turn_key ps)"
    by (simp add: ps(3) game_of_def row_of_def)
  then have "distinct (map (\<lambda>p. (game_of p, pa_turn_number p)) rows)"
    using ps(2) by (simp only:) (subst distinct_map, auto simp: inj_on_def)
  ultimately show ?thesis
    using check_first_divergences_iff [of rows divergent]
    by (auto simp: kept_in_pairs_def list_all_iff list_ex_iff)
qed

theorem first_divergences_come_in_pairs_witness:
  "check_first_divergences
     (map (\<lambda>g. row_of (sample_position g 3) Static) [0, 1]) (Some (counts 1 1 0)) = ok"
proof -
  have an: "analysis_of (sample_position g 3) = Static" for g
    by (simp add: analysis_of_def sample_position_def analysis_parse_def)
  have "position_ok 2 (sample_position 1 3)"
    using sample_position_ok by (simp add: position_ok_def an) (simp add: sample_position_def)
  then have "validate_positions (map (\<lambda>g. sample_position g 3) [0, 1]) 2 =
      Inr (map (\<lambda>g. row_of (sample_position g 3) Static) [0, 1])"
    using validate_positions_iff [of "map (\<lambda>g. sample_position g 3) [0, 1]" 2] sample_position_ok
    by (simp add: an position_fits_def) (simp add: sample_position_def)
  from first_divergences_come_in_pairs [OF _ this, of "counts 1 1 0"] show ?thesis
    by (simp add: position_fits_def sample_position_def row_of_def game_of_def partner_def same_view_def
        counts_def)
qed

text \<open>
  The tasks a games or pairs job makes on demand tile it: their seeds are 1 and every batch size
  after it, each new one until the cap is reached and none after, so the units handed out are the
  least number of whole batches that reaches the cap.
\<close>

theorem seeds_tile_the_job:
  assumes "0 < batch" "0 \<le> cap"
  shows "seeds_after n batch cap = map (\<lambda>k. 1 + int k * batch) [0..<min n (batches batch cap)] \<and>
    cap \<le> int (batches batch cap) * batch \<and> int (batches batch cap) * batch < cap + batch"
proof (intro conjI)
  show "seeds_after n batch cap = map (\<lambda>k. 1 + int k * batch) [0..<min n (batches batch cap)]"
    by (rule seeds_after_tiles [OF assms])
  show "cap \<le> int (batches batch cap) * batch"
    using below_batches [OF assms, of "batches batch cap"] by simp
  show "int (batches batch cap) * batch < cap + batch"
  proof (cases "batches batch cap")
    case (Suc m)
    then have "int m * batch < cap" using below_batches [OF assms, of m] by simp
    with Suc show ?thesis by (simp add: algebra_simps)
  qed (use assms in simp)
qed

theorem seeds_tile_the_job_witness:
  "seeds_after 9 100 250 = [1, 101, 201]"
  using seeds_tile_the_job [of 100 250 9] by (simp add: batches_def upt_rec)

end
