(* ===== verification/Store.thy ===== *)
theory Store
  imports Job_Model
begin

text \<open>
  The tables the scheduler and the worker routes read and write, as lists of rows, and the SQL
  statements over them that several components share.  A transaction is a function from the tables
  to the tables; rolling it back keeps the tables it started from.  The database's constraints are
  part of the invariants proved elsewhere, not assumptions.
\<close>

section \<open>Rows\<close>

datatype task_state = T_available | T_claimed | T_completed
datatype claim_state = C_claimed | C_completed | C_abandoned | C_declined
datatype claim_overrun = Overrun_pending | Overrun_counted

text \<open>\<open>auth::WorkerIdentity\<close>, and the owner a claim is written with: exactly one of the two columns.\<close>

datatype worker_identity =
    User (identity_user: nat) nat
  | Anonymous nat
  | Unregistered nat ustr

datatype owner = By_user nat | By_anon nat

fun owner_of :: "worker_identity \<Rightarrow> owner" where
  "owner_of (User user_id key_id) = By_user user_id"
| "owner_of (Anonymous uuid) = By_anon uuid"
| "owner_of (Unregistered uuid client_ip) = By_anon uuid"

fun newly_assigned_uuid :: "worker_identity \<Rightarrow> nat option" where
  "newly_assigned_uuid (Unregistered uuid client_ip) = Some uuid"
| "newly_assigned_uuid _ = None"

fun rate_key :: "worker_identity \<Rightarrow> ustr" where
  "rate_key (User user_id key_id) = lit ''k:'' @ show_nat key_id"
| "rate_key (Anonymous uuid) = lit ''a:'' @ show_nat uuid"
| "rate_key (Unregistered uuid client_ip) = lit ''ip:'' @ client_ip"

fun require_registered :: "worker_identity \<Rightarrow> check" where
  "require_registered (Unregistered uuid client_ip) = Inl (Unauthorized ''this request needs a worker identity'')"
| "require_registered _ = ok"

record task_row =
  t_id :: nat
  t_job_id :: nat
  t_seed :: int
  t_state :: task_state
  t_accepted_count :: int
  t_active_claim_count :: int
  t_created_at :: time
  t_completed_at :: "time option"

record claim_row =
  c_id :: nat
  c_task_id :: nat
  c_job_id :: nat
  c_claim_token :: nat
  c_state :: claim_state
  c_claimed_by :: owner
  c_claimed_at :: time
  c_deadline_at :: time
  c_overrun :: "claim_overrun option"
  c_last_heartbeat_at :: "time option"
  c_completed_at :: "time option"
  c_movegens :: int
  c_magpie_version :: ustr
  c_derived_skipped :: "ustr list option"

text \<open>A row of \<open>users\<close> or \<open>anonymous_workers\<close>: what the worker routes keep of a contributor.\<close>

record contributor_row =
  k_owner :: owner
  k_tasks_completed :: int
  k_compute_ms :: int
  k_movegens :: int
  k_last_completed_at :: "time option"

record gap_row =
  g_job_id :: nat
  g_claim_id :: nat
  g_role :: ustr
  g_name :: ustr
  g_expected :: ustr
  g_actual :: "ustr option"

text \<open>A row of \<open>audit_log\<close>: its target's type and id, and the two statuses, go together.\<close>

record audit_row =
  a_action :: ustr
  a_actor :: "owner option"
  a_target :: "(ustr \<times> nat) option"
  a_job_id :: "nat option"
  a_status_change :: "(ustr \<times> ustr) option"
  a_reason :: "ustr option"

record db =
  db_jobs :: "job_row list"
  db_tasks :: "task_row list"
  db_claims :: "claim_row list"
  db_contributors :: "contributor_row list"
  db_gaps :: "gap_row list"
  db_audit :: "audit_row list"

section \<open>The audit log\<close>

text \<open>\<open>audit.rs\<close>: the row each function inserts.\<close>

definition audit_log ::
  "ustr \<Rightarrow> owner option \<Rightarrow> (ustr \<times> nat) option \<Rightarrow> nat option \<Rightarrow> audit_row list \<Rightarrow> audit_row list" where
  "audit_log action actor target job_id rows = rows @ [\<lparr>a_action = action, a_actor = actor,
     a_target = target, a_job_id = job_id, a_status_change = None, a_reason = None\<rparr>]"

definition log_account :: "ustr \<Rightarrow> nat \<Rightarrow> ustr \<Rightarrow> nat \<Rightarrow> audit_row list \<Rightarrow> audit_row list" where
  "log_account action user_id target_type target_id rows = rows @ [\<lparr>a_action = action,
     a_actor = Some (By_user user_id), a_target = Some (target_type, target_id), a_job_id = None,
     a_status_change = None, a_reason = None\<rparr>]"

definition log_server_completion :: "nat \<Rightarrow> ustr option \<Rightarrow> audit_row list \<Rightarrow> audit_row list" where
  "log_server_completion job_id reason rows = rows @ [\<lparr>a_action = lit ''job.completed'', a_actor = None,
     a_target = Some (lit ''job'', job_id), a_job_id = Some job_id,
     a_status_change = Some (lit ''active'', lit ''completed''), a_reason = reason\<rparr>]"

definition log_server_set_aside :: "nat \<Rightarrow> ustr \<Rightarrow> audit_row list \<Rightarrow> audit_row list" where
  "log_server_set_aside job_id reason rows = rows @ [\<lparr>a_action = lit ''job.set_aside'', a_actor = None,
     a_target = Some (lit ''job'', job_id), a_job_id = Some job_id,
     a_status_change = Some (lit ''active'', lit ''inactive''), a_reason = Some reason\<rparr>]"

definition log_status_change ::
  "ustr \<Rightarrow> nat \<Rightarrow> nat \<Rightarrow> ustr \<Rightarrow> ustr \<Rightarrow> ustr option \<Rightarrow> audit_row list \<Rightarrow> audit_row list" where
  "log_status_change action user_id job_id old_status new_status reason rows = rows @ [\<lparr>a_action = action,
     a_actor = Some (By_user user_id), a_target = Some (lit ''job'', job_id), a_job_id = Some job_id,
     a_status_change = Some (old_status, new_status), a_reason = reason\<rparr>]"

definition log_ban :: "nat \<Rightarrow> nat \<Rightarrow> ustr option \<Rightarrow> audit_row list \<Rightarrow> audit_row list" where
  "log_ban user_id target_id reason rows = rows @ [\<lparr>a_action = lit ''worker.banned'',
     a_actor = Some (By_user user_id), a_target = Some (lit ''worker'', target_id), a_job_id = None,
     a_status_change = None, a_reason = reason\<rparr>]"

definition log_detail ::
  "ustr \<Rightarrow> nat \<Rightarrow> ustr \<Rightarrow> nat \<Rightarrow> nat option \<Rightarrow> ustr \<Rightarrow> audit_row list \<Rightarrow> audit_row list" where
  "log_detail action user_id target_type target_id job_id census rows = rows @ [\<lparr>a_action = action,
     a_actor = Some (By_user user_id), a_target = Some (target_type, target_id), a_job_id = job_id,
     a_status_change = None, a_reason = Some census\<rparr>]"

definition log_worker_detail ::
  "ustr \<Rightarrow> owner \<Rightarrow> ustr \<Rightarrow> nat \<Rightarrow> nat option \<Rightarrow> ustr \<Rightarrow> audit_row list \<Rightarrow> audit_row list" where
  "log_worker_detail action worker target_type target_id job_id reason rows = rows @ [\<lparr>a_action = action,
     a_actor = Some worker, a_target = Some (target_type, target_id), a_job_id = job_id,
     a_status_change = None, a_reason = Some reason\<rparr>]"

section \<open>Statements\<close>

text \<open>\<open>UPDATE ... WHERE\<close>, \<open>SELECT ... WHERE key = ...\<close>, and the number of rows a condition holds of.\<close>

definition update_where :: "('r \<Rightarrow> bool) \<Rightarrow> ('r \<Rightarrow> 'r) \<Rightarrow> 'r list \<Rightarrow> 'r list" where
  "update_where P f rows = map (\<lambda>r. if P r then f r else r) rows"

definition update_key :: "('r \<Rightarrow> 'k) \<Rightarrow> 'k \<Rightarrow> ('r \<Rightarrow> 'r) \<Rightarrow> 'r list \<Rightarrow> 'r list" where
  "update_key key k f rows = update_where (\<lambda>r. key r = k) f rows"

definition row_with :: "('r \<Rightarrow> 'k) \<Rightarrow> 'k \<Rightarrow> 'r list \<Rightarrow> 'r option" where
  "row_with key k rows = find (\<lambda>r. key r = k) rows"

definition count_where :: "('r \<Rightarrow> bool) \<Rightarrow> 'r list \<Rightarrow> int" where
  "count_where P rows = int (length (filter P rows))"

definition sum_where :: "('r \<Rightarrow> bool) \<Rightarrow> ('r \<Rightarrow> int) \<Rightarrow> 'r list \<Rightarrow> int" where
  "sum_where P f rows = sum_list (map f (filter P rows))"

section \<open>Laws of the statements\<close>

lemma count_where_simps [simp]:
  "count_where P [] = 0" "count_where P (r # rs) = (if P r then 1 else 0) + count_where P rs"
  "count_where P (rs @ ss) = count_where P rs + count_where P ss"
  by (simp_all add: count_where_def)

lemma sum_where_simps [simp]:
  "sum_where P f [] = 0" "sum_where P f (r # rs) = (if P r then f r else 0) + sum_where P f rs"
  "sum_where P f (rs @ ss) = sum_where P f rs + sum_where P f ss"
  by (simp_all add: sum_where_def)

lemma count_where_nonneg [simp]: "0 \<le> count_where P rs"
  by (simp add: count_where_def)

lemma count_where_as_sum: "count_where P rs = sum_where P (\<lambda>_. 1) rs"
  by (induction rs) simp_all

lemma count_where_0: "count_where P rs = 0 \<longleftrightarrow> (\<forall>r\<in>set rs. \<not> P r)"
  by (induction rs) (simp_all add: add_nonneg_eq_0_iff)

lemma count_where_pos: "r \<in> set rs \<Longrightarrow> P r \<Longrightarrow> 1 \<le> count_where P rs"
  by (induction rs) (auto simp: add_increasing2)

lemma sum_where_cong:
  "(\<And>r. r \<in> set rs \<Longrightarrow> P r = Q r) \<Longrightarrow> (\<And>r. r \<in> set rs \<Longrightarrow> P r \<Longrightarrow> f r = g r) \<Longrightarrow>
     sum_where P f rs = sum_where Q g rs"
  by (induction rs) auto

lemma update_where_simps [simp]:
  "update_where P f [] = []"
  "update_where P f (r # rs) = (if P r then f r else r) # update_where P f rs"
  "update_where P f (rs @ ss) = update_where P f rs @ update_where P f ss"
  by (simp_all add: update_where_def)

lemma set_update_where: "set (update_where P f rs) = (\<lambda>r. if P r then f r else r) ` set rs"
  by (auto simp: update_where_def)

lemma sum_where_update_where:
  "sum_where Q g (update_where P f rs) =
     sum_where (\<lambda>r. \<not> P r \<and> Q r) g rs + sum_where (\<lambda>r. P r \<and> Q (f r)) (\<lambda>r. g (f r)) rs"
  by (induction rs) auto

lemma map_update_where: "(\<And>r. P r \<Longrightarrow> h (f r) = h r) \<Longrightarrow> map h (update_where P f rs) = map h rs"
  by (induction rs) auto

text \<open>
  The contract of a table with a key: a statement that changes the row of one key leaves every other
  row, keeps the keys, and moves a total over the table by what that row's share of it moved.
\<close>

locale keyed_table =
  fixes key :: "'r \<Rightarrow> 'k"
    and upd :: "'k \<Rightarrow> ('r \<Rightarrow> 'r) \<Rightarrow> 'r list \<Rightarrow> 'r list"
    and row :: "'k \<Rightarrow> 'r list \<Rightarrow> 'r option"
  assumes keys_upd: "(\<And>r. key (f r) = key r) \<Longrightarrow> map key (upd k f rs) = map key rs"
    and row_upd: "(\<And>r. key (f r) = key r) \<Longrightarrow>
      row k' (upd k f rs) = (if k' = k then map_option f (row k' rs) else row k' rs)"
    and row_Some: "row k rs = Some r \<Longrightarrow> r \<in> set rs \<and> key r = k"
    and row_None: "row k rs = None \<longleftrightarrow> k \<notin> key ` set rs"
    and in_upd: "r \<in> set (upd k f rs) \<longleftrightarrow>
      (r \<in> set rs \<and> key r \<noteq> k) \<or> (\<exists>s\<in>set rs. key s = k \<and> r = f s)"
    and sum_upd: "distinct (map key rs) \<Longrightarrow> row k rs = Some r \<Longrightarrow>
      sum_where P g (upd k f rs) =
        sum_where P g rs - (if P r then g r else 0) + (if P (f r) then g (f r) else 0)"
    and upd_none: "row k rs = None \<Longrightarrow> upd k f rs = rs"
begin

lemma distinct_upd: "(\<And>r. key (f r) = key r) \<Longrightarrow> distinct (map key (upd k f rs)) = distinct (map key rs)"
  by (simp add: keys_upd)

lemma count_upd:
  "distinct (map key rs) \<Longrightarrow> row k rs = Some r \<Longrightarrow>
     count_where P (upd k f rs) =
       count_where P rs - (if P r then 1 else 0) + (if P (f r) then 1 else 0)"
  by (simp add: count_where_as_sum sum_upd)

text \<open>A total that the change does not touch.\<close>

lemma sum_upd_same:
  assumes "distinct (map key rs)" "\<And>r. key r = k \<Longrightarrow> P (f r) = P r" "\<And>r. key r = k \<Longrightarrow> P r \<Longrightarrow> g (f r) = g r"
  shows "sum_where P g (upd k f rs) = sum_where P g rs"
proof (cases "row k rs")
  case (Some r)
  with row_Some [OF Some] assms show ?thesis by (simp add: sum_upd)
qed (simp add: upd_none)

lemma count_upd_same:
  "distinct (map key rs) \<Longrightarrow> (\<And>r. key r = k \<Longrightarrow> P (f r) = P r) \<Longrightarrow>
     count_where P (upd k f rs) = count_where P rs"
  by (simp add: count_where_as_sum sum_upd_same)

lemma row_in: "distinct (map key rs) \<Longrightarrow> r \<in> set rs \<Longrightarrow> row (key r) rs = Some r"
  by (metis distinct_map_inj_eq image_eqI not_None_eq row_None row_Some)

end

lemma row_with_Some: "row_with key k rs = Some r \<Longrightarrow> r \<in> set rs \<and> key r = k"
  by (auto simp: row_with_def find_Some_iff)

lemma row_with_None: "row_with key k rs = None \<longleftrightarrow> k \<notin> key ` set rs"
  by (auto simp: row_with_def find_None_iff)

lemma row_with_new:
  "row_with key k rs = None \<Longrightarrow> key r = k \<Longrightarrow> row_with key k (rs @ [r]) = Some r"
  by (induction rs) (auto simp: row_with_def split: if_splits)

lemma update_key_none: "row_with key k rs = None \<Longrightarrow> update_key key k f rs = rs"
  unfolding row_with_None update_key_def update_where_def by (rule map_idI) auto

lemma row_with_update_key:
  "(\<And>r. key (f r) = key r) \<Longrightarrow>
     row_with key k' (update_key key k f rs) = (if k' = k then map_option f (row_with key k' rs) else row_with key k' rs)"
  by (induction rs) (auto simp: row_with_def update_key_def)

lemma sum_where_update_key:
  assumes "distinct (map key rs)" "row_with key k rs = Some r"
  shows "sum_where P g (update_key key k f rs) =
     sum_where P g rs - (if P r then g r else 0) + (if P (f r) then g (f r) else 0)"
  using assms
proof (induction rs)
  case (Cons s rs)
  show ?case
  proof (cases "key s = k")
    case True
    then have "r = s" using Cons.prems by (simp add: row_with_def)
    have "row_with key k rs = None"
      using Cons.prems True by (simp add: row_with_None)
    then have "update_key key k f rs = rs" by (simp add: update_key_none)
    with True \<open>r = s\<close> show ?thesis by (simp add: update_key_def)
  next
    case False
    with Cons.prems have "row_with key k rs = Some r" by (simp add: row_with_def)
    with Cons False show ?thesis by (simp add: update_key_def)
  qed
qed (simp add: row_with_def)

lemma in_update_key:
  "r \<in> set (update_key key k f rs) \<longleftrightarrow>
     (r \<in> set rs \<and> key r \<noteq> k) \<or> (\<exists>s\<in>set rs. key s = k \<and> r = f s)"
  by (auto simp: update_key_def set_update_where)

lemma keyed_table_update: "keyed_table key (update_key key) (row_with key)"
proof (rule keyed_table.intro)
  show "map key (update_key key k f rs) = map key rs" if "\<And>r. key (f r) = key r" for f k rs
    using that by (simp add: update_key_def map_update_where)
  show "row_with key k' (update_key key k f rs) =
      (if k' = k then map_option f (row_with key k' rs) else row_with key k' rs)"
    if "\<And>r. key (f r) = key r" for f k k' rs
    using that by (rule row_with_update_key)
qed (erule row_with_Some row_with_None in_update_key sum_where_update_key update_key_none
      | rule row_with_None in_update_key | assumption)+

interpretation jobs: keyed_table j_id "update_key j_id" "row_with j_id"
  by (rule keyed_table_update)

interpretation tasks: keyed_table t_id "update_key t_id" "row_with t_id"
  by (rule keyed_table_update)

interpretation claims: keyed_table c_id "update_key c_id" "row_with c_id"
  by (rule keyed_table_update)

interpretation contributors: keyed_table k_owner "update_key k_owner" "row_with k_owner"
  by (rule keyed_table_update)

end
