(* ===== verification/Shares.thy ===== *)
theory Shares
  imports Store Templates
begin

text \<open>
  \<open>scheduler.rs\<close>, the part that decides whose turn it is: the deficit ratio of a job, the candidate
  list, where a job that joins is put, how it is settled and lifted, the turn check a claim makes,
  and what a worker is told when no job is a candidate.  A \<open>float8\<close> ratio is an exact real; an
  interval of seconds is a number of microseconds, as the timestamps are.
\<close>

section \<open>Ratios\<close>

definition claims_since :: "'a job_scheme \<Rightarrow> int" where
  "claims_since j = j_claims_issued j - j_claims_baseline j"

definition ratio_of :: "'a job_scheme \<Rightarrow> real" where
  "ratio_of j = of_int (claims_since j) / of_int (j_allocation j)"

definition ratio :: "'a job_scheme \<Rightarrow> real option" where
  "ratio j = (if j_allocation j > 0 then Some (ratio_of j) else None)"

text \<open>On offer: active and above 0%.\<close>

definition offered :: "'a job_scheme \<Rightarrow> bool" where
  "offered j \<longleftrightarrow> j_status j = Active \<and> j_allocation j > 0"

text \<open>\<open>MIN\<close> and \<open>MAX\<close>: NULL over no rows, and NULLs left out.\<close>

definition sql_min :: "'a::linorder list \<Rightarrow> 'a option" where
  "sql_min xs = (case xs of [] \<Rightarrow> None | y # ys \<Rightarrow> Some (foldl min y ys))"

definition sql_max :: "'a::linorder list \<Rightarrow> 'a option" where
  "sql_max xs = (case xs of [] \<Rightarrow> None | y # ys \<Rightarrow> Some (foldl max y ys))"

definition somes :: "'a option list \<Rightarrow> 'a list" where
  "somes xs = concat (map (\<lambda>x. case x of None \<Rightarrow> [] | Some y \<Rightarrow> [y]) xs)"

definition latest_claim :: "job_row list \<Rightarrow> time option" where
  "latest_claim jobs = sql_max (somes (map j_last_claimed_at jobs))"

section \<open>Candidates\<close>

record capabilities =
  cap_magpie_version :: version
  cap_unsupported_jobs :: "nat list"

definition is_candidate :: "capabilities \<Rightarrow> job_row \<Rightarrow> bool" where
  "is_candidate caps j \<longleftrightarrow> offered j \<and> min_magpie_version j \<le> cap_magpie_version caps \<and>
     j_id j \<notin> set (cap_unsupported_jobs caps)"

definition candidate_jobs :: "job_row list \<Rightarrow> capabilities \<Rightarrow> job_row list" where
  "candidate_jobs jobs caps =
     sort_key (\<lambda>j. (ratio_of j, j_created_at j)) (filter (is_candidate caps) jobs)"

section \<open>Joining at parity\<close>

definition JOIN_SETTLE :: time where "JOIN_SETTLE = 3600000000"

text \<open>The other jobs on offer; \<open>PARITY_TARGET\<close>, for the job and the window bound to it.\<close>

definition others :: "job_row list \<Rightarrow> nat \<Rightarrow> job_row list" where
  "others jobs job_id = filter (\<lambda>j. offered j \<and> j_id j \<noteq> job_id) jobs"

definition parity_target :: "job_row list \<Rightarrow> nat \<Rightarrow> time \<Rightarrow> real option" where
  "parity_target jobs job_id window =
     (case latest_claim (others jobs job_id) of
        None \<Rightarrow> None
      | Some latest \<Rightarrow> sql_min (map ratio_of (filter
          (\<lambda>j. case j_last_claimed_at j of None \<Rightarrow> False | Some t \<Rightarrow> t > latest - window)
          (others jobs job_id))))"

definition join_at_parity :: "job_row list \<Rightarrow> nat \<Rightarrow> time \<Rightarrow> time \<Rightarrow> job_row list" where
  "join_at_parity jobs job_id served_within now =
     (let level = (case parity_target jobs job_id served_within of
            Some r \<Rightarrow> r
          | None \<Rightarrow> (case sql_max (map ratio_of (others jobs job_id)) of Some r \<Rightarrow> r | None \<Rightarrow> 0))
      in update_key j_id job_id (\<lambda>j.
           j\<lparr>j_activated_at := (if j_status j = Active then Some now else j_activated_at j),
             j_claims_baseline := j_claims_issued j - \<lfloor>level * of_int (j_allocation j)\<rfloor>\<rparr>) jobs)"

definition settling :: "'a job_scheme \<Rightarrow> time \<Rightarrow> bool" where
  "settling j now \<longleftrightarrow> (case j_activated_at j of None \<Rightarrow> False | Some t \<Rightarrow> t > now - JOIN_SETTLE)"

text \<open>\<open>GREATEST\<close> and \<open>LEAST\<close> leave out a NULL.\<close>

definition unsettle :: "job_row list \<Rightarrow> nat \<Rightarrow> time \<Rightarrow> time \<Rightarrow> job_row list" where
  "unsettle jobs job_id served_within now =
     update_where (\<lambda>j. j_id j = job_id \<and> offered j \<and> settling j now)
       (\<lambda>j. j\<lparr>j_claims_baseline :=
          (case parity_target jobs job_id served_within of
             None \<Rightarrow> j_claims_baseline j
           | Some r \<Rightarrow> max (j_claims_baseline j) (j_claims_issued j - \<lfloor>r * of_int (j_allocation j)\<rfloor>))\<rparr>)
       jobs"

text \<open>\<open>SKIP LOCKED\<close>: the rows other transactions hold are an argument.\<close>

definition lift_passed_over :: "job_row list \<Rightarrow> nat list \<Rightarrow> real \<Rightarrow> nat list \<Rightarrow> job_row list" where
  "lift_passed_over jobs passed_over pace locked =
     update_where (\<lambda>j. j_id j \<in> set passed_over \<and> offered j \<and> j_id j \<notin> set locked \<and>
         j_claims_issued j - \<lfloor>pace * of_int (j_allocation j)\<rfloor> < j_claims_baseline j)
       (\<lambda>j. j\<lparr>j_claims_baseline := j_claims_issued j - \<lfloor>pace * of_int (j_allocation j)\<rfloor>\<rparr>)
       jobs"

definition lift_after_claim ::
  "job_row list \<Rightarrow> nat list \<Rightarrow> 'a job_scheme \<Rightarrow> nat list \<Rightarrow> job_row list" where
  "lift_after_claim jobs passed_over chosen locked =
     (case ratio chosen of
        Some pace \<Rightarrow> if passed_over = [] then jobs else lift_passed_over jobs passed_over pace locked
      | None \<Rightarrow> jobs)"

section \<open>Pace and turns\<close>

definition pace_for :: "job_row list \<Rightarrow> nat \<Rightarrow> real option" where
  "pace_for jobs i =
     (let other = (if i = 0 then (if length jobs > 1 then Some (jobs ! 1) else None) else Some (hd jobs))
      in case other of
           None \<Rightarrow> None
         | Some q \<Rightarrow>
             if j_allocation q > 0 \<and> j_allocation (jobs ! i) > 0
             then Some (of_int (claims_since q - 1) / of_int (j_allocation q) -
               1 / of_int (j_allocation (jobs ! i)))
             else None)"

record standing =
  st_served_within :: time
  st_pace :: "real option"
  st_rivals :: "nat list"
  st_busy_rivals :: "nat list"

text \<open>
  The turn check: whether claims made meanwhile moved the job more than one of a rival's claims past
  that rival, or more than a ratio unit past one found busy.  \<open>None\<close> when the job is gone from the
  jobs above 0%.
\<close>

definition le_least :: "real \<Rightarrow> real option \<Rightarrow> bool" where
  "le_least x bound = (case bound of None \<Rightarrow> True | Some b \<Rightarrow> x \<le> b)"

definition outrun :: "job_row list \<Rightarrow> nat \<Rightarrow> nat list \<Rightarrow> nat list \<Rightarrow> bool option" where
  "outrun jobs job_id rivals busy_rivals =
     map_option (\<lambda>j.
         \<not> (le_least (ratio_of j) (sql_min (map
              (\<lambda>p. of_int (claims_since p + 1) / of_int (j_allocation p))
              (filter (\<lambda>p. j_id p \<in> set rivals \<and> j_allocation p > 0) jobs))) \<and>
            le_least (ratio_of j) (sql_min (map
              (\<lambda>p. of_int (claims_since p) / of_int (j_allocation p) + 1)
              (filter (\<lambda>p. j_id p \<in> set busy_rivals \<and> j_allocation p > 0) jobs)))))
       (find (\<lambda>j. j_id j = job_id \<and> j_allocation j > 0) jobs)"

text \<open>\<open>STALE\<close>: unserved for the window before the latest claim of any other job on offer.\<close>

definition stale :: "job_row list \<Rightarrow> nat \<Rightarrow> time \<Rightarrow> job_row \<Rightarrow> bool" where
  "stale jobs job_id window j \<longleftrightarrow>
     (case (case j_last_claimed_at j of None \<Rightarrow> j_activated_at j | Some t \<Rightarrow> Some t,
            latest_claim (others jobs job_id)) of
        (Some t, Some latest) \<Rightarrow> t \<le> latest - window
      | _ \<Rightarrow> False)"

section \<open>When no job is a candidate\<close>

record shutdown_directive =
  sd_reason :: ustr
  sd_required_tarball_dates :: "ustr list"
  sd_required_magpie_version :: "ustr option"
  sd_download_url :: "ustr option"

datatype claim_outcome = Idle | No_work_exists | Shutdown shutdown_directive

definition too_new :: "capabilities \<Rightarrow> job_row \<Rightarrow> bool" where
  "too_new caps j \<longleftrightarrow> min_magpie_version j > cap_magpie_version caps"

definition data_blocks :: "capabilities \<Rightarrow> job_row \<Rightarrow> bool" where
  "data_blocks caps j \<longleftrightarrow> min_magpie_version j \<le> cap_magpie_version caps \<and>
     j_id j \<in> set (cap_unsupported_jobs caps)"

definition tarball_dates :: "job_row list \<Rightarrow> input_row list \<Rightarrow> capabilities \<Rightarrow> ustr list" where
  "tarball_dates jobs inputs caps =
     rev (sort (remdups (map in_tarball_date (filter (\<lambda>d.
       list_ex (\<lambda>j. offered j \<and> j_id j \<in> set (cap_unsupported_jobs caps) \<and>
         (in_id d = j_letterdist_id j \<or> in_id d = j_layout_id j)) jobs) inputs))))"

definition shutdown_or_idle ::
  "job_row list \<Rightarrow> input_row list \<Rightarrow> ustr \<Rightarrow> capabilities \<Rightarrow> claim_outcome" where
  "shutdown_or_idle jobs inputs download_url caps =
     (let on_offer = filter offered jobs;
          version_blocked = list_ex (too_new caps) on_offer;
          data_blocked = list_ex (data_blocks caps) on_offer
      in if on_offer = [] then No_work_exists
         else if \<not> version_blocked \<and> \<not> data_blocked then Idle
         else Shutdown \<lparr>
           sd_reason = (if version_blocked \<and> data_blocked then lit ''both''
             else if version_blocked then lit ''magpie_too_old'' else lit ''data_out_of_date''),
           sd_required_tarball_dates = (if data_blocked then tarball_dates jobs inputs caps else []),
           sd_required_magpie_version =
             (if version_blocked
              then map_option show_version
                (sql_min (map min_magpie_version (filter (too_new caps) on_offer)))
              else None),
           sd_download_url = (if version_blocked then Some download_url else None)\<rparr>)"

text \<open>The global floor, before any job is consulted.\<close>

definition floor_shutdown :: "version \<Rightarrow> ustr \<Rightarrow> capabilities \<Rightarrow> shutdown_directive option" where
  "floor_shutdown minimum download_url caps =
     (if cap_magpie_version caps < minimum
      then Some \<lparr>sd_reason = lit ''magpie_too_old'', sd_required_tarball_dates = [],
        sd_required_magpie_version = Some (show_version minimum), sd_download_url = Some download_url\<rparr>
      else None)"

text \<open>\<open>unsupported_build\<close>: the one layout size and rack size of every job.\<close>

definition unsupported_build :: "nat \<Rightarrow> nat \<Rightarrow> shutdown_directive option" where
  "unsupported_build board_dim rack_size =
     (if board_dim = 15 \<and> rack_size = 7 then None
      else Some \<lparr>sd_reason = lit ''unsupported_build'', sd_required_tarball_dates = [],
        sd_required_magpie_version = None, sd_download_url = None\<rparr>)"

section \<open>What the worker calls the job\<close>

text \<open>\<open>job.id.simple()\<close> is a parameter: the hexadecimal text of a UUID.\<close>

definition job_name_for_worker :: "(nat \<Rightarrow> ustr) \<Rightarrow> 'a job_scheme \<Rightarrow> job_template \<Rightarrow> ustr" where
  "job_name_for_worker simple j template =
     (let players = (case jt_kind template of
            Kind_Games config player1 player2 \<Rightarrow> Some (ps_name player1, ps_name player2)
          | Kind_GamePairs config player1 player2 \<Rightarrow> Some (ps_name player1, ps_name player2)
          | _ \<Rightarrow> None);
          name = job_name (j_title j) players
      in if name = []
         then job_type_as_str (j_job_type j) @ lit '' job '' @ take 8 (simple (j_id j))
         else name)"

end
