(* ===== verification/Claims.thy ===== *)
theory Claims
  imports Shares Holds
begin

text \<open>
  The life of a task and of a claim: \<open>registry.rs\<close> (a task made on demand, the oldest available
  task), \<open>scheduler.rs\<close> (issuing, releasing and reclaiming claims, counting overruns) and
  \<open>routes/worker.rs\<close>'s \<open>record_time_limit\<close>.  \<open>now()\<close> is an argument, and so are the identifiers the
  code draws at random and the rows other transactions hold locked.
\<close>

section \<open>Tasks\<close>

text \<open>\<open>task_claims_one_slot_idx\<close>, \<open>tasks_seed_unique_idx\<close>: a breach fails the statement.\<close>

definition unique_violation :: app_error where
  "unique_violation = Internal ''unique_violation''"

definition new_task :: "nat \<Rightarrow> nat \<Rightarrow> int \<Rightarrow> time \<Rightarrow> task_row" where
  "new_task task_id job_id seed now = \<lparr>t_id = task_id, t_job_id = job_id, t_seed = seed,
     t_state = T_available, t_accepted_count = 0, t_active_claim_count = 0, t_created_at = now,
     t_completed_at = None\<rparr>"

definition insert_on_demand_task ::
  "task_row list \<Rightarrow> nat \<Rightarrow> nat \<Rightarrow> int \<Rightarrow> time \<Rightarrow> task_row list app_result" where
  "insert_on_demand_task tasks task_id job_id seed now =
     (if list_ex (\<lambda>t. t_job_id t = job_id \<and> t_seed t = seed) tasks then Inl unique_violation
      else Inr (tasks @ [new_task task_id job_id seed now]))"

text \<open>\<open>COALESCE(last_heartbeat_at, claimed_at)\<close>: when the claim's worker was last heard of.\<close>

definition last_seen :: "claim_row \<Rightarrow> time" where
  "last_seen c = (case c_last_heartbeat_at c of Some t \<Rightarrow> t | None \<Rightarrow> c_claimed_at c)"

definition declined_lately :: "claim_row list \<Rightarrow> owner \<Rightarrow> time \<Rightarrow> task_row \<Rightarrow> bool" where
  "declined_lately claims owner now t \<longleftrightarrow>
     list_ex (\<lambda>c. c_task_id c = t_id t \<and> c_state c = C_declined \<and> last_seen c > now - 3600000000 \<and>
       c_claimed_by c = owner) claims"

text \<open>
  The generation of a leave job's task is the pair \<open>(task_id, generation)\<close> of \<open>leave_requests\<close>.
\<close>

definition may_take ::
  "db \<Rightarrow> (nat \<times> int) list \<Rightarrow> nat \<Rightarrow> owner \<Rightarrow> int option \<Rightarrow> nat list \<Rightarrow> time \<Rightarrow> task_row \<Rightarrow> bool" where
  "may_take db leave_requests job_id owner leave_generation locked now t \<longleftrightarrow>
     t_job_id t = job_id \<and> t_state t = T_available \<and>
     (leave_generation \<noteq> None \<or> \<not> declined_lately (db_claims db) owner now t) \<and>
     (case leave_generation of None \<Rightarrow> True | Some g \<Rightarrow> (t_id t, g) \<in> set leave_requests) \<and>
     t_id t \<notin> set locked"

definition next_available ::
  "db \<Rightarrow> (nat \<times> int) list \<Rightarrow> nat \<Rightarrow> worker_identity \<Rightarrow> int option \<Rightarrow> nat list \<Rightarrow> time \<Rightarrow> nat option" where
  "next_available db leave_requests job_id identity leave_generation locked now =
     (case sort_key t_created_at (filter
         (may_take db leave_requests job_id (owner_of identity) leave_generation locked now)
         (db_tasks db)) of
        [] \<Rightarrow> None
      | t # ts \<Rightarrow> Some (t_id t))"

section \<open>Issuing a claim\<close>

text \<open>A \<open>numeric\<close> rounded to an integer: half away from zero.\<close>

definition round_div :: "int \<Rightarrow> int \<Rightarrow> int" where
  "round_div x d = (if x \<ge> 0 then (2 * x + d) div (2 * d) else - ((2 * (- x) + d) div (2 * d)))"

text \<open>\<open>EXTRACT(EPOCH FROM deadline_at - claimed_at)::int\<close>.\<close>

definition limit_secs :: "claim_row \<Rightarrow> int" where
  "limit_secs c = round_div (c_deadline_at c - c_claimed_at c) 1000000"

definition new_claim ::
  "nat \<Rightarrow> nat \<Rightarrow> nat \<Rightarrow> nat \<Rightarrow> owner \<Rightarrow> ustr \<Rightarrow> int \<Rightarrow> time \<Rightarrow> claim_row" where
  "new_claim claim_id task_id job_id token owner magpie_version max_task_seconds now = \<lparr>
     c_id = claim_id, c_task_id = task_id, c_job_id = job_id, c_claim_token = token,
     c_state = C_claimed, c_claimed_by = owner, c_claimed_at = now,
     c_deadline_at = now + max_task_seconds * 1000000, c_overrun = None,
     c_last_heartbeat_at = None, c_completed_at = None, c_movegens = 0,
     c_magpie_version = magpie_version, c_derived_skipped = None\<rparr>"

text \<open>\<open>LEAST(claims_baseline, ...)\<close>: a level that is NULL is left out.\<close>

definition lowered :: "'a job_scheme \<Rightarrow> real option \<Rightarrow> int \<Rightarrow> int" where
  "lowered j level b = (case level of
     None \<Rightarrow> b | Some r \<Rightarrow> min b (j_claims_issued j - \<lfloor>r * of_int (j_allocation j)\<rfloor>))"

definition claim_baseline :: "job_row list \<Rightarrow> standing \<Rightarrow> time \<Rightarrow> job_row \<Rightarrow> int" where
  "claim_baseline jobs standing now j =
     (if \<not> j_allocation j > 0 then j_claims_baseline j
      else if stale jobs (j_id j) (st_served_within standing) j then
        lowered j (st_pace standing)
          (lowered j (parity_target jobs (j_id j) (st_served_within standing)) (j_claims_baseline j))
      else if settling j now then lowered j (st_pace standing) (j_claims_baseline j)
      else j_claims_baseline j)"

definition issue_to_job :: "job_row list \<Rightarrow> standing \<Rightarrow> bool \<Rightarrow> time \<Rightarrow> job_row \<Rightarrow> job_row" where
  "issue_to_job jobs standing created now j = j\<lparr>
     j_claims_issued := j_claims_issued j + 1,
     j_tasks_total := j_tasks_total j + (if created then 1 else 0),
     j_last_claimed_at := Some now,
     j_claims_baseline := claim_baseline jobs standing now j,
     j_activated_at := (if j_allocation j > 0 \<and> stale jobs (j_id j) (st_served_within standing) j
       then Some now else j_activated_at j)\<rparr>"

definition new_contributor :: "owner \<Rightarrow> contributor_row" where
  "new_contributor owner = \<lparr>k_owner = owner, k_tasks_completed = 0, k_compute_ms = 0, k_movegens = 0,
     k_last_completed_at = None\<rparr>"

text \<open>\<open>INSERT INTO anonymous_workers ... ON CONFLICT DO NOTHING\<close>, for an identity assigned just now.\<close>

definition register :: "contributor_row list \<Rightarrow> worker_identity \<Rightarrow> contributor_row list" where
  "register contributors identity = (case newly_assigned_uuid identity of
     None \<Rightarrow> contributors
   | Some uuid \<Rightarrow> if list_ex (\<lambda>k. k_owner k = By_anon uuid) contributors then contributors
       else contributors @ [new_contributor (By_anon uuid)])"

definition occupy :: "task_row \<Rightarrow> task_row" where
  "occupy t = t\<lparr>t_active_claim_count := t_active_claim_count t + 1, t_state := T_claimed\<rparr>"

definition holds_slot :: "claim_row \<Rightarrow> bool" where
  "holds_slot c \<longleftrightarrow> c_state c = C_claimed \<or> c_state c = C_completed"

text \<open>
  \<open>issue_claim\<close>: \<open>Inr None\<close> when the job is no longer active at its row, for the caller to roll back.
\<close>

definition issue_claim ::
  "db \<Rightarrow> worker_identity \<Rightarrow> nat \<Rightarrow> capabilities \<Rightarrow> nat \<Rightarrow> bool \<Rightarrow> standing \<Rightarrow> nat \<Rightarrow> nat \<Rightarrow> time \<Rightarrow>
    (db \<times> nat \<times> int) option app_result" where
  "issue_claim db identity job_id caps task_id task_created standing claim_id claim_token now =
     and_then (fetch_one (row_with j_id job_id (db_jobs db))) (\<lambda>j.
       let claim = new_claim claim_id task_id job_id claim_token (owner_of identity)
             (show_version (cap_magpie_version caps)) (j_max_task_seconds j) now
       in if list_ex (\<lambda>c. c_task_id c = task_id \<and> holds_slot c) (db_claims db)
          then Inl unique_violation
          else if j_status j \<noteq> Active then Inr None
          else Inr (Some (
            db\<lparr>db_contributors := register (db_contributors db) identity,
               db_claims := db_claims db @ [claim],
               db_tasks := update_key t_id task_id occupy (db_tasks db),
               db_jobs := update_key j_id job_id
                 (issue_to_job (db_jobs db) standing task_created now) (db_jobs db)\<rparr>,
            claim_token, limit_secs claim)))"

section \<open>Ending a claim without a result\<close>

text \<open>A task \<open>n\<close> of whose live claims ended.\<close>

definition release_task :: "int \<Rightarrow> task_row \<Rightarrow> task_row" where
  "release_task n t =
     (let active = max (t_active_claim_count t - n) 0
      in t\<lparr>t_active_claim_count := active,
           t_state := (if t_accepted_count t > 0 then T_completed
             else if active > 0 then T_claimed else T_available)\<rparr>)"

definition release_claim :: "db \<Rightarrow> nat \<Rightarrow> claim_state \<Rightarrow> db \<times> bool" where
  "release_claim db claim_id terminal_state =
     (case row_with c_id claim_id (db_claims db) of
        None \<Rightarrow> (db, False)
      | Some c \<Rightarrow>
          if c_state c \<noteq> C_claimed then (db, False)
          else (db\<lparr>db_claims := update_key c_id claim_id (\<lambda>c. c\<lparr>c_state := terminal_state\<rparr>)
                     (db_claims db),
                   db_tasks := update_key t_id (c_task_id c) (release_task 1) (db_tasks db)\<rparr>, True))"

definition DEADLINE_GRACE :: time where "DEADLINE_GRACE = 60000000"

definition past_deadline :: "time \<Rightarrow> claim_row \<Rightarrow> bool" where
  "past_deadline now c \<longleftrightarrow> c_deadline_at c < now - DEADLINE_GRACE"

definition overran :: "time \<Rightarrow> time \<Rightarrow> claim_row \<Rightarrow> bool" where
  "overran timeout now c \<longleftrightarrow>
     past_deadline now c \<and> last_seen c \<ge> c_deadline_at c + (DEADLINE_GRACE - timeout)"

definition lapsed :: "task_row list \<Rightarrow> nat list \<Rightarrow> time \<Rightarrow> nat list \<Rightarrow> time \<Rightarrow> claim_row \<Rightarrow> bool" where
  "lapsed tasks job_ids timeout locked now c \<longleftrightarrow>
     (case row_with t_id (c_task_id c) tasks of
        None \<Rightarrow> False | Some t \<Rightarrow> t_job_id t \<in> set job_ids) \<and>
     c_state c = C_claimed \<and>
     (last_seen c < now - timeout \<or> past_deadline now c) \<and>
     c_id c \<notin> set locked"

definition reclaim_expired_for ::
  "db \<Rightarrow> nat list \<Rightarrow> time \<Rightarrow> nat list \<Rightarrow> time \<Rightarrow> db" where
  "reclaim_expired_for db job_ids timeout locked now =
     (let expires = lapsed (db_tasks db) job_ids timeout locked now;
          n = (\<lambda>t. count_where (\<lambda>c. expires c \<and> c_task_id c = t_id t) (db_claims db))
      in db\<lparr>db_claims := update_where expires (\<lambda>c. c\<lparr>c_state := C_abandoned,
                c_overrun := (if overran timeout now c then Some Overrun_pending else None)\<rparr>)
              (db_claims db),
            db_tasks := update_where (\<lambda>t. n t > 0) (\<lambda>t. release_task (n t) t) (db_tasks db)\<rparr>)"

text \<open>\<open>Instant::now()\<close>, which the startup grace and the holds' graces are measured on, is \<open>inst\<close>.\<close>

definition reclaim_lapsed ::
  "db \<Rightarrow> holds_inner \<Rightarrow> time \<Rightarrow> time \<Rightarrow> nat list \<Rightarrow> time \<Rightarrow> nat list \<Rightarrow> time \<Rightarrow> db \<times> holds_inner" where
  "reclaim_lapsed db holds reclaim_from inst job_ids timeout locked now =
     (if inst < reclaim_from then (db, holds)
      else let (holds', ids) = reclaimable holds inst job_ids
           in if ids = [] then (db, holds')
              else (reclaim_expired_for db ids timeout locked now, holds'))"

definition deadlines_enforced :: "holds_inner \<Rightarrow> time \<Rightarrow> time \<Rightarrow> nat \<Rightarrow> bool \<times> holds_inner" where
  "deadlines_enforced holds reclaim_from inst job_id =
     (if inst \<ge> reclaim_from
      then let (holds', ids) = reclaimable holds inst [job_id] in (ids \<noteq> [], holds')
      else (False, holds))"

section \<open>Counting what hit the time limit\<close>

definition TIME_LIMIT_STREAK :: int where "TIME_LIMIT_STREAK = 3"

definition limit_text :: "int \<Rightarrow> ustr" where
  "limit_text s =
     (if s mod 3600 = 0 then show_int (s div 3600) @ lit ''-hour''
      else if s mod 60 = 0 then show_int (s div 60) @ lit ''-minute''
      else show_int s @ lit ''-second'')"

definition set_aside_text :: "int \<Rightarrow> int \<Rightarrow> ustr" where
  "set_aside_text streak max_task_seconds =
     show_int streak @ lit '' tasks in a row hit the '' @ limit_text max_task_seconds @
     lit '' time limit with none completed between: a task's batch is more than a worker finishes in '' @
     lit ''that time. Lower the batch size (in a new job), or raise the job's time limit on its '' @
     lit ''Manage page, and give it an allocation again.''"

text \<open>The overruns of a job nobody has counted yet; those whose deadline came after its run began.\<close>

definition pending_of :: "nat \<Rightarrow> claim_row \<Rightarrow> bool" where
  "pending_of job_id c \<longleftrightarrow> c_job_id c = job_id \<and> c_overrun c = Some Overrun_pending"

definition in_run :: "time option \<Rightarrow> claim_row \<Rightarrow> bool" where
  "in_run since c \<longleftrightarrow> (case since of None \<Rightarrow> True | Some t \<Rightarrow> c_deadline_at c > t)"

text \<open>\<open>(array_agg(limit_secs ORDER BY deadline_at DESC))[1]\<close>.\<close>

definition latest_limit :: "claim_row list \<Rightarrow> int option" where
  "latest_limit cs = (case sort_key (\<lambda>c. - c_deadline_at c) cs of [] \<Rightarrow> None | c # _ \<Rightarrow> Some (limit_secs c))"

definition count_time_limits :: "int \<Rightarrow> int \<Rightarrow> job_row \<Rightarrow> job_row" where
  "count_time_limits declines streak j = j\<lparr>
     j_time_limit_declines := j_time_limit_declines j + declines,
     j_time_limit_streak := j_time_limit_streak j + streak\<rparr>"

definition set_aside :: "ustr \<Rightarrow> job_row \<Rightarrow> job_row" where
  "set_aside reason j = j\<lparr>j_status := Inactive, j_allocation := 0, j_set_aside_reason := Some reason\<rparr>"

definition record_time_limit :: "db \<Rightarrow> nat \<Rightarrow> int option \<Rightarrow> (db \<times> bool) app_result" where
  "record_time_limit db job_id declined =
     and_then (fetch_one (row_with j_id job_id (db_jobs db))) (\<lambda>j.
       let overruns = filter (pending_of job_id) (db_claims db);
           run = count_where (in_run (j_time_limit_streak_since j)) overruns;
           db1 = db\<lparr>db_claims := update_where (pending_of job_id)
             (\<lambda>c. c\<lparr>c_overrun := Some Overrun_counted\<rparr>) (db_claims db)\<rparr>
       in case (case declined of Some s \<Rightarrow> Some s | None \<Rightarrow> latest_limit overruns) of
            None \<Rightarrow> Inr (db1, False)
          | Some max_task_seconds \<Rightarrow>
              let one = (case declined of None \<Rightarrow> 0 | Some _ \<Rightarrow> 1);
                  j' = count_time_limits (one + int (length overruns)) (min i32_max (one + run)) j;
                  db2 = db1\<lparr>db_jobs := update_key j_id job_id (\<lambda>_. j') (db_jobs db1)\<rparr>;
                  reason = set_aside_text (j_time_limit_streak j') max_task_seconds
              in if j_time_limit_streak j' < TIME_LIMIT_STREAK \<or> j_allocation j' = 0
                 then Inr (db2, False)
                 else if j_status j' \<noteq> Active then Inr (db2, False)
                 else Inr (db2\<lparr>db_jobs := update_key j_id job_id (set_aside reason) (db_jobs db2),
                   db_audit := log_server_set_aside job_id
                     (show_int (j_allocation j') @ lit ''% -> 0%: '' @ reason) (db_audit db2)\<rparr>,
                   True))"

text \<open>
  \<open>count_overruns_of\<close>: the jobs whose dispatch lock does not come within its bounded wait are an
  argument.  A failure leaves the tables as they were.
\<close>

definition count_overruns_of :: "db \<Rightarrow> nat list \<Rightarrow> nat \<Rightarrow> db \<times> bool" where
  "count_overruns_of db locked_jobs job_id =
     (if job_id \<in> set locked_jobs then (db, False)
      else case record_time_limit db job_id None of Inl e \<Rightarrow> (db, False) | Inr r \<Rightarrow> r)"

fun count_each :: "holds_inner \<Rightarrow> nat list \<Rightarrow> nat list \<Rightarrow> db \<Rightarrow> db \<times> nat list" where
  "count_each holds locked_jobs [] db = (db, [])"
| "count_each holds locked_jobs (job_id # pending) db =
     (if is_held holds job_id then count_each holds locked_jobs pending db
      else let (db', aside) = count_overruns_of db locked_jobs job_id;
               (db'', asides) = count_each holds locked_jobs pending db'
           in (db'', (if aside then job_id # asides else asides)))"

definition count_overruns ::
  "db \<Rightarrow> holds_inner \<Rightarrow> nat list \<Rightarrow> nat list \<Rightarrow> db \<times> nat list" where
  "count_overruns db holds locked_jobs job_ids =
     count_each holds locked_jobs (remdups (map c_job_id (filter
       (\<lambda>c. c_overrun c = Some Overrun_pending \<and> c_job_id c \<in> set job_ids) (db_claims db)))) db"

end
