(* ===== verification/Results.thy ===== *)
theory Results
  imports Claims Games
begin

text \<open>
  What an accepted result is stored as (\<open>jobs/mod.rs\<close>: \<open>insert_position_analyses\<close>,
  \<open>insert_game_results\<close>), and the opening-rack job over it (\<open>jobs/opening_rack.rs\<close>): its next task,
  the check of a batch against its task, and the consensus kept of each rack.  The rows a statement
  chunks are inserted in one piece; \<open>submitted_at\<close> is not kept.
\<close>

section \<open>Stored analyses\<close>

record ply_row =
  py_ply :: int
  py_bingo_percentage :: f64
  py_average_score :: f64

record move_row =
  mv_rank :: int
  mv_play :: ustr
  mv_score :: int
  mv_equity :: f64
  mv_iterations :: "int option"
  mv_win_percentage :: "f64 option"
  mv_blended_utility :: "f64 option"
  mv_mean_spread :: "f64 option"
  mv_fidelity_plies :: "int option"
  mv_plies :: "ply_row list"

text \<open>A row of \<open>position_analysis_records\<close> with its moves, their plies and its inference.\<close>

record record_row =
  rc_claim_id :: nat
  rc_task_id :: nat
  rc_job_id :: nat
  rc_rack :: ustr
  rc_position :: "ustr option"
  rc_game_index :: "int option"
  rc_turn_number :: "int option"
  rc_previous_move :: "ustr option"
  rc_previous_move_score :: "int option"
  rc_played_move :: "ustr option"
  rc_played_move_score :: "int option"
  rc_num_moves :: int
  rc_analysis :: ustr
  rc_moves :: "move_row list"
  rc_inference :: "inference_summary option"

text \<open>\<open>RecordedCaps\<close>: the moves and plies kept of a position, by its mover.\<close>

record recorded_caps =
  caps_player1 :: "int \<times> int"
  caps_player2 :: "int \<times> int"

definition caps_one :: "int \<Rightarrow> int \<Rightarrow> recorded_caps" where
  "caps_one plays plies = \<lparr>caps_player1 = (plays, plies), caps_player2 = (plays, plies)\<rparr>"

definition caps_of :: "recorded_caps \<Rightarrow> position_analysis \<Rightarrow> int \<times> int" where
  "caps_of caps position =
     (if pa_player position = Some 2 then caps_player2 caps else caps_player1 caps)"

definition move_row_of :: "int \<Rightarrow> nat \<times> move_entry \<Rightarrow> move_row" where
  "move_row_of top_plies = (\<lambda>(rank, m). \<lparr>mv_rank = int rank + 1, mv_play = me_play m,
     mv_score = me_score m, mv_equity = me_equity m, mv_iterations = me_iterations m,
     mv_win_percentage = me_win_percentage m, mv_blended_utility = me_blended_utility m,
     mv_mean_spread = me_mean_spread m, mv_fidelity_plies = me_fidelity_plies m,
     mv_plies = map (\<lambda>p. \<lparr>py_ply = ply p, py_bingo_percentage = bingo_percentage p,
         py_average_score = average_score p\<rparr>)
       (filter (\<lambda>p. ply p < top_plies) (me_plies m))\<rparr>)"

definition stored_moves :: "recorded_caps \<Rightarrow> position_analysis \<Rightarrow> move_row list" where
  "stored_moves caps position =
     (let (top_moves, top_plies) = caps_of caps position;
          kept = nat (max 0 (min i16_max top_moves))
      in map (move_row_of top_plies) (enumerate 0 (take kept (pa_moves position))))"

definition record_of ::
  "nat \<Rightarrow> nat \<Rightarrow> nat \<Rightarrow> recorded_caps \<Rightarrow> position_analysis \<Rightarrow> record_row" where
  "record_of job_id task_id claim_id caps position = \<lparr>
     rc_claim_id = claim_id, rc_task_id = task_id, rc_job_id = job_id, rc_rack = pa_rack position,
     rc_position = pa_position position, rc_game_index = pa_game_index position,
     rc_turn_number = pa_turn_number position, rc_previous_move = pa_previous_move position,
     rc_previous_move_score = pa_previous_move_score position,
     rc_played_move = pa_played_move position,
     rc_played_move_score = pa_played_move_score position, rc_num_moves = pa_num_moves position,
     rc_analysis = analysis_as_str (pa_analysis position),
     rc_moves = stored_moves caps position, rc_inference = pa_inference position\<rparr>"

text \<open>
  The two unique indexes: one position a turn of a task's game, one analysis of a rack a claim.
\<close>

definition same_record :: "record_row \<Rightarrow> record_row \<Rightarrow> bool" where
  "same_record a b \<longleftrightarrow>
     (case (rc_game_index a, rc_game_index b) of
        (Some g, Some h) \<Rightarrow> rc_task_id a = rc_task_id b \<and> g = h \<and> rc_turn_number a = rc_turn_number b
      | (None, None) \<Rightarrow> rc_claim_id a = rc_claim_id b \<and> rc_rack a = rc_rack b
      | _ \<Rightarrow> False)"

fun insert_records :: "record_row list \<Rightarrow> record_row list \<Rightarrow> record_row list app_result" where
  "insert_records records [] = Inr records"
| "insert_records records (r # rs) =
     (if list_ex (same_record r) records then Inl unique_violation
      else insert_records (records @ [r]) rs)"

definition insert_position_analyses ::
  "record_row list \<Rightarrow> nat \<Rightarrow> nat \<Rightarrow> nat \<Rightarrow> position_analysis list \<Rightarrow> recorded_caps \<Rightarrow>
    record_row list app_result" where
  "insert_position_analyses records job_id task_id claim_id positions caps =
     insert_records records (map (record_of job_id task_id claim_id caps) positions)"

record game_result_row =
  gs_claim_id :: nat
  gs_task_id :: nat
  gs_job_id :: nat
  gs_games :: int
  gs_wins :: int
  gs_losses :: int
  gs_ties :: int
  gs_p1_score_mean :: f64
  gs_p1_score_sd :: f64
  gs_p2_score_mean :: f64
  gs_p2_score_sd :: f64
  gs_pent :: "int list option"
  gs_divergent_games :: "int option"
  gs_divergent_wins :: "int option"
  gs_divergent_losses :: "int option"
  gs_divergent_ties :: "int option"
  gs_divergent_p1_score_mean :: "f64 option"
  gs_divergent_p2_score_mean :: "f64 option"

definition game_result_of :: "nat \<Rightarrow> nat \<Rightarrow> nat \<Rightarrow> game_results_record \<Rightarrow> game_result_row" where
  "game_result_of job_id task_id claim_id rr =
     (let all = rr_all_games rr; divergent = rr_divergent_games rr in \<lparr>
        gs_claim_id = claim_id, gs_task_id = task_id, gs_job_id = job_id,
        gs_games = games all, gs_wins = wins all, gs_losses = losses all, gs_ties = ties all,
        gs_p1_score_mean = p1_score_mean all, gs_p1_score_sd = p1_score_sd all,
        gs_p2_score_mean = p2_score_mean all, gs_p2_score_sd = p2_score_sd all,
        gs_pent = map_option (map as_i32) (rr_pentanomial rr),
        gs_divergent_games = map_option games divergent,
        gs_divergent_wins = map_option wins divergent,
        gs_divergent_losses = map_option losses divergent,
        gs_divergent_ties = map_option ties divergent,
        gs_divergent_p1_score_mean = map_option p1_score_mean divergent,
        gs_divergent_p2_score_mean = map_option p2_score_mean divergent\<rparr>)"

definition insert_game_results ::
  "game_result_row list \<Rightarrow> record_row list \<Rightarrow> job_template \<Rightarrow> nat \<Rightarrow> nat \<Rightarrow> game_results_record \<Rightarrow>
    (game_result_row list \<times> record_row list) app_result" where
  "insert_game_results game_results records template task_id claim_id rr =
     (let job_id = jt_job_id template in
      if list_ex (\<lambda>g. gs_claim_id g = claim_id) game_results then Inl unique_violation
      else let stored = game_results @ [game_result_of job_id task_id claim_id rr] in
      if rr_positions rr = [] then Inr (stored, records)
      else and_then
        (case jt_kind template of
           Kind_Games config player1 player2 \<Rightarrow> Inr (player1, player2)
         | Kind_GamePairs config player1 player2 \<Rightarrow> Inr (player1, player2)
         | _ \<Rightarrow> Inl (mismatch ''games''))
        (\<lambda>(player1, player2).
      and_then (insert_position_analyses records job_id task_id claim_id (rr_positions rr) \<lparr>
          caps_player1 = (ps_num_plays_recorded player1, ps_num_plies_recorded player1),
          caps_player2 = (ps_num_plays_recorded player2, ps_num_plies_recorded player2)\<rparr>)
        (\<lambda>records'. Inr (stored, records'))))"

section \<open>Opening racks: the request and the check against it\<close>

record rack_request_row =
  rq_task_id :: nat
  rq_variant :: ustr
  rq_letter_distribution :: ustr
  rq_board_layout :: ustr
  rq_rack_start :: int
  rq_rack_count :: int
  rq_racks :: "ustr list option"
  rq_player_config_id :: nat

definition task_racks :: "rack_index \<Rightarrow> rack_request_row \<Rightarrow> ustr list" where
  "task_racks index row = (case rq_racks row of
     Some racks \<Rightarrow> racks
   | None \<Rightarrow> racks_in_range index (nat (as_u64 (rq_rack_start row))) (nat (as_u64 (rq_rack_count row))))"

definition load_rack_request ::
  "rack_request_row list \<Rightarrow> job_template \<Rightarrow> nat \<Rightarrow> opening_rack_request app_result" where
  "load_rack_request rows template task_id =
     (case jt_kind template of
        Kind_OpeningRack config player index \<Rightarrow>
          and_then (fetch_one (row_with rq_task_id task_id rows)) (\<lambda>row.
            Inr \<lparr>or_variant = rq_variant row, or_letter_distribution = rq_letter_distribution row,
                 or_board_layout = rq_board_layout row, or_racks = task_racks index row,
                 or_seed = as_u64 (rq_rack_start row),
                 or_bingo_bonus = jd_bingo_bonus (jt_data template),
                 or_sim_cutoff = jd_sim_cutoff (jt_data template), or_player = player\<rparr>)
      | _ \<Rightarrow> Inl (mismatch ''opening_rack''))"

definition insert_rack_request ::
  "rack_request_row list \<Rightarrow> nat \<Rightarrow> opening_rack_config \<Rightarrow> job_data \<Rightarrow> int \<Rightarrow> ustr list \<Rightarrow>
    rack_request_row list" where
  "insert_rack_request rows task_id config data start racks = rows @ [\<lparr>
     rq_task_id = task_id, rq_variant = jd_variant data,
     rq_letter_distribution = jd_letterdist_name data, rq_board_layout = jd_layout_name data,
     rq_rack_start = start, rq_rack_count = as_i32 (int (length racks)),
     rq_racks = (if start \<ge> oc_total_racks config then Some racks else None),
     rq_player_config_id = oc_player_config_id config\<rparr>]"

definition check_batch_against_task ::
  "rack_request_row list \<Rightarrow> job_template \<Rightarrow> nat \<Rightarrow> ustr list \<Rightarrow> check" where
  "check_batch_against_task rows template task_id reported =
     (case jt_kind template of
        Kind_OpeningRack config player index \<Rightarrow>
          and_then (fetch_one (row_with rq_task_id task_id rows)) (\<lambda>row.
            let expected = task_racks index row
            in first_error
              [refuse_if (length reported \<noteq> length expected) ''another number of racks than dispatched'',
               refuse_if (list_ex (\<lambda>rack. rack \<notin> set expected) reported)
                 ''a rack this task did not dispatch'',
               refuse_if (\<not> distinct reported) ''a rack twice''])
      | _ \<Rightarrow> Inl (mismatch ''opening_rack''))"

definition process_opening_racks :: "rack_analysis list \<Rightarrow> position_analysis list app_result" where
  "process_opening_racks racks =
     (let analysed = (\<lambda>a. opening_rack_position (ra_rack a) (ra_moves a) (ra_num_moves a))
      in and_then (refuse_if (racks = []) ''position analysis returned no racks'') (\<lambda>_.
         and_then (check_each (\<lambda>a. first_error
           [refuse_if (ra_moves a = []) ''a rack was analyzed with no moves'',
            check_rack (ra_rack a),
            check_moves (ra_moves a) (Some (ra_num_moves a)),
            check_analysis (pa_analysis (analysed a)) (pa_moves (analysed a))]) racks) (\<lambda>_.
           Inr (map analysed racks))))"

section \<open>Opening racks: consensus\<close>

record progress_row =
  pr_job_id :: nat
  pr_rack :: ustr
  pr_results :: int
  pr_top_move :: ustr
  pr_top_count :: int
  pr_settled :: bool
  pr_without_consensus :: bool

record rack_tally =
  rt_analysed :: int
  rt_settled :: int
  rt_without_consensus :: int

record rack_standing =
  sg_results :: int
  sg_top_move :: ustr
  sg_top_count :: int
  sg_settled :: bool
  sg_without_consensus :: bool

text \<open>\<open>top_count * 100.0 >= consensus_pct * results\<close>, over the reals.\<close>

definition share_reached :: "f64 \<Rightarrow> int \<Rightarrow> int \<Rightarrow> bool" where
  "share_reached pct top_count results \<longleftrightarrow> (case pct of
     Fin p \<Rightarrow> of_int top_count * 100 \<ge> p * of_int results
   | NInf \<Rightarrow> results > 0
   | _ \<Rightarrow> False)"

definition agreed :: "consensus_settings \<Rightarrow> int \<Rightarrow> int \<Rightarrow> bool" where
  "agreed config results top_count \<longleftrightarrow>
     results \<ge> cs_min_results_per_rack config \<and> share_reached (cs_consensus_pct config) top_count results"

text \<open>\<open>max_by\<close>: the greater count, and of equal counts the alphabetically first move.\<close>

definition ranks_above :: "ustr \<times> int \<Rightarrow> ustr \<times> int \<Rightarrow> bool" where
  "ranks_above a b \<longleftrightarrow> snd a > snd b \<or> (snd a = snd b \<and> fst a < fst b)"

definition top_of :: "(ustr \<times> int) list \<Rightarrow> (ustr \<times> int) option" where
  "top_of firsts = (case firsts of
     [] \<Rightarrow> None | f # fs \<Rightarrow> Some (foldl (\<lambda>a b. if ranks_above a b then a else b) f fs))"

definition rack_standing_of :: "consensus_settings \<Rightarrow> (ustr \<times> int) list \<Rightarrow> rack_standing option" where
  "rack_standing_of config firsts =
     (let results = sum_list (map snd firsts)
      in map_option (\<lambda>(top_move, top_count).
           let agree = agreed config results top_count;
               settled = agree \<or> results \<ge> cs_max_results_per_rack config
           in \<lparr>sg_results = results, sg_top_move = top_move, sg_top_count = top_count,
               sg_settled = settled, sg_without_consensus = settled \<and> \<not> agree\<rparr>) (top_of firsts))"

text \<open>The rank-1 moves of a rack's stored analyses, and how many ranked each first.\<close>

definition rank_one_moves :: "record_row list \<Rightarrow> nat \<Rightarrow> ustr \<Rightarrow> ustr list" where
  "rank_one_moves records job_id rack =
     concat (map (\<lambda>a. map mv_play (filter (\<lambda>m. mv_rank m = 1) (rc_moves a)))
       (filter (\<lambda>a. rc_job_id a = job_id \<and> rc_game_index a = None \<and> rc_rack a = rack) records))"

definition firsts_of :: "record_row list \<Rightarrow> nat \<Rightarrow> ustr \<Rightarrow> (ustr \<times> int) list" where
  "firsts_of records job_id rack =
     (let plays = rank_one_moves records job_id rack
      in map (\<lambda>p. (p, count_where (\<lambda>q. q = p) plays)) (remdups plays))"

definition progress_of :: "nat \<Rightarrow> ustr \<Rightarrow> rack_standing \<Rightarrow> progress_row" where
  "progress_of job_id rack s = \<lparr>pr_job_id = job_id, pr_rack = rack, pr_results = sg_results s,
     pr_top_move = sg_top_move s, pr_top_count = sg_top_count s, pr_settled = sg_settled s,
     pr_without_consensus = sg_without_consensus s\<rparr>"

definition progress_key :: "progress_row \<Rightarrow> nat \<times> ustr" where
  "progress_key p = (pr_job_id p, pr_rack p)"

text \<open>\<open>ON CONFLICT (job_id, rack) DO UPDATE\<close>.\<close>

definition upsert :: "progress_row \<Rightarrow> progress_row list \<Rightarrow> progress_row list" where
  "upsert row rows =
     (case row_with progress_key (progress_key row) rows of
        None \<Rightarrow> rows @ [row]
      | Some _ \<Rightarrow> update_key progress_key (progress_key row) (\<lambda>_. row) rows)"

definition bool_int :: "bool \<Rightarrow> int" where "bool_int b = (if b then 1 else 0)"

definition tally_rack :: "progress_row option \<Rightarrow> rack_standing \<Rightarrow> rack_tally \<Rightarrow> rack_tally" where
  "tally_rack was s t =
     (let (was_settled, was_without) =
            (case was of Some p \<Rightarrow> (pr_settled p, pr_without_consensus p) | None \<Rightarrow> (False, False))
      in \<lparr>rt_analysed = rt_analysed t + bool_int (was = None),
          rt_settled = rt_settled t + bool_int (sg_settled s) - bool_int was_settled,
          rt_without_consensus = rt_without_consensus t + bool_int (sg_without_consensus s) -
            bool_int was_without\<rparr>)"

definition no_tally :: rack_tally where
  "no_tally = \<lparr>rt_analysed = 0, rt_settled = 0, rt_without_consensus = 0\<rparr>"

text \<open>
  The loop over the batch's racks, once each, and the upsert of their rows.  Each rack's row is read
  before any is written; a rack occurs once, so reading it from the rows written so far is the same.
\<close>

fun record_racks ::
  "consensus_settings \<Rightarrow> record_row list \<Rightarrow> nat \<Rightarrow> ustr list \<Rightarrow> progress_row list \<Rightarrow> rack_tally \<Rightarrow>
    (progress_row list \<times> rack_tally) app_result" where
  "record_racks config records job_id [] rows tally = Inr (rows, tally)"
| "record_racks config records job_id (rack # racks) rows tally =
     (case rack_standing_of config (firsts_of records job_id rack) of
        None \<Rightarrow> Inl (Internal ''a rack has no stored analysis'')
      | Some s \<Rightarrow> record_racks config records job_id racks
          (upsert (progress_of job_id rack s) rows)
          (tally_rack (row_with progress_key (job_id, rack) rows) s tally))"

definition record_consensus ::
  "consensus_settings \<Rightarrow> record_row list \<Rightarrow> progress_row list \<Rightarrow> nat \<Rightarrow> ustr list \<Rightarrow>
    (progress_row list \<times> rack_tally) app_result" where
  "record_consensus config records rows job_id racks =
     record_racks config records job_id (remdups racks) rows no_tally"

definition restate_row :: "consensus_settings \<Rightarrow> progress_row \<Rightarrow> progress_row" where
  "restate_row config p =
     (let agree = agreed config (pr_results p) (pr_top_count p);
          at_most = pr_results p \<ge> cs_max_results_per_rack config
      in p\<lparr>pr_settled := agree \<or> at_most, pr_without_consensus := at_most \<and> \<not> agree\<rparr>)"

definition restate_racks ::
  "job_row list \<Rightarrow> progress_row list \<Rightarrow> nat \<Rightarrow> consensus_settings \<Rightarrow>
    job_row list \<times> progress_row list \<times> int" where
  "restate_racks jobs rows job_id config =
     (let rows' = update_where (\<lambda>p. pr_job_id p = job_id) (restate_row config) rows;
          n = (\<lambda>P. count_where (\<lambda>p. pr_job_id p = job_id \<and> P p) rows')
      in (update_key j_id job_id (\<lambda>j. j\<lparr>j_racks_settled := n pr_settled,
            j_racks_without_consensus := n pr_without_consensus\<rparr>) jobs,
          rows', n (\<lambda>p. \<not> pr_settled p)))"

section \<open>Opening racks: the next task\<close>

definition REISSUE_WINDOW_BATCHES :: int where "REISSUE_WINDOW_BATCHES = 4"

definition racks_in_flight :: "db \<Rightarrow> rack_request_row list \<Rightarrow> nat \<Rightarrow> opening_rack_config \<Rightarrow> ustr list" where
  "racks_in_flight db requests job_id config =
     (let open_tasks =
            map t_id (filter (\<lambda>t. t_job_id t = job_id \<and> t_state t = T_available \<and>
              t_seed t \<ge> oc_total_racks config) (db_tasks db)) @
            map c_task_id (filter (\<lambda>c. c_job_id c = job_id \<and> c_state c = C_claimed) (db_claims db))
      in remdups (concat (map (\<lambda>r. case rq_racks r of
           Some racks \<Rightarrow> if rq_task_id r \<in> set open_tasks then racks else [] | None \<Rightarrow> []) requests)))"

definition analysed_by :: "record_row list \<Rightarrow> claim_row list \<Rightarrow> nat \<Rightarrow> owner \<Rightarrow> ustr \<Rightarrow> bool" where
  "analysed_by records claims job_id owner rack \<longleftrightarrow>
     list_ex (\<lambda>a. rc_job_id a = job_id \<and> rc_game_index a = None \<and> rc_rack a = rack \<and>
       list_ex (\<lambda>c. c_id c = rc_claim_id a \<and> c_claimed_by c = owner) claims) records"

definition reissue_candidates ::
  "db \<Rightarrow> rack_request_row list \<Rightarrow> progress_row list \<Rightarrow> nat \<Rightarrow> opening_rack_config \<Rightarrow> progress_row list" where
  "reissue_candidates db requests rows job_id config =
     sort_key (\<lambda>p. (pr_results p, pr_rack p)) (filter (\<lambda>p. pr_job_id p = job_id \<and> \<not> pr_settled p \<and>
       pr_rack p \<notin> set (racks_in_flight db requests job_id config)) rows)"

definition next_reissue ::
  "db \<Rightarrow> rack_request_row list \<Rightarrow> record_row list \<Rightarrow> progress_row list \<Rightarrow> nat \<Rightarrow>
    opening_rack_config \<Rightarrow> owner \<Rightarrow> ustr list" where
  "next_reissue db requests records rows job_id config owner =
     (let window = take (nat (oc_racks_per_batch config * REISSUE_WINDOW_BATCHES))
            (reissue_candidates db requests rows job_id config)
      in map pr_rack (take (nat (oc_racks_per_batch config))
        (sort_key (\<lambda>p. (analysed_by records (db_claims db) job_id owner (pr_rack p),
            pr_results p, pr_rack p)) window)))"

definition next_start :: "int list \<Rightarrow> int \<Rightarrow> int" where
  "next_start seeds batch = (case max_of seeds of None \<Rightarrow> 0 | Some m \<Rightarrow> m + batch)"

text \<open>\<open>settings\<close> is the job's row of \<open>job_opening_rack_config\<close> as it stands now.\<close>

definition next_rack_request ::
  "db \<Rightarrow> rack_request_row list \<Rightarrow> record_row list \<Rightarrow> progress_row list \<Rightarrow> nat \<Rightarrow>
    opening_rack_config \<Rightarrow> consensus_settings option \<Rightarrow> job_data \<Rightarrow> rack_index \<Rightarrow> player_spec \<Rightarrow>
    owner \<Rightarrow> (int \<times> opening_rack_request) option app_result" where
  "next_rack_request db requests records rows job_id config settings data index player owner =
     (let start = next_start (map t_seed (filter (\<lambda>t. t_job_id t = job_id) (db_tasks db)))
            (oc_racks_per_batch config)
      in and_then
        (if start < oc_total_racks config
         then Inr (racks_in_range index (nat (as_u64 start)) (nat (as_u64 (oc_racks_per_batch config))))
         else and_then (fetch_one settings) (\<lambda>s.
           Inr (if reissues s then next_reissue db requests records rows job_id config owner else [])))
        (\<lambda>racks. Inr (if racks = [] then None
          else Some (start, \<lparr>or_variant = jd_variant data,
            or_letter_distribution = jd_letterdist_name data, or_board_layout = jd_layout_name data,
            or_racks = racks, or_seed = as_u64 start, or_bingo_bonus = jd_bingo_bonus data,
            or_sim_cutoff = jd_sim_cutoff data, or_player = player\<rparr>))))"

end
