(* ===== verification/Leaves.thy ===== *)
theory Leaves
  imports Results
begin

text \<open>
  The part of \<open>jobs/leave_gen.rs\<close> a submission runs: the spelling and checks of the racks its games
  drew, the credit of the claim, and the row staged for the generation's next merge; and the tables
  of leave generation.  Selecting racks, merging, and closing a generation are in \<open>Leave_Gen\<close>.
\<close>

definition MAX_RACK_BYTES :: nat where "MAX_RACK_BYTES = 7 * 4"

definition spell_as_the_universe :: "ustr \<Rightarrow> ustr" where
  "spell_as_the_universe rack =
     (if utf8_len rack > MAX_RACK_BYTES \<or> list_ex (\<lambda>c. c = 91 \<or> c = 93) rack then rack else sort rack)"

definition process_leave :: "rack_occurrence list \<Rightarrow> rack_occurrence list app_result" where
  "process_leave racks =
     and_then (refuse_if (racks = []) ''leave result carried no rack occurrences'') (\<lambda>_.
       let spelled = map (\<lambda>r. r\<lparr>ro_rack := spell_as_the_universe (ro_rack r)\<rparr>) racks
       in and_then (check_rack_occurrences spelled) (\<lambda>_. Inr spelled))"

section \<open>The tables\<close>

record leave_request_row =
  lq_task_id :: nat
  lq_variant :: ustr
  lq_letter_distribution :: ustr
  lq_board_layout :: ustr
  lq_generation :: int
  lq_seed :: int
  lq_forced_racks :: "ustr list"
  lq_num_games :: int
  lq_previous_artifact_key :: ustr
  lq_player_config_id :: nat

record leave_record_row =
  ld_claim_id :: nat
  ld_task_id :: nat
  ld_rack_count :: int

record staging_row =
  sr_id :: nat
  sr_job_id :: nat
  sr_generation :: int
  sr_task_id :: nat
  sr_racks :: "ustr list"
  sr_counts :: "int list"
  sr_equity_sums :: "f64 list"

text \<open>\<open>leave_rack_progress\<close>: what a generation has seen of each rack of its universe.\<close>

record rack_row =
  rp_job_id :: nat
  rp_generation :: int
  rp_rack :: ustr
  rp_count :: int
  rp_equity_sum :: f64

text \<open>\<open>leave_generation_progress\<close>: live counters, and the summary of the last merge.\<close>

record generation_row =
  gn_job_id :: nat
  gn_generation :: int
  gn_tasks_completed :: int
  gn_games_played :: int
  gn_racks_total :: int
  gn_racks_at_target :: int
  gn_min_rack :: "ustr option"
  gn_min_rack_count :: "int option"
  gn_merged_at :: "time option"

text \<open>\<open>leave_selection_cursors\<close>: with a rack while a lap is under way, without one in the tail.\<close>

record cursor_row =
  cu_job_id :: nat
  cu_generation :: int
  cu_rack :: "ustr option"

record transition_row =
  tr_job_id :: nat
  tr_generation :: int
  tr_started_at :: time
  tr_completed_at :: "time option"
  tr_attempts :: int

record artifact_row =
  af_job_id :: nat
  af_generation :: int
  af_key :: ustr
  af_sha256 :: ustr
  af_served_sha256 :: "ustr option"
  af_builder :: ustr

text \<open>The tables of leave generation; \<open>lv_next_staging_id\<close> is the sequence of the staging table.\<close>

record leave_store =
  lv_requests :: "leave_request_row list"
  lv_records :: "leave_record_row list"
  lv_staging :: "staging_row list"
  lv_next_staging_id :: nat
  lv_racks :: "rack_row list"
  lv_generations :: "generation_row list"
  lv_cursors :: "cursor_row list"
  lv_transitions :: "transition_row list"
  lv_artifacts :: "artifact_row list"

definition generation_key :: "generation_row \<Rightarrow> nat \<times> int" where
  "generation_key g = (gn_job_id g, gn_generation g)"

definition cursor_key :: "cursor_row \<Rightarrow> nat \<times> int" where
  "cursor_key c = (cu_job_id c, cu_generation c)"

definition transition_key :: "transition_row \<Rightarrow> nat \<times> int" where
  "transition_key t = (tr_job_id t, tr_generation t)"

definition artifact_row_key :: "artifact_row \<Rightarrow> nat \<times> int" where
  "artifact_row_key a = (af_job_id a, af_generation a)"

text \<open>\<open>INSERT ... ON CONFLICT DO UPDATE\<close>.\<close>

definition insert_or_update ::
  "('r \<Rightarrow> 'k) \<Rightarrow> 'k \<Rightarrow> 'r \<Rightarrow> ('r \<Rightarrow> 'r) \<Rightarrow> 'r list \<Rightarrow> 'r list" where
  "insert_or_update key k fresh f rows =
     (case row_with key k rows of None \<Rightarrow> rows @ [fresh] | Some _ \<Rightarrow> update_key key k f rows)"

section \<open>A submission\<close>

definition credit_claim :: "leave_store \<Rightarrow> nat \<Rightarrow> nat \<Rightarrow> rack_occurrence list \<Rightarrow> leave_store app_result" where
  "credit_claim lv task_id claim_id racks =
     (if list_ex (\<lambda>r. ld_claim_id r = claim_id) (lv_records lv) then Inl unique_violation
      else Inr (lv\<lparr>lv_records := lv_records lv @ [\<lparr>ld_claim_id = claim_id, ld_task_id = task_id,
        ld_rack_count = as_i32 (int (length racks))\<rparr>]\<rparr>))"

text \<open>\<open>o.mean * o.count as f64\<close>, over the reals.\<close>

fun f64_times :: "f64 \<Rightarrow> int \<Rightarrow> f64" where
  "f64_times (Fin x) n = Fin (x * of_int n)"
| "f64_times PInf n = (if n > 0 then PInf else if n < 0 then NInf else NaN)"
| "f64_times NInf n = (if n > 0 then NInf else if n < 0 then PInf else NaN)"
| "f64_times NaN n = NaN"

text \<open>A row of a generation's progress as an insert that names none of its columns makes it.\<close>

definition new_generation :: "nat \<Rightarrow> int \<Rightarrow> generation_row" where
  "new_generation job_id generation = \<lparr>gn_job_id = job_id, gn_generation = generation,
     gn_tasks_completed = 0, gn_games_played = 0, gn_racks_total = 0, gn_racks_at_target = 0,
     gn_min_rack = None, gn_min_rack_count = None, gn_merged_at = None\<rparr>"

definition count_generation ::
  "nat \<Rightarrow> int \<Rightarrow> int \<Rightarrow> generation_row list \<Rightarrow> generation_row list" where
  "count_generation job_id generation num_games =
     insert_or_update generation_key (job_id, generation)
       ((new_generation job_id generation)\<lparr>gn_tasks_completed := 1, gn_games_played := num_games\<rparr>)
       (\<lambda>g. g\<lparr>gn_tasks_completed := gn_tasks_completed g + 1,
              gn_games_played := gn_games_played g + num_games\<rparr>)"

definition stage_fold :: "leave_store \<Rightarrow> nat \<Rightarrow> nat \<Rightarrow> rack_occurrence list \<Rightarrow> leave_store app_result" where
  "stage_fold lv job_id task_id racks =
     and_then (fetch_one (row_with lq_task_id task_id (lv_requests lv))) (\<lambda>row.
       if row_with artifact_row_key (job_id, lq_generation row) (lv_artifacts lv) \<noteq> None then Inr lv
       else Inr (lv\<lparr>
         lv_staging := lv_staging lv @ [\<lparr>sr_id = lv_next_staging_id lv, sr_job_id = job_id,
           sr_generation = lq_generation row, sr_task_id = task_id, sr_racks = map ro_rack racks, sr_counts = map ro_count racks,
           sr_equity_sums = map (\<lambda>r. f64_times (ro_mean r) (ro_count r)) racks\<rparr>],
         lv_next_staging_id := lv_next_staging_id lv + 1,
         lv_generations := count_generation job_id (lq_generation row) (lq_num_games row)
           (lv_generations lv)\<rparr>))"

definition insert_leave_record ::
  "leave_store \<Rightarrow> job_template \<Rightarrow> nat \<Rightarrow> nat \<Rightarrow> rack_occurrence list \<Rightarrow> leave_store app_result" where
  "insert_leave_record lv template task_id claim_id racks =
     and_then (credit_claim lv task_id claim_id racks)
       (\<lambda>lv'. stage_fold lv' (jt_job_id template) task_id racks)"

end
