(* ===== verification/Submit.thy ===== *)
theory Submit
  imports Leaves
begin

text \<open>
  \<open>routes/worker.rs\<close> and the result half of \<open>jobs/registry.rs\<close>: a claim declined, kept alive, and
  completed by a result, from the request to the commit.  A lock whose bounded wait runs out, a pool
  with no connection and the turn a large result waits for answer a 503 and change nothing; they are
  not modelled.
\<close>

section \<open>The server's state\<close>

record server =
  sv_db :: db
  sv_records :: "record_row list"
  sv_game_results :: "game_result_row list"
  sv_progress :: "progress_row list"
  sv_rack_requests :: "rack_request_row list"
  sv_game_requests :: "game_request_row list"
  sv_leaves :: leave_store
  sv_catalogue :: catalogue
  sv_templates :: job_templates
  sv_holds :: holds_inner
  sv_reclaim_from :: time
  sv_heartbeat_timeout :: time

section \<open>Finding the claim of a request\<close>

text \<open>
  The open claim with the token and the identity it was issued to, joined to its task.
\<close>

definition claim_of :: "db \<Rightarrow> nat \<Rightarrow> owner \<Rightarrow> claim_row option" where
  "claim_of db token owner =
     find (\<lambda>c. c_claim_token c = token \<and> c_state c = C_claimed \<and> c_claimed_by c = owner) (db_claims db)"

definition open_claim :: "db \<Rightarrow> nat \<Rightarrow> worker_identity \<Rightarrow> (claim_row \<times> task_row) option" where
  "open_claim db token identity =
     (case claim_of db token (owner_of identity) of
        None \<Rightarrow> None
      | Some c \<Rightarrow> map_option (Pair c) (row_with t_id (c_task_id c) (db_tasks db)))"

definition claims_held_error :: app_error where
  "claims_held_error = Unavailable ''this claim's job is being purged, deleted or edited''"

definition refuse_if_claims_held :: "db \<Rightarrow> holds_inner \<Rightarrow> nat \<Rightarrow> check" where
  "refuse_if_claims_held db holds token =
     (if \<not> any_claims_held holds then ok
      else case find (\<lambda>c. c_claim_token c = token) (db_claims db) of
             None \<Rightarrow> ok
           | Some c \<Rightarrow>
               (case row_with t_id (c_task_id c) (db_tasks db) of
                  None \<Rightarrow> ok
                | Some t \<Rightarrow> if claims_held holds (t_job_id t) then Inl claims_held_error else ok))"

section \<open>Heartbeats\<close>

definition heartbeat :: "db \<Rightarrow> worker_identity \<Rightarrow> nat \<Rightarrow> nat list \<Rightarrow> time \<Rightarrow> db app_result" where
  "heartbeat db identity token locked now =
     and_then (require_registered identity) (\<lambda>_.
       Inr (db\<lparr>db_claims := update_where (\<lambda>c. c_claim_token c = token \<and> c_state c = C_claimed \<and>
           c_claimed_by c = owner_of identity \<and> c_id c \<notin> set locked)
         (\<lambda>c. c\<lparr>c_last_heartbeat_at := Some now\<rparr>) (db_claims db)\<rparr>))"

section \<open>Declining\<close>

definition DECLINE_REASONS :: "ustr list" where
  "DECLINE_REASONS = map lit [''missing_data'', ''magpie_version'', ''unknown_job_type'', ''derived_mismatch'',
     ''task_failed'', ''time_limit'']"

definition MAX_MISSING_FILES :: nat where "MAX_MISSING_FILES = 32"
definition MAX_GAP_FIELD_CHARS :: nat where "MAX_GAP_FIELD_CHARS = 128"

record missing_file =
  mf_role :: ustr
  mf_name :: ustr
  mf_expected :: ustr
  mf_actual :: "ustr option"

definition bounded :: "ustr \<Rightarrow> ustr" where
  "bounded s = take MAX_GAP_FIELD_CHARS s"

definition has_nul :: "ustr \<Rightarrow> bool" where
  "has_nul s \<longleftrightarrow> 0 \<in> set s"

definition file_has_nul :: "missing_file \<Rightarrow> bool" where
  "file_has_nul f \<longleftrightarrow> has_nul (mf_role f) \<or> has_nul (mf_name f) \<or> has_nul (mf_expected f) \<or>
     (case mf_actual f of None \<Rightarrow> False | Some a \<Rightarrow> has_nul a)"

definition gap_of :: "nat \<Rightarrow> nat \<Rightarrow> missing_file \<Rightarrow> gap_row" where
  "gap_of job_id claim_id f = \<lparr>g_job_id = job_id, g_claim_id = claim_id, g_role = bounded (mf_role f),
     g_name = bounded (mf_name f), g_expected = bounded (mf_expected f),
     g_actual = map_option bounded (mf_actual f)\<rparr>"

definition decline_task ::
  "db \<Rightarrow> holds_inner \<Rightarrow> worker_identity \<Rightarrow> nat \<Rightarrow> ustr \<Rightarrow> missing_file list \<Rightarrow> time \<Rightarrow> time \<Rightarrow>
    db app_result" where
  "decline_task db holds identity token reason missing heartbeat_timeout now =
     and_then (first_error
       [require_registered identity,
        refuse_if (reason \<notin> set DECLINE_REASONS) ''not one of the reasons'',
        refuse_if (list_ex file_has_nul missing) ''a missing file's description holds a NUL character'',
        refuse_if_claims_held db holds token]) (\<lambda>_.
     and_then (ok_or (open_claim db token identity)
       (Not_found ''no open claim with that token'')) (\<lambda>(c, t).
       let job_id = t_job_id t;
           db1 = fst (release_claim db (c_id c) C_declined);
           db2 = (if reason = lit ''task_failed'' \<or> reason = lit ''time_limit'' then db1
             else db1\<lparr>db_jobs := unsettle (db_jobs db1) job_id heartbeat_timeout now\<rparr>)
       in and_then (if reason = lit ''time_limit'' then record_time_limit db2 job_id (Some (limit_secs c))
            else Inr (db2, False)) (\<lambda>(db3, aside).
          Inr (db3\<lparr>db_gaps := db_gaps db3 @
                 map (gap_of job_id (c_id c)) (take MAX_MISSING_FILES missing),
               db_audit := log_worker_detail (lit ''task.declined'') (owner_of identity) (lit ''claim'')
                 (c_id c) (Some job_id) reason (db_audit db3)\<rparr>))))"

section \<open>The fields beside a result\<close>

text \<open>A JSON value, as far as the handlers look into one.\<close>

datatype json = J_null | J_bool bool | J_int int | J_float f64 | J_string ustr | J_array "json list" | J_object

definition derived_role :: "json \<Rightarrow> ustr option" where
  "derived_role v = (case v of
     J_string s \<Rightarrow> if s = lit ''wmp'' \<or> s = lit ''wit'' \<or> s = lit ''rit'' then Some s else None
   | _ \<Rightarrow> None)"

definition derived_skipped_of :: "json option \<Rightarrow> ustr list option app_result" where
  "derived_skipped_of v =
     (let refuse = Inl (Bad_request ''derived_skipped must be a list of wmp, wit and rit'')
      in case v of
           None \<Rightarrow> Inr None
         | Some J_null \<Rightarrow> Inr None
         | Some (J_array items) \<Rightarrow>
             if list_ex (\<lambda>i. derived_role i = None) items then refuse
             else let roles = remdups (sort (map (\<lambda>i. the (derived_role i)) items))
                  in Inr (if roles = [] then None else Some roles)
         | Some _ \<Rightarrow> refuse)"

definition movegens_of :: "json option \<Rightarrow> int app_result" where
  "movegens_of v =
     (case v of
        None \<Rightarrow> Inl (Bad_request ''movegens is required'')
      | Some J_null \<Rightarrow> Inl (Bad_request ''movegens is required'')
      | Some (J_int n) \<Rightarrow>
          if in_i64 n \<and> n \<ge> 0 then Inr n
          else Inl (Bad_request ''movegens must be a whole number from 0 to 9223372036854775807'')
      | Some (J_float x) \<Rightarrow>
          Inl (Bad_request ''movegens must be a whole number from 0 to 9223372036854775807'')
      | Some _ \<Rightarrow> Inl (Bad_request ''movegens must be a whole number''))"

definition MAX_MOVEGENS_PER_MS :: int where "MAX_MOVEGENS_PER_MS = 1000000"

section \<open>Decoding a result\<close>

text \<open>
  \<open>serde_json::from_str\<close> into the response type of each kind of job is a parameter: what it answers for
  a payload, or nothing for a payload it refuses.
\<close>

record serde =
  parse_racks :: "ustr \<Rightarrow> rack_analysis list option"
  parse_games :: "ustr \<Rightarrow> game_results_response option"
  parse_leave :: "ustr \<Rightarrow> rack_occurrence list option"

datatype decoded_result =
    Decoded_OpeningRack "position_analysis list"
  | Decoded_Games game_results_record
  | Decoded_GamePairs game_results_record
  | Decoded_LeaveGeneration "rack_occurrence list"

definition decode :: "('a \<Rightarrow> 'b option) \<Rightarrow> 'a \<Rightarrow> 'b app_result" where
  "decode read payload = ok_or (read payload) (Bad_request ''malformed task response'')"

text \<open>\<open>i16::try_from(g)\<close> of a game of the batch, among those the positions name.\<close>

definition covers_game :: "position_analysis list \<Rightarrow> int \<Rightarrow> bool" where
  "covers_game positions g \<longleftrightarrow> in_i16 g \<and> list_ex (\<lambda>p. pa_game_index p = Some g) positions"

definition refuse_uncaptured_positions :: "bool \<Rightarrow> position_analysis list \<Rightarrow> int \<Rightarrow> check" where
  "refuse_uncaptured_positions capture positions n =
     first_error
       [refuse_if (\<not> capture \<and> positions \<noteq> []) ''this job does not capture positions'',
        refuse_if (capture \<and> \<not> list_all (covers_game positions) [0..n - 1])
          ''this job captures positions, and the result has none from a game'']"

definition decode_result :: "serde \<Rightarrow> job_template \<Rightarrow> ustr \<Rightarrow> decoded_result app_result" where
  "decode_result serde template payload =
     (case jt_kind template of
        Kind_OpeningRack config player index \<Rightarrow>
          and_then (decode (parse_racks serde) payload) (\<lambda>response.
          and_then (process_opening_racks response) (\<lambda>positions.
          and_then (check_analyses_against_players positions [player]) (\<lambda>_.
            Inr (Decoded_OpeningRack positions))))
      | Kind_Games config player1 player2 \<Rightarrow>
          and_then (decode (parse_games serde) payload) (\<lambda>response.
          and_then (process_games response) (\<lambda>rr.
          and_then (first_error
            [check_batch_size (games (rr_all_games rr)) (games_dispatched (gc_games_per_batch config) False),
             refuse_uncaptured_positions (gc_capture_positions config) (rr_positions rr)
               (games (rr_all_games rr)),
             check_analyses_against_players (rr_positions rr) [player1, player2]]) (\<lambda>_.
            Inr (Decoded_Games rr))))
      | Kind_GamePairs config player1 player2 \<Rightarrow>
          and_then (decode (parse_games serde) payload) (\<lambda>response.
          and_then (process_game_pairs response) (\<lambda>rr.
          and_then (first_error
            [check_batch_size (games (rr_all_games rr)) (games_dispatched (pg_pairs_per_batch config) True),
             (if pg_capture_first_divergence config
              then check_first_divergences (rr_positions rr) (rr_divergent_games rr)
              else refuse_uncaptured_positions (pg_capture_positions config) (rr_positions rr)
                (games (rr_all_games rr))),
             check_analyses_against_players (rr_positions rr) [player1, player2]]) (\<lambda>_.
            Inr (Decoded_GamePairs rr))))
      | Kind_LeaveGeneration config player \<Rightarrow>
          and_then (decode (parse_leave serde) payload) (\<lambda>response.
          and_then (process_leave response) (\<lambda>racks.
          and_then (check_rack_occurrence_total racks (lc_num_iterations config)) (\<lambda>_.
            Inr (Decoded_LeaveGeneration racks)))))"

section \<open>Storing a result\<close>

record progress_delta =
  pd_games_completed :: int
  pd_racks_analyzed :: int
  pd_racks_settled :: int
  pd_racks_without_consensus :: int

definition no_progress :: progress_delta where
  "no_progress = \<lparr>pd_games_completed = 0, pd_racks_analyzed = 0, pd_racks_settled = 0,
     pd_racks_without_consensus = 0\<rparr>"

definition store_opening_racks ::
  "server \<Rightarrow> job_template \<Rightarrow> nat \<Rightarrow> nat \<Rightarrow> position_analysis list \<Rightarrow> (server \<times> progress_delta) app_result" where
  "store_opening_racks sv template task_id claim_id positions =
     (let racks = map pa_rack positions; job_id = jt_job_id template in
      and_then (check_batch_against_task (sv_rack_requests sv) template task_id racks) (\<lambda>_.
      case jt_kind template of
        Kind_OpeningRack config player index \<Rightarrow>
          and_then (insert_position_analyses (sv_records sv) job_id task_id claim_id positions
            (caps_one (ps_num_plays_recorded player) (ps_num_plies_recorded player))) (\<lambda>records.
          and_then (fetch_one (map_of (cat_opening_rack (sv_catalogue sv)) job_id)) (\<lambda>settings.
          and_then (record_consensus (consensus settings) records (sv_progress sv) job_id racks)
            (\<lambda>(rows, tally).
            Inr (sv\<lparr>sv_records := records, sv_progress := rows\<rparr>,
              no_progress\<lparr>pd_racks_analyzed := rt_analysed tally, pd_racks_settled := rt_settled tally,
                pd_racks_without_consensus := rt_without_consensus tally\<rparr>))))
      | _ \<Rightarrow> Inl (mismatch ''opening_rack'')))"

definition store_games ::
  "server \<Rightarrow> job_template \<Rightarrow> nat \<Rightarrow> nat \<Rightarrow> game_results_record \<Rightarrow> (server \<times> progress_delta) app_result" where
  "store_games sv template task_id claim_id rr =
     and_then (insert_game_results (sv_game_results sv) (sv_records sv) template task_id claim_id rr)
       (\<lambda>(game_results, records).
         Inr (sv\<lparr>sv_game_results := game_results, sv_records := records\<rparr>,
           no_progress\<lparr>pd_games_completed := games (rr_all_games rr)\<rparr>))"

definition store_result ::
  "server \<Rightarrow> job_template \<Rightarrow> nat \<Rightarrow> nat \<Rightarrow> decoded_result \<Rightarrow> (server \<times> progress_delta) app_result" where
  "store_result sv template task_id claim_id decoded =
     (case decoded of
        Decoded_OpeningRack positions \<Rightarrow> store_opening_racks sv template task_id claim_id positions
      | Decoded_Games rr \<Rightarrow> store_games sv template task_id claim_id rr
      | Decoded_GamePairs rr \<Rightarrow> store_games sv template task_id claim_id rr
      | Decoded_LeaveGeneration racks \<Rightarrow>
          (case jt_kind template of
             Kind_LeaveGeneration config player \<Rightarrow>
               and_then (insert_leave_record (sv_leaves sv) template task_id claim_id racks) (\<lambda>lv.
                 Inr (sv\<lparr>sv_leaves := lv\<rparr>, no_progress))
           | _ \<Rightarrow> Inl (mismatch ''leave_generation'')))"

section \<open>Completing a claim\<close>

text \<open>\<open>CLAIM_COMPUTE_MS\<close>: whole milliseconds the claim was held, never negative.\<close>

definition claim_compute_ms :: "time \<Rightarrow> claim_row \<Rightarrow> int" where
  "claim_compute_ms completed_at c = max (round_div (completed_at - c_claimed_at c) 1000) 0"

definition complete_claim :: "int \<Rightarrow> ustr list option \<Rightarrow> time \<Rightarrow> claim_row \<Rightarrow> claim_row" where
  "complete_claim movegens derived_skipped now c = c\<lparr>c_state := C_completed,
     c_completed_at := Some now, c_movegens := movegens, c_derived_skipped := derived_skipped\<rparr>"

definition complete_task :: "time \<Rightarrow> task_row \<Rightarrow> task_row" where
  "complete_task now t = t\<lparr>t_accepted_count := t_accepted_count t + 1,
     t_active_claim_count := max (t_active_claim_count t - 1) 0, t_state := T_completed,
     t_completed_at := (case t_completed_at t of Some u \<Rightarrow> Some u | None \<Rightarrow> Some now)\<rparr>"

definition credit :: "int \<Rightarrow> int \<Rightarrow> time \<Rightarrow> contributor_row \<Rightarrow> contributor_row" where
  "credit compute_ms movegens now k = k\<lparr>k_tasks_completed := k_tasks_completed k + 1,
     k_compute_ms := k_compute_ms k + compute_ms, k_movegens := k_movegens k + movegens,
     k_last_completed_at := Some now\<rparr>"

definition counts_something :: "progress_delta \<Rightarrow> bool \<Rightarrow> int \<Rightarrow> int \<Rightarrow> time \<Rightarrow> job_row \<Rightarrow> bool" where
  "counts_something p task_completed movegens compute_ms now j \<longleftrightarrow>
     pd_games_completed p \<noteq> 0 \<or> pd_racks_analyzed p \<noteq> 0 \<or> task_completed \<or> pd_racks_settled p \<noteq> 0 \<or>
     pd_racks_without_consensus p \<noteq> 0 \<or> movegens \<noteq> 0 \<or> compute_ms \<noteq> 0 \<or>
     (case j_last_completed_at j of None \<Rightarrow> True | Some t \<Rightarrow> t < now - 60000000)"

definition count_result :: "progress_delta \<Rightarrow> bool \<Rightarrow> int \<Rightarrow> int \<Rightarrow> time \<Rightarrow> job_row \<Rightarrow> job_row" where
  "count_result p task_completed movegens compute_ms now j = j\<lparr>
     j_games_completed := j_games_completed j + pd_games_completed p,
     j_racks_analyzed := j_racks_analyzed j + pd_racks_analyzed p,
     j_tasks_completed := j_tasks_completed j + (if task_completed then 1 else 0),
     j_racks_settled := j_racks_settled j + pd_racks_settled p,
     j_racks_without_consensus := j_racks_without_consensus j + pd_racks_without_consensus p,
     j_movegens := j_movegens j + movegens,
     j_compute_ms := j_compute_ms j + compute_ms,
     j_time_limit_streak := 0,
     j_time_limit_streak_since := Some now,
     j_last_completed_at := Some now\<rparr>"

text \<open>
  The statements from the claim's completion to the commit, with what the result adds to the job's
  totals.  \<open>Inl\<close> rolls everything back, the stored result included.
\<close>

definition complete_submission ::
  "db \<Rightarrow> claim_row \<Rightarrow> nat \<Rightarrow> progress_delta \<Rightarrow> int \<Rightarrow> ustr list option \<Rightarrow> time \<Rightarrow> db app_result" where
  "complete_submission db c job_id p movegens derived_skipped now =
     (let compute_ms = claim_compute_ms now c;
          task_id = c_task_id c
      in if movegens > sat_i64 (max compute_ms 1 * MAX_MOVEGENS_PER_MS)
         then Inl (Bad_request ''movegens is more than any machine generates in the time held'')
         else and_then (fetch_one (row_with t_id task_id (db_tasks db))) (\<lambda>t.
           let task_completed = (t_accepted_count (complete_task now t) = 1)
           in Inr (db\<lparr>
             db_claims := update_key c_id (c_id c) (complete_claim movegens derived_skipped now)
               (db_claims db),
             db_tasks := update_key t_id task_id (complete_task now) (db_tasks db),
             db_contributors := update_key k_owner (c_claimed_by c) (credit compute_ms movegens now)
               (db_contributors db),
             db_jobs := update_where (\<lambda>j. j_id j = job_id \<and>
                 counts_something p task_completed movegens compute_ms now j)
               (count_result p task_completed movegens compute_ms now) (db_jobs db)\<rparr>)))"

text \<open>A result past its claim's deadline and the grace: an overrun, counted at once.\<close>

definition refuse_late :: "db \<Rightarrow> claim_row \<Rightarrow> nat \<Rightarrow> db app_result" where
  "refuse_late db c job_id =
     (let db1 = fst (release_claim db (c_id c) C_abandoned);
          db2 = db1\<lparr>db_claims := update_key c_id (c_id c)
            (\<lambda>c. c\<lparr>c_overrun := Some Overrun_pending\<rparr>) (db_claims db1)\<rparr>
      in and_then (record_time_limit db2 job_id None) (\<lambda>(db3, aside). Inr db3))"

section \<open>Submitting\<close>

record result_body =
  rb_claim_token :: nat
  rb_result :: ustr
  rb_movegens :: "json option"
  rb_derived_skipped :: "json option"

text \<open>
  \<open>submit_result\<close>, up to the commit: the answer's \<open>accepted\<close>, and the server after it.  The claim is
  looked up without a lock for its job, and again inside the transaction, which starts at \<open>now\<close>; the
  transaction is a definition of its own, since other transactions may commit in between.
\<close>

definition submit_checks ::
  "server \<Rightarrow> serde \<Rightarrow> job_row \<Rightarrow> result_body \<Rightarrow> time \<Rightarrow>
    (job_template \<times> decoded_result \<times> int \<times> ustr list option) app_result \<times> job_templates" where
  "submit_checks sv serde j body inst =
     (let tc = sv_templates sv in
      if claims_held (sv_holds sv) (j_id j) then (Inl claims_held_error, tc)
      else case movegens_of (rb_movegens body) of
        Inl e \<Rightarrow> (Inl e, tc)
      | Inr movegens \<Rightarrow>
         (case derived_skipped_of (rb_derived_skipped body) of
            Inl e \<Rightarrow> (Inl e, tc)
          | Inr derived_skipped \<Rightarrow>
             (let (loaded, tc') = get_or_load tc (sv_catalogue sv) inst j
              in (and_then loaded (\<lambda>template.
                    and_then (refuse_nul (rb_result body)) (\<lambda>_.
                    and_then (decode_result serde template (rb_result body)) (\<lambda>decoded.
                      Inr (template, decoded, movegens, derived_skipped)))), tc'))))"

definition submit_transaction ::
  "server \<Rightarrow> worker_identity \<Rightarrow> result_body \<Rightarrow> job_row \<Rightarrow> job_template \<Rightarrow> decoded_result \<Rightarrow> int \<Rightarrow>
    ustr list option \<Rightarrow> time \<Rightarrow> time \<Rightarrow> bool app_result \<times> server" where
  "submit_transaction sv identity body j template decoded movegens derived_skipped inst now =
     (case open_claim (sv_db sv) (rb_claim_token body) identity of
        None \<Rightarrow> (Inr False, sv)
      | Some (c, t) \<Rightarrow>
          (let job_id = t_job_id t;
               (enforced, holds') = (if past_deadline now c
                  then deadlines_enforced (sv_holds sv) (sv_reclaim_from sv) inst job_id
                  else (False, sv_holds sv));
               sv1 = sv\<lparr>sv_holds := holds'\<rparr>
           in if enforced
              then (case refuse_late (sv_db sv) c job_id of
                      Inl e \<Rightarrow> (Inl e, sv1) | Inr db' \<Rightarrow> (Inr False, sv1\<lparr>sv_db := db'\<rparr>))
              else if job_id \<noteq> j_id j then (Inl (Internal ''a claim's task changed job''), sv1)
              else case store_result sv1 template (c_task_id c) (c_id c) decoded of
                     Inl e \<Rightarrow> (Inl e, sv1)
                   | Inr (sv2, p) \<Rightarrow>
                       (case complete_submission (sv_db sv2) c job_id p movegens derived_skipped now of
                          Inl e \<Rightarrow> (Inl e, sv1)
                        | Inr db' \<Rightarrow> (Inr True, sv2\<lparr>sv_db := db'\<rparr>))))"

definition submit_result ::
  "server \<Rightarrow> serde \<Rightarrow> worker_identity \<Rightarrow> result_body \<Rightarrow> time \<Rightarrow> time \<Rightarrow> bool app_result \<times> server" where
  "submit_result sv serde identity body inst now =
     (case require_registered identity of
        Inl e \<Rightarrow> (Inl e, sv)
      | Inr _ \<Rightarrow>
          (case open_claim (sv_db sv) (rb_claim_token body) identity of
             None \<Rightarrow> (Inr False, sv)
           | Some (c, t) \<Rightarrow>
               (case row_with j_id (t_job_id t) (db_jobs (sv_db sv)) of
                  None \<Rightarrow> (Inr False, sv)
                | Some j \<Rightarrow>
                    (case submit_checks sv serde j body inst of
                       (Inl e, tc) \<Rightarrow> (Inl e, sv\<lparr>sv_templates := tc\<rparr>)
                     | (Inr (template, decoded, movegens, derived_skipped), tc) \<Rightarrow>
                         submit_transaction (sv\<lparr>sv_templates := tc\<rparr>) identity body j template decoded
                           movegens derived_skipped inst now))))"

end
