(* ===== verification/Books.thy ===== *)
theory Books
  imports Submit
begin

text \<open>
  The books the task server keeps: a task's counters and state against its claims, a job's running
  totals against its tasks and claims, a contributor's totals against the claims completed.  The
  invariant \<open>books_ok\<close> holds in every state the worker routes, the scheduler and the reclamation can
  reach (\<open>dispatch_reachable\<close>), and the claims below read it off.
\<close>

section \<open>The invariant\<close>

definition open_of :: "claim_row list \<Rightarrow> nat \<Rightarrow> int" where
  "open_of claims task = count_where (\<lambda>c. c_task_id c = task \<and> c_state c = C_claimed) claims"

definition done_of :: "claim_row list \<Rightarrow> nat \<Rightarrow> int" where
  "done_of claims task = count_where (\<lambda>c. c_task_id c = task \<and> c_state c = C_completed) claims"

definition slot_ok :: "claim_row list \<Rightarrow> task_row \<Rightarrow> bool" where
  "slot_ok claims t \<longleftrightarrow>
     t_active_claim_count t = open_of claims (t_id t) \<and>
     t_accepted_count t = done_of claims (t_id t) \<and>
     t_active_claim_count t + t_accepted_count t \<le> 1 \<and>
     t_state t = (if t_accepted_count t > 0 then T_completed
       else if t_active_claim_count t > 0 then T_claimed else T_available)"

definition compute_of :: "claim_row \<Rightarrow> int" where
  "compute_of c = (case c_completed_at c of None \<Rightarrow> 0 | Some t \<Rightarrow> claim_compute_ms t c)"

definition completed_in :: "nat \<Rightarrow> claim_row \<Rightarrow> bool" where
  "completed_in job_id c \<longleftrightarrow> c_job_id c = job_id \<and> c_state c = C_completed"

definition completed_by :: "owner \<Rightarrow> claim_row \<Rightarrow> bool" where
  "completed_by owner c \<longleftrightarrow> c_claimed_by c = owner \<and> c_state c = C_completed"

definition job_ok :: "task_row list \<Rightarrow> claim_row list \<Rightarrow> job_row \<Rightarrow> bool" where
  "job_ok tasks claims j \<longleftrightarrow>
     j_claims_issued j = count_where (\<lambda>c. c_job_id c = j_id j) claims \<and>
     j_tasks_total j = count_where (\<lambda>t. t_job_id t = j_id j) tasks \<and>
     j_tasks_completed j = count_where (\<lambda>t. t_job_id t = j_id j \<and> t_state t = T_completed) tasks \<and>
     j_movegens j = sum_where (completed_in (j_id j)) c_movegens claims \<and>
     j_compute_ms j = sum_where (completed_in (j_id j)) compute_of claims"

definition contributor_ok :: "claim_row list \<Rightarrow> contributor_row \<Rightarrow> bool" where
  "contributor_ok claims k \<longleftrightarrow>
     k_tasks_completed k = count_where (completed_by (k_owner k)) claims \<and>
     k_movegens k = sum_where (completed_by (k_owner k)) c_movegens claims \<and>
     k_compute_ms k = sum_where (completed_by (k_owner k)) compute_of claims"

definition status_ok :: "job_row \<Rightarrow> bool" where
  "status_ok j \<longleftrightarrow> (j_status j = Active \<longleftrightarrow> j_allocation j > 0) \<and> j_allocation j \<ge> 0"

definition keys_ok :: "db \<Rightarrow> bool" where
  "keys_ok db \<longleftrightarrow> distinct (map j_id (db_jobs db)) \<and> distinct (map t_id (db_tasks db)) \<and>
     distinct (map c_id (db_claims db)) \<and> distinct (map k_owner (db_contributors db)) \<and>
     distinct (map (\<lambda>t. (t_job_id t, t_seed t)) (db_tasks db))"

definition linked :: "db \<Rightarrow> bool" where
  "linked db \<longleftrightarrow>
     (\<forall>c\<in>set (db_claims db). \<exists>t\<in>set (db_tasks db). t_id t = c_task_id c \<and> t_job_id t = c_job_id c) \<and>
     (\<forall>t\<in>set (db_tasks db). t_job_id t \<in> j_id ` set (db_jobs db)) \<and>
     (\<forall>c\<in>set (db_claims db). c_claimed_by c \<in> k_owner ` set (db_contributors db))"

definition books_ok :: "db \<Rightarrow> bool" where
  "books_ok db \<longleftrightarrow> keys_ok db \<and> linked db \<and>
     (\<forall>t\<in>set (db_tasks db). slot_ok (db_claims db) t) \<and>
     (\<forall>j\<in>set (db_jobs db). job_ok (db_tasks db) (db_claims db) j) \<and>
     (\<forall>j\<in>set (db_jobs db). status_ok j) \<and>
     (\<forall>k\<in>set (db_contributors db). contributor_ok (db_claims db) k)"

lemma books_okI:
  assumes "keys_ok db" "linked db"
    "\<And>t. t \<in> set (db_tasks db) \<Longrightarrow> slot_ok (db_claims db) t"
    "\<And>j. j \<in> set (db_jobs db) \<Longrightarrow> job_ok (db_tasks db) (db_claims db) j"
    "\<And>j. j \<in> set (db_jobs db) \<Longrightarrow> status_ok j"
    "\<And>k. k \<in> set (db_contributors db) \<Longrightarrow> contributor_ok (db_claims db) k"
  shows "books_ok db"
  using assms by (simp add: books_ok_def)

lemma books_okD:
  assumes "books_ok db"
  shows "keys_ok db" "linked db"
    "t \<in> set (db_tasks db) \<Longrightarrow> slot_ok (db_claims db) t"
    "j \<in> set (db_jobs db) \<Longrightarrow> job_ok (db_tasks db) (db_claims db) j"
    "j \<in> set (db_jobs db) \<Longrightarrow> status_ok j"
    "k \<in> set (db_contributors db) \<Longrightarrow> contributor_ok (db_claims db) k"
  using assms by (simp_all add: books_ok_def)

lemma keysD:
  assumes "books_ok db"
  shows "distinct (map j_id (db_jobs db))" "distinct (map t_id (db_tasks db))"
    "distinct (map c_id (db_claims db))" "distinct (map k_owner (db_contributors db))"
    "distinct (map (\<lambda>t. (t_job_id t, t_seed t)) (db_tasks db))"
  using books_okD(1) [OF assms] by (simp_all add: keys_ok_def)

lemma linkedD:
  assumes "books_ok db"
  shows "c \<in> set (db_claims db) \<Longrightarrow> \<exists>t\<in>set (db_tasks db). t_id t = c_task_id c \<and> t_job_id t = c_job_id c"
    "t \<in> set (db_tasks db) \<Longrightarrow> t_job_id t \<in> j_id ` set (db_jobs db)"
    "c \<in> set (db_claims db) \<Longrightarrow> c_claimed_by c \<in> k_owner ` set (db_contributors db)"
  using books_okD(2) [OF assms] by (simp_all add: linked_def)

lemma linkedI:
  assumes "\<And>c. c \<in> set (db_claims db) \<Longrightarrow> \<exists>t\<in>set (db_tasks db). t_id t = c_task_id c \<and> t_job_id t = c_job_id c"
    "\<And>t. t \<in> set (db_tasks db) \<Longrightarrow> t_job_id t \<in> j_id ` set (db_jobs db)"
    "\<And>c. c \<in> set (db_claims db) \<Longrightarrow> c_claimed_by c \<in> k_owner ` set (db_contributors db)"
  shows "linked db"
  using assms by (simp add: linked_def)

lemma task_of_claim:
  assumes "books_ok db" "c \<in> set (db_claims db)"
  obtains t where "t \<in> set (db_tasks db)" "t_id t = c_task_id c" "t_job_id t = c_job_id c"
    "row_with t_id (c_task_id c) (db_tasks db) = Some t"
proof -
  obtain t where t: "t \<in> set (db_tasks db)" "t_id t = c_task_id c" "t_job_id t = c_job_id c"
    using linkedD(1) [OF assms] by blast
  then show ?thesis
    using tasks.row_in [OF keysD(2) [OF assms(1)] t(1)] by (intro that) simp_all
qed

section \<open>Totals over rows that look the same\<close>

lemma sum_where_same:
  assumes "map v xs = map v ys"
    and "\<And>x y. v x = v y \<Longrightarrow> P x = P y" "\<And>x y. v x = v y \<Longrightarrow> g x = g y"
  shows "sum_where P g xs = sum_where P g ys"
  using assms(1)
proof (induction xs arbitrary: ys)
  case (Cons x xs)
  from Cons.prems(1) obtain y zs where ys: "ys = y # zs" "v x = v y" "map v xs = map v zs"
    by (cases ys) auto
  then show ?case
    using Cons.IH [OF ys(3)] assms(2,3) [OF ys(2)] by simp
qed simp

lemma count_where_same:
  assumes "map v xs = map v ys" "\<And>x y. v x = v y \<Longrightarrow> P x = P y"
  shows "count_where P xs = count_where P ys"
  unfolding count_where_as_sum by (rule sum_where_same [OF assms(1)], rule assms(2), assumption, rule refl)

definition claim_view :: "claim_row \<Rightarrow> nat \<times> nat \<times> nat \<times> claim_state \<times> owner \<times> int \<times> int" where
  "claim_view c = (c_id c, c_task_id c, c_job_id c, c_state c, c_claimed_by c, c_movegens c, compute_of c)"

definition job_view :: "job_row \<Rightarrow> nat \<times> int \<times> int \<times> int \<times> int \<times> int" where
  "job_view j = (j_id j, j_claims_issued j, j_tasks_total j, j_tasks_completed j, j_movegens j, j_compute_ms j)"

lemma map_view_part: "map v xs = map v ys \<Longrightarrow> (\<And>x y. v x = v y \<Longrightarrow> f x = f y) \<Longrightarrow> map f xs = map f ys"
proof (induction xs arbitrary: ys)
  case (Cons x xs)
  from Cons.prems(1) obtain y zs where ys: "ys = y # zs" "v x = v y" "map v xs = map v zs"
    by (cases ys) auto
  show ?case
    using Cons.IH [OF ys(3) Cons.prems(2)] Cons.prems(2) [OF ys(2)] ys(1) by simp
qed simp

lemma in_same_view:
  "map v xs = map v ys \<Longrightarrow> x \<in> set xs \<Longrightarrow> \<exists>y\<in>set ys. v y = v x"
  by (metis image_iff image_set)

text \<open>A change of rows the books do not look at.\<close>

lemma books_same_view:
  assumes ok: "books_ok db"
    and c: "map claim_view (db_claims db') = map claim_view (db_claims db)"
    and j: "map job_view (db_jobs db') = map job_view (db_jobs db)"
    and t: "db_tasks db' = db_tasks db" and k: "db_contributors db' = db_contributors db"
    and st: "\<And>j. j \<in> set (db_jobs db') \<Longrightarrow> status_ok j"
  shows "books_ok db'"
proof (rule books_okI)
  note cs = count_where_same [OF c] sum_where_same [OF c]
  have open_eq: "open_of (db_claims db') i = open_of (db_claims db) i"
    and done_eq: "done_of (db_claims db') i = done_of (db_claims db) i" for i
    unfolding open_of_def done_of_def by (rule cs(1); simp add: claim_view_def)+
  have in_eq: "count_where (\<lambda>c. c_job_id c = i) (db_claims db') = count_where (\<lambda>c. c_job_id c = i) (db_claims db)"
    "sum_where (completed_in i) c_movegens (db_claims db') = sum_where (completed_in i) c_movegens (db_claims db)"
    "sum_where (completed_in i) compute_of (db_claims db') = sum_where (completed_in i) compute_of (db_claims db)" for i
    by (rule cs; simp add: claim_view_def completed_in_def)+
  have by_eq: "count_where (completed_by i) (db_claims db') = count_where (completed_by i) (db_claims db)"
    "sum_where (completed_by i) c_movegens (db_claims db') = sum_where (completed_by i) c_movegens (db_claims db)"
    "sum_where (completed_by i) compute_of (db_claims db') = sum_where (completed_by i) compute_of (db_claims db)" for i
    by (rule cs; simp add: claim_view_def completed_by_def)+
  have ids: "map c_id (db_claims db') = map c_id (db_claims db)"
    by (rule map_view_part [OF c]) (simp add: claim_view_def)
  have jids: "map j_id (db_jobs db') = map j_id (db_jobs db)"
    by (rule map_view_part [OF j]) (simp add: job_view_def)
  show "keys_ok db'"
    using books_okD(1) [OF ok] by (simp add: keys_ok_def ids jids t k)
  show "linked db'"
  proof (rule linkedI)
    fix c assume "c \<in> set (db_claims db')"
    from in_same_view [OF c this] obtain d where d: "d \<in> set (db_claims db)" "claim_view d = claim_view c" ..
    from d(2) have same: "c_task_id d = c_task_id c" "c_job_id d = c_job_id c" "c_claimed_by d = c_claimed_by c"
      by (simp_all add: claim_view_def)
    show "\<exists>t\<in>set (db_tasks db'). t_id t = c_task_id c \<and> t_job_id t = c_job_id c"
      using linkedD(1) [OF ok d(1)] by (simp only: same t)
    show "c_claimed_by c \<in> k_owner ` set (db_contributors db')"
      using linkedD(3) [OF ok d(1)] by (simp only: same k)
  next
    fix u assume "u \<in> set (db_tasks db')"
    then have "t_job_id u \<in> set (map j_id (db_jobs db))"
      using linkedD(2) [OF ok] by (simp add: t)
    then show "t_job_id u \<in> j_id ` set (db_jobs db')"
      unfolding jids [symmetric] by simp
  qed
  show "slot_ok (db_claims db') u" if "u \<in> set (db_tasks db')" for u
    using books_okD(3) [OF ok, of u] that by (simp add: slot_ok_def open_eq done_eq t)
  show "contributor_ok (db_claims db') u" if "u \<in> set (db_contributors db')" for u
    using books_okD(6) [OF ok, of u] that by (simp add: contributor_ok_def by_eq k)
  show "job_ok (db_tasks db') (db_claims db') u" if u: "u \<in> set (db_jobs db')" for u
  proof -
    from in_same_view [OF j u] obtain v where v: "v \<in> set (db_jobs db)" "job_view v = job_view u" ..
    from v(2) have same: "j_id v = j_id u" "j_claims_issued v = j_claims_issued u"
      "j_tasks_total v = j_tasks_total u" "j_tasks_completed v = j_tasks_completed u"
      "j_movegens v = j_movegens u" "j_compute_ms v = j_compute_ms u"
      by (simp_all add: job_view_def)
    from books_okD(4) [OF ok v(1)] show ?thesis
      unfolding job_ok_def in_eq t by (simp only: same)
  qed
  show "status_ok u" if "u \<in> set (db_jobs db')" for u
    using st that .
qed

section \<open>Claims that end without a result\<close>

lemma sum_where_none: "(\<And>r. r \<in> set rs \<Longrightarrow> \<not> P r) \<Longrightarrow> sum_where P g rs = 0"
  by (induction rs) auto

lemma sum_where_update_same:
  "(\<And>r. r \<in> set rs \<Longrightarrow> P r \<Longrightarrow> Q (f r) = Q r \<and> (Q r \<longrightarrow> g (f r) = g r)) \<Longrightarrow>
     sum_where Q g (update_where P f rs) = sum_where Q g rs"
  by (induction rs) auto

lemma count_where_update_same:
  "(\<And>r. r \<in> set rs \<Longrightarrow> P r \<Longrightarrow> Q (f r) = Q r) \<Longrightarrow>
     count_where Q (update_where P f rs) = count_where Q rs"
  by (simp add: count_where_as_sum sum_where_update_same)

lemma count_where_update_gone:
  "(\<And>r. r \<in> set rs \<Longrightarrow> P r \<Longrightarrow> \<not> Q (f r)) \<Longrightarrow>
     count_where Q (update_where P f rs) = count_where Q rs - count_where (\<lambda>r. P r \<and> Q r) rs"
  by (induction rs) auto

lemma count_where_le: "(\<And>r. r \<in> set rs \<Longrightarrow> P r \<Longrightarrow> Q r) \<Longrightarrow> count_where P rs \<le> count_where Q rs"
  by (induction rs) (auto simp: add_increasing)

lemma count_where_cong:
  "(\<And>r. r \<in> set rs \<Longrightarrow> P r = Q r) \<Longrightarrow> count_where P rs = count_where Q rs"
  by (induction rs) auto

definition close_claims :: "(claim_row \<Rightarrow> bool) \<Rightarrow> (claim_row \<Rightarrow> claim_row) \<Rightarrow> db \<Rightarrow> db" where
  "close_claims P f db =
     (let n = (\<lambda>t. count_where (\<lambda>c. P c \<and> c_task_id c = t_id t) (db_claims db))
      in db\<lparr>db_claims := update_where P f (db_claims db),
            db_tasks := update_where (\<lambda>t. n t > 0) (\<lambda>t. release_task (n t) t) (db_tasks db)\<rparr>)"

text \<open>What closing does to a claim: it stays whose it was and is neither open nor completed.\<close>

definition closes :: "(claim_row \<Rightarrow> bool) \<Rightarrow> (claim_row \<Rightarrow> claim_row) \<Rightarrow> bool" where
  "closes P f \<longleftrightarrow> (\<forall>c. P c \<longrightarrow> c_state c = C_claimed \<and> c_state (f c) \<noteq> C_claimed \<and>
     c_state (f c) \<noteq> C_completed \<and> c_id (f c) = c_id c \<and> c_task_id (f c) = c_task_id c \<and>
     c_job_id (f c) = c_job_id c \<and> c_claimed_by (f c) = c_claimed_by c)"

lemma closesD:
  assumes "closes P f" "P c"
  shows "c_state c = C_claimed" "c_state (f c) \<noteq> C_claimed" "c_state (f c) \<noteq> C_completed"
    "c_id (f c) = c_id c" "c_task_id (f c) = c_task_id c" "c_job_id (f c) = c_job_id c"
    "c_claimed_by (f c) = c_claimed_by c"
  using assms by (simp_all add: closes_def)

lemma release_task_simps [simp]:
  "t_id (release_task n t) = t_id t" "t_job_id (release_task n t) = t_job_id t"
  "t_seed (release_task n t) = t_seed t" "t_accepted_count (release_task n t) = t_accepted_count t"
  "t_active_claim_count (release_task n t) = max (t_active_claim_count t - n) 0"
  by (simp_all add: release_task_def Let_def)

lemma release_task_state:
  "t_state (release_task n t) = (if t_accepted_count t > 0 then T_completed
     else if t_active_claim_count t > n then T_claimed else T_available)"
  by (auto simp: release_task_def Let_def)

lemma slot_okD:
  assumes "slot_ok claims t"
  shows "t_active_claim_count t = open_of claims (t_id t)" "t_accepted_count t = done_of claims (t_id t)"
    "open_of claims (t_id t) + done_of claims (t_id t) \<le> 1"
    "t_state t = (if t_accepted_count t > 0 then T_completed
       else if t_active_claim_count t > 0 then T_claimed else T_available)"
  using assms by (auto simp: slot_ok_def)

lemma open_nonneg [simp]: "0 \<le> open_of claims i" "0 \<le> done_of claims i"
  by (simp_all add: open_of_def done_of_def)

text \<open>A task with an open claim is claimed, with none accepted.\<close>

lemma slot_open:
  assumes "slot_ok claims t" "open_of claims (t_id t) > 0"
  shows "t_active_claim_count t = 1" "t_accepted_count t = 0" "t_state t = T_claimed"
    "open_of claims (t_id t) = 1" "done_of claims (t_id t) = 0"
proof -
  note s = slot_okD [OF assms(1)]
  have o1: "open_of claims (t_id t) = 1" "done_of claims (t_id t) = 0"
    using s(3) assms(2) open_nonneg(2) [of claims "t_id t"] by linarith+
  with s(1,2,4) show "t_active_claim_count t = 1" "t_accepted_count t = 0" "t_state t = T_claimed"
    "open_of claims (t_id t) = 1" "done_of claims (t_id t) = 0"
    by simp_all
qed

lemma books_close:
  assumes ok: "books_ok db" and cl: "closes P f"
  shows "books_ok (close_claims P f db)"
proof -
  let ?cs = "db_claims db" and ?ts = "db_tasks db"
  define n :: "task_row \<Rightarrow> int" where "n = (\<lambda>t. count_where (\<lambda>c. P c \<and> c_task_id c = t_id t) ?cs)"
  let ?db' = "close_claims P f db"
  have db': "db_claims ?db' = update_where P f ?cs"
      "db_tasks ?db' = update_where (\<lambda>t. n t > 0) (\<lambda>t. release_task (n t) t) ?ts"
      "db_jobs ?db' = db_jobs db" "db_contributors ?db' = db_contributors db"
    by (simp_all add: close_claims_def n_def)
  note D = closesD [OF cl]
  have open_eq: "open_of (update_where P f ?cs) (t_id t) = open_of ?cs (t_id t) - n t" for t
  proof -
    have "open_of (update_where P f ?cs) (t_id t) = open_of ?cs (t_id t) -
        count_where (\<lambda>c. P c \<and> c_task_id c = t_id t \<and> c_state c = C_claimed) ?cs"
      unfolding open_of_def by (rule count_where_update_gone) (use D(2) in blast)
    also have "count_where (\<lambda>c. P c \<and> c_task_id c = t_id t \<and> c_state c = C_claimed) ?cs = n t"
      unfolding n_def by (rule count_where_cong) (use D(1) in blast)
    finally show ?thesis .
  qed
  have n_le: "n t \<le> open_of ?cs (t_id t)" for t
    unfolding n_def open_of_def by (rule count_where_le) (use D(1) in blast)
  have n_nonneg: "0 \<le> n t" for t
    by (simp add: n_def)
  have done_eq: "done_of (update_where P f ?cs) i = done_of ?cs i" for i
    unfolding done_of_def by (rule count_where_update_same) (auto simp: D)
  have comp: "(completed_in i (f c) = completed_in i c \<and> (completed_in i c \<longrightarrow> g (f c) = g c))"
      "(completed_by o' (f c) = completed_by o' c \<and> (completed_by o' c \<longrightarrow> g (f c) = g c))"
    if "P c" for i o' c and g :: "claim_row \<Rightarrow> int"
    using D(1,3) [OF that] by (simp_all add: completed_in_def completed_by_def)
  have sums: "sum_where (completed_in i) g (update_where P f ?cs) = sum_where (completed_in i) g ?cs"
    "sum_where (completed_by o') g (update_where P f ?cs) = sum_where (completed_by o') g ?cs"
    for i o' and g :: "claim_row \<Rightarrow> int"
    by (rule sum_where_update_same, erule comp)+
  have counts: "count_where (completed_by o') (update_where P f ?cs) = count_where (completed_by o') ?cs" for o'
    unfolding count_where_as_sum by (rule sums)
  have issued: "count_where (\<lambda>c. c_job_id c = i) (update_where P f ?cs) = count_where (\<lambda>c. c_job_id c = i) ?cs" for i
    by (rule count_where_update_same) (simp add: D(6))
  have was: "t_state t = T_claimed" "t_accepted_count t = 0" "t_active_claim_count t = 1" "n t = 1"
    if "t \<in> set ?ts" "n t > 0" for t
    using slot_open [OF books_okD(3) [OF ok that(1)]] n_le [of t] that(2) by auto
  have total: "count_where (\<lambda>t. t_job_id t = i) (update_where (\<lambda>t. n t > 0) (\<lambda>t. release_task (n t) t) ?ts)
      = count_where (\<lambda>t. t_job_id t = i) ?ts" for i
    by (rule count_where_update_same) simp
  have finished: "count_where (\<lambda>t. t_job_id t = i \<and> t_state t = T_completed)
        (update_where (\<lambda>t. n t > 0) (\<lambda>t. release_task (n t) t) ?ts)
      = count_where (\<lambda>t. t_job_id t = i \<and> t_state t = T_completed) ?ts" for i
    by (rule count_where_update_same) (simp add: release_task_state was)
  have ids: "map c_id (update_where P f ?cs) = map c_id ?cs"
    by (rule map_update_where) (rule D(4))
  have tids: "map h (update_where (\<lambda>t. n t > 0) (\<lambda>t. release_task (n t) t) ?ts) = map h ?ts"
    if "\<And>k t. h (release_task k t) = h t" for h :: "task_row \<Rightarrow> 'x"
    by (rule map_update_where) (rule that)
  show ?thesis
  proof (rule books_okI, goal_cases)
    case 1
    show ?case
      using books_okD(1) [OF ok] by (simp add: keys_ok_def db' ids tids)
  next
    case 2
    show ?case
    proof (rule linkedI; unfold db')
      fix c assume "c \<in> set (update_where P f ?cs)"
      then obtain d where d: "d \<in> set ?cs" "c = (if P d then f d else d)"
        by (auto simp: set_update_where)
      then have same: "c_task_id c = c_task_id d" "c_job_id c = c_job_id d" "c_claimed_by c = c_claimed_by d"
        using D(5-7) [of d] by simp_all
      from linkedD(1) [OF ok d(1)] obtain t where t: "t \<in> set ?ts" "t_id t = c_task_id c" "t_job_id t = c_job_id c"
        by (auto simp: same)
      let ?t = "if n t > 0 then release_task (n t) t else t"
      have "?t \<in> set (update_where (\<lambda>t. n t > 0) (\<lambda>t. release_task (n t) t) ?ts)"
        using t(1) by (auto simp: set_update_where)
      moreover have "t_id ?t = c_task_id c \<and> t_job_id ?t = c_job_id c" using t by simp
      ultimately show "\<exists>t\<in>set (update_where (\<lambda>t. n t > 0) (\<lambda>t. release_task (n t) t) ?ts).
          t_id t = c_task_id c \<and> t_job_id t = c_job_id c" by blast
      show "c_claimed_by c \<in> k_owner ` set (db_contributors db)"
        using linkedD(3) [OF ok d(1)] by (simp add: same)
    next
      fix t assume "t \<in> set (update_where (\<lambda>t. n t > 0) (\<lambda>t. release_task (n t) t) ?ts)"
      then obtain u where u: "u \<in> set ?ts" "t = (if n u > 0 then release_task (n u) u else u)"
        by (auto simp: set_update_where)
      then show "t_job_id t \<in> j_id ` set (db_jobs db)"
        using linkedD(2) [OF ok u(1)] by simp
    qed
  next
    case (3 t)
    then obtain u where u: "u \<in> set ?ts" "t = (if n u > 0 then release_task (n u) u else u)"
      by (auto simp: set_update_where db')
    note su = slot_okD [OF books_okD(3) [OF ok u(1)]]
    show ?case
    proof (cases "n u > 0")
      case True
      note w = was [OF u(1) True]
      show ?thesis
        using u(2) True w su by (simp add: slot_ok_def open_eq done_eq release_task_state db')
    next
      case False
      then have "n u = 0" using n_nonneg [of u] by simp
      then show ?thesis
        using u(2) books_okD(3) [OF ok u(1)] by (simp add: slot_ok_def open_eq done_eq db')
    qed
  next
    case (4 j)
    from books_okD(4) [OF ok, of j] 4 show ?case
      unfolding job_ok_def db' sums issued total finished by simp
  next
    case (5 j)
    from books_okD(5) [OF ok, of j] 5 show ?case by (simp add: db')
  next
    case (6 k)
    from books_okD(6) [OF ok, of k] 6 show ?case
      unfolding contributor_ok_def db' sums counts by simp
  qed
qed

lemma update_where_cong:
  "(\<And>r. r \<in> set rs \<Longrightarrow> P r = Q r) \<Longrightarrow> (\<And>r. r \<in> set rs \<Longrightarrow> Q r \<Longrightarrow> f r = g r) \<Longrightarrow>
     update_where P f rs = update_where Q g rs"
  by (induction rs) auto

lemma count_one:
  assumes "distinct (map key rs)" "r \<in> set rs"
  shows "count_where (\<lambda>x. key x = key r \<and> P x) rs = (if P r then 1 else 0)"
  using assms
proof (induction rs)
  case (Cons s rs)
  show ?case
  proof (cases "s = r")
    case True
    have "count_where (\<lambda>x. key x = key r \<and> P x) rs = 0"
      unfolding count_where_0 using Cons.prems(1) True by (auto simp: image_iff)
    with True show ?thesis by simp
  next
    case False
    with Cons.prems have "key s \<noteq> key r" "r \<in> set rs" by (auto simp: image_iff)
    with Cons show ?thesis by simp
  qed
qed simp

lemma release_is_close:
  assumes ok: "books_ok db" and c: "row_with c_id i (db_claims db) = Some c" "c_state c = C_claimed"
  shows "fst (release_claim db i s) =
    close_claims (\<lambda>c. c_id c = i \<and> c_state c = C_claimed) (\<lambda>c. c\<lparr>c_state := s\<rparr>) db"
proof -
  note in_c = claims.row_Some [OF c(1)]
  have only: "d = c" if "d \<in> set (db_claims db)" "c_id d = i" for d
    using distinct_map_inj_eq [OF keysD(3) [OF ok] that(1), of c] in_c that(2) by simp
  have n: "count_where (\<lambda>d. c_id d = i \<and> c_state d = C_claimed \<and> c_task_id d = k) (db_claims db) =
      (if k = c_task_id c then 1 else 0)" for k
  proof -
    have "count_where (\<lambda>d. c_id d = i \<and> c_state d = C_claimed \<and> c_task_id d = k) (db_claims db) =
      count_where (\<lambda>d. c_id d = c_id c \<and> (c_state d = C_claimed \<and> c_task_id d = k)) (db_claims db)"
      using in_c by (intro count_where_cong) auto
    also have "\<dots> = (if k = c_task_id c then 1 else 0)"
      using count_one [OF keysD(3) [OF ok], of c] in_c c(2) by simp
    finally show ?thesis .
  qed
  have "update_key c_id i (\<lambda>c. c\<lparr>c_state := s\<rparr>) (db_claims db) =
      update_where (\<lambda>c. c_id c = i \<and> c_state c = C_claimed) (\<lambda>c. c\<lparr>c_state := s\<rparr>) (db_claims db)"
    unfolding update_key_def by (rule update_where_cong) (use only c(2) in auto)
  moreover have "update_key t_id (c_task_id c) (release_task 1) (db_tasks db) =
      update_where (\<lambda>t. (if t_id t = c_task_id c then 1 else 0) > (0::int))
        (\<lambda>t. release_task (if t_id t = c_task_id c then 1 else 0) t) (db_tasks db)"
    unfolding update_key_def by (rule update_where_cong) auto
  ultimately show ?thesis
    by (simp add: release_claim_def close_claims_def c n)
qed

lemma books_release:
  assumes ok: "books_ok db" and s: "s \<noteq> C_claimed" "s \<noteq> C_completed"
  shows "books_ok (fst (release_claim db i s))"
proof (cases "row_with c_id i (db_claims db)")
  case None
  with ok show ?thesis by (simp add: release_claim_def)
next
  case (Some c)
  show ?thesis
  proof (cases "c_state c = C_claimed")
    case True
    have "closes (\<lambda>c. c_id c = i \<and> c_state c = C_claimed) (\<lambda>c. c\<lparr>c_state := s\<rparr>)"
      using s by (simp add: closes_def)
    from books_close [OF ok this] show ?thesis
      by (simp only: release_is_close [OF ok Some True])
  next
    case False
    with Some ok show ?thesis by (simp add: release_claim_def)
  qed
qed

lemma reclaim_is_close:
  "reclaim_expired_for db job_ids timeout locked now =
     close_claims (lapsed (db_tasks db) job_ids timeout locked now)
       (\<lambda>c. c\<lparr>c_state := C_abandoned,
          c_overrun := (if overran timeout now c then Some Overrun_pending else None)\<rparr>) db"
  by (simp add: reclaim_expired_for_def close_claims_def Let_def)

lemma books_reclaim:
  assumes "books_ok db"
  shows "books_ok (reclaim_expired_for db job_ids timeout locked now)"
  unfolding reclaim_is_close
  by (rule books_close [OF assms]) (simp add: closes_def lapsed_def)

section \<open>Statements the books do not look at\<close>

text \<open>Rows of a table changed without changing what the books read of them.\<close>

lemma map_update_key:
  "(\<And>r. key r = k \<Longrightarrow> h (f r) = h r) \<Longrightarrow> map h (update_key key k f rs) = map h rs"
  unfolding update_key_def by (rule map_update_where)

lemma books_jobs:
  assumes ok: "books_ok db" and j: "map job_view jobs' = map job_view (db_jobs db)"
    and st: "\<And>j. j \<in> set jobs' \<Longrightarrow> status_ok j"
  shows "books_ok (db\<lparr>db_jobs := jobs'\<rparr>)"
  by (rule books_same_view [OF ok]) (simp_all add: j st)

lemma books_claims:
  assumes ok: "books_ok db" and c: "map claim_view claims' = map claim_view (db_claims db)"
  shows "books_ok (db\<lparr>db_claims := claims'\<rparr>)"
  by (rule books_same_view [OF ok]) (simp_all add: c books_okD(5) [OF ok])

lemma books_other [simp]:
  "books_ok (db\<lparr>db_gaps := g\<rparr>) = books_ok db" "books_ok (db\<lparr>db_audit := a\<rparr>) = books_ok db"
  by (simp_all add: books_ok_def keys_ok_def linked_def)

lemma in_jobs_upd:
  "j \<in> set (update_key j_id k f jobs) \<Longrightarrow> (\<And>j. j \<in> set jobs \<Longrightarrow> status_ok j) \<Longrightarrow>
     (\<And>j. j \<in> set jobs \<Longrightarrow> j_id j = k \<Longrightarrow> status_ok j \<Longrightarrow> status_ok (f j)) \<Longrightarrow> status_ok j"
  unfolding jobs.in_upd by blast

lemma books_heartbeat:
  assumes "books_ok db" "heartbeat db identity token locked now = Inr db'"
  shows "books_ok db'"
proof -
  have "db' = db\<lparr>db_claims := update_where (\<lambda>c. c_claim_token c = token \<and> c_state c = C_claimed \<and>
      c_claimed_by c = owner_of identity \<and> c_id c \<notin> set locked)
      (\<lambda>c. c\<lparr>c_last_heartbeat_at := Some now\<rparr>) (db_claims db)\<rparr>"
    using assms(2) by (auto simp: heartbeat_def and_then_check_Inr)
  then show ?thesis
    by (auto intro!: books_claims assms(1) map_update_where
      simp: claim_view_def compute_of_def claim_compute_ms_def split: option.splits)
qed

lemma books_unsettle:
  assumes ok: "books_ok db"
  shows "books_ok (db\<lparr>db_jobs := unsettle (db_jobs db) job_id window now\<rparr>)"
proof (rule books_jobs [OF ok])
  show "map job_view (unsettle (db_jobs db) job_id window now) = map job_view (db_jobs db)"
    unfolding unsettle_def by (rule map_update_where) (simp add: job_view_def)
  show "status_ok j" if "j \<in> set (unsettle (db_jobs db) job_id window now)" for j
    using that books_okD(5) [OF ok] by (auto simp: unsettle_def set_update_where status_ok_def)
qed

lemma books_lift:
  assumes ok: "books_ok db"
  shows "books_ok (db\<lparr>db_jobs := lift_passed_over (db_jobs db) passed pace locked\<rparr>)"
proof (rule books_jobs [OF ok])
  show "map job_view (lift_passed_over (db_jobs db) passed pace locked) = map job_view (db_jobs db)"
    unfolding lift_passed_over_def by (rule map_update_where) (simp add: job_view_def)
  show "status_ok j" if "j \<in> set (lift_passed_over (db_jobs db) passed pace locked)" for j
    using that books_okD(5) [OF ok] by (auto simp: lift_passed_over_def set_update_where status_ok_def)
qed

lemma books_join:
  assumes ok: "books_ok db"
  shows "books_ok (db\<lparr>db_jobs := join_at_parity (db_jobs db) job_id window now\<rparr>)"
proof (rule books_jobs [OF ok])
  show "map job_view (join_at_parity (db_jobs db) job_id window now) = map job_view (db_jobs db)"
    unfolding join_at_parity_def Let_def by (rule map_update_key) (simp add: job_view_def)
  show "status_ok j" if "j \<in> set (join_at_parity (db_jobs db) job_id window now)" for j
    using that unfolding join_at_parity_def Let_def
    by (rule in_jobs_upd) (erule books_okD(5) [OF ok], simp add: status_ok_def)
qed

lemma books_record_time_limit:
  assumes ok: "books_ok db" and r: "record_time_limit db job_id declined = Inr (db', aside)"
  shows "books_ok db'"
proof -
  let ?db1 = "db\<lparr>db_claims := update_where (pending_of job_id)
    (\<lambda>c. c\<lparr>c_overrun := Some Overrun_counted\<rparr>) (db_claims db)\<rparr>"
  from r obtain j where j: "row_with j_id job_id (db_jobs db) = Some j"
    by (auto simp: record_time_limit_def fetch_one_def ok_or_def split: option.splits)
  have ok1: "books_ok ?db1"
    by (rule books_claims [OF ok], rule map_update_where)
      (simp add: claim_view_def compute_of_def claim_compute_ms_def split: option.splits)
  have only: "i = j" if "i \<in> set (db_jobs db)" "j_id i = job_id" for i
    using distinct_map_inj_eq [OF keysD(1) [OF ok] that(1), of j] jobs.row_Some [OF j] that(2) by simp
  have ok2: "books_ok (?db1\<lparr>db_jobs := update_key j_id job_id (\<lambda>_. count_time_limits a b j) (db_jobs ?db1)\<rparr>)"
    for a b
  proof (rule books_jobs [OF ok1])
    have "update_key j_id job_id (\<lambda>_. count_time_limits a b j) (db_jobs db) =
        update_key j_id job_id (count_time_limits a b) (db_jobs db)"
      unfolding update_key_def by (rule update_where_cong) (use only in blast)+
    then show "map job_view (update_key j_id job_id (\<lambda>_. count_time_limits a b j) (db_jobs ?db1)) =
        map job_view (db_jobs ?db1)"
      by (simp add: map_update_key job_view_def count_time_limits_def)
    show "status_ok i" if "i \<in> set (update_key j_id job_id (\<lambda>_. count_time_limits a b j) (db_jobs ?db1))" for i
      using that books_okD(5) [OF ok] only
      by (auto simp: jobs.in_upd status_ok_def count_time_limits_def)
  qed
  have ok3: "books_ok (d\<lparr>db_jobs := update_key j_id job_id (set_aside reason) (db_jobs d)\<rparr>)"
    if "books_ok d" for d reason
  proof (rule books_jobs [OF that])
    show "map job_view (update_key j_id job_id (set_aside reason) (db_jobs d)) = map job_view (db_jobs d)"
      by (rule map_update_key) (simp add: job_view_def set_aside_def)
    show "status_ok i" if "i \<in> set (update_key j_id job_id (set_aside reason) (db_jobs d))" for i
      using that by (rule in_jobs_upd) (erule books_okD(5) [OF \<open>books_ok d\<close>], simp add: status_ok_def set_aside_def)
  qed
  have ok4: "books_ok (?db1\<lparr>db_jobs := update_key j_id job_id (set_aside reason)
      (update_key j_id job_id (\<lambda>_. count_time_limits a b j) (db_jobs db)), db_audit := au\<rparr>)" for a b reason au
    using ok3 [OF ok2 [of a b], of reason]
      books_other(2) [of au "?db1\<lparr>db_jobs := update_key j_id job_id (set_aside reason)
        (update_key j_id job_id (\<lambda>_. count_time_limits a b j) (db_jobs db))\<rparr>"] by simp
  from r show ?thesis
    using ok1 ok2 ok4
    by (auto simp: record_time_limit_def j fetch_one_def ok_or_def Let_def split: option.splits if_splits)
qed

lemma books_refuse_late:
  assumes ok: "books_ok db" and r: "refuse_late db c job_id = Inr db'"
  shows "books_ok db'"
proof -
  let ?db1 = "fst (release_claim db (c_id c) C_abandoned)"
  let ?db2 = "?db1\<lparr>db_claims := update_key c_id (c_id c)
      (\<lambda>c. c\<lparr>c_overrun := Some Overrun_pending\<rparr>) (db_claims ?db1)\<rparr>"
  have "books_ok ?db1" by (rule books_release [OF ok]) simp_all
  then have "books_ok ?db2"
    by (rule books_claims, intro map_update_key)
      (simp add: claim_view_def compute_of_def claim_compute_ms_def split: option.splits)
  moreover from r obtain aside where "record_time_limit ?db2 job_id None = Inr (db', aside)"
    by (auto simp: refuse_late_def Let_def and_then_Inr)
  ultimately show ?thesis by (rule books_record_time_limit)
qed

lemma books_decline:
  assumes ok: "books_ok db"
    and r: "decline_task db holds identity token reason missing timeout now = Inr db'"
  shows "books_ok db'"
proof -
  from r obtain c t where ct: "open_claim db token identity = Some (c, t)"
    by (auto simp: decline_task_def and_then_Inr ok_or_def split: option.splits)
  let ?db1 = "fst (release_claim db (c_id c) C_declined)"
  let ?db2 = "if reason = lit ''task_failed'' \<or> reason = lit ''time_limit'' then ?db1
    else ?db1\<lparr>db_jobs := unsettle (db_jobs ?db1) (t_job_id t) timeout now\<rparr>"
  have "books_ok ?db1" by (rule books_release [OF ok]) simp_all
  then have ok2: "books_ok ?db2" by (simp add: books_unsettle)
  from r obtain db3 aside gaps audit where
    m: "(if reason = lit ''time_limit'' then record_time_limit ?db2 (t_job_id t) (Some (limit_secs c))
          else Inr (?db2, False)) = Inr (db3, aside)" and
    db': "db' = db3\<lparr>db_gaps := gaps, db_audit := audit\<rparr>"
    unfolding decline_task_def ct by (auto simp: and_then_Inr ok_or_def Let_def simp del: lit_def)
  have "books_ok db3"
  proof (cases "reason = lit ''time_limit''")
    case True
    with m have "record_time_limit ?db2 (t_job_id t) (Some (limit_secs c)) = Inr (db3, aside)" by simp
    with ok2 show ?thesis by (rule books_record_time_limit)
  next
    case False
    with m ok2 show ?thesis by simp
  qed
  then show ?thesis by (simp add: db')
qed

lemma books_count_overruns:
  "books_ok db \<Longrightarrow> books_ok (fst (count_overruns db holds locked job_ids))"
proof -
  have one: "books_ok d \<Longrightarrow> books_ok (fst (count_overruns_of d locked i))" for d i
    using books_record_time_limit [of d i None]
    by (auto simp: count_overruns_of_def split: sum.splits)
  have "books_ok d \<Longrightarrow> books_ok (fst (count_each holds locked is d))" for d "is"
  proof (induction "is" arbitrary: d)
    case (Cons i "is")
    obtain d1 aside where d1: "count_overruns_of d locked i = (d1, aside)" by fastforce
    obtain d2 asides where d2: "count_each holds locked is d1 = (d2, asides)" by fastforce
    have "books_ok d1" using one [OF Cons.prems, of i] d1 by simp
    from Cons.IH [OF this] Cons.IH [OF Cons.prems] d1 d2 show ?case by simp
  qed simp
  then show "books_ok db \<Longrightarrow> ?thesis" by (simp add: count_overruns_def)
qed

section \<open>A claim that completes\<close>

lemma open_claimD:
  assumes "open_claim db token identity = Some (c, t)"
  shows "c \<in> set (db_claims db)" "c_state c = C_claimed" "c_claim_token c = token"
    "c_claimed_by c = owner_of identity" "row_with t_id (c_task_id c) (db_tasks db) = Some t"
proof -
  from assms have "claim_of db token (owner_of identity) = Some c"
    and t: "row_with t_id (c_task_id c) (db_tasks db) = Some t"
    by (auto simp: open_claim_def split: option.splits)
  then show "c \<in> set (db_claims db)" "c_state c = C_claimed" "c_claim_token c = token"
    "c_claimed_by c = owner_of identity" "row_with t_id (c_task_id c) (db_tasks db) = Some t"
    by (auto simp: claim_of_def find_Some_iff)
qed

lemma complete_claim_simps [simp]:
  "c_id (complete_claim m d now c) = c_id c" "c_task_id (complete_claim m d now c) = c_task_id c"
  "c_job_id (complete_claim m d now c) = c_job_id c" "c_state (complete_claim m d now c) = C_completed"
  "c_claimed_by (complete_claim m d now c) = c_claimed_by c"
  "c_movegens (complete_claim m d now c) = m"
  "compute_of (complete_claim m d now c) = claim_compute_ms now c"
  by (simp_all add: complete_claim_def compute_of_def claim_compute_ms_def)

lemma complete_task_simps [simp]:
  "t_id (complete_task now t) = t_id t" "t_job_id (complete_task now t) = t_job_id t"
  "t_seed (complete_task now t) = t_seed t" "t_state (complete_task now t) = T_completed"
  "t_accepted_count (complete_task now t) = t_accepted_count t + 1"
  "t_active_claim_count (complete_task now t) = max (t_active_claim_count t - 1) 0"
  by (simp_all add: complete_task_def)

lemma books_complete:
  assumes ok: "books_ok db" and oc: "open_claim db token identity = Some (c, t)"
    and r: "complete_submission db c (t_job_id t) p movegens skipped now = Inr db'"
  shows "books_ok db'"
proof -
  let ?ms = "claim_compute_ms now c"
  note C = open_claimD [OF oc]
  have rc: "row_with c_id (c_id c) (db_claims db) = Some c"
    by (rule claims.row_in [OF keysD(3) [OF ok] C(1)])
  note T = tasks.row_Some [OF C(5)]
  have tj: "t_job_id t = c_job_id c"
    by (rule task_of_claim [OF ok C(1)]) (use C(5) in simp)
  note su = books_okD(3) [OF ok, of t, OF conjunct1 [OF T]]
  have open1: "open_of (db_claims db) (t_id t) > 0"
    unfolding open_of_def using count_where_pos [OF C(1), of "\<lambda>x. c_task_id x = t_id t \<and> c_state x = C_claimed"] T C(2)
    by simp
  note so = slot_open [OF su open1]
  have cs: "counts_something p True movegens ?ms now j" for j
    by (simp add: counts_something_def)
  have jobs_eq: "update_where (\<lambda>j. j_id j = t_job_id t \<and> counts_something p True movegens ?ms now j)
      (count_result p True movegens ?ms now) (db_jobs db) =
    update_key j_id (t_job_id t) (count_result p True movegens ?ms now) (db_jobs db)"
    unfolding update_key_def by (rule update_where_cong) (simp_all add: cs)
  have db': "db_claims db' = update_key c_id (c_id c) (complete_claim movegens skipped now) (db_claims db)"
      "db_tasks db' = update_key t_id (c_task_id c) (complete_task now) (db_tasks db)"
      "db_contributors db' = update_key k_owner (c_claimed_by c) (credit ?ms movegens now) (db_contributors db)"
      "db_jobs db' = update_key j_id (t_job_id t) (count_result p True movegens ?ms now) (db_jobs db)"
    using r so(2)
    by (auto simp: complete_submission_def Let_def C(5) fetch_one_def ok_or_def jobs_eq split: if_splits)
  note cu = claims.count_upd [OF keysD(3) [OF ok] rc] claims.sum_upd [OF keysD(3) [OF ok] rc]
  note tu = tasks.count_upd [OF keysD(2) [OF ok] C(5)]
  show ?thesis
  proof (rule books_okI, goal_cases)
    case 1
    show ?case
      using books_okD(1) [OF ok]
      by (simp add: keys_ok_def db' map_update_key credit_def count_result_def)
  next
    case 2
    show ?case
    proof (rule linkedI; unfold db')
      fix d assume "d \<in> set (update_key c_id (c_id c) (complete_claim movegens skipped now) (db_claims db))"
      then obtain e where e: "e \<in> set (db_claims db)" "c_task_id d = c_task_id e" "c_job_id d = c_job_id e"
        "c_claimed_by d = c_claimed_by e"
        by (auto simp: claims.in_upd)
      from linkedD(1) [OF ok e(1)] obtain u where u: "u \<in> set (db_tasks db)" "t_id u = c_task_id e" "t_job_id u = c_job_id e"
        by auto
      let ?u = "if t_id u = c_task_id c then complete_task now u else u"
      have "?u \<in> set (update_key t_id (c_task_id c) (complete_task now) (db_tasks db))"
        using u(1) by (auto simp: tasks.in_upd)
      moreover have "t_id ?u = c_task_id d \<and> t_job_id ?u = c_job_id d" using u e by simp
      ultimately show "\<exists>t\<in>set (update_key t_id (c_task_id c) (complete_task now) (db_tasks db)).
          t_id t = c_task_id d \<and> t_job_id t = c_job_id d" by blast
      show "c_claimed_by d \<in> k_owner ` set (update_key k_owner (c_claimed_by c) (credit ?ms movegens now) (db_contributors db))"
      proof -
        have "map k_owner (update_key k_owner (c_claimed_by c) (credit ?ms movegens now) (db_contributors db)) =
            map k_owner (db_contributors db)" by (simp add: map_update_key credit_def)
        then have "k_owner ` set (update_key k_owner (c_claimed_by c) (credit ?ms movegens now) (db_contributors db)) =
            k_owner ` set (db_contributors db)" by (simp only: set_map [symmetric])
        with linkedD(3) [OF ok e(1)] show ?thesis by (simp only: e(4))
      qed
    next
      fix u assume "u \<in> set (update_key t_id (c_task_id c) (complete_task now) (db_tasks db))"
      then have "t_job_id u \<in> j_id ` set (db_jobs db)"
        using linkedD(2) [OF ok] by (auto simp: tasks.in_upd)
      moreover have "map j_id (update_key j_id (t_job_id t) (count_result p True movegens ?ms now) (db_jobs db)) =
          map j_id (db_jobs db)" by (simp add: map_update_key count_result_def)
      ultimately show "t_job_id u \<in> j_id ` set (update_key j_id (t_job_id t) (count_result p True movegens ?ms now) (db_jobs db))"
        by (metis list.set_map)
    qed
  next
    case (3 u)
    have oe: "open_of (db_claims db') i = open_of (db_claims db) i - (if i = c_task_id c then 1 else 0)"
      and de: "done_of (db_claims db') i = done_of (db_claims db) i + (if i = c_task_id c then 1 else 0)" for i
      by (auto simp: open_of_def done_of_def db' cu C(2))
    from 3 obtain v where v: "v \<in> set (db_tasks db)" "u = (if t_id v = c_task_id c then complete_task now v else v)"
      by (auto simp: db' tasks.in_upd)
    show ?case
    proof (cases "t_id v = c_task_id c")
      case True
      then have "v = t" using distinct_map_inj_eq [OF keysD(2) [OF ok] v(1), of t] T by simp
      with v(2) True so slot_okD [OF su] T show ?thesis by (simp add: slot_ok_def oe de)
    next
      case False
      with v books_okD(3) [OF ok v(1)] show ?thesis by (simp add: slot_ok_def oe de)
    qed
  next
    case (4 j)
    then obtain i where i: "i \<in> set (db_jobs db)"
      "j = (if j_id i = t_job_id t then count_result p True movegens ?ms now i else i)"
      by (auto simp: db' jobs.in_upd)
    have notc: "\<not> completed_in k c" for k by (simp add: completed_in_def C(2))
    have "t_state t \<noteq> T_completed" using so(3) by simp
    then show ?case
      using books_okD(4) [OF ok i(1)] i(2)
      by (simp add: job_ok_def db' cu tu notc completed_in_def C(2) tj count_result_def)
  next
    case (5 j)
    then show ?case
      unfolding db' by (rule in_jobs_upd) (erule books_okD(5) [OF ok], simp add: status_ok_def count_result_def)
  next
    case (6 k)
    then obtain i where i: "i \<in> set (db_contributors db)"
      "k = (if k_owner i = c_claimed_by c then credit ?ms movegens now i else i)"
      by (auto simp: db' contributors.in_upd)
    then show ?case
      using books_okD(6) [OF ok i(1)]
      by (simp add: contributor_ok_def db' cu completed_by_def C(2) credit_def)
  qed
qed

section \<open>A claim issued\<close>

text \<open>The worker's identity has a row, or is given one with its first task.\<close>

definition known :: "db \<Rightarrow> worker_identity \<Rightarrow> bool" where
  "known db identity \<longleftrightarrow> newly_assigned_uuid identity \<noteq> None \<or>
     owner_of identity \<in> k_owner ` set (db_contributors db)"

lemma newly_assigned_owner: "newly_assigned_uuid identity = Some uuid \<Longrightarrow> owner_of identity = By_anon uuid"
  by (cases identity) simp_all

lemma register_cases:
  "register ks identity = ks \<and> (newly_assigned_uuid identity \<noteq> None \<longrightarrow> owner_of identity \<in> k_owner ` set ks) \<or>
   register ks identity = ks @ [new_contributor (owner_of identity)] \<and> owner_of identity \<notin> k_owner ` set ks"
  by (force simp: register_def list_ex_iff newly_assigned_owner split: option.splits)

lemma new_claim_simps [simp]:
  "c_id (new_claim i t j tok w v s now) = i" "c_task_id (new_claim i t j tok w v s now) = t"
  "c_job_id (new_claim i t j tok w v s now) = j" "c_state (new_claim i t j tok w v s now) = C_claimed"
  "c_claimed_by (new_claim i t j tok w v s now) = w" "c_claim_token (new_claim i t j tok w v s now) = tok"
  by (simp_all add: new_claim_def)

lemma occupy_simps [simp]:
  "t_id (occupy t) = t_id t" "t_job_id (occupy t) = t_job_id t" "t_seed (occupy t) = t_seed t"
  "t_state (occupy t) = T_claimed" "t_accepted_count (occupy t) = t_accepted_count t"
  "t_active_claim_count (occupy t) = t_active_claim_count t + 1"
  by (simp_all add: occupy_def)

lemma new_task_simps [simp]:
  "t_id (new_task i j s now) = i" "t_job_id (new_task i j s now) = j" "t_seed (new_task i j s now) = s"
  "t_state (new_task i j s now) = T_available" "t_accepted_count (new_task i j s now) = 0"
  "t_active_claim_count (new_task i j s now) = 0"
  by (simp_all add: new_task_def)

lemma issue_claimD:
  assumes "issue_claim db identity job_id caps task_id created standing claim_id token now = Inr (Some (db', tok, secs))"
  obtains j where "row_with j_id job_id (db_jobs db) = Some j" "j_status j = Active"
    "\<forall>c\<in>set (db_claims db). c_task_id c = task_id \<longrightarrow> \<not> holds_slot c"
    "db_claims db' = db_claims db @ [new_claim claim_id task_id job_id token (owner_of identity)
       (show_version (cap_magpie_version caps)) (j_max_task_seconds j) now]"
    "db_tasks db' = update_key t_id task_id occupy (db_tasks db)"
    "db_jobs db' = update_key j_id job_id (issue_to_job (db_jobs db) standing created now) (db_jobs db)"
    "db_contributors db' = register (db_contributors db) identity"
    "secs = j_max_task_seconds j" "tok = token"
proof -
  from assms obtain j where j: "row_with j_id job_id (db_jobs db) = Some j"
    by (auto simp: issue_claim_def fetch_one_def ok_or_def split: option.splits)
  have "limit_secs (new_claim claim_id task_id job_id token w v s now) = s" for w v s
    by (auto simp: limit_secs_def new_claim_def round_div_def)
  with assms j show ?thesis
    by (intro that [OF j]) (auto simp: issue_claim_def fetch_one_def ok_or_def Let_def list_ex_iff
      split: if_splits)
qed

text \<open>\<open>tasks1\<close> is the job's tasks with the task just made, or as they were when one is reissued.\<close>

lemma books_issue:
  assumes ok: "books_ok db"
    and tasks1: "tasks1 = (if created then db_tasks db @ [new_task task_id job_id seed now] else db_tasks db)"
    and fresh: "created \<Longrightarrow> task_id \<notin> t_id ` set (db_tasks db)"
      "created \<Longrightarrow> (job_id, seed) \<notin> (\<lambda>t. (t_job_id t, t_seed t)) ` set (db_tasks db)"
    and t: "row_with t_id task_id tasks1 = Some t" "t_job_id t = job_id"
    and claim_id: "claim_id \<notin> c_id ` set (db_claims db)" and who: "known db identity"
    and r: "issue_claim (db\<lparr>db_tasks := tasks1\<rparr>) identity job_id caps task_id created standing claim_id token now =
      Inr (Some (db', tok, secs))"
  shows "books_ok db'"
proof -
  from r obtain j where j: "row_with j_id job_id (db_jobs db) = Some j"
    and free: "\<forall>c\<in>set (db_claims db). c_task_id c = task_id \<longrightarrow> \<not> holds_slot c"
    and cl: "db_claims db' = db_claims db @ [new_claim claim_id task_id job_id token (owner_of identity)
       (show_version (cap_magpie_version caps)) (j_max_task_seconds j) now]"
    and ts: "db_tasks db' = update_key t_id task_id occupy tasks1"
    and js: "db_jobs db' = update_key j_id job_id (issue_to_job (db_jobs db) standing created now) (db_jobs db)"
    and ks: "db_contributors db' = register (db_contributors db) identity"
    by (rule issue_claimD) (simp only: db.simps | simp)+
  note J = jobs.row_Some [OF j] and T = tasks.row_Some [OF t(1)]
  have dist1: "distinct (map t_id tasks1)"
    using keysD(2) [OF ok] fresh(1) by (auto simp: tasks1)
  have seeds1: "distinct (map (\<lambda>t. (t_job_id t, t_seed t)) tasks1)"
    using keysD(5) [OF ok] fresh(2) by (auto simp: tasks1)
  have slot1: "slot_ok (db_claims db) u" if "u \<in> set tasks1" for u
  proof (cases "u \<in> set (db_tasks db)")
    case True
    then show ?thesis by (rule books_okD(3) [OF ok])
  next
    case False
    with that have u: "created" "u = new_task task_id job_id seed now" by (auto simp: tasks1 split: if_splits)
    have "c_task_id c \<noteq> task_id" if "c \<in> set (db_claims db)" for c
      using linkedD(1) [OF ok that] fresh(1) [OF u(1)] by force
    then have "open_of (db_claims db) task_id = 0" "done_of (db_claims db) task_id = 0"
      unfolding open_of_def done_of_def count_where_0 by blast+
    then show ?thesis by (simp add: slot_ok_def u(2))
  qed
  have none: "open_of (db_claims db) task_id = 0" "done_of (db_claims db) task_id = 0"
    unfolding open_of_def done_of_def count_where_0 using free by (auto simp: holds_slot_def)
  have job1: "t_job_id u \<in> j_id ` set (db_jobs db)" if "u \<in> set tasks1" for u
    using that linkedD(2) [OF ok] J by (auto simp: tasks1 split: if_splits)
  have jids: "map j_id (db_jobs db') = map j_id (db_jobs db)"
    by (simp add: js map_update_key issue_to_job_def)
  then have jset: "j_id ` set (db_jobs db') = j_id ` set (db_jobs db)" by (simp only: set_map [symmetric])
  note tu = tasks.count_upd [OF dist1 t(1)]
  show ?thesis
  proof (rule books_okI, goal_cases)
    case 1
    have "distinct (map k_owner (db_contributors db'))"
      using register_cases [of "db_contributors db" identity] keysD(4) [OF ok]
      by (auto simp: ks new_contributor_def)
    moreover have "distinct (map c_id (db_claims db'))"
      using keysD(3) [OF ok] claim_id by (simp add: cl)
    moreover have "map t_id (db_tasks db') = map t_id tasks1"
      "map (\<lambda>t. (t_job_id t, t_seed t)) (db_tasks db') = map (\<lambda>t. (t_job_id t, t_seed t)) tasks1"
      by (simp_all add: ts map_update_key)
    ultimately show ?case
      using keysD(1) [OF ok] dist1 seeds1 by (simp add: keys_ok_def jids)
  next
    case 2
    have tin: "\<exists>v\<in>set (db_tasks db'). t_id v = t_id u \<and> t_job_id v = t_job_id u" if "u \<in> set tasks1" for u
    proof -
      let ?u = "if t_id u = task_id then occupy u else u"
      have "?u \<in> set (db_tasks db')" using that by (auto simp: ts tasks.in_upd)
      moreover have "t_id ?u = t_id u \<and> t_job_id ?u = t_job_id u" by simp
      ultimately show ?thesis by blast
    qed
    have known': "owner_of identity \<in> k_owner ` set (db_contributors db')"
      using register_cases [of "db_contributors db" identity] who
      by (auto simp: ks known_def new_contributor_def)
    have kin: "k_owner ` set (db_contributors db) \<subseteq> k_owner ` set (db_contributors db')"
      using register_cases [of "db_contributors db" identity] by (auto simp: ks)
    show ?case
    proof (rule linkedI)
      fix c assume "c \<in> set (db_claims db')"
      then consider "c \<in> set (db_claims db)"
        | "c_task_id c = task_id" "c_job_id c = job_id" "c_claimed_by c = owner_of identity"
        by (auto simp: cl)
      then show "\<exists>t\<in>set (db_tasks db'). t_id t = c_task_id c \<and> t_job_id t = c_job_id c"
      proof cases
        case 1
        from linkedD(1) [OF ok 1] obtain u where u: "u \<in> set (db_tasks db)" "t_id u = c_task_id c" "t_job_id u = c_job_id c"
          by auto
        then have "u \<in> set tasks1" by (simp add: tasks1)
        from tin [OF this] show ?thesis by (simp only: u)
      next
        case 2
        from tin [OF conjunct1 [OF T]] show ?thesis using T t(2) 2 by simp
      qed
      from \<open>c \<in> set (db_claims db')\<close> show "c_claimed_by c \<in> k_owner ` set (db_contributors db')"
        using linkedD(3) [OF ok] kin known' by (auto simp: cl)
    next
      fix u assume "u \<in> set (db_tasks db')"
      then obtain v where "v \<in> set tasks1" "t_job_id u = t_job_id v" by (auto simp: ts tasks.in_upd)
      with job1 [of v] show "t_job_id u \<in> j_id ` set (db_jobs db')" by (simp add: jset)
    qed
  next
    case (3 u)
    have oe: "open_of (db_claims db') i = open_of (db_claims db) i + (if i = task_id then 1 else 0)"
      and de: "done_of (db_claims db') i = done_of (db_claims db) i" for i
      by (auto simp: open_of_def done_of_def cl)
    from 3 obtain v where v: "v \<in> set tasks1" "u = (if t_id v = task_id then occupy v else v)"
      by (auto simp: ts tasks.in_upd)
    note sv = slot_okD [OF slot1 [OF v(1)]]
    show ?case
    proof (cases "t_id v = task_id")
      case True
      with v(2) sv none show ?thesis by (simp add: slot_ok_def oe de)
    next
      case False
      with v(2) slot1 [OF v(1)] show ?thesis by (simp add: slot_ok_def oe de)
    qed
  next
    case (4 k)
    then obtain i where i: "i \<in> set (db_jobs db)"
      "k = (if j_id i = job_id then issue_to_job (db_jobs db) standing created now i else i)"
      by (auto simp: js jobs.in_upd)
    have free_task: "t_state t = T_available"
      using slot_okD [OF slot1 [OF conjunct1 [OF T]]] T none by simp
    have "count_where (\<lambda>t. t_job_id t = x) (db_tasks db') = count_where (\<lambda>t. t_job_id t = x) tasks1"
      "count_where (\<lambda>t. t_job_id t = x \<and> t_state t = T_completed) (db_tasks db') =
        count_where (\<lambda>t. t_job_id t = x \<and> t_state t = T_completed) tasks1" for x
      by (simp_all add: ts tu free_task)
    then have total: "count_where (\<lambda>t. t_job_id t = x) (db_tasks db') =
        count_where (\<lambda>t. t_job_id t = x) (db_tasks db) + (if created \<and> x = job_id then 1 else 0)"
      "count_where (\<lambda>t. t_job_id t = x \<and> t_state t = T_completed) (db_tasks db') =
        count_where (\<lambda>t. t_job_id t = x \<and> t_state t = T_completed) (db_tasks db)" for x
      by (simp_all add: tasks1)
    from books_okD(4) [OF ok i(1)] i(2) show ?case
      by (simp add: job_ok_def total) (simp add: cl completed_in_def issue_to_job_def)
  next
    case (5 k)
    then show ?case
      unfolding js by (rule in_jobs_upd) (erule books_okD(5) [OF ok], simp add: status_ok_def issue_to_job_def)
  next
    case (6 k)
    have same: "count_where (completed_by o') (db_claims db') = count_where (completed_by o') (db_claims db)"
      "sum_where (completed_by o') g (db_claims db') = sum_where (completed_by o') g (db_claims db)" for o' g
      by (simp_all add: cl completed_by_def)
    from 6 consider "k \<in> set (db_contributors db)"
      | "k = new_contributor (owner_of identity)" "owner_of identity \<notin> k_owner ` set (db_contributors db)"
      using register_cases [of "db_contributors db" identity] by (auto simp: ks)
    then show ?case
    proof cases
      case 1
      with books_okD(6) [OF ok 1] show ?thesis by (simp add: contributor_ok_def same)
    next
      case 2
      have "\<not> completed_by (owner_of identity) c" if "c \<in> set (db_claims db)" for c
        using linkedD(3) [OF ok that] 2(2) by (auto simp: completed_by_def)
      then have "count_where (completed_by (owner_of identity)) (db_claims db) = 0"
        "sum_where (completed_by (owner_of identity)) g (db_claims db) = 0" for g
        by (simp_all add: count_where_0 sum_where_none)
      then show ?thesis by (simp add: contributor_ok_def same 2(1) new_contributor_def)
    qed
  qed
qed

section \<open>Executions\<close>

definition no_jobs :: db where
  "no_jobs = \<lparr>db_jobs = [], db_tasks = [], db_claims = [], db_contributors = [], db_gaps = [], db_audit = []\<rparr>"

definition uncounted :: "job_row \<Rightarrow> bool" where
  "uncounted j \<longleftrightarrow> j_claims_issued j = 0 \<and> j_tasks_total j = 0 \<and> j_tasks_completed j = 0 \<and>
     j_movegens j = 0 \<and> j_compute_ms j = 0"

text \<open>
  What a server's transactions do to the tables, one at a time and in any order: a job made, a
  contributor registered, a task made and claimed, an available one claimed, a heartbeat, a decline,
  an accepted result, one refused for its deadline, lapsed claims taken back, overruns counted, and
  the changes to a job's share.  The identifiers drawn at random are fresh.
\<close>

inductive dispatch_step :: "db \<Rightarrow> db \<Rightarrow> bool" where
  job_made: "\<lbrakk>j_id j \<notin> j_id ` set (db_jobs db); uncounted j; status_ok j\<rbrakk> \<Longrightarrow>
    dispatch_step db (db\<lparr>db_jobs := db_jobs db @ [j]\<rparr>)"
| registered: "owner \<notin> k_owner ` set (db_contributors db) \<Longrightarrow>
    dispatch_step db (db\<lparr>db_contributors := db_contributors db @ [new_contributor owner]\<rparr>)"
| new_task_claimed: "\<lbrakk>insert_on_demand_task (db_tasks db) task_id job_id seed now = Inr tasks1;
    task_id \<notin> t_id ` set (db_tasks db); claim_id \<notin> c_id ` set (db_claims db); known db identity;
    issue_claim (db\<lparr>db_tasks := tasks1\<rparr>) identity job_id caps task_id True standing claim_id token now =
      Inr (Some (db', tok, secs))\<rbrakk> \<Longrightarrow> dispatch_step db db'"
| available_task_claimed: "\<lbrakk>next_available db leave_requests job_id identity generation locked now = Some task_id;
    claim_id \<notin> c_id ` set (db_claims db); known db identity;
    issue_claim db identity job_id caps task_id False standing claim_id token now =
      Inr (Some (db', tok, secs))\<rbrakk> \<Longrightarrow> dispatch_step db db'"
| heard: "heartbeat db identity token locked now = Inr db' \<Longrightarrow> dispatch_step db db'"
| declined: "decline_task db holds identity token reason missing timeout now = Inr db' \<Longrightarrow>
    dispatch_step db db'"
| completed: "\<lbrakk>open_claim db token identity = Some (c, t);
    complete_submission db c (t_job_id t) p movegens skipped now = Inr db'\<rbrakk> \<Longrightarrow> dispatch_step db db'"
| too_late: "refuse_late db c job_id = Inr db' \<Longrightarrow> dispatch_step db db'"
| reclaimed: "dispatch_step db (reclaim_expired_for db job_ids timeout locked now)"
| overruns: "dispatch_step db (fst (count_overruns db holds locked_jobs job_ids))"
| joined: "dispatch_step db (db\<lparr>db_jobs := join_at_parity (db_jobs db) job_id window now\<rparr>)"
| unsettled: "dispatch_step db (db\<lparr>db_jobs := unsettle (db_jobs db) job_id window now\<rparr>)"
| lifted: "dispatch_step db (db\<lparr>db_jobs := lift_passed_over (db_jobs db) passed pace locked\<rparr>)"

inductive dispatch_reachable :: "db \<Rightarrow> bool" where
  start: "dispatch_reachable no_jobs"
| step: "dispatch_reachable db \<Longrightarrow> dispatch_step db db' \<Longrightarrow> dispatch_reachable db'"

lemma books_start: "books_ok no_jobs"
  by (simp add: books_ok_def keys_ok_def linked_def no_jobs_def)

lemma books_job_made:
  assumes ok: "books_ok db" and j: "j_id j \<notin> j_id ` set (db_jobs db)" "uncounted j" "status_ok j"
  shows "books_ok (db\<lparr>db_jobs := db_jobs db @ [j]\<rparr>)"
proof -
  have no_task: "t_job_id t \<noteq> j_id j" if "t \<in> set (db_tasks db)" for t
    using linkedD(2) [OF ok that] j(1) by metis
  have no_claim: "c_job_id c \<noteq> j_id j" if "c \<in> set (db_claims db)" for c
    using linkedD(1) [OF ok that] no_task by metis
  have zero: "count_where (\<lambda>c. c_job_id c = j_id j) (db_claims db) = 0"
    "count_where (\<lambda>t. t_job_id t = j_id j) (db_tasks db) = 0"
    "count_where (\<lambda>t. t_job_id t = j_id j \<and> t_state t = T_completed) (db_tasks db) = 0"
    unfolding count_where_0 using no_task no_claim by blast+
  have zeros: "sum_where (completed_in (j_id j)) g (db_claims db) = 0" for g
    by (rule sum_where_none) (use no_claim in \<open>auto simp: completed_in_def\<close>)
  show ?thesis
  proof (rule books_okI, goal_cases)
    case 1
    show ?case using books_okD(1) [OF ok] j(1) by (simp add: keys_ok_def)
  next
    case 2
    show ?case using books_okD(2) [OF ok] by (auto simp: linked_def)
  next
    case (3 t)
    then show ?case using books_okD(3) [OF ok] by simp
  next
    case (4 i)
    then show ?case using books_okD(4) [OF ok, of i] j(2) by (auto simp: job_ok_def zero zeros uncounted_def)
  next
    case (5 i)
    then show ?case using books_okD(5) [OF ok, of i] j(3) by auto
  next
    case (6 k)
    then show ?case using books_okD(6) [OF ok] by simp
  qed
qed

lemma books_registered:
  assumes ok: "books_ok db" and new: "w \<notin> k_owner ` set (db_contributors db)"
  shows "books_ok (db\<lparr>db_contributors := db_contributors db @ [new_contributor w]\<rparr>)"
proof -
  have none: "\<not> completed_by w c" if "c \<in> set (db_claims db)" for c
    using linkedD(3) [OF ok that] new by (auto simp: completed_by_def)
  show ?thesis
  proof (rule books_okI, goal_cases)
    case 1
    show ?case using books_okD(1) [OF ok] new by (simp add: keys_ok_def new_contributor_def)
  next
    case 2
    show ?case using books_okD(2) [OF ok] by (auto simp: linked_def)
  next
    case (6 k)
    then show ?case using books_okD(6) [OF ok, of k] none
      by (auto simp: contributor_ok_def new_contributor_def count_where_0 sum_where_none)
  qed (use books_okD(3-5) [OF ok] in simp_all)
qed

lemma next_availableD:
  assumes "next_available db leave_requests job_id identity generation locked now = Some task_id"
  obtains t where "t \<in> set (db_tasks db)" "t_id t = task_id" "t_job_id t = job_id" "t_state t = T_available"
    "may_take db leave_requests job_id (owner_of identity) generation locked now t"
proof -
  let ?P = "may_take db leave_requests job_id (owner_of identity) generation locked now"
  from assms obtain t ts where "sort_key t_created_at (filter ?P (db_tasks db)) = t # ts" "t_id t = task_id"
    by (auto simp: next_available_def split: list.splits)
  then have "t \<in> set (filter ?P (db_tasks db))"
    by (metis list.set_intros(1) set_sort)
  then show ?thesis
    using \<open>t_id t = task_id\<close> by (intro that [of t]) (auto simp: may_take_def)
qed

lemma books_step:
  assumes "dispatch_step db db'" "books_ok db"
  shows "books_ok db'"
  using assms
proof cases
  case (new_task_claimed task_id job_id seed now tasks1 claim_id identity caps standing token tok secs)
  from new_task_claimed(1) have t1: "tasks1 = db_tasks db @ [new_task task_id job_id seed now]"
    "(job_id, seed) \<notin> (\<lambda>t. (t_job_id t, t_seed t)) ` set (db_tasks db)"
    by (auto simp: insert_on_demand_task_def list_ex_iff split: if_splits)
  have "row_with t_id task_id tasks1 = Some (new_task task_id job_id seed now)"
    using new_task_claimed(2) by (auto simp: t1 row_with_def find_Some_iff nth_append image_iff
      intro!: exI [of _ "length (db_tasks db)"])
  from books_issue [OF assms(2) _ _ _ this _ new_task_claimed(3,4), where created = True and seed = seed and now = now]
    new_task_claimed(2,5) t1 show ?thesis by simp
next
  case (available_task_claimed leave_requests job_id identity generation locked now task_id claim_id caps standing token tok secs)
  from available_task_claimed(1) obtain t where t: "t \<in> set (db_tasks db)" "t_id t = task_id" "t_job_id t = job_id"
    by (rule next_availableD)
  have "row_with t_id task_id (db_tasks db) = Some t"
    using tasks.row_in [OF keysD(2) [OF assms(2)] t(1)] t(2) by simp
  from books_issue [OF assms(2) _ _ _ this t(3) available_task_claimed(2,3), where created = False]
    available_task_claimed(4) show ?thesis by simp
qed (use assms(2) in \<open>auto intro: books_job_made books_registered books_heartbeat books_decline books_complete
  books_refuse_late books_reclaim books_count_overruns books_join books_unsettle books_lift\<close>)

lemma books_reachable: "dispatch_reachable db \<Longrightarrow> books_ok db"
  by (induction rule: dispatch_reachable.induct) (auto intro: books_start books_step)

section \<open>An execution to look at\<close>

definition example_job :: job_row where
  "example_job = \<lparr>j_id = 1, j_title = [], j_job_type = Games, j_allocation = 100, j_status = Active,
     j_created_by = None, j_variant = [], j_letterdist_id = 0, j_layout_id = 0, j_bingo_bonus = 50,
     j_sim_cutoff = Fin 0, j_min_magpie_major = 0, j_min_magpie_minor = 1, j_min_magpie_patch = 0,
     j_max_task_seconds = 3600, j_claims_issued = 0, j_claims_baseline = 0, j_last_claimed_at = None,
     j_test_decided_status = None, j_test_decided_lower = None, j_test_decided_upper = None,
     j_test_decided_units = None, j_time_limit_declines = 0, j_time_limit_streak = 0,
     j_set_aside_reason = None, j_games_completed = 0, j_racks_analyzed = 0, j_racks_settled = 0,
     j_racks_without_consensus = 0, j_movegens = 0, j_created_at = 0, j_activated_at = None,
     j_tasks_total = 0, j_tasks_completed = 0, j_compute_ms = 0, j_time_limit_streak_since = None,
     j_last_completed_at = None\<rparr>"

definition example_standing :: standing where
  "example_standing = \<lparr>st_served_within = 300000000, st_pace = None, st_rivals = [], st_busy_rivals = []\<rparr>"

definition example_caps :: capabilities where
  "example_caps = \<lparr>cap_magpie_version = Version 0 1 3, cap_unsupported_jobs = []\<rparr>"

definition example_joined :: db where
  "example_joined = no_jobs\<lparr>db_jobs := [example_job], db_contributors := [new_contributor (By_user 5)]\<rparr>"

definition example_claim :: claim_row where
  "example_claim = new_claim 20 10 1 7 (By_user 5) (show_version (Version 0 1 3)) 3600 0"

text \<open>One task of the job, claimed by the user and completed five seconds later.\<close>

definition example_claimed :: db where
  "example_claimed = example_joined\<lparr>db_tasks := [occupy (new_task 10 1 1 0)], db_claims := [example_claim],
     db_jobs := [issue_to_job [example_job] example_standing True 0 example_job]\<rparr>"

definition example_done :: db where
  "example_done = example_claimed\<lparr>
     db_claims := [complete_claim 12 None 5000000 example_claim],
     db_tasks := [complete_task 5000000 (occupy (new_task 10 1 1 0))],
     db_contributors := [credit 5000 12 5000000 (new_contributor (By_user 5))],
     db_jobs := [count_result (no_progress\<lparr>pd_games_completed := 10\<rparr>) True 12 5000 5000000
       (issue_to_job [example_job] example_standing True 0 example_job)]\<rparr>"

lemma example_joined_reachable: "dispatch_reachable example_joined"
proof -
  have "dispatch_reachable (no_jobs\<lparr>db_jobs := db_jobs no_jobs @ [example_job]\<rparr>)" (is "dispatch_reachable ?a")
    by (rule dispatch_reachable.step [OF dispatch_reachable.start], rule dispatch_step.job_made)
      (simp_all add: no_jobs_def example_job_def uncounted_def status_ok_def)
  moreover have "dispatch_step ?a (?a\<lparr>db_contributors := db_contributors ?a @ [new_contributor (By_user 5)]\<rparr>)"
    by (rule dispatch_step.registered) (simp add: no_jobs_def)
  ultimately have "dispatch_reachable (?a\<lparr>db_contributors := db_contributors ?a @ [new_contributor (By_user 5)]\<rparr>)"
    by (rule dispatch_reachable.step)
  then show ?thesis by (simp add: example_joined_def no_jobs_def)
qed

lemma example_claim_simps [simp]:
  "c_id example_claim = 20" "c_task_id example_claim = 10" "c_job_id example_claim = 1"
  "c_claim_token example_claim = 7" "c_state example_claim = C_claimed"
  "c_claimed_by example_claim = By_user 5"
  by (simp_all add: example_claim_def)

lemma issue_to_job_simps [simp]:
  "j_id (issue_to_job jobs st created now j) = j_id j"
  "j_status (issue_to_job jobs st created now j) = j_status j"
  "j_allocation (issue_to_job jobs st created now j) = j_allocation j"
  "j_claims_issued (issue_to_job jobs st created now j) = j_claims_issued j + 1"
  by (simp_all add: issue_to_job_def)

lemma example_job_simps [simp]: "j_id example_job = 1" "j_status example_job = Active"
  "j_max_task_seconds example_job = 3600"
  by (simp_all add: example_job_def)

lemma example_claimed_step: "dispatch_step example_joined example_claimed"
proof -
  have made: "insert_on_demand_task (db_tasks example_joined) 10 1 1 0 = Inr [new_task 10 1 1 0]"
    by (simp add: insert_on_demand_task_def example_joined_def no_jobs_def)
  have "limit_secs (new_claim 20 10 1 7 (By_user 5) (show_version (Version 0 1 3)) 3600 0) = 3600"
    by (simp add: limit_secs_def new_claim_def round_div_def)
  then have issued: "issue_claim (example_joined\<lparr>db_tasks := [new_task 10 1 1 0]\<rparr>) (User 5 9) 1 example_caps 10 True
      example_standing 20 7 0 = Inr (Some (example_claimed, 7, 3600))"
    by (simp add: issue_claim_def fetch_one_def ok_or_def example_joined_def no_jobs_def row_with_def
      example_claimed_def example_claim_def register_def update_key_def example_caps_def Let_def)
  show "dispatch_step example_joined example_claimed"
    by (rule dispatch_step.new_task_claimed [OF made _ _ _ issued])
      (simp_all add: example_joined_def no_jobs_def known_def new_contributor_def)
qed

lemma example_claimed_reachable: "dispatch_reachable example_claimed"
  by (rule dispatch_reachable.step [OF example_joined_reachable example_claimed_step])

lemma example_open: "open_claim example_claimed 7 (User 5 9) = Some (example_claim, occupy (new_task 10 1 1 0))"
  by (simp add: open_claim_def claim_of_def example_claimed_def row_with_def)

lemma example_completes:
  "complete_submission example_claimed example_claim 1 (no_progress\<lparr>pd_games_completed := 10\<rparr>) 12 None 5000000 =
     Inr example_done"
proof -
  have ms: "claim_compute_ms 5000000 example_claim = 5000"
    by (simp add: claim_compute_ms_def round_div_def example_claim_def new_claim_def)
  show ?thesis
    by (simp add: complete_submission_def ms Let_def sat_i64_def i64_max_def MAX_MOVEGENS_PER_MS_def
        example_claimed_def example_done_def row_with_def fetch_one_def ok_or_def update_key_def
        example_joined_def no_jobs_def new_contributor_def update_where_def counts_something_def)
qed

lemma example_done_step: "dispatch_step example_claimed example_done"
proof -
  have "complete_submission example_claimed example_claim (t_job_id (occupy (new_task 10 1 1 0)))
      (no_progress\<lparr>pd_games_completed := 10\<rparr>) 12 None 5000000 = Inr example_done"
    by (simp add: example_completes [simplified])
  then show "dispatch_step example_claimed example_done"
    by (rule dispatch_step.completed [OF example_open])
qed

lemma example_done_reachable: "dispatch_reachable example_done"
  by (rule dispatch_reachable.step [OF example_claimed_reachable example_done_step])

section \<open>Claims\<close>

text \<open>C1: One slot a task.  In every state that can be reached, a task's live-claim count is the number of
  its open claims, its accepted count the number of its completed claims, the two together are never
  more than one, and its state is the one the counts say: so no task is out with two workers, none is
  completed twice, and none is handed out again once it is completed.\<close>

theorem one_slot_per_task:
  assumes "dispatch_reachable db" "t \<in> set (db_tasks db)"
  shows "t_active_claim_count t =
      int (length (filter (\<lambda>c. c_task_id c = t_id t \<and> c_state c = C_claimed) (db_claims db))) \<and>
    t_accepted_count t =
      int (length (filter (\<lambda>c. c_task_id c = t_id t \<and> c_state c = C_completed) (db_claims db))) \<and>
    t_active_claim_count t + t_accepted_count t \<le> 1 \<and>
    t_state t = (if t_accepted_count t > 0 then T_completed
      else if t_active_claim_count t > 0 then T_claimed else T_available)"
  using books_okD(3) [OF books_reachable [OF assms(1)] assms(2)]
  unfolding slot_ok_def open_of_def done_of_def count_where_def .

theorem one_slot_per_task_witness:
  "t_state (complete_task 5000000 (occupy (new_task 10 1 1 0))) = T_completed \<and>
   t_accepted_count (complete_task 5000000 (occupy (new_task 10 1 1 0))) = 1"
  using one_slot_per_task [OF example_done_reachable, of "complete_task 5000000 (occupy (new_task 10 1 1 0))"]
  by (simp add: example_done_def example_claim_def)

text \<open>C3: A job's running totals are its rows.  In every state that can be reached, the claims a job counts
  as issued are its claims, the tasks it counts its tasks, the tasks it counts completed its completed
  tasks, and its move generations and compute the sums over its completed claims; and it is active
  exactly when its allocation is above zero.\<close>

theorem job_totals_are_its_rows:
  assumes "dispatch_reachable db" "j \<in> set (db_jobs db)"
  shows "j_claims_issued j = int (length (filter (\<lambda>c. c_job_id c = j_id j) (db_claims db))) \<and>
    j_tasks_total j = int (length (filter (\<lambda>t. t_job_id t = j_id j) (db_tasks db))) \<and>
    j_tasks_completed j = int (length (filter (\<lambda>t. t_job_id t = j_id j \<and> t_state t = T_completed) (db_tasks db))) \<and>
    j_movegens j = sum_list (map c_movegens
      (filter (\<lambda>c. c_job_id c = j_id j \<and> c_state c = C_completed) (db_claims db))) \<and>
    j_compute_ms j = sum_list (map compute_of
      (filter (\<lambda>c. c_job_id c = j_id j \<and> c_state c = C_completed) (db_claims db))) \<and>
    (j_status j = Active \<longleftrightarrow> j_allocation j > 0)"
  using books_okD(4,5) [OF books_reachable [OF assms(1)] assms(2)]
  by (simp add: job_ok_def status_ok_def count_where_def sum_where_def completed_in_def [abs_def])

theorem job_totals_are_its_rows_witness:
  "j_tasks_completed (hd (db_jobs example_done)) = 1 \<and> j_movegens (hd (db_jobs example_done)) = 12"
  using job_totals_are_its_rows [OF example_done_reachable, of "hd (db_jobs example_done)"]
  by (simp add: example_done_def example_claim_def issue_to_job_def count_result_def example_job_def)

text \<open>C2: A contributor's totals are the claims it completed: in every state that can be reached, its
  completed tasks, move generations and compute are the count and the sums over its completed claims,
  in every job; a claim that lapsed, was declined or was refused for its deadline adds nothing.\<close>

theorem contributor_totals_are_its_claims:
  assumes "dispatch_reachable db" "k \<in> set (db_contributors db)"
  shows "k_tasks_completed k = int (length (filter
      (\<lambda>c. c_claimed_by c = k_owner k \<and> c_state c = C_completed) (db_claims db))) \<and>
    k_movegens k = sum_list (map c_movegens (filter
      (\<lambda>c. c_claimed_by c = k_owner k \<and> c_state c = C_completed) (db_claims db))) \<and>
    k_compute_ms k = sum_list (map compute_of (filter
      (\<lambda>c. c_claimed_by c = k_owner k \<and> c_state c = C_completed) (db_claims db)))"
  using books_okD(6) [OF books_reachable [OF assms(1)] assms(2)]
  by (simp add: contributor_ok_def count_where_def sum_where_def completed_by_def [abs_def])

theorem contributor_totals_are_its_claims_witness:
  "k_compute_ms (credit 5000 12 5000000 (new_contributor (By_user 5))) = 5000 \<and>
   k_tasks_completed (credit 5000 12 5000000 (new_contributor (By_user 5))) = 1"
  using contributor_totals_are_its_claims [OF example_done_reachable,
    of "credit 5000 12 5000000 (new_contributor (By_user 5))"]
  by (simp add: example_done_def example_claim_def credit_def new_contributor_def compute_of_def
    claim_compute_ms_def round_div_def complete_claim_def new_claim_def)

end
