(* ===== verification/Shares_Spec.thy ===== *)
theory Shares_Spec
  imports Books
begin

text \<open>
  Shares and turns: where a job that joins or changes its share is put, and that while jobs take turns by their
  ratios, the claims of each stay within a constant of its share of all the claims.
\<close>

section \<open>Levels and baselines\<close>

lemma floor_level:
  fixes level :: real
  assumes "a > (0::int)"
  shows "of_int \<lfloor>level * of_int a\<rfloor> / of_int a \<le> level"
    and "level < of_int \<lfloor>level * of_int a\<rfloor> / of_int a + 1 / of_int a"
proof -
  have pos: "0 < (of_int a :: real)" using assms by simp
  show "of_int \<lfloor>level * of_int a\<rfloor> / of_int a \<le> level"
    using pos by (simp add: divide_le_eq)
  have "level * of_int a < of_int \<lfloor>level * of_int a\<rfloor> + 1" by linarith
  then have "level < (of_int \<lfloor>level * of_int a\<rfloor> + 1) / of_int a"
    using pos by (simp add: less_divide_eq)
  then show "level < of_int \<lfloor>level * of_int a\<rfloor> / of_int a + 1 / of_int a"
    by (simp add: add_divide_distrib)
qed

text \<open>A job put at a level: its ratio is the level rounded down to a whole claim of the job.\<close>

definition at_level :: "'a job_scheme \<Rightarrow> real \<Rightarrow> bool" where
  "at_level j level \<longleftrightarrow> ratio_of j \<le> level \<and> level < ratio_of j + 1 / of_int (j_allocation j)"

lemma at_level_baseline:
  "j_allocation j > 0 \<Longrightarrow>
     at_level (j\<lparr>j_claims_baseline := j_claims_issued j - \<lfloor>level * of_int (j_allocation j)\<rfloor>\<rparr>) level"
  using floor_level [of "j_allocation j" level]
  by (simp add: at_level_def ratio_of_def claims_since_def)

text \<open>Lowering the baseline lifts the ratio.\<close>

lemma ratio_of_mono:
  "j_allocation j > 0 \<Longrightarrow> b' \<le> j_claims_baseline j \<Longrightarrow> ratio_of j \<le> ratio_of (j\<lparr>j_claims_baseline := b'\<rparr>)"
  by (simp add: ratio_of_def claims_since_def divide_right_mono)

lemma ratio_of_less:
  "j_allocation j > 0 \<Longrightarrow> b' \<ge> j_claims_baseline j \<Longrightarrow> ratio_of (j\<lparr>j_claims_baseline := b'\<rparr>) \<le> ratio_of j"
  by (simp add: ratio_of_def claims_since_def divide_right_mono)

lemma lowered_le: "lowered j level b \<le> b"
  by (simp add: lowered_def split: option.splits)

lemma claim_baseline_le: "claim_baseline jobs standing now j \<le> j_claims_baseline j"
  by (auto simp: claim_baseline_def intro: order_trans [OF lowered_le] lowered_le)

section \<open>Least and greatest\<close>

lemma foldl_min_le: "foldl min x xs \<le> x" for x :: "'a::linorder"
proof (induction xs arbitrary: x)
  case (Cons a xs)
  from Cons [of "min x a"] show ?case by simp
qed simp

lemma foldl_min_in: "foldl min x xs \<in> insert x (set xs)" for x :: "'a::linorder"
proof (induction xs arbitrary: x)
  case (Cons y ys)
  from Cons [of "min x y"] show ?case by (auto simp: min_def split: if_splits)
qed simp

lemma foldl_min_lower: "y \<in> insert x (set xs) \<Longrightarrow> foldl min x xs \<le> y" for x :: "'a::linorder"
proof (induction xs arbitrary: x)
  case (Cons z zs)
  then show ?case
    using foldl_min_le [of "min x z" zs] Cons.IH [of "min x z"] by fastforce
qed simp

lemma sql_min_None [simp]: "sql_min xs = None \<longleftrightarrow> xs = []"
  by (cases xs) (simp_all add: sql_min_def)

lemma sql_min_Some: "sql_min xs = Some m \<longleftrightarrow> m \<in> set xs \<and> (\<forall>x\<in>set xs. m \<le> x)" for xs :: "'a::linorder list"
proof (cases xs)
  case (Cons y ys)
  show ?thesis
  proof
    assume "sql_min xs = Some m"
    then have m: "m = foldl min y ys" by (simp add: sql_min_def Cons)
    show "m \<in> set xs \<and> (\<forall>x\<in>set xs. m \<le> x)"
      using foldl_min_in [of y ys] foldl_min_lower [of _ y ys] by (auto simp: m Cons)
  next
    assume r: "m \<in> set xs \<and> (\<forall>x\<in>set xs. m \<le> x)"
    have "foldl min y ys \<in> set xs" "\<forall>x\<in>set xs. foldl min y ys \<le> x"
      using foldl_min_in [of y ys] foldl_min_lower [of _ y ys] by (auto simp: Cons)
    with r have "foldl min y ys = m" by (auto intro: antisym)
    then show "sql_min xs = Some m" by (simp add: sql_min_def Cons)
  qed
qed (simp add: sql_min_def)

lemma le_least_iff: "le_least x (sql_min bs) \<longleftrightarrow> (\<forall>b\<in>set bs. x \<le> b)"
proof (cases "sql_min bs")
  case None
  then have "bs = []" by simp
  then show ?thesis by (simp add: le_least_def sql_min_def)
next
  case (Some m)
  then have "m \<in> set bs" "\<forall>b\<in>set bs. m \<le> b" by (simp_all add: sql_min_Some)
  then show ?thesis by (auto simp: le_least_def Some)
qed

section \<open>The turn check\<close>

text \<open>A claim of \<open>i\<close> passes the turn check against the rivals \<open>rs\<close> exactly when it is no more than one
  of a rival's claims past any of them.\<close>

definition one_more :: "'a job_scheme \<Rightarrow> real" where
  "one_more j = of_int (claims_since j + 1) / of_int (j_allocation j)"

lemma one_more_eq: "one_more j = ratio_of j + 1 / of_int (j_allocation j)"
  by (simp add: one_more_def ratio_of_def add_divide_distrib)

lemma outrun_False:
  assumes "row_with j_id i jobs = Some j" "j_allocation j > 0" "distinct (map j_id jobs)"
  shows "outrun jobs i rivals busy = Some False \<longleftrightarrow>
    (\<forall>p\<in>set jobs. j_id p \<in> set rivals \<and> j_allocation p > 0 \<longrightarrow> ratio_of j \<le> one_more p) \<and>
    (\<forall>p\<in>set jobs. j_id p \<in> set busy \<and> j_allocation p > 0 \<longrightarrow> ratio_of j \<le> ratio_of p + 1)"
proof -
  note J = jobs.row_Some [OF assms(1)]
  have "find (\<lambda>j. j_id j = i \<and> j_allocation j > 0) jobs = Some j"
  proof (cases "find (\<lambda>j. j_id j = i \<and> j_allocation j > 0) jobs")
    case None
    with J assms(2) show ?thesis by (auto simp: find_None_iff)
  next
    case (Some k)
    then have "k \<in> set jobs" "j_id k = i" by (auto simp: find_Some_iff)
    with J distinct_map_inj_eq [OF assms(3), of k j] Some show ?thesis by simp
  qed
  then show ?thesis
    by (auto simp: outrun_def le_least_iff one_more_def ratio_of_def)
qed

text \<open>The first candidate is never outrun: whoever claims, some job passes the turn check.\<close>

lemma candidate_sorted: "sorted (map (\<lambda>j. (ratio_of j, j_created_at j)) (candidate_jobs jobs caps))"
  unfolding candidate_jobs_def by (rule sorted_sort_key)

lemma set_candidates: "set (candidate_jobs jobs caps) = {j \<in> set jobs. is_candidate caps j}"
  by (simp add: candidate_jobs_def)

lemma first_candidate_least:
  assumes "candidate_jobs jobs caps = h # rest" "p \<in> set (h # rest)"
  shows "ratio_of h \<le> ratio_of p"
  using candidate_sorted [of jobs caps] assms by (auto simp: less_eq_prod_def)

lemma one_more_ge: "j_allocation p > 0 \<Longrightarrow> ratio_of p \<le> one_more p"
  by (simp add: one_more_eq)

lemma first_candidate_not_outrun:
  assumes d: "distinct (map j_id jobs)" and c: "candidate_jobs jobs caps = h # rest"
    and r: "set rivals \<subseteq> j_id ` set (h # rest)" and b: "set busy \<subseteq> j_id ` set (h # rest)"
  shows "outrun jobs (j_id h) rivals busy = Some False"
proof -
  have cs: "set (h # rest) = {j \<in> set jobs. is_candidate caps j}"
    using set_candidates [of jobs caps] c by simp
  then have h: "h \<in> set jobs" "j_allocation h > 0"
    by (auto simp: is_candidate_def offered_def)
  have least: "ratio_of h \<le> ratio_of p" if "p \<in> set jobs" "j_id p \<in> j_id ` set (h # rest)" for p
  proof -
    from that(2) obtain q where q: "q \<in> set (h # rest)" "j_id p = j_id q" by blast
    from q(1) have "q \<in> set jobs" unfolding cs by blast
    then have "q = p" using distinct_map_inj_eq [OF d _ that(1), of q] q(2) by simp
    with first_candidate_least [OF c q(1)] show ?thesis by (simp only:)
  qed
  show ?thesis
    unfolding outrun_False [OF jobs.row_in [OF d h(1)] h(2) d]
  proof (intro conjI ballI impI)
    fix p assume p: "p \<in> set jobs" "j_id p \<in> set rivals \<and> j_allocation p > 0"
    with least [OF p(1)] r one_more_ge [of p] show "ratio_of h \<le> one_more p" by (meson order_trans subsetD)
  next
    fix p assume p: "p \<in> set jobs" "j_id p \<in> set busy \<and> j_allocation p > 0"
    with least [OF p(1)] b have "ratio_of h \<le> ratio_of p" by blast
    then show "ratio_of h \<le> ratio_of p + 1" by simp
  qed
qed

section \<open>Fairness\<close>

text \<open>
  A claim of the job \<open>i\<close> that passes the turn check with every other job its rival, of a job not
  settling and not gone unserved: its ratio moves on by one claim.
\<close>

inductive turn :: "job_row list \<Rightarrow> job_row list \<Rightarrow> bool" where
  "\<lbrakk>row_with j_id i jobs = Some j; outrun jobs i rivals busy = Some False;
    \<forall>p\<in>set jobs. j_id p \<noteq> i \<longrightarrow> j_id p \<in> set rivals;
    \<not> stale jobs i (st_served_within standing) j; \<not> settling j now\<rbrakk> \<Longrightarrow>
   turn jobs (update_key j_id i (issue_to_job jobs standing created now) jobs)"

definition close_together :: "job_row list \<Rightarrow> bool" where
  "close_together jobs \<longleftrightarrow> (\<forall>p\<in>set jobs. \<forall>q\<in>set jobs.
     ratio_of p \<le> one_more q + 1 / of_int (j_allocation p))"

definition all_sharing :: "job_row list \<Rightarrow> bool" where
  "all_sharing jobs \<longleftrightarrow> distinct (map j_id jobs) \<and> (\<forall>p\<in>set jobs. j_allocation p > 0)"

lemma turn_keeps:
  assumes "turn jobs jobs'" "all_sharing jobs"
  shows "map (\<lambda>j. (j_id j, j_allocation j)) jobs' = map (\<lambda>j. (j_id j, j_allocation j)) jobs"
    "all_sharing jobs'" "sum_list (map claims_since jobs') = sum_list (map claims_since jobs) + 1"
    "close_together jobs \<Longrightarrow> close_together jobs'"
proof -
  from assms(1) obtain i j rivals busy standing now created where
    1: "jobs' = update_key j_id i (issue_to_job jobs standing created now) jobs"
      "row_with j_id i jobs = Some j" "outrun jobs i rivals busy = Some False"
      "\<forall>p\<in>set jobs. j_id p \<noteq> i \<longrightarrow> j_id p \<in> set rivals"
      "\<not> stale jobs i (st_served_within standing) j" "\<not> settling j now"
    by cases blast
  have d: "distinct (map j_id jobs)" and pos: "\<And>p. p \<in> set jobs \<Longrightarrow> j_allocation p > 0"
    using assms(2) by (auto simp: all_sharing_def)
  note J = jobs.row_Some [OF 1(2)]
  let ?f = "issue_to_job jobs standing created now"
  have base: "j_claims_baseline (?f j) = j_claims_baseline j"
    using 1(5,6) J by (auto simp: issue_to_job_def claim_baseline_def)
  then have up: "claims_since (?f j) = claims_since j + 1"
    by (simp add: claims_since_def)
  show m: "map (\<lambda>j. (j_id j, j_allocation j)) jobs' = map (\<lambda>j. (j_id j, j_allocation j)) jobs"
    unfolding 1(1) by (rule map_update_key) simp
  have ids: "map j_id jobs' = map j_id jobs"
    unfolding 1(1) by (rule map_update_key) simp
  have mem: "p' \<in> set jobs' \<longleftrightarrow> (\<exists>p\<in>set jobs. p' = (if j_id p = i then ?f p else p))" for p'
    unfolding 1(1) by (auto simp: jobs.in_upd)
  show "all_sharing jobs'"
    using d pos by (auto simp: all_sharing_def ids mem)
  show "sum_list (map claims_since jobs') = sum_list (map claims_since jobs) + 1"
    using jobs.sum_upd [OF d 1(2), of "\<lambda>_. True" claims_since ?f] up
    by (simp add: sum_where_def 1(1))
  show "close_together jobs'" if close: "close_together jobs"
    unfolding close_together_def
  proof (intro ballI)
    fix p' q' assume "p' \<in> set jobs'" "q' \<in> set jobs'"
    then obtain p q where p: "p \<in> set jobs" "p' = (if j_id p = i then ?f p else p)"
      and q: "q \<in> set jobs" "q' = (if j_id q = i then ?f q else q)"
      by (auto simp: mem)
    have same: "x = j" if "x \<in> set jobs" "j_id x = i" for x
      using distinct_map_inj_eq [OF d that(1), of j] J that(2) by simp
    have pj: "(0::real) < of_int (j_allocation j)" using pos J by simp
    have fj: "ratio_of (?f j) = one_more j" "j_allocation (?f j) = j_allocation j"
      using up by (simp_all add: ratio_of_def one_more_def)
    have "one_more (?f j) = one_more j + 1 / of_int (j_allocation j)"
      using up by (simp add: one_more_def add_divide_distrib)
    with pj have fj2: "one_more (?f j) \<ge> one_more j" by simp
    have q_up: "one_more q' \<ge> one_more q"
      using q same fj2 by auto
    show "ratio_of p' \<le> one_more q' + 1 / of_int (j_allocation p')"
    proof (cases "j_id p = i")
      case False
      then have "ratio_of p \<le> one_more q + 1 / of_int (j_allocation p)"
        using close p(1) q(1) by (simp add: close_together_def)
      with p(2) False q_up show ?thesis by simp
    next
      case True
      then have pj': "p = j" using same p(1) by simp
      show ?thesis
      proof (cases "j_id q = i")
        case True
        then have "q = j" using same q(1) by simp
        with pj' p(2) q(2) True fj fj2 pj show ?thesis by (simp add: add_increasing2)
      next
        case False
        with 1(4) q(1) have "j_id q \<in> set rivals" by blast
        with outrun_False [OF 1(2) _ d] 1(3) pos J q(1) have "ratio_of j \<le> one_more q" by blast
        with pj' p(2) q(2) True False fj show ?thesis by (simp add: one_more_eq)
      qed
    qed
  qed
qed

lemma turns_keep:
  assumes "rtranclp turn jobs jobs'" "all_sharing jobs" "close_together jobs"
  shows "all_sharing jobs'" "close_together jobs'"
    "map (\<lambda>j. (j_id j, j_allocation j)) jobs' = map (\<lambda>j. (j_id j, j_allocation j)) jobs"
  using assms by (induction rule: rtranclp_induct) (auto dest: turn_keeps)

lemma sum_list_bound:
  fixes f g :: "'a \<Rightarrow> real"
  shows "(\<And>x. x \<in> set xs \<Longrightarrow> f x \<le> g x) \<Longrightarrow> sum_list (map f xs) \<le> sum_list (map g xs)"
  by (induction xs) (auto intro: add_mono)

lemma of_int_sum_list: "of_int (sum_list (map f xs)) = sum_list (map (\<lambda>x. of_int (f x) :: real) xs)"
  by (induction xs) simp_all

lemma clear_fractions:
  fixes a b :: real
  assumes "a \<noteq> 0" "b \<noteq> 0"
  shows "(x / b) * (b * a) = x * a" "((x + 1) / a + 1 / b) * (b * a) = (x + 1) * b + a"
  using assms by (simp_all add: field_simps)

lemma close_shares:
  assumes s: "all_sharing jobs" and c: "close_together jobs" and j: "j \<in> set jobs"
  defines "A \<equiv> of_int (sum_list (map j_allocation jobs)) :: real"
    and "N \<equiv> of_int (sum_list (map claims_since jobs)) :: real"
    and "a \<equiv> of_int (j_allocation j) :: real"
  shows "A > 0" "\<bar>of_int (claims_since j) * A - a * N\<bar> \<le> A + real (length jobs) * a"
proof -
  let ?n = "\<lambda>q. of_int (claims_since q) :: real" and ?a = "\<lambda>q. of_int (j_allocation q) :: real"
  have pos: "?a q > 0" if "q \<in> set jobs" for q
    using s that by (simp add: all_sharing_def)
  have a: "a > 0" using pos [OF j] by (simp add: a_def)
  have A: "A = sum_list (map ?a jobs)" and N: "N = sum_list (map ?n jobs)"
    by (simp_all add: A_def N_def of_int_sum_list)
  have cross: "?n p * ?a q \<le> ?n q * ?a p + ?a p + ?a q" if "p \<in> set jobs" "q \<in> set jobs" for p q
  proof -
    have "?n p / ?a p \<le> (?n q + 1) / ?a q + 1 / ?a p"
      using c that by (simp add: close_together_def ratio_of_def one_more_def)
    then have "(?n p / ?a p) * (?a p * ?a q) \<le> ((?n q + 1) / ?a q + 1 / ?a p) * (?a p * ?a q)"
      using mult_pos_pos [OF pos [OF that(1)] pos [OF that(2)]] by (intro mult_right_mono) simp_all
    moreover have "(?n p / ?a p) * (?a p * ?a q) = ?n p * ?a q"
      "((?n q + 1) / ?a q + 1 / ?a p) * (?a p * ?a q) = (?n q + 1) * ?a p + ?a q"
      using pos [OF that(1)] pos [OF that(2)] clear_fractions [of "?a q" "?a p"]
      by (simp_all only: less_irrefl)
    ultimately show ?thesis by (simp only: distrib_right mult_1)
  qed
  have "sum_list (map ?a jobs) \<ge> ?a j"
    using j pos by (intro member_le_sum_list) (auto intro: less_imp_le)
  then show "A > 0" using a by (simp add: A a_def)
  have up: "sum_list (map (\<lambda>q. ?n j * ?a q) jobs) \<le> sum_list (map (\<lambda>q. ?n q * a + a + ?a q) jobs)"
    unfolding a_def by (rule sum_list_bound) (rule cross [OF j])
  have down: "sum_list (map (\<lambda>q. ?n q * a) jobs) \<le> sum_list (map (\<lambda>q. ?n j * ?a q + ?a q + a) jobs)"
    unfolding a_def by (rule sum_list_bound) (rule cross [OF _ j])
  have "sum_list (map (\<lambda>q. ?n j * ?a q) jobs) = ?n j * A"
    "sum_list (map (\<lambda>q. ?n q * a) jobs) = N * a"
    "sum_list (map (\<lambda>q. ?n q * a + a + ?a q) jobs) = N * a + real (length jobs) * a + A"
    "sum_list (map (\<lambda>q. ?n j * ?a q + ?a q + a) jobs) = ?n j * A + A + real (length jobs) * a"
    by (simp_all add: A N sum_list_addf sum_list_const_mult sum_list_mult_const sum_list_triv)
  with up down show "\<bar>of_int (claims_since j) * A - a * N\<bar> \<le> A + real (length jobs) * a"
    by (simp add: algebra_simps)
qed


definition example_jobs :: "job_row list" where
  "example_jobs = [example_job\<lparr>j_allocation := 75\<rparr>, example_job\<lparr>j_id := 2, j_allocation := 25\<rparr>]"

lemma example_turn: "turn example_jobs
  (update_key j_id 1 (issue_to_job example_jobs example_standing True 0) example_jobs)"
  by (rule turn.intros [where rivals = "[2]" and busy = "[]" and j = "example_job\<lparr>j_allocation := 75\<rparr>"])
    (simp_all add: example_jobs_def row_with_def example_job_def outrun_def le_least_def sql_min_def
      ratio_of_def claims_since_def stale_def latest_claim_def others_def somes_def offered_def settling_def)


text \<open>Some job can always be claimed.  In any state of the jobs, the first of the candidates read in
  that state passes the turn check against the other candidates, found busy or not: a worker whose
  candidates were all outrun read its list before other claims, and a fresh list has one that is
  not.\<close>

theorem first_candidate_may_be_claimed:
  assumes "distinct (map j_id jobs)" and "candidate_jobs jobs caps = h # rest"
    and "set rivals \<subseteq> j_id ` set (h # rest)" and "set busy \<subseteq> j_id ` set (h # rest)"
  shows "outrun jobs (j_id h) rivals busy = Some False"
  using assms by (rule first_candidate_not_outrun)

theorem first_candidate_may_be_claimed_witness:
  "outrun example_jobs 1 [2] [2] = Some False"
proof -
  have "candidate_jobs example_jobs example_caps =
      [example_job\<lparr>j_allocation := 75\<rparr>, example_job\<lparr>j_id := 2, j_allocation := 25\<rparr>]"
    by (simp add: candidate_jobs_def example_jobs_def is_candidate_def offered_def example_caps_def
      min_magpie_version_def example_job_def ratio_of_def claims_since_def version_le_lex)
  from first_candidate_may_be_claimed [OF _ this, of "[2]" "[2]"] show ?thesis
    by (simp add: example_jobs_def)
qed

end
