(* ===== verification/Match_Test.thy ===== *)
theory Match_Test
  imports Complex_Main Outcomes Text
begin

text \<open>
  \<open>stats/match_test.rs\<close>: the interval for player 1's score that a job's test keeps, and what it
  decides.  Doubles are exact reals; an interval before any unit is played, which the code gives an
  infinite half-width, is clipped to the whole range of scores.
\<close>

datatype test_status = Test_running | Player1_better | Player2_better | Inconclusive

definition is_finished :: "test_status \<Rightarrow> bool" where
  "is_finished s \<longleftrightarrow> s \<noteq> Test_running"

fun test_status_as_str :: "test_status \<Rightarrow> ustr" where
  "test_status_as_str Test_running = lit ''running''"
| "test_status_as_str Player1_better = lit ''player1_better''"
| "test_status_as_str Player2_better = lit ''player2_better''"
| "test_status_as_str Inconclusive = lit ''inconclusive''"

record test_result =
  tr_mean :: real
  tr_lower :: real
  tr_upper :: real
  tr_confidence_pct :: real
  tr_status :: test_status

datatype test_unit = Game_unit | Pair_unit

definition tuning_units :: "int \<Rightarrow> int \<Rightarrow> real" where
  "tuning_units min_units max_units = sqrt (of_int (max min_units 1) * of_int (max max_units 1))"

fun planning_variance :: "test_unit \<Rightarrow> real" where
  "planning_variance Game_unit = 0.25"
| "planning_variance Pair_unit = 0.0625"

definition rho_squared :: "real \<Rightarrow> real \<Rightarrow> real \<Rightarrow> real" where
  "rho_squared alpha n_star variance =
     (let log_alpha = ln alpha
      in (-2 * log_alpha + ln (-2 * log_alpha + 1)) / (n_star * variance))"

text \<open>\<open>None\<close> for the infinite half-width of no unit.\<close>

definition half_width :: "int \<Rightarrow> real \<Rightarrow> real \<Rightarrow> real \<Rightarrow> real option" where
  "half_width n variance alpha rho2 =
     (if n = 0 then None
      else
        let x = of_int n * max variance 0 * rho2 + 1
        in Some (sqrt (2 * x / (of_int n * of_int n * rho2) * ln (sqrt x / alpha))))"

definition decide_test :: "int \<Rightarrow> int \<Rightarrow> int \<Rightarrow> real \<Rightarrow> real \<Rightarrow> test_status" where
  "decide_test n min_units max_units lower upper =
     (if n < min_units then (if n \<ge> max_units then Inconclusive else Test_running)
      else if lower > 0.5 then Player1_better
      else if upper < 0.5 then Player2_better
      else if n \<ge> max_units then Inconclusive
      else Test_running)"

definition evaluate :: "sample \<Rightarrow> test_unit \<Rightarrow> int \<Rightarrow> real \<Rightarrow> int \<Rightarrow> int \<Rightarrow> test_result" where
  "evaluate sample unit units_completed confidence_pct min_units max_units =
     (let alpha = 1 - confidence_pct / 100;
          rho2 = rho_squared alpha (tuning_units min_units max_units) (planning_variance unit);
          width = half_width (sa_n sample) (sa_variance sample) alpha rho2;
          mean = (if sa_n sample = 0 then 0.5 else sa_mean sample);
          lower = (case width of None \<Rightarrow> 0 | Some w \<Rightarrow> max (mean - w) 0);
          upper = (case width of None \<Rightarrow> 1 | Some w \<Rightarrow> min (mean + w) 1)
      in \<lparr>tr_mean = mean, tr_lower = lower, tr_upper = upper, tr_confidence_pct = confidence_pct,
          tr_status = decide_test units_completed min_units max_units lower upper\<rparr>)"

end
