(* ===== verification/Leave_Merge.thy ===== *)
theory Leave_Merge
  imports Claims Leaves
begin

text \<open>
  \<open>jobs/leave_gen.rs\<close>: merging what submissions staged into the racks of their generation, and when a
  claim asks for a merge.  \<open>hashtext\<close>, which slices the racks, and whether a lock was free are
  parameters.
\<close>

section \<open>Merging what is staged\<close>

fun f64_plus :: "f64 \<Rightarrow> f64 \<Rightarrow> f64" where
  "f64_plus (Fin x) (Fin y) = Fin (x + y)"
| "f64_plus NaN y = NaN"
| "f64_plus x NaN = NaN"
| "f64_plus PInf NInf = NaN"
| "f64_plus NInf PInf = NaN"
| "f64_plus PInf y = PInf"
| "f64_plus NInf y = NInf"
| "f64_plus x y = y"

definition f64_sum :: "f64 list \<Rightarrow> f64" where
  "f64_sum xs = foldl f64_plus (Fin 0) xs"

definition MERGE_RACKS_PER_PASS :: int where "MERGE_RACKS_PER_PASS = 400000"

record merge_outcome =
  mo_folds_merged :: int
  mo_racks_updated :: int

text \<open>The three arrays of each row, unnested side by side.\<close>

definition staged_elements :: "staging_row list \<Rightarrow> (ustr \<times> int \<times> f64) list" where
  "staged_elements rows =
     concat (map (\<lambda>s. zip (sr_racks s) (zip (sr_counts s) (sr_equity_sums s))) rows)"

text \<open>\<open>hashtext(u.rack) & 2147483647\<close>, of a 32-bit hash, is its value modulo \<open>2^31\<close>.\<close>

definition in_slice :: "(ustr \<Rightarrow> int) \<Rightarrow> int \<Rightarrow> int \<Rightarrow> ustr \<Rightarrow> bool" where
  "in_slice hashtext passes pass rack \<longleftrightarrow>
     passes = 1 \<or> (hashtext rack mod 2147483648) mod passes = pass"

text \<open>\<open>GROUP BY u.rack\<close> over the elements of one slice.\<close>

definition slice_of ::
  "(ustr \<Rightarrow> int) \<Rightarrow> int \<Rightarrow> int \<Rightarrow> (ustr \<times> int \<times> f64) list \<Rightarrow> (ustr \<times> int \<times> f64) list" where
  "slice_of hashtext passes pass elements = filter (\<lambda>e. in_slice hashtext passes pass (fst e)) elements"

definition counts_in :: "(ustr \<times> int \<times> f64) list \<Rightarrow> ustr \<Rightarrow> int" where
  "counts_in elements rack = sum_list (map (fst \<circ> snd) (filter (\<lambda>e. fst e = rack) elements))"

definition sums_in :: "(ustr \<times> int \<times> f64) list \<Rightarrow> ustr \<Rightarrow> f64" where
  "sums_in elements rack = f64_sum (map (snd \<circ> snd) (filter (\<lambda>e. fst e = rack) elements))"

definition folded :: "(ustr \<times> int \<times> f64) list \<Rightarrow> (ustr \<times> int \<times> f64) list" where
  "folded elements = map (\<lambda>rack. (rack, counts_in elements rack, sums_in elements rack))
     (remdups (map fst elements))"

definition of_generation :: "nat \<Rightarrow> int \<Rightarrow> rack_row \<Rightarrow> bool" where
  "of_generation job_id generation p \<longleftrightarrow> rp_job_id p = job_id \<and> rp_generation p = generation"

definition generation_racks :: "leave_store \<Rightarrow> nat \<Rightarrow> int \<Rightarrow> rack_row list" where
  "generation_racks lv job_id generation = filter (of_generation job_id generation) (lv_racks lv)"

text \<open>The \<open>UPDATE ... FROM folded\<close>: a rack with no row changes nothing.\<close>

definition apply_fold :: "nat \<Rightarrow> int \<Rightarrow> (ustr \<times> int \<times> f64) list \<Rightarrow> rack_row \<Rightarrow> rack_row" where
  "apply_fold job_id generation totals p =
     (if of_generation job_id generation p then
        case map_of totals (rp_rack p) of
          None \<Rightarrow> p
        | Some (n, e) \<Rightarrow> p\<lparr>rp_count := rp_count p + n, rp_equity_sum := f64_plus (rp_equity_sum p) e\<rparr>
      else p)"

text \<open>A sum or a count past \<open>bigint\<close> fails the statement.\<close>

definition overflows :: "(ustr \<times> int \<times> f64) list \<Rightarrow> rack_row list \<Rightarrow> bool" where
  "overflows totals rows \<longleftrightarrow>
     list_ex (\<lambda>e. \<not> in_i64 (fst (snd e))) totals \<or> list_ex (\<lambda>p. \<not> in_i64 (rp_count p)) rows"

definition racks_hit :: "nat \<Rightarrow> int \<Rightarrow> (ustr \<times> int \<times> f64) list \<Rightarrow> rack_row list \<Rightarrow> int" where
  "racks_hit job_id generation totals rows =
     count_where (\<lambda>p. of_generation job_id generation p \<and> rp_rack p \<in> set (map fst totals)) rows"

fun merge_passes ::
  "(ustr \<Rightarrow> int) \<Rightarrow> nat \<Rightarrow> int \<Rightarrow> (ustr \<times> int \<times> f64) list \<Rightarrow> int \<Rightarrow> int list \<Rightarrow> rack_row list \<Rightarrow>
    (rack_row list \<times> int) app_result" where
  "merge_passes hashtext job_id generation elements passes [] rows = Inr (rows, 0)"
| "merge_passes hashtext job_id generation elements passes (pass # rest) rows =
     (let totals = folded (slice_of hashtext passes pass elements);
          rows' = map (apply_fold job_id generation totals) rows
      in if overflows totals rows' then Inl (Internal ''bigint out of range'')
         else and_then (merge_passes hashtext job_id generation elements passes rest rows')
           (\<lambda>(rows'', updated). Inr (rows'', racks_hit job_id generation totals rows + updated)))"

text \<open>\<open>((universe + per_pass - 1) / per_pass).clamp(1, i32::MAX)\<close>, and no pass when nothing is staged.\<close>

definition passes_for :: "int \<Rightarrow> int \<Rightarrow> int" where
  "passes_for universe racks_per_pass =
     (let per_pass = max racks_per_pass 1 in max 1 (min i32_max ((universe + per_pass - 1) div per_pass)))"

definition universe_size :: "leave_store \<Rightarrow> nat \<Rightarrow> int \<Rightarrow> int" where
  "universe_size lv job_id generation =
     (case row_with generation_key (job_id, generation) (lv_generations lv) of
        Some g \<Rightarrow> if gn_merged_at g \<noteq> None then gn_racks_total g
          else int (length (generation_racks lv job_id generation))
      | None \<Rightarrow> int (length (generation_racks lv job_id generation)))"

text \<open>\<open>target_rack_counts[p.generation]\<close>: 1-based, NULL out of range.\<close>

definition sql_target :: "leave_config \<Rightarrow> int \<Rightarrow> int option" where
  "sql_target config generation =
     (if 1 \<le> generation \<and> nat generation \<le> length (lc_target_rack_counts config)
      then Some (lc_target_rack_counts config ! (nat generation - 1)) else None)"

definition lowest_rack :: "rack_row list \<Rightarrow> rack_row option" where
  "lowest_rack rows = (case sort_key rp_count rows of [] \<Rightarrow> None | p # _ \<Rightarrow> Some p)"

definition summary_of :: "leave_config option \<Rightarrow> int \<Rightarrow> rack_row list \<Rightarrow> int \<times> int" where
  "summary_of config generation rows =
     (case config of
        None \<Rightarrow> (0, 0)
      | Some c \<Rightarrow> (int (length rows), (case sql_target c generation of
            None \<Rightarrow> 0 | Some t \<Rightarrow> count_where (\<lambda>p. rp_count p \<ge> t) rows)))"

text \<open>\<open>config\<close> is the job's row of \<open>job_leave_config\<close>.\<close>

definition refresh_summary ::
  "leave_store \<Rightarrow> leave_config option \<Rightarrow> nat \<Rightarrow> int \<Rightarrow> time \<Rightarrow> leave_store" where
  "refresh_summary lv config job_id generation now =
     (let rows = generation_racks lv job_id generation;
          summary = summary_of config generation rows;
          lowest = lowest_rack rows;
          write = (\<lambda>g. g\<lparr>gn_racks_total := fst summary, gn_racks_at_target := snd summary,
            gn_min_rack := map_option rp_rack lowest, gn_min_rack_count := map_option rp_count lowest,
            gn_merged_at := Some now\<rparr>)
      in lv\<lparr>lv_generations := insert_or_update generation_key (job_id, generation)
        (write (new_generation job_id generation)) write (lv_generations lv)\<rparr>)"

definition summarised :: "leave_store \<Rightarrow> nat \<Rightarrow> int \<Rightarrow> bool" where
  "summarised lv job_id generation \<longleftrightarrow>
     list_ex (\<lambda>g. generation_key g = (job_id, generation) \<and> gn_merged_at g \<noteq> None) (lv_generations lv)"

definition staged_for :: "leave_store \<Rightarrow> nat \<Rightarrow> int \<Rightarrow> staging_row list" where
  "staged_for lv job_id generation =
     filter (\<lambda>s. sr_job_id s = job_id \<and> sr_generation s = generation) (lv_staging lv)"

text \<open>
  \<open>lock_free\<close> and \<open>turn_free\<close>: whether the job's merge lock, and one of the two turns to merge, could
  be had at once; a caller that waits gets both in the end.
\<close>

definition merge_staged_in_slices ::
  "(ustr \<Rightarrow> int) \<Rightarrow> leave_store \<Rightarrow> leave_config option \<Rightarrow> nat \<Rightarrow> int \<Rightarrow> bool \<Rightarrow> bool \<times> bool \<Rightarrow> int \<Rightarrow> time \<Rightarrow>
    (leave_store \<times> merge_outcome option) app_result" where
  "merge_staged_in_slices hashtext lv config job_id generation wait free racks_per_pass now =
     (if \<not> wait \<and> \<not> (fst free \<and> snd free) then Inr (lv, None)
      else
        let taken = staged_for lv job_id generation;
            passes = passes_for (universe_size lv job_id generation) racks_per_pass
        in and_then
          (if taken = [] then Inr (lv_racks lv, 0)
           else merge_passes hashtext job_id generation (staged_elements taken) passes
             [0..passes - 1] (lv_racks lv))
          (\<lambda>(racks, updated).
            let ids = map sr_id taken;
                merged = lv\<lparr>lv_racks := racks,
                  lv_staging := filter (\<lambda>s. sr_id s \<notin> set ids) (lv_staging lv)\<rparr>;
                outcome = \<lparr>mo_folds_merged = int (length taken), mo_racks_updated = updated\<rparr>
            in Inr (if mo_folds_merged outcome > 0 \<or> \<not> summarised lv job_id generation
                then refresh_summary merged config job_id generation now else merged,
              Some outcome)))"

definition merge_staged ::
  "(ustr \<Rightarrow> int) \<Rightarrow> leave_store \<Rightarrow> leave_config option \<Rightarrow> nat \<Rightarrow> int \<Rightarrow> bool \<Rightarrow> bool \<times> bool \<Rightarrow> time \<Rightarrow>
    (leave_store \<times> merge_outcome option) app_result" where
  "merge_staged hashtext lv config job_id generation wait free now =
     merge_staged_in_slices hashtext lv config job_id generation wait free MERGE_RACKS_PER_PASS now"

text \<open>
  Each merge commits on its own, so a failure keeps what the merges before it did.  \<open>free\<close> says of
  each merge whether its lock and a turn could be had.
\<close>

fun merge_generations ::
  "(ustr \<Rightarrow> int) \<Rightarrow> leave_config option \<Rightarrow> nat \<Rightarrow> bool \<Rightarrow> (int \<Rightarrow> bool \<times> bool) \<Rightarrow> time \<Rightarrow> int list \<Rightarrow>
    leave_store \<Rightarrow> merge_outcome \<Rightarrow> leave_store \<times> merge_outcome app_result" where
  "merge_generations hashtext config job_id wait free now [] lv total_outcome = (lv, Inr total_outcome)"
| "merge_generations hashtext config job_id wait free now (g # gs) lv total_outcome =
     (case merge_staged hashtext lv config job_id g wait (free g) now of
        Inl e \<Rightarrow> (lv, Inl e)
      | Inr (lv', outcome) \<Rightarrow>
          merge_generations hashtext config job_id wait free now gs lv'
            (case outcome of None \<Rightarrow> total_outcome | Some m \<Rightarrow>
              \<lparr>mo_folds_merged = mo_folds_merged total_outcome + mo_folds_merged m,
               mo_racks_updated = mo_racks_updated total_outcome + mo_racks_updated m\<rparr>))"

definition merge_staged_for_job ::
  "(ustr \<Rightarrow> int) \<Rightarrow> leave_store \<Rightarrow> leave_config option \<Rightarrow> nat \<Rightarrow> bool \<Rightarrow> (int \<Rightarrow> bool \<times> bool) \<Rightarrow> time \<Rightarrow>
    leave_store \<times> merge_outcome app_result" where
  "merge_staged_for_job hashtext lv config job_id wait free now =
     merge_generations hashtext config job_id wait free now
       (sort (remdups (map sr_generation (filter (\<lambda>s. sr_job_id s = job_id) (lv_staging lv))))) lv
       \<lparr>mo_folds_merged = 0, mo_racks_updated = 0\<rparr>"

text \<open>The periodic sweep over every job with anything staged; a job's failure is logged and passed over.\<close>

fun merge_jobs ::
  "(ustr \<Rightarrow> int) \<Rightarrow> (nat \<Rightarrow> leave_config option) \<Rightarrow> (nat \<Rightarrow> int \<Rightarrow> bool \<times> bool) \<Rightarrow> time \<Rightarrow> nat list \<Rightarrow>
    leave_store \<Rightarrow> int \<Rightarrow> leave_store \<times> int" where
  "merge_jobs hashtext configs free now [] lv folds = (lv, folds)"
| "merge_jobs hashtext configs free now (job_id # jobs) lv folds =
     (case merge_staged_for_job hashtext lv (configs job_id) job_id False (free job_id) now of
        (lv', Inr outcome) \<Rightarrow> merge_jobs hashtext configs free now jobs lv' (folds + mo_folds_merged outcome)
      | (lv', Inl e) \<Rightarrow> merge_jobs hashtext configs free now jobs lv' folds)"

definition merge_all_staged ::
  "(ustr \<Rightarrow> int) \<Rightarrow> leave_store \<Rightarrow> (nat \<Rightarrow> leave_config option) \<Rightarrow> (nat \<Rightarrow> int \<Rightarrow> bool \<times> bool) \<Rightarrow> time \<Rightarrow>
    leave_store \<times> int" where
  "merge_all_staged hashtext lv configs free now =
     merge_jobs hashtext configs free now (remdups (map sr_job_id (lv_staging lv))) lv 0"

section \<open>Merges asked for by claims\<close>

definition TAIL_MERGE_INTERVAL :: time where "TAIL_MERGE_INTERVAL = 60000000"

definition due :: "(nat \<rightharpoonup> time) \<Rightarrow> time \<Rightarrow> nat \<Rightarrow> bool \<times> (nat \<rightharpoonup> time)" where
  "due merges now job_id =
     (case merges job_id of
        Some started \<Rightarrow> if now - started < TAIL_MERGE_INTERVAL then (False, merges) else (True, merges(job_id \<mapsto> now))
      | None \<Rightarrow> (True, merges(job_id \<mapsto> now)))"

definition forget_tail_merge :: "(nat \<rightharpoonup> time) \<Rightarrow> nat \<Rightarrow> (nat \<rightharpoonup> time)" where
  "forget_tail_merge merges job_id = merges(job_id := None)"

end
