(* ===== verification/Leave_Gen.thy ===== *)
theory Leave_Gen
  imports Leave_Merge
begin

text \<open>
  \<open>jobs/leave_gen.rs\<close>: the generation claims are for, who owns its transition, choosing the racks of a
  task, and its request.  The collation racks are ordered by, the database's, is a sort key
  \<open>collate\<close>.
\<close>

section \<open>The generation claims are for\<close>

definition TRANSITION_TAKEOVER_AFTER :: time where "TRANSITION_TAKEOVER_AFTER = 1800000000"

definition release_orphaned_transitions :: "leave_store \<Rightarrow> leave_store \<times> int" where
  "release_orphaned_transitions lv =
     (let orphaned = (\<lambda>t. tr_completed_at t = None \<and> tr_started_at t > 0)
      in (lv\<lparr>lv_transitions := update_where orphaned (\<lambda>t. t\<lparr>tr_started_at := 0\<rparr>) (lv_transitions lv)\<rparr>,
          count_where orphaned (lv_transitions lv)))"

definition transition_in_progress :: "leave_store \<Rightarrow> nat \<Rightarrow> int \<Rightarrow> time \<Rightarrow> bool" where
  "transition_in_progress lv job_id generation now \<longleftrightarrow>
     list_ex (\<lambda>t. transition_key t = (job_id, generation) \<and> tr_completed_at t = None \<and>
       tr_started_at t \<ge> now - TRANSITION_TAKEOVER_AFTER) (lv_transitions lv)"

text \<open>Generation 0's artifact, the zeroed leaves generation 1 plays with, is not a completed generation.\<close>

definition completed_generations :: "leave_store \<Rightarrow> nat \<Rightarrow> int" where
  "completed_generations lv job_id =
     count_where (\<lambda>a. af_job_id a = job_id \<and> af_generation a \<ge> 1) (lv_artifacts lv)"

definition current_generation :: "leave_store \<Rightarrow> nat \<Rightarrow> leave_config \<Rightarrow> int option" where
  "current_generation lv job_id config =
     (let completed = completed_generations lv job_id
      in if completed < generation_count config then Some (as_i32 completed + 1) else None)"

section \<open>Choosing the racks of a task\<close>

datatype leave_gen_step =
    Step_Dispatch leave_request
  | Step_Transition int
  | Step_TransitionInProgress int
  | Step_Finished
  | Step_NeedsMerge int
  | Step_NoWorkYet

datatype selected = Selected_Racks "ustr list" | Selected_Step leave_gen_step

definition SWEEP_WHILE_TASKS_REMAIN :: int where "SWEEP_WHILE_TASKS_REMAIN = 100"

definition request_of_generation :: "leave_store \<Rightarrow> int \<Rightarrow> nat \<Rightarrow> bool" where
  "request_of_generation lv generation task_id \<longleftrightarrow>
     list_ex (\<lambda>r. lq_task_id r = task_id \<and> lq_generation r = generation) (lv_requests lv)"

definition open_claim_of :: "leave_store \<Rightarrow> nat \<Rightarrow> int \<Rightarrow> claim_row \<Rightarrow> bool" where
  "open_claim_of lv job_id generation c \<longleftrightarrow>
     c_job_id c = job_id \<and> c_state c = C_claimed \<and> request_of_generation lv generation (c_task_id c)"

text \<open>
  A claim's transaction holds the job's dispatch lock, so no other claim of the job commits while it
  selects; a submission, a declined or lapsed claim and a merge do.  Each statement sees what has
  committed before it: \<open>env k\<close> is what other transactions commit just before the statement
  \<open>k\<close>, from the tables of leave generation and the claims to the same.
\<close>

type_synonym leave_view = "leave_store \<times> claim_row list"
type_synonym commits = "nat \<Rightarrow> leave_view \<Rightarrow> leave_view"

definition no_commits :: commits where
  "no_commits = (\<lambda>k view. view)"

definition claims_in_flight :: "leave_view \<Rightarrow> nat \<Rightarrow> int \<Rightarrow> int" where
  "claims_in_flight view job_id generation =
     count_where (open_claim_of (fst view) job_id generation) (snd view)"

definition any_rack_below_target :: "leave_store \<Rightarrow> nat \<Rightarrow> int \<Rightarrow> leave_config \<Rightarrow> bool" where
  "any_rack_below_target lv job_id generation config \<longleftrightarrow>
     list_ex (\<lambda>p. rp_count p < target_for config generation) (generation_racks lv job_id generation)"

definition anything_staged :: "leave_store \<Rightarrow> nat \<Rightarrow> int \<Rightarrow> bool" where
  "anything_staged lv job_id generation \<longleftrightarrow> staged_for lv job_id generation \<noteq> []"

text \<open>The claims in flight are read first, what is staged after it.\<close>

definition nothing_to_hand_out ::
  "commits \<Rightarrow> nat \<Rightarrow> leave_view \<Rightarrow> nat \<Rightarrow> int \<Rightarrow> leave_view \<times> leave_gen_step option" where
  "nothing_to_hand_out env k view job_id generation =
     (let view1 = env k view
      in if claims_in_flight view1 job_id generation > 0 then (view1, Some Step_NoWorkYet)
         else
           let view2 = env (k + 1) view1
           in (view2, if anything_staged (fst view2) job_id generation
                      then Some (Step_NeedsMerge generation) else None))"

text \<open>The row of a transition that never finished is taken over once it is old enough.\<close>

definition may_take_over :: "time \<Rightarrow> transition_row \<Rightarrow> bool" where
  "may_take_over now t \<longleftrightarrow> tr_completed_at t = None \<and> tr_started_at t < now - TRANSITION_TAKEOVER_AFTER"

definition claim_transition ::
  "leave_store \<Rightarrow> nat \<Rightarrow> int \<Rightarrow> time \<Rightarrow> leave_store \<times> leave_gen_step" where
  "claim_transition lv job_id generation now =
     (case row_with transition_key (job_id, generation) (lv_transitions lv) of
        None \<Rightarrow> (lv\<lparr>lv_transitions := lv_transitions lv @ [\<lparr>tr_job_id = job_id,
            tr_generation = generation, tr_started_at = now, tr_completed_at = None, tr_attempts = 1\<rparr>]\<rparr>,
          Step_Transition generation)
      | Some t \<Rightarrow>
          if may_take_over now t then
            (lv\<lparr>lv_transitions := update_key transition_key (job_id, generation)
               (\<lambda>t. t\<lparr>tr_started_at := now, tr_attempts := tr_attempts t + 1\<rparr>) (lv_transitions lv)\<rparr>,
             Step_Transition generation)
          else (lv, Step_TransitionInProgress generation))"

definition below_target :: "leave_config \<Rightarrow> int \<Rightarrow> rack_row \<Rightarrow> bool" where
  "below_target config generation p \<longleftrightarrow> rp_count p < target_for config generation"

text \<open>The next racks of the lap, one more than a task holds read to learn whether any are left.\<close>

definition racks_after ::
  "(ustr \<Rightarrow> ustr) \<Rightarrow> leave_store \<Rightarrow> nat \<Rightarrow> int \<Rightarrow> leave_config \<Rightarrow> ustr \<Rightarrow> ustr list \<times> bool" where
  "racks_after collate lv job_id generation config after =
     (let per_task = nat (lc_racks_per_task config);
          racks = take (per_task + 1) (sort_key collate (map rp_rack (filter
            (\<lambda>p. collate (rp_rack p) > collate after \<and> below_target config generation p)
            (generation_racks lv job_id generation))))
      in (take per_task racks, length racks > per_task))"

definition last_rack :: "ustr list \<Rightarrow> ustr option" where
  "last_rack racks = (if racks = [] then None else Some (last racks))"

definition continue_lap ::
  "(ustr \<Rightarrow> ustr) \<Rightarrow> leave_store \<Rightarrow> nat \<Rightarrow> int \<Rightarrow> leave_config \<Rightarrow> ustr \<Rightarrow> leave_store \<times> selected option" where
  "continue_lap collate lv job_id generation config cursor =
     (let (racks, more) = racks_after collate lv job_id generation config cursor
      in if more then
           (lv\<lparr>lv_cursors := update_key cursor_key (job_id, generation)
              (\<lambda>c. c\<lparr>cu_rack := last_rack racks\<rparr>) (lv_cursors lv)\<rparr>,
            Some (Selected_Racks racks))
         else
           (lv\<lparr>lv_cursors := filter (\<lambda>c. cursor_key c \<noteq> (job_id, generation)) (lv_cursors lv)\<rparr>,
            if racks \<noteq> [] then Some (Selected_Racks racks) else None))"

definition set_cursor :: "leave_store \<Rightarrow> nat \<Rightarrow> int \<Rightarrow> ustr option \<Rightarrow> leave_store" where
  "set_cursor lv job_id generation rack = lv\<lparr>lv_cursors :=
     insert_or_update cursor_key (job_id, generation)
       \<lparr>cu_job_id = job_id, cu_generation = generation, cu_rack = rack\<rparr>
       (\<lambda>c. c\<lparr>cu_rack := rack\<rparr>) (lv_cursors lv)\<rparr>"

text \<open>The racks out now: forced by an open claim, or by a task whose result is staged.\<close>

definition racks_out :: "leave_view \<Rightarrow> nat \<Rightarrow> int \<Rightarrow> ustr list" where
  "racks_out view job_id generation =
     (let tasks = map c_task_id (filter (\<lambda>c. c_job_id c = job_id \<and> c_state c = C_claimed) (snd view))
      in concat (map lq_forced_racks (filter
           (\<lambda>r. lq_task_id r \<in> set tasks \<and> lq_generation r = generation) (lv_requests (fst view)))) @
         concat (map lq_forced_racks (filter
           (\<lambda>r. lq_task_id r \<in> set (map sr_task_id (staged_for (fst view) job_id generation)))
           (lv_requests (fst view)))))"

definition furthest_racks :: "leave_view \<Rightarrow> nat \<Rightarrow> int \<Rightarrow> leave_config \<Rightarrow> ustr list" where
  "furthest_racks view job_id generation config =
     map rp_rack (take (nat (lc_racks_per_task config)) (sort_key rp_count (filter
       (\<lambda>p. below_target config generation p \<and> rp_rack p \<notin> set (racks_out view job_id generation))
       (generation_racks (fst view) job_id generation))))"

definition furthest_below_target ::
  "commits \<Rightarrow> nat \<Rightarrow> leave_view \<Rightarrow> nat \<Rightarrow> int \<Rightarrow> leave_config \<Rightarrow> time \<Rightarrow> leave_view \<times> selected" where
  "furthest_below_target env k view job_id generation config now =
     (let view1 = env k view;
          racks = furthest_racks view1 job_id generation config
      in if racks \<noteq> [] then (view1, Selected_Racks racks)
         else case nothing_to_hand_out env (k + 1) view1 job_id generation of
           (view2, Some step) \<Rightarrow> (view2, Selected_Step step)
         | (view2, None) \<Rightarrow>
             let view3 = env (k + 3) view2
             in if any_rack_below_target (fst view3) job_id generation config
                then (view3, Selected_Step Step_NoWorkYet)
                else let (lv, step) = claim_transition (fst view3) job_id generation now
                  in ((lv, snd view3), Selected_Step step))"

text \<open>Starting a lap: \<open>''\<close> stands for the start of the universe.\<close>

definition sweep ::
  "(ustr \<Rightarrow> ustr) \<Rightarrow> commits \<Rightarrow> nat \<Rightarrow> leave_view \<Rightarrow> nat \<Rightarrow> int \<Rightarrow> leave_config \<Rightarrow> time \<Rightarrow>
    leave_view \<times> selected" where
  "sweep collate env k view job_id generation config now =
     (let view1 = env k view;
          (racks, more) = racks_after collate (fst view1) job_id generation config []
      in if racks = [] then
           let (lv, step) = claim_transition (fst view1) job_id generation now
           in ((lv, snd view1), Selected_Step step)
         else (if more then (set_cursor (fst view1) job_id generation (last_rack racks), snd view1) else view1,
               Selected_Racks racks))"

definition racks_below_target :: "leave_store \<Rightarrow> nat \<Rightarrow> int \<Rightarrow> int" where
  "racks_below_target lv job_id generation =
     (case row_with generation_key (job_id, generation) (lv_generations lv) of
        None \<Rightarrow> 0 | Some g \<Rightarrow> gn_racks_total g - gn_racks_at_target g)"

definition at_boundary ::
  "(ustr \<Rightarrow> ustr) \<Rightarrow> commits \<Rightarrow> nat \<Rightarrow> leave_view \<Rightarrow> nat \<Rightarrow> int \<Rightarrow> leave_config \<Rightarrow> time \<Rightarrow>
    leave_view \<times> selected" where
  "at_boundary collate env k view job_id generation config now =
     (case nothing_to_hand_out env k view job_id generation of
        (view1, Some step) \<Rightarrow> (view1, Selected_Step step)
      | (view1, None) \<Rightarrow>
          let view2 = env (k + 2) view1
          in if racks_below_target (fst view2) job_id generation
                 \<le> SWEEP_WHILE_TASKS_REMAIN * lc_racks_per_task config
             then furthest_below_target env (k + 3)
               (set_cursor (fst view2) job_id generation None, snd view2) job_id generation config now
             else sweep collate env (k + 3) view2 job_id generation config now)"

text \<open>Mid-lap, in the tail, or at a lap's boundary.\<close>

definition choose_racks ::
  "(ustr \<Rightarrow> ustr) \<Rightarrow> commits \<Rightarrow> leave_view \<Rightarrow> nat \<Rightarrow> int \<Rightarrow> leave_config \<Rightarrow> time \<Rightarrow>
    leave_view \<times> selected" where
  "choose_racks collate env view job_id generation config now =
     (case map_option cu_rack (row_with cursor_key (job_id, generation) (lv_cursors (fst view))) of
        Some (Some cursor) \<Rightarrow>
          let view1 = env 0 view
          in (case continue_lap collate (fst view1) job_id generation config cursor of
                (lv, Some chosen) \<Rightarrow> ((lv, snd view1), chosen)
              | (lv, None) \<Rightarrow>
                  at_boundary collate env 1 (lv, snd view1) job_id generation config now)
      | Some None \<Rightarrow> furthest_below_target env 0 view job_id generation config now
      | None \<Rightarrow> at_boundary collate env 0 view job_id generation config now)"

definition served_hash :: "artifact_row \<Rightarrow> ustr" where
  "served_hash a = (case af_served_sha256 a of Some h \<Rightarrow> h | None \<Rightarrow> af_sha256 a)"

text \<open>\<open>drawn_seed\<close>: the 64-bit seed drawn for the task.\<close>

definition next_step ::
  "(ustr \<Rightarrow> ustr) \<Rightarrow> commits \<Rightarrow> leave_view \<Rightarrow> nat \<Rightarrow> leave_config \<Rightarrow> job_data \<Rightarrow> player_spec \<Rightarrow>
    int \<Rightarrow> time \<Rightarrow> (leave_view \<times> leave_gen_step) app_result" where
  "next_step collate env view job_id config data player drawn_seed now =
     (case current_generation (fst view) job_id config of
        None \<Rightarrow> Inr (view, Step_Finished)
      | Some generation \<Rightarrow>
          (case choose_racks collate env view job_id generation config now of
             (view', Selected_Step step) \<Rightarrow> Inr (view', step)
           | (view', Selected_Racks racks) \<Rightarrow>
               and_then (ok_or (row_with artifact_row_key (job_id, generation - 1)
                     (lv_artifacts (fst view')))
                   (Internal ''no KLV to play the generation with'')) (\<lambda>previous.
                 Inr (view', Step_Dispatch \<lparr>lr_lexicon = ps_lexicon player, lr_variant = jd_variant data,
                   lr_letter_distribution = jd_letterdist_name data,
                   lr_board_layout = jd_layout_name data, lr_generation = generation,
                   lr_seed = drawn_seed, lr_forced_racks = racks,
                   lr_previous_artifact_key = af_key previous,
                   lr_previous_artifact_sha256 = served_hash previous,
                   lr_num_games = lc_num_iterations config, lr_bingo_bonus = jd_bingo_bonus data,
                   lr_player = player\<rparr>))))"

section \<open>The request of a task\<close>

definition insert_leave_request ::
  "leave_request_row list \<Rightarrow> nat \<Rightarrow> leave_request \<Rightarrow> nat \<Rightarrow> leave_request_row list" where
  "insert_leave_request rows task_id req player_config_id = rows @ [\<lparr>
     lq_task_id = task_id, lq_variant = lr_variant req,
     lq_letter_distribution = lr_letter_distribution req, lq_board_layout = lr_board_layout req,
     lq_generation = lr_generation req, lq_seed = as_i64 (lr_seed req),
     lq_forced_racks = lr_forced_racks req, lq_num_games = lr_num_games req,
     lq_previous_artifact_key = lr_previous_artifact_key req,
     lq_player_config_id = player_config_id\<rparr>]"

definition load_leave_request ::
  "leave_store \<Rightarrow> job_template \<Rightarrow> nat \<Rightarrow> leave_request app_result" where
  "load_leave_request lv template task_id =
     (case jt_kind template of
        Kind_LeaveGeneration config player \<Rightarrow>
          and_then (fetch_one (row_with lq_task_id task_id (lv_requests lv))) (\<lambda>row.
          and_then (fetch_one (row_with af_key (lq_previous_artifact_key row) (lv_artifacts lv))) (\<lambda>artifact.
            Inr \<lparr>lr_lexicon = ps_lexicon player, lr_variant = lq_variant row,
                 lr_letter_distribution = lq_letter_distribution row,
                 lr_board_layout = lq_board_layout row, lr_generation = lq_generation row,
                 lr_seed = as_u64 (lq_seed row), lr_forced_racks = lq_forced_racks row,
                 lr_previous_artifact_key = lq_previous_artifact_key row,
                 lr_previous_artifact_sha256 = served_hash artifact,
                 lr_num_games = lq_num_games row,
                 lr_bingo_bonus = jd_bingo_bonus (jt_data template), lr_player = player\<rparr>))
      | _ \<Rightarrow> Inl (mismatch ''leave_generation''))"

end
