(* ===== verification/Leave_Builds.thy ===== *)
theory Leave_Builds
  imports Leave_Gen
begin

text \<open>
  \<open>jobs/leave_gen.rs\<close>: writing a generation's universe of racks, closing a generation, and the KLV
  artifacts in the object store.  MAGPIE, which builds the files, the hash of their bytes, the
  spelling of a job's identifier and the object store's failures are the fields of \<open>klv_tools\<close>;
  bytes are lists of numbers.
\<close>

type_synonym bytes = "nat list"

record klv_tools =
  kt_rackequity2klv :: "letter_distribution \<Rightarrow> (ustr \<times> int \<times> f64) list \<Rightarrow> bytes app_result"
  kt_zero_klv :: "letter_distribution \<Rightarrow> bytes app_result"
  kt_sha256_hex :: "bytes \<Rightarrow> ustr"
  kt_builder :: ustr
  kt_show_uuid :: "nat \<Rightarrow> ustr"
  kt_put_fails :: "ustr \<Rightarrow> app_error option"

section \<open>The universe of a generation\<close>

definition LEAVE_RACK_SIZE :: nat where "LEAVE_RACK_SIZE = 7"

definition universe_exists :: "leave_store \<Rightarrow> nat \<Rightarrow> int \<Rightarrow> bool" where
  "universe_exists lv job_id generation \<longleftrightarrow> generation_racks lv job_id generation \<noteq> []"

definition SEED_CHUNK :: nat where "SEED_CHUNK = 50000"

function seed_chunks :: "rack_index \<Rightarrow> nat \<Rightarrow> nat \<Rightarrow> ustr list" where
  "seed_chunks idx count start =
     (if start < count
      then racks_in_enumeration_range idx start SEED_CHUNK @ seed_chunks idx count (start + SEED_CHUNK)
      else [])"
  by pat_completeness auto
termination by (relation "measure (\<lambda>(idx, count, start). count - start)") (auto simp: SEED_CHUNK_def)

declare seed_chunks.simps [simp del]

definition new_rack :: "nat \<Rightarrow> int \<Rightarrow> ustr \<Rightarrow> rack_row" where
  "new_rack job_id generation rack = \<lparr>rp_job_id = job_id, rp_generation = generation,
     rp_rack = rack, rp_count = 0, rp_equity_sum = Fin 0\<rparr>"

definition seed_generation ::
  "leave_store \<Rightarrow> nat \<Rightarrow> int \<Rightarrow> letter_distribution \<Rightarrow> time \<Rightarrow> (leave_store \<times> int) app_result" where
  "seed_generation lv job_id generation distribution now =
     and_then (rack_index_new distribution LEAVE_RACK_SIZE) (\<lambda>index.
       let count = rack_total index; total_racks = as_i64 (int count)
       in if universe_exists lv job_id generation then Inr (lv, total_racks)
          else
            let write = (\<lambda>g. g\<lparr>gn_racks_total := total_racks, gn_merged_at := Some now\<rparr>)
            in Inr (lv\<lparr>
              lv_racks := lv_racks lv @ map (new_rack job_id generation) (seed_chunks index count 0),
              lv_generations := insert_or_update generation_key (job_id, generation)
                (write (new_generation job_id generation)) write (lv_generations lv)\<rparr>, total_racks))"

definition ensure_universe ::
  "leave_store \<Rightarrow> nat \<Rightarrow> int \<Rightarrow> letter_distribution \<Rightarrow> time \<Rightarrow> leave_store app_result" where
  "ensure_universe lv job_id generation distribution now =
     and_then (seed_generation lv job_id generation distribution now) (\<lambda>(lv', n). Inr lv')"

section \<open>KLV files\<close>

definition artifact_key :: "klv_tools \<Rightarrow> nat \<Rightarrow> int \<Rightarrow> ustr" where
  "artifact_key tools job_id generation =
     lit ''leaves/'' @ kt_show_uuid tools job_id @ lit ''/generation-'' @ show_int generation @ lit ''.klv2''"

definition equity_row :: "rack_row \<Rightarrow> ustr \<times> int \<times> f64" where
  "equity_row p = (rp_rack p, rp_count p, rp_equity_sum p)"

text \<open>The rows are streamed in rack order, and counted against the distribution's full racks.\<close>

definition generation_klv ::
  "klv_tools \<Rightarrow> (ustr \<Rightarrow> ustr) \<Rightarrow> leave_store \<Rightarrow> nat \<Rightarrow> int \<Rightarrow> letter_distribution \<Rightarrow> bytes app_result" where
  "generation_klv tools collate lv job_id generation distribution =
     (let rows = sort_key (\<lambda>p. collate (rp_rack p)) (generation_racks lv job_id generation)
      in and_then (rack_index_new distribution LEAVE_RACK_SIZE) (\<lambda>index.
           if length rows \<noteq> rack_total index
           then Inl (Internal ''progress rows do not cover the full racks'')
           else kt_rackequity2klv tools distribution (map equity_row rows)))"

type_synonym object_store = "ustr \<rightharpoonup> bytes"

definition put_object :: "klv_tools \<Rightarrow> object_store \<Rightarrow> ustr \<Rightarrow> bytes \<Rightarrow> object_store app_result" where
  "put_object tools store key body =
     (case kt_put_fails tools key of Some e \<Rightarrow> Inl e | None \<Rightarrow> Inr (store(key \<mapsto> body)))"

section \<open>Closing a generation\<close>

definition new_artifact :: "nat \<Rightarrow> int \<Rightarrow> ustr \<Rightarrow> ustr \<Rightarrow> ustr \<Rightarrow> artifact_row" where
  "new_artifact job_id generation key sha256 builder = \<lparr>af_job_id = job_id,
     af_generation = generation, af_key = key, af_sha256 = sha256, af_served_sha256 = None,
     af_builder = builder\<rparr>"

text \<open>\<open>ON CONFLICT (job_id, generation) DO NOTHING\<close>.\<close>

definition insert_artifact :: "artifact_row \<Rightarrow> artifact_row list \<Rightarrow> artifact_row list" where
  "insert_artifact a rows =
     (case row_with artifact_row_key (artifact_row_key a) rows of None \<Rightarrow> rows @ [a] | Some _ \<Rightarrow> rows)"

definition audit_completion :: "db \<Rightarrow> nat \<Rightarrow> ustr option \<Rightarrow> db" where
  "audit_completion db job_id reason =
     db\<lparr>db_audit := log_server_completion job_id reason (db_audit db)\<rparr>"

definition complete_job :: "job_row \<Rightarrow> job_row" where
  "complete_job j = j\<lparr>j_status := Completed, j_allocation := 0\<rparr>"

definition complete_active_job :: "db \<Rightarrow> nat \<Rightarrow> ustr option \<Rightarrow> db" where
  "complete_active_job db job_id reason =
     (if list_ex (\<lambda>j. j_id j = job_id \<and> j_status j = Active) (db_jobs db)
      then audit_completion (db\<lparr>db_jobs := update_where
        (\<lambda>j. j_id j = job_id \<and> j_status j = Active) complete_job (db_jobs db)\<rparr>) job_id reason
      else db)"

definition open_transition :: "nat \<Rightarrow> int \<Rightarrow> transition_row \<Rightarrow> bool" where
  "open_transition job_id generation t \<longleftrightarrow>
     transition_key t = (job_id, generation) \<and> tr_completed_at t = None"

definition close_generation ::
  "leave_store \<Rightarrow> db \<Rightarrow> nat \<Rightarrow> int \<Rightarrow> ustr \<Rightarrow> ustr \<Rightarrow> ustr \<Rightarrow> leave_config \<Rightarrow> time \<Rightarrow>
    (leave_store \<times> db) app_result" where
  "close_generation lv db job_id generation key sha256 builder config now =
     (if \<not> list_ex (open_transition job_id generation) (lv_transitions lv)
      then Inl (Internal ''purged or closed by someone else while its transition ran'')
      else
        let lv1 = lv\<lparr>
              lv_transitions := update_where (open_transition job_id generation)
                (\<lambda>t. t\<lparr>tr_completed_at := Some now\<rparr>) (lv_transitions lv),
              lv_artifacts := insert_artifact (new_artifact job_id generation key sha256 builder)
                (lv_artifacts lv),
              lv_cursors := filter (\<lambda>c. cursor_key c \<noteq> (job_id, generation)) (lv_cursors lv)\<rparr>
        in Inr (lv1, if generation \<ge> generation_count config
                     then complete_active_job db job_id (Some (lit ''last generation built'')) else db))"

text \<open>
  The merge, the upload and the close are committed one after the other: a failure keeps what came
  before it.
\<close>

definition run_transition ::
  "klv_tools \<Rightarrow> (ustr \<Rightarrow> ustr) \<Rightarrow> (ustr \<Rightarrow> int) \<Rightarrow> leave_store \<Rightarrow> db \<Rightarrow> object_store \<Rightarrow> nat \<Rightarrow> int \<Rightarrow>
    leave_config \<Rightarrow> letter_distribution \<Rightarrow> time \<Rightarrow>
    (leave_store \<times> db \<times> object_store) \<times> ustr app_result" where
  "run_transition tools collate hashtext lv db store job_id generation config distribution now =
     (case merge_staged hashtext lv (Some config) job_id generation True (True, True) now of
        Inl e \<Rightarrow> ((lv, db, store), Inl e)
      | Inr (lv1, outcome) \<Rightarrow>
          (case generation_klv tools collate lv1 job_id generation distribution of
             Inl e \<Rightarrow> ((lv1, db, store), Inl e)
           | Inr klv \<Rightarrow>
               let key = artifact_key tools job_id generation
               in (case put_object tools store key klv of
                     Inl e \<Rightarrow> ((lv1, db, store), Inl e)
                   | Inr store1 \<Rightarrow>
                       (case close_generation lv1 db job_id generation key (kt_sha256_hex tools klv)
                              (kt_builder tools) config now of
                          Inl e \<Rightarrow> ((lv1, db, store1), Inl e)
                        | Inr (lv2, db2) \<Rightarrow> ((lv2, db2, store1), Inr key)))))"

definition seed_zero_generation ::
  "klv_tools \<Rightarrow> leave_store \<Rightarrow> object_store \<Rightarrow> nat \<Rightarrow> letter_distribution \<Rightarrow>
    (leave_store \<times> object_store \<times> ustr) app_result" where
  "seed_zero_generation tools lv store job_id distribution =
     and_then (kt_zero_klv tools distribution) (\<lambda>klv.
       let key = artifact_key tools job_id 0
       in and_then (put_object tools store key klv) (\<lambda>store1.
         Inr (lv\<lparr>lv_artifacts := insert_artifact (new_artifact job_id 0 key (kt_sha256_hex tools klv)
                (kt_builder tools)) (lv_artifacts lv)\<rparr>, store1, key)))"

section \<open>Checking and rebuilding the artifacts\<close>

record artifact_rebuild =
  ar_generation :: int
  ar_artifact_key :: ustr
  ar_stored_sha256 :: ustr
  ar_served_sha256 :: ustr
  ar_object_sha256 :: "ustr option"
  ar_object_accounted_for :: bool
  ar_rebuilt_sha256 :: ustr
  ar_matches :: bool
  ar_same_builder :: bool
  ar_stored_builder :: ustr
  ar_rebuilt_builder :: ustr
  ar_object_present :: bool
  ar_rewritten :: bool

text \<open>\<open>NULLIF($3, sha256)\<close>, onto the row as this check read it.\<close>

definition serve :: "artifact_row \<Rightarrow> ustr \<Rightarrow> artifact_row list \<Rightarrow> artifact_row list" where
  "serve read served rows = update_where
     (\<lambda>a. artifact_row_key a = artifact_row_key read \<and> af_sha256 a = af_sha256 read \<and>
       served_hash a = served_hash read)
     (\<lambda>a. a\<lparr>af_served_sha256 := (if served = af_sha256 a then None else Some served)\<rparr>) rows"

definition rebuilt_klv ::
  "klv_tools \<Rightarrow> (ustr \<Rightarrow> ustr) \<Rightarrow> leave_store \<Rightarrow> letter_distribution \<Rightarrow> artifact_row \<Rightarrow> bytes app_result" where
  "rebuilt_klv tools collate lv distribution a =
     (if af_generation a = 0 then kt_zero_klv tools distribution
      else generation_klv tools collate lv (af_job_id a) (af_generation a) distribution)"

definition accounted_for :: "artifact_row \<Rightarrow> ustr \<Rightarrow> ustr option \<Rightarrow> bool" where
  "accounted_for a rebuilt found = (case found of
     None \<Rightarrow> True | Some h \<Rightarrow> h = af_sha256 a \<or> h = rebuilt \<or> h = served_hash a)"

definition rebuild_artifact ::
  "klv_tools \<Rightarrow> (ustr \<Rightarrow> ustr) \<Rightarrow> letter_distribution \<Rightarrow> bool \<Rightarrow> artifact_row \<Rightarrow>
    leave_store \<Rightarrow> object_store \<Rightarrow> (leave_store \<times> object_store \<times> artifact_rebuild) app_result" where
  "rebuild_artifact tools collate distribution force a lv store =
     and_then (rebuilt_klv tools collate lv distribution a) (\<lambda>klv.
       let rebuilt = kt_sha256_hex tools klv;
           found = map_option (kt_sha256_hex tools) (store (af_key a));
           ok_object = accounted_for a rebuilt found;
           matches = (rebuilt = af_sha256 a);
           rewritten = (found = None \<or> force \<or> (\<not> ok_object \<and> matches))
       in and_then (if rewritten then put_object tools store (af_key a) klv else Inr store) (\<lambda>store1.
            let served = (if rewritten then Some rebuilt else if ok_object then found else None);
                lv1 = (case served of None \<Rightarrow> lv | Some h \<Rightarrow> lv\<lparr>lv_artifacts := serve a h (lv_artifacts lv)\<rparr>)
            in Inr (lv1, store1, \<lparr>ar_generation = af_generation a, ar_artifact_key = af_key a,
                 ar_stored_sha256 = af_sha256 a,
                 ar_served_sha256 = (case served of None \<Rightarrow> served_hash a | Some h \<Rightarrow> h),
                 ar_object_sha256 = found, ar_object_accounted_for = ok_object,
                 ar_rebuilt_sha256 = rebuilt, ar_matches = matches,
                 ar_same_builder = (af_builder a = kt_builder tools),
                 ar_stored_builder = af_builder a, ar_rebuilt_builder = kt_builder tools,
                 ar_object_present = (found \<noteq> None), ar_rewritten = rewritten\<rparr>)))"

text \<open>Each row's change is committed before the next is looked at; a failure stops the check.\<close>

fun rebuild_rows ::
  "klv_tools \<Rightarrow> (ustr \<Rightarrow> ustr) \<Rightarrow> letter_distribution \<Rightarrow> bool \<Rightarrow> artifact_row list \<Rightarrow>
    leave_store \<Rightarrow> object_store \<Rightarrow> artifact_rebuild list \<Rightarrow>
    leave_store \<times> object_store \<times> artifact_rebuild list app_result" where
  "rebuild_rows tools collate distribution force [] lv store report = (lv, store, Inr report)"
| "rebuild_rows tools collate distribution force (a # rows) lv store report =
     (case rebuild_artifact tools collate distribution force a lv store of
        Inl e \<Rightarrow> (lv, store, Inl e)
      | Inr (lv', store', line) \<Rightarrow>
          rebuild_rows tools collate distribution force rows lv' store' (report @ [line]))"

definition rebuild_artifacts ::
  "klv_tools \<Rightarrow> (ustr \<Rightarrow> ustr) \<Rightarrow> leave_store \<Rightarrow> object_store \<Rightarrow> nat \<Rightarrow> letter_distribution \<Rightarrow> bool \<Rightarrow>
    leave_store \<times> object_store \<times> artifact_rebuild list app_result" where
  "rebuild_artifacts tools collate lv store job_id distribution force =
     rebuild_rows tools collate distribution force
       (sort_key af_generation (filter (\<lambda>a. af_job_id a = job_id) (lv_artifacts lv))) lv store []"

end
