(* ===== verification/Finish.thy ===== *)
theory Finish
  imports Submit Match_Test Leave_Builds
begin

text \<open>
  When a job is done: \<open>jobstats.rs\<close>'s statistics that decide it, \<open>state.rs\<close>'s debounce of the check,
  \<open>jobs/mod.rs\<close>'s completion guarded against a purge, and \<open>routes/worker.rs\<close>'s finish check.  The
  statistics pushed to open pages are in \<open>Live\<close>.
\<close>

section \<open>Statistics of a games or pairs job\<close>

text \<open>\<open>SUM\<close> over \<open>float8\<close> products, and a mean over no game is NULL.\<close>

fun f64_div :: "f64 \<Rightarrow> int \<Rightarrow> f64" where
  "f64_div (Fin x) n = Fin (x / of_int n)"
| "f64_div PInf n = (if n > 0 then PInf else NInf)"
| "f64_div NInf n = (if n > 0 then NInf else PInf)"
| "f64_div NaN n = NaN"

fun f64_minus :: "f64 \<Rightarrow> f64 \<Rightarrow> f64" where
  "f64_minus x (Fin y) = f64_plus x (Fin (- y))"
| "f64_minus x PInf = f64_plus x NInf"
| "f64_minus x NInf = f64_plus x PInf"
| "f64_minus x NaN = NaN"

text \<open>\<open>SUM(games * mean) / NULLIF(SUM(games), 0)\<close>: an aggregate passes over NULLs.\<close>

definition both :: "'a option \<Rightarrow> 'b option \<Rightarrow> ('a \<times> 'b) option" where
  "both x y = (case (x, y) of (Some a, Some b) \<Rightarrow> Some (a, b) | _ \<Rightarrow> None)"

definition weighted_mean :: "(int option \<times> f64 option) list \<Rightarrow> f64 option" where
  "weighted_mean xs =
     (let counts = somes (map fst xs);
          products = somes (map (\<lambda>(games, mean). map_option (\<lambda>(n, x). f64_times x n) (both games mean)) xs)
      in if products = [] \<or> sum_list counts = 0 then None
         else Some (f64_div (f64_sum products) (sum_list counts)))"

record match_tally =
  mt_wins :: int
  mt_losses :: int
  mt_draws :: int
  mt_p1_score_mean :: "f64 option"
  mt_p2_score_mean :: "f64 option"
  mt_spread_mean :: "f64 option"

record test_decided =
  td_status :: ustr
  td_lower :: f64
  td_upper :: f64
  td_units :: int

record job_game_stats =
  gt_unit :: test_unit
  gt_tally :: tally
  gt_units_completed :: int
  gt_p1_score_mean :: "f64 option"
  gt_p2_score_mean :: "f64 option"
  gt_spread_mean :: "f64 option"
  gt_pentanomial :: "int list option"
  gt_divergent_pairs :: "int option"
  gt_divergent :: "match_tally option"
  gt_min_units :: int
  gt_max_units :: int
  gt_test :: "test_result option"
  gt_decided :: "test_decided option"

definition spread :: "f64 option \<Rightarrow> f64 option \<Rightarrow> f64 option" where
  "spread p1 p2 = map_option (\<lambda>(a, b). f64_minus a b) (both p1 p2)"

text \<open>The column's CHECK keeps a confidence between 50 and 100.\<close>

fun finite_pct :: "f64 \<Rightarrow> real" where
  "finite_pct (Fin p) = p"
| "finite_pct _ = 95"

definition build_game_stats ::
  "test_unit \<Rightarrow> tally \<Rightarrow> sample \<Rightarrow> int \<Rightarrow> f64 option \<times> f64 option \<Rightarrow> int list option \<Rightarrow> int option \<Rightarrow>
    test_params \<Rightarrow> job_game_stats" where
  "build_game_stats unit tally sample units_completed scores pentanomial divergent_pairs params =
     \<lparr>gt_unit = unit, gt_tally = tally, gt_units_completed = units_completed,
      gt_p1_score_mean = fst scores, gt_p2_score_mean = snd scores,
      gt_spread_mean = spread (fst scores) (snd scores), gt_pentanomial = pentanomial,
      gt_divergent_pairs = divergent_pairs, gt_divergent = None,
      gt_min_units = tp_min_units params, gt_max_units = tp_max_units params,
      gt_test = (if tp_enabled params
        then Some (evaluate sample unit units_completed (finite_pct (tp_confidence_pct params))
          (as_u64 (tp_min_units params)) (as_u64 (tp_max_units params)))
        else None),
      gt_decided = None\<rparr>"

definition results_of :: "game_result_row list \<Rightarrow> nat \<Rightarrow> game_result_row list" where
  "results_of results job_id = filter (\<lambda>r. gs_job_id r = job_id) results"

definition total_of :: "(game_result_row \<Rightarrow> int) \<Rightarrow> game_result_row list \<Rightarrow> int" where
  "total_of f rows = as_u64 (sum_list (map f rows))"

definition tally_of_rows :: "game_result_row list \<Rightarrow> tally" where
  "tally_of_rows rows = \<lparr>ta_wins = total_of gs_wins rows, ta_losses = total_of gs_losses rows,
     ta_draws = total_of gs_ties rows\<rparr>"

definition score_means :: "game_result_row list \<Rightarrow> f64 option \<times> f64 option" where
  "score_means rows =
     (weighted_mean (map (\<lambda>r. (Some (gs_games r), Some (gs_p1_score_mean r))) rows),
      weighted_mean (map (\<lambda>r. (Some (gs_games r), Some (gs_p2_score_mean r))) rows))"

definition plain_game_stats :: "game_result_row list \<Rightarrow> game_config \<Rightarrow> job_game_stats" where
  "plain_game_stats rows config =
     (let tally = tally_of_rows rows
      in build_game_stats Game_unit tally (from_games tally) (total_of gs_games rows)
           (score_means rows) None None (game_test_params config))"

definition null_sum :: "(game_result_row \<Rightarrow> int option) \<Rightarrow> game_result_row list \<Rightarrow> int" where
  "null_sum f rows = as_u64 (sum_list (somes (map f rows)))"

definition pent_column :: "nat \<Rightarrow> game_result_row \<Rightarrow> int option" where
  "pent_column i r = (case gs_pent r of None \<Rightarrow> None | Some c \<Rightarrow> Some (c ! i))"

definition divergent_column ::
  "(game_result_row \<Rightarrow> f64 option) \<Rightarrow> game_result_row list \<Rightarrow> (int option \<times> f64 option) list" where
  "divergent_column f rows = map (\<lambda>r. (gs_divergent_games r, f r)) rows"

definition divergent_tally :: "game_result_row list \<Rightarrow> match_tally" where
  "divergent_tally rows =
     (let p1 = weighted_mean (divergent_column gs_divergent_p1_score_mean rows);
          p2 = weighted_mean (divergent_column gs_divergent_p2_score_mean rows)
      in \<lparr>mt_wins = null_sum gs_divergent_wins rows, mt_losses = null_sum gs_divergent_losses rows,
          mt_draws = null_sum gs_divergent_ties rows, mt_p1_score_mean = p1, mt_p2_score_mean = p2,
          mt_spread_mean = spread p1 p2\<rparr>)"

definition game_pair_stats :: "game_result_row list \<Rightarrow> game_pair_config \<Rightarrow> job_game_stats" where
  "game_pair_stats rows config =
     (let counts = map (\<lambda>i. null_sum (pent_column i) rows) [0, 1, 2, 3, 4]
      in (build_game_stats Pair_unit (tally_of_rows rows) (from_pentanomial counts) (pairs_count counts)
            (score_means rows) (Some counts) (Some (null_sum gs_divergent_games rows div 2))
            (game_pair_test_params config))\<lparr>gt_divergent := Some (divergent_tally rows)\<rparr>)"

definition decided_of :: "'a job_scheme \<Rightarrow> test_decided option" where
  "decided_of j = (case (j_test_decided_status j, j_test_decided_lower j, j_test_decided_upper j,
       j_test_decided_units j) of
     (Some s, Some l, Some u, Some n) \<Rightarrow> Some \<lparr>td_status = s, td_lower = l, td_upper = u, td_units = n\<rparr>
   | _ \<Rightarrow> None)"

definition game_stats ::
  "catalogue \<Rightarrow> game_result_row list \<Rightarrow> 'a job_scheme \<Rightarrow> job_game_stats option app_result" where
  "game_stats cat results j =
     (let rows = results_of results (j_id j);
          decide = (\<lambda>s. Some (s\<lparr>gt_decided := decided_of j\<rparr>))
      in case j_job_type j of
           Games \<Rightarrow> and_then (fetch_one (map_of (cat_game cat) (j_id j)))
             (\<lambda>config. Inr (decide (plain_game_stats rows config)))
         | GamePairs \<Rightarrow> and_then (fetch_one (map_of (cat_game_pair cat) (j_id j)))
             (\<lambda>config. Inr (decide (game_pair_stats rows config)))
         | _ \<Rightarrow> Inr None)"

section \<open>Statistics of the other jobs\<close>

record job_opening_rack_stats =
  os_racks_analyzed :: int
  os_racks_settled :: int
  os_racks_without_consensus :: int
  os_racks_total :: int
  os_first_pass_tasks_done :: int
  os_reissue_tasks_done :: int
  os_first_pass_tasks_total :: int
  os_fewest_open_analyses :: "int option"
  os_min_results_per_rack :: int
  os_max_results_per_rack :: int

definition opening_rack_stats ::
  "catalogue \<Rightarrow> db \<Rightarrow> progress_row list \<Rightarrow> nat \<Rightarrow> job_opening_rack_stats app_result" where
  "opening_rack_stats cat db progress job_id =
     and_then (fetch_one (row_with j_id job_id (db_jobs db))) (\<lambda>j.
       let (racks_total, per_batch, min_results, max_results) =
             (case map_of (cat_opening_rack cat) job_id of
                None \<Rightarrow> (0, 1, 1, 1)
              | Some c \<Rightarrow> (oc_total_racks c, oc_racks_per_batch c, oc_min_results_per_rack c,
                  oc_max_results_per_rack c));
           done = filter (\<lambda>t. t_job_id t = job_id \<and> t_state t = T_completed) (db_tasks db);
           batch = max per_batch 1
       in Inr \<lparr>os_racks_analyzed = j_racks_analyzed j, os_racks_settled = j_racks_settled j,
            os_racks_without_consensus = j_racks_without_consensus j, os_racks_total = racks_total,
            os_first_pass_tasks_done = count_where (\<lambda>t. t_seed t < racks_total) done,
            os_reissue_tasks_done = count_where (\<lambda>t. t_seed t \<ge> racks_total) done,
            os_first_pass_tasks_total = (racks_total + batch - 1) div batch,
            os_fewest_open_analyses =
              (if max_results > 1 \<and> racks_total > 0 \<and> j_racks_analyzed j \<ge> racks_total
               then sql_min (map pr_results (filter (\<lambda>p. pr_job_id p = job_id \<and> \<not> pr_settled p) progress))
               else None),
            os_min_results_per_rack = min_results, os_max_results_per_rack = max_results\<rparr>)"

record job_leave_gen_stats =
  lt_current_generation :: int
  lt_generation_count :: int
  lt_generations_closed :: int
  lt_target_rack_count :: int
  lt_tasks_completed :: int
  lt_games_played :: int
  lt_racks_at_target :: int
  lt_racks_total :: int
  lt_min_rack :: "ustr option"
  lt_min_rack_count :: "int option"
  lt_progress_as_of :: "time option"
  lt_target_rack_counts :: "int list"

definition leave_gen_stats :: "catalogue \<Rightarrow> leave_store \<Rightarrow> nat \<Rightarrow> job_leave_gen_stats app_result" where
  "leave_gen_stats cat lv job_id =
     and_then (fetch_one (map_of (cat_leave cat) job_id)) (\<lambda>config.
       let closed = as_i32 (completed_generations lv job_id);
           current = min (closed + 1) (generation_count config);
           row = row_with generation_key (job_id, current) (lv_generations lv);
           get = (\<lambda>f. case row of None \<Rightarrow> 0 | Some g \<Rightarrow> f g)
       in Inr \<lparr>lt_current_generation = current, lt_generation_count = generation_count config,
            lt_generations_closed = closed, lt_target_rack_count = target_for config current,
            lt_tasks_completed = get gn_tasks_completed, lt_games_played = get gn_games_played,
            lt_racks_at_target = get gn_racks_at_target, lt_racks_total = get gn_racks_total,
            lt_min_rack = (case row of None \<Rightarrow> None | Some g \<Rightarrow> gn_min_rack g),
            lt_min_rack_count = (case row of None \<Rightarrow> None | Some g \<Rightarrow> gn_min_rack_count g),
            lt_progress_as_of = (case row of None \<Rightarrow> None | Some g \<Rightarrow> gn_merged_at g),
            lt_target_rack_counts = lc_target_rack_counts config\<rparr>)"

section \<open>How often the condition is checked\<close>

definition TEST_CHECK_EVERY :: nat where "TEST_CHECK_EVERY = 8"
definition IDLE_FINISH_CHECK_EVERY :: time where "IDLE_FINISH_CHECK_EVERY = 10000000"

record finish_counters =
  fc_submissions :: "nat \<rightharpoonup> nat"
  fc_idle :: "nat \<rightharpoonup> time"

definition should_check :: "finish_counters \<Rightarrow> nat \<Rightarrow> bool \<times> finish_counters" where
  "should_check fc job_id =
     (let count = (case fc_submissions fc job_id of None \<Rightarrow> 0 | Some n \<Rightarrow> n) + 1
      in if count \<ge> TEST_CHECK_EVERY
         then (True, fc\<lparr>fc_submissions := (fc_submissions fc)(job_id \<mapsto> 0)\<rparr>)
         else (False, fc\<lparr>fc_submissions := (fc_submissions fc)(job_id \<mapsto> count)\<rparr>))"

definition should_check_idle :: "finish_counters \<Rightarrow> time \<Rightarrow> nat \<Rightarrow> bool \<times> finish_counters" where
  "should_check_idle fc inst job_id =
     (case fc_idle fc job_id of
        Some previous \<Rightarrow> if inst - previous < IDLE_FINISH_CHECK_EVERY then (False, fc)
          else (True, fc\<lparr>fc_idle := (fc_idle fc)(job_id \<mapsto> inst)\<rparr>)
      | None \<Rightarrow> (True, fc\<lparr>fc_idle := (fc_idle fc)(job_id \<mapsto> inst)\<rparr>))"

definition rearm_idle :: "finish_counters \<Rightarrow> nat \<Rightarrow> finish_counters" where
  "rearm_idle fc job_id = fc\<lparr>fc_idle := (fc_idle fc)(job_id := None)\<rparr>"

definition forget_finish :: "finish_counters \<Rightarrow> nat \<Rightarrow> finish_counters" where
  "forget_finish fc job_id = \<lparr>fc_submissions = (fc_submissions fc)(job_id := None),
     fc_idle = (fc_idle fc)(job_id := None)\<rparr>"

definition job_has_open_claim :: "db \<Rightarrow> nat \<Rightarrow> bool" where
  "job_has_open_claim db job_id \<longleftrightarrow>
     list_ex (\<lambda>c. c_job_id c = job_id \<and> c_state c = C_claimed) (db_claims db)"

definition should_check_finish :: "finish_counters \<Rightarrow> db \<Rightarrow> nat \<Rightarrow> bool \<times> finish_counters" where
  "should_check_finish fc db job_id =
     (let (due, fc') = should_check fc job_id
      in if due then (True, fc') else (\<not> job_has_open_claim db job_id, fc'))"

section \<open>The finish condition\<close>

datatype finish = Finish_test test_result int | Reached_target | Racks_analysed

fun finish_reason :: "finish \<Rightarrow> ustr option" where
  "finish_reason (Finish_test test units) = Some (test_status_as_str (tr_status test))"
| "finish_reason Reached_target = Some (lit ''reached_target'')"
| "finish_reason Racks_analysed = None"

text \<open>\<open>OPENING_RACK_FINISHED\<close>.\<close>

definition opening_rack_finished :: "catalogue \<Rightarrow> db \<Rightarrow> nat \<Rightarrow> bool" where
  "opening_rack_finished cat db job_id \<longleftrightarrow>
     (case (row_with j_id job_id (db_jobs db), map_of (cat_opening_rack cat) job_id) of
        (Some j, Some c) \<Rightarrow> j_racks_settled j \<ge> oc_total_racks c \<and>
          list_ex (\<lambda>t. t_job_id t = job_id) (db_tasks db) \<and>
          \<not> list_ex (\<lambda>t. t_job_id t = job_id \<and> t_state t = T_available) (db_tasks db) \<and>
          \<not> job_has_open_claim db job_id
      | _ \<Rightarrow> False)"

definition games_finish :: "job_game_stats \<Rightarrow> finish option" where
  "games_finish s = (case gt_test s of
     Some test \<Rightarrow> if is_finished (tr_status test) then Some (Finish_test test (gt_units_completed s)) else None
   | None \<Rightarrow> if gt_units_completed s \<ge> as_u64 (gt_max_units s) then Some Reached_target else None)"

definition finish_condition_met ::
  "catalogue \<Rightarrow> db \<Rightarrow> game_result_row list \<Rightarrow> 'a job_scheme \<Rightarrow> finish option app_result" where
  "finish_condition_met cat db results j =
     (case j_job_type j of
        OpeningRack \<Rightarrow> Inr (if opening_rack_finished cat db (j_id j) then Some Racks_analysed else None)
      | LeaveGeneration \<Rightarrow> Inr None
      | _ \<Rightarrow> and_then (game_stats cat results j) (\<lambda>s. Inr (case s of None \<Rightarrow> None | Some g \<Rightarrow> games_finish g)))"

text \<open>The verdict a completion stores.\<close>

definition store_verdict :: "finish \<Rightarrow> job_row \<Rightarrow> job_row" where
  "store_verdict finish j = (let decided = (case finish of Finish_test t n \<Rightarrow> Some (t, n) | _ \<Rightarrow> None) in
     (complete_job j)\<lparr>
       j_test_decided_status := map_option (\<lambda>(t, n). test_status_as_str (tr_status t)) decided,
       j_test_decided_lower := map_option (\<lambda>(t, n). Fin (tr_lower t)) decided,
       j_test_decided_upper := map_option (\<lambda>(t, n). Fin (tr_upper t)) decided,
       j_test_decided_units := map_option (\<lambda>(t, n). as_i64 n) decided\<rparr>)"

definition may_complete :: "catalogue \<Rightarrow> nat \<Rightarrow> int \<Rightarrow> job_row \<Rightarrow> bool" where
  "may_complete cat job_id observed_claims_issued j \<longleftrightarrow>
     j_id j = job_id \<and> j_status j = Active \<and> j_claims_issued j \<ge> observed_claims_issued \<and>
     (j_job_type j \<noteq> OpeningRack \<or> (case map_of (cat_opening_rack cat) job_id of
        None \<Rightarrow> False | Some c \<Rightarrow> j_racks_settled j \<ge> oc_total_racks c))"

text \<open>\<open>purged\<close>: asked of the holds while the job's row is locked.\<close>

definition complete_unless_purged ::
  "catalogue \<Rightarrow> db \<Rightarrow> nat \<Rightarrow> int \<Rightarrow> finish \<Rightarrow> bool \<Rightarrow> db \<times> bool" where
  "complete_unless_purged cat db job_id observed_claims_issued finish purged =
     (if \<not> list_ex (may_complete cat job_id observed_claims_issued) (db_jobs db) then (db, False)
      else if purged then (db, False)
      else (audit_completion
        (db\<lparr>db_jobs := update_where (may_complete cat job_id observed_claims_issued)
           (store_verdict finish) (db_jobs db)\<rparr>) job_id (finish_reason finish), True))"

definition purged_since :: "holds_inner \<Rightarrow> nat \<Rightarrow> nat \<Rightarrow> bool" where
  "purged_since holds job_id purges_before \<longleftrightarrow>
     claims_holds_taken holds job_id \<noteq> purges_before \<or> claims_held holds job_id"

text \<open>
  \<open>j\<close> is the job as read before its results; \<open>db\<close> and \<open>holds\<close> are as they are when the completion
  is written.
\<close>

definition complete_finished ::
  "catalogue \<Rightarrow> db \<Rightarrow> holds_inner \<Rightarrow> finish_counters \<Rightarrow> 'a job_scheme \<Rightarrow> finish \<Rightarrow> nat \<Rightarrow>
    db \<times> finish_counters \<times> bool" where
  "complete_finished cat db holds fc j finish purges_before =
     (let (db', completed) = complete_unless_purged cat db (j_id j) (j_claims_issued j) finish
            (purged_since holds (j_id j) purges_before)
      in (db', if completed then forget_finish fc (j_id j) else fc, completed))"

text \<open>The finish check of a submission; what others commit between its reads and its write is \<open>later\<close>.\<close>

definition after_submission ::
  "catalogue \<Rightarrow> db \<Rightarrow> game_result_row list \<Rightarrow> finish_counters \<Rightarrow> 'a job_scheme \<Rightarrow> nat \<Rightarrow>
    (db \<Rightarrow> db) \<Rightarrow> holds_inner \<Rightarrow> (db \<times> finish_counters) app_result" where
  "after_submission cat db results fc j purges_before later holds_later =
     (if j_status j = Active \<and> j_job_type j \<noteq> LeaveGeneration then
        let (check, fc1) = should_check_finish fc db (j_id j)
        in if \<not> check then Inr (db, fc1)
           else and_then (finish_condition_met cat db results j) (\<lambda>met.
             case met of
               None \<Rightarrow> Inr (db, fc1)
             | Some finish \<Rightarrow>
                 let (db', fc2, completed) =
                       complete_finished cat (later db) holds_later fc1 j finish purges_before
                 in Inr (db', fc2))
      else Inr (db, fc))"

definition finish_idle_job ::
  "catalogue \<Rightarrow> db \<Rightarrow> game_result_row list \<Rightarrow> finish_counters \<Rightarrow> holds_inner \<Rightarrow> nat \<Rightarrow>
    (db \<Rightarrow> db) \<Rightarrow> holds_inner \<Rightarrow> (db \<times> finish_counters \<times> bool) app_result" where
  "finish_idle_job cat db results fc holds job_id later holds_later =
     and_then (ok_or (row_with j_id job_id (db_jobs db)) (Not_found ''no such job'')) (\<lambda>j.
       if j_status j \<noteq> Active \<or> j_job_type j = LeaveGeneration then Inr (db, fc, False)
       else if job_has_open_claim db job_id then Inr (db, fc, False)
       else and_then (finish_condition_met cat db results j) (\<lambda>met. Inr (case met of
           None \<Rightarrow> (db, fc, False)
         | Some finish \<Rightarrow>
             complete_finished cat (later db) holds_later fc j finish (claims_holds_taken holds job_id))))"

end
