(* ===== verification/Derived.thy ===== *)
theory Derived
  imports Templates Store
begin

text \<open>
  \<open>derived.rs\<close>: the wordmaps and tables a job's tasks load, the queue of builds the server keeps of
  them, and what a claim states of them.  The build itself -- fetching inputs, running MAGPIE, hashing
  what it wrote -- is a parameter: what it came to.  Text is ordered by code point.
\<close>

section \<open>Builders\<close>

record builders =
  bd_build_target :: ustr
  bd_wmp_builder_version :: int
  bd_rit_builder_version :: int
  bd_klv_builder_version :: int
  bd_wit_builder_version :: int

definition builder_wmp :: "builders \<Rightarrow> ustr" where
  "builder_wmp b = lit ''wmp-'' @ show_int (bd_wmp_builder_version b)"
definition builder_rit :: "builders \<Rightarrow> ustr" where
  "builder_rit b = lit ''rit-'' @ show_int (bd_rit_builder_version b)"
definition builder_wit :: "builders \<Rightarrow> ustr" where
  "builder_wit b = lit ''wit-'' @ show_int (bd_wit_builder_version b)"
definition builder_klv :: "builders \<Rightarrow> ustr" where
  "builder_klv b = lit ''klv-'' @ show_int (bd_klv_builder_version b)"

definition for_role :: "builders \<Rightarrow> ustr \<Rightarrow> ustr app_result" where
  "for_role b role =
     (if role = lit ''wmp'' then Inr (builder_wmp b)
      else if role = lit ''rit'' then Inr (builder_rit b)
      else if role = lit ''wit'' then Inr (builder_wit b)
      else Inl (Internal ''no builder for role''))"

text \<open>\<open>CASE role WHEN 'wmp' ... END\<close>: NULL for any other role, which no builder equals.\<close>

definition sql_builder :: "builders \<Rightarrow> ustr \<Rightarrow> ustr option" where
  "sql_builder b role = (case for_role b role of Inl e \<Rightarrow> None | Inr builder \<Rightarrow> Some builder)"

section \<open>What a job needs\<close>

record derived_need =
  dn_role :: ustr
  dn_name :: ustr
  dn_kwg_id :: nat
  dn_klv_id :: "nat option"
  dn_letterdist_id :: nat

text \<open>A row of \<open>wants\<close>: the player, and whether it wants a rack info table here.\<close>

definition job_wants :: "catalogue \<Rightarrow> nat \<Rightarrow> (named_player_config \<times> bool) list" where
  "job_wants cat job_id =
     map (\<lambda>n. (n, pc_use_rit (n_config n)))
       (filter (\<lambda>n. pc_id (n_config n) \<in> set (job_players cat job_id)) (cat_players cat)) @
     map (\<lambda>n. (n, False))
       (filter (\<lambda>n. (job_id, pc_id (n_config n)) \<in>
           set (map (\<lambda>(i, c). (i, lc_player_config_id c)) (cat_leave cat))) (cat_players cat))"

definition wants_needs :: "named_player_config \<times> bool \<Rightarrow> (ustr \<times> ustr \<times> nat \<times> nat option) list" where
  "wants_needs w = (case w of (n, use_rit) \<Rightarrow>
     (let c = n_config n in
       (if pc_use_wordmap c \<or> use_rit then [(lit ''wmp'', n_kwg_name n, pc_kwg_id c, None)] else []) @
       (if use_rit then [(lit ''rit'', rack_info_table_name (n_kwg_name n) (n_klv_name n),
          pc_kwg_id c, Some (pc_klv_id c))] else []) @
       (if pc_use_wit c then [(lit ''wit'', n_kwg_name n, pc_kwg_id c, None)] else [])))"

text \<open>\<open>needs ORDER BY role, name\<close>; a job that is not there needs nothing.\<close>

definition needs_for_job :: "catalogue \<Rightarrow> job_row list \<Rightarrow> nat \<Rightarrow> derived_need list" where
  "needs_for_job cat jobs job_id =
     (case row_with j_id job_id jobs of
        None \<Rightarrow> []
      | Some j \<Rightarrow> map (\<lambda>(role, name, kwg, klv). \<lparr>dn_role = role, dn_name = name, dn_kwg_id = kwg,
            dn_klv_id = klv, dn_letterdist_id = j_letterdist_id j\<rparr>)
          (sort_key (\<lambda>(role, name, kwg, klv). (role, name))
            (remdups (concat (map wants_needs (job_wants cat job_id))))))"

section \<open>The queue\<close>

datatype derived_state = Build_pending | Build_building | Build_built | Build_failed

record derived_row =
  dd_role :: ustr
  dd_name :: ustr
  dd_builder :: ustr
  dd_kwg_id :: nat
  dd_klv_id :: "nat option"
  dd_letterdist_id :: nat
  dd_state :: derived_state
  dd_sha256 :: "ustr option"
  dd_bytes :: "int option"
  dd_build_target :: "ustr option"
  dd_error :: "string option"
  dd_leased_until :: "time option"
  dd_attempts :: int
  dd_requested_at :: time
  dd_built_at :: "time option"

type_synonym derived_id = "ustr \<times> ustr \<times> ustr \<times> nat \<times> nat option \<times> nat"

definition derived_key :: "derived_row \<Rightarrow> derived_id" where
  "derived_key d = (dd_role d, dd_name d, dd_builder d, dd_kwg_id d, dd_klv_id d, dd_letterdist_id d)"

definition need_key :: "derived_need \<Rightarrow> ustr \<Rightarrow> derived_id" where
  "need_key n builder =
     (dn_role n, dn_name n, builder, dn_kwg_id n, dn_klv_id n, dn_letterdist_id n)"

definition new_derived :: "derived_need \<Rightarrow> ustr \<Rightarrow> time \<Rightarrow> derived_row" where
  "new_derived n builder now = \<lparr>dd_role = dn_role n, dd_name = dn_name n, dd_builder = builder,
     dd_kwg_id = dn_kwg_id n, dd_klv_id = dn_klv_id n, dd_letterdist_id = dn_letterdist_id n,
     dd_state = Build_pending, dd_sha256 = None, dd_bytes = None, dd_build_target = None,
     dd_error = None, dd_leased_until = None, dd_attempts = 0, dd_requested_at = now,
     dd_built_at = None\<rparr>"

text \<open>\<open>ON CONFLICT DO NOTHING\<close>: a row that is there is left as it stands.\<close>

fun request_needs ::
  "builders \<Rightarrow> time \<Rightarrow> derived_need list \<Rightarrow> derived_row list \<Rightarrow> (derived_row list \<times> nat) app_result" where
  "request_needs b now [] rows = Inr (rows, 0)"
| "request_needs b now (n # ns) rows =
     and_then (for_role b (dn_role n)) (\<lambda>builder.
       case row_with derived_key (need_key n builder) rows of
         Some _ \<Rightarrow> request_needs b now ns rows
       | None \<Rightarrow> and_then (request_needs b now ns (rows @ [new_derived n builder now]))
           (\<lambda>(rows', requested). Inr (rows', requested + 1)))"

definition request_for_job ::
  "builders \<Rightarrow> catalogue \<Rightarrow> job_row list \<Rightarrow> nat \<Rightarrow> time \<Rightarrow> derived_row list \<Rightarrow>
    (derived_row list \<times> nat) app_result" where
  "request_for_job b cat jobs job_id now rows = request_needs b now (needs_for_job cat jobs job_id) rows"

section \<open>What a claim states\<close>

record expected_derived =
  ed_role :: ustr
  ed_name :: ustr
  ed_sha256 :: ustr
  ed_builder :: ustr
  ed_build_target :: ustr
  ed_bytes :: int

record derived_status =
  ds_ready :: "expected_derived list"
  ds_pending :: "ustr list"
  ds_failed :: "ustr list"
  ds_unrequested :: nat

definition no_status :: derived_status where
  "no_status = \<lparr>ds_ready = [], ds_pending = [], ds_failed = [], ds_unrequested = 0\<rparr>"

definition dispatchable :: "derived_status \<Rightarrow> bool" where
  "dispatchable s \<longleftrightarrow> ds_pending s = [] \<and> ds_failed s = []"

text \<open>The row a need is joined to; a built row has its hash and size.\<close>

definition row_for :: "builders \<Rightarrow> derived_row list \<Rightarrow> derived_need \<Rightarrow> derived_row option" where
  "row_for b rows n = (case sql_builder b (dn_role n) of
     None \<Rightarrow> None | Some builder \<Rightarrow> row_with derived_key (need_key n builder) rows)"

definition label_of :: "derived_need \<Rightarrow> ustr" where
  "label_of n = dn_role n @ lit '' '' @ dn_name n"

definition expected_of :: "builders \<Rightarrow> derived_need \<Rightarrow> derived_row \<Rightarrow> expected_derived app_result" where
  "expected_of b n d = and_then (for_role b (dn_role n)) (\<lambda>builder.
     and_then (fetch_one (dd_sha256 d)) (\<lambda>sha256.
       Inr \<lparr>ed_role = dn_role n, ed_name = dn_name n, ed_sha256 = sha256, ed_builder = builder,
            ed_build_target = (case dd_build_target d of Some t \<Rightarrow> t | None \<Rightarrow> bd_build_target b),
            ed_bytes = (case dd_bytes d of Some n \<Rightarrow> n | None \<Rightarrow> 0)\<rparr>))"

fun status_from ::
  "builders \<Rightarrow> derived_row list \<Rightarrow> derived_need list \<Rightarrow> derived_status \<Rightarrow> derived_status app_result" where
  "status_from b rows [] s = Inr s"
| "status_from b rows (n # ns) s =
     (case row_for b rows n of
        None \<Rightarrow> status_from b rows ns (s\<lparr>ds_unrequested := ds_unrequested s + 1,
          ds_pending := ds_pending s @ [label_of n]\<rparr>)
      | Some d \<Rightarrow> (case dd_state d of
            Build_built \<Rightarrow> and_then (expected_of b n d) (\<lambda>e.
              status_from b rows ns (s\<lparr>ds_ready := ds_ready s @ [e]\<rparr>))
          | Build_failed \<Rightarrow> status_from b rows ns (s\<lparr>ds_failed := ds_failed s @ [label_of n]\<rparr>)
          | _ \<Rightarrow> status_from b rows ns (s\<lparr>ds_pending := ds_pending s @ [label_of n]\<rparr>)))"

definition status_for_job ::
  "builders \<Rightarrow> catalogue \<Rightarrow> job_row list \<Rightarrow> derived_row list \<Rightarrow> nat \<Rightarrow> derived_status app_result" where
  "status_for_job b cat jobs rows job_id = status_from b rows (needs_for_job cat jobs job_id) no_status"

text \<open>\<open>DerivedCache\<close>: what each job found dispatchable states.\<close>

type_synonym derived_cache = "nat \<rightharpoonup> expected_derived list"

definition remember :: "derived_cache \<Rightarrow> nat \<Rightarrow> expected_derived list \<Rightarrow> derived_cache" where
  "remember cache job_id ready = cache(job_id \<mapsto> ready)"

definition forget_derived :: "derived_cache \<Rightarrow> nat \<Rightarrow> derived_cache" where
  "forget_derived cache job_id = cache(job_id := None)"

definition ready_for_job ::
  "builders \<Rightarrow> catalogue \<Rightarrow> job_row list \<Rightarrow> nat \<Rightarrow> time \<Rightarrow> derived_row list \<Rightarrow> derived_cache \<Rightarrow>
    (derived_row list \<times> derived_cache \<times> expected_derived list option) app_result" where
  "ready_for_job b cat jobs job_id now rows cache =
     (case cache job_id of
        Some ready \<Rightarrow> Inr (rows, cache, Some ready)
      | None \<Rightarrow>
          and_then (status_for_job b cat jobs rows job_id) (\<lambda>status.
          and_then (if ds_unrequested status > 0
              then and_then (request_for_job b cat jobs job_id now rows) (\<lambda>(rows', requested). Inr rows')
              else Inr rows) (\<lambda>rows'.
            if dispatchable status
            then Inr (rows', remember cache job_id (ds_ready status), Some (ds_ready status))
            else Inr (rows', cache, None))))"

record job_derived_file =
  jf_role :: ustr
  jf_name :: ustr
  jf_state :: derived_state
  jf_error :: "string option"
  jf_attempts :: int

definition files_for_job ::
  "builders \<Rightarrow> catalogue \<Rightarrow> job_row list \<Rightarrow> derived_row list \<Rightarrow> nat \<Rightarrow> job_derived_file list" where
  "files_for_job b cat jobs rows job_id =
     map (\<lambda>n. case row_for b rows n of
         None \<Rightarrow> \<lparr>jf_role = dn_role n, jf_name = dn_name n, jf_state = Build_pending, jf_error = None,
           jf_attempts = 0\<rparr>
       | Some d \<Rightarrow> \<lparr>jf_role = dn_role n, jf_name = dn_name n, jf_state = dd_state d,
           jf_error = dd_error d, jf_attempts = dd_attempts d\<rparr>)
       (concat (rev (map (\<lambda>role. filter (\<lambda>n. dn_role n = role) (needs_for_job cat jobs job_id))
         (remdups (map dn_role (needs_for_job cat jobs job_id))))))"

section \<open>Building\<close>

definition BUILD_LEASE :: time where "BUILD_LEASE = 75 * 60 * 1000000"
definition MAX_ATTEMPTS :: int where "MAX_ATTEMPTS = 3"

record lease =
  le_key :: derived_id
  le_leased_until :: time

definition lapsed_lease :: "time \<Rightarrow> derived_row \<Rightarrow> bool" where
  "lapsed_lease now d \<longleftrightarrow> (case dd_leased_until d of None \<Rightarrow> False | Some t \<Rightarrow> t < now)"

text \<open>A build that died on its last attempt recorded nothing: it is failed here.\<close>

definition fail_dead_builds :: "time \<Rightarrow> derived_row list \<Rightarrow> derived_row list" where
  "fail_dead_builds now rows =
     update_where (\<lambda>d. dd_state d = Build_building \<and> lapsed_lease now d \<and> dd_attempts d \<ge> MAX_ATTEMPTS)
       (\<lambda>d. d\<lparr>dd_state := Build_failed, dd_leased_until := None,
              dd_error := Some ''the builder stopped without recording an outcome''\<rparr>) rows"

definition may_build :: "builders \<Rightarrow> time \<Rightarrow> derived_row \<Rightarrow> bool" where
  "may_build b now d \<longleftrightarrow>
     ((dd_state d = Build_pending \<and> (dd_leased_until d = None \<or> lapsed_lease now d)) \<or>
      (dd_state d = Build_building \<and> lapsed_lease now d)) \<and>
     dd_attempts d < MAX_ATTEMPTS \<and> sql_builder b (dd_role d) = Some (dd_builder d)"

definition take_row :: "time \<Rightarrow> derived_row \<Rightarrow> derived_row" where
  "take_row now d = d\<lparr>dd_state := Build_building, dd_leased_until := Some (now + BUILD_LEASE),
     dd_attempts := dd_attempts d + 1, dd_error := None\<rparr>"

text \<open>The oldest request; rows other transactions hold locked (\<open>SKIP LOCKED\<close>) are an argument.\<close>

definition take_next ::
  "builders \<Rightarrow> time \<Rightarrow> derived_id list \<Rightarrow> derived_row list \<Rightarrow> derived_row list \<times> lease option" where
  "take_next b now locked rows =
     (let rows1 = fail_dead_builds now rows
      in case sort_key dd_requested_at
           (filter (\<lambda>d. may_build b now d \<and> derived_key d \<notin> set locked) rows1) of
           [] \<Rightarrow> (rows1, None)
         | d # _ \<Rightarrow> (update_key derived_key (derived_key d) (take_row now) rows1,
             Some \<lparr>le_key = derived_key d, le_leased_until = now + BUILD_LEASE\<rparr>))"

text \<open>An outcome is recorded on the row as the lease left it, and on no other.\<close>

definition under_lease :: "lease \<Rightarrow> derived_row \<Rightarrow> bool" where
  "under_lease l d \<longleftrightarrow> derived_key d = le_key l \<and> dd_state d = Build_building \<and>
     dd_leased_until d = Some (le_leased_until l)"

definition record_built :: "builders \<Rightarrow> ustr \<Rightarrow> int \<Rightarrow> time \<Rightarrow> derived_row \<Rightarrow> derived_row" where
  "record_built b sha256 bytes now d = d\<lparr>dd_state := Build_built, dd_sha256 := Some sha256,
     dd_bytes := Some bytes, dd_build_target := Some (bd_build_target b), dd_built_at := Some now,
     dd_leased_until := None, dd_error := None\<rparr>"

text \<open>5 minutes after the first attempt, 15 after the second.\<close>

definition record_failure :: "string \<Rightarrow> time \<Rightarrow> derived_row \<Rightarrow> derived_row" where
  "record_failure message now d =
     (if dd_attempts d \<ge> MAX_ATTEMPTS
      then d\<lparr>dd_state := Build_failed, dd_leased_until := None, dd_error := Some message\<rparr>
      else d\<lparr>dd_state := Build_pending,
             dd_leased_until := Some (now + 5 * 3 ^ nat (dd_attempts d - 1) * 60000000),
             dd_error := Some message\<rparr>)"

definition record_outcome ::
  "builders \<Rightarrow> lease \<Rightarrow> (ustr \<times> int) app_result \<Rightarrow> time \<Rightarrow> derived_row list \<Rightarrow> derived_row list" where
  "record_outcome b l outcome now rows = update_where (under_lease l)
     (case outcome of Inr (sha256, bytes) \<Rightarrow> record_built b sha256 bytes now
        | Inl e \<Rightarrow> record_failure ''the build failed'' now) rows"

text \<open>
  \<open>build_next\<close>: the row taken, the build run for as long as it takes, and what it came to recorded on
  the rows as they are by then.  \<open>meanwhile\<close> is what others did to the rows while it ran.
\<close>

definition build_next ::
  "builders \<Rightarrow> time \<Rightarrow> derived_id list \<Rightarrow> (lease \<Rightarrow> (ustr \<times> int) app_result) \<Rightarrow>
    (derived_row list \<Rightarrow> derived_row list) \<Rightarrow> time \<Rightarrow> derived_row list \<Rightarrow> derived_row list \<times> bool" where
  "build_next b now locked run meanwhile done_at rows =
     (case take_next b now locked rows of
        (rows1, None) \<Rightarrow> (rows1, False)
      | (rows1, Some l) \<Rightarrow> (record_outcome b l (run l) done_at (meanwhile rows1), True))"

text \<open>\<open>routes/admin.rs\<close>: an admin puts one failed build of this binary's builders back in the queue.\<close>

definition may_retry :: "builders \<Rightarrow> derived_id \<Rightarrow> derived_row \<Rightarrow> bool" where
  "may_retry b key d \<longleftrightarrow> derived_key d = key \<and> dd_state d = Build_failed \<and>
     sql_builder b (dd_role d) = Some (dd_builder d)"

definition retry_derived_data :: "builders \<Rightarrow> derived_id \<Rightarrow> derived_row list \<Rightarrow> derived_row list app_result" where
  "retry_derived_data b key rows =
     (if list_ex (may_retry b key) rows
      then Inr (update_where (may_retry b key) (\<lambda>d. d\<lparr>dd_state := Build_pending, dd_attempts := 0,
        dd_error := None, dd_leased_until := None\<rparr>) rows)
      else Inl (Not_found ''no failed build of that row that a builder of this version takes''))"

end
