(* ===== verification/Dispatch.thy ===== *)
theory Dispatch
  imports Finish Derived Games
begin

text \<open>
  Handing out work: \<open>jobs/registry.rs\<close>'s \<open>acquire\<close> (one decision for one job, under its dispatch
  lock), \<open>scheduler.rs\<close>'s \<open>claim\<close> (the walk over the candidates), and the claim route of
  \<open>routes/worker.rs\<close>.  What a claim starts off the request is recorded as spawned; what it draws at
  random, and whether a lock came within its wait, are arguments, as are the commits of other
  transactions between the transactions of one request.
\<close>

section \<open>The process\<close>

datatype spawned =
    Spawn_seed_universe nat int
  | Spawn_zero_generation nat
  | Spawn_merge nat int
  | Spawn_transition nat int
  | Spawn_finish_check nat

record dispatcher =
  dp_server :: server
  dp_derived_rows :: "derived_row list"
  dp_derived_ready :: derived_cache
  dp_finish_checks :: finish_counters
  dp_tail_merges :: "nat \<rightharpoonup> time"
  dp_recently_busy :: "nat \<rightharpoonup> time"
  dp_building :: "nat list"
  dp_spawned :: "spawned list"

record settings =
  cf_builders :: builders
  cf_collate :: "ustr \<Rightarrow> ustr"
  cf_min_magpie_version :: ustr
  cf_download_url :: ustr
  cf_simple_uuid :: "nat \<Rightarrow> ustr"

text \<open>
  One try of one job: the identifiers and the seed drawn, whether its dispatch lock came in time, the
  task rows others hold locked, and the two clocks.
\<close>

record try_draws =
  dw_task_id :: nat
  dw_claim_id :: nat
  dw_claim_token :: nat
  dw_seed :: int
  dw_lock :: bool
  dw_locked_tasks :: "nat list"
  dw_now :: time
  dw_inst :: time

definition spawn :: "spawned \<Rightarrow> dispatcher \<Rightarrow> dispatcher" where
  "spawn s dp = dp\<lparr>dp_spawned := dp_spawned dp @ [s]\<rparr>"

definition with_db :: "db \<Rightarrow> server \<Rightarrow> server" where
  "with_db db sv = sv\<lparr>sv_db := db\<rparr>"

section \<open>One decision for one job\<close>

datatype acquired =
    Acq_Task nat task_request bool
  | Acq_NoWork
  | Acq_Busy
  | Acq_NeedsGenerationTransition int
  | Acq_NeedsUniverse int
  | Acq_NeedsZeroGeneration
  | Acq_NeedsLeaveMerge int
  | Acq_JobFinished

definition load_request :: "server \<Rightarrow> job_template \<Rightarrow> nat \<Rightarrow> task_request app_result" where
  "load_request sv template task_id =
     (case jt_kind template of
        Kind_OpeningRack config player index \<Rightarrow>
          and_then (load_rack_request (sv_rack_requests sv) template task_id) (\<lambda>r. Inr (TaskOpeningRack r))
      | Kind_Games config player1 player2 \<Rightarrow>
          and_then (load_game_request (sv_game_requests sv) template task_id) (\<lambda>r. Inr (TaskGames r))
      | Kind_GamePairs config player1 player2 \<Rightarrow>
          and_then (load_game_request (sv_game_requests sv) template task_id) (\<lambda>r. Inr (TaskGamePairs r))
      | Kind_LeaveGeneration config player \<Rightarrow>
          and_then (load_leave_request (sv_leaves sv) template task_id)
            (\<lambda>r. Inr (TaskLeaveGeneration r)))"

definition job_seeds :: "db \<Rightarrow> nat \<Rightarrow> int list" where
  "job_seeds db job_id = map t_seed (filter (\<lambda>t. t_job_id t = job_id) (db_tasks db))"

definition insert_task :: "server \<Rightarrow> nat \<Rightarrow> int \<Rightarrow> try_draws \<Rightarrow> server app_result" where
  "insert_task sv job_id seed dw =
     and_then (insert_on_demand_task (db_tasks (sv_db sv)) (dw_task_id dw) job_id seed (dw_now dw))
       (\<lambda>tasks. Inr (with_db ((sv_db sv)\<lparr>db_tasks := tasks\<rparr>) sv))"

definition generate_opening_rack ::
  "server \<Rightarrow> 'a job_scheme \<Rightarrow> worker_identity \<Rightarrow> job_template \<Rightarrow> try_draws \<Rightarrow> (server \<times> acquired) app_result" where
  "generate_opening_rack sv j identity template dw =
     (case jt_kind template of
        Kind_OpeningRack config player index \<Rightarrow>
          and_then (next_rack_request (sv_db sv) (sv_rack_requests sv) (sv_records sv) (sv_progress sv)
              (j_id j) config (map_option consensus (map_of (cat_opening_rack (sv_catalogue sv)) (j_id j)))
              (jt_data template) index player (owner_of identity)) (\<lambda>next.
            case next of
              None \<Rightarrow> Inr (sv, Acq_NoWork)
            | Some (start, request) \<Rightarrow>
                and_then (insert_task sv (j_id j) start dw) (\<lambda>sv1.
                  Inr (sv1\<lparr>sv_rack_requests := insert_rack_request (sv_rack_requests sv1) (dw_task_id dw)
                         config (jt_data template) start (or_racks request)\<rparr>,
                    Acq_Task (dw_task_id dw) (TaskOpeningRack request) True)))
      | _ \<Rightarrow> Inl (mismatch ''opening_rack''))"

definition generate_games ::
  "server \<Rightarrow> 'a job_scheme \<Rightarrow> job_template \<Rightarrow> try_draws \<Rightarrow> (server \<times> acquired) app_result" where
  "generate_games sv j template dw =
     (case jt_kind template of
        Kind_Games config player1 player2 \<Rightarrow>
          (case next_games_request (job_seeds (sv_db sv) (j_id j)) config (jt_data template)
              player1 player2 of
             None \<Rightarrow> Inr (sv, Acq_NoWork)
           | Some (seed, request) \<Rightarrow>
               and_then (insert_task sv (j_id j) seed dw) (\<lambda>sv1.
                 Inr (sv1\<lparr>sv_game_requests := insert_game_request (sv_game_requests sv1) (dw_task_id dw)
                        request (gc_player1_config_id config) (gc_player2_config_id config)\<rparr>,
                   Acq_Task (dw_task_id dw) (TaskGames request) True)))
      | _ \<Rightarrow> Inl (mismatch ''games''))"

definition generate_game_pairs ::
  "server \<Rightarrow> 'a job_scheme \<Rightarrow> job_template \<Rightarrow> try_draws \<Rightarrow> (server \<times> acquired) app_result" where
  "generate_game_pairs sv j template dw =
     (case jt_kind template of
        Kind_GamePairs config player1 player2 \<Rightarrow>
          (case next_game_pairs_request (job_seeds (sv_db sv) (j_id j)) config (jt_data template)
              player1 player2 of
             None \<Rightarrow> Inr (sv, Acq_NoWork)
           | Some (seed, request) \<Rightarrow>
               and_then (insert_task sv (j_id j) seed dw) (\<lambda>sv1.
                 Inr (sv1\<lparr>sv_game_requests := insert_game_request (sv_game_requests sv1) (dw_task_id dw)
                        request (pg_player1_config_id config) (pg_player2_config_id config)\<rparr>,
                   Acq_Task (dw_task_id dw) (TaskGamePairs request) True)))
      | _ \<Rightarrow> Inl (mismatch ''game_pairs''))"

definition leave_generations :: "leave_store \<Rightarrow> (nat \<times> int) list" where
  "leave_generations lv = map (\<lambda>r. (lq_task_id r, lq_generation r)) (lv_requests lv)"

text \<open>What the step of \<open>next_step\<close> comes to; \<open>lv\<close> is what it wrote.\<close>

definition dispatch_step_of ::
  "server \<Rightarrow> 'a job_scheme \<Rightarrow> leave_config \<Rightarrow> try_draws \<Rightarrow> leave_gen_step \<Rightarrow> (server \<times> acquired) app_result" where
  "dispatch_step_of sv j config dw step =
     (case step of
        Step_Dispatch request \<Rightarrow>
          and_then (insert_task sv (j_id j) (as_i64 (lr_seed request)) dw) (\<lambda>sv1.
            let lv = sv_leaves sv1
            in Inr (sv1\<lparr>sv_leaves := lv\<lparr>lv_requests := insert_leave_request (lv_requests lv)
                   (dw_task_id dw) request (lc_player_config_id config)\<rparr>\<rparr>,
                 Acq_Task (dw_task_id dw) (TaskLeaveGeneration request) True))
      | Step_Transition g \<Rightarrow> Inr (sv, Acq_NeedsGenerationTransition g)
      | Step_NeedsMerge g \<Rightarrow> Inr (sv, Acq_NeedsLeaveMerge g)
      | Step_Finished \<Rightarrow> Inr (sv, Acq_JobFinished)
      | Step_TransitionInProgress g \<Rightarrow> Inr (sv, Acq_NoWork)
      | Step_NoWorkYet \<Rightarrow> Inr (sv, Acq_NoWork))"

definition generate_leave_gen ::
  "settings \<Rightarrow> server \<Rightarrow> 'a job_scheme \<Rightarrow> worker_identity \<Rightarrow> job_template \<Rightarrow> try_draws \<Rightarrow>
    (server \<times> acquired) app_result" where
  "generate_leave_gen cf sv j identity template dw =
     (case jt_kind template of
        Kind_LeaveGeneration config player \<Rightarrow>
          (let lv = sv_leaves sv; job_id = j_id j in
           case current_generation lv job_id config of
             None \<Rightarrow> Inr (sv, Acq_JobFinished)
           | Some generation \<Rightarrow>
               if transition_in_progress lv job_id generation (dw_now dw) then Inr (sv, Acq_NoWork)
               else if \<not> universe_exists lv job_id generation then Inr (sv, Acq_NeedsUniverse generation)
               else if generation = 1 \<and>
                   row_with artifact_row_key (job_id, 0) (lv_artifacts lv) = None
               then Inr (sv, Acq_NeedsZeroGeneration)
               else case next_available (sv_db sv) (leave_generations lv) job_id identity
                   (Some generation) (dw_locked_tasks dw) (dw_now dw) of
                 Some task_id \<Rightarrow> and_then (load_request sv template task_id)
                   (\<lambda>request. Inr (sv, Acq_Task task_id request False))
               | None \<Rightarrow>
                   and_then (next_step (cf_collate cf) no_commits (lv, db_claims (sv_db sv)) job_id config
                       (jt_data template) player (dw_seed dw) (dw_now dw)) (\<lambda>(view, step).
                     dispatch_step_of (sv\<lparr>sv_leaves := fst view\<rparr>) j config dw step))
      | _ \<Rightarrow> Inl (mismatch ''leave_generation''))"

definition generate ::
  "settings \<Rightarrow> server \<Rightarrow> 'a job_scheme \<Rightarrow> worker_identity \<Rightarrow> job_template \<Rightarrow> try_draws \<Rightarrow>
    (server \<times> acquired) app_result" where
  "generate cf sv j identity template dw =
     (case j_job_type j of
        OpeningRack \<Rightarrow> generate_opening_rack sv j identity template dw
      | Games \<Rightarrow> generate_games sv j template dw
      | GamePairs \<Rightarrow> generate_game_pairs sv j template dw
      | LeaveGeneration \<Rightarrow> generate_leave_gen cf sv j identity template dw)"

definition acquire ::
  "settings \<Rightarrow> server \<Rightarrow> 'a job_scheme \<Rightarrow> worker_identity \<Rightarrow> job_template \<Rightarrow> try_draws \<Rightarrow>
    (server \<times> acquired) app_result" where
  "acquire cf sv j identity template dw =
     (if \<not> dw_lock dw then Inr (sv, Acq_Busy)
      else if j_job_type j = LeaveGeneration then generate cf sv j identity template dw
      else case next_available (sv_db sv) [] (j_id j) identity None (dw_locked_tasks dw) (dw_now dw) of
        Some task_id \<Rightarrow> and_then (load_request sv template task_id)
          (\<lambda>request. Inr (sv, Acq_Task task_id request False))
      | None \<Rightarrow> generate cf sv j identity template dw)"

section \<open>Claiming from one job\<close>

record task_claim =
  tk_job_id :: nat
  tk_claim_token :: nat
  tk_request :: task_request
  tk_min_magpie_version :: ustr
  tk_expected_data :: "expected_file list"
  tk_derived_data :: "expected_derived list"
  tk_job_name :: ustr
  tk_max_task_seconds :: int

datatype job_claim_error = Claim_retry | Claim_lost_race | Claim_busy | Claim_fatal app_error

type_synonym claim_result = "job_claim_error + task_claim option"

definition request_tail_merge ::
  "dispatcher \<Rightarrow> nat \<Rightarrow> job_template \<Rightarrow> task_request \<Rightarrow> bool \<Rightarrow> time \<Rightarrow> dispatcher" where
  "request_tail_merge dp job_id template request created inst =
     (case (request, jt_kind template) of
        (TaskLeaveGeneration r, Kind_LeaveGeneration config player) \<Rightarrow>
          if \<not> created \<or> length (lr_forced_racks r) \<ge> nat (lc_racks_per_task config) then dp
          else let (is_due, merges) = due (dp_tail_merges dp) inst job_id;
                   dp1 = dp\<lparr>dp_tail_merges := merges\<rparr>
               in if is_due then spawn (Spawn_merge job_id (lr_generation r)) dp1 else dp1
      | _ \<Rightarrow> dp)"

text \<open>What the job's tasks load: the derived files, then the template; each from memory when it can be.\<close>

definition look_up ::
  "settings \<Rightarrow> dispatcher \<Rightarrow> job_row \<Rightarrow> try_draws \<Rightarrow>
    dispatcher \<times> (job_claim_error + (expected_derived list \<times> job_template) option)" where
  "look_up cf dp j dw =
     (case ready_for_job (cf_builders cf) (sv_catalogue (dp_server dp)) (db_jobs (sv_db (dp_server dp)))
          (j_id j) (dw_now dw) (dp_derived_rows dp) (dp_derived_ready dp) of
        Inl e \<Rightarrow> (dp, Inl (Claim_fatal e))
      | Inr (rows, cache, ready) \<Rightarrow>
          let dp1 = dp\<lparr>dp_derived_rows := rows, dp_derived_ready := cache\<rparr>
          in (case ready of
                None \<Rightarrow> (dp1, Inr None)
              | Some derived \<Rightarrow>
                  let sv = dp_server dp1;
                      (loaded, tc) = get_or_load (sv_templates sv) (sv_catalogue sv) (dw_inst dw) j;
                      dp2 = dp1\<lparr>dp_server := sv\<lparr>sv_templates := tc\<rparr>\<rparr>
                  in (case loaded of
                        Inl e \<Rightarrow> (dp2, Inl (Claim_fatal e))
                      | Inr template \<Rightarrow> (dp2, Inr (Some (derived, template))))))"

text \<open>A claim issued and committed, or nothing handed out.\<close>

definition issue ::
  "settings \<Rightarrow> dispatcher \<Rightarrow> server \<Rightarrow> worker_identity \<Rightarrow> job_row \<Rightarrow> capabilities \<Rightarrow> standing \<Rightarrow>
    job_template \<Rightarrow> expected_derived list \<Rightarrow> nat \<Rightarrow> task_request \<Rightarrow> bool \<Rightarrow> try_draws \<Rightarrow>
    dispatcher \<times> claim_result" where
  "issue cf dp sv identity j caps standing template derived task_id request created dw =
     (case issue_claim (sv_db sv) identity (j_id j) caps task_id created standing (dw_claim_id dw)
          (dw_claim_token dw) (dw_now dw) of
        Inl e \<Rightarrow> (dp, Inl (Claim_fatal e))
      | Inr None \<Rightarrow> (dp, Inr None)
      | Inr (Some (db, token, max_task_seconds)) \<Rightarrow>
          (request_tail_merge (dp\<lparr>dp_server := with_db db sv\<rparr>) (j_id j) template request created
             (dw_inst dw),
           Inr (Some \<lparr>tk_job_id = j_id j, tk_claim_token = token, tk_request = request,
             tk_min_magpie_version = show_version (min_magpie_version j),
             tk_expected_data = jt_expected template, tk_derived_data = derived,
             tk_job_name = job_name_for_worker (cf_simple_uuid cf) j template,
             tk_max_task_seconds = max_task_seconds\<rparr>)))"

definition after_no_work :: "dispatcher \<Rightarrow> job_row \<Rightarrow> time \<Rightarrow> dispatcher" where
  "after_no_work dp j inst =
     (if j_job_type j = LeaveGeneration then dp
      else let (is_due, fc) = should_check_idle (dp_finish_checks dp) inst (j_id j);
               dp1 = dp\<lparr>dp_finish_checks := fc\<rparr>
           in if is_due then spawn (Spawn_finish_check (j_id j)) dp1 else dp1)"

text \<open>What a decision comes to; a transaction that is rolled back leaves the tables as they were.\<close>

definition carry_out ::
  "settings \<Rightarrow> dispatcher \<Rightarrow> worker_identity \<Rightarrow> job_row \<Rightarrow> capabilities \<Rightarrow> standing \<Rightarrow> job_template \<Rightarrow>
    expected_derived list \<Rightarrow> try_draws \<Rightarrow> server \<times> acquired \<Rightarrow> dispatcher \<times> claim_result" where
  "carry_out cf dp identity j caps standing template derived dw decision =
     (let sv = fst decision; committed_dp = dp\<lparr>dp_server := sv\<rparr> in case snd decision of
        Acq_Busy \<Rightarrow> (dp, Inl Claim_busy)
      | Acq_NoWork \<Rightarrow> (after_no_work committed_dp j (dw_inst dw), Inr None)
      | Acq_JobFinished \<Rightarrow>
          (dp\<lparr>dp_server := with_db (complete_active_job (sv_db sv) (j_id j)
             (Some (lit ''last generation built''))) sv\<rparr>, Inr None)
      | Acq_NeedsUniverse g \<Rightarrow> (spawn (Spawn_seed_universe (j_id j) g) dp, Inr None)
      | Acq_NeedsZeroGeneration \<Rightarrow>
          (if j_id j \<in> set (dp_building dp) then dp
           else spawn (Spawn_zero_generation (j_id j)) (dp\<lparr>dp_building := dp_building dp @ [j_id j]\<rparr>),
           Inr None)
      | Acq_NeedsLeaveMerge g \<Rightarrow> (spawn (Spawn_merge (j_id j) g) committed_dp, Inr None)
      | Acq_NeedsGenerationTransition g \<Rightarrow> (spawn (Spawn_transition (j_id j) g) committed_dp, Inr None)
      | Acq_Task task_id request created \<Rightarrow>
          issue cf dp sv identity j caps standing template derived task_id request created dw)"

definition claim_under_turn ::
  "settings \<Rightarrow> dispatcher \<Rightarrow> worker_identity \<Rightarrow> job_row \<Rightarrow> capabilities \<Rightarrow> standing \<Rightarrow> job_template \<Rightarrow>
    expected_derived list \<Rightarrow> try_draws \<Rightarrow> dispatcher \<times> claim_result" where
  "claim_under_turn cf dp identity j caps standing template derived dw =
     (case acquire cf (dp_server dp) j identity template dw of
        Inl e \<Rightarrow> (dp, Inl (if e = unique_violation then Claim_retry else Claim_fatal e))
      | Inr decision \<Rightarrow> carry_out cf dp identity j caps standing template derived dw decision)"

definition try_claim_from_job ::
  "settings \<Rightarrow> dispatcher \<Rightarrow> worker_identity \<Rightarrow> job_row \<Rightarrow> capabilities \<Rightarrow> standing \<Rightarrow> try_draws \<Rightarrow>
    dispatcher \<times> claim_result" where
  "try_claim_from_job cf dp identity j caps standing dw =
     (let sv = dp_server dp in
      if is_held (sv_holds sv) (j_id j) then (dp, Inr None)
      else
        let (failed, tc) = (if templates_get (sv_templates sv) (j_id j) = None
               then recently_failed (sv_templates sv) (dw_inst dw) (j_id j)
               else (False, sv_templates sv));
            dp0 = dp\<lparr>dp_server := sv\<lparr>sv_templates := tc\<rparr>\<rparr>
        in if failed then (dp0, Inr None)
           else (case look_up cf dp0 j dw of
               (dp1, Inl e) \<Rightarrow> (dp1, Inl e)
             | (dp1, Inr None) \<Rightarrow> (dp1, Inr None)
             | (dp1, Inr (Some (derived, template))) \<Rightarrow>
                 if st_rivals standing = [] \<and> st_busy_rivals standing = []
                 then claim_under_turn cf dp1 identity j caps standing template derived dw
                 else if \<not> dw_lock dw then (dp1, Inl Claim_busy)
                 else (case outrun (db_jobs (sv_db (dp_server dp1))) (j_id j) (st_rivals standing)
                         (st_busy_rivals standing) of
                     None \<Rightarrow> (dp1, Inr None)
                   | Some True \<Rightarrow> (dp1, Inl Claim_lost_race)
                   | Some False \<Rightarrow>
                       claim_under_turn cf dp1 identity j caps standing template derived dw)))"

section \<open>The walk over the candidates\<close>

definition CLAIM_ROUNDS :: nat where "CLAIM_ROUNDS = 8"
definition BUSY_MEMORY :: time where "BUSY_MEMORY = 600000000"

definition mark_busy :: "(nat \<rightharpoonup> time) \<Rightarrow> time \<Rightarrow> nat \<Rightarrow> (nat \<rightharpoonup> time)" where
  "mark_busy busy inst job_id =
     (\<lambda>i. case busy i of None \<Rightarrow> None | Some t \<Rightarrow> if inst - t < BUSY_MEMORY then Some t else None)
       (job_id \<mapsto> inst)"

definition was_recently_busy :: "(nat \<rightharpoonup> time) \<Rightarrow> time \<Rightarrow> nat \<Rightarrow> bool" where
  "was_recently_busy busy inst job_id \<longleftrightarrow>
     (case busy job_id of None \<Rightarrow> False | Some t \<Rightarrow> inst - t < BUSY_MEMORY)"

text \<open>One round: its clocks, the rows others hold locked, and for each candidate its draws and what
  others commit before it is tried.\<close>

record round_draws =
  rn_now :: time
  rn_inst :: time
  rn_locked_claims :: "nat list"
  rn_busy_jobs :: "nat list"
  rn_locked_jobs :: "nat list"
  rn_tries :: "nat \<Rightarrow> try_draws"
  rn_commits :: "nat \<Rightarrow> server \<Rightarrow> server"

definition rivals_of :: "job_row list \<Rightarrow> bool \<Rightarrow> nat \<Rightarrow> nat list \<Rightarrow> nat list \<Rightarrow> nat list" where
  "rivals_of jobs last_round i passed_over busy =
     (if last_round then []
      else map (\<lambda>(k, q). j_id q) (filter (\<lambda>(k, q). k \<noteq> i \<and> j_id q \<notin> set passed_over \<and>
        j_id q \<notin> set busy) (enumerate 0 jobs)))"

definition standing_for ::
  "dispatcher \<Rightarrow> job_row list \<Rightarrow> bool \<Rightarrow> nat \<Rightarrow> nat list \<Rightarrow> nat list \<Rightarrow> time \<Rightarrow> standing" where
  "standing_for dp jobs last_round i passed_over busy inst =
     (let job_id = j_id (jobs ! i) in
      \<lparr>st_served_within = sv_heartbeat_timeout (dp_server dp),
       st_pace = map_option (\<lambda>pace. if was_recently_busy (dp_recently_busy dp) inst job_id
         then pace - 1 else pace) (pace_for jobs i),
       st_rivals = rivals_of jobs last_round i passed_over busy,
       st_busy_rivals = filter (\<lambda>b. b \<noteq> job_id) busy\<rparr>)"

datatype round_end = Round_task task_claim | Round_over "nat list" bool

definition lift_after ::
  "dispatcher \<Rightarrow> nat list \<Rightarrow> job_row \<Rightarrow> nat list \<Rightarrow> dispatcher" where
  "lift_after dp passed_over chosen locked_jobs =
     (let sv = dp_server dp; db = sv_db sv
      in dp\<lparr>dp_server := with_db (db\<lparr>db_jobs :=
           lift_after_claim (db_jobs db) passed_over chosen locked_jobs\<rparr>) sv\<rparr>)"

fun walk_jobs ::
  "settings \<Rightarrow> worker_identity \<Rightarrow> capabilities \<Rightarrow> round_draws \<Rightarrow> job_row list \<Rightarrow> bool \<Rightarrow> nat list \<Rightarrow>
    dispatcher \<Rightarrow> nat list \<Rightarrow> nat list \<Rightarrow> bool \<Rightarrow> dispatcher \<times> round_end" where
  "walk_jobs cf identity caps rn jobs last_round [] dp busy passed_over lost =
     (dp, Round_over busy lost)"
| "walk_jobs cf identity caps rn jobs last_round (i # is) dp busy passed_over lost =
     (let j = jobs ! i in
      if j_id j \<in> set busy then walk_jobs cf identity caps rn jobs last_round is dp busy passed_over lost
      else
        let dp0 = dp\<lparr>dp_server := rn_commits rn i (dp_server dp)\<rparr>;
            standing = standing_for dp0 jobs last_round i passed_over busy (dw_inst (rn_tries rn i))
        in (case try_claim_from_job cf dp0 identity j caps standing (rn_tries rn i) of
              (dp1, Inr (Some claim)) \<Rightarrow>
                (lift_after dp1 passed_over j (rn_locked_jobs rn), Round_task claim)
            | (dp1, Inr None) \<Rightarrow>
                walk_jobs cf identity caps rn jobs last_round is dp1 busy (passed_over @ [j_id j]) lost
            | (dp1, Inl Claim_lost_race) \<Rightarrow>
                walk_jobs cf identity caps rn jobs last_round is dp1 busy passed_over True
            | (dp1, Inl Claim_busy) \<Rightarrow>
                walk_jobs cf identity caps rn jobs last_round is
                  (dp1\<lparr>dp_recently_busy := mark_busy (dp_recently_busy dp1) (dw_inst (rn_tries rn i)) (j_id j)\<rparr>)
                  (busy @ [j_id j]) passed_over lost
            | (dp1, Inl Claim_retry) \<Rightarrow> (dp1, Round_over busy True)
            | (dp1, Inl (Claim_fatal e)) \<Rightarrow>
                walk_jobs cf identity caps rn jobs last_round is dp1 busy (passed_over @ [j_id j]) lost))"

text \<open>Before the walk: lapsed claims reclaimed, overruns counted, and the jobs these set aside left out.\<close>

definition before_walk ::
  "dispatcher \<Rightarrow> job_row list \<Rightarrow> round_draws \<Rightarrow> dispatcher \<times> job_row list" where
  "before_walk dp jobs rn =
     (let sv = dp_server dp; ids = map j_id jobs;
          (db1, holds) = reclaim_lapsed (sv_db sv) (sv_holds sv) (sv_reclaim_from sv) (rn_inst rn) ids
            (sv_heartbeat_timeout sv) (rn_locked_claims rn) (rn_now rn);
          (db2, aside) = count_overruns db1 holds (rn_busy_jobs rn) ids
      in (dp\<lparr>dp_server := sv\<lparr>sv_db := db2, sv_holds := holds\<rparr>\<rparr>,
          filter (\<lambda>j. j_id j \<notin> set aside) jobs))"

datatype handed = Handed task_claim | Answered claim_outcome

definition nobody :: "settings \<Rightarrow> dispatcher \<Rightarrow> capabilities \<Rightarrow> handed" where
  "nobody cf dp caps = Answered (shutdown_or_idle (db_jobs (sv_db (dp_server dp)))
     (cat_input_data (sv_catalogue (dp_server dp))) (cf_download_url cf) caps)"

fun claim_rounds ::
  "settings \<Rightarrow> worker_identity \<Rightarrow> capabilities \<Rightarrow> round_draws list \<Rightarrow> dispatcher \<Rightarrow> nat list \<Rightarrow>
    dispatcher \<times> handed" where
  "claim_rounds cf identity caps [] dp busy = (dp, Answered Idle)"
| "claim_rounds cf identity caps (rn # rounds) dp busy =
     (let jobs = candidate_jobs (db_jobs (sv_db (dp_server dp))) caps in
      if jobs = [] then (dp, nobody cf dp caps)
      else
        let (dp1, jobs1) = before_walk dp jobs rn
        in if jobs1 = [] then (dp1, nobody cf dp1 caps)
           else (case walk_jobs cf identity caps rn jobs1 (rounds = []) [0..<length jobs1] dp1 busy [] False of
               (dp2, Round_task claim) \<Rightarrow> (dp2, Handed claim)
             | (dp2, Round_over busy' again) \<Rightarrow>
                 if again then claim_rounds cf identity caps rounds dp2 busy' else (dp2, Answered Idle)))"

text \<open>\<open>rounds k\<close> is the round \<open>k\<close>; the last of them is the one without the turn check.\<close>

definition claim ::
  "settings \<Rightarrow> worker_identity \<Rightarrow> capabilities \<Rightarrow> (nat \<Rightarrow> round_draws) \<Rightarrow> dispatcher \<Rightarrow> dispatcher \<times> handed" where
  "claim cf identity caps rounds dp =
     (case floor_shutdown (parse_or_zero (cf_min_magpie_version cf)) (cf_download_url cf) caps of
        Some directive \<Rightarrow> (dp, Answered (Shutdown directive))
      | None \<Rightarrow> claim_rounds cf identity caps (map rounds [0..<CLAIM_ROUNDS]) dp [])"

section \<open>The claim route\<close>

definition MAX_UNSUPPORTED_JOBS :: nat where "MAX_UNSUPPORTED_JOBS = 200"
definition UNREGISTERED_CLAIM_BYTES :: nat where "UNREGISTERED_CLAIM_BYTES = 16 * 1024"

record claim_body =
  cb_magpie_version :: ustr
  cb_board_dim :: nat
  cb_rack_size :: nat
  cb_unsupported_jobs :: "nat list"

datatype claim_response =
    No_content
  | Shutdown_response shutdown_directive
  | Assignment task_claim "nat option"

definition newest_unsupported :: "nat list \<Rightarrow> nat list" where
  "newest_unsupported jobs =
     (if length jobs > MAX_UNSUPPORTED_JOBS then drop (length jobs - MAX_UNSUPPORTED_JOBS) jobs else jobs)"

text \<open>
  \<open>metered\<close>: the rate limit's answer; \<open>declared\<close>: the length the request states; \<open>body\<close>: what reading
  and parsing it came to.
\<close>

definition claim_task ::
  "settings \<Rightarrow> worker_identity \<Rightarrow> check \<Rightarrow> nat option \<Rightarrow> claim_body app_result \<Rightarrow>
    (nat \<Rightarrow> round_draws) \<Rightarrow> dispatcher \<Rightarrow> dispatcher \<times> claim_response app_result" where
  "claim_task cf identity metered declared body rounds dp =
     (case and_then metered (\<lambda>_.
        and_then
          (case (identity, declared) of
             (Unregistered uuid ip, Some n) \<Rightarrow> if n > UNREGISTERED_CLAIM_BYTES
               then Inl (Payload_too_large ''a first claim is a few bytes'') else ok
           | _ \<Rightarrow> ok) (\<lambda>_.
        (case body of
           Inl (Bad_request e) \<Rightarrow> Inl (Bad_request ''a task claim must carry a JSON body'')
         | _ \<Rightarrow> body))) of
        Inl e \<Rightarrow> (dp, Inl e)
      | Inr b \<Rightarrow>
          (case unsupported_build (cb_board_dim b) (cb_rack_size b) of
             Some directive \<Rightarrow> (dp, Inr (Shutdown_response directive))
           | None \<Rightarrow>
               let caps = \<lparr>cap_magpie_version = parse_or_zero (cb_magpie_version b),
                     cap_unsupported_jobs = newest_unsupported (cb_unsupported_jobs b)\<rparr>;
                   (dp', outcome) = claim cf identity caps rounds dp
               in (dp', Inr (case outcome of
                   Handed c \<Rightarrow> Assignment c (newly_assigned_uuid identity)
                 | Answered (Shutdown directive) \<Rightarrow> Shutdown_response directive
                 | Answered _ \<Rightarrow> No_content))))"

section \<open>What a claim starts\<close>

text \<open>
  A transition that fails hands its ownership back.  \<open>tools\<close> and \<open>store\<close> are the builder and the
  object store.
\<close>

definition hand_back :: "leave_store \<Rightarrow> nat \<Rightarrow> int \<Rightarrow> leave_store" where
  "hand_back lv job_id generation = lv\<lparr>lv_transitions :=
     update_where (open_transition job_id generation) (\<lambda>t. t\<lparr>tr_started_at := 0\<rparr>) (lv_transitions lv)\<rparr>"

definition run_leave_generation_transition ::
  "klv_tools \<Rightarrow> (ustr \<Rightarrow> ustr) \<Rightarrow> (ustr \<Rightarrow> int) \<Rightarrow> server \<Rightarrow> object_store \<Rightarrow> job_row \<Rightarrow> int \<Rightarrow> time \<Rightarrow>
    server \<times> object_store \<times> check" where
  "run_leave_generation_transition tools collate hashtext sv store j generation now =
     (if j_job_type j \<noteq> LeaveGeneration then (sv, store, ok)
      else case and_then (fetch_one (map_of (cat_leave (sv_catalogue sv)) (j_id j))) (\<lambda>config.
          and_then (load_job_data (sv_catalogue sv) j) (\<lambda>data. Inr (config, jd_letterdist data))) of
        Inl e \<Rightarrow> (sv\<lparr>sv_leaves := hand_back (sv_leaves sv) (j_id j) generation\<rparr>, store, Inl e)
      | Inr (config, distribution) \<Rightarrow>
          (case run_transition tools collate hashtext (sv_leaves sv) (sv_db sv) store (j_id j) generation
               config distribution now of
             ((lv, db, store'), Inr key) \<Rightarrow> (sv\<lparr>sv_leaves := lv, sv_db := db\<rparr>, store', ok)
           | ((lv, db, store'), Inl e) \<Rightarrow>
               (sv\<lparr>sv_leaves := hand_back lv (j_id j) generation, sv_db := db\<rparr>, store', Inl e)))"

text \<open>Under a dispatch-only hold for as long as the seeding runs; \<open>lock\<close>: whether the lock was free.\<close>

definition seed_leave_universe ::
  "server \<Rightarrow> job_row \<Rightarrow> int \<Rightarrow> bool \<Rightarrow> time \<Rightarrow> time \<Rightarrow> server \<times> check" where
  "seed_leave_universe sv j generation lock now inst =
     (if \<not> lock then (sv, ok)
      else
        let (held, guard) = hold (sv_holds sv) (j_id j) DispatchOnly (sv_heartbeat_timeout sv);
            released = drop_hold held guard inst
        in (case and_then (load_job_data (sv_catalogue sv) j) (\<lambda>data.
              ensure_universe (sv_leaves sv) (j_id j) generation (jd_letterdist data) now) of
            Inl e \<Rightarrow> (sv\<lparr>sv_holds := released\<rparr>, Inl e)
          | Inr lv \<Rightarrow> (sv\<lparr>sv_leaves := lv, sv_holds := released\<rparr>, ok)))"

end
