(* ===== verification/Task_Life.thy ===== *)
theory Task_Life
  imports Books
begin

text \<open>
  The abstract specification of a task: it does not exist, is free, is held by one claim of one worker,
  or is finished by the claim that held it.  The tables the server keeps are a refinement of it: every
  transaction is, for every task, one step of the specification or none.
\<close>

section \<open>The specification\<close>

datatype task_life = Absent | Free | Held nat owner | Finished nat owner

inductive life_step :: "task_life \<Rightarrow> task_life \<Rightarrow> bool" where
  made_for: "life_step Absent (Held claim w)"
| handed_out: "life_step Free (Held claim w)"
| given_back: "life_step (Held claim w) Free"
| finished: "life_step (Held claim w) (Finished claim w)"

inductive_cases life_stepE: "life_step l l'"
inductive_simps finished_step [simp]: "life_step (Finished claim w) l"

lemma finished_for_good: "life_step\<^sup>*\<^sup>* (Finished claim w) l \<Longrightarrow> l = Finished claim w"
  by (induction rule: rtranclp_induct) simp_all

section \<open>The life the tables give a task\<close>

definition claim_in :: "claim_state \<Rightarrow> nat \<Rightarrow> claim_row list \<Rightarrow> claim_row option" where
  "claim_in s task claims = find (\<lambda>c. c_task_id c = task \<and> c_state c = s) claims"

definition life_of :: "nat \<Rightarrow> db \<Rightarrow> task_life" where
  "life_of task db =
     (if task \<notin> t_id ` set (db_tasks db) then Absent
      else case claim_in C_completed task (db_claims db) of
             Some c \<Rightarrow> Finished (c_id c) (c_claimed_by c)
           | None \<Rightarrow> (case claim_in C_claimed task (db_claims db) of
                        Some c \<Rightarrow> Held (c_id c) (c_claimed_by c) | None \<Rightarrow> Free))"

lemma claim_in_None: "claim_in s i cs = None \<longleftrightarrow> (\<forall>c\<in>set cs. c_task_id c = i \<longrightarrow> c_state c \<noteq> s)"
  by (auto simp: claim_in_def find_None_iff)

lemma claim_in_Some: "claim_in s i cs = Some c \<Longrightarrow> c \<in> set cs \<and> c_task_id c = i \<and> c_state c = s"
  by (auto simp: claim_in_def find_Some_iff)

lemma claim_in_new: "c_task_id c \<noteq> i \<Longrightarrow> claim_in s i (cs @ [c]) = claim_in s i cs"
  unfolding claim_in_def by (induction cs) auto

text \<open>Of the claims of a task at most one holds its slot.\<close>

lemma count_where_two:
  "a \<in> set rs \<Longrightarrow> b \<in> set rs \<Longrightarrow> a \<noteq> b \<Longrightarrow> P a \<Longrightarrow> P b \<Longrightarrow> 2 \<le> count_where P rs"
proof (induction rs)
  case (Cons r rs)
  show ?case
  proof (cases "r = a \<or> r = b")
    case True
    then have "1 \<le> count_where P rs"
      using Cons.prems count_where_pos [of a rs P] count_where_pos [of b rs P] by auto
    with True Cons.prems show ?thesis by auto
  next
    case False
    with Cons show ?thesis by auto
  qed
qed simp

lemma count_where_or:
  "(\<And>r. r \<in> set rs \<Longrightarrow> \<not> (P r \<and> Q r)) \<Longrightarrow>
     count_where (\<lambda>r. P r \<or> Q r) rs = count_where P rs + count_where Q rs"
  by (induction rs) auto

lemma one_holder:
  assumes ok: "books_ok db" and c: "c \<in> set (db_claims db)" "holds_slot c"
    and d: "d \<in> set (db_claims db)" "holds_slot d" and same: "c_task_id d = c_task_id c"
  shows "d = c"
proof (rule ccontr)
  assume "d \<noteq> c"
  obtain t where t: "t \<in> set (db_tasks db)" "t_id t = c_task_id c"
    using task_of_claim [OF ok c(1)] by metis
  let ?P = "\<lambda>s x. c_task_id x = t_id t \<and> c_state x = s"
  have "2 \<le> count_where (\<lambda>x. ?P C_claimed x \<or> ?P C_completed x) (db_claims db)"
    by (rule count_where_two [OF c(1) d(1)]) (use \<open>d \<noteq> c\<close> c(2) d(2) same t(2) in \<open>auto simp: holds_slot_def\<close>)
  also have "\<dots> = open_of (db_claims db) (t_id t) + done_of (db_claims db) (t_id t)"
    unfolding open_of_def done_of_def by (rule count_where_or) auto
  also have "\<dots> \<le> 1" by (rule slot_okD(3) [OF books_okD(3) [OF ok t(1)]])
  finally show False by simp
qed

lemma task_known: "books_ok db \<Longrightarrow> c \<in> set (db_claims db) \<Longrightarrow> c_task_id c \<in> t_id ` set (db_tasks db)"
  using task_of_claim by (metis image_eqI)

lemma life_absent: "life_of i db = Absent \<longleftrightarrow> i \<notin> t_id ` set (db_tasks db)"
  by (simp add: life_of_def split: option.splits)

lemma life_free:
  "life_of i db = Free \<longleftrightarrow> i \<in> t_id ` set (db_tasks db) \<and>
     (\<forall>c\<in>set (db_claims db). c_task_id c = i \<longrightarrow> \<not> holds_slot c)"
  by (auto simp: life_of_def claim_in_None holds_slot_def split: option.splits dest!: claim_in_Some)

lemma life_held:
  assumes ok: "books_ok db"
  shows "life_of i db = Held k w \<longleftrightarrow> (\<exists>c\<in>set (db_claims db). c_task_id c = i \<and> c_state c = C_claimed \<and>
    c_id c = k \<and> c_claimed_by c = w)" (is "_ \<longleftrightarrow> ?R")
proof
  show "life_of i db = Held k w \<Longrightarrow> ?R"
    by (auto simp: life_of_def split: option.splits if_splits dest!: claim_in_Some)
  assume ?R
  then obtain c where c: "c \<in> set (db_claims db)" "c_task_id c = i" "c_state c = C_claimed"
    "c_id c = k" "c_claimed_by c = w" by blast
  have h: "holds_slot c" by (simp add: holds_slot_def c)
  have "c_state d \<noteq> C_completed" if "d \<in> set (db_claims db)" "c_task_id d = i" for d
    using one_holder [OF ok c(1) h that(1)] that(2) c(2,3) by (auto simp: holds_slot_def)
  then have "claim_in C_completed i (db_claims db) = None"
    by (simp add: claim_in_None)
  moreover have "claim_in C_claimed i (db_claims db) = Some c"
  proof (cases "claim_in C_claimed i (db_claims db)")
    case None
    with c show ?thesis by (auto simp: claim_in_None)
  next
    case (Some d)
    from claim_in_Some [OF this] one_holder [OF ok c(1) h, of d] c(2) Some show ?thesis
      by (auto simp: holds_slot_def)
  qed
  ultimately show "life_of i db = Held k w"
    using task_known [OF ok c(1)] c by (simp add: life_of_def)
qed

lemma life_finished:
  assumes ok: "books_ok db"
  shows "life_of i db = Finished k w \<longleftrightarrow> (\<exists>c\<in>set (db_claims db). c_task_id c = i \<and> c_state c = C_completed \<and>
    c_id c = k \<and> c_claimed_by c = w)" (is "_ \<longleftrightarrow> ?R")
proof
  show "life_of i db = Finished k w \<Longrightarrow> ?R"
    by (auto simp: life_of_def split: option.splits if_splits dest!: claim_in_Some)
  assume ?R
  then obtain c where c: "c \<in> set (db_claims db)" "c_task_id c = i" "c_state c = C_completed"
    "c_id c = k" "c_claimed_by c = w" by blast
  have h: "holds_slot c" by (simp add: holds_slot_def c)
  have "claim_in C_completed i (db_claims db) = Some c"
  proof (cases "claim_in C_completed i (db_claims db)")
    case None
    with c show ?thesis by (auto simp: claim_in_None)
  next
    case (Some d)
    from claim_in_Some [OF this] one_holder [OF ok c(1) h, of d] c(2) Some show ?thesis
      by (auto simp: holds_slot_def)
  qed
  then show "life_of i db = Finished k w"
    using task_known [OF ok c(1)] c by (simp add: life_of_def)
qed

section \<open>Statements that leave every life as it is\<close>

definition same_lives :: "db \<Rightarrow> db \<Rightarrow> bool" where
  "same_lives db db' \<longleftrightarrow> map t_id (db_tasks db') = map t_id (db_tasks db) \<and>
     map claim_view (db_claims db') = map claim_view (db_claims db)"

lemma same_lives_refl [simp]: "same_lives db db"
  by (simp add: same_lives_def)

lemma same_lives_trans: "same_lives a b \<Longrightarrow> same_lives b c \<Longrightarrow> same_lives a c"
  by (simp add: same_lives_def)

lemma claim_in_view:
  assumes "map claim_view cs' = map claim_view cs"
  shows "map_option claim_view (claim_in s i cs') = map_option claim_view (claim_in s i cs)"
  using assms
proof (induction cs' arbitrary: cs)
  case (Cons c' cs')
  then obtain c ds where cs: "cs = c # ds" "claim_view c' = claim_view c" "map claim_view cs' = map claim_view ds"
    by (cases cs) auto
  have "c_task_id c' = c_task_id c" "c_state c' = c_state c" using cs(2) by (simp_all add: claim_view_def)
  with Cons.IH [OF cs(3)] cs show ?case by (simp add: claim_in_def)
qed (simp add: claim_in_def)

lemma same_lives_life:
  assumes "same_lives db db'"
  shows "life_of i db' = life_of i db"
proof -
  have ids: "t_id ` set (db_tasks db') = t_id ` set (db_tasks db)"
    using assms by (metis image_set same_lives_def)
  have v: "map_option claim_view (claim_in s i (db_claims db')) = map_option claim_view (claim_in s i (db_claims db))" for s
    using assms by (intro claim_in_view) (simp add: same_lives_def)
  from v [of C_completed] v [of C_claimed] show ?thesis
    by (cases "claim_in C_completed i (db_claims db')"; cases "claim_in C_completed i (db_claims db)";
        cases "claim_in C_claimed i (db_claims db')"; cases "claim_in C_claimed i (db_claims db)")
      (simp_all add: life_of_def ids claim_view_def)
qed

lemma same_lives_heartbeat:
  assumes "heartbeat db identity token locked now = Inr db'"
  shows "same_lives db db'"
proof -
  have "db' = db\<lparr>db_claims := update_where (\<lambda>c. c_claim_token c = token \<and> c_state c = C_claimed \<and>
      c_claimed_by c = owner_of identity \<and> c_id c \<notin> set locked)
      (\<lambda>c. c\<lparr>c_last_heartbeat_at := Some now\<rparr>) (db_claims db)\<rparr>"
    using assms by (auto simp: heartbeat_def and_then_check_Inr)
  then show ?thesis
    by (auto simp: same_lives_def claim_view_def compute_of_def claim_compute_ms_def
      intro!: map_update_where split: option.splits)
qed

lemma same_lives_marked:
  "same_lives db (db\<lparr>db_claims := update_where P (\<lambda>c. c\<lparr>c_overrun := r c\<rparr>) (db_claims db)\<rparr>)"
  by (auto simp: same_lives_def claim_view_def compute_of_def claim_compute_ms_def
      intro!: map_update_where split: option.splits)

lemma same_lives_time_limit:
  assumes "record_time_limit db job_id declined = Inr (db', aside)"
  shows "same_lives db db'"
proof -
  have "db_tasks db' = db_tasks db \<and>
      db_claims db' = update_where (pending_of job_id) (\<lambda>c. c\<lparr>c_overrun := Some Overrun_counted\<rparr>) (db_claims db)"
    using assms
    by (auto simp: record_time_limit_def fetch_one_def ok_or_def Let_def split: option.splits if_splits)
  then show ?thesis
    using same_lives_marked [of db "pending_of job_id" "\<lambda>_. Some Overrun_counted"]
    by (simp add: same_lives_def)
qed

lemma same_lives_overruns: "same_lives db (fst (count_overruns db holds locked job_ids))"
proof -
  have one: "same_lives d (fst (count_overruns_of d locked i))" for d i
    using same_lives_time_limit [of d i None]
    by (auto simp: count_overruns_of_def split: sum.splits)
  have "same_lives d (fst (count_each holds locked is d))" for d "is"
  proof (induction "is" arbitrary: d)
    case (Cons i "is")
    obtain d1 aside where d1: "count_overruns_of d locked i = (d1, aside)" by fastforce
    obtain d2 asides where d2: "count_each holds locked is d1 = (d2, asides)" by fastforce
    have "same_lives d d1" using one [of d i] d1 by simp
    from same_lives_trans [OF this] Cons.IH [of d1] Cons.IH [of d] d1 d2 show ?case by simp
  qed simp
  then show ?thesis by (simp add: count_overruns_def)
qed

lemma same_lives_declined:
  assumes r: "decline_task db holds identity token reason missing timeout now = Inr db'"
  obtains k db3 where "same_lives (fst (release_claim db k C_declined)) db3" "same_lives db3 db'"
proof -
  from r obtain c t where ct: "open_claim db token identity = Some (c, t)"
    by (auto simp: decline_task_def and_then_Inr ok_or_def split: option.splits)
  let ?db1 = "fst (release_claim db (c_id c) C_declined)"
  let ?db2 = "if reason = lit ''task_failed'' \<or> reason = lit ''time_limit'' then ?db1
    else ?db1\<lparr>db_jobs := unsettle (db_jobs ?db1) (t_job_id t) timeout now\<rparr>"
  have s2: "same_lives ?db1 ?db2" by (simp add: same_lives_def)
  from r obtain db3 aside gaps audit where
    m: "(if reason = lit ''time_limit'' then record_time_limit ?db2 (t_job_id t) (Some (limit_secs c))
          else Inr (?db2, False)) = Inr (db3, aside)" and
    db': "db' = db3\<lparr>db_gaps := gaps, db_audit := audit\<rparr>"
    unfolding decline_task_def ct by (auto simp: and_then_Inr ok_or_def Let_def simp del: lit_def)
  have "same_lives ?db2 db3"
  proof (cases "reason = lit ''time_limit''")
    case True
    with m have "record_time_limit ?db2 (t_job_id t) (Some (limit_secs c)) = Inr (db3, aside)" by simp
    then show ?thesis by (rule same_lives_time_limit)
  next
    case False
    with m show ?thesis by simp
  qed
  with s2 have "same_lives ?db1 db3" by (rule same_lives_trans)
  moreover have "same_lives db3 db'" by (simp add: db' same_lives_def)
  ultimately show ?thesis by (rule that)
qed

lemma same_lives_late:
  assumes r: "refuse_late db c job_id = Inr db'"
  obtains db2 where "same_lives (fst (release_claim db (c_id c) C_abandoned)) db2" "same_lives db2 db'"
proof -
  let ?db1 = "fst (release_claim db (c_id c) C_abandoned)"
  let ?db2 = "?db1\<lparr>db_claims := update_key c_id (c_id c)
      (\<lambda>c. c\<lparr>c_overrun := Some Overrun_pending\<rparr>) (db_claims ?db1)\<rparr>"
  have "same_lives ?db1 ?db2"
    unfolding update_key_def by (rule same_lives_marked)
  moreover from r obtain aside where "record_time_limit ?db2 job_id None = Inr (db', aside)"
    by (auto simp: refuse_late_def Let_def and_then_Inr)
  then have "same_lives ?db2 db'" by (rule same_lives_time_limit)
  ultimately show ?thesis by (rule that)
qed

section \<open>Statements that move a task\<close>

text \<open>Closing claims gives their tasks back and leaves the others.\<close>

lemma life_close:
  assumes ok: "books_ok db" and cl: "closes P f"
  shows "life_step\<^sup>=\<^sup>= (life_of i db) (life_of i (close_claims P f db))"
proof -
  let ?db = "close_claims P f db"
  note ok' = books_close [OF ok cl]
  have cs: "db_claims ?db = update_where P f (db_claims db)"
    by (simp add: close_claims_def Let_def)
  have ids: "t_id ` set (db_tasks ?db) = t_id ` set (db_tasks db)"
  proof -
    have "map t_id (db_tasks ?db) = map t_id (db_tasks db)"
      by (simp add: close_claims_def Let_def) (rule map_update_where, simp)
    then show ?thesis by (metis image_set)
  qed
  have in_cs: "d \<in> set (db_claims ?db) \<longleftrightarrow> (\<exists>c\<in>set (db_claims db). d = (if P c then f c else c))" for d
    by (auto simp: cs set_update_where)
  show ?thesis
  proof (cases "life_of i db")
    case Absent
    then have "life_of i ?db = Absent" unfolding life_absent ids .
    with Absent show ?thesis by simp
  next
    case Free
    then have "\<not> holds_slot d" if "d \<in> set (db_claims ?db)" "c_task_id d = i" for d
      using that closesD [OF cl] by (auto simp: life_free in_cs holds_slot_def split: if_splits)
    with Free have "life_of i ?db = Free" by (simp add: life_free ids)
    with Free show ?thesis by simp
  next
    case (Held k w)
    then obtain c where c: "c \<in> set (db_claims db)" "c_task_id c = i" "c_state c = C_claimed"
      "c_id c = k" "c_claimed_by c = w" by (auto simp: life_held [OF ok])
    show ?thesis
    proof (cases "P c")
      case True
      have "\<not> holds_slot d" if d: "d \<in> set (db_claims ?db)" "c_task_id d = i" for d
      proof
        assume h: "holds_slot d"
        from d(1) obtain e where e: "e \<in> set (db_claims db)" "d = (if P e then f e else e)" by (auto simp: in_cs)
        then have "\<not> P e" using h closesD(2,3) [OF cl, of e] by (auto simp: holds_slot_def)
        with e have "d = e" by simp
        with one_holder [OF ok c(1) _ e(1)] h d(2) c(2,3) have "d = c" by (auto simp: holds_slot_def)
        with True \<open>d = e\<close> \<open>\<not> P e\<close> show False by simp
      qed
      then have "life_of i ?db = Free"
        using task_known [OF ok c(1)] c(2) by (simp add: life_free ids)
      with Held show ?thesis by (simp add: given_back)
    next
      case False
      with c have "c \<in> set (db_claims ?db)" by (auto simp: in_cs)
      with c have "life_of i ?db = Held k w" by (auto simp: life_held [OF ok'])
      with Held show ?thesis by simp
    qed
  next
    case (Finished k w)
    then obtain c where c: "c \<in> set (db_claims db)" "c_task_id c = i" "c_state c = C_completed"
      "c_id c = k" "c_claimed_by c = w" by (auto simp: life_finished [OF ok])
    then have "\<not> P c" using closesD(1) [OF cl, of c] by auto
    with c have "c \<in> set (db_claims ?db)" by (auto simp: in_cs)
    with c have "life_of i ?db = Finished k w" by (auto simp: life_finished [OF ok'])
    with Finished show ?thesis by simp
  qed
qed

lemma life_release:
  assumes ok: "books_ok db" and s: "s \<noteq> C_claimed" "s \<noteq> C_completed"
  shows "life_step\<^sup>=\<^sup>= (life_of i db) (life_of i (fst (release_claim db k s)))"
proof (cases "row_with c_id k (db_claims db)")
  case None
  then show ?thesis by (simp add: release_claim_def)
next
  case (Some c)
  show ?thesis
  proof (cases "c_state c = C_claimed")
    case True
    have "closes (\<lambda>c. c_id c = k \<and> c_state c = C_claimed) (\<lambda>c. c\<lparr>c_state := s\<rparr>)"
      using s by (simp add: closes_def)
    from life_close [OF ok this] show ?thesis
      by (simp only: release_is_close [OF ok Some True])
  next
    case False
    with Some show ?thesis by (simp add: release_claim_def)
  qed
qed

text \<open>A claim issued holds a task that was free, or that did not exist.\<close>

lemma life_issue:
  assumes ok: "books_ok db0" and ok': "books_ok db'"
    and db: "db_claims db = db_claims db0"
      "t_id ` set (db_tasks db) = insert task_id (t_id ` set (db_tasks db0))"
    and issued: "issue_claim db identity job_id caps task_id created standing claim_id token now =
      Inr (Some (db', tok, secs))"
  shows "life_step\<^sup>=\<^sup>= (life_of i db0) (life_of i db')"
proof -
  from issued obtain j :: job_row where
    free: "\<forall>c\<in>set (db_claims db). c_task_id c = task_id \<longrightarrow> \<not> holds_slot c" and
    cs: "db_claims db' = db_claims db @ [new_claim claim_id task_id job_id token (owner_of identity)
       (show_version (cap_magpie_version caps)) (j_max_task_seconds j) now]" and
    ts: "db_tasks db' = update_key t_id task_id occupy (db_tasks db)"
    by (rule issue_claimD) (rule that)
  have "map t_id (db_tasks db') = map t_id (db_tasks db)"
    by (simp add: ts map_update_key)
  then have ids: "t_id ` set (db_tasks db') = insert task_id (t_id ` set (db_tasks db0))"
    by (metis db(2) image_set)
  show ?thesis
  proof (cases "i = task_id")
    case True
    have "life_of i db' = Held claim_id (owner_of identity)"
      by (simp add: life_held [OF ok'] cs True)
    moreover have "life_of i db0 = Absent \<or> life_of i db0 = Free"
      using free True by (auto simp: life_absent life_free db(1))
    ultimately show ?thesis by (auto intro: made_for handed_out)
  next
    case False
    then have "claim_in s i (db_claims db') = claim_in s i (db_claims db0)" for s
      by (simp add: cs db(1) claim_in_new)
    moreover have "i \<in> t_id ` set (db_tasks db') \<longleftrightarrow> i \<in> t_id ` set (db_tasks db0)"
      using False by (simp only: ids insert_iff simp_thms)
    ultimately have "life_of i db' = life_of i db0" unfolding life_of_def by (simp only:)
    then show ?thesis by simp
  qed
qed

text \<open>A claim completed finishes its task; nothing else does.\<close>

lemma life_complete:
  assumes ok: "books_ok db" and oc: "open_claim db token identity = Some (c, t)"
    and r: "complete_submission db c (t_job_id t) p movegens skipped now = Inr db'"
  shows "life_step\<^sup>=\<^sup>= (life_of i db) (life_of i db')"
proof -
  note C = open_claimD [OF oc]
  note ok' = books_complete [OF ok oc r]
  have db': "db_claims db' = update_key c_id (c_id c) (complete_claim movegens skipped now) (db_claims db)"
      "db_tasks db' = update_key t_id (c_task_id c) (complete_task now) (db_tasks db)"
    using r by (auto simp: complete_submission_def Let_def fetch_one_def ok_or_def C(5) split: if_splits)
  have "map t_id (db_tasks db') = map t_id (db_tasks db)"
    by (simp add: db' map_update_key)
  then have ids: "t_id ` set (db_tasks db') = t_id ` set (db_tasks db)" by (metis image_set)
  have same: "d \<in> set (db_claims db') \<longleftrightarrow> d \<in> set (db_claims db)" if "c_task_id d \<noteq> c_task_id c" for d
  proof -
    have "c_id d \<noteq> c_id c" if "d \<in> set (db_claims db)"
      using distinct_map_inj_eq [OF keysD(3) [OF ok] that C(1)] \<open>c_task_id d \<noteq> c_task_id c\<close> by auto
    moreover have "c_task_id (complete_claim movegens skipped now e) = c_task_id c"
      if "e \<in> set (db_claims db)" "c_id e = c_id c" for e
      using distinct_map_inj_eq [OF keysD(3) [OF ok] that(1) C(1)] that(2) by simp
    ultimately show ?thesis using that unfolding db' claims.in_upd by metis
  qed
  show ?thesis
  proof (cases "i = c_task_id c")
    case True
    have "complete_claim movegens skipped now c \<in> set (db_claims db')"
      using C(1) by (auto simp: db' claims.in_upd)
    then have "life_of i db' = Finished (c_id c) (c_claimed_by c)"
      unfolding life_finished [OF ok'] True
      by (intro bexI [of _ "complete_claim movegens skipped now c"]) simp_all
    moreover have "life_of i db = Held (c_id c) (c_claimed_by c)"
      using C(1,2) unfolding life_held [OF ok] True by (intro bexI [of _ c]) simp_all
    ultimately show ?thesis by (simp add: finished)
  next
    case False
    show ?thesis
    proof (cases "life_of i db")
      case Absent
      then have "life_of i db' = Absent" unfolding life_absent ids .
      with Absent show ?thesis by simp
    next
      case Free
      with False same have "life_of i db' = Free" by (auto simp: life_free ids)
      with Free show ?thesis by simp
    next
      case (Held k w)
      with False same have "life_of i db' = Held k w" by (auto simp: life_held [OF ok'] life_held [OF ok])
      with Held show ?thesis by simp
    next
      case (Finished k w)
      with False same have "life_of i db' = Finished k w"
        by (auto simp: life_finished [OF ok'] life_finished [OF ok])
      with Finished show ?thesis by simp
    qed
  qed
qed

section \<open>The refinement\<close>

lemma life_of_step:
  assumes st: "dispatch_step db db'" and ok: "books_ok db"
  shows "life_step\<^sup>=\<^sup>= (life_of i db) (life_of i db')"
  using st
proof cases
  case (job_made j)
  then have "same_lives db db'" by (simp add: same_lives_def)
  then show ?thesis by (simp add: same_lives_life)
next
  case (registered w)
  then have "same_lives db db'" by (simp add: same_lives_def)
  then show ?thesis by (simp add: same_lives_life)
next
  case (new_task_claimed task_id job_id seed now tasks1 claim_id identity caps standing token tok secs)
  from new_task_claimed(1) have "tasks1 = db_tasks db @ [new_task task_id job_id seed now]"
    by (auto simp: insert_on_demand_task_def split: if_splits)
  then have "t_id ` set tasks1 = insert task_id (t_id ` set (db_tasks db))" by simp
  then show ?thesis
    by (intro life_issue [OF ok books_step [OF st ok] _ _ new_task_claimed(5)]) simp_all
next
  case (available_task_claimed leave_requests job_id identity generation locked now task_id claim_id caps standing token tok secs)
  from available_task_claimed(1) have "task_id \<in> t_id ` set (db_tasks db)"
    by (rule next_availableD) blast
  then show ?thesis
    by (intro life_issue [OF ok books_step [OF st ok] _ _ available_task_claimed(4)]) (simp_all add: insert_absorb)
next
  case (heard identity token locked now)
  then show ?thesis by (simp add: same_lives_life [OF same_lives_heartbeat])
next
  case (declined holds identity token reason missing timeout now)
  then obtain k db3 where k: "same_lives (fst (release_claim db k C_declined)) db3" "same_lives db3 db'"
    by (rule same_lives_declined)
  have "life_step\<^sup>=\<^sup>= (life_of i db) (life_of i (fst (release_claim db k C_declined)))"
    by (rule life_release [OF ok]) simp_all
  then show ?thesis by (simp only: same_lives_life [OF k(1)] same_lives_life [OF k(2)])
next
  case (completed token identity c t p movegens skipped now)
  then show ?thesis by (rule life_complete [OF ok])
next
  case (too_late c job_id)
  then obtain db2 where k: "same_lives (fst (release_claim db (c_id c) C_abandoned)) db2" "same_lives db2 db'"
    by (rule same_lives_late)
  have "life_step\<^sup>=\<^sup>= (life_of i db) (life_of i (fst (release_claim db (c_id c) C_abandoned)))"
    by (rule life_release [OF ok]) simp_all
  then show ?thesis by (simp only: same_lives_life [OF k(1)] same_lives_life [OF k(2)])
next
  case (reclaimed job_ids timeout locked now)
  then show ?thesis unfolding reclaim_is_close
    by (simp only:) (rule life_close [OF ok], simp add: closes_def lapsed_def)
next
  case (overruns holds locked_jobs job_ids)
  then show ?thesis by (simp add: same_lives_life [OF same_lives_overruns])
next
  case (joined job_id window now)
  then have "same_lives db db'" by (simp add: same_lives_def)
  then show ?thesis by (simp add: same_lives_life)
next
  case (unsettled job_id window now)
  then have "same_lives db db'" by (simp add: same_lives_def)
  then show ?thesis by (simp add: same_lives_life)
next
  case (lifted passed pace locked)
  then have "same_lives db db'" by (simp add: same_lives_def)
  then show ?thesis by (simp add: same_lives_life)
qed

text \<open>A simulation: a step of the program is a step of its specification or none, so a run is a run.\<close>

locale simulation =
  fixes inv :: "'c \<Rightarrow> bool" and cstep :: "'c \<Rightarrow> 'c \<Rightarrow> bool"
    and abs :: "'c \<Rightarrow> 'a" and astep :: "'a \<Rightarrow> 'a \<Rightarrow> bool"
  assumes inv_step: "inv c \<Longrightarrow> cstep c c' \<Longrightarrow> inv c'"
    and simulates: "inv c \<Longrightarrow> cstep c c' \<Longrightarrow> astep\<^sup>=\<^sup>= (abs c) (abs c')"
begin

lemma run_refines: "cstep\<^sup>*\<^sup>* c c' \<Longrightarrow> inv c \<Longrightarrow> inv c' \<and> astep\<^sup>*\<^sup>* (abs c) (abs c')"
proof (induction rule: rtranclp_induct)
  case (step c' c'')
  then show ?case
    using inv_step [of c' c''] simulates [of c' c''] by (auto intro: rtranclp.rtrancl_into_rtrancl)
qed simp

end

interpretation life: simulation books_ok dispatch_step "life_of i" life_step for i
  by unfold_locales (auto intro: books_step dest: life_of_step)

section \<open>Claims\<close>

text \<open>C14: The tables refine the life of a task.  Whatever the server does from a state it can reach, by one
  transaction after another and in any order, each task goes only through the steps of the
  specification: it is made for the claim it is first given to, is given back by the claim that holds it and then
  handed out to another, or is finished by the claim that holds it, under that claim's own
  contributor.  Before and after each single transaction it is at most one such step further.\<close>

theorem tables_refine_task_life:
  assumes "dispatch_reachable db" "dispatch_step\<^sup>*\<^sup>* db db1" "dispatch_step db1 db2"
  shows "life_step\<^sup>*\<^sup>* (life_of task db) (life_of task db1) \<and>
    (life_of task db2 = life_of task db1 \<or> life_step (life_of task db1) (life_of task db2))"
proof -
  have run: "books_ok db1 \<and> life_step\<^sup>*\<^sup>* (life_of task db) (life_of task db1)"
    by (rule life.run_refines [OF assms(2) books_reachable [OF assms(1)]])
  then show ?thesis using life_of_step [OF assms(3), of task] by auto
qed

theorem tables_refine_task_life_witness:
  "life_of 10 example_joined = Absent \<and> life_of 10 example_done = Finished 20 (By_user 5) \<and>
   life_step\<^sup>*\<^sup>* (life_of 10 example_joined) (life_of 10 example_claimed) \<and>
   life_step (life_of 10 example_claimed) (life_of 10 example_done)"
proof -
  have a: "life_of 10 example_joined = Absent"
    by (simp add: life_of_def example_joined_def no_jobs_def)
  have b: "life_of 10 example_claimed = Held 20 (By_user 5)"
    by (simp add: life_of_def example_claimed_def claim_in_def)
  have c: "life_of 10 example_done = Finished 20 (By_user 5)"
    by (simp add: life_of_def example_done_def example_claimed_def claim_in_def)
  from tables_refine_task_life [OF example_joined_reachable _ example_done_step,
      where task = 10, OF r_into_rtranclp [where r = dispatch_step, OF example_claimed_step]]
  show ?thesis by (simp add: a b c)
qed

text \<open>C15: A finished task is finished for good.  Once a claim has completed a task, no later transaction
  reopens it, hands it to another worker, or gives the result to another claim or contributor: its row stays
  completed, and the claim that completed it stays completed, with the owner it had.\<close>

theorem finished_tasks_stay_finished:
  assumes "dispatch_reachable db" "dispatch_step\<^sup>*\<^sup>* db db'"
    "c \<in> set (db_claims db)" "c_state c = C_completed"
  shows "(\<exists>d\<in>set (db_claims db'). c_id d = c_id c \<and> c_task_id d = c_task_id c \<and>
      c_state d = C_completed \<and> c_claimed_by d = c_claimed_by c) \<and>
    (\<exists>t\<in>set (db_tasks db'). t_id t = c_task_id c \<and> t_state t = T_completed) \<and>
    (\<forall>d\<in>set (db_claims db'). c_task_id d = c_task_id c \<and> c_id d \<noteq> c_id c \<longrightarrow>
      c_state d = C_declined \<or> c_state d = C_abandoned)"
proof -
  let ?i = "c_task_id c" and ?F = "Finished (c_id c) (c_claimed_by c)"
  note ok = books_reachable [OF assms(1)]
  have "life_of ?i db = ?F" using assms(3,4) by (auto simp: life_finished [OF ok])
  with life.run_refines [OF assms(2) ok, of ?i] have ok': "books_ok db'" and fin: "life_of ?i db' = ?F"
    by (auto dest: finished_for_good)
  from fin obtain d where d: "d \<in> set (db_claims db')" "c_task_id d = ?i" "c_state d = C_completed"
    "c_id d = c_id c" "c_claimed_by d = c_claimed_by c" by (auto simp: life_finished [OF ok'])
  obtain t where t: "t \<in> set (db_tasks db')" "t_id t = ?i"
    using task_known [OF ok' d(1)] d(2) by auto
  have "done_of (db_claims db') ?i > 0"
    unfolding done_of_def using count_where_pos [OF d(1), of "\<lambda>x. c_task_id x = ?i \<and> c_state x = C_completed"] d(2,3)
    by simp
  then have "t_state t = T_completed"
    using slot_okD [OF books_okD(3) [OF ok' t(1)]] t(2) by simp
  moreover have "c_state e = C_declined \<or> c_state e = C_abandoned"
    if e: "e \<in> set (db_claims db')" "c_task_id e = ?i" "c_id e \<noteq> c_id c" for e
    using one_holder [OF ok' d(1) _ e(1)] e(2,3) d by (cases "c_state e") (auto simp: holds_slot_def)
  ultimately show ?thesis using d t by blast
qed

theorem finished_tasks_stay_finished_witness:
  "\<exists>d\<in>set (db_claims (example_done\<lparr>db_jobs := unsettle (db_jobs example_done) 1 300000000 6000000\<rparr>)).
     c_id d = 20 \<and> c_state d = C_completed \<and> c_claimed_by d = By_user 5"
proof -
  have "complete_claim 12 None 5000000 example_claim \<in> set (db_claims example_done)"
    by (simp add: example_done_def)
  from finished_tasks_stay_finished [OF example_done_reachable
      r_into_rtranclp [where r = dispatch_step, OF dispatch_step.unsettled] this]
  show ?thesis by fastforce
qed

end
