(* ===== verification/Leave_Merge_Spec.thy ===== *)
theory Leave_Merge_Spec
  imports Leave_Merge
begin

text \<open>
  Merging staged results: each rack is in exactly one slice, so the passes of a merge together do what
  adding everything staged at once does.
\<close>

lemma counts_in_Nil [simp]: "counts_in [] rack = 0"
  by (simp add: counts_in_def)

lemma map_of_folded:
  "map_of (folded elements) rack =
    (if rack \<in> fst ` set elements then Some (counts_in elements rack, sums_in elements rack) else None)"
proof -
  have "map_of (map (\<lambda>r. (r, counts_in elements r, sums_in elements r)) rs) rack =
      (if rack \<in> set rs then Some (counts_in elements rack, sums_in elements rack) else None)" for rs
    by (induction rs) auto
  then show ?thesis by (simp add: folded_def)
qed

lemma fst_folded: "fst ` set (folded elements) = fst ` set elements"
  by (simp add: folded_def image_image)

lemma slice_filter:
  "in_slice hashtext passes pass rack \<Longrightarrow>
    filter (\<lambda>e. fst e = rack) (slice_of hashtext passes pass elements) = filter (\<lambda>e. fst e = rack) elements"
  unfolding slice_of_def by (induction elements) auto

lemma slice_rack: "rack \<in> fst ` set (slice_of hashtext passes pass elements) \<longleftrightarrow>
    rack \<in> fst ` set elements \<and> in_slice hashtext passes pass rack"
  by (auto simp: slice_of_def)

text \<open>One pass adds what was staged for the racks of its slice, and to no other.\<close>

definition add_staged :: "nat \<Rightarrow> int \<Rightarrow> (ustr \<times> int \<times> f64) list \<Rightarrow> (ustr \<Rightarrow> bool) \<Rightarrow> rack_row \<Rightarrow> rack_row" where
  "add_staged job_id generation elements chosen p =
     (if of_generation job_id generation p \<and> rp_rack p \<in> fst ` set elements \<and> chosen (rp_rack p)
      then p\<lparr>rp_count := rp_count p + counts_in elements (rp_rack p),
             rp_equity_sum := f64_plus (rp_equity_sum p) (sums_in elements (rp_rack p))\<rparr>
      else p)"

lemma apply_fold_slice:
  "apply_fold job_id generation (folded (slice_of hashtext passes pass elements)) =
    add_staged job_id generation elements (in_slice hashtext passes pass)"
  by (rule ext)
    (simp add: apply_fold_def add_staged_def map_of_folded slice_rack counts_in_def sums_in_def slice_filter)

lemma add_staged_key [simp]:
  "rp_rack (add_staged job_id generation elements chosen p) = rp_rack p"
  "of_generation job_id' generation' (add_staged job_id generation elements chosen p) =
    of_generation job_id' generation' p"
  by (simp_all add: add_staged_def of_generation_def)

lemma add_staged_twice:
  "\<not> (c1 (rp_rack p) \<and> c2 (rp_rack p)) \<Longrightarrow>
    add_staged j g els c2 (add_staged j g els c1 p) = add_staged j g els (\<lambda>r. c1 r \<or> c2 r) p"
  by (cases "c1 (rp_rack p)"; cases "c2 (rp_rack p)") (simp_all add: add_staged_def of_generation_def)

lemma add_staged_none [simp]: "add_staged j g els (\<lambda>r. False) p = p"
  by (simp add: add_staged_def)

definition reported :: "nat \<Rightarrow> int \<Rightarrow> (ustr \<times> int \<times> f64) list \<Rightarrow> (ustr \<Rightarrow> bool) \<Rightarrow> rack_row list \<Rightarrow> int" where
  "reported job_id generation elements chosen rows = count_where (\<lambda>p. of_generation job_id generation p \<and>
     rp_rack p \<in> fst ` set elements \<and> chosen (rp_rack p)) rows"

lemma racks_hit_slice:
  "racks_hit j g (folded (slice_of hashtext passes pass els)) rows =
    reported j g els (in_slice hashtext passes pass) rows"
  by (simp add: racks_hit_def reported_def fst_folded slice_rack conj_assoc)

lemma in_slice_one: "in_slice hashtext n a rack \<Longrightarrow> in_slice hashtext n b rack \<Longrightarrow> n \<noteq> 1 \<Longrightarrow> a = b"
  by (simp add: in_slice_def)

lemma in_some_slice:
  "n \<ge> 1 \<Longrightarrow> \<exists>pass\<in>set [0..n - 1]. in_slice hashtext n pass rack"
  by (cases "n = 1") (auto simp: in_slice_def)

lemma reported_add:
  "(\<And>r. \<not> (c1 r \<and> c2 r)) \<Longrightarrow>
    reported j g els c1 rows + reported j g els c2 rows = reported j g els (\<lambda>r. c1 r \<or> c2 r) rows"
proof (induction rows)
  case Nil
  then show ?case by (simp add: reported_def count_where_def)
next
  case (Cons p rows)
  then show ?case
    using Cons.prems [of "rp_rack p"] unfolding reported_def count_where_def
    by (cases "c1 (rp_rack p)"; cases "c2 (rp_rack p)") simp_all
qed

lemma reported_map [simp]:
  "reported j g els c (map (add_staged j g els c') rows) = reported j g els c rows"
  by (induction rows) (simp_all add: reported_def count_where_def)

lemma merge_passes_adds:
  assumes "merge_passes hashtext j g els n passes rows = Inr (rows', updated)"
    and "distinct passes" and "n \<noteq> 1 \<or> length passes \<le> 1"
  shows "rows' = map (add_staged j g els (\<lambda>r. \<exists>pass\<in>set passes. in_slice hashtext n pass r)) rows \<and>
    updated = reported j g els (\<lambda>r. \<exists>pass\<in>set passes. in_slice hashtext n pass r) rows"
  using assms
proof (induction passes arbitrary: rows rows' updated)
  case Nil
  then show ?case by (simp add: reported_def count_where_def add_staged_def)
next
  case (Cons pass rest)
  let ?c1 = "in_slice hashtext n pass"
  let ?c2 = "\<lambda>r. \<exists>pass\<in>set rest. in_slice hashtext n pass r"
  let ?rows1 = "map (add_staged j g els ?c1) rows"
  from Cons.prems(1) obtain u where
    rest: "merge_passes hashtext j g els n rest ?rows1 = Inr (rows', u)"
    and u: "updated = reported j g els ?c1 rows + u"
    unfolding merge_passes.simps Let_def apply_fold_slice racks_hit_slice
    by (cases "merge_passes hashtext j g els n rest ?rows1") (auto split: if_splits)
  have disj: "\<not> (?c1 r \<and> ?c2 r)" for r
  proof (cases "n = 1")
    case True
    with Cons.prems have "rest = []" by simp
    then show ?thesis by simp
  next
    case False
    have "pass \<notin> set rest" using Cons.prems(2) by simp
    moreover have "pass = pass'" if "?c1 r" "in_slice hashtext n pass' r" for pass'
      using in_slice_one [OF that False] .
    ultimately show ?thesis by blast
  qed
  have "rows' = map (add_staged j g els ?c2) ?rows1 \<and> u = reported j g els ?c2 ?rows1"
    using Cons.prems by (intro Cons.IH [OF rest]) auto
  then have r: "rows' = map (add_staged j g els ?c2 \<circ> add_staged j g els ?c1) rows"
    and v: "u = reported j g els ?c2 rows" by simp_all
  have "add_staged j g els ?c2 \<circ> add_staged j g els ?c1 = add_staged j g els (\<lambda>r. ?c1 r \<or> ?c2 r)"
    using add_staged_twice disj by fastforce
  moreover have "(\<lambda>r. \<exists>pass\<in>set (pass # rest). in_slice hashtext n pass r) = (\<lambda>r. ?c1 r \<or> ?c2 r)"
    by simp
  ultimately show ?case
    unfolding r u v using reported_add [of ?c1 ?c2 j g els rows, OF disj] by (simp only: simp_thms)
qed


lemma passes_for_pos: "passes_for universe per_pass \<ge> 1"
  by (simp add: passes_for_def Let_def int_width_defs)

lemma all_passes_add:
  assumes "merge_passes hashtext j g els n [0..n - 1] rows = Inr (rows', updated)" and "n \<ge> 1"
  shows "rows' = map (add_staged j g els (\<lambda>r. True)) rows \<and> updated = reported j g els (\<lambda>r. True) rows"
proof -
  have "(\<lambda>r. \<exists>pass\<in>set [0..n - 1]. in_slice hashtext n pass r) = (\<lambda>r. True)"
    using in_some_slice [OF assms(2)] by (intro ext) simp
  moreover have "n \<noteq> 1 \<or> length [0..n - 1] \<le> 1" by (cases "n = 1") simp_all
  ultimately show ?thesis
    using merge_passes_adds [OF assms(1)] by simp
qed

lemma no_element_adds_nothing [simp]: "add_staged j g [] c p = p"
  by (simp add: add_staged_def)

lemma reported_none [simp]: "reported j g [] c rows = 0"
  by (simp add: reported_def count_where_def)

lemma staged_elements_Nil [simp]: "staged_elements [] = []"
  by (simp add: staged_elements_def)

lemma refresh_summary_keeps [simp]:
  "lv_racks (refresh_summary lv config j g now) = lv_racks lv"
  "lv_staging (refresh_summary lv config j g now) = lv_staging lv"
  "lv_requests (refresh_summary lv config j g now) = lv_requests lv"
  "lv_records (refresh_summary lv config j g now) = lv_records lv"
  "lv_artifacts (refresh_summary lv config j g now) = lv_artifacts lv"
  "lv_transitions (refresh_summary lv config j g now) = lv_transitions lv"
  "lv_cursors (refresh_summary lv config j g now) = lv_cursors lv"
  by (simp_all add: refresh_summary_def Let_def)

text \<open>Rows are staged under an identifier of their own.\<close>

definition staging_ids_ok :: "leave_store \<Rightarrow> bool" where
  "staging_ids_ok lv \<longleftrightarrow> distinct (map sr_id (lv_staging lv)) \<and>
     (\<forall>s\<in>set (lv_staging lv). sr_id s < lv_next_staging_id lv)"

lemma filter_ids:
  "distinct (map sr_id rows) \<Longrightarrow>
    filter (\<lambda>s. sr_id s \<notin> sr_id ` set (filter P rows)) rows = filter (\<lambda>s. \<not> P s) rows"
proof -
  assume d: "distinct (map sr_id rows)"
  have "sr_id s \<in> sr_id ` set (filter P rows) \<longleftrightarrow> P s" if "s \<in> set rows" for s
    using d that by (auto simp: distinct_map inj_on_def)
  then show ?thesis by (intro filter_cong) auto
qed

lemma merge_in_slices:
  assumes "merge_staged_in_slices hashtext lv config j g wait free per_pass now = Inr (lv', Some out)"
    and "staging_ids_ok lv"
  shows "lv_racks lv' =
      map (add_staged j g (staged_elements (staged_for lv j g)) (\<lambda>r. True)) (lv_racks lv)"
    and "lv_staging lv' = filter (\<lambda>s. \<not> (sr_job_id s = j \<and> sr_generation s = g)) (lv_staging lv)"
    and "mo_folds_merged out = int (length (staged_for lv j g))"
    and "mo_racks_updated out = reported j g (staged_elements (staged_for lv j g)) (\<lambda>r. True) (lv_racks lv)"
    and "lv_requests lv' = lv_requests lv" and "lv_records lv' = lv_records lv"
    and "lv_artifacts lv' = lv_artifacts lv" and "lv_transitions lv' = lv_transitions lv"
    and "lv_cursors lv' = lv_cursors lv"
proof -
  let ?taken = "staged_for lv j g" and ?n = "passes_for (universe_size lv j g) per_pass"
  let ?els = "staged_elements ?taken"
  let ?merge = "if ?taken = [] then Inr (lv_racks lv, 0)
           else merge_passes hashtext j g ?els ?n [0..?n - 1] (lv_racks lv)"
  from assms(1) obtain racks updated where m: "?merge = Inr (racks, updated)"
    and lv': "lv' = lv\<lparr>lv_racks := racks,
        lv_staging := filter (\<lambda>s. sr_id s \<notin> set (map sr_id ?taken)) (lv_staging lv)\<rparr> \<or>
      lv' = refresh_summary (lv\<lparr>lv_racks := racks,
        lv_staging := filter (\<lambda>s. sr_id s \<notin> set (map sr_id ?taken)) (lv_staging lv)\<rparr>) config j g now"
    and out: "out = \<lparr>mo_folds_merged = int (length ?taken), mo_racks_updated = updated\<rparr>"
    unfolding merge_staged_in_slices_def Let_def
    by (cases ?merge) (auto split: if_splits)
  have r: "racks = map (add_staged j g ?els (\<lambda>r. True)) (lv_racks lv) \<and>
      updated = reported j g ?els (\<lambda>r. True) (lv_racks lv)"
  proof (cases "?taken = []")
    case True
    with m show ?thesis by (auto intro!: map_idI [symmetric])
  next
    case False
    with m have "merge_passes hashtext j g ?els ?n [0..?n - 1] (lv_racks lv) = Inr (racks, updated)" by simp
    then show ?thesis using passes_for_pos by (rule all_passes_add)
  qed
  have s: "filter (\<lambda>s. sr_id s \<notin> set (map sr_id ?taken)) (lv_staging lv) =
      filter (\<lambda>s. \<not> (sr_job_id s = j \<and> sr_generation s = g)) (lv_staging lv)"
    using assms(2) filter_ids [of "lv_staging lv" "\<lambda>s. sr_job_id s = j \<and> sr_generation s = g"]
    by (simp add: staging_ids_ok_def staged_for_def)
  show "lv_racks lv' = map (add_staged j g ?els (\<lambda>r. True)) (lv_racks lv)" using lv' r by auto
  show "lv_staging lv' = filter (\<lambda>s. \<not> (sr_job_id s = j \<and> sr_generation s = g)) (lv_staging lv)"
    using lv' unfolding s by auto
  show "mo_folds_merged out = int (length ?taken)" using out by simp
  show "mo_racks_updated out = reported j g ?els (\<lambda>r. True) (lv_racks lv)" using out r by simp
  show "lv_requests lv' = lv_requests lv" "lv_records lv' = lv_records lv" "lv_artifacts lv' = lv_artifacts lv"
    "lv_transitions lv' = lv_transitions lv" "lv_cursors lv' = lv_cursors lv"
    using lv' by auto
qed


lemma some_pass_Cons:
  "(\<lambda>r. \<exists>pass'\<in>set (pass # rest). in_slice hashtext n pass' r) =
    (\<lambda>r. in_slice hashtext n pass r \<or> (\<exists>pass'\<in>set rest. in_slice hashtext n pass' r))"
  by simp

definition fits :: "(ustr \<times> int \<times> f64) list \<Rightarrow> nat \<Rightarrow> int \<Rightarrow> rack_row list \<Rightarrow> bool" where
  "fits els j g rows \<longleftrightarrow> (\<forall>rack\<in>fst ` set els. in_i64 (counts_in els rack)) \<and>
     (\<forall>p\<in>set rows. in_i64 (rp_count p) \<and> in_i64 (rp_count (add_staged j g els (\<lambda>r. True) p)))"

lemma slice_totals_fit:
  assumes "fits els j g rows"
  shows "\<not> overflows (folded (slice_of hashtext n pass els)) (map (add_staged j g els c) rows)"
proof -
  have "in_i64 (counts_in (slice_of hashtext n pass els) rack)"
    if "rack \<in> fst ` set (slice_of hashtext n pass els)" for rack
  proof -
    from that have "rack \<in> fst ` set els" "in_slice hashtext n pass rack" by (simp_all add: slice_rack)
    then have "counts_in (slice_of hashtext n pass els) rack = counts_in els rack" "rack \<in> fst ` set els"
      by (simp_all add: counts_in_def slice_filter)
    then show ?thesis using assms unfolding fits_def by metis
  qed
  moreover have "in_i64 (rp_count (add_staged j g els c p))" if "p \<in> set rows" for p
    using assms that unfolding fits_def add_staged_def by (cases "c (rp_rack p)") auto
  ultimately show ?thesis
    unfolding overflows_def list_ex_iff by (auto simp: folded_def)
qed

lemma all_in_some_pass_total:
  assumes "fits els j g rows" and "distinct passes" and "n \<noteq> 1 \<or> length passes \<le> 1"
    and "\<And>r. \<not> (c r \<and> (\<exists>pass\<in>set passes. in_slice hashtext n pass r))"
  shows "\<exists>result. merge_passes hashtext j g els n passes (map (add_staged j g els c) rows) = Inr result"
  using assms
proof (induction passes arbitrary: c)
  case Nil
  then show ?case by simp
next
  case (Cons pass rest)
  let ?c1 = "in_slice hashtext n pass"
  have off: "\<not> (c r \<and> ?c1 r)" for r using Cons.prems(4) [of r] by auto
  have step: "map (add_staged j g els ?c1) (map (add_staged j g els c) rows) =
      map (add_staged j g els (\<lambda>r. c r \<or> ?c1 r)) rows"
    unfolding map_map comp_def by (rule map_cong [OF refl]) (rule add_staged_twice, rule off)
  have "\<not> ((c r \<or> ?c1 r) \<and> (\<exists>pass'\<in>set rest. in_slice hashtext n pass' r))" for r
  proof (cases "?c1 r")
    case True
    have "\<not> in_slice hashtext n pass' r" if "pass' \<in> set rest" for pass'
    proof (cases "n = 1")
      case True
      with Cons.prems(3) that show ?thesis by simp
    next
      case False
      then show ?thesis using in_slice_one [OF \<open>?c1 r\<close>] Cons.prems(2) that by auto
    qed
    then show ?thesis by blast
  next
    case False
    then show ?thesis using Cons.prems(4) [of r] by auto
  qed
  then obtain rows' u where
    "merge_passes hashtext j g els n rest (map (add_staged j g els (\<lambda>r. c r \<or> ?c1 r)) rows) = Inr (rows', u)"
    using Cons.IH [of "\<lambda>r. c r \<or> ?c1 r"] Cons.prems by fastforce
  moreover have "\<not> overflows (folded (slice_of hashtext n pass els))
      (map (add_staged j g els (\<lambda>r. c r \<or> ?c1 r)) rows)"
    using Cons.prems(1) by (rule slice_totals_fit)
  ultimately show ?case
    unfolding merge_passes.simps Let_def apply_fold_slice step by simp
qed

text \<open>The merge in one step: each staged submission added to its racks, and gone from the staging table.\<close>

definition merge_at_once ::
  "leave_store \<Rightarrow> leave_config option \<Rightarrow> nat \<Rightarrow> int \<Rightarrow> time \<Rightarrow> leave_store \<times> merge_outcome" where
  "merge_at_once lv config j g now =
     (let elements = staged_elements (staged_for lv j g);
          merged = lv\<lparr>lv_racks := map (add_staged j g elements (\<lambda>r. True)) (lv_racks lv),
            lv_staging := filter (\<lambda>s. \<not> (sr_job_id s = j \<and> sr_generation s = g)) (lv_staging lv)\<rparr>
      in (if staged_for lv j g \<noteq> [] \<or> \<not> summarised lv j g then refresh_summary merged config j g now else merged,
          \<lparr>mo_folds_merged = int (length (staged_for lv j g)),
           mo_racks_updated = reported j g elements (\<lambda>r. True) (lv_racks lv)\<rparr>))"

text \<open>C9: However the racks are sliced, a merge does what adding every staged submission at once does: to
  each rack of the generation the occurrences and equity staged for it, in one step, with exactly the
  rows taken gone from the staging table; and it fails only where a total is past a bigint.  So for each
  rack what is counted and what is staged come to the same before and after: a staged submission is
  folded in or still staged, never both and never neither.\<close>

theorem merging_in_slices_is_merging_at_once:
  assumes "staging_ids_ok lv" and "wait \<or> fst free \<and> snd free"
    and "fits (staged_elements (staged_for lv j g)) j g (lv_racks lv)"
  shows "merge_staged_in_slices hashtext lv config j g wait free per_pass now =
      (let (lv', outcome) = merge_at_once lv config j g now in Inr (lv', Some outcome)) \<and>
    (\<forall>i < length (lv_racks lv).
      let p = lv_racks lv ! i; q = lv_racks (fst (merge_at_once lv config j g now)) ! i
      in rp_rack q = rp_rack p \<and> (of_generation j g p \<longrightarrow>
           rp_count q = rp_count p + counts_in (staged_elements (staged_for lv j g)) (rp_rack p)) \<and>
         (\<not> of_generation j g p \<longrightarrow> q = p))"
proof
  let ?els = "staged_elements (staged_for lv j g)" and ?n = "passes_for (universe_size lv j g) per_pass"
  have "\<exists>result. merge_passes hashtext j g ?els ?n [0..?n - 1]
      (map (add_staged j g ?els (\<lambda>r. False)) (lv_racks lv)) = Inr result"
    using assms(3) by (rule all_in_some_pass_total) (cases "?n = 1", simp_all)
  then obtain racks updated where m: "merge_passes hashtext j g ?els ?n [0..?n - 1] (lv_racks lv) = Inr (racks, updated)"
    by (auto simp: map_idI)
  note m' = all_passes_add [OF m passes_for_pos]
  have ids: "filter (\<lambda>s. sr_id s \<notin> sr_id ` set (staged_for lv j g)) (lv_staging lv) =
      filter (\<lambda>s. \<not> (sr_job_id s = j \<and> sr_generation s = g)) (lv_staging lv)"
    using assms(1) filter_ids [of "lv_staging lv" "\<lambda>s. sr_job_id s = j \<and> sr_generation s = g"]
    by (simp add: staging_ids_ok_def staged_for_def)
  show "merge_staged_in_slices hashtext lv config j g wait free per_pass now =
      (let (lv', outcome) = merge_at_once lv config j g now in Inr (lv', Some outcome))"
  proof (cases "staged_for lv j g = []")
    case True
    then show ?thesis using assms(2) ids
      by (auto simp: merge_staged_in_slices_def merge_at_once_def Let_def map_idI)
  next
    case False
    then show ?thesis using assms(2) ids m m'
      by (auto simp: merge_staged_in_slices_def merge_at_once_def Let_def)
  qed
  have none: "counts_in ?els rack = 0" if "rack \<notin> fst ` set ?els" for rack
  proof -
    from that have "filter (\<lambda>e. fst e = rack) ?els = []" by (force simp: filter_empty_conv)
    then show ?thesis by (simp add: counts_in_def)
  qed
  have racks: "lv_racks (fst (merge_at_once lv config j g now)) =
      map (add_staged j g ?els (\<lambda>r. True)) (lv_racks lv)"
    by (simp add: merge_at_once_def Let_def)
  show "\<forall>i < length (lv_racks lv).
      let p = lv_racks lv ! i; q = lv_racks (fst (merge_at_once lv config j g now)) ! i
      in rp_rack q = rp_rack p \<and> (of_generation j g p \<longrightarrow>
           rp_count q = rp_count p + counts_in ?els (rp_rack p)) \<and> (\<not> of_generation j g p \<longrightarrow> q = p)"
    unfolding racks Let_def by (simp add: none add_staged_def)
qed


definition example_merge_store :: leave_store where
  "example_merge_store = \<lparr>lv_requests = [], lv_records = [],
     lv_staging = [
       \<lparr>sr_id = 1, sr_job_id = 4, sr_generation = 1, sr_task_id = 7, sr_racks = [[65], [66]],
         sr_counts = [2, 1], sr_equity_sums = [Fin 3, Fin 4]\<rparr>,
       \<lparr>sr_id = 2, sr_job_id = 4, sr_generation = 1, sr_task_id = 8, sr_racks = [[66], [67]],
         sr_counts = [5, 9], sr_equity_sums = [Fin 1, Fin 1]\<rparr>,
       \<lparr>sr_id = 3, sr_job_id = 5, sr_generation = 1, sr_task_id = 9, sr_racks = [[66]],
         sr_counts = [1], sr_equity_sums = [Fin 1]\<rparr>],
     lv_next_staging_id = 4,
     lv_racks = [
       \<lparr>rp_job_id = 4, rp_generation = 1, rp_rack = [65], rp_count = 10, rp_equity_sum = Fin 5\<rparr>,
       \<lparr>rp_job_id = 4, rp_generation = 1, rp_rack = [66], rp_count = 0, rp_equity_sum = Fin 0\<rparr>,
       \<lparr>rp_job_id = 5, rp_generation = 1, rp_rack = [66], rp_count = 0, rp_equity_sum = Fin 0\<rparr>],
     lv_generations = [], lv_cursors = [], lv_transitions = [], lv_artifacts = []\<rparr>"

theorem merging_in_slices_is_merging_at_once_witness:
  "map rp_count (lv_racks (fst (merge_at_once example_merge_store None 4 1 0))) = [12, 6, 0] \<and>
   merge_staged_in_slices (\<lambda>r. int (length r)) example_merge_store None 4 1 False (True, True) 1 0 =
     (let (lv', outcome) = merge_at_once example_merge_store None 4 1 0 in Inr (lv', Some outcome))"
proof
  show "map rp_count (lv_racks (fst (merge_at_once example_merge_store None 4 1 0))) = [12, 6, 0]"
    by code_simp
  have "staging_ids_ok example_merge_store" by code_simp
  moreover have "fits (staged_elements (staged_for example_merge_store 4 1)) 4 1 (lv_racks example_merge_store)"
    by code_simp
  ultimately show "merge_staged_in_slices (\<lambda>r. int (length r)) example_merge_store None 4 1 False (True, True) 1 0 =
     (let (lv', outcome) = merge_at_once example_merge_store None 4 1 0 in Inr (lv', Some outcome))"
    using merging_in_slices_is_merging_at_once [of example_merge_store False "(True, True)" 4 1] by simp
qed

end
