(* ===== verification/Leave_Gen_Spec.thy ===== *)
theory Leave_Gen_Spec
  imports Leave_Merge_Spec Leave_Gen
begin

text \<open>
  Choosing the racks of a task while other transactions commit: when a generation closes, which racks a
  claim hands out, and that a generation gets on.  Submissions, declines, lapses and merges are the
  steps of \<open>foreign_step\<close>; no other claim of the job is among them, since a claim holds the job's
  dispatch lock.
\<close>

section \<open>What other transactions may commit\<close>

text \<open>
  One commit of another transaction while a claim of the job holds its dispatch lock: a submission of an
  open claim, a claim given back or lapsed, a heartbeat, a merge, and anything that concerns another
  generation or another job.
\<close>

inductive foreign_step :: "nat \<Rightarrow> int \<Rightarrow> leave_view \<Rightarrow> leave_view \<Rightarrow> bool"
  for job_id :: nat and generation :: int where
  submission: "\<lbrakk>c \<in> set claims; c_state c = C_claimed; jt_job_id template = c_job_id c;
      insert_leave_record lv template (c_task_id c) (c_id c) racks = Inr lv'\<rbrakk> \<Longrightarrow>
    foreign_step job_id generation (lv, claims)
      (lv', update_key c_id (c_id c) (\<lambda>c. c\<lparr>c_state := C_completed\<rparr>) claims)"
| given_back: "state \<noteq> C_claimed \<Longrightarrow>
    foreign_step job_id generation (lv, claims) (lv, update_where P (\<lambda>c. c\<lparr>c_state := state\<rparr>) claims)"
| seen: "\<forall>c. c_job_id (f c) = c_job_id c \<and> c_task_id (f c) = c_task_id c \<and> c_state (f c) = c_state c \<Longrightarrow>
    foreign_step job_id generation (lv, claims) (lv, map f claims)"
| merged: "staging_ids_ok lv \<Longrightarrow>
    merge_staged_in_slices hashtext lv config job_id generation wait free per_pass now = Inr (lv', outcome) \<Longrightarrow>
    foreign_step job_id generation (lv, claims) (lv', claims)"
| elsewhere: "\<lbrakk>generation_racks lv' job_id generation = generation_racks lv job_id generation;
      staged_for lv' job_id generation = staged_for lv job_id generation;
      row_with cursor_key (job_id, generation) (lv_cursors lv') =
        row_with cursor_key (job_id, generation) (lv_cursors lv);
      lv_requests lv' = lv_requests lv @ rs; distinct (map lq_task_id (lv_requests lv'));
      \<forall>r\<in>set rs. lq_task_id r \<notin> c_task_id ` set claims \<union> sr_task_id ` set (staged_for lv job_id generation);
      \<forall>c\<in>set cs. c_job_id c \<noteq> job_id\<rbrakk> \<Longrightarrow>
    foreign_step job_id generation (lv, claims) (lv', claims @ cs)"

definition foreign :: "nat \<Rightarrow> int \<Rightarrow> commits \<Rightarrow> bool" where
  "foreign job_id generation env \<longleftrightarrow> (\<forall>k view. rtranclp (foreign_step job_id generation) view (env k view))"

text \<open>Nothing of the generation is with a worker, or waiting for a merge.\<close>

definition nothing_in_flight :: "nat \<Rightarrow> int \<Rightarrow> leave_view \<Rightarrow> bool" where
  "nothing_in_flight job_id generation view \<longleftrightarrow> claims_in_flight view job_id generation = 0"

definition nothing_staged :: "nat \<Rightarrow> int \<Rightarrow> leave_view \<Rightarrow> bool" where
  "nothing_staged job_id generation view \<longleftrightarrow> staged_for (fst view) job_id generation = []"

definition all_at_target :: "nat \<Rightarrow> int \<Rightarrow> leave_config \<Rightarrow> leave_view \<Rightarrow> bool" where
  "all_at_target job_id generation config view \<longleftrightarrow>
     (\<forall>p\<in>set (generation_racks (fst view) job_id generation). target_for config generation \<le> rp_count p)"

lemma nothing_in_flight_iff:
  "nothing_in_flight j g view \<longleftrightarrow> (\<forall>c\<in>set (snd view). \<not> open_claim_of (fst view) j g c)"
  by (simp add: nothing_in_flight_def claims_in_flight_def count_where_def filter_empty_conv)

lemma staged_by_submission:
  assumes "insert_leave_record lv template task_id claim_id racks = Inr lv'"
  shows "\<exists>row. row_with lq_task_id task_id (lv_requests lv) = Some row \<and> lv_requests lv' = lv_requests lv \<and>
    lv_racks lv' = lv_racks lv \<and> lv_cursors lv' = lv_cursors lv \<and>
    (lv_staging lv' = lv_staging lv \<or>
     (\<exists>s. lv_staging lv' = lv_staging lv @ [s] \<and> sr_job_id s = jt_job_id template \<and>
        sr_generation s = lq_generation row \<and> sr_task_id s = task_id))"
proof -
  obtain lv1 where lv1: "credit_claim lv task_id claim_id racks = Inr lv1"
    and stage: "stage_fold lv1 (jt_job_id template) task_id racks = Inr lv'"
    using assms by (auto simp: insert_leave_record_def and_then_Inr)
  have same: "lv_requests lv1 = lv_requests lv" "lv_racks lv1 = lv_racks lv" "lv_staging lv1 = lv_staging lv"
    "lv_cursors lv1 = lv_cursors lv"
    using lv1 by (auto simp: credit_claim_def split: if_splits)
  obtain row where row: "row_with lq_task_id task_id (lv_requests lv1) = Some row"
    using stage by (auto simp: stage_fold_def fetch_one_def ok_or_def split: option.splits)
  show ?thesis
    using stage row same by (auto simp: stage_fold_def fetch_one_def ok_or_def split: if_splits)
qed

lemma merge_none:
  "merge_staged_in_slices hashtext lv config j g wait free per_pass now = Inr (lv', None) \<Longrightarrow> lv' = lv"
  unfolding merge_staged_in_slices_def Let_def and_then_Inr if_split [of "\<lambda>x. x = Inr (lv', None)"]
  by (simp only: case_prod_beta) (elim conjE, simp)

text \<open>What a merge of the generation may do to it, whichever way it ends.\<close>

lemma merge_cases:
  assumes "merge_staged_in_slices hashtext lv config j g wait free per_pass now = Inr (lv', outcome)"
    and "staging_ids_ok lv"
  obtains (skipped) "lv' = lv"
  | (merged) "lv_requests lv' = lv_requests lv" "lv_cursors lv' = lv_cursors lv" "staged_for lv' j g = []"
      "lv_racks lv' = map (add_staged j g (staged_elements (staged_for lv j g)) (\<lambda>r. True)) (lv_racks lv)"
proof (cases outcome)
  case None
  with assms(1) merge_none that(1) show ?thesis by blast
next
  case (Some out)
  note m = merge_in_slices [OF assms(1) [unfolded Some] assms(2)]
  show ?thesis
  proof (rule that(2))
    show "staged_for lv' j g = []" unfolding staged_for_def m(2) by (simp add: filter_empty_conv)
  qed (rule m(5), rule m(9), rule m(1))
qed

lemma update_state_cases:
  assumes "c \<in> set (update_where P (\<lambda>c. c\<lparr>c_state := state\<rparr>) claims)" and "state \<noteq> C_claimed"
    and "c_state c = C_claimed"
  shows "c \<in> set claims"
  using assms by (auto simp: update_where_def split: if_splits)

lemma open_claim_of_cong:
  "lv_requests lv = lv_requests lv' \<Longrightarrow> open_claim_of lv j g = open_claim_of lv' j g"
  by (intro ext) (simp add: open_claim_of_def request_of_generation_def)

lemma foreign_step_nothing_in_flight:
  assumes "foreign_step j g view view'" and "nothing_in_flight j g view"
  shows "nothing_in_flight j g view'"
  using assms
proof cases
  case (submission c claims template lv racks lv')
  then have "open_claim_of lv' j g = open_claim_of lv j g"
    using staged_by_submission by (intro open_claim_of_cong) fastforce
  with submission assms(2) show ?thesis
    by (auto simp: nothing_in_flight_iff open_claim_of_def update_key_def dest: update_state_cases)
next
  case (given_back state lv P claims)
  with assms(2) show ?thesis
    by (auto simp: nothing_in_flight_iff open_claim_of_def dest: update_state_cases)
next
  case (seen f lv claims)
  with assms(2) show ?thesis by (auto simp: nothing_in_flight_iff open_claim_of_def)
next
  case (merged lv hashtext config wait free per_pass now lv' outcome claims)
  have "lv_requests lv' = lv_requests lv"
    using merged(4,3) by (cases rule: merge_cases) simp_all
  then have "open_claim_of lv' j g = open_claim_of lv j g" by (rule open_claim_of_cong)
  with merged assms(2) show ?thesis by (simp add: nothing_in_flight_iff)
next
  case (elsewhere lv' lv rs claims cs)
  have "\<not> open_claim_of lv' j g c" if "c \<in> set claims" for c
  proof -
    have "request_of_generation lv' g (c_task_id c) = request_of_generation lv g (c_task_id c)"
      using elsewhere that by (auto simp: request_of_generation_def list_ex_iff)
    with assms(2) elsewhere that show ?thesis by (simp add: nothing_in_flight_iff open_claim_of_def)
  qed
  moreover have "\<not> open_claim_of lv' j g c" if "c \<in> set cs" for c
    using elsewhere that by (simp add: open_claim_of_def)
  ultimately show ?thesis using elsewhere by (auto simp: nothing_in_flight_iff)
qed


lemma add_staged_empty: "map (add_staged j g (staged_elements []) c) rows = rows"
  by (rule map_idI) simp

text \<open>With nothing of the generation open, no submission is one of its own, so what is staged of it and
  what its racks have counted stay.\<close>

definition quiet :: "nat \<Rightarrow> int \<Rightarrow> leave_view \<Rightarrow> bool" where
  "quiet j g view \<longleftrightarrow> nothing_in_flight j g view \<and> nothing_staged j g view"

lemma quiet_submission:
  assumes "c \<in> set claims" "c_state c = C_claimed" "jt_job_id template = c_job_id c"
    and ins: "insert_leave_record lv template (c_task_id c) (c_id c) racks = Inr lv'"
    and "nothing_in_flight j g (lv, claims)"
  shows "staged_for lv' j g = staged_for lv j g" and "lv_racks lv' = lv_racks lv"
proof -
  obtain row where row: "row_with lq_task_id (c_task_id c) (lv_requests lv) = Some row"
    and racks: "lv_racks lv' = lv_racks lv"
    and st: "lv_staging lv' = lv_staging lv \<or>
       (\<exists>s. lv_staging lv' = lv_staging lv @ [s] \<and> sr_job_id s = c_job_id c \<and>
          sr_generation s = lq_generation row \<and> sr_task_id s = c_task_id c)"
    using staged_by_submission [OF ins] assms(3) by auto
  have "\<not> open_claim_of lv j g c" using assms by (simp add: nothing_in_flight_iff)
  then have "c_job_id c \<noteq> j \<or> lq_generation row \<noteq> g"
    using row_with_Some [OF row] assms(2) by (auto simp: open_claim_of_def request_of_generation_def list_ex_iff)
  with st show "staged_for lv' j g = staged_for lv j g" by (auto simp: staged_for_def)
  show "lv_racks lv' = lv_racks lv" by (fact racks)
qed

lemma foreign_step_quiet:
  assumes "foreign_step j g view view'" and "quiet j g view"
  shows "quiet j g view' \<and> generation_racks (fst view') j g = generation_racks (fst view) j g"
proof -
  have flight: "nothing_in_flight j g view'"
    using assms foreign_step_nothing_in_flight by (auto simp: quiet_def)
  have "nothing_staged j g view' \<and> generation_racks (fst view') j g = generation_racks (fst view) j g"
    using assms(1)
  proof cases
    case (submission c claims template lv racks lv')
    then have "nothing_in_flight j g (lv, claims)" using assms(2) by (simp add: quiet_def)
    note q = quiet_submission [OF submission(3-6) this]
    show ?thesis using submission(1,2) q assms(2)
      by (simp add: quiet_def nothing_staged_def generation_racks_def)
  next
    case (merged lv hashtext config wait free per_pass now lv' outcome claims)
    have none: "staged_for lv j g = []" using assms(2) merged by (simp add: quiet_def nothing_staged_def)
    show ?thesis
      using merged(4,3) by (cases rule: merge_cases)
        (simp_all add: merged(1,2) none nothing_staged_def generation_racks_def map_idI)
  next
    case (elsewhere lv' lv rs claims cs)
    then show ?thesis using assms(2) by (simp add: quiet_def nothing_staged_def)
  qed (use assms(2) in \<open>auto simp: quiet_def nothing_staged_def\<close>)
  with flight show ?thesis by (simp add: quiet_def)
qed

lemma foreign_nothing_in_flight:
  "foreign j g env \<Longrightarrow> nothing_in_flight j g view \<Longrightarrow> nothing_in_flight j g (env k view)"
proof -
  assume f: "foreign j g env" and n: "nothing_in_flight j g view"
  have "rtranclp (foreign_step j g) view (env k view)" using f unfolding foreign_def by blast
  then show ?thesis using n
    by (induction rule: rtranclp_induct) (auto intro: foreign_step_nothing_in_flight)
qed

lemma foreign_quiet:
  assumes "foreign j g env" and "quiet j g view"
  shows "quiet j g (env k view) \<and> generation_racks (fst (env k view)) j g = generation_racks (fst view) j g"
proof -
  have "rtranclp (foreign_step j g) view (env k view)" using assms(1) unfolding foreign_def by blast
  then show ?thesis using assms(2)
    by (induction rule: rtranclp_induct) (auto dest: foreign_step_quiet)
qed

lemma nothing_to_hand_out_None:
  assumes "nothing_to_hand_out env k view j g = (view', None)" and "foreign j g env"
  shows "quiet j g view'"
proof -
  from assms(1) have n: "nothing_in_flight j g (env k view)" and v: "view' = env (k + 1) (env k view)"
    and s: "\<not> anything_staged (fst view') j g"
    by (auto simp: nothing_to_hand_out_def nothing_in_flight_def claims_in_flight_def count_where_def
        Let_def split: if_splits)
  have "nothing_in_flight j g view'" unfolding v by (rule foreign_nothing_in_flight [OF assms(2) n])
  with s show ?thesis by (simp add: quiet_def nothing_staged_def anything_staged_def)
qed

lemma nothing_to_hand_out_step:
  "nothing_to_hand_out env k view j g = (view', Some step) \<Longrightarrow> step \<noteq> Step_Transition h"
  by (auto simp: nothing_to_hand_out_def Let_def split: if_splits)

lemma claim_transition_keeps:
  assumes "claim_transition lv j g now = (lv', step)"
  shows "lv_requests lv' = lv_requests lv" "lv_staging lv' = lv_staging lv" "lv_racks lv' = lv_racks lv"
    "lv_cursors lv' = lv_cursors lv" "lv_artifacts lv' = lv_artifacts lv"
  using assms by (auto simp: claim_transition_def split: option.splits if_splits)

text \<open>The generation is over: nothing open, nothing staged, and every rack at its target.\<close>

definition complete_generation :: "nat \<Rightarrow> int \<Rightarrow> leave_config \<Rightarrow> leave_view \<Rightarrow> bool" where
  "complete_generation j g config view \<longleftrightarrow> quiet j g view \<and> all_at_target j g config view"

lemma claim_transition_step:
  "claim_transition lv j g now = (lv', Step_Transition h) \<Longrightarrow> h = g"
  by (auto simp: claim_transition_def split: option.splits if_splits)

lemma complete_after_claim_transition:
  assumes "complete_generation j g config (lv, claims)" and "claim_transition lv j g now = (lv', step)"
  shows "complete_generation j g config (lv', claims)"
proof -
  note k = claim_transition_keeps [OF assms(2)]
  then have "open_claim_of lv' j g = open_claim_of lv j g" by (intro open_claim_of_cong)
  with k assms(1) show ?thesis
    by (simp add: complete_generation_def quiet_def nothing_in_flight_iff nothing_staged_def staged_for_def
        all_at_target_def generation_racks_def)
qed

lemma furthest_transition:
  assumes "furthest_below_target env k view j g config now = (view', Selected_Step (Step_Transition h))"
    and "foreign j g env"
  shows "complete_generation j g config view' \<and> h = g"
proof -
  obtain view2 r where n: "nothing_to_hand_out env (k + 1) (env k view) j g = (view2, r)" by fastforce
  have r: "r = None"
    using assms(1) n nothing_to_hand_out_step [of env "k + 1" "env k view" j g view2]
    by (auto simp: furthest_below_target_def Let_def split: if_splits option.splits)
  let ?v3 = "env (k + 3) view2"
  have q: "quiet j g ?v3"
    using foreign_quiet [OF assms(2) nothing_to_hand_out_None [OF n [unfolded r] assms(2)]] by blast
  obtain lv step where ct: "claim_transition (fst ?v3) j g now = (lv, step)" by fastforce
  from assms(1) n r ct have none: "\<not> any_rack_below_target (fst ?v3) j g config" and v': "view' = (lv, snd ?v3)"
    by (auto simp: furthest_below_target_def Let_def split: if_splits)
  from assms(1) n r ct none have "step = Step_Transition h"
    by (auto simp: furthest_below_target_def Let_def split: if_splits)
  with ct have "h = g" using claim_transition_step by blast
  moreover have "complete_generation j g config (fst ?v3, snd ?v3)"
    using q none by (auto simp: complete_generation_def all_at_target_def any_rack_below_target_def list_ex_iff)
  then have "complete_generation j g config view'"
    unfolding v' using ct by (rule complete_after_claim_transition)
  ultimately show ?thesis by blast
qed


text \<open>The empty text comes before every rack, in the database's collation.\<close>

definition collation_ok :: "(ustr \<Rightarrow> ustr) \<Rightarrow> leave_store \<Rightarrow> bool" where
  "collation_ok collate lv \<longleftrightarrow> (\<forall>p\<in>set (lv_racks lv). collate [] < collate (rp_rack p))"

lemma no_rack_after_start:
  assumes "racks_after collate lv j g config [] = ([], any_left)" and "lc_racks_per_task config > 0"
    and "collation_ok collate lv"
  shows "\<forall>p\<in>set (generation_racks lv j g). target_for config g \<le> rp_count p"
proof
  fix p assume p: "p \<in> set (generation_racks lv j g)"
  let ?rows = "filter (\<lambda>p. collate [] < collate (rp_rack p) \<and> below_target config g p) (generation_racks lv j g)"
  have "take (nat (lc_racks_per_task config)) (take (nat (lc_racks_per_task config) + 1)
      (sort_key collate (map rp_rack ?rows))) = []"
    using assms(1) by (simp add: racks_after_def Let_def)
  with assms(2) have "sort_key collate (map rp_rack ?rows) = []" by simp
  then have "set (sort_key collate (map rp_rack ?rows)) = {}" by (simp only: list.set)
  then have "?rows = []" by simp
  then have "\<not> below_target config g p"
    using p assms(3) by (auto simp: filter_empty_conv collation_ok_def generation_racks_def)
  then show "target_for config g \<le> rp_count p" by (simp add: below_target_def)
qed

lemma sweep_transition:
  assumes "sweep collate env k view j g config now = (view', Selected_Step (Step_Transition h))"
    and "foreign j g env" and "quiet j g view" and "lc_racks_per_task config > 0"
    and "collation_ok collate (fst view')"
  shows "complete_generation j g config view' \<and> h = g"
proof -
  let ?v = "env k view"
  have q: "quiet j g ?v" using foreign_quiet [OF assms(2,3)] by blast
  obtain racks any_left where r: "racks_after collate (fst ?v) j g config [] = (racks, any_left)" by fastforce
  obtain lv step where ct: "claim_transition (fst ?v) j g now = (lv, step)" by fastforce
  from assms(1) r ct have none: "racks = []" and v': "view' = (lv, snd ?v)" and "step = Step_Transition h"
    by (auto simp: sweep_def Let_def split: if_splits)
  with ct have "h = g" using claim_transition_step by blast
  have "lv_racks lv = lv_racks (fst ?v)" using claim_transition_keeps [OF ct] by simp
  with assms(5) v' have "collation_ok collate (fst ?v)" by (simp add: collation_ok_def)
  from no_rack_after_start [OF r [unfolded none] assms(4) this] q
  have "complete_generation j g config (fst ?v, snd ?v)"
    by (simp add: complete_generation_def all_at_target_def)
  then have "complete_generation j g config view'"
    unfolding v' using ct by (rule complete_after_claim_transition)
  with \<open>h = g\<close> show ?thesis by blast
qed

lemma set_cursor_keeps [simp]:
  "lv_requests (set_cursor lv j g r) = lv_requests lv" "lv_staging (set_cursor lv j g r) = lv_staging lv"
  "lv_racks (set_cursor lv j g r) = lv_racks lv" "lv_generations (set_cursor lv j g r) = lv_generations lv"
  by (simp_all add: set_cursor_def)

lemma boundary_transition:
  assumes "at_boundary collate env k view j g config now = (view', Selected_Step (Step_Transition h))"
    and "foreign j g env" and "lc_racks_per_task config > 0" and "collation_ok collate (fst view')"
  shows "complete_generation j g config view' \<and> h = g"
proof -
  obtain view1 r where n: "nothing_to_hand_out env k view j g = (view1, r)" by fastforce
  have r: "r = None"
    using assms(1) n nothing_to_hand_out_step [of env k view j g view1]
    by (auto simp: at_boundary_def Let_def split: option.splits)
  let ?v2 = "env (k + 2) view1"
  have q: "quiet j g ?v2"
    using foreign_quiet [OF assms(2) nothing_to_hand_out_None [OF n [unfolded r] assms(2)]] by blast
  show ?thesis
  proof (cases "racks_below_target (fst ?v2) j g \<le> SWEEP_WHILE_TASKS_REMAIN * lc_racks_per_task config")
    case True
    with assms(1) n r have "furthest_below_target env (k + 3)
        (set_cursor (fst ?v2) j g None, snd ?v2) j g config now = (view', Selected_Step (Step_Transition h))"
      by (simp add: at_boundary_def Let_def)
    then show ?thesis using assms(2) by (rule furthest_transition)
  next
    case False
    with assms(1) n r have "sweep collate env (k + 3) ?v2 j g config now = (view', Selected_Step (Step_Transition h))"
      by (simp add: at_boundary_def Let_def)
    then show ?thesis using assms(2) q assms(3,4) by (rule sweep_transition)
  qed
qed

lemma choose_transition:
  assumes "choose_racks collate env view j g config now = (view', Selected_Step (Step_Transition h))"
    and "foreign j g env" and "lc_racks_per_task config > 0" and "collation_ok collate (fst view')"
  shows "complete_generation j g config view' \<and> h = g"
proof (cases "row_with cursor_key (j, g) (lv_cursors (fst view))")
  case None
  with assms(1) have "at_boundary collate env 0 view j g config now = (view', Selected_Step (Step_Transition h))"
    by (simp add: choose_racks_def)
  then show ?thesis using assms(2-4) by (rule boundary_transition)
next
  case (Some row)
  show ?thesis
  proof (cases "cu_rack row")
    case None
    with Some assms(1) have "furthest_below_target env 0 view j g config now = (view', Selected_Step (Step_Transition h))"
      by (simp add: choose_racks_def)
    then show ?thesis using assms(2) by (rule furthest_transition)
  next
    case (Some cursor)
    obtain lv chosen where cl: "continue_lap collate (fst (env 0 view)) j g config cursor = (lv, chosen)" by fastforce
    have "chosen = None"
      using assms(1) cl Some \<open>row_with _ _ _ = Some row\<close>
      by (auto simp: choose_racks_def continue_lap_def Let_def case_prod_beta split: option.splits if_splits)
    then have "at_boundary collate env 1 (lv, snd (env 0 view)) j g config now =
        (view', Selected_Step (Step_Transition h))"
      using assms(1) cl Some \<open>row_with _ _ _ = Some row\<close> by (simp add: choose_racks_def)
    then show ?thesis using assms(2-4) by (rule boundary_transition)
  qed
qed


text \<open>C10: A generation closes only when everything is in.  Whatever submissions, declines, lapses and
  merges commit between the statements of the claim that decides it, when the claim is told to start the
  generation's transition, no claim of the generation is open, nothing of it is staged, and every rack
  has reached its target.\<close>

theorem transition_only_when_all_is_in:
  assumes "next_step collate env view job_id config data player seed now = Inr (view', Step_Transition g)"
    and "current_generation (fst view) job_id config = Some generation"
    and "foreign job_id generation env" and "lc_racks_per_task config > 0"
    and "collation_ok collate (fst view')"
  shows "g = generation \<and> claims_in_flight view' job_id g = 0 \<and>
    \<not> anything_staged (fst view') job_id g \<and> \<not> any_rack_below_target (fst view') job_id g config"
proof -
  from assms(1,2) have "choose_racks collate env view job_id generation config now =
      (view', Selected_Step (Step_Transition g))"
    by (auto simp: next_step_def and_then_Inr split: selected.splits prod.splits)
  from choose_transition [OF this assms(3-5)] show ?thesis
    by (auto simp: complete_generation_def quiet_def nothing_in_flight_def
      nothing_staged_def anything_staged_def all_at_target_def any_rack_below_target_def list_ex_iff)
qed


section \<open>The racks handed out\<close>

definition requests_ok :: "leave_view \<Rightarrow> bool" where
  "requests_ok view \<longleftrightarrow> distinct (map lq_task_id (lv_requests (fst view)))"

lemma set_racks_out:
  "x \<in> set (racks_out (lv, claims) j g) \<longleftrightarrow>
    (\<exists>r\<in>set (lv_requests lv). x \<in> set (lq_forced_racks r) \<and>
      ((lq_generation r = g \<and> (\<exists>c\<in>set claims. c_job_id c = j \<and> c_state c = C_claimed \<and> lq_task_id r = c_task_id c)) \<or>
       (\<exists>s\<in>set (staged_for lv j g). lq_task_id r = sr_task_id s)))"
  unfolding racks_out_def Let_def fst_conv snd_conv by auto

lemma quiet_racks_out: "quiet j g view \<Longrightarrow> racks_out view j g = []"
proof -
  assume q: "quiet j g view"
  obtain lv claims where v: "view = (lv, claims)" by fastforce
  have "staged_for lv j g = []" using q by (simp add: v quiet_def nothing_staged_def)
  moreover have "\<not> (c_job_id c = j \<and> c_state c = C_claimed \<and> lq_task_id r = c_task_id c \<and> lq_generation r = g)"
    if "c \<in> set claims" "r \<in> set (lv_requests lv)" for c r
    using q that by (auto simp: v quiet_def nothing_in_flight_iff open_claim_of_def
        request_of_generation_def list_ex_iff)
  ultimately have "x \<notin> set (racks_out (lv, claims) j g)" for x
    unfolding set_racks_out by auto
  then have "set (racks_out (lv, claims) j g) = {}" unfolding set_eq_iff empty_iff by blast
  then show ?thesis unfolding v by simp
qed

lemma foreign_step_requests:
  assumes "foreign_step j g view view'" and "requests_ok view"
  shows "requests_ok view' \<and> row_with cursor_key (j, g) (lv_cursors (fst view')) =
    row_with cursor_key (j, g) (lv_cursors (fst view))"
  using assms(1)
proof cases
  case (submission c claims template lv racks lv')
  then show ?thesis using staged_by_submission [OF submission(6)] assms(2) by (auto simp: requests_ok_def)
next
  case (merged lv hashtext config wait free per_pass now lv' outcome claims)
  show ?thesis
    using merged(4,3) by (cases rule: merge_cases) (use assms(2) merged(1,2) in \<open>simp_all add: requests_ok_def\<close>)
qed (use assms(2) in \<open>auto simp: requests_ok_def\<close>)

lemma racks_out_mono:
  assumes "set (staged_for lv' j g) \<subseteq> set (staged_for lv j g)" and "lv_requests lv' = lv_requests lv"
    and "\<And>c. c \<in> set claims' \<Longrightarrow> c_state c = C_claimed \<Longrightarrow>
      \<exists>c0\<in>set claims. c_job_id c0 = c_job_id c \<and> c_state c0 = C_claimed \<and> c_task_id c0 = c_task_id c"
  shows "set (racks_out (lv', claims') j g) \<subseteq> set (racks_out (lv, claims) j g)"
proof
  fix x assume "x \<in> set (racks_out (lv', claims') j g)"
  then obtain r where r: "r \<in> set (lv_requests lv)" "x \<in> set (lq_forced_racks r)"
    and "(lq_generation r = g \<and> (\<exists>c\<in>set claims'. c_job_id c = j \<and> c_state c = C_claimed \<and> lq_task_id r = c_task_id c)) \<or>
      (\<exists>s\<in>set (staged_for lv' j g). lq_task_id r = sr_task_id s)"
    unfolding set_racks_out assms(2) by blast
  then have "(lq_generation r = g \<and> (\<exists>c\<in>set claims. c_job_id c = j \<and> c_state c = C_claimed \<and> lq_task_id r = c_task_id c)) \<or>
      (\<exists>s\<in>set (staged_for lv j g). lq_task_id r = sr_task_id s)"
    using assms(1,3) by (metis subsetD)
  with r show "x \<in> set (racks_out (lv, claims) j g)" unfolding set_racks_out by blast
qed

lemma foreign_step_racks_out:
  assumes "foreign_step j g view view'" and "requests_ok view"
  shows "set (racks_out view' j g) \<subseteq> set (racks_out view j g)"
  using assms(1)
proof cases
  case (submission c claims template lv racks lv')
  obtain row where row: "row_with lq_task_id (c_task_id c) (lv_requests lv) = Some row"
    and req: "lv_requests lv' = lv_requests lv"
    and st: "lv_staging lv' = lv_staging lv \<or>
       (\<exists>s. lv_staging lv' = lv_staging lv @ [s] \<and> sr_job_id s = c_job_id c \<and>
          sr_generation s = lq_generation row \<and> sr_task_id s = c_task_id c)"
    using staged_by_submission [OF submission(6)] submission(5) by auto
  let ?claims' = "update_key c_id (c_id c) (\<lambda>c. c\<lparr>c_state := C_completed\<rparr>) claims"
  have only: "r = row" if "r \<in> set (lv_requests lv)" "lq_task_id r = c_task_id c" for r
    using that row_with_Some [OF row] assms(2) submission(1)
    by (auto simp: requests_ok_def distinct_map inj_on_def)
  have stays: "c' \<in> set claims" if "c' \<in> set ?claims'" "c_state c' = C_claimed" for c'
    using that unfolding update_key_def by (blast dest: update_state_cases)
  have staged: "s \<in> set (staged_for lv j g) \<or>
      (c_job_id c = j \<and> lq_generation row = g \<and> sr_task_id s = c_task_id c)"
    if "s \<in> set (staged_for lv' j g)" for s
    using st that by (auto simp: staged_for_def)
  show ?thesis
  proof
    fix x assume "x \<in> set (racks_out view' j g)"
    then have "x \<in> set (racks_out (lv', ?claims') j g)" using submission(2) by simp
    then obtain r where r: "r \<in> set (lv_requests lv)" "x \<in> set (lq_forced_racks r)"
      and "(lq_generation r = g \<and> (\<exists>c\<in>set ?claims'. c_job_id c = j \<and> c_state c = C_claimed \<and> lq_task_id r = c_task_id c)) \<or>
       (\<exists>s\<in>set (staged_for lv' j g). lq_task_id r = sr_task_id s)"
      unfolding set_racks_out req by blast
    then consider "lq_generation r = g" "\<exists>c\<in>set claims. c_job_id c = j \<and> c_state c = C_claimed \<and> lq_task_id r = c_task_id c"
      | "\<exists>s\<in>set (staged_for lv j g). lq_task_id r = sr_task_id s"
      | "c_job_id c = j" "lq_generation row = g" "lq_task_id r = c_task_id c"
      using stays staged by metis
    then have "x \<in> set (racks_out (lv, claims) j g)"
    proof cases
      case 3
      then have "r = row" using only r(1) by blast
      then show ?thesis using 3 r submission(3,4) unfolding set_racks_out by (intro bexI [of _ r]) auto
    next
      case 1
      then show ?thesis using r unfolding set_racks_out by blast
    next
      case 2
      then show ?thesis using r unfolding set_racks_out by blast
    qed
    then show "x \<in> set (racks_out view j g)" using submission(1) by simp
  qed
next
  case given_back
  show ?thesis unfolding given_back(1,2)
    by (rule racks_out_mono) (use given_back(3) update_state_cases in blast)+
next
  case seen
  show ?thesis unfolding seen(1,2) by (rule racks_out_mono) (use seen(3) in auto)
next
  case (merged lv hashtext config wait free per_pass now lv' outcome claims)
  show ?thesis
    using merged(4,3)
  proof (cases rule: merge_cases)
    case skipped
    then show ?thesis using merged(1,2) by simp
  next
    case merged': merged
    show ?thesis unfolding merged(1,2) by (rule racks_out_mono) (use merged' in auto)
  qed
next
  case (elsewhere lv' lv rs claims cs)
  show ?thesis unfolding elsewhere(1,2)
  proof
    fix x assume "x \<in> set (racks_out (lv', claims @ cs) j g)"
    then obtain r where r: "r \<in> set (lv_requests lv @ rs)" "x \<in> set (lq_forced_racks r)"
      and out: "(lq_generation r = g \<and> (\<exists>c\<in>set (claims @ cs). c_job_id c = j \<and> c_state c = C_claimed \<and> lq_task_id r = c_task_id c)) \<or>
        (\<exists>s\<in>set (staged_for lv j g). lq_task_id r = sr_task_id s)"
      unfolding set_racks_out elsewhere(4,6) by blast
    have out': "(lq_generation r = g \<and> (\<exists>c\<in>set claims. c_job_id c = j \<and> c_state c = C_claimed \<and> lq_task_id r = c_task_id c)) \<or>
        (\<exists>s\<in>set (staged_for lv j g). lq_task_id r = sr_task_id s)"
      using out elsewhere(9) unfolding set_append by blast
    then have "lq_task_id r \<in> c_task_id ` set claims \<union> sr_task_id ` set (staged_for lv j g)" by blast
    then have "r \<in> set (lv_requests lv)" using r(1) elsewhere(8) by auto
    then show "x \<in> set (racks_out (lv, claims) j g)" using r(2) out' unfolding set_racks_out by blast
  qed
qed


lemma foreign_out:
  assumes "rtranclp (foreign_step j g) view view'" and "requests_ok view"
  shows "requests_ok view' \<and> set (racks_out view' j g) \<subseteq> set (racks_out view j g) \<and>
    row_with cursor_key (j, g) (lv_cursors (fst view')) = row_with cursor_key (j, g) (lv_cursors (fst view))"
  using assms(1)
proof (induction rule: rtranclp_induct)
  case base
  then show ?case using assms(2) by simp
next
  case (step y z)
  then show ?case using foreign_step_requests foreign_step_racks_out by (metis subset_trans)
qed

lemma foreign_reach: "foreign j g env \<Longrightarrow> rtranclp (foreign_step j g) view (env k view)"
  unfolding foreign_def by blast

lemma nothing_to_hand_out_reach:
  assumes "nothing_to_hand_out env k view j g = (view', r)" and "foreign j g env"
  shows "rtranclp (foreign_step j g) view view'"
proof -
  have "view' = env k view \<or> view' = env (k + 1) (env k view)"
    using assms(1) by (auto simp: nothing_to_hand_out_def Let_def split: if_splits)
  then show ?thesis
    using foreign_reach [OF assms(2)] rtranclp_trans by metis
qed

lemma racks_out_cong:
  "lv_requests lv' = lv_requests lv \<Longrightarrow> lv_staging lv' = lv_staging lv \<Longrightarrow>
    racks_out (lv', claims) j g = racks_out (lv, claims) j g"
  by (simp add: racks_out_def staged_for_def)

text \<open>A task's racks: some, not more than its size, each once, each below its target.\<close>

definition good_racks :: "leave_store \<Rightarrow> nat \<Rightarrow> int \<Rightarrow> leave_config \<Rightarrow> ustr list \<Rightarrow> bool" where
  "good_racks lv j g config racks \<longleftrightarrow> racks \<noteq> [] \<and> length racks \<le> nat (lc_racks_per_task config) \<and>
     distinct racks \<and> (\<forall>r\<in>set racks. \<exists>p\<in>set (generation_racks lv j g). rp_rack p = r \<and>
       rp_count p < target_for config g)"

text \<open>While a lap is under way, everything out is behind its cursor.\<close>

definition behind :: "(ustr \<Rightarrow> ustr) \<Rightarrow> nat \<Rightarrow> int \<Rightarrow> leave_store \<Rightarrow> ustr set \<Rightarrow> bool" where
  "behind collate j g lv racks \<longleftrightarrow>
     (case map_option cu_rack (row_with cursor_key (j, g) (lv_cursors lv)) of
        Some (Some cursor) \<Rightarrow> \<forall>r\<in>racks. collate r \<le> collate cursor
      | _ \<Rightarrow> True)"

definition distinct_universe :: "leave_store \<Rightarrow> bool" where
  "distinct_universe lv \<longleftrightarrow> distinct (map (\<lambda>p. (rp_job_id p, rp_generation p, rp_rack p)) (lv_racks lv))"

lemma distinct_generation: "distinct_universe lv \<Longrightarrow> distinct (map rp_rack (generation_racks lv j g))"
proof -
  assume "distinct_universe lv"
  then have "distinct (map (\<lambda>p. (rp_job_id p, rp_generation p, rp_rack p)) (generation_racks lv j g))"
    unfolding distinct_universe_def generation_racks_def by (rule distinct_map_filter)
  then show ?thesis by (auto simp: distinct_map inj_on_def generation_racks_def of_generation_def)
qed

lemma sorted_last: "sorted (map f ys) \<Longrightarrow> x \<in> set ys \<Longrightarrow> f x \<le> f (last ys)"
  by (induction ys) auto

lemma take_sorted_last:
  assumes "sorted (map f xs)" and "x \<in> set (take n xs)"
  shows "f x \<le> f (last (take n xs))"
  using sorted_wrt_take [OF assms(1), of n] assms(2) by (intro sorted_last) (simp_all add: take_map)

lemma racks_after_good:
  assumes "racks_after collate lv j g config cursor = (racks, any_left)" and "distinct_universe lv"
  shows "distinct racks" and "length racks \<le> nat (lc_racks_per_task config)"
    and "\<forall>r\<in>set racks. collate cursor < collate r \<and> (\<exists>p\<in>set (generation_racks lv j g). rp_rack p = r \<and>
      rp_count p < target_for config g)"
    and "r \<in> set racks \<Longrightarrow> collate r \<le> collate (last racks)"
    and "any_left \<Longrightarrow> lc_racks_per_task config > 0 \<Longrightarrow> racks \<noteq> []"
proof -
  let ?rows = "filter (\<lambda>p. collate cursor < collate (rp_rack p) \<and> below_target config g p) (generation_racks lv j g)"
  let ?all = "sort_key collate (map rp_rack ?rows)"
  have racks: "racks = take (nat (lc_racks_per_task config)) ?all"
    using assms(1) by (simp add: racks_after_def Let_def min_def)
  show "distinct racks"
    using distinct_generation [OF assms(2)] by (simp add: racks distinct_map_filter)
  show "length racks \<le> nat (lc_racks_per_task config)" by (simp add: racks)
  have "set racks \<subseteq> rp_rack ` set ?rows" using set_take_subset [of _ ?all] by (auto simp: racks)
  then show "\<forall>r\<in>set racks. collate cursor < collate r \<and> (\<exists>p\<in>set (generation_racks lv j g). rp_rack p = r \<and>
      rp_count p < target_for config g)"
    by (fastforce simp: below_target_def)
  show "collate r \<le> collate (last racks)" if "r \<in> set racks"
    using that unfolding racks by (intro take_sorted_last sorted_sort_key)
  show "racks \<noteq> []" if "any_left" "lc_racks_per_task config > 0"
  proof -
    have "nat (lc_racks_per_task config) < length ?all" using assms(1) that(1) by (simp add: racks_after_def Let_def)
    then have "?all \<noteq> []" by (metis list.size(3) not_less0)
    with that(2) show ?thesis by (simp add: racks)
  qed
qed


lemma behind_cursor:
  "row_with cursor_key (j, g) (lv_cursors lv) = Some c \<Longrightarrow> cu_rack c = Some cursor \<Longrightarrow>
    behind collate j g lv racks \<longleftrightarrow> (\<forall>r\<in>racks. collate r \<le> collate cursor)"
  by (simp add: behind_def)

lemma behind_none:
  "map_option cu_rack (row_with cursor_key (j, g) (lv_cursors lv)) \<in> {None, Some None} \<Longrightarrow>
    behind collate j g lv racks"
  by (auto simp: behind_def)

lemma moved_cursor_behind:
  assumes ra: "racks_after collate lv j g config cursor = (racks, any_left)" and "distinct_universe lv"
    and "\<forall>r\<in>out. collate r \<le> collate cursor" and "racks \<noteq> []"
    and c: "map_option cu_rack (row_with cursor_key (j, g) (lv_cursors lv')) \<in> {None, Some (last_rack racks)}"
  shows "behind collate j g lv' (set racks \<union> out)"
proof -
  note good = racks_after_good [OF ra assms(2)]
  have "collate r \<le> collate (last racks)" if "r \<in> set racks \<union> out" for r
  proof (cases "r \<in> set racks")
    case True
    then show ?thesis by (rule good(4))
  next
    case False
    then have "collate r \<le> collate cursor" using that assms(3) by blast
    also have "collate cursor < collate (last racks)" using good(3) assms(4) by simp
    finally show ?thesis by simp
  qed
  then show ?thesis using c assms(4) by (auto simp: behind_def last_rack_def)
qed

lemma filter_key_none: "row_with key k (filter (\<lambda>r. key r \<noteq> k) rows) = None"
  by (auto simp: row_with_None)

lemma continue_lap_good:
  assumes "continue_lap collate lv j g config cursor = (lv', Some (Selected_Racks racks))"
    and "distinct_universe lv" and "lc_racks_per_task config > 0"
    and "\<forall>r\<in>set (racks_out (lv, claims) j g). collate r \<le> collate cursor"
  shows "good_racks lv' j g config racks \<and> set racks \<inter> set (racks_out (lv', claims) j g) = {} \<and>
    behind collate j g lv' (set racks \<union> set (racks_out (lv', claims) j g))"
proof -
  obtain xs any_left where ra: "racks_after collate lv j g config cursor = (xs, any_left)" by fastforce
  have xs: "xs = racks" and ne: "racks \<noteq> []"
    and cur: "map_option cu_rack (row_with cursor_key (j, g) (lv_cursors lv')) \<in> {None, Some (last_rack racks)}"
    and same: "lv_requests lv' = lv_requests lv" "lv_staging lv' = lv_staging lv" "lv_racks lv' = lv_racks lv"
  proof -
    have "xs = racks \<and> racks \<noteq> [] \<and>
      map_option cu_rack (row_with cursor_key (j, g) (lv_cursors lv')) \<in> {None, Some (last_rack racks)} \<and>
      lv_requests lv' = lv_requests lv \<and> lv_staging lv' = lv_staging lv \<and> lv_racks lv' = lv_racks lv"
    proof (cases any_left)
      case True
      then show ?thesis using assms(1) ra racks_after_good(5) [OF ra assms(2) True assms(3)]
        by (cases "row_with cursor_key (j, g) (lv_cursors lv)")
          (auto simp: continue_lap_def row_with_update_key cursor_key_def)
    next
      case False
      then show ?thesis using assms(1) ra
        by (auto simp: continue_lap_def filter_key_none simp del: cursor_key_def split: if_splits)
    qed
    then show "xs = racks" "racks \<noteq> []"
      "map_option cu_rack (row_with cursor_key (j, g) (lv_cursors lv')) \<in> {None, Some (last_rack racks)}"
      "lv_requests lv' = lv_requests lv" "lv_staging lv' = lv_staging lv" "lv_racks lv' = lv_racks lv" by blast+
  qed
  note good = racks_after_good [OF ra [unfolded xs] assms(2)]
  have out: "racks_out (lv', claims) j g = racks_out (lv, claims) j g" by (rule racks_out_cong) (fact same)+
  have "generation_racks lv' j g = generation_racks lv j g" by (simp add: generation_racks_def same)
  then have "good_racks lv' j g config racks" using good(1-3) ne by (simp add: good_racks_def)
  moreover have "r \<notin> set (racks_out (lv, claims) j g)" if "r \<in> set racks" for r
    using good(3) assms(4) that by (metis leD)
  moreover have "behind collate j g lv' (set racks \<union> set (racks_out (lv, claims) j g))"
    by (rule moved_cursor_behind [OF ra [unfolded xs] assms(2) assms(4) ne cur])
  ultimately show ?thesis unfolding out by blast
qed


lemma set_cursor_row:
  "map_option cu_rack (row_with cursor_key (j, g) (lv_cursors (set_cursor lv j g r))) = Some r"
proof (cases "row_with cursor_key (j, g) (lv_cursors lv)")
  case None
  then show ?thesis by (simp add: set_cursor_def insert_or_update_def row_with_new cursor_key_def)
next
  case (Some c)
  then show ?thesis by (simp add: set_cursor_def insert_or_update_def row_with_update_key cursor_key_def)
qed

lemma furthest_good:
  assumes "furthest_below_target env k view j g config now = (view', Selected_Racks racks)"
    and "distinct_universe (fst view')"
  shows "good_racks (fst view') j g config racks \<and> set racks \<inter> set (racks_out view' j g) = {} \<and>
    view' = env k view"
proof -
  have r: "racks = furthest_racks (env k view) j g config" "racks \<noteq> []" and v: "view' = env k view"
    using assms(1) by (auto simp: furthest_below_target_def Let_def split: if_splits prod.splits option.splits)
  let ?rows = "filter (\<lambda>p. below_target config g p \<and> rp_rack p \<notin> set (racks_out view' j g))
      (generation_racks (fst view') j g)"
  have racks: "racks = map rp_rack (take (nat (lc_racks_per_task config)) (sort_key rp_count ?rows))"
    using r(1) v by (simp add: furthest_racks_def)
  have "set racks \<subseteq> rp_rack ` set ?rows"
    using set_take_subset [of _ "sort_key rp_count ?rows"] by (auto simp: racks)
  moreover have "distinct racks"
  proof -
    have "distinct (map rp_rack ?rows)" using distinct_generation [OF assms(2)] by (rule distinct_map_filter)
    then have "inj_on rp_rack (set (sort_key rp_count ?rows))" "distinct (sort_key rp_count ?rows)"
      by (simp_all add: distinct_map)
    then have "distinct (map rp_rack (sort_key rp_count ?rows))" by (simp add: distinct_map)
    then show ?thesis unfolding racks take_map [symmetric] by (rule distinct_take)
  qed
  moreover have "length racks \<le> nat (lc_racks_per_task config)" by (simp add: racks)
  ultimately show ?thesis using r(2) v by (fastforce simp: good_racks_def below_target_def)
qed

definition handed_well :: "(ustr \<Rightarrow> ustr) \<Rightarrow> nat \<Rightarrow> int \<Rightarrow> leave_config \<Rightarrow> leave_view \<Rightarrow> ustr list \<Rightarrow> bool" where
  "handed_well collate j g config view racks \<longleftrightarrow> good_racks (fst view) j g config racks \<and>
     set racks \<inter> set (racks_out view j g) = {} \<and>
     behind collate j g (fst view) (set racks \<union> set (racks_out view j g))"

lemma sweep_good:
  assumes "sweep collate env k view j g config now = (view', Selected_Racks racks)"
    and "distinct_universe (fst view')" and "foreign j g env" and "requests_ok view" and "quiet j g view"
    and "row_with cursor_key (j, g) (lv_cursors (fst view)) = None"
  shows "handed_well collate j g config view' racks"
proof -
  let ?v = "env k view"
  have q: "racks_out ?v j g = []" using foreign_quiet [OF assms(3,5)] quiet_racks_out by blast
  have c: "row_with cursor_key (j, g) (lv_cursors (fst ?v)) = None"
    using foreign_out [OF foreign_reach [OF assms(3)] assms(4)] assms(6) by simp
  obtain xs any_left where ra: "racks_after collate (fst ?v) j g config [] = (xs, any_left)" by fastforce
  have xs: "xs = racks" "racks \<noteq> []"
    and v': "view' = (if any_left then (set_cursor (fst ?v) j g (last_rack racks), snd ?v) else ?v)"
    using assms(1) ra by (auto simp: sweep_def Let_def split: if_splits prod.splits)
  have same: "lv_racks (fst view') = lv_racks (fst ?v)" "racks_out view' j g = []"
    using v' q racks_out_cong [of "set_cursor (fst ?v) j g (last_rack racks)" "fst ?v" "snd ?v" j g]
    by (auto split: if_splits)
  then have d: "distinct_universe (fst ?v)" using assms(2) by (simp add: distinct_universe_def)
  note good = racks_after_good [OF ra [unfolded xs] d]
  have "good_racks (fst view') j g config racks"
    using good(1-3) xs(2) same(1) by (simp add: good_racks_def generation_racks_def)
  moreover have "behind collate j g (fst view') (set racks \<union> {})"
  proof (cases any_left)
    case True
    have "map_option cu_rack (row_with cursor_key (j, g) (lv_cursors (fst view'))) = Some (last_rack racks)"
      using v' True set_cursor_row by simp
    then show ?thesis
      by (intro moved_cursor_behind [OF ra [unfolded xs] d _ xs(2)]) simp_all
  next
    case False
    then show ?thesis using v' c by (intro behind_none) simp
  qed
  ultimately show ?thesis using same(2) by (simp add: handed_well_def)
qed

lemma boundary_good:
  assumes "at_boundary collate env k view j g config now = (view', Selected_Racks racks)"
    and "distinct_universe (fst view')" and "foreign j g env" and "requests_ok view"
    and "row_with cursor_key (j, g) (lv_cursors (fst view)) = None"
  shows "handed_well collate j g config view' racks"
proof -
  obtain view1 r where n: "nothing_to_hand_out env k view j g = (view1, r)" by fastforce
  have r: "r = None" using assms(1) n by (auto simp: at_boundary_def Let_def split: option.splits)
  let ?v2 = "env (k + 2) view1"
  have q: "quiet j g ?v2"
    using foreign_quiet [OF assms(3) nothing_to_hand_out_None [OF n [unfolded r] assms(3)]] by blast
  have reach: "rtranclp (foreign_step j g) view ?v2"
    using nothing_to_hand_out_reach [OF n assms(3)] foreign_reach [OF assms(3)] by (rule rtranclp_trans)
  have v2: "requests_ok ?v2" "row_with cursor_key (j, g) (lv_cursors (fst ?v2)) = None"
    using foreign_out [OF reach assms(4)] assms(5) by simp_all
  show ?thesis
  proof (cases "racks_below_target (fst ?v2) j g \<le> SWEEP_WHILE_TASKS_REMAIN * lc_racks_per_task config")
    case True
    let ?tail = "(set_cursor (fst ?v2) j g None, snd ?v2)"
    from True assms(1) n r have f: "furthest_below_target env (k + 3) ?tail j g config now = (view', Selected_Racks racks)"
      by (simp add: at_boundary_def Let_def)
    note good = furthest_good [OF f assms(2)]
    have "requests_ok ?tail" using v2(1) by (simp add: requests_ok_def)
    with foreign_out [OF foreign_reach [OF assms(3)], of ?tail "k + 3"]
    have "map_option cu_rack (row_with cursor_key (j, g) (lv_cursors (fst view'))) = Some None"
      using good set_cursor_row by simp
    then have "behind collate j g (fst view') (set racks \<union> set (racks_out view' j g))"
      by (intro behind_none) simp
    then show ?thesis using good unfolding handed_well_def by blast
  next
    case False
    with assms(1) n r have "sweep collate env (k + 3) ?v2 j g config now = (view', Selected_Racks racks)"
      by (simp add: at_boundary_def Let_def)
    then show ?thesis using assms(2,3) v2(1) q v2(2) by (rule sweep_good)
  qed
qed

text \<open>C11: No rack is handed out that is already out.  Whatever other transactions commit while a claim
  chooses, the racks it hands out are some of those below their target, each once, not more than a task
  takes, and none of them is forced by an open claim or by a result waiting for a merge; and while a lap
  is under way everything out stays behind its cursor, the racks just handed out included.\<close>

theorem racks_handed_out_are_not_out:
  assumes "choose_racks collate env view j g config now = (view', Selected_Racks racks)"
    and "distinct_universe (fst view')" and "distinct_universe (fst (env 0 view))"
    and "foreign j g env" and "requests_ok view"
    and "lc_racks_per_task config > 0"
    and "behind collate j g (fst view) (set (racks_out view j g))"
  shows "good_racks (fst view') j g config racks \<and> set racks \<inter> set (racks_out view' j g) = {} \<and>
    behind collate j g (fst view') (set racks \<union> set (racks_out view' j g))"
proof -
  have "handed_well collate j g config view' racks"
  proof (cases "row_with cursor_key (j, g) (lv_cursors (fst view))")
    case None
    with assms(1) have "at_boundary collate env 0 view j g config now = (view', Selected_Racks racks)"
      by (simp add: choose_racks_def)
    then show ?thesis using assms(2,4,5) None by (rule boundary_good)
  next
    case (Some row)
    let ?v = "env 0 view"
    note out = foreign_out [OF foreign_reach [OF assms(4)] assms(5), of 0]
    show ?thesis
    proof (cases "cu_rack row")
      case None
      with Some assms(1) have f: "furthest_below_target env 0 view j g config now = (view', Selected_Racks racks)"
        by (simp add: choose_racks_def)
      note good = furthest_good [OF f assms(2)]
      have "behind collate j g (fst view') (set racks \<union> set (racks_out view' j g))"
        using out good Some None by (intro behind_none) simp
      then show ?thesis using good unfolding handed_well_def by blast
    next
      case (Some cursor)
      note row = \<open>row_with _ _ _ = Some row\<close>
      obtain lv chosen where cl: "continue_lap collate (fst ?v) j g config cursor = (lv, chosen)" by fastforce
      show ?thesis
      proof (cases chosen)
        case None
        with cl assms(1) row Some have b: "at_boundary collate env 1 (lv, snd ?v) j g config now = (view', Selected_Racks racks)"
          by (simp add: choose_racks_def)
        have "lv = fst ?v\<lparr>lv_cursors := filter (\<lambda>c. cursor_key c \<noteq> (j, g)) (lv_cursors (fst ?v))\<rparr>"
          using cl None by (auto simp: continue_lap_def split: if_splits prod.splits)
        then have "requests_ok (lv, snd ?v)" "row_with cursor_key (j, g) (lv_cursors (fst (lv, snd ?v))) = None"
          using out by (simp_all add: requests_ok_def filter_key_none)
        with b assms(2,4) show ?thesis by (intro boundary_good)
      next
        case (Some sel)
        with cl assms(1) row \<open>cu_rack row = Some cursor\<close> have sel: "sel = Selected_Racks racks" and v': "view' = (lv, snd ?v)"
          by (simp_all add: choose_racks_def)
        have "\<forall>r\<in>set (racks_out (fst ?v, snd ?v) j g). collate r \<le> collate cursor"
          using assms(7) out row \<open>cu_rack row = Some cursor\<close> by (auto simp: behind_cursor)
        from continue_lap_good [OF cl [unfolded Some sel] assms(3,6) this] show ?thesis
          unfolding handed_well_def v' by simp
      qed
    qed
  qed
  then show ?thesis by (simp add: handed_well_def)
qed


section \<open>The next task\<close>

text \<open>What a selection over a quiet generation comes to, when no one else commits: racks while some are
  below target, then the transition.\<close>

definition next_racks :: "nat \<Rightarrow> int \<Rightarrow> leave_config \<Rightarrow> leave_store \<Rightarrow> leave_view \<times> selected \<Rightarrow> bool" where
  "next_racks j g config lv outcome \<longleftrightarrow>
     (if any_rack_below_target lv j g config
      then (\<exists>racks. snd outcome = Selected_Racks racks \<and> racks \<noteq> [])
      else snd outcome = Selected_Step (Step_Transition g)) \<and>
     lv_artifacts (fst (fst outcome)) = lv_artifacts lv"

definition transition_free :: "leave_store \<Rightarrow> nat \<Rightarrow> int \<Rightarrow> time \<Rightarrow> bool" where
  "transition_free lv j g now \<longleftrightarrow>
     (case row_with transition_key (j, g) (lv_transitions lv) of None \<Rightarrow> True | Some t \<Rightarrow> may_take_over now t)"

lemma claim_transition_free:
  "transition_free lv j g now \<Longrightarrow> snd (claim_transition lv j g now) = Step_Transition g"
  by (auto simp: claim_transition_def transition_free_def split: option.splits)

lemma claim_transition_artifacts [simp]: "lv_artifacts (fst (claim_transition lv j g now)) = lv_artifacts lv"
  by (auto simp: claim_transition_def split: option.splits)

lemma nothing_quiet:
  "quiet j g view \<Longrightarrow> nothing_to_hand_out no_commits k view j g = (view, None)"
  by (simp add: nothing_to_hand_out_def no_commits_def quiet_def nothing_in_flight_def nothing_staged_def
      anything_staged_def)

lemma quiet_cong:
  assumes "lv_requests lv' = lv_requests lv" "lv_staging lv' = lv_staging lv"
  shows "quiet j g (lv', claims) \<longleftrightarrow> quiet j g (lv, claims)"
  using assms open_claim_of_cong [OF assms(1)]
  by (simp add: quiet_def nothing_in_flight_iff nothing_staged_def staged_for_def)

lemma below_target_iff:
  "any_rack_below_target lv j g config \<longleftrightarrow> filter (below_target config g) (generation_racks lv j g) \<noteq> []"
  by (auto simp: any_rack_below_target_def below_target_def list_ex_iff filter_empty_conv)

lemma furthest_quiet:
  assumes "quiet j g (lv, claims)" and "transition_free lv j g now" and "lc_racks_per_task config > 0"
  shows "next_racks j g config lv (furthest_below_target no_commits k (lv, claims) j g config now)"
proof -
  have racks: "furthest_racks (lv, claims) j g config = map rp_rack (take (nat (lc_racks_per_task config))
      (sort_key rp_count (filter (below_target config g) (generation_racks lv j g))))"
    using quiet_racks_out [OF assms(1)] by (simp add: furthest_racks_def)
  have none: "sort_key rp_count (filter (below_target config g) (generation_racks lv j g)) = [] \<longleftrightarrow>
      \<not> any_rack_below_target lv j g config"
    unfolding below_target_iff by (metis set_empty set_sort)
  show ?thesis
  proof (cases "any_rack_below_target lv j g config")
    case True
    then have "furthest_racks (lv, claims) j g config \<noteq> []" using none racks assms(3) by simp
    with True show ?thesis by (simp add: next_racks_def furthest_below_target_def no_commits_def Let_def)
  next
    case False
    then have f: "furthest_racks (lv, claims) j g config = []" using none racks by simp
    obtain lv' step where ct: "claim_transition lv j g now = (lv', step)" by fastforce
    have n: "nothing_to_hand_out no_commits (Suc k) (lv, claims) j g = ((lv, claims), None)"
      using assms(1) by (rule nothing_quiet)
    have "step = Step_Transition g" using claim_transition_free [OF assms(2)] ct by simp
    moreover have "lv_artifacts lv' = lv_artifacts lv" using ct claim_transition_artifacts [of lv j g now] by simp
    ultimately show ?thesis using False f n ct
      by (simp add: next_racks_def furthest_below_target_def no_commits_def [abs_def])
  qed
qed

lemma sweep_quiet:
  assumes "transition_free lv j g now" and "lc_racks_per_task config > 0" and "collation_ok collate lv"
  shows "next_racks j g config lv (sweep collate no_commits k (lv, claims) j g config now)"
proof -
  obtain racks any_left where ra: "racks_after collate lv j g config [] = (racks, any_left)" by fastforce
  show ?thesis
  proof (cases "racks = []")
    case True
    have "\<not> any_rack_below_target lv j g config"
      using no_rack_after_start [OF ra [unfolded True] assms(2,3)]
      by (auto simp: any_rack_below_target_def list_ex_iff)
    then show ?thesis using True ra claim_transition_free [OF assms(1)] claim_transition_artifacts [of lv j g now]
      by (simp add: next_racks_def sweep_def no_commits_def case_prod_beta)
  next
    case False
    let ?rows = "filter (\<lambda>p. collate [] < collate (rp_rack p) \<and> below_target config g p) (generation_racks lv j g)"
    have "racks = take (nat (lc_racks_per_task config)) (sort_key collate (map rp_rack ?rows))"
      using ra by (simp add: racks_after_def Let_def min_def)
    with False have "?rows \<noteq> []" by auto
    then obtain p where "p \<in> set ?rows" by (meson ex_in_conv set_empty)
    then have "any_rack_below_target lv j g config"
      by (auto simp: any_rack_below_target_def list_ex_iff below_target_def)
    then show ?thesis using False ra
      by (simp add: next_racks_def sweep_def no_commits_def set_cursor_def Let_def)
  qed
qed

lemma next_racks_cong:
  "lv_racks lv' = lv_racks lv \<Longrightarrow> lv_artifacts lv' = lv_artifacts lv \<Longrightarrow>
    next_racks j g config lv' = next_racks j g config lv"
  by (intro ext) (simp add: next_racks_def any_rack_below_target_def generation_racks_def)

lemma boundary_quiet:
  assumes "quiet j g (lv, claims)" and "transition_free lv j g now" and "lc_racks_per_task config > 0"
    and "collation_ok collate lv"
  shows "next_racks j g config lv (at_boundary collate no_commits k (lv, claims) j g config now)"
proof -
  let ?tail = "set_cursor lv j g None"
  have "quiet j g (?tail, claims)" using assms(1) by (subst quiet_cong [of _ lv]) simp_all
  moreover have "transition_free ?tail j g now" using assms(2) by (simp add: transition_free_def set_cursor_def)
  ultimately have "next_racks j g config ?tail (furthest_below_target no_commits (k + 3) (?tail, claims) j g config now)"
    using assms(3) by (rule furthest_quiet)
  moreover have "next_racks j g config ?tail = next_racks j g config lv"
    by (rule next_racks_cong) (simp_all add: set_cursor_def)
  ultimately have tail: "next_racks j g config lv (furthest_below_target no_commits (k + 3) (?tail, claims) j g config now)"
    by simp
  show ?thesis
    using tail sweep_quiet [OF assms(2,3,4), of "k + 3" claims] nothing_quiet [OF assms(1), of k]
    by (simp add: at_boundary_def no_commits_def [abs_def] Let_def)
qed


lemma racks_after_below:
  assumes "racks_after collate lv j g config cursor = (racks, any_left)" and "racks \<noteq> []"
  shows "any_rack_below_target lv j g config"
proof -
  let ?rows = "filter (\<lambda>p. collate cursor < collate (rp_rack p) \<and> below_target config g p) (generation_racks lv j g)"
  have "racks = take (nat (lc_racks_per_task config)) (sort_key collate (map rp_rack ?rows))"
    using assms(1) by (simp add: racks_after_def Let_def min_def)
  with assms(2) have "?rows \<noteq> []" by auto
  then obtain p where "p \<in> set ?rows" by (meson ex_in_conv set_empty)
  then show ?thesis by (auto simp: any_rack_below_target_def list_ex_iff below_target_def)
qed

lemma choose_quiet:
  assumes "quiet j g (lv, claims)" and "transition_free lv j g now" and "lc_racks_per_task config > 0"
    and "collation_ok collate lv" and "distinct_universe lv"
  shows "next_racks j g config lv (choose_racks collate no_commits (lv, claims) j g config now)"
proof (cases "map_option cu_rack (row_with cursor_key (j, g) (lv_cursors lv))")
  case None
  then show ?thesis using boundary_quiet [OF assms(1-4)] by (simp add: choose_racks_def)
next
  case (Some place)
  show ?thesis
  proof (cases place)
    case None
    then show ?thesis using Some furthest_quiet [OF assms(1-3)] by (auto simp: choose_racks_def)
  next
    case (Some cursor)
    obtain lv' chosen where cl: "continue_lap collate lv j g config cursor = (lv', chosen)" by fastforce
    obtain racks any_left where ra: "racks_after collate lv j g config cursor = (racks, any_left)" by fastforce
    have same: "lv_racks lv' = lv_racks lv" "lv_artifacts lv' = lv_artifacts lv" "lv_requests lv' = lv_requests lv"
      "lv_staging lv' = lv_staging lv" "lv_transitions lv' = lv_transitions lv"
      using cl ra by (auto simp: continue_lap_def split: if_splits)
    note cong = next_racks_cong [OF same(1,2), of j g config]
    show ?thesis
    proof (cases chosen)
      case None
      have "quiet j g (lv', claims)" using assms(1) quiet_cong [OF same(3,4)] by simp
      moreover have "transition_free lv' j g now" using assms(2) by (simp add: transition_free_def same)
      moreover have "collation_ok collate lv'" using assms(4) by (simp add: collation_ok_def same)
      ultimately have "next_racks j g config lv' (at_boundary collate no_commits 1 (lv', claims) j g config now)"
        using assms(3) by (intro boundary_quiet)
      then show ?thesis using cl None Some \<open>map_option _ _ = Some place\<close>
        by (auto simp: choose_racks_def no_commits_def [abs_def] cong)
    next
      case (Some sel)
      have "racks \<noteq> [] \<and> sel = Selected_Racks racks"
        using cl ra Some racks_after_good(5) [OF ra assms(5)] assms(3)
        by (auto simp: continue_lap_def split: if_splits)
      then show ?thesis
        using cl Some \<open>place = Some cursor\<close> \<open>map_option _ _ = Some place\<close> racks_after_below [OF ra] same(2)
        by (auto simp: choose_racks_def no_commits_def [abs_def] next_racks_def Let_def)
    qed
  qed
qed

text \<open>C12: A generation gets on.  When nothing of the current generation is open or staged and its
  transition is not someone's, the next claim is answered at once: with a task while any rack of it is
  below its target, and with the generation's transition as soon as none is.\<close>

theorem leave_generation_gets_on:
  assumes "current_generation lv job_id config = Some g"
    and "claims_in_flight (lv, claims) job_id g = 0" and "\<not> anything_staged lv job_id g"
    and "transition_free lv job_id g now" and "lc_racks_per_task config > 0"
    and "collation_ok collate lv" and "distinct_universe lv"
    and "row_with artifact_row_key (job_id, g - 1) (lv_artifacts lv) = Some previous"
  shows "\<exists>view' step.
    next_step collate no_commits (lv, claims) job_id config data player seed now = Inr (view', step) \<and>
    (if any_rack_below_target lv job_id g config
     then \<exists>request. step = Step_Dispatch request \<and> lr_forced_racks request \<noteq> [] \<and>
       lr_previous_artifact_key request = af_key previous
     else step = Step_Transition g)"
proof -
  obtain view' chosen where c: "choose_racks collate no_commits (lv, claims) job_id g config now = (view', chosen)"
    by fastforce
  have "quiet job_id g (lv, claims)"
    using assms(2,3) by (simp add: quiet_def nothing_in_flight_def nothing_staged_def anything_staged_def)
  from choose_quiet [OF this assms(4-7)] c
  have n: "next_racks job_id g config lv (view', chosen)" by simp
  show ?thesis
  proof (cases "any_rack_below_target lv job_id g config")
    case True
    with n obtain racks where "chosen = Selected_Racks racks" "racks \<noteq> []" "lv_artifacts (fst view') = lv_artifacts lv"
      by (auto simp: next_racks_def)
    then show ?thesis using True assms(1,8) c by (simp add: next_step_def ok_or_def)
  next
    case False
    with n have "chosen = Selected_Step (Step_Transition g)" by (simp add: next_racks_def)
    then show ?thesis using False assms(1) c by (simp add: next_step_def)
  qed
qed


section \<open>A job at work\<close>

definition example_config :: leave_config where
  "example_config = \<lparr>lc_player_config_id = 1, lc_num_iterations = 10, lc_target_rack_counts = [5, 9],
     lc_racks_per_task = 1\<rparr>"

definition example_rack :: "ustr \<Rightarrow> int \<Rightarrow> rack_row" where
  "example_rack rack n = \<lparr>rp_job_id = 4, rp_generation = 1, rp_rack = rack, rp_count = n, rp_equity_sum = Fin 0\<rparr>"

definition example_artifact :: artifact_row where
  "example_artifact = \<lparr>af_job_id = 4, af_generation = 0, af_key = [48], af_sha256 = [49],
     af_served_sha256 = None, af_builder = [50]\<rparr>"

definition example_leaves :: "rack_row list \<Rightarrow> cursor_row list \<Rightarrow> leave_store" where
  "example_leaves racks cursors = \<lparr>
     lv_requests = [\<lparr>lq_task_id = 7, lq_variant = [], lq_letter_distribution = [], lq_board_layout = [],
       lq_generation = 1, lq_seed = 3, lq_forced_racks = [[65]], lq_num_games = 10,
       lq_previous_artifact_key = [48], lq_player_config_id = 1\<rparr>],
     lv_records = [], lv_staging = [], lv_next_staging_id = 1, lv_racks = racks, lv_generations = [],
     lv_cursors = cursors, lv_transitions = [], lv_artifacts = [example_artifact]\<rparr>"

definition leave_claim :: "claim_state \<Rightarrow> claim_row" where
  "leave_claim state = \<lparr>c_id = 1, c_task_id = 7, c_job_id = 4, c_claim_token = 1, c_state = state,
     c_claimed_by = By_user 1, c_claimed_at = 0, c_deadline_at = 0, c_overrun = None,
     c_last_heartbeat_at = None, c_completed_at = None, c_movegens = 0, c_magpie_version = [],
     c_derived_skipped = None\<rparr>"

lemma no_commits_foreign: "foreign j g no_commits"
  by (simp add: foreign_def no_commits_def)

text \<open>Mid-lap, with the first rack out and the cursor on it, the next one is handed out.\<close>

theorem racks_handed_out_are_not_out_witness:
  "good_racks (example_leaves [example_rack [65] 0, example_rack [66] 0, example_rack [67] 9] []) 4 1
     example_config [[66]] \<and> [66] \<notin> {[65 :: uchar]}"
proof -
  let ?racks = "[example_rack [65] 0, example_rack [66] 0, example_rack [67] 9]"
  let ?lv = "example_leaves ?racks [\<lparr>cu_job_id = 4, cu_generation = 1, cu_rack = Some [65]\<rparr>]"
  let ?view = "(?lv, [leave_claim C_claimed])"
  have "choose_racks (\<lambda>r. r) no_commits ?view 4 1 example_config 0 =
      ((example_leaves ?racks [], [leave_claim C_claimed]), Selected_Racks [[66]])"
    unfolding no_commits_def by code_simp
  moreover have "distinct_universe (example_leaves ?racks [])" "distinct_universe (fst (no_commits 0 ?view))"
    "requests_ok ?view" "lc_racks_per_task example_config > 0"
    "behind (\<lambda>r. r) 4 1 (fst ?view) (set (racks_out ?view 4 1))"
    unfolding no_commits_def by code_simp+
  ultimately show ?thesis
    using racks_handed_out_are_not_out [of "\<lambda>r. r" no_commits ?view 4 1 example_config 0] no_commits_foreign
    by simp
qed

definition example_player :: player_spec where
  "example_player = \<lparr>ps_name = [], ps_recorder_type = [], ps_sort_strategy = [], ps_lexicon = [], ps_leaves = [],
     ps_max_iterations = None, ps_num_plies = 1, ps_num_plies_recorded = 1, ps_num_plays = 1,
     ps_num_plays_recorded = 1, ps_stopping_pct = None, ps_use_inference = None, ps_time_limit_secs =
     None, ps_movegens_per_move = None, ps_use_wordmap = False, ps_use_rit = False, ps_rit_name = None,
     ps_use_wit = False, ps_min_play_iterations = None, ps_threshold = None, ps_sampling_rule = None,
     ps_inference_margin = None, ps_utility_w_winpct = None, ps_utility_w_spread = None,
     ps_utility_spread_scale = None, ps_win_pct_model = None, ps_movegen_margin = Fin 0, ps_endgame_plies
     = 1, ps_peg_max_bag = 1, ps_peg_stage_top_k = None, ps_peg_scenario_stride = None, ps_peg_opp_model
     = None, ps_peg_nested = None, ps_peg_nested_cand_caps = None, ps_peg_nested_max_depth = None,
     ps_peg_nested_strides = None\<rparr>"

definition example_data :: job_data where
  "example_data = \<lparr>jd_variant = [], jd_letterdist_name = [], jd_letterdist = \<lparr>ld_name = [], ld_bytes = [],
       ld_tiles = [], ld_letters = [], ld_unenumerable = None\<rparr>,
     jd_layout_name = [], jd_bingo_bonus = 50, jd_sim_cutoff = Fin 0\<rparr>"

definition finished_leaves :: leave_store where
  "finished_leaves = example_leaves [example_rack [65] 6, example_rack [66] 5] []"

lemma finished_step:
  "next_step (\<lambda>r. r) no_commits (finished_leaves, [leave_claim C_completed]) 4 example_config example_data
     example_player 3 10 =
   Inr ((fst (claim_transition (set_cursor finished_leaves 4 1 None) 4 1 10), [leave_claim C_completed]), Step_Transition 1)"
  unfolding no_commits_def by code_simp

theorem transition_only_when_all_is_in_witness:
  "claims_in_flight (fst (claim_transition (set_cursor finished_leaves 4 1 None) 4 1 10), [leave_claim C_completed]) 4 1 = 0 \<and>
   \<not> any_rack_below_target (fst (claim_transition (set_cursor finished_leaves 4 1 None) 4 1 10)) 4 1 example_config"
proof -
  have "current_generation finished_leaves 4 example_config = Some 1" by code_simp
  moreover have "collation_ok (\<lambda>r. r) (fst (claim_transition (set_cursor finished_leaves 4 1 None) 4 1 10))" by code_simp
  moreover have "lc_racks_per_task example_config > 0" by code_simp
  ultimately show ?thesis
    using transition_only_when_all_is_in [OF finished_step] no_commits_foreign by simp
qed

theorem leave_generation_gets_on_witness:
  "\<exists>view' step. next_step (\<lambda>r. r) no_commits (finished_leaves, [leave_claim C_completed]) 4 example_config
     example_data example_player 3 10 = Inr (view', step) \<and> step = Step_Transition 1"
proof -
  have "current_generation finished_leaves 4 example_config = Some 1"
    "claims_in_flight (finished_leaves, [leave_claim C_completed]) 4 1 = 0"
    "\<not> anything_staged finished_leaves 4 1" "transition_free finished_leaves 4 1 10"
    "lc_racks_per_task example_config > 0" "collation_ok (\<lambda>r. r) finished_leaves"
    "distinct_universe finished_leaves"
    "row_with artifact_row_key (4, 1 - 1) (lv_artifacts finished_leaves) = Some example_artifact"
    by code_simp+
  note on = leave_generation_gets_on [OF this, of example_data example_player 3]
  have "\<not> any_rack_below_target finished_leaves 4 1 example_config" by code_simp
  with on show ?thesis by auto
qed

end
