(* ===== verification/Submit_Spec.thy ===== *)
theory Submit_Spec
  imports Task_Life Games_Spec Leave_Gen_Spec
begin

text \<open>
  What a submission does to the tables: nothing when it is refused, the claim's completion when it is
  accepted, and the refusal of a late one alone when its deadline is over; a repeated submission is
  answered without a change.
\<close>

section \<open>The tables of the server\<close>

definition same_tables :: "server \<Rightarrow> server \<Rightarrow> bool" where
  "same_tables sv sv' \<longleftrightarrow> sv_records sv' = sv_records sv \<and> sv_game_results sv' = sv_game_results sv \<and>
     sv_progress sv' = sv_progress sv \<and> sv_rack_requests sv' = sv_rack_requests sv \<and>
     sv_game_requests sv' = sv_game_requests sv \<and> sv_leaves sv' = sv_leaves sv"

lemma same_tables_simps [simp]:
  "same_tables sv sv" "same_tables sv (sv\<lparr>sv_templates := tc\<rparr>)" "same_tables sv (sv\<lparr>sv_holds := h\<rparr>)"
  "same_tables sv (sv\<lparr>sv_db := db\<rparr>) = True"
  by (simp_all add: same_tables_def)

lemma same_tables_trans: "same_tables a b \<Longrightarrow> same_tables b c \<Longrightarrow> same_tables a c"
  by (simp add: same_tables_def)

text \<open>Storing a result leaves the claim path's tables alone.\<close>

lemma store_result_db:
  assumes "store_result sv template task_id claim_id decoded = Inr (sv', p)"
  shows "sv_db sv' = sv_db sv"
  using assms
  by (auto simp: store_result_def store_opening_racks_def store_games_def Let_def and_then_Inr
      split: decoded_result.splits job_kind.splits prod.splits)

lemma complete_submission_claims:
  assumes "complete_submission db c job_id p m skipped now = Inr db'"
  shows "db_claims db' = update_key c_id (c_id c) (complete_claim m skipped now) (db_claims db)"
  using assms by (auto simp: complete_submission_def Let_def and_then_Inr split: if_splits)

section \<open>What a transaction does\<close>

definition late :: "server \<Rightarrow> claim_row \<Rightarrow> nat \<Rightarrow> time \<Rightarrow> time \<Rightarrow> bool" where
  "late sv c job_id inst now \<longleftrightarrow>
     past_deadline now c \<and> fst (deadlines_enforced (sv_holds sv) (sv_reclaim_from sv) inst job_id)"

lemma submit_transaction_cases:
  assumes "submit_transaction sv identity body j template decoded movegens skipped inst now = (r, sv')"
  obtains (no_claim) "open_claim (sv_db sv) (rb_claim_token body) identity = None" "r = Inr False" "sv' = sv"
  | (failed) e where "r = Inl e" "sv_db sv' = sv_db sv" "same_tables sv sv'"
  | (late) c t where "open_claim (sv_db sv) (rb_claim_token body) identity = Some (c, t)" "r = Inr False"
      "late sv c (t_job_id t) inst now" "refuse_late (sv_db sv) c (t_job_id t) = Inr (sv_db sv')"
      "same_tables sv sv'"
  | (accepted) c t p where "open_claim (sv_db sv) (rb_claim_token body) identity = Some (c, t)" "r = Inr True"
      "\<not> late sv c (t_job_id t) inst now"
      "complete_submission (sv_db sv) c (t_job_id t) p movegens skipped now = Inr (sv_db sv')"
proof (cases "open_claim (sv_db sv) (rb_claim_token body) identity")
  case None
  with assms show ?thesis by (intro no_claim) (simp_all add: submit_transaction_def)
next
  case (Some ct)
  obtain c t where ct: "ct = (c, t)" by (cases ct)
  obtain enforced holds' where h: "(if past_deadline now c
      then deadlines_enforced (sv_holds sv) (sv_reclaim_from sv) inst (t_job_id t)
      else (False, sv_holds sv)) = (enforced, holds')" by (metis surj_pair)
  have l: "enforced = late sv c (t_job_id t) inst now"
    using h by (auto simp: late_def split: if_splits)
  note tr = assms [unfolded submit_transaction_def Some ct Let_def option.case prod.case h]
  show ?thesis
  proof (cases enforced)
    case True
    show ?thesis
    proof (cases "refuse_late (sv_db sv) c (t_job_id t)")
      case (Inl e)
      with tr True show ?thesis by (intro failed [of e]) auto
    next
      case (Inr db')
      with tr True have "r = Inr False" "sv' = sv\<lparr>sv_holds := holds', sv_db := db'\<rparr>" by auto
      with Inr True l Some ct show ?thesis by (intro late [of c t]) (simp_all add: same_tables_def)
    qed
  next
    case no: False
    show ?thesis
    proof (cases "t_job_id t = j_id j")
      case False
      with tr no show ?thesis by (intro failed) auto
    next
      case True
      show ?thesis
      proof (cases "store_result (sv\<lparr>sv_holds := holds'\<rparr>) template (c_task_id c) (c_id c) decoded")
        case (Inl e)
        with tr no True show ?thesis by (intro failed [of e]) auto
      next
        case (Inr sp)
        obtain sv2 p where sp: "sp = (sv2, p)" by (cases sp)
        have db2: "sv_db sv2 = sv_db sv" using store_result_db Inr sp by fastforce
        show ?thesis
        proof (cases "complete_submission (sv_db sv2) c (t_job_id t) p movegens skipped now")
          case (Inl e)
          with tr no True Inr sp show ?thesis by (intro failed [of e]) auto
        next
          case inr: (Inr db')
          with tr no True Inr sp have "r = Inr True" "sv' = sv2\<lparr>sv_db := db'\<rparr>" by auto
          with inr db2 Some ct no l show ?thesis by (intro accepted [of c t p]) auto
        qed
      qed
    qed
  qed
qed

lemma submit_checks_Inr:
  assumes "submit_checks sv serde j body inst = (Inr (template, decoded, m, skipped), tc)"
  shows "movegens_of (rb_movegens body) = Inr m" "derived_skipped_of (rb_derived_skipped body) = Inr skipped"
  using assms
  by (auto simp: submit_checks_def Let_def and_then_Inr split: if_splits sum.splits prod.splits)

lemma submit_result_cases:
  assumes "submit_result sv serde identity body inst now = (r, sv')"
  obtains (failed) e where "r = Inl e" "sv_db sv' = sv_db sv" "same_tables sv sv'"
  | (unknown) "r = Inr False" "sv_db sv' = sv_db sv" "same_tables sv sv'"
  | (late) c t where "open_claim (sv_db sv) (rb_claim_token body) identity = Some (c, t)" "r = Inr False"
      "late sv c (t_job_id t) inst now" "refuse_late (sv_db sv) c (t_job_id t) = Inr (sv_db sv')"
      "same_tables sv sv'"
  | (accepted) c t p m skipped where "open_claim (sv_db sv) (rb_claim_token body) identity = Some (c, t)"
      "r = Inr True" "movegens_of (rb_movegens body) = Inr m"
      "derived_skipped_of (rb_derived_skipped body) = Inr skipped"
      "complete_submission (sv_db sv) c (t_job_id t) p m skipped now = Inr (sv_db sv')"
proof -
  note sr = assms [unfolded submit_result_def]
  show ?thesis
  proof (cases "require_registered identity")
    case (Inl e)
    with sr show ?thesis by (intro failed [of e]) auto
  next
    case reg: (Inr u)
    show ?thesis
    proof (cases "open_claim (sv_db sv) (rb_claim_token body) identity")
      case None
      with sr reg show ?thesis by (intro unknown) auto
    next
      case oc: (Some ct)
      obtain c t where ct: "ct = (c, t)" by (cases ct)
      show ?thesis
      proof (cases "row_with j_id (t_job_id t) (db_jobs (sv_db sv))")
        case None
        with sr reg oc ct show ?thesis by (intro unknown) auto
      next
        case j: (Some j)
        obtain chk tc where chk: "submit_checks sv serde j body inst = (chk, tc)" by fastforce
        show ?thesis
        proof (cases chk)
          case (Inl e)
          with sr reg oc ct j chk show ?thesis by (intro failed [of e]) auto
        next
          case (Inr v)
          obtain template decoded m skipped where v: "v = (template, decoded, m, skipped)" by (metis surj_pair)
          let ?sv = "sv\<lparr>sv_templates := tc\<rparr>"
          have "submit_transaction ?sv identity body j template decoded m skipped inst now = (r, sv')"
            using sr reg oc ct j chk Inr v by simp
          then show ?thesis
          proof (cases rule: submit_transaction_cases)
            case no_claim
            with oc show ?thesis by simp
          next
            case (failed e)
            then show ?thesis by (intro that(1) [of e]) (simp_all add: same_tables_def)
          next
            case (late c' t')
            then show ?thesis by (intro that(3) [of c' t']) (simp_all add: same_tables_def late_def)
          next
            case (accepted c' t' p)
            then show ?thesis
              using submit_checks_Inr [OF chk [unfolded Inr v]] by (intro that(4) [of c' t' m skipped p]) simp_all
          qed
        qed
      qed
    qed
  qed
qed

section \<open>A submission to look at\<close>

definition sample_template :: job_template where
  "sample_template = \<lparr>jt_job_id = 1, jt_data = example_data, jt_expected = [],
     jt_kind = Kind_Games \<lparr>gc_player1_config_id = 1, gc_player2_config_id = 2, gc_games_per_batch = 10,
       gc_test_enabled = False, gc_min_games = 100, gc_max_games = 1000, gc_confidence_pct = Fin 95,
       gc_capture_positions = False, gc_threading_mode = []\<rparr> example_player example_player\<rparr>"

definition sample_server :: server where
  "sample_server = \<lparr>sv_db = example_claimed, sv_records = [], sv_game_results = [], sv_progress = [],
     sv_rack_requests = [], sv_game_requests = [], sv_leaves = finished_leaves,
     sv_catalogue = \<lparr>cat_input_data = [], cat_players = [], cat_opening_rack = [], cat_game = [],
       cat_game_pair = [], cat_leave = []\<rparr>,
     sv_templates = templates_new\<lparr>tc_loaded := [1 \<mapsto> sample_template]\<rparr>, sv_holds = holds_new,
     sv_reclaim_from = 0, sv_heartbeat_timeout = 60000000\<rparr>"

definition sample_serde :: serde where
  "sample_serde = \<lparr>parse_racks = (\<lambda>_. None),
     parse_games = (\<lambda>_. Some \<lparr>rs_all_games = counts 5 3 2, rs_pentanomial = None,
       rs_divergent_games = None, rs_positions = []\<rparr>), parse_leave = (\<lambda>_. None)\<rparr>"

definition sample_body :: result_body where
  "sample_body = \<lparr>rb_claim_token = 7, rb_result = lit ''result'', rb_movegens = Some (J_int 12),
     rb_derived_skipped = None\<rparr>"

lemma sample_aggregate:
  "check_game_aggregate (counts 5 3 2) = ok" "games (counts 5 3 2) = 10" "wins (counts 5 3 2) = 5"
  "losses (counts 5 3 2) = 3" "ties (counts 5 3 2) = 2"
  unfolding check_game_aggregate_iff by (rule counts_plausible) (simp_all add: counts_def)

lemma sample_decoded:
  "decode_result sample_serde sample_template payload = Inr (Decoded_Games \<lparr>rr_all_games = counts 5 3 2,
     rr_pentanomial = None, rr_divergent_games = None, rr_positions = []\<rparr>)"
proof -
  have gm: "process_games \<lparr>rs_all_games = counts 5 3 2, rs_pentanomial = None, rs_divergent_games = None,
      rs_positions = []\<rparr> = Inr \<lparr>rr_all_games = counts 5 3 2, rr_pentanomial = None,
      rr_divergent_games = None, rr_positions = []\<rparr>"
    by (simp add: process_games_def validate_aggregate_def is_consistent_def sample_aggregate validate_positions_def
      first_error.simps refuse_if_def)
  show ?thesis
    using gm
    by (simp add: decode_result_def sample_serde_def sample_template_def decode_def ok_or_def check_batch_size_def
      games_dispatched_def refuse_uncaptured_positions_def check_analyses_against_players_def sample_aggregate
      first_error.simps refuse_if_def check_each_def)
qed

lemma sample_checks:
  "submit_checks sample_server sample_serde j sample_body inst =
     (Inr (sample_template, Decoded_Games \<lparr>rr_all_games = counts 5 3 2, rr_pentanomial = None,
        rr_divergent_games = None, rr_positions = []\<rparr>, 12, None), sv_templates sample_server)"
  if "j_id j = 1"
proof -
  have nul: "refuse_nul (lit ''result'') = ok" by code_simp
  show ?thesis
    using nul that sample_decoded
    by (simp add: submit_checks_def sample_server_def sample_body_def claims_held_def holds_new_def
      movegens_of_def in_i64_def derived_skipped_of_def get_or_load_def templates_get_def i64_max_def)
qed

definition sample_accepted :: server where
  "sample_accepted = sample_server\<lparr>sv_db := example_done,
     sv_game_results := [game_result_of 1 10 20 \<lparr>rr_all_games = counts 5 3 2, rr_pentanomial = None,
       rr_divergent_games = None, rr_positions = []\<rparr>]\<rparr>"

lemma sample_submission:
  "submit_result sample_server sample_serde (User 5 9) sample_body 0 5000000 = (Inr True, sample_accepted)"
proof -
  have "row_with j_id 1 (db_jobs example_claimed) = Some (issue_to_job [example_job] example_standing True 0 example_job)"
    by (simp add: example_claimed_def row_with_def)
  moreover have "\<not> past_deadline 5000000 example_claim"
    by (simp add: past_deadline_def example_claim_def new_claim_def DEADLINE_GRACE_def)
  ultimately show ?thesis
    using example_open example_completes sample_checks [of "issue_to_job [example_job] example_standing True 0 example_job" 0]
    by (simp add: submit_result_def submit_transaction_def sample_body_def sample_server_def sample_accepted_def
      sample_template_def Let_def store_result_def store_games_def insert_game_results_def sample_aggregate)
qed

section \<open>Claims\<close>



text \<open>C17: A result counts once.  After a submission is accepted its claim is completed, under the identity
  that submitted it, and whatever is sent with its token again, by whom and with what payload, is
  neither accepted nor changes anything at all.\<close>

theorem accepted_submissions_settle_once:
  assumes "dispatch_reachable (sv_db sv)" "distinct (map c_claim_token (db_claims (sv_db sv)))"
    "submit_result sv serde identity body inst now = (Inr True, sv')"
    "rb_claim_token again = rb_claim_token body"
  shows "(\<exists>c\<in>set (db_claims (sv_db sv')). c_claim_token c = rb_claim_token body \<and>
      c_state c = C_completed \<and> c_claimed_by c = owner_of identity \<and> c_completed_at c = Some now) \<and>
    fst (submit_result sv' serde' other again inst' now') \<noteq> Inr True \<and>
    snd (submit_result sv' serde' other again inst' now') = sv'"
proof -
  let ?tok = "rb_claim_token body" and ?db = "sv_db sv" and ?db' = "sv_db sv'"
  note ok = books_reachable [OF assms(1)]
  from assms(3) obtain c t p m skipped where oc: "open_claim ?db ?tok identity = Some (c, t)"
    and cs: "complete_submission ?db c (t_job_id t) p m skipped now = Inr ?db'"
    by (rule submit_result_cases) auto
  note C = open_claimD [OF oc]
  have cl: "db_claims ?db' = update_key c_id (c_id c) (complete_claim m skipped now) (db_claims ?db)"
    by (rule complete_submission_claims [OF cs])
  have only: "d = c" if "d \<in> set (db_claims ?db)" "c_id d = c_id c \<or> c_claim_token d = ?tok" for d
    using that distinct_map_inj_eq [OF keysD(3) [OF ok] that(1) C(1)]
      distinct_map_inj_eq [OF assms(2) that(1) C(1)] C(3) by auto
  have new: "c_claim_token (complete_claim m skipped now c) = ?tok"
    "c_completed_at (complete_claim m skipped now c) = Some now"
    by (simp_all add: complete_claim_def C(3))
  have done_c: "complete_claim m skipped now c \<in> set (db_claims ?db')"
    using C(1) by (auto simp: cl claims.in_upd)
  have "c_state d = C_completed" if d: "d \<in> set (db_claims ?db')" "c_claim_token d = ?tok" for d
    using d(1) unfolding cl claims.in_upd
  proof (elim disjE bexE conjE)
    show "c_state d = C_completed" if "d \<in> set (db_claims ?db)" "c_id d \<noteq> c_id c"
      using only [OF that(1)] that(2) d(2) by simp
    show "c_state d = C_completed" if "d = complete_claim m skipped now e" for e
      by (simp add: that)
  qed
  then have closed: "open_claim ?db' ?tok x = None" for x
    by (auto simp: open_claim_def claim_of_def find_Some_iff split: option.splits)
  have "submit_result sv' serde' other again inst' now' = (Inr False, sv') \<or>
      (\<exists>e. submit_result sv' serde' other again inst' now' = (Inl e, sv'))"
    unfolding submit_result_def assms(4) closed by (simp split: sum.splits)
  then show ?thesis using done_c new C(4) by (metis complete_claim_simps(4,5) fst_conv snd_conv sum.distinct(1) sum.inject(2))
qed

theorem accepted_submissions_settle_once_witness:
  "snd (submit_result sample_accepted sample_serde (User 5 9) sample_body 0 6000000) = sample_accepted \<and>
   fst (submit_result sample_accepted sample_serde (User 5 9) sample_body 0 6000000) \<noteq> Inr True"
proof -
  have "dispatch_reachable (sv_db sample_server)" "distinct (map c_claim_token (db_claims (sv_db sample_server)))"
    by (simp_all add: sample_server_def example_claimed_reachable) (simp add: example_claimed_def)
  from accepted_submissions_settle_once [OF this sample_submission refl]
  show ?thesis by blast
qed

end
