(* ===== verification/Dispatch_Spec.thy ===== *)
theory Dispatch_Spec
  imports Dispatch Shares_Spec Submit_Spec
begin

text \<open>
  What a worker that is handed a task holds: an open claim of its own, the only one on its task, of a
  job that is active, not held, and one the worker says it can run.
\<close>

section \<open>A task that is out\<close>

definition out_to :: "server \<Rightarrow> worker_identity \<Rightarrow> task_claim \<Rightarrow> bool" where
  "out_to sv identity tc \<longleftrightarrow>
     (\<exists>c\<in>set (db_claims (sv_db sv)). c_claim_token c = tk_claim_token tc \<and> c_state c = C_claimed \<and>
        c_claimed_by c = owner_of identity \<and> c_job_id c = tk_job_id tc \<and>
        limit_secs c = tk_max_task_seconds tc \<and>
        (\<forall>d\<in>set (db_claims (sv_db sv)). c_task_id d = c_task_id c \<and> holds_slot d \<longrightarrow> d = c) \<and>
        (\<forall>t\<in>set (db_tasks (sv_db sv)). t_id t = c_task_id c \<longrightarrow> t_state t = T_claimed)) \<and>
     (\<exists>j\<in>set (db_jobs (sv_db sv)). j_id j = tk_job_id tc \<and> j_status j = Active) \<and>
     \<not> is_held (sv_holds sv) (tk_job_id tc)"

lemma out_to_cong:
  assumes "out_to sv identity tc" "db_claims (sv_db sv') = db_claims (sv_db sv)"
    "db_tasks (sv_db sv') = db_tasks (sv_db sv)"
    "map (\<lambda>j. (j_id j, j_status j)) (db_jobs (sv_db sv')) = map (\<lambda>j. (j_id j, j_status j)) (db_jobs (sv_db sv))"
    "sv_holds sv' = sv_holds sv"
  shows "out_to sv' identity tc"
proof -
  obtain j where j: "j \<in> set (db_jobs (sv_db sv))" "j_id j = tk_job_id tc" "j_status j = Active"
    using assms(1) by (auto simp: out_to_def)
  then have "(tk_job_id tc, Active) \<in> set (map (\<lambda>j. (j_id j, j_status j)) (db_jobs (sv_db sv)))" by force
  then have "(tk_job_id tc, Active) \<in> set (map (\<lambda>j. (j_id j, j_status j)) (db_jobs (sv_db sv')))"
    by (simp only: assms(4))
  then have "\<exists>j\<in>set (db_jobs (sv_db sv')). j_id j = tk_job_id tc \<and> j_status j = Active" by auto
  then show ?thesis using assms(1,2,3,5) by (simp add: out_to_def)
qed

section \<open>Decisions leave the holds alone\<close>

lemma insert_task_holds: "insert_task sv job_id seed dw = Inr sv' \<Longrightarrow> sv_holds sv' = sv_holds sv"
  by (auto simp: insert_task_def and_then_Inr with_db_def)

lemma generate_holds:
  assumes "generate cf sv j identity template dw = Inr (sv', d)"
  shows "sv_holds sv' = sv_holds sv"
proof (cases "j_job_type j")
  case OpeningRack
  with assms show ?thesis
    by (auto simp: generate_def generate_opening_rack_def and_then_Inr dest!: insert_task_holds
      split: job_kind.splits option.splits prod.splits)
next
  case Games
  with assms show ?thesis
    by (auto simp: generate_def generate_games_def and_then_Inr dest!: insert_task_holds
      split: job_kind.splits option.splits prod.splits)
next
  case GamePairs
  with assms show ?thesis
    by (auto simp: generate_def generate_game_pairs_def and_then_Inr dest!: insert_task_holds
      split: job_kind.splits option.splits prod.splits)
next
  case LeaveGeneration
  have step: "dispatch_step_of sv1 j config dw st = Inr (sv', d) \<Longrightarrow> sv_holds sv' = sv_holds sv1"
    for sv1 config st
    by (auto simp: dispatch_step_of_def and_then_Inr Let_def dest!: insert_task_holds split: leave_gen_step.splits)
  from LeaveGeneration assms show ?thesis
    by (auto simp: generate_def generate_leave_gen_def Let_def and_then_Inr dest!: step
      split: job_kind.splits option.splits prod.splits if_splits)
qed

lemma acquire_holds:
  "acquire cf sv j identity template dw = Inr (sv', d) \<Longrightarrow> sv_holds sv' = sv_holds sv"
  by (auto simp: acquire_def and_then_Inr dest: generate_holds split: if_splits option.splits)

section \<open>Issuing\<close>

lemma issue_out:
  assumes i: "issue cf dp sv identity j caps standing template derived task_id request created dw =
      (dp', Inr (Some tc))"
    and free: "\<not> is_held (sv_holds sv) (j_id j)"
  shows "out_to (dp_server dp') identity tc \<and> tk_job_id tc = j_id j \<and>
    tk_min_magpie_version tc = show_version (min_magpie_version j)"
proof (cases "issue_claim (sv_db sv) identity (j_id j) caps task_id created standing (dw_claim_id dw)
    (dw_claim_token dw) (dw_now dw)")
  case (Inl e)
  with i show ?thesis by (simp add: issue_def)
next
  case (Inr opt)
  with i obtain db token secs where opt: "opt = Some (db, token, secs)"
    by (cases opt) (auto simp: issue_def)
  note ic = Inr [unfolded opt]
  from i have tc: "tk_job_id tc = j_id j" "tk_claim_token tc = token" "tk_max_task_seconds tc = secs"
    "tk_min_magpie_version tc = show_version (min_magpie_version j)"
    by (auto simp: issue_def ic)
  have "dp_server (request_tail_merge (dp\<lparr>dp_server := with_db db sv\<rparr>) (j_id j) template request created (dw_inst dw)) =
      with_db db sv"
    by (auto simp: request_tail_merge_def spawn_def Let_def split: task_request.splits job_kind.splits prod.splits)
  with i have sv': "dp_server dp' = with_db db sv" by (auto simp: issue_def ic)
  obtain i where row: "row_with j_id (j_id j) (db_jobs (sv_db sv)) = Some i" "j_status i = Active"
    and none: "\<forall>c\<in>set (db_claims (sv_db sv)). c_task_id c = task_id \<longrightarrow> \<not> holds_slot c"
    and cs: "db_claims db = db_claims (sv_db sv) @ [new_claim (dw_claim_id dw) task_id (j_id j) (dw_claim_token dw)
      (owner_of identity) (show_version (cap_magpie_version caps)) (j_max_task_seconds i) (dw_now dw)]"
    and ts: "db_tasks db = update_key t_id task_id occupy (db_tasks (sv_db sv))"
    and js: "db_jobs db = update_key j_id (j_id j)
      (issue_to_job (db_jobs (sv_db sv)) standing created (dw_now dw)) (db_jobs (sv_db sv))"
    and s: "secs = j_max_task_seconds i" "token = dw_claim_token dw"
    by (rule issue_claimD [OF ic]) (rule that)
  let ?c = "new_claim (dw_claim_id dw) task_id (j_id j) (dw_claim_token dw)
      (owner_of identity) (show_version (cap_magpie_version caps)) (j_max_task_seconds i) (dw_now dw)"
  have lim: "limit_secs ?c = secs"
    by (auto simp: limit_secs_def new_claim_def round_div_def s)
  have only: "\<forall>d\<in>set (db_claims db). c_task_id d = c_task_id ?c \<and> holds_slot d \<longrightarrow> d = ?c"
    using none by (auto simp: cs)
  have task: "\<forall>t\<in>set (db_tasks db). t_id t = c_task_id ?c \<longrightarrow> t_state t = T_claimed"
  proof (intro ballI impI)
    fix t assume "t \<in> set (db_tasks db)" "t_id t = c_task_id ?c"
    then have t: "t \<in> set (update_key t_id task_id occupy (db_tasks (sv_db sv)))" "t_id t = task_id"
      by (simp_all only: ts new_claim_simps)
    then obtain u where "t = occupy u" unfolding tasks.in_upd by (elim disjE bexE conjE) simp_all
    then show "t_state t = T_claimed" by simp
  qed
  have "issue_to_job (db_jobs (sv_db sv)) standing created (dw_now dw) i \<in> set (db_jobs db)"
    using jobs.row_Some [OF row(1)] by (auto simp: js jobs.in_upd)
  then have job: "\<exists>k\<in>set (db_jobs db). j_id k = j_id j \<and> j_status k = Active"
    using jobs.row_Some [OF row(1)] row(2) by (intro bexI) simp_all
  have "\<exists>c\<in>set (db_claims db). c_claim_token c = token \<and> c_state c = C_claimed \<and>
      c_claimed_by c = owner_of identity \<and> c_job_id c = j_id j \<and> limit_secs c = secs \<and>
      (\<forall>d\<in>set (db_claims db). c_task_id d = c_task_id c \<and> holds_slot d \<longrightarrow> d = c) \<and>
      (\<forall>t\<in>set (db_tasks db). t_id t = c_task_id c \<longrightarrow> t_state t = T_claimed)"
    using lim only task s by (intro bexI [of _ ?c]) (simp_all add: cs)
  then have "out_to (with_db db sv) identity tc"
    using job free by (simp add: out_to_def with_db_def tc)
  then show ?thesis by (simp add: sv' tc)
qed

lemma carry_out_out:
  assumes "carry_out cf dp identity j caps standing template derived dw (sv, d) = (dp', Inr (Some tc))"
    "\<not> is_held (sv_holds sv) (j_id j)"
  shows "out_to (dp_server dp') identity tc \<and> tk_job_id tc = j_id j \<and>
    tk_min_magpie_version tc = show_version (min_magpie_version j)"
proof (cases d)
  case (Acq_Task task_id request created)
  with assms(1) have "issue cf dp sv identity j caps standing template derived task_id request created dw =
      (dp', Inr (Some tc))"
    by (simp add: carry_out_def Let_def)
  from issue_out [OF this assms(2)] show ?thesis .
qed (use assms(1) in \<open>simp_all add: carry_out_def Let_def\<close>)

lemma claim_under_turn_out:
  assumes "claim_under_turn cf dp identity j caps standing template derived dw = (dp', Inr (Some tc))"
    "\<not> is_held (sv_holds (dp_server dp)) (j_id j)"
  shows "out_to (dp_server dp') identity tc \<and> tk_job_id tc = j_id j \<and>
    tk_min_magpie_version tc = show_version (min_magpie_version j)"
proof (cases "acquire cf (dp_server dp) j identity template dw")
  case (Inl e)
  with assms(1) show ?thesis by (simp add: claim_under_turn_def)
next
  case (Inr decision)
  obtain sv d where d: "decision = (sv, d)" by (cases decision)
  have "\<not> is_held (sv_holds sv) (j_id j)"
    using acquire_holds [OF Inr [unfolded d]] assms(2) by simp
  moreover have "carry_out cf dp identity j caps standing template derived dw (sv, d) = (dp', Inr (Some tc))"
    using assms(1) Inr d by (simp add: claim_under_turn_def)
  ultimately show ?thesis by (intro carry_out_out)
qed

lemma look_up_holds: "look_up cf dp j dw = (dp', r) \<Longrightarrow> sv_holds (dp_server dp') = sv_holds (dp_server dp)"
  by (auto simp: look_up_def Let_def split: sum.splits prod.splits option.splits)

lemma try_claim_out:
  assumes t: "try_claim_from_job cf dp identity j caps standing dw = (dp', Inr (Some tc))"
  shows "out_to (dp_server dp') identity tc \<and> tk_job_id tc = j_id j \<and>
    tk_min_magpie_version tc = show_version (min_magpie_version j)"
proof -
  let ?sv = "dp_server dp"
  have free: "\<not> is_held (sv_holds ?sv) (j_id j)"
    using t by (auto simp: try_claim_from_job_def)
  obtain failed tc0 where f: "(if templates_get (sv_templates ?sv) (j_id j) = None
      then recently_failed (sv_templates ?sv) (dw_inst dw) (j_id j) else (False, sv_templates ?sv)) = (failed, tc0)"
    by fastforce
  let ?dp0 = "dp\<lparr>dp_server := ?sv\<lparr>sv_templates := tc0\<rparr>\<rparr>"
  obtain dp1 r where l: "look_up cf ?dp0 j dw = (dp1, r)" by fastforce
  have free1: "\<not> is_held (sv_holds (dp_server dp1)) (j_id j)"
    using look_up_holds [OF l] free by simp
  from t free have "\<exists>derived template.
      claim_under_turn cf dp1 identity j caps standing template derived dw = (dp', Inr (Some tc))"
    unfolding try_claim_from_job_def Let_def f l if_not_P [OF free] prod.case
    by (auto split: if_splits sum.splits option.splits bool.splits; blast)
  then show ?thesis using claim_under_turn_out [OF _ free1] by blast
qed

section \<open>The walk and the rounds\<close>

lemma lift_after_out: "out_to (dp_server dp) identity tc \<Longrightarrow> out_to (dp_server (lift_after dp passed j locked)) identity tc"
  by (erule out_to_cong)
    (simp_all add: lift_after_def Let_def with_db_def lift_after_claim_def lift_passed_over_def
      map_update_where split: option.splits)

lemma walk_out:
  assumes "walk_jobs cf identity caps rn jobs last_round is dp busy passed_over lost = (dp', Round_task tc)"
  shows "out_to (dp_server dp') identity tc \<and> (\<exists>i\<in>set is. tk_job_id tc = j_id (jobs ! i) \<and>
    tk_min_magpie_version tc = show_version (min_magpie_version (jobs ! i)))"
  using assms
proof (induction "is" arbitrary: dp busy passed_over lost)
  case (Cons i "is")
  let ?j = "jobs ! i"
  let ?dp0 = "dp\<lparr>dp_server := rn_commits rn i (dp_server dp)\<rparr>"
  let ?st = "standing_for ?dp0 jobs last_round i passed_over busy (dw_inst (rn_tries rn i))"
  show ?case
  proof (cases "j_id ?j \<in> set busy")
    case True
    with Cons show ?thesis by (simp add: Let_def)
  next
    case False
    obtain dp1 r where t: "try_claim_from_job cf ?dp0 identity ?j caps ?st (rn_tries rn i) = (dp1, r)" by fastforce
    note w = Cons.prems [unfolded walk_jobs.simps Let_def if_not_P [OF False] t prod.case]
    show ?thesis
    proof (cases r)
      case (Inr opt)
      show ?thesis
      proof (cases opt)
        case None
        with w Inr Cons.IH show ?thesis by fastforce
      next
        case (Some c)
        with w Inr have "dp' = lift_after dp1 passed_over ?j (rn_locked_jobs rn)" "c = tc" by auto
        with try_claim_out [OF t [unfolded Inr Some]] lift_after_out show ?thesis by auto
      qed
    next
      case (Inl e)
      with w Cons.IH show ?thesis by (cases e) fastforce+
    qed
  qed
qed simp

lemma before_walk_subset: "before_walk dp jobs rn = (dp1, jobs1) \<Longrightarrow> set jobs1 \<subseteq> set jobs"
  by (auto simp: before_walk_def Let_def split: prod.splits)

lemma rounds_out:
  assumes "claim_rounds cf identity caps rounds dp busy = (dp', Handed tc)"
  shows "out_to (dp_server dp') identity tc \<and> tk_job_id tc \<notin> set (cap_unsupported_jobs caps) \<and>
    (\<exists>v. tk_min_magpie_version tc = show_version v \<and> v \<le> cap_magpie_version caps)"
  using assms
proof (induction rounds arbitrary: dp busy)
  case (Cons rn rounds)
  let ?jobs = "candidate_jobs (db_jobs (sv_db (dp_server dp))) caps"
  obtain dp1 jobs1 where b: "before_walk dp ?jobs rn = (dp1, jobs1)" by fastforce
  have ne1: "?jobs \<noteq> []"
    using Cons.prems by (auto simp: nobody_def)
  have ne2: "jobs1 \<noteq> []"
    using Cons.prems [unfolded claim_rounds.simps Let_def if_not_P [OF ne1] b prod.case]
    by (auto simp: nobody_def)
  note ne = ne1 ne2
  obtain dp2 e where w: "walk_jobs cf identity caps rn jobs1 (rounds = []) [0..<length jobs1] dp1 busy [] False = (dp2, e)"
    by fastforce
  note r = Cons.prems [unfolded claim_rounds.simps Let_def if_not_P [OF ne(1)] b prod.case if_not_P [OF ne(2)] w]
  show ?case
  proof (cases e)
    case (Round_task c)
    with r have "dp' = dp2" "c = tc" by auto
    with walk_out [OF w [unfolded Round_task]] obtain i where i: "i < length jobs1"
      "tk_job_id tc = j_id (jobs1 ! i)" "tk_min_magpie_version tc = show_version (min_magpie_version (jobs1 ! i))"
      and out: "out_to (dp_server dp') identity tc"
      by auto
    have "jobs1 ! i \<in> set ?jobs" using before_walk_subset [OF b] i(1) nth_mem by blast
    then have "is_candidate caps (jobs1 ! i)" by (simp add: set_candidates)
    with i out show ?thesis by (auto simp: is_candidate_def)
  next
    case (Round_over busy' again)
    with r Cons.IH show ?thesis by (auto split: if_splits)
  qed
qed simp

section \<open>A claim to look at\<close>

definition sample_dispatcher :: dispatcher where
  "sample_dispatcher = \<lparr>dp_server = sample_server\<lparr>sv_db := example_joined\<rparr>, dp_derived_rows = [],
     dp_derived_ready = [1 \<mapsto> []], dp_finish_checks = \<lparr>fc_submissions = Map.empty, fc_idle = Map.empty\<rparr>,
     dp_tail_merges = Map.empty, dp_recently_busy = Map.empty, dp_building = [], dp_spawned = []\<rparr>"

definition sample_settings :: settings where
  "sample_settings = \<lparr>cf_builders = \<lparr>bd_build_target = [], bd_wmp_builder_version = 1,
     bd_rit_builder_version = 1, bd_klv_builder_version = 1, bd_wit_builder_version = 1\<rparr>,
     cf_collate = id, cf_min_magpie_version = [], cf_download_url = [], cf_simple_uuid = (\<lambda>_. [])\<rparr>"

definition sample_draws :: try_draws where
  "sample_draws = \<lparr>dw_task_id = 10, dw_claim_id = 20, dw_claim_token = 7, dw_seed = 0, dw_lock = True,
     dw_locked_tasks = [], dw_now = 0, dw_inst = 0\<rparr>"

definition sample_round :: round_draws where
  "sample_round = \<lparr>rn_now = 0, rn_inst = 0, rn_locked_claims = [], rn_busy_jobs = [], rn_locked_jobs = [],
     rn_tries = (\<lambda>_. sample_draws), rn_commits = (\<lambda>_ sv. sv)\<rparr>"

lemma sample_issue:
  "issue_claim (example_joined\<lparr>db_tasks := [new_task 10 1 1 0]\<rparr>) (User 5 9) 1 example_caps 10 True
     standing 20 7 0 = Inr (Some (example_joined\<lparr>db_tasks := [occupy (new_task 10 1 1 0)],
       db_claims := [example_claim], db_jobs := [issue_to_job [example_job] standing True 0 example_job]\<rparr>, 7, 3600))"
proof -
  have "limit_secs (new_claim 20 10 1 7 (By_user 5) (show_version (Version 0 1 3)) 3600 0) = 3600"
    by (simp add: limit_secs_def new_claim_def round_div_def)
  then show ?thesis
    by (simp add: issue_claim_def fetch_one_def ok_or_def example_joined_def no_jobs_def row_with_def
      example_claim_def register_def update_key_def example_caps_def Let_def)
qed

lemma sample_draws_fields:
  "dw_task_id sample_draws = 10" "dw_claim_id sample_draws = 20" "dw_claim_token sample_draws = 7"
  "dw_lock sample_draws = True" "dw_now sample_draws = 0" "dw_inst sample_draws = 0"
  by (simp_all add: sample_draws_def)

lemma sample_acquire:
  assumes "sv_db sv = example_joined"
  obtains request rows where "acquire sample_settings sv example_job (User 5 9) sample_template sample_draws =
    Inr (sv\<lparr>sv_db := example_joined\<lparr>db_tasks := [new_task 10 1 1 0]\<rparr>, sv_game_requests := rows\<rparr>,
      Acq_Task 10 request True)"
proof -
  obtain request where r: "next_games_request [] \<lparr>gc_player1_config_id = 1, gc_player2_config_id = 2,
      gc_games_per_batch = 10, gc_test_enabled = False, gc_min_games = 100, gc_max_games = 1000,
      gc_confidence_pct = Fin 95, gc_capture_positions = False, gc_threading_mode = []\<rparr> example_data
      example_player example_player = Some (1, request)"
    by (auto simp: next_games_request_def next_seed_def max_of_def past_the_cap_def Let_def)
  have t: "db_tasks example_joined = []" by (simp add: example_joined_def no_jobs_def)
  have ty: "j_job_type example_job = Games" by (simp add: example_job_def)
  from r show ?thesis
    by (intro that) (simp add: acquire_def sample_draws_def ty assms next_available_def t generate_def generate_games_def
      sample_template_def job_seeds_def insert_task_def insert_on_demand_task_def with_db_def)
qed

lemma sample_try:
  assumes "st_rivals st = []" "st_busy_rivals st = []"
  shows "\<exists>dp' tc. try_claim_from_job sample_settings sample_dispatcher (User 5 9) example_job example_caps st
    sample_draws = (dp', Inr (Some tc))"
proof -
  let ?dp = "sample_dispatcher"
  have sv: "sv_db (dp_server ?dp) = example_joined" "sv_holds (dp_server ?dp) = holds_new"
    "sv_templates (dp_server ?dp) = templates_new\<lparr>tc_loaded := [1 \<mapsto> sample_template]\<rparr>"
    by (simp_all add: sample_dispatcher_def sample_server_def)
  have cache: "dp_derived_ready ?dp = [1 \<mapsto> []]" by (simp add: sample_dispatcher_def)
  have free: "\<not> is_held (sv_holds (dp_server ?dp)) (j_id example_job)"
    by (simp add: sv is_held_def holds_new_def)
  have tp: "templates_get (templates_new\<lparr>tc_loaded := [1 \<mapsto> sample_template]\<rparr>) 1 = Some sample_template"
    by (simp add: templates_get_def)
  have look: "look_up sample_settings (?dp\<lparr>dp_server := (dp_server ?dp)\<lparr>sv_templates :=
      templates_new\<lparr>tc_loaded := [1 \<mapsto> sample_template]\<rparr>\<rparr>\<rparr>) example_job sample_draws =
      (?dp, Inr (Some ([], sample_template)))"
    using tp sv(3) cache
    by (simp add: look_up_def ready_for_job_def get_or_load_def Let_def)
  obtain request rows where acq: "acquire sample_settings (dp_server ?dp) example_job (User 5 9) sample_template
      sample_draws = Inr ((dp_server ?dp)\<lparr>sv_db := example_joined\<lparr>db_tasks := [new_task 10 1 1 0]\<rparr>,
      sv_game_requests := rows\<rparr>, Acq_Task 10 request True)"
    by (rule sample_acquire [OF sv(1)])
  have "\<exists>dp' tc. claim_under_turn sample_settings ?dp (User 5 9) example_job example_caps st sample_template [] sample_draws =
      (dp', Inr (Some tc))"
    using sample_issue [of st]
    by (simp add: claim_under_turn_def acq carry_out_def issue_def sample_draws_fields)
  then show ?thesis
    using free assms tp look
    by (simp add: try_claim_from_job_def sv Let_def)
qed

lemma sample_claimed:
  "\<exists>dp' tc. claim sample_settings (User 5 9) example_caps (\<lambda>_. sample_round) sample_dispatcher = (dp', Handed tc)"
proof -
  have jobs: "candidate_jobs (db_jobs (sv_db (dp_server sample_dispatcher))) example_caps = [example_job]"
    by (simp add: candidate_jobs_def sample_dispatcher_def example_joined_def no_jobs_def is_candidate_def
      offered_def example_caps_def min_magpie_version_def) (simp add: example_job_def less_eq_version_def)
  have db: "sv_db (dp_server sample_dispatcher) = example_joined"
    by (simp add: sample_dispatcher_def)
  have before: "before_walk sample_dispatcher [example_job] sample_round = (sample_dispatcher, [example_job])"
    by (simp add: before_walk_def reclaim_lapsed_def reclaimable_def sample_round_def sample_dispatcher_def
      sample_server_def holds_new_def reclaim_expired_for_def example_joined_def no_jobs_def count_overruns_def
      update_where_def Let_def)
  have same: "sample_dispatcher\<lparr>dp_server := rn_commits sample_round 0 (dp_server sample_dispatcher)\<rparr> = sample_dispatcher"
    by (simp add: sample_round_def)
  let ?st = "standing_for sample_dispatcher [example_job] False 0 [] [] 0"
  have "st_rivals ?st = []" "st_busy_rivals ?st = []"
    by (simp_all add: standing_for_def rivals_of_def)
  from sample_try [OF this] obtain dp1 tc where t: "try_claim_from_job sample_settings sample_dispatcher (User 5 9)
      example_job example_caps ?st sample_draws = (dp1, Inr (Some tc))" by blast
  have tries: "rn_tries sample_round 0 = sample_draws" "dw_inst sample_draws = 0"
    by (simp_all add: sample_round_def sample_draws_def)
  have walk: "walk_jobs sample_settings (User 5 9) example_caps sample_round [example_job] False [0] sample_dispatcher
      [] [] False = (lift_after dp1 [] example_job (rn_locked_jobs sample_round), Round_task tc)"
    using t by (simp add: same tries)
  have rounds: "map (\<lambda>_. sample_round) [0..<CLAIM_ROUNDS] = sample_round # replicate 7 sample_round"
    by (simp add: CLAIM_ROUNDS_def map_replicate_const numeral_eq_Suc)
  have floor: "floor_shutdown (parse_or_zero (cf_min_magpie_version sample_settings)) (cf_download_url sample_settings)
      example_caps = None"
    by (simp add: floor_shutdown_def sample_settings_def example_caps_def) code_simp
  show ?thesis
    using walk by (simp add: claim_def floor rounds jobs before)
qed

section \<open>Claims\<close>



end
