(* ===== verification/Results_Spec.thy ===== *)
theory Results_Spec
  imports Submit_Spec
begin

text \<open>
  The constraints the schema puts on the rows a result is stored as (\<open>game_results\<close>,
  \<open>position_analysis_records\<close>, their moves, plies and inferences), and that a result the decoder lets
  through satisfies every one of them, so that storing it fails on none.
\<close>

section \<open>The constraints of the tables\<close>

definition game_result_checks :: "game_result_row \<Rightarrow> bool" where
  "game_result_checks g \<longleftrightarrow>
     list_all in_i32 [gs_games g, gs_wins g, gs_losses g, gs_ties g] \<and>
     gs_games g \<ge> 0 \<and> gs_wins g \<ge> 0 \<and> gs_losses g \<ge> 0 \<and> gs_ties g \<ge> 0 \<and>
     gs_wins g + gs_losses g + gs_ties g = gs_games g \<and>
     (case gs_pent g of
        None \<Rightarrow> True
      | Some pent \<Rightarrow> length pent = 5 \<and> list_all in_i32 pent \<and> list_all (\<lambda>n. n \<ge> 0) pent \<and>
          (pent ! 0 + pent ! 1 + pent ! 2 + pent ! 3 + pent ! 4) * 2 = gs_games g \<and>
          pent ! 1 + 2 * pent ! 2 + 3 * pent ! 3 + 4 * pent ! 4 = 2 * gs_wins g + gs_ties g \<and>
          0 \<le> gs_ties g - pent ! 1 - pent ! 3 \<and> gs_ties g - pent ! 1 - pent ! 3 \<le> 2 * pent ! 2 \<and>
          (gs_ties g - pent ! 1 - pent ! 3) mod 2 = 0) \<and>
     (case (gs_divergent_games g, gs_divergent_wins g, gs_divergent_losses g, gs_divergent_ties g,
            gs_divergent_p1_score_mean g, gs_divergent_p2_score_mean g) of
        (None, None, None, None, None, None) \<Rightarrow> True
      | (Some n, Some w, Some l, Some t, Some m1, Some m2) \<Rightarrow>
          list_all in_i32 [n, w, l, t] \<and> n \<ge> 0 \<and> w \<ge> 0 \<and> l \<ge> 0 \<and> t \<ge> 0 \<and> w + l + t = n \<and> n \<le> gs_games g
      | _ \<Rightarrow> False)"

definition move_row_checks :: "move_row \<Rightarrow> bool" where
  "move_row_checks m \<longleftrightarrow> in_i16 (mv_rank m) \<and>
     (case mv_iterations m of None \<Rightarrow> True | Some n \<Rightarrow> n \<ge> 0) \<and> distinct (map py_ply (mv_plies m))"

definition inference_checks :: "inference_summary \<Rightarrow> bool" where
  "inference_checks i \<longleftrightarrow> is_num_leaves i \<ge> 0 \<and> is_total_draws i \<ge> 0 \<and> length (is_leaves i) \<le> 10"

definition record_checks :: "record_row \<Rightarrow> bool" where
  "record_checks r \<longleftrightarrow>
     rc_analysis r \<in> {lit ''static'', lit ''sim'', lit ''peg'', lit ''endgame''} \<and>
     (rc_game_index r = None \<longleftrightarrow> rc_turn_number r = None) \<and>
     (rc_played_move r = None \<longleftrightarrow> rc_game_index r = None) \<and>
     (rc_played_move_score r = None \<longleftrightarrow> rc_played_move r = None) \<and>
     (case rc_game_index r of None \<Rightarrow> True | Some n \<Rightarrow> in_i16 n) \<and>
     (case rc_turn_number r of None \<Rightarrow> True | Some n \<Rightarrow> in_i16 n) \<and>
     list_all move_row_checks (rc_moves r) \<and>
     (case rc_inference r of None \<Rightarrow> True | Some i \<Rightarrow> inference_checks i)"

section \<open>The types of a response\<close>

text \<open>
  What \<open>serde\<close>'s decoder guarantees of a response: the fields are values of their Rust types.
\<close>

definition response_typed :: "game_results_response \<Rightarrow> bool" where
  "response_typed resp \<longleftrightarrow> games (rs_all_games resp) \<le> i32_max \<and>
     pred_option (\<lambda>p. length p = 5) (rs_pentanomial resp) \<and>
     list_all (\<lambda>p. in_i16 (cp_game_index p) \<and> position_fits p) (rs_positions resp)"

section \<open>Records\<close>

lemma kept_moves_checks:
  assumes "list_all move_ok (pa_moves p)"
  shows "list_all move_row_checks (stored_moves caps p)"
proof -
  obtain top_moves top_plies where caps: "caps_of caps p = (top_moves, top_plies)" by fastforce
  let ?kept = "nat (max 0 (min i16_max top_moves))"
  have "move_row_checks (move_row_of top_plies (rank, m))"
    if "(rank, m) \<in> set (enumerate 0 (take ?kept (pa_moves p)))" for rank m
  proof -
    from that have rank: "rank < ?kept" and m: "m \<in> set (pa_moves p)"
      by (auto simp: in_set_enumerate_eq dest: in_set_takeD)
    from m assms have ok: "move_ok m" by (auto simp: list_all_iff)
    have "distinct (map ply (me_plies m))"
      using ok by (simp add: move_ok_def plies_ok_def strict_sorted_iff)
    then have "distinct (map ply (filter (\<lambda>q. ply q < top_plies) (me_plies m)))"
      by (rule distinct_map_filter)
    with ok rank show ?thesis
      by (auto simp: move_row_checks_def move_row_of_def move_ok_def in_i16_def i16_max_def comp_def
          split: option.splits)
  qed
  then show ?thesis
    by (auto simp: stored_moves_def caps Let_def list_all_iff)
qed

lemma game_record_checks:
  assumes "position_ok n p" "in_i16 (cp_game_index p)"
  shows "record_checks (record_of job_id task_id claim_id caps (row_of p (analysis_of p)))"
proof -
  have "list_all move_row_checks (stored_moves caps (row_of p (analysis_of p)))"
    by (rule kept_moves_checks) (use assms(1) in \<open>simp add: position_ok_def row_of_def\<close>)
  moreover have "in_i16 (cp_turn_number p)"
    using assms(1) by (simp add: position_ok_def in_i16_def i16_max_def)
  moreover have "analysis_as_str a \<in> {lit ''static'', lit ''sim'', lit ''peg'', lit ''endgame''}" for a
    by (cases a) simp_all
  moreover have "case cp_inference p of None \<Rightarrow> True | Some i \<Rightarrow> inference_checks i"
    using assms(1)
    by (auto simp: position_ok_def inference_ok_def inference_checks_def MAX_INFERRED_LEAVES_def split: option.splits)
  ultimately show ?thesis
    using assms(2) by (simp add: record_checks_def record_of_def row_of_def)
qed

lemma rack_record_checks:
  assumes "list_all move_ok moves"
  shows "record_checks (record_of job_id task_id claim_id caps (opening_rack_position rack moves n))"
proof -
  have "list_all move_row_checks (stored_moves caps (opening_rack_position rack moves n))"
    by (rule kept_moves_checks) (use assms in \<open>simp add: opening_rack_position_def\<close>)
  then show ?thesis by (simp add: record_checks_def record_of_def opening_rack_position_def)
qed

section \<open>Counts\<close>

lemma pentanomial_checks:
  assumes c: "is_consistent all" "games all \<le> i32_max" and len: "length pent = 5"
    and ok: "check_pentanomial all pent = ok"
  shows "map as_i32 pent = pent \<and> list_all in_i32 pent \<and> list_all (\<lambda>n. n \<ge> 0) pent \<and>
    (pent ! 0 + pent ! 1 + pent ! 2 + pent ! 3 + pent ! 4) * 2 = games all \<and>
    pent ! 1 + 2 * pent ! 2 + 3 * pent ! 3 + 4 * pent ! 4 = 2 * wins all + ties all \<and>
    0 \<le> ties all - pent ! 1 - pent ! 3 \<and> ties all - pent ! 1 - pent ! 3 \<le> 2 * pent ! 2 \<and>
    (ties all - pent ! 1 - pent ! 3) mod 2 = 0"
proof -
  obtain p0 p1 p2 p3 p4 where pent: "pent = [p0, p1, p2, p3, p4]"
    using len by (auto simp: length_Suc_conv numeral_eq_Suc)
  from ok obtain d where *: "\<forall>p\<in>{p0, p1, p2, p3, p4}. 0 \<le> p \<and> p \<le> games all"
      "2 * (p0 + p1 + p2 + p3 + p4) = games all"
      "p1 + 2 * p2 + 3 * p3 + 4 * p4 = 2 * wins all + ties all"
      "ties all = p1 + p3 + 2 * d" "0 \<le> d" "d \<le> p2"
    unfolding pent check_pentanomial_equations [OF c] by blast
  have fit: "in_i32 p" if "p \<in> {p0, p1, p2, p3, p4}" for p
    using *(1) that c(2) by (force simp: in_i32_def i32_max_def)
  then have "as_i32 p = p" if "p \<in> {p0, p1, p2, p3, p4}" for p
    using that by (intro as_i32_id) blast
  with * fit show ?thesis by (simp add: pent)
qed

lemma consistent_checks:
  assumes "is_consistent a" "games a \<le> i32_max"
  shows "list_all in_i32 [games a, wins a, losses a, ties a] \<and> games a \<ge> 0 \<and> wins a \<ge> 0 \<and>
    losses a \<ge> 0 \<and> ties a \<ge> 0 \<and> wins a + losses a + ties a = games a"
  using assms by (auto simp: is_consistent_def in_i32_def i32_max_def)

lemma processed_games_checks:
  assumes "response_typed resp" "process_games resp = Inr rr"
  shows "game_result_checks (game_result_of job_id task_id claim_id rr) \<and>
    list_all (\<lambda>p. record_checks (record_of job_id task_id claim_id caps p)) (rr_positions rr)"
proof -
  from assms(2) obtain ps where a: "is_consistent (rs_all_games resp)"
    and ps: "validate_positions (rs_positions resp) (games (rs_all_games resp)) = Inr ps"
    and rr: "rr = \<lparr>rr_all_games = rs_all_games resp, rr_pentanomial = None, rr_divergent_games = None,
      rr_positions = ps\<rparr>"
    by (auto simp: process_games_def and_then_check_Inr and_then_Inr validate_aggregate_iff)
  have "list_all position_fits (rs_positions resp)"
    using assms(1) by (auto simp: response_typed_def list_all_iff)
  from validate_positions_iff [OF this] ps
  have "list_all (position_ok (games (rs_all_games resp))) (rs_positions resp)"
    "ps = map (\<lambda>p. row_of p (analysis_of p)) (rs_positions resp)" by auto
  then have "list_all (\<lambda>p. record_checks (record_of job_id task_id claim_id caps p)) ps"
    using assms(1) game_record_checks by (auto simp: response_typed_def list_all_iff)
  moreover have "game_result_checks (game_result_of job_id task_id claim_id rr)"
    using consistent_checks [OF a] assms(1)
    by (simp add: rr game_result_checks_def game_result_of_def Let_def response_typed_def)
  ultimately show ?thesis by (simp add: rr)
qed

lemma processed_pairs_checks:
  assumes "response_typed resp" "process_game_pairs resp = Inr rr"
  shows "game_result_checks (game_result_of job_id task_id claim_id rr) \<and>
    gs_pent (game_result_of job_id task_id claim_id rr) = rs_pentanomial resp \<and>
    list_all (\<lambda>p. record_checks (record_of job_id task_id claim_id caps p)) (rr_positions rr)"
proof -
  let ?all = "rs_all_games resp"
  from assms(2) obtain ps pent where a: "is_consistent ?all" and p: "rs_pentanomial resp = Some pent"
    and pok: "check_pentanomial ?all pent = ok"
    and dok: "check_opt (check_divergent ?all pent) (rs_divergent_games resp) = ok"
    and ps: "validate_positions (rs_positions resp) (games ?all) = Inr ps"
    and rr: "rr = \<lparr>rr_all_games = ?all, rr_pentanomial = Some pent,
      rr_divergent_games = rs_divergent_games resp, rr_positions = ps\<rparr>"
    by (auto simp: process_game_pairs_def Let_def and_then_check_Inr and_then_Inr validate_aggregate_iff ok_or_def
        split: option.splits)
  have len: "length pent = 5" and g: "games ?all \<le> i32_max"
    using assms(1) p by (auto simp: response_typed_def)
  have "list_all position_fits (rs_positions resp)"
    using assms(1) by (auto simp: response_typed_def list_all_iff)
  from validate_positions_iff [OF this] ps
  have "list_all (position_ok (games ?all)) (rs_positions resp)"
    "ps = map (\<lambda>p. row_of p (analysis_of p)) (rs_positions resp)" by auto
  then have recs: "list_all (\<lambda>p. record_checks (record_of job_id task_id claim_id caps p)) ps"
    using assms(1) game_record_checks by (auto simp: response_typed_def list_all_iff)
  have div: "is_consistent dv \<and> games dv \<le> games ?all" if "rs_divergent_games resp = Some dv" for dv
    using dok that by (auto simp: check_divergent_def validate_aggregate_iff)
  note pent = pentanomial_checks [OF a g len pok]
  have "game_result_checks (game_result_of job_id task_id claim_id rr)"
  proof (cases "rs_divergent_games resp")
    case None
    then show ?thesis
      using consistent_checks [OF a g] pent len
      by (simp add: rr game_result_checks_def game_result_of_def Let_def)
  next
    case (Some dv)
    have "games dv \<le> i32_max" using div [OF Some] g by simp
    from consistent_checks [OF conjunct1 [OF div [OF Some]] this] show ?thesis
      using consistent_checks [OF a g] pent len Some div [OF Some]
      by (simp add: rr game_result_checks_def game_result_of_def Let_def)
  qed
  then show ?thesis
    using pent recs by (simp add: rr p game_result_of_def Let_def)
qed

section \<open>Claims\<close>

text \<open>C18: What the decoder accepts fits the tables.  With a payload read as values of the response's types,
  every row a decoded result is stored as satisfies every constraint of its table: the counts of a games
  or pairs result and of its divergent subset add up and fit their columns, the pentanomial is stored
  as it was reported (no narrowing wraps) and agrees with the counts on pairs, points and draws; every
  analysis is one of the four kinds, with its game, turn and played move all there or all missing, its
  kept moves ranked within a \<open>SMALLINT\<close>, no ply of a move twice, and at most ten inferred leaves.\<close>

theorem accepted_results_fit_their_tables:
  assumes "\<forall>payload resp. parse_games serde payload = Some resp \<longrightarrow> response_typed resp"
    and "decode_result serde template payload = Inr decoded"
  shows "case decoded of
      Decoded_OpeningRack ps \<Rightarrow> list_all (\<lambda>p. record_checks (record_of job_id task_id claim_id caps p)) ps
    | Decoded_Games rr \<Rightarrow> game_result_checks (game_result_of job_id task_id claim_id rr) \<and>
        list_all (\<lambda>p. record_checks (record_of job_id task_id claim_id caps p)) (rr_positions rr)
    | Decoded_GamePairs rr \<Rightarrow> game_result_checks (game_result_of job_id task_id claim_id rr) \<and>
        gs_pent (game_result_of job_id task_id claim_id rr) = rr_pentanomial rr \<and>
        list_all (\<lambda>p. record_checks (record_of job_id task_id claim_id caps p)) (rr_positions rr)
    | Decoded_LeaveGeneration racks \<Rightarrow> True"
proof (cases "jt_kind template")
  case (Kind_OpeningRack config player index)
  from assms(2) obtain response ps where p: "process_opening_racks response = Inr ps"
    and d: "decoded = Decoded_OpeningRack ps"
    by (auto simp: decode_result_def Kind_OpeningRack and_then_Inr and_then_check_Inr)
  from p have "list_all (\<lambda>p. record_checks (record_of job_id task_id claim_id caps p)) ps"
    by (auto simp: process_opening_racks_def Let_def and_then_check_Inr check_each_def first_error_ok
      check_moves_iff list_all_iff intro!: rack_record_checks)
  then show ?thesis by (simp add: d)
next
  case (Kind_Games config player1 player2)
  from assms(2) obtain resp rr where p: "parse_games serde payload = Some resp" "process_games resp = Inr rr"
    and d: "decoded = Decoded_Games rr"
    by (auto simp: decode_result_def Kind_Games and_then_Inr and_then_check_Inr decode_def ok_or_def
      split: option.splits)
  have "response_typed resp" using assms(1) p(1) by blast
  from processed_games_checks [OF this p(2)] show ?thesis by (simp add: d)
next
  case (Kind_GamePairs config player1 player2)
  from assms(2) obtain resp rr where p: "parse_games serde payload = Some resp" "process_game_pairs resp = Inr rr"
    and d: "decoded = Decoded_GamePairs rr"
    by (auto simp: decode_result_def Kind_GamePairs and_then_Inr and_then_check_Inr decode_def ok_or_def
      split: option.splits)
  have "response_typed resp" using assms(1) p(1) by blast
  moreover have "rs_pentanomial resp = rr_pentanomial rr"
    using p(2) by (auto simp: process_game_pairs_def Let_def and_then_check_Inr and_then_Inr ok_or_def split: option.splits)
  ultimately show ?thesis using processed_pairs_checks [OF _ p(2)] by (simp add: d)
next
  case (Kind_LeaveGeneration config player)
  from assms(2) obtain racks where "decoded = Decoded_LeaveGeneration racks"
    by (auto simp: decode_result_def Kind_LeaveGeneration and_then_Inr and_then_check_Inr)
  then show ?thesis by simp
qed

theorem accepted_results_fit_their_tables_witness:
  "game_result_checks (game_result_of 1 10 20 \<lparr>rr_all_games = counts 5 3 2, rr_pentanomial = None,
     rr_divergent_games = None, rr_positions = []\<rparr>)"
proof -
  have "\<forall>payload resp. parse_games sample_serde payload = Some resp \<longrightarrow> response_typed resp"
    by (auto simp: sample_serde_def response_typed_def sample_aggregate i32_max_def)
  from accepted_results_fit_their_tables [OF this sample_decoded, of 1 10 20]
  show ?thesis by simp
qed

end
