(* ===== verification/Derived_Spec.thy ===== *)
theory Derived_Spec
  imports Derived Books
begin

text \<open>
  What a claim states of a job's derived files, and the queue they are built from: in any interleaving
  of requests, builds, retries and claims, a file that was built stays built as it was, so what a claim
  states, from memory or freshly read, is what the table holds.
\<close>

section \<open>The steps\<close>

inductive derived_step ::
  "builders \<Rightarrow> catalogue \<Rightarrow> job_row list \<Rightarrow> derived_row list \<times> derived_cache \<Rightarrow> derived_row list \<times> derived_cache \<Rightarrow> bool"
  for b cat jobs where
  requested: "request_for_job b cat jobs job_id now rows = Inr (rows', n) \<Longrightarrow>
    derived_step b cat jobs (rows, cache) (rows', cache)"
| claimed: "ready_for_job b cat jobs job_id now rows cache = Inr (rows', cache', ready) \<Longrightarrow>
    derived_step b cat jobs (rows, cache) (rows', cache')"
| taken: "take_next b now locked rows = (rows', l) \<Longrightarrow> derived_step b cat jobs (rows, cache) (rows', cache)"
| recorded: "derived_step b cat jobs (rows, cache) (record_outcome b l outcome now rows, cache)"
| retried: "retry_derived_data b key rows = Inr rows' \<Longrightarrow> derived_step b cat jobs (rows, cache) (rows', cache)"
| forgotten: "derived_step b cat jobs (rows, cache) (rows, forget_derived cache job_id)"

inductive derived_reachable ::
  "builders \<Rightarrow> catalogue \<Rightarrow> job_row list \<Rightarrow> derived_row list \<times> derived_cache \<Rightarrow> bool" for b cat jobs where
  start: "derived_reachable b cat jobs ([], Map.empty)"
| step: "derived_reachable b cat jobs s \<Longrightarrow> derived_step b cat jobs s s' \<Longrightarrow> derived_reachable b cat jobs s'"

section \<open>The invariant\<close>

definition derived_ok :: "derived_row \<Rightarrow> bool" where
  "derived_ok d \<longleftrightarrow> 0 \<le> dd_attempts d \<and> dd_attempts d \<le> 3 \<and>
     (dd_state d = Build_building \<longrightarrow> dd_leased_until d \<noteq> None) \<and>
     (dd_state d = Build_built \<longrightarrow> dd_sha256 d \<noteq> None \<and> dd_bytes d \<noteq> None \<and> dd_build_target d \<noteq> None)"

text \<open>What is fixed of a row: its key, and once it is built what was built.\<close>

definition stays :: "derived_row \<Rightarrow> derived_row \<Rightarrow> bool" where
  "stays d d' \<longleftrightarrow> derived_key d' = derived_key d \<and> (dd_state d = Build_built \<longrightarrow> d' = d)"

definition builds_on :: "derived_row list \<Rightarrow> derived_row list \<Rightarrow> bool" where
  "builds_on rows rows' \<longleftrightarrow> list_all derived_ok rows' \<and> distinct (map derived_key rows') \<and>
     (\<forall>d\<in>set rows. dd_state d = Build_built \<longrightarrow> d \<in> set rows')"

text \<open>The entry a claim states of a need.\<close>

definition states_built :: "builders \<Rightarrow> derived_row list \<Rightarrow> derived_need \<Rightarrow> expected_derived \<Rightarrow> bool" where
  "states_built b rows n e \<longleftrightarrow> (\<exists>d\<in>set rows. dd_state d = Build_built \<and>
     Inr (ed_builder e) = for_role b (dn_role n) \<and> derived_key d = need_key n (ed_builder e) \<and>
     ed_role e = dn_role n \<and> ed_name e = dn_name n \<and> dd_sha256 d = Some (ed_sha256 e) \<and>
     dd_build_target d = Some (ed_build_target e) \<and> dd_bytes d = Some (ed_bytes e))"

definition cache_ok :: "builders \<Rightarrow> catalogue \<Rightarrow> job_row list \<Rightarrow> derived_row list \<times> derived_cache \<Rightarrow> bool" where
  "cache_ok b cat jobs s \<longleftrightarrow> list_all derived_ok (fst s) \<and> distinct (map derived_key (fst s)) \<and>
     (\<forall>job_id ready. snd s job_id = Some ready \<longrightarrow>
        list_all2 (states_built b (fst s)) (needs_for_job cat jobs job_id) ready)"

lemma states_built_mono:
  "builds_on rows rows' \<Longrightarrow> states_built b rows n e \<Longrightarrow> states_built b rows' n e"
  by (auto simp: builds_on_def states_built_def)

lemma cache_ok_builds:
  assumes "cache_ok b cat jobs (rows, cache)" "builds_on rows rows'"
  shows "cache_ok b cat jobs (rows', cache)"
proof -
  have "list_all2 (states_built b rows') (needs_for_job cat jobs i) ready" if "cache i = Some ready" for i ready
  proof -
    have "list_all2 (states_built b rows) (needs_for_job cat jobs i) ready"
      using assms(1) that by (simp add: cache_ok_def)
    then show ?thesis by (rule list_all2_mono) (rule states_built_mono [OF assms(2)])
  qed
  then show ?thesis using assms(2) by (simp add: cache_ok_def builds_on_def)
qed

section \<open>The operations\<close>

lemma builds_on_update:
  assumes ok: "list_all derived_ok rows" "distinct (map derived_key rows)"
    and f: "\<And>d. d \<in> set rows \<Longrightarrow> P d \<Longrightarrow> derived_ok d \<Longrightarrow> derived_ok (f d) \<and> derived_key (f d) = derived_key d \<and>
      dd_state d \<noteq> Build_built"
  shows "builds_on rows (update_where P f rows)"
proof -
  have "map derived_key (update_where P f rows) = map derived_key rows"
    using f ok(1) by (simp add: update_where_def list_all_iff)
  moreover have "list_all derived_ok (update_where P f rows)"
    using f ok(1) by (auto simp: set_update_where list_all_iff)
  moreover have "\<forall>d\<in>set rows. dd_state d = Build_built \<longrightarrow> d \<in> set (update_where P f rows)"
  proof (intro ballI impI)
    fix d assume d: "d \<in> set rows" "dd_state d = Build_built"
    then have "\<not> P d" using f [OF d(1)] ok(1) by (auto simp: list_all_iff)
    with d(1) show "d \<in> set (update_where P f rows)" by (force simp: set_update_where)
  qed
  ultimately show ?thesis using ok(2) by (simp add: builds_on_def)
qed

lemma builds_on_trans: "builds_on a b \<Longrightarrow> builds_on b c \<Longrightarrow> builds_on a c"
  by (auto simp: builds_on_def)

lemma request_builds:
  assumes "request_needs b now ns rows = Inr (rows', n)" "list_all derived_ok rows" "distinct (map derived_key rows)"
  shows "builds_on rows rows'"
  using assms
proof (induction ns arbitrary: rows n)
  case Nil
  then show ?case by (simp add: builds_on_def)
next
  case (Cons m ns)
  from Cons.prems(1) obtain builder where b: "for_role b (dn_role m) = Inr builder"
    by (auto simp: and_then_Inr)
  show ?case
  proof (cases "row_with derived_key (need_key m builder) rows")
    case None
    let ?new = "new_derived m builder now"
    have key: "derived_key ?new = need_key m builder"
      by (simp add: derived_key_def need_key_def new_derived_def)
    have fresh: "derived_key ?new \<notin> derived_key ` set rows"
      using None by (simp only: row_with_None key not_False_eq_True)
    from Cons.prems(1) b None obtain k where "request_needs b now ns (rows @ [?new]) = Inr (rows', k)"
      by (auto simp: and_then_Inr)
    from Cons.IH [OF this] Cons.prems(2,3) fresh have "builds_on (rows @ [?new]) rows'"
      by (simp add: derived_ok_def new_derived_def)
    then show ?thesis by (simp add: builds_on_def)
  next
    case (Some d)
    with Cons.prems(1) b have "request_needs b now ns rows = Inr (rows', n)" by simp
    from Cons.IH [OF this Cons.prems(2,3)] show ?thesis .
  qed
qed

lemma take_builds:
  assumes t: "take_next b now locked rows = (rows', l)" and ok: "list_all derived_ok rows" "distinct (map derived_key rows)"
  shows "builds_on rows rows'"
proof -
  let ?r1 = "fail_dead_builds now rows"
  have one: "builds_on rows ?r1"
    unfolding fail_dead_builds_def by (rule builds_on_update [OF ok]) (simp add: derived_ok_def derived_key_def)
  note ok1 = one [unfolded builds_on_def, THEN conjunct1] one [unfolded builds_on_def, THEN conjunct2, THEN conjunct1]
  show ?thesis
  proof (cases "sort_key dd_requested_at (filter (\<lambda>d. may_build b now d \<and> derived_key d \<notin> set locked) ?r1)")
    case Nil
    with t one show ?thesis by (simp add: take_next_def Let_def)
  next
    case (Cons d ds)
    have "d \<in> set (sort_key dd_requested_at (filter (\<lambda>d. may_build b now d \<and> derived_key d \<notin> set locked) ?r1))"
      unfolding Cons by simp
    then have d: "d \<in> set ?r1" "may_build b now d" by simp_all
    have only: "e = d" if "e \<in> set ?r1" "derived_key e = derived_key d" for e
      using distinct_map_inj_eq [OF ok1(2) that(1) d(1)] that(2) by simp
    have "builds_on ?r1 (update_where (\<lambda>e. derived_key e = derived_key d) (take_row now) ?r1)"
    proof (rule builds_on_update [OF ok1])
      fix e assume e: "e \<in> set ?r1" "derived_key e = derived_key d" "derived_ok e"
      have "e = d" by (rule only [OF e(1,2)])
      with d(2) e(3) show "derived_ok (take_row now e) \<and> derived_key (take_row now e) = derived_key e \<and>
          dd_state e \<noteq> Build_built"
        by (auto simp: may_build_def derived_ok_def take_row_def derived_key_def MAX_ATTEMPTS_def)
    qed
    with t Cons show ?thesis
      by (auto simp: take_next_def Let_def update_key_def intro: builds_on_trans [OF one])
  qed
qed

lemma record_builds:
  assumes ok: "list_all derived_ok rows" "distinct (map derived_key rows)"
  shows "builds_on rows (record_outcome b l outcome now rows)"
  unfolding record_outcome_def
proof (rule builds_on_update [OF ok])
  fix d assume "under_lease l d" "derived_ok d"
  then show "derived_ok ((case outcome of Inl e \<Rightarrow> record_failure ''the build failed'' now
      | Inr (sha256, bytes) \<Rightarrow> record_built b sha256 bytes now) d) \<and>
    derived_key ((case outcome of Inl e \<Rightarrow> record_failure ''the build failed'' now
      | Inr (sha256, bytes) \<Rightarrow> record_built b sha256 bytes now) d) = derived_key d \<and> dd_state d \<noteq> Build_built"
    by (cases outcome)
      (auto simp: under_lease_def derived_ok_def record_failure_def record_built_def derived_key_def split: prod.splits)
qed

lemma retry_builds:
  assumes "retry_derived_data b key rows = Inr rows'" "list_all derived_ok rows" "distinct (map derived_key rows)"
  shows "builds_on rows rows'"
proof -
  from assms(1) have "rows' = update_where (may_retry b key) (\<lambda>d. d\<lparr>dd_state := Build_pending, dd_attempts := 0,
      dd_error := None, dd_leased_until := None\<rparr>) rows"
    by (auto simp: retry_derived_data_def split: if_splits)
  then show ?thesis
    by (simp only:) (rule builds_on_update [OF assms(2,3)],
      simp add: may_retry_def derived_ok_def derived_key_def)
qed

section \<open>What a status says\<close>

lemma for_role_sql: "sql_builder b role = Some builder \<longleftrightarrow> for_role b role = Inr builder"
  by (simp add: sql_builder_def split: sum.splits)

lemma expected_states_built:
  assumes "row_for b rows n = Some d" "dd_state d = Build_built" "derived_ok d" "expected_of b n d = Inr e"
  shows "states_built b rows n e"
proof -
  from assms(1) obtain builder where b: "for_role b (dn_role n) = Inr builder"
    and r: "row_with derived_key (need_key n builder) rows = Some d"
    by (auto simp: row_for_def for_role_sql split: option.splits)
  from row_with_Some [OF r] have d: "d \<in> set rows" "derived_key d = need_key n builder" by auto
  from assms(2,3) obtain h y t where f: "dd_sha256 d = Some h" "dd_bytes d = Some y" "dd_build_target d = Some t"
    by (auto simp: derived_ok_def)
  from assms(4) have e: "e = \<lparr>ed_role = dn_role n, ed_name = dn_name n, ed_sha256 = h, ed_builder = builder,
      ed_build_target = t, ed_bytes = y\<rparr>"
    by (simp add: expected_of_def b f fetch_one_def ok_or_def)
  show ?thesis
    unfolding states_built_def by (rule bexI [OF _ d(1)]) (simp add: e b d(2) f assms(2))
qed

lemma status_from_pending:
  "status_from b rows ns s = Inr s' \<Longrightarrow> ds_pending s' = [] \<Longrightarrow> ds_pending s = []"
  "status_from b rows ns s = Inr s' \<Longrightarrow> ds_failed s' = [] \<Longrightarrow> ds_failed s = []"
  by (induction ns arbitrary: s)
    (auto simp: and_then_Inr split: option.splits derived_state.splits, fastforce+)

lemma status_from_ready:
  assumes "status_from b rows ns s = Inr s'" "dispatchable s'" "list_all derived_ok rows"
  shows "\<exists>es. ds_ready s' = ds_ready s @ es \<and> list_all2 (states_built b rows) ns es"
  using assms(1)
proof (induction ns arbitrary: s)
  case (Cons n ns)
  have none: "ds_pending s' = []" "ds_failed s' = []" using assms(2) by (simp_all add: dispatchable_def)
  show ?case
  proof (cases "row_for b rows n")
    case None
    with Cons.prems have "status_from b rows ns (s\<lparr>ds_unrequested := ds_unrequested s + 1,
        ds_pending := ds_pending s @ [label_of n]\<rparr>) = Inr s'" by simp
    from status_from_pending(1) [OF this none(1)] show ?thesis by simp
  next
    case (Some d)
    have dok: "derived_ok d"
      using Some assms(3) row_with_Some by (fastforce simp: row_for_def list_all_iff split: option.splits)
    show ?thesis
    proof (cases "dd_state d")
      case Build_built
      with Cons.prems Some obtain e where e: "expected_of b n d = Inr e"
        and r: "status_from b rows ns (s\<lparr>ds_ready := ds_ready s @ [e]\<rparr>) = Inr s'"
        by (auto simp: and_then_Inr)
      from Cons.IH [OF r] expected_states_built [OF Some Build_built dok e] show ?thesis by auto
    next
      case Build_failed
      with Cons.prems Some have "status_from b rows ns (s\<lparr>ds_failed := ds_failed s @ [label_of n]\<rparr>) = Inr s'" by simp
      from status_from_pending(2) [OF this none(2)] show ?thesis by simp
    next
      case Build_pending
      with Cons.prems Some have "status_from b rows ns (s\<lparr>ds_pending := ds_pending s @ [label_of n]\<rparr>) = Inr s'" by simp
      from status_from_pending(1) [OF this none(1)] show ?thesis by simp
    next
      case Build_building
      with Cons.prems Some have "status_from b rows ns (s\<lparr>ds_pending := ds_pending s @ [label_of n]\<rparr>) = Inr s'" by simp
      from status_from_pending(1) [OF this none(1)] show ?thesis by simp
    qed
  qed
qed simp

lemma ready_states_built:
  assumes r: "ready_for_job b cat jobs job_id now rows cache = Inr (rows', cache', ready)"
    and ok: "cache_ok b cat jobs (rows, cache)"
  shows "cache_ok b cat jobs (rows', cache')"
    "ready = Some es \<Longrightarrow> list_all2 (states_built b rows') (needs_for_job cat jobs job_id) es"
proof -
  have rows: "list_all derived_ok rows" "distinct (map derived_key rows)" using ok by (simp_all add: cache_ok_def)
  have "cache_ok b cat jobs (rows', cache') \<and>
      (ready = Some es \<longrightarrow> list_all2 (states_built b rows') (needs_for_job cat jobs job_id) es)"
  proof (cases "cache job_id")
    case (Some ready0)
    with r ok show ?thesis by (auto simp: ready_for_job_def cache_ok_def)
  next
    case None
    with r obtain status where s: "status_for_job b cat jobs rows job_id = Inr status"
      and rows': "(if ds_unrequested status > 0
          then and_then (request_for_job b cat jobs job_id now rows) (\<lambda>(rows', requested). Inr rows')
          else Inr rows) = Inr rows'"
      and out: "(if dispatchable status
          then Inr (rows', remember cache job_id (ds_ready status), Some (ds_ready status))
          else Inr (rows', cache, None)) = (Inr (rows', cache', ready) :: (_ \<times> _ \<times> _) app_result)"
      by (auto simp: ready_for_job_def and_then_Inr split: if_splits)
    have b: "builds_on rows rows'"
    proof (cases "ds_unrequested status > 0")
      case True
      with rows' obtain n where "request_for_job b cat jobs job_id now rows = Inr (rows', n)"
        by (auto simp: and_then_Inr)
      then show ?thesis unfolding request_for_job_def by (rule request_builds [OF _ rows])
    next
      case False
      with rows' rows show ?thesis by (simp add: builds_on_def)
    qed
    have c: "cache_ok b cat jobs (rows', cache)" by (rule cache_ok_builds [OF ok b])
    show ?thesis
    proof (cases "dispatchable status")
      case True
      from status_from_ready [OF s [unfolded status_for_job_def] True rows(1)]
      have "list_all2 (states_built b rows) (needs_for_job cat jobs job_id) (ds_ready status)"
        by (simp add: no_status_def)
      then have new: "list_all2 (states_built b rows') (needs_for_job cat jobs job_id) (ds_ready status)"
        by (rule list_all2_mono) (rule states_built_mono [OF b])
      from out True have "cache' = remember cache job_id (ds_ready status)" "ready = Some (ds_ready status)" by simp_all
      with c new show ?thesis by (auto simp: cache_ok_def remember_def)
    next
      case False
      with out c show ?thesis by simp
    qed
  qed
  then show "cache_ok b cat jobs (rows', cache')"
    "ready = Some es \<Longrightarrow> list_all2 (states_built b rows') (needs_for_job cat jobs job_id) es" by blast+
qed

lemma cache_ok_step: "derived_step b cat jobs s s' \<Longrightarrow> cache_ok b cat jobs s \<Longrightarrow> cache_ok b cat jobs s'"
proof (induction rule: derived_step.induct)
  case (requested job_id now rows rows' n cache)
  have "builds_on rows rows'"
    by (rule request_builds [OF requested(1) [unfolded request_for_job_def]])
      (use requested(2) in \<open>simp_all add: cache_ok_def\<close>)
  with requested(2) show ?case by (rule cache_ok_builds)
next
  case (claimed job_id now rows cache rows' cache' ready)
  then show ?case by (rule ready_states_built(1))
next
  case (taken now locked rows rows' l cache)
  have "builds_on rows rows'"
    by (rule take_builds [OF taken(1)]) (use taken(2) in \<open>simp_all add: cache_ok_def\<close>)
  with taken(2) show ?case by (rule cache_ok_builds)
next
  case (recorded rows cache l outcome now)
  have "builds_on rows (record_outcome b l outcome now rows)"
    by (rule record_builds) (use recorded in \<open>simp_all add: cache_ok_def\<close>)
  with recorded show ?case by (rule cache_ok_builds)
next
  case (retried key rows rows' cache)
  have "builds_on rows rows'"
    by (rule retry_builds [OF retried(1)]) (use retried(2) in \<open>simp_all add: cache_ok_def\<close>)
  with retried(2) show ?case by (rule cache_ok_builds)
next
  case (forgotten rows cache job_id)
  then show ?case by (auto simp: cache_ok_def forget_derived_def split: if_splits)
qed

lemma cache_ok_reachable: "derived_reachable b cat jobs s \<Longrightarrow> cache_ok b cat jobs s"
  by (induction rule: derived_reachable.induct) (simp add: cache_ok_def, rule cache_ok_step)

section \<open>A build to look at\<close>

definition sample_config :: player_config where
  "sample_config = \<lparr>pc_id = 1, pc_name = [], pc_recorder_type = [], pc_sort_strategy = [], pc_kwg_id = 3,
     pc_klv_id = 4, pc_winpct_id = None, pc_cloned_from_id = None, pc_max_iterations = None, pc_num_plies = 0,
     pc_num_plies_recorded = 0, pc_num_plays = 1, pc_num_plays_recorded = 1, pc_stopping_pct = None,
     pc_use_inference = None, pc_time_limit_secs = None, pc_movegens_per_move = None, pc_use_wordmap = True,
     pc_use_rit = False, pc_use_wit = False, pc_min_play_iterations = None, pc_threshold = None,
     pc_sampling_rule = None, pc_inference_margin = None, pc_utility_w_winpct = None,
     pc_utility_w_spread = None, pc_utility_spread_scale = None, pc_movegen_margin = Fin 0,
     pc_endgame_plies = 0, pc_peg_max_bag = 0, pc_peg_stage_top_k = None, pc_peg_scenario_stride = None,
     pc_peg_opp_model = None, pc_peg_nested = None, pc_peg_nested_cand_caps = None,
     pc_peg_nested_max_depth = None, pc_peg_nested_strides = None, pc_created_by = None, pc_created_at = 0\<rparr>"

definition sample_catalogue :: catalogue where
  "sample_catalogue = \<lparr>cat_input_data = [], cat_players = [\<lparr>n_config = sample_config, n_kwg_name = lit ''NWL'',
     n_klv_name = lit ''NWL'', n_winpct_name = None\<rparr>], cat_opening_rack = [],
     cat_game = [(1, \<lparr>gc_player1_config_id = 1, gc_player2_config_id = 1, gc_games_per_batch = 10,
       gc_test_enabled = False, gc_min_games = 100, gc_max_games = 1000, gc_confidence_pct = Fin 95,
       gc_capture_positions = False, gc_threading_mode = []\<rparr>)], cat_game_pair = [], cat_leave = []\<rparr>"

definition sample_builders :: builders where
  "sample_builders = \<lparr>bd_build_target = lit ''x'', bd_wmp_builder_version = 1, bd_rit_builder_version = 1,
     bd_klv_builder_version = 1, bd_wit_builder_version = 1\<rparr>"

definition sample_need :: derived_need where
  "sample_need = \<lparr>dn_role = lit ''wmp'', dn_name = lit ''NWL'', dn_kwg_id = 3, dn_klv_id = None, dn_letterdist_id = 0\<rparr>"

definition sample_built :: derived_row where
  "sample_built = record_built sample_builders (lit ''hash'') 5 2
     (take_row 1 (new_derived sample_need (builder_wmp sample_builders) 0))"

lemma sample_needs: "needs_for_job sample_catalogue [example_job] 1 = [sample_need]"
  by (simp add: needs_for_job_def row_with_def job_wants_def job_players_def sample_catalogue_def wants_needs_def
    sample_config_def sample_need_def) (simp add: example_job_def)

lemma sample_role: "for_role sample_builders (dn_role sample_need) = Inr (builder_wmp sample_builders)"
  by (simp add: for_role_def sample_need_def)

lemma sample_built_reachable:
  "derived_reachable sample_builders sample_catalogue [example_job] ([sample_built], Map.empty)"
proof -
  let ?r = "derived_reachable sample_builders sample_catalogue [example_job]"
  let ?new = "new_derived sample_need (builder_wmp sample_builders) 0"
  let ?l = "\<lparr>le_key = derived_key ?new, le_leased_until = 1 + BUILD_LEASE\<rparr>"
  have "request_for_job sample_builders sample_catalogue [example_job] 1 0 [] = Inr ([?new], 1)"
    by (simp add: request_for_job_def sample_needs [simplified] sample_role row_with_def)
  then have one: "?r ([?new], Map.empty)"
    by (rule derived_reachable.step [OF derived_reachable.start derived_step.requested])
  have keys: "derived_key (take_row 1 ?new) = derived_key ?new" "derived_key ?new = need_key sample_need (builder_wmp sample_builders)"
    by (simp_all add: derived_key_def take_row_def new_derived_def need_key_def)
  have may: "may_build sample_builders 1 ?new"
    using sample_role by (simp add: may_build_def new_derived_def for_role_sql MAX_ATTEMPTS_def)
  have "fail_dead_builds 1 [?new] = [?new]"
    by (simp add: fail_dead_builds_def new_derived_def)
  then have "take_next sample_builders 1 [] [?new] = ([take_row 1 ?new], Some ?l)"
    using may by (simp add: take_next_def update_key_def)
  then have two: "?r ([take_row 1 ?new], Map.empty)"
    by (rule derived_reachable.step [OF one derived_step.taken])
  have "under_lease ?l (take_row 1 ?new)"
    by (simp add: under_lease_def keys(1)) (simp add: take_row_def)
  then have "record_outcome sample_builders ?l (Inr (lit ''hash'', 5)) 2 [take_row 1 ?new] = [sample_built]"
    by (simp add: record_outcome_def sample_built_def)
  with derived_step.recorded [of sample_builders sample_catalogue "[example_job]" "[take_row 1 ?new]" Map.empty ?l
      "Inr (lit ''hash'', 5)" 2]
  show ?thesis by (metis derived_reachable.step [OF two])
qed

section \<open>Claims\<close>

text \<open>C20: A claim states exactly what was built.  Whatever requests, builds by any number of builders under
  any leases, retries and claims went before, when a job is found ready, from memory or from the
  table, every file it needs has a row in the table built by this binary's builder, and what is stated
  of it is that row's hash, size and build target, in the order of the needs; and no row is ever
  attempted more than three times.\<close>

theorem stated_files_are_built:
  assumes "derived_reachable b cat jobs (rows, cache)"
    and "ready_for_job b cat jobs job_id now rows cache = Inr (rows', cache', Some stated)"
  shows "list_all2 (\<lambda>n e. \<exists>d\<in>set rows'. dd_state d = Build_built \<and>
      for_role b (dn_role n) = Inr (ed_builder e) \<and> derived_key d = need_key n (ed_builder e) \<and>
      ed_role e = dn_role n \<and> ed_name e = dn_name n \<and> dd_sha256 d = Some (ed_sha256 e) \<and>
      dd_build_target d = Some (ed_build_target e) \<and> dd_bytes d = Some (ed_bytes e))
      (needs_for_job cat jobs job_id) stated \<and>
    list_all (\<lambda>d. dd_attempts d \<le> 3) rows'"
proof -
  note ok = cache_ok_reachable [OF assms(1)]
  have "list_all derived_ok rows'"
    using ready_states_built(1) [OF assms(2) ok] by (simp add: cache_ok_def)
  then have "list_all (\<lambda>d. dd_attempts d \<le> 3) rows'" by (auto simp: list_all_iff derived_ok_def)
  moreover have "list_all2 (states_built b rows') (needs_for_job cat jobs job_id) stated"
    by (rule ready_states_built(2) [OF assms(2) ok refl])
  ultimately show ?thesis by (auto simp: states_built_def [abs_def] eq_commute [of "Inr _"] elim!: list_all2_mono)
qed

theorem stated_files_are_built_witness:
  "\<exists>e :: expected_derived. list_all2 (\<lambda>n e. ed_name e = dn_name n \<and> dd_sha256 sample_built = Some (ed_sha256 e)) [sample_need] [e]"
proof -
  have row: "row_for sample_builders [sample_built] sample_need = Some sample_built"
    using sample_role
    by (simp add: row_for_def for_role_sql [THEN iffD2, OF sample_role] row_with_def)
       (simp add: sample_built_def record_built_def take_row_def new_derived_def derived_key_def need_key_def)
  have fields: "dd_state sample_built = Build_built" "dd_sha256 sample_built = Some (lit ''hash'')"
    by (simp_all add: sample_built_def record_built_def)
  obtain e where e: "expected_of sample_builders sample_need sample_built = Inr e"
    by (simp add: expected_of_def sample_role fields fetch_one_def ok_or_def)
  have "ready_for_job sample_builders sample_catalogue [example_job] 1 3 [sample_built] Map.empty =
      Inr ([sample_built], remember Map.empty 1 [e], Some [e])"
    by (simp add: ready_for_job_def status_for_job_def sample_needs [simplified] row fields e no_status_def dispatchable_def)
  from stated_files_are_built [OF sample_built_reachable this] show ?thesis
    by (simp add: sample_needs [simplified]) blast
qed

end
