(* ===== verification/Leave_Builds_Spec.thy ===== *)
theory Leave_Builds_Spec
  imports Leave_Builds Racks_Spec
begin

text \<open>
  The life of a generation's files: its universe of racks, its close, and the check of an artifact
  against the object store.
\<close>

section \<open>Seeding the universe of a generation\<close>

lemma enumeration_range:
  assumes "rack_index_new ld s = Inr idx" "draws (ld_tiles ld) s \<le> 18446744073709551615"
  shows "racks_in_enumeration_range idx start n =
    map ((!) (racks (ld_tiles ld) s)) [start..<min (start + n) (rack_total idx)]"
proof -
  have t: "rack_total idx = draws (ld_tiles ld) s" using rack_total_draws [OF assms(1)] assms(2) by simp
  have "map_while (rack_at_enumeration_index idx) [start..<sat_add_u64 start n] =
      map ((!) (racks (ld_tiles ld) s)) [start..<min (sat_add_u64 start n) (rack_total idx)]"
    using rack_at_enumeration_index_racks [OF assms] t
    by (intro map_while_range) (auto simp: rack_at_enumeration_index_def)
  moreover have "min (sat_add_u64 start n) (rack_total idx) = min (start + n) (rack_total idx)"
    using t assms(2) by (auto simp: sat_add_u64_def min_def)
  ultimately show ?thesis by (simp add: racks_in_enumeration_range_def)
qed

lemma seed_chunks_racks:
  assumes "rack_index_new ld s = Inr idx" "draws (ld_tiles ld) s \<le> 18446744073709551615"
  shows "seed_chunks idx (rack_total idx) start = map ((!) (racks (ld_tiles ld) s)) [start..<rack_total idx]"
proof (induction "rack_total idx - start" arbitrary: start rule: less_induct)
  case less
  show ?case
  proof (cases "start < rack_total idx")
    case True
    let ?n = "rack_total idx" let ?k = "min (start + SEED_CHUNK) ?n"
    have "seed_chunks idx ?n (start + SEED_CHUNK) = map ((!) (racks (ld_tiles ld) s)) [start + SEED_CHUNK..<?n]"
      using True by (intro less) (simp add: SEED_CHUNK_def)
    moreover have "seed_chunks idx ?n start =
        racks_in_enumeration_range idx start SEED_CHUNK @ seed_chunks idx ?n (start + SEED_CHUNK)"
      using True by (subst seed_chunks.simps) simp
    moreover have "[start..<?k] @ [start + SEED_CHUNK..<?n] = [start..<?n]"
    proof (cases "start + SEED_CHUNK \<le> ?n")
      case True
      then show ?thesis
        using upt_add_eq_append [of start "start + SEED_CHUNK" "?n - (start + SEED_CHUNK)"] by (simp add: min_absorb1)
    qed (simp add: min_absorb2)
    ultimately show ?thesis
      unfolding enumeration_range [OF assms] by (metis map_append)
  next
    case False
    then show ?thesis by (subst seed_chunks.simps) simp
  qed
qed

lemma generation_racks_append:
  "generation_racks (lv\<lparr>lv_racks := lv_racks lv @ rows, lv_generations := gs\<rparr>) j g =
    generation_racks lv j g @ filter (of_generation j g) rows"
  by (simp add: generation_racks_def)

lemma new_rack_generation [simp]: "of_generation j g (new_rack j g rack)"
  by (simp add: of_generation_def new_rack_def)

text \<open>A seeded generation has every full rack once.  Seeding a generation that has no racks gives it a
  row for each rack of seven tiles that can be drawn from the job's distribution, none twice, each with
  no occurrence counted, as many as the number it answers; so the count that building the generation's
  leaves checks is met.  Racks of other generations are left alone.\<close>

theorem seeded_universe_is_every_rack_once:
  assumes "parse bytes origin = Inr ld" and "rack_index_new ld LEAVE_RACK_SIZE = Inr idx"
    and "rack_total idx < 9223372036854775807"
    and "\<not> universe_exists lv j g" and "seed_generation lv j g ld now = Inr (lv', n)"
  shows "distinct (map rp_rack (generation_racks lv' j g)) \<and>
    set (map rp_rack (generation_racks lv' j g)) =
      {r. sorted r \<and> length r = LEAVE_RACK_SIZE \<and> mset r \<subseteq># bag (ld_tiles ld)} \<and>
    list_all (\<lambda>p. rp_count p = 0 \<and> rp_equity_sum p = Fin 0) (generation_racks lv' j g) \<and>
    n = int (length (generation_racks lv' j g)) \<and> length (generation_racks lv' j g) = rack_total idx \<and>
    lv_racks lv' = lv_racks lv @ generation_racks lv' j g"
proof -
  let ?ts = "ld_tiles ld"
  have t: "rack_total idx = draws ?ts LEAVE_RACK_SIZE" and d: "draws ?ts LEAVE_RACK_SIZE \<le> 18446744073709551615"
    using rack_total_draws [OF assms(2)] assms(3) by (auto simp: min_def split: if_splits)
  have asc: "ascending ?ts"
    using parse_ok [OF assms(1)] assms(2) by (simp add: distribution_ok_def rack_index_new_Inr)
  have "seed_chunks idx (rack_total idx) 0 = map ((!) (racks ?ts LEAVE_RACK_SIZE)) [0..<length (racks ?ts LEAVE_RACK_SIZE)]"
    using seed_chunks_racks [OF assms(2) d, of 0] t by (simp add: draws_def)
  then have chunks: "seed_chunks idx (rack_total idx) 0 = racks ?ts LEAVE_RACK_SIZE" by (simp only: map_nth)
  have none: "generation_racks lv j g = []" using assms(4) by (simp add: universe_exists_def)
  have rows: "lv_racks lv' = lv_racks lv @ map (new_rack j g) (racks ?ts LEAVE_RACK_SIZE)"
    and n: "n = as_i64 (int (rack_total idx))"
    using assms(2,4,5) chunks by (auto simp: seed_generation_def Let_def)
  have gen: "generation_racks lv' j g = map (new_rack j g) (racks ?ts LEAVE_RACK_SIZE)"
    using none rows by (simp add: generation_racks_def filter_id_conv)
  have racks: "map rp_rack (generation_racks lv' j g) = racks ?ts LEAVE_RACK_SIZE"
    unfolding gen by (simp add: new_rack_def comp_def)
  have "as_i64 (int (rack_total idx)) = int (rack_total idx)"
    using assms(3) by (intro as_i64_id) (simp add: in_i64_def int_width_defs)
  then show ?thesis
    using distinct_racks [OF asc] set_racks [OF asc] t rows n
    unfolding racks by (simp add: gen new_rack_def draws_def list_all_iff)
qed


definition nine_file :: "nat list" where
  "nine_file = map of_char ''?,?,1,0,0\<newline>B,b,4,3,0\<newline>A,a,4,1,1\<newline>''"

definition nine :: letter_distribution where
  "nine = \<lparr>ld_name = lit ''nine'', ld_bytes = nine_file,
     ld_tiles = [\<lparr>tl_letter = 63, tl_count = 1\<rparr>, \<lparr>tl_letter = 65, tl_count = 4\<rparr>,
       \<lparr>tl_letter = 66, tl_count = 4\<rparr>],
     ld_letters = [\<lparr>lt_letter = lit ''?'', lt_blank = lit ''?'', lt_score = 0\<rparr>,
       \<lparr>lt_letter = lit ''B'', lt_blank = lit ''b'', lt_score = 3\<rparr>,
       \<lparr>lt_letter = lit ''A'', lt_blank = lit ''a'', lt_score = 1\<rparr>],
     ld_unenumerable = None\<rparr>"

lemma parse_nine: "parse nine_file (lit ''nine'') = Inr nine"
  by (simp add: parse_def nine_file_def utf8_decode_Nil utf8_decode_ascii ok_or_def parse_line_def
      columns_def strip_suffix_char_def trim_def trim_matches_def is_whitespace_def utf8_len_def
      char_utf8_len_def MAGPIE_MAX_LETTER_BYTES_def MAGPIE_MAX_ALPHABET_SIZE_def number_def
      parse_u32_def parse_i32_def parse_unsigned_def parse_signed_def is_ascii_digit_def
      digits_value_def i32_max_def add_letter_row nine_def Let_def lit_def)

definition nine_index :: rack_index where
  "nine_index = \<lparr>ri_tiles = ld_tiles nine, ri_counts = counts_table (ld_tiles nine) 7, ri_size = 7\<rparr>"

lemma nine_index_new: "rack_index_new nine LEAVE_RACK_SIZE = Inr nine_index"
  by (simp add: rack_index_new_def nine_index_def nine_def LEAVE_RACK_SIZE_def)

lemma draws_none: "draws [] 0 = 1" "draws [] (Suc k) = 0"
  by (simp_all add: draws_def)

lemma nine_total: "rack_total nine_index = 5"
proof -
  have "draws (ld_tiles nine) 7 = 5"
    by (simp add: nine_def draws_Cons draws_none eval_nat_numeral)
  then show ?thesis
    using rack_total_draws [OF nine_index_new] by (simp add: LEAVE_RACK_SIZE_def)
qed

definition no_leaves :: leave_store where
  "no_leaves = \<lparr>lv_requests = [], lv_records = [], lv_staging = [], lv_next_staging_id = 1, lv_racks = [],
     lv_generations = [], lv_cursors = [], lv_transitions = [], lv_artifacts = []\<rparr>"

theorem seeded_universe_is_every_rack_once_witness:
  "\<exists>lv' n. seed_generation no_leaves 4 1 nine 0 = Inr (lv', n) \<and> n = 5 \<and>
     distinct (map rp_rack (generation_racks lv' 4 1)) \<and> length (generation_racks lv' 4 1) = 5"
proof -
  have "\<not> universe_exists no_leaves 4 1" by (simp add: universe_exists_def no_leaves_def generation_racks_def)
  moreover from this obtain lv' n where s: "seed_generation no_leaves 4 1 nine 0 = Inr (lv', n)"
    using nine_index_new by (auto simp: seed_generation_def Let_def)
  moreover have "rack_total nine_index < 9223372036854775807" by (simp add: nine_total)
  ultimately show ?thesis
    using seeded_universe_is_every_rack_once [OF parse_nine nine_index_new, of no_leaves 4 1 0 lv' n]
    by (auto simp: nine_total)
qed

section \<open>Closing a generation\<close>

lemma as_i32_in: "in_i32 (as_i32 x)"
proof -
  have "0 \<le> (x + 2147483648) mod 4294967296" "(x + 2147483648) mod 4294967296 < 4294967296" by simp_all
  then show ?thesis by (auto simp: as_i32_def in_i32_def i32_max_def)
qed


text \<open>The artifacts of a job: one of each generation closed, without a gap; generation 0's apart.\<close>

definition artifacts_ok :: "leave_store \<Rightarrow> nat \<Rightarrow> bool" where
  "artifacts_ok lv job_id \<longleftrightarrow> distinct (map artifact_row_key (lv_artifacts lv)) \<and>
     af_generation ` {a \<in> set (lv_artifacts lv). af_job_id a = job_id \<and> af_generation a \<ge> 1} =
       {1..completed_generations lv job_id}"

lemma completed_nonneg: "completed_generations lv job_id \<ge> 0"
  by (simp add: completed_generations_def count_where_def)

lemma current_generation_Some:
  "current_generation lv job_id config = Some g \<longleftrightarrow>
    g = completed_generations lv job_id + 1 \<and> g \<le> generation_count config"
proof -
  have "as_i32 (completed_generations lv job_id) = completed_generations lv job_id"
    if "completed_generations lv job_id < generation_count config"
    using that completed_nonneg [of lv job_id] as_i32_in [of "int (length (lc_target_rack_counts config))"]
    by (intro as_i32_id) (simp add: generation_count_def in_i32_def i32_max_def)
  then show ?thesis by (auto simp: current_generation_def Let_def)
qed

lemma current_generation_None:
  "current_generation lv job_id config = None \<longleftrightarrow> completed_generations lv job_id \<ge> generation_count config"
  by (auto simp: current_generation_def Let_def)

lemma not_open_after_close:
  "\<not> list_ex (open_transition job_id g) (update_where (open_transition job_id g)
    (\<lambda>t. t\<lparr>tr_completed_at := Some now\<rparr>) rows)"
proof -
  have "\<not> open_transition job_id g (t\<lparr>tr_completed_at := Some now\<rparr>)" for t
    by (simp add: open_transition_def)
  then show ?thesis by (auto simp: list_ex_iff update_where_def)
qed

lemma close_generation_Inr:
  assumes "close_generation lv db job_id g key sha256 builder config now = Inr (lv', db')"
  shows "lv' = lv\<lparr>
      lv_transitions := update_where (open_transition job_id g)
        (\<lambda>t. t\<lparr>tr_completed_at := Some now\<rparr>) (lv_transitions lv),
      lv_artifacts := insert_artifact (new_artifact job_id g key sha256 builder) (lv_artifacts lv),
      lv_cursors := filter (\<lambda>c. cursor_key c \<noteq> (job_id, g)) (lv_cursors lv)\<rparr>"
    and "db' = (if g \<ge> generation_count config
      then complete_active_job db job_id (Some (lit ''last generation built'')) else db)"
    and "list_ex (open_transition job_id g) (lv_transitions lv)"
  using assms by (auto simp: close_generation_def Let_def split: if_splits)

lemma no_active_after_complete:
  assumes "j \<in> set (db_jobs (complete_active_job db job_id reason))" "j_id j = job_id"
  shows "j_status j \<noteq> Active"
proof (cases "list_ex (\<lambda>j. j_id j = job_id \<and> j_status j = Active) (db_jobs db)")
  case True
  let ?P = "\<lambda>j. j_id j = job_id \<and> j_status j = Active"
  have "j \<in> (\<lambda>j. if ?P j then complete_job j else j) ` set (db_jobs db)"
    using assms(1) True by (simp add: complete_active_job_def audit_completion_def update_where_def)
  then obtain j0 where "j = (if ?P j0 then complete_job j0 else j0)" by blast
  then show ?thesis using assms(2) by (cases "?P j0") (simp_all add: complete_job_def)
next
  case False
  then have "complete_active_job db job_id reason = db" unfolding complete_active_job_def by simp
  then show ?thesis using assms False by (auto simp: list_ex_iff)
qed

text \<open>Closing a generation moves its job on to the next, once.  The close of the current generation
  records its artifact, keeps the artifacts of the job without a gap, forgets where its lap stood and
  makes the next generation the current one, or none when it was the last, and only then completes the
  job; a second close of the same transition is refused.\<close>

theorem closing_moves_to_the_next_generation:
  assumes "artifacts_ok lv job_id" and "current_generation lv job_id config = Some g"
    and "close_generation lv db job_id g key sha256 builder config now = Inr (lv', db')"
  shows "artifacts_ok lv' job_id \<and>
    current_generation lv' job_id config = (if g < generation_count config then Some (g + 1) else None) \<and>
    row_with artifact_row_key (job_id, g) (lv_artifacts lv') = Some (new_artifact job_id g key sha256 builder) \<and>
    row_with cursor_key (job_id, g) (lv_cursors lv') = None \<and>
    (\<exists>e. close_generation lv' db' job_id g key' sha256' builder' config now' = Inl e) \<and>
    (if g < generation_count config then db' = db
     else \<forall>j\<in>set (db_jobs db'). j_id j = job_id \<longrightarrow> j_status j \<noteq> Active)"
proof -
  note c = close_generation_Inr [OF assms(3)]
  let ?n = "completed_generations lv job_id" and ?a = "new_artifact job_id g key sha256 builder"
  have g: "g = ?n + 1" "g \<le> generation_count config" using assms(2) by (simp_all add: current_generation_Some)
  have g1: "1 \<le> g" using g completed_nonneg [of lv job_id] by simp
  have fresh: "row_with artifact_row_key (job_id, g) (lv_artifacts lv) = None"
  proof -
    have "g \<notin> {1..?n}" using g by simp
    then show ?thesis using assms(1) g1 unfolding artifacts_ok_def row_with_None
      by (force simp: artifact_row_key_def)
  qed
  have key: "artifact_row_key ?a = (job_id, g)" by (simp add: artifact_row_key_def new_artifact_def)
  have arts: "lv_artifacts lv' = lv_artifacts lv @ [?a]"
    using c(1) fresh by (simp add: insert_artifact_def key)
  have n: "completed_generations lv' job_id = g"
    using arts g g1 by (simp add: completed_generations_def new_artifact_def)
  have ok: "artifacts_ok lv' job_id"
  proof -
    have "artifact_row_key ?a \<notin> set (map artifact_row_key (lv_artifacts lv))"
      using fresh unfolding key by (simp add: row_with_None)
    then have "distinct (map artifact_row_key (lv_artifacts lv'))"
      using assms(1) arts by (simp add: artifacts_ok_def)
    moreover have "af_generation ` {a \<in> set (lv_artifacts lv'). af_job_id a = job_id \<and> af_generation a \<ge> 1} =
        insert g {1..?n}"
    proof -
      have "{a \<in> set (lv_artifacts lv'). af_job_id a = job_id \<and> af_generation a \<ge> 1} =
          insert ?a {a \<in> set (lv_artifacts lv). af_job_id a = job_id \<and> af_generation a \<ge> 1}"
        using arts g1 by (auto simp: new_artifact_def)
      then show ?thesis using assms(1) by (simp add: artifacts_ok_def new_artifact_def)
    qed
    moreover have "insert g {1..?n} = {1..g}" using g g1 by auto
    ultimately show ?thesis by (simp add: artifacts_ok_def n)
  qed
  have "current_generation lv' job_id config = (if g < generation_count config then Some (g + 1) else None)"
    using g by (auto simp: current_generation_Some current_generation_None n)
  moreover have "row_with artifact_row_key (job_id, g) (lv_artifacts lv') = Some ?a"
    unfolding arts using fresh key by (rule row_with_new)
  moreover have "row_with cursor_key (job_id, g) (lv_cursors lv') = None"
    using c(1) by (auto simp: row_with_None)
  moreover have "\<exists>e. close_generation lv' db' job_id g key' sha256' builder' config now' = Inl e"
    using c(1) not_open_after_close by (simp add: close_generation_def)
  moreover have "if g < generation_count config then db' = db
     else \<forall>j\<in>set (db_jobs db'). j_id j = job_id \<longrightarrow> j_status j \<noteq> Active"
    using c(2) no_active_after_complete [of _ db job_id] by auto
  ultimately show ?thesis using ok by blast
qed


definition closing_config :: leave_config where
  "closing_config = \<lparr>lc_player_config_id = 1, lc_num_iterations = 10, lc_target_rack_counts = [5, 9],
     lc_racks_per_task = 1\<rparr>"

definition closing_leaves :: leave_store where
  "closing_leaves = no_leaves\<lparr>
     lv_transitions := [\<lparr>tr_job_id = 4, tr_generation = 1, tr_started_at = 3, tr_completed_at = None, tr_attempts = 1\<rparr>],
     lv_artifacts := [new_artifact 4 0 [48] [49] [50]],
     lv_cursors := [\<lparr>cu_job_id = 4, cu_generation = 1, cu_rack = None\<rparr>]\<rparr>"

definition no_rows :: db where
  "no_rows = \<lparr>db_jobs = [], db_tasks = [], db_claims = [], db_contributors = [], db_gaps = [], db_audit = []\<rparr>"

theorem closing_moves_to_the_next_generation_witness:
  "\<exists>lv'. close_generation closing_leaves no_rows 4 1 [51] [52] [50] closing_config 9 = Inr (lv', no_rows) \<and>
     current_generation lv' 4 closing_config = Some 2 \<and> artifacts_ok lv' 4"
proof -
  have "completed_generations closing_leaves 4 = 0"
    by (simp add: completed_generations_def closing_leaves_def no_leaves_def new_artifact_def)
  then have "artifacts_ok closing_leaves 4"
    by (simp add: artifacts_ok_def closing_leaves_def no_leaves_def new_artifact_def)
  moreover have "current_generation closing_leaves 4 closing_config = Some 1" by code_simp
  moreover obtain lv' db' where c: "close_generation closing_leaves no_rows 4 1 [51] [52] [50] closing_config 9 = Inr (lv', db')"
    by (simp add: close_generation_def closing_leaves_def open_transition_def transition_key_def Let_def)
  ultimately have "artifacts_ok lv' 4 \<and> (if 1 < generation_count closing_config then db' = no_rows
      else \<forall>j\<in>set (db_jobs db'). j_id j = 4 \<longrightarrow> j_status j \<noteq> Active) \<and>
    current_generation lv' 4 closing_config = (if 1 < generation_count closing_config then Some (1 + 1) else None)"
    using closing_moves_to_the_next_generation [of closing_leaves 4 closing_config 1 no_rows "[51]" "[52]" "[50]" 9 lv' db']
    by blast
  moreover have "generation_count closing_config = 2" by code_simp
  ultimately show ?thesis using c by simp
qed

section \<open>Checking and rebuilding artifacts\<close>

lemma served_row:
  assumes "row_with artifact_row_key (artifact_row_key a) rows = Some a"
  shows "\<exists>b. row_with artifact_row_key (artifact_row_key a) (serve a h rows) = Some b \<and> served_hash b = h \<and>
    af_sha256 b = af_sha256 a \<and> af_key b = af_key a"
  using assms
proof (induction rows)
  case (Cons x rows)
  show ?case
  proof (cases "artifact_row_key x = artifact_row_key a")
    case True
    with Cons.prems have "x = a" by (simp add: row_with_def)
    then show ?thesis
      by (auto simp: serve_def update_where_def row_with_def served_hash_def artifact_row_key_def)
  next
    case False
    then show ?thesis using Cons by (auto simp: serve_def update_where_def row_with_def)
  qed
qed (simp add: row_with_def)

text \<open>C13: Checking an artifact keeps what workers fetch and what they are told of it the same, and what is
  accounted for as it is.  After the check the row's hash is the hash of the object in the store, unless
  the object is one neither the row nor a rebuild accounts for and it was left alone; an object that is
  there and accounted for is not written over unless the check is forced to, nor is any other object.\<close>

theorem checked_artifact_serves_its_object:
  assumes "rebuild_artifact tools collate distribution force a lv store = Inr (lv', store', line)"
    and "row_with artifact_row_key (artifact_row_key a) (lv_artifacts lv) = Some a"
  shows "(if ar_rewritten line \<or> ar_object_accounted_for line
     then \<exists>b. row_with artifact_row_key (artifact_row_key a) (lv_artifacts lv') = Some b \<and>
       store' (af_key a) \<noteq> None \<and> served_hash b = kt_sha256_hex tools (the (store' (af_key a))) \<and>
       ar_served_sha256 line = served_hash b
     else lv' = lv \<and> store' = store) \<and>
    (\<forall>key. key \<noteq> af_key a \<longrightarrow> store' key = store key) \<and>
    (ar_object_present line \<and> ar_object_accounted_for line \<and> \<not> force \<longrightarrow> store' = store) \<and>
    lv_racks lv' = lv_racks lv"
proof -
  from assms(1) obtain klv where klv: "rebuilt_klv tools collate lv distribution a = Inr klv"
    by (auto simp: rebuild_artifact_def and_then_Inr)
  let ?rebuilt = "kt_sha256_hex tools klv" and ?found = "map_option (kt_sha256_hex tools) (store (af_key a))"
  let ?ok = "accounted_for a ?rebuilt ?found" and ?matches = "?rebuilt = af_sha256 a"
  let ?rewritten = "?found = None \<or> force \<or> (\<not> ?ok \<and> ?matches)"
  let ?served = "if ?rewritten then Some ?rebuilt else if ?ok then ?found else None"
  let ?lv1 = "case ?served of None \<Rightarrow> lv | Some h \<Rightarrow> lv\<lparr>lv_artifacts := serve a h (lv_artifacts lv)\<rparr>"
  let ?line = "\<lparr>ar_generation = af_generation a, ar_artifact_key = af_key a,
        ar_stored_sha256 = af_sha256 a,
        ar_served_sha256 = (case ?served of None \<Rightarrow> served_hash a | Some h \<Rightarrow> h),
        ar_object_sha256 = ?found, ar_object_accounted_for = ?ok,
        ar_rebuilt_sha256 = ?rebuilt, ar_matches = ?matches,
        ar_same_builder = (af_builder a = kt_builder tools),
        ar_stored_builder = af_builder a, ar_rebuilt_builder = kt_builder tools,
        ar_object_present = (?found \<noteq> None), ar_rewritten = ?rewritten\<rparr>"
  obtain store1 where s1: "(if ?rewritten then put_object tools store (af_key a) klv else Inr store) = Inr store1"
    and eq: "(Inr (?lv1, store1, ?line) :: (leave_store \<times> object_store \<times> artifact_rebuild) app_result) =
      Inr (lv', store', line)"
    using assms(1) unfolding rebuild_artifact_def klv and_then_simps Let_def and_then_Inr
    by (elim exE conjE) (rule that)
  have all: "?lv1 = lv' \<and> store1 = store' \<and> ?line = line"
    using eq by (simp only: sum.inject prod.inject)
  have store': "(if ?rewritten then put_object tools store (af_key a) klv else Inr store) = Inr store'"
    using s1 all by (simp only:)
  have lv': "lv' = (case ?served of None \<Rightarrow> lv | Some h \<Rightarrow> lv\<lparr>lv_artifacts := serve a h (lv_artifacts lv)\<rparr>)"
    using all by (rule conjunct1 [THEN sym])
  have line: "ar_rewritten line = ?rewritten" "ar_object_accounted_for line = ?ok" "ar_object_present line = (?found \<noteq> None)"
      "ar_served_sha256 line = (case ?served of None \<Rightarrow> served_hash a | Some h \<Rightarrow> h)"
    unfolding conjunct2 [OF conjunct2 [OF all], symmetric] artifact_rebuild.select_convs by (rule refl)+
  show ?thesis
  proof (cases "?rewritten")
    case True
    have st: "store' = store(af_key a \<mapsto> klv)"
      using store' unfolding if_P [OF True] by (simp add: put_object_def split: option.splits)
    have lv: "lv' = lv\<lparr>lv_artifacts := serve a ?rebuilt (lv_artifacts lv)\<rparr>" and served: "ar_served_sha256 line = ?rebuilt"
      using lv' line(4) unfolding if_P [OF True] by simp_all
    have kept: "\<not> (ar_object_present line \<and> ar_object_accounted_for line \<and> \<not> force)"
      using True unfolding line by argo
    obtain b where b: "row_with artifact_row_key (artifact_row_key a) (serve a ?rebuilt (lv_artifacts lv)) = Some b"
      "served_hash b = ?rebuilt"
      using served_row [OF assms(2), of ?rebuilt] by blast
    have "ar_rewritten line" using True unfolding line(1) .
    then show ?thesis
      using b kept unfolding st lv served by auto
  next
    case False
    have st: "store' = store" using store' unfolding if_not_P [OF False] by simp
    obtain h where h: "?found = Some h" using False by (cases ?found) simp_all
    show ?thesis
    proof (cases ?ok)
      case True
      have lv: "lv' = lv\<lparr>lv_artifacts := serve a h (lv_artifacts lv)\<rparr>" and served: "ar_served_sha256 line = h"
        using lv' line(4) h unfolding if_not_P [OF False] if_P [OF True] by simp_all
      have "store (af_key a) \<noteq> None" "kt_sha256_hex tools (the (store (af_key a))) = h"
        using h by auto
      then show ?thesis
        using served_row [OF assms(2), of h] True unfolding st lv served line(1,2) by auto
    next
      case ok: False
      have "lv' = lv" using lv' unfolding if_not_P [OF False] if_not_P [OF ok] by simp
      then show ?thesis using False ok unfolding st line(1,2) by simp
    qed
  qed
qed


definition example_tools :: klv_tools where
  "example_tools = \<lparr>kt_rackequity2klv = (\<lambda>ld rows. Inr [length rows]), kt_zero_klv = (\<lambda>ld. Inr [7]),
     kt_sha256_hex = (\<lambda>bytes. bytes @ bytes), kt_builder = [50], kt_show_uuid = (\<lambda>n. [n]),
     kt_put_fails = (\<lambda>key. None)\<rparr>"

definition lost_artifact :: artifact_row where
  "lost_artifact = new_artifact 4 0 [48] [49] [50]"

theorem checked_artifact_serves_its_object_witness:
  "\<exists>lv' store' line. rebuild_artifact example_tools (\<lambda>r. r) nine False lost_artifact
       (no_leaves\<lparr>lv_artifacts := [lost_artifact]\<rparr>) Map.empty = Inr (lv', store', line) \<and>
     (\<exists>b. row_with artifact_row_key (4, 0) (lv_artifacts lv') = Some b \<and> served_hash b = [7, 7])"
proof -
  let ?lv = "no_leaves\<lparr>lv_artifacts := [lost_artifact]\<rparr>"
  obtain lv' store' line where r: "rebuild_artifact example_tools (\<lambda>r. r) nine False lost_artifact ?lv Map.empty =
      Inr (lv', store', line)" and l: "ar_rewritten line" and s: "store' [48] = Some [7]"
    by (simp add: rebuild_artifact_def rebuilt_klv_def lost_artifact_def new_artifact_def example_tools_def
        put_object_def Let_def)
  have key: "artifact_row_key lost_artifact = (4, 0)" "af_key lost_artifact = [48]"
    by (simp_all add: lost_artifact_def new_artifact_def artifact_row_key_def)
  have "row_with artifact_row_key (artifact_row_key lost_artifact) (lv_artifacts ?lv) = Some lost_artifact"
    by (simp add: row_with_def)
  from checked_artifact_serves_its_object [OF r this] l s
  have "\<exists>b. row_with artifact_row_key (4, 0) (lv_artifacts lv') = Some b \<and> served_hash b = [7, 7]"
    unfolding key by (auto simp: example_tools_def)
  with r show ?thesis by blast
qed

end
