(* ===== verification/Compat.thy ===== *)
theory Compat
  imports Text
begin

text \<open>
  \<open>compat.rs\<close>: MAGPIE's rules on which lexicons, leaves and letter distributions go together, read off
  their names; and \<open>magpie_defaults.rs\<close>, the settings a row is given when a request leaves them out.
\<close>

section \<open>The distribution a name implies\<close>

datatype ld_type = English | German | Norwegian | Catalan | Polish | Dutch | French | Unknown

definition ascii_lower :: "uchar \<Rightarrow> uchar" where
  "ascii_lower c = (if 65 \<le> c \<and> c \<le> 90 then c + 32 else c)"

definition eq_ignore_ascii_case :: "ustr \<Rightarrow> ustr \<Rightarrow> bool" where
  "eq_ignore_ascii_case a b \<longleftrightarrow> map ascii_lower a = map ascii_lower b"

text \<open>\<open>&name[..n]\<close>: a byte index inside a character panics, which is \<open>None\<close>.\<close>

fun prefix_bytes :: "nat \<Rightarrow> ustr \<Rightarrow> ustr option" where
  "prefix_bytes n [] = (if n = 0 then Some [] else None)"
| "prefix_bytes n (c # cs) =
     (if n = 0 then Some []
      else if n < char_utf8_len c then None
      else map_option ((#) c) (prefix_bytes (n - char_utf8_len c) cs))"

definition panicked :: app_error where
  "panicked = Internal ''byte index is not a char boundary''"

definition has_iprefix :: "string \<Rightarrow> ustr \<Rightarrow> bool app_result" where
  "has_iprefix prefix name =
     (if utf8_len name < length prefix then Inr False
      else and_then (ok_or (prefix_bytes (length prefix) name) panicked)
        (\<lambda>start. Inr (eq_ignore_ascii_case start (lit prefix))))"

text \<open>\<open>rsplit('/').next()\<close>: what follows the last slash.\<close>

definition base_name :: "ustr \<Rightarrow> ustr" where
  "base_name s = last (split_by (\<lambda>c. c = 47) s)"

fun first_prefix :: "(string \<times> ld_type) list \<Rightarrow> ustr \<Rightarrow> ld_type app_result" where
  "first_prefix [] name = Inr Unknown"
| "first_prefix ((prefix, t) # ps) name =
     and_then (has_iprefix prefix name) (\<lambda>yes. if yes then Inr t else first_prefix ps name)"

definition ld_type_from_lexicon :: "ustr \<Rightarrow> ld_type app_result" where
  "ld_type_from_lexicon lexicon = first_prefix
     (map (\<lambda>p. (p, English)) [''CSW'', ''NWL'', ''OSPD'', ''OSW'', ''TWL'', ''America'', ''CEL''] @
      [(''RD'', German), (''NSF'', Norwegian), (''DISC'', Catalan), (''FRA'', French), (''OSPS'', Polish),
       (''DSW'', Dutch)]) (base_name lexicon)"

definition ld_type_from_distribution :: "ustr \<Rightarrow> ld_type app_result" where
  "ld_type_from_distribution ld_name = first_prefix
     [(''english'', English), (''german'', German), (''norwegian'', Norwegian), (''catalan'', Catalan),
      (''polish'', Polish), (''dutch'', Dutch), (''french'', French)] (base_name ld_name)"

definition types_compat :: "ld_type \<Rightarrow> ld_type \<Rightarrow> bool" where
  "types_compat a b \<longleftrightarrow> a \<noteq> Unknown \<and> a = b"

definition lex_lex_compat :: "ustr \<Rightarrow> ustr \<Rightarrow> bool app_result" where
  "lex_lex_compat a b = and_then (ld_type_from_lexicon a) (\<lambda>t. and_then (ld_type_from_lexicon b) (\<lambda>u.
     Inr (types_compat t u)))"

definition lex_ld_compat :: "ustr \<Rightarrow> ustr \<Rightarrow> bool app_result" where
  "lex_ld_compat lexicon ld_name = and_then (ld_type_from_lexicon lexicon) (\<lambda>t.
     and_then (ld_type_from_distribution ld_name) (\<lambda>u. Inr (types_compat t u)))"

section \<open>What a job must pass\<close>

record player_files =
  pf_label :: string
  pf_lexicon :: ustr
  pf_leaves :: ustr

definition must :: "bool app_result \<Rightarrow> string \<Rightarrow> check" where
  "must m why = and_then m (\<lambda>yes. refuse_if (\<not> yes) why)"

definition validate_job_files :: "player_files list \<Rightarrow> ustr \<Rightarrow> check" where
  "validate_job_files players ld_name = first_error
     [check_each (\<lambda>p. first_error
        [must (lex_lex_compat (pf_lexicon p) (pf_leaves p)) ''leaves are not compatible with the lexicon'',
         must (lex_ld_compat (pf_lexicon p) ld_name)
           ''lexicon is not compatible with the letter distribution'']) players,
      (case players of
         [] \<Rightarrow> ok
       | first # rest \<Rightarrow> check_each (\<lambda>other. first_error
           [must (lex_lex_compat (pf_lexicon first) (pf_lexicon other))
              ''lexicons from different letter distributions'',
            must (lex_lex_compat (pf_leaves first) (pf_leaves other))
              ''leaves from different letter distributions'']) rest)]"

definition validate_lexicon_and_leaves :: "ustr \<Rightarrow> ustr \<Rightarrow> check" where
  "validate_lexicon_and_leaves lexicon leaves =
     must (lex_lex_compat lexicon leaves) ''leaves are not compatible with the lexicon''"

section \<open>MAGPIE's defaults\<close>

definition SORT_STRATEGY :: ustr where "SORT_STRATEGY = lit ''equity''"
definition NUM_PLAYS :: int where "NUM_PLAYS = 100"
definition NUM_PLIES_RECORDED :: int where "NUM_PLIES_RECORDED = 2"
definition MOVEGEN_MARGIN :: f64 where "MOVEGEN_MARGIN = Fin 5"
definition STOPPING_PCT :: f64 where "STOPPING_PCT = Fin 99"
definition USE_INFERENCE :: bool where "USE_INFERENCE = True"
definition MIN_PLAY_ITERATIONS :: int where "MIN_PLAY_ITERATIONS = 500"
definition THRESHOLD :: ustr where "THRESHOLD = lit ''gk16''"
definition SAMPLING_RULE :: ustr where "SAMPLING_RULE = lit ''top_two_ids''"
definition INFERENCE_MARGIN :: f64 where "INFERENCE_MARGIN = Fin 5"
definition UTILITY_W_WINPCT :: f64 where "UTILITY_W_WINPCT = Fin 1"
definition UTILITY_W_SPREAD :: f64 where "UTILITY_W_SPREAD = Fin (1 / 2)"
definition UTILITY_SPREAD_SCALE :: f64 where "UTILITY_SPREAD_SCALE = Fin 100"
definition PEG_STAGE_TOP_K :: "int list" where "PEG_STAGE_TOP_K = [32, 16, 8, 4, 2]"
definition PEG_SCENARIO_STRIDE :: int where "PEG_SCENARIO_STRIDE = 1"
definition PEG_OPP_MODEL :: ustr where "PEG_OPP_MODEL = lit ''rational''"
definition PEG_NESTED :: bool where "PEG_NESTED = True"
definition PEG_NESTED_CAND_CAPS :: "int list" where "PEG_NESTED_CAND_CAPS = [8, 4, 2]"
definition PEG_NESTED_MAX_DEPTH :: int where "PEG_NESTED_MAX_DEPTH = 1"
definition PEG_NESTED_STRIDES :: "int list" where "PEG_NESTED_STRIDES = [1, 1, 5, 7]"
definition BINGO_BONUS :: int where "BINGO_BONUS = 50"
definition SIM_CUTOFF :: f64 where "SIM_CUTOFF = Fin (5 / 1000)"

end
