(* ===== verification/Player_Configs.thy ===== *)
theory Player_Configs
  imports Compat Templates Store
begin

text \<open>
  \<open>routes/admin.rs\<close>, player configurations: what a request to create one is held to, the row it becomes
  with every setting it leaves out written in, and deletion while nothing references it.  A message is
  reduced to the rule it states.
\<close>

section \<open>Requests\<close>

record player_config_body =
  pb_name :: ustr
  pb_recorder_type :: ustr
  pb_sort_strategy :: "ustr option"
  pb_kwg_id :: nat
  pb_klv_id :: nat
  pb_winpct_id :: "nat option"
  pb_cloned_from_id :: "nat option"
  pb_max_iterations :: "int option"
  pb_num_plies :: "int option"
  pb_num_plies_recorded :: "int option"
  pb_num_plays :: "int option"
  pb_num_plays_recorded :: int
  pb_stopping_pct :: "f64 option"
  pb_use_inference :: "bool option"
  pb_time_limit_secs :: "int option"
  pb_movegens_per_move :: "int option"
  pb_use_wordmap :: "bool option"
  pb_use_rit :: "bool option"
  pb_use_wit :: "bool option"
  pb_min_play_iterations :: "int option"
  pb_threshold :: "ustr option"
  pb_sampling_rule :: "ustr option"
  pb_inference_margin :: "f64 option"
  pb_utility_w_winpct :: "f64 option"
  pb_utility_w_spread :: "f64 option"
  pb_utility_spread_scale :: "f64 option"
  pb_movegen_margin :: "f64 option"
  pb_endgame_plies :: "int option"
  pb_peg_max_bag :: "int option"
  pb_peg_stage_top_k :: "int list option"
  pb_peg_scenario_stride :: "int option"
  pb_peg_opp_model :: "ustr option"
  pb_peg_nested :: "bool option"
  pb_peg_nested_cand_caps :: "int list option"
  pb_peg_nested_max_depth :: "int option"
  pb_peg_nested_strides :: "int list option"

definition unwrap_or :: "'a option \<Rightarrow> 'a \<Rightarrow> 'a" where
  "unwrap_or v d = (case v of None \<Rightarrow> d | Some x \<Rightarrow> x)"

definition is_some_and :: "'a option \<Rightarrow> ('a \<Rightarrow> bool) \<Rightarrow> bool" where
  "is_some_and v p \<longleftrightarrow> (case v of None \<Rightarrow> False | Some x \<Rightarrow> p x)"

section \<open>Names\<close>

definition MAX_NAME_CHARS :: nat where "MAX_NAME_CHARS = 100"

text \<open>\<open>char::is_control\<close>: the general category Cc.\<close>

definition is_control :: "uchar \<Rightarrow> bool" where
  "is_control c \<longleftrightarrow> c \<le> 31 \<or> (127 \<le> c \<and> c \<le> 159)"

definition name_problem :: "ustr \<Rightarrow> string option" where
  "name_problem name =
     (if length name > MAX_NAME_CHARS then Some ''at most 100 characters''
      else if list_ex (\<lambda>c. is_control c \<or> c = 8232 \<or> c = 8233) name
      then Some ''one line, with no control characters''
      else None)"

definition field_problem :: "string \<Rightarrow> string option \<Rightarrow> (string \<times> string) list" where
  "field_problem field problem = (case problem of None \<Rightarrow> [] | Some why \<Rightarrow> [(field, why)])"

section \<open>Endgame and pre-endgame settings\<close>

record solver_settings =
  so_endgame_plies :: int
  so_peg_max_bag :: int
  so_peg_stage_top_k :: "int list option"
  so_peg_scenario_stride :: "int option"
  so_peg_opp_model :: "ustr option"
  so_peg_nested :: "bool option"
  so_peg_nested_cand_caps :: "int list option"
  so_peg_nested_max_depth :: "int option"
  so_peg_nested_strides :: "int list option"

definition MAGPIE_MAX_ENDGAME_PLIES :: int where "MAGPIE_MAX_ENDGAME_PLIES = 25"
definition MAGPIE_PEG_MAX_BAG :: int where "MAGPIE_PEG_MAX_BAG = 4"
definition MAGPIE_MAX_PEG_STAGES :: nat where "MAGPIE_MAX_PEG_STAGES = 16"

definition endgame_fields :: "int \<Rightarrow> int \<Rightarrow> (string \<times> string) list" where
  "endgame_fields plies max_bag =
     field_if (\<not> (0 \<le> plies \<and> plies \<le> MAGPIE_MAX_ENDGAME_PLIES)) ''endgame_plies'' ''between 0 and 25'' @
     (if \<not> (0 \<le> max_bag \<and> max_bag \<le> MAGPIE_PEG_MAX_BAG) then [(''peg_max_bag'', ''between 0 and 4'')]
      else field_if (max_bag > 0 \<and> plies = 0) ''peg_max_bag'' ''the pre-endgame needs endgame solving'')"

definition nested_stated :: "player_config_body \<Rightarrow> (string \<times> bool) list" where
  "nested_stated b = [(''peg_nested_cand_caps'', pb_peg_nested_cand_caps b \<noteq> None),
     (''peg_nested_max_depth'', pb_peg_nested_max_depth b \<noteq> None),
     (''peg_nested_strides'', pb_peg_nested_strides b \<noteq> None)]"

definition peg_stated :: "player_config_body \<Rightarrow> (string \<times> bool) list" where
  "peg_stated b = [(''peg_stage_top_k'', pb_peg_stage_top_k b \<noteq> None),
     (''peg_scenario_stride'', pb_peg_scenario_stride b \<noteq> None),
     (''peg_opp_model'', pb_peg_opp_model b \<noteq> None),
     (''peg_nested'', pb_peg_nested b \<noteq> None)] @ nested_stated b"

definition stated_fields :: "(string \<times> bool) list \<Rightarrow> string \<Rightarrow> (string \<times> string) list" where
  "stated_fields stated why = map (\<lambda>(field, _). (field, why)) (filter snd stated)"

definition growing :: "int list \<Rightarrow> bool" where
  "growing ks \<longleftrightarrow> list_ex (\<lambda>(a, b). b > a) (zip ks (tl ks))"

definition peg_fields :: "int list \<Rightarrow> int \<Rightarrow> ustr \<Rightarrow> (string \<times> string) list" where
  "peg_fields top_k stride opp_model =
     (if top_k = [] \<or> length top_k > MAGPIE_MAX_PEG_STAGES then [(''peg_stage_top_k'', ''1 to 16 stages'')]
      else field_if (list_ex (\<lambda>k. k < 2) top_k \<or> growing top_k) ''peg_stage_top_k''
        ''each stage keeps at least 2 plays, and no more than the stage before it'') @
     field_if (stride < 1) ''peg_scenario_stride'' ''at least 1'' @
     field_if (opp_model \<noteq> lit ''rational'' \<and> opp_model \<noteq> lit ''pessimistic'') ''peg_opp_model''
       ''rational or pessimistic''"

definition nested_fields :: "int list \<Rightarrow> int \<Rightarrow> int list \<Rightarrow> (string \<times> string) list" where
  "nested_fields caps depth strides =
     field_if (caps = [] \<or> length caps > MAGPIE_MAX_PEG_STAGES \<or> list_ex (\<lambda>c. c < 1) caps)
       ''peg_nested_cand_caps'' ''1 to 16 caps, each at least 1'' @
     field_if (\<not> (1 \<le> depth \<and> depth \<le> MAGPIE_PEG_MAX_BAG)) ''peg_nested_max_depth'' ''between 1 and 4'' @
     field_if (length strides \<noteq> nat MAGPIE_PEG_MAX_BAG \<or> list_ex (\<lambda>s. s < 1) strides)
       ''peg_nested_strides'' ''one stride per inner bag size, each at least 1''"

definition no_solver :: "int \<Rightarrow> solver_settings" where
  "no_solver plies = \<lparr>so_endgame_plies = plies, so_peg_max_bag = 0, so_peg_stage_top_k = None,
     so_peg_scenario_stride = None, so_peg_opp_model = None, so_peg_nested = None,
     so_peg_nested_cand_caps = None, so_peg_nested_max_depth = None, so_peg_nested_strides = None\<rparr>"

definition resolve_solver_settings :: "player_config_body \<Rightarrow> solver_settings app_result" where
  "resolve_solver_settings b =
     (let plies = unwrap_or (pb_endgame_plies b) 0;
          max_bag = unwrap_or (pb_peg_max_bag b) 0;
          err = endgame_fields plies max_bag
      in if max_bag \<le> 0
         then and_then (no_fields ''player settings are invalid''
             (err @ stated_fields (peg_stated b) ''a pre-endgame setting''))
           (\<lambda>_. Inr (no_solver plies))
         else
           let top_k = unwrap_or (pb_peg_stage_top_k b) PEG_STAGE_TOP_K;
               stride = unwrap_or (pb_peg_scenario_stride b) PEG_SCENARIO_STRIDE;
               opp_model = unwrap_or (pb_peg_opp_model b) PEG_OPP_MODEL;
               nested = unwrap_or (pb_peg_nested b) PEG_NESTED;
               caps = unwrap_or (pb_peg_nested_cand_caps b) PEG_NESTED_CAND_CAPS;
               depth = unwrap_or (pb_peg_nested_max_depth b) PEG_NESTED_MAX_DEPTH;
               strides = unwrap_or (pb_peg_nested_strides b) PEG_NESTED_STRIDES
           in and_then (no_fields ''player settings are invalid''
               (err @ peg_fields top_k stride opp_model @
                (if nested then nested_fields caps depth strides
                 else stated_fields (nested_stated b) ''a nested-lookahead setting'')))
             (\<lambda>_. Inr \<lparr>so_endgame_plies = plies, so_peg_max_bag = max_bag, so_peg_stage_top_k = Some top_k,
                so_peg_scenario_stride = Some stride, so_peg_opp_model = Some opp_model,
                so_peg_nested = Some nested,
                so_peg_nested_cand_caps = (if nested then Some caps else None),
                so_peg_nested_max_depth = (if nested then Some depth else None),
                so_peg_nested_strides = (if nested then Some strides else None)\<rparr>))"

section \<open>The other settings\<close>

definition MAGPIE_MAX_PLIES :: int where "MAGPIE_MAX_PLIES = 25"
definition MAGPIE_MAX_CAPTURED_PLIES :: int where "MAGPIE_MAX_CAPTURED_PLIES = 10"
definition MAGPIE_MAX_MARGIN :: real where "MAGPIE_MAX_MARGIN = 2147483645 / 1000"
definition MAX_NUM_PLAYS :: int where "MAX_NUM_PLAYS = 200000"
definition MAX_NUM_PLAYS_RECORDED :: int where "MAX_NUM_PLAYS_RECORDED = i16_max"

definition non_negative :: "string \<Rightarrow> f64 option \<Rightarrow> (string \<times> string) list" where
  "non_negative field v = field_if (is_some_and v (\<lambda>v. \<not> is_finite v \<or> f64_lt v (Fin 0))) field
     ''a finite, non-negative number''"

definition within_margin :: "string \<Rightarrow> f64 option \<Rightarrow> (string \<times> string) list" where
  "within_margin field v = field_if (is_some_and v (\<lambda>v. f64_lt (Fin MAGPIE_MAX_MARGIN) v)) field
     ''at most MAGPIE's largest equity''"

definition at_least_one :: "string \<Rightarrow> int option \<Rightarrow> (string \<times> string) list" where
  "at_least_one field v = field_if (is_some_and v (\<lambda>v. v < 1)) field ''at least 1''"

definition player_fields :: "player_config_body \<Rightarrow> (string \<times> string) list" where
  "player_fields b =
     (if trim (pb_name b) = [] then [(''name'', ''must not be empty'')]
      else field_problem ''name'' (name_problem (trim (pb_name b)))) @
     at_least_one ''max_iterations'' (pb_max_iterations b) @
     at_least_one ''num_plays'' (pb_num_plays b) @
     at_least_one ''num_plies_recorded'' (pb_num_plies_recorded b) @
     at_least_one ''min_play_iterations'' (pb_min_play_iterations b) @
     field_if (pb_num_plays_recorded b < 1) ''num_plays_recorded'' ''at least 1'' @
     field_if (is_some_and (pb_num_plays b) (\<lambda>v. v > MAX_NUM_PLAYS)) ''num_plays'' ''at most 200000'' @
     field_if (pb_num_plays_recorded b > MAX_NUM_PLAYS_RECORDED) ''num_plays_recorded'' ''at most 32767'' @
     field_if (is_some_and (pb_num_plies b) (\<lambda>v. v < 0)) ''num_plies'' ''must not be negative'' @
     field_if (is_some_and (pb_num_plies b) (\<lambda>v. v > MAGPIE_MAX_PLIES)) ''num_plies'' ''at most 25'' @
     field_if (is_some_and (pb_num_plies_recorded b) (\<lambda>v. v > MAGPIE_MAX_CAPTURED_PLIES))
       ''num_plies_recorded'' ''at most 10'' @
     field_if (is_some_and (pb_time_limit_secs b) (\<lambda>v. v < 0)) ''time_limit_secs'' ''must not be negative'' @
     field_if (is_some_and (pb_movegens_per_move b) (\<lambda>v. v < 1)) ''movegens_per_move''
       ''at least 1, or left empty for no budget'' @
     field_if (is_some_and (pb_stopping_pct b) (\<lambda>v. \<not> (f64_lt (Fin 0) v \<and> f64_lt v (Fin 100))))
       ''stopping_pct'' ''strictly between 0 and 100'' @
     non_negative ''inference_margin'' (pb_inference_margin b) @
     non_negative ''movegen_margin'' (pb_movegen_margin b) @
     non_negative ''utility_w_winpct'' (pb_utility_w_winpct b) @
     non_negative ''utility_w_spread'' (pb_utility_w_spread b) @
     within_margin ''inference_margin'' (pb_inference_margin b) @
     within_margin ''movegen_margin'' (pb_movegen_margin b) @
     field_if (is_some_and (pb_utility_spread_scale b) (\<lambda>v. \<not> is_finite v \<or> f64_le v (Fin 0)))
       ''utility_spread_scale'' ''a finite, positive number''"

definition validate_player_config_body :: "player_config_body \<Rightarrow> check" where
  "validate_player_config_body b = no_fields ''player settings are invalid'' (player_fields b)"

definition require_role :: "catalogue \<Rightarrow> nat \<Rightarrow> string \<Rightarrow> ustr app_result" where
  "require_role cat i role =
     and_then (ok_or (input_of cat i) (Bad_request ''no input data row'')) (\<lambda>r.
       if in_role r \<noteq> lit role then Inl (Bad_request ''a row of another role'') else Inr (in_name r))"

definition one_of :: "string list \<Rightarrow> ustr option \<Rightarrow> string \<Rightarrow> check" where
  "one_of names v why = refuse_if (is_some_and v (\<lambda>s. s \<notin> set (map lit names))) why"

definition is_simming :: "player_config_body \<Rightarrow> bool" where
  "is_simming b \<longleftrightarrow> is_some_and (pb_num_plies b) (\<lambda>plies. plies \<ge> 1)"

definition states_simulation :: "player_config_body \<Rightarrow> bool" where
  "states_simulation b \<longleftrightarrow> pb_max_iterations b \<noteq> None \<or> pb_stopping_pct b \<noteq> None \<or>
     pb_use_inference b \<noteq> None \<or> pb_time_limit_secs b \<noteq> None \<or> pb_min_play_iterations b \<noteq> None \<or>
     pb_threshold b \<noteq> None \<or> pb_sampling_rule b \<noteq> None \<or> pb_inference_margin b \<noteq> None \<or>
     pb_utility_w_winpct b \<noteq> None \<or> pb_utility_w_spread b \<noteq> None \<or> pb_utility_spread_scale b \<noteq> None"

definition simming_fields :: "player_config_body \<Rightarrow> (string \<times> string) list" where
  "simming_fields b =
     field_if (pb_max_iterations b = None) ''max_iterations'' ''an iteration budget'' @
     field_if (pb_time_limit_secs b \<noteq> Some 0) ''time_limit_secs'' ''must be 0 for a simming player'' @
     field_if (unwrap_or (pb_num_plays b) NUM_PLAYS < 2) ''num_plays'' ''at least 2 candidate plays''"

section \<open>Creating\<close>

text \<open>The row as the statement binds it; \<open>config_id\<close> and \<open>now\<close> are the column's defaults.\<close>

definition config_row :: "player_config_body \<Rightarrow> solver_settings \<Rightarrow> nat \<Rightarrow> nat \<Rightarrow> time \<Rightarrow> player_config" where
  "config_row b solver admin config_id now =
     (let simming = is_simming b;
          kept = (\<lambda>v. if simming then Some v else None) in \<lparr>
      pc_id = config_id, pc_name = trim (pb_name b), pc_recorder_type = pb_recorder_type b,
      pc_sort_strategy = unwrap_or (pb_sort_strategy b) SORT_STRATEGY,
      pc_kwg_id = pb_kwg_id b, pc_klv_id = pb_klv_id b, pc_winpct_id = pb_winpct_id b,
      pc_cloned_from_id = pb_cloned_from_id b, pc_max_iterations = pb_max_iterations b,
      pc_num_plies = unwrap_or (pb_num_plies b) 0,
      pc_num_plies_recorded = unwrap_or (pb_num_plies_recorded b) NUM_PLIES_RECORDED,
      pc_num_plays = unwrap_or (pb_num_plays b) NUM_PLAYS,
      pc_num_plays_recorded = pb_num_plays_recorded b,
      pc_stopping_pct = (if simming then Some (unwrap_or (pb_stopping_pct b) STOPPING_PCT) else None),
      pc_use_inference = (if simming then Some (unwrap_or (pb_use_inference b) USE_INFERENCE) else None),
      pc_time_limit_secs = pb_time_limit_secs b, pc_movegens_per_move = pb_movegens_per_move b,
      pc_use_wordmap = unwrap_or (pb_use_wordmap b) True, pc_use_rit = unwrap_or (pb_use_rit b) True,
      pc_use_wit = unwrap_or (pb_use_wit b) True,
      pc_min_play_iterations =
        (if simming then Some (unwrap_or (pb_min_play_iterations b) MIN_PLAY_ITERATIONS) else None),
      pc_threshold = (if simming then Some (unwrap_or (pb_threshold b) THRESHOLD) else None),
      pc_sampling_rule = (if simming then Some (unwrap_or (pb_sampling_rule b) SAMPLING_RULE) else None),
      pc_inference_margin = kept (unwrap_or (pb_inference_margin b) INFERENCE_MARGIN),
      pc_utility_w_winpct = kept (unwrap_or (pb_utility_w_winpct b) UTILITY_W_WINPCT),
      pc_utility_w_spread = kept (unwrap_or (pb_utility_w_spread b) UTILITY_W_SPREAD),
      pc_utility_spread_scale = kept (unwrap_or (pb_utility_spread_scale b) UTILITY_SPREAD_SCALE),
      pc_movegen_margin = unwrap_or (pb_movegen_margin b) MOVEGEN_MARGIN,
      pc_endgame_plies = so_endgame_plies solver, pc_peg_max_bag = so_peg_max_bag solver,
      pc_peg_stage_top_k = so_peg_stage_top_k solver,
      pc_peg_scenario_stride = so_peg_scenario_stride solver,
      pc_peg_opp_model = so_peg_opp_model solver, pc_peg_nested = so_peg_nested solver,
      pc_peg_nested_cand_caps = so_peg_nested_cand_caps solver,
      pc_peg_nested_max_depth = so_peg_nested_max_depth solver,
      pc_peg_nested_strides = so_peg_nested_strides solver,
      pc_created_by = Some admin, pc_created_at = now\<rparr>)"

text \<open>The table's unique name and the foreign key of \<open>cloned_from_id\<close>.\<close>

definition insert_player_config :: "catalogue \<Rightarrow> named_player_config \<Rightarrow> catalogue app_result" where
  "insert_player_config cat n =
     (let c = n_config n in
      if list_ex (\<lambda>m. pc_name (n_config m) = pc_name c) (cat_players cat)
      then Inl (Conflict ''that already exists'')
      else if is_some_and (pc_cloned_from_id c) (\<lambda>i. named_player cat i = None)
      then Inl (Invalid ''that player does not exist'' [(''cloned_from_id'', ''no such player'')])
      else Inr (cat\<lparr>cat_players := cat_players cat @ [n]\<rparr>))"

definition create_player_config ::
  "catalogue \<Rightarrow> check \<Rightarrow> nat \<Rightarrow> player_config_body \<Rightarrow> nat \<Rightarrow> time \<Rightarrow> (catalogue \<times> player_config) app_result" where
  "create_player_config cat csrf admin b config_id now =
     and_then csrf (\<lambda>_.
     and_then (validate_player_config_body b) (\<lambda>_.
     and_then (resolve_solver_settings b) (\<lambda>solver.
     and_then (first_error
       [one_of [''best'', ''equity'', ''all''] (Some (pb_recorder_type b)) ''recorder_type'',
        one_of [''equity'', ''score''] (pb_sort_strategy b) ''sort_strategy'',
        one_of [''none'', ''gk16''] (pb_threshold b) ''threshold'',
        one_of [''round_robin'', ''top_two_ids''] (pb_sampling_rule b) ''sampling_rule'']) (\<lambda>_.
     and_then (require_role cat (pb_kwg_id b) ''kwg'') (\<lambda>kwg.
     and_then (require_role cat (pb_klv_id b) ''klv'') (\<lambda>klv.
     and_then (case pb_winpct_id b of None \<Rightarrow> Inr None
         | Some i \<Rightarrow> and_then (require_role cat i ''winpct'') (\<lambda>name. Inr (Some name))) (\<lambda>winpct.
     and_then (first_error
       [no_fields ''player settings are invalid'' (field_if (states_simulation b \<and> \<not> is_simming b)
          ''num_plies'' ''a simming player must simulate at least 1 ply''),
        (if is_simming b then no_fields ''player settings are invalid'' (simming_fields b) else ok),
        refuse_if (is_simming b \<and> winpct = None) ''a simming player must name a win% model'',
        refuse_if (\<not> is_simming b \<and> winpct \<noteq> None) ''a static player must not name a win% model'',
        validate_lexicon_and_leaves kwg klv]) (\<lambda>_.
       let config = config_row b solver admin config_id now
       in and_then (insert_player_config cat \<lparr>n_config = config, n_kwg_name = kwg, n_klv_name = klv,
            n_winpct_name = winpct\<rparr>) (\<lambda>cat'. Inr (cat', config))))))))))"

section \<open>Deleting\<close>

text \<open>\<open>in_pools\<close>: the configs a rating pool's anchor, its members or a rating history name.\<close>

definition player_referenced :: "catalogue \<Rightarrow> nat list \<Rightarrow> nat \<Rightarrow> bool" where
  "player_referenced cat in_pools i \<longleftrightarrow>
     list_ex (\<lambda>(_, c). oc_player_config_id c = i) (cat_opening_rack cat) \<or>
     list_ex (\<lambda>(_, c). gc_player1_config_id c = i \<or> gc_player2_config_id c = i) (cat_game cat) \<or>
     list_ex (\<lambda>(_, c). pg_player1_config_id c = i \<or> pg_player2_config_id c = i) (cat_game_pair cat) \<or>
     list_ex (\<lambda>(_, c). lc_player_config_id c = i) (cat_leave cat) \<or>
     i \<in> set in_pools \<or>
     list_ex (\<lambda>n. pc_cloned_from_id (n_config n) = Some i) (cat_players cat)"

definition delete_player_config ::
  "catalogue \<Rightarrow> audit_row list \<Rightarrow> check \<Rightarrow> nat \<Rightarrow> nat list \<Rightarrow> nat \<Rightarrow> (catalogue \<times> audit_row list) app_result" where
  "delete_player_config cat audit csrf admin in_pools i =
     and_then csrf (\<lambda>_.
       if player_referenced cat in_pools i then Inl (Conflict ''a job, a rating pool, a rating history or a clone'')
       else if named_player cat i = None then Inl (Not_found ''no such player'')
       else Inr (cat\<lparr>cat_players := filter (\<lambda>n. pc_id (n_config n) \<noteq> i) (cat_players cat)\<rparr>,
         audit_log (lit ''player_config.deleted'') (Some (By_user admin)) (Some (lit ''player_config'', i)) None
           audit))"

end
