(* ===== verification/Board.thy ===== *)
theory Board
  imports Racks
begin

text \<open>
  \<open>board.rs\<close>: a board layout as MAGPIE's loader reads it, refusing what it refuses.  The bytes are
  decoded as \<open>String::from_utf8_lossy\<close> does: U+FFFD for each ill-formed part.
\<close>

section \<open>Lossy decoding\<close>

definition second_byte :: "nat \<Rightarrow> nat \<Rightarrow> bool" where
  "second_byte a b \<longleftrightarrow> is_cont b \<and> 194 \<le> a \<and> a < 245 \<and> (a = 224 \<longrightarrow> 160 \<le> b) \<and> (a = 237 \<longrightarrow> b < 160) \<and>
     (a = 240 \<longrightarrow> 144 \<le> b) \<and> (a = 244 \<longrightarrow> b < 144)"

text \<open>The length of the ill-formed part the bytes begin with: the longest beginning of a character, or one byte.\<close>

definition ill_formed :: "nat list \<Rightarrow> nat" where
  "ill_formed bs = (case bs of
     a # b # rest \<Rightarrow>
       if \<not> second_byte a b then 1
       else (case rest of c # _ \<Rightarrow> if a \<ge> 240 \<and> is_cont c then 3 else 2 | [] \<Rightarrow> 2)
   | _ \<Rightarrow> 1)"

lemma ill_formed_pos: "0 < ill_formed bs"
  by (simp add: ill_formed_def split: list.split)

function from_utf8_lossy :: "nat list \<Rightarrow> ustr" where
  "from_utf8_lossy bs =
     (if bs = [] then []
      else (case decode_char bs of
              None \<Rightarrow> 65533 # from_utf8_lossy (drop (ill_formed bs) bs)
            | Some (c, r) \<Rightarrow> c # from_utf8_lossy r))"
  by pat_completeness auto
termination
  by (relation "measure length") (auto dest: decode_char_shorter simp: ill_formed_pos)

declare from_utf8_lossy.simps [simp del]

section \<open>Layouts\<close>

definition MAGPIE_BOARD_DIM :: nat where "MAGPIE_BOARD_DIM = 15"

datatype square = Normal | DoubleLetter | DoubleWord | TripleLetter | TripleWord | QuadrupleLetter
  | QuadrupleWord | Brick

definition from_symbol :: "uchar \<Rightarrow> square option" where
  "from_symbol symbol =
     (if symbol = 32 then Some Normal
      else if symbol = 39 then Some DoubleLetter
      else if symbol = 45 then Some DoubleWord
      else if symbol = 34 then Some TripleLetter
      else if symbol = 61 then Some TripleWord
      else if symbol = 94 then Some QuadrupleLetter
      else if symbol = 126 then Some QuadrupleWord
      else if symbol = 35 then Some Brick
      else None)"

record board_layout =
  bl_start :: "nat \<times> nat"
  bl_squares :: "square list list"

definition coordinate :: "ustr \<Rightarrow> nat option" where
  "coordinate part =
     (case parse_signed i64_max (trim_matches (\<lambda>c. c \<in> {32, 9, 10, 13}) part) of
        Some v \<Rightarrow> if 0 \<le> v \<and> v < int MAGPIE_BOARD_DIM then Some (nat v) else None
      | None \<Rightarrow> None)"

fun symbols :: "ustr \<Rightarrow> square list option" where
  "symbols [] = Some []"
| "symbols (c # cs) = (case from_symbol c of
     None \<Rightarrow> None
   | Some s \<Rightarrow> map_option ((#) s) (symbols cs))"

definition parse_row :: "ustr \<Rightarrow> string + square list" where
  "parse_row line =
     (if utf8_len line \<noteq> MAGPIE_BOARD_DIM then Inl ''a row of another width''
      else case symbols line of None \<Rightarrow> Inl ''a square MAGPIE does not know'' | Some row \<Rightarrow> Inr row)"

fun parse_rows :: "ustr list \<Rightarrow> string + square list list" where
  "parse_rows [] = Inr []"
| "parse_rows (line # lines) = (case parse_row line of
     Inl why \<Rightarrow> Inl why
   | Inr row \<Rightarrow> (case parse_rows lines of Inl why \<Rightarrow> Inl why | Inr rows \<Rightarrow> Inr (row # rows)))"

definition coordinates :: "ustr \<Rightarrow> nat option list" where
  "coordinates line = map coordinate (filter (\<lambda>part. part \<noteq> []) (split_by (\<lambda>c. c = 44) line))"

definition layout_lines :: "nat list \<Rightarrow> ustr list" where
  "layout_lines content = map (strip_suffix_char 13)
     (filter (\<lambda>line. line \<noteq> []) (split_by (\<lambda>c. c = 10) (from_utf8_lossy content)))"

definition parse_layout :: "nat list \<Rightarrow> string + board_layout" where
  "parse_layout content =
     (let lines = layout_lines content
      in if length lines \<noteq> MAGPIE_BOARD_DIM + 1 then Inl ''another number of rows''
         else (case coordinates (hd lines) of
             [Some row, Some col] \<Rightarrow> (case parse_rows (tl lines) of
                 Inl why \<Rightarrow> Inl why
               | Inr squares \<Rightarrow> Inr \<lparr>bl_start = (row, col), bl_squares = squares\<rparr>)
           | _ \<Rightarrow> Inl ''a start square MAGPIE cannot read''))"

definition layout_problem :: "nat list \<Rightarrow> string option" where
  "layout_problem content = (case parse_layout content of Inl why \<Rightarrow> Some why | Inr _ \<Rightarrow> None)"

section \<open>Lemmas\<close>

lemma symbols_length: "symbols cs = Some row \<Longrightarrow> length row = length cs"
  by (induction cs arbitrary: row) (auto split: option.splits)

lemma from_symbol_ascii: "from_symbol c = Some s \<Longrightarrow> c < 128"
  by (auto simp: from_symbol_def split: if_splits)

lemma symbols_ascii: "symbols cs = Some row \<Longrightarrow> utf8_len cs = length cs"
proof (induction cs arbitrary: row)
  case (Cons c cs)
  then show ?case
    by (auto simp: utf8_len_def char_utf8_len_def dest: from_symbol_ascii split: option.splits)
qed (simp add: utf8_len_def)

lemma parse_row_width: "parse_row line = Inr row \<Longrightarrow> length row = MAGPIE_BOARD_DIM"
  by (auto simp: parse_row_def symbols_ascii symbols_length split: if_splits option.splits)

lemma parse_rows_shape: "parse_rows lines = Inr rows \<Longrightarrow>
    length rows = length lines \<and> (\<forall>row\<in>set rows. length row = MAGPIE_BOARD_DIM)"
  by (induction lines arbitrary: rows) (auto split: sum.splits dest: parse_row_width)

text \<open>A layout that is read is a whole board, and its start square is on it.\<close>

lemma parse_layout_shape:
  assumes "parse_layout content = Inr b"
  shows "fst (bl_start b) < MAGPIE_BOARD_DIM" "snd (bl_start b) < MAGPIE_BOARD_DIM"
    "length (bl_squares b) = MAGPIE_BOARD_DIM" "\<forall>row\<in>set (bl_squares b). length row = MAGPIE_BOARD_DIM"
proof -
  obtain row col squares where *: "length (layout_lines content) = MAGPIE_BOARD_DIM + 1"
    "coordinates (hd (layout_lines content)) = [Some row, Some col]"
    "parse_rows (tl (layout_lines content)) = Inr squares" "b = \<lparr>bl_start = (row, col), bl_squares = squares\<rparr>"
    using assms by (auto simp: parse_layout_def Let_def split: if_splits list.splits option.splits sum.splits)
  have "Some row \<in> set (coordinates (hd (layout_lines content)))"
    and "Some col \<in> set (coordinates (hd (layout_lines content)))"
    using *(2) by simp_all
  then show "fst (bl_start b) < MAGPIE_BOARD_DIM" "snd (bl_start b) < MAGPIE_BOARD_DIM"
    using *(4) by (auto simp: coordinates_def coordinate_def MAGPIE_BOARD_DIM_def split: option.splits if_splits)
  show "length (bl_squares b) = MAGPIE_BOARD_DIM" "\<forall>row\<in>set (bl_squares b). length row = MAGPIE_BOARD_DIM"
    using parse_rows_shape [OF *(3)] *(1,4) by simp_all
qed

end
