(* ===== verification/Job_Creation.thy ===== *)
theory Job_Creation
  imports Player_Configs Board Derived Leave_Builds
begin

text \<open>
  \<open>routes/admin.rs\<close>, the creation of jobs: the checks of a request, the jobs it asks for (one, or a round
  robin's every pairing), the checks against the players and files they pin, and the rows inserted, all
  of them or none.
\<close>

section \<open>Requests\<close>

record test_request =
  tq_test_enabled :: bool
  tq_confidence_pct :: "f64 option"

record test_settings =
  ts_enabled :: bool
  ts_min_units :: int
  ts_confidence_pct :: f64

definition test_settings_of :: "test_request \<Rightarrow> int option \<Rightarrow> test_settings" where
  "test_settings_of t min_units = \<lparr>ts_enabled = tq_test_enabled t, ts_min_units = unwrap_or min_units 0,
     ts_confidence_pct = unwrap_or (tq_confidence_pct t) (Fin 95)\<rparr>"

record leave_body =
  lb_player_config_id :: nat
  lb_num_iterations :: int
  lb_target_rack_counts :: "int list"
  lb_racks_per_task :: int

record opening_rack_body =
  ob_player_config_id :: nat
  ob_racks_per_batch :: int
  ob_rack_size :: int
  ob_consensus_pct :: f64
  ob_min_results_per_rack :: int
  ob_max_results_per_rack :: int

text \<open>A games or pairs body: \<open>units\<close> are games in the one and pairs in the other.\<close>

record match_body =
  xb_player_config_ids :: "nat list"
  xb_units_per_batch :: int
  xb_max_units :: int
  xb_min_units :: "int option"
  xb_test :: test_request
  xb_capture_positions :: bool
  xb_capture_first_divergence :: bool
  xb_threading_mode :: ustr

datatype job_type_config =
    Config_Leave leave_body
  | Config_OpeningRack opening_rack_body
  | Config_Game match_body
  | Config_GamePair match_body

record create_job_body =
  jb_title :: "ustr option"
  jb_job_type :: job_type
  jb_variant :: ustr
  jb_letterdist_id :: nat
  jb_layout_id :: nat
  jb_min_magpie_version :: "ustr option"
  jb_bingo_bonus :: "int option"
  jb_sim_cutoff :: "f64 option"
  jb_max_task_seconds :: "int option"
  jb_config :: job_type_config

text \<open>What a body's config is given where it leaves a setting out.\<close>

definition default_threading_mode :: ustr where "default_threading_mode = lit ''igp''"
definition default_consensus_pct :: f64 where "default_consensus_pct = Fin 100"
definition default_racks_per_batch :: int where "default_racks_per_batch = 500"
definition default_rack_size :: int where "default_rack_size = 7"

section \<open>Checking a request\<close>

definition MIN_TASK_SECONDS :: int where "MIN_TASK_SECONDS = 600"
definition MAX_TASK_SECONDS :: int where "MAX_TASK_SECONDS = 86400"
definition DEFAULT_TASK_SECONDS :: int where "DEFAULT_TASK_SECONDS = 3600"
definition MAX_RACKS_PER_BATCH :: int where "MAX_RACKS_PER_BATCH = 10000"
definition MAX_RESULTS_PER_RACK :: int where "MAX_RESULTS_PER_RACK = 100"
definition MAX_GAMES_PER_BATCH :: int where "MAX_GAMES_PER_BATCH = 10000"
definition MAX_CAPTURED_GAMES_PER_BATCH :: int where "MAX_CAPTURED_GAMES_PER_BATCH = 1000"
definition MAX_BINGO_BONUS :: int where "MAX_BINGO_BONUS = 500"
definition MAX_ROUND_ROBIN_CONFIGS :: nat where "MAX_ROUND_ROBIN_CONFIGS = 12"
definition MAGPIE_MAX_WORDMAP_BLANKS :: nat where "MAGPIE_MAX_WORDMAP_BLANKS = 2"
definition MAX_RACKS_PER_TASK :: int where "MAX_RACKS_PER_TASK = 10000"
definition MAX_LEAVE_GENERATIONS :: nat where "MAX_LEAVE_GENERATIONS = 100"
definition MAX_TARGET_RACK_COUNT :: int where "MAX_TARGET_RACK_COUNT = 1000000"

definition between :: "int \<Rightarrow> int \<Rightarrow> int \<Rightarrow> bool" where
  "between lo hi x \<longleftrightarrow> lo \<le> x \<and> x \<le> hi"

definition time_limit_problem :: "int \<Rightarrow> string option" where
  "time_limit_problem seconds =
     (if \<not> between MIN_TASK_SECONDS MAX_TASK_SECONDS seconds then Some ''ten minutes to a day'' else None)"

definition job_title :: "create_job_body \<Rightarrow> ustr" where
  "job_title b = trim (unwrap_or (jb_title b) [])"

definition games_batch_field :: "string \<Rightarrow> int \<Rightarrow> int \<Rightarrow> bool \<Rightarrow> (string \<times> string) list" where
  "games_batch_field unit games_per_unit batch capture =
     (let most = (if capture then MAX_CAPTURED_GAMES_PER_BATCH else MAX_GAMES_PER_BATCH) div games_per_unit
      in field_if (batch > most) (unit @ ''s_per_batch'') ''more than a task may play'')"

definition consensus_problems :: "f64 \<Rightarrow> int \<Rightarrow> int \<Rightarrow> (string \<times> string) list" where
  "consensus_problems consensus_pct least most =
     field_if (\<not> (is_finite consensus_pct \<and> f64_lt (Fin 50) consensus_pct \<and> f64_le consensus_pct (Fin 100)))
       ''consensus_pct'' ''above 50 and at most 100'' @
     (if \<not> between 1 MAX_RESULTS_PER_RACK least then [(''min_results_per_rack'', ''between 1 and 100'')]
      else field_if (\<not> between least MAX_RESULTS_PER_RACK most) ''max_results_per_rack''
        ''between min_results_per_rack and 100'')"

text \<open>\<open>ids.iter().find(|id| !seen.insert(**id))\<close>.\<close>

fun named_twice :: "nat list \<Rightarrow> nat list \<Rightarrow> bool" where
  "named_twice seen [] = False"
| "named_twice seen (i # is) = (i \<in> set seen \<or> named_twice (i # seen) is)"

definition round_robin_problems :: "nat list \<Rightarrow> (string \<times> string) list" where
  "round_robin_problems ids =
     (if ids = [] then [(''player_config_ids'', ''at least one player'')]
      else field_if (length ids > MAX_ROUND_ROBIN_CONFIGS) ''player_config_ids'' ''at most 12 players'') @
     field_if (named_twice [] ids) ''player_config_ids'' ''names a player twice''"

fun every_pair :: "nat list \<Rightarrow> (nat \<times> nat) list" where
  "every_pair [] = []"
| "every_pair (a # rest) = map (Pair a) rest @ every_pair rest"

definition seatings :: "nat list \<Rightarrow> (nat \<times> nat) list" where
  "seatings ids = (case ids of [only] \<Rightarrow> [(only, only)] | _ \<Rightarrow> every_pair ids)"

definition pairings :: "job_type_config \<Rightarrow> (nat \<times> nat) list" where
  "pairings config = (case config of
     Config_Game m \<Rightarrow> seatings (xb_player_config_ids m)
   | Config_GamePair m \<Rightarrow> seatings (xb_player_config_ids m)
   | _ \<Rightarrow> [])"

definition threading_mode_problem :: "ustr \<Rightarrow> (string \<times> string) list" where
  "threading_mode_problem mode =
     field_if (mode \<noteq> lit ''igp'' \<and> mode \<noteq> lit ''pgp'') ''threading_mode'' ''igp or pgp''"

text \<open>The match test's settings: refused when stated without the test, checked with it.\<close>

definition match_test_fields :: "string \<Rightarrow> match_body \<Rightarrow> (string \<times> string) list" where
  "match_test_fields unit m =
     (let min_field = ''min_'' @ unit @ ''s''; test = xb_test m;
          confidence = ts_confidence_pct (test_settings_of test (xb_min_units m))
      in field_if (xb_units_per_batch m < 1) (unit @ ''s_per_batch'') ''at least 1'' @
         field_if (xb_max_units m < 1) (''max_'' @ unit @ ''s'') ''at least 1'' @
         (if \<not> tq_test_enabled test then
            field_if (xb_min_units m \<noteq> None) min_field ''a setting of the match test'' @
            field_if (tq_confidence_pct test \<noteq> None) ''confidence_pct'' ''a setting of the match test''
          else
            (case xb_min_units m of
               None \<Rightarrow> [(min_field, ''required with the match test'')]
             | Some n \<Rightarrow>
                 if n < 1 then [(min_field, ''at least 1'')]
                 else field_if (n > xb_max_units m \<and> xb_max_units m \<ge> 1) min_field ''at most the cap'') @
            field_if (\<not> (is_finite confidence \<and> f64_lt (Fin 50) confidence \<and> f64_lt confidence (Fin 100)))
              ''confidence_pct'' ''above 50 and below 100''))"

definition config_fields :: "job_type_config \<Rightarrow> (string \<times> string) list" where
  "config_fields config = (case config of
     Config_OpeningRack r \<Rightarrow>
       field_if (\<not> between 1 MAX_RACKS_PER_BATCH (ob_racks_per_batch r)) ''racks_per_batch'' ''between 1 and 10000'' @
       field_if (\<not> between 1 (int LEAVE_RACK_SIZE) (ob_rack_size r)) ''rack_size'' ''between 1 and 7'' @
       consensus_problems (ob_consensus_pct r) (ob_min_results_per_rack r) (ob_max_results_per_rack r)
   | Config_Game m \<Rightarrow>
       round_robin_problems (xb_player_config_ids m) @
       threading_mode_problem (xb_threading_mode m) @
       match_test_fields ''game'' m @
       games_batch_field ''game'' 1 (xb_units_per_batch m) (xb_capture_positions m) @
       field_if (xb_capture_first_divergence m) ''capture_first_divergence'' ''a games job plays no pairs'' @
       field_if (xb_units_per_batch m \<ge> 1 \<and> xb_units_per_batch m mod 2 \<noteq> 0) ''games_per_batch'' ''must be even''
   | Config_GamePair m \<Rightarrow>
       round_robin_problems (xb_player_config_ids m) @
       threading_mode_problem (xb_threading_mode m) @
       match_test_fields ''pair'' m @
       field_if (xb_capture_first_divergence m \<and> \<not> xb_capture_positions m) ''capture_first_divergence''
         ''needs capture_positions'' @
       games_batch_field ''pair'' 2 (xb_units_per_batch m) (xb_capture_positions m)
   | Config_Leave l \<Rightarrow>
       field_if (lb_num_iterations l < 1) ''num_iterations'' ''at least 1'' @
       field_if (lb_racks_per_task l < 1) ''racks_per_task'' ''at least 1'' @
       (if lb_target_rack_counts l = [] then [(''target_rack_counts'', ''at least one generation's target'')]
        else if length (lb_target_rack_counts l) > MAX_LEAVE_GENERATIONS
        then [(''target_rack_counts'', ''at most 100 generations'')]
        else field_if (list_ex (\<lambda>t. \<not> between 1 MAX_TARGET_RACK_COUNT t) (lb_target_rack_counts l))
          ''target_rack_counts'' ''between 1 and 1000000'') @
       field_if (lb_racks_per_task l > MAX_RACKS_PER_TASK) ''racks_per_task'' ''at most 10000'')"

definition sim_cutoff_field :: "create_job_body \<Rightarrow> (string \<times> string) list" where
  "sim_cutoff_field b = (case jb_sim_cutoff b of
     None \<Rightarrow> []
   | Some cutoff \<Rightarrow>
       if \<not> (is_finite cutoff \<and> f64_within 0 100 cutoff) then [(''sim_cutoff'', ''between 0 and 100'')]
       else field_if (jb_job_type b = LeaveGeneration) ''sim_cutoff'' ''a leave job never simulates'')"

definition validate_job_body :: "create_job_body \<Rightarrow> check" where
  "validate_job_body b = no_fields ''job settings are invalid''
     (field_problem ''title'' (name_problem (job_title b)) @
      field_if (jb_variant b \<noteq> lit ''classic'' \<and> jb_variant b \<noteq> lit ''wordsmog'') ''variant'' ''classic or wordsmog'' @
      field_if (is_some_and (jb_bingo_bonus b) (\<lambda>n. \<not> between 0 MAX_BINGO_BONUS n)) ''bingo_bonus'' ''between 0 and 500'' @
      (case jb_max_task_seconds b of None \<Rightarrow> []
         | Some s \<Rightarrow> field_problem ''max_task_seconds'' (time_limit_problem s)) @
      sim_cutoff_field b @
      field_if (is_some_and (jb_min_magpie_version b) (\<lambda>t. parse_strict t = None)) ''min_magpie_version''
        ''a version such as 0.1.1'' @
      config_fields (jb_config b))"

section \<open>The jobs a request asks for\<close>

record planned_job =
  pl_name :: ustr
  pl_pair :: "(nat \<times> nat) option"
  pl_pairing :: "ustr option"

definition config_name :: "catalogue \<Rightarrow> nat \<Rightarrow> ustr" where
  "config_name cat i = (case named_player cat i of Some n \<Rightarrow> pc_name (n_config n) | None \<Rightarrow> [])"

text \<open>A pairing in an error's message (\<open>PlannedJob::qualify\<close>) changes the message alone, which is not kept.\<close>

definition plan_jobs :: "catalogue \<Rightarrow> create_job_body \<Rightarrow> planned_job list app_result" where
  "plan_jobs cat b =
     (let title = job_title b; pairs = pairings (jb_config b)
      in if pairs = [] then Inr [\<lparr>pl_name = title, pl_pair = None, pl_pairing = None\<rparr>]
         else
           let one_job = (case pairs of [(x, y)] \<Rightarrow> x = y | _ \<Rightarrow> False);
               ids = concat (map (\<lambda>(x, y). [x, y]) pairs)
           in if list_ex (\<lambda>i. named_player cat i = None) ids
              then Inl (Invalid ''player not found'' [(''player_config_ids'', ''no such player'')])
              else Inr (map (\<lambda>(x, y).
                \<lparr>pl_name = job_name title (Some (config_name cat x, config_name cat y)), pl_pair = Some (x, y),
                 pl_pairing = (if one_job then None
                   else Some (config_name cat x @ lit '' vs '' @ config_name cat y))\<rparr>) pairs))"

section \<open>The players and files a job pins\<close>

definition player_error :: "string \<Rightarrow> string \<Rightarrow> string \<Rightarrow> app_error" where
  "player_error what field why = Invalid what [(field, why)]"

definition validate_opening_rack_player :: "catalogue \<Rightarrow> nat \<Rightarrow> int \<Rightarrow> check" where
  "validate_opening_rack_player cat i max_results_per_rack =
     and_then (ok_or (named_player cat i) (Bad_request ''player not found'')) (\<lambda>n.
       let c = n_config n
       in if pc_recorder_type c = lit ''best'' \<and> pc_num_plays_recorded c > 1 \<and> pc_num_plies c = 0
          then Inl (player_error ''a static best recorder ranks no moves'' ''player_config_id'' ''one move per rack'')
          else if pc_num_plays c < pc_num_plays_recorded c
          then Inl (player_error ''more moves than its player generates'' ''player_config_id'' ''too few plays'')
          else if pc_num_plies c = 0 \<and> max_results_per_rack > 1
          then Inl (player_error ''no consensus to seek'' ''max_results_per_rack'' ''a static player analyses once'')
          else ok)"

definition validate_shared_player_options :: "catalogue \<Rightarrow> nat \<Rightarrow> nat \<Rightarrow> check" where
  "validate_shared_player_options cat i k =
     (if i = k then ok
      else (case (named_player cat i, named_player cat k) of
          (Some m, Some n) \<Rightarrow>
            refuse_if (case (pc_winpct_id (n_config m), pc_winpct_id (n_config n)) of
                (Some w1, Some w2) \<Rightarrow> w1 \<noteq> w2 | _ \<Rightarrow> False)
              ''the players disagree on the win% model''
        | _ \<Rightarrow> Inl (Bad_request ''player not found'')))"

definition validate_capture_play_cap :: "catalogue \<Rightarrow> nat \<Rightarrow> nat \<Rightarrow> check" where
  "validate_capture_play_cap cat i k =
     (if list_ex (\<lambda>n. let c = n_config n in
           (pc_id c = i \<or> pc_id c = k) \<and> pc_num_plies c > 0 \<and> pc_num_plays c < pc_num_plays_recorded c)
         (cat_players cat)
      then Inl (player_error ''job settings are invalid'' ''capture_positions'' ''fewer plays than captured'')
      else ok)"

fun one_name_two_files :: "expected_file list \<Rightarrow> bool" where
  "one_name_two_files [] = False"
| "one_name_two_files (file # files) =
     (list_ex (\<lambda>other. ef_role other = ef_role file \<and> ef_name other = ef_name file \<and>
        ef_sha256 other \<noteq> ef_sha256 file) files \<or> one_name_two_files files)"

definition refuse_one_name_for_two_files :: "catalogue \<Rightarrow> job_row \<Rightarrow> check" where
  "refuse_one_name_for_two_files cat j =
     refuse_if (one_name_two_files (expected_data cat j)) ''two different files of one name''"

definition player_file_names :: "catalogue \<Rightarrow> nat \<Rightarrow> (ustr \<times> ustr) app_result" where
  "player_file_names cat i =
     and_then (ok_or (named_player cat i) (Bad_request ''no such player'')) (\<lambda>n. Inr (n_kwg_name n, n_klv_name n))"

definition validate_leave_player :: "catalogue \<Rightarrow> nat \<Rightarrow> ustr \<Rightarrow> check" where
  "validate_leave_player cat i letterdist_name =
     and_then (ok_or (named_player cat i) (Bad_request ''no such player'')) (\<lambda>n.
     and_then (ok_or (input_of cat (pc_kwg_id (n_config n))) (Bad_request ''no such player'')) (\<lambda>kwg.
       let c = n_config n
       in if pc_num_plies c > 0 \<or> pc_sort_strategy c \<noteq> lit ''equity'' \<or> pc_use_rit c \<or> pc_endgame_plies c > 0
          then Inl (player_error ''this player cannot generate leaves'' ''player_config_id''
            ''leave generation plays statically on equity'')
          else first_error
            [refuse_if (in_role kwg \<noteq> lit ''kwg'') ''expected a kwg row'',
             must (lex_ld_compat (in_name kwg) letterdist_name)
               ''lexicon is not compatible with the letter distribution'']))"

fun player_files_of :: "catalogue \<Rightarrow> (string \<times> nat) list \<Rightarrow> player_files list app_result" where
  "player_files_of cat [] = Inr []"
| "player_files_of cat ((label, i) # rest) =
     and_then (player_file_names cat i) (\<lambda>(lexicon, leaves).
     and_then (player_files_of cat rest) (\<lambda>files.
       Inr (\<lparr>pf_label = label, pf_lexicon = lexicon, pf_leaves = leaves\<rparr> # files)))"

definition validate_player_compatibility :: "catalogue \<Rightarrow> (string \<times> nat) list \<Rightarrow> ustr \<Rightarrow> check" where
  "validate_player_compatibility cat players letterdist_name =
     and_then (player_files_of cat players) (\<lambda>files. validate_job_files files letterdist_name)"

definition validate_pairing :: "catalogue \<Rightarrow> nat \<times> nat \<Rightarrow> bool \<Rightarrow> ustr \<Rightarrow> check" where
  "validate_pairing cat pair capture_positions letterdist_name = (case pair of (player1, player2) \<Rightarrow> first_error
     [validate_shared_player_options cat player1 player2,
      validate_player_compatibility cat [(''player1'', player1), (''player2'', player2)] letterdist_name,
      if capture_positions then validate_capture_play_cap cat player1 player2 else ok])"

section \<open>The rows\<close>

definition total_racks :: "letter_distribution \<Rightarrow> int \<Rightarrow> int app_result" where
  "total_racks distribution rack_size =
     and_then (rack_index_new distribution (nat rack_size)) (\<lambda>index. Inr (as_i64 (int (rack_total index))))"

definition config_mismatch :: app_error where
  "config_mismatch = Bad_request ''config fields do not match the requested job_type''"

definition insert_job_config ::
  "catalogue \<Rightarrow> job_row \<Rightarrow> job_type_config \<Rightarrow> (nat \<times> nat) option \<Rightarrow> ustr \<Rightarrow> catalogue app_result" where
  "insert_job_config cat j config pair letterdist_name = (case (j_job_type j, config) of
     (OpeningRack, Config_OpeningRack r) \<Rightarrow>
       and_then (validate_player_compatibility cat [(''player'', ob_player_config_id r)] letterdist_name) (\<lambda>_.
       and_then (validate_opening_rack_player cat (ob_player_config_id r) (ob_max_results_per_rack r)) (\<lambda>_.
       and_then (load_job_data cat j) (\<lambda>data.
       and_then (total_racks (jd_letterdist data) (ob_rack_size r)) (\<lambda>total_racks.
         Inr (cat\<lparr>cat_opening_rack := cat_opening_rack cat @ [(j_id j,
           \<lparr>oc_player_config_id = ob_player_config_id r, oc_racks_per_batch = ob_racks_per_batch r,
            oc_rack_size = ob_rack_size r, oc_total_racks = total_racks,
            oc_consensus_pct = ob_consensus_pct r, oc_min_results_per_rack = ob_min_results_per_rack r,
            oc_max_results_per_rack = ob_max_results_per_rack r\<rparr>)]\<rparr>)))))
   | (Games, Config_Game m) \<Rightarrow>
       and_then (ok_or pair config_mismatch) (\<lambda>(player1, player2).
         let test = test_settings_of (xb_test m) (xb_min_units m)
         in Inr (cat\<lparr>cat_game := cat_game cat @ [(j_id j,
           \<lparr>gc_player1_config_id = player1, gc_player2_config_id = player2,
            gc_games_per_batch = xb_units_per_batch m, gc_test_enabled = ts_enabled test,
            gc_min_games = ts_min_units test, gc_max_games = xb_max_units m,
            gc_confidence_pct = ts_confidence_pct test, gc_capture_positions = xb_capture_positions m,
            gc_threading_mode = xb_threading_mode m\<rparr>)]\<rparr>))
   | (GamePairs, Config_GamePair m) \<Rightarrow>
       and_then (ok_or pair config_mismatch) (\<lambda>(player1, player2).
         let test = test_settings_of (xb_test m) (xb_min_units m)
         in Inr (cat\<lparr>cat_game_pair := cat_game_pair cat @ [(j_id j,
           \<lparr>pg_player1_config_id = player1, pg_player2_config_id = player2,
            pg_pairs_per_batch = xb_units_per_batch m, pg_test_enabled = ts_enabled test,
            pg_min_pairs = ts_min_units test, pg_max_pairs = xb_max_units m,
            pg_confidence_pct = ts_confidence_pct test, pg_capture_positions = xb_capture_positions m,
            pg_capture_first_divergence = xb_capture_first_divergence m,
            pg_threading_mode = xb_threading_mode m\<rparr>)]\<rparr>))
   | (LeaveGeneration, Config_Leave l) \<Rightarrow>
       and_then (validate_leave_player cat (lb_player_config_id l) letterdist_name) (\<lambda>_.
       and_then (load_job_data cat j) (\<lambda>data.
       and_then (rack_index_new (jd_letterdist data) LEAVE_RACK_SIZE) (\<lambda>_.
         Inr (cat\<lparr>cat_leave := cat_leave cat @ [(j_id j,
           \<lparr>lc_player_config_id = lb_player_config_id l, lc_num_iterations = lb_num_iterations l,
            lc_target_rack_counts = lb_target_rack_counts l, lc_racks_per_task = lb_racks_per_task l\<rparr>)]\<rparr>))))
   | _ \<Rightarrow> Inl config_mismatch)"

text \<open>The statement's values, and the columns' defaults for the rest.\<close>

definition new_job_row :: "create_job_body \<Rightarrow> nat \<Rightarrow> version \<Rightarrow> nat \<Rightarrow> time \<Rightarrow> job_row" where
  "new_job_row b admin min_version job_id now = \<lparr>j_id = job_id, j_title = job_title b, j_job_type = jb_job_type b,
     j_allocation = 0, j_status = Inactive, j_created_by = Some admin, j_variant = jb_variant b,
     j_letterdist_id = jb_letterdist_id b, j_layout_id = jb_layout_id b,
     j_bingo_bonus = unwrap_or (jb_bingo_bonus b) BINGO_BONUS, j_sim_cutoff = unwrap_or (jb_sim_cutoff b) SIM_CUTOFF,
     j_min_magpie_major = major min_version, j_min_magpie_minor = minor min_version, j_min_magpie_patch = patch min_version,
     j_max_task_seconds = unwrap_or (jb_max_task_seconds b) DEFAULT_TASK_SECONDS,
     j_claims_issued = 0, j_claims_baseline = 0, j_last_claimed_at = None,
     j_test_decided_status = None, j_test_decided_lower = None, j_test_decided_upper = None,
     j_test_decided_units = None, j_time_limit_declines = 0, j_time_limit_streak = 0,
     j_set_aside_reason = None, j_games_completed = 0, j_racks_analyzed = 0, j_racks_settled = 0,
     j_racks_without_consensus = 0, j_movegens = 0, j_created_at = now, j_activated_at = None,
     j_tasks_total = 0, j_tasks_completed = 0, j_compute_ms = 0, j_time_limit_streak_since = None,
     j_last_completed_at = None\<rparr>"

type_synonym job_tables = "catalogue \<times> job_row list \<times> audit_row list"

definition insert_job ::
  "job_tables \<Rightarrow> create_job_body \<Rightarrow> nat \<Rightarrow> version \<Rightarrow> planned_job \<Rightarrow> ustr \<Rightarrow> nat \<Rightarrow> nat \<Rightarrow> time \<Rightarrow>
    (job_tables \<times> job_row) app_result" where
  "insert_job tables b admin min_version plan letterdist_name blanks job_id now = (case tables of (cat, jobs, audit) \<Rightarrow>
     (let job = new_job_row b admin min_version job_id now; jobs1 = jobs @ [job] in
       and_then (insert_job_config cat job (jb_config b) (pl_pair plan) letterdist_name) (\<lambda>cat1.
       and_then (refuse_one_name_for_two_files cat1 job) (\<lambda>_.
       and_then (if blanks > MAGPIE_MAX_WORDMAP_BLANKS \<and>
             list_ex (\<lambda>need. dn_role need \<noteq> lit ''wit'') (needs_for_job cat1 jobs1 job_id)
           then Inl (player_error ''no wordmap can be built'' ''letterdist_id'' ''too many blanks'') else ok) (\<lambda>_.
         Inr ((cat1, jobs1, audit_log (lit ''job.created'') (Some (By_user admin)) (Some (lit ''job'', job_id))
           (Some job_id) audit), job))))))"

text \<open>\<open>draws\<close>: the identifier and the \<open>clock_timestamp()\<close> each row is given.\<close>

fun insert_jobs ::
  "job_tables \<Rightarrow> create_job_body \<Rightarrow> nat \<Rightarrow> version \<Rightarrow> ustr \<Rightarrow> nat \<Rightarrow> (planned_job \<times> nat \<times> time) list \<Rightarrow>
    (job_tables \<times> (job_row \<times> ustr) list) app_result" where
  "insert_jobs tables b admin min_version letterdist_name blanks [] = Inr (tables, [])"
| "insert_jobs tables b admin min_version letterdist_name blanks ((plan, job_id, now) # rest) =
     and_then (insert_job tables b admin min_version plan letterdist_name blanks job_id now) (\<lambda>(tables1, job).
     and_then (insert_jobs tables1 b admin min_version letterdist_name blanks rest) (\<lambda>(tables2, created).
       Inr (tables2, (job, pl_name plan) # created)))"

definition captures_positions :: "job_type_config \<Rightarrow> bool" where
  "captures_positions config = (case config of
     Config_Game m \<Rightarrow> xb_capture_positions m | Config_GamePair m \<Rightarrow> xb_capture_positions m | _ \<Rightarrow> False)"

definition validate_plan :: "catalogue \<Rightarrow> bool \<Rightarrow> ustr \<Rightarrow> planned_job \<Rightarrow> check" where
  "validate_plan cat capture letterdist_name plan = (case pl_pair plan of
     None \<Rightarrow> ok | Some pair \<Rightarrow> validate_pairing cat pair capture letterdist_name)"

text \<open>The number of blanks of a distribution: its tile \<open>?\<close>.\<close>

definition blanks_of :: "letter_distribution \<Rightarrow> nat" where
  "blanks_of ld = (case find (\<lambda>t. tl_letter t = 63) (ld_tiles ld) of None \<Rightarrow> 0 | Some t \<Rightarrow> tl_count t)"

definition create_job ::
  "job_tables \<Rightarrow> check \<Rightarrow> nat \<Rightarrow> ustr \<Rightarrow> create_job_body \<Rightarrow> (nat \<times> time) list \<Rightarrow>
    (job_tables \<times> (job_row \<times> ustr) list) app_result" where
  "create_job tables csrf admin server_min_version b draws = (case tables of (cat, jobs, audit) \<Rightarrow>
     and_then csrf (\<lambda>_.
     and_then (validate_job_body b) (\<lambda>_.
     and_then (require_role cat (jb_letterdist_id b) ''letterdist'') (\<lambda>letterdist_name.
     and_then (require_role cat (jb_layout_id b) ''layout'') (\<lambda>_.
     and_then (fetch_one (input_of cat (jb_layout_id b))) (\<lambda>layout.
     and_then (if layout_problem (in_content layout) \<noteq> None
         then Inl (player_error ''the board layout cannot be used'' ''layout_id'' ''refused by MAGPIE'') else ok) (\<lambda>_.
     and_then (fetch_one (input_of cat (jb_letterdist_id b))) (\<lambda>letterdist.
     and_then (case parse (in_content letterdist) letterdist_name of
         Inl e \<Rightarrow> Inl (player_error ''the letter distribution cannot be used'' ''letterdist_id'' ''cannot be read'')
       | Inr distribution \<Rightarrow> Inr distribution) (\<lambda>distribution.
     and_then (plan_jobs cat b) (\<lambda>planned.
     and_then (check_each (validate_plan cat (captures_positions (jb_config b)) letterdist_name) planned) (\<lambda>_.
       insert_jobs tables b admin (parse_or_zero (unwrap_or (jb_min_magpie_version b) server_min_version))
         letterdist_name (blanks_of distribution) (zip planned draws))))))))))))"

section \<open>After the commit\<close>

definition initialize_job_artifacts ::
  "klv_tools \<Rightarrow> catalogue \<Rightarrow> leave_store \<Rightarrow> object_store \<Rightarrow> job_row \<Rightarrow> (leave_store \<times> object_store) app_result" where
  "initialize_job_artifacts tools cat lv store j =
     (if j_job_type j \<noteq> LeaveGeneration then Inr (lv, store)
      else and_then (load_job_data cat j) (\<lambda>data.
        and_then (seed_zero_generation tools lv store (j_id j) (jd_letterdist data)) (\<lambda>(lv1, store1, _).
          Inr (lv1, store1))))"

definition job_artifacts_ready :: "leave_store \<Rightarrow> job_row \<Rightarrow> bool" where
  "job_artifacts_ready lv j \<longleftrightarrow> j_job_type j = LeaveGeneration \<longrightarrow>
     row_with artifact_row_key (j_id j, 0) (lv_artifacts lv) \<noteq> None"

text \<open>
  A failure is logged and the request answered: only a role the builders do not know fails it, and no
  need has one.
\<close>

definition request_derived_data ::
  "builders \<Rightarrow> catalogue \<Rightarrow> job_row list \<Rightarrow> nat \<Rightarrow> time \<Rightarrow> derived_row list \<Rightarrow> derived_row list" where
  "request_derived_data builders cat jobs job_id now rows =
     (case request_for_job builders cat jobs job_id now rows of Inl e \<Rightarrow> rows | Inr (rows1, _) \<Rightarrow> rows1)"

fun after_creation ::
  "klv_tools \<Rightarrow> builders \<Rightarrow> catalogue \<Rightarrow> job_row list \<Rightarrow> time \<Rightarrow> job_row list \<Rightarrow>
    leave_store \<times> object_store \<times> derived_row list \<Rightarrow> (leave_store \<times> object_store \<times> derived_row list) \<times> check" where
  "after_creation tools builders cat jobs now [] st = (st, ok)"
| "after_creation tools builders cat jobs now (j # js) (lv, store, derived) =
     (case initialize_job_artifacts tools cat lv store j of
        Inl e \<Rightarrow> ((lv, store, derived), Inl e)
      | Inr (lv1, store1) \<Rightarrow> after_creation tools builders cat jobs now js
          (lv1, store1, request_derived_data builders cat jobs (j_id j) now derived))"

end
