(* ===== verification/Exports.thy ===== *)
theory Exports
  imports Leave_Builds Dispatch
begin

text \<open>
  \<open>exports.rs\<close>: a job's results built into one downloadable artifact.  Each function is one
  transaction; what is committed between two of them is the caller's.  The gzip encoder, the hash of the
  bytes, the JSON text Postgres gives a row and the object store's failures are parameters.
\<close>

section \<open>The rows an export contains\<close>

datatype corpus_line =
    Record_line record_row "progress_row option"
  | Result_line game_result_row
  | Rack_line rack_row

text \<open>The standing an opening-rack line carries: of a rack with a consensus to report.\<close>

definition consensus_of :: "server \<Rightarrow> record_row \<Rightarrow> progress_row option" where
  "consensus_of sv r = (case map_of (cat_opening_rack (sv_catalogue sv)) (rc_job_id r) of
     None \<Rightarrow> None
   | Some config \<Rightarrow> find (\<lambda>p. pr_job_id p = rc_job_id r \<and> pr_rack p = rc_rack r \<and> rc_game_index r = None \<and>
       (pr_results p > 1 \<or> oc_max_results_per_rack config > 1)) (sv_progress sv))"

definition opening_rack_corpus :: "server \<Rightarrow> nat \<Rightarrow> corpus_line list" where
  "opening_rack_corpus sv job_id =
     map (\<lambda>r. Record_line r (consensus_of sv r)) (filter (\<lambda>r. rc_job_id r = job_id) (sv_records sv))"

definition may_capture_positions :: "job_type \<Rightarrow> bool" where
  "may_capture_positions t \<longleftrightarrow> t = Games \<or> t = GamePairs"

definition export_query :: "job_type \<Rightarrow> server \<Rightarrow> nat \<Rightarrow> corpus_line list" where
  "export_query t sv job_id = (case t of
     OpeningRack \<Rightarrow> opening_rack_corpus sv job_id
   | LeaveGeneration \<Rightarrow> map Rack_line (filter (\<lambda>r. rp_job_id r = job_id) (lv_racks (sv_leaves sv)))
   | _ \<Rightarrow> map Result_line (filter (\<lambda>r. gs_job_id r = job_id) (sv_game_results sv)))"

section \<open>The table\<close>

datatype export_state = Export_running | Export_ready | Export_failed

record uploaded =
  ul_bytes :: int
  ul_sha256 :: ustr
  ul_rows :: int

record export_row =
  xr_id :: nat
  xr_job_id :: nat
  xr_state :: export_state
  xr_artifact_key :: "ustr option"
  xr_results :: "uploaded option"
  xr_positions_artifact_key :: "ustr option"
  xr_positions :: "uploaded option"
  xr_is_final :: bool
  xr_snapshot_at :: "time option"
  xr_error :: "ustr option"
  xr_requested_by :: "nat option"
  xr_requested_at :: time
  xr_completed_at :: "time option"

definition new_export :: "nat \<Rightarrow> nat \<Rightarrow> nat \<Rightarrow> time \<Rightarrow> export_row" where
  "new_export export_id job_id requested_by now = \<lparr>xr_id = export_id, xr_job_id = job_id,
     xr_state = Export_running, xr_artifact_key = None, xr_results = None, xr_positions_artifact_key = None,
     xr_positions = None, xr_is_final = False, xr_snapshot_at = None, xr_error = None,
     xr_requested_by = Some requested_by, xr_requested_at = now, xr_completed_at = None\<rparr>"

section \<open>Starting\<close>

text \<open>The tables after \<open>reclaim_lapsed\<close>, and whether the job may be exported.\<close>

definition refuse_unsettled ::
  "server \<Rightarrow> nat \<Rightarrow> time \<Rightarrow> nat list \<Rightarrow> time \<Rightarrow> server \<times> check" where
  "refuse_unsettled sv job_id inst locked now =
     (let (db, holds) = reclaim_lapsed (sv_db sv) (sv_holds sv) (sv_reclaim_from sv) inst [job_id]
            (sv_heartbeat_timeout sv) locked now;
          sv1 = sv\<lparr>sv_db := db, sv_holds := holds\<rparr>
      in (sv1, if job_has_open_claim db job_id
               then Inl (Conflict ''this job completed with claims still in flight'') else ok))"

text \<open>\<open>j\<close> is the job as the handler read it.  One running export of a job: the unique index refuses another.\<close>

definition start_export ::
  "(nat \<Rightarrow> ustr) \<Rightarrow> server \<Rightarrow> export_row list \<Rightarrow> job_row \<Rightarrow> nat \<Rightarrow> nat \<Rightarrow> time \<Rightarrow> nat list \<Rightarrow> time \<Rightarrow>
    (server \<times> export_row list) \<times> nat app_result" where
  "start_export show_uuid sv exports j requested_by export_id inst locked now =
     (let (sv1, settled) = (if j_status j = Completed then refuse_unsettled sv (j_id j) inst locked now else (sv, ok))
      in case settled of
           Inl e \<Rightarrow> ((sv1, exports), Inl e)
         | Inr _ \<Rightarrow>
             if row_with j_id (j_id j) (db_jobs (sv_db sv1)) = None
             then ((sv1, exports), Inl (Not_found ''no such job''))
             else if list_ex (\<lambda>x. xr_job_id x = j_id j \<and> xr_state x = Export_running) exports
             then ((sv1, exports), Inl (Conflict ''an export of this job is already running''))
             else ((with_db ((sv_db sv1)\<lparr>db_audit := log_detail (lit ''job.export_started'') requested_by
                   (lit ''job'') (j_id j) (Some (j_id j)) (lit ''export='' @ show_uuid export_id)
                   (db_audit (sv_db sv1))\<rparr>) sv1,
                 exports @ [new_export export_id (j_id j) requested_by now]), Inr export_id))"

section \<open>Compressing and uploading\<close>

definition COMPRESS_BATCH_BYTES :: nat where "COMPRESS_BATCH_BYTES = 1024 * 1024"
definition PART_SIZE :: nat where "PART_SIZE = 8 * 1024 * 1024"

text \<open>
  The encoder with its buffer: a write appends what the encoder gives out, \<open>take\<close> empties the buffer, and
  finishing gives the rest with the trailer.  A part's upload and an upload's end may fail.
\<close>

record 'e export_tools =
  xt_new :: 'e
  xt_write :: "'e \<Rightarrow> bytes \<Rightarrow> 'e app_result"
  xt_buffer :: "'e \<Rightarrow> bytes"
  xt_take :: "'e \<Rightarrow> 'e"
  xt_finish :: "'e \<Rightarrow> bytes app_result"
  xt_sha256_hex :: "bytes \<Rightarrow> ustr"
  xt_row_text :: "corpus_line \<Rightarrow> bytes"
  xt_show_uuid :: "nat \<Rightarrow> ustr"
  xt_start_fails :: "ustr \<Rightarrow> app_error option"
  xt_part_fails :: "ustr \<Rightarrow> nat \<Rightarrow> app_error option"
  xt_finish_fails :: "ustr \<Rightarrow> app_error option"

text \<open>The digest of what has been produced is kept as the bytes produced.\<close>

record 'e compressor =
  cp_encoder :: 'e
  cp_hashed :: bytes
  cp_bytes :: int

definition compressor_new :: "('e, 'x) export_tools_scheme \<Rightarrow> 'e compressor" where
  "compressor_new tools = \<lparr>cp_encoder = xt_new tools, cp_hashed = [], cp_bytes = 0\<rparr>"

definition compressor_push ::
  "('e, 'x) export_tools_scheme \<Rightarrow> 'e compressor \<Rightarrow> bytes \<Rightarrow> ('e compressor \<times> bytes option) app_result" where
  "compressor_push tools c batch =
     and_then (xt_write tools (cp_encoder c) batch) (\<lambda>e.
       let part = xt_buffer tools e
       in if length part \<ge> PART_SIZE
          then Inr (\<lparr>cp_encoder = xt_take tools e, cp_hashed = cp_hashed c @ part,
                 cp_bytes = cp_bytes c + int (length part)\<rparr>, Some part)
          else Inr (c\<lparr>cp_encoder := e\<rparr>, None))"

definition compressor_finish ::
  "('e, 'x) export_tools_scheme \<Rightarrow> 'e compressor \<Rightarrow> (bytes \<times> int \<times> ustr) app_result" where
  "compressor_finish tools c =
     and_then (xt_finish tools (cp_encoder c)) (\<lambda>rest.
       Inr (rest, cp_bytes c + int (length rest), xt_sha256_hex tools (cp_hashed c @ rest)))"

text \<open>The parts an upload has been given, each with the next number.\<close>

definition upload_part :: "('e, 'x) export_tools_scheme \<Rightarrow> ustr \<Rightarrow> bytes list \<Rightarrow> bytes \<Rightarrow> bytes list app_result" where
  "upload_part tools key parts part = (case xt_part_fails tools key (length parts + 1) of
     Some e \<Rightarrow> Inl e | None \<Rightarrow> Inr (parts @ [part]))"

definition upload_some ::
  "('e, 'x) export_tools_scheme \<Rightarrow> ustr \<Rightarrow> bytes list \<Rightarrow> bytes option \<Rightarrow> bytes list app_result" where
  "upload_some tools key parts part = (case part of None \<Rightarrow> Inr parts
     | Some p \<Rightarrow> if p = [] then Inr parts else upload_part tools key parts p)"

fun upload_lines ::
  "('e, 'x) export_tools_scheme \<Rightarrow> ustr \<Rightarrow> 'e compressor \<Rightarrow> bytes \<Rightarrow> bytes list \<Rightarrow> corpus_line list \<Rightarrow>
    ('e compressor \<times> bytes \<times> bytes list) app_result" where
  "upload_lines tools key c batch parts [] = Inr (c, batch, parts)"
| "upload_lines tools key c batch parts (line # lines) =
     (let batch1 = batch @ xt_row_text tools line @ [10]
      in if length batch1 \<ge> COMPRESS_BATCH_BYTES
         then and_then (compressor_push tools c batch1) (\<lambda>(c1, part).
              and_then (case part of None \<Rightarrow> Inr parts | Some p \<Rightarrow> upload_part tools key parts p) (\<lambda>parts1.
                upload_lines tools key c1 [] parts1 lines))
         else upload_lines tools key c batch1 parts lines)"

definition upload_rows ::
  "('e, 'x) export_tools_scheme \<Rightarrow> object_store \<Rightarrow> ustr \<Rightarrow> corpus_line list \<Rightarrow> (object_store \<times> uploaded) app_result" where
  "upload_rows tools store key lines =
     (case xt_start_fails tools key of Some e \<Rightarrow> Inl e | None \<Rightarrow>
       and_then (upload_lines tools key (compressor_new tools) [] [] lines) (\<lambda>(c, batch, parts).
       and_then (compressor_push tools c batch) (\<lambda>(c1, part).
       and_then (compressor_finish tools c1) (\<lambda>(rest, bytes, sha256).
       and_then (upload_some tools key parts part) (\<lambda>parts1.
       and_then (upload_some tools key parts1 (Some rest)) (\<lambda>parts2.
         case xt_finish_fails tools key of
           Some e \<Rightarrow> Inl e
         | None \<Rightarrow> Inr (store(key \<mapsto> concat parts2),
             \<lparr>ul_bytes = bytes, ul_sha256 = sha256, ul_rows = int (length lines)\<rparr>)))))))"

section \<open>Building\<close>

text \<open>A completed leave job's staged results are folded in first.\<close>

definition settle ::
  "(ustr \<Rightarrow> int) \<Rightarrow> server \<Rightarrow> job_row \<Rightarrow> time \<Rightarrow> server \<times> check" where
  "settle hashtext sv j now =
     (if j_job_type j = LeaveGeneration
      then let (lv, outcome) = merge_staged_for_job hashtext (sv_leaves sv)
             (map_of (cat_leave (sv_catalogue sv)) (j_id j)) (j_id j) True (\<lambda>_. (True, True)) now
           in (sv\<lparr>sv_leaves := lv\<rparr>, and_then outcome (\<lambda>_. ok))
      else (sv, ok))"

record snapshot =
  sn_results :: uploaded
  sn_positions :: "uploaded option"
  sn_is_final :: bool
  sn_taken_at :: time

definition final_corpus :: "server \<Rightarrow> job_row \<Rightarrow> bool" where
  "final_corpus sv j \<longleftrightarrow> j_status j = Completed \<and> \<not> job_has_open_claim (sv_db sv) (j_id j) \<and>
     \<not> list_ex (\<lambda>s. sr_job_id s = j_id j) (lv_staging (sv_leaves sv))"

definition artifact_keys :: "('e, 'x) export_tools_scheme \<Rightarrow> nat \<Rightarrow> nat \<Rightarrow> ustr \<times> ustr" where
  "artifact_keys tools job_id export_id =
     (let stem = lit ''exports/'' @ xt_show_uuid tools job_id @ lit ''/'' @ xt_show_uuid tools export_id
      in (stem @ lit ''.ndjson.gz'', stem @ lit ''.positions.ndjson.gz''))"

text \<open>
  One repeatable-read transaction: both scans see the tables its first statement saw.  \<open>j\<close> is the job
  the export was started with; its row is read again here.  A failure may leave the results' object.
\<close>

definition read_snapshot ::
  "('e, 'x) export_tools_scheme \<Rightarrow> server \<Rightarrow> object_store \<Rightarrow> job_row \<Rightarrow> nat \<Rightarrow> time \<Rightarrow>
    object_store \<times> snapshot app_result" where
  "read_snapshot tools sv store j export_id clock =
     (case row_with j_id (j_id j) (db_jobs (sv_db sv)) of
        None \<Rightarrow> (store, Inl (Not_found ''the job was deleted while its export waited''))
      | Some stands \<Rightarrow>
          let (key, positions_key) = artifact_keys tools (j_id j) export_id in
          (case upload_rows tools store key (export_query (j_job_type j) sv (j_id j)) of
             Inl e \<Rightarrow> (store, Inl e)
           | Inr (store1, results) \<Rightarrow>
               if may_capture_positions (j_job_type j) \<and> list_ex (\<lambda>r. rc_job_id r = j_id j) (sv_records sv)
               then (case upload_rows tools store1 positions_key (opening_rack_corpus sv (j_id j)) of
                   Inl e \<Rightarrow> (store1, Inl e)
                 | Inr (store2, positions) \<Rightarrow> (store2, Inr \<lparr>sn_results = results, sn_positions = Some positions,
                     sn_is_final = final_corpus sv stands, sn_taken_at = clock\<rparr>))
               else (store1, Inr \<lparr>sn_results = results, sn_positions = None,
                   sn_is_final = final_corpus sv stands, sn_taken_at = clock\<rparr>)))"

definition ready :: "ustr \<Rightarrow> ustr \<Rightarrow> snapshot \<Rightarrow> bool \<Rightarrow> time \<Rightarrow> export_row \<Rightarrow> export_row" where
  "ready key positions_key s completed now x = x\<lparr>xr_state := Export_ready, xr_artifact_key := Some key,
     xr_results := Some (sn_results s),
     xr_positions_artifact_key := (if sn_positions s = None then None else Some positions_key),
     xr_positions := sn_positions s, xr_is_final := sn_is_final s \<and> completed,
     xr_snapshot_at := Some (sn_taken_at s), xr_completed_at := Some now\<rparr>"

definition job_completed :: "job_row list \<Rightarrow> nat \<Rightarrow> bool" where
  "job_completed jobs job_id \<longleftrightarrow> list_ex (\<lambda>j. j_id j = job_id \<and> j_status j = Completed) jobs"

definition running_export :: "nat \<Rightarrow> export_row \<Rightarrow> bool" where
  "running_export export_id x \<longleftrightarrow> xr_id x = export_id \<and> xr_state x = Export_running"

definition mark_ready ::
  "job_row list \<Rightarrow> export_row list \<Rightarrow> object_store \<Rightarrow> nat \<Rightarrow> ustr \<times> ustr \<Rightarrow> snapshot \<Rightarrow> time \<Rightarrow>
    export_row list \<times> object_store" where
  "mark_ready jobs exports store export_id keys s now =
     (if list_ex (running_export export_id) exports
      then (update_where (running_export export_id)
          (\<lambda>x. ready (fst keys) (snd keys) s (job_completed jobs (xr_job_id x)) now x) exports, store)
      else (exports, (if sn_positions s = None then store else store(snd keys := None))(fst keys := None)))"

text \<open>The row of a build that failed, and the objects it may have written.\<close>

definition fail_export :: "ustr \<Rightarrow> time \<Rightarrow> export_row \<Rightarrow> export_row" where
  "fail_export why now x = x\<lparr>xr_state := Export_failed, xr_error := Some why, xr_completed_at := Some now\<rparr>"

definition named_ready :: "export_row list \<Rightarrow> nat \<Rightarrow> bool" where
  "named_ready exports export_id \<longleftrightarrow> list_ex (\<lambda>x. xr_id x = export_id \<and> xr_state x = Export_ready) exports"

definition build_failed ::
  "export_row list \<Rightarrow> object_store \<Rightarrow> nat \<Rightarrow> ustr \<times> ustr \<Rightarrow> ustr \<Rightarrow> time \<Rightarrow> export_row list \<times> object_store" where
  "build_failed exports store export_id keys why now =
     (update_where (running_export export_id) (fail_export why now) exports,
      if named_ready exports export_id then store else store(fst keys := None, snd keys := None))"

section \<open>Downloads\<close>

definition EXPORT_LIFETIME_DAYS :: int where "EXPORT_LIFETIME_DAYS = 29"

record ready_export =
  re_id :: nat
  re_artifact_key :: ustr
  re_positions_artifact_key :: "ustr option"

definition in_store :: "time \<Rightarrow> export_row \<Rightarrow> bool" where
  "in_store now x \<longleftrightarrow> xr_state x = Export_ready \<and> xr_artifact_key x \<noteq> None \<and>
     (case xr_completed_at x of None \<Rightarrow> False | Some t \<Rightarrow> t > now - EXPORT_LIFETIME_DAYS * 86400000000)"

definition ready_export_of :: "export_row \<Rightarrow> ready_export option" where
  "ready_export_of x = map_option (\<lambda>key. \<lparr>re_id = xr_id x, re_artifact_key = key,
     re_positions_artifact_key = xr_positions_artifact_key x\<rparr>) (xr_artifact_key x)"

definition newest_ready :: "export_row list \<Rightarrow> nat \<Rightarrow> time \<Rightarrow> ready_export option" where
  "newest_ready exports job_id now =
     (case sort_key (\<lambda>x. - xr_requested_at x)
         (filter (\<lambda>x. xr_job_id x = job_id \<and> xr_is_final x \<and> in_store now x) exports) of
        [] \<Rightarrow> None | x # _ \<Rightarrow> ready_export_of x)"

definition ready_objects :: "export_row list \<Rightarrow> nat \<Rightarrow> time \<Rightarrow> ready_export option" where
  "ready_objects exports export_id now =
     (case find (\<lambda>x. xr_id x = export_id \<and> in_store now x) exports of None \<Rightarrow> None | Some x \<Rightarrow> ready_export_of x)"

section \<open>When the results change\<close>

definition keys_of :: "export_row \<Rightarrow> ustr list" where
  "keys_of x = (case xr_artifact_key x of None \<Rightarrow> [] | Some k \<Rightarrow> [k]) @
     (case xr_positions_artifact_key x of None \<Rightarrow> [] | Some k \<Rightarrow> [k])"

definition purge_exports :: "export_row list \<Rightarrow> nat \<Rightarrow> export_row list \<times> ustr list" where
  "purge_exports exports job_id =
     (filter (\<lambda>x. xr_job_id x \<noteq> job_id) exports, concat (map keys_of (filter (\<lambda>x. xr_job_id x = job_id) exports)))"

definition unfinalize :: "export_row list \<Rightarrow> nat \<Rightarrow> time \<Rightarrow> export_row list" where
  "unfinalize exports job_id now =
     update_where (\<lambda>x. xr_job_id x = job_id \<and> xr_state x = Export_running)
       (fail_export (lit ''the job's consensus settings changed while this export was building: export it again'') now)
       (update_where (\<lambda>x. xr_job_id x = job_id \<and> xr_is_final x) (\<lambda>x. x\<lparr>xr_is_final := False\<rparr>) exports)"

definition remove_objects :: "object_store \<Rightarrow> ustr list \<Rightarrow> object_store" where
  "remove_objects store keys = (\<lambda>k. if k \<in> set keys then None else store k)"

definition fail_orphaned :: "export_row list \<Rightarrow> time \<Rightarrow> export_row list" where
  "fail_orphaned exports now = update_where (\<lambda>x. xr_state x = Export_running)
     (fail_export (lit ''the server restarted while this export was running'') now) exports"

end
