(* ===== verification/Admin_Jobs.thy ===== *)
theory Admin_Jobs
  imports Job_Creation Exports
begin

text \<open>
  \<open>routes/admin.rs\<close>, a job's life in an admin's hands: its time limit, allocations, completion and
  consensus settings, and a purge or delete with everything either takes back.  An operation that waits
  for rows others hold is two functions: what it reads before, and its transaction on the tables and the
  holds as they are once it has the rows.
\<close>

fun status_name :: "job_status \<Rightarrow> ustr" where
  "status_name Active = lit ''active''"
| "status_name Inactive = lit ''inactive''"
| "status_name Completed = lit ''completed''"

definition load_job_for_update :: "db \<Rightarrow> nat \<Rightarrow> job_row app_result" where
  "load_job_for_update db job_id = ok_or (row_with j_id job_id (db_jobs db)) (Not_found ''no such job'')"

section \<open>Holds\<close>

definition already_running :: app_error where
  "already_running = Conflict ''a purge, delete or consensus change of this job is running''"

definition purged_while_waiting :: app_error where
  "purged_while_waiting = Conflict ''the job was purged while this waited for it''"

definition refuse_while_purging :: "holds_inner \<Rightarrow> nat \<Rightarrow> nat app_result" where
  "refuse_while_purging holds job_id =
     (let taken = claims_holds_taken holds job_id
      in if claims_held holds job_id then Inl already_running else Inr taken)"

definition refuse_if_purged_since :: "holds_inner \<Rightarrow> nat \<Rightarrow> nat \<Rightarrow> check" where
  "refuse_if_purged_since holds job_id taken =
     (if claims_holds_taken holds job_id \<noteq> taken then Inl purged_while_waiting
      else if claims_held holds job_id then Inl already_running else ok)"

section \<open>The time limit\<close>

definition update_time_limit :: "db \<Rightarrow> check \<Rightarrow> nat \<Rightarrow> nat \<Rightarrow> int \<Rightarrow> (db \<times> int) app_result" where
  "update_time_limit db csrf admin job_id max_task_seconds =
     and_then csrf (\<lambda>_.
     and_then (no_fields ''the time limit is invalid''
         (field_problem ''max_task_seconds'' (time_limit_problem max_task_seconds))) (\<lambda>_.
     and_then (load_job_for_update db job_id) (\<lambda>j.
       if j_max_task_seconds j = max_task_seconds then Inr (db, max_task_seconds)
       else Inr (db\<lparr>
         db_jobs := update_key j_id job_id (\<lambda>j. j\<lparr>j_max_task_seconds := max_task_seconds\<rparr>) (db_jobs db),
         db_audit := log_detail (lit ''job.time_limit_changed'') admin (lit ''job'') job_id (Some job_id)
           (lit ''max_task_seconds '' @ show_int (j_max_task_seconds j) @ lit '' -> '' @ show_int max_task_seconds)
           (db_audit db)\<rparr>, max_task_seconds))))"

section \<open>Allocations\<close>

definition MAX_ALLOCATION_ROWS :: nat where "MAX_ALLOCATION_ROWS = 200"

record allocation_row =
  al_job_id :: nat
  al_allocation :: int

fun allocation_row_fields :: "nat list \<Rightarrow> allocation_row list \<Rightarrow> (string \<times> string) list" where
  "allocation_row_fields seen [] = []"
| "allocation_row_fields seen (r # rs) =
     field_if (\<not> between 0 100 (al_allocation r)) ''allocation'' ''between 0 and 100'' @
     field_if (al_job_id r \<in> set seen) ''job_id'' ''names a job named before it'' @
     allocation_row_fields (al_job_id r # seen) rs"

definition validate_allocations :: "allocation_row list \<Rightarrow> check" where
  "validate_allocations rows = no_fields ''allocations are invalid''
     ((if rows = [] then [(''allocations'', ''name at least one job'')]
       else field_if (length rows > MAX_ALLOCATION_ROWS) ''allocations'' ''at most 200 jobs at once'') @
      allocation_row_fields [] rows)"

text \<open>\<open>purges\<close>: each job named, with the count of its holds.\<close>

fun purges_of :: "holds_inner \<Rightarrow> allocation_row list \<Rightarrow> (nat \<times> nat) list app_result" where
  "purges_of holds [] = Inr []"
| "purges_of holds (r # rs) =
     and_then (refuse_while_purging holds (al_job_id r)) (\<lambda>taken.
     and_then (purges_of holds rs) (\<lambda>rest. Inr ((al_job_id r, taken) # rest)))"

text \<open>What a job about to be activated is given outside the transaction; each write commits on its own.\<close>

fun prepare_activation ::
  "klv_tools \<Rightarrow> builders \<Rightarrow> catalogue \<Rightarrow> job_row list \<Rightarrow> time \<Rightarrow> allocation_row list \<Rightarrow>
    leave_store \<times> object_store \<times> derived_row list \<Rightarrow> (leave_store \<times> object_store \<times> derived_row list) \<times> check" where
  "prepare_activation tools builders cat jobs now [] st = (st, ok)"
| "prepare_activation tools builders cat jobs now (r # rs) (lv, store, derived) =
     (case row_with j_id (al_job_id r) jobs of
        None \<Rightarrow> prepare_activation tools builders cat jobs now rs (lv, store, derived)
      | Some j \<Rightarrow>
          if al_allocation r \<le> 0 \<or> j_status j = Active \<or> j_status j = Completed
          then prepare_activation tools builders cat jobs now rs (lv, store, derived)
          else (case (if job_artifacts_ready lv j then Inr (lv, store)
                      else initialize_job_artifacts tools cat lv store j) of
              Inl e \<Rightarrow> ((lv, store, derived), Inl e)
            | Inr (lv1, store1) \<Rightarrow> prepare_activation tools builders cat jobs now rs
                (lv1, store1, request_derived_data builders cat jobs (j_id j) now derived)))"

fun locked_row_fields ::
  "job_row list \<Rightarrow> holds_inner \<Rightarrow> (nat \<times> nat) list \<Rightarrow> allocation_row list \<Rightarrow> (string \<times> string) list app_result" where
  "locked_row_fields jobs holds purges [] = Inr []"
| "locked_row_fields jobs holds purges (r # rs) = (case row_with j_id (al_job_id r) jobs of
     None \<Rightarrow> and_then (locked_row_fields jobs holds purges rs) (\<lambda>fields. Inr ((''job_id'', ''no such job'') # fields))
   | Some j \<Rightarrow>
       if j_status j = Completed
       then and_then (locked_row_fields jobs holds purges rs) (\<lambda>fields. Inr ((''job_id'', ''the job is completed'') # fields))
       else and_then (refuse_if_purged_since holds (al_job_id r)
           (case map_of purges (al_job_id r) of Some taken \<Rightarrow> taken | None \<Rightarrow> 0)) (\<lambda>_.
         locked_row_fields jobs holds purges rs))"

text \<open>What the active jobs not named allocate, and what is asked for.\<close>

definition others_allocated :: "job_row list \<Rightarrow> allocation_row list \<Rightarrow> int" where
  "others_allocated jobs rows =
     sum_where (\<lambda>j. j_status j = Active \<and> j_id j \<notin> set (map al_job_id rows)) j_allocation jobs"

definition named_allocated :: "allocation_row list \<Rightarrow> int" where
  "named_allocated rows = sum_list (map al_allocation rows)"

definition activate :: "int \<Rightarrow> time \<Rightarrow> job_row \<Rightarrow> job_row" where
  "activate allocation now j = j\<lparr>j_allocation := allocation, j_status := Active,
     j_time_limit_streak := (if j_status j = Active then j_time_limit_streak j else 0),
     j_set_aside_reason := None, j_activated_at := Some now,
     j_time_limit_streak_since := (if j_status j = Active then j_time_limit_streak_since j else Some now)\<rparr>"

definition deactivate :: "job_row \<Rightarrow> job_row" where
  "deactivate j = j\<lparr>j_allocation := 0, j_status := Inactive\<rparr>"

definition moved_text :: "job_row \<Rightarrow> allocation_row \<Rightarrow> ustr" where
  "moved_text j r = show_int (j_allocation j) @ lit ''% -> '' @ show_int (al_allocation r) @ lit ''%''"

definition new_status :: "allocation_row \<Rightarrow> job_status" where
  "new_status r = (if al_allocation r > 0 then Active else Inactive)"

definition audit_allocation :: "nat \<Rightarrow> job_row \<Rightarrow> allocation_row \<Rightarrow> audit_row list \<Rightarrow> audit_row list" where
  "audit_allocation admin j r audit =
     (if new_status r \<noteq> j_status j
      then log_status_change (if new_status r = Active then lit ''job.activated'' else lit ''job.deactivated'') admin
        (al_job_id r) (status_name (j_status j)) (status_name (new_status r)) (Some (moved_text j r)) audit
      else log_detail (lit ''job.allocation_changed'') admin (lit ''job'') (al_job_id r) (Some (al_job_id r))
        (moved_text j r) audit)"

text \<open>One row of the loop; \<open>before\<close> is the job as it was locked, or nothing is done for it.\<close>

definition apply_allocation ::
  "nat \<Rightarrow> time \<Rightarrow> time \<Rightarrow> job_row list \<Rightarrow> allocation_row \<Rightarrow> job_row list \<times> audit_row list \<Rightarrow>
    job_row list \<times> audit_row list" where
  "apply_allocation admin timeout now before r tables = (case row_with j_id (al_job_id r) before of
     None \<Rightarrow> tables
   | Some j \<Rightarrow>
       if al_allocation r = j_allocation j then tables
       else (case tables of (jobs, audit) \<Rightarrow>
         ((if al_allocation r > 0
           then join_at_parity (update_key j_id (al_job_id r) (activate (al_allocation r) now) jobs)
             (al_job_id r) timeout now
           else update_key j_id (al_job_id r) deactivate jobs),
          audit_allocation admin j r audit)))"

fun apply_allocations ::
  "nat \<Rightarrow> time \<Rightarrow> time \<Rightarrow> job_row list \<Rightarrow> allocation_row list \<Rightarrow> job_row list \<times> audit_row list \<Rightarrow>
    job_row list \<times> audit_row list" where
  "apply_allocations admin timeout now before [] tables = tables"
| "apply_allocations admin timeout now before (r # rs) tables =
     apply_allocations admin timeout now before rs (apply_allocation admin timeout now before r tables)"

definition changed_jobs :: "job_row list \<Rightarrow> allocation_row list \<Rightarrow> nat list" where
  "changed_jobs before rows = map al_job_id (filter (\<lambda>r. case row_with j_id (al_job_id r) before of
     None \<Rightarrow> False | Some j \<Rightarrow> al_allocation r \<noteq> j_allocation j) rows)"

definition activated_jobs :: "job_row list \<Rightarrow> allocation_row list \<Rightarrow> nat list" where
  "activated_jobs before rows = map al_job_id (filter (\<lambda>r. case row_with j_id (al_job_id r) before of
     None \<Rightarrow> False
   | Some j \<Rightarrow> al_allocation r \<noteq> j_allocation j \<and> new_status r = Active \<and> j_status j \<noteq> Active) rows)"

definition allocation_transaction ::
  "db \<Rightarrow> holds_inner \<Rightarrow> nat \<Rightarrow> allocation_row list \<Rightarrow> (nat \<times> nat) list \<Rightarrow> time \<Rightarrow> time \<Rightarrow> db app_result" where
  "allocation_transaction db holds admin rows purges timeout now =
     and_then (locked_row_fields (db_jobs db) holds purges rows) (\<lambda>fields.
     and_then (no_fields ''allocations are invalid'' fields) (\<lambda>_.
       if others_allocated (db_jobs db) rows + named_allocated rows > 100
       then Inl (Conflict ''the active jobs would allocate more than 100%'')
       else
         let (jobs, audit) = apply_allocations admin timeout now (db_jobs db) rows (db_jobs db, db_audit db)
         in Inr (db\<lparr>db_jobs := jobs, db_audit := audit\<rparr>)))"

text \<open>After the commit: the finish checks of the jobs it activated, and the answer.\<close>

definition set_allocations ::
  "db \<Rightarrow> holds_inner \<Rightarrow> finish_counters \<Rightarrow> check \<Rightarrow> nat \<Rightarrow> allocation_row list \<Rightarrow> (nat \<times> nat) list \<Rightarrow> time \<Rightarrow> time \<Rightarrow>
    (db \<times> finish_counters \<times> job_row list) app_result" where
  "set_allocations db holds fc csrf admin rows purges timeout now =
     and_then csrf (\<lambda>_.
     and_then (validate_allocations rows) (\<lambda>_.
     and_then (allocation_transaction db holds admin rows purges timeout now) (\<lambda>db1.
       Inr (db1, foldl rearm_idle fc (activated_jobs (db_jobs db) rows),
         somes (map (\<lambda>r. row_with j_id (al_job_id r) (db_jobs db1)) rows)))))"

section \<open>Completing\<close>

definition force_complete :: "db \<Rightarrow> holds_inner \<Rightarrow> finish_counters \<Rightarrow> check \<Rightarrow> nat \<Rightarrow> nat \<Rightarrow> nat \<Rightarrow>
    (db \<times> finish_counters) app_result" where
  "force_complete db holds fc csrf admin job_id purges =
     and_then csrf (\<lambda>_.
     and_then (load_job_for_update db job_id) (\<lambda>before.
     and_then (refuse_if_purged_since holds job_id purges) (\<lambda>_.
       if j_status before = Completed then Inl (Conflict ''this job is already completed'')
       else Inr (db\<lparr>db_jobs := update_key j_id job_id complete_job (db_jobs db),
           db_audit := log_status_change (lit ''job.completed'') admin job_id (status_name (j_status before))
             (lit ''completed'') None (db_audit db)\<rparr>, forget_finish fc job_id))))"

end
