(* ===== verification/Admin_Purge.thy ===== *)
theory Admin_Purge
  imports Admin_Jobs
begin

text \<open>
  \<open>routes/admin.rs\<close>: changing an opening-rack job's consensus, and purging or deleting a job -- what is
  destroyed, what the contributors give back, and what the audit log keeps.  The transactions run under
  the job's dispatch lock with its open claims and its row locked, so no claim of it is issued or
  completed between their statements; the hold they run under is taken before and released after.
\<close>

section \<open>The consensus of an opening-rack job\<close>

record consensus_body =
  cb_consensus_pct :: "f64 option"
  cb_min_results_per_rack :: "int option"
  cb_max_results_per_rack :: "int option"

record consensus_result =
  cr_job :: job_row
  cr_config :: opening_rack_config
  cr_unsettled_racks :: int
  cr_reopened :: bool

definition consensus_request ::
  "catalogue \<Rightarrow> job_row \<Rightarrow> consensus_body \<Rightarrow> (opening_rack_config \<times> consensus_settings) app_result" where
  "consensus_request cat j b =
     (if j_job_type j \<noteq> OpeningRack then Inl (Bad_request ''only an opening-rack job has consensus settings'')
      else and_then (fetch_one (map_of (cat_opening_rack cat) (j_id j))) (\<lambda>before.
        let old = consensus before;
            new = \<lparr>cs_consensus_pct = unwrap_or (cb_consensus_pct b) (cs_consensus_pct old),
              cs_min_results_per_rack = unwrap_or (cb_min_results_per_rack b) (cs_min_results_per_rack old),
              cs_max_results_per_rack = unwrap_or (cb_max_results_per_rack b) (cs_max_results_per_rack old)\<rparr>
        in and_then (no_fields ''consensus settings are invalid'' (consensus_problems (cs_consensus_pct new)
              (cs_min_results_per_rack new) (cs_max_results_per_rack new))) (\<lambda>_.
           and_then (validate_opening_rack_player cat (oc_player_config_id before) (cs_max_results_per_rack new)) (\<lambda>_.
             Inr (before, new)))))"

definition unchanged_consensus :: "progress_row list \<Rightarrow> job_row \<Rightarrow> opening_rack_config \<Rightarrow> consensus_result" where
  "unchanged_consensus rows j config = \<lparr>cr_job = j, cr_config = config,
     cr_unsettled_racks = count_where (\<lambda>p. pr_job_id p = j_id j \<and> \<not> pr_settled p) rows, cr_reopened = False\<rparr>"

definition with_consensus :: "consensus_settings \<Rightarrow> opening_rack_config \<Rightarrow> opening_rack_config" where
  "with_consensus new c = c\<lparr>oc_consensus_pct := cs_consensus_pct new,
     oc_min_results_per_rack := cs_min_results_per_rack new,
     oc_max_results_per_rack := cs_max_results_per_rack new\<rparr>"

definition set_consensus :: "catalogue \<Rightarrow> nat \<Rightarrow> consensus_settings \<Rightarrow> catalogue" where
  "set_consensus cat job_id new = cat\<lparr>cat_opening_rack :=
     map (\<lambda>(i, c). (i, if i = job_id then with_consensus new c else c)) (cat_opening_rack cat)\<rparr>"

text \<open>\<open>show_f64\<close> is the \<open>Display\<close> of a double.\<close>

definition consensus_changes :: "(f64 \<Rightarrow> ustr) \<Rightarrow> consensus_settings \<Rightarrow> consensus_settings \<Rightarrow> ustr list" where
  "consensus_changes show_f64 old new =
     (if cs_min_results_per_rack new \<noteq> cs_min_results_per_rack old
      then [lit ''min '' @ show_int (cs_min_results_per_rack old) @ lit '' -> '' @ show_int (cs_min_results_per_rack new)]
      else []) @
     (if cs_max_results_per_rack new \<noteq> cs_max_results_per_rack old
      then [lit ''max '' @ show_int (cs_max_results_per_rack old) @ lit '' -> '' @ show_int (cs_max_results_per_rack new)]
      else []) @
     (if cs_consensus_pct new \<noteq> cs_consensus_pct old
      then [lit ''consensus '' @ show_f64 (cs_consensus_pct old) @ lit ''% -> '' @ show_f64 (cs_consensus_pct new) @ lit ''%'']
      else [])"

definition consensus_transaction ::
  "(f64 \<Rightarrow> ustr) \<Rightarrow> server \<Rightarrow> export_row list \<Rightarrow> nat \<Rightarrow> nat \<Rightarrow> consensus_body \<Rightarrow> nat \<Rightarrow> time \<Rightarrow>
    (server \<times> export_row list \<times> consensus_result) app_result" where
  "consensus_transaction show_f64 sv exports admin job_id b purges now =
     and_then (load_job_for_update (sv_db sv) job_id) (\<lambda>j.
     if claims_holds_taken (sv_holds sv) job_id \<noteq> purges then Inl purged_while_waiting
     else and_then (consensus_request (sv_catalogue sv) j b) (\<lambda>(before, new).
       let old = consensus before in
       if new = old then Inr (sv, exports, unchanged_consensus (sv_progress sv) j before)
       else
         let cat = set_consensus (sv_catalogue sv) job_id new;
             (jobs, progress, unsettled) = restate_racks (db_jobs (sv_db sv)) (sv_progress sv) job_id new;
             audit = log_detail (lit ''job.consensus_changed'') admin (lit ''job'') job_id (Some job_id)
               (join_with (lit '', '') (consensus_changes show_f64 old new) @ lit ''; '' @ show_int unsettled @
                 lit '' racks unsettled'') (db_audit (sv_db sv));
             reopened = j_status j = Completed \<and> unsettled > 0;
             jobs1 = (if reopened then update_key j_id job_id (\<lambda>j. j\<lparr>j_status := Inactive\<rparr>) jobs else jobs);
             audit1 = (if reopened then log_status_change (lit ''job.deactivated'') admin job_id (lit ''completed'')
               (lit ''inactive'') None audit else audit);
             exports1 = (if j_status j = Completed then unfinalize exports job_id now else exports)
         in and_then (fetch_one (row_with j_id job_id jobs1)) (\<lambda>j1.
            Inr (sv\<lparr>sv_db := (sv_db sv)\<lparr>db_jobs := jobs1, db_audit := audit1\<rparr>, sv_progress := progress,
                sv_catalogue := cat\<rparr>, exports1,
              \<lparr>cr_job = j1, cr_config = with_consensus new before, cr_unsettled_racks = unsettled,
               cr_reopened = reopened\<rparr>))))"

text \<open>
  The request before its hold is taken: refused, answered as it stands, or to be carried out with the
  purge count it read.
\<close>

datatype consensus_start =
    Consensus_refused app_error
  | Consensus_unchanged consensus_result
  | Consensus_held nat dispatch_hold

definition begin_consensus ::
  "server \<Rightarrow> check \<Rightarrow> nat \<Rightarrow> consensus_body \<Rightarrow> holds_inner \<times> consensus_start" where
  "begin_consensus sv csrf job_id b =
     (case and_then csrf (\<lambda>_. and_then (load_job_for_update (sv_db sv) job_id) (\<lambda>j.
         and_then (consensus_request (sv_catalogue sv) j b) (\<lambda>r. Inr (j, r)))) of
        Inl e \<Rightarrow> (sv_holds sv, Consensus_refused e)
      | Inr (j, before, new) \<Rightarrow>
          if new = consensus before
          then (sv_holds sv, Consensus_unchanged (unchanged_consensus (sv_progress sv) j before))
          else
            let purges = claims_holds_taken (sv_holds sv) job_id
            in (case try_hold_claims_uncounted (sv_holds sv) job_id (sv_heartbeat_timeout sv) of
                  (holds, None) \<Rightarrow> (holds, Consensus_refused already_running)
                | (holds, Some guard) \<Rightarrow> (holds, Consensus_held purges guard)))"

text \<open>After the commit and the hold's release: an active job's finish checks.\<close>

definition after_consensus ::
  "server \<Rightarrow> finish_counters \<Rightarrow> consensus_result \<Rightarrow> (db \<Rightarrow> db) \<Rightarrow> holds_inner \<Rightarrow> server \<times> finish_counters" where
  "after_consensus sv fc r later holds_later =
     (if j_status (cr_job r) = Active
      then let fc1 = rearm_idle fc (j_id (cr_job r))
           in if cr_unsettled_racks r = 0
              then (case finish_idle_job (sv_catalogue sv) (sv_db sv) (sv_game_results sv) fc1 (sv_holds sv)
                      (j_id (cr_job r)) later holds_later of
                  Inl e \<Rightarrow> (sv, fc1)
                | Inr (db1, fc2, _) \<Rightarrow> (with_db db1 sv, fc2))
              else (sv, fc1)
      else (sv, fc))"

section \<open>What a job is about to lose\<close>

definition job_task_ids :: "db \<Rightarrow> nat \<Rightarrow> nat list" where
  "job_task_ids db job_id = map t_id (filter (\<lambda>t. t_job_id t = job_id) (db_tasks db))"

definition census_item :: "ustr \<Rightarrow> int \<Rightarrow> ustr" where
  "census_item label n = label @ lit ''='' @ show_int n"

definition job_census :: "server \<Rightarrow> nat \<Rightarrow> ustr" where
  "job_census sv job_id =
     (let db = sv_db sv; lv = sv_leaves sv; tasks = set (job_task_ids db job_id) in join_with (lit '' '')
       [census_item (lit ''tasks'') (count_where (\<lambda>t. t_job_id t = job_id) (db_tasks db)),
        census_item (lit ''claims'') (count_where (\<lambda>c. c_task_id c \<in> tasks) (db_claims db)),
        census_item (lit ''game_results'') (count_where (\<lambda>g. gs_job_id g = job_id) (sv_game_results sv)),
        census_item (lit ''leave_records'') (count_where (\<lambda>r. ld_task_id r \<in> tasks) (lv_records lv)),
        census_item (lit ''positions'') (count_where (\<lambda>r. rc_job_id r = job_id) (sv_records sv)),
        census_item (lit ''rack_standings'') (count_where (\<lambda>p. pr_job_id p = job_id) (sv_progress sv)),
        census_item (lit ''rack_progress'') (count_where (\<lambda>r. rp_job_id r = job_id) (lv_racks lv)),
        census_item (lit ''staged_results'') (count_where (\<lambda>s. sr_job_id s = job_id) (lv_staging lv)),
        census_item (lit ''artifacts'') (count_where (\<lambda>a. af_job_id a = job_id) (lv_artifacts lv))])"

section \<open>What each identity earned\<close>

text \<open>\<open>CLAIM_COMPUTE_MS\<close> of a completed claim's row; \<open>SUM\<close> leaves out a null.\<close>

definition earned_ms :: "claim_row \<Rightarrow> int" where
  "earned_ms c = (case c_completed_at c of None \<Rightarrow> 0 | Some t \<Rightarrow> claim_compute_ms t c)"

record earned =
  ea_owner :: owner
  ea_tasks :: int
  ea_compute_ms :: int
  ea_movegens :: int

definition earned_by :: "nat list \<Rightarrow> claim_row list \<Rightarrow> owner \<Rightarrow> earned" where
  "earned_by tasks claims w =
     (let mine = (\<lambda>c. c_task_id c \<in> set tasks \<and> c_state c = C_completed \<and> c_claimed_by c = w)
      in \<lparr>ea_owner = w, ea_tasks = count_where mine claims, ea_compute_ms = sum_where mine earned_ms claims,
          ea_movegens = sum_where mine c_movegens claims\<rparr>)"

text \<open>\<open>Contributions::count\<close>: \<open>GROUP BY\<close> the identity, of either kind.\<close>

definition contributions :: "nat list \<Rightarrow> claim_row list \<Rightarrow> earned list" where
  "contributions tasks claims = map (earned_by tasks claims)
     (remdups (map c_claimed_by (filter (\<lambda>c. c_task_id c \<in> set tasks \<and> c_state c = C_completed) claims)))"

definition take_back :: "earned \<Rightarrow> contributor_row \<Rightarrow> contributor_row" where
  "take_back e k = k\<lparr>k_tasks_completed := max (k_tasks_completed k - ea_tasks e) 0,
     k_compute_ms := max (k_compute_ms k - ea_compute_ms e) 0,
     k_movegens := max (k_movegens k - ea_movegens e) 0\<rparr>"

definition give_back :: "earned list \<Rightarrow> contributor_row list \<Rightarrow> contributor_row list" where
  "give_back es ks = map (\<lambda>k. case find (\<lambda>e. ea_owner e = k_owner k) es of None \<Rightarrow> k | Some e \<Rightarrow> take_back e k) ks"

section \<open>Deleting\<close>

text \<open>\<open>DELETE FROM task_claims\<close>, and what its foreign keys take along.\<close>

definition delete_claims :: "nat list \<Rightarrow> server \<Rightarrow> server" where
  "delete_claims tasks sv =
     (let db = sv_db sv; gone = map c_id (filter (\<lambda>c. c_task_id c \<in> set tasks) (db_claims db)) in
      sv\<lparr>sv_db := db\<lparr>db_claims := filter (\<lambda>c. c_task_id c \<notin> set tasks) (db_claims db),
           db_gaps := filter (\<lambda>g. g_claim_id g \<notin> set gone) (db_gaps db)\<rparr>,
         sv_records := filter (\<lambda>r. rc_claim_id r \<notin> set gone) (sv_records sv),
         sv_game_results := filter (\<lambda>g. gs_claim_id g \<notin> set gone) (sv_game_results sv),
         sv_leaves := (sv_leaves sv)\<lparr>lv_records :=
           filter (\<lambda>r. ld_claim_id r \<notin> set gone) (lv_records (sv_leaves sv))\<rparr>\<rparr>)"

text \<open>\<open>DELETE FROM tasks\<close>, once its claims are gone.\<close>

definition delete_tasks :: "nat list \<Rightarrow> server \<Rightarrow> server" where
  "delete_tasks tasks sv =
     sv\<lparr>sv_db := (sv_db sv)\<lparr>db_tasks := filter (\<lambda>t. t_id t \<notin> set tasks) (db_tasks (sv_db sv))\<rparr>,
        sv_game_results := filter (\<lambda>g. gs_task_id g \<notin> set tasks) (sv_game_results sv),
        sv_rack_requests := filter (\<lambda>r. rq_task_id r \<notin> set tasks) (sv_rack_requests sv),
        sv_game_requests := filter (\<lambda>r. gq_task_id r \<notin> set tasks) (sv_game_requests sv),
        sv_leaves := (sv_leaves sv)\<lparr>
          lv_requests := filter (\<lambda>r. lq_task_id r \<notin> set tasks) (lv_requests (sv_leaves sv)),
          lv_records := filter (\<lambda>r. ld_task_id r \<notin> set tasks) (lv_records (sv_leaves sv))\<rparr>\<rparr>"

definition delete_leave_progress :: "nat \<Rightarrow> leave_store \<Rightarrow> leave_store" where
  "delete_leave_progress job_id lv = lv\<lparr>
     lv_racks := filter (\<lambda>r. rp_job_id r \<noteq> job_id) (lv_racks lv),
     lv_staging := filter (\<lambda>s. sr_job_id s \<noteq> job_id) (lv_staging lv),
     lv_generations := filter (\<lambda>g. gn_job_id g \<noteq> job_id) (lv_generations lv),
     lv_cursors := filter (\<lambda>c. cu_job_id c \<noteq> job_id) (lv_cursors lv),
     lv_artifacts := filter (\<lambda>a. af_job_id a \<noteq> job_id) (lv_artifacts lv),
     lv_transitions := filter (\<lambda>t. tr_job_id t \<noteq> job_id) (lv_transitions lv)\<rparr>"

text \<open>Every counter of the job, and its state: as a job just created.\<close>

definition start_over :: "job_row \<Rightarrow> job_row" where
  "start_over j = j\<lparr>j_claims_issued := 0, j_games_completed := 0, j_racks_analyzed := 0, j_racks_settled := 0,
     j_racks_without_consensus := 0, j_movegens := 0, j_test_decided_status := None,
     j_test_decided_lower := None, j_test_decided_upper := None, j_test_decided_units := None,
     j_time_limit_declines := 0, j_time_limit_streak := 0, j_set_aside_reason := None,
     j_status := Inactive, j_allocation := 0, j_claims_baseline := 0,
     j_tasks_total := 0, j_tasks_completed := 0, j_compute_ms := 0, j_last_completed_at := None,
     j_time_limit_streak_since := None\<rparr>"

text \<open>\<open>ratings::mark_every_pool_for_refit\<close>: the newest run of each pool.\<close>

record rating_run =
  ru_id :: nat
  ru_pool_id :: nat
  ru_computed_at :: time
  ru_evidence_games :: "int option"

definition newest_run :: "rating_run list \<Rightarrow> rating_run \<Rightarrow> bool" where
  "newest_run runs r \<longleftrightarrow> \<not> list_ex (\<lambda>s. ru_pool_id s = ru_pool_id r \<and>
     (ru_computed_at s > ru_computed_at r \<or> (ru_computed_at s = ru_computed_at r \<and> ru_id s > ru_id r))) runs"

definition mark_every_pool_for_refit :: "rating_run list \<Rightarrow> rating_run list" where
  "mark_every_pool_for_refit runs = update_where (newest_run runs) (\<lambda>r. r\<lparr>ru_evidence_games := None\<rparr>) runs"

section \<open>Purging\<close>

record admin_state =
  as_server :: server
  as_exports :: "export_row list"
  as_rating_runs :: "rating_run list"

definition audit_in :: "(audit_row list \<Rightarrow> audit_row list) \<Rightarrow> server \<Rightarrow> server" where
  "audit_in f sv = sv\<lparr>sv_db := (sv_db sv)\<lparr>db_audit := f (db_audit (sv_db sv))\<rparr>\<rparr>"

text \<open>The objects to remove once it commits, and the census_item of tasks deleted, come with the tables.\<close>

definition purge_transaction ::
  "admin_state \<Rightarrow> nat \<Rightarrow> nat \<Rightarrow> (admin_state \<times> ustr list \<times> int) app_result" where
  "purge_transaction st admin job_id =
     and_then (load_job_for_update (sv_db (as_server st)) job_id) (\<lambda>j.
       let sv = as_server st; db = sv_db sv; tasks = job_task_ids db job_id;
           sv1 = audit_in (log_detail (lit ''job.purged.census'') admin (lit ''job'') job_id (Some job_id)
             (job_census sv job_id)) sv;
           earned = contributions tasks (db_claims db);
           sv2 = delete_claims tasks sv1;
           sv3 = with_db ((sv_db sv2)\<lparr>db_jobs := update_key j_id job_id start_over (db_jobs (sv_db sv2))\<rparr>) sv2;
           sv4 = sv3\<lparr>sv_progress := filter (\<lambda>p. pr_job_id p \<noteq> job_id) (sv_progress sv3),
             sv_leaves := delete_leave_progress job_id (sv_leaves sv3)\<rparr>;
           sv5 = delete_tasks tasks sv4;
           sv6 = audit_in (audit_log (lit ''job.purged'') (Some (By_user admin)) (Some (lit ''job'', job_id))
             (Some job_id)) sv5;
           (exports, objects) = purge_exports (as_exports st) job_id;
           sv7 = with_db ((sv_db sv6)\<lparr>db_contributors := give_back earned (db_contributors (sv_db sv6))\<rparr>) sv6
       in Inr (\<lparr>as_server = sv7, as_exports = exports,
            as_rating_runs = mark_every_pool_for_refit (as_rating_runs st)\<rparr>, objects, int (length tasks)))"

definition hold_for_purge_or_delete :: "server \<Rightarrow> nat \<Rightarrow> holds_inner \<times> dispatch_hold app_result" where
  "hold_for_purge_or_delete sv job_id =
     (case try_hold_claims (sv_holds sv) job_id (sv_heartbeat_timeout sv) of
        (holds, None) \<Rightarrow> (holds, Inl already_running)
      | (holds, Some guard) \<Rightarrow> (holds, Inr guard))"

section \<open>Deleting a job\<close>

text \<open>\<open>DELETE FROM jobs\<close>: its row, its configuration and everything that names it.\<close>

definition forget_config :: "nat \<Rightarrow> catalogue \<Rightarrow> catalogue" where
  "forget_config job_id cat = cat\<lparr>
     cat_opening_rack := filter (\<lambda>(i, _). i \<noteq> job_id) (cat_opening_rack cat),
     cat_game := filter (\<lambda>(i, _). i \<noteq> job_id) (cat_game cat),
     cat_game_pair := filter (\<lambda>(i, _). i \<noteq> job_id) (cat_game_pair cat),
     cat_leave := filter (\<lambda>(i, _). i \<noteq> job_id) (cat_leave cat)\<rparr>"

definition delete_job_row :: "nat \<Rightarrow> server \<Rightarrow> server" where
  "delete_job_row job_id sv =
     (let tasks = job_task_ids (sv_db sv) job_id;
          sv1 = delete_tasks tasks (delete_claims tasks sv);
          db = sv_db sv1
      in sv1\<lparr>sv_db := db\<lparr>db_jobs := filter (\<lambda>j. j_id j \<noteq> job_id) (db_jobs db),
               db_gaps := filter (\<lambda>g. g_job_id g \<noteq> job_id) (db_gaps db)\<rparr>,
             sv_records := filter (\<lambda>r. rc_job_id r \<noteq> job_id) (sv_records sv1),
             sv_game_results := filter (\<lambda>g. gs_job_id g \<noteq> job_id) (sv_game_results sv1),
             sv_progress := filter (\<lambda>p. pr_job_id p \<noteq> job_id) (sv_progress sv1),
             sv_leaves := delete_leave_progress job_id (sv_leaves sv1),
             sv_catalogue := forget_config job_id (sv_catalogue sv1)\<rparr>)"

definition delete_transaction :: "admin_state \<Rightarrow> nat \<Rightarrow> nat \<Rightarrow> admin_state app_result" where
  "delete_transaction st admin job_id =
     and_then (load_job_for_update (sv_db (as_server st)) job_id) (\<lambda>j.
       let sv = as_server st; db = sv_db sv; tasks = job_task_ids db job_id;
           sv1 = audit_in (\<lambda>audit. log_detail (lit ''job.deleted.census'') admin (lit ''job'') job_id None
             (job_census sv job_id) (audit_log (lit ''job.deleted'') (Some (By_user admin))
               (Some (lit ''job'', job_id)) None audit)) sv;
           earned = contributions tasks (db_claims db);
           sv2 = delete_job_row job_id sv1;
           sv3 = with_db ((sv_db sv2)\<lparr>db_contributors := give_back earned (db_contributors (sv_db sv2))\<rparr>) sv2
       in Inr \<lparr>as_server = sv3, as_exports = filter (\<lambda>x. xr_job_id x \<noteq> job_id) (as_exports st),
            as_rating_runs = mark_every_pool_for_refit (as_rating_runs st)\<rparr>)"

text \<open>What the process forgets of a deleted job once it commits.\<close>

definition forget_deleted :: "nat \<Rightarrow> dispatcher \<Rightarrow> dispatcher" where
  "forget_deleted job_id dp = dp\<lparr>dp_derived_ready := forget_derived (dp_derived_ready dp) job_id,
     dp_server := (dp_server dp)\<lparr>sv_templates := forget (sv_templates (dp_server dp)) job_id\<rparr>,
     dp_finish_checks := forget_finish (dp_finish_checks dp) job_id,
     dp_tail_merges := forget_tail_merge (dp_tail_merges dp) job_id\<rparr>"

end
