(* ===== verification/Admin_Spec.thy ===== *)
theory Admin_Spec
  imports Submit_Spec Admin_Purge
begin

text \<open>
  What an admin's operations keep of the books: shares that never pass 100%, purges and deletes that
  take back exactly what the claims they destroy had earned, and with them the books in every state the
  server can reach by its worker routes, its scheduler and its admin routes together.
\<close>

section \<open>Filtered tables\<close>

lemma fresh_key: "k \<notin> f ` A \<Longrightarrow> x \<in> A \<Longrightarrow> f x \<noteq> k"
  by blast

lemma sum_where_filter: "sum_where P f (filter Q rs) = sum_where (\<lambda>r. Q r \<and> P r) f rs"
  by (induction rs) auto

lemma count_where_filter: "count_where P (filter Q rs) = count_where (\<lambda>r. Q r \<and> P r) rs"
  by (induction rs) auto

lemma sum_where_split: "sum_where P f rs = sum_where (\<lambda>r. Q r \<and> P r) f rs + sum_where (\<lambda>r. \<not> Q r \<and> P r) f rs"
  by (induction rs) auto

lemma count_where_split: "count_where P rs = count_where (\<lambda>r. Q r \<and> P r) rs + count_where (\<lambda>r. \<not> Q r \<and> P r) rs"
  by (induction rs) auto

lemma sum_where_nonneg: "(\<And>r. r \<in> set rs \<Longrightarrow> 0 \<le> f r) \<Longrightarrow> 0 \<le> sum_where P f rs"
  by (induction rs) auto

lemma count_where_eq0: "(\<And>r. r \<in> set rs \<Longrightarrow> \<not> P r) \<Longrightarrow> count_where P rs = 0"
  by (simp add: count_where_0)

section \<open>What a purge or delete destroys\<close>

lemma in_job_task_ids:
  assumes ok: "books_ok db" and t: "t \<in> set (db_tasks db)"
  shows "t_id t \<in> set (job_task_ids db i) \<longleftrightarrow> t_job_id t = i"
proof -
  have "u = t" if "u \<in> set (db_tasks db)" "t_id u = t_id t" for u
    using distinct_map_inj_eq [OF keysD(2) [OF ok] that(1) t that(2)] .
  then show ?thesis using t by (auto simp: job_task_ids_def)
qed

lemma claim_in_job:
  assumes ok: "books_ok db" and c: "c \<in> set (db_claims db)"
  shows "c_task_id c \<in> set (job_task_ids db i) \<longleftrightarrow> c_job_id c = i"
proof -
  from task_of_claim [OF ok c] obtain t where t: "t \<in> set (db_tasks db)" "t_id t = c_task_id c" "t_job_id t = c_job_id c" .
  show ?thesis using in_job_task_ids [OF ok t(1), of i] by (simp add: t)
qed

lemma filter_cong_set: "(\<And>x. x \<in> set xs \<Longrightarrow> P x = Q x) \<Longrightarrow> filter P xs = filter Q xs"
  by (induction xs) auto

lemma claims_left:
  assumes "books_ok db"
  shows "filter (\<lambda>c. c_task_id c \<notin> set (job_task_ids db i)) (db_claims db) = filter (\<lambda>c. c_job_id c \<noteq> i) (db_claims db)"
  by (rule filter_cong_set) (simp add: claim_in_job [OF assms])

lemma tasks_left:
  assumes "books_ok db"
  shows "filter (\<lambda>t. t_id t \<notin> set (job_task_ids db i)) (db_tasks db) = filter (\<lambda>t. t_job_id t \<noteq> i) (db_tasks db)"
  by (rule filter_cong_set) (simp add: in_job_task_ids [OF assms])

text \<open>What an identity gives back is what it completed in the job.\<close>

lemma earned_owner [simp]: "ea_owner (earned_by tasks claims w) = w"
  by (simp add: earned_by_def Let_def)

lemma find_map_key:
  "find (\<lambda>e. ea_owner e = w) (map (earned_by tasks claims) ws) = (if w \<in> set ws then Some (earned_by tasks claims w) else None)"
  by (induction ws) auto

lemma find_earned:
  "find (\<lambda>e. ea_owner e = w) (contributions tasks claims) =
     (if \<exists>c\<in>set claims. c_task_id c \<in> set tasks \<and> c_state c = C_completed \<and> c_claimed_by c = w
      then Some (earned_by tasks claims w) else None)"
  unfolding contributions_def find_map_key by auto

definition earned_in :: "nat \<Rightarrow> owner \<Rightarrow> claim_row \<Rightarrow> bool" where
  "earned_in i w c \<longleftrightarrow> c_job_id c = i \<and> completed_by w c"

lemma earned_by_job:
  assumes ok: "books_ok db"
  shows "earned_by (job_task_ids db i) (db_claims db) w =
    \<lparr>ea_owner = w, ea_tasks = count_where (earned_in i w) (db_claims db),
     ea_compute_ms = sum_where (earned_in i w) compute_of (db_claims db),
     ea_movegens = sum_where (earned_in i w) c_movegens (db_claims db)\<rparr>"
proof -
  let ?P = "\<lambda>c. c_task_id c \<in> set (job_task_ids db i) \<and> c_state c = C_completed \<and> c_claimed_by c = w"
  have P: "?P c = earned_in i w c" if "c \<in> set (db_claims db)" for c
    using claim_in_job [OF ok that, of i] by (auto simp: earned_in_def completed_by_def)
  have m: "earned_ms = compute_of"
    by (rule ext) (simp add: earned_ms_def compute_of_def)
  have "count_where ?P (db_claims db) = count_where (earned_in i w) (db_claims db)"
    by (rule count_where_cong) (rule P)
  moreover have "sum_where ?P f (db_claims db) = sum_where (earned_in i w) f (db_claims db)" for f
    by (rule sum_where_cong) (rule P, assumption, rule refl)
  ultimately show ?thesis by (simp add: earned_by_def Let_def m)
qed

lemma take_back_owner [simp]: "k_owner (take_back e k) = k_owner k"
  by (simp add: take_back_def)

lemma compute_of_nonneg: "0 \<le> compute_of c"
  by (simp add: compute_of_def claim_compute_ms_def split: option.splits)

definition movegens_fit :: "db \<Rightarrow> bool" where
  "movegens_fit db \<longleftrightarrow> (\<forall>c\<in>set (db_claims db). 0 \<le> c_movegens c)"

definition without_job :: "nat \<Rightarrow> claim_row list \<Rightarrow> claim_row list" where
  "without_job i = filter (\<lambda>c. c_job_id c \<noteq> i)"

text \<open>\<open>GREATEST(..., 0)\<close> never rounds: what is left is what the remaining claims earned.\<close>

lemma left_of_completed:
  "count_where (completed_by w) (without_job i cs) = count_where (completed_by w) cs - count_where (earned_in i w) cs"
  "sum_where (completed_by w) f (without_job i cs) = sum_where (completed_by w) f cs - sum_where (earned_in i w) f cs"
  using count_where_split [of "completed_by w" cs "\<lambda>c. c_job_id c = i"]
    sum_where_split [of "completed_by w" f cs "\<lambda>c. c_job_id c = i"]
  by (simp_all add: without_job_def count_where_filter sum_where_filter earned_in_def [abs_def])

lemma contributor_after:
  assumes ok: "books_ok db" and mg: "movegens_fit db" and k: "k \<in> set (db_contributors db)"
  shows "contributor_ok (without_job i (db_claims db))
    (case find (\<lambda>e. ea_owner e = k_owner k) (contributions (job_task_ids db i) (db_claims db)) of
       None \<Rightarrow> k | Some e \<Rightarrow> take_back e k)"
proof -
  let ?w = "k_owner k" and ?C = "db_claims db"
  note kept = left_of_completed(1) [of ?w i ?C] and sums = left_of_completed(2) [of ?w _ i ?C]
  have nonneg: "0 \<le> sum_where (completed_by ?w) c_movegens (without_job i ?C)"
    by (rule sum_where_nonneg) (use mg in \<open>simp add: movegens_fit_def without_job_def\<close>)
  have nonneg': "0 \<le> sum_where (completed_by ?w) compute_of (without_job i ?C)"
    by (rule sum_where_nonneg) (rule compute_of_nonneg)
  note before = books_okD(6) [OF ok k, unfolded contributor_ok_def]
  show ?thesis
  proof (cases "\<exists>c\<in>set ?C. c_task_id c \<in> set (job_task_ids db i) \<and> c_state c = C_completed \<and> c_claimed_by c = ?w")
    case True
    have nn: "0 \<le> count_where (completed_by ?w) (without_job i ?C)" by simp
    have "contributor_ok (without_job i ?C) (take_back (earned_by (job_task_ids db i) ?C ?w) k)"
      using before nonneg nonneg' nn unfolding kept sums
      by (simp add: contributor_ok_def take_back_def earned_by_job [OF ok] kept sums)
    with True show ?thesis by (simp add: find_earned)
  next
    case False
    have none: "\<not> earned_in i ?w c" if "c \<in> set ?C" for c
      using False that claim_in_job [OF ok that, of i] by (auto simp: earned_in_def completed_by_def)
    have "count_where (earned_in i ?w) ?C = 0" "sum_where (earned_in i ?w) f ?C = 0" for f
      using none by (simp_all add: count_where_eq0 sum_where_none)
    then have "contributor_ok (without_job i ?C) k"
      using before by (simp add: contributor_ok_def kept sums)
    then show ?thesis unfolding find_earned if_not_P [OF False] by simp
  qed
qed


section \<open>The books after a job is emptied\<close>

lemma in_without_job [simp]: "c \<in> set (without_job i cs) \<longleftrightarrow> c \<in> set cs \<and> c_job_id c \<noteq> i"
  by (auto simp: without_job_def)

lemma without_job_count:
  assumes "\<And>c. c \<in> set cs \<Longrightarrow> P c \<Longrightarrow> c_job_id c \<noteq> i"
  shows "count_where P (without_job i cs) = count_where P cs"
  unfolding without_job_def count_where_filter by (rule count_where_cong) (use assms in blast)

lemma without_job_sum:
  assumes "\<And>c. c \<in> set cs \<Longrightarrow> P c \<Longrightarrow> c_job_id c \<noteq> i"
  shows "sum_where P f (without_job i cs) = sum_where P f cs"
  unfolding without_job_def sum_where_filter by (rule sum_where_cong) (use assms in blast)+

text \<open>The job rows after: those of the other jobs, and the emptied one if it stays.\<close>

definition jobs_after :: "nat \<Rightarrow> job_row list \<Rightarrow> job_row list \<Rightarrow> bool" where
  "jobs_after i jobs jobs' \<longleftrightarrow> distinct (map j_id jobs') \<and>
     (\<forall>j\<in>set jobs. j_id j \<noteq> i \<longrightarrow> j \<in> set jobs') \<and>
     (\<forall>j\<in>set jobs'. j_id j \<noteq> i \<and> j \<in> set jobs \<or> j_id j = i \<and> uncounted j \<and> status_ok j)"

lemma books_without_job:
  assumes ok: "books_ok db" and mg: "movegens_fit db"
    and c: "db_claims db' = without_job i (db_claims db)"
    and t: "db_tasks db' = filter (\<lambda>t. t_job_id t \<noteq> i) (db_tasks db)"
    and k: "db_contributors db' = give_back (contributions (job_task_ids db i) (db_claims db)) (db_contributors db)"
    and j: "jobs_after i (db_jobs db) (db_jobs db')"
  shows "books_ok db'"
proof -
  have owner: "map k_owner (give_back es ks) = map k_owner ks" for es ks
    unfolding give_back_def map_map by (rule map_cong) (simp_all split: option.split)
  have owners: "k_owner ` set (db_contributors db') = k_owner ` set (db_contributors db)"
    using arg_cong [OF owner, of set] by (simp add: k)
  have mine: "c_job_id c = t_job_id u" if "c \<in> set (db_claims db)" "u \<in> set (db_tasks db)" "c_task_id c = t_id u" for c u
    using claim_in_job [OF ok that(1), of "t_job_id u"] in_job_task_ids [OF ok that(2), of "t_job_id u"] that(3) by simp
  show ?thesis
  proof (rule books_okI, goal_cases)
    case 1
    have d: "distinct (map f (filter P xs))" if "distinct (map f xs)" for f :: "'x \<Rightarrow> 'y" and P xs
      using that by (rule distinct_map_filter)
    show ?case
      using keysD [OF ok] j by (simp add: keys_ok_def c t k owner jobs_after_def without_job_def d)
  next
    case 2
    show ?case
    proof (rule linkedI)
      fix c assume "c \<in> set (db_claims db')"
      then have c': "c \<in> set (db_claims db)" "c_job_id c \<noteq> i" by (simp_all add: c)
      show "\<exists>u\<in>set (db_tasks db'). t_id u = c_task_id c \<and> t_job_id u = c_job_id c"
        using linkedD(1) [OF ok c'(1)] c'(2) by (auto simp: t)
      show "c_claimed_by c \<in> k_owner ` set (db_contributors db')"
        using linkedD(3) [OF ok c'(1)] by (simp add: owners)
    next
      fix u assume "u \<in> set (db_tasks db')"
      then have u: "u \<in> set (db_tasks db)" "t_job_id u \<noteq> i" by (simp_all add: t)
      from linkedD(2) [OF ok u(1)] obtain b where "b \<in> set (db_jobs db)" "j_id b = t_job_id u" by auto
      moreover from this u(2) j have "b \<in> set (db_jobs db')" by (simp add: jobs_after_def)
      ultimately show "t_job_id u \<in> j_id ` set (db_jobs db')" by (metis imageI)
    qed
  next
    case (3 u)
    then have u: "u \<in> set (db_tasks db)" "t_job_id u \<noteq> i" by (simp_all add: t)
    have other: "c_job_id c \<noteq> i" if "c \<in> set (db_claims db)" "c_task_id c = t_id u" for c
      using mine [OF that(1) u(1) that(2)] u(2) by simp
    have "open_of (without_job i (db_claims db)) (t_id u) = open_of (db_claims db) (t_id u)"
      "done_of (without_job i (db_claims db)) (t_id u) = done_of (db_claims db) (t_id u)"
      unfolding open_of_def done_of_def by (rule without_job_count, elim conjE, rule other, assumption+)+
    with books_okD(3) [OF ok u(1)] show ?case by (simp add: slot_ok_def c)
  next
    case (4 b)
    then consider "j_id b \<noteq> i" "b \<in> set (db_jobs db)" | "j_id b = i" "uncounted b"
      using j by (auto simp: jobs_after_def)
    then show ?case
    proof cases
      case 1
      have "count_where (\<lambda>c. c_job_id c = j_id b) (without_job i (db_claims db)) = count_where (\<lambda>c. c_job_id c = j_id b) (db_claims db)"
        by (rule without_job_count) (use 1 in simp)
      moreover have "sum_where (completed_in (j_id b)) f (without_job i (db_claims db)) = sum_where (completed_in (j_id b)) f (db_claims db)" for f
        by (rule without_job_sum) (use 1 in \<open>simp add: completed_in_def\<close>)
      moreover have "count_where (\<lambda>t. t_job_id t = j_id b) (filter (\<lambda>t. t_job_id t \<noteq> i) (db_tasks db)) =
          count_where (\<lambda>t. t_job_id t = j_id b) (db_tasks db)"
        unfolding count_where_filter by (rule count_where_cong) (use 1 in auto)
      moreover have "count_where (\<lambda>t. t_job_id t = j_id b \<and> t_state t = T_completed) (filter (\<lambda>t. t_job_id t \<noteq> i) (db_tasks db)) =
          count_where (\<lambda>t. t_job_id t = j_id b \<and> t_state t = T_completed) (db_tasks db)"
        unfolding count_where_filter by (rule count_where_cong) (use 1 in auto)
      ultimately show ?thesis
        using books_okD(4) [OF ok 1(2)] by (simp add: job_ok_def c t)
    next
      case 2
      have "count_where (\<lambda>c. c_job_id c = i) (without_job i (db_claims db)) = 0"
        "count_where (\<lambda>t. t_job_id t = i) (filter (\<lambda>t. t_job_id t \<noteq> i) (db_tasks db)) = 0"
        "count_where (\<lambda>t. t_job_id t = i \<and> t_state t = T_completed) (filter (\<lambda>t. t_job_id t \<noteq> i) (db_tasks db)) = 0"
        by (simp_all add: count_where_0)
      moreover have "sum_where (completed_in i) f (without_job i (db_claims db)) = 0" for f
        by (rule sum_where_none) (simp add: completed_in_def)
      ultimately show ?thesis
        using 2 by (simp add: job_ok_def uncounted_def c t)
    qed
  next
    case (5 b)
    then show ?case using j books_okD(5) [OF ok] by (auto simp: jobs_after_def)
  next
    case (6 b)
    then obtain a where "a \<in> set (db_contributors db)"
      "b = (case find (\<lambda>e. ea_owner e = k_owner a) (contributions (job_task_ids db i) (db_claims db)) of None \<Rightarrow> a | Some e \<Rightarrow> take_back e a)"
      by (auto simp: k give_back_def)
    then show ?case using contributor_after [OF ok mg, of a i] by (simp add: c)
  qed
qed


section \<open>Purges and deletes\<close>

lemma audit_in_tables [simp]:
  "db_claims (sv_db (audit_in f sv)) = db_claims (sv_db sv)" "db_tasks (sv_db (audit_in f sv)) = db_tasks (sv_db sv)"
  "db_jobs (sv_db (audit_in f sv)) = db_jobs (sv_db sv)"
  "db_contributors (sv_db (audit_in f sv)) = db_contributors (sv_db sv)"
  "db_gaps (sv_db (audit_in f sv)) = db_gaps (sv_db sv)"
  by (simp_all add: audit_in_def)

lemma delete_claims_tables [simp]:
  "db_claims (sv_db (delete_claims ts sv)) = filter (\<lambda>c. c_task_id c \<notin> set ts) (db_claims (sv_db sv))"
  "db_tasks (sv_db (delete_claims ts sv)) = db_tasks (sv_db sv)"
  "db_jobs (sv_db (delete_claims ts sv)) = db_jobs (sv_db sv)"
  "db_contributors (sv_db (delete_claims ts sv)) = db_contributors (sv_db sv)"
  by (simp_all add: delete_claims_def Let_def)

lemma delete_tasks_tables [simp]:
  "db_claims (sv_db (delete_tasks ts sv)) = db_claims (sv_db sv)"
  "db_tasks (sv_db (delete_tasks ts sv)) = filter (\<lambda>t. t_id t \<notin> set ts) (db_tasks (sv_db sv))"
  "db_jobs (sv_db (delete_tasks ts sv)) = db_jobs (sv_db sv)"
  "db_contributors (sv_db (delete_tasks ts sv)) = db_contributors (sv_db sv)"
  by (simp_all add: delete_tasks_def)

lemma job_task_ids_audit [simp]: "job_task_ids (sv_db (audit_in f sv)) i = job_task_ids (sv_db sv) i"
  by (simp add: job_task_ids_def)

lemma delete_job_row_tables [simp]:
  "db_claims (sv_db (delete_job_row i sv)) =
     filter (\<lambda>c. c_task_id c \<notin> set (job_task_ids (sv_db sv) i)) (db_claims (sv_db sv))"
  "db_tasks (sv_db (delete_job_row i sv)) =
     filter (\<lambda>t. t_id t \<notin> set (job_task_ids (sv_db sv) i)) (db_tasks (sv_db sv))"
  "db_jobs (sv_db (delete_job_row i sv)) = filter (\<lambda>j. j_id j \<noteq> i) (db_jobs (sv_db sv))"
  "db_contributors (sv_db (delete_job_row i sv)) = db_contributors (sv_db sv)"
  by (simp_all add: delete_job_row_def Let_def)

lemma with_db_tables [simp]: "sv_db (with_db db sv) = db"
  by (simp add: with_db_def)

lemma purge_tables:
  assumes "purge_transaction st admin i = Inr (st', objects, n)"
  shows "db_claims (sv_db (as_server st')) = filter (\<lambda>c. c_task_id c \<notin> set (job_task_ids (sv_db (as_server st)) i)) (db_claims (sv_db (as_server st)))"
    "db_tasks (sv_db (as_server st')) = filter (\<lambda>t. t_id t \<notin> set (job_task_ids (sv_db (as_server st)) i)) (db_tasks (sv_db (as_server st)))"
    "db_contributors (sv_db (as_server st')) =
       give_back (contributions (job_task_ids (sv_db (as_server st)) i) (db_claims (sv_db (as_server st)))) (db_contributors (sv_db (as_server st)))"
    "db_jobs (sv_db (as_server st')) = update_key j_id i start_over (db_jobs (sv_db (as_server st)))"
  using assms unfolding purge_transaction_def Let_def and_then_Inr prod.case_eq_if sum.inject prod.inject
  by - (elim exE conjE, erule subst, simp)+

lemma delete_tables:
  assumes "delete_transaction st admin i = Inr st'"
  shows "db_claims (sv_db (as_server st')) = filter (\<lambda>c. c_task_id c \<notin> set (job_task_ids (sv_db (as_server st)) i)) (db_claims (sv_db (as_server st)))"
    "db_tasks (sv_db (as_server st')) = filter (\<lambda>t. t_id t \<notin> set (job_task_ids (sv_db (as_server st)) i)) (db_tasks (sv_db (as_server st)))"
    "db_contributors (sv_db (as_server st')) =
       give_back (contributions (job_task_ids (sv_db (as_server st)) i) (db_claims (sv_db (as_server st)))) (db_contributors (sv_db (as_server st)))"
    "db_jobs (sv_db (as_server st')) = filter (\<lambda>j. j_id j \<noteq> i) (db_jobs (sv_db (as_server st)))"
  using assms unfolding delete_transaction_def Let_def and_then_Inr
  by - (elim exE conjE, drule sum.inject(2) [THEN iffD1], erule subst, simp)+

lemma started_over: "uncounted (start_over j)" "status_ok (start_over j)" "j_id (start_over j) = j_id j"
  by (simp_all add: start_over_def uncounted_def status_ok_def)

lemma jobs_after_emptied:
  assumes "distinct (map j_id jobs)"
  shows "jobs_after i jobs (update_key j_id i start_over jobs)"
  unfolding jobs_after_def
proof (intro conjI ballI impI)
  show "distinct (map j_id (update_key j_id i start_over jobs))"
    unfolding jobs.distinct_upd [OF started_over(3)] by (rule assms)
  show "j \<in> set (update_key j_id i start_over jobs)" if "j \<in> set jobs" "j_id j \<noteq> i" for j
    using that unfolding jobs.in_upd by simp
  show "j_id j \<noteq> i \<and> j \<in> set jobs \<or> j_id j = i \<and> uncounted j \<and> status_ok j"
    if "j \<in> set (update_key j_id i start_over jobs)" for j
    using that unfolding jobs.in_upd using started_over by metis
qed

lemma books_purged:
  assumes ok: "books_ok (sv_db (as_server st))" and mg: "movegens_fit (sv_db (as_server st))"
    and p: "purge_transaction st admin i = Inr (st', objects, n)"
  shows "books_ok (sv_db (as_server st'))"
proof (rule books_without_job [OF ok mg])
  note tb = purge_tables [OF p]
  show "db_claims (sv_db (as_server st')) = without_job i (db_claims (sv_db (as_server st)))"
    unfolding tb claims_left [OF ok] without_job_def ..
  show "db_tasks (sv_db (as_server st')) = filter (\<lambda>t. t_job_id t \<noteq> i) (db_tasks (sv_db (as_server st)))"
    unfolding tb tasks_left [OF ok] ..
  show "jobs_after i (db_jobs (sv_db (as_server st))) (db_jobs (sv_db (as_server st')))"
    unfolding tb by (rule jobs_after_emptied) (rule keysD(1) [OF ok])
qed (rule purge_tables(3) [OF p])

lemma books_deleted:
  assumes ok: "books_ok (sv_db (as_server st))" and mg: "movegens_fit (sv_db (as_server st))"
    and p: "delete_transaction st admin i = Inr st'"
  shows "books_ok (sv_db (as_server st'))"
proof (rule books_without_job [OF ok mg])
  note tb = delete_tables [OF p]
  show "db_claims (sv_db (as_server st')) = without_job i (db_claims (sv_db (as_server st)))"
    unfolding tb claims_left [OF ok] without_job_def ..
  show "db_tasks (sv_db (as_server st')) = filter (\<lambda>t. t_job_id t \<noteq> i) (db_tasks (sv_db (as_server st)))"
    unfolding tb tasks_left [OF ok] ..
  show "jobs_after i (db_jobs (sv_db (as_server st))) (db_jobs (sv_db (as_server st')))"
    unfolding tb jobs_after_def using keysD(1) [OF ok] by (simp add: distinct_map_filter)
qed (rule delete_tables(3) [OF p])


section \<open>Allocations\<close>

definition asked :: "allocation_row list \<Rightarrow> job_row \<Rightarrow> allocation_row option" where
  "asked rows j = find (\<lambda>r. al_job_id r = j_id j) rows"

text \<open>What a job's share is once a request is carried out.\<close>

definition share_after :: "allocation_row list \<Rightarrow> job_row \<Rightarrow> nat \<times> job_status \<times> int" where
  "share_after rows j = (case asked rows j of
     None \<Rightarrow> (j_id j, j_status j, j_allocation j)
   | Some r \<Rightarrow> (j_id j, new_status r, al_allocation r))"

definition share_of :: "job_row \<Rightarrow> nat \<times> job_status \<times> int" where
  "share_of j = (j_id j, j_status j, j_allocation j)"

lemma allocation_rows_ok:
  "allocation_row_fields seen rows = [] \<Longrightarrow>
     distinct (map al_job_id rows) \<and> set (map al_job_id rows) \<inter> set seen = {} \<and>
     (\<forall>r\<in>set rows. 0 \<le> al_allocation r \<and> al_allocation r \<le> 100)"
proof (induction rows arbitrary: seen)
  case (Cons r rows)
  from Cons.prems have r: "0 \<le> al_allocation r" "al_allocation r \<le> 100" "al_job_id r \<notin> set seen"
    and rest: "allocation_row_fields (al_job_id r # seen) rows = []"
    by (simp_all add: field_if_def between_def split: if_splits)
  note ih = Cons.IH [OF rest]
  from ih have dj: "set (map al_job_id rows) \<inter> set (al_job_id r # seen) = {}" by (elim conjE)
  then have "al_job_id r \<notin> set (map al_job_id rows)" "set (map al_job_id rows) \<inter> set seen = {}" by auto
  with ih r show ?case by (simp del: set_map)
qed simp

lemma locked_rows_ok:
  "locked_row_fields jobs holds purges rows = Inr [] \<Longrightarrow> r \<in> set rows \<Longrightarrow>
     \<exists>j. row_with j_id (al_job_id r) jobs = Some j \<and> j_status j \<noteq> Completed"
  by (induction rows) (auto simp: and_then_Inr split: option.splits if_splits)

lemma join_at_parity_shares: "map share_of (join_at_parity jobs i timeout now) = map share_of jobs"
  unfolding join_at_parity_def Let_def by (rule map_update_key) (simp add: share_of_def)

lemma join_at_parity_views: "map job_view (join_at_parity jobs i timeout now) = map job_view jobs"
  unfolding join_at_parity_def Let_def by (rule map_update_key) (simp add: job_view_def)

lemma apply_allocation_views:
  "map job_view (fst (apply_allocation admin timeout now before r (jobs, audit))) = map job_view jobs"
proof -
  have "map job_view (update_key j_id i (activate a now) jobs) = map job_view jobs"
    "map job_view (update_key j_id i deactivate jobs) = map job_view jobs" for i a
    by (rule map_update_key; simp add: job_view_def activate_def deactivate_def)+
  then show ?thesis
    by (simp add: apply_allocation_def join_at_parity_views split: option.split)
qed

lemma apply_allocations_views:
  "map job_view (fst (apply_allocations admin timeout now before rows tables)) = map job_view (fst tables)"
  by (induction rows arbitrary: tables) (simp_all add: apply_allocation_views [of _ _ _ _ _ "fst t" "snd t" for t, simplified])

text \<open>One row of a request: the job it names, and only it, has the share asked for.\<close>

lemma apply_allocation_share:
  assumes b: "row_with j_id (al_job_id r) before = Some b" "status_ok b" "j_status b \<noteq> Completed" "0 \<le> al_allocation r"
    and same: "\<And>j. j \<in> set jobs \<Longrightarrow> j_id j = al_job_id r \<Longrightarrow> share_of j = share_of b"
  shows "map share_of (fst (apply_allocation admin timeout now before r (jobs, audit))) =
    map (\<lambda>j. if j_id j = al_job_id r then (j_id j, new_status r, al_allocation r) else share_of j) jobs"
proof (cases "al_allocation r = j_allocation b")
  case True
  have "new_status r = j_status b"
    using b(2,3) True by (cases "j_status b") (auto simp: new_status_def status_ok_def)
  then have "share_of j = (if j_id j = al_job_id r then (j_id j, new_status r, al_allocation r) else share_of j)"
    if "j \<in> set jobs" for j
    using same [OF that] True by (simp add: share_of_def)
  then have "map share_of jobs =
      map (\<lambda>j. if j_id j = al_job_id r then (j_id j, new_status r, al_allocation r) else share_of j) jobs"
    by (rule map_cong [OF refl])
  with True b(1) show ?thesis by (simp add: apply_allocation_def)
next
  case False
  have upd: "map share_of (update_key j_id (al_job_id r) f jobs) =
      map (\<lambda>j. if j_id j = al_job_id r then share_of (f j) else share_of j) jobs" for f
    unfolding update_key_def update_where_def map_map by (rule map_cong) simp_all
  show ?thesis
  proof (cases "al_allocation r > 0")
    case pos: True
    show ?thesis
      using False b(1) pos by (simp add: apply_allocation_def join_at_parity_shares upd)
        (simp add: share_of_def activate_def new_status_def)
  next
    case neg: False
    with b(4) show ?thesis
      using False b(1) by (simp add: apply_allocation_def upd) (simp add: share_of_def deactivate_def new_status_def)
  qed
qed

lemma apply_allocations_shares:
  assumes "distinct (map al_job_id rows)" "distinct (map j_id jobs)"
    and "\<And>r. r \<in> set rows \<Longrightarrow> 0 \<le> al_allocation r"
    and "\<And>r. r \<in> set rows \<Longrightarrow> \<exists>b. row_with j_id (al_job_id r) before = Some b \<and> status_ok b \<and> j_status b \<noteq> Completed \<and>
      (\<forall>j\<in>set jobs. j_id j = al_job_id r \<longrightarrow> share_of j = share_of b)"
  shows "map share_of (fst (apply_allocations admin timeout now before rows (jobs, audit))) = map (share_after rows) jobs"
  using assms
proof (induction rows arbitrary: jobs audit)
  case Nil
  show ?case by (simp add: share_after_def [abs_def] asked_def share_of_def [abs_def])
next
  case (Cons r rows)
  obtain jobs1 audit1 where one: "apply_allocation admin timeout now before r (jobs, audit) = (jobs1, audit1)"
    by (rule prod.exhaust)
  obtain b where b: "row_with j_id (al_job_id r) before = Some b" "status_ok b" "j_status b \<noteq> Completed"
      "\<forall>j\<in>set jobs. j_id j = al_job_id r \<longrightarrow> share_of j = share_of b"
    using Cons.prems(4) [of r] by auto
  have shares: "map share_of jobs1 =
      map (\<lambda>j. if j_id j = al_job_id r then (j_id j, new_status r, al_allocation r) else share_of j) jobs"
    using apply_allocation_share [OF b(1-3), of jobs admin timeout now audit] Cons.prems(3) [of r] b(4) one by simp
  have ids: "map j_id jobs1 = map j_id jobs"
    using arg_cong [OF shares, of "map fst"] by (simp add: share_of_def o_def if_distrib cong: if_cong)
  have far: "al_job_id r \<notin> al_job_id ` set rows" using Cons.prems(1) by simp
  have "map share_of (fst (apply_allocations admin timeout now before rows (jobs1, audit1))) = map (share_after rows) jobs1"
  proof (rule Cons.IH)
    show "distinct (map al_job_id rows)" using Cons.prems(1) by simp
    show "distinct (map j_id jobs1)" using Cons.prems(2) ids by simp
    show "0 \<le> al_allocation q" if "q \<in> set rows" for q using Cons.prems(3) [of q] that by simp
    fix q assume q: "q \<in> set rows"
    then have ne: "al_job_id q \<noteq> al_job_id r" using far by (metis imageI)
    obtain d where d: "row_with j_id (al_job_id q) before = Some d" "status_ok d" "j_status d \<noteq> Completed"
      "\<forall>j\<in>set jobs. j_id j = al_job_id q \<longrightarrow> share_of j = share_of d"
      using Cons.prems(4) [of q] q by auto
    have "share_of j = share_of d" if j: "j \<in> set jobs1" "j_id j = al_job_id q" for j
    proof -
      have "share_of j \<in> set (map share_of jobs1)" using j(1) by simp
      then obtain k where k: "k \<in> set jobs"
        "share_of j = (if j_id k = al_job_id r then (j_id k, new_status r, al_allocation r) else share_of k)"
        unfolding shares by auto
      have "j_id k = j_id j" using k(2) by (simp add: share_of_def split: if_splits)
      with k ne j(2) d(4) show ?thesis by auto
    qed
    with d show "\<exists>b. row_with j_id (al_job_id q) before = Some b \<and> status_ok b \<and> j_status b \<noteq> Completed \<and>
        (\<forall>j\<in>set jobs1. j_id j = al_job_id q \<longrightarrow> share_of j = share_of b)" by blast
  qed
  also have "map (share_after rows) jobs1 = map (share_after (r # rows)) jobs"
  proof -
    define h where "h p = (case find (\<lambda>r. al_job_id r = fst p) rows of None \<Rightarrow> p | Some r \<Rightarrow> (fst p, new_status r, al_allocation r))" for p
    have h: "share_after rows j = h (share_of j)" for j
      unfolding share_after_def asked_def h_def share_of_def by (simp split: option.split)
    have "find (\<lambda>q. al_job_id q = al_job_id r) rows = None"
      unfolding find_None_iff using fresh_key [OF far] by blast
    then have "h (if j_id j = al_job_id r then (j_id j, new_status r, al_allocation r) else share_of j) = share_after (r # rows) j" for j
      by (auto simp: h_def share_after_def asked_def share_of_def split: option.split)
    then have "map h (map share_of jobs1) = map (share_after (r # rows)) jobs"
      unfolding shares map_map by simp
    then show ?thesis by (simp add: h [abs_def] o_def)
  qed
  finally show ?case by (simp add: one)
qed


definition allocated :: "job_row list \<Rightarrow> int" where
  "allocated jobs = sum_where (\<lambda>j. j_status j = Active) j_allocation jobs"

lemma allocated_shares: "allocated jobs = sum_list (map (\<lambda>(i, st, a). if st = Active then a else 0) (map share_of jobs))"
  unfolding allocated_def by (induction jobs) (simp_all add: share_of_def)

text \<open>What was asked for comes to what the jobs named are given.\<close>

lemma sum_asked:
  assumes "distinct (map al_job_id rows)" "distinct (map j_id jobs)"
    and "\<And>r. r \<in> set rows \<Longrightarrow> al_job_id r \<in> j_id ` set jobs"
  shows "sum_list (map (\<lambda>j. case asked rows j of None \<Rightarrow> 0 | Some r \<Rightarrow> al_allocation r) jobs) = named_allocated rows"
  using assms
proof (induction rows)
  case Nil
  show ?case by (simp add: asked_def named_allocated_def)
next
  case (Cons r rows)
  let ?f = "\<lambda>j. case asked rows j of None \<Rightarrow> 0 | Some r \<Rightarrow> al_allocation r"
  have far: "al_job_id r \<notin> al_job_id ` set rows" using Cons.prems(1) by simp
  then have z: "find (\<lambda>q. al_job_id q = al_job_id r) rows = None"
    unfolding find_None_iff by (metis imageI)
  have "(case asked (r # rows) j of None \<Rightarrow> 0 | Some r \<Rightarrow> al_allocation r) =
      ?f j + (if j_id j = al_job_id r then al_allocation r else 0)" for j
    using z by (auto simp: asked_def)
  then have "sum_list (map (\<lambda>j. case asked (r # rows) j of None \<Rightarrow> 0 | Some r \<Rightarrow> al_allocation r) jobs) =
      sum_list (map ?f jobs) + sum_list (map (\<lambda>j. if j_id j = al_job_id r then al_allocation r else 0) jobs)"
    by (simp add: sum_list_addf)
  also have "sum_list (map (\<lambda>j. if j_id j = al_job_id r then al_allocation r else 0) jobs) = al_allocation r"
  proof -
    have one: "sum_list (map (\<lambda>j. if j_id j = k then a else 0) xs) = a"
      if "distinct (map j_id xs)" "k \<in> j_id ` set xs" for k xs and a :: int
      using that
    proof (induction xs)
      case (Cons x xs)
      show ?case
      proof (cases "j_id x = k")
        case True
        then have "map (\<lambda>j. if j_id j = k then a else 0) xs = map (\<lambda>_. 0) xs"
          using Cons.prems(1) True fresh_key [of k j_id "set xs"] by (intro map_cong refl) simp
        then have "sum_list (map (\<lambda>j. if j_id j = k then a else 0) xs) = 0"
          by (simp only: sum_list_0)
        with True show ?thesis by simp
      next
        case False
        with Cons.prems have "k \<in> j_id ` set xs" by auto
        with Cons False show ?thesis by simp
      qed
    qed simp
    show ?thesis by (rule one) (use Cons.prems in simp_all)
  qed
  finally show ?case using Cons by (simp add: named_allocated_def)
qed

lemma allocated_after:
  assumes rows: "distinct (map al_job_id rows)" "\<And>r. r \<in> set rows \<Longrightarrow> 0 \<le> al_allocation r"
    and jobs: "distinct (map j_id jobs)" and named: "\<And>r. r \<in> set rows \<Longrightarrow> al_job_id r \<in> j_id ` set jobs"
    and after: "map share_of jobs' = map (share_after rows) jobs"
  shows "allocated jobs' = others_allocated jobs rows + named_allocated rows"
proof -
  let ?n = "\<lambda>j. case asked rows j of None \<Rightarrow> 0 | Some r \<Rightarrow> al_allocation r"
  let ?o = "\<lambda>j. if j_status j = Active \<and> j_id j \<notin> set (map al_job_id rows) then j_allocation j else 0"
  have "allocated jobs' = sum_list (map (\<lambda>j. case share_after rows j of (i, st, a) \<Rightarrow> if st = Active then a else 0) jobs)"
    unfolding allocated_shares after map_map by (simp add: o_def)
  also have "\<dots> = sum_list (map (\<lambda>j. ?o j + ?n j) jobs)"
  proof (rule arg_cong [where f = sum_list], rule map_cong [OF refl])
    fix j
    show "(case share_after rows j of (i, st, a) \<Rightarrow> if st = Active then a else 0) = ?o j + ?n j"
    proof (cases "asked rows j")
      case None
      then have "j_id j \<notin> set (map al_job_id rows)" by (auto simp: asked_def find_None_iff)
      with None show ?thesis by (simp add: share_after_def)
    next
      case (Some r)
      then have "r \<in> set rows" "al_job_id r = j_id j" by (auto simp: asked_def find_Some_iff)
      then have "j_id j \<in> set (map al_job_id rows)" "0 \<le> al_allocation r" using rows(2) by (simp_all, metis imageI)
      with Some show ?thesis by (simp add: share_after_def new_status_def)
    qed
  qed
  also have "\<dots> = sum_list (map ?o jobs) + sum_list (map ?n jobs)"
    by (rule sum_list_addf)
  also have "sum_list (map ?n jobs) = named_allocated rows"
    using rows(1) jobs named by (rule sum_asked)
  also have "sum_list (map ?o jobs) = others_allocated jobs rows"
    unfolding others_allocated_def by (induction jobs) simp_all
  finally show ?thesis .
qed

lemma allocation_transaction_shares:
  assumes ok: "books_ok db" and rows: "validate_allocations rows = ok"
    and t: "allocation_transaction db holds admin rows purges timeout now = Inr db'"
  shows "map share_of (db_jobs db') = map (share_after rows) (db_jobs db)"
    "map job_view (db_jobs db') = map job_view (db_jobs db)"
    "allocated (db_jobs db') \<le> 100" "db' = db\<lparr>db_jobs := db_jobs db', db_audit := db_audit db'\<rparr>"
proof -
  have r: "distinct (map al_job_id rows)" "\<And>r. r \<in> set rows \<Longrightarrow> 0 \<le> al_allocation r"
    using rows allocation_rows_ok [of "[]" rows] by (simp_all add: validate_allocations_def no_fields_ok split: if_splits)
  from t have locked: "locked_row_fields (db_jobs db) holds purges rows = Inr []"
    and room: "others_allocated (db_jobs db) rows + named_allocated rows \<le> 100"
    and db': "db' = db\<lparr>db_jobs := fst (apply_allocations admin timeout now (db_jobs db) rows (db_jobs db, db_audit db)),
       db_audit := snd (apply_allocations admin timeout now (db_jobs db) rows (db_jobs db, db_audit db))\<rparr>"
    by (auto simp: allocation_transaction_def and_then_Inr and_then_check_Inr no_fields_ok case_prod_beta split: if_splits)
  note ids = keysD(1) [OF ok]
  have named: "\<exists>b. row_with j_id (al_job_id r) (db_jobs db) = Some b \<and> status_ok b \<and> j_status b \<noteq> Completed \<and>
      (\<forall>j\<in>set (db_jobs db). j_id j = al_job_id r \<longrightarrow> share_of j = share_of b)" if q: "r \<in> set rows" for r
  proof -
    obtain b where b: "row_with j_id (al_job_id r) (db_jobs db) = Some b" "j_status b \<noteq> Completed"
      using locked_rows_ok [OF locked q] by blast
    note b' = jobs.row_Some [OF b(1)]
    have "j = b" if "j \<in> set (db_jobs db)" "j_id j = al_job_id r" for j
      using distinct_map_inj_eq [OF ids that(1), of b] b' that(2) by simp
    with b b' books_okD(5) [OF ok, of b] show ?thesis by blast
  qed
  show shares: "map share_of (db_jobs db') = map (share_after rows) (db_jobs db)"
    unfolding db' using apply_allocations_shares [OF r(1) ids r(2) named] by simp
  show "map job_view (db_jobs db') = map job_view (db_jobs db)"
    unfolding db' using apply_allocations_views [of admin timeout now "db_jobs db" rows "(db_jobs db, db_audit db)"] by simp
  have "al_job_id r \<in> j_id ` set (db_jobs db)" if "r \<in> set rows" for r
    using named [OF that] jobs.row_Some by (metis imageI)
  from allocated_after [OF r ids this shares] room show "allocated (db_jobs db') \<le> 100" by simp
  show "db' = db\<lparr>db_jobs := db_jobs db', db_audit := db_audit db'\<rparr>"
    unfolding db' by simp
qed

lemma books_allocated:
  assumes ok: "books_ok db" and rows: "validate_allocations rows = ok"
    and t: "allocation_transaction db holds admin rows purges timeout now = Inr db'"
  shows "books_ok db'"
proof -
  note tx = allocation_transaction_shares [OF ok rows t]
  have st: "status_ok j" if "j \<in> set (db_jobs db')" for j
  proof -
    have "share_of j \<in> set (map (share_after rows) (db_jobs db))"
      using that unfolding tx(1) [symmetric] by simp
    then obtain i where i: "i \<in> set (db_jobs db)" "share_of j = share_after rows i" by auto
    show ?thesis
    proof (cases "asked rows i")
      case None
      with i books_okD(5) [OF ok i(1)] show ?thesis by (simp add: share_after_def share_of_def status_ok_def)
    next
      case (Some r)
      then have "r \<in> set rows" by (auto simp: asked_def find_Some_iff)
      then have "0 \<le> al_allocation r"
        using rows allocation_rows_ok [of "[]" rows] by (simp add: validate_allocations_def no_fields_ok split: if_splits)
      with Some i show ?thesis by (auto simp: share_after_def share_of_def status_ok_def new_status_def split: if_splits)
    qed
  qed
  have "books_ok (db\<lparr>db_jobs := db_jobs db'\<rparr>)"
    by (rule books_jobs [OF ok tx(2) st])
  then have "books_ok (db\<lparr>db_jobs := db_jobs db'\<rparr>\<lparr>db_audit := db_audit db'\<rparr>)" by simp
  then show ?thesis by (subst tx(4)) simp
qed


section \<open>Shares given and never raised but by an admin\<close>

definition part_of :: "job_row \<Rightarrow> int" where
  "part_of j = (if j_status j = Active then j_allocation j else 0)"

lemma allocated_parts: "allocated jobs = sum_list (map part_of jobs)"
  unfolding allocated_def by (induction jobs) (simp_all add: part_of_def)

lemma allocated_update_where:
  "(\<And>j. j \<in> set jobs \<Longrightarrow> P j \<Longrightarrow> part_of (f j) \<le> part_of j) \<Longrightarrow> allocated (update_where P f jobs) \<le> allocated jobs"
  unfolding allocated_parts by (induction jobs) (auto intro: add_mono)

lemma allocated_update_key:
  "(\<And>j. j \<in> set jobs \<Longrightarrow> j_id j = k \<Longrightarrow> part_of (f j) \<le> part_of j) \<Longrightarrow>
     allocated (update_key j_id k f jobs) \<le> allocated jobs"
  unfolding update_key_def by (rule allocated_update_where)

lemma release_claim_jobs: "db_jobs (fst (release_claim db i s)) = db_jobs db"
  by (simp add: release_claim_def split: option.split)

lemma reclaim_jobs [simp]: "db_jobs (reclaim_expired_for db job_ids timeout locked now) = db_jobs db"
  by (simp add: reclaim_expired_for_def Let_def)

lemma allocated_unsettle: "allocated (unsettle jobs i w now) \<le> allocated jobs"
  unfolding unsettle_def by (rule allocated_update_where) (simp add: part_of_def)

lemma allocated_lift: "allocated (lift_passed_over jobs passed pace locked) \<le> allocated jobs"
  unfolding lift_passed_over_def by (rule allocated_update_where) (simp add: part_of_def)

lemma allocated_join: "allocated (join_at_parity jobs i w now) \<le> allocated jobs"
  by (simp add: allocated_shares join_at_parity_shares)

lemma allocated_record_time_limit:
  assumes ids: "distinct (map j_id (db_jobs db))" and ok: "\<And>j. j \<in> set (db_jobs db) \<Longrightarrow> 0 \<le> j_allocation j"
    and r: "record_time_limit db i declined = Inr (db', aside)"
  shows "allocated (db_jobs db') \<le> allocated (db_jobs db)"
proof -
  from r obtain j where j: "row_with j_id i (db_jobs db) = Some j"
    by (auto simp: record_time_limit_def fetch_one_def ok_or_def split: option.splits)
  have only: "k = j" if "k \<in> set (db_jobs db)" "j_id k = i" for k
    using distinct_map_inj_eq [OF ids that(1), of j] jobs.row_Some [OF j] that(2) by simp
  have count: "allocated (update_key j_id i (\<lambda>_. count_time_limits a b j) (db_jobs db)) \<le> allocated (db_jobs db)" for a b
    by (rule allocated_update_key) (use only in \<open>simp add: part_of_def count_time_limits_def\<close>)
  have aside: "allocated (update_key j_id i (set_aside reason) (update_key j_id i (\<lambda>_. count_time_limits a b j) (db_jobs db))) \<le>
      allocated (db_jobs db)" for a b reason
  proof (rule order_trans [OF allocated_update_key count [of a b]])
    fix k assume "k \<in> set (update_key j_id i (\<lambda>_. count_time_limits a b j) (db_jobs db))"
    then have "0 \<le> j_allocation k"
      using ok jobs.row_Some [OF j] unfolding jobs.in_upd by (auto simp: count_time_limits_def)
    then show "part_of (set_aside reason k) \<le> part_of k" by (simp add: part_of_def set_aside_def)
  qed
  show ?thesis
    using r unfolding record_time_limit_def j fetch_one_def ok_or_def and_then_Inr Let_def
    by (auto simp: count aside split: option.splits if_splits)
qed

lemma nonneg_shares: "books_ok db \<Longrightarrow> j \<in> set (db_jobs db) \<Longrightarrow> 0 \<le> j_allocation j"
  using books_okD(5) by (auto simp: status_ok_def)

lemma allocated_time_limit:
  assumes "books_ok db" "record_time_limit db i declined = Inr (db', aside)"
  shows "allocated (db_jobs db') \<le> allocated (db_jobs db)"
  by (rule allocated_record_time_limit [OF keysD(1) [OF assms(1)] nonneg_shares [OF assms(1)] assms(2)])

lemma allocated_decline:
  assumes ok: "books_ok db"
    and r: "decline_task db holds identity token reason missing timeout now = Inr db'"
  shows "allocated (db_jobs db') \<le> allocated (db_jobs db)"
proof -
  from r obtain c t where ct: "open_claim db token identity = Some (c, t)"
    by (auto simp: decline_task_def and_then_Inr ok_or_def split: option.splits)
  let ?db1 = "fst (release_claim db (c_id c) C_declined)"
  let ?db2 = "if reason = lit ''task_failed'' \<or> reason = lit ''time_limit'' then ?db1
    else ?db1\<lparr>db_jobs := unsettle (db_jobs ?db1) (t_job_id t) timeout now\<rparr>"
  have "books_ok ?db1" by (rule books_release [OF ok]) simp_all
  then have ok2: "books_ok ?db2" by (simp add: books_unsettle)
  have le2: "allocated (db_jobs ?db2) \<le> allocated (db_jobs db)" by (simp add: allocated_unsettle release_claim_jobs)
  from r obtain db3 aside gaps audit where
    m: "(if reason = lit ''time_limit'' then record_time_limit ?db2 (t_job_id t) (Some (limit_secs c))
          else Inr (?db2, False)) = Inr (db3, aside)" and
    db': "db' = db3\<lparr>db_gaps := gaps, db_audit := audit\<rparr>"
    unfolding decline_task_def ct by (auto simp: and_then_Inr ok_or_def Let_def simp del: lit_def)
  have "allocated (db_jobs db3) \<le> allocated (db_jobs ?db2)"
  proof (cases "reason = lit ''time_limit''")
    case True
    with m have "record_time_limit ?db2 (t_job_id t) (Some (limit_secs c)) = Inr (db3, aside)" by simp
    with ok2 show ?thesis by (rule allocated_time_limit)
  next
    case False
    with m show ?thesis by simp
  qed
  with le2 show ?thesis by (simp add: db')
qed

lemma allocated_refuse_late:
  assumes ok: "books_ok db" and r: "refuse_late db c i = Inr db'"
  shows "allocated (db_jobs db') \<le> allocated (db_jobs db)"
  using r keysD(1) [OF ok] nonneg_shares [OF ok]
  by (auto simp: refuse_late_def Let_def and_then_Inr release_claim_jobs dest!: allocated_record_time_limit [rotated 2])

lemma allocated_overruns:
  assumes "books_ok db"
  shows "allocated (db_jobs (fst (count_overruns db holds locked job_ids))) \<le> allocated (db_jobs db)"
proof -
  have one: "allocated (db_jobs (fst (count_overruns_of d locked i))) \<le> allocated (db_jobs d) \<and>
      books_ok (fst (count_overruns_of d locked i))" if "books_ok d" for d i
    using books_record_time_limit [OF that, of i None] allocated_time_limit [OF that, of i None] that
    by (auto simp: count_overruns_of_def split: sum.splits)
  have "books_ok d \<Longrightarrow> allocated (db_jobs (fst (count_each holds locked is d))) \<le> allocated (db_jobs d)" for d "is"
  proof (induction "is" arbitrary: d)
    case (Cons i "is")
    obtain d1 aside where d1: "count_overruns_of d locked i = (d1, aside)" by fastforce
    obtain d2 asides where d2: "count_each holds locked is d1 = (d2, asides)" by fastforce
    have "books_ok d1" "allocated (db_jobs d1) \<le> allocated (db_jobs d)" using one [OF Cons.prems, of i] d1 by simp_all
    from this(2) Cons.IH [OF this(1)] Cons.IH [OF Cons.prems] d1 d2 show ?case by simp
  qed simp
  then show ?thesis using assms by (simp add: count_overruns_def)
qed

lemma allocated_issue:
  assumes "issue_claim db identity job_id caps task_id created standing claim_id token now = Inr (Some (db', tok, secs))"
  shows "allocated (db_jobs db') \<le> allocated (db_jobs db)"
  using assms by (rule issue_claimD) (simp add: allocated_update_key part_of_def)

lemma allocated_complete:
  assumes "complete_submission db c i p movegens skipped now = Inr db'"
  shows "allocated (db_jobs db') \<le> allocated (db_jobs db)"
  using assms unfolding complete_submission_def Let_def
  by (auto simp: and_then_Inr part_of_def count_result_def intro!: allocated_update_where split: if_splits)

lemma allocated_step:
  assumes "dispatch_step db db'" "books_ok db" "length (db_jobs db') = length (db_jobs db)"
  shows "allocated (db_jobs db') \<le> allocated (db_jobs db)"
  using assms
proof cases
  case new_task_claimed
  then show ?thesis using allocated_issue by fastforce
next
  case available_task_claimed
  then show ?thesis using allocated_issue by fastforce
next
  case (heard identity token locked now)
  then show ?thesis by (auto simp: heartbeat_def and_then_check_Inr)
qed (use assms(2,3) in \<open>auto intro: allocated_decline allocated_complete allocated_refuse_late allocated_overruns
  allocated_join allocated_unsettle allocated_lift\<close>)


section \<open>Every state the server can reach\<close>

text \<open>
  The transactions of the worker routes and the scheduler (\<open>dispatch_step\<close>), those of the admin routes,
  and a job's completion, in any order.  A job is made by \<open>insert_job\<close> alone, and what a worker writes
  satisfies the \<open>CHECK (movegens >= 0)\<close> of its column.
\<close>

inductive service_step :: "db \<Rightarrow> db \<Rightarrow> bool" where
  worked: "\<lbrakk>dispatch_step db db'; length (db_jobs db') = length (db_jobs db); movegens_fit db'\<rbrakk> \<Longrightarrow> service_step db db'"
| created: "\<lbrakk>insert_job (cat, db_jobs db, db_audit db) b admin min_version plan letterdist_name blanks i now =
      Inr ((cat', jobs', audit'), job); i \<notin> j_id ` set (db_jobs db)\<rbrakk> \<Longrightarrow>
    service_step db (db\<lparr>db_jobs := jobs', db_audit := audit'\<rparr>)"
| time_limit: "update_time_limit db csrf admin i seconds = Inr (db', seconds') \<Longrightarrow> service_step db db'"
| shares: "\<lbrakk>validate_allocations rows = ok; allocation_transaction db holds admin rows purges timeout now = Inr db'\<rbrakk> \<Longrightarrow>
    service_step db db'"
| stopped: "force_complete db holds fc csrf admin i purges = Inr (db', fc') \<Longrightarrow> service_step db db'"
| finished: "service_step db (complete_active_job db i reason)"
| consensus: "consensus_transaction show_f64 sv exports admin i b purges now = Inr (sv', exports', r) \<Longrightarrow>
    service_step (sv_db sv) (sv_db sv')"
| purged: "purge_transaction st admin i = Inr (st', objects, n) \<Longrightarrow>
    service_step (sv_db (as_server st)) (sv_db (as_server st'))"
| deleted: "delete_transaction st admin i = Inr st' \<Longrightarrow>
    service_step (sv_db (as_server st)) (sv_db (as_server st'))"

inductive service_reachable :: "db \<Rightarrow> bool" where
  start: "service_reachable no_jobs"
| step: "service_reachable db \<Longrightarrow> service_step db db' \<Longrightarrow> service_reachable db'"

definition service_ok :: "db \<Rightarrow> bool" where
  "service_ok db \<longleftrightarrow> books_ok db \<and> movegens_fit db \<and> allocated (db_jobs db) \<le> 100"

lemma insert_job_new:
  assumes "insert_job (cat, jobs, audit) b admin min_version plan letterdist_name blanks i now = Inr ((cat', jobs', audit'), job)"
  shows "job = new_job_row b admin min_version i now" "jobs' = jobs @ [job]"
  using assms by (auto simp: insert_job_def Let_def and_then_Inr)

lemma new_job_row_fresh: "uncounted (new_job_row b admin v i now)" "status_ok (new_job_row b admin v i now)"
  "j_id (new_job_row b admin v i now) = i" "part_of (new_job_row b admin v i now) = 0"
  by (simp_all add: new_job_row_def uncounted_def status_ok_def part_of_def)

text \<open>Statements on one job's row that leave its totals alone and do not raise its share.\<close>

lemma service_update:
  assumes ok: "service_ok db" and v: "\<And>j. P j \<Longrightarrow> job_view (f j) = job_view j"
    and st: "\<And>j. P j \<Longrightarrow> status_ok j \<Longrightarrow> status_ok (f j)"
    and le: "\<And>j. P j \<Longrightarrow> status_ok j \<Longrightarrow> part_of (f j) \<le> part_of j"
  shows "service_ok (db\<lparr>db_jobs := update_where P f (db_jobs db)\<rparr>)"
proof -
  have b: "books_ok db" using ok by (simp add: service_ok_def)
  have "books_ok (db\<lparr>db_jobs := update_where P f (db_jobs db)\<rparr>)"
  proof (rule books_jobs [OF b])
    show "map job_view (update_where P f (db_jobs db)) = map job_view (db_jobs db)"
      by (rule map_update_where) (rule v)
    show "status_ok j" if "j \<in> set (update_where P f (db_jobs db))" for j
      using that books_okD(5) [OF b] st by (auto simp: set_update_where)
  qed
  moreover have "allocated (update_where P f (db_jobs db)) \<le> allocated (db_jobs db)"
    by (rule allocated_update_where) (rule le, assumption, rule books_okD(5) [OF b])
  ultimately show ?thesis using ok by (simp add: service_ok_def movegens_fit_def)
qed

lemma service_audit [simp]: "service_ok (db\<lparr>db_audit := a\<rparr>) = service_ok db"
  by (simp add: service_ok_def movegens_fit_def)

lemma service_time_limit:
  assumes "service_ok db" "update_time_limit db csrf admin i seconds = Inr (db', seconds')"
  shows "service_ok db'"
proof -
  have "service_ok (db\<lparr>db_jobs := update_where (\<lambda>j. j_id j = i) (\<lambda>j. j\<lparr>j_max_task_seconds := seconds\<rparr>) (db_jobs db)\<rparr>)"
    by (rule service_update [OF assms(1)]) (simp_all add: job_view_def status_ok_def part_of_def)
  then have "service_ok (db\<lparr>db_jobs := update_key j_id i (\<lambda>j. j\<lparr>j_max_task_seconds := seconds\<rparr>) (db_jobs db), db_audit := a\<rparr>)" for a
    unfolding update_key_def service_audit .
  with assms show ?thesis
    by (auto simp: update_time_limit_def and_then_Inr and_then_check_Inr split: if_splits)
qed

lemma complete_job_simps: "job_view (complete_job j) = job_view j" "status_ok (complete_job j)"
  "status_ok j \<Longrightarrow> part_of (complete_job j) \<le> part_of j"
  by (auto simp: complete_job_def job_view_def status_ok_def part_of_def)

lemma service_stopped:
  assumes "service_ok db" "force_complete db holds fc csrf admin i purges = Inr (db', fc')"
  shows "service_ok db'"
proof -
  have "service_ok (db\<lparr>db_jobs := update_where (\<lambda>j. j_id j = i) complete_job (db_jobs db)\<rparr>)"
    by (rule service_update [OF assms(1)]) (simp_all add: complete_job_simps)
  then have "service_ok (db\<lparr>db_jobs := update_key j_id i complete_job (db_jobs db), db_audit := a\<rparr>)" for a
    unfolding update_key_def service_audit .
  with assms show ?thesis
    by (auto simp: force_complete_def and_then_Inr and_then_check_Inr split: if_splits)
qed

lemma service_finished:
  assumes "service_ok db"
  shows "service_ok (complete_active_job db i reason)"
proof -
  have "service_ok (db\<lparr>db_jobs := update_where (\<lambda>j. j_id j = i \<and> j_status j = Active) complete_job (db_jobs db)\<rparr>)"
    by (rule service_update [OF assms]) (simp_all add: complete_job_simps)
  then show ?thesis
    using assms by (simp add: complete_active_job_def audit_completion_def)
qed

lemma service_consensus:
  assumes "service_ok (sv_db sv)" "consensus_transaction show_f64 sv exports admin i b purges now = Inr (sv', exports', r)"
  shows "service_ok (sv_db sv')"
proof -
  let ?f = "\<lambda>n m j. j\<lparr>j_racks_settled := n, j_racks_without_consensus := m\<rparr>"
  let ?i = "\<lambda>j. j\<lparr>j_status := Inactive\<rparr>"
  have one: "service_ok ((sv_db sv)\<lparr>db_jobs := update_key j_id i (?f n m) (db_jobs (sv_db sv)), db_audit := a\<rparr>)" for n m a
    unfolding service_audit update_key_def
    by (rule service_update [OF assms(1)]) (simp_all add: job_view_def status_ok_def part_of_def)
  obtain j where j: "row_with j_id i (db_jobs (sv_db sv)) = Some j"
    using assms(2) by (auto simp: consensus_transaction_def load_job_for_update_def and_then_Inr ok_or_def split: option.splits)
  have only: "k = j" if "k \<in> set (db_jobs (sv_db sv))" "j_id k = i" for k
    using distinct_map_inj_eq [OF keysD(1) that(1), of j] jobs.row_Some [OF j] that(2) assms(1) by (simp add: service_ok_def)
  have two: "service_ok ((sv_db sv)\<lparr>db_jobs := update_key j_id i ?i (update_key j_id i (?f n m) (db_jobs (sv_db sv))), db_audit := a\<rparr>)"
    if completed: "j_status j = Completed" for n m a
  proof -
    let ?jobs = "update_key j_id i (?f n m) (db_jobs (sv_db sv))"
    have "update_key j_id i ?i ?jobs = update_where (\<lambda>k. j_id k = i \<and> j_status k = Completed) ?i ?jobs"
      unfolding update_key_def [of j_id i ?i]
    proof (rule update_where_cong)
      fix k assume "k \<in> set ?jobs"
      then show "(j_id k = i) = (j_id k = i \<and> j_status k = Completed)"
        using only completed unfolding jobs.in_upd by auto
    qed simp
    moreover have "service_ok ((sv_db sv)\<lparr>db_jobs := ?jobs\<rparr>\<lparr>db_jobs :=
        update_where (\<lambda>k. j_id k = i \<and> j_status k = Completed) ?i (db_jobs ((sv_db sv)\<lparr>db_jobs := ?jobs\<rparr>))\<rparr>)"
      by (rule service_update) (use one [of _ m n] in \<open>simp_all add: job_view_def status_ok_def part_of_def\<close>)
    ultimately show ?thesis unfolding service_audit by simp
  qed
  show ?thesis
    using assms(2) one two assms(1)
    unfolding consensus_transaction_def load_job_for_update_def j ok_or_def Let_def restate_racks_def
    by (auto simp: and_then_Inr simp del: service_audit split: if_splits)
qed

lemma service_shares:
  assumes ok: "service_ok db" and rows: "validate_allocations rows = ok"
    and t: "allocation_transaction db holds admin rows purges timeout now = Inr db'"
  shows "service_ok db'"
proof -
  have b: "books_ok db" using ok by (simp add: service_ok_def)
  note tx = allocation_transaction_shares [OF b rows t]
  have "db_claims db' = db_claims db" by (subst tx(4)) simp
  with ok books_allocated [OF b rows t] tx(3) show ?thesis
    by (simp add: service_ok_def movegens_fit_def)
qed

lemma service_emptied:
  assumes ok: "service_ok db" and books: "books_ok db'" and claims: "set (db_claims db') \<subseteq> set (db_claims db)"
    and jobs: "allocated (db_jobs db') \<le> allocated (db_jobs db)"
  shows "service_ok db'"
  using assms by (auto simp: service_ok_def movegens_fit_def)

lemma service_purged:
  assumes ok: "service_ok (sv_db (as_server st))" and p: "purge_transaction st admin i = Inr (st', objects, n)"
  shows "service_ok (sv_db (as_server st'))"
proof (rule service_emptied [OF ok])
  have b: "books_ok (sv_db (as_server st))" "movegens_fit (sv_db (as_server st))" using ok by (simp_all add: service_ok_def)
  show "books_ok (sv_db (as_server st'))" using b p by (rule books_purged)
  show "allocated (db_jobs (sv_db (as_server st'))) \<le> allocated (db_jobs (sv_db (as_server st)))"
    unfolding purge_tables [OF p] using nonneg_shares [OF b(1)]
    by (intro allocated_update_key) (simp add: part_of_def start_over_def)
qed (simp add: purge_tables [OF p] subset_eq)

lemma service_deleted:
  assumes ok: "service_ok (sv_db (as_server st))" and p: "delete_transaction st admin i = Inr st'"
  shows "service_ok (sv_db (as_server st'))"
proof (rule service_emptied [OF ok])
  have b: "books_ok (sv_db (as_server st))" "movegens_fit (sv_db (as_server st))" using ok by (simp_all add: service_ok_def)
  show "books_ok (sv_db (as_server st'))" using b p by (rule books_deleted)
  have "allocated (filter P jobs) \<le> allocated jobs" if "\<And>j. j \<in> set jobs \<Longrightarrow> 0 \<le> j_allocation j" for P and jobs :: "job_row list"
    using that unfolding allocated_parts
    by (induction jobs) (auto simp: part_of_def intro: add_increasing)
  then show "allocated (db_jobs (sv_db (as_server st'))) \<le> allocated (db_jobs (sv_db (as_server st)))"
    unfolding delete_tables [OF p] using nonneg_shares [OF b(1)] by blast
qed (simp add: delete_tables [OF p] subset_eq)

lemma service_created:
  assumes ok: "service_ok db" and r: "insert_job (cat, db_jobs db, db_audit db) b admin min_version plan letterdist_name blanks i now =
      Inr ((cat', jobs', audit'), job)" and new: "i \<notin> j_id ` set (db_jobs db)"
  shows "service_ok (db\<lparr>db_jobs := jobs', db_audit := audit'\<rparr>)"
proof -
  note j = insert_job_new [OF r]
  have "books_ok (db\<lparr>db_jobs := db_jobs db @ [job]\<rparr>)"
    by (rule books_job_made) (use ok new in \<open>simp_all add: service_ok_def j new_job_row_fresh\<close>)
  then show ?thesis
    unfolding service_audit j(2) using ok
    by (simp add: service_ok_def movegens_fit_def allocated_parts j(1) new_job_row_fresh)
qed

lemma service_worked:
  assumes "service_ok db" "dispatch_step db db'" "length (db_jobs db') = length (db_jobs db)" "movegens_fit db'"
  shows "service_ok db'"
  using assms books_step [OF assms(2)] allocated_step [OF assms(2) _ assms(3)] by (auto simp: service_ok_def)

lemma service_start: "service_ok no_jobs"
  using books_start by (simp add: service_ok_def movegens_fit_def no_jobs_def allocated_def)

lemma service_ok_step:
  assumes "service_step db db'" "service_ok db"
  shows "service_ok db'"
  using assms(1)
proof cases
  case worked
  with assms(2) show ?thesis by (rule service_worked)
next
  case created
  show ?thesis unfolding created(1) by (rule service_created [OF assms(2) created(2,3)])
next
  case time_limit
  with assms(2) show ?thesis by (rule service_time_limit)
next
  case shares
  with assms(2) show ?thesis by (rule service_shares)
next
  case stopped
  with assms(2) show ?thesis by (rule service_stopped)
next
  case finished
  with assms(2) show ?thesis by (simp add: service_finished)
next
  case consensus
  with assms(2) show ?thesis by (auto intro: service_consensus)
next
  case purged
  with assms(2) show ?thesis by (auto intro: service_purged)
next
  case deleted
  with assms(2) show ?thesis by (auto intro: service_deleted)
qed

lemma service_ok_reachable: "service_reachable db \<Longrightarrow> service_ok db"
  by (induction rule: service_reachable.induct) (auto intro: service_start service_ok_step)


section \<open>Claims\<close>

text \<open>C21: The books and the shares, whatever an admin does.  In every state the server can reach by its
  worker routes, its scheduler and its admin routes -- jobs created, allocated, completed, purged and
  deleted among claims, results, heartbeats and lapses -- every job is active exactly when its allocation
  is above zero, the active jobs together never allocate more than 100%, every job's totals are the
  counts and sums over its own tasks and claims, and every contributor's over the claims it completed.\<close>

theorem books_hold_whatever_admins_do:
  assumes "service_reachable db"
  shows "(\<forall>j\<in>set (db_jobs db). (j_status j = Active \<longleftrightarrow> j_allocation j > 0) \<and>
      j_claims_issued j = int (length (filter (\<lambda>c. c_job_id c = j_id j) (db_claims db))) \<and>
      j_tasks_total j = int (length (filter (\<lambda>t. t_job_id t = j_id j) (db_tasks db))) \<and>
      j_movegens j = sum_list (map c_movegens
        (filter (\<lambda>c. c_job_id c = j_id j \<and> c_state c = C_completed) (db_claims db)))) \<and>
    sum_list (map j_allocation (filter (\<lambda>j. j_status j = Active) (db_jobs db))) \<le> 100 \<and>
    (\<forall>k\<in>set (db_contributors db). k_tasks_completed k = int (length (filter
        (\<lambda>c. c_claimed_by c = k_owner k \<and> c_state c = C_completed) (db_claims db))) \<and>
      k_movegens k = sum_list (map c_movegens (filter
        (\<lambda>c. c_claimed_by c = k_owner k \<and> c_state c = C_completed) (db_claims db))) \<and>
      k_compute_ms k = sum_list (map compute_of (filter
        (\<lambda>c. c_claimed_by c = k_owner k \<and> c_state c = C_completed) (db_claims db))))"
proof -
  have ok: "books_ok db" and le: "allocated (db_jobs db) \<le> 100"
    using service_ok_reachable [OF assms] by (simp_all add: service_ok_def)
  have j: "(j_status j = Active \<longleftrightarrow> j_allocation j > 0) \<and>
      j_claims_issued j = int (length (filter (\<lambda>c. c_job_id c = j_id j) (db_claims db))) \<and>
      j_tasks_total j = int (length (filter (\<lambda>t. t_job_id t = j_id j) (db_tasks db))) \<and>
      j_movegens j = sum_list (map c_movegens
        (filter (\<lambda>c. c_job_id c = j_id j \<and> c_state c = C_completed) (db_claims db)))"
    if "j \<in> set (db_jobs db)" for j
    using books_okD(4,5) [OF ok that]
    by (simp add: job_ok_def status_ok_def count_where_def sum_where_def completed_in_def [abs_def])
  have k: "k_tasks_completed k = int (length (filter
        (\<lambda>c. c_claimed_by c = k_owner k \<and> c_state c = C_completed) (db_claims db))) \<and>
      k_movegens k = sum_list (map c_movegens (filter
        (\<lambda>c. c_claimed_by c = k_owner k \<and> c_state c = C_completed) (db_claims db))) \<and>
      k_compute_ms k = sum_list (map compute_of (filter
        (\<lambda>c. c_claimed_by c = k_owner k \<and> c_state c = C_completed) (db_claims db)))"
    if "k \<in> set (db_contributors db)" for k
    using books_okD(6) [OF ok that]
    by (simp add: contributor_ok_def count_where_def sum_where_def completed_by_def [abs_def])
  show ?thesis
    using j k le by (simp add: allocated_def sum_where_def)
qed

lemma given_back:
  assumes ok: "books_ok db" and mg: "movegens_fit db" and k: "k \<in> set (db_contributors db)"
    and k': "k' = (case find (\<lambda>e. ea_owner e = k_owner k) (contributions (job_task_ids db i) (db_claims db)) of
       None \<Rightarrow> k | Some e \<Rightarrow> take_back e k)"
    and mine: "mine = filter (\<lambda>c. c_job_id c = i \<and> c_claimed_by c = k_owner k \<and> c_state c = C_completed) (db_claims db)"
  shows "(k_owner k', k_tasks_completed k', k_movegens k', k_compute_ms k') =
    (k_owner k, k_tasks_completed k - int (length mine), k_movegens k - sum_list (map c_movegens mine),
     k_compute_ms k - sum_list (map compute_of mine))"
proof -
  have owner: "k_owner k' = k_owner k" by (simp add: k' split: option.split)
  have P: "earned_in i (k_owner k) = (\<lambda>c. c_job_id c = i \<and> c_claimed_by c = k_owner k \<and> c_state c = C_completed)"
    by (simp add: earned_in_def [abs_def] completed_by_def)
  have m: "int (length mine) = count_where (earned_in i (k_owner k)) (db_claims db)"
    "sum_list (map f mine) = sum_where (earned_in i (k_owner k)) f (db_claims db)" for f
    by (simp_all add: mine P count_where_def sum_where_def)
  show ?thesis
    using contributor_after [OF ok mg k, of i] books_okD(6) [OF ok k]
    unfolding k' [symmetric] m contributor_ok_def owner left_of_completed by simp
qed

text \<open>What a purge and a delete have in common.\<close>

lemma emptied_tables:
  assumes "purge_transaction st admin i = Inr (st', objects, n) \<or> delete_transaction st admin i = Inr st'"
  shows "db_claims (sv_db (as_server st')) = filter (\<lambda>c. c_task_id c \<notin> set (job_task_ids (sv_db (as_server st)) i)) (db_claims (sv_db (as_server st)))"
    "db_tasks (sv_db (as_server st')) = filter (\<lambda>t. t_id t \<notin> set (job_task_ids (sv_db (as_server st)) i)) (db_tasks (sv_db (as_server st)))"
    "db_contributors (sv_db (as_server st')) =
       give_back (contributions (job_task_ids (sv_db (as_server st)) i) (db_claims (sv_db (as_server st)))) (db_contributors (sv_db (as_server st)))"
    "db_jobs (sv_db (as_server st')) \<in> {update_key j_id i start_over (db_jobs (sv_db (as_server st))),
       filter (\<lambda>j. j_id j \<noteq> i) (db_jobs (sv_db (as_server st)))}"
  using assms purge_tables [of st admin i st' objects n] delete_tables [of st admin i st'] by fastforce+

text \<open>C22: A purge takes back what it destroys, no more and no less.  Whenever the books are right, a purge
  or a delete of a job leaves none of its tasks and claims and every other job's as they were; each
  contributor's totals go down by exactly what its completed claims in that job had earned, never
  rounded up to zero; the purged job is as one just created, the deleted one is gone, and the books are
  right again.\<close>

theorem purges_take_back_what_they_destroy:
  assumes "books_ok (sv_db (as_server st))" "\<forall>c\<in>set (db_claims (sv_db (as_server st))). 0 \<le> c_movegens c"
    and "purge_transaction st admin i = Inr (st', objects, n) \<or> delete_transaction st admin i = Inr st'"
  shows "db_claims (sv_db (as_server st')) = filter (\<lambda>c. c_job_id c \<noteq> i) (db_claims (sv_db (as_server st))) \<and>
    db_tasks (sv_db (as_server st')) = filter (\<lambda>t. t_job_id t \<noteq> i) (db_tasks (sv_db (as_server st))) \<and>
    map (\<lambda>k. (k_owner k, k_tasks_completed k, k_movegens k, k_compute_ms k))
        (db_contributors (sv_db (as_server st'))) =
      map (\<lambda>k. let mine = filter (\<lambda>c. c_job_id c = i \<and> c_claimed_by c = k_owner k \<and> c_state c = C_completed)
            (db_claims (sv_db (as_server st)))
        in (k_owner k, k_tasks_completed k - int (length mine), k_movegens k - sum_list (map c_movegens mine),
          k_compute_ms k - sum_list (map compute_of mine))) (db_contributors (sv_db (as_server st))) \<and>
    filter (\<lambda>j. j_id j \<noteq> i) (db_jobs (sv_db (as_server st'))) =
      filter (\<lambda>j. j_id j \<noteq> i) (db_jobs (sv_db (as_server st))) \<and>
    (\<forall>j\<in>set (db_jobs (sv_db (as_server st'))). j_id j = i \<longrightarrow> j_claims_issued j = 0 \<and>
       j_games_completed j = 0 \<and> j_status j = Inactive \<and> j_allocation j = 0) \<and>
    books_ok (sv_db (as_server st'))"
proof (intro conjI)
  have mg: "movegens_fit (sv_db (as_server st))" using assms(2) by (simp add: movegens_fit_def)
  note tb = emptied_tables [OF assms(3)] and ok = assms(1)
  show "db_claims (sv_db (as_server st')) = filter (\<lambda>c. c_job_id c \<noteq> i) (db_claims (sv_db (as_server st)))"
    unfolding tb claims_left [OF ok] ..
  show "db_tasks (sv_db (as_server st')) = filter (\<lambda>t. t_job_id t \<noteq> i) (db_tasks (sv_db (as_server st)))"
    unfolding tb tasks_left [OF ok] ..
  show "map (\<lambda>k. (k_owner k, k_tasks_completed k, k_movegens k, k_compute_ms k))
        (db_contributors (sv_db (as_server st'))) =
      map (\<lambda>k. let mine = filter (\<lambda>c. c_job_id c = i \<and> c_claimed_by c = k_owner k \<and> c_state c = C_completed)
            (db_claims (sv_db (as_server st)))
        in (k_owner k, k_tasks_completed k - int (length mine), k_movegens k - sum_list (map c_movegens mine),
          k_compute_ms k - sum_list (map compute_of mine))) (db_contributors (sv_db (as_server st)))"
    unfolding tb give_back_def map_map o_def Let_def
    by (rule map_cong [OF refl]) (rule given_back [OF ok mg _ refl refl])
  have other: "filter (\<lambda>j. j_id j \<noteq> i) (update_key j_id i start_over jobs) = filter (\<lambda>j. j_id j \<noteq> i) jobs" for jobs
    by (induction jobs) (simp_all add: update_key_def started_over)
  show "filter (\<lambda>j. j_id j \<noteq> i) (db_jobs (sv_db (as_server st'))) =
      filter (\<lambda>j. j_id j \<noteq> i) (db_jobs (sv_db (as_server st)))"
    using tb(4) other by auto
  show "\<forall>j\<in>set (db_jobs (sv_db (as_server st'))). j_id j = i \<longrightarrow> j_claims_issued j = 0 \<and>
       j_games_completed j = 0 \<and> j_status j = Inactive \<and> j_allocation j = 0"
  proof (intro ballI impI)
    fix j assume j: "j \<in> set (db_jobs (sv_db (as_server st')))" "j_id j = i"
    then have "db_jobs (sv_db (as_server st')) = update_key j_id i start_over (db_jobs (sv_db (as_server st)))"
      using tb(4) by auto
    then have "\<exists>s. j = start_over s" using j by (auto simp: jobs.in_upd)
    then obtain s where "j = start_over s" ..
    then show "j_claims_issued j = 0 \<and> j_games_completed j = 0 \<and> j_status j = Inactive \<and> j_allocation j = 0"
      by (simp add: start_over_def)
  qed
  show "books_ok (sv_db (as_server st'))"
    using assms(3) books_purged [OF ok mg] books_deleted [OF ok mg] by blast
qed


text \<open>The server after its one claim was completed, and its job purged.\<close>

definition sample_admin :: admin_state where
  "sample_admin = \<lparr>as_server = sample_accepted, as_exports = [], as_rating_runs = []\<rparr>"

lemma sample_admin_db: "sv_db (as_server sample_admin) = example_done"
  by (simp add: sample_admin_def sample_accepted_def)

lemma sample_purge: "\<exists>st' objects n. purge_transaction sample_admin 5 1 = Inr (st', objects, n)"
proof -
  have "row_with j_id 1 (db_jobs example_done) \<noteq> None"
    by (simp add: example_done_def row_with_def count_result_def)
  then show ?thesis
    by (auto simp: purge_transaction_def load_job_for_update_def sample_admin_db ok_or_def Let_def case_prod_beta)
qed

theorem purges_take_back_what_they_destroy_witness:
  "\<exists>st' objects n. purge_transaction sample_admin 5 1 = Inr (st', objects, n) \<and>
     db_tasks (sv_db (as_server st')) = [] \<and> db_claims (sv_db (as_server st')) = [] \<and>
     map k_compute_ms (db_contributors (sv_db (as_server st'))) = [0]"
proof -
  obtain st' objects n where p: "purge_transaction sample_admin 5 1 = Inr (st', objects, n)"
    using sample_purge by blast
  have ok: "books_ok (sv_db (as_server sample_admin))"
    unfolding sample_admin_db by (rule books_reachable [OF example_done_reachable])
  have claims: "db_claims example_done = [complete_claim 12 None 5000000 example_claim]"
    by (simp add: example_done_def)
  have mg: "\<forall>c\<in>set (db_claims (sv_db (as_server sample_admin))). 0 \<le> c_movegens c"
    by (simp add: sample_admin_db claims complete_claim_def)
  note t = purges_take_back_what_they_destroy [OF ok mg disjI1, OF p]
  have "db_contributors example_done = [credit 5000 12 5000000 (new_contributor (By_user 5))]"
    "db_tasks example_done = [complete_task 5000000 (occupy (new_task 10 1 1 0))]"
    by (simp_all add: example_done_def)
  note rows = this
  have "compute_of (complete_claim 12 None 5000000 example_claim) = 5000"
    by (simp add: compute_of_def complete_claim_def claim_compute_ms_def round_div_def example_claim_def new_claim_def)
  then have "map (\<lambda>k. (k_owner k, k_tasks_completed k, k_movegens k, k_compute_ms k))
      (db_contributors (sv_db (as_server st'))) = [(By_user 5, 0, 0, 0)]"
    using t by (simp add: sample_admin_db claims rows Let_def credit_def new_contributor_def)
  then have "map k_compute_ms (db_contributors (sv_db (as_server st'))) = [0]" by auto
  with p t show ?thesis by (auto simp: sample_admin_db claims rows)
qed

text \<open>A job created, given 60% and purged again.\<close>

definition sample_request :: create_job_body where
  "sample_request = \<lparr>jb_title = Some (lit ''test''), jb_job_type = Games, jb_variant = lit ''classic'',
     jb_letterdist_id = 3, jb_layout_id = 4, jb_min_magpie_version = None, jb_bingo_bonus = None, jb_sim_cutoff = None,
     jb_max_task_seconds = None, jb_config = Config_Game \<lparr>xb_player_config_ids = [1, 2], xb_units_per_batch = 100,
       xb_max_units = 1000, xb_min_units = None, xb_test = \<lparr>tq_test_enabled = False, tq_confidence_pct = None\<rparr>,
       xb_capture_positions = False, xb_capture_first_divergence = False, xb_threading_mode = lit ''igp''\<rparr>\<rparr>"

definition sample_job :: job_row where
  "sample_job = new_job_row sample_request 5 (Version 0 1 3) 1 0"

definition sample_created :: db where
  "sample_created = no_jobs\<lparr>db_jobs := [sample_job], db_audit := audit_log (lit ''job.created'') (Some (By_user 5))
     (Some (lit ''job'', 1)) (Some 1) []\<rparr>"

lemma sample_created_reachable: "service_reachable sample_created"
proof -
  let ?cat = "\<lparr>cat_input_data = [], cat_players = [], cat_opening_rack = [], cat_game = [], cat_game_pair = [],
    cat_leave = []\<rparr>"
  let ?plan = "\<lparr>pl_name = lit ''test'', pl_pair = Some (1, 2), pl_pairing = None\<rparr>"
  have "\<exists>cat'. insert_job (?cat, db_jobs no_jobs, db_audit no_jobs) sample_request 5 (Version 0 1 3) ?plan (lit ''english'') 2 1 0 =
      Inr ((cat', db_jobs sample_created, db_audit sample_created), sample_job)"
    by (simp add: insert_job_def sample_job_def sample_created_def new_job_row_def sample_request_def Let_def no_jobs_def
      insert_job_config_def ok_or_def refuse_one_name_for_two_files_def expected_data_def refuse_if_def
      MAGPIE_MAX_WORDMAP_BLANKS_def)
  then obtain cat' where r: "insert_job (?cat, db_jobs no_jobs, db_audit no_jobs) sample_request 5 (Version 0 1 3) ?plan
      (lit ''english'') 2 1 0 = Inr ((cat', db_jobs sample_created, db_audit sample_created), sample_job)" ..
  have "service_step no_jobs (no_jobs\<lparr>db_jobs := db_jobs sample_created, db_audit := db_audit sample_created\<rparr>)"
    by (rule service_step.created [OF r]) (simp add: no_jobs_def)
  then have "service_step no_jobs sample_created" by (simp add: sample_created_def)
  then show ?thesis by (rule service_reachable.step [OF service_reachable.start])
qed

definition sample_shares :: "allocation_row list" where
  "sample_shares = [\<lparr>al_job_id = 1, al_allocation = 60\<rparr>]"

lemma sample_shares_ok: "validate_allocations sample_shares = ok"
  by (simp add: validate_allocations_def no_fields_ok field_if_def between_def MAX_ALLOCATION_ROWS_def sample_shares_def)

lemma sample_allocated:
  obtains db where "allocation_transaction sample_created holds_new 5 sample_shares [(1, 0)] 60000000 0 = Inr db"
    "map share_of (db_jobs db) = [(1, Active, 60)]"
proof -
  have ok: "books_ok sample_created"
    using service_ok_reachable [OF sample_created_reachable] by (simp add: service_ok_def)
  have j: "j_id sample_job = 1" "j_status sample_job = Inactive" "j_allocation sample_job = 0"
    by (simp_all add: sample_job_def new_job_row_def)
  have jobs: "db_jobs sample_created = [sample_job]" by (simp add: sample_created_def)
  have r: "row_with j_id 1 [sample_job] = Some sample_job" by (simp add: row_with_def j)
  have "\<exists>db. allocation_transaction sample_created holds_new 5 sample_shares [(1, 0)] 60000000 0 = Inr db"
    by (simp add: allocation_transaction_def jobs r [simplified] j no_fields_def others_allocated_def named_allocated_def
      refuse_if_purged_since_def claims_holds_taken_def claims_held_def holds_new_def case_prod_beta sample_shares_def)
  then obtain db where db: "allocation_transaction sample_created holds_new 5 sample_shares [(1, 0)] 60000000 0 = Inr db" ..
  have "map share_of (db_jobs db) = [(1, Active, 60)]"
    using allocation_transaction_shares(1) [OF ok sample_shares_ok db] j
    by (simp add: jobs share_after_def asked_def new_status_def sample_shares_def)
  with db show ?thesis by (rule that)
qed

theorem books_hold_whatever_admins_do_witness:
  "\<exists>db. service_reachable db \<and> map share_of (db_jobs db) = [(1, Active, 60)] \<and>
     (\<forall>j\<in>set (db_jobs db). j_tasks_total j = int (length (filter (\<lambda>t. t_job_id t = j_id j) (db_tasks db))))"
proof -
  obtain db where db: "allocation_transaction sample_created holds_new 5 sample_shares [(1, 0)] 60000000 0 = Inr db"
    and sh: "map share_of (db_jobs db) = [(1, Active, 60)]"
    by (rule sample_allocated)
  from service_reachable.step [OF sample_created_reachable service_step.shares [OF sample_shares_ok db]]
  have r: "service_reachable db" .
  have "\<forall>j\<in>set (db_jobs db). j_tasks_total j = int (length (filter (\<lambda>t. t_job_id t = j_id j) (db_tasks db)))"
    using books_hold_whatever_admins_do [OF r] by simp
  with r sh show ?thesis by (intro exI [of _ db] conjI)
qed

end
