(* ===== verification/Job_Creation_Spec.thy ===== *)
theory Job_Creation_Spec
  imports Job_Creation Racks_Spec
begin

text \<open>
  What creating jobs leaves in the tables: rows that satisfy every constraint of their table, whatever
  the request held, and one game of every two players named.
\<close>

section \<open>The constraints of the tables\<close>

definition in_bounds :: "real \<Rightarrow> real \<Rightarrow> f64 \<Rightarrow> bool" where
  "in_bounds lo hi x \<longleftrightarrow> (\<exists>r. x = Fin r \<and> lo \<le> r \<and> r \<le> hi)"

definition job_row_fits :: "job_row \<Rightarrow> bool" where
  "job_row_fits j \<longleftrightarrow> length (j_title j) \<le> 100 \<and> 0 \<le> j_allocation j \<and> j_allocation j \<le> 100 \<and>
     0 \<le> j_bingo_bonus j \<and> j_bingo_bonus j \<le> 500 \<and> in_bounds 0 100 (j_sim_cutoff j) \<and>
     0 \<le> j_min_magpie_major j \<and> 0 \<le> j_min_magpie_minor j \<and> 0 \<le> j_min_magpie_patch j \<and>
     600 \<le> j_max_task_seconds j \<and> j_max_task_seconds j \<le> 86400 \<and>
     0 \<le> j_claims_issued j \<and> 0 \<le> j_tasks_total j \<and> 0 \<le> j_tasks_completed j \<and> 0 \<le> j_movegens j \<and>
     0 \<le> j_compute_ms j \<and> (j_status j = Active \<longleftrightarrow> j_allocation j > 0)"

text \<open>All but \<open>total_racks >= 0\<close>, which is about the distribution and not the request.\<close>

definition opening_rack_config_fits :: "opening_rack_config \<Rightarrow> bool" where
  "opening_rack_config_fits c \<longleftrightarrow> 1 \<le> oc_racks_per_batch c \<and> 1 \<le> oc_rack_size c \<and> oc_rack_size c \<le> 7 \<and>
     (\<exists>r. oc_consensus_pct c = Fin r \<and> 50 < r \<and> r \<le> 100) \<and>
     1 \<le> oc_min_results_per_rack c \<and> oc_min_results_per_rack c \<le> oc_max_results_per_rack c \<and>
     oc_max_results_per_rack c \<le> 100"

definition confidence_fits :: "f64 \<Rightarrow> bool" where
  "confidence_fits x \<longleftrightarrow> (\<exists>r. x = Fin r \<and> 50 < r \<and> r < 100)"

definition threading_fits :: "ustr \<Rightarrow> bool" where
  "threading_fits mode \<longleftrightarrow> mode = lit ''igp'' \<or> mode = lit ''pgp''"

definition counts_fit :: "int \<Rightarrow> int \<Rightarrow> int \<Rightarrow> bool \<Rightarrow> bool" where
  "counts_fit batch least most test \<longleftrightarrow> 1 \<le> batch \<and> 1 \<le> most \<and> 0 \<le> least \<and> (\<not> test \<or> 1 \<le> least \<and> least \<le> most)"

definition game_config_fits :: "game_config \<Rightarrow> bool" where
  "game_config_fits c \<longleftrightarrow> confidence_fits (gc_confidence_pct c) \<and> threading_fits (gc_threading_mode c) \<and>
     counts_fit (gc_games_per_batch c) (gc_min_games c) (gc_max_games c) (gc_test_enabled c)"

definition game_pair_config_fits :: "game_pair_config \<Rightarrow> bool" where
  "game_pair_config_fits c \<longleftrightarrow> confidence_fits (pg_confidence_pct c) \<and> threading_fits (pg_threading_mode c) \<and>
     (pg_capture_positions c \<or> \<not> pg_capture_first_divergence c) \<and>
     counts_fit (pg_pairs_per_batch c) (pg_min_pairs c) (pg_max_pairs c) (pg_test_enabled c)"

definition leave_config_fits :: "leave_config \<Rightarrow> bool" where
  "leave_config_fits c \<longleftrightarrow> lc_target_rack_counts c \<noteq> [] \<and> (\<forall>t\<in>set (lc_target_rack_counts c). 1 \<le> t) \<and>
     1 \<le> lc_racks_per_task c"

section \<open>A request that passes its checks\<close>

lemma unwrap_or_simps [simp]: "unwrap_or None d = d" "unwrap_or (Some x) d = x"
  by (simp_all add: unwrap_or_def)

lemma no_fields_passes: "no_fields what xs = ok \<longleftrightarrow> xs = []"
  by (simp add: no_fields_def)

lemma field_if_none: "field_if b f w = [] \<longleftrightarrow> \<not> b"
  by (simp add: field_if_def)

lemma body_fields:
  assumes "validate_job_body b = ok"
  shows "name_problem (job_title b) = None" "is_some_and (jb_bingo_bonus b) (\<lambda>n. \<not> between 0 MAX_BINGO_BONUS n) = False"
    "\<And>s. jb_max_task_seconds b = Some s \<Longrightarrow> time_limit_problem s = None"
    "sim_cutoff_field b = []" "config_fields (jb_config b) = []"
  using assms unfolding validate_job_body_def no_fields_passes append_is_Nil_conv field_if_none field_problem_def
  by (simp_all split: option.splits)

lemma new_job_fits:
  assumes "validate_job_body b = ok"
  shows "job_row_fits (new_job_row b admin (parse_or_zero v) i now)"
proof -
  note f = body_fields [OF assms]
  have title: "length (job_title b) \<le> 100"
    using f(1) by (simp add: name_problem_def MAX_NAME_CHARS_def split: if_splits)
  have bonus: "0 \<le> unwrap_or (jb_bingo_bonus b) BINGO_BONUS" "unwrap_or (jb_bingo_bonus b) BINGO_BONUS \<le> 500"
    using f(2) by (auto simp: is_some_and_def between_def MAX_BINGO_BONUS_def BINGO_BONUS_def split: option.splits)
  have secs: "600 \<le> unwrap_or (jb_max_task_seconds b) DEFAULT_TASK_SECONDS"
    "unwrap_or (jb_max_task_seconds b) DEFAULT_TASK_SECONDS \<le> 86400"
    using f(3) by (cases "jb_max_task_seconds b"; force simp: time_limit_problem_def between_def MIN_TASK_SECONDS_def
      MAX_TASK_SECONDS_def DEFAULT_TASK_SECONDS_def split: if_splits)+
  have cutoff: "in_bounds 0 100 (unwrap_or (jb_sim_cutoff b) SIM_CUTOFF)"
  proof (cases "jb_sim_cutoff b")
    case None
    then show ?thesis by (simp add: in_bounds_def SIM_CUTOFF_def) (rule exI [of _ "1 / 200"], simp)
  next
    case (Some x)
    with f(4) have "is_finite x" "f64_within 0 100 x" by (simp_all add: sim_cutoff_field_def split: if_splits)
    with Some show ?thesis by (cases x) (simp_all add: in_bounds_def f64_within_def)
  qed
  show ?thesis
    using lenient_nonneg [of v] title bonus secs cutoff by (simp add: job_row_fits_def new_job_row_def)
qed

lemma match_fields:
  assumes "match_test_fields unit m = []" "threading_mode_problem (xb_threading_mode m) = []"
  shows "1 \<le> xb_units_per_batch m" "1 \<le> xb_max_units m"
    "confidence_fits (ts_confidence_pct (test_settings_of (xb_test m) (xb_min_units m)))"
    "counts_fit (xb_units_per_batch m) (ts_min_units (test_settings_of (xb_test m) (xb_min_units m))) (xb_max_units m)
       (ts_enabled (test_settings_of (xb_test m) (xb_min_units m)))"
    "threading_fits (xb_threading_mode m)"
proof -
  let ?t = "test_settings_of (xb_test m) (xb_min_units m)"
  note f = assms(1) [unfolded match_test_fields_def Let_def append_is_Nil_conv field_if_none]
  show b: "1 \<le> xb_units_per_batch m" and x: "1 \<le> xb_max_units m" using f by linarith+
  show "threading_fits (xb_threading_mode m)"
    using assms(2) by (auto simp: threading_mode_problem_def field_if_none threading_fits_def)
  show "confidence_fits (ts_confidence_pct ?t)"
  proof (cases "tq_test_enabled (xb_test m)")
    case True
    with f have "is_finite (ts_confidence_pct ?t)" "f64_lt (Fin 50) (ts_confidence_pct ?t)"
      "f64_lt (ts_confidence_pct ?t) (Fin 100)"
      by (simp_all add: field_if_none)
    then show ?thesis by (cases "ts_confidence_pct ?t") (simp_all add: confidence_fits_def)
  next
    case False
    with f have "tq_confidence_pct (xb_test m) = None" by (simp add: field_if_none)
    then show ?thesis by (simp add: confidence_fits_def test_settings_of_def)
  qed
  show "counts_fit (xb_units_per_batch m) (ts_min_units ?t) (xb_max_units m) (ts_enabled ?t)"
  proof (cases "tq_test_enabled (xb_test m)")
    case True
    with f obtain n where "xb_min_units m = Some n" "1 \<le> n" "n \<le> xb_max_units m"
      using x by (auto simp: field_if_none split: option.splits if_splits)
    with b x show ?thesis by (simp add: counts_fit_def test_settings_of_def)
  next
    case False
    with f have "xb_min_units m = None" by (simp add: field_if_none)
    with False b x show ?thesis by (simp add: counts_fit_def test_settings_of_def)
  qed
qed


section \<open>The rows of a request's jobs\<close>

text \<open>The configuration rows one request adds, with the players each seats.\<close>

record config_rows =
  cw_opening :: "(nat \<times> opening_rack_config) list"
  cw_game :: "(nat \<times> game_config) list"
  cw_pair :: "(nat \<times> game_pair_config) list"
  cw_leave :: "(nat \<times> leave_config) list"

definition rows_added :: "catalogue \<Rightarrow> config_rows \<Rightarrow> catalogue \<Rightarrow> bool" where
  "rows_added cat w cat' \<longleftrightarrow> cat' = cat\<lparr>cat_opening_rack := cat_opening_rack cat @ cw_opening w,
     cat_game := cat_game cat @ cw_game w, cat_game_pair := cat_game_pair cat @ cw_pair w,
     cat_leave := cat_leave cat @ cw_leave w\<rparr>"

definition rows_fit :: "config_rows \<Rightarrow> bool" where
  "rows_fit w \<longleftrightarrow> (\<forall>(i, c)\<in>set (cw_opening w). opening_rack_config_fits c) \<and>
     (\<forall>(i, c)\<in>set (cw_game w). game_config_fits c) \<and> (\<forall>(i, c)\<in>set (cw_pair w). game_pair_config_fits c) \<and>
     (\<forall>(i, c)\<in>set (cw_leave w). leave_config_fits c)"

definition row_ids :: "config_rows \<Rightarrow> nat list" where
  "row_ids w = map fst (cw_opening w) @ map fst (cw_game w) @ map fst (cw_pair w) @ map fst (cw_leave w)"

definition row_seats :: "config_rows \<Rightarrow> (nat \<times> nat) list" where
  "row_seats w = map (\<lambda>(i, c). (gc_player1_config_id c, gc_player2_config_id c)) (cw_game w) @
     map (\<lambda>(i, c). (pg_player1_config_id c, pg_player2_config_id c)) (cw_pair w)"

definition of_kind :: "job_type_config \<Rightarrow> config_rows \<Rightarrow> bool" where
  "of_kind config w \<longleftrightarrow> (case config of
     Config_OpeningRack _ \<Rightarrow> cw_game w = [] \<and> cw_pair w = [] \<and> cw_leave w = []
   | Config_Game _ \<Rightarrow> cw_opening w = [] \<and> cw_pair w = [] \<and> cw_leave w = []
   | Config_GamePair _ \<Rightarrow> cw_opening w = [] \<and> cw_game w = [] \<and> cw_leave w = []
   | Config_Leave _ \<Rightarrow> cw_opening w = [] \<and> cw_game w = [] \<and> cw_pair w = [])"

definition no_config_rows :: config_rows where
  "no_config_rows = \<lparr>cw_opening = [], cw_game = [], cw_pair = [], cw_leave = []\<rparr>"

lemma insert_config_row:
  assumes v: "config_fields config = []" and r: "insert_job_config cat j config pair letterdist_name = Inr cat'"
  shows "\<exists>w. rows_added cat w cat' \<and> rows_fit w \<and> row_ids w = [j_id j] \<and>
    row_seats w = (case config of Config_Game _ \<Rightarrow> [the pair] | Config_GamePair _ \<Rightarrow> [the pair] | _ \<Rightarrow> []) \<and>
    of_kind config w"
proof (cases config)
  case (Config_OpeningRack m)
  from v Config_OpeningRack have ok: "between 1 MAX_RACKS_PER_BATCH (ob_racks_per_batch m)" "between 1 (int LEAVE_RACK_SIZE) (ob_rack_size m)"
    "is_finite (ob_consensus_pct m)" "f64_lt (Fin 50) (ob_consensus_pct m)" "f64_le (ob_consensus_pct m) (Fin 100)"
    "between 1 MAX_RESULTS_PER_RACK (ob_min_results_per_rack m)"
    "between (ob_min_results_per_rack m) MAX_RESULTS_PER_RACK (ob_max_results_per_rack m)"
    by (simp_all add: config_fields_def consensus_problems_def field_if_none split: if_splits)
  from r Config_OpeningRack obtain n where cat': "cat' = cat\<lparr>cat_opening_rack := cat_opening_rack cat @ [(j_id j,
           \<lparr>oc_player_config_id = ob_player_config_id m, oc_racks_per_batch = ob_racks_per_batch m,
            oc_rack_size = ob_rack_size m, oc_total_racks = n,
            oc_consensus_pct = ob_consensus_pct m, oc_min_results_per_rack = ob_min_results_per_rack m,
            oc_max_results_per_rack = ob_max_results_per_rack m\<rparr>)]\<rparr>"
    by (auto simp: insert_job_config_def and_then_Inr and_then_check_Inr split: job_type.splits)
  have "opening_rack_config_fits \<lparr>oc_player_config_id = ob_player_config_id m, oc_racks_per_batch = ob_racks_per_batch m,
            oc_rack_size = ob_rack_size m, oc_total_racks = n,
            oc_consensus_pct = ob_consensus_pct m, oc_min_results_per_rack = ob_min_results_per_rack m,
            oc_max_results_per_rack = ob_max_results_per_rack m\<rparr>"
    using ok by (cases "ob_consensus_pct m") (simp_all add: opening_rack_config_fits_def between_def LEAVE_RACK_SIZE_def MAX_RESULTS_PER_RACK_def)
  then show ?thesis
    by (intro exI [of _ "no_config_rows\<lparr>cw_opening := [(j_id j,
           \<lparr>oc_player_config_id = ob_player_config_id m, oc_racks_per_batch = ob_racks_per_batch m,
            oc_rack_size = ob_rack_size m, oc_total_racks = n,
            oc_consensus_pct = ob_consensus_pct m, oc_min_results_per_rack = ob_min_results_per_rack m,
            oc_max_results_per_rack = ob_max_results_per_rack m\<rparr>)]\<rparr>"])
      (simp add: rows_added_def cat' no_config_rows_def rows_fit_def row_ids_def row_seats_def of_kind_def Config_OpeningRack)
next
  case (Config_Game m)
  from v Config_Game have ok: "threading_mode_problem (xb_threading_mode m) = []" "match_test_fields ''game'' m = []"
    by (simp_all add: config_fields_def)
  note f = match_fields [OF ok(2,1)]
  let ?t = "test_settings_of (xb_test m) (xb_min_units m)"
  let ?c = "\<lambda>x y. \<lparr>gc_player1_config_id = x, gc_player2_config_id = y,
            gc_games_per_batch = xb_units_per_batch m, gc_test_enabled = ts_enabled ?t,
            gc_min_games = ts_min_units ?t, gc_max_games = xb_max_units m,
            gc_confidence_pct = ts_confidence_pct ?t, gc_capture_positions = xb_capture_positions m,
            gc_threading_mode = xb_threading_mode m\<rparr>"
  from r Config_Game obtain x y where cat': "pair = Some (x, y)" "cat' = cat\<lparr>cat_game := cat_game cat @ [(j_id j, ?c x y)]\<rparr>"
    by (cases pair) (auto simp: insert_job_config_def and_then_Inr ok_or_def Let_def split: job_type.splits)
  have "game_config_fits (?c x y)"
    using f by (simp add: game_config_fits_def)
  then show ?thesis
    by (intro exI [of _ "no_config_rows\<lparr>cw_game := [(j_id j, ?c x y)]\<rparr>"])
      (simp add: rows_added_def cat' no_config_rows_def rows_fit_def row_ids_def row_seats_def of_kind_def Config_Game)
next
  case (Config_GamePair m)
  from v Config_GamePair have ok: "threading_mode_problem (xb_threading_mode m) = []" "match_test_fields ''pair'' m = []"
    "\<not> (xb_capture_first_divergence m \<and> \<not> xb_capture_positions m)"
    by (simp_all add: config_fields_def field_if_none)
  note f = match_fields [OF ok(2,1)]
  let ?t = "test_settings_of (xb_test m) (xb_min_units m)"
  let ?c = "\<lambda>x y. \<lparr>pg_player1_config_id = x, pg_player2_config_id = y,
            pg_pairs_per_batch = xb_units_per_batch m, pg_test_enabled = ts_enabled ?t,
            pg_min_pairs = ts_min_units ?t, pg_max_pairs = xb_max_units m,
            pg_confidence_pct = ts_confidence_pct ?t, pg_capture_positions = xb_capture_positions m,
            pg_capture_first_divergence = xb_capture_first_divergence m,
            pg_threading_mode = xb_threading_mode m\<rparr>"
  from r Config_GamePair obtain x y where cat': "pair = Some (x, y)" "cat' = cat\<lparr>cat_game_pair := cat_game_pair cat @ [(j_id j, ?c x y)]\<rparr>"
    by (cases pair) (auto simp: insert_job_config_def and_then_Inr ok_or_def Let_def split: job_type.splits)
  have "game_pair_config_fits (?c x y)"
    using f ok(3) by (simp add: game_pair_config_fits_def) blast
  then show ?thesis
    by (intro exI [of _ "no_config_rows\<lparr>cw_pair := [(j_id j, ?c x y)]\<rparr>"])
      (simp add: rows_added_def cat' no_config_rows_def rows_fit_def row_ids_def row_seats_def of_kind_def Config_GamePair)
next
  case (Config_Leave m)
  from v Config_Leave have ok: "1 \<le> lb_racks_per_task m" "lb_target_rack_counts m \<noteq> []"
    "\<not> list_ex (\<lambda>t. \<not> between 1 MAX_TARGET_RACK_COUNT t) (lb_target_rack_counts m)"
    by (simp_all add: config_fields_def field_if_none split: if_splits)
  let ?c = "\<lparr>lc_player_config_id = lb_player_config_id m, lc_num_iterations = lb_num_iterations m,
            lc_target_rack_counts = lb_target_rack_counts m, lc_racks_per_task = lb_racks_per_task m\<rparr>"
  from r Config_Leave have cat': "cat' = cat\<lparr>cat_leave := cat_leave cat @ [(j_id j, ?c)]\<rparr>"
    by (auto simp: insert_job_config_def and_then_Inr and_then_check_Inr split: job_type.splits)
  have "leave_config_fits ?c"
    using ok by (auto simp: leave_config_fits_def list_ex_iff between_def)
  then show ?thesis
    by (intro exI [of _ "no_config_rows\<lparr>cw_leave := [(j_id j, ?c)]\<rparr>"])
      (simp add: rows_added_def cat' no_config_rows_def rows_fit_def row_ids_def row_seats_def of_kind_def Config_Leave)
qed


definition both_rows :: "config_rows \<Rightarrow> config_rows \<Rightarrow> config_rows" where
  "both_rows w v = \<lparr>cw_opening = cw_opening w @ cw_opening v, cw_game = cw_game w @ cw_game v,
     cw_pair = cw_pair w @ cw_pair v, cw_leave = cw_leave w @ cw_leave v\<rparr>"

lemma both_rows_laws:
  assumes "of_kind config w" "of_kind config v"
  shows "of_kind config (both_rows w v)" "row_ids (both_rows w v) = row_ids w @ row_ids v"
    "row_seats (both_rows w v) = row_seats w @ row_seats v"
    "rows_fit w \<Longrightarrow> rows_fit v \<Longrightarrow> rows_fit (both_rows w v)"
    "rows_added cat w cat1 \<Longrightarrow> rows_added cat1 v cat2 \<Longrightarrow> rows_added cat (both_rows w v) cat2"
  using assms by (cases config; auto simp: of_kind_def both_rows_def row_ids_def row_seats_def rows_fit_def rows_added_def)+

definition seats_of :: "job_type_config \<Rightarrow> (nat \<times> nat) option list \<Rightarrow> (nat \<times> nat) list" where
  "seats_of config pairs = (case config of Config_Game _ \<Rightarrow> map the pairs | Config_GamePair _ \<Rightarrow> map the pairs | _ \<Rightarrow> [])"

lemma insert_jobs_rows:
  assumes v: "config_fields (jb_config b) = []"
  shows "insert_jobs (cat, jobs, audit) b admin min_version name blanks plans = Inr ((cat', jobs', audit'), created) \<Longrightarrow>
    jobs' = jobs @ map fst created \<and> map fst created = map (\<lambda>(p, i, now). new_job_row b admin min_version i now) plans \<and>
    (\<exists>w. rows_added cat w cat' \<and> rows_fit w \<and> of_kind (jb_config b) w \<and> row_ids w = map (\<lambda>(p, i, now). i) plans \<and>
      row_seats w = seats_of (jb_config b) (map (pl_pair \<circ> fst) plans))"
proof (induction plans arbitrary: cat jobs audit created)
  case Nil
  have "rows_added cat no_config_rows cat" "rows_fit no_config_rows" "of_kind (jb_config b) no_config_rows" "row_ids no_config_rows = []"
    "row_seats no_config_rows = []" for cat
    by (simp_all add: rows_added_def no_config_rows_def rows_fit_def of_kind_def row_ids_def row_seats_def split: job_type_config.split)
  note e = this
  from Nil show ?case
    by (intro conjI exI [of _ no_config_rows]) (simp_all add: e seats_of_def split: job_type_config.split)
next
  case (Cons q plans)
  obtain plan i now where q: "q = (plan, i, now)" by (rule prod_cases3)
  from Cons.prems obtain cat1 jobs1 audit1 job created1 where
    one: "insert_job (cat, jobs, audit) b admin min_version plan name blanks i now = Inr ((cat1, jobs1, audit1), job)"
    and rest: "insert_jobs (cat1, jobs1, audit1) b admin min_version name blanks plans = Inr ((cat', jobs', audit'), created1)"
    and cr: "created = (job, pl_name plan) # created1"
    by (auto simp: q and_then_Inr)
  from one have job: "job = new_job_row b admin min_version i now" "jobs1 = jobs @ [job]"
    and cfg: "insert_job_config cat job (jb_config b) (pl_pair plan) name = Inr cat1"
    by (auto simp: insert_job_def Let_def and_then_Inr)
  have jid: "j_id job = i" by (simp add: job new_job_row_def)
  from insert_config_row [OF v cfg] obtain w where w: "rows_added cat w cat1" "rows_fit w" "row_ids w = [i]"
    "row_seats w = (case jb_config b of Config_Game _ \<Rightarrow> [the (pl_pair plan)] | Config_GamePair _ \<Rightarrow> [the (pl_pair plan)] | _ \<Rightarrow> [])"
    "of_kind (jb_config b) w"
    unfolding jid by blast
  from Cons.IH [OF rest] obtain v where v: "rows_added cat1 v cat'" "rows_fit v" "of_kind (jb_config b) v"
    "row_ids v = map (\<lambda>(p, i, now). i) plans" "row_seats v = seats_of (jb_config b) (map (pl_pair \<circ> fst) plans)"
    and jobs': "jobs' = jobs1 @ map fst created1"
      "map fst created1 = map (\<lambda>(p, i, now). new_job_row b admin min_version i now) plans" by blast
  note wv = both_rows_laws [OF w(5) v(3)]
  have "row_seats (both_rows w v) = seats_of (jb_config b) (map (pl_pair \<circ> fst) (q # plans))"
    unfolding wv(3) w(4) v(5) q by (simp add: seats_of_def split: job_type_config.split)
  moreover have "row_ids (both_rows w v) = map (\<lambda>(p, i, now). i) (q # plans)"
    unfolding wv(2) w(3) v(4) q by simp
  ultimately show ?case
    using wv(1) wv(4) [OF w(2) v(2)] wv(5) [OF w(1) v(1)] jobs' job cr q
    by (intro conjI exI [of _ "both_rows w v"]) (simp_all add: o_def)
qed

section \<open>Every two players once\<close>

lemma named_twice_distinct: "\<not> named_twice seen ids \<Longrightarrow> distinct ids \<and> set ids \<inter> set seen = {}"
  by (induction ids arbitrary: seen) fastforce+

lemma every_pair_in: "(a, c) \<in> set (every_pair ids) \<Longrightarrow> a \<in> set ids \<and> c \<in> set ids"
  by (induction ids) auto

definition meetings :: "nat \<Rightarrow> nat \<Rightarrow> (nat \<times> nat) list \<Rightarrow> nat" where
  "meetings x y seats = length (filter (\<lambda>(a, c). a = x \<and> c = y \<or> a = y \<and> c = x) seats)"

lemma meetings_append: "meetings x y (s @ t) = meetings x y s + meetings x y t"
  by (simp add: meetings_def)

lemma meetings_none: "(\<And>a c. (a, c) \<in> set seats \<Longrightarrow> \<not> (a = x \<and> c = y \<or> a = y \<and> c = x)) \<Longrightarrow> meetings x y seats = 0"
  by (auto simp: meetings_def filter_empty_conv)

lemma meetings_row:
  assumes "distinct rest" "a \<notin> set rest" "x \<noteq> y"
  shows "meetings x y (map (Pair a) rest) = (if a = x \<and> y \<in> set rest \<or> a = y \<and> x \<in> set rest then 1 else 0)"
proof -
  have one: "length (filter (\<lambda>c. c = z) rest) = (if z \<in> set rest then 1 else 0)" for z
    using assms(1) by (induction rest) auto
  have "meetings x y (map (Pair a) rest) = length (filter (\<lambda>c. a = x \<and> c = y \<or> a = y \<and> c = x) rest)"
    by (simp add: meetings_def filter_map o_def)
  also have "\<dots> = (if a = x then length (filter (\<lambda>c. c = y) rest) else if a = y then length (filter (\<lambda>c. c = x) rest) else 0)"
    using assms(3) by (auto intro!: arg_cong [where f = length] filter_cong)
  finally show ?thesis using assms(2,3) by (simp add: one)
qed

lemma every_pair_meets_once:
  "distinct ids \<Longrightarrow> x \<in> set ids \<Longrightarrow> y \<in> set ids \<Longrightarrow> x \<noteq> y \<Longrightarrow> meetings x y (every_pair ids) = 1"
proof (induction ids)
  case (Cons a rest)
  have none: "meetings x y (every_pair rest) = 0" if "x \<notin> set rest \<or> y \<notin> set rest"
    by (rule meetings_none) (use that every_pair_in in blast)
  show ?case
  proof (cases "x \<in> set rest \<and> y \<in> set rest")
    case True
    with Cons show ?thesis by (auto simp: meetings_append meetings_row)
  next
    case False
    with Cons.prems none show ?thesis by (auto simp: meetings_append meetings_row)
  qed
qed simp


lemma pairings_seated:
  assumes "plan_jobs cat b = Inr planned" "pairings (jb_config b) \<noteq> []"
  shows "map pl_pair planned = map Some (pairings (jb_config b))"
  using assms by (auto simp: plan_jobs_def Let_def split: if_splits)

lemma pairings_none:
  assumes "plan_jobs cat b = Inr planned" "pairings (jb_config b) = []"
  shows "length planned = 1"
  using assms by (auto simp: plan_jobs_def Let_def)

lemma seatings_nonempty: "ids \<noteq> [] \<Longrightarrow> seatings ids \<noteq> []"
  by (auto simp: seatings_def neq_Nil_conv split: list.splits)

lemma players_checked:
  assumes "config_fields config = []" "config = Config_Game m \<or> config = Config_GamePair m"
  shows "xb_player_config_ids m \<noteq> []" "distinct (xb_player_config_ids m)"
  using assms named_twice_distinct [of "[]" "xb_player_config_ids m"]
  by (auto simp: config_fields_def round_robin_problems_def field_if_none split: if_splits)

section \<open>Claims\<close>



section \<open>A request to look at\<close>

definition open_board :: "nat list" where
  "open_board = map of_char ''7,7\<newline>'' @ concat (replicate 15 (replicate 15 32 @ [10]))"

lemma lossy_ascii: "list_all (\<lambda>b. b < 128) bs \<Longrightarrow> from_utf8_lossy bs = bs"
proof (induction bs)
  case Nil
  show ?case by (subst from_utf8_lossy.simps) simp
next
  case (Cons b bs)
  then show ?case by (subst from_utf8_lossy.simps) (simp add: decode_char_def)
qed

lemma open_board_ok: "layout_problem open_board = None"
proof -
  have a: "from_utf8_lossy open_board = open_board"
    by (rule lossy_ascii) (simp add: open_board_def numeral_eq_Suc)
  show ?thesis unfolding layout_problem_def parse_layout_def layout_lines_def a by code_simp
qed

definition static_player :: "nat \<Rightarrow> named_player_config" where
  "static_player i = \<lparr>n_config = \<lparr>pc_id = i, pc_name = [], pc_recorder_type = lit ''best'',
     pc_sort_strategy = lit ''equity'', pc_kwg_id = 3, pc_klv_id = 4, pc_winpct_id = None, pc_cloned_from_id = None,
     pc_max_iterations = None, pc_num_plies = 0, pc_num_plies_recorded = 0, pc_num_plays = 1,
     pc_num_plays_recorded = 1, pc_stopping_pct = None, pc_use_inference = None, pc_time_limit_secs = None,
     pc_movegens_per_move = None, pc_use_wordmap = False, pc_use_rit = False, pc_use_wit = False,
     pc_min_play_iterations = None, pc_threshold = None, pc_sampling_rule = None, pc_inference_margin = None,
     pc_utility_w_winpct = None, pc_utility_w_spread = None, pc_utility_spread_scale = None,
     pc_movegen_margin = Fin 0, pc_endgame_plies = 0, pc_peg_max_bag = 0, pc_peg_stage_top_k = None,
     pc_peg_scenario_stride = None, pc_peg_opp_model = None, pc_peg_nested = None,
     pc_peg_nested_cand_caps = None, pc_peg_nested_max_depth = None, pc_peg_nested_strides = None,
     pc_created_by = None, pc_created_at = 0\<rparr>,
   n_kwg_name = lit ''CSW21'', n_klv_name = lit ''CSW21'', n_winpct_name = None\<rparr>"

definition trial_catalogue :: catalogue where
  "trial_catalogue = \<lparr>cat_input_data = [\<lparr>in_id = 1, in_role = lit ''letterdist'', in_name = lit ''english'',
       in_path = [], in_sha256 = [], in_tarball_date = [], in_content = tiny_file\<rparr>,
     \<lparr>in_id = 2, in_role = lit ''layout'', in_name = lit ''open'', in_path = [], in_sha256 = [], in_tarball_date = [],
       in_content = open_board\<rparr>],
   cat_players = map static_player [11, 12, 13], cat_opening_rack = [], cat_game = [], cat_game_pair = [],
   cat_leave = []\<rparr>"

definition trial_match :: match_body where
  "trial_match = \<lparr>xb_player_config_ids = [11, 12, 13], xb_units_per_batch = 100, xb_max_units = 1000,
     xb_min_units = None, xb_test = \<lparr>tq_test_enabled = False, tq_confidence_pct = None\<rparr>,
     xb_capture_positions = False, xb_capture_first_divergence = False, xb_threading_mode = lit ''igp''\<rparr>"

definition trial_request :: create_job_body where
  "trial_request = \<lparr>jb_title = Some (lit ''trial''), jb_job_type = Games, jb_variant = lit ''classic'',
     jb_letterdist_id = 1, jb_layout_id = 2, jb_min_magpie_version = None, jb_bingo_bonus = None,
     jb_sim_cutoff = None, jb_max_task_seconds = None, jb_config = Config_Game trial_match\<rparr>"

lemma trial_request_ok: "validate_job_body trial_request = ok"
  by code_simp

lemma trial_pairings: "pairings (jb_config trial_request) = [(11, 12), (11, 13), (12, 13)]"
  by (simp add: trial_request_def trial_match_def pairings_def seatings_def)

definition is_inr :: "'a + 'b \<Rightarrow> bool" where
  "is_inr r = (case r of Inl _ \<Rightarrow> False | Inr _ \<Rightarrow> True)"

lemma parse_trial: "parse tiny_file (lit ''english'') = Inr (tiny\<lparr>ld_name := lit ''english''\<rparr>)"
  by (simp add: parse_def tiny_file_def utf8_decode_Nil utf8_decode_ascii ok_or_def parse_line_def
      columns_def strip_suffix_char_def trim_def trim_matches_def is_whitespace_def utf8_len_def
      char_utf8_len_def MAGPIE_MAX_LETTER_BYTES_def MAGPIE_MAX_ALPHABET_SIZE_def number_def
      parse_u32_def parse_i32_def parse_unsigned_def parse_signed_def is_ascii_digit_def
      digits_value_def i32_max_def add_letter_row tiny_def Let_def lit_def)

definition trial_plans :: "planned_job list" where
  "trial_plans = map (\<lambda>(x, y). \<lparr>pl_name = job_name (lit ''trial'') (Some (config_name trial_catalogue x, config_name trial_catalogue y)),
     pl_pair = Some (x, y), pl_pairing = Some (config_name trial_catalogue x @ lit '' vs '' @ config_name trial_catalogue y)\<rparr>)
     [(11, 12), (11, 13), (12, 13)]"

lemma trial_planned: "plan_jobs trial_catalogue trial_request = Inr trial_plans"
  by code_simp

lemma trial_inserted: "is_inr (insert_jobs (trial_catalogue, [], []) trial_request 5 v (lit ''english'') 1
   (zip trial_plans [(1, 0), (2, 0), (3, 0)]))"
  by (simp add: is_inr_def trial_plans_def insert_job_def new_job_row_def insert_job_config_def trial_request_def
    trial_match_def refuse_one_name_for_two_files_def refuse_if_def Let_def ok_or_def MAGPIE_MAX_WORDMAP_BLANKS_def
    expected_data_def expected_ids_def trial_catalogue_def static_player_def)

lemma trial_roles:
  "require_role trial_catalogue 1 ''letterdist'' = Inr (lit ''english'')"
  "is_inr (require_role trial_catalogue 2 ''layout'')"
  by (simp_all add: is_inr_def require_role_def input_of_def trial_catalogue_def ok_or_def refuse_if_def lit_def)

lemma trial_pairs:
  "validate_pairing trial_catalogue (11, 12) False (lit ''english'') = ok"
  "validate_pairing trial_catalogue (11, 13) False (lit ''english'') = ok"
  "validate_pairing trial_catalogue (12, 13) False (lit ''english'') = ok"
  by code_simp+

lemma trial_checked:
  "check_each (validate_plan trial_catalogue (captures_positions (jb_config trial_request)) (lit ''english'')) trial_plans = ok"
  by (simp add: check_each_ok trial_plans_def validate_plan_def trial_pairs captures_positions_def trial_request_def trial_match_def)

lemma trial_blanks: "blanks_of (tiny\<lparr>ld_name := lit ''english''\<rparr>) = 1"
  by (simp add: blanks_of_def tiny_def)

lemma trial_created: "is_inr (create_job (trial_catalogue, [], []) ok 5 (lit ''0.1.3'') trial_request [(1, 0), (2, 0), (3, 0)])"
proof -
  have inputs: "\<exists>r. input_of trial_catalogue 1 = Some r \<and> in_content r = tiny_file"
    "\<exists>r. input_of trial_catalogue 2 = Some r \<and> in_content r = open_board"
    by (simp_all add: input_of_def trial_catalogue_def)
  have ids: "jb_letterdist_id trial_request = 1" "jb_layout_id trial_request = 2" "jb_min_magpie_version trial_request = None"
    by (simp_all add: trial_request_def)
  obtain layout where "require_role trial_catalogue 2 ''layout'' = Inr layout"
    using trial_roles(2) by (auto simp: is_inr_def split: sum.splits)
  moreover obtain ld b where "input_of trial_catalogue 1 = Some ld" "in_content ld = tiny_file"
    "input_of trial_catalogue 2 = Some b" "in_content b = open_board" using inputs by blast
  ultimately show ?thesis
    using trial_inserted unfolding create_job_def prod.case ids
    by (simp only: trial_request_ok trial_roles(1) trial_checked trial_blanks trial_planned and_then_simps open_board_ok parse_trial fetch_one_def ok_or_def
      option.case sum.case simp_thms if_False unwrap_or_simps)
qed


end
