(* ===== verification/Account_Rules.thy ===== *)
theory Account_Rules
  imports Player_Configs
begin

text \<open>
  \<open>routes/auth.rs\<close>, the rules of registration: which text is one bare mail address, and which characters a
  username may hold -- no control or format characters, and joiners and variation selectors only where a
  script or an emoji puts them.
\<close>

section \<open>Mail addresses\<close>

definition is_atext :: "uchar \<Rightarrow> bool" where
  "is_atext c \<longleftrightarrow> is_ascii_alnum c \<or> c \<in> set (lit ''!#$%&'' @ [39] @ lit ''*+-/=?^_`{|}~'')"

definition is_host_label :: "ustr \<Rightarrow> bool" where
  "is_host_label l \<longleftrightarrow> 1 \<le> utf8_len l \<and> utf8_len l \<le> 63 \<and> hd l \<noteq> 45 \<and> last l \<noteq> 45 \<and>
     list_all (\<lambda>c. is_ascii_alnum c \<or> c = 45) l"

definition is_bare_address :: "ustr \<Rightarrow> bool" where
  "is_bare_address email = (case split_once 64 email of
     None \<Rightarrow> False
   | Some (local, domain) \<Rightarrow>
       let labels = split_by (\<lambda>c. c = 46) domain in
       utf8_len email \<le> 254 \<and> utf8_len local \<le> 64 \<and>
       list_all (\<lambda>part. part \<noteq> [] \<and> list_all is_atext part) (split_by (\<lambda>c. c = 46) local) \<and>
       length labels \<ge> 2 \<and> list_all is_host_label labels \<and> \<not> list_all is_ascii_digit (last labels))"

section \<open>Usernames\<close>

definition in_ranges :: "(nat \<times> nat) list \<Rightarrow> uchar \<Rightarrow> bool" where
  "in_ranges rs c \<longleftrightarrow> list_ex (\<lambda>(a, b). a \<le> c \<and> c \<le> b) rs"

definition hidden_ranges :: "(nat \<times> nat) list" where
  "hidden_ranges = [(0x00AD, 0x00AD), (0x0600, 0x0605), (0x061C, 0x061C), (0x06DD, 0x06DD), (0x070F, 0x070F),
     (0x0890, 0x0891), (0x08E2, 0x08E2), (0x180E, 0x180E), (0x200B, 0x200B), (0x200E, 0x200F), (0x2028, 0x202E),
     (0x2060, 0x2064), (0x2065, 0x206F), (0xFEFF, 0xFEFF), (0xFFF0, 0xFFFB), (0x110BD, 0x110BD),
     (0x110CD, 0x110CD), (0x13430, 0x1343F), (0x1BCA0, 0x1BCA3), (0x1D173, 0x1D17A), (0xE0000, 0xE00FF),
     (0xE01F0, 0xE0FFF), (0x034F, 0x034F), (0x115F, 0x1160), (0x17B4, 0x17B5), (0x180B, 0x180D),
     (0x180F, 0x180F), (0x3164, 0x3164), (0xFFA0, 0xFFA0), (0x2800, 0x2800)]"

definition is_hidden_or_breaking :: "uchar \<Rightarrow> bool" where
  "is_hidden_or_breaking c \<longleftrightarrow> is_control c \<or> in_ranges hidden_ranges c"

definition virama :: "uchar \<Rightarrow> bool" where
  "virama c \<longleftrightarrow> c \<in> {0x094D, 0x09CD, 0x0A4D, 0x0ACD, 0x0B4D, 0x0BCD, 0x0C4D, 0x0CCD, 0x0D4D, 0x0DCA}"

definition writes_with_joiners :: "uchar \<Rightarrow> bool" where
  "writes_with_joiners c \<longleftrightarrow> in_ranges [(0x0600, 0x06FF), (0x0750, 0x077F), (0x08A0, 0x08FF), (0xFB50, 0xFDFF),
     (0xFE70, 0xFEFF), (0x0700, 0x074F), (0x07C0, 0x07FF), (0x1800, 0x18AF), (0x0900, 0x0DFF), (0x0F00, 0x0FFF),
     (0x1000, 0x109F), (0x1780, 0x17FF), (0xA840, 0xA8FF), (0x11000, 0x111FF)] c \<and> \<not> is_hidden_or_breaking c"

definition pictographic :: "uchar \<Rightarrow> bool" where
  "pictographic c \<longleftrightarrow> in_ranges [(0x00A9, 0x00A9), (0x00AE, 0x00AE), (0x203C, 0x203C), (0x2049, 0x2049),
     (0x2122, 0x2122), (0x2139, 0x2139), (0x2190, 0x21FF), (0x2300, 0x23FF), (0x2460, 0x27BF), (0x2900, 0x297F),
     (0x2B00, 0x2BFF), (0x3030, 0x3030), (0x303D, 0x303D), (0x3297, 0x3297), (0x3299, 0x3299), (0x1F000, 0x1FAFF)] c"

definition ideographic :: "uchar \<Rightarrow> bool" where
  "ideographic c \<longleftrightarrow> in_ranges [(0x3400, 0x4DBF), (0x4E00, 0x9FFF), (0xF900, 0xFAFF), (0x20000, 0x3134F)] c"

definition char_at :: "ustr \<Rightarrow> nat \<Rightarrow> uchar option" where
  "char_at chars i = (if i < length chars then Some (chars ! i) else None)"

definition char_is :: "(uchar \<Rightarrow> bool) \<Rightarrow> uchar option \<Rightarrow> bool" where
  "char_is p c = (case c of None \<Rightarrow> False | Some x \<Rightarrow> p x)"

definition misplaced_at :: "ustr \<Rightarrow> nat \<Rightarrow> uchar \<Rightarrow> bool" where
  "misplaced_at chars i c =
     (let before = (if i > 0 then char_at chars (i - 1) else None);
          base = (if before = Some 0xFE0F \<and> i > 1 then char_at chars (i - 2) else before);
          after = char_at chars (i + 1)
      in if c = 0x200C \<or> c = 0x200D
         then let word_end = (after = None \<or> char_is is_whitespace after)
              in \<not> ((char_is writes_with_joiners before \<and> char_is writes_with_joiners after) \<or>
                    (char_is virama before \<and> word_end) \<or>
                    (char_is pictographic base \<and> char_is pictographic after))
         else if 0xFE00 \<le> c \<and> c \<le> 0xFE0F
         then let keycap = char_is (\<lambda>b. is_ascii_digit b \<or> b = 35 \<or> b = 42) before \<and> after = Some 0x20E3
              in \<not> (char_is pictographic before \<or> char_is ideographic before \<or> keycap)
         else if 0xE0100 \<le> c \<and> c \<le> 0xE01EF then \<not> char_is ideographic before
         else False)"

definition misplaced_joiner :: "ustr \<Rightarrow> bool" where
  "misplaced_joiner name = list_ex (\<lambda>(i, c). misplaced_at name i c) (zip [0..<length name] name)"

text \<open>\<open>INVISIBLE_MARKS\<close>, and a name with them replaced by nothing.\<close>

definition invisible_mark :: "uchar \<Rightarrow> bool" where
  "invisible_mark c \<longleftrightarrow> c = 0x200C \<or> c = 0x200D \<or> (0xFE00 \<le> c \<and> c \<le> 0xFE0F) \<or> (0xE0100 \<le> c \<and> c \<le> 0xE01EF)"

definition without_marks :: "ustr \<Rightarrow> ustr" where
  "without_marks name = filter (\<lambda>c. \<not> invisible_mark c) name"

definition as_mailed :: "ustr \<Rightarrow> ustr" where
  "as_mailed username = map (\<lambda>c. if is_hidden_or_breaking c then 63 else c) username"

end
