(* ===== verification/Rate_Limits.thy ===== *)
theory Rate_Limits
  imports Store Racks
begin

text \<open>
  \<open>ratelimit.rs\<close> and \<open>clientip.rs\<close>: the address a request came from, the
  token buckets it is charged to, and which worker credentials are looked up at all.  The buckets
  themselves (\<open>governor\<close>'s keyed limiters) are a parameter: a state \<open>'l\<close> and \<open>check_key\<close>, which either
  takes a cell of a key's bucket or answers how many nanoseconds to wait.  \<open>Instant::now()\<close> is \<open>inst\<close>, in
  nanoseconds.
\<close>

section \<open>The address of a request\<close>

definition ascii_space :: "nat \<Rightarrow> bool" where
  "ascii_space b \<longleftrightarrow> b = 32 \<or> b = 9 \<or> b = 10 \<or> b = 12 \<or> b = 13"

definition trim_ascii :: "nat list \<Rightarrow> nat list" where
  "trim_ascii bs = rev (dropWhile ascii_space (rev (dropWhile ascii_space bs)))"

text \<open>\<open>headers\<close> are the values of \<open>X-Forwarded-For\<close>, in order; \<open>parse_ip\<close> reads an address from text.\<close>

definition forwarded_entries :: "nat list list \<Rightarrow> nat list list" where
  "forwarded_entries headers =
     filter (\<lambda>entry. entry \<noteq> []) (map trim_ascii (concat (map (split_by (\<lambda>b. b = 44)) headers)))"

definition client_resolve ::
  "(ustr \<Rightarrow> 'ip option) \<Rightarrow> nat list list \<Rightarrow> 'ip option \<Rightarrow> nat \<Rightarrow> 'ip option" where
  "client_resolve parse_ip headers peer trusted_hops =
     (if trusted_hops = 0 then peer
      else
        let entries = forwarded_entries headers in
        if length entries < trusted_hops then peer
        else (case utf8_decode (entries ! (length entries - trusted_hops)) of
                None \<Rightarrow> peer
              | Some entry \<Rightarrow> (case parse_ip entry of None \<Rightarrow> peer | Some ip \<Rightarrow> Some ip)))"

text \<open>A request with no connection is the unspecified address.\<close>

definition client_ip :: "(ustr \<Rightarrow> 'ip option) \<Rightarrow> nat list list \<Rightarrow> 'ip option \<Rightarrow> nat \<Rightarrow> 'ip \<Rightarrow> 'ip" where
  "client_ip parse_ip headers peer trusted_hops unspecified =
     (case client_resolve parse_ip headers peer trusted_hops of None \<Rightarrow> unspecified | Some ip \<Rightarrow> ip)"

section \<open>One bucket\<close>

record 'l limiter_ops =
  check_key :: "'l \<Rightarrow> ustr \<Rightarrow> int \<Rightarrow> 'l \<times> int option"
  drop_full :: "'l \<Rightarrow> int \<Rightarrow> 'l"

definition MAX_KEY_BYTES :: nat where "MAX_KEY_BYTES = 128"

definition bucket_key :: "(ustr \<Rightarrow> ustr) \<Rightarrow> ustr \<Rightarrow> ustr" where
  "bucket_key sha256 key = (if utf8_len key > MAX_KEY_BYTES then lit ''sha256:'' @ sha256 key else key)"

definition retry_seconds :: "int \<Rightarrow> nat" where
  "retry_seconds nanos = nat (max (nanos div 1000000000 + (if nanos mod 1000000000 > 0 then 1 else 0)) 1)"

definition rate_check :: "'l limiter_ops \<Rightarrow> (ustr \<Rightarrow> ustr) \<Rightarrow> 'l \<Rightarrow> ustr \<Rightarrow> int \<Rightarrow> 'l \<times> check" where
  "rate_check ops sha256 limiter key inst =
     (case check_key ops limiter (bucket_key sha256 key) inst of
        (limiter', None) \<Rightarrow> (limiter', ok)
      | (limiter', Some nanos) \<Rightarrow> (limiter', Inl (Too_many_requests (retry_seconds nanos))))"

section \<open>Worker credentials\<close>

datatype worker_bucket = Claims | WorkInHand

record 'l credential_gate =
  cg_unknown :: 'l
  cg_known :: "(ustr \<times> int) list"

definition KNOWN_FOR :: int where "KNOWN_FOR = 600000000000"
definition MAX_KNOWN :: nat where "MAX_KNOWN = 50000"

definition is_known :: "'l credential_gate \<Rightarrow> ustr \<Rightarrow> int \<Rightarrow> bool" where
  "is_known gate presented inst \<longleftrightarrow> (case map_of (cg_known gate) presented of
     None \<Rightarrow> False | Some since \<Rightarrow> inst - since < KNOWN_FOR)"

definition worker_key :: "ustr \<Rightarrow> worker_bucket \<Rightarrow> ustr" where
  "worker_key presented bucket = (case bucket of Claims \<Rightarrow> presented | WorkInHand \<Rightarrow> presented @ lit ''#work'')"

text \<open>The credential's own buckets (\<open>limits.worker\<close>) are the second state.\<close>

definition admit ::
  "'l limiter_ops \<Rightarrow> (ustr \<Rightarrow> ustr) \<Rightarrow> 'l credential_gate \<times> 'l \<Rightarrow> ustr \<Rightarrow> worker_bucket \<Rightarrow> ustr \<Rightarrow> int \<Rightarrow>
    ('l credential_gate \<times> 'l) \<times> check" where
  "admit ops sha256 st presented bucket address inst = (case st of (gate, worker) \<Rightarrow>
     (case (if is_known gate presented inst then (cg_unknown gate, ok)
            else rate_check ops sha256 (cg_unknown gate) (lit ''ip:'' @ address) inst) of
        (unknown, Inl e) \<Rightarrow> ((gate\<lparr>cg_unknown := unknown\<rparr>, worker), Inl e)
      | (unknown, Inr _) \<Rightarrow>
          let (worker', answer) = rate_check ops sha256 worker (worker_key presented bucket) inst
          in ((gate\<lparr>cg_unknown := unknown\<rparr>, worker'), answer)))"

text \<open>A \<open>HashMap\<close>: inserting a key replaces its entry.\<close>

definition remember_credential :: "'l credential_gate \<Rightarrow> ustr \<Rightarrow> int \<Rightarrow> 'l credential_gate" where
  "remember_credential gate presented inst =
     (if length (cg_known gate) < MAX_KNOWN \<or> presented \<in> fst ` set (cg_known gate)
      then gate\<lparr>cg_known := (presented, inst) # filter (\<lambda>(k, _). k \<noteq> presented) (cg_known gate)\<rparr>
      else gate)"

definition retain_recent_credentials :: "'l limiter_ops \<Rightarrow> 'l credential_gate \<Rightarrow> int \<Rightarrow> 'l credential_gate" where
  "retain_recent_credentials ops gate inst = gate\<lparr>cg_unknown := drop_full ops (cg_unknown gate) inst,
     cg_known := filter (\<lambda>(_, since). inst - since < KNOWN_FOR) (cg_known gate)\<rparr>"

section \<open>Every limiter\<close>

record 'l rate_limiters =
  rl_register :: 'l
  rl_worker :: 'l
  rl_unregistered_worker :: 'l
  rl_reset :: 'l
  rl_login :: 'l
  rl_login_account :: 'l
  rl_key_creation :: 'l
  rl_key_changes :: 'l
  rl_redeem :: 'l
  rl_gate :: "'l credential_gate"

text \<open>A quota is a burst and the nanoseconds between two cells; \<open>fresh\<close> makes a limiter of one.\<close>

definition rate_limiters_new :: "(int \<Rightarrow> int \<Rightarrow> 'l) \<Rightarrow> 'l rate_limiters" where
  "rate_limiters_new fresh =
     (let second = 1000000000; minute = 60 * second; hour = 60 * minute in
      \<lparr>rl_register = fresh 10 (hour div 10), rl_worker = fresh 5 second,
       rl_unregistered_worker = fresh 30 (second div 5), rl_reset = fresh 5 (hour div 5),
       rl_login = fresh 10 (minute div 10), rl_login_account = fresh 100 (minute div 100),
       rl_key_creation = fresh 100 (hour div 10), rl_key_changes = fresh 100 (hour div 60),
       rl_redeem = fresh 20 (minute div 20),
       rl_gate = \<lparr>cg_unknown = fresh 100 (second div 5), cg_known = []\<rparr>\<rparr>)"

definition retain_recent :: "'l limiter_ops \<Rightarrow> 'l rate_limiters \<Rightarrow> int \<Rightarrow> 'l rate_limiters" where
  "retain_recent ops l inst =
     \<lparr>rl_register = drop_full ops (rl_register l) inst, rl_worker = drop_full ops (rl_worker l) inst,
      rl_unregistered_worker = drop_full ops (rl_unregistered_worker l) inst,
      rl_reset = drop_full ops (rl_reset l) inst, rl_login = drop_full ops (rl_login l) inst,
      rl_login_account = drop_full ops (rl_login_account l) inst,
      rl_key_creation = drop_full ops (rl_key_creation l) inst,
      rl_key_changes = drop_full ops (rl_key_changes l) inst, rl_redeem = drop_full ops (rl_redeem l) inst,
      rl_gate = retain_recent_credentials ops (rl_gate l) inst\<rparr>"

end
