(* ===== verification/Accounts.thy ===== *)
theory Accounts
  imports Account_Rules Rate_Limits "HOL-Library.Word"
begin

text \<open>
  Accounts and their credentials: \<open>auth/\<close> (sessions, CSRF tokens, API keys, worker identities),
  \<open>routes/auth.rs\<close> and \<open>routes/account.rs\<close>, and the account deletions and bans of \<open>routes/admin.rs\<close>.  Cryptography (the
  session token's cipher, SHA-256, Argon2, zxcvbn's score), the text of a UUID and the two foldings of
  case are parameters; so are the identifiers, codes and salts drawn.  The columns of \<open>users\<close> and
  \<open>anonymous_workers\<close> that count contributions are the contributor rows of \<open>Store\<close>.
\<close>

section \<open>Tables\<close>

record user_row =
  us_id :: nat
  us_username :: ustr
  us_email :: ustr
  us_password_hash :: ustr
  us_email_confirmed_at :: "time option"
  us_is_admin :: bool
  us_session_generation :: int
  us_deleted_at :: "time option"
  us_created_at :: time

text \<open>A row of \<open>email_confirmations\<close> or \<open>password_reset_tokens\<close>.\<close>

record code_row =
  cd_user_id :: nat
  cd_hash :: ustr
  cd_expires_at :: time
  cd_used_at :: "time option"

record key_row =
  ky_id :: nat
  ky_user_id :: nat
  ky_hash :: ustr
  ky_label :: "ustr option"
  ky_is_active :: bool
  ky_created_at :: time
  ky_last_used_at :: "time option"

record worker_row =
  wk_uuid :: nat
  wk_last_seen_at :: time

record ban_row =
  bn_id :: nat
  bn_worker :: owner
  bn_reason :: "ustr option"
  bn_banned_by :: "nat option"
  bn_created_at :: time

record accounts =
  ac_users :: "user_row list"
  ac_confirmations :: "code_row list"
  ac_resets :: "code_row list"
  ac_keys :: "key_row list"
  ac_workers :: "worker_row list"
  ac_bans :: "ban_row list"
  ac_audit :: "audit_row list"

text \<open>What a session token carries; a claim that is absent or of another type is \<open>None\<close>.\<close>

record token_claims =
  tk_subject :: "ustr option"
  tk_issued_at :: time
  tk_expires_at :: time
  tk_username :: ustr
  tk_is_admin :: bool
  tk_generation :: "int option"

text \<open>\<open>ex_open\<close> refuses a token it did not seal under this key and one that has expired at the time given.\<close>

record externals =
  ex_sha256 :: "ustr \<Rightarrow> ustr"
  ex_hash_password :: "ustr \<Rightarrow> ustr \<Rightarrow> ustr app_result"
  ex_verify_password :: "ustr \<Rightarrow> ustr \<Rightarrow> bool"
  ex_score :: "ustr \<Rightarrow> ustr list \<Rightarrow> nat app_result"
  ex_lower :: "ustr \<Rightarrow> ustr"
  ex_to_lowercase :: "ustr \<Rightarrow> ustr"
  ex_parse_uuid :: "ustr \<Rightarrow> nat option"
  ex_seal :: "nat \<Rightarrow> token_claims \<Rightarrow> ustr app_result"
  ex_open :: "ustr \<Rightarrow> time \<Rightarrow> token_claims option"

section \<open>Sessions\<close>

record session_claims =
  sc_user_id :: nat
  sc_generation :: int

text \<open>\<open>session_ttl\<close> is \<open>None\<close> where chrono cannot hold it: then seven days.\<close>

definition session_issue ::
  "externals \<Rightarrow> time option \<Rightarrow> time \<Rightarrow> nat \<Rightarrow> nat \<Rightarrow> ustr \<Rightarrow> bool \<Rightarrow> int \<Rightarrow> ustr app_result" where
  "session_issue ex session_ttl now nonce user_id username is_admin generation =
     ex_seal ex nonce \<lparr>tk_subject = Some (show_nat user_id), tk_issued_at = now,
       tk_expires_at = now + unwrap_or session_ttl (7 * 86400 * 1000000), tk_username = username,
       tk_is_admin = is_admin, tk_generation = Some generation\<rparr>"

definition session_verify :: "externals \<Rightarrow> ustr \<Rightarrow> time \<Rightarrow> session_claims app_result" where
  "session_verify ex token now =
     and_then (ok_or (ex_open ex token now) (Unauthorized ''invalid or expired session'')) (\<lambda>claims.
     and_then (ok_or (case tk_subject claims of None \<Rightarrow> None | Some s \<Rightarrow> ex_parse_uuid ex s)
       (Unauthorized ''session has no subject'')) (\<lambda>user_id.
     and_then (ok_or (case tk_generation claims of
         None \<Rightarrow> None | Some g \<Rightarrow> if - 2147483648 \<le> g \<and> g \<le> i32_max then Some g else None)
       (Unauthorized ''session has no generation'')) (\<lambda>generation.
       Inr \<lparr>sc_user_id = user_id, sc_generation = generation\<rparr>)))"

text \<open>\<open>CurrentUser\<close>: the session cookie, re-checked against the account.\<close>

definition current_user :: "externals \<Rightarrow> accounts \<Rightarrow> ustr option \<Rightarrow> time \<Rightarrow> user_row app_result" where
  "current_user ex ac cookie now =
     and_then (ok_or cookie (Unauthorized ''not signed in'')) (\<lambda>token.
     and_then (session_verify ex token now) (\<lambda>claims.
       ok_or (find (\<lambda>u. us_id u = sc_user_id claims \<and> us_deleted_at u = None \<and>
           us_session_generation u = sc_generation claims) (ac_users ac))
         (Unauthorized ''session is no longer valid; sign in again'')))"

definition admin_user :: "externals \<Rightarrow> accounts \<Rightarrow> ustr option \<Rightarrow> time \<Rightarrow> user_row app_result" where
  "admin_user ex ac cookie now =
     and_then (current_user ex ac cookie now) (\<lambda>u.
       if us_is_admin u then Inr u else Inl (Forbidden ''admin privileges required''))"

section \<open>CSRF tokens\<close>

datatype http_method = GET | HEAD | OPTIONS | POST | PUT | PATCH | DELETE

definition same_token :: "8 word list \<Rightarrow> 8 word list \<Rightarrow> bool" where
  "same_token a b \<longleftrightarrow> a \<noteq> [] \<and> length a = length b \<and>
     foldl (\<lambda>acc (x, y). or acc (xor x y)) 0 (zip a b) = 0"

text \<open>\<open>None\<close>: no such cookie, or no header whose value is visible ASCII.\<close>

definition csrf_verify :: "http_method \<Rightarrow> 8 word list option \<Rightarrow> 8 word list option \<Rightarrow> check" where
  "csrf_verify method cookie header =
     (if method \<in> {GET, HEAD, OPTIONS} then ok
      else and_then (ok_or cookie (Forbidden ''missing CSRF cookie'')) (\<lambda>c.
           and_then (ok_or header (Forbidden ''missing CSRF header'')) (\<lambda>h.
             if \<not> same_token c h then Inl (Forbidden ''CSRF token mismatch'') else ok)))"

section \<open>Cookies and mail\<close>

record cookie =
  ck_name :: ustr
  ck_value :: ustr
  ck_http_only :: bool
  ck_secure :: bool
  ck_path :: ustr

datatype set_cookie = Set_cookie cookie | Remove_cookie ustr ustr

definition SESSION_COOKIE :: ustr where "SESSION_COOKIE = lit ''birdtest_session''"
definition CSRF_COOKIE :: ustr where "CSRF_COOKIE = lit ''birdtest_csrf''"

definition session_cookie :: "bool \<Rightarrow> ustr \<Rightarrow> set_cookie" where
  "session_cookie secure_cookies v = Set_cookie \<lparr>ck_name = SESSION_COOKIE, ck_value = v, ck_http_only = True,
     ck_secure = secure_cookies, ck_path = lit ''/''\<rparr>"

definition csrf_cookie :: "bool \<Rightarrow> ustr \<Rightarrow> set_cookie" where
  "csrf_cookie secure_cookies v = Set_cookie \<lparr>ck_name = CSRF_COOKIE, ck_value = v, ck_http_only = False,
     ck_secure = secure_cookies, ck_path = lit ''/''\<rparr>"

definition removal :: "ustr \<Rightarrow> set_cookie" where
  "removal name = Remove_cookie name (lit ''/'')"

text \<open>Mail handed to the mailer off the request, to an address: a code to confirm or reset with, or a notice.\<close>

datatype mail =
    Confirm_mail ustr ustr
  | Reset_mail ustr ustr ustr
  | Taken_notice ustr bool

section \<open>Deleting what hangs off an account\<close>

definition delete_users :: "(user_row \<Rightarrow> bool) \<Rightarrow> accounts \<Rightarrow> accounts" where
  "delete_users gone ac =
     (let ids = map us_id (filter gone (ac_users ac)) in
      ac\<lparr>ac_users := filter (\<lambda>u. us_id u \<notin> set ids) (ac_users ac),
         ac_confirmations := filter (\<lambda>c. cd_user_id c \<notin> set ids) (ac_confirmations ac),
         ac_resets := filter (\<lambda>c. cd_user_id c \<notin> set ids) (ac_resets ac),
         ac_keys := filter (\<lambda>k. ky_user_id k \<notin> set ids) (ac_keys ac),
         ac_bans := map (\<lambda>b. b\<lparr>bn_banned_by := (case bn_banned_by b of None \<Rightarrow> None
             | Some i \<Rightarrow> if i \<in> set ids then None else Some i)\<rparr>)
           (filter (\<lambda>b. bn_worker b \<notin> By_user ` set ids) (ac_bans ac))\<rparr>)"

section \<open>Registering\<close>

definition MIN_PASSWORD_SCORE :: nat where "MIN_PASSWORD_SCORE = 3"
definition CONFIRMATION_TTL :: time where "CONFIRMATION_TTL = 24 * 3600 * 1000000"
definition RESET_TTL :: time where "RESET_TTL = 30 * 60 * 1000000"

definition too_weak :: "externals \<Rightarrow> ustr \<Rightarrow> ustr \<Rightarrow> ustr \<Rightarrow> bool app_result" where
  "too_weak ex password username email =
     and_then (ex_score ex password (filter (\<lambda>c. c \<noteq> []) [username, email, hd (split_by (\<lambda>c. c = 64) email)]))
       (\<lambda>score. Inr (score < MIN_PASSWORD_SCORE))"

record register_body =
  rg_username :: ustr
  rg_email :: ustr
  rg_password :: ustr

definition username_fields :: "ustr \<Rightarrow> (string \<times> string) list" where
  "username_fields username =
     (if \<not> (3 \<le> length username \<and> length username \<le> 32) then [(''username'', ''between 3 and 32 characters'')]
      else field_if (list_ex is_hidden_or_breaking username \<or> misplaced_joiner username) ''username''
        ''no line breaks or invisible characters'')"

definition registration_fields :: "ustr \<Rightarrow> ustr \<Rightarrow> bool \<Rightarrow> (string \<times> string) list" where
  "registration_fields username email weak = username_fields username @
     field_if (\<not> is_bare_address email) ''email'' ''must be a valid email address'' @
     field_if weak ''password'' ''too weak''"

definition same_name :: "externals \<Rightarrow> ustr \<Rightarrow> ustr \<Rightarrow> bool" where
  "same_name ex stored name \<longleftrightarrow> ex_lower ex stored = ex_lower ex name \<or>
     without_marks (ex_lower ex stored) = without_marks (ex_lower ex name)"

definition has_live_confirmation :: "accounts \<Rightarrow> time \<Rightarrow> nat \<Rightarrow> bool" where
  "has_live_confirmation ac now user_id =
     list_ex (\<lambda>c. cd_user_id c = user_id \<and> cd_used_at c = None \<and> cd_expires_at c > now) (ac_confirmations ac)"

text \<open>The accounts a registration releases: never confirmed, and past every confirmation they were sent.\<close>

definition releasable :: "externals \<Rightarrow> accounts \<Rightarrow> time \<Rightarrow> ustr \<Rightarrow> ustr \<Rightarrow> user_row \<Rightarrow> bool" where
  "releasable ex ac now username email u \<longleftrightarrow>
     (same_name ex (us_username u) username \<or> us_email u = email) \<and> us_email_confirmed_at u = None \<and>
     us_deleted_at u = None \<and> \<not> us_is_admin u \<and> \<not> has_live_confirmation ac now (us_id u)"

definition username_taken :: app_error where
  "username_taken = Conflict ''that username is taken''"

record new_account =
  na_user_id :: nat
  na_salt :: ustr
  na_code :: ustr

definition insert_user :: "externals \<Rightarrow> accounts \<Rightarrow> user_row \<Rightarrow> accounts app_result" where
  "insert_user ex ac u =
     (if list_ex (\<lambda>v. ex_lower ex (us_username v) = ex_lower ex (us_username u)) (ac_users ac) then Inl username_taken
      else if list_ex (\<lambda>v. us_email v = us_email u) (ac_users ac) then Inl (Conflict ''that already exists'')
      else Inr (ac\<lparr>ac_users := ac_users ac @ [u]\<rparr>))"

definition open_account ::
  "externals \<Rightarrow> accounts \<Rightarrow> new_account \<Rightarrow> ustr \<Rightarrow> ustr \<Rightarrow> ustr \<Rightarrow> time \<Rightarrow> accounts app_result" where
  "open_account ex ac drawn username email password_hash now =
     and_then (insert_user ex ac \<lparr>us_id = na_user_id drawn, us_username = username, us_email = email,
       us_password_hash = password_hash, us_email_confirmed_at = None, us_is_admin = False,
       us_session_generation = 0, us_deleted_at = None, us_created_at = now\<rparr>) (\<lambda>ac1.
       Inr (ac1\<lparr>ac_confirmations := ac_confirmations ac1 @ [\<lparr>cd_user_id = na_user_id drawn,
             cd_hash = ex_sha256 ex (na_code drawn), cd_expires_at = now + CONFIRMATION_TTL, cd_used_at = None\<rparr>],
           ac_audit := audit_log (lit ''user.registered'') (Some (By_user (na_user_id drawn)))
             (Some (lit ''user'', na_user_id drawn)) None (ac_audit ac1)\<rparr>))"


text \<open>
  A handler's limiters, tables and the mail it hands on, with its answer.  \<open>later\<close> is what other
  transactions commit while a password is scored or hashed, and the turns are whether the wait for one of
  the few threads that do either ended in time.
\<close>

type_synonym 'l auth_state = "'l rate_limiters \<times> accounts \<times> mail list"

definition charge_register :: "'l limiter_ops \<Rightarrow> externals \<Rightarrow> 'l rate_limiters \<Rightarrow> ustr \<Rightarrow> int \<Rightarrow> 'l rate_limiters \<times> check" where
  "charge_register ops ex l key inst =
     (case rate_check ops (ex_sha256 ex) (rl_register l) key inst of (b, r) \<Rightarrow> (l\<lparr>rl_register := b\<rparr>, r))"

definition charge_reset :: "'l limiter_ops \<Rightarrow> externals \<Rightarrow> 'l rate_limiters \<Rightarrow> ustr \<Rightarrow> int \<Rightarrow> 'l rate_limiters \<times> check" where
  "charge_reset ops ex l key inst =
     (case rate_check ops (ex_sha256 ex) (rl_reset l) key inst of (b, r) \<Rightarrow> (l\<lparr>rl_reset := b\<rparr>, r))"

definition charge_redeem :: "'l limiter_ops \<Rightarrow> externals \<Rightarrow> 'l rate_limiters \<Rightarrow> ustr \<Rightarrow> int \<Rightarrow> 'l rate_limiters \<times> check" where
  "charge_redeem ops ex l key inst =
     (case rate_check ops (ex_sha256 ex) (rl_redeem l) key inst of (b, r) \<Rightarrow> (l\<lparr>rl_redeem := b\<rparr>, r))"

definition charge_login :: "'l limiter_ops \<Rightarrow> externals \<Rightarrow> 'l rate_limiters \<Rightarrow> ustr \<Rightarrow> int \<Rightarrow> 'l rate_limiters \<times> check" where
  "charge_login ops ex l key inst =
     (case rate_check ops (ex_sha256 ex) (rl_login l) key inst of (b, r) \<Rightarrow> (l\<lparr>rl_login := b\<rparr>, r))"

definition charge_login_account ::
  "'l limiter_ops \<Rightarrow> externals \<Rightarrow> 'l rate_limiters \<Rightarrow> ustr \<Rightarrow> int \<Rightarrow> 'l rate_limiters \<times> check" where
  "charge_login_account ops ex l key inst =
     (case rate_check ops (ex_sha256 ex) (rl_login_account l) key inst of (b, r) \<Rightarrow> (l\<lparr>rl_login_account := b\<rparr>, r))"

definition registration_checks ::
  "externals \<Rightarrow> check \<Rightarrow> register_body \<Rightarrow> ustr \<Rightarrow> ustr \<Rightarrow> check" where
  "registration_checks ex scoring_turn b username email =
     and_then scoring_turn (\<lambda>_.
     and_then (too_weak ex (rg_password b) username email) (\<lambda>weak.
       no_fields ''registration details are invalid'' (registration_fields username email weak)))"

definition register_account ::
  "'l limiter_ops \<Rightarrow> externals \<Rightarrow> 'l rate_limiters \<Rightarrow> accounts \<Rightarrow> ustr \<Rightarrow> check \<times> check \<Rightarrow> register_body \<Rightarrow>
    new_account \<Rightarrow> (accounts \<Rightarrow> accounts) \<Rightarrow> time \<Rightarrow> int \<Rightarrow> 'l auth_state \<times> check" where
  "register_account ops ex l ac ip turns b drawn later now inst =
     (let username = trim (rg_username b); email = ex_to_lowercase ex (trim (rg_email b));
          (l1, r) = charge_register ops ex l ip inst
      in case and_then r (\<lambda>_. registration_checks ex (fst turns) b username email) of
           Inl e \<Rightarrow> ((l1, ac, []), Inl e)
         | Inr _ \<Rightarrow>
             let ac1 = delete_users (releasable ex ac now username email) ac
             in if list_ex (\<lambda>u. same_name ex (us_username u) username) (ac_users ac1)
                then ((l1, ac1, []), Inl username_taken)
                else (case and_then (snd turns) (\<lambda>_. ex_hash_password ex (rg_password b) (na_salt drawn)) of
                    Inl e \<Rightarrow> ((l1, ac1, []), Inl e)
                  | Inr password_hash \<Rightarrow>
                      if list_ex (\<lambda>u. us_email u = email) (ac_users ac1)
                      then (let confirmed = list_ex (\<lambda>u. us_email u = email \<and> us_email_confirmed_at u \<noteq> None) (ac_users ac1);
                                (l2, notice) = charge_reset ops ex l1 (lit ''reg-em:'' @ email) inst
                            in ((l2, later ac1, if notice = ok then [Taken_notice email confirmed] else []), ok))
                      else (case open_account ex (later ac1) drawn username email password_hash now of
                          Inl e \<Rightarrow> ((l1, later ac1, []), Inl e)
                        | Inr ac2 \<Rightarrow> ((l1, ac2, [Confirm_mail email (na_code drawn)]), ok))))"

section \<open>Signing in and out\<close>

definition login_bucket :: "externals \<Rightarrow> user_row option \<Rightarrow> ustr \<Rightarrow> ustr" where
  "login_bucket ex row username = (case row of
     Some u \<Rightarrow> lit ''id:'' @ show_nat (us_id u)
   | None \<Rightarrow> lit ''name:'' @ ex_to_lowercase ex (trim username))"

definition account_named :: "externals \<Rightarrow> accounts \<Rightarrow> ustr \<Rightarrow> user_row option" where
  "account_named ex ac username =
     find (\<lambda>u. ex_lower ex (us_username u) = ex_lower ex (trim username) \<and> us_deleted_at u = None) (ac_users ac)"

definition sign_in ::
  "externals \<Rightarrow> bool \<Rightarrow> time option \<Rightarrow> user_row \<Rightarrow> nat \<times> ustr \<Rightarrow> time \<Rightarrow> set_cookie list app_result" where
  "sign_in ex secure_cookies session_ttl u drawn now =
     and_then (session_issue ex session_ttl now (fst drawn) (us_id u) (us_username u) (us_is_admin u)
       (us_session_generation u)) (\<lambda>token.
       Inr [session_cookie secure_cookies token, csrf_cookie secure_cookies (snd drawn)])"

text \<open>\<open>drawn\<close> is the token's nonce and the CSRF token.\<close>

definition login ::
  "'l limiter_ops \<Rightarrow> externals \<Rightarrow> bool \<Rightarrow> time option \<Rightarrow> 'l rate_limiters \<Rightarrow> accounts \<Rightarrow> ustr \<Rightarrow> check \<Rightarrow> ustr \<Rightarrow> ustr \<Rightarrow>
    nat \<times> ustr \<Rightarrow> time \<Rightarrow> int \<Rightarrow> 'l rate_limiters \<times> (set_cookie list \<times> ustr \<times> bool) app_result" where
  "login ops ex secure_cookies session_ttl l ac ip turn username password drawn now inst =
     (let (l1, r) = charge_login ops ex l (lit ''ip:'' @ ip) inst in
      case r of Inl e \<Rightarrow> (l1, Inl e)
      | Inr _ \<Rightarrow>
          let row = account_named ex ac username;
              (l2, r2) = charge_login_account ops ex l1 (login_bucket ex row username) inst;
              invalid = Unauthorized ''incorrect username or password''
          in (l2, and_then r2 (\<lambda>_.
              and_then (ok_or row invalid) (\<lambda>u.
              and_then turn (\<lambda>_.
                if \<not> ex_verify_password ex password (us_password_hash u) then Inl invalid
                else if us_email_confirmed_at u = None then Inl (Forbidden ''confirm your email address before signing in'')
                else and_then (sign_in ex secure_cookies session_ttl u drawn now) (\<lambda>cookies.
                  Inr (cookies, us_username u, us_is_admin u)))))))"

text \<open>\<open>GET /api/dev/login\<close>, mounted with \<open>DEV_LOGIN\<close> alone; the path it goes on to.\<close>

definition local_path :: "ustr option \<Rightarrow> ustr" where
  "local_path next = (case next of
     None \<Rightarrow> lit ''/''
   | Some n \<Rightarrow> if n \<noteq> [] \<and> hd n = 47 \<and> \<not> starts_with n (lit ''//'') \<and> 92 \<notin> set n \<and>
         list_all (\<lambda>c. 0x21 \<le> c \<and> c < 0x7f) n then n else lit ''/'')"

definition dev_login ::
  "externals \<Rightarrow> bool \<Rightarrow> time option \<Rightarrow> accounts \<Rightarrow> ustr \<Rightarrow> ustr option \<Rightarrow> nat \<times> ustr \<Rightarrow> time \<Rightarrow>
    (set_cookie list \<times> ustr) app_result" where
  "dev_login ex secure_cookies session_ttl ac username next drawn now =
     and_then (ok_or (account_named ex ac username) (Not_found ''no account by that name'')) (\<lambda>u.
     and_then (sign_in ex secure_cookies session_ttl u drawn now) (\<lambda>cookies.
       Inr (cookies, local_path next)))"

definition logout :: "check \<Rightarrow> set_cookie list app_result" where
  "logout csrf = and_then csrf (\<lambda>_. Inr [removal SESSION_COOKIE, removal CSRF_COOKIE])"

definition next_generation :: "user_row \<Rightarrow> user_row" where
  "next_generation u = u\<lparr>us_session_generation := us_session_generation u + 1\<rparr>"

definition sign_out_everywhere :: "accounts \<Rightarrow> user_row \<Rightarrow> check \<Rightarrow> (accounts \<times> set_cookie list) app_result" where
  "sign_out_everywhere ac user csrf =
     and_then csrf (\<lambda>_. Inr (ac\<lparr>
       ac_users := update_key us_id (us_id user) next_generation (ac_users ac),
       ac_audit := audit_log (lit ''user.signed_out_everywhere'') (Some (By_user (us_id user)))
         (Some (lit ''user'', us_id user)) None (ac_audit ac)\<rparr>,
       [removal SESSION_COOKIE, removal CSRF_COOKIE]))"

section \<open>Confirming an address\<close>

definition unspent :: "ustr \<Rightarrow> time \<Rightarrow> code_row \<Rightarrow> bool" where
  "unspent code_hash now c \<longleftrightarrow> cd_hash c = code_hash \<and> cd_used_at c = None \<and> cd_expires_at c > now"

definition spend :: "time \<Rightarrow> code_row \<Rightarrow> code_row" where
  "spend now c = c\<lparr>cd_used_at := Some now\<rparr>"

definition already_confirmed :: "accounts \<Rightarrow> ustr \<Rightarrow> bool" where
  "already_confirmed ac code_hash = list_ex (\<lambda>c. cd_hash c = code_hash \<and> cd_used_at c \<noteq> None \<and>
     list_ex (\<lambda>u. us_id u = cd_user_id c \<and> us_email_confirmed_at u \<noteq> None \<and> us_deleted_at u = None) (ac_users ac))
     (ac_confirmations ac)"

definition confirm_code :: "accounts \<Rightarrow> ustr \<Rightarrow> time \<Rightarrow> (accounts \<times> string) app_result" where
  "confirm_code ac code_hash now = (case find (unspent code_hash now) (ac_confirmations ac) of
     None \<Rightarrow> if already_confirmed ac code_hash then Inr (ac, ''email already confirmed'')
       else Inl (Bad_request ''that confirmation link is invalid or has expired'')
   | Some c \<Rightarrow> Inr (ac\<lparr>
       ac_confirmations := update_where (unspent code_hash now) (spend now) (ac_confirmations ac),
       ac_users := update_key us_id (cd_user_id c) (\<lambda>u. u\<lparr>us_email_confirmed_at := Some now\<rparr>) (ac_users ac),
       ac_audit := log_account (lit ''user.email_confirmed'') (cd_user_id c) (lit ''user'') (cd_user_id c) (ac_audit ac)\<rparr>,
       ''email confirmed''))"

definition confirm_email ::
  "'l limiter_ops \<Rightarrow> externals \<Rightarrow> 'l rate_limiters \<Rightarrow> accounts \<Rightarrow> ustr \<Rightarrow> ustr \<Rightarrow> time \<Rightarrow> int \<Rightarrow>
    'l rate_limiters \<times> (accounts \<times> string) app_result" where
  "confirm_email ops ex l ac ip code now inst =
     (case charge_redeem ops ex l (lit ''ip:'' @ ip) inst of
        (l1, r) \<Rightarrow> (l1, and_then r (\<lambda>_. confirm_code ac (ex_sha256 ex (trim code)) now)))"


section \<open>Resetting a password\<close>

text \<open>The one answer to a reset request, whoever asks for whatever address; what it does is in the tables and the mail.\<close>

definition reset_requested :: string where
  "reset_requested = ''if that address has an account, a reset link is on its way''"

definition request_password_reset ::
  "'l limiter_ops \<Rightarrow> externals \<Rightarrow> 'l rate_limiters \<Rightarrow> accounts \<Rightarrow> ustr \<Rightarrow> ustr \<Rightarrow> ustr \<Rightarrow> (accounts \<Rightarrow> accounts) \<Rightarrow>
    time \<Rightarrow> int \<Rightarrow> 'l auth_state \<times> string app_result" where
  "request_password_reset ops ex l ac ip address raw_token later now inst =
     (let email = ex_to_lowercase ex (trim address);
          (l1, r1) = charge_reset ops ex l (lit ''ip:'' @ ip) inst
      in case r1 of Inl e \<Rightarrow> ((l1, ac, []), Inl e)
         | Inr _ \<Rightarrow>
           let (l2, r2) = charge_reset ops ex l1 (lit ''em:'' @ email) inst
           in case r2 of Inl e \<Rightarrow> ((l2, ac, []), Inl e)
              | Inr _ \<Rightarrow>
                (case find (\<lambda>u. us_email u = email \<and> us_email_confirmed_at u \<noteq> None \<and> us_deleted_at u = None) (ac_users ac) of
                   None \<Rightarrow> ((l2, ac, []), Inr reset_requested)
                 | Some u \<Rightarrow>
                     let ac1 = later ac
                     in if \<not> list_ex (\<lambda>v. us_id v = us_id u \<and> us_deleted_at v = None) (ac_users ac1)
                        then ((l2, ac1, []), Inr reset_requested)
                        else ((l2, ac1\<lparr>ac_resets := ac_resets ac1 @ [\<lparr>cd_user_id = us_id u,
                            cd_hash = ex_sha256 ex raw_token, cd_expires_at = now + RESET_TTL, cd_used_at = None\<rparr>]\<rparr>,
                          [Reset_mail email (as_mailed (us_username u)) raw_token]), Inr reset_requested)))"

definition invalid_reset :: app_error where
  "invalid_reset = Bad_request ''that reset link is invalid or has expired''"

text \<open>The account a usable link is for.\<close>

definition reset_account :: "accounts \<Rightarrow> ustr \<Rightarrow> time \<Rightarrow> user_row app_result" where
  "reset_account ac token_hash now = ok_or (case find (\<lambda>c. unspent token_hash now c \<and>
       list_ex (\<lambda>u. us_id u = cd_user_id c \<and> us_deleted_at u = None) (ac_users ac)) (ac_resets ac) of
     None \<Rightarrow> None
   | Some c \<Rightarrow> row_with us_id (cd_user_id c) (ac_users ac)) invalid_reset"

text \<open>The transaction: the account locked, the link spent, the password set, every session and other link ended.\<close>

definition reset_transaction :: "accounts \<Rightarrow> ustr \<Rightarrow> ustr \<Rightarrow> time \<Rightarrow> accounts app_result" where
  "reset_transaction ac token_hash password_hash now =
     (if \<not> list_ex (\<lambda>c. cd_hash c = token_hash \<and>
           list_ex (\<lambda>u. us_id u = cd_user_id c \<and> us_deleted_at u = None) (ac_users ac)) (ac_resets ac)
      then Inl invalid_reset
      else (case find (unspent token_hash now) (ac_resets ac) of
          None \<Rightarrow> Inl invalid_reset
        | Some c \<Rightarrow>
            let user_id = cd_user_id c;
                spent = update_where (unspent token_hash now) (spend now) (ac_resets ac)
            in Inr (ac\<lparr>
              ac_users := update_where (\<lambda>u. us_id u = user_id \<and> us_deleted_at u = None)
                (\<lambda>u. next_generation (u\<lparr>us_password_hash := password_hash\<rparr>)) (ac_users ac),
              ac_resets := update_where (\<lambda>c. cd_user_id c = user_id \<and> cd_used_at c = None) (spend now) spent,
              ac_audit := log_account (lit ''user.password_reset'') user_id (lit ''user'') user_id (ac_audit ac)\<rparr>)))"

definition confirm_password_reset ::
  "'l limiter_ops \<Rightarrow> externals \<Rightarrow> 'l rate_limiters \<Rightarrow> accounts \<Rightarrow> ustr \<Rightarrow> check \<times> check \<Rightarrow> ustr \<Rightarrow> ustr \<Rightarrow> ustr \<Rightarrow>
    (accounts \<Rightarrow> accounts) \<Rightarrow> time \<Rightarrow> int \<Rightarrow> 'l rate_limiters \<times> (accounts \<times> set_cookie list) app_result" where
  "confirm_password_reset ops ex l ac ip turns token password salt later now inst =
     (let (l1, r1) = charge_redeem ops ex l (lit ''ip:'' @ ip) inst; token_hash = ex_sha256 ex (trim token)
      in case and_then r1 (\<lambda>_. and_then (reset_account ac token_hash now) (\<lambda>u. and_then (fst turns) (\<lambda>_. Inr u))) of
           Inl e \<Rightarrow> (l1, Inl e)
         | Inr u \<Rightarrow>
             (case charge_reset ops ex l1 (lit ''tok:'' @ token_hash) inst of (l2, r2) \<Rightarrow>
               (l2, and_then r2 (\<lambda>_.
                and_then (too_weak ex password (us_username u) (us_email u)) (\<lambda>weak.
                if weak then Inl (Invalid ''password is invalid'' [(''password'', ''too weak'')])
                else and_then (snd turns) (\<lambda>_.
                  and_then (ex_hash_password ex password salt) (\<lambda>password_hash.
                  and_then (reset_transaction (later ac) token_hash password_hash now) (\<lambda>ac1.
                    Inr (ac1, [removal SESSION_COOKIE])))))))))"

section \<open>API keys\<close>

definition MAX_API_KEYS :: int where "MAX_API_KEYS = 100"
definition MAX_KEY_LABEL_CHARS :: nat where "MAX_KEY_LABEL_CHARS = 100"

definition me :: "contributor_row list \<Rightarrow> user_row \<Rightarrow> (user_row \<times> int) app_result" where
  "me contributors user = and_then (ok_or (row_with k_owner (By_user (us_id user)) contributors)
     (Not_found ''resource not found'')) (\<lambda>k. Inr (user, k_tasks_completed k))"

definition list_keys :: "accounts \<Rightarrow> user_row \<Rightarrow> key_row list" where
  "list_keys ac user = sort_key (\<lambda>k. - ky_created_at k) (filter (\<lambda>k. ky_user_id k = us_id user) (ac_keys ac))"

definition insert_key ::
  "externals \<Rightarrow> accounts \<Rightarrow> nat \<Rightarrow> ustr option \<Rightarrow> nat \<Rightarrow> ustr \<Rightarrow> time \<Rightarrow> (accounts \<times> key_row) app_result" where
  "insert_key ex ac user_id label key_id raw now =
     (if \<not> list_ex (\<lambda>u. us_id u = user_id \<and> us_deleted_at u = None) (ac_users ac)
      then Inl (Unauthorized ''this account no longer exists'')
      else if count_where (\<lambda>k. ky_user_id k = user_id) (ac_keys ac) \<ge> MAX_API_KEYS
      then Inl (Conflict ''you already have 100 API keys'')
      else if list_ex (\<lambda>k. ky_hash k = ex_sha256 ex raw) (ac_keys ac) then Inl (Conflict ''that already exists'')
      else let key = \<lparr>ky_id = key_id, ky_user_id = user_id, ky_hash = ex_sha256 ex raw, ky_label = label,
             ky_is_active = True, ky_created_at = now, ky_last_used_at = None\<rparr>
           in Inr (ac\<lparr>ac_keys := ac_keys ac @ [key],
             ac_audit := log_account (lit ''api_key.created'') user_id (lit ''api_key'') key_id (ac_audit ac)\<rparr>, key))"

text \<open>\<open>ac\<close> is the tables once the account's row is locked.\<close>

definition create_key ::
  "'l limiter_ops \<Rightarrow> externals \<Rightarrow> 'l rate_limiters \<Rightarrow> accounts \<Rightarrow> user_row \<Rightarrow> check \<Rightarrow> ustr option \<Rightarrow> nat \<Rightarrow> ustr \<Rightarrow>
    time \<Rightarrow> int \<Rightarrow> 'l rate_limiters \<times> (accounts \<times> key_row) app_result" where
  "create_key ops ex l ac user csrf label key_id raw now inst =
     (case and_then csrf (\<lambda>_. if is_some_and label (\<lambda>t. length t > MAX_KEY_LABEL_CHARS)
          then Inl (Invalid ''the key's label is too long'' [(''label'', ''at most 100 characters'')]) else ok) of
        Inl e \<Rightarrow> (l, Inl e)
      | Inr _ \<Rightarrow>
          (case rate_check ops (ex_sha256 ex) (rl_key_creation l) (lit ''u:'' @ show_nat (us_id user)) inst of
             (b, r) \<Rightarrow> (l\<lparr>rl_key_creation := b\<rparr>,
               and_then r (\<lambda>_. insert_key ex ac (us_id user) label key_id raw now))))"

definition own_key :: "nat \<Rightarrow> nat \<Rightarrow> key_row \<Rightarrow> bool" where
  "own_key key_id user_id k \<longleftrightarrow> ky_id k = key_id \<and> ky_user_id k = user_id"

definition set_key_active_in :: "accounts \<Rightarrow> nat \<Rightarrow> nat \<Rightarrow> bool \<Rightarrow> accounts app_result" where
  "set_key_active_in ac user_id key_id is_active =
     (let changes = (\<lambda>k. own_key key_id user_id k \<and> ky_is_active k \<noteq> is_active) in
      if list_ex changes (ac_keys ac)
      then Inr (ac\<lparr>ac_keys := update_where changes (\<lambda>k. k\<lparr>ky_is_active := is_active\<rparr>) (ac_keys ac),
             ac_audit := log_account (if is_active then lit ''api_key.reactivated'' else lit ''api_key.deactivated'')
               user_id (lit ''api_key'') key_id (ac_audit ac)\<rparr>)
      else if list_ex (own_key key_id user_id) (ac_keys ac) then Inr ac
      else Inl (Not_found ''no such API key''))"

definition set_key_active ::
  "'l limiter_ops \<Rightarrow> externals \<Rightarrow> 'l rate_limiters \<Rightarrow> accounts \<Rightarrow> user_row \<Rightarrow> check \<Rightarrow> nat \<Rightarrow> bool \<Rightarrow> int \<Rightarrow>
    'l rate_limiters \<times> accounts app_result" where
  "set_key_active ops ex l ac user csrf key_id is_active inst =
     (case csrf of Inl e \<Rightarrow> (l, Inl e)
      | Inr _ \<Rightarrow>
          if is_active
          then (case rate_check ops (ex_sha256 ex) (rl_key_changes l) (lit ''u:'' @ show_nat (us_id user)) inst of
              (b, r) \<Rightarrow> (l\<lparr>rl_key_changes := b\<rparr>,
                and_then r (\<lambda>_. set_key_active_in ac (us_id user) key_id is_active)))
          else (l, set_key_active_in ac (us_id user) key_id is_active))"

definition revoke_key :: "accounts \<Rightarrow> user_row \<Rightarrow> check \<Rightarrow> nat \<Rightarrow> accounts app_result" where
  "revoke_key ac user csrf key_id =
     and_then csrf (\<lambda>_.
       if list_ex (own_key key_id (us_id user)) (ac_keys ac)
       then Inr (ac\<lparr>ac_keys := filter (\<lambda>k. \<not> own_key key_id (us_id user) k) (ac_keys ac),
              ac_audit := log_account (lit ''api_key.revoked'') (us_id user) (lit ''api_key'') key_id (ac_audit ac)\<rparr>)
       else Inl (Not_found ''no such API key''))"


section \<open>Deleting an account\<close>

text \<open>\<open>clashes\<close>: the unique indexes on the address and on the name in any case.\<close>

definition user_census :: "accounts \<Rightarrow> claim_row list \<Rightarrow> nat \<Rightarrow> ustr" where
  "user_census ac claims user_id =
     lit ''destroyed: api_keys='' @ show_int (count_where (\<lambda>k. ky_user_id k = user_id) (ac_keys ac)) @
     lit '' confirmations='' @ show_int (count_where (\<lambda>c. cd_user_id c = user_id) (ac_confirmations ac)) @
     lit '' reset_tokens='' @ show_int (count_where (\<lambda>c. cd_user_id c = user_id) (ac_resets ac)) @
     lit ''; kept: claims='' @ show_int (count_where (\<lambda>c. c_claimed_by c = By_user user_id) claims) @
     lit '' accepted='' @ show_int (count_where
       (\<lambda>c. c_claimed_by c = By_user user_id \<and> c_state c = C_completed) claims)"

definition anonymize :: "nat \<Rightarrow> time \<Rightarrow> user_row \<Rightarrow> user_row" where
  "anonymize drawn now u = u\<lparr>us_username := lit ''deleted-'' @ show_nat (us_id u),
     us_email := show_nat drawn @ lit ''@deleted.invalid'', us_password_hash := lit ''!'',
     us_email_confirmed_at := None, us_is_admin := False,
     us_session_generation := us_session_generation u + 1, us_deleted_at := Some now\<rparr>"

definition clashes :: "externals \<Rightarrow> user_row list \<Rightarrow> user_row \<Rightarrow> bool" where
  "clashes ex users u = list_ex (\<lambda>v. us_id v \<noteq> us_id u \<and>
     (ex_lower ex (us_username v) = ex_lower ex (us_username u) \<or> us_email v = us_email u)) users"

definition delete_user ::
  "externals \<Rightarrow> accounts \<Rightarrow> claim_row list \<Rightarrow> user_row \<Rightarrow> check \<Rightarrow> nat \<Rightarrow> nat \<Rightarrow> time \<Rightarrow> accounts app_result" where
  "delete_user ex ac claims admin csrf user_id drawn now =
     and_then csrf (\<lambda>_.
       if user_id = us_id admin then Inl (Bad_request ''you cannot delete your own account'')
       else if \<not> list_ex (\<lambda>u. us_id u = user_id \<and> us_deleted_at u = None) (ac_users ac)
       then Inl (Not_found ''no such user'')
       else if list_ex (\<lambda>u. us_id u = user_id \<and> clashes ex (ac_users ac) (anonymize drawn now u)) (ac_users ac)
       then Inl (Conflict ''that already exists'')
       else Inr (ac\<lparr>
         ac_users := update_where (\<lambda>u. us_id u = user_id \<and> us_deleted_at u = None) (anonymize drawn now) (ac_users ac),
         ac_keys := filter (\<lambda>k. ky_user_id k \<noteq> user_id) (ac_keys ac),
         ac_confirmations := filter (\<lambda>c. cd_user_id c \<noteq> user_id) (ac_confirmations ac),
         ac_resets := filter (\<lambda>c. cd_user_id c \<noteq> user_id) (ac_resets ac),
         ac_audit := audit_log (lit ''user.deleted'') (Some (By_user (us_id admin))) (Some (lit ''user'', user_id)) None
           (log_detail (lit ''user.deleted.census'') (us_id admin) (lit ''user'') user_id None
             (user_census ac claims user_id) (ac_audit ac))\<rparr>))"

section \<open>Bans\<close>

definition MAX_BAN_REASON_CHARS :: nat where "MAX_BAN_REASON_CHARS = 1000"

record ban_body =
  bb_user_id :: "nat option"
  bb_anon_uuid :: "nat option"
  bb_reason :: "ustr option"

fun banned_target :: "ban_body \<Rightarrow> owner app_result" where
  "banned_target b = (case (bb_user_id b, bb_anon_uuid b) of
     (Some i, None) \<Rightarrow> Inr (By_user i)
   | (None, Some uuid) \<Rightarrow> Inr (By_anon uuid)
   | _ \<Rightarrow> Inl (Bad_request ''supply exactly one of user_id or anon_uuid''))"

definition worker_exists :: "accounts \<Rightarrow> owner \<Rightarrow> bool" where
  "worker_exists ac w = (case w of
     By_user i \<Rightarrow> list_ex (\<lambda>u. us_id u = i) (ac_users ac)
   | By_anon uuid \<Rightarrow> list_ex (\<lambda>k. wk_uuid k = uuid) (ac_workers ac))"

definition owner_number :: "owner \<Rightarrow> nat" where
  "owner_number w = (case w of By_user i \<Rightarrow> i | By_anon i \<Rightarrow> i)"

definition ban_reason_check :: "ustr option \<Rightarrow> check" where
  "ban_reason_check reason = (case reason of
     None \<Rightarrow> ok
   | Some t \<Rightarrow>
       if length t > MAX_BAN_REASON_CHARS then Inl (Invalid ''the reason is too long'' [(''reason'', ''at most 1000 characters'')])
       else if 0 \<in> set t then Inl (Invalid ''the reason holds a NUL character'' [(''reason'', ''no NUL characters'')])
       else ok)"

definition ban_worker :: "accounts \<Rightarrow> user_row \<Rightarrow> check \<Rightarrow> ban_body \<Rightarrow> nat \<Rightarrow> time \<Rightarrow> (accounts \<times> nat) app_result" where
  "ban_worker ac admin csrf b ban_id now =
     and_then csrf (\<lambda>_.
     and_then (banned_target b) (\<lambda>w.
     and_then (ban_reason_check (bb_reason b)) (\<lambda>_.
       if \<not> worker_exists ac w then Inl (Not_found ''no such worker'')
       else if list_ex (\<lambda>x. bn_worker x = w) (ac_bans ac) then Inl (Conflict ''that already exists'')
       else Inr (ac\<lparr>
         ac_bans := ac_bans ac @ [\<lparr>bn_id = ban_id, bn_worker = w, bn_reason = bb_reason b,
           bn_banned_by = Some (us_id admin), bn_created_at = now\<rparr>],
         ac_audit := log_ban (us_id admin) (owner_number w) (bb_reason b) (ac_audit ac)\<rparr>, ban_id))))"

definition unban_worker :: "accounts \<Rightarrow> user_row \<Rightarrow> check \<Rightarrow> nat \<Rightarrow> accounts app_result" where
  "unban_worker ac admin csrf ban_id =
     and_then csrf (\<lambda>_. (case row_with bn_id ban_id (ac_bans ac) of
        None \<Rightarrow> Inl (Not_found ''no such ban'')
      | Some x \<Rightarrow> Inr (ac\<lparr>ac_bans := filter (\<lambda>x. bn_id x \<noteq> ban_id) (ac_bans ac),
          ac_audit := audit_log (lit ''worker.unbanned'') (Some (By_user (us_id admin)))
            (Some (lit ''worker'', owner_number (bn_worker x))) None (ac_audit ac)\<rparr>)))"

definition list_bans :: "accounts \<Rightarrow> (ban_row \<times> ustr option) list" where
  "list_bans ac = map (\<lambda>x. (x, case bn_worker x of
       By_user i \<Rightarrow> map_option us_username (row_with us_id i (ac_users ac)) | By_anon _ \<Rightarrow> None))
     (sort_key (\<lambda>x. - bn_created_at x) (ac_bans ac))"

definition is_banned :: "accounts \<Rightarrow> owner \<Rightarrow> bool" where
  "is_banned ac w = list_ex (\<lambda>x. bn_worker x = w) (ac_bans ac)"

section \<open>Worker identities\<close>

definition TOUCH_AFTER :: time where "TOUCH_AFTER = 60000000"

text \<open>The scheme is case-insensitive; what follows the first space is the key.\<close>

definition bearer_key :: "ustr option \<Rightarrow> ustr option" where
  "bearer_key authorization = (case authorization of
     None \<Rightarrow> None
   | Some v \<Rightarrow> (case split_once 32 v of
       None \<Rightarrow> None
     | Some (scheme, key) \<Rightarrow>
         if map (\<lambda>c. if 65 \<le> c \<and> c \<le> 90 then c + 32 else c) scheme = lit ''bearer'' then Some (trim key) else None))"

text \<open>The key's row and its account's; its \<open>last_used_at\<close> is touched once a minute, unless its row is locked.\<close>

definition usable_key :: "accounts \<Rightarrow> ustr \<Rightarrow> key_row \<Rightarrow> bool" where
  "usable_key ac hash k \<longleftrightarrow> ky_hash k = hash \<and> ky_is_active k \<and>
     list_ex (\<lambda>u. us_id u = ky_user_id k \<and> us_deleted_at u = None) (ac_users ac)"

definition stale_use :: "time \<Rightarrow> key_row \<Rightarrow> bool" where
  "stale_use now k \<longleftrightarrow> (case ky_last_used_at k of None \<Rightarrow> True | Some t \<Rightarrow> t < now - TOUCH_AFTER)"

definition resolve_key :: "accounts \<Rightarrow> ustr \<Rightarrow> nat list \<Rightarrow> time \<Rightarrow> accounts \<times> worker_identity app_result" where
  "resolve_key ac hash locked now = (case find (usable_key ac hash) (ac_keys ac) of
     None \<Rightarrow> (ac, Inl (Unauthorized ''unknown or inactive API key''))
   | Some k \<Rightarrow>
       (ac\<lparr>ac_keys := update_where (\<lambda>x. ky_id x = ky_id k \<and> stale_use now x \<and> ky_id x \<notin> set locked)
          (\<lambda>x. x\<lparr>ky_last_used_at := Some now\<rparr>) (ac_keys ac)\<rparr>,
        if is_banned ac (By_user (ky_user_id k)) then Inl (Forbidden ''this worker identity is banned'')
        else Inr (User (ky_user_id k) (ky_id k))))"

definition resolve_uuid :: "accounts \<Rightarrow> nat \<Rightarrow> nat list \<Rightarrow> time \<Rightarrow> accounts \<times> worker_identity app_result" where
  "resolve_uuid ac uuid locked now = (case row_with wk_uuid uuid (ac_workers ac) of
     None \<Rightarrow> (ac, Inl (Unauthorized ''unrecognized worker UUID''))
   | Some w \<Rightarrow>
       (ac\<lparr>ac_workers := update_where (\<lambda>x. wk_uuid x = uuid \<and> wk_last_seen_at x < now - TOUCH_AFTER \<and> uuid \<notin> set locked)
          (\<lambda>x. x\<lparr>wk_last_seen_at := now\<rparr>) (ac_workers ac)\<rparr>,
        if is_banned ac (By_anon uuid) then Inl (Forbidden ''this worker identity is banned'')
        else Inr (Anonymous uuid)))"

text \<open>A credential admitted and looked up, and remembered once it resolved.\<close>

definition looked_up ::
  "'l limiter_ops \<Rightarrow> externals \<Rightarrow> 'l rate_limiters \<Rightarrow> accounts \<Rightarrow> ustr \<Rightarrow> worker_bucket \<Rightarrow> ustr \<Rightarrow> int \<Rightarrow>
    (accounts \<Rightarrow> accounts \<times> worker_identity app_result) \<Rightarrow> ('l rate_limiters \<times> accounts) \<times> worker_identity app_result" where
  "looked_up ops ex l ac presented bucket ip inst lookup =
     (case admit ops (ex_sha256 ex) (rl_gate l, rl_worker l) presented bucket ip inst of
        ((gate, worker), r) \<Rightarrow>
          let l1 = l\<lparr>rl_gate := gate, rl_worker := worker\<rparr> in
          (case r of
             Inl e \<Rightarrow> ((l1, ac), Inl e)
           | Inr _ \<Rightarrow> (case lookup ac of
               (ac1, Inl e) \<Rightarrow> ((l1, ac1), Inl e)
             | (ac1, Inr identity) \<Rightarrow> ((l1\<lparr>rl_gate := remember_credential gate presented inst\<rparr>, ac1), Inr identity))))"

definition resolve_identity ::
  "'l limiter_ops \<Rightarrow> externals \<Rightarrow> 'l rate_limiters \<Rightarrow> accounts \<Rightarrow> ustr option \<Rightarrow> ustr option \<Rightarrow> worker_bucket \<Rightarrow> ustr \<Rightarrow>
    nat \<Rightarrow> nat list \<Rightarrow> time \<Rightarrow> int \<Rightarrow> ('l rate_limiters \<times> accounts) \<times> worker_identity app_result" where
  "resolve_identity ops ex l ac authorization worker_uuid bucket ip drawn locked now inst =
     (case bearer_key authorization of
        Some raw_key \<Rightarrow>
          let hash = ex_sha256 ex raw_key
          in looked_up ops ex l ac (lit ''k:'' @ hash) bucket ip inst (\<lambda>ac. resolve_key ac hash locked now)
      | None \<Rightarrow> (case worker_uuid of
          None \<Rightarrow> ((l, ac), Inr (Unregistered drawn ip))
        | Some raw \<Rightarrow> (case ex_parse_uuid ex (trim raw) of
            None \<Rightarrow> ((l, ac), Inl (Bad_request ''X-Worker-UUID is not a valid UUID''))
          | Some uuid \<Rightarrow> looked_up ops ex l ac (lit ''a:'' @ show_nat uuid) bucket ip inst
              (\<lambda>ac. resolve_uuid ac uuid locked now))))"

definition check_rate_limit ::
  "'l limiter_ops \<Rightarrow> externals \<Rightarrow> 'l rate_limiters \<Rightarrow> worker_identity \<Rightarrow> int \<Rightarrow> 'l rate_limiters \<times> check" where
  "check_rate_limit ops ex l identity inst = (case identity of
     Unregistered _ _ \<Rightarrow> (case rate_check ops (ex_sha256 ex) (rl_unregistered_worker l) (rate_key identity) inst of
       (b, r) \<Rightarrow> (l\<lparr>rl_unregistered_worker := b\<rparr>, r))
   | _ \<Rightarrow> (l, ok))"

text \<open>\<open>RegisteredWorker\<close>: every worker route but the claim.\<close>

definition registered_worker ::
  "'l limiter_ops \<Rightarrow> externals \<Rightarrow> 'l rate_limiters \<Rightarrow> accounts \<Rightarrow> ustr option \<Rightarrow> ustr option \<Rightarrow> ustr \<Rightarrow> nat \<Rightarrow> nat list \<Rightarrow>
    time \<Rightarrow> int \<Rightarrow> ('l rate_limiters \<times> accounts) \<times> worker_identity app_result" where
  "registered_worker ops ex l ac authorization worker_uuid ip drawn locked now inst =
     (case resolve_identity ops ex l ac authorization worker_uuid WorkInHand ip drawn locked now inst of
        (st, Inl e) \<Rightarrow> (st, Inl e)
      | ((l1, ac1), Inr identity) \<Rightarrow> (case check_rate_limit ops ex l1 identity inst of
          (l2, r) \<Rightarrow> ((l2, ac1), and_then r (\<lambda>_. and_then (require_registered identity) (\<lambda>_. Inr identity)))))"

text \<open>The public name of an anonymous worker: the beginning of its UUID's hash.\<close>

definition public_anon_id :: "externals \<Rightarrow> nat \<Rightarrow> ustr" where
  "public_anon_id ex uuid = take 16 (ex_sha256 ex (show_nat uuid))"

end
