(* ===== verification/Accounts_Spec.thy ===== *)
theory Accounts_Spec
  imports Accounts
begin

text \<open>
  What accounts and credentials promise: the tables stay sound whatever happens to them, a session or a
  link that has been ended stays ended, what is answered does not tell whether an address has an account,
  and no credential is looked up unpaid.
\<close>

section \<open>The statements of the account routes\<close>

text \<open>
  The transactions of the account and admin routes, in any order.  Identifiers and codes are drawn at
  random: \<open>new_id\<close> and \<open>new_code\<close> say which an execution can still draw.
\<close>

inductive account_step :: "externals \<Rightarrow> (nat \<Rightarrow> bool) \<Rightarrow> (ustr \<Rightarrow> bool) \<Rightarrow> accounts \<Rightarrow> accounts \<Rightarrow> bool"
  for ex new_id new_code where
  released: "account_step ex new_id new_code ac (delete_users (releasable ex ac now username email) ac)"
| opened: "\<lbrakk>open_account ex ac drawn username email password_hash now = Inr ac'; new_id (na_user_id drawn);
    na_user_id drawn \<notin> us_id ` set (ac_users ac)\<rbrakk> \<Longrightarrow> account_step ex new_id new_code ac ac'"
| confirmed: "confirm_code ac code_hash now = Inr (ac', message) \<Longrightarrow> account_step ex new_id new_code ac ac'"
| signed_out: "sign_out_everywhere ac user csrf = Inr (ac', cookies) \<Longrightarrow> account_step ex new_id new_code ac ac'"
| reset_asked: "\<lbrakk>u \<in> set (ac_users ac); us_deleted_at u = None; new_code code_hash\<rbrakk> \<Longrightarrow>
    account_step ex new_id new_code ac (ac\<lparr>ac_resets := ac_resets ac @ [\<lparr>cd_user_id = us_id u, cd_hash = code_hash,
      cd_expires_at = now + RESET_TTL, cd_used_at = None\<rparr>]\<rparr>)"
| was_reset: "reset_transaction ac token_hash password_hash now = Inr ac' \<Longrightarrow> account_step ex new_id new_code ac ac'"
| key_made: "insert_key ex ac user_id label key_id raw now = Inr (ac', k) \<Longrightarrow> account_step ex new_id new_code ac ac'"
| key_set: "set_key_active_in ac user_id key_id is_active = Inr ac' \<Longrightarrow> account_step ex new_id new_code ac ac'"
| key_revoked: "revoke_key ac user csrf key_id = Inr ac' \<Longrightarrow> account_step ex new_id new_code ac ac'"
| account_deleted: "delete_user ex ac claims admin csrf user_id drawn now = Inr ac' \<Longrightarrow> account_step ex new_id new_code ac ac'"
| was_banned: "ban_worker ac admin csrf b ban_id now = Inr (ac', i) \<Longrightarrow> account_step ex new_id new_code ac ac'"
| unbanned: "unban_worker ac admin csrf ban_id = Inr ac' \<Longrightarrow> account_step ex new_id new_code ac ac'"
| key_used: "account_step ex new_id new_code ac (fst (resolve_key ac hash locked now))"
| uuid_used: "account_step ex new_id new_code ac (fst (resolve_uuid ac uuid locked now))"

lemma found: "find P xs = Some x \<Longrightarrow> x \<in> set xs \<and> P x"
  by (auto simp: find_Some_iff)

lemma ok_or_Inr: "ok_or v e = Inr x \<longleftrightarrow> v = Some x"
  by (auto simp: ok_or_def split: option.split)

text \<open>What each statement does to the accounts themselves.\<close>

definition kept_user :: "user_row \<Rightarrow> user_row \<Rightarrow> bool" where
  "kept_user u v \<longleftrightarrow> us_id v = us_id u \<and> us_session_generation u \<le> us_session_generation v"

lemma sign_out_Inr:
  assumes "sign_out_everywhere ac user csrf = Inr (ac', cookies)"
  shows "ac_users ac' = update_key us_id (us_id user) next_generation (ac_users ac)"
    "ac_resets ac' = ac_resets ac" "ac_keys ac' = ac_keys ac" "ac_confirmations ac' = ac_confirmations ac" "ac_bans ac' = ac_bans ac"
  using assms by (auto simp: sign_out_everywhere_def and_then_check_Inr)

lemma reset_Inr:
  assumes "reset_transaction ac token_hash password_hash now = Inr ac'"
  obtains c where "find (unspent token_hash now) (ac_resets ac) = Some c"
    "list_ex (\<lambda>c. cd_hash c = token_hash \<and> list_ex (\<lambda>u. us_id u = cd_user_id c \<and> us_deleted_at u = None) (ac_users ac)) (ac_resets ac)"
    "ac' = ac\<lparr>ac_users := update_where (\<lambda>u. us_id u = cd_user_id c \<and> us_deleted_at u = None)
        (\<lambda>u. next_generation (u\<lparr>us_password_hash := password_hash\<rparr>)) (ac_users ac),
       ac_resets := update_where (\<lambda>d. cd_user_id d = cd_user_id c \<and> cd_used_at d = None) (spend now)
         (update_where (unspent token_hash now) (spend now) (ac_resets ac)),
       ac_audit := log_account (lit ''user.password_reset'') (cd_user_id c) (lit ''user'') (cd_user_id c) (ac_audit ac)\<rparr>"
  using assms by (auto simp: reset_transaction_def Let_def split: if_splits option.splits)

lemma delete_user_Inr:
  assumes "delete_user ex ac claims admin csrf user_id drawn now = Inr ac'"
  shows "ac_users ac' = update_where (\<lambda>u. us_id u = user_id \<and> us_deleted_at u = None) (anonymize drawn now) (ac_users ac)"
    "ac_keys ac' = filter (\<lambda>k. ky_user_id k \<noteq> user_id) (ac_keys ac)"
    "ac_confirmations ac' = filter (\<lambda>c. cd_user_id c \<noteq> user_id) (ac_confirmations ac)"
    "ac_resets ac' = filter (\<lambda>c. cd_user_id c \<noteq> user_id) (ac_resets ac)" "ac_bans ac' = ac_bans ac"
    "\<exists>u\<in>set (ac_users ac). us_id u = user_id \<and> us_deleted_at u = None"
    "\<forall>u\<in>set (ac_users ac). us_id u = user_id \<longrightarrow> \<not> clashes ex (ac_users ac) (anonymize drawn now u)"
  using assms by (auto simp: delete_user_def and_then_check_Inr list_ex_iff split: if_splits)

lemma insert_user_Inr:
  assumes "insert_user ex ac u = Inr ac1"
  shows "ac1 = ac\<lparr>ac_users := ac_users ac @ [u]\<rparr>"
    "\<forall>v\<in>set (ac_users ac). ex_lower ex (us_username v) \<noteq> ex_lower ex (us_username u) \<and> us_email v \<noteq> us_email u"
  using assms by (auto simp: insert_user_def list_ex_iff split: if_splits)

lemma open_account_Inr:
  assumes "open_account ex ac drawn username email password_hash now = Inr ac'"
  obtains u where "us_id u = na_user_id drawn" "us_username u = username" "us_email u = email" "us_deleted_at u = None"
    "us_is_admin u = False" "us_email_confirmed_at u = None" "us_session_generation u = 0"
    "ac_users ac' = ac_users ac @ [u]"
    "\<forall>v\<in>set (ac_users ac). ex_lower ex (us_username v) \<noteq> ex_lower ex username \<and> us_email v \<noteq> email"
    "ac_resets ac' = ac_resets ac" "ac_keys ac' = ac_keys ac" "ac_bans ac' = ac_bans ac"
    "ac_confirmations ac' = ac_confirmations ac @ [\<lparr>cd_user_id = na_user_id drawn,
             cd_hash = ex_sha256 ex (na_code drawn), cd_expires_at = now + CONFIRMATION_TTL, cd_used_at = None\<rparr>]"
proof -
  define u where "u = \<lparr>us_id = na_user_id drawn, us_username = username, us_email = email,
       us_password_hash = password_hash, us_email_confirmed_at = None, us_is_admin = False,
       us_session_generation = 0, us_deleted_at = None, us_created_at = now\<rparr>"
  from assms obtain ac1 where i: "insert_user ex ac u = Inr ac1"
    and a: "ac' = ac1\<lparr>ac_confirmations := ac_confirmations ac1 @ [\<lparr>cd_user_id = na_user_id drawn,
             cd_hash = ex_sha256 ex (na_code drawn), cd_expires_at = now + CONFIRMATION_TTL, cd_used_at = None\<rparr>],
           ac_audit := audit_log (lit ''user.registered'') (Some (By_user (na_user_id drawn)))
             (Some (lit ''user'', na_user_id drawn)) None (ac_audit ac1)\<rparr>"
    by (auto simp: open_account_def u_def and_then_Inr)
  note ac1 = insert_user_Inr [OF i]
  show thesis
    by (rule that [of u]) (use ac1(2) in \<open>simp_all add: u_def a ac1(1)\<close>)
qed

lemma confirm_code_Inr:
  assumes "confirm_code ac code_hash now = Inr (ac', message)"
  obtains "ac' = ac"
  | c where "ac_users ac' = update_key us_id (cd_user_id c) (\<lambda>u. u\<lparr>us_email_confirmed_at := Some now\<rparr>) (ac_users ac)"
      "find (unspent code_hash now) (ac_confirmations ac) = Some c"
      "ac_resets ac' = ac_resets ac" "ac_keys ac' = ac_keys ac" "ac_bans ac' = ac_bans ac"
      "ac_confirmations ac' = update_where (unspent code_hash now) (spend now) (ac_confirmations ac)"
  using assms by (auto simp: confirm_code_def split: option.splits if_splits)

lemma insert_key_Inr:
  assumes "insert_key ex ac user_id label key_id raw now = Inr (ac', k)"
  shows "ac_keys ac' = ac_keys ac @ [k]" "ky_user_id k = user_id" "ky_hash k = ex_sha256 ex raw"
    "count_where (\<lambda>k. ky_user_id k = user_id) (ac_keys ac) < 100"
    "\<exists>u\<in>set (ac_users ac). us_id u = user_id \<and> us_deleted_at u = None" "\<forall>x\<in>set (ac_keys ac). ky_hash x \<noteq> ex_sha256 ex raw"
    "ac_users ac' = ac_users ac" "ac_resets ac' = ac_resets ac" "ac_confirmations ac' = ac_confirmations ac" "ac_bans ac' = ac_bans ac"
  using assms by (auto simp: insert_key_def Let_def list_ex_iff MAX_API_KEYS_def split: if_splits)

lemma set_key_Inr:
  assumes "set_key_active_in ac user_id key_id is_active = Inr ac'"
  shows "map (\<lambda>k. (ky_id k, ky_user_id k, ky_hash k)) (ac_keys ac') = map (\<lambda>k. (ky_id k, ky_user_id k, ky_hash k)) (ac_keys ac)"
    "ac_users ac' = ac_users ac" "ac_resets ac' = ac_resets ac" "ac_confirmations ac' = ac_confirmations ac" "ac_bans ac' = ac_bans ac"
  using assms by (auto simp: set_key_active_in_def Let_def map_update_where split: if_splits)

lemma revoke_key_Inr:
  assumes "revoke_key ac user csrf key_id = Inr ac'"
  shows "ac_keys ac' = filter (\<lambda>k. \<not> own_key key_id (us_id user) k) (ac_keys ac)"
    "ac_users ac' = ac_users ac" "ac_resets ac' = ac_resets ac" "ac_confirmations ac' = ac_confirmations ac" "ac_bans ac' = ac_bans ac"
  using assms by (auto simp: revoke_key_def and_then_check_Inr split: if_splits)

lemma ban_Inr:
  assumes "ban_worker ac admin csrf b ban_id now = Inr (ac', i)"
  shows "ac_users ac' = ac_users ac" "ac_keys ac' = ac_keys ac" "ac_resets ac' = ac_resets ac" "ac_confirmations ac' = ac_confirmations ac"
    "\<exists>x. ac_bans ac' = ac_bans ac @ [x] \<and> bn_worker x \<notin> bn_worker ` set (ac_bans ac)"
  using assms by (auto simp: ban_worker_def and_then_Inr and_then_check_Inr list_ex_iff split: if_splits)

lemma unban_Inr:
  assumes "unban_worker ac admin csrf ban_id = Inr ac'"
  shows "ac_users ac' = ac_users ac" "ac_keys ac' = ac_keys ac" "ac_resets ac' = ac_resets ac" "ac_confirmations ac' = ac_confirmations ac"
    "ac_bans ac' = filter (\<lambda>x. bn_id x \<noteq> ban_id) (ac_bans ac)"
  using assms by (auto simp: unban_worker_def and_then_check_Inr split: option.splits)

lemma resolve_key_tables:
  "ac_users (fst (resolve_key ac hash locked now)) = ac_users ac" "ac_resets (fst (resolve_key ac hash locked now)) = ac_resets ac"
  "ac_confirmations (fst (resolve_key ac hash locked now)) = ac_confirmations ac" "ac_bans (fst (resolve_key ac hash locked now)) = ac_bans ac"
  "map (\<lambda>k. (ky_id k, ky_user_id k, ky_hash k)) (ac_keys (fst (resolve_key ac hash locked now))) =
     map (\<lambda>k. (ky_id k, ky_user_id k, ky_hash k)) (ac_keys ac)"
  by (auto simp: resolve_key_def map_update_where split: option.split)

lemma resolve_uuid_tables:
  "ac_users (fst (resolve_uuid ac uuid locked now)) = ac_users ac" "ac_resets (fst (resolve_uuid ac uuid locked now)) = ac_resets ac"
  "ac_confirmations (fst (resolve_uuid ac uuid locked now)) = ac_confirmations ac" "ac_bans (fst (resolve_uuid ac uuid locked now)) = ac_bans ac"
  "ac_keys (fst (resolve_uuid ac uuid locked now)) = ac_keys ac"
  by (auto simp: resolve_uuid_def split: option.split)

lemma delete_users_tables:
  "ac_users (delete_users P ac) = filter (\<lambda>u. us_id u \<notin> set (map us_id (filter P (ac_users ac)))) (ac_users ac)"
  "ac_keys (delete_users P ac) = filter (\<lambda>k. ky_user_id k \<notin> set (map us_id (filter P (ac_users ac)))) (ac_keys ac)"
  "ac_resets (delete_users P ac) = filter (\<lambda>c. cd_user_id c \<notin> set (map us_id (filter P (ac_users ac)))) (ac_resets ac)"
  "ac_confirmations (delete_users P ac) = filter (\<lambda>c. cd_user_id c \<notin> set (map us_id (filter P (ac_users ac)))) (ac_confirmations ac)"
  by (simp_all add: delete_users_def Let_def)

section \<open>Sessions\<close>

lemma kept_user_refl [simp]: "kept_user u u"
  by (simp add: kept_user_def)

lemma kept_update_where: "v \<in> set (update_where P f us) \<Longrightarrow> (\<And>u. kept_user u (f u)) \<Longrightarrow> \<exists>u\<in>set us. kept_user u v"
  by (induction us) (auto split: if_splits)

lemma next_generation_simps [simp]:
  "us_id (next_generation u) = us_id u" "us_session_generation (next_generation u) = us_session_generation u + 1"
  "us_username (next_generation u) = us_username u" "us_email (next_generation u) = us_email u"
  "us_deleted_at (next_generation u) = us_deleted_at u" "us_is_admin (next_generation u) = us_is_admin u"
  "us_email_confirmed_at (next_generation u) = us_email_confirmed_at u"
  by (simp_all add: next_generation_def)

lemma anonymize_simps [simp]:
  "us_id (anonymize drawn now u) = us_id u" "us_session_generation (anonymize drawn now u) = us_session_generation u + 1"
  "us_deleted_at (anonymize drawn now u) = Some now" "us_is_admin (anonymize drawn now u) = False"
  "us_email_confirmed_at (anonymize drawn now u) = None"
  by (simp_all add: anonymize_def)

lemma account_step_users:
  assumes "account_step ex new_id new_code ac ac'" "v \<in> set (ac_users ac')"
  shows "new_id (us_id v) \<or> (\<exists>u\<in>set (ac_users ac). kept_user u v)"
  using assms
proof cases
  case (released now username email)
  then show ?thesis using assms(2) by (auto simp: delete_users_tables kept_user_def)
next
  case (opened drawn username email password_hash now)
  from opened(1) obtain u where "us_id u = na_user_id drawn" "ac_users ac' = ac_users ac @ [u]"
    by (rule open_account_Inr)
  then show ?thesis using assms(2) opened(2) by (auto simp: kept_user_def)
next
  case (confirmed code_hash now message)
  from confirmed show ?thesis
  proof (rule confirm_code_Inr)
    assume "ac' = ac"
    then show ?thesis using assms(2) by (auto intro: bexI [of _ v])
  next
    fix c
    assume "ac_users ac' = update_key us_id (cd_user_id c) (\<lambda>u. u\<lparr>us_email_confirmed_at := Some now\<rparr>) (ac_users ac)"
    then have "v \<in> set (update_where (\<lambda>u. us_id u = cd_user_id c) (\<lambda>u. u\<lparr>us_email_confirmed_at := Some now\<rparr>) (ac_users ac))"
      using assms(2) by (simp add: update_key_def)
    then show ?thesis by (intro disjI2, rule kept_update_where) (simp add: kept_user_def)
  qed
next
  case (signed_out user csrf cookies)
  from sign_out_Inr(1) [OF signed_out] assms(2)
  have "v \<in> set (update_where (\<lambda>u. us_id u = us_id user) next_generation (ac_users ac))"
    by (simp add: update_key_def)
  then show ?thesis by (intro disjI2, rule kept_update_where) (simp add: kept_user_def)
next
  case (was_reset token_hash password_hash now)
  then obtain P where "v \<in> set (update_where P (\<lambda>u. next_generation (u\<lparr>us_password_hash := password_hash\<rparr>)) (ac_users ac))"
    using assms(2) by (auto elim: reset_Inr)
  then show ?thesis by (intro disjI2, rule kept_update_where) (simp add: kept_user_def)
next
  case (key_made user_id label key_id raw now k)
  then show ?thesis using assms(2) insert_key_Inr(7) [OF key_made] by (auto simp: kept_user_def)
next
  case (key_set user_id key_id is_active)
  then show ?thesis using assms(2) set_key_Inr(2) [OF key_set] by (auto simp: kept_user_def)
next
  case (key_revoked user csrf key_id)
  then show ?thesis using assms(2) revoke_key_Inr(2) [OF key_revoked] by (auto simp: kept_user_def)
next
  case (account_deleted claims admin csrf user_id drawn now)
  from delete_user_Inr(1) [OF account_deleted] assms(2)
  have "v \<in> set (update_where (\<lambda>u. us_id u = user_id \<and> us_deleted_at u = None) (anonymize drawn now) (ac_users ac))"
    by simp
  then show ?thesis by (intro disjI2, rule kept_update_where) (simp add: kept_user_def)
next
  case (was_banned admin csrf b ban_id now i)
  then show ?thesis using assms(2) ban_Inr(1) [OF was_banned] by (auto simp: kept_user_def)
next
  case (unbanned admin csrf ban_id)
  then show ?thesis using assms(2) unban_Inr(1) [OF unbanned] by (auto simp: kept_user_def)
next
  case (key_used hash locked now)
  then show ?thesis using assms(2) resolve_key_tables(1) [of ac hash locked now] by (auto simp: kept_user_def)
next
  case (uuid_used uuid locked now)
  then show ?thesis using assms(2) resolve_uuid_tables(1) [of ac uuid locked now] by (auto simp: kept_user_def)
qed (use assms(2) in \<open>auto simp: kept_user_def\<close>)

text \<open>A generation of an account that no row of it carries any more.\<close>

definition past_generation :: "accounts \<Rightarrow> nat \<Rightarrow> int \<Rightarrow> bool" where
  "past_generation ac i g \<longleftrightarrow> (\<forall>v\<in>set (ac_users ac). us_id v = i \<longrightarrow> g < us_session_generation v)"

lemma past_generation_step:
  assumes "account_step ex new_id new_code ac ac'" "past_generation ac i g" "\<not> new_id i"
  shows "past_generation ac' i g"
  using account_step_users [OF assms(1)] assms(2,3) by (fastforce simp: past_generation_def kept_user_def)

lemma past_generation_steps:
  assumes "(account_step ex new_id new_code)\<^sup>*\<^sup>* ac ac'" "past_generation ac i g" "\<not> new_id i"
  shows "past_generation ac' i g"
  using assms by (induction rule: rtranclp_induct) (auto intro: past_generation_step)

text \<open>A token opens to one set of claims, whenever it is opened.\<close>

definition one_opening :: "externals \<Rightarrow> bool" where
  "one_opening ex \<longleftrightarrow> (\<forall>token s t c d. ex_open ex token s = Some c \<and> ex_open ex token t = Some d \<longrightarrow> c = d)"

lemma session_verify_once:
  assumes "one_opening ex" "session_verify ex token s = Inr c" "session_verify ex token t = Inr d"
  shows "d = c"
proof -
  from assms(2) obtain x where x: "ex_open ex token s = Some x"
    by (auto simp: session_verify_def and_then_Inr ok_or_def split: option.splits)
  from assms(3) obtain y where y: "ex_open ex token t = Some y"
    by (auto simp: session_verify_def and_then_Inr ok_or_def split: option.splits)
  from assms(1) x y have "x = y" by (auto simp: one_opening_def)
  with assms(2,3) x y show ?thesis by (simp add: session_verify_def ok_or_def)
qed

lemma current_user_Inr:
  assumes "current_user ex ac (Some token) now = Inr u"
  shows "session_verify ex token now = Inr \<lparr>sc_user_id = us_id u, sc_generation = us_session_generation u\<rparr>"
    "u \<in> set (ac_users ac)" "us_deleted_at u = None"
proof -
  from assms obtain c where c: "session_verify ex token now = Inr c"
    and f: "find (\<lambda>u. us_id u = sc_user_id c \<and> us_deleted_at u = None \<and> us_session_generation u = sc_generation c)
      (ac_users ac) = Some u"
    by (auto simp: current_user_def and_then_Inr ok_or_Inr)
  from found [OF f] have u: "u \<in> set (ac_users ac)" "us_id u = sc_user_id c" "us_deleted_at u = None"
    "us_session_generation u = sc_generation c" by simp_all
  then show "session_verify ex token now = Inr \<lparr>sc_user_id = us_id u, sc_generation = us_session_generation u\<rparr>"
    using c by simp
  show "u \<in> set (ac_users ac)" "us_deleted_at u = None" by (fact u)+
qed

text \<open>Whatever refuses a token, an account's past generation does.\<close>

lemma past_session_refused:
  assumes "one_opening ex" "current_user ex ac (Some token) now = Inr u"
    "past_generation ac' (us_id u) (us_session_generation u)"
  shows "\<exists>why. current_user ex ac' (Some token) t = Inl (Unauthorized why)"
proof (cases "current_user ex ac' (Some token) t")
  case (Inr v)
  from session_verify_once [OF assms(1) current_user_Inr(1) [OF assms(2)] current_user_Inr(1) [OF Inr]]
  have "us_id v = us_id u" "us_session_generation v = us_session_generation u" by simp_all
  moreover from current_user_Inr(2) [OF Inr] have "v \<in> set (ac_users ac')" .
  ultimately have False using assms(3) by (auto simp: past_generation_def)
  then show ?thesis ..
next
  case (Inl e)
  then show ?thesis
    by (auto simp: current_user_def session_verify_def and_then_def ok_or_def split: sum.splits option.splits if_splits)
qed

section \<open>The tables stay sound\<close>

definition live_account :: "accounts \<Rightarrow> nat \<Rightarrow> bool" where
  "live_account ac i \<longleftrightarrow> (\<exists>u\<in>set (ac_users ac). us_id u = i \<and> us_deleted_at u = None)"

definition users_ok :: "externals \<Rightarrow> user_row list \<Rightarrow> bool" where
  "users_ok ex us \<longleftrightarrow> distinct (map us_id us) \<and> distinct (map (\<lambda>u. ex_lower ex (us_username u)) us) \<and>
     distinct (map us_email us) \<and>
     (\<forall>u\<in>set us. us_deleted_at u \<noteq> None \<longrightarrow> \<not> us_is_admin u \<and> us_email_confirmed_at u = None)"

definition api_keys_ok :: "key_row list \<Rightarrow> bool" where
  "api_keys_ok ks \<longleftrightarrow> distinct (map ky_hash ks) \<and> (\<forall>i. count_where (\<lambda>k. ky_user_id k = i) ks \<le> MAX_API_KEYS)"

definition accounts_ok :: "externals \<Rightarrow> accounts \<Rightarrow> bool" where
  "accounts_ok ex ac \<longleftrightarrow> users_ok ex (ac_users ac) \<and> api_keys_ok (ac_keys ac) \<and> distinct (map bn_worker (ac_bans ac)) \<and>
     (\<forall>k\<in>set (ac_keys ac). live_account ac (ky_user_id k)) \<and>
     (\<forall>c\<in>set (ac_confirmations ac). live_account ac (cd_user_id c)) \<and>
     (\<forall>c\<in>set (ac_resets ac). live_account ac (cd_user_id c))"

lemma users_ok_filter: "users_ok ex us \<Longrightarrow> users_ok ex (filter P us)"
  by (simp add: users_ok_def distinct_map_filter)

lemma users_ok_update:
  assumes "users_ok ex us"
    and "\<And>u. us_id (f u) = us_id u" "\<And>u. us_username (f u) = us_username u" "\<And>u. us_email (f u) = us_email u"
    and "\<And>u. us_is_admin (f u) = us_is_admin u" "\<And>u. us_deleted_at (f u) = us_deleted_at u"
    and "\<And>u. u \<in> set us \<Longrightarrow> P u \<Longrightarrow> us_deleted_at u \<noteq> None \<Longrightarrow> us_email_confirmed_at (f u) = None"
  shows "users_ok ex (update_where P f us)"
proof -
  have m: "map us_id (update_where P f us) = map us_id us" "map us_email (update_where P f us) = map us_email us"
    "map (\<lambda>u. ex_lower ex (us_username u)) (update_where P f us) = map (\<lambda>u. ex_lower ex (us_username u)) us"
    using assms(2-4) by (simp_all add: map_update_where)
  have d: "\<not> us_is_admin v \<and> us_email_confirmed_at v = None" if v: "v \<in> set (update_where P f us)" "us_deleted_at v \<noteq> None" for v
  proof -
    from v(1) obtain u where u: "u \<in> set us" "v = (if P u then f u else u)" by (auto simp: set_update_where)
    with v(2) assms(6) have "us_deleted_at u \<noteq> None" by (auto split: if_splits)
    with u assms(1,5,7) show ?thesis by (auto simp: users_ok_def)
  qed
  show ?thesis using assms(1) d unfolding users_ok_def m by simp
qed

lemma live_account_update:
  assumes "ac_users ac' = update_where P f (ac_users ac)" "\<And>u. us_id (f u) = us_id u" "\<And>u. us_deleted_at (f u) = us_deleted_at u"
  shows "live_account ac' = live_account ac"
proof -
  have e: "live_account ac i \<longleftrightarrow> (i, None) \<in> set (map (\<lambda>u. (us_id u, us_deleted_at u)) (ac_users ac))" for ac i
    by (auto simp: live_account_def)
  have "map (\<lambda>u. (us_id u, us_deleted_at u)) (ac_users ac') = map (\<lambda>u. (us_id u, us_deleted_at u)) (ac_users ac)"
    using assms by (simp add: map_update_where)
  then show ?thesis by (simp add: fun_eq_iff e del: set_map)
qed

lemma api_keys_ok_filter: "api_keys_ok ks \<Longrightarrow> api_keys_ok (filter P ks)"
proof -
  have "count_where Q (filter P ks) \<le> count_where Q ks" for Q
    by (induction ks) auto
  then show "api_keys_ok ks \<Longrightarrow> api_keys_ok (filter P ks)"
    unfolding api_keys_ok_def by (meson distinct_map_filter order_trans)
qed

lemma api_keys_ok_same:
  assumes "api_keys_ok ks" "map (\<lambda>k. (ky_id k, ky_user_id k, ky_hash k)) ks' = map (\<lambda>k. (ky_id k, ky_user_id k, ky_hash k)) ks"
  shows "api_keys_ok ks'" "ky_user_id ` set ks' = ky_user_id ` set ks"
proof -
  have h: "map ky_hash ks' = map ky_hash ks" and u: "map ky_user_id ks' = map ky_user_id ks"
    using arg_cong [OF assms(2), of "map (\<lambda>(_, _, h). h)"] arg_cong [OF assms(2), of "map (\<lambda>(_, u, _). u)"]
    by (simp_all add: comp_def)
  have c: "count_where (\<lambda>k. ky_user_id k = i) ks = count_list (map ky_user_id ks) i" for i and ks :: "key_row list"
    by (induction ks) auto
  show "api_keys_ok ks'" using assms(1) h u by (simp add: api_keys_ok_def c)
  show "ky_user_id ` set ks' = ky_user_id ` set ks" using arg_cong [OF u, of set] by simp
qed

lemma live_account_same: "ac_users ac' = ac_users ac \<Longrightarrow> live_account ac' = live_account ac"
  by (simp add: live_account_def fun_eq_iff)

text \<open>An operation that keeps the accounts keeps the tables sound when it keeps the rest of them so.\<close>

lemma accounts_ok_same_users:
  assumes "accounts_ok ex ac" "ac_users ac' = ac_users ac" "api_keys_ok (ac_keys ac')" "distinct (map bn_worker (ac_bans ac'))"
    "ky_user_id ` set (ac_keys ac') \<subseteq> Collect (live_account ac)"
    "cd_user_id ` set (ac_confirmations ac') \<subseteq> Collect (live_account ac)"
    "cd_user_id ` set (ac_resets ac') \<subseteq> Collect (live_account ac)"
  shows "accounts_ok ex ac'"
  using assms by (auto simp: accounts_ok_def live_account_same [OF assms(2)])

lemma accounts_ok_references:
  assumes "accounts_ok ex ac"
  shows "ky_user_id ` set (ac_keys ac) \<subseteq> Collect (live_account ac)"
    "cd_user_id ` set (ac_confirmations ac) \<subseteq> Collect (live_account ac)"
    "cd_user_id ` set (ac_resets ac) \<subseteq> Collect (live_account ac)"
    "users_ok ex (ac_users ac)" "api_keys_ok (ac_keys ac)" "distinct (map bn_worker (ac_bans ac))"
  using assms by (auto simp: accounts_ok_def)

lemma update_where_image: "(\<And>r. h (f r) = h r) \<Longrightarrow> h ` set (update_where P f rs) = h ` set rs"
  by (metis map_update_where set_map)

lemma accounts_ok_opened:
  assumes "accounts_ok ex ac" "open_account ex ac drawn username email password_hash now = Inr ac'"
    "na_user_id drawn \<notin> us_id ` set (ac_users ac)"
  shows "accounts_ok ex ac'"
proof -
  from assms(2) obtain u where u: "us_id u = na_user_id drawn" "us_username u = username" "us_email u = email"
    "us_deleted_at u = None" "us_is_admin u = False" "us_email_confirmed_at u = None" "us_session_generation u = 0"
    "ac_users ac' = ac_users ac @ [u]"
    "\<forall>v\<in>set (ac_users ac). ex_lower ex (us_username v) \<noteq> ex_lower ex username \<and> us_email v \<noteq> email"
    "ac_resets ac' = ac_resets ac" "ac_keys ac' = ac_keys ac" "ac_bans ac' = ac_bans ac"
    "ac_confirmations ac' = ac_confirmations ac @ [\<lparr>cd_user_id = na_user_id drawn,
             cd_hash = ex_sha256 ex (na_code drawn), cd_expires_at = now + CONFIRMATION_TTL, cd_used_at = None\<rparr>]"
    by (rule open_account_Inr)
  have ids: "us_id u \<notin> us_id ` set (ac_users ac)" and names: "ex_lower ex (us_username u) \<notin> (\<lambda>u. ex_lower ex (us_username u)) ` set (ac_users ac)"
    and emails: "us_email u \<notin> us_email ` set (ac_users ac)"
    using assms(3) u(1,2,3,9) by (force simp: image_iff)+
  have users: "users_ok ex (ac_users ac')"
    using accounts_ok_references(4) [OF assms(1)] ids names emails u(4) unfolding users_ok_def u(8) by simp
  have live: "live_account ac' i \<longleftrightarrow> live_account ac i \<or> i = us_id u" for i
    using u(4,8) by (auto simp: live_account_def)
  have codes: "\<forall>c\<in>set (ac_confirmations ac'). live_account ac' (cd_user_id c)"
    using accounts_ok_references(2) [OF assms(1)] u(1,13) live by auto
  show ?thesis using assms(1) users codes unfolding accounts_ok_def u(10-12) live by blast
qed

lemma users_ok_anonymized:
  assumes "users_ok ex us" "\<forall>u\<in>set us. us_id u = user_id \<longrightarrow> \<not> clashes ex us (anonymize drawn now u)"
  shows "users_ok ex (update_where (\<lambda>u. us_id u = user_id \<and> us_deleted_at u = None) (anonymize drawn now) us)"
    (is "users_ok ex (update_where ?P ?f us)")
proof -
  have ids: "distinct (map us_id us)" using assms(1) by (simp add: users_ok_def)
  have one: "u = v" if "u \<in> set us" "v \<in> set us" "us_id u = us_id v" for u v
    using ids that by (auto simp: distinct_map dest: inj_onD)
  have apart: "us_email (?f u) \<noteq> us_email v" "ex_lower ex (us_username (?f u)) \<noteq> ex_lower ex (us_username v)"
    if "u \<in> set us" "v \<in> set us" "us_id u = user_id" "us_id v \<noteq> user_id" for u v
  proof -
    have "\<forall>v\<in>set us. us_id v \<noteq> user_id \<longrightarrow>
        ex_lower ex (us_username v) \<noteq> ex_lower ex (us_username (?f u)) \<and> us_email v \<noteq> us_email (?f u)"
      using assms(2) that(1,3) by (simp add: clashes_def list_ex_iff) blast
    then have "ex_lower ex (us_username v) \<noteq> ex_lower ex (us_username (?f u)) \<and> us_email v \<noteq> us_email (?f u)"
      using that(2,4) by blast
    then show "us_email (?f u) \<noteq> us_email v" "ex_lower ex (us_username (?f u)) \<noteq> ex_lower ex (us_username v)" by metis+
  qed
  have map_distinct: "distinct (map h (update_where ?P ?f us))"
    if "distinct (map h us)" "\<And>u v. u \<in> set us \<Longrightarrow> v \<in> set us \<Longrightarrow> us_id u = user_id \<Longrightarrow> us_id v \<noteq> user_id \<Longrightarrow> h (?f u) \<noteq> h v"
    for h :: "user_row \<Rightarrow> 'k"
  proof -
    have e: "map h (update_where ?P ?f us) = map (\<lambda>u. if ?P u then h (?f u) else h u) us"
      by (simp add: update_where_def comp_def if_distrib cong: if_cong)
    have "inj_on (\<lambda>u. if ?P u then h (?f u) else h u) (set us)"
    proof (rule inj_onI)
      fix u v assume uv: "u \<in> set us" "v \<in> set us" and eq: "(if ?P u then h (?f u) else h u) = (if ?P v then h (?f v) else h v)"
      consider "us_id u = us_id v" | "us_id u \<noteq> us_id v" "?P u" | "us_id u \<noteq> us_id v" "?P v" | "\<not> ?P u" "\<not> ?P v" by blast
      then show "u = v"
      proof cases
        case 1 then show ?thesis using one uv by blast
      next
        case 2
        then have "\<not> ?P v" "us_id v \<noteq> user_id" by auto
        with that(2) [OF uv] 2 eq show ?thesis by simp
      next
        case 3
        then have "\<not> ?P u" "us_id u \<noteq> user_id" by auto
        with that(2) [OF uv(2,1)] 3 eq show ?thesis by simp
      next
        case 4
        with eq have "h u = h v" by simp
        with that(1) uv show ?thesis by (auto simp: distinct_map dest: inj_onD)
      qed
    qed
    with ids show ?thesis unfolding e by (simp add: distinct_map)
  qed
  have m: "map us_id (update_where ?P ?f us) = map us_id us" by (simp add: map_update_where)
  have gone: "\<forall>u\<in>set (update_where ?P ?f us). us_deleted_at u \<noteq> None \<longrightarrow> \<not> us_is_admin u \<and> us_email_confirmed_at u = None"
    using assms(1) by (auto simp: set_update_where users_ok_def)
  have "distinct (map us_email (update_where ?P ?f us))"
    by (rule map_distinct) (use assms(1) in \<open>simp add: users_ok_def\<close>, rule apart(1))
  moreover have "distinct (map (\<lambda>u. ex_lower ex (us_username u)) (update_where ?P ?f us))"
    by (rule map_distinct) (use assms(1) in \<open>simp add: users_ok_def\<close>, rule apart(2))
  ultimately show ?thesis using gone ids unfolding users_ok_def m by simp
qed

lemma accounts_ok_deleted:
  assumes "accounts_ok ex ac" "delete_user ex ac claims admin csrf user_id drawn now = Inr ac'"
  shows "accounts_ok ex ac'"
proof -
  note d = delete_user_Inr [OF assms(2)]
  have live: "live_account ac' i" if "live_account ac i" "i \<noteq> user_id" for i
    using that unfolding live_account_def d(1) set_update_where by force
  note r = accounts_ok_references [OF assms(1)]
  have users: "users_ok ex (ac_users ac')" unfolding d(1) by (rule users_ok_anonymized [OF r(4) d(7)])
  have keys: "api_keys_ok (ac_keys ac')" unfolding d(2) by (rule api_keys_ok_filter [OF r(5)])
  have "\<forall>k\<in>set (ac_keys ac'). live_account ac' (ky_user_id k)" using r(1) live unfolding d(2) by auto
  moreover have "\<forall>c\<in>set (ac_confirmations ac'). live_account ac' (cd_user_id c)" using r(2) live unfolding d(3) by auto
  moreover have "\<forall>c\<in>set (ac_resets ac'). live_account ac' (cd_user_id c)" using r(3) live unfolding d(4) by auto
  ultimately show ?thesis using users keys r(6) unfolding accounts_ok_def d(5) by blast
qed

lemma accounts_ok_released:
  assumes "accounts_ok ex ac"
  shows "accounts_ok ex (delete_users P ac)"
proof -
  note r = accounts_ok_references [OF assms] and t = delete_users_tables [of P ac]
  let ?gone = "set (map us_id (filter P (ac_users ac)))"
  have live: "live_account (delete_users P ac) i" if "live_account ac i" "i \<notin> ?gone" for i
    using that unfolding live_account_def t by auto
  have bans: "distinct (map bn_worker (ac_bans (delete_users P ac)))"
    using r(6) by (simp add: delete_users_def Let_def comp_def distinct_map_filter)
  have users: "users_ok ex (ac_users (delete_users P ac))" unfolding t by (rule users_ok_filter [OF r(4)])
  have keys: "api_keys_ok (ac_keys (delete_users P ac))" unfolding t by (rule api_keys_ok_filter [OF r(5)])
  have "\<forall>k\<in>set (ac_keys (delete_users P ac)). live_account (delete_users P ac) (ky_user_id k)"
    using r(1) live unfolding t by auto
  moreover have "\<forall>c\<in>set (ac_confirmations (delete_users P ac)). live_account (delete_users P ac) (cd_user_id c)"
    using r(2) live unfolding t by auto
  moreover have "\<forall>c\<in>set (ac_resets (delete_users P ac)). live_account (delete_users P ac) (cd_user_id c)"
    using r(3) live unfolding t by auto
  ultimately show ?thesis using users keys bans unfolding accounts_ok_def by blast
qed

text \<open>Confirming an address, ending sessions and resetting a password change columns of a live account only.\<close>

lemma accounts_ok_updated:
  assumes "accounts_ok ex ac" "ac_users ac' = update_where P f (ac_users ac)"
    and "\<And>u. us_id (f u) = us_id u" "\<And>u. us_username (f u) = us_username u" "\<And>u. us_email (f u) = us_email u"
    and "\<And>u. us_is_admin (f u) = us_is_admin u" "\<And>u. us_deleted_at (f u) = us_deleted_at u"
    and "\<And>u. u \<in> set (ac_users ac) \<Longrightarrow> P u \<Longrightarrow> us_deleted_at u \<noteq> None \<Longrightarrow> us_email_confirmed_at (f u) = None"
    and "ac_keys ac' = ac_keys ac" "ac_bans ac' = ac_bans ac"
    and "cd_user_id ` set (ac_confirmations ac') = cd_user_id ` set (ac_confirmations ac)"
    and "cd_user_id ` set (ac_resets ac') = cd_user_id ` set (ac_resets ac)"
  shows "accounts_ok ex ac'"
proof -
  note r = accounts_ok_references [OF assms(1)]
  have live: "live_account ac' = live_account ac" by (rule live_account_update [OF assms(2,3,7)])
  have users: "users_ok ex (ac_users ac')" unfolding assms(2) by (rule users_ok_update [OF r(4) assms(3-8)])
  have "\<forall>c\<in>set (ac_confirmations ac'). live_account ac (cd_user_id c)" using r(2) assms(11) by blast
  moreover have "\<forall>c\<in>set (ac_resets ac'). live_account ac (cd_user_id c)" using r(3) assms(12) by blast
  ultimately show ?thesis using users r(1,5,6) unfolding accounts_ok_def live assms(9,10) by blast
qed

text \<open>With distinct identifiers, a live account has no other row.\<close>

lemma live_rows:
  assumes "accounts_ok ex ac" "live_account ac i" "u \<in> set (ac_users ac)" "us_id u = i"
  shows "us_deleted_at u = None"
proof -
  from assms(2) obtain v where v: "v \<in> set (ac_users ac)" "us_id v = i" "us_deleted_at v = None"
    by (auto simp: live_account_def)
  have "distinct (map us_id (ac_users ac))" using assms(1) by (simp add: accounts_ok_def users_ok_def)
  then have "u = v" using assms(3,4) v(1,2) by (auto simp: distinct_map dest: inj_onD)
  with v(3) show ?thesis by simp
qed

lemma spend_simps [simp]: "cd_user_id (spend now c) = cd_user_id c" "cd_hash (spend now c) = cd_hash c"
  "cd_used_at (spend now c) = Some now"
  by (simp_all add: spend_def)

lemma api_keys_ok_insert:
  assumes "api_keys_ok ks" "\<forall>x\<in>set ks. ky_hash x \<noteq> ky_hash k" "count_where (\<lambda>x. ky_user_id x = ky_user_id k) ks < 100"
  shows "api_keys_ok (ks @ [k])"
proof -
  have "count_where (\<lambda>x. ky_user_id x = i) (ks @ [k]) \<le> MAX_API_KEYS" for i
    using assms(1,3) by (cases "ky_user_id k = i") (auto simp: api_keys_ok_def MAX_API_KEYS_def)
  moreover have "distinct (map ky_hash (ks @ [k]))" using assms(1,2) by (auto simp: api_keys_ok_def)
  ultimately show ?thesis unfolding api_keys_ok_def by blast
qed

lemma accounts_ok_step:
  assumes "account_step ex new_id new_code ac ac'" "accounts_ok ex ac"
  shows "accounts_ok ex ac'"
proof -
  note r = accounts_ok_references [OF assms(2)]
  show ?thesis using assms(1)
  proof cases
    case (released now username email)
    then show ?thesis using accounts_ok_released [OF assms(2)] by simp
  next
    case (opened drawn username email password_hash now)
    then show ?thesis using accounts_ok_opened [OF assms(2)] by blast
  next
    case (confirmed code_hash now message)
    from confirmed show ?thesis
    proof (rule confirm_code_Inr)
      assume "ac' = ac"
      with assms(2) show ?thesis by simp
    next
      fix c
      assume u: "ac_users ac' = update_key us_id (cd_user_id c) (\<lambda>u. u\<lparr>us_email_confirmed_at := Some now\<rparr>) (ac_users ac)"
        and f: "find (unspent code_hash now) (ac_confirmations ac) = Some c"
        and same: "ac_resets ac' = ac_resets ac" "ac_keys ac' = ac_keys ac" "ac_bans ac' = ac_bans ac"
        and cs: "ac_confirmations ac' = update_where (unspent code_hash now) (spend now) (ac_confirmations ac)"
      from found [OF f] r(2) have l: "live_account ac (cd_user_id c)" by auto
      show ?thesis
        by (rule accounts_ok_updated [OF assms(2) u [unfolded update_key_def]])
          (auto simp: same cs update_where_image dest: live_rows [OF assms(2) l])
    qed
  next
    case (signed_out user csrf cookies)
    note s = sign_out_Inr [OF signed_out]
    show ?thesis
      by (rule accounts_ok_updated [OF assms(2) s(1) [unfolded update_key_def]])
        (use r(4) in \<open>auto simp: s users_ok_def\<close>)
  next
    case (reset_asked u code_hash now)
    then have "live_account ac (us_id u)" by (auto simp: live_account_def)
    with r reset_asked(1) show ?thesis by (intro accounts_ok_same_users [OF assms(2)]) auto
  next
    case (was_reset token_hash password_hash now)
    then show ?thesis
    proof (rule reset_Inr)
      fix c
      assume a: "ac' = ac\<lparr>ac_users := update_where (\<lambda>u. us_id u = cd_user_id c \<and> us_deleted_at u = None)
          (\<lambda>u. next_generation (u\<lparr>us_password_hash := password_hash\<rparr>)) (ac_users ac),
         ac_resets := update_where (\<lambda>d. cd_user_id d = cd_user_id c \<and> cd_used_at d = None) (spend now)
           (update_where (unspent token_hash now) (spend now) (ac_resets ac)),
         ac_audit := log_account (lit ''user.password_reset'') (cd_user_id c) (lit ''user'') (cd_user_id c) (ac_audit ac)\<rparr>"
      show ?thesis
        by (rule accounts_ok_updated [OF assms(2), where P = "\<lambda>u. us_id u = cd_user_id c \<and> us_deleted_at u = None"
              and f = "\<lambda>u. next_generation (u\<lparr>us_password_hash := password_hash\<rparr>)"])
          (auto simp: a update_where_image)
    qed
  next
    case (key_made user_id label key_id raw now k)
    note k = insert_key_Inr [OF key_made]
    have ks: "api_keys_ok (ac_keys ac')" unfolding k(1) using k(2-4,6) by (intro api_keys_ok_insert [OF r(5)]) simp_all
    have "live_account ac user_id" using k(5) by (simp add: live_account_def)
    then show ?thesis
      using r ks by (intro accounts_ok_same_users [OF assms(2) k(7)]) (auto simp: k(1,2,8,9,10))
  next
    case (key_set user_id key_id is_active)
    note k = set_key_Inr [OF key_set]
    show ?thesis
      using r api_keys_ok_same [OF r(5) k(1)] by (intro accounts_ok_same_users [OF assms(2) k(2)]) (simp_all add: k(3,4,5))
  next
    case (key_revoked user csrf key_id)
    note k = revoke_key_Inr [OF key_revoked]
    have ks: "api_keys_ok (ac_keys ac')" unfolding k(1) by (rule api_keys_ok_filter [OF r(5)])
    show ?thesis using r ks by (intro accounts_ok_same_users [OF assms(2) k(2)]) (auto simp: k)
  next
    case (account_deleted claims admin csrf user_id drawn now)
    then show ?thesis using accounts_ok_deleted [OF assms(2)] by blast
  next
    case (was_banned admin csrf b ban_id now i)
    note b = ban_Inr [OF was_banned]
    show ?thesis using r b(5) by (intro accounts_ok_same_users [OF assms(2) b(1)]) (auto simp: b(2,3,4))
  next
    case (unbanned admin csrf ban_id)
    note b = unban_Inr [OF unbanned]
    show ?thesis
      using r by (intro accounts_ok_same_users [OF assms(2) b(1)]) (simp_all add: b distinct_map_filter)
  next
    case (key_used hash locked now)
    note k = resolve_key_tables [of ac hash locked now]
    show ?thesis
      using r api_keys_ok_same [OF r(5) k(5)] unfolding key_used
      by (intro accounts_ok_same_users [OF assms(2) k(1)]) (simp_all add: k(2,3,4))
  next
    case (uuid_used uuid locked now)
    note k = resolve_uuid_tables [of ac uuid locked now]
    show ?thesis
      using r unfolding uuid_used by (intro accounts_ok_same_users [OF assms(2) k(1)]) (simp_all add: k)
  qed
qed

lemma accounts_ok_steps:
  assumes "(account_step ex new_id new_code)\<^sup>*\<^sup>* ac ac'" "accounts_ok ex ac"
  shows "accounts_ok ex ac'"
  using assms by (induction rule: rtranclp_induct) (auto intro: accounts_ok_step)

section \<open>What ends a session\<close>

text \<open>The three ways an account's sessions are ended.\<close>

inductive ends_sessions :: "externals \<Rightarrow> nat \<Rightarrow> accounts \<Rightarrow> accounts \<Rightarrow> bool" for ex i where
  by_signing_out: "\<lbrakk>sign_out_everywhere ac user csrf = Inr (ac', cookies); us_id user = i\<rbrakk> \<Longrightarrow> ends_sessions ex i ac ac'"
| by_reset: "\<lbrakk>reset_transaction ac token_hash password_hash now = Inr ac';
    find (unspent token_hash now) (ac_resets ac) = Some c; cd_user_id c = i\<rbrakk> \<Longrightarrow> ends_sessions ex i ac ac'"
| by_deletion: "delete_user ex ac claims admin csrf i drawn now = Inr ac' \<Longrightarrow> ends_sessions ex i ac ac'"

lemma past_generation_update:
  assumes "ac_users ac' = update_where P f (ac_users ac)" "past_generation ac i (g - 1)"
    "\<And>u. us_session_generation (f u) = us_session_generation u + 1" "\<And>u. us_id (f u) = us_id u"
    "\<And>u. u \<in> set (ac_users ac) \<Longrightarrow> us_id u = i \<Longrightarrow> P u"
  shows "past_generation ac' i g"
  using assms(2-5) unfolding past_generation_def assms(1) set_update_where by fastforce

lemma ended_generation:
  assumes "ends_sessions ex i ac ac'" "accounts_ok ex ac" "past_generation ac i (g - 1)"
  shows "past_generation ac' i g"
  using assms(1)
proof cases
  case (by_signing_out user csrf cookies)
  show ?thesis
    by (rule past_generation_update [OF sign_out_Inr(1) [OF by_signing_out(1), unfolded update_key_def] assms(3)])
      (simp_all add: by_signing_out(2))
next
  case (by_reset token_hash password_hash now c)
  from found [OF by_reset(2)] accounts_ok_references(3) [OF assms(2)] by_reset(3)
  have l: "live_account ac i" by auto
  from by_reset(1) show ?thesis
  proof (rule reset_Inr)
    fix d
    assume "find (unspent token_hash now) (ac_resets ac) = Some d"
      and a: "ac' = ac\<lparr>ac_users := update_where (\<lambda>u. us_id u = cd_user_id d \<and> us_deleted_at u = None)
          (\<lambda>u. next_generation (u\<lparr>us_password_hash := password_hash\<rparr>)) (ac_users ac),
         ac_resets := update_where (\<lambda>e. cd_user_id e = cd_user_id d \<and> cd_used_at e = None) (spend now)
           (update_where (unspent token_hash now) (spend now) (ac_resets ac)),
         ac_audit := log_account (lit ''user.password_reset'') (cd_user_id d) (lit ''user'') (cd_user_id d) (ac_audit ac)\<rparr>"
    with by_reset(2,3) have d: "cd_user_id d = i" by simp
    have u: "ac_users ac' = update_where (\<lambda>u. us_id u = i \<and> us_deleted_at u = None)
        (\<lambda>u. next_generation (u\<lparr>us_password_hash := password_hash\<rparr>)) (ac_users ac)"
      by (simp add: a d)
    show ?thesis
      by (rule past_generation_update [OF u assms(3)]) (simp_all add: live_rows [OF assms(2) l])
  qed
next
  case (by_deletion claims admin csrf drawn now)
  note d = delete_user_Inr [OF by_deletion]
  have l: "live_account ac i" using d(6) by (simp add: live_account_def)
  show ?thesis
    by (rule past_generation_update [OF d(1) assms(3)]) (simp_all add: live_rows [OF assms(2) l])
qed

lemma accepted_generation:
  assumes "current_user ex ac (Some token) now = Inr u" "accounts_ok ex ac"
  shows "past_generation ac (us_id u) (us_session_generation u - 1)"
proof -
  have "v = u" if "v \<in> set (ac_users ac)" "us_id v = us_id u" for v
    using accounts_ok_references(4) [OF assms(2)] that current_user_Inr(2) [OF assms(1)]
    by (auto simp: users_ok_def distinct_map dest: inj_onD)
  then show ?thesis unfolding past_generation_def by force
qed

section \<open>Links\<close>

lemma account_step_resets:
  assumes "account_step ex new_id new_code ac ac'" "c' \<in> set (ac_resets ac')"
  shows "new_code (cd_hash c') \<or> (\<exists>c\<in>set (ac_resets ac). cd_hash c = cd_hash c' \<and> (cd_used_at c \<noteq> None \<longrightarrow> cd_used_at c' \<noteq> None))"
  using assms
proof cases
  case (released now username email)
  then show ?thesis using assms(2) by (auto simp: delete_users_tables)
next
  case (opened drawn username email password_hash now)
  from opened(1) have "ac_resets ac' = ac_resets ac" by (rule open_account_Inr)
  then show ?thesis using assms(2) by auto
next
  case (confirmed code_hash now message)
  then have "ac_resets ac' = ac_resets ac" by (auto elim: confirm_code_Inr)
  then show ?thesis using assms(2) by auto
next
  case (signed_out user csrf cookies)
  from sign_out_Inr(2) [OF signed_out] assms(2) show ?thesis by auto
next
  case (was_reset token_hash password_hash now)
  then obtain P Q where "c' \<in> set (update_where P (spend now) (update_where Q (spend now) (ac_resets ac)))"
    using assms(2) by (auto elim: reset_Inr)
  then obtain c where "c \<in> set (ac_resets ac)" "c' = c \<or> c' = spend now c \<or> c' = spend now (spend now c)"
    unfolding set_update_where by (auto split: if_splits)
  then show ?thesis by (intro disjI2 bexI [of _ c]) auto
next
  case (key_made user_id label key_id raw now k)
  then show ?thesis using assms(2) insert_key_Inr(8) [OF key_made] by auto
next
  case (key_set user_id key_id is_active)
  then show ?thesis using assms(2) set_key_Inr(3) [OF key_set] by auto
next
  case (key_revoked user csrf key_id)
  then show ?thesis using assms(2) revoke_key_Inr(3) [OF key_revoked] by auto
next
  case (account_deleted claims admin csrf user_id drawn now)
  from delete_user_Inr(4) [OF account_deleted] assms(2) show ?thesis by auto
next
  case (was_banned admin csrf b ban_id now i)
  then show ?thesis using assms(2) ban_Inr(3) [OF was_banned] by auto
next
  case (unbanned admin csrf ban_id)
  then show ?thesis using assms(2) unban_Inr(3) [OF unbanned] by auto
next
  case (key_used hash locked now)
  then show ?thesis using assms(2) resolve_key_tables(2) [of ac hash locked now] by auto
next
  case (uuid_used uuid locked now)
  then show ?thesis using assms(2) resolve_uuid_tables(2) [of ac uuid locked now] by auto
qed auto

definition spent_link :: "accounts \<Rightarrow> ustr \<Rightarrow> bool" where
  "spent_link ac h \<longleftrightarrow> (\<forall>c\<in>set (ac_resets ac). cd_hash c = h \<longrightarrow> cd_used_at c \<noteq> None)"

lemma spent_link_step:
  assumes "account_step ex new_id new_code ac ac'" "spent_link ac h" "\<not> new_code h"
  shows "spent_link ac' h"
  unfolding spent_link_def
proof (intro ballI impI)
  fix c' assume c': "c' \<in> set (ac_resets ac')" "cd_hash c' = h"
  from account_step_resets [OF assms(1) c'(1)] assms(3) c'(2)
  obtain c where "c \<in> set (ac_resets ac)" "cd_hash c = h" "cd_used_at c \<noteq> None \<longrightarrow> cd_used_at c' \<noteq> None" by auto
  with assms(2) show "cd_used_at c' \<noteq> None" by (simp add: spent_link_def)
qed

lemma spent_link_steps:
  assumes "(account_step ex new_id new_code)\<^sup>*\<^sup>* ac ac'" "spent_link ac h" "\<not> new_code h"
  shows "spent_link ac' h"
  using assms by (induction rule: rtranclp_induct) (auto intro: spent_link_step)

lemma spent_link_refused:
  assumes "spent_link ac h"
  shows "reset_account ac h now = Inl invalid_reset" "reset_transaction ac h password_hash now = Inl invalid_reset"
proof -
  have u: "find (unspent h now) (ac_resets ac) = None"
    using assms by (auto simp: find_None_iff spent_link_def unspent_def)
  then have "find (\<lambda>c. unspent h now c \<and> list_ex (\<lambda>u. us_id u = cd_user_id c \<and> us_deleted_at u = None) (ac_users ac)) (ac_resets ac) = None"
    by (auto simp: find_None_iff)
  then show "reset_account ac h now = Inl invalid_reset" by (simp add: reset_account_def ok_or_def)
  show "reset_transaction ac h password_hash now = Inl invalid_reset" using u by (simp add: reset_transaction_def)
qed

text \<open>A reset spends every link of its account.\<close>

lemma reset_spends:
  assumes "reset_transaction ac token_hash password_hash now = Inr ac'"
    "find (unspent token_hash now) (ac_resets ac) = Some c"
    "\<forall>e\<in>set (ac_resets ac). cd_hash e = h \<longrightarrow> cd_user_id e = cd_user_id c"
  shows "spent_link ac' h"
  using assms(1)
proof (rule reset_Inr)
  fix d
  assume "find (unspent token_hash now) (ac_resets ac) = Some d"
    and a: "ac' = ac\<lparr>ac_users := update_where (\<lambda>u. us_id u = cd_user_id d \<and> us_deleted_at u = None)
        (\<lambda>u. next_generation (u\<lparr>us_password_hash := password_hash\<rparr>)) (ac_users ac),
       ac_resets := update_where (\<lambda>e. cd_user_id e = cd_user_id d \<and> cd_used_at e = None) (spend now)
         (update_where (unspent token_hash now) (spend now) (ac_resets ac)),
       ac_audit := log_account (lit ''user.password_reset'') (cd_user_id d) (lit ''user'') (cd_user_id d) (ac_audit ac)\<rparr>"
  with assms(2) have "d = c" by simp
  then show ?thesis using assms(3) unfolding spent_link_def a by (auto simp: set_update_where)
qed

section \<open>Handlers\<close>

lemma charge_snd:
  "snd (charge_reset ops ex l key inst) = snd (rate_check ops (ex_sha256 ex) (rl_reset l) key inst)"
  by (simp add: charge_reset_def split: prod.split)

lemma and_then_assoc: "and_then (and_then m f) g = and_then m (\<lambda>x. and_then (f x) g)"
  by (simp add: and_then_def split: sum.split)

lemma request_answer:
  "snd (request_password_reset ops ex l ac ip address raw_token later now inst) =
     and_then (snd (charge_reset ops ex l (lit ''ip:'' @ ip) inst)) (\<lambda>_.
     and_then (snd (charge_reset ops ex (fst (charge_reset ops ex l (lit ''ip:'' @ ip) inst))
       (lit ''em:'' @ ex_to_lowercase ex (trim address)) inst)) (\<lambda>_. Inr reset_requested))"
  "fst (fst (request_password_reset ops ex l ac ip address raw_token later now inst)) =
     (let l1 = fst (charge_reset ops ex l (lit ''ip:'' @ ip) inst) in
      if snd (charge_reset ops ex l (lit ''ip:'' @ ip) inst) = ok
      then fst (charge_reset ops ex l1 (lit ''em:'' @ ex_to_lowercase ex (trim address)) inst) else l1)"
  by (auto simp: request_password_reset_def Let_def split: prod.splits sum.splits option.splits)

lemma register_answer:
  assumes "\<forall>u\<in>set (ac_users ac). \<not> same_name ex (us_username u) (trim (rg_username b))"
  shows "snd (register_account ops ex l ac ip turns b drawn (\<lambda>x. x) now inst) =
    and_then (snd (charge_register ops ex l ip inst)) (\<lambda>_.
    and_then (registration_checks ex (fst turns) b (trim (rg_username b)) (ex_to_lowercase ex (trim (rg_email b)))) (\<lambda>_.
    and_then (snd turns) (\<lambda>_. and_then (ex_hash_password ex (rg_password b) (na_salt drawn)) (\<lambda>_. ok))))"
proof -
  let ?ac = "delete_users (releasable ex ac now (trim (rg_username b)) (ex_to_lowercase ex (trim (rg_email b)))) ac"
  have free: "\<not> list_ex (\<lambda>u. same_name ex (us_username u) (trim (rg_username b))) (ac_users ?ac)"
    using assms by (auto simp: list_ex_iff delete_users_tables)
  then have lower: "\<not> list_ex (\<lambda>v. ex_lower ex (us_username v) = ex_lower ex (trim (rg_username b))) (ac_users ?ac)"
    by (auto simp: list_ex_iff same_name_def)
  have opens: "open_account ex ?ac drawn (trim (rg_username b)) (ex_to_lowercase ex (trim (rg_email b))) h now \<noteq> Inl e"
    if "\<not> list_ex (\<lambda>u. us_email u = ex_to_lowercase ex (trim (rg_email b))) (ac_users ?ac)" for h e
    using lower that by (simp add: open_account_def insert_user_def)
  show ?thesis
    using free opens
    by (auto simp: register_account_def Let_def and_then_def split: prod.splits sum.splits)
qed

lemma login_refusals:
  assumes "snd (charge_login ops ex l (lit ''ip:'' @ ip) inst) = ok"
    "snd (charge_login_account ops ex (fst (charge_login ops ex l (lit ''ip:'' @ ip) inst)) (login_bucket ex (account_named ex ac username) username) inst) = ok"
    "account_named ex ac username = None \<or> (\<exists>u. account_named ex ac username = Some u \<and> turn = ok \<and>
       \<not> ex_verify_password ex password (us_password_hash u))"
  shows "snd (login ops ex secure ttl l ac ip turn username password drawn now inst) =
    Inl (Unauthorized ''incorrect username or password'')"
  using assms by (auto simp: login_def Let_def ok_or_def split: prod.splits)

section \<open>Credentials\<close>

lemma admit_unknown_refused:
  assumes "\<not> is_known gate presented inst"
    "rate_check ops sha256 (cg_unknown gate) (lit ''ip:'' @ ip) inst = (unknown, Inl e)"
  shows "admit ops sha256 (gate, worker) presented bucket ip inst = ((gate\<lparr>cg_unknown := unknown\<rparr>, worker), Inl e)"
  using assms by (simp add: admit_def)

lemma admit_known:
  assumes "is_known gate presented inst"
  shows "fst (fst (admit ops sha256 (gate, worker) presented bucket ip inst)) = gate"
  using assms by (simp add: admit_def split: prod.split)

lemma remember_known: "length (cg_known gate) < MAX_KNOWN \<Longrightarrow> inst \<le> t \<Longrightarrow> t - inst < KNOWN_FOR \<Longrightarrow>
    is_known (remember_credential gate presented inst) presented t"
  by (simp add: remember_credential_def is_known_def)

lemma remember_bounded: "length (cg_known gate) \<le> MAX_KNOWN \<Longrightarrow> length (cg_known (remember_credential gate presented inst)) \<le> MAX_KNOWN"
proof (cases "length (cg_known gate) < MAX_KNOWN")
  case True
  then show ?thesis
    using length_filter_le [of "\<lambda>(k, _). k \<noteq> presented" "cg_known gate"]
    unfolding remember_credential_def by (simp add: Suc_le_eq del: length_filter_le)
next
  case False
  assume le: "length (cg_known gate) \<le> MAX_KNOWN"
  show ?thesis
  proof (cases "presented \<in> fst ` set (cg_known gate)")
    case True
    then have "length (filter (\<lambda>(k, _). k \<noteq> presented) (cg_known gate)) < length (cg_known gate)"
      by (auto intro!: length_filter_less)
    with True le show ?thesis by (simp add: remember_credential_def)
  qed (use False le in \<open>simp add: remember_credential_def\<close>)
qed

lemma map_of_filter_value:
  assumes "distinct (map fst xs)"
  shows "map_of (filter (\<lambda>(_, v). P v) xs) k = (case map_of xs k of None \<Rightarrow> None | Some v \<Rightarrow> if P v then Some v else None)"
  using assms
proof (induction xs)
  case (Cons x xs)
  obtain a v where x: "x = (a, v)" by (cases x)
  from Cons.prems x have a: "map_of xs a = None" by (simp add: map_of_eq_None_iff)
  show ?case using Cons x a by (cases "k = a") simp_all
qed simp

lemma retain_forgets_nothing:
  assumes "distinct (map fst (cg_known gate))" "inst \<le> t"
  shows "is_known (retain_recent_credentials ops gate inst) presented t = is_known gate presented t"
  using assms by (auto simp: is_known_def retain_recent_credentials_def map_of_filter_value split: option.split)

section \<open>The handlers take these steps only\<close>

lemma register_account_steps:
  assumes "\<And>x. (account_step ex new_id new_code)\<^sup>*\<^sup>* x (later x)" "new_id (na_user_id drawn)"
    "\<And>x. na_user_id drawn \<notin> us_id ` set (ac_users (later x))"
  shows "(account_step ex new_id new_code)\<^sup>*\<^sup>* ac (fst (snd (fst (register_account ops ex l ac ip turns b drawn later now inst))))"
proof -
  let ?ac1 = "delete_users (releasable ex ac now (trim (rg_username b)) (ex_to_lowercase ex (trim (rg_email b)))) ac"
  have r: "(account_step ex new_id new_code)\<^sup>*\<^sup>* ac ?ac1" by (rule r_into_rtranclp, rule released)
  have l: "(account_step ex new_id new_code)\<^sup>*\<^sup>* ac (later ?ac1)" by (rule rtranclp_trans [OF r assms(1)])
  have opens: "(account_step ex new_id new_code)\<^sup>*\<^sup>* ac ac2"
    if "open_account ex (later ?ac1) drawn username email h now = Inr ac2" for username email h ac2
    by (rule rtranclp.rtrancl_into_rtrancl, rule l, rule opened, rule that, rule assms(2), rule assms(3))
  show ?thesis
    using r l opens by (auto simp: register_account_def Let_def split: prod.splits sum.splits)
qed

lemma request_password_reset_steps:
  assumes "\<And>x. (account_step ex new_id new_code)\<^sup>*\<^sup>* x (later x)" "new_code (ex_sha256 ex raw_token)"
  shows "(account_step ex new_id new_code)\<^sup>*\<^sup>* ac (fst (snd (fst (request_password_reset ops ex l ac ip address raw_token later now inst))))"
proof -
  have asked: "(account_step ex new_id new_code)\<^sup>*\<^sup>* ac ((later ac)\<lparr>ac_resets := ac_resets (later ac) @ [\<lparr>cd_user_id = i,
      cd_hash = ex_sha256 ex raw_token, cd_expires_at = now + RESET_TTL, cd_used_at = None\<rparr>]\<rparr>)"
    if live: "list_ex (\<lambda>v. us_id v = i \<and> us_deleted_at v = None) (ac_users (later ac))" for i
  proof -
    from live obtain v where v: "v \<in> set (ac_users (later ac))" "us_deleted_at v = None" "us_id v = i" by (auto simp: list_ex_iff)
    show ?thesis
      unfolding v(3) [symmetric]
      by (rule rtranclp.rtrancl_into_rtrancl, rule assms(1), rule reset_asked, rule v(1), rule v(2), rule assms(2))
  qed
  show ?thesis
    using assms(1) [of ac] asked
    by (auto simp: request_password_reset_def Let_def split: prod.splits sum.splits option.splits)
qed

lemma confirm_password_reset_steps:
  assumes "\<And>x. (account_step ex new_id new_code)\<^sup>*\<^sup>* x (later x)"
    "snd (confirm_password_reset ops ex l ac ip turns token password salt later now inst) = Inr (ac', cookies)"
  shows "(account_step ex new_id new_code)\<^sup>*\<^sup>* ac ac'"
proof -
  from assms(2) obtain h p where "reset_transaction (later ac) h p now = Inr ac'"
    by (auto simp: confirm_password_reset_def Let_def and_then_Inr split: prod.splits sum.splits if_splits)
  then show ?thesis by (rule rtranclp.rtrancl_into_rtrancl [OF assms(1) was_reset])
qed

section \<open>A small service\<close>

text \<open>One account, signed in and with a reset link, under externals that compute.\<close>

definition sample_externals :: externals where
  "sample_externals = \<lparr>ex_sha256 = (\<lambda>s. s), ex_hash_password = (\<lambda>password salt. Inr (password @ salt)),
     ex_verify_password = (\<lambda>password h. password = h), ex_score = (\<lambda>_ _. Inr 4), ex_lower = (\<lambda>s. s),
     ex_to_lowercase = (\<lambda>s. s), ex_parse_uuid = (\<lambda>s. if s = lit ''1'' then Some 1 else None),
     ex_seal = (\<lambda>_ _. Inr (lit ''t'')),
     ex_open = (\<lambda>s now. if s = lit ''t'' \<and> now < 1000 then Some \<lparr>tk_subject = Some (lit ''1''), tk_issued_at = 0,
       tk_expires_at = 1000, tk_username = lit ''ann'', tk_is_admin = False, tk_generation = Some 0\<rparr> else None)\<rparr>"

definition sample_user :: user_row where
  "sample_user = \<lparr>us_id = 1, us_username = lit ''ann'', us_email = lit ''ann@x'', us_password_hash = lit ''pw'',
     us_email_confirmed_at = Some 0, us_is_admin = False, us_session_generation = 0, us_deleted_at = None,
     us_created_at = 0\<rparr>"

definition sample_accounts :: accounts where
  "sample_accounts = \<lparr>ac_users = [sample_user], ac_confirmations = [],
     ac_resets = [\<lparr>cd_user_id = 1, cd_hash = lit ''h'', cd_expires_at = 500, cd_used_at = None\<rparr>,
       \<lparr>cd_user_id = 1, cd_hash = lit ''g'', cd_expires_at = 500, cd_used_at = None\<rparr>],
     ac_keys = [], ac_workers = [], ac_bans = [], ac_audit = []\<rparr>"

lemma sample_ok: "accounts_ok sample_externals sample_accounts"
  by (simp add: accounts_ok_def users_ok_def api_keys_ok_def live_account_def sample_accounts_def sample_user_def MAX_API_KEYS_def)

lemma sample_once: "one_opening sample_externals"
  by (auto simp: one_opening_def sample_externals_def split: if_splits)

lemma sample_signed_in: "current_user sample_externals sample_accounts (Some (lit ''t'')) 0 = Inr sample_user"
  by (simp add: current_user_def session_verify_def ok_or_def sample_externals_def sample_accounts_def sample_user_def i32_max_def)

lemma sample_ended:
  "ends_sessions sample_externals 1 sample_accounts
     (fst (projr (sign_out_everywhere sample_accounts sample_user ok)))"
  by (rule by_signing_out [where user = sample_user and csrf = ok and cookies = "[removal SESSION_COOKIE, removal CSRF_COOKIE]"])
    (simp_all add: sign_out_everywhere_def sample_user_def)

lemma sample_reset:
  "\<exists>ac'. reset_transaction sample_accounts (lit ''h'') (lit ''new'') 1 = Inr ac'"
  "find (unspent (lit ''h'') 1) (ac_resets sample_accounts) =
     Some \<lparr>cd_user_id = 1, cd_hash = lit ''h'', cd_expires_at = 500, cd_used_at = None\<rparr>"
  by (simp_all add: reset_transaction_def Let_def sample_accounts_def sample_user_def unspent_def)

section \<open>Properties\<close>

text \<open>C24: the tables of the account routes stay sound, whichever statements of the routes run and in
  whichever order: no two accounts share an identifier, an address or a name in any case, no two keys share
  a hash, an account never holds more than a hundred keys, no worker is banned twice, a key or a link belongs
  to an account that is live, and a deleted account is no administrator and has no confirmed address.\<close>

theorem accounts_stay_sound:
  assumes "(account_step ex new_id new_code)\<^sup>*\<^sup>* ac ac'" "accounts_ok ex ac"
  shows "accounts_ok ex ac' \<and>
    (\<forall>i. count_where (\<lambda>k. ky_user_id k = i) (ac_keys ac') \<le> 100) \<and>
    (\<forall>u\<in>set (ac_users ac'). us_deleted_at u \<noteq> None \<longrightarrow> \<not> us_is_admin u \<and>
      us_id u \<notin> ky_user_id ` set (ac_keys ac') \<union> cd_user_id ` set (ac_resets ac') \<union> cd_user_id ` set (ac_confirmations ac'))"
proof -
  have k: "accounts_ok ex ac'" by (rule accounts_ok_steps [OF assms])
  note r = accounts_ok_references [OF k]
  have "us_id u \<notin> ky_user_id ` set (ac_keys ac') \<union> cd_user_id ` set (ac_resets ac') \<union> cd_user_id ` set (ac_confirmations ac')"
    if "u \<in> set (ac_users ac')" "us_deleted_at u \<noteq> None" for u
    using live_rows [OF k _ that(1) refl] that(2) r(1-3) by blast
  moreover have "\<not> us_is_admin u" if "u \<in> set (ac_users ac')" "us_deleted_at u \<noteq> None" for u
    using r(4) that unfolding users_ok_def by blast
  moreover have "count_where (\<lambda>k. ky_user_id k = i) (ac_keys ac') \<le> 100" for i
    using r(5) unfolding api_keys_ok_def MAX_API_KEYS_def by blast
  ultimately show ?thesis using k by blast
qed

lemma accounts_stay_sound_witness:
  "\<exists>ac'. (account_step sample_externals (\<lambda>_. True) (\<lambda>_. True))\<^sup>*\<^sup>* sample_accounts ac' \<and> ac_resets ac' \<noteq> ac_resets sample_accounts \<and>
     accounts_ok sample_externals ac'"
proof -
  obtain ac' where r: "reset_transaction sample_accounts (lit ''h'') (lit ''new'') 1 = Inr ac'" using sample_reset(1) by blast
  have s: "(account_step sample_externals (\<lambda>_. True) (\<lambda>_. True))\<^sup>*\<^sup>* sample_accounts ac'"
    by (rule r_into_rtranclp, rule was_reset [OF r])
  have "spent_link ac' (lit ''h'')"
    by (rule reset_spends [OF r sample_reset(2)]) (simp add: sample_accounts_def)
  moreover have "\<not> spent_link sample_accounts (lit ''h'')" by (simp add: spent_link_def sample_accounts_def)
  ultimately have "ac_resets ac' \<noteq> ac_resets sample_accounts" by (auto simp: spent_link_def)
  with s accounts_stay_sound [OF s sample_ok] show ?thesis by blast
qed

text \<open>C25: a session that was accepted once and has been ended since (by signing out everywhere, by a reset
  of the password or by the account's deletion) is refused from then on, whatever else happens and whenever its
  token is presented, so long as the account's identifier is not drawn again.\<close>

theorem ended_sessions_stay_ended:
  assumes "one_opening ex" "accounts_ok ex ac0" "current_user ex ac0 (Some token) now = Inr u"
    "(account_step ex new_id new_code)\<^sup>*\<^sup>* ac0 ac" "ends_sessions ex (us_id u) ac ac1"
    "(account_step ex new_id new_code)\<^sup>*\<^sup>* ac1 ac2" "\<not> new_id (us_id u)"
  shows "\<exists>why. current_user ex ac2 (Some token) t = Inl (Unauthorized why)"
proof -
  have "past_generation ac (us_id u) (us_session_generation u - 1)"
    by (rule past_generation_steps [OF assms(4) accepted_generation [OF assms(3,2)] assms(7)])
  then have "past_generation ac1 (us_id u) (us_session_generation u)"
    by (rule ended_generation [OF assms(5) accounts_ok_steps [OF assms(4,2)]])
  then have "past_generation ac2 (us_id u) (us_session_generation u)"
    by (rule past_generation_steps [OF assms(6) _ assms(7)])
  then show ?thesis by (rule past_session_refused [OF assms(1,3)])
qed

lemma ended_sessions_stay_ended_witness:
  "current_user sample_externals sample_accounts (Some (lit ''t'')) 0 = Inr sample_user \<and>
   (\<exists>why. current_user sample_externals (fst (projr (sign_out_everywhere sample_accounts sample_user ok))) (Some (lit ''t'')) 0 =
     Inl (Unauthorized why))"
  using ended_sessions_stay_ended [where new_id = "\<lambda>i. i \<noteq> 1" and new_code = "\<lambda>_. True" and t = 0,
      OF sample_once sample_ok sample_signed_in rtranclp.rtrancl_refl _ rtranclp.rtrancl_refl]
    sample_ended sample_signed_in
  by (simp add: sample_user_def)

text \<open>Once a reset link of an account has been redeemed, that link and every other link of the account is
  refused from then on, at the first look and in the transaction, so long as no new link draws the same code.\<close>

theorem reset_links_work_once:
  assumes "reset_transaction ac token_hash password_hash now = Inr ac1"
    "find (unspent token_hash now) (ac_resets ac) = Some c" "d \<in> set (ac_resets ac)" "cd_user_id d = cd_user_id c"
    "\<forall>e\<in>set (ac_resets ac). cd_hash e = cd_hash d \<longrightarrow> cd_user_id e = cd_user_id d"
    "(account_step ex new_id new_code)\<^sup>*\<^sup>* ac1 ac2" "\<not> new_code (cd_hash d)"
  shows "reset_account ac2 (cd_hash d) t = Inl invalid_reset \<and> reset_transaction ac2 (cd_hash d) other t = Inl invalid_reset"
proof -
  have "spent_link ac1 (cd_hash d)" by (rule reset_spends [OF assms(1,2)]) (use assms(4,5) in simp)
  then have "spent_link ac2 (cd_hash d)" by (rule spent_link_steps [OF assms(6) _ assms(7)])
  then show ?thesis by (intro conjI spent_link_refused)
qed

lemma reset_links_work_once_witness:
  "\<exists>ac1. reset_transaction sample_accounts (lit ''h'') (lit ''new'') 1 = Inr ac1 \<and>
    reset_account ac1 (lit ''g'') 2 = Inl invalid_reset"
proof -
  obtain ac1 where r: "reset_transaction sample_accounts (lit ''h'') (lit ''new'') 1 = Inr ac1" using sample_reset(1) by blast
  have "reset_account ac1 (cd_hash \<lparr>cd_user_id = 1, cd_hash = lit ''g'', cd_expires_at = 500, cd_used_at = None\<rparr>) 2 = Inl invalid_reset \<and>
    reset_transaction ac1 (cd_hash \<lparr>cd_user_id = 1, cd_hash = lit ''g'', cd_expires_at = 500, cd_used_at = None\<rparr>) [] 2 = Inl invalid_reset"
    by (rule reset_links_work_once [where ex = sample_externals and new_id = "\<lambda>_. True" and new_code = "\<lambda>_. False",
          OF r sample_reset(2) _ _ _ rtranclp.rtrancl_refl]) (simp_all add: sample_accounts_def)
  with r show ?thesis by auto
qed


text \<open>A limiter that always has a cell.\<close>

definition open_limiter :: "unit limiter_ops" where
  "open_limiter = \<lparr>check_key = (\<lambda>l _ _. (l, None)), drop_full = (\<lambda>l _. l)\<rparr>"

definition open_limiters :: "unit rate_limiters" where
  "open_limiters = rate_limiters_new (\<lambda>_ _. ())"


lemma admit_known_list:
  "cg_known (fst (fst (admit ops sha256 (gate, worker) presented bucket ip inst))) = cg_known gate"
  by (auto simp: admit_def Let_def split: prod.split sum.split)

lemma looked_up_cases:
  "fst (fst (looked_up ops ex l ac presented bucket ip inst lookup)) =
     (let ((gate, worker), r) = admit ops (ex_sha256 ex) (rl_gate l, rl_worker l) presented bucket ip inst;
          l1 = l\<lparr>rl_gate := gate, rl_worker := worker\<rparr>
      in if r = ok \<and> (\<exists>i. snd (looked_up ops ex l ac presented bucket ip inst lookup) = Inr i)
         then l1\<lparr>rl_gate := remember_credential gate presented inst\<rparr> else l1)"
  by (auto simp: looked_up_def Let_def split: prod.splits sum.splits)

lemma looked_up_gate:
  "cg_known (rl_gate (fst (fst (looked_up ops ex l ac presented bucket ip inst lookup)))) = cg_known (rl_gate l) \<or>
   cg_known (rl_gate (fst (fst (looked_up ops ex l ac presented bucket ip inst lookup)))) =
     cg_known (remember_credential (rl_gate l) presented inst)"
proof -
  obtain gate worker r where a: "admit ops (ex_sha256 ex) (rl_gate l, rl_worker l) presented bucket ip inst = ((gate, worker), r)"
    by (metis prod.collapse)
  have g: "cg_known gate = cg_known (rl_gate l)"
    using admit_known_list [of ops "ex_sha256 ex" "rl_gate l" "rl_worker l" presented bucket ip inst] by (simp add: a)
  then have "cg_known (remember_credential gate presented inst) = cg_known (remember_credential (rl_gate l) presented inst)"
    by (simp add: remember_credential_def)
  with g show ?thesis unfolding looked_up_cases by (simp add: a Let_def)
qed

lemma looked_up_resolved:
  assumes "snd (looked_up ops ex l ac presented bucket ip inst lookup) = Inr i"
  shows "cg_known (rl_gate (fst (fst (looked_up ops ex l ac presented bucket ip inst lookup)))) =
     cg_known (remember_credential (rl_gate l) presented inst)"
proof -
  obtain gate worker r where a: "admit ops (ex_sha256 ex) (rl_gate l, rl_worker l) presented bucket ip inst = ((gate, worker), r)"
    by (metis prod.collapse)
  have g: "cg_known gate = cg_known (rl_gate l)"
    using admit_known_list [of ops "ex_sha256 ex" "rl_gate l" "rl_worker l" presented bucket ip inst] by (simp add: a)
  then have "cg_known (remember_credential gate presented inst) = cg_known (remember_credential (rl_gate l) presented inst)"
    by (simp add: remember_credential_def)
  moreover have "r = ok" using assms by (auto simp: looked_up_def a Let_def split: sum.splits)
  ultimately show ?thesis using assms unfolding looked_up_cases by (simp add: a Let_def)
qed

text \<open>No worker credential is looked up for nothing.  One the service does not know is charged to the address
  it came from: refused there, the tables are not read or changed and the credential's own buckets are untouched.
  One it knows costs the address nothing.  A credential that resolves is known for ten minutes, unless fifty
  thousand others are; no more than that are ever remembered; and what the periodic sweep drops does not count.\<close>

theorem lookups_are_paid_for:
  "(\<not> is_known (rl_gate l) presented inst \<and>
     rate_check ops (ex_sha256 ex) (cg_unknown (rl_gate l)) (lit ''ip:'' @ ip) inst = (unknown, Inl e) \<longrightarrow>
     looked_up ops ex l ac presented bucket ip inst lookup =
       ((l\<lparr>rl_gate := (rl_gate l)\<lparr>cg_unknown := unknown\<rparr>\<rparr>, ac), Inl e)) \<and>
   (is_known (rl_gate l) presented inst \<longrightarrow>
     cg_unknown (rl_gate (fst (fst (looked_up ops ex l ac presented bucket ip inst lookup)))) = cg_unknown (rl_gate l)) \<and>
   (snd (looked_up ops ex l ac presented bucket ip inst lookup) = Inr i \<and> length (cg_known (rl_gate l)) < MAX_KNOWN \<and>
     inst \<le> t \<and> t - inst < KNOWN_FOR \<longrightarrow>
     is_known (rl_gate (fst (fst (looked_up ops ex l ac presented bucket ip inst lookup)))) presented t) \<and>
   (length (cg_known (rl_gate l)) \<le> MAX_KNOWN \<longrightarrow>
     length (cg_known (rl_gate (fst (fst (looked_up ops ex l ac presented bucket ip inst lookup))))) \<le> MAX_KNOWN) \<and>
   (distinct (map fst (cg_known (rl_gate l))) \<and> inst \<le> t \<longrightarrow>
     is_known (rl_gate (retain_recent ops l inst)) other t = is_known (rl_gate l) other t)"
proof (intro conjI impI)
  assume "\<not> is_known (rl_gate l) presented inst \<and>
     rate_check ops (ex_sha256 ex) (cg_unknown (rl_gate l)) (lit ''ip:'' @ ip) inst = (unknown, Inl e)"
  then show "looked_up ops ex l ac presented bucket ip inst lookup =
       ((l\<lparr>rl_gate := (rl_gate l)\<lparr>cg_unknown := unknown\<rparr>\<rparr>, ac), Inl e)"
    by (simp add: looked_up_def admit_unknown_refused)
next
  assume k: "is_known (rl_gate l) presented inst"
  obtain gate worker r where a: "admit ops (ex_sha256 ex) (rl_gate l, rl_worker l) presented bucket ip inst = ((gate, worker), r)"
    by (metis prod.collapse)
  have "gate = rl_gate l" using admit_known [OF k, of ops "ex_sha256 ex" "rl_worker l" bucket ip] by (simp add: a)
  then show "cg_unknown (rl_gate (fst (fst (looked_up ops ex l ac presented bucket ip inst lookup)))) = cg_unknown (rl_gate l)"
    unfolding looked_up_cases by (simp add: a Let_def remember_credential_def)
next
  assume h: "snd (looked_up ops ex l ac presented bucket ip inst lookup) = Inr i \<and> length (cg_known (rl_gate l)) < MAX_KNOWN \<and>
     inst \<le> t \<and> t - inst < KNOWN_FOR"
  have "is_known (remember_credential (rl_gate l) presented inst) presented t" using h by (intro remember_known) simp_all
  with looked_up_resolved [OF conjunct1 [OF h]]
  show "is_known (rl_gate (fst (fst (looked_up ops ex l ac presented bucket ip inst lookup)))) presented t"
    by (simp add: is_known_def)
next
  assume "length (cg_known (rl_gate l)) \<le> MAX_KNOWN"
  then show "length (cg_known (rl_gate (fst (fst (looked_up ops ex l ac presented bucket ip inst lookup))))) \<le> MAX_KNOWN"
    using looked_up_gate [of ops ex l ac presented bucket ip inst lookup]
      remember_bounded [of "rl_gate l" presented inst] by presburger
next
  assume "distinct (map fst (cg_known (rl_gate l))) \<and> inst \<le> t"
  then show "is_known (rl_gate (retain_recent ops l inst)) other t = is_known (rl_gate l) other t"
    by (simp add: retain_recent_def retain_forgets_nothing)
qed

text \<open>A limiter that never has a cell, and one unknown key.\<close>

definition shut_limiter :: "unit limiter_ops" where
  "shut_limiter = \<lparr>check_key = (\<lambda>l _ _. (l, Some 1500000000)), drop_full = (\<lambda>l _. l)\<rparr>"

lemma lookups_are_paid_for_witness:
  "snd (looked_up shut_limiter sample_externals open_limiters sample_accounts (lit ''k:x'') Claims (lit ''a'') 0
      (\<lambda>ac. resolve_key ac (lit ''x'') [] 0)) = Inl (Too_many_requests 2) \<and>
   is_known (rl_gate (fst (fst (looked_up open_limiter sample_externals open_limiters sample_accounts (lit ''k:x'') Claims (lit ''a'') 0
      (\<lambda>ac. (ac, Inr (User 1 1))))))) (lit ''k:x'') 599999999999"
proof -
  have new: "\<not> is_known (rl_gate open_limiters) (lit ''k:x'') 0" "cg_known (rl_gate open_limiters) = []"
    by (simp_all add: open_limiters_def rate_limiters_new_def is_known_def Let_def)
  have shut: "rate_check shut_limiter (ex_sha256 sample_externals) (cg_unknown (rl_gate open_limiters)) (lit ''ip:'' @ lit ''a'') 0 =
      ((), Inl (Too_many_requests 2))"
    by (simp add: rate_check_def shut_limiter_def retry_seconds_def)
  have opens: "rate_check open_limiter sha256 b k 0 = ((), ok)" for sha256 b k
    by (simp add: rate_check_def open_limiter_def)
  have resolved: "snd (looked_up open_limiter sample_externals open_limiters sample_accounts (lit ''k:x'') Claims (lit ''a'') 0
      (\<lambda>ac. (ac, Inr (User 1 1)))) = Inr (User 1 1)"
    by (simp add: looked_up_def admit_def opens new Let_def)
  note paid = lookups_are_paid_for [where ac = sample_accounts and ex = sample_externals and l = open_limiters and presented = "lit ''k:x''"]
  show ?thesis
  proof (intro conjI)
    show "snd (looked_up shut_limiter sample_externals open_limiters sample_accounts (lit ''k:x'') Claims (lit ''a'') 0
      (\<lambda>ac. resolve_key ac (lit ''x'') [] 0)) = Inl (Too_many_requests 2)"
      using mp [OF conjunct1 [OF paid] conjI [OF new(1) shut]] by simp
    show "is_known (rl_gate (fst (fst (looked_up open_limiter sample_externals open_limiters sample_accounts (lit ''k:x'') Claims (lit ''a'') 0
      (\<lambda>ac. (ac, Inr (User 1 1))))))) (lit ''k:x'') 599999999999"
      by (rule mp [OF conjunct1 [OF conjunct2 [OF conjunct2 [OF paid]]] conjI [OF resolved]])
        (simp add: new(2) MAX_KNOWN_def KNOWN_FOR_def)
  qed
qed

section \<open>Double-submitted tokens\<close>

lemma same_token_iff: "same_token a b \<longleftrightarrow> a \<noteq> [] \<and> a = b"
proof -
  have step: "foldl (\<lambda>acc (x, y). or acc (xor x y)) c (zip a b) = 0 \<longleftrightarrow> c = 0 \<and> a = b"
    if "length a = length b" for a b :: "8 word list" and c
    using that
  proof (induction a b arbitrary: c rule: list_induct2)
    case (Cons x xs y ys)
    have "or c (xor x y) = 0 \<longleftrightarrow> c = 0 \<and> x = y"
      by (auto simp: bit_eq_iff bit_or_iff bit_xor_iff)
    with Cons show ?case by auto
  qed simp
  show ?thesis by (auto simp: same_token_def step)
qed

lemma csrf_verify_ok: "csrf_verify method cookie header = ok \<longleftrightarrow>
    method \<in> {GET, HEAD, OPTIONS} \<or> (\<exists>t. cookie = Some t \<and> header = Some t \<and> t \<noteq> [])"
  by (auto simp: csrf_verify_def and_then_check_ok ok_or_Inr same_token_iff)

end
