(* ===== verification/Archive.thy ===== *)
theory Archive
  imports Board
begin

text \<open>
  \<open>inputdata.rs\<close>, the walk of a data tarball: the one place the server reads an untrusted container.  The tar
  reader runs raw and is a parameter: the list of its entries, each the header's bytes, what the reader
  makes of them, and the data that follows; \<open>None\<close> is an entry it cannot read, a broken archive or a stream
  past its bound.  SHA-256 is a parameter too.
\<close>

section \<open>Limits\<close>

definition COMPRESSED_BYTES :: nat where "COMPRESSED_BYTES = 512 * 1024 * 1024"
definition CHUNKS :: nat where "CHUNKS = 64"
definition UNCOMPRESSED_BYTES :: nat where "UNCOMPRESSED_BYTES = 1024 * 1024 * 1024"
definition EXPANSION_RATIO :: nat where "EXPANSION_RATIO = 20"
definition ENTRY_BYTES :: nat where "ENTRY_BYTES = 128 * 1024 * 1024"
definition ENTRIES :: nat where "ENTRIES = 5000"
definition EXTENSION_BYTES :: nat where "EXTENSION_BYTES = 64 * 1024"
definition CONTENT_BYTES :: nat where "CONTENT_BYTES = 64 * 1024"

text \<open>The bound of the decompressed stream, and one read of it: what is counted already, and the bytes now read.\<close>

definition stream_limit :: "nat \<Rightarrow> nat" where
  "stream_limit compressed =
     min UNCOMPRESSED_BYTES (max (min (2 ^ 64 - 1) (EXPANSION_RATIO * compressed)) (64 * 1024 * 1024))"

definition capped_read :: "nat \<Rightarrow> nat \<Rightarrow> nat \<Rightarrow> nat option" where
  "capped_read limit already n = (if already + n > limit then None else Some (already + n))"

definition check_expansion :: "nat \<Rightarrow> nat \<Rightarrow> check" where
  "check_expansion uncompressed compressed =
     (if uncompressed > UNCOMPRESSED_BYTES then Inl (Bad_request ''archive expands past the cap'')
      else if compressed > 0 \<and> uncompressed div max compressed 1 > EXPANSION_RATIO
      then Inl (Bad_request ''archive expands more than the ratio'') else ok)"

section \<open>Names\<close>

definition strip_prefix :: "ustr \<Rightarrow> ustr \<Rightarrow> ustr option" where
  "strip_prefix p s = (if take (length p) s = p then Some (drop (length p) s) else None)"

definition strip_suffix :: "ustr \<Rightarrow> ustr \<Rightarrow> ustr option" where
  "strip_suffix p s = (if length p \<le> length s \<and> drop (length s - length p) s = p
     then Some (take (length s - length p) s) else None)"

definition ends_with :: "ustr \<Rightarrow> ustr \<Rightarrow> bool" where
  "ends_with s p \<longleftrightarrow> strip_suffix p s \<noteq> None"

datatype data_role = Kwg | Klv | Letterdist | Layout | Winpct

text \<open>The role of a directory's files and their suffix.\<close>

definition role_of :: "ustr \<Rightarrow> ustr \<Rightarrow> (data_role \<times> ustr) option" where
  "role_of dir basename =
     (if dir = lit ''lexica'' \<and> ends_with basename (lit ''.kwg'') then Some (Kwg, lit ''.kwg'')
      else if dir = lit ''lexica'' \<and> ends_with basename (lit ''.klv2'') then Some (Klv, lit ''.klv2'')
      else if dir = lit ''letterdistributions'' \<and> ends_with basename (lit ''.csv'') then Some (Letterdist, lit ''.csv'')
      else if dir = lit ''layouts'' \<and> ends_with basename (lit ''.txt'') then Some (Layout, lit ''.txt'')
      else if dir = lit ''strategy'' \<and> ends_with basename (lit ''.csv'') then Some (Winpct, lit ''.csv'')
      else None)"

definition importable_name :: "ustr \<Rightarrow> bool" where
  "importable_name name \<longleftrightarrow> name \<noteq> [] \<and> list_all (\<lambda>c. is_ascii_alnum c \<or> c = 95 \<or> c = 45) name"

definition classify :: "ustr \<Rightarrow> (ustr \<times> data_role \<times> ustr) option" where
  "classify entry_path = (case strip_prefix (lit ''data/'') entry_path of
     None \<Rightarrow> None
   | Some rest \<Rightarrow> (case split_once 47 rest of
       None \<Rightarrow> None
     | Some (dir, basename) \<Rightarrow>
         if basename = [] \<or> 47 \<in> set basename then None
         else (case role_of dir basename of
             None \<Rightarrow> None
           | Some (role, suffix) \<Rightarrow> (case strip_suffix suffix basename of
               None \<Rightarrow> None
             | Some name \<Rightarrow> if importable_name name then Some (dir @ [47] @ basename, role, name) else None))))"

definition keeps_content :: "data_role \<Rightarrow> bool" where
  "keeps_content role \<longleftrightarrow> role = Letterdist \<or> role = Layout"

definition stores_object :: "data_role \<Rightarrow> bool" where
  "stores_object role \<longleftrightarrow> role = Kwg \<or> role = Klv"

definition input_object_key :: "ustr \<Rightarrow> ustr" where
  "input_object_key sha256 = lit ''inputs/'' @ sha256"

definition segments :: "ustr \<Rightarrow> ustr list" where
  "segments = split_by (\<lambda>c. c = 47)"

definition normalise :: "ustr \<Rightarrow> ustr" where
  "normalise path = join_with (lit ''/'') (filter (\<lambda>part. part \<noteq> [] \<and> part \<noteq> lit ''.'') (segments path))"

text \<open>\<open>None\<close> where the target leaves the directory the archive is extracted in.\<close>

fun follow_parts :: "ustr list \<Rightarrow> ustr list \<Rightarrow> ustr list option" where
  "follow_parts parts [] = Some parts"
| "follow_parts parts (part # rest) =
     (if part = [] \<or> part = lit ''.'' then follow_parts parts rest
      else if part = lit ''..'' then (if parts = [] then None else follow_parts (butlast parts) rest)
      else follow_parts (parts @ [part]) rest)"

definition resolve_link :: "ustr \<Rightarrow> ustr \<Rightarrow> ustr option" where
  "resolve_link link_path target =
     (if target = [] \<or> hd target = 47 then None
      else (case follow_parts (butlast (segments link_path)) (segments target) of
          None \<Rightarrow> None
        | Some parts \<Rightarrow>
            let resolved = join_with (lit ''/'') parts
            in if starts_with resolved (lit ''data/'') then Some resolved else None))"

section \<open>PAX records\<close>

definition malformed_pax :: app_error where
  "malformed_pax = Bad_request ''archive has a malformed PAX record''"

text \<open>The record the bytes begin with: its key, its value and how long it is.\<close>

definition pax_record :: "nat list \<Rightarrow> (nat list \<times> nat list \<times> nat) app_result" where
  "pax_record rest =
     (if 32 \<notin> set rest then Inl malformed_pax
      else
        let digits = takeWhile (\<lambda>b. b \<noteq> 32) rest; space = length digits in
        if digits = [] \<or> \<not> list_all is_ascii_digit digits then Inl malformed_pax
        else (case parse_unsigned u64_max digits of
            None \<Rightarrow> Inl malformed_pax
          | Some len \<Rightarrow>
              let n = nat len in
              if n \<le> space + 1 \<or> n > length rest \<or> rest ! (n - 1) \<noteq> 10 then Inl malformed_pax
              else
                let body = drop (space + 1) (take (n - 1) rest) in
                if body \<noteq> [] \<and> hd body \<in> {32, 9} then Inl malformed_pax
                else if 61 \<notin> set body then Inl malformed_pax
                else Inr (takeWhile (\<lambda>b. b \<noteq> 61) body, tl (dropWhile (\<lambda>b. b \<noteq> 61) body), n)))"

lemma pax_record_length:
  assumes "pax_record bs = Inr (key, value, n)"
  shows "0 < n \<and> n \<le> length bs"
  using assms by (auto simp: pax_record_def Let_def split: if_splits option.splits)

function pax_records :: "nat list \<Rightarrow> (nat list \<times> nat list) list app_result" where
  "pax_records data =
     (if data = [] then Inr []
      else (case pax_record data of
          Inl e \<Rightarrow> Inl e
        | Inr (key, value, n) \<Rightarrow> and_then (pax_records (drop n data)) (\<lambda>rs. Inr ((key, value) # rs))))"
  by pat_completeness auto
termination
  by (relation "measure length") (auto dest: pax_record_length)

declare pax_records.simps [simp del]

section \<open>Entries\<close>

datatype entry_type = Regular | Directory | Symlink | Gnu_long_name | Gnu_long_link | Pax_local | Pax_global | Other_type

text \<open>A header's size and path are \<open>None\<close> where the reader refuses the field, a link's target is empty where it does.\<close>

record tar_entry =
  te_type :: entry_type
  te_header :: "nat list"
  te_size :: "nat option"
  te_path :: "ustr option"
  te_link :: ustr
  te_data :: "nat list option"

definition is_pax :: "entry_type \<Rightarrow> bool" where
  "is_pax t \<longleftrightarrow> t = Pax_local \<or> t = Pax_global"

definition is_extension :: "entry_type \<Rightarrow> bool" where
  "is_extension t \<longleftrightarrow> is_pax t \<or> t = Gnu_long_name \<or> t = Gnu_long_link"

definition bytes_from :: "nat \<Rightarrow> nat \<Rightarrow> nat list \<Rightarrow> nat list" where
  "bytes_from i n bs = take n (drop i bs)"

definition plain_size_field :: "nat list \<Rightarrow> bool" where
  "plain_size_field header = (let field = bytes_from 124 12 header in
     (take 1 field = [0x80] \<and> bytes_from 1 3 field = [0, 0, 0]) \<or>
     list_all (\<lambda>b. (48 \<le> b \<and> b \<le> 55) \<or> b = 32 \<or> b = 0) field)"

definition unknown_ustar :: "nat list \<Rightarrow> bool" where
  "unknown_ustar header \<longleftrightarrow> bytes_from 257 6 header = lit ''ustar'' @ [0] \<and> bytes_from 263 2 header \<noteq> lit ''00''"

record imported_file =
  if_path :: ustr
  if_role :: data_role
  if_name :: ustr
  if_sha256 :: ustr
  if_bytes :: nat
  if_content :: "nat list option"
  if_object_key :: "ustr option"
  if_stored :: "nat list option"

text \<open>A symlink at a pinned path: its own mapped path, role and name, its target as written and as an archive path.\<close>

record archive_link =
  ln_path :: ustr
  ln_role :: data_role
  ln_name :: ustr
  ln_written :: ustr
  ln_target :: ustr

record tar_walk =
  wa_files :: "imported_file list"
  wa_links :: "archive_link list"
  wa_total :: nat
  wa_count :: nat
  wa_seen :: "ustr list"
  wa_next_path :: "ustr option"
  wa_next_link :: "ustr option"
  wa_pax_pending :: bool

definition walk_start :: tar_walk where
  "walk_start = \<lparr>wa_files = [], wa_links = [], wa_total = 0, wa_count = 0, wa_seen = [], wa_next_path = None,
     wa_next_link = None, wa_pax_pending = False\<rparr>"

section \<open>Extension headers\<close>

definition two_names :: app_error where
  "two_names = Bad_request ''archive gives one entry two names, which extractors resolve differently''"

definition set_next_path :: "ustr \<Rightarrow> tar_walk \<Rightarrow> tar_walk app_result" where
  "set_next_path text w = (if wa_next_path w \<noteq> None then Inl two_names else Inr (w\<lparr>wa_next_path := Some text\<rparr>))"

definition set_next_link :: "ustr \<Rightarrow> tar_walk \<Rightarrow> tar_walk app_result" where
  "set_next_link text w = (if wa_next_link w \<noteq> None then Inl two_names else Inr (w\<lparr>wa_next_link := Some text\<rparr>))"

fun apply_pax :: "entry_type \<Rightarrow> (nat list \<times> nat list) list \<Rightarrow> tar_walk \<Rightarrow> tar_walk app_result" where
  "apply_pax t [] w = Inr w"
| "apply_pax t ((raw_key, value) # rs) w =
     (let key = from_utf8_lossy raw_key in
      if key = lit ''size'' \<or> starts_with key (lit ''GNU.sparse'')
      then Inl (Bad_request ''archive has a PAX record no data release needs'')
      else if key = lit ''path'' \<or> key = lit ''linkpath'' then
        (if t = Pax_global then Inl (Bad_request ''archive has a global PAX record'')
         else if 0 \<in> set value then Inl (Bad_request ''archive has a NUL in a PAX record'')
         else and_then ((if key = lit ''path'' then set_next_path else set_next_link) (from_utf8_lossy value) w)
           (\<lambda>w. apply_pax t rs w))
      else apply_pax t rs w)"

definition walk_extension :: "tar_entry \<Rightarrow> tar_walk \<Rightarrow> tar_walk app_result" where
  "walk_extension e w = (case te_data e of
     None \<Rightarrow> Inl (Bad_request ''unreadable extension header'')
   | Some all \<Rightarrow>
       let data = take (EXTENSION_BYTES + 1) all in
       if \<not> is_pax (te_type e)
       then (let text = from_utf8_lossy (takeWhile (\<lambda>b. b \<noteq> 0) data)
             in if te_type e = Gnu_long_name then set_next_path text w else set_next_link text w)
       else if te_type e = Pax_local \<and> wa_pax_pending w
       then Inl (Bad_request ''archive puts two PAX headers before one entry, which extractors resolve differently'')
       else let w1 = (if te_type e = Pax_local then w\<lparr>wa_pax_pending := True\<rparr> else w)
            in and_then (pax_records data) (\<lambda>rs. apply_pax (te_type e) rs w1))"

section \<open>Files and links\<close>

definition twice :: app_error where
  "twice = Bad_request ''archive names a path more than once''"

definition unresolvable_link :: app_error where
  "unresolvable_link = Bad_request ''archive contains a non-regular entry whose target is not a data file''"

definition walk_link :: "ustr \<Rightarrow> ustr \<Rightarrow> tar_walk \<Rightarrow> tar_walk app_result" where
  "walk_link path target w = (case classify path of
     None \<Rightarrow> Inr w
   | Some (mapped, role, name) \<Rightarrow> (case resolve_link path target of
       None \<Rightarrow> Inl unresolvable_link
     | Some resolved \<Rightarrow>
         if mapped \<in> set (wa_seen w) then Inl twice
         else Inr (w\<lparr>wa_seen := mapped # wa_seen w,
           wa_links := wa_links w @ [\<lparr>ln_path = mapped, ln_role = role, ln_name = name, ln_written = target,
             ln_target = resolved\<rparr>]\<rparr>)))"

definition imported :: "(nat list \<Rightarrow> ustr) \<Rightarrow> ustr \<Rightarrow> data_role \<Rightarrow> ustr \<Rightarrow> nat list \<Rightarrow> imported_file" where
  "imported sha256 path role name bytes =
     \<lparr>if_path = path, if_role = role, if_name = name, if_sha256 = sha256 bytes, if_bytes = length bytes,
      if_content = (if keeps_content role then Some bytes else None),
      if_object_key = (if stores_object role then Some (input_object_key (sha256 bytes)) else None),
      if_stored = (if stores_object role then Some bytes else None)\<rparr>"

definition walk_file :: "(nat list \<Rightarrow> ustr) \<Rightarrow> ustr \<Rightarrow> nat \<Rightarrow> tar_entry \<Rightarrow> tar_walk \<Rightarrow> tar_walk app_result" where
  "walk_file sha256 path data_size e w =
     (if data_size > ENTRY_BYTES then Inl (Bad_request ''larger than the per-entry cap'')
      else (case classify path of
         None \<Rightarrow> Inr w
       | Some (mapped, role, name) \<Rightarrow>
           if mapped \<in> set (wa_seen w) then Inl twice
           else if keeps_content role \<and> data_size > CONTENT_BYTES then Inl (Bad_request ''larger than a file of its role may be'')
           else (case te_data e of
               None \<Rightarrow> Inl (Bad_request ''could not read the file'')
             | Some all \<Rightarrow>
                 let bytes = take (ENTRY_BYTES + 1) all in
                 if length bytes \<noteq> data_size then Inl (Bad_request ''not the size its header gives'')
                 else Inr (w\<lparr>wa_seen := mapped # wa_seen w, wa_files := wa_files w @ [imported sha256 mapped role name bytes]\<rparr>))))"

section \<open>One entry\<close>

definition unsafe_path :: "ustr \<Rightarrow> bool" where
  "unsafe_path path \<longleftrightarrow> (path \<noteq> [] \<and> hd path = 47) \<or> lit ''..'' \<in> set (segments path)"

definition walk_path :: "(nat list \<Rightarrow> ustr) \<Rightarrow> nat \<Rightarrow> tar_entry \<Rightarrow> ustr option \<Rightarrow> ustr \<Rightarrow> tar_walk \<Rightarrow> tar_walk app_result" where
  "walk_path sha256 data_size e long_link path w =
     (if unsafe_path path then Inl (Bad_request ''archive contains an unsafe path'')
      else if path \<noteq> [] \<and> last path = 47 then Inl (Bad_request ''archive names a file as a directory'')
      else if te_type e = Symlink
      then walk_link (normalise path) (case long_link of Some l \<Rightarrow> l | None \<Rightarrow> te_link e) w
      else walk_file sha256 (normalise path) data_size e w)"

text \<open>An entry that is no extension header: the names the headers before it gave are used up.\<close>

definition walk_named :: "(nat list \<Rightarrow> ustr) \<Rightarrow> nat \<Rightarrow> tar_entry \<Rightarrow> tar_walk \<Rightarrow> tar_walk app_result" where
  "walk_named sha256 data_size e w =
     (let long_path = wa_next_path w; long_link = wa_next_link w; t = te_type e;
          w1 = w\<lparr>wa_next_path := None, wa_next_link := None, wa_pax_pending := False\<rparr>
      in if (t = Directory \<or> t = Symlink) \<and> data_size \<noteq> 0 then Inl (Bad_request ''archive has a directory or link entry with data'')
         else if t = Directory then Inr w1
         else if t \<noteq> Regular \<and> t \<noteq> Symlink then Inl (Bad_request ''archive contains a non-regular entry'')
         else and_then (ok_or (case long_path of Some p \<Rightarrow> Some p | None \<Rightarrow> te_path e) (Bad_request ''unreadable entry path''))
           (\<lambda>path. walk_path sha256 data_size e long_link path w1))"

definition walk_entry :: "(nat list \<Rightarrow> ustr) \<Rightarrow> nat \<Rightarrow> tar_entry \<Rightarrow> tar_walk \<Rightarrow> tar_walk app_result" where
  "walk_entry sha256 compressed e w =
     (let t = te_type e; n = wa_count w + (if is_extension t then 0 else 1); w1 = w\<lparr>wa_count := n\<rparr> in
      if n > ENTRIES then Inl (Bad_request ''archive has too many entries'')
      else if unknown_ustar (te_header e) then Inl (Bad_request ''archive has a ustar header of an unknown version'')
      else if \<not> plain_size_field (te_header e) then Inl (Bad_request ''archive has an entry size in a form extractors read differently'')
      else and_then (ok_or (te_size e) (Bad_request ''unreadable entry size'')) (\<lambda>data_size.
        if is_extension t \<and> data_size > EXTENSION_BYTES then Inl (Bad_request ''archive has an extension header larger than its cap'')
        else if t = Regular \<and> data_size > ENTRY_BYTES then Inl (Bad_request ''larger than the per-entry cap'')
        else
          let total_bytes = (wa_total w + data_size) mod 2 ^ 64; w2 = w1\<lparr>wa_total := total_bytes\<rparr> in
          and_then (check_expansion total_bytes compressed) (\<lambda>_.
            if is_extension t then walk_extension e w2 else walk_named sha256 data_size e w2)))"

fun walk_entries :: "(nat list \<Rightarrow> ustr) \<Rightarrow> nat \<Rightarrow> tar_entry option list \<Rightarrow> tar_walk \<Rightarrow> tar_walk app_result" where
  "walk_entries sha256 compressed [] w = Inr w"
| "walk_entries sha256 compressed (None # es) w = Inl (Bad_request ''malformed tar entry'')"
| "walk_entries sha256 compressed (Some e # es) w =
     and_then (walk_entry sha256 compressed e w) (walk_entries sha256 compressed es)"

section \<open>Aliases\<close>

text \<open>A chain of aliases, followed as many hops as the first argument.\<close>

fun follow_alias :: "nat \<Rightarrow> imported_file list \<Rightarrow> archive_link list \<Rightarrow> data_role \<Rightarrow> ustr \<Rightarrow> imported_file option" where
  "follow_alias 0 files links role target = None"
| "follow_alias (Suc hops) files links role target = (case classify target of
     None \<Rightarrow> None
   | Some (mapped, target_role, _) \<Rightarrow>
       if target_role \<noteq> role then None
       else (case find (\<lambda>f. if_path f = mapped) files of
           Some f \<Rightarrow> Some f
         | None \<Rightarrow> (case find (\<lambda>l. ln_path l = mapped) links of
             None \<Rightarrow> None
           | Some l \<Rightarrow> follow_alias hops files links role (ln_target l))))"

fun add_aliases ::
  "nat \<Rightarrow> archive_link list \<Rightarrow> archive_link list \<Rightarrow> nat \<Rightarrow> imported_file list \<Rightarrow> imported_file list app_result" where
  "add_aliases compressed links [] total_bytes files = Inr files"
| "add_aliases compressed links (l # ls) total_bytes files = (case follow_alias 8 files links (ln_role l) (ln_target l) of
     None \<Rightarrow> Inl unresolvable_link
   | Some f \<Rightarrow>
       let counted = (if keeps_content (ln_role l) then (total_bytes + if_bytes f) mod 2 ^ 64 else total_bytes) in
       and_then (if keeps_content (ln_role l) then check_expansion counted compressed else ok) (\<lambda>_.
         add_aliases compressed links ls counted
           (files @ [f\<lparr>if_path := ln_path l, if_role := ln_role l, if_name := ln_name l, if_stored := None\<rparr>])))"

definition walk_archive :: "(nat list \<Rightarrow> ustr) \<Rightarrow> nat \<Rightarrow> tar_entry option list \<Rightarrow> imported_file list app_result" where
  "walk_archive sha256 compressed entries =
     and_then (walk_entries sha256 compressed entries walk_start) (\<lambda>w.
     and_then (add_aliases compressed (wa_links w) (wa_links w) (wa_total w) (wa_files w)) (\<lambda>files.
       if files = [] then Inl (Bad_request ''archive contained no recognisable data files'') else Inr files))"

end
