(* ===== verification/Imports.thy ===== *)
theory Imports
  imports Archive Accounts_Spec
begin

text \<open>
  \<open>inputdata.rs\<close> and the input-data routes of \<open>routes/admin.rs\<close>: a tag or branch resolved to a commit, the tarball
  downloaded in chunks, walked, its lexica and leaves put in the object store, the difference from what is
  known staged, and the confirmation that inserts it.  GitHub's answers are a parameter, the object store
  is the list of its keys, and a broken connection is \<open>None\<close>.
\<close>

section \<open>Tables\<close>

record data_row =
  ir_id :: nat
  ir_path :: ustr
  ir_role :: data_role
  ir_name :: ustr
  ir_sha256 :: ustr
  ir_bytes :: nat
  ir_tarball_date :: ustr
  ir_content :: "nat list option"
  ir_object_key :: "ustr option"
  ir_imported_by :: "nat option"
  ir_imported_at :: time

datatype import_state = Import_running | Import_staged | Nothing_new | Import_confirmed | Import_cancelled | Import_failed

record import_row =
  im_id :: nat
  im_tarball_date :: ustr
  im_commit_sha :: ustr
  im_tarball_sha256 :: "ustr option"
  im_state :: import_state
  im_error :: "string option"
  im_requested_by :: "nat option"
  im_requested_at :: time
  im_confirmed_at :: "time option"

datatype disposition = File_new | File_known | File_collision

record staged_row =
  sr_import_id :: nat
  sr_path :: ustr
  sr_role :: data_role
  sr_name :: ustr
  sr_sha256 :: ustr
  sr_bytes :: nat
  sr_disposition :: disposition
  sr_content :: "nat list option"
  sr_object_key :: "ustr option"

record import_db =
  id_files :: "data_row list"
  id_imports :: "import_row list"
  id_staged :: "staged_row list"
  id_store :: "ustr list"
  id_audit :: "audit_row list"

section \<open>Resolving a ref\<close>

definition ref_char :: "uchar \<Rightarrow> bool" where
  "ref_char c \<longleftrightarrow> is_ascii_alnum c \<or> c \<in> {45, 95, 46, 47}"

definition well_formed_ref :: "ustr \<Rightarrow> bool" where
  "well_formed_ref git_ref \<longleftrightarrow> git_ref \<noteq> [] \<and> utf8_len git_ref \<le> 255 \<and>
     \<not> list_ex (\<lambda>s. s = [] \<or> s = lit ''.'' \<or> s = lit ''..'') (segments git_ref) \<and> list_all ref_char git_ref"

text \<open>A GitHub answer: the object's sha and type as its JSON gives them, empty where it does not; \<open>None\<close> for a 404.\<close>

type_synonym github = "ustr \<Rightarrow> (ustr \<times> ustr) option app_result"

definition is_hex_digit :: "uchar \<Rightarrow> bool" where
  "is_hex_digit c \<longleftrightarrow> is_ascii_digit c \<or> (65 \<le> c \<and> c \<le> 70) \<or> (97 \<le> c \<and> c \<le> 102)"

definition ref_object :: "ustr \<times> ustr \<Rightarrow> (ustr \<times> ustr) app_result" where
  "ref_object answer = (case answer of (sha, kind) \<Rightarrow>
     if utf8_len sha \<noteq> 40 \<or> \<not> list_all is_hex_digit sha then Inl (Bad_request ''GitHub's answer names no commit sha'')
     else Inr (sha, kind))"

text \<open>The body of an answer, read to a bound; \<open>read_json\<close> is the parser's.\<close>

definition RESOLVE_BODY_BYTES :: nat where "RESOLVE_BODY_BYTES = 64 * 1024"

fun read_answer :: "nat list option list \<Rightarrow> nat list \<Rightarrow> nat list app_result" where
  "read_answer [] body = Inr body"
| "read_answer (None # cs) body = Inl (Bad_request ''could not reach GitHub'')"
| "read_answer (Some c # cs) body =
     (if length (body @ c) > RESOLVE_BODY_BYTES then Inl (Bad_request ''GitHub's answer is larger than a ref's'')
      else read_answer cs (body @ c))"

definition github_json ::
  "(nat list \<Rightarrow> (ustr \<times> ustr) option) \<Rightarrow> nat \<times> ustr option \<times> nat list option list \<Rightarrow> (ustr \<times> ustr) option app_result" where
  "github_json read_json answer = (case answer of (status, remaining, chunks) \<Rightarrow>
     if status = 403 \<or> status = 429 then
       Inl (if remaining = Some (lit ''0'') then Bad_request ''GitHub rate limit reached'' else Bad_request ''GitHub refused the request'')
     else if status = 404 then Inr None
     else if \<not> (200 \<le> status \<and> status < 300) then Inl (Bad_request ''GitHub returned an error'')
     else and_then (read_answer chunks []) (\<lambda>body.
       and_then (ok_or (read_json body) (Bad_request ''GitHub's answer is not JSON'')) (\<lambda>v. Inr (Some v))))"

definition ref_kinds :: "ustr \<Rightarrow> ustr list \<times> ustr" where
  "ref_kinds git_ref =
     (case (strip_prefix (lit ''refs/heads/'') git_ref, strip_prefix (lit ''heads/'') git_ref) of
        (Some name, _) \<Rightarrow> ([lit ''heads''], name)
      | (None, Some name) \<Rightarrow> ([lit ''heads''], name)
      | (None, None) \<Rightarrow>
          (case (strip_prefix (lit ''refs/tags/'') git_ref, strip_prefix (lit ''tags/'') git_ref) of
             (Some name, _) \<Rightarrow> ([lit ''tags''], name)
           | (None, Some name) \<Rightarrow> ([lit ''tags''], name)
           | (None, None) \<Rightarrow> ([lit ''heads'', lit ''tags''], git_ref)))"

fun first_answer :: "github \<Rightarrow> ustr list \<Rightarrow> ustr \<Rightarrow> (ustr \<times> ustr) option app_result" where
  "first_answer github [] name = Inr None"
| "first_answer github (kind # kinds) name =
     and_then (github (lit ''git/ref/'' @ kind @ lit ''/'' @ name)) (\<lambda>answer.
       case answer of Some v \<Rightarrow> Inr (Some v) | None \<Rightarrow> first_answer github kinds name)"

fun peel_tags :: "nat \<Rightarrow> github \<Rightarrow> ustr \<times> ustr \<Rightarrow> (ustr \<times> ustr) app_result" where
  "peel_tags 0 github (sha, kind) = Inr (sha, kind)"
| "peel_tags (Suc hops) github (sha, kind) =
     (if kind \<noteq> lit ''tag'' then Inr (sha, kind)
      else and_then (github (lit ''git/tags/'' @ sha)) (\<lambda>answer.
           and_then (ok_or answer (Bad_request ''GitHub has no such tag object'')) (\<lambda>v.
           and_then (ref_object v) (peel_tags hops github))))"

definition resolve_branch_or_tag :: "github \<Rightarrow> ustr \<Rightarrow> ustr app_result" where
  "resolve_branch_or_tag github git_ref = (case ref_kinds git_ref of (kinds, name) \<Rightarrow>
     and_then (first_answer github kinds name) (\<lambda>answer.
     and_then (ok_or answer (Not_found ''no such branch or tag'')) (\<lambda>v.
     and_then (ref_object v) (\<lambda>r.
     and_then (peel_tags 4 github r) (\<lambda>(sha, kind).
       if kind = lit ''tag'' then Inl (Bad_request ''a tag of a tag more than four deep'')
       else if kind \<noteq> lit ''commit'' then Inl (Bad_request ''not a commit'')
       else Inr sha)))))"

text \<open>\<open>in_time\<close>: whether all of it was done within twenty seconds.\<close>

definition resolve_ref :: "github \<Rightarrow> bool \<Rightarrow> ustr \<Rightarrow> ustr app_result" where
  "resolve_ref github in_time git_ref =
     (if \<not> well_formed_ref git_ref
      then Inl (Invalid ''that is not a git ref name'' [(''git_ref'', ''letters, digits, '-', '_', '.' and '/' only'')])
      else if in_time then resolve_branch_or_tag github git_ref
      else Inl (Bad_request ''GitHub did not answer in time''))"

section \<open>Downloading\<close>

datatype answer = Unreachable | Status nat | Body "nat list option list"

definition chunk_suffix :: "nat \<Rightarrow> ustr" where
  "chunk_suffix index = [97 + index div 26, 97 + index mod 26]"

fun read_into :: "nat list option list \<Rightarrow> nat list \<Rightarrow> nat list app_result" where
  "read_into [] body = Inr body"
| "read_into (None # cs) body = Inl (Bad_request ''could not reach GitHub'')"
| "read_into (Some c # cs) body =
     (if length body + length c > COMPRESSED_BYTES then Inl (Bad_request ''tarball exceeds the download cap'')
      else read_into cs (body @ c))"

text \<open>From a chunk's index on: the bytes and whether there were chunks.\<close>

function download_chunks :: "(ustr \<Rightarrow> answer) \<Rightarrow> ustr \<Rightarrow> nat \<Rightarrow> nat list \<Rightarrow> (nat list \<times> bool) app_result" where
  "download_chunks fetch base index body =
     (if index \<ge> CHUNKS then Inr (body, True)
      else (case fetch (base @ lit ''.'' @ chunk_suffix index) of
          Unreachable \<Rightarrow> Inl (Bad_request ''could not reach GitHub'')
        | Status s \<Rightarrow> if s = 404 then Inr (body, index \<noteq> 0) else Inl (Bad_request ''fetching the tarball failed'')
        | Body chunks \<Rightarrow> and_then (read_into chunks body) (download_chunks fetch base (Suc index))))"
  by pat_completeness auto
termination
  by (relation "measure (\<lambda>(_, _, index, _). CHUNKS - index)") auto

declare download_chunks.simps [simp del]

definition download :: "(ustr \<Rightarrow> answer) \<Rightarrow> ustr \<Rightarrow> nat list app_result" where
  "download fetch base =
     and_then (download_chunks fetch base 0 []) (\<lambda>(body, chunked).
       if \<not> chunked then (case fetch base of
           Unreachable \<Rightarrow> Inl (Bad_request ''could not reach GitHub'')
         | Status s \<Rightarrow> if s = 404 then Inl (Not_found ''no such tarball'') else Inl (Bad_request ''fetching the tarball failed'')
         | Body chunks \<Rightarrow> read_into chunks body)
       else if body = [] then Inl (Not_found ''no tarball chunks'')
       else Inr body)"

section \<open>Staging\<close>

text \<open>\<open>calls\<close>: whether the store answers for a key at all, and whether it takes the object.\<close>

fun upload_inputs :: "ustr list \<Rightarrow> imported_file list \<Rightarrow> (ustr \<Rightarrow> bool \<times> bool) \<Rightarrow> ustr list \<times> check" where
  "upload_inputs store [] calls = (store, ok)"
| "upload_inputs store (f # fs) calls = (case (if_object_key f, if_stored f) of
     (Some key, Some bytes) \<Rightarrow>
       if \<not> fst (calls key) then (store, Inl (Internal ''the object store did not answer''))
       else if key \<in> set store then upload_inputs store fs calls
       else if snd (calls key) then upload_inputs (key # store) fs calls
       else (store, Inl (Internal ''the object store refused''))
   | _ \<Rightarrow> upload_inputs store fs calls)"

definition disposition_of :: "data_row list \<Rightarrow> imported_file \<Rightarrow> disposition" where
  "disposition_of files f =
     (if list_ex (\<lambda>r. ir_path r = if_path f \<and> ir_sha256 r = if_sha256 f) files then File_known
      else if list_ex (\<lambda>r. ir_path r = if_path f) files then File_collision else File_new)"

definition staged_of :: "nat \<Rightarrow> data_row list \<Rightarrow> imported_file \<Rightarrow> staged_row" where
  "staged_of import_id files f = \<lparr>sr_import_id = import_id, sr_path = if_path f, sr_role = if_role f, sr_name = if_name f,
     sr_sha256 = if_sha256 f, sr_bytes = if_bytes f, sr_disposition = disposition_of files f,
     sr_content = if_content f, sr_object_key = if_object_key f\<rparr>"

definition staged_key :: "staged_row \<Rightarrow> nat \<times> ustr \<times> ustr" where
  "staged_key r = (sr_import_id r, sr_path r, sr_sha256 r)"

definition stage_file :: "nat \<Rightarrow> data_row list \<Rightarrow> imported_file \<Rightarrow> staged_row list \<Rightarrow> staged_row list" where
  "stage_file import_id files f rows = (let r = staged_of import_id files f in
     if staged_key r \<in> staged_key ` set rows then rows else rows @ [r])"

definition stage_files :: "nat \<Rightarrow> imported_file list \<Rightarrow> import_db \<Rightarrow> import_db" where
  "stage_files import_id fs db = db\<lparr>id_staged := fold (stage_file import_id (id_files db)) fs (id_staged db)\<rparr>"

text \<open>
  The whole of \<open>stage\<close>: \<open>untar\<close> is the raw reader over the bytes, and \<open>later\<close> what other transactions commit
  between the walk and the uploads, and between the uploads and the rows.
\<close>

definition stage ::
  "(nat list \<Rightarrow> ustr) \<Rightarrow> (ustr \<Rightarrow> answer) \<Rightarrow> (nat list \<Rightarrow> tar_entry option list) \<Rightarrow> (ustr \<Rightarrow> bool \<times> bool) \<Rightarrow> ustr \<Rightarrow> nat \<Rightarrow>
    (import_db \<Rightarrow> import_db) \<times> (import_db \<Rightarrow> import_db) \<Rightarrow> import_db \<Rightarrow> import_db \<times> ustr app_result" where
  "stage sha256 fetch untar calls base import_id later db = (case and_then (download fetch base) (\<lambda>body.
       and_then (walk_archive sha256 (length body) (untar body)) (\<lambda>files. Inr (body, files))) of
     Inl e \<Rightarrow> (db, Inl e)
   | Inr (body, files) \<Rightarrow>
       let db1 = fst later db in
       (case upload_inputs (id_store db1) files calls of (store, r) \<Rightarrow>
          let db2 = db1\<lparr>id_store := store\<rparr> in
          (case r of Inl e \<Rightarrow> (db2, Inl e) | Inr _ \<Rightarrow> (stage_files import_id files (snd later db2), Inr (sha256 body)))))"

definition log_import :: "ustr \<Rightarrow> nat option \<Rightarrow> nat \<Rightarrow> audit_row list \<Rightarrow> audit_row list" where
  "log_import action actor import_id = audit_log action (map_option By_user actor) (Some (lit ''input_data_import'', import_id)) None"

definition finish_staging :: "nat \<Rightarrow> ustr \<Rightarrow> import_db \<Rightarrow> import_db" where
  "finish_staging import_id tarball_sha256 db =
     (let running = (\<lambda>m. im_id m = import_id \<and> im_state m = Import_running);
          news = list_ex (\<lambda>r. sr_import_id r = import_id \<and> sr_disposition r \<noteq> File_known) (id_staged db);
          to = (if news then Import_staged else Nothing_new)
      in db\<lparr>id_imports := update_where running (\<lambda>m. m\<lparr>im_tarball_sha256 := Some tarball_sha256, im_state := to\<rparr>) (id_imports db),
           id_audit := (case find running (id_imports db) of
               Some m \<Rightarrow> if to = Nothing_new then log_import (lit ''input_data.import_nothing_new'') (im_requested_by m) import_id (id_audit db)
                 else id_audit db
             | None \<Rightarrow> id_audit db)\<rparr>)"

definition fail_import :: "nat \<Rightarrow> string \<Rightarrow> import_db \<Rightarrow> import_db" where
  "fail_import import_id why db = db\<lparr>id_imports := update_where (\<lambda>m. im_id m = import_id \<and> im_state m = Import_running)
     (\<lambda>m. m\<lparr>im_state := Import_failed, im_error := Some why\<rparr>) (id_imports db)\<rparr>"

text \<open>The end of \<open>run_import\<close>: what \<open>stage\<close> answered, or that it ran past its limit; an error's message is a parameter.\<close>

definition end_import :: "(app_error \<Rightarrow> string) \<Rightarrow> nat \<Rightarrow> ustr app_result option \<Rightarrow> import_db \<Rightarrow> import_db" where
  "end_import message import_id staged db = (case staged of
     None \<Rightarrow> fail_import import_id ''the import did not finish in time; start it again'' db
   | Some (Inl e) \<Rightarrow> fail_import import_id (message e) db
   | Some (Inr tarball_sha256) \<Rightarrow> finish_staging import_id tarball_sha256 db)"

definition UNCONFIRMED_IMPORT_TTL :: time where "UNCONFIRMED_IMPORT_TTL = 24 * 60 * 60 * 1000000"

definition expire_unconfirmed_imports :: "time \<Rightarrow> import_db \<Rightarrow> import_db \<times> nat" where
  "expire_unconfirmed_imports now db =
     (let old = (\<lambda>m. im_state m = Import_staged \<and> im_requested_at m < now - UNCONFIRMED_IMPORT_TTL);
          expired = map im_id (filter old (id_imports db))
      in (db\<lparr>id_imports := update_where old (\<lambda>m. m\<lparr>im_state := Import_cancelled,
               im_error := Some ''not confirmed within 24 hours; start the import again to review it''\<rparr>) (id_imports db),
             id_staged := filter (\<lambda>r. sr_import_id r \<notin> set expired) (id_staged db)\<rparr>, length expired))"

definition fail_orphaned_imports :: "import_db \<Rightarrow> import_db \<times> nat" where
  "fail_orphaned_imports db =
     (let running = (\<lambda>m. im_state m = Import_running) in
      (db\<lparr>id_imports := update_where running (\<lambda>m. m\<lparr>im_state := Import_failed,
          im_error := Some ''the server restarted while this import was running''\<rparr>) (id_imports db)\<rparr>,
       length (filter running (id_imports db))))"

section \<open>Admin routes\<close>

definition start_import ::
  "github \<Rightarrow> bool \<Rightarrow> user_row \<Rightarrow> check \<Rightarrow> ustr \<Rightarrow> ustr \<Rightarrow> nat \<Rightarrow> time \<Rightarrow> import_db \<Rightarrow> import_db app_result" where
  "start_import github in_time admin csrf date git_ref import_id now db =
     and_then csrf (\<lambda>_.
       let tarball_date = trim date in
       if utf8_len tarball_date \<noteq> 8 \<or> \<not> list_all is_ascii_digit tarball_date then Inl (Bad_request ''tarball_date must be YYYYMMDD'')
       else and_then (resolve_ref github in_time git_ref) (\<lambda>commit_sha.
         Inr (db\<lparr>id_imports := id_imports db @ [\<lparr>im_id = import_id, im_tarball_date = tarball_date, im_commit_sha = commit_sha,
             im_tarball_sha256 = None, im_state = Import_running, im_error = None, im_requested_by = Some (us_id admin),
             im_requested_at = now, im_confirmed_at = None\<rparr>],
           id_audit := log_import (lit ''input_data.import_staged'') (Some (us_id admin)) import_id (id_audit db)\<rparr>)))"

text \<open>\<open>ids\<close> draws an identifier for each row inserted.\<close>

definition data_row_of :: "ustr \<Rightarrow> nat \<Rightarrow> time \<Rightarrow> nat \<Rightarrow> staged_row \<Rightarrow> data_row" where
  "data_row_of tarball_date admin now file_id r = \<lparr>ir_id = file_id, ir_path = sr_path r, ir_role = sr_role r, ir_name = sr_name r,
     ir_sha256 = sr_sha256 r, ir_bytes = sr_bytes r, ir_tarball_date = tarball_date, ir_content = sr_content r,
     ir_object_key = sr_object_key r, ir_imported_by = Some admin, ir_imported_at = now\<rparr>"

definition input_key :: "data_row \<Rightarrow> ustr \<times> ustr" where
  "input_key r = (ir_path r, ir_sha256 r)"

definition insert_input :: "data_row \<Rightarrow> data_row list \<Rightarrow> data_row list" where
  "insert_input r files = (if input_key r \<in> input_key ` set files then files else files @ [r])"

definition confirm_import ::
  "user_row \<Rightarrow> check \<Rightarrow> nat \<Rightarrow> (staged_row \<Rightarrow> nat) \<Rightarrow> time \<Rightarrow> import_db \<Rightarrow> (import_db \<times> nat) app_result" where
  "confirm_import admin csrf import_id ids now db =
     and_then csrf (\<lambda>_.
     and_then (ok_or (row_with im_id import_id (id_imports db)) (Not_found ''no such import'')) (\<lambda>m.
       if im_state m = Nothing_new then Inl (Conflict ''this import has nothing new to insert'')
       else if im_state m \<noteq> Import_staged then Inl (Conflict ''this import is not staged'')
       else
         let proposed = filter (\<lambda>r. sr_import_id r = import_id \<and> sr_disposition r \<noteq> File_known) (id_staged db);
             files = fold (\<lambda>r. insert_input (data_row_of (im_tarball_date m) (us_id admin) now (ids r) r)) proposed (id_files db)
         in Inr (db\<lparr>id_files := files,
             id_imports := update_key im_id import_id (\<lambda>m. m\<lparr>im_state := Import_confirmed, im_confirmed_at := Some now\<rparr>) (id_imports db),
             id_audit := log_import (lit ''input_data.import_confirmed'') (Some (us_id admin)) import_id (id_audit db)\<rparr>,
           length files - length (id_files db))))"

text \<open>What pins a file: jobs and rating pools a distribution and a layout, players a lexicon, leaves and a win% model.\<close>

record pins =
  pi_jobs :: "(nat \<times> nat) list"
  pi_players :: "(nat \<times> nat option \<times> nat option) list"
  pi_pools :: "(nat \<times> nat) list"

definition file_references :: "pins \<Rightarrow> nat \<Rightarrow> int" where
  "file_references p file_id =
     count_where (\<lambda>(letterdist, layout). letterdist = file_id \<or> layout = file_id) (pi_jobs p) +
     count_where (\<lambda>(kwg, klv, winpct). kwg = file_id \<or> klv = Some file_id \<or> winpct = Some file_id) (pi_players p) +
     count_where (\<lambda>(letterdist, layout). letterdist = file_id \<or> layout = file_id) (pi_pools p)"

text \<open>\<open>pinned\<close> is what a job, a player or a pool pins by the time of the delete; the derived rows are their three files.\<close>

definition delete_input_data ::
  "user_row \<Rightarrow> check \<Rightarrow> nat \<Rightarrow> pins \<Rightarrow> pins \<Rightarrow> import_db \<times> (nat \<times> nat option \<times> nat) list \<Rightarrow>
    (import_db \<times> (nat \<times> nat option \<times> nat) list) app_result" where
  "delete_input_data admin csrf file_id counted pinned st = (case st of (db, built) \<Rightarrow>
     and_then csrf (\<lambda>_.
       if file_references counted file_id > 0 then Inl (Conflict ''this file is pinned'')
       else if file_references pinned file_id > 0 then Inl (Conflict ''that is still referenced by other records'')
       else if row_with ir_id file_id (id_files db) = None then Inl (Not_found ''no such input data row'')
       else Inr (db\<lparr>id_files := filter (\<lambda>r. ir_id r \<noteq> file_id) (id_files db),
             id_audit := audit_log (lit ''input_data.deleted'') (Some (By_user (us_id admin)))
               (Some (lit ''input_data'', file_id)) None (id_audit db)\<rparr>,
           filter (\<lambda>(kwg, klv, letterdist). kwg \<noteq> file_id \<and> klv \<noteq> Some file_id \<and> letterdist \<noteq> file_id) built)))"

text \<open>\<open>collate\<close> ranks text as the database orders it.\<close>

definition role_text :: "data_role \<Rightarrow> ustr" where
  "role_text role = (case role of Kwg \<Rightarrow> lit ''kwg'' | Klv \<Rightarrow> lit ''klv'' | Letterdist \<Rightarrow> lit ''letterdist''
     | Layout \<Rightarrow> lit ''layout'' | Winpct \<Rightarrow> lit ''winpct'')"

definition list_input_data :: "(ustr \<Rightarrow> int) \<Rightarrow> pins \<Rightarrow> import_db \<Rightarrow> (data_row \<times> int) list" where
  "list_input_data collate p db = map (\<lambda>r. (r, file_references p (ir_id r)))
     (sort_key (\<lambda>r. - collate (ir_tarball_date r)) (sort_key (\<lambda>r. collate (role_text (ir_role r)))
       (sort_key (\<lambda>r. collate (ir_name r)) (id_files db))))"

definition disposition_text :: "disposition \<Rightarrow> ustr" where
  "disposition_text d = (case d of File_new \<Rightarrow> lit ''new'' | File_known \<Rightarrow> lit ''known'' | File_collision \<Rightarrow> lit ''collision'')"

definition get_import :: "(ustr \<Rightarrow> int) \<Rightarrow> nat \<Rightarrow> import_db \<Rightarrow> (import_row \<times> staged_row list) app_result" where
  "get_import collate import_id db =
     and_then (ok_or (row_with im_id import_id (id_imports db)) (Not_found ''no such import'')) (\<lambda>m.
       Inr (m, sort_key (\<lambda>r. collate (disposition_text (sr_disposition r))) (sort_key (\<lambda>r. collate (sr_path r))
         (filter (\<lambda>r. sr_import_id r = import_id) (id_staged db)))))"

end
