(* ===== verification/Archive_Spec.thy ===== *)
theory Archive_Spec
  imports Archive Racks_Spec
begin

text \<open>
  What the walk of a tarball promises: the records of a PAX header are read as POSIX defines them, and what is
  imported are pinned files, each once, hashed from a regular entry's own bytes, within the walk's bounds.
\<close>

section \<open>PAX records\<close>

text \<open>\<open><length> <key>=<value>\n\<close>, the length that of the whole record; the value may hold anything.\<close>

definition spells_record :: "nat list \<times> nat list \<Rightarrow> nat list \<Rightarrow> bool" where
  "spells_record r bs \<longleftrightarrow> (\<exists>digits. bs = digits @ 32 # fst r @ 61 # snd r @ [10] \<and> digits \<noteq> [] \<and>
     list_all is_ascii_digit digits \<and> digits_value digits = int (length bs) \<and> 61 \<notin> set (fst r) \<and>
     hd (fst r @ [61]) \<notin> {32, 9})"

lemma digit_not_space: "list_all is_ascii_digit ds \<Longrightarrow> 32 \<notin> set ds"
  by (auto simp: list_all_iff is_ascii_digit_def)

lemma takeWhile_up_to: "x \<notin> set ds \<Longrightarrow> takeWhile (\<lambda>b. b \<noteq> x) (ds @ x # r) = ds"
  "x \<notin> set ds \<Longrightarrow> dropWhile (\<lambda>b. b \<noteq> x) (ds @ x # r) = x # r"
  by (induction ds) auto

lemma split_at: "x \<in> set bs \<Longrightarrow> \<exists>r. bs = takeWhile (\<lambda>b. b \<noteq> x) bs @ x # r"
  by (induction bs) auto

lemma pax_record_spelled:
  assumes "spells_record r piece" "int (length piece) \<le> u64_max"
  shows "pax_record (piece @ rest) = Inr (fst r, snd r, length piece)"
proof -
  obtain key val where r: "r = (key, val)" by (cases r)
  from assms(1) obtain ds where ds: "piece = ds @ 32 # key @ 61 # val @ [10]" "ds \<noteq> []" "list_all is_ascii_digit ds"
    "digits_value ds = int (length piece)" "61 \<notin> set key" "hd (key @ [61]) \<notin> {32, 9}"
    unfolding spells_record_def r by auto
  have digits: "takeWhile (\<lambda>b. b \<noteq> 32) (piece @ rest) = ds"
    using takeWhile_up_to(1) [OF digit_not_space [OF ds(3)]] by (simp add: ds(1))
  have n: "parse_unsigned u64_max ds = Some (int (length piece))"
    using parse_unsigned_digits [OF ds(3,2), of u64_max] ds(4) assms(2) by simp
  have body: "drop (length ds + 1) (take (length piece - 1) (piece @ rest)) = key @ 61 # val"
    by (simp add: ds(1))
  have line: "(piece @ rest) ! (length piece - 1) = 10"
    by (simp add: ds(1) nth_append)
  have len: "length ds + 1 < length piece" "length piece \<le> length (piece @ rest)" by (simp_all add: ds(1))
  have parts: "takeWhile (\<lambda>b. b \<noteq> 61) (key @ 61 # val) = key" "tl (dropWhile (\<lambda>b. b \<noteq> 61) (key @ 61 # val)) = val"
    using takeWhile_up_to [OF ds(5)] by simp_all
  have first: "hd (key @ 61 # val) \<notin> {32, 9}" using ds(6) by (cases key) simp_all
  show ?thesis
    unfolding pax_record_def digits Let_def n option.case nat_int body line
    using ds(1-3) len parts first by (simp add: r)
qed

lemma pax_record_spells:
  assumes "pax_record bs = Inr (key, val, n)"
  shows "spells_record (key, val) (take n bs)"
proof -
  let ?ds = "takeWhile (\<lambda>b. b \<noteq> 32) bs"
  let ?body = "drop (length ?ds + 1) (take (n - 1) bs)"
  from assms have sp: "32 \<in> set bs" and ds: "?ds \<noteq> []" "list_all is_ascii_digit ?ds"
    and n: "parse_unsigned u64_max ?ds = Some (int n)" "length ?ds + 1 < n" "n \<le> length bs" "bs ! (n - 1) = 10"
    and body: "\<not> (?body \<noteq> [] \<and> hd ?body \<in> {32, 9})" "61 \<in> set ?body"
      "key = takeWhile (\<lambda>b. b \<noteq> 61) ?body" "val = tl (dropWhile (\<lambda>b. b \<noteq> 61) ?body)"
    by (auto simp: pax_record_def Let_def parse_unsigned_digits split: if_splits option.splits)
  have dv: "digits_value ?ds = int n"
    using n(1) parse_unsigned_digits [OF ds(2,1), of u64_max] by (simp split: if_splits)
  from split_at [OF sp] obtain r where r: "bs = ?ds @ 32 # r" by blast
  from split_at [OF body(2)] obtain v where v: "?body = takeWhile (\<lambda>b. b \<noteq> 61) ?body @ 61 # v" by blast
  have kv: "?body = key @ 61 # val"
    using v body(3,4) takeWhile_up_to(2) [of 61 "takeWhile (\<lambda>b. b \<noteq> 61) ?body" v]
    by (metis list.sel(3) set_takeWhileD)
  have "take n bs = take (n - 1) bs @ [bs ! (n - 1)]"
    using n(2,3) by (metis Suc_diff_1 add_lessD1 less_imp_diff_less less_nat_zero_code not_gr_zero order_less_le_trans
        diff_less less_one take_Suc_conv_app_nth)
  also have "take (n - 1) bs = take (length ?ds + 1) (take (n - 1) bs) @ ?body" by (simp only: append_take_drop_id)
  also have "take (length ?ds + 1) (take (n - 1) bs) = ?ds @ [32]"
  proof -
    have "take (length ?ds + 1) (?ds @ 32 # r) = ?ds @ [32]" by simp
    with r have "take (length ?ds + 1) bs = ?ds @ [32]" by simp
    then show ?thesis using n(2) by (simp add: min_def)
  qed
  finally have t: "take n bs = ?ds @ 32 # key @ 61 # val @ [10]" using kv n(4) by simp
  have len: "length (take n bs) = n" using n(3) by simp
  have key: "61 \<notin> set key" using body(3) by (auto dest: set_takeWhileD)
  have "hd (key @ [61]) \<notin> {32, 9}" using body(1) kv by (cases key) auto
  then show ?thesis unfolding spells_record_def using t ds dv len key by auto
qed

lemma pax_records_sound:
  "pax_records data = Inr rs \<Longrightarrow> \<exists>pieces. data = concat pieces \<and> list_all2 spells_record rs pieces"
proof (induction data arbitrary: rs rule: pax_records.induct)
  case (1 data)
  show ?case
  proof (cases "data = []")
    case True
    with 1(2) have "rs = []" by (simp add: pax_records.simps)
    with True show ?thesis by (intro exI [of _ "[]"]) simp
  next
    case False
    with 1(2) obtain key val n where p: "pax_record data = Inr (key, val, n)"
      by (subst (asm) pax_records.simps) (auto split: sum.splits prod.splits)
    with False 1(2) obtain rs' where rs': "pax_records (drop n data) = Inr rs'" "rs = (key, val) # rs'"
      by (subst (asm) pax_records.simps) (auto simp: and_then_Inr)
    from 1(1) [OF False p refl refl rs'(1)] obtain pieces where "drop n data = concat pieces" "list_all2 spells_record rs' pieces"
      by blast
    then show ?thesis
      using pax_record_spells [OF p] rs'(2) append_take_drop_id [of n data]
      by (intro exI [of _ "take n data # pieces"]) (metis concat.simps(2) list.rel_inject(2))
  qed
qed

lemma pax_records_complete:
  assumes "list_all2 spells_record rs pieces" "int (length (concat pieces)) \<le> u64_max"
  shows "pax_records (concat pieces) = Inr rs"
  using assms
proof (induction rs pieces rule: list_all2_induct)
  case Nil
  then show ?case by (simp add: pax_records.simps)
next
  case (Cons r rs piece pieces)
  have "piece \<noteq> []" using Cons(1) by (auto simp: spells_record_def)
  moreover have "pax_record (piece @ concat pieces) = Inr (fst r, snd r, length piece)"
    by (rule pax_record_spelled [OF Cons(1)]) (use Cons(4) in simp)
  moreover have "pax_records (concat pieces) = Inr rs" by (rule Cons(3)) (use Cons(4) in simp)
  ultimately show ?case by (subst pax_records.simps) (simp add: and_then_Inr)
qed

section \<open>What is imported\<close>

definition pinned :: "ustr \<Rightarrow> data_role \<Rightarrow> ustr \<Rightarrow> bool" where
  "pinned path role name \<longleftrightarrow> classify (lit ''data/'' @ path) = Some (path, role, name)"

text \<open>The bytes of a file that are held, for its row or for the object store.\<close>

definition held_bytes :: "imported_file \<Rightarrow> nat" where
  "held_bytes f = (case if_content f of None \<Rightarrow> 0 | Some c \<Rightarrow> length c) + (case if_stored f of None \<Rightarrow> 0 | Some b \<Rightarrow> length b)"

text \<open>The file is the bytes of a regular entry, hashed, and what its role keeps of them.\<close>

definition file_of_bytes :: "(nat list \<Rightarrow> ustr) \<Rightarrow> nat list \<Rightarrow> imported_file \<Rightarrow> bool" where
  "file_of_bytes sha256 bytes f \<longleftrightarrow> if_sha256 f = sha256 bytes \<and> if_bytes f = length bytes \<and> length bytes \<le> ENTRY_BYTES \<and>
     if_content f = (if keeps_content (if_role f) then Some bytes else None) \<and>
     (keeps_content (if_role f) \<longrightarrow> length bytes \<le> CONTENT_BYTES) \<and>
     if_object_key f = (if stores_object (if_role f) then Some (input_object_key (sha256 bytes)) else None) \<and>
     (if_stored f = None \<or> if_stored f = Some bytes \<and> stores_object (if_role f))"

definition from_entry :: "(nat list \<Rightarrow> ustr) \<Rightarrow> tar_entry option list \<Rightarrow> imported_file \<Rightarrow> bool" where
  "from_entry sha256 es f \<longleftrightarrow> pinned (if_path f) (if_role f) (if_name f) \<and>
     (\<exists>e bytes. Some e \<in> set es \<and> te_type e = Regular \<and> te_data e = Some bytes \<and> file_of_bytes sha256 bytes f)"

lemma strip_prefix_Some: "strip_prefix p s = Some r \<longleftrightarrow> s = p @ r"
  by (auto simp: strip_prefix_def) (metis append_take_drop_id)

lemma split_once_Some: "split_once c s = Some (a, b) \<Longrightarrow> s = a @ c # b"
  using split_at [of c s] by (auto simp: split_once_def dropWhile_eq_Cons_conv split: if_splits)
    (metis list.sel(3) takeWhile_up_to(2) set_takeWhileD)

lemma classify_pinned:
  assumes "classify path = Some (mapped, role, name)"
  shows "path = lit ''data/'' @ mapped" "pinned mapped role name" "importable_name name"
proof -
  from assms obtain rest dir basename where r: "strip_prefix (lit ''data/'') path = Some rest"
    and sp: "split_once 47 rest = Some (dir, basename)" and m: "mapped = dir @ [47] @ basename"
    and n: "importable_name name"
    by (auto simp: classify_def split: option.splits prod.splits if_splits)
  from split_once_Some [OF sp] m have "rest = mapped" by simp
  with r show p: "path = lit ''data/'' @ mapped" by (simp add: strip_prefix_Some)
  show "pinned mapped role name" using assms unfolding pinned_def p .
  show "importable_name name" by (fact n)
qed

text \<open>Whatever names an object has its bytes beside it, its own or those of another file with the same key.\<close>

definition bytes_in_hand :: "imported_file list \<Rightarrow> bool" where
  "bytes_in_hand files \<longleftrightarrow> (\<forall>f\<in>set files. if_object_key f \<noteq> None \<longrightarrow>
     (\<exists>g\<in>set files. if_object_key g = if_object_key f \<and> if_stored g \<noteq> None))"

lemma bytes_in_hand_stored:
  "bytes_in_hand files \<Longrightarrow> (if_object_key f \<noteq> None \<Longrightarrow> if_stored f \<noteq> None) \<Longrightarrow> bytes_in_hand (files @ [f])"
  by (auto simp: bytes_in_hand_def)

lemma bytes_in_hand_alias:
  "bytes_in_hand files \<Longrightarrow> f \<in> set files \<Longrightarrow> if_object_key a = if_object_key f \<Longrightarrow> bytes_in_hand (files @ [a])"
  by (auto simp: bytes_in_hand_def)

definition walk_ok :: "(nat list \<Rightarrow> ustr) \<Rightarrow> tar_entry option list \<Rightarrow> tar_walk \<Rightarrow> bool" where
  "walk_ok sha256 es w \<longleftrightarrow> distinct (map if_path (wa_files w) @ map ln_path (wa_links w)) \<and>
     set (wa_seen w) = if_path ` set (wa_files w) \<union> ln_path ` set (wa_links w) \<and>
     (\<forall>f\<in>set (wa_files w). from_entry sha256 es f) \<and>
     (\<forall>l\<in>set (wa_links w). pinned (ln_path l) (ln_role l) (ln_name l)) \<and>
     sum_list (map held_bytes (wa_files w)) \<le> wa_total w \<and> wa_total w \<le> UNCOMPRESSED_BYTES \<and> bytes_in_hand (wa_files w)"

text \<open>An extension header changes nothing of what has been read.\<close>

definition same_reading :: "tar_walk \<Rightarrow> tar_walk \<Rightarrow> bool" where
  "same_reading w w' \<longleftrightarrow> wa_files w' = wa_files w \<and> wa_links w' = wa_links w \<and> wa_seen w' = wa_seen w \<and> wa_total w' = wa_total w"

lemma set_next_reading: "set_next_path t w = Inr w' \<Longrightarrow> same_reading w w'" "set_next_link t w = Inr w' \<Longrightarrow> same_reading w w'"
  by (auto simp: set_next_path_def set_next_link_def same_reading_def split: if_splits)

lemma apply_pax_reading: "apply_pax t rs w = Inr w' \<Longrightarrow> same_reading w w'"
proof (induction t rs w rule: apply_pax.induct)
  case (1 t w)
  then show ?case by (simp add: same_reading_def)
next
  case (2 t raw_key val rs w)
  show ?case
  proof (cases "from_utf8_lossy raw_key = lit ''path'' \<or> from_utf8_lossy raw_key = lit ''linkpath''")
    case True
    with 2(3) obtain w1 where
      "(if from_utf8_lossy raw_key = lit ''path'' then set_next_path else set_next_link) (from_utf8_lossy val) w = Inr w1"
      and rest: "apply_pax t rs w1 = Inr w'" and c: "\<not> (from_utf8_lossy raw_key = lit ''size'' \<or> starts_with (from_utf8_lossy raw_key) (lit ''GNU.sparse''))"
        "t \<noteq> Pax_global" "0 \<notin> set val"
      by (auto simp: Let_def and_then_Inr split: if_splits)
    then have "same_reading w w1" by (auto split: if_splits dest: set_next_reading)
    moreover have "same_reading w1 w'" by (rule 2(1)) (use True c rest in auto)
    ultimately show ?thesis by (simp add: same_reading_def)
  next
    case False
    with 2(3) have "\<not> (from_utf8_lossy raw_key = lit ''size'' \<or> starts_with (from_utf8_lossy raw_key) (lit ''GNU.sparse''))"
      and "apply_pax t rs w = Inr w'"
      by (auto simp: Let_def split: if_splits)
    with False show ?thesis by (intro 2(2)) auto
  qed
qed

lemma walk_extension_reading: "walk_extension e w = Inr w' \<Longrightarrow> same_reading w w'"
proof (cases "te_data e")
  case (Some bytes)
  assume w: "walk_extension e w = Inr w'"
  show ?thesis
  proof (cases "is_pax (te_type e)")
    case True
    with w Some obtain rs where "apply_pax (te_type e) rs (if te_type e = Pax_local then w\<lparr>wa_pax_pending := True\<rparr> else w) = Inr w'"
      by (auto simp: walk_extension_def Let_def and_then_Inr split: if_splits)
    from apply_pax_reading [OF this] show ?thesis by (simp add: same_reading_def split: if_splits)
  next
    case False
    with w Some show ?thesis by (auto simp: walk_extension_def Let_def split: if_splits dest: set_next_reading)
  qed
qed (simp add: walk_extension_def)

lemma walk_ok_same: "walk_ok sha256 es w \<Longrightarrow> same_reading w w' \<Longrightarrow> walk_ok sha256 es w'"
  by (simp add: walk_ok_def same_reading_def)

lemma walk_link_ok:
  assumes "walk_ok sha256 es w" "walk_link path target w = Inr w'"
  shows "walk_ok sha256 es w'" "wa_total w' = wa_total w"
proof -
  have "walk_ok sha256 es w' \<and> wa_total w' = wa_total w"
  proof (cases "classify path")
    case None
    with assms show ?thesis by (simp add: walk_link_def)
  next
    case (Some c)
    obtain mapped role name where c: "c = (mapped, role, name)" by (cases c)
    with assms(2) Some obtain resolved where new: "mapped \<notin> set (wa_seen w)"
      and w': "w' = w\<lparr>wa_seen := mapped # wa_seen w, wa_links := wa_links w @ [\<lparr>ln_path = mapped, ln_role = role, ln_name = name,
           ln_written = target, ln_target = resolved\<rparr>]\<rparr>"
      by (auto simp: walk_link_def split: option.splits if_splits)
    have "pinned mapped role name" using classify_pinned(2) Some c by blast
    then show ?thesis using assms(1) new unfolding walk_ok_def w' by auto
  qed
  then show "walk_ok sha256 es w'" "wa_total w' = wa_total w" by simp_all
qed

lemma held_imported: "held_bytes (imported sha256 path role name bytes) \<le> length bytes"
  by (auto simp: held_bytes_def imported_def keeps_content_def stores_object_def)

lemma imported_of_bytes:
  assumes "length bytes \<le> ENTRY_BYTES" "keeps_content role \<Longrightarrow> length bytes \<le> CONTENT_BYTES"
  shows "file_of_bytes sha256 bytes (imported sha256 path role name bytes)"
  using assms by (auto simp: file_of_bytes_def imported_def)

lemma walk_file_ok:
  assumes ok: "walk_ok sha256 es (w\<lparr>wa_total := before\<rparr>)" and before: "before + n \<le> wa_total w" "wa_total w \<le> UNCOMPRESSED_BYTES"
    and e: "Some e \<in> set es" "te_type e = Regular" and w': "walk_file sha256 path n e w = Inr w'"
  shows "walk_ok sha256 es w'"
proof (cases "classify path")
  case None
  with w' have "w' = w" by (simp add: walk_file_def split: if_splits)
  then show ?thesis using ok before unfolding walk_ok_def by auto
next
  case (Some c)
  obtain mapped role name where c: "c = (mapped, role, name)" by (cases c)
  with w' Some obtain bytes where new: "mapped \<notin> set (wa_seen w)" and n: "n \<le> ENTRY_BYTES"
    and small: "\<not> (keeps_content role \<and> n > CONTENT_BYTES)" and len: "length (take (ENTRY_BYTES + 1) bytes) = n"
    and data: "te_data e = Some bytes"
    and w': "w' = w\<lparr>wa_seen := mapped # wa_seen w,
        wa_files := wa_files w @ [imported sha256 mapped role name (take (ENTRY_BYTES + 1) bytes)]\<rparr>"
    unfolding walk_file_def by (auto simp: Let_def split: option.splits if_splits)
  have whole: "take (ENTRY_BYTES + 1) bytes = bytes" using len n by (simp add: min_def split: if_splits)
  let ?f = "imported sha256 mapped role name bytes"
  have fields: "if_path ?f = mapped" "if_role ?f = role" "if_name ?f = name" by (simp_all add: imported_def)
  have "pinned mapped role name" using classify_pinned(2) Some c by blast
  moreover have "file_of_bytes sha256 bytes ?f"
    by (rule imported_of_bytes) (use len n small whole in auto)
  ultimately have f: "from_entry sha256 es ?f" unfolding from_entry_def fields using e data by blast
  have "held_bytes ?f \<le> n" using held_imported [of sha256 mapped role name bytes] len whole by simp
  then have sum: "sum_list (map held_bytes (wa_files w @ [?f])) \<le> wa_total w"
    using ok before by (simp add: walk_ok_def)
  have "bytes_in_hand (wa_files w @ [?f])"
    by (rule bytes_in_hand_stored) (use ok in \<open>auto simp: walk_ok_def imported_def split: if_splits\<close>)
  then show ?thesis
    using ok new f sum before(2) unfolding walk_ok_def w' whole by (auto simp: fields)
qed

lemma check_expansion_ok: "check_expansion n compressed = ok \<Longrightarrow> n \<le> UNCOMPRESSED_BYTES"
  by (auto simp: check_expansion_def split: if_splits)

lemma walk_named_ok:
  assumes ok: "walk_ok sha256 es (w\<lparr>wa_total := before\<rparr>)" and "before + n \<le> wa_total w" "wa_total w \<le> UNCOMPRESSED_BYTES"
    and e: "Some e \<in> set es" and w': "walk_named sha256 n e w = Inr w'"
  shows "walk_ok sha256 es w'"
proof -
  let ?w1 = "w\<lparr>wa_next_path := None, wa_next_link := None, wa_pax_pending := False\<rparr>"
  have ok1: "walk_ok sha256 es (?w1\<lparr>wa_total := before\<rparr>)" using ok by (simp add: walk_ok_def)
  have ok2: "walk_ok sha256 es ?w1" using ok assms(2,3) by (auto simp: walk_ok_def)
  consider "w' = ?w1" | path where "te_type e = Regular \<or> te_type e = Symlink" "walk_path sha256 n e (wa_next_link w) path ?w1 = Inr w'"
    using w' unfolding walk_named_def Let_def and_then_Inr by (auto simp: and_then_Inr split: if_splits)
  then consider "w' = ?w1"
    | path target where "walk_link path target ?w1 = Inr w'"
    | path where "te_type e = Regular" "walk_file sha256 path n e ?w1 = Inr w'"
    by cases (auto simp: walk_path_def split: if_splits)
  then show ?thesis
  proof cases
    case 1 then show ?thesis using ok2 by simp
  next
    case 2 then show ?thesis using walk_link_ok(1) [OF ok2] by blast
  next
    case 3
    then show ?thesis using walk_file_ok [OF ok1 _ _ e] assms(2,3) by simp
  qed
qed

lemma limits: "UNCOMPRESSED_BYTES + ENTRY_BYTES < 2 ^ 64" "EXTENSION_BYTES \<le> ENTRY_BYTES"
  by (simp_all add: UNCOMPRESSED_BYTES_def ENTRY_BYTES_def EXTENSION_BYTES_def)

lemma walk_entry_ok:
  assumes ok: "walk_ok sha256 es w" and e: "Some e \<in> set es" and w': "walk_entry sha256 compressed e w = Inr w'"
  shows "walk_ok sha256 es w'"
proof -
  let ?w1 = "w\<lparr>wa_count := wa_count w + (if is_extension (te_type e) then 0 else 1)\<rparr>"
  from w' obtain n where n: "\<not> (is_extension (te_type e) \<and> n > EXTENSION_BYTES)" "\<not> (te_type e = Regular \<and> n > ENTRY_BYTES)"
    and exp: "check_expansion ((wa_total w + n) mod 2 ^ 64) compressed = ok"
    and res: "(if is_extension (te_type e) then walk_extension e (?w1\<lparr>wa_total := (wa_total w + n) mod 2 ^ 64\<rparr>)
        else walk_named sha256 n e (?w1\<lparr>wa_total := (wa_total w + n) mod 2 ^ 64\<rparr>)) = Inr w'"
    unfolding walk_entry_def Let_def by (auto simp: and_then_Inr and_then_check_Inr ok_or_def split: if_splits option.splits)
  let ?t = "(wa_total w + n) mod 2 ^ 64"
  have cap: "?t \<le> UNCOMPRESSED_BYTES" by (rule check_expansion_ok [OF exp])
  have old: "wa_total w \<le> UNCOMPRESSED_BYTES" using ok by (simp add: walk_ok_def)
  show ?thesis
  proof (cases "is_extension (te_type e)")
    case True
    with n(1) limits old have "?t = wa_total w + n" by (intro mod_less) linarith
    with ok cap have "walk_ok sha256 es (?w1\<lparr>wa_total := ?t\<rparr>)" by (simp add: walk_ok_def)
    moreover have "walk_extension e (?w1\<lparr>wa_total := ?t\<rparr>) = Inr w'" using res True by (simp only: if_True)
    ultimately show ?thesis using walk_ok_same walk_extension_reading by blast
  next
    case False
    have "n = 0 \<or> te_type e = Regular"
      using res False by (auto simp: walk_named_def Let_def split: if_splits)
    with n(2) have "n \<le> ENTRY_BYTES" by auto
    with limits old have t: "?t = wa_total w + n" by (intro mod_less) linarith
    have before: "walk_ok sha256 es (?w1\<lparr>wa_total := ?t\<rparr>\<lparr>wa_total := wa_total w\<rparr>)" using ok by (simp add: walk_ok_def)
    show ?thesis
      by (rule walk_named_ok [OF before _ _ e]) (use res False t cap in simp_all)
  qed
qed

lemma walk_entries_ok:
  assumes "walk_ok sha256 es w" "set rest \<subseteq> set es" "walk_entries sha256 compressed rest w = Inr w'"
  shows "walk_ok sha256 es w'"
  using assms
proof (induction sha256 compressed rest w rule: walk_entries.induct)
  case (3 sha256 compressed e rest w)
  then obtain w1 where w1: "walk_entry sha256 compressed e w = Inr w1" "walk_entries sha256 compressed rest w1 = Inr w'"
    by (auto simp: and_then_Inr)
  have "walk_ok sha256 es w1" by (rule walk_entry_ok [OF 3(2) _ w1(1)]) (use 3(3) in simp)
  then show ?case using 3(1) [of w1] 3(3) w1 by simp
qed simp_all

lemma follow_alias_in:
  "follow_alias hops files links role target = Some f \<Longrightarrow> \<forall>f\<in>set files. pinned (if_path f) (if_role f) (if_name f) \<Longrightarrow>
     f \<in> set files \<and> if_role f = role"
proof (induction hops files links role target rule: follow_alias.induct)
  case (2 hops files links role target)
  from 2(2) obtain mapped name where c: "classify target = Some (mapped, role, name)"
    by (auto split: option.splits prod.splits if_splits)
  show ?case
  proof (cases "find (\<lambda>f. if_path f = mapped) files")
    case (Some g)
    then have g: "g \<in> set files" "if_path g = mapped" by (auto simp: find_Some_iff)
    have "pinned mapped role name" by (rule classify_pinned(2) [OF c])
    with g 2(3) have "if_role g = role" by (auto simp: pinned_def)
    with 2(2) c Some g show ?thesis by simp
  next
    case None
    with 2(2) c obtain l where l: "find (\<lambda>l. ln_path l = mapped) links = Some l"
      "follow_alias hops files links role (ln_target l) = Some f"
      by (auto split: option.splits)
    show ?thesis using 2(1) [OF c refl refl _ None l(1) l(2) 2(3)] by simp
  qed
qed simp

lemma add_aliases_ok:
  assumes "distinct (map if_path files @ map ln_path ls)" "\<forall>f\<in>set files. from_entry sha256 es f"
    "\<forall>l\<in>set ls. pinned (ln_path l) (ln_role l) (ln_name l)" "sum_list (map held_bytes files) \<le> t" "t \<le> UNCOMPRESSED_BYTES"
    "add_aliases compressed links ls t files = Inr out"
  shows "distinct (map if_path out) \<and> (\<forall>f\<in>set out. from_entry sha256 es f) \<and>
    sum_list (map held_bytes out) \<le> UNCOMPRESSED_BYTES \<and> length out = length files + length ls"
  using assms
proof (induction compressed links ls t files rule: add_aliases.induct)
  case (1 compressed links t files)
  then show ?case by simp
next
  case (2 compressed links l ls t files)
  from 2(7) obtain f where f: "follow_alias 8 files links (ln_role l) (ln_target l) = Some f"
    by (auto split: option.splits)
  let ?t = "if keeps_content (ln_role l) then (t + if_bytes f) mod 2 ^ 64 else t"
  let ?a = "f\<lparr>if_path := ln_path l, if_role := ln_role l, if_name := ln_name l, if_stored := None\<rparr>"
  from 2(7) f have chk: "keeps_content (ln_role l) \<Longrightarrow> check_expansion ?t compressed = ok"
    and rest: "add_aliases compressed links ls ?t (files @ [?a]) = Inr out"
    by (auto simp: Let_def and_then_check_Inr split: if_splits)
  have "\<forall>f\<in>set files. pinned (if_path f) (if_role f) (if_name f)" using 2(3) by (auto simp: from_entry_def)
  from follow_alias_in [OF f this] have fin: "f \<in> set files" and role: "if_role f = ln_role l" by simp_all
  obtain e bytes where e: "Some e \<in> set es" "te_type e = Regular" "te_data e = Some bytes" "file_of_bytes sha256 bytes f"
    using 2(3) fin unfolding from_entry_def by blast
  have ab: "file_of_bytes sha256 bytes ?a" using e(4) role by (auto simp: file_of_bytes_def)
  have ap: "pinned (if_path ?a) (if_role ?a) (if_name ?a)" using 2(4) by simp
  have afrom: "from_entry sha256 es ?a" unfolding from_entry_def using ap ab e(1-3) by blast
  have fb: "if_bytes f \<le> ENTRY_BYTES" using e(4) by (simp add: file_of_bytes_def)
  have held: "held_bytes ?a \<le> (if keeps_content (ln_role l) then if_bytes f else 0)"
    using e(4) role by (auto simp: held_bytes_def file_of_bytes_def)
  have t: "?t = t + (if keeps_content (ln_role l) then if_bytes f else 0)"
    using limits fb 2(6) by (auto intro: mod_less)
  have cap: "?t \<le> UNCOMPRESSED_BYTES"
  proof (cases "keeps_content (ln_role l)")
    case True
    from check_expansion_ok [OF chk [OF True]] show ?thesis .
  qed (use 2(6) in simp)
  have sum: "sum_list (map held_bytes (files @ [?a])) \<le> ?t" using 2(5) held t by simp
  have d: "distinct (map if_path (files @ [?a]) @ map ln_path ls)" using 2(2) by auto
  have from': "\<forall>a\<in>set (files @ [?a]). from_entry sha256 es a" using 2(3) afrom by simp
  have links: "\<forall>l\<in>set ls. pinned (ln_path l) (ln_role l) (ln_name l)" using 2(4) by simp
  from 2(1) [OF f refl d from' links sum cap rest] show ?case by simp
qed

lemma add_aliases_in_hand:
  assumes "bytes_in_hand files" "\<forall>f\<in>set files. pinned (if_path f) (if_role f) (if_name f)"
    "\<forall>l\<in>set ls. pinned (ln_path l) (ln_role l) (ln_name l)" "add_aliases compressed links ls t files = Inr out"
  shows "bytes_in_hand out"
  using assms
proof (induction compressed links ls t files rule: add_aliases.induct)
  case (2 compressed links l ls t files)
  from 2(5) obtain f where f: "follow_alias 8 files links (ln_role l) (ln_target l) = Some f"
    by (auto split: option.splits)
  let ?t = "if keeps_content (ln_role l) then (t + if_bytes f) mod 2 ^ 64 else t"
  let ?a = "f\<lparr>if_path := ln_path l, if_role := ln_role l, if_name := ln_name l, if_stored := None\<rparr>"
  from 2(5) f have rest: "add_aliases compressed links ls ?t (files @ [?a]) = Inr out"
    by (auto simp: Let_def and_then_check_Inr split: if_splits)
  from follow_alias_in [OF f 2(3)] have fin: "f \<in> set files" by simp
  have hand: "bytes_in_hand (files @ [?a])" by (rule bytes_in_hand_alias [OF 2(2) fin]) simp
  have pins: "\<forall>a\<in>set (files @ [?a]). pinned (if_path a) (if_role a) (if_name a)" using 2(3,4) by simp
  have links: "\<forall>l\<in>set ls. pinned (ln_path l) (ln_role l) (ln_name l)" using 2(4) by simp
  from 2(1) [OF f refl hand pins links rest] show ?case .
qed simp

lemma walk_archive_ok:
  assumes "walk_archive sha256 compressed es = Inr files"
  shows "files \<noteq> []" "distinct (map if_path files)" "\<forall>f\<in>set files. from_entry sha256 es f"
    "sum_list (map held_bytes files) \<le> UNCOMPRESSED_BYTES" "bytes_in_hand files"
proof -
  from assms obtain w where w: "walk_entries sha256 compressed es walk_start = Inr w"
    and a: "add_aliases compressed (wa_links w) (wa_links w) (wa_total w) (wa_files w) = Inr files" and "files \<noteq> []"
    by (auto simp: walk_archive_def and_then_Inr split: if_splits)
  have "walk_ok sha256 es walk_start" by (simp add: walk_ok_def walk_start_def bytes_in_hand_def)
  from walk_entries_ok [OF this subset_refl w] have ok: "walk_ok sha256 es w" .
  have "distinct (map if_path files) \<and> (\<forall>f\<in>set files. from_entry sha256 es f) \<and>
      sum_list (map held_bytes files) \<le> UNCOMPRESSED_BYTES \<and> length files = length (wa_files w) + length (wa_links w)"
    by (rule add_aliases_ok [OF _ _ _ _ _ a]) (use ok in \<open>simp_all add: walk_ok_def\<close>)
  with \<open>files \<noteq> []\<close> show "files \<noteq> []" "distinct (map if_path files)" "\<forall>f\<in>set files. from_entry sha256 es f"
    "sum_list (map held_bytes files) \<le> UNCOMPRESSED_BYTES" by blast+
  show "bytes_in_hand files"
    by (rule add_aliases_in_hand [OF _ _ _ a]) (use ok in \<open>simp_all add: walk_ok_def from_entry_def\<close>)
qed

section \<open>Properties\<close>

text \<open>C27: a tarball the walk accepts imports pinned files only, at least one and none twice.  Each is the whole of a
  regular entry's data, under the digest of those bytes (a symlink's is its target's), with the bytes kept or
  stored that its role asks for, within the per-file bounds; and everything held for the rows and the object
  store together is within the walk's cap, whatever the headers say.\<close>

theorem walk_imports_pinned_files:
  assumes "walk_archive sha256 compressed es = Inr files"
  shows "files \<noteq> [] \<and> distinct (map if_path files) \<and> (\<forall>f\<in>set files. from_entry sha256 es f) \<and>
    sum_list (map held_bytes files) \<le> UNCOMPRESSED_BYTES"
  using walk_archive_ok [OF assms] by blast

text \<open>A distribution and an alias of it, behind a directory.\<close>

definition plain_header :: "nat list" where
  "plain_header = replicate 512 48"

definition tiny_tarball :: "tar_entry option list" where
  "tiny_tarball =
     [Some \<lparr>te_type = Directory, te_header = plain_header, te_size = Some 0, te_path = Some (lit ''data/''), te_link = [], te_data = Some []\<rparr>,
      Some \<lparr>te_type = Regular, te_header = plain_header, te_size = Some 3,
        te_path = Some (lit ''./data/letterdistributions/english.csv''), te_link = [], te_data = Some [65, 44, 49]\<rparr>,
      Some \<lparr>te_type = Symlink, te_header = plain_header, te_size = Some 0,
        te_path = Some (lit ''data/letterdistributions/other.csv''), te_link = lit ''english.csv'', te_data = Some []\<rparr>]"

text \<open>What an accepted walk imports, as paths.\<close>

definition imported_paths :: "'e + imported_file list \<Rightarrow> nat list list option" where
  "imported_paths r = (case r of Inl _ \<Rightarrow> None | Inr files \<Rightarrow> Some (map if_path files))"

lemma imported_paths_Some: "imported_paths r = Some ps \<longleftrightarrow> (\<exists>files. r = Inr files \<and> map if_path files = ps)"
  by (auto simp: imported_paths_def split: sum.splits)

lemma plain_header_ok: "plain_size_field plain_header" "\<not> unknown_ustar plain_header"
  by (simp_all add: plain_size_field_def unknown_ustar_def plain_header_def bytes_from_def Let_def list_all_iff lit_def numeral_eq_Suc)

definition no_digest :: "nat list \<Rightarrow> ustr" where
  "no_digest bytes = lit ''d''"

lemmas walk_steps = walk_entry_def walk_named_def walk_path_def Let_def and_then_def ok_or_def is_extension_def is_pax_def
  check_expansion_def limits plain_header_ok

lemma tiny_names:
  "classify (normalise (lit ''./data/letterdistributions/english.csv'')) =
     Some (lit ''letterdistributions/english.csv'', Letterdist, lit ''english'')"
  "classify (normalise (lit ''data/letterdistributions/other.csv'')) =
     Some (lit ''letterdistributions/other.csv'', Letterdist, lit ''other'')"
  "resolve_link (normalise (lit ''data/letterdistributions/other.csv'')) (lit ''english.csv'') =
     Some (lit ''data/letterdistributions/english.csv'')"
  "classify (lit ''data/letterdistributions/english.csv'') =
     Some (lit ''letterdistributions/english.csv'', Letterdist, lit ''english'')"
  by code_simp+

lemma tiny_safe:
  "\<not> unsafe_path (lit ''./data/letterdistributions/english.csv'')" "\<not> unsafe_path (lit ''data/letterdistributions/other.csv'')"
  "last (lit ''./data/letterdistributions/english.csv'') \<noteq> 47" "last (lit ''data/letterdistributions/other.csv'') \<noteq> 47"
  by code_simp+

lemmas walk_bounds = UNCOMPRESSED_BYTES_def ENTRY_BYTES_def ENTRIES_def EXPANSION_RATIO_def CONTENT_BYTES_def

definition tiny_import :: imported_file where
  "tiny_import = imported no_digest (lit ''letterdistributions/english.csv'') Letterdist (lit ''english'') [65, 44, 49]"

definition tiny_link :: archive_link where
  "tiny_link = \<lparr>ln_path = lit ''letterdistributions/other.csv'', ln_role = Letterdist, ln_name = lit ''other'',
     ln_written = lit ''english.csv'', ln_target = lit ''data/letterdistributions/english.csv''\<rparr>"

lemma tiny_entries:
  "walk_entries no_digest 1000 tiny_tarball walk_start = Inr
     \<lparr>wa_files = [tiny_import], wa_links = [tiny_link], wa_total = 3, wa_count = 3,
      wa_seen = [lit ''letterdistributions/other.csv'', lit ''letterdistributions/english.csv''], wa_next_path = None,
      wa_next_link = None, wa_pax_pending = False\<rparr>"
proof -
  have paths: "lit ''letterdistributions/other.csv'' \<noteq> lit ''letterdistributions/english.csv''" by code_simp
  show ?thesis
    by (simp add: tiny_tarball_def walk_start_def walk_steps walk_bounds walk_file_def walk_link_def tiny_names tiny_safe
      tiny_import_def tiny_link_def paths)
qed

definition tiny_alias :: imported_file where
  "tiny_alias = tiny_import\<lparr>if_path := lit ''letterdistributions/other.csv'', if_name := lit ''other''\<rparr>"

lemma tiny_walk: "walk_archive no_digest 1000 tiny_tarball = Inr [tiny_import, tiny_alias]"
proof -
  have "follow_alias 8 [tiny_import] [tiny_link] Letterdist (lit ''data/letterdistributions/english.csv'') = Some tiny_import"
    by (simp add: tiny_names tiny_import_def imported_def numeral_eq_Suc)
  then show ?thesis
    by (simp add: walk_archive_def tiny_entries and_then_def tiny_link_def keeps_content_def check_expansion_def walk_bounds
      tiny_import_def tiny_alias_def imported_def stores_object_def)
qed

lemma walk_imports_pinned_files_witness:
  "\<exists>files. walk_archive no_digest 1000 tiny_tarball = Inr files \<and> length files = 2 \<and>
     distinct (map if_path files) \<and> sum_list (map held_bytes files) \<le> UNCOMPRESSED_BYTES"
proof -
  from walk_imports_pinned_files [OF tiny_walk]
  have p: "distinct (map if_path [tiny_import, tiny_alias])" "sum_list (map held_bytes [tiny_import, tiny_alias]) \<le> UNCOMPRESSED_BYTES"
    by blast+
  show ?thesis by (intro exI [of _ "[tiny_import, tiny_alias]"] conjI tiny_walk p) simp
qed

text \<open>C28: a PAX header's records are read as POSIX defines them: the reader accepts exactly the data that is a
  sequence of records, each of its stated length and with its newline, and yields their keys and values, whatever
  bytes the values hold.\<close>

theorem pax_records_read_exactly:
  assumes "int (length data) \<le> u64_max"
  shows "pax_records data = Inr rs \<longleftrightarrow> (\<exists>pieces. data = concat pieces \<and> list_all2 spells_record rs pieces)"
  using pax_records_sound pax_records_complete assms by blast

lemma pax_records_read_exactly_witness:
  "pax_records (lit ''8 a=x'' @ [10] @ lit ''y'' @ [10]) = Inr [(lit ''a'', lit ''x'' @ [10] @ lit ''y'')]"
proof -
  have "spells_record (lit ''a'', lit ''x'' @ [10] @ lit ''y'') (lit ''8 a=x'' @ [10] @ lit ''y'' @ [10])"
    unfolding spells_record_def
    by (intro exI [of _ "lit ''8''"]) (simp add: lit_def is_ascii_digit_def digits_value_def)
  then have "\<exists>pieces. lit ''8 a=x'' @ [10] @ lit ''y'' @ [10] = concat pieces \<and>
      list_all2 spells_record [(lit ''a'', lit ''x'' @ [10] @ lit ''y'')] pieces"
    by (intro exI [of _ "[lit ''8 a=x'' @ [10] @ lit ''y'' @ [10]]"]) simp
  with pax_records_read_exactly [of "lit ''8 a=x'' @ [10] @ lit ''y'' @ [10]"] show ?thesis
    by (simp add: u64_max_def lit_def)
qed

end
