(* ===== verification/Imports_Spec.thy ===== *)
theory Imports_Spec
  imports Imports Archive_Spec
begin

text \<open>
  Runs of imports beside the administrators: whatever the order of their steps, and whichever of them time out
  or are cut by a restart, the files that jobs can pin are sound, and what a confirmation inserts is what was shown.
\<close>

section \<open>Runs\<close>

text \<open>What the background task of an import has reached; it keeps the walked files until they are staged.\<close>

datatype run = Fetching | Walked "imported_file list" ustr | Uploaded "imported_file list" ustr | Ended "ustr app_result option"

type_synonym import_system = "import_db \<times> (nat \<Rightarrow> run option)"

text \<open>
  One step: a route or the reaper on the tables, a run's next statement, a run that runs past its limit wherever
  it is (its uploads cut after any file), or a restart, which forgets every run.
\<close>

inductive import_step :: "(nat list \<Rightarrow> ustr) \<Rightarrow> (app_error \<Rightarrow> string) \<Rightarrow> import_system \<Rightarrow> import_system \<Rightarrow> bool"
  for sha256 message where
  started: "\<lbrakk>start_import github in_time admin csrf date git_ref i now db = Inr db'; i \<notin> im_id ` set (id_imports db)\<rbrakk> \<Longrightarrow>
    import_step sha256 message (db, runs) (db', runs(i \<mapsto> Fetching))"
| walked: "\<lbrakk>runs i = Some Fetching; walk_archive sha256 n entries = Inr files\<rbrakk> \<Longrightarrow>
    import_step sha256 message (db, runs) (db, runs(i \<mapsto> Walked files digest))"
| refused: "runs i = Some Fetching \<Longrightarrow> import_step sha256 message (db, runs) (db, runs(i \<mapsto> Ended (Some (Inl e))))"
| uploaded: "\<lbrakk>runs i = Some (Walked files digest); upload_inputs (id_store db) files calls = (store, r)\<rbrakk> \<Longrightarrow>
    import_step sha256 message (db, runs) (db\<lparr>id_store := store\<rparr>,
      runs(i \<mapsto> (case r of Inl e \<Rightarrow> Ended (Some (Inl e)) | Inr _ \<Rightarrow> Uploaded files digest)))"
| cut: "\<lbrakk>runs i = Some (Walked files digest); upload_inputs (id_store db) (take n files) calls = (store, r)\<rbrakk> \<Longrightarrow>
    import_step sha256 message (db, runs) (db\<lparr>id_store := store\<rparr>, runs(i \<mapsto> Ended None))"
| timed_out: "runs i = Some run \<Longrightarrow> \<forall>r. run \<noteq> Ended r \<Longrightarrow> import_step sha256 message (db, runs) (db, runs(i \<mapsto> Ended None))"
| staged: "runs i = Some (Uploaded files digest) \<Longrightarrow>
    import_step sha256 message (db, runs) (stage_files i files db, runs(i \<mapsto> Ended (Some (Inr digest))))"
| ended: "runs i = Some (Ended r) \<Longrightarrow> import_step sha256 message (db, runs) (end_import message i r db, runs(i := None))"
| restarted: "import_step sha256 message (db, runs) (db, Map.empty)"
| reaped: "import_step sha256 message (db, runs) (fst (fail_orphaned_imports db), runs)"
| expired: "import_step sha256 message (db, runs) (fst (expire_unconfirmed_imports now db), runs)"
| confirmed: "confirm_import admin csrf i ids now db = Inr (db', n) \<Longrightarrow> import_step sha256 message (db, runs) (db', runs)"
| deleted: "delete_input_data admin csrf file_id counted pinned_now (db, built) = Inr (db', built') \<Longrightarrow>
    import_step sha256 message (db, runs) (db', runs)"

definition no_imports :: import_db where
  "no_imports = \<lparr>id_files = [], id_imports = [], id_staged = [], id_store = [], id_audit = []\<rparr>"

inductive imports_reachable :: "(nat list \<Rightarrow> ustr) \<Rightarrow> (app_error \<Rightarrow> string) \<Rightarrow> import_system \<Rightarrow> bool" for sha256 message where
  imports_start: "imports_reachable sha256 message (no_imports, Map.empty)"
| imports_step: "\<lbrakk>imports_reachable sha256 message s; import_step sha256 message s s'\<rbrakk> \<Longrightarrow> imports_reachable sha256 message s'"

section \<open>Sound files\<close>

text \<open>
  A row's path is one birdtest pins, its role's bytes are kept on it under their digest, and the object its role
  needs is in the store.
\<close>

definition sound_file ::
  "(nat list \<Rightarrow> ustr) \<Rightarrow> ustr list \<Rightarrow> ustr \<Rightarrow> data_role \<Rightarrow> ustr \<Rightarrow> ustr \<Rightarrow> nat list option \<Rightarrow> ustr option \<Rightarrow> bool" where
  "sound_file sha256 store path role name digest content key \<longleftrightarrow> pinned path role name \<and>
     (content \<noteq> None \<longleftrightarrow> keeps_content role) \<and> (\<forall>c. content = Some c \<longrightarrow> sha256 c = digest \<and> length c \<le> CONTENT_BYTES) \<and>
     key = (if stores_object role then Some (input_object_key digest) else None) \<and> (\<forall>k. key = Some k \<longrightarrow> k \<in> set store)"

definition sound_row :: "(nat list \<Rightarrow> ustr) \<Rightarrow> ustr list \<Rightarrow> data_row \<Rightarrow> bool" where
  "sound_row sha256 store r \<longleftrightarrow> sound_file sha256 store (ir_path r) (ir_role r) (ir_name r) (ir_sha256 r) (ir_content r) (ir_object_key r)"

definition sound_staged :: "(nat list \<Rightarrow> ustr) \<Rightarrow> ustr list \<Rightarrow> staged_row \<Rightarrow> bool" where
  "sound_staged sha256 store r \<longleftrightarrow> sound_file sha256 store (sr_path r) (sr_role r) (sr_name r) (sr_sha256 r) (sr_content r) (sr_object_key r)"

definition sound_import :: "(nat list \<Rightarrow> ustr) \<Rightarrow> ustr list \<Rightarrow> imported_file \<Rightarrow> bool" where
  "sound_import sha256 store f \<longleftrightarrow> sound_file sha256 store (if_path f) (if_role f) (if_name f) (if_sha256 f) (if_content f) (if_object_key f)"

lemma sound_file_store: "sound_file sha256 store p r n d c k \<Longrightarrow> set store \<subseteq> set store' \<Longrightarrow> sound_file sha256 store' p r n d c k"
  by (auto simp: sound_file_def)

lemma upload_inputs_store: "upload_inputs store fs calls = (store', r) \<Longrightarrow> set store \<subseteq> set store'"
proof (induction fs arbitrary: store)
  case (Cons f fs)
  show ?case
  proof (cases "upload_inputs store (f # fs) calls = upload_inputs store fs calls")
    case True
    with Cons show ?thesis by simp
  next
    case False
    then obtain key where k: "if_object_key f = Some key" by (cases "if_object_key f") auto
    with False Cons.prems have "set store' = set store \<or> upload_inputs (key # store) fs calls = (store', r)"
      by (cases "if_stored f") (auto split: if_splits)
    with Cons.IH [of "key # store"] show ?thesis by auto
  qed
qed simp

lemma upload_inputs_all:
  "upload_inputs store fs calls = (store', Inr u) \<Longrightarrow> f \<in> set fs \<Longrightarrow> if_object_key f = Some k \<Longrightarrow> if_stored f \<noteq> None \<Longrightarrow> k \<in> set store'"
proof (induction fs arbitrary: store)
  case (Cons g fs)
  show ?case
  proof (cases "f = g")
    case True
    with Cons.prems obtain bytes where "if_object_key g = Some k" "if_stored g = Some bytes" by auto
    with Cons.prems(1) have "\<exists>s. k \<in> set s \<and> upload_inputs s fs calls = (store', Inr u)"
      by (auto split: if_splits intro: exI [of _ "k # store"])
    with upload_inputs_store show ?thesis by blast
  next
    case False
    from Cons.prems(1) obtain s where "upload_inputs s fs calls = (store', Inr u)"
      by (cases "if_object_key g"; cases "if_stored g") (auto split: if_splits)
    with Cons.IH Cons.prems False show ?thesis by auto
  qed
qed simp

section \<open>The invariant\<close>

definition rows_of :: "nat \<Rightarrow> staged_row list \<Rightarrow> staged_row list" where
  "rows_of i rows = filter (\<lambda>r. sr_import_id r = i) rows"

text \<open>What an import's state says of its rows.\<close>

definition import_ok :: "staged_row list \<Rightarrow> import_row \<Rightarrow> bool" where
  "import_ok rows m \<longleftrightarrow> (let own = rows_of (im_id m) rows in
     (im_state m \<in> {Import_staged, Import_confirmed} \<longrightarrow> (\<exists>r\<in>set own. sr_disposition r \<noteq> File_known)) \<and>
     (im_state m = Nothing_new \<longrightarrow> (\<forall>r\<in>set own. sr_disposition r = File_known)) \<and> (im_state m = Import_cancelled \<longrightarrow> own = []))"

definition run_ok :: "(nat list \<Rightarrow> ustr) \<Rightarrow> ustr list \<Rightarrow> run \<Rightarrow> bool" where
  "run_ok sha256 store run = (case run of
     Walked files digest \<Rightarrow> bytes_in_hand files \<and> (\<forall>f\<in>set files. \<exists>es. from_entry sha256 es f)
   | Uploaded files digest \<Rightarrow> \<forall>f\<in>set files. sound_import sha256 store f
   | _ \<Rightarrow> True)"

definition tables_sound :: "(nat list \<Rightarrow> ustr) \<Rightarrow> import_db \<Rightarrow> bool" where
  "tables_sound sha256 db \<longleftrightarrow> distinct (map im_id (id_imports db)) \<and> distinct (map input_key (id_files db)) \<and>
     (\<forall>r\<in>set (id_files db). sound_row sha256 (id_store db) r) \<and> (\<forall>r\<in>set (id_staged db). sound_staged sha256 (id_store db) r) \<and>
     (\<forall>r\<in>set (id_staged db). sr_import_id r \<in> im_id ` set (id_imports db)) \<and> (\<forall>m\<in>set (id_imports db). import_ok (id_staged db) m)"

definition run_of :: "import_row list \<Rightarrow> nat \<Rightarrow> bool" where
  "run_of ms i \<longleftrightarrow> (\<exists>m\<in>set ms. im_id m = i \<and> im_state m \<in> {Import_running, Import_failed})"

definition runs_sound :: "(nat list \<Rightarrow> ustr) \<Rightarrow> import_db \<Rightarrow> (nat \<Rightarrow> run option) \<Rightarrow> bool" where
  "runs_sound sha256 db runs \<longleftrightarrow> (\<forall>i run. runs i = Some run \<longrightarrow> run_of (id_imports db) i \<and> run_ok sha256 (id_store db) run)"

lemma run_of_unique:
  "distinct (map im_id ms) \<Longrightarrow> run_of ms i \<Longrightarrow> m \<in> set ms \<Longrightarrow> im_id m = i \<Longrightarrow> im_state m \<in> {Import_running, Import_failed}"
  by (auto simp: run_of_def distinct_map dest: inj_onD)

lemma run_ok_store: "run_ok sha256 store run \<Longrightarrow> set store \<subseteq> set store' \<Longrightarrow> run_ok sha256 store' run"
  by (auto simp: run_ok_def sound_import_def intro: sound_file_store split: run.splits)

lemma tables_sound_store:
  "tables_sound sha256 db \<Longrightarrow> set (id_store db) \<subseteq> set store \<Longrightarrow> tables_sound sha256 (db\<lparr>id_store := store\<rparr>)"
  by (auto simp: tables_sound_def sound_row_def sound_staged_def intro: sound_file_store)

lemma tables_sound_audit: "tables_sound sha256 (db\<lparr>id_audit := a\<rparr>) = tables_sound sha256 db"
  by (simp add: tables_sound_def)

lemma runs_sound_upd:
  "runs_sound sha256 db runs \<Longrightarrow> id_imports db' = id_imports db \<Longrightarrow> set (id_store db) \<subseteq> set (id_store db') \<Longrightarrow>
     runs i \<noteq> None \<Longrightarrow> run_ok sha256 (id_store db') run \<Longrightarrow> runs_sound sha256 db' (runs(i \<mapsto> run))"
  by (auto simp: runs_sound_def intro: run_ok_store)

text \<open>A file the walk made is sound once its object is in the store.\<close>

lemma from_entry_sound:
  assumes "from_entry sha256 es f" "\<And>k. if_object_key f = Some k \<Longrightarrow> k \<in> set store"
  shows "sound_import sha256 store f"
  using assms by (auto simp: from_entry_def file_of_bytes_def sound_import_def sound_file_def split: if_splits)

lemma uploaded_sound:
  assumes ok: "bytes_in_hand files" "\<forall>f\<in>set files. \<exists>es. from_entry sha256 es f" and up: "upload_inputs store files calls = (store', Inr u)"
  shows "\<forall>f\<in>set files. sound_import sha256 store' f"
proof
  fix f assume f: "f \<in> set files"
  with ok(2) obtain es where es: "from_entry sha256 es f" by blast
  show "sound_import sha256 store' f"
  proof (rule from_entry_sound [OF es])
    fix k assume k: "if_object_key f = Some k"
    with ok(1) f obtain g where "g \<in> set files" "if_object_key g = Some k" "if_stored g \<noteq> None"
      unfolding bytes_in_hand_def by fastforce
    with upload_inputs_all [OF up] show "k \<in> set store'" by blast
  qed
qed

section \<open>Each statement keeps it\<close>

lemma rows_of_stage_file:
  "rows_of j (stage_file i files f rows) = rows_of j rows \<or> j = i"
  by (auto simp: stage_file_def rows_of_def staged_of_def Let_def)

lemma stage_file_keeps:
  assumes "r \<in> set (stage_file i files f rows)"
  shows "r \<in> set rows \<or> r = staged_of i files f"
  using assms by (auto simp: stage_file_def Let_def split: if_splits)

lemma fold_stage_file:
  "r \<in> set (fold (stage_file i files) fs rows) \<Longrightarrow> r \<in> set rows \<or> (\<exists>f\<in>set fs. r = staged_of i files f)"
proof (induction fs arbitrary: rows)
  case (Cons f fs)
  from Cons.IH [of "stage_file i files f rows"] Cons.prems show ?case using stage_file_keeps [of r i files f rows] by auto
qed simp

lemma fold_stage_rows: "j \<noteq> i \<Longrightarrow> rows_of j (fold (stage_file i files) fs rows) = rows_of j rows"
proof (induction fs arbitrary: rows)
  case (Cons f fs)
  then show ?case using rows_of_stage_file [of j i files f rows] by simp
qed simp

lemma staged_of_sound: "sound_staged sha256 store (staged_of i files f) = sound_import sha256 store f"
  by (simp add: sound_staged_def sound_import_def staged_of_def)

lemma import_ok_rows: "rows_of (im_id m) rows' = rows_of (im_id m) rows \<Longrightarrow> import_ok rows' m = import_ok rows m"
  by (simp add: import_ok_def)

lemma stage_files_sound:
  assumes ok: "tables_sound sha256 db" and i: "run_of (id_imports db) i" and fs: "\<forall>f\<in>set fs. sound_import sha256 (id_store db) f"
  shows "tables_sound sha256 (stage_files i fs db)"
proof -
  let ?rows = "fold (stage_file i (id_files db)) fs (id_staged db)"
  have "import_ok ?rows m" if m: "m \<in> set (id_imports db)" for m
  proof (cases "im_id m = i")
    case True
    have "im_state m \<in> {Import_running, Import_failed}"
      by (rule run_of_unique [OF _ i m True]) (use ok in \<open>simp add: tables_sound_def\<close>)
    then show ?thesis by (auto simp: import_ok_def)
  next
    case False
    from import_ok_rows [OF fold_stage_rows [OF False]] ok m show ?thesis by (auto simp: tables_sound_def)
  qed
  moreover have "sr_import_id r \<in> im_id ` set (id_imports db)" if "r \<in> set ?rows" for r
    using fold_stage_file [OF that] ok i by (auto simp: tables_sound_def run_of_def staged_of_def)
  moreover have "sound_staged sha256 (id_store db) r" if "r \<in> set ?rows" for r
    using fold_stage_file [OF that] ok fs by (auto simp: tables_sound_def staged_of_sound)
  ultimately show ?thesis using ok unfolding tables_sound_def stage_files_def by simp
qed

text \<open>A statement that moves imports on, leaving files and rows.\<close>

lemma moved_imports_sound:
  assumes ok: "tables_sound sha256 db" and id: "\<And>m. im_id (f m) = im_id m"
    and moved: "\<And>m. m \<in> set (id_imports db) \<Longrightarrow> P m \<Longrightarrow> import_ok (id_staged db) (f m)"
  shows "tables_sound sha256 (db\<lparr>id_imports := update_where P f (id_imports db)\<rparr>)"
proof -
  have ids: "map im_id (update_where P f (id_imports db)) = map im_id (id_imports db)" by (rule map_update_where) (rule id)
  then have "im_id ` set (update_where P f (id_imports db)) = im_id ` set (id_imports db)" by (metis set_map)
  moreover have "\<forall>m\<in>set (update_where P f (id_imports db)). import_ok (id_staged db) m"
    using ok moved by (auto simp: set_update_where tables_sound_def)
  ultimately show ?thesis using ok ids by (simp add: tables_sound_def)
qed

lemma end_import_sound:
  assumes "tables_sound sha256 db"
  shows "tables_sound sha256 (end_import message i r db)"
proof -
  have failed: "tables_sound sha256 (fail_import i why db)" for why
    unfolding fail_import_def by (rule moved_imports_sound [OF assms]) (auto simp: import_ok_def)
  have "tables_sound sha256 (finish_staging i digest db)" for digest
  proof -
    let ?news = "list_ex (\<lambda>r. sr_import_id r = i \<and> sr_disposition r \<noteq> File_known) (id_staged db)"
    let ?to = "if ?news then Import_staged else Nothing_new"
    have "tables_sound sha256 (db\<lparr>id_imports := update_where (\<lambda>m. im_id m = i \<and> im_state m = Import_running)
        (\<lambda>m. m\<lparr>im_tarball_sha256 := Some digest, im_state := ?to\<rparr>) (id_imports db)\<rparr>)"
      by (rule moved_imports_sound [OF assms]) (auto simp: import_ok_def rows_of_def list_ex_iff)
    then show ?thesis unfolding finish_staging_def Let_def by (subst (asm) tables_sound_audit [symmetric]) simp
  qed
  with failed show ?thesis by (auto simp: end_import_def split: option.splits sum.splits)
qed

lemma reaped_sound: "tables_sound sha256 db \<Longrightarrow> tables_sound sha256 (fst (fail_orphaned_imports db))"
  unfolding fail_orphaned_imports_def Let_def fst_conv
  by (rule moved_imports_sound) (auto simp: import_ok_def)

lemma expired_sound:
  assumes "tables_sound sha256 db"
  shows "tables_sound sha256 (fst (expire_unconfirmed_imports now db))"
proof -
  let ?old = "\<lambda>m. im_state m = Import_staged \<and> im_requested_at m < now - UNCONFIRMED_IMPORT_TTL"
  let ?gone = "set (map im_id (filter ?old (id_imports db)))"
  let ?rows = "filter (\<lambda>r. sr_import_id r \<notin> ?gone) (id_staged db)"
  have d: "distinct (map im_id (id_imports db))" using assms by (simp add: tables_sound_def)
  have kept: "rows_of (im_id m) ?rows = rows_of (im_id m) (id_staged db)" if "m \<in> set (id_imports db)" "\<not> ?old m" for m
  proof -
    have "im_id m \<notin> ?gone" using d that by (auto simp: distinct_map dest: inj_onD)
    then have own: "sr_import_id r \<notin> ?gone \<and> sr_import_id r = im_id m \<longleftrightarrow> sr_import_id r = im_id m" for r by (cases "sr_import_id r = im_id m") simp_all
    show ?thesis unfolding rows_of_def filter_filter by (rule filter_cong [OF refl]) (rule own)
  qed
  have gone: "rows_of (im_id m) ?rows = []" if "m \<in> set (id_imports db)" "?old m" for m
    using that by (auto simp: rows_of_def filter_empty_conv)
  let ?f = "\<lambda>m. m\<lparr>im_state := Import_cancelled, im_error := Some ''not confirmed within 24 hours; start the import again to review it''\<rparr>"
  have ids: "map im_id (update_where ?old ?f (id_imports db)) = map im_id (id_imports db)" by (rule map_update_where) simp
  then have ids': "im_id ` set (update_where ?old ?f (id_imports db)) = im_id ` set (id_imports db)" by (metis set_map)
  have "import_ok ?rows m" if "m \<in> set (update_where ?old ?f (id_imports db))" for m
  proof -
    from that obtain n where n: "n \<in> set (id_imports db)" "m = (if ?old n then ?f n else n)" by (auto simp: set_update_where)
    show ?thesis
    proof (cases "?old n")
      case True
      with n gone [OF n(1) True] show ?thesis by (simp add: import_ok_def)
    next
      case False
      with n have "m = n" by auto
      with import_ok_rows [OF kept [OF n(1) False]] assms n(1) show ?thesis by (simp add: tables_sound_def)
    qed
  qed
  with assms ids ids' show ?thesis unfolding expire_unconfirmed_imports_def Let_def fst_conv tables_sound_def by simp
qed

text \<open>What a confirmation inserts.\<close>

lemma fold_insert_input:
  assumes "distinct (map input_key files)"
  shows "\<exists>new. fold (\<lambda>r. insert_input (g r)) rs files = files @ new \<and> distinct (map input_key (files @ new)) \<and>
    set new \<subseteq> g ` set rs \<and> input_key ` set (files @ new) = input_key ` set files \<union> (\<lambda>r. input_key (g r)) ` set rs"
  using assms
proof (induction rs arbitrary: files)
  case Nil
  then show ?case by (intro exI [of _ "[]"]) simp
next
  case (Cons r rs)
  show ?case
  proof (cases "input_key (g r) \<in> input_key ` set files")
    case True
    then have "insert_input (g r) files = files" by (simp add: insert_input_def)
    with Cons.IH [OF Cons.prems] True show ?thesis by (auto simp: insert_absorb)
  next
    case False
    then have i: "insert_input (g r) files = files @ [g r]" by (simp add: insert_input_def)
    have "distinct (map input_key (files @ [g r]))" using Cons.prems False by auto
    from Cons.IH [OF this] obtain new where new: "fold (\<lambda>r. insert_input (g r)) rs (files @ [g r]) = (files @ [g r]) @ new"
      "distinct (map input_key ((files @ [g r]) @ new))" "set new \<subseteq> g ` set rs"
      "input_key ` set ((files @ [g r]) @ new) = input_key ` set (files @ [g r]) \<union> (\<lambda>r. input_key (g r)) ` set rs" by blast
    show ?thesis
    proof (intro exI [of _ "g r # new"] conjI)
      show "fold (\<lambda>r. insert_input (g r)) (r # rs) files = files @ g r # new" using new(1) i by simp
      show "distinct (map input_key (files @ g r # new))" using new(2) by simp
      show "set (g r # new) \<subseteq> g ` set (r # rs)" using new(3) by auto
      show "input_key ` set (files @ g r # new) = input_key ` set files \<union> (\<lambda>r. input_key (g r)) ` set (r # rs)"
        using new(4) by auto
    qed
  qed
qed

definition proposed :: "nat \<Rightarrow> import_db \<Rightarrow> staged_row list" where
  "proposed i db = filter (\<lambda>r. sr_import_id r = i \<and> sr_disposition r \<noteq> File_known) (id_staged db)"

lemma confirm_import_Inr:
  assumes "confirm_import admin csrf i ids now db = Inr (db', n)" "distinct (map input_key (id_files db))"
  obtains m new where "m \<in> set (id_imports db)" "im_id m = i" "im_state m = Import_staged"
    "id_files db' = id_files db @ new" "n = length new" "distinct (map input_key (id_files db @ new))"
    "set new \<subseteq> (\<lambda>r. data_row_of (im_tarball_date m) (us_id admin) now (ids r) r) ` set (proposed i db)"
    "input_key ` set (id_files db @ new) = input_key ` set (id_files db) \<union> (\<lambda>r. (sr_path r, sr_sha256 r)) ` set (proposed i db)"
    "id_imports db' = update_key im_id i (\<lambda>m. m\<lparr>im_state := Import_confirmed, im_confirmed_at := Some now\<rparr>) (id_imports db)"
    "id_staged db' = id_staged db" "id_store db' = id_store db"
proof -
  from assms(1) obtain m where m: "row_with im_id i (id_imports db) = Some m" and st: "im_state m = Import_staged"
    unfolding confirm_import_def and_then_check_Inr by (auto simp: and_then_Inr ok_or_Inr split: if_splits)
  let ?g = "\<lambda>r. data_row_of (im_tarball_date m) (us_id admin) now (ids r) r"
  from fold_insert_input [OF assms(2), of ?g "proposed i db"] obtain new where
    new: "fold (\<lambda>r. insert_input (?g r)) (proposed i db) (id_files db) = id_files db @ new"
      "distinct (map input_key (id_files db @ new))" "set new \<subseteq> ?g ` set (proposed i db)"
      "input_key ` set (id_files db @ new) = input_key ` set (id_files db) \<union> (\<lambda>r. input_key (?g r)) ` set (proposed i db)" by blast
  from assms(1) m st have out: "db' = db\<lparr>id_files := fold (\<lambda>r. insert_input (?g r)) (proposed i db) (id_files db),
      id_imports := update_key im_id i (\<lambda>m. m\<lparr>im_state := Import_confirmed, im_confirmed_at := Some now\<rparr>) (id_imports db),
      id_audit := log_import (lit ''input_data.import_confirmed'') (Some (us_id admin)) i (id_audit db)\<rparr>"
    "n = length (fold (\<lambda>r. insert_input (?g r)) (proposed i db) (id_files db)) - length (id_files db)"
    unfolding confirm_import_def and_then_check_Inr by (simp_all add: ok_or_def Let_def proposed_def)
  show ?thesis
  proof (rule that)
    show "m \<in> set (id_imports db)" "im_id m = i" using row_with_Some [OF m] by simp_all
    show "im_state m = Import_staged" by (fact st)
    show "id_files db' = id_files db @ new" "n = length new" using out new(1) by simp_all
    show "input_key ` set (id_files db @ new) = input_key ` set (id_files db) \<union> (\<lambda>r. (sr_path r, sr_sha256 r)) ` set (proposed i db)"
      using new(4) by (simp add: input_key_def data_row_of_def)
  qed (use out new in simp_all)
qed

lemma confirm_import_sound:
  assumes ok: "tables_sound sha256 db" and c: "confirm_import admin csrf i ids now db = Inr (db', n)"
  shows "tables_sound sha256 db'"
proof -
  have d: "distinct (map im_id (id_imports db))" "distinct (map input_key (id_files db))" using ok by (simp_all add: tables_sound_def)
  from confirm_import_Inr [OF c d(2)] obtain m new where m: "m \<in> set (id_imports db)" "im_id m = i" "im_state m = Import_staged"
    and files: "id_files db' = id_files db @ new" "n = length new" "distinct (map input_key (id_files db @ new))"
      "set new \<subseteq> (\<lambda>r. data_row_of (im_tarball_date m) (us_id admin) now (ids r) r) ` set (proposed i db)"
      "input_key ` set (id_files db @ new) = input_key ` set (id_files db) \<union> (\<lambda>r. (sr_path r, sr_sha256 r)) ` set (proposed i db)"
    and rest: "id_imports db' = update_key im_id i (\<lambda>m. m\<lparr>im_state := Import_confirmed, im_confirmed_at := Some now\<rparr>) (id_imports db)"
      "id_staged db' = id_staged db" "id_store db' = id_store db" .
  let ?f = "\<lambda>m. m\<lparr>im_state := Import_confirmed, im_confirmed_at := Some now\<rparr>"
  have moved: "tables_sound sha256 (db\<lparr>id_imports := update_where (\<lambda>m. im_id m = i) ?f (id_imports db)\<rparr>)"
  proof (rule moved_imports_sound [OF ok])
    fix m' assume m': "m' \<in> set (id_imports db)" "im_id m' = i"
    with d(1) m have "m' = m" by (auto simp: distinct_map dest: inj_onD)
    moreover have "import_ok (id_staged db) m" using ok m(1) by (simp add: tables_sound_def)
    ultimately show "import_ok (id_staged db) (?f m')" using m(3) by (simp add: import_ok_def Let_def)
  qed simp
  have "sound_row sha256 (id_store db) r" if "r \<in> set new" for r
  proof -
    from that files(4) obtain s where s: "s \<in> set (proposed i db)" "r = data_row_of (im_tarball_date m) (us_id admin) now (ids s) s" by blast
    then have "sound_staged sha256 (id_store db) s" using ok by (simp add: tables_sound_def proposed_def)
    then show ?thesis unfolding s(2) by (simp add: sound_staged_def sound_row_def data_row_of_def)
  qed
  with moved files rest show ?thesis by (auto simp: tables_sound_def update_key_def)
qed

lemma delete_input_data_Inr:
  assumes "delete_input_data admin csrf file_id counted pinned_now (db, built) = Inr (db', built')"
  shows "id_files db' = filter (\<lambda>r. ir_id r \<noteq> file_id) (id_files db)" "id_imports db' = id_imports db"
    "id_staged db' = id_staged db" "id_store db' = id_store db"
  using assms unfolding delete_input_data_def prod.case and_then_check_Inr by (auto split: if_splits)

lemma start_import_Inr:
  assumes "start_import github in_time admin csrf date git_ref i now db = Inr db'"
  obtains m where "id_imports db' = id_imports db @ [m]" "im_id m = i" "im_state m = Import_running"
    "id_files db' = id_files db" "id_staged db' = id_staged db" "id_store db' = id_store db"
proof -
  let ?m = "\<lambda>sha. \<lparr>im_id = i, im_tarball_date = trim date, im_commit_sha = sha,
             im_tarball_sha256 = None, im_state = Import_running, im_error = None, im_requested_by = Some (us_id admin),
             im_requested_at = now, im_confirmed_at = None\<rparr>"
  from assms obtain sha where "db' = db\<lparr>id_imports := id_imports db @ [?m sha],
           id_audit := log_import (lit ''input_data.import_staged'') (Some (us_id admin)) i (id_audit db)\<rparr>"
    unfolding start_import_def and_then_check_Inr Let_def by (auto simp: and_then_Inr split: if_splits)
  then show ?thesis by (intro that [of "?m sha"]) simp_all
qed

lemma start_import_sound:
  assumes ok: "tables_sound sha256 db" and s: "start_import github in_time admin csrf date git_ref i now db = Inr db'"
    and new: "i \<notin> im_id ` set (id_imports db)"
  shows "tables_sound sha256 db'"
proof -
  from start_import_Inr [OF s] obtain m where m: "id_imports db' = id_imports db @ [m]" "im_id m = i" "im_state m = Import_running"
    "id_files db' = id_files db" "id_staged db' = id_staged db" "id_store db' = id_store db" .
  have "import_ok (id_staged db) m" using m(3) by (simp add: import_ok_def)
  with ok new m show ?thesis by (auto simp: tables_sound_def)
qed

section \<open>Every step keeps it\<close>

text \<open>Statements that leave running and failed imports running or failed leave the runs alone.\<close>

lemma runs_sound_keep:
  "runs_sound sha256 db runs \<Longrightarrow> set (id_store db) \<subseteq> set (id_store db') \<Longrightarrow>
     (\<And>i. runs i \<noteq> None \<Longrightarrow> run_of (id_imports db) i \<Longrightarrow> run_of (id_imports db') i) \<Longrightarrow> runs_sound sha256 db' runs"
  by (auto simp: runs_sound_def intro: run_ok_store)

lemma run_of_update_where:
  assumes "\<And>m. m \<in> set ms \<Longrightarrow> P m \<Longrightarrow> im_state m \<in> {Import_running, Import_failed} \<Longrightarrow> im_state (f m) \<in> {Import_running, Import_failed}"
    and "\<And>m. im_id (f m) = im_id m" "run_of ms i"
  shows "run_of (update_where P f ms) i"
proof -
  from assms(3) obtain m where m: "m \<in> set ms" "im_id m = i" "im_state m \<in> {Import_running, Import_failed}" by (auto simp: run_of_def)
  have "(if P m then f m else m) \<in> set (update_where P f ms)" using m(1) unfolding set_update_where by (rule imageI)
  moreover have "im_id (if P m then f m else m) = i" using assms(2) m(2) by simp
  moreover have "im_state (if P m then f m else m) \<in> {Import_running, Import_failed}" using assms(1) [OF m(1) _ m(3)] m(3) by simp
  ultimately show ?thesis unfolding run_of_def by blast
qed

lemma run_of_other:
  "(\<And>m. im_id (f m) = im_id m) \<Longrightarrow> (\<And>m. P m \<Longrightarrow> im_id m = i) \<Longrightarrow> j \<noteq> i \<Longrightarrow> run_of ms j \<Longrightarrow> run_of (update_where P f ms) j"
  by (fastforce simp: run_of_def set_update_where)

lemma ended_runs_sound:
  assumes "runs_sound sha256 db runs"
  shows "runs_sound sha256 (end_import message i r db) (runs(i := None))"
proof -
  have "run_of (id_imports (end_import message i r db)) j" if "j \<noteq> i" "run_of (id_imports db) j" for j
    using that by (auto simp: end_import_def fail_import_def finish_staging_def Let_def
      split: option.splits sum.splits intro!: run_of_other [of _ _ i])
  moreover have "id_store (end_import message i r db) = id_store db"
    by (auto simp: end_import_def fail_import_def finish_staging_def Let_def split: option.splits sum.splits)
  ultimately show ?thesis using assms by (simp add: runs_sound_def)
qed

definition system_sound :: "(nat list \<Rightarrow> ustr) \<Rightarrow> import_system \<Rightarrow> bool" where
  "system_sound sha256 s \<longleftrightarrow> tables_sound sha256 (fst s) \<and> runs_sound sha256 (fst s) (snd s)"

lemma import_step_sound:
  assumes "import_step sha256 message s s'" "system_sound sha256 s"
  shows "system_sound sha256 s'"
  using assms
proof (cases rule: import_step.cases)
  case (started github in_time admin csrf date git_ref i now db db' runs)
  with assms(2) have ok: "tables_sound sha256 db" "runs_sound sha256 db runs" by (simp_all add: system_sound_def)
  from start_import_Inr [OF started(3)] obtain m where m: "id_imports db' = id_imports db @ [m]" "im_id m = i" "im_state m = Import_running"
    "id_files db' = id_files db" "id_staged db' = id_staged db" "id_store db' = id_store db" .
  have "runs_sound sha256 db' (runs(i \<mapsto> Fetching))" using ok(2) m by (auto simp: runs_sound_def run_of_def run_ok_def)
  with start_import_sound [OF ok(1) started(3,4)] started show ?thesis by (simp add: system_sound_def)
next
  case (walked runs i n entries files db digest)
  with assms(2) have ok: "tables_sound sha256 db" "runs_sound sha256 db runs" by (simp_all add: system_sound_def)
  have "run_ok sha256 (id_store db) (Walked files digest)"
    using walk_archive_ok(3,5) [OF walked(4)] by (auto simp: run_ok_def)
  with runs_sound_upd [OF ok(2) refl subset_refl] walked(3) have "runs_sound sha256 db (runs(i \<mapsto> Walked files digest))" by simp
  with ok walked show ?thesis by (simp add: system_sound_def)
next
  case (refused runs i db e)
  with assms(2) have ok: "tables_sound sha256 db" "runs_sound sha256 db runs" by (simp_all add: system_sound_def)
  have "runs_sound sha256 db (runs(i \<mapsto> Ended (Some (Inl e))))"
    by (rule runs_sound_upd [OF ok(2) refl subset_refl]) (use refused in \<open>simp_all add: run_ok_def\<close>)
  with ok refused show ?thesis by (simp add: system_sound_def)
next
  case (uploaded runs i files digest db calls store r)
  with assms(2) have ok: "tables_sound sha256 db" "runs_sound sha256 db runs" by (simp_all add: system_sound_def)
  have st: "set (id_store db) \<subseteq> set store" by (rule upload_inputs_store [OF uploaded(4)])
  have walked: "bytes_in_hand files" "\<forall>f\<in>set files. \<exists>es. from_entry sha256 es f"
    using ok(2) uploaded(3) unfolding runs_sound_def run_ok_def by fastforce+
  have "run_ok sha256 store (case r of Inl e \<Rightarrow> Ended (Some (Inl e)) | Inr _ \<Rightarrow> Uploaded files digest)"
    using uploaded_sound [OF walked] uploaded(4) by (cases r) (auto simp: run_ok_def)
  with runs_sound_upd [OF ok(2), of "db\<lparr>id_store := store\<rparr>"] st uploaded(3)
  have "runs_sound sha256 (db\<lparr>id_store := store\<rparr>) (runs(i \<mapsto> (case r of Inl e \<Rightarrow> Ended (Some (Inl e)) | Inr _ \<Rightarrow> Uploaded files digest)))"
    by simp
  with tables_sound_store [OF ok(1) st] uploaded(2) show ?thesis by (simp add: system_sound_def)
next
  case (cut runs i files digest db n calls store r)
  with assms(2) have ok: "tables_sound sha256 db" "runs_sound sha256 db runs" by (simp_all add: system_sound_def)
  have st: "set (id_store db) \<subseteq> set store" by (rule upload_inputs_store [OF cut(4)])
  have "runs_sound sha256 (db\<lparr>id_store := store\<rparr>) (runs(i \<mapsto> Ended None))"
    by (rule runs_sound_upd [OF ok(2)]) (use st cut in \<open>simp_all add: run_ok_def\<close>)
  with tables_sound_store [OF ok(1) st] cut(2) show ?thesis by (simp add: system_sound_def)
next
  case (timed_out runs i run db)
  with assms(2) have ok: "tables_sound sha256 db" "runs_sound sha256 db runs" by (simp_all add: system_sound_def)
  have "runs_sound sha256 db (runs(i \<mapsto> Ended None))"
    by (rule runs_sound_upd [OF ok(2) refl subset_refl]) (use timed_out in \<open>simp_all add: run_ok_def\<close>)
  with ok timed_out show ?thesis by (simp add: system_sound_def)
next
  case (staged runs i files digest db)
  with assms(2) have ok: "tables_sound sha256 db" "runs_sound sha256 db runs" by (simp_all add: system_sound_def)
  from ok(2) staged(3) have run: "run_of (id_imports db) i" "run_ok sha256 (id_store db) (Uploaded files digest)"
    by (simp_all add: runs_sound_def)
  have "runs_sound sha256 (stage_files i files db) (runs(i \<mapsto> Ended (Some (Inr digest))))"
    by (rule runs_sound_upd [OF ok(2)]) (use staged in \<open>simp_all add: run_ok_def stage_files_def\<close>)
  moreover have "tables_sound sha256 (stage_files i files db)"
    by (rule stage_files_sound [OF ok(1) run(1)]) (use run(2) in \<open>simp add: run_ok_def\<close>)
  ultimately show ?thesis using staged by (simp add: system_sound_def)
next
  case (ended runs i r db)
  with assms(2) show ?thesis by (simp add: system_sound_def end_import_sound ended_runs_sound)
next
  case (restarted db runs)
  with assms(2) show ?thesis by (simp add: system_sound_def runs_sound_def)
next
  case (reaped db runs)
  with assms(2) have ok: "tables_sound sha256 db" "runs_sound sha256 db runs" by (simp_all add: system_sound_def)
  have "runs_sound sha256 (fst (fail_orphaned_imports db)) runs"
    by (rule runs_sound_keep [OF ok(2)]) (simp_all add: fail_orphaned_imports_def Let_def run_of_update_where)
  with reaped_sound [OF ok(1)] reaped show ?thesis by (simp add: system_sound_def)
next
  case (expired db runs now)
  with assms(2) have ok: "tables_sound sha256 db" "runs_sound sha256 db runs" by (simp_all add: system_sound_def)
  have "runs_sound sha256 (fst (expire_unconfirmed_imports now db)) runs"
    by (rule runs_sound_keep [OF ok(2)]) (auto simp: expire_unconfirmed_imports_def Let_def intro!: run_of_update_where)
  with expired_sound [OF ok(1)] expired show ?thesis by (simp add: system_sound_def)
next
  case (confirmed admin csrf i ids now db db' n runs)
  with assms(2) have ok: "tables_sound sha256 db" "runs_sound sha256 db runs" by (simp_all add: system_sound_def)
  have d: "distinct (map im_id (id_imports db))" "distinct (map input_key (id_files db))" using ok(1) by (simp_all add: tables_sound_def)
  obtain m where m: "m \<in> set (id_imports db)" "im_id m = i" "im_state m = Import_staged"
    and out: "id_imports db' = update_key im_id i (\<lambda>m. m\<lparr>im_state := Import_confirmed, im_confirmed_at := Some now\<rparr>) (id_imports db)"
      "id_store db' = id_store db" by (rule confirm_import_Inr [OF confirmed(3) d(2)]) (rule that, assumption+)
  have "runs_sound sha256 db' runs"
  proof (rule runs_sound_keep [OF ok(2)])
    fix j assume j: "run_of (id_imports db) j"
    from run_of_unique [OF d(1) j m(1)] m(2,3) have "j \<noteq> i" by auto
    then show "run_of (id_imports db') j" unfolding out update_key_def by (rule run_of_other [rotated 2]) (use j in simp_all)
  qed (simp add: out)
  with confirm_import_sound [OF ok(1) confirmed(3)] confirmed show ?thesis by (simp add: system_sound_def)
next
  case (deleted admin csrf file_id counted pinned_now db built db' built' runs)
  with assms(2) have ok: "tables_sound sha256 db" "runs_sound sha256 db runs" by (simp_all add: system_sound_def)
  note d = delete_input_data_Inr [OF deleted(3)]
  have "distinct (map input_key (id_files db'))" using ok(1) unfolding d by (simp add: tables_sound_def distinct_map_filter)
  with ok(1) have "tables_sound sha256 db'" by (simp add: tables_sound_def d)
  moreover have "runs_sound sha256 db' runs" by (rule runs_sound_keep [OF ok(2)]) (simp_all add: d)
  ultimately show ?thesis using deleted by (simp add: system_sound_def)
qed

lemma reachable_system_sound: "imports_reachable sha256 message s \<Longrightarrow> system_sound sha256 s"
proof (induction rule: imports_reachable.induct)
  case imports_start
  show ?case by (simp add: system_sound_def tables_sound_def runs_sound_def no_imports_def)
qed (rule import_step_sound)

section \<open>An import from start to end\<close>

definition tiny_github :: github where
  "tiny_github path = Inr (Some (replicate 40 97, lit ''commit''))"

definition tiny_import_row :: "import_state \<Rightarrow> ustr option \<Rightarrow> time option \<Rightarrow> import_row" where
  "tiny_import_row state digest confirmed_at = \<lparr>im_id = 1, im_tarball_date = lit ''20240101'', im_commit_sha = replicate 40 97,
     im_tarball_sha256 = digest, im_state = state, im_error = None, im_requested_by = Some (us_id sample_user),
     im_requested_at = 5, im_confirmed_at = confirmed_at\<rparr>"

definition tiny_started :: import_db where
  "tiny_started = no_imports\<lparr>id_imports := [tiny_import_row Import_running None None],
     id_audit := log_import (lit ''input_data.import_staged'') (Some (us_id sample_user)) 1 []\<rparr>"

definition tiny_rows :: "staged_row list" where
  "tiny_rows = [staged_of 1 [] tiny_import, staged_of 1 [] tiny_alias]"

definition tiny_ready :: import_db where
  "tiny_ready = tiny_started\<lparr>id_staged := tiny_rows, id_imports := [tiny_import_row Import_staged (Some (lit ''d'')) None]\<rparr>"

definition tiny_done :: import_db where
  "tiny_done = tiny_ready\<lparr>id_files := map (data_row_of (lit ''20240101'') (us_id sample_user) 6 7) tiny_rows,
     id_imports := [tiny_import_row Import_confirmed (Some (lit ''d'')) (Some 6)],
     id_audit := log_import (lit ''input_data.import_confirmed'') (Some (us_id sample_user)) 1 (id_audit tiny_started)\<rparr>"

lemma tiny_start: "start_import tiny_github True sample_user ok (lit ''20240101'') (lit ''main'') 1 5 no_imports = Inr tiny_started"
proof -
  have "resolve_ref tiny_github True (lit ''main'') = Inr (replicate 40 97)" by code_simp
  moreover have "trim (lit ''20240101'') = lit ''20240101''" "utf8_len (lit ''20240101'') = 8" "list_all is_ascii_digit (lit ''20240101'')"
    by code_simp+
  ultimately show ?thesis by (simp add: start_import_def tiny_started_def tiny_import_row_def no_imports_def)
qed

lemma tiny_fields:
  "if_path tiny_import = lit ''letterdistributions/english.csv''" "if_path tiny_alias = lit ''letterdistributions/other.csv''"
  "if_object_key tiny_import = None" "if_object_key tiny_alias = None"
  "lit ''letterdistributions/english.csv'' \<noteq> lit ''letterdistributions/other.csv''"
  "lit ''letterdistributions/other.csv'' \<noteq> lit ''letterdistributions/english.csv''"
  by (simp_all add: tiny_import_def tiny_alias_def imported_def stores_object_def lit_def)

lemma tiny_stage: "stage_files 1 [tiny_import, tiny_alias] tiny_started = tiny_started\<lparr>id_staged := tiny_rows\<rparr>"
  by (simp add: stage_files_def stage_file_def tiny_started_def no_imports_def staged_key_def staged_of_def tiny_fields tiny_rows_def Let_def)

lemma tiny_end: "end_import message 1 (Some (Inr (lit ''d''))) (tiny_started\<lparr>id_staged := tiny_rows\<rparr>) = tiny_ready"
  by (simp add: end_import_def finish_staging_def tiny_ready_def tiny_started_def tiny_import_row_def no_imports_def Let_def
    tiny_rows_def staged_of_def disposition_of_def)

lemma tiny_confirm: "confirm_import sample_user ok 1 (\<lambda>_. 7) 6 tiny_ready = Inr (tiny_done, 2)"
  by (simp add: confirm_import_def row_with_def ok_or_def Let_def tiny_ready_def tiny_started_def tiny_done_def tiny_import_row_def
    no_imports_def tiny_rows_def staged_of_def disposition_of_def insert_input_def input_key_def data_row_of_def tiny_fields update_key_def)

lemma tiny_reachable:
  "imports_reachable no_digest message (tiny_ready, Map.empty)" "imports_reachable no_digest message (tiny_done, Map.empty)"
proof -
  let ?f = "[tiny_import, tiny_alias]"
  have "imports_reachable no_digest message (tiny_started, [1 \<mapsto> Fetching])"
    by (rule imports_step [OF imports_start import_step.started [OF tiny_start]]) (simp add: no_imports_def)
  from imports_step [OF this import_step.walked [where i = 1 and digest = "lit ''d''", OF _ tiny_walk]]
  have walked: "imports_reachable no_digest message (tiny_started, [1 \<mapsto> Walked ?f (lit ''d'')])" by simp
  have up: "upload_inputs (id_store tiny_started) ?f (\<lambda>_. (True, True)) = (id_store tiny_started, Inr ())"
    by (simp add: tiny_fields)
  from imports_step [OF walked import_step.uploaded [where i = 1, OF _ up]]
  have "imports_reachable no_digest message (tiny_started, [1 \<mapsto> Uploaded ?f (lit ''d'')])" by simp
  from imports_step [OF this import_step.staged [where i = 1]]
  have "imports_reachable no_digest message (tiny_started\<lparr>id_staged := tiny_rows\<rparr>, [1 \<mapsto> Ended (Some (Inr (lit ''d'')))])"
    by (simp add: tiny_stage [simplified])
  from imports_step [OF this import_step.ended [where i = 1]]
  show ready: "imports_reachable no_digest message (tiny_ready, Map.empty)" by (simp add: tiny_end [simplified])
  from imports_step [OF ready import_step.confirmed [OF tiny_confirm]]
  show "imports_reachable no_digest message (tiny_done, Map.empty)" .
qed

section \<open>Properties\<close>

text \<open>C29: whatever imports run, fail, are cut, reaped, expired, confirmed or have their files deleted, every file jobs
  can pin is at a path birdtest pins and once under its digest, with its role's bytes under that digest or its
  object in the store; so is everything staged; and an import's state says what its staged rows are: something
  to confirm, nothing new, or none once cancelled.\<close>

theorem imports_stay_sound:
  assumes "imports_reachable sha256 message (db, runs)"
  shows "distinct (map input_key (id_files db)) \<and> (\<forall>r\<in>set (id_files db). sound_row sha256 (id_store db) r) \<and>
    (\<forall>r\<in>set (id_staged db). sound_staged sha256 (id_store db) r) \<and> (\<forall>m\<in>set (id_imports db). import_ok (id_staged db) m)"
  using reachable_system_sound [OF assms] unfolding system_sound_def tables_sound_def by simp

lemma imports_stay_sound_witness:
  "distinct (map input_key (id_files tiny_done)) \<and> list_all (sound_row no_digest []) (id_files tiny_done) \<and>
     length (id_files tiny_done) = 2"
  using imports_stay_sound [OF tiny_reachable(2) [of "\<lambda>_. ''''"]]
  by (simp add: tiny_done_def tiny_ready_def tiny_started_def no_imports_def tiny_rows_def)

text \<open>C30: a confirmation answers only for an import that is staged, and once: it inserts exactly the files shown as new
  or changed that are not there yet, each as it was shown and under its tarball's date, answers how many, and leaves
  what was there as it was.\<close>

theorem confirmations_insert_what_was_shown:
  assumes "imports_reachable sha256 message (db, runs)" "confirm_import admin csrf i ids now db = Inr (db', n)"
  shows "\<exists>m\<in>set (id_imports db). im_id m = i \<and> im_state m = Import_staged \<and>
    (\<exists>new. id_files db' = id_files db @ new \<and> n = length new \<and>
      set new \<subseteq> (\<lambda>r. data_row_of (im_tarball_date m) (us_id admin) now (ids r) r) ` set (proposed i db) \<and>
      input_key ` set (id_files db') = input_key ` set (id_files db) \<union> (\<lambda>r. (sr_path r, sr_sha256 r)) ` set (proposed i db)) \<and>
    confirm_import admin csrf i ids later db' = Inl (Conflict ''this import is not staged'')"
proof -
  from reachable_system_sound [OF assms(1)] have ok: "tables_sound sha256 db" by (simp add: system_sound_def)
  then have d: "distinct (map im_id (id_imports db))" "distinct (map input_key (id_files db))" by (simp_all add: tables_sound_def)
  from assms(2) have csrf: "csrf = ok" by (simp add: confirm_import_def and_then_check_Inr)
  from confirm_import_Inr [OF assms(2) d(2)] obtain m new where m: "m \<in> set (id_imports db)" "im_id m = i" "im_state m = Import_staged"
    and new: "id_files db' = id_files db @ new" "n = length new" "distinct (map input_key (id_files db @ new))"
      "set new \<subseteq> (\<lambda>r. data_row_of (im_tarball_date m) (us_id admin) now (ids r) r) ` set (proposed i db)"
      "input_key ` set (id_files db @ new) = input_key ` set (id_files db) \<union> (\<lambda>r. (sr_path r, sr_sha256 r)) ` set (proposed i db)"
    and rest: "id_imports db' = update_key im_id i (\<lambda>m. m\<lparr>im_state := Import_confirmed, im_confirmed_at := Some now\<rparr>) (id_imports db)"
      "id_staged db' = id_staged db" "id_store db' = id_store db" .
  have "row_with im_id i (id_imports db) \<noteq> None" using m(1,2) by (auto simp: row_with_None)
  then obtain m' where "row_with im_id i (id_imports db') = Some (m'\<lparr>im_state := Import_confirmed, im_confirmed_at := Some now\<rparr>)"
    unfolding rest(1) by (auto simp: row_with_update_key)
  then have again: "confirm_import admin csrf i ids later db' = Inl (Conflict ''this import is not staged'')"
    by (simp add: confirm_import_def csrf ok_or_def)
  show ?thesis
    by (intro bexI [OF _ m(1)] conjI m(2,3) again exI [of _ new] new(1,2,4)) (simp only: new(1,5))
qed

lemma confirmations_insert_what_was_shown_witness:
  "confirm_import sample_user ok 1 (\<lambda>_. 7) 9 tiny_done = Inl (Conflict ''this import is not staged'') \<and>
     id_files tiny_ready = [] \<and> length (id_files tiny_done) = 2"
proof -
  from confirmations_insert_what_was_shown [OF tiny_reachable(1) [of "\<lambda>_. ''''"] tiny_confirm, where later = 9]
  have "confirm_import sample_user ok 1 (\<lambda>_. 7) 9 tiny_done = Inl (Conflict ''this import is not staged'')" by blast
  then show ?thesis by (simp add: tiny_done_def tiny_ready_def tiny_started_def no_imports_def tiny_rows_def)
qed

end
