(* ===== verification/Bradley_Terry.thy ===== *)
theory Bradley_Terry
  imports Complex_Main Prelude
begin

text \<open>
  \<open>stats/bradley_terry.rs\<close>: the rating fit of a pool, by Newton's method on the log-strengths.  Doubles are exact
  reals, so that what the code does about rounding (a value that is not finite, a factor that rounding refuses)
  is never needed; matrices are row-major lists, as there.  A \<open>None\<close> standard error is the infinite one.
\<close>

definition POINTS_PER_LOGIT :: real where "POINTS_PER_LOGIT = 250"
definition PRIOR_GAMES :: real where "PRIOR_GAMES = 2"
definition PRIOR_SCALE :: real where "PRIOR_SCALE = 2"
definition PRIOR_FADE_GAMES :: real where "PRIOR_FADE_GAMES = 200"
definition PRIOR_FLOOR_GAMES :: real where "PRIOR_FLOOR_GAMES = 0.2"
definition MAX_ITERATIONS :: nat where "MAX_ITERATIONS = 1000"
definition CONVERGENCE :: real where "CONVERGENCE = 1 / 10 ^ 6"
definition FULL_STEP_RADIUS :: real where "FULL_STEP_RADIUS = 0.5"
definition MAX_STEP :: real where "MAX_STEP = 8"
definition PULL_IN_ERROR :: real where "PULL_IN_ERROR = 1.5"

section \<open>The results\<close>

record head2head =
  h2h_games :: real
  h2h_score :: real

definition no_games :: head2head where
  "no_games = \<lparr>h2h_games = 0, h2h_score = 0\<rparr>"

record matrix =
  mx_n :: nat
  mx_cells :: "head2head list"

definition matrix_new :: "nat \<Rightarrow> matrix" where
  "matrix_new n = \<lparr>mx_n = n, mx_cells = replicate (n * n) no_games\<rparr>"

definition matrix_get :: "matrix \<Rightarrow> nat \<Rightarrow> nat \<Rightarrow> head2head" where
  "matrix_get m i j = mx_cells m ! (i * mx_n m + j)"

definition add_to :: "real \<Rightarrow> real \<Rightarrow> head2head \<Rightarrow> head2head" where
  "add_to games score c = c\<lparr>h2h_games := h2h_games c + games, h2h_score := h2h_score c + score\<rparr>"

definition matrix_add :: "nat \<Rightarrow> nat \<Rightarrow> real \<Rightarrow> real \<Rightarrow> matrix \<Rightarrow> matrix" where
  "matrix_add i j games score_i m =
     (if i = j \<or> games \<le> 0 then m
      else
        let n = mx_n m;
            forward = (mx_cells m)[i * n + j := add_to games score_i (mx_cells m ! (i * n + j))];
            both = forward[j * n + i := add_to games (games - score_i) (forward ! (j * n + i))]
        in m\<lparr>mx_cells := both\<rparr>)"

definition games_played :: "matrix \<Rightarrow> nat \<Rightarrow> real" where
  "games_played m i = (\<Sum>j\<leftarrow>[0..<mx_n m]. h2h_games (matrix_get m i j))"

section \<open>Components\<close>

text \<open>A slot nobody has reached is \<open>None\<close>; the top of the stack is its head.\<close>

definition visit_slot :: "matrix \<Rightarrow> nat \<Rightarrow> nat \<Rightarrow> nat \<Rightarrow> nat option list \<times> nat list \<Rightarrow> nat option list \<times> nat list" where
  "visit_slot m mark current other st = (case st of (component, stack) \<Rightarrow>
     if component ! other = None \<and> h2h_games (matrix_get m current other) > 0
     then (component[other := Some mark], other # stack) else (component, stack))"

definition unreached :: "nat option list \<Rightarrow> nat" where
  "unreached component = length (filter (\<lambda>c. c = None) component)"

lemma unreached_update:
  "other < length component \<Longrightarrow> component ! other = None \<Longrightarrow> Suc (unreached (component[other := Some mark])) = unreached component"
proof (induction component arbitrary: other)
  case (Cons c cs)
  then show ?case by (cases other) (auto simp: unreached_def)
qed simp

lemma fold_visit_slot:
  assumes "\<forall>other\<in>set others. other < length (fst st)"
  shows "length (fst (fold (visit_slot m mark current) others st)) = length (fst st) \<and>
    length (snd (fold (visit_slot m mark current) others st)) + unreached (fst (fold (visit_slot m mark current) others st)) =
      length (snd st) + unreached (fst st)"
  using assms
proof (induction others arbitrary: st)
  case (Cons o1 others)
  obtain component stack where st: "st = (component, stack)" by (cases st)
  have step: "length (fst (visit_slot m mark current o1 st)) = length component"
    "length (snd (visit_slot m mark current o1 st)) + unreached (fst (visit_slot m mark current o1 st)) =
       length stack + unreached component"
    using Cons.prems unreached_update [of o1 component mark] by (auto simp: visit_slot_def st)
  with Cons.IH [of "visit_slot m mark current o1 st"] Cons.prems show ?case by (simp add: st)
qed simp

lemma visits_measure:
  "(case fold (visit_slot m mark current) [0..<length component] (component, stack) of (component', stack') \<Rightarrow>
      length stack' + unreached component') = length stack + unreached component"
  using fold_visit_slot [of "[0..<length component]" "(component, stack)" m mark current]
  by (cases "fold (visit_slot m mark current) [0..<length component] (component, stack)") auto

function flood :: "matrix \<Rightarrow> nat \<Rightarrow> nat option list \<Rightarrow> nat list \<Rightarrow> nat option list" where
  "flood m mark component [] = component"
| "flood m mark component (current # stack) =
     (case fold (visit_slot m mark current) [0..<length component] (component, stack) of
        (component', stack') \<Rightarrow> flood m mark component' stack')"
  by pat_completeness auto
termination
  by (relation "measure (\<lambda>(_, _, component, stack). length stack + unreached component)") (auto simp: visits_measure)

fun components_from :: "matrix \<Rightarrow> nat list \<Rightarrow> nat option list \<Rightarrow> nat \<Rightarrow> nat option list" where
  "components_from m [] component mark = component"
| "components_from m (start # starts) component mark =
     (if component ! start \<noteq> None then components_from m starts component mark
      else components_from m starts (flood m mark (component[start := Some mark]) [start]) (Suc mark))"

definition components :: "matrix \<Rightarrow> nat option list" where
  "components m = components_from m [0..<mx_n m] (replicate (mx_n m) None) 0"

section \<open>Probabilities\<close>

definition win_probability :: "real \<Rightarrow> real \<Rightarrow> real" where
  "win_probability a b = 1 / (1 + exp (b - a))"

definition log_sum_exp :: "real \<Rightarrow> real \<Rightarrow> real" where
  "log_sum_exp a b = max a b + ln (1 + exp (- \<bar>a - b\<bar>))"

section \<open>Linear algebra\<close>

definition cell_sum :: "real list \<Rightarrow> real list \<Rightarrow> nat \<Rightarrow> nat \<Rightarrow> nat \<Rightarrow> real" where
  "cell_sum a l m i j = foldl (\<lambda>s k. s - l ! (i * m + k) * l ! (j * m + k)) (a ! (i * m + j)) [0..<j]"

definition cholesky_cell :: "real list \<Rightarrow> nat \<Rightarrow> nat \<times> nat \<Rightarrow> real list \<Rightarrow> real list option" where
  "cholesky_cell a m ij l = (case ij of (i, j) \<Rightarrow>
     let s = cell_sum a l m i j in
     if i = j then (if s \<le> 0 then None else Some (l[i * m + i := sqrt s]))
     else Some (l[i * m + j := s / l ! (j * m + j)]))"

fun cholesky_cells :: "real list \<Rightarrow> nat \<Rightarrow> (nat \<times> nat) list \<Rightarrow> real list \<Rightarrow> real list option" where
  "cholesky_cells a m [] l = Some l"
| "cholesky_cells a m (ij # rest) l = (case cholesky_cell a m ij l of None \<Rightarrow> None | Some l' \<Rightarrow> cholesky_cells a m rest l')"

definition lower_cells :: "nat \<Rightarrow> (nat \<times> nat) list" where
  "lower_cells m = concat (map (\<lambda>i. map (Pair i) [0..<Suc i]) [0..<m])"

definition cholesky :: "real list \<Rightarrow> nat \<Rightarrow> real list option" where
  "cholesky a m = cholesky_cells a m (lower_cells m) (replicate (m * m) 0)"

text \<open>The two substitutions: \<open>L y = b\<close> down the rows, then \<open>L\<^sup>T x = y\<close> up them, in place.\<close>

definition forward_row :: "real list \<Rightarrow> nat \<Rightarrow> nat \<Rightarrow> real list \<Rightarrow> real list" where
  "forward_row l m i y = y[i := foldl (\<lambda>s k. s - l ! (i * m + k) * y ! k) (y ! i) [0..<i] / l ! (i * m + i)]"

definition backward_row :: "real list \<Rightarrow> nat \<Rightarrow> nat \<Rightarrow> real list \<Rightarrow> real list" where
  "backward_row l m i y = y[i := foldl (\<lambda>s k. s - l ! (k * m + i) * y ! k) (y ! i) [Suc i..<m] / l ! (i * m + i)]"

definition cholesky_solve :: "real list \<Rightarrow> nat \<Rightarrow> real list \<Rightarrow> real list" where
  "cholesky_solve l m b = fold (backward_row l m) (rev [0..<m]) (fold (forward_row l m) [0..<m] b)"

definition add_at :: "nat \<Rightarrow> real \<Rightarrow> real list \<Rightarrow> real list" where
  "add_at k x xs = xs[k := xs ! k + x]"

definition add_pair :: "nat \<Rightarrow> nat option \<Rightarrow> nat option \<Rightarrow> real \<Rightarrow> real list \<Rightarrow> real list" where
  "add_pair m a b x xs0 =
     (let xs1 = (case a of Some a \<Rightarrow> add_at (a * m + a) x xs0 | None \<Rightarrow> xs0);
          xs2 = (case b of Some b \<Rightarrow> add_at (b * m + b) x xs1 | None \<Rightarrow> xs1)
      in (case (a, b) of (Some a, Some b) \<Rightarrow> add_at (b * m + a) (- x) (add_at (a * m + b) (- x) xs2) | _ \<Rightarrow> xs2))"

definition damped :: "real list \<Rightarrow> nat \<Rightarrow> real \<Rightarrow> real list" where
  "damped curvature m damping = fold (\<lambda>k. add_at (k * m + k) damping) [0..<m] curvature"

text \<open>Forty factorisations at most, the damping growing from nothing.\<close>

fun damped_tries :: "nat \<Rightarrow> real \<Rightarrow> real \<Rightarrow> real list \<Rightarrow> nat \<Rightarrow> real list \<Rightarrow> real list option" where
  "damped_tries 0 unit damping curvature m gradient = None"
| "damped_tries (Suc tries) unit damping curvature m gradient = (case cholesky (damped curvature m damping) m of
     Some factor \<Rightarrow> Some (cholesky_solve factor m gradient)
   | None \<Rightarrow> damped_tries tries unit (if damping = 0 then unit / 10 ^ 12 else damping * 10) curvature m gradient)"

definition damped_newton_step :: "real list \<Rightarrow> nat \<Rightarrow> real list \<Rightarrow> real list option" where
  "damped_newton_step curvature m gradient =
     damped_tries 40 (fold max (map (\<lambda>k. \<bar>curvature ! (k * m + k)\<bar>) [0..<m]) (1 / 10 ^ 12)) 0 curvature m gradient"

section \<open>What is maximised\<close>

text \<open>What a fit reads of its matrix: the head-to-heads with games, the virtual games, and the configs but the anchor.\<close>

record problem =
  pr_n :: nat
  pr_played :: "(nat \<times> nat \<times> real \<times> real) list"
  pr_virtual :: "real list"
  pr_free :: "nat list"

definition played_of :: "matrix \<Rightarrow> (nat \<times> nat \<times> real \<times> real) list" where
  "played_of m = map (\<lambda>(i, j). (i, j, h2h_games (matrix_get m i j), h2h_score (matrix_get m i j)))
     (filter (\<lambda>(i, j). h2h_games (matrix_get m i j) > 0)
       (concat (map (\<lambda>i. map (Pair i) [Suc i..<mx_n m]) [0..<mx_n m])))"

definition virtual_games_of :: "matrix \<Rightarrow> nat \<Rightarrow> real" where
  "virtual_games_of m i = max (PRIOR_GAMES / (1 + games_played m i / PRIOR_FADE_GAMES)) PRIOR_FLOOR_GAMES"

definition problem_of :: "matrix \<Rightarrow> nat \<Rightarrow> problem" where
  "problem_of m anchor = \<lparr>pr_n = mx_n m, pr_played = played_of m, pr_virtual = map (virtual_games_of m) [0..<mx_n m],
     pr_free = filter (\<lambda>i. i \<noteq> anchor) [0..<mx_n m]\<rparr>"

definition slope :: real where
  "slope = 1 / PRIOR_SCALE"

definition mean_strength :: "nat \<Rightarrow> real list \<Rightarrow> real" where
  "mean_strength n theta = sum_list theta / real n"

definition slot_of :: "nat list \<Rightarrow> nat \<Rightarrow> nat option" where
  "slot_of xs i = map_of (zip xs [0..<length xs]) i"

definition objective :: "problem \<Rightarrow> real list \<Rightarrow> real" where
  "objective p theta =
     (let reals = (\<Sum>(i, j, games, score)\<leftarrow>pr_played p. let d = theta ! i - theta ! j in score * d - games * log_sum_exp d 0);
          centre = mean_strength (pr_n p) theta;
          prior = (\<Sum>i\<leftarrow>[0..<pr_n p]. let d = slope * (theta ! i - centre) in pr_virtual p ! i * (d / 2 - log_sum_exp d 0))
      in reals + prior)"

text \<open>One head-to-head's share of the gradient and of the negated Hessian.\<close>

definition add_played ::
  "problem \<Rightarrow> real list \<Rightarrow> nat \<times> nat \<times> real \<times> real \<Rightarrow> real list \<times> real list \<Rightarrow> real list \<times> real list" where
  "add_played p theta cell gc = (case (cell, gc) of ((i, j, games, score), (gradient, curvature)) \<Rightarrow>
     let w = win_probability (theta ! i) (theta ! j); surplus = score - games * w;
         a = slot_of (pr_free p) i; b = slot_of (pr_free p) j;
         g1 = (case a of Some a \<Rightarrow> add_at a surplus gradient | None \<Rightarrow> gradient);
         g2 = (case b of Some b \<Rightarrow> add_at b (- surplus) g1 | None \<Rightarrow> g1)
     in (g2, add_pair (length (pr_free p)) a b (games * w * (1 - w)) curvature))"

definition pull_of :: "problem \<Rightarrow> real list \<Rightarrow> nat \<Rightarrow> real" where
  "pull_of p theta i = slope * pr_virtual p ! i * (0.5 - win_probability (slope * theta ! i) (slope * mean_strength (pr_n p) theta))"

definition weight_of :: "problem \<Rightarrow> real list \<Rightarrow> nat \<Rightarrow> real" where
  "weight_of p theta i = (let w = win_probability (slope * theta ! i) (slope * mean_strength (pr_n p) theta)
     in slope * slope * pr_virtual p ! i * w * (1 - w))"

definition derivatives :: "problem \<Rightarrow> real list \<Rightarrow> real list \<times> real list" where
  "derivatives p theta =
     (let m = length (pr_free p); share = 1 / real (pr_n p);
          (gradient, curvature) = fold (add_played p theta) (pr_played p) (replicate m 0, replicate (m * m) 0);
          pulls = map (pull_of p theta) [0..<pr_n p]; weights = map (weight_of p theta) [0..<pr_n p];
          pull_sum = sum_list pulls; weight_sum = sum_list weights;
          free = pr_free p
      in (map (\<lambda>a. gradient ! a + (pulls ! (free ! a) - share * pull_sum)) [0..<m],
          map (\<lambda>c. let a = c div m; b = c mod m in
            curvature ! c + ((if a = b then weights ! (free ! a) else 0) - share * (weights ! (free ! a) + weights ! (free ! b)) +
              share * share * weight_sum)) [0..<m * m]))"

section \<open>Newton's method\<close>

definition dot :: "real list \<Rightarrow> real list \<Rightarrow> real" where
  "dot xs ys = sum_list (map2 (*) xs ys)"

text \<open>The free strengths moved by a step.\<close>

definition moved :: "problem \<Rightarrow> real \<Rightarrow> real list \<Rightarrow> real list \<Rightarrow> real list" where
  "moved p scale step theta = fold (\<lambda>(k, i). add_at i (scale * step ! k)) (enumerate 0 (pr_free p)) theta"

fun backtrack :: "nat \<Rightarrow> problem \<Rightarrow> real list \<Rightarrow> real \<Rightarrow> real \<Rightarrow> real \<Rightarrow> real list \<Rightarrow> real \<Rightarrow> (real list \<times> real) option" where
  "backtrack 0 p step largest gain current theta scale = None"
| "backtrack (Suc tries) p step largest gain current theta scale =
     (let trial = moved p scale step theta; val = objective p trial; near = (scale = 1 \<and> largest < FULL_STEP_RADIUS) in
      if near \<or> val \<ge> current + 1 / 10 ^ 4 * scale * gain then Some (trial, val)
      else backtrack tries p step largest gain current theta (scale / 2))"

text \<open>Strengths, iterations and whether they converged, from what is left of the iterations.\<close>

fun newton :: "nat \<Rightarrow> problem \<Rightarrow> nat \<Rightarrow> real list \<Rightarrow> real \<Rightarrow> real list \<times> nat \<times> bool" where
  "newton 0 p iterations theta current = (theta, iterations, False)"
| "newton (Suc left_over) p iterations theta current =
     (let (gradient, curvature) = derivatives p theta in
      case damped_newton_step curvature (length (pr_free p)) gradient of
        None \<Rightarrow> (theta, Suc iterations, False)
      | Some step \<Rightarrow>
          let largest = foldl (\<lambda>a d. max a \<bar>d\<bar>) 0 step; promised = dot gradient step in
          if largest < CONVERGENCE \<or> promised < 1 / 10 ^ 12 then (theta, Suc iterations, True)
          else
            (case backtrack 60 p step largest promised current theta (if largest > MAX_STEP then MAX_STEP / largest else 1) of
               Some (trial, val) \<Rightarrow> newton left_over p (Suc iterations) trial val
             | None \<Rightarrow> (theta, Suc iterations, largest * POINTS_PER_LOGIT < 1 / 10 ^ 3)))"

section \<open>The fit\<close>

record rated =
  rd_rating :: real
  rd_stderr :: "real option"
  rd_games :: real
  rd_component :: "nat option"

record fit_result =
  fr_ratings :: "rated list"
  fr_anchor_component :: "nat option"
  fr_iterations :: nat
  fr_converged :: bool

definition add_information ::
  "real list \<Rightarrow> nat list \<Rightarrow> nat \<times> nat \<times> real \<times> real \<Rightarrow> real list \<Rightarrow> real list" where
  "add_information theta members cell xs = (case cell of (i, j, games, score) \<Rightarrow>
     let w = win_probability (theta ! i) (theta ! j)
     in add_pair (length members) (slot_of members i) (slot_of members j) (games * w * (1 - w)) xs)"

definition members_of :: "matrix \<Rightarrow> nat \<Rightarrow> nat option list \<Rightarrow> nat option \<Rightarrow> nat list" where
  "members_of m anchor component anchor_component =
     filter (\<lambda>i. i \<noteq> anchor \<and> component ! i = anchor_component \<and> games_played m i > 0) [0..<mx_n m]"

definition standard_errors ::
  "matrix \<Rightarrow> nat \<Rightarrow> nat option list \<Rightarrow> nat option \<Rightarrow> real list \<Rightarrow> real list \<Rightarrow> real option list" where
  "standard_errors matrix anchor component anchor_component theta prior_gradient =
     (let n = mx_n matrix;
          stderr0 = (replicate n None)[anchor := Some 0];
          members = members_of matrix anchor component anchor_component;
          m = length members;
          information = fold (add_information theta members) (played_of matrix) (replicate (m * m) 0)
      in if m = 0 then stderr0
         else (case cholesky information m of
             None \<Rightarrow> stderr0
           | Some factor \<Rightarrow>
               let shift = cholesky_solve factor m (map (\<lambda>i. prior_gradient ! i) members) in
               fold (\<lambda>(k, i) stderr.
                   let pull = PULL_IN_ERROR * shift ! k;
                       variance = cholesky_solve factor m ((replicate m 0)[k := 1]) ! k + pull * pull
                   in if variance > 0 then stderr[i := Some (POINTS_PER_LOGIT * sqrt variance)] else stderr)
                 (enumerate 0 members) stderr0))"

definition prior_gradient_of :: "problem \<Rightarrow> real list \<Rightarrow> real list" where
  "prior_gradient_of p theta = (let pulls = map (pull_of p theta) [0..<pr_n p]; average = sum_list pulls / real (pr_n p)
     in map (\<lambda>pull. pull - average) pulls)"

definition fit :: "matrix \<Rightarrow> nat \<Rightarrow> real \<Rightarrow> fit_result" where
  "fit matrix anchor anchor_rating =
     (let n = mx_n matrix; component = components matrix;
          anchor_component = (if anchor < length component then component ! anchor else Some 0);
          p = problem_of matrix anchor; theta0 = replicate n 0;
          (theta, iterations, converged) =
            (if pr_free p = [] then (theta0, 0, True) else newton MAX_ITERATIONS p 0 theta0 (objective p theta0));
          stderr = standard_errors matrix anchor component anchor_component theta (prior_gradient_of p theta)
      in \<lparr>fr_ratings = map (\<lambda>i. \<lparr>rd_rating = (if i = anchor then anchor_rating else anchor_rating + theta ! i * POINTS_PER_LOGIT),
              rd_stderr = stderr ! i, rd_games = games_played matrix i, rd_component = component ! i\<rparr>) [0..<n],
          fr_anchor_component = anchor_component, fr_iterations = iterations, fr_converged = converged\<rparr>)"

definition is_rateable :: "fit_result \<Rightarrow> nat \<Rightarrow> bool" where
  "is_rateable f i \<longleftrightarrow> rd_component (fr_ratings f ! i) = fr_anchor_component f \<and> rd_games (fr_ratings f ! i) > 0"

record residual =
  re_i :: nat
  re_j :: nat
  re_games :: real
  re_actual :: real
  re_predicted :: real

definition residual_of :: "fit_result \<Rightarrow> nat \<times> nat \<times> real \<times> real \<Rightarrow> residual" where
  "residual_of f cell = (case cell of (i, j, games, score) \<Rightarrow>
     let gap = rd_rating (fr_ratings f ! i) - rd_rating (fr_ratings f ! j)
     in \<lparr>re_i = i, re_j = j, re_games = games, re_actual = score / games, re_predicted = 1 / (1 + exp (- gap / POINTS_PER_LOGIT))\<rparr>)"

definition residuals :: "fit_result \<Rightarrow> matrix \<Rightarrow> residual list" where
  "residuals f m = sort_key (\<lambda>r. - \<bar>re_actual r - re_predicted r\<bar>) (map (residual_of f) (played_of m))"

end
