(* ===== verification/Bradley_Terry_Spec.thy ===== *)
theory Bradley_Terry_Spec
  imports Bradley_Terry
begin

text \<open>
  What the fit's pieces compute: the factorisation succeeds on exactly the positive definite matrices and its two
  substitutions solve them, the derivatives are those of what is maximised, and the components are who is joined
  to whom by games.
\<close>

section \<open>Cholesky factors\<close>

definition ent :: "nat \<Rightarrow> real list \<Rightarrow> nat \<Rightarrow> nat \<Rightarrow> real" where
  "ent m l i k = l ! (i * m + k)"

lemma cell_less: "i < m \<Longrightarrow> k < m \<Longrightarrow> i * m + k < m * m" for i :: nat
proof -
  assume "i < m" "k < m"
  then have "i * m + k < Suc i * m" "Suc i * m \<le> m * m" by (simp, intro mult_le_mono1) simp
  then show ?thesis by simp
qed

lemma cell_eq: "k < m \<Longrightarrow> k' < m \<Longrightarrow> i * m + k = i' * m + k' \<longleftrightarrow> i = i' \<and> k = k'" for i :: nat
proof
  assume k: "k < m" "k' < m" and e: "i * m + k = i' * m + k'"
  then have "(i * m + k) div m = (i' * m + k') div m" "(i * m + k) mod m = (i' * m + k') mod m" by simp_all
  with k show "i = i' \<and> k = k'" by simp
qed auto

lemma ent_update:
  "length l = m * m \<Longrightarrow> i < m \<Longrightarrow> j < m \<Longrightarrow> k < m \<Longrightarrow> ent m (l[i * m + j := x]) r k = (if r = i \<and> k = j then x else ent m l r k)"
  by (auto simp: ent_def nth_list_update cell_eq cell_less)

lemma foldl_minus: "foldl (\<lambda>s k. s - f k) x ks = x - sum_list (map f ks)" for x :: real
  by (induction ks arbitrary: x) auto

lemma cell_sum_eq: "cell_sum a l m i j = ent m a i j - (\<Sum>k<j. ent m l i k * ent m l j k)"
  by (simp add: cell_sum_def foldl_minus ent_def sum_list_sum_nth atLeast0LessThan)

definition factor_entry :: "real list \<Rightarrow> nat \<Rightarrow> real list \<Rightarrow> nat \<Rightarrow> nat \<Rightarrow> bool" where
  "factor_entry a m l i j \<longleftrightarrow> (\<Sum>k<j. ent m l i k * ent m l j k) + ent m l i j * ent m l j j = ent m a i j \<and> (i = j \<longrightarrow> ent m l i i > 0)"

text \<open>The cells before \<open>(i, j)\<close> are those of the factor, every other is still zero.\<close>

definition filled :: "nat \<Rightarrow> nat \<Rightarrow> nat \<Rightarrow> nat \<Rightarrow> bool" where
  "filled i j r k \<longleftrightarrow> k \<le> r \<and> (r < i \<or> r = i \<and> k < j)"

definition factored :: "real list \<Rightarrow> nat \<Rightarrow> nat \<Rightarrow> nat \<Rightarrow> real list \<Rightarrow> bool" where
  "factored a m i j l \<longleftrightarrow> length l = m * m \<and> (\<forall>r<m. \<forall>k<m. filled i j r k \<longrightarrow> factor_entry a m l r k) \<and>
     (\<forall>r<m. \<forall>k<m. \<not> filled i j r k \<longrightarrow> ent m l r k = 0)"

lemma factored_row: "factored a m i (Suc i) l \<longleftrightarrow> factored a m (Suc i) 0 l"
proof -
  have "filled i (Suc i) r k \<longleftrightarrow> filled (Suc i) 0 r k" for r k by (auto simp: filled_def)
  then show ?thesis by (simp add: factored_def)
qed

lemma factored_entry: "factored a m i j l \<Longrightarrow> r < m \<Longrightarrow> k < m \<Longrightarrow> filled i j r k \<Longrightarrow> factor_entry a m l r k"
  by (simp add: factored_def)

lemma factor_entry_update:
  assumes "length l = m * m" "i < m" "j \<le> i" "r < m" "k < m" "filled i j r k" "factor_entry a m l r k"
  shows "factor_entry a m (l[i * m + j := x]) r k"
proof -
  have other: "ent m (l[i * m + j := x]) r c = ent m l r c \<and> ent m (l[i * m + j := x]) k c = ent m l k c" if "c \<le> k" for c
    using assms that by (auto simp: ent_update filled_def)
  have "(\<Sum>c<k. ent m (l[i * m + j := x]) r c * ent m (l[i * m + j := x]) k c) = (\<Sum>c<k. ent m l r c * ent m l k c)"
    by (rule sum.cong) (use other in auto)
  with other [of k] assms(7) show ?thesis by (auto simp: factor_entry_def)
qed

lemma cholesky_cell_factored:
  assumes inv: "factored a m i j l" and ij: "j \<le> i" "i < m" and c: "cholesky_cell a m (i, j) l = Some l'"
  shows "factored a m i (Suc j) l'"
proof -
  let ?s = "cell_sum a l m i j"
  obtain x where l': "l' = l[i * m + j := x]" and x: "if i = j then 0 < ?s \<and> x = sqrt ?s else x = ?s / ent m l j j"
    using c by (auto simp: cholesky_cell_def Let_def ent_def split: if_splits)
  have len: "length l = m * m" and j: "j < m" using inv ij by (simp_all add: factored_def)
  have upd: "ent m l' r k = (if r = i \<and> k = j then x else ent m l r k)" if "k < m" for r k
    unfolding l' by (rule ent_update) (use len ij j that in auto)
  have "factor_entry a m l' i j"
  proof -
    have sums: "(\<Sum>k<j. ent m l' i k * ent m l' j k) = (\<Sum>k<j. ent m l i k * ent m l j k)"
      by (rule sum.cong) (use upd j in auto)
    show ?thesis
    proof (cases "i = j")
      case True
      with x upd [of j j] j have "ent m l' j j = sqrt ?s" "0 < ?s" by simp_all
      with sums True show ?thesis by (simp add: factor_entry_def cell_sum_eq)
    next
      case False
      with ij have "filled i j j j" by (simp add: filled_def)
      with inv j ij have "factor_entry a m l j j" by (auto simp: factored_def)
      then have "ent m l j j \<noteq> 0" by (simp add: factor_entry_def)
      with x False upd [of j i] upd [of j j] j have "ent m l' i j * ent m l' j j = ?s" by simp
      with sums False show ?thesis by (simp add: factor_entry_def cell_sum_eq)
    qed
  qed
  moreover have "factor_entry a m l' r k" if "r < m" "k < m" "filled i j r k" for r k
    unfolding l' by (rule factor_entry_update [OF len ij(2,1) that]) (use inv that in \<open>simp add: factored_def\<close>)
  moreover have "filled i (Suc j) r k \<longleftrightarrow> filled i j r k \<or> r = i \<and> k = j" for r k using ij by (auto simp: filled_def less_Suc_eq)
  moreover have "ent m l' r k = 0" if "r < m" "k < m" "\<not> filled i (Suc j) r k" for r k
    using inv upd [of k r] that ij by (auto simp: factored_def filled_def)
  ultimately show ?thesis using len unfolding factored_def l' by auto
qed

definition stuck :: "real list \<Rightarrow> nat \<Rightarrow> bool" where
  "stuck a m \<longleftrightarrow> (\<exists>i<m. \<exists>l. factored a m i i l \<and> cell_sum a l m i i \<le> 0)"

lemma cholesky_cells_append:
  "cholesky_cells a m (xs @ ys) l = (case cholesky_cells a m xs l of None \<Rightarrow> None | Some l' \<Rightarrow> cholesky_cells a m ys l')"
  by (induction xs arbitrary: l) (auto split: option.split)

lemma cholesky_row:
  assumes "factored a m i j l" "j \<le> Suc i" "i < m"
  shows "case cholesky_cells a m (map (Pair i) [j..<Suc i]) l of None \<Rightarrow> stuck a m | Some l' \<Rightarrow> factored a m (Suc i) 0 l'"
  using assms
proof (induction "Suc i - j" arbitrary: j l)
  case 0
  then have "j = Suc i" by simp
  with 0 show ?case by (simp add: factored_row)
next
  case (Suc d)
  then have j: "j \<le> i" and upt: "[j..<Suc i] = j # [Suc j..<Suc i]" by (simp_all add: upt_conv_Cons del: upt_Suc)
  show ?case
  proof (cases "cholesky_cell a m (i, j) l")
    case None
    then have "i = j" "cell_sum a l m i i \<le> 0" by (auto simp: cholesky_cell_def Let_def split: if_splits)
    with Suc.prems have "stuck a m" unfolding stuck_def by blast
    with None show ?thesis by (simp add: upt del: upt_Suc)
  next
    case (Some l')
    from cholesky_cell_factored [OF Suc.prems(1) j Suc.prems(3) Some] have "factored a m i (Suc j) l'" .
    from Suc.hyps(1) [OF _ this _ Suc.prems(3)] Suc.hyps(2) j Some show ?thesis by (simp add: upt del: upt_Suc)
  qed
qed

lemma cholesky_rows:
  assumes "factored a m i 0 l" "i \<le> m"
  shows "case cholesky_cells a m (concat (map (\<lambda>i. map (Pair i) [0..<Suc i]) [i..<m])) l of
    None \<Rightarrow> stuck a m | Some l' \<Rightarrow> factored a m m 0 l'"
  using assms
proof (induction "m - i" arbitrary: i l)
  case (Suc d)
  then have i: "i < m" and upt: "[i..<m] = i # [Suc i..<m]" by (simp_all add: upt_conv_Cons)
  show ?case
  proof (cases "cholesky_cells a m (map (Pair i) [0..<Suc i]) l")
    case None
    with cholesky_row [OF Suc.prems(1) _ i] show ?thesis by (simp add: upt cholesky_cells_append del: upt_Suc)
  next
    case (Some l')
    with cholesky_row [OF Suc.prems(1) _ i] have "factored a m (Suc i) 0 l'" by (simp del: upt_Suc)
    from Suc.hyps(1) [OF _ this] Suc.hyps(2) i Some show ?thesis by (simp add: upt cholesky_cells_append del: upt_Suc)
  qed
qed simp

lemma cholesky_cases:
  "case cholesky a m of None \<Rightarrow> stuck a m | Some l \<Rightarrow> factored a m m 0 l"
proof -
  have "factored a m 0 0 (replicate (m * m) 0)" by (auto simp: factored_def filled_def ent_def cell_less)
  from cholesky_rows [OF this] show ?thesis by (simp add: cholesky_def lower_cells_def del: upt_Suc)
qed

section \<open>Positive definite matrices\<close>

definition quad :: "nat \<Rightarrow> (nat \<Rightarrow> nat \<Rightarrow> real) \<Rightarrow> (nat \<Rightarrow> real) \<Rightarrow> real" where
  "quad m f x = (\<Sum>i<m. \<Sum>j<m. f i j * x i * x j)"

definition symmetric :: "nat \<Rightarrow> real list \<Rightarrow> bool" where
  "symmetric m a \<longleftrightarrow> (\<forall>i<m. \<forall>j<m. ent m a i j = ent m a j i)"

definition positive_definite :: "nat \<Rightarrow> real list \<Rightarrow> bool" where
  "positive_definite m a \<longleftrightarrow> (\<forall>x. (\<exists>i<m. x i \<noteq> 0) \<longrightarrow> 0 < quad m (ent m a) x)"

lemma quad_product: "quad n (\<lambda>i j. \<Sum>k<c. f i k * f j k) x = (\<Sum>k<c. (\<Sum>i<n. f i k * x i)\<^sup>2)"
proof -
  have "quad n (\<lambda>i j. \<Sum>k<c. f i k * f j k) x = (\<Sum>i<n. \<Sum>j<n. \<Sum>k<c. (f i k * x i) * (f j k * x j))"
    by (simp add: quad_def sum_distrib_right sum_distrib_left algebra_simps)
  also have "\<dots> = (\<Sum>k<c. \<Sum>i<n. \<Sum>j<n. (f i k * x i) * (f j k * x j))"
    by (subst sum.swap [of _ "{..<c}"]) (simp add: sum.swap [of _ "{..<n}" "{..<c}"])
  also have "\<dots> = (\<Sum>k<c. (\<Sum>i<n. f i k * x i)\<^sup>2)" by (simp add: power2_eq_square sum_product)
  finally show ?thesis .
qed

lemma factored_product:
  assumes l: "factored a m m 0 l" and s: "symmetric m a" and ij: "i < m" "j < m"
  shows "(\<Sum>k<m. ent m l i k * ent m l j k) = ent m a i j"
proof -
  have lower: "(\<Sum>k<m. ent m l i k * ent m l j k) = ent m a i j" if "j \<le> i" "i < m" for i j
  proof -
    have j: "j < m" using that by simp
    have zero: "ent m l j k = 0" if "k < m" "j < k" for k
      using l that j by (auto simp: factored_def filled_def)
    have "(\<Sum>k<m. ent m l i k * ent m l j k) = (\<Sum>k<Suc j. ent m l i k * ent m l j k)"
      by (rule sum.mono_neutral_right) (use j zero in auto)
    also have "\<dots> = ent m a i j"
      using l that j by (auto simp: factored_def filled_def factor_entry_def)
    finally show ?thesis .
  qed
  show ?thesis
  proof (cases "j \<le> i")
    case False
    with lower [of i j] lower [of j i] s ij show ?thesis by (simp add: symmetric_def mult.commute)
  qed (use lower ij in simp)
qed

lemma factored_diagonal: "factored a m m 0 l \<Longrightarrow> i < m \<Longrightarrow> 0 < ent m l i i"
  by (auto simp: factored_def filled_def factor_entry_def)

lemma factored_positive:
  assumes l: "factored a m m 0 l" and s: "symmetric m a"
  shows "positive_definite m a"
  unfolding positive_definite_def
proof (intro allI impI)
  fix x :: "nat \<Rightarrow> real" assume "\<exists>i<m. x i \<noteq> 0"
  then have ex: "\<exists>i. i < m \<and> x i \<noteq> 0" by blast
  define i where "i = Greatest (\<lambda>i. i < m \<and> x i \<noteq> 0)"
  have i: "i < m" "x i \<noteq> 0" using GreatestI_ex_nat [OF ex, of m] unfolding i_def by auto
  have above: "x r = 0" if "i < r" "r < m" for r
    using Greatest_le_nat [of "\<lambda>i. i < m \<and> x i \<noteq> 0" r m] that unfolding i_def [symmetric] by force
  have "quad m (ent m a) x = quad m (\<lambda>i j. \<Sum>k<m. ent m l i k * ent m l j k) x"
    unfolding quad_def by (intro sum.cong refl) (simp add: factored_product [OF l s])
  also have "\<dots> = (\<Sum>k<m. (\<Sum>i<m. ent m l i k * x i)\<^sup>2)" by (rule quad_product)
  also have "0 < \<dots>"
  proof (rule sum_pos2 [of _ i])
    have "(\<Sum>r<m. ent m l r i * x r) = (\<Sum>r\<in>{i}. ent m l r i * x r)"
    proof (rule sum.mono_neutral_right)
      show "\<forall>r\<in>{..<m} - {i}. ent m l r i * x r = 0"
        using above l i(1) by (auto simp: factored_def filled_def) (metis linorder_neqE_nat not_le)
    qed (use i in auto)
    with factored_diagonal [OF l i(1)] i(2) show "0 < (\<Sum>r<m. ent m l r i * x r)\<^sup>2" by simp
  qed (use i in auto)
  finally show "0 < quad m (ent m a) x" .
qed

text \<open>Back substitution: a lower triangular matrix with a diagonal has a combination of its rows for every target.\<close>

lemma back_substitution:
  fixes f :: "nat \<Rightarrow> nat \<Rightarrow> real"
  assumes "\<forall>k<n. f k k \<noteq> 0" "\<forall>r<n. \<forall>k<n. r < k \<longrightarrow> f r k = 0"
  shows "\<exists>x. \<forall>k<n. (\<Sum>r<n. f r k * x r) = c k"
  using assms
proof (induction n arbitrary: c)
  case (Suc n)
  let ?y = "c n / f n n"
  from Suc.IH [of "\<lambda>k. c k - f n k * ?y"] Suc.prems obtain x where x: "\<forall>k<n. (\<Sum>r<n. f r k * x r) = c k - f n k * ?y" by auto
  have "(\<Sum>r<Suc n. f r k * (x(n := ?y)) r) = c k" if "k < Suc n" for k
  proof -
    have "(\<Sum>r<n. f r k * (x(n := ?y)) r) = (\<Sum>r<n. f r k * x r)" by (rule sum.cong) auto
    moreover have "(\<Sum>r<n. f r n * x r) = 0" by (rule sum.neutral) (use Suc.prems(2) in auto)
    ultimately show ?thesis using that x Suc.prems(1) by (cases "k = n") auto
  qed
  then show ?case by blast
qed simp

lemma quad_cut:
  assumes "\<forall>r<m. i < r \<longrightarrow> x r = 0" "i < m"
  shows "quad m f x = quad (Suc i) f x"
proof -
  have "(\<Sum>s<m. f r s * x r * x s) = (\<Sum>s<Suc i. f r s * x r * x s)" for r
    by (rule sum.mono_neutral_right) (use assms in auto)
  then have "quad m f x = (\<Sum>r<m. \<Sum>s<Suc i. f r s * x r * x s)" by (simp add: quad_def)
  also have "\<dots> = (\<Sum>r<Suc i. \<Sum>s<Suc i. f r s * x r * x s)"
    by (rule sum.mono_neutral_right) (use assms in auto)
  finally show ?thesis by (simp add: quad_def)
qed

text \<open>The product of the factor so far, below the row that failed, and what is missing of that row's diagonal.\<close>

lemma stuck_product:
  assumes l: "factored a m i i l" and s: "symmetric m a" and i: "i < m" and rs: "r < Suc i" "t < Suc i"
  shows "ent m a r t = (\<Sum>k<i. ent m l r k * ent m l t k) + (if r = i \<and> t = i then cell_sum a l m i i else 0)"
proof -
  have lower: "ent m a r t = (\<Sum>k<i. ent m l r k * ent m l t k) + (if r = i \<and> t = i then cell_sum a l m i i else 0)"
    if "t \<le> r" "r \<le> i" for r t
  proof (cases "t = i")
    case True
    with that have "r = i" by simp
    with True show ?thesis by (simp add: cell_sum_eq)
  next
    case False
    with that have t: "t < i" by simp
    have zero: "ent m l t k = 0" if "k < i" "t < k" for k
      using l that i by (auto simp: factored_def filled_def)
    have "(\<Sum>k<i. ent m l r k * ent m l t k) = (\<Sum>k<Suc t. ent m l r k * ent m l t k)"
      by (rule sum.mono_neutral_right) (use t zero in auto)
    moreover have "factor_entry a m l r t" by (rule factored_entry [OF l]) (use that t i in \<open>auto simp: filled_def\<close>)
    ultimately show ?thesis using False by (simp add: factor_entry_def)
  qed
  show ?thesis
  proof (cases "t \<le> r")
    case False
    with lower [of r t] s rs i show ?thesis by (simp add: symmetric_def mult.commute)
  qed (use lower rs in simp)
qed

lemma stuck_not_positive:
  assumes "stuck a m" "symmetric m a"
  shows "\<not> positive_definite m a"
proof -
  from assms(1) obtain i l where i: "i < m" and l: "factored a m i i l" and neg: "cell_sum a l m i i \<le> 0" unfolding stuck_def by blast
  have d: "\<forall>k<i. ent m l k k \<noteq> 0"
  proof (intro allI impI)
    fix k assume "k < i"
    then have "factor_entry a m l k k" by (intro factored_entry [OF l]) (use i in \<open>auto simp: filled_def\<close>)
    then show "ent m l k k \<noteq> 0" by (simp add: factor_entry_def)
  qed
  have z: "\<forall>r<i. \<forall>k<i. r < k \<longrightarrow> ent m l r k = 0" using l i by (auto simp: factored_def filled_def)
  from back_substitution [OF d z, of "\<lambda>k. - ent m l i k"] obtain y where
    y: "\<forall>k<i. (\<Sum>r<i. ent m l r k * y r) = - ent m l i k" by blast
  define x where "x r = (if r < i then y r else if r = i then 1 else 0)" for r
  have cols: "(\<Sum>r<Suc i. ent m l r k * x r) = 0" if "k < i" for k
  proof -
    have "(\<Sum>r<i. ent m l r k * x r) = (\<Sum>r<i. ent m l r k * y r)" by (rule sum.cong) (simp_all add: x_def)
    with y that show ?thesis by (simp add: x_def)
  qed
  have "quad m (ent m a) x = quad (Suc i) (ent m a) x" by (rule quad_cut) (use i in \<open>auto simp: x_def\<close>)
  also have "\<dots> = quad (Suc i) (\<lambda>r t. \<Sum>k<i. ent m l r k * ent m l t k) x +
      (\<Sum>r<Suc i. \<Sum>t<Suc i. (if r = i \<and> t = i then cell_sum a l m i i else 0) * x r * x t)"
    unfolding quad_def sum.distrib [symmetric]
    by (intro sum.cong refl) (simp add: stuck_product [OF l assms(2) i] algebra_simps)
  also have "quad (Suc i) (\<lambda>r t. \<Sum>k<i. ent m l r k * ent m l t k) x = 0"
    unfolding quad_product using cols by simp
  also have "(\<Sum>r<Suc i. \<Sum>t<Suc i. (if r = i \<and> t = i then cell_sum a l m i i else 0) * x r * x t) = cell_sum a l m i i"
    by (simp add: x_def)
  finally have "quad m (ent m a) x \<le> 0" using neg by simp
  moreover have "\<exists>i<m. x i \<noteq> 0" using i by (intro exI [of _ i]) (simp add: x_def)
  ultimately show ?thesis unfolding positive_definite_def by (metis not_le)
qed

section \<open>The substitutions\<close>

lemma forward_rows:
  assumes "length b = m" "n \<le> m" "\<forall>i<m. ent m l i i \<noteq> 0"
  shows "length (fold (forward_row l m) [0..<n] b) = m \<and>
    (\<forall>i<n. (\<Sum>k<Suc i. ent m l i k * fold (forward_row l m) [0..<n] b ! k) = b ! i) \<and>
    (\<forall>i<m. n \<le> i \<longrightarrow> fold (forward_row l m) [0..<n] b ! i = b ! i)"
  using assms(2)
proof (induction n)
  case (Suc n)
  let ?y = "fold (forward_row l m) [0..<n] b"
  from Suc have y: "length ?y = m" "\<forall>i<n. (\<Sum>k<Suc i. ent m l i k * ?y ! k) = b ! i" "\<forall>i<m. n \<le> i \<longrightarrow> ?y ! i = b ! i" by auto
  let ?v = "(b ! n - (\<Sum>k<n. ent m l n k * ?y ! k)) / ent m l n n"
  have z: "fold (forward_row l m) [0..<Suc n] b = ?y[n := ?v]"
    using y Suc.prems by (simp add: forward_row_def foldl_minus ent_def sum_list_sum_nth atLeast0LessThan)
  have same: "(\<Sum>k<j. ent m l i k * ?y[n := ?v] ! k) = (\<Sum>k<j. ent m l i k * ?y ! k)" if "j \<le> n" for i j
    by (rule sum.cong) (use that in auto)
  have "(\<Sum>k<Suc i. ent m l i k * ?y[n := ?v] ! k) = b ! i" if "i < Suc n" for i
  proof (cases "i = n")
    case True
    with same [of n n] y(1) Suc.prems assms(3) show ?thesis by simp
  next
    case False
    with that have "Suc i \<le> n" by simp
    with same [OF this, of i] y(2) show ?thesis by simp
  qed
  with y Suc.prems show ?case unfolding z by auto
qed (use assms in simp)

lemma backward_rows:
  assumes "length y = m" "n \<le> m" "\<forall>i<m. ent m l i i \<noteq> 0"
  shows "length (fold (backward_row l m) (rev [n..<m]) y) = m \<and>
    (\<forall>i<m. n \<le> i \<longrightarrow> (\<Sum>k=i..<m. ent m l k i * fold (backward_row l m) (rev [n..<m]) y ! k) = y ! i) \<and>
    (\<forall>i<n. fold (backward_row l m) (rev [n..<m]) y ! i = y ! i)"
  using assms(2)
proof (induction "m - n" arbitrary: n)
  case 0
  with assms show ?case by simp
next
  case (Suc d)
  then have n: "n < m" and upt: "[n..<m] = n # [Suc n..<m]" by (simp_all add: upt_conv_Cons)
  let ?x = "fold (backward_row l m) (rev [Suc n..<m]) y"
  from Suc.hyps(1) [of "Suc n"] Suc.hyps(2) n have x: "length ?x = m"
    "\<forall>i<m. Suc n \<le> i \<longrightarrow> (\<Sum>k=i..<m. ent m l k i * ?x ! k) = y ! i" "\<forall>i<Suc n. ?x ! i = y ! i" by auto
  let ?v = "(y ! n - (\<Sum>k=Suc n..<m. ent m l k n * ?x ! k)) / ent m l n n"
  have z: "fold (backward_row l m) (rev [n..<m]) y = ?x[n := ?v]"
    using x by (simp add: upt backward_row_def foldl_minus ent_def interv_sum_list_conv_sum_set_nat)
  have same: "(\<Sum>k=j..<m. ent m l k i * ?x[n := ?v] ! k) = (\<Sum>k=j..<m. ent m l k i * ?x ! k)" if "n < j" for i j
    by (rule sum.cong) (use that in auto)
  have "(\<Sum>k=i..<m. ent m l k i * ?x[n := ?v] ! k) = y ! i" if "i < m" "n \<le> i" for i
  proof (cases "i = n")
    case True
    have "(\<Sum>k=n..<m. ent m l k n * ?x[n := ?v] ! k) = ent m l n n * ?v + (\<Sum>k=Suc n..<m. ent m l k n * ?x[n := ?v] ! k)"
      using n x(1) by (simp add: sum.atLeast_Suc_lessThan)
    with True same [of "Suc n" n] n assms(3) show ?thesis by simp
  next
    case False
    with that same [of i i] x(2) show ?thesis by simp
  qed
  with x n show ?case unfolding z by auto
qed

definition mat_times :: "nat \<Rightarrow> real list \<Rightarrow> real list \<Rightarrow> nat \<Rightarrow> real" where
  "mat_times m a x i = (\<Sum>j<m. ent m a i j * x ! j)"

lemma cholesky_solves:
  assumes l: "factored a m m 0 l" and s: "symmetric m a" and b: "length b = m"
  shows "length (cholesky_solve l m b) = m" "\<forall>i<m. mat_times m a (cholesky_solve l m b) i = b ! i"
proof -
  let ?y = "fold (forward_row l m) [0..<m] b" and ?x = "cholesky_solve l m b"
  have d: "\<forall>i<m. ent m l i i \<noteq> 0" using factored_diagonal [OF l] by force
  from forward_rows [OF b order_refl d] have y: "length ?y = m" "\<forall>i<m. (\<Sum>k<Suc i. ent m l i k * ?y ! k) = b ! i" by auto
  from backward_rows [OF y(1) _ d, of 0]
  have x: "length ?x = m" "\<forall>i<m. (\<Sum>k=i..<m. ent m l k i * ?x ! k) = ?y ! i" by (auto simp: cholesky_solve_def)
  show "length ?x = m" by (fact x(1))
  have zero: "ent m l i k = 0" if "i < k" "k < m" for i k using l that by (auto simp: factored_def filled_def)
  have col: "(\<Sum>j<m. ent m l j k * ?x ! j) = ?y ! k" if "k < m" for k
  proof -
    have "(\<Sum>j<m. ent m l j k * ?x ! j) = (\<Sum>j=k..<m. ent m l j k * ?x ! j)"
      by (rule sum.mono_neutral_right) (use that zero in auto)
    with x(2) that show ?thesis by simp
  qed
  show "\<forall>i<m. mat_times m a ?x i = b ! i"
  proof (intro allI impI)
    fix i assume i: "i < m"
    have "mat_times m a ?x i = (\<Sum>j<m. (\<Sum>k<m. ent m l i k * ent m l j k) * ?x ! j)"
      unfolding mat_times_def by (intro sum.cong refl) (simp add: factored_product [OF l s i])
    also have "\<dots> = (\<Sum>j<m. \<Sum>k<m. ent m l i k * (ent m l j k * ?x ! j))"
      by (simp add: sum_distrib_right mult.assoc)
    also have "\<dots> = (\<Sum>k<m. \<Sum>j<m. ent m l i k * (ent m l j k * ?x ! j))" by (rule sum.swap)
    also have "\<dots> = (\<Sum>k<m. ent m l i k * ?y ! k)" by (simp add: sum_distrib_left [symmetric] col)
    also have "\<dots> = (\<Sum>k<Suc i. ent m l i k * ?y ! k)"
      by (rule sum.mono_neutral_right) (use i zero in auto)
    also have "\<dots> = b ! i" using y(2) i by simp
    finally show "mat_times m a ?x i = b ! i" .
  qed
qed

section \<open>Who is joined to whom\<close>

definition plays :: "matrix \<Rightarrow> nat \<Rightarrow> nat \<Rightarrow> bool" where
  "plays m i j \<longleftrightarrow> i < mx_n m \<and> j < mx_n m \<and> h2h_games (matrix_get m i j) > 0"

definition sound_matrix :: "matrix \<Rightarrow> bool" where
  "sound_matrix m \<longleftrightarrow> length (mx_cells m) = mx_n m * mx_n m \<and>
     (\<forall>i<mx_n m. \<forall>j<mx_n m. h2h_games (matrix_get m i j) = h2h_games (matrix_get m j i) \<and> h2h_games (matrix_get m i j) \<ge> 0 \<and>
        h2h_score (matrix_get m i j) + h2h_score (matrix_get m j i) = h2h_games (matrix_get m i j))"

lemma matrix_new_sound: "sound_matrix (matrix_new n)"
  by (auto simp: sound_matrix_def matrix_new_def matrix_get_def no_games_def cell_less)

lemma matrix_add_get:
  assumes "sound_matrix m" "i < mx_n m" "j < mx_n m" "r < mx_n m" "k < mx_n m"
  shows "matrix_get (matrix_add i j games score m) r k =
    (if i = j \<or> games \<le> 0 then matrix_get m r k else if r = i \<and> k = j then add_to games score (matrix_get m r k)
     else if r = j \<and> k = i then add_to games (games - score) (matrix_get m r k) else matrix_get m r k)"
  using assms by (auto simp: sound_matrix_def matrix_add_def matrix_get_def Let_def nth_list_update cell_eq cell_less)

lemma matrix_add_sound:
  assumes "sound_matrix m" "i < mx_n m" "j < mx_n m"
  shows "sound_matrix (matrix_add i j games score m)"
proof -
  have n: "mx_n (matrix_add i j games score m) = mx_n m" "length (mx_cells (matrix_add i j games score m)) = length (mx_cells m)"
    by (simp_all add: matrix_add_def Let_def)
  have "h2h_games (matrix_get (matrix_add i j games score m) r k) = h2h_games (matrix_get (matrix_add i j games score m) k r) \<and>
      h2h_games (matrix_get (matrix_add i j games score m) r k) \<ge> 0 \<and>
      h2h_score (matrix_get (matrix_add i j games score m) r k) + h2h_score (matrix_get (matrix_add i j games score m) k r) =
        h2h_games (matrix_get (matrix_add i j games score m) r k)" if "r < mx_n m" "k < mx_n m" for r k
    using assms that unfolding matrix_add_get [OF assms that] matrix_add_get [OF assms that(2,1)]
    by (auto simp: sound_matrix_def add_to_def)
  with assms n show ?thesis by (simp add: sound_matrix_def)
qed

lemma plays_sym: "sound_matrix m \<Longrightarrow> plays m i j \<Longrightarrow> plays m j i"
  by (simp add: plays_def sound_matrix_def)

lemma joined_sym:
  assumes "sound_matrix m" "(plays m)\<^sup>*\<^sup>* i j"
  shows "(plays m)\<^sup>*\<^sup>* j i"
  using assms(2) by (induction rule: rtranclp_induct) (auto intro: converse_rtranclp_into_rtranclp plays_sym [OF assms(1)])

text \<open>What a visit of one config's opponents marks and stacks.\<close>

lemma visits:
  assumes "\<forall>other\<in>set others. other < length component" "distinct others"
    "fold (visit_slot m mark current) others (component, stack) = (component', stack')"
  shows "length component' = length component \<and>
    (\<forall>i<length component. component' ! i = (if i \<in> set others \<and> component ! i = None \<and> h2h_games (matrix_get m current i) > 0
        then Some mark else component ! i)) \<and>
    set stack' = set stack \<union> {i\<in>set others. component ! i = None \<and> h2h_games (matrix_get m current i) > 0}"
  using assms
proof (induction others arbitrary: component stack)
  case (Cons o1 others)
  show ?case
  proof (cases "component ! o1 = None \<and> h2h_games (matrix_get m current o1) > 0")
    case True
    from Cons.IH [of "component[o1 := Some mark]" "o1 # stack"] Cons.prems True show ?thesis
      by (auto simp: visit_slot_def nth_list_update)
  next
    case False
    from Cons.IH [of component stack] Cons.prems False show ?thesis by (auto simp: visit_slot_def)
  qed
qed simp

text \<open>What the marks say once no flood is under way: each mark is one whole component.\<close>

definition closed_marks :: "matrix \<Rightarrow> nat \<Rightarrow> nat option list \<Rightarrow> bool" where
  "closed_marks m mark c \<longleftrightarrow> length c = mx_n m \<and> (\<forall>i<mx_n m. \<forall>k. c ! i = Some k \<longrightarrow> k < mark) \<and>
     (\<forall>i j. plays m i j \<longrightarrow> c ! i \<noteq> None \<longrightarrow> c ! j = c ! i) \<and>
     (\<forall>i<mx_n m. \<forall>j<mx_n m. c ! i \<noteq> None \<longrightarrow> c ! i = c ! j \<longrightarrow> (plays m)\<^sup>*\<^sup>* i j)"

text \<open>
  During one, from the marks before it: what it has marked was unmarked and is joined to the start, and whoever
  a config off the stack plays is marked too.
\<close>

definition flooding :: "matrix \<Rightarrow> nat \<Rightarrow> nat \<Rightarrow> nat option list \<Rightarrow> nat option list \<Rightarrow> nat list \<Rightarrow> bool" where
  "flooding m mark start c0 c stack \<longleftrightarrow> length c = mx_n m \<and> start < mx_n m \<and> c ! start = Some mark \<and> (\<forall>i\<in>set stack. i < mx_n m \<and> c ! i = Some mark) \<and>
     (\<forall>i<mx_n m. c ! i = Some mark \<longrightarrow> c0 ! i = None \<and> (plays m)\<^sup>*\<^sup>* start i) \<and>
     (\<forall>i<mx_n m. c ! i \<noteq> Some mark \<longrightarrow> c ! i = c0 ! i) \<and>
     (\<forall>i j. plays m i j \<longrightarrow> c ! i = Some mark \<longrightarrow> i \<notin> set stack \<longrightarrow> c ! j = Some mark)"

lemma flooding_step:
  assumes m: "sound_matrix m" and c0: "closed_marks m mark c0" and f: "flooding m mark start c0 c (current # stack)"
    and v: "fold (visit_slot m mark current) [0..<length c] (c, stack) = (c', stack')"
  shows "flooding m mark start c0 c' stack'"
proof -
  have len: "length c = mx_n m" and cur: "current < mx_n m" "c ! current = Some mark" using f by (auto simp: flooding_def)
  from visits [OF _ distinct_upt v] have
    c': "length c' = mx_n m" "\<forall>i<mx_n m. c' ! i = (if c ! i = None \<and> h2h_games (matrix_get m current i) > 0 then Some mark else c ! i)"
    and st: "set stack' = set stack \<union> {i. i < mx_n m \<and> c ! i = None \<and> h2h_games (matrix_get m current i) > 0}"
    by (auto simp: len)
  have before: "c ! j = None \<or> c ! j = Some mark" if p: "plays m current j" for j
  proof (rule ccontr)
    assume n: "\<not> ?thesis"
    have j: "j < mx_n m" using p by (simp add: plays_def)
    with n f have "c0 ! j = c ! j" "c0 ! j \<noteq> None" by (auto simp: flooding_def)
    with c0 plays_sym [OF m p] have "c0 ! current = c ! j" by (auto simp: closed_marks_def)
    with n f cur show False by (auto simp: flooding_def)
  qed
  have start: "(plays m)\<^sup>*\<^sup>* start current" using f cur by (auto simp: flooding_def)
  have kept: "c' ! i = Some mark" if "i < mx_n m" "c ! i = Some mark" for i using c'(2) that by simp
  show ?thesis
    unfolding flooding_def
  proof (intro conjI allI impI ballI)
    show "length c' = mx_n m" by (fact c'(1))
    show "start < mx_n m" "c' ! start = Some mark" using f kept by (auto simp: flooding_def)
  next
    fix i assume "i \<in> set stack'"
    with st f c'(2) show "i < mx_n m" "c' ! i = Some mark" by (auto simp: flooding_def)
  next
    fix i assume i: "i < mx_n m" "c' ! i = Some mark"
    show "c0 ! i = None"
    proof (cases "c ! i = Some mark")
      case False
      with i c'(2) have "c ! i = None" by (auto split: if_splits)
      with f i(1) show ?thesis by (auto simp: flooding_def)
    qed (use f i in \<open>auto simp: flooding_def\<close>)
    show "(plays m)\<^sup>*\<^sup>* start i"
    proof (cases "c ! i = Some mark")
      case False
      with i c'(2) have "plays m current i" using cur by (auto simp: plays_def split: if_splits)
      with start show ?thesis by (rule rtranclp.rtrancl_into_rtrancl)
    qed (use f i in \<open>auto simp: flooding_def\<close>)
  next
    fix i assume i: "i < mx_n m" "c' ! i \<noteq> Some mark"
    with c'(2) have "c' ! i = c ! i" "c ! i \<noteq> Some mark" by (auto split: if_splits)
    with f i(1) show "c' ! i = c0 ! i" by (auto simp: flooding_def)
  next
    fix i j assume p: "plays m i j" and i: "c' ! i = Some mark" "i \<notin> set stack'"
    have n: "i < mx_n m" "j < mx_n m" using p by (simp_all add: plays_def)
    have ci: "c ! i = Some mark"
      using c'(2) st i n by (auto split: if_splits)
    show "c' ! j = Some mark"
    proof (cases "i = current")
      case True
      with before p have "c ! j = None \<or> c ! j = Some mark" by simp
      with c'(2) n p True show ?thesis by (auto simp: plays_def)
    next
      case False
      with st i(2) have "i \<notin> set (current # stack)" by auto
      with f p ci have "c ! j = Some mark" by (auto simp: flooding_def)
      with kept n(2) show ?thesis by simp
    qed
  qed
qed

lemma flood_flooding:
  assumes "sound_matrix m" "closed_marks m mark c0" "flooding m mark start c0 c stack"
  shows "flooding m mark start c0 (flood m mark c stack) []"
  using assms
proof (induction m mark c stack rule: flood.induct)
  case (2 m mark c current stack)
  obtain c' stack' where v: "fold (visit_slot m mark current) [0..<length c] (c, stack) = (c', stack')" by fastforce
  from 2(1) [OF v [symmetric] 2(2,3) flooding_step [OF 2(2-4) v]] v show ?case by simp
qed simp

lemma flood_closed:
  assumes m: "sound_matrix m" and c0: "closed_marks m mark c0" and start: "start < mx_n m" "c0 ! start = None"
  shows "closed_marks m (Suc mark) (flood m mark (c0[start := Some mark]) [start])"
    "flood m mark (c0[start := Some mark]) [start] ! start \<noteq> None"
    "\<And>i. i < mx_n m \<Longrightarrow> c0 ! i \<noteq> None \<Longrightarrow> flood m mark (c0[start := Some mark]) [start] ! i \<noteq> None"
proof -
  let ?c = "flood m mark (c0[start := Some mark]) [start]"
  have marks: "\<forall>i<mx_n m. c0 ! i \<noteq> Some mark" using c0 by (auto simp: closed_marks_def)
  have "flooding m mark start c0 (c0[start := Some mark]) [start]"
    using c0 start marks by (auto simp: flooding_def closed_marks_def nth_list_update plays_def)
  from flood_flooding [OF m c0 this] have f: "flooding m mark start c0 ?c []" .
  have f1: "length ?c = mx_n m" "\<And>i. i < mx_n m \<Longrightarrow> ?c ! i = Some mark \<Longrightarrow> c0 ! i = None \<and> (plays m)\<^sup>*\<^sup>* start i"
    "\<And>i. i < mx_n m \<Longrightarrow> ?c ! i \<noteq> Some mark \<Longrightarrow> ?c ! i = c0 ! i" "\<And>i j. plays m i j \<Longrightarrow> ?c ! i = Some mark \<Longrightarrow> ?c ! j = Some mark"
    using f by (auto simp: flooding_def)
  show kept: "?c ! i \<noteq> None" if "i < mx_n m" "c0 ! i \<noteq> None" for i using f1(3) that by fastforce
  show "?c ! start \<noteq> None" using f by (simp add: flooding_def)
  show "closed_marks m (Suc mark) ?c"
    unfolding closed_marks_def
  proof (intro conjI allI impI)
    show "length ?c = mx_n m" by (fact f1(1))
  next
    fix i k assume "i < mx_n m" "?c ! i = Some k"
    with f1(3) [of i] c0 show "k < Suc mark" by (cases "k = mark") (auto simp: closed_marks_def less_Suc_eq)
  next
    fix i j assume p: "plays m i j" and i: "?c ! i \<noteq> None"
    have n: "i < mx_n m" "j < mx_n m" using p by (simp_all add: plays_def)
    show "?c ! j = ?c ! i"
    proof (cases "?c ! i = Some mark")
      case True
      with f1(4) [OF p] show ?thesis by simp
    next
      case False
      with f1(3) [OF n(1)] i have "c0 ! i = ?c ! i" "c0 ! i \<noteq> None" by simp_all
      with c0 p have j: "c0 ! j = ?c ! i" "c0 ! j \<noteq> None" by (auto simp: closed_marks_def)
      with f1(2) [OF n(2)] have "?c ! j \<noteq> Some mark" by auto
      with f1(3) [OF n(2)] j show ?thesis by simp
    qed
  next
    fix i j assume n: "i < mx_n m" "j < mx_n m" and i: "?c ! i \<noteq> None" and e: "?c ! i = ?c ! j"
    show "(plays m)\<^sup>*\<^sup>* i j"
    proof (cases "?c ! i = Some mark")
      case True
      with f1(2) [OF n(1)] f1(2) [OF n(2)] e have "(plays m)\<^sup>*\<^sup>* start i" "(plays m)\<^sup>*\<^sup>* start j" by simp_all
      with joined_sym [OF m] show ?thesis by (meson rtranclp_trans)
    next
      case False
      with f1(3) [OF n(1)] f1(3) [OF n(2)] e i have "c0 ! i = c0 ! j" "c0 ! i \<noteq> None" by simp_all
      with c0 n show ?thesis by (auto simp: closed_marks_def)
    qed
  qed
qed

lemma components_from_closed:
  assumes "sound_matrix m" "closed_marks m mark c" "\<forall>i\<in>set starts. i < mx_n m"
  shows "(\<exists>mark'. closed_marks m mark' (components_from m starts c mark)) \<and>
    (\<forall>i<mx_n m. c ! i \<noteq> None \<or> i \<in> set starts \<longrightarrow> components_from m starts c mark ! i \<noteq> None)"
  using assms
proof (induction m starts c mark rule: components_from.induct)
  case (1 m c mark)
  then show ?case by auto
next
  case (2 m start starts c mark)
  show ?case
  proof (cases "c ! start \<noteq> None")
    case True
    with 2(1) [OF True 2(3,4)] 2(5) show ?thesis by auto
  next
    case False
    with 2(5) have s: "start < mx_n m" "c ! start = None" by simp_all
    note f = flood_closed [OF 2(3,4) s]
    from 2(2) [OF False 2(3) f(1)] 2(5) False f(2,3) show ?thesis by auto
  qed
qed

lemma components_closed:
  assumes "sound_matrix m"
  shows "\<exists>mark. closed_marks m mark (components m)" "\<forall>i<mx_n m. components m ! i \<noteq> None"
proof -
  have "closed_marks m 0 (replicate (mx_n m) None)" by (auto simp: closed_marks_def plays_def)
  from components_from_closed [OF assms this, of "[0..<mx_n m]"]
  show "\<exists>mark. closed_marks m mark (components m)" "\<forall>i<mx_n m. components m ! i \<noteq> None" by (simp_all add: components_def)
qed

lemma components_joined:
  assumes m: "sound_matrix m" and n: "i < mx_n m" "j < mx_n m"
  shows "components m ! i = components m ! j \<longleftrightarrow> (plays m)\<^sup>*\<^sup>* i j"
proof
  obtain mark where c: "closed_marks m mark (components m)" using components_closed(1) [OF m] by blast
  show "(plays m)\<^sup>*\<^sup>* i j" if "components m ! i = components m ! j"
    using c n components_closed(2) [OF m] that by (auto simp: closed_marks_def)
  show "components m ! i = components m ! j" if "(plays m)\<^sup>*\<^sup>* i j"
    using that
  proof (induction rule: rtranclp_induct)
    case (step j k)
    then have "components m ! j \<noteq> None" using components_closed(2) [OF m] by (simp add: plays_def)
    with c step have "components m ! k = components m ! j" by (auto simp: closed_marks_def)
    with step show ?case by simp
  qed simp
qed

section \<open>The gradient\<close>

lemma log_sum_exp_eq: "log_sum_exp a b = ln (exp a + exp b)"
proof -
  have "exp (max a b) * (1 + exp (- \<bar>a - b\<bar>)) = exp a + exp b"
    by (cases "a \<le> b") (auto simp: distrib_left max_def exp_add [symmetric])
  then have "ln (exp a + exp b) = ln (exp (max a b)) + ln (1 + exp (- \<bar>a - b\<bar>))"
    by (metis exp_gt_zero add_pos_pos less_numeral_extra(1) ln_mult_pos)
  then show ?thesis by (simp add: log_sum_exp_def)
qed

lemma win_probability_bounds: "0 < win_probability a b" "win_probability a b < 1"
  by (simp_all add: win_probability_def add_pos_pos)

lemma lse_deriv:
  assumes "(f has_real_derivative f') (at x)" "f x = a - b"
  shows "((\<lambda>x. log_sum_exp (f x) 0) has_real_derivative win_probability a b * f') (at x)"
proof -
  have pos: "0 < exp (f x) + 1" by (simp add: add_pos_pos)
  have "exp (a - b) / (exp (a - b) + 1) = win_probability a b"
    by (simp add: win_probability_def exp_diff divide_simps)
  with pos assms show ?thesis
    unfolding log_sum_exp_eq by (auto intro!: derivative_eq_intros simp: field_simps)
qed

definition problem_ok :: "problem \<Rightarrow> bool" where
  "problem_ok p \<longleftrightarrow> distinct (pr_free p) \<and> (\<forall>i\<in>set (pr_free p). i < pr_n p) \<and> length (pr_virtual p) = pr_n p \<and>
     (\<forall>(i, j, games, score)\<in>set (pr_played p). i < pr_n p \<and> j < pr_n p \<and> i \<noteq> j \<and> games > 0) \<and> (\<forall>v\<in>set (pr_virtual p). v > 0)"

lemma slot_of_iff:
  assumes "distinct xs"
  shows "slot_of xs i = Some a \<longleftrightarrow> a < length xs \<and> xs ! a = i"
proof -
  have "slot_of xs i = Some a \<longleftrightarrow> (i, a) \<in> set (zip xs [0..<length xs])"
    unfolding slot_of_def by (rule map_of_eq_Some_iff) (simp add: assms)
  also have "\<dots> \<longleftrightarrow> a < length xs \<and> xs ! a = i" by (auto simp: in_set_zip)
  finally show ?thesis .
qed

definition unit_at :: "nat \<Rightarrow> nat \<Rightarrow> real" where
  "unit_at f i = (if i = f then 1 else 0)"

lemma coordinate_deriv:
  "((\<lambda>x. (theta[f := x]) ! i) has_real_derivative (if f < length theta then unit_at f i else 0)) (at y)"
proof (cases "i = f \<and> f < length theta")
  case True
  then have "(\<lambda>x. (theta[f := x]) ! i) = (\<lambda>x. x)" by auto
  with True show ?thesis by (simp add: unit_at_def)
next
  case False
  then have "(\<lambda>x. (theta[f := x]) ! i) = (\<lambda>x. theta ! i)" by (cases "f < length theta") (auto simp: nth_list_update list_update_beyond)
  with False show ?thesis by (auto simp: unit_at_def)
qed

lemma sum_list_moved: "f < length xs \<Longrightarrow> sum_list (xs[f := x]) = sum_list xs - xs ! f + x" for x :: real
proof (induction xs arbitrary: f)
  case (Cons y ys)
  then show ?case by (cases f) auto
qed simp

lemma mean_deriv:
  assumes "f < length theta"
  shows "((\<lambda>x. mean_strength n (theta[f := x])) has_real_derivative 1 / real n) (at y)"
proof -
  have "(\<lambda>x. mean_strength n (theta[f := x])) = (\<lambda>x. (sum_list theta - theta ! f + x) / real n)"
    using assms by (simp add: mean_strength_def sum_list_moved)
  moreover have "((\<lambda>x. (sum_list theta - theta ! f + x) / real n) has_real_derivative 1 / real n) (at y)"
    by (rule DERIV_cdivide) (auto intro!: derivative_eq_intros)
  ultimately show ?thesis by simp
qed

lemma sum_list_deriv:
  "(\<And>c. c \<in> set cs \<Longrightarrow> (F c has_real_derivative d c) (at x)) \<Longrightarrow>
     ((\<lambda>x. \<Sum>c\<leftarrow>cs. F c x) has_real_derivative (\<Sum>c\<leftarrow>cs. d c)) (at x)"
  by (induction cs) (auto intro!: derivative_eq_intros)

text \<open>A head-to-head's surplus, and the gradient as sums over the head-to-heads and the virtual games.\<close>

definition surplus_of :: "real list \<Rightarrow> nat \<times> nat \<times> real \<times> real \<Rightarrow> real" where
  "surplus_of theta cell = (case cell of (i, j, games, score) \<Rightarrow> score - games * win_probability (theta ! i) (theta ! j))"

lemma objective_deriv:
  assumes p: "problem_ok p" and theta: "length theta = pr_n p" and f: "f < pr_n p"
  shows "((\<lambda>x. objective p (theta[f := x])) has_real_derivative
    (\<Sum>(i, j, games, score)\<leftarrow>pr_played p. surplus_of theta (i, j, games, score) * (unit_at f i - unit_at f j)) +
    (\<Sum>i\<leftarrow>[0..<pr_n p]. pull_of p theta i * (unit_at f i - 1 / real (pr_n p)))) (at (theta ! f))"
proof -
  have same: "theta[f := theta ! f] = theta" by simp
  have reals: "((\<lambda>x. let d = (theta[f := x]) ! i - (theta[f := x]) ! j in score * d - games * log_sum_exp d 0) has_real_derivative
      surplus_of theta (i, j, games, score) * (unit_at f i - unit_at f j)) (at (theta ! f))" for i j games score
  proof -
    have d: "((\<lambda>x. (theta[f := x]) ! i - (theta[f := x]) ! j) has_real_derivative unit_at f i - unit_at f j) (at (theta ! f))"
      using coordinate_deriv [of theta f] theta f by (intro DERIV_diff) auto
    from lse_deriv [OF d, of "theta ! i" "theta ! j"] same
    have l: "((\<lambda>x. log_sum_exp ((theta[f := x]) ! i - (theta[f := x]) ! j) 0) has_real_derivative
        win_probability (theta ! i) (theta ! j) * (unit_at f i - unit_at f j)) (at (theta ! f))" by simp
    show ?thesis unfolding Let_def
      by (rule DERIV_cong [OF DERIV_diff [OF DERIV_cmult [OF d] DERIV_cmult [OF l]]]) (simp add: surplus_of_def algebra_simps)
  qed
  have prior: "((\<lambda>x. let d = slope * ((theta[f := x]) ! i - mean_strength (pr_n p) (theta[f := x])) in
        pr_virtual p ! i * (d / 2 - log_sum_exp d 0)) has_real_derivative
      pull_of p theta i * (unit_at f i - 1 / real (pr_n p))) (at (theta ! f))" for i
  proof -
    have d: "((\<lambda>x. slope * ((theta[f := x]) ! i - mean_strength (pr_n p) (theta[f := x]))) has_real_derivative
        slope * (unit_at f i - 1 / real (pr_n p))) (at (theta ! f))"
      using coordinate_deriv [of theta f i] mean_deriv [of f theta "pr_n p"] theta f
      by (intro DERIV_cmult DERIV_diff) auto
    from lse_deriv [OF d, of "slope * theta ! i" "slope * mean_strength (pr_n p) theta"] same
    have l: "((\<lambda>x. log_sum_exp (slope * ((theta[f := x]) ! i - mean_strength (pr_n p) (theta[f := x]))) 0) has_real_derivative
        win_probability (slope * theta ! i) (slope * mean_strength (pr_n p) theta) * (slope * (unit_at f i - 1 / real (pr_n p)))) (at (theta ! f))"
      by (simp add: algebra_simps)
    show ?thesis unfolding Let_def
      by (rule DERIV_cong [OF DERIV_cmult [OF DERIV_diff [OF DERIV_cdivide [OF d] l]]]) (simp add: pull_of_def algebra_simps)
  qed
  have "((\<lambda>x. (\<Sum>(i, j, games, score)\<leftarrow>pr_played p. let d = (theta[f := x]) ! i - (theta[f := x]) ! j in score * d - games * log_sum_exp d 0) +
      (\<Sum>i\<leftarrow>[0..<pr_n p]. let d = slope * ((theta[f := x]) ! i - mean_strength (pr_n p) (theta[f := x])) in pr_virtual p ! i * (d / 2 - log_sum_exp d 0)))
    has_real_derivative
      (\<Sum>(i, j, games, score)\<leftarrow>pr_played p. surplus_of theta (i, j, games, score) * (unit_at f i - unit_at f j)) +
      (\<Sum>i\<leftarrow>[0..<pr_n p]. pull_of p theta i * (unit_at f i - 1 / real (pr_n p)))) (at (theta ! f))"
    by (intro DERIV_add sum_list_deriv) (use reals prior in \<open>auto split: prod.splits\<close>)
  then show ?thesis by (simp add: objective_def Let_def)
qed

definition slot_value :: "nat option \<Rightarrow> nat \<Rightarrow> real" where
  "slot_value s a = (if s = Some a then 1 else 0)"

lemma nth_add_at: "length (add_at k x xs) = length xs" "a < length xs \<Longrightarrow> add_at k x xs ! a = xs ! a + (if a = k then x else 0)"
  by (auto simp: add_at_def nth_list_update)

lemma add_played_gradient:
  assumes "a < length g" "add_played p theta cell (g, c) = (g', c')"
  shows "length g' = length g \<and> g' ! a = g ! a + (case cell of (i, j, games, score) \<Rightarrow>
     surplus_of theta cell * (slot_value (slot_of (pr_free p) i) a - slot_value (slot_of (pr_free p) j) a))"
  using assms by (auto simp: add_played_def Let_def surplus_of_def slot_value_def nth_add_at split: option.splits prod.splits)

lemma fold_add_played_gradient:
  assumes "a < length g"
  shows "length (fst (fold (add_played p theta) cells (g, c))) = length g \<and> fst (fold (add_played p theta) cells (g, c)) ! a =
    g ! a + (\<Sum>(i, j, games, score)\<leftarrow>cells. surplus_of theta (i, j, games, score) *
      (slot_value (slot_of (pr_free p) i) a - slot_value (slot_of (pr_free p) j) a))"
  using assms
proof (induction cells arbitrary: g c)
  case (Cons cell cells)
  obtain g' c' where s: "add_played p theta cell (g, c) = (g', c')" by fastforce
  from add_played_gradient [OF Cons.prems s] have g': "length g' = length g" "g' ! a = g ! a + (case cell of (i, j, games, score) \<Rightarrow>
     surplus_of theta cell * (slot_value (slot_of (pr_free p) i) a - slot_value (slot_of (pr_free p) j) a))" by simp_all
  with Cons.IH [of g' c'] Cons.prems s show ?case by (auto split: prod.splits)
qed simp

lemma slot_value_unit: "problem_ok p \<Longrightarrow> a < length (pr_free p) \<Longrightarrow> slot_value (slot_of (pr_free p) i) a = unit_at (pr_free p ! a) i"
  by (auto simp: slot_value_def unit_at_def slot_of_iff problem_ok_def)

lemma gradient_sums:
  assumes p: "problem_ok p" and a: "a < length (pr_free p)"
  shows "fst (derivatives p theta) ! a =
    (\<Sum>(i, j, games, score)\<leftarrow>pr_played p. surplus_of theta (i, j, games, score) * (unit_at (pr_free p ! a) i - unit_at (pr_free p ! a) j)) +
    (\<Sum>i\<leftarrow>[0..<pr_n p]. pull_of p theta i * (unit_at (pr_free p ! a) i - 1 / real (pr_n p)))"
proof -
  let ?f = "pr_free p ! a"
  have f: "?f < pr_n p" using p a by (auto simp: problem_ok_def)
  have pulls: "(\<Sum>i\<leftarrow>[0..<pr_n p]. pull_of p theta i * (unit_at ?f i - 1 / real (pr_n p))) =
      pull_of p theta ?f - (1 / real (pr_n p)) * (\<Sum>i\<leftarrow>[0..<pr_n p]. pull_of p theta i)"
  proof -
    have "(\<Sum>i<pr_n p. pull_of p theta i * unit_at ?f i) = pull_of p theta ?f"
    proof -
      have "(\<Sum>i<pr_n p. pull_of p theta i * unit_at ?f i) = (\<Sum>i<pr_n p. if i = ?f then pull_of p theta i else 0)"
        by (rule sum.cong) (auto simp: unit_at_def)
      with f show ?thesis by simp
    qed
    then show ?thesis
      by (simp add: interv_sum_list_conv_sum_set_nat atLeast0LessThan right_diff_distrib sum_subtractf sum_divide_distrib)
  qed
  show ?thesis
    using fold_add_played_gradient [of a "replicate (length (pr_free p)) 0" p theta "pr_played p" "replicate (length (pr_free p) * length (pr_free p)) 0"]
      a f pulls slot_value_unit [OF p a]
    by (simp add: derivatives_def Let_def case_prod_beta cong: map_cong)
qed

section \<open>The curvature\<close>

text \<open>A square matrix as a quadratic form, and a vector over the free configs as one over all, the anchor's entry zero.\<close>

definition at_slot :: "nat option \<Rightarrow> (nat \<Rightarrow> real) \<Rightarrow> real" where
  "at_slot s x = (case s of None \<Rightarrow> 0 | Some a \<Rightarrow> x a)"

lemma quad_add_at:
  assumes "length xs = m * m" "a < m" "b < m"
  shows "quad m (ent m (add_at (a * m + b) v xs)) x = quad m (ent m xs) x + v * x a * x b"
proof -
  have e: "ent m (add_at (a * m + b) v xs) i j = ent m xs i j + (if i = a \<and> j = b then v else 0)" if "i < m" "j < m" for i j
    using assms that by (simp add: ent_def nth_add_at cell_less cell_eq)
  have "quad m (ent m (add_at (a * m + b) v xs)) x =
      (\<Sum>i<m. \<Sum>j<m. ent m xs i j * x i * x j + (if i = a \<and> j = b then v * x a * x b else 0))"
    unfolding quad_def by (intro sum.cong refl) (auto simp: e distrib_right)
  also have "\<dots> = quad m (ent m xs) x + (\<Sum>i<m. \<Sum>j<m. if i = a \<and> j = b then v * x a * x b else 0)"
    by (simp add: quad_def sum.distrib)
  also have "(\<Sum>i<m. \<Sum>j<m. if i = a \<and> j = b then v * x a * x b else 0) = (\<Sum>i<m. if i = a then v * x a * x b else 0)"
    by (intro sum.cong refl) (use assms in \<open>auto simp: sum.delta\<close>)
  finally show ?thesis using assms by (simp add: sum.delta)
qed

lemma length_add_pair: "length (add_pair m a b v xs) = length xs"
  by (auto simp: add_pair_def Let_def nth_add_at(1) split: option.split)

lemma quad_add_pair:
  assumes "length xs = m * m" "\<forall>k. a = Some k \<longrightarrow> k < m" "\<forall>k. b = Some k \<longrightarrow> k < m"
  shows "quad m (ent m (add_pair m a b v xs)) x = quad m (ent m xs) x + v * (at_slot a x - at_slot b x)\<^sup>2"
proof (cases a; cases b)
  fix k l assume "a = Some k" "b = Some l"
  with assms show ?thesis
    by (simp add: add_pair_def Let_def quad_add_at nth_add_at(1) at_slot_def power2_eq_square) (simp add: algebra_simps)
qed (use assms in \<open>simp_all add: add_pair_def Let_def quad_add_at nth_add_at(1) at_slot_def power2_eq_square\<close>)


lemma ent_add_at:
  "length xs = m * m \<Longrightarrow> a < m \<Longrightarrow> b < m \<Longrightarrow> i < m \<Longrightarrow> j < m \<Longrightarrow>
     ent m (add_at (a * m + b) v xs) i j = ent m xs i j + (if i = a \<and> j = b then v else 0)"
  by (simp add: ent_def nth_add_at cell_less cell_eq)

lemma symmetric_add_diagonal: "symmetric m xs \<Longrightarrow> length xs = m * m \<Longrightarrow> a < m \<Longrightarrow> symmetric m (add_at (a * m + a) v xs)"
  unfolding symmetric_def by (simp add: ent_add_at)

lemma symmetric_add_both:
  "symmetric m xs \<Longrightarrow> length xs = m * m \<Longrightarrow> a < m \<Longrightarrow> b < m \<Longrightarrow> symmetric m (add_at (b * m + a) v (add_at (a * m + b) v xs))"
proof -
  assume a: "symmetric m xs" "length xs = m * m" "a < m" "b < m"
  let ?ys = "add_at (a * m + b) v xs"
  have len: "length ?ys = m * m" using a(2) by (simp only: nth_add_at(1))
  have e: "ent m (add_at (b * m + a) v ?ys) i j = ent m xs i j + (if i = a \<and> j = b then v else 0) + (if i = b \<and> j = a then v else 0)"
    if "i < m" "j < m" for i j
    by (simp only: ent_add_at [OF len a(4,3) that] ent_add_at [OF a(2-4) that])
  show ?thesis
    unfolding symmetric_def
  proof (intro allI impI)
    fix i j assume ij: "i < m" "j < m"
    with a(1) have s: "ent m xs i j = ent m xs j i" by (simp add: symmetric_def)
    show "ent m (add_at (b * m + a) v ?ys) i j = ent m (add_at (b * m + a) v ?ys) j i"
      unfolding e [OF ij] e [OF ij(2,1)] using s by (cases "i = a"; cases "j = b"; cases "i = b"; cases "j = a") simp_all
  qed
qed

lemma symmetric_add_pair:
  assumes "symmetric m xs" "length xs = m * m" "\<forall>k. a = Some k \<longrightarrow> k < m" "\<forall>k. b = Some k \<longrightarrow> k < m"
  shows "symmetric m (add_pair m a b v xs)"
  using assms by (auto simp: add_pair_def Let_def nth_add_at(1) symmetric_add_diagonal symmetric_add_both split: option.split)

definition strength_at :: "problem \<Rightarrow> (nat \<Rightarrow> real) \<Rightarrow> nat \<Rightarrow> real" where
  "strength_at p x i = at_slot (slot_of (pr_free p) i) x"

definition information_of :: "real list \<Rightarrow> nat \<times> nat \<times> real \<times> real \<Rightarrow> real" where
  "information_of theta cell = (case cell of (i, j, games, score) \<Rightarrow>
     games * win_probability (theta ! i) (theta ! j) * (1 - win_probability (theta ! i) (theta ! j)))"

lemma fold_add_played_curvature:
  assumes p: "distinct (pr_free p)" and c: "length c = length (pr_free p) * length (pr_free p)" "symmetric (length (pr_free p)) c"
  shows "length (snd (fold (add_played p theta) cells (g, c))) = length (pr_free p) * length (pr_free p) \<and>
    symmetric (length (pr_free p)) (snd (fold (add_played p theta) cells (g, c))) \<and>
    quad (length (pr_free p)) (ent (length (pr_free p)) (snd (fold (add_played p theta) cells (g, c)))) x =
      quad (length (pr_free p)) (ent (length (pr_free p)) c) x +
      (\<Sum>(i, j, games, score)\<leftarrow>cells. information_of theta (i, j, games, score) * (strength_at p x i - strength_at p x j)\<^sup>2)"
  using c
proof (induction cells arbitrary: g c)
  case (Cons cell cells)
  let ?m = "length (pr_free p)"
  obtain i j games score where cell: "cell = (i, j, games, score)" by (cases cell)
  obtain g' c' where s: "add_played p theta cell (g, c) = (g', c')" by fastforce
  have c': "c' = add_pair ?m (slot_of (pr_free p) i) (slot_of (pr_free p) j) (information_of theta cell) c"
    using s by (simp add: add_played_def Let_def cell information_of_def)
  have slots: "\<forall>k. slot_of (pr_free p) i = Some k \<longrightarrow> k < ?m" for i by (simp add: slot_of_iff [OF p])
  have sym: "length c' = ?m * ?m" "symmetric ?m c'"
    using Cons.prems slots symmetric_add_pair unfolding c' by (simp_all add: length_add_pair)
  have q: "quad ?m (ent ?m c') x = quad ?m (ent ?m c) x + information_of theta cell * (strength_at p x i - strength_at p x j)\<^sup>2"
    unfolding c' strength_at_def by (rule quad_add_pair) (use Cons.prems slots in simp_all)
  show ?case using Cons.IH [OF sym, of g'] q s unfolding cell by (simp add: add.assoc)
qed simp

lemma sum_free:
  assumes p: "problem_ok p" and h: "\<And>i. h i 0 = (0::real)"
  shows "(\<Sum>i<pr_n p. h i (strength_at p x i)) = (\<Sum>a<length (pr_free p). h (pr_free p ! a) (x a))"
proof -
  let ?free = "pr_free p"
  have d: "distinct ?free" and lt: "set ?free \<subseteq> {..<pr_n p}" using p by (auto simp: problem_ok_def)
  have out: "strength_at p x i = 0" if "i \<notin> set ?free" for i
  proof -
    have "slot_of ?free i \<noteq> Some a" for a unfolding slot_of_iff [OF d] using that nth_mem by blast
    then have "slot_of ?free i = None" by (cases "slot_of ?free i") blast+
    then show ?thesis by (simp add: strength_at_def at_slot_def)
  qed
  have at_free: "strength_at p x (?free ! a) = x a" if "a < length ?free" for a
  proof -
    have "slot_of ?free (?free ! a) = Some a" using that by (simp add: slot_of_iff [OF d])
    then show ?thesis by (simp add: strength_at_def at_slot_def)
  qed
  have "(\<Sum>i<pr_n p. h i (strength_at p x i)) = (\<Sum>i\<in>set ?free. h i (strength_at p x i))"
  proof (rule sum.mono_neutral_right)
    show "\<forall>i\<in>{..<pr_n p} - set ?free. h i (strength_at p x i) = 0" by (simp add: out h)
  qed (simp_all add: lt)
  also have "\<dots> = (\<Sum>a<length ?free. h (?free ! a) (strength_at p x (?free ! a)))"
    by (rule sum.reindex_bij_betw [OF bij_betw_nth [OF d refl refl], symmetric])
  also have "\<dots> = (\<Sum>a<length ?free. h (?free ! a) (x a))" by (rule sum.cong) (simp_all add: at_free)
  finally show ?thesis .
qed

lemma curvature_form:
  assumes p: "problem_ok p"
  shows "length (snd (derivatives p theta)) = length (pr_free p) * length (pr_free p)"
    "symmetric (length (pr_free p)) (snd (derivatives p theta))"
    "quad (length (pr_free p)) (ent (length (pr_free p)) (snd (derivatives p theta))) x =
      (\<Sum>(i, j, games, score)\<leftarrow>pr_played p. information_of theta (i, j, games, score) * (strength_at p x i - strength_at p x j)\<^sup>2) +
      (\<Sum>i<pr_n p. weight_of p theta i * (strength_at p x i - (\<Sum>i<pr_n p. strength_at p x i) / real (pr_n p))\<^sup>2)"
proof -
  let ?m = "length (pr_free p)" and ?n = "pr_n p" and ?free = "pr_free p"
  let ?c = "snd (fold (add_played p theta) (pr_played p) (replicate ?m 0, replicate (?m * ?m) 0))"
  let ?w = "weight_of p theta" and ?share = "1 / real (pr_n p)"
  let ?W = "\<Sum>i<?n. ?w i"
  let ?e = "\<lambda>a b. (if a = b then ?w (?free ! a) else 0) - ?share * (?w (?free ! a) + ?w (?free ! b)) + ?share * ?share * ?W"
  have d: "distinct ?free" and lt: "\<And>a. a < ?m \<Longrightarrow> ?free ! a < ?n" using p by (auto simp: problem_ok_def)
  have zero: "symmetric ?m (replicate (?m * ?m) 0)" by (auto simp: symmetric_def ent_def cell_less)
  from fold_add_played_curvature [OF d _ zero, of theta "pr_played p" "replicate ?m 0" x]
  have c: "length ?c = ?m * ?m" "symmetric ?m ?c" "quad ?m (ent ?m ?c) x =
      (\<Sum>(i, j, games, score)\<leftarrow>pr_played p. information_of theta (i, j, games, score) * (strength_at p x i - strength_at p x j)\<^sup>2)"
    by (simp_all add: quad_def ent_def cell_less)
  show len: "length (snd (derivatives p theta)) = ?m * ?m" by (simp add: derivatives_def Let_def case_prod_beta)
  have ent: "ent ?m (snd (derivatives p theta)) a b = ent ?m ?c a b + ?e a b" if "a < ?m" "b < ?m" for a b
  proof -
    have "?m \<noteq> 0" using that by auto
    with that(2) have "(c * ?m + b) div ?m = c" "(c * ?m + b) mod ?m = b" for c by simp_all
    with that lt show ?thesis
      by (simp add: ent_def derivatives_def Let_def case_prod_beta cell_less interv_sum_list_conv_sum_set_nat atLeast0LessThan)
  qed
  show "symmetric ?m (snd (derivatives p theta))"
    unfolding symmetric_def using c(2) by (auto simp: ent symmetric_def add.commute)
  let ?S = "\<Sum>i<?n. strength_at p x i"
  have S: "?S = (\<Sum>a<?m. x a)" using sum_free [OF p, of "\<lambda>i v. v"] by simp
  have wS: "(\<Sum>i<?n. ?w i * strength_at p x i) = (\<Sum>a<?m. ?w (?free ! a) * x a)" using sum_free [OF p, of "\<lambda>i v. ?w i * v"] by simp
  have w2: "(\<Sum>i<?n. ?w i * (strength_at p x i)\<^sup>2) = (\<Sum>a<?m. ?w (?free ! a) * (x a)\<^sup>2)"
    using sum_free [OF p, of "\<lambda>i v. ?w i * v\<^sup>2"] by simp
  have "quad ?m (ent ?m (snd (derivatives p theta))) x = quad ?m (ent ?m ?c) x + quad ?m ?e x"
    unfolding quad_def sum.distrib [symmetric] by (intro sum.cong refl) (simp add: ent distrib_right)
  also have "quad ?m ?e x = (\<Sum>a<?m. ?w (?free ! a) * (x a)\<^sup>2) - 2 * ?share * (\<Sum>a<?m. ?w (?free ! a) * x a) * (\<Sum>a<?m. x a) +
      ?share * ?share * ?W * (\<Sum>a<?m. x a) * (\<Sum>a<?m. x a)"
  proof -
    have one: "(\<Sum>b<?m. (if a = b then ?w (?free ! a) else 0) * x a * x b) = ?w (?free ! a) * (x a)\<^sup>2" if "a < ?m" for a
    proof -
      have "(\<Sum>b<?m. (if a = b then ?w (?free ! a) else 0) * x a * x b) = (\<Sum>b<?m. if a = b then ?w (?free ! a) * (x a)\<^sup>2 else 0)"
        by (rule sum.cong) (auto simp: power2_eq_square)
      with that show ?thesis by simp
    qed
    have diag: "(\<Sum>a<?m. \<Sum>b<?m. (if a = b then ?w (?free ! a) else 0) * x a * x b) = (\<Sum>a<?m. ?w (?free ! a) * (x a)\<^sup>2)"
      by (rule sum.cong [OF refl]) (simp add: one)
    have "quad ?m ?e x = (\<Sum>a<?m. \<Sum>b<?m. (if a = b then ?w (?free ! a) else 0) * x a * x b) -
        ?share * (\<Sum>a<?m. \<Sum>b<?m. (?w (?free ! a) * x a) * x b) - ?share * (\<Sum>a<?m. \<Sum>b<?m. x a * (?w (?free ! b) * x b)) +
        ?share * ?share * ?W * (\<Sum>a<?m. \<Sum>b<?m. x a * x b)"
      unfolding quad_def sum_distrib_left sum_subtractf [symmetric] sum.distrib [symmetric]
      by (intro sum.cong refl) (simp add: algebra_simps)
    also have "(\<Sum>a<?m. \<Sum>b<?m. (?w (?free ! a) * x a) * x b) = (\<Sum>a<?m. ?w (?free ! a) * x a) * (\<Sum>a<?m. x a)"
      by (simp add: sum_product)
    also have "(\<Sum>a<?m. \<Sum>b<?m. x a * (?w (?free ! b) * x b)) = (\<Sum>a<?m. x a) * (\<Sum>a<?m. ?w (?free ! a) * x a)"
      by (simp add: sum_product)
    also have "(\<Sum>a<?m. \<Sum>b<?m. x a * x b) = (\<Sum>a<?m. x a) * (\<Sum>a<?m. x a)" by (simp add: sum_product)
    finally show ?thesis unfolding diag by (simp add: algebra_simps)
  qed
  also have "\<dots> = (\<Sum>i<?n. ?w i * (strength_at p x i - ?S / real ?n)\<^sup>2)"
  proof -
    have "(\<Sum>i<?n. ?w i * (strength_at p x i - ?share * ?S)\<^sup>2) =
        (\<Sum>i<?n. ?w i * (strength_at p x i)\<^sup>2 - 2 * ?share * ?S * (?w i * strength_at p x i) + ?share * ?share * ?S * ?S * ?w i)"
      by (intro sum.cong refl) (simp only: power2_diff, simp add: power2_eq_square algebra_simps)
    also have "\<dots> = (\<Sum>i<?n. ?w i * (strength_at p x i)\<^sup>2) - 2 * ?share * ?S * (\<Sum>i<?n. ?w i * strength_at p x i) + ?share * ?share * ?S * ?S * ?W"
      by (simp only: sum.distrib sum_subtractf sum_distrib_left)
    finally show ?thesis unfolding w2 wS unfolding S by (simp add: algebra_simps)
  qed
  finally show "quad ?m (ent ?m (snd (derivatives p theta))) x =
      (\<Sum>(i, j, games, score)\<leftarrow>pr_played p. information_of theta (i, j, games, score) * (strength_at p x i - strength_at p x j)\<^sup>2) +
      (\<Sum>i<?n. ?w i * (strength_at p x i - ?S / real ?n)\<^sup>2)" by (simp add: c(3))
qed

text \<open>With the anchor held, the negated Hessian is positive definite, whatever the strengths.\<close>

lemma curvature_positive:
  assumes p: "problem_ok p" and anchor: "anchor < pr_n p" "anchor \<notin> set (pr_free p)"
  shows "positive_definite (length (pr_free p)) (snd (derivatives p theta))"
  unfolding positive_definite_def
proof (intro allI impI)
  fix x :: "nat \<Rightarrow> real" assume "\<exists>i<length (pr_free p). x i \<noteq> 0"
  then obtain a where a: "a < length (pr_free p)" "x a \<noteq> 0" by blast
  let ?mean = "(\<Sum>i<pr_n p. strength_at p x i) / real (pr_n p)"
  let ?games = "\<Sum>(i, j, games, score)\<leftarrow>pr_played p. information_of theta (i, j, games, score) * (strength_at p x i - strength_at p x j)\<^sup>2"
  have d: "distinct (pr_free p)" using p by (simp add: problem_ok_def)
  have games: "0 \<le> ?games"
    by (rule sum_list_nonneg) (use p win_probability_bounds in
      \<open>fastforce simp: information_of_def problem_ok_def intro!: mult_nonneg_nonneg intro: less_imp_le\<close>)
  have w: "0 < weight_of p theta i" if "i < pr_n p" for i
    using p that win_probability_bounds
    by (auto simp: weight_of_def Let_def slope_def PRIOR_SCALE_def problem_ok_def intro!: mult_pos_pos)
  have "\<exists>i<pr_n p. strength_at p x i \<noteq> ?mean"
  proof (rule ccontr)
    assume "\<not> ?thesis"
    then have all: "strength_at p x i = ?mean" if "i < pr_n p" for i using that by blast
    have "slot_of (pr_free p) anchor \<noteq> Some k" for k unfolding slot_of_iff [OF d] using anchor(2) nth_mem by blast
    then have "slot_of (pr_free p) anchor = None" by (cases "slot_of (pr_free p) anchor") blast+
    then have "strength_at p x anchor = 0" by (simp add: strength_at_def at_slot_def)
    moreover have "slot_of (pr_free p) (pr_free p ! a) = Some a" using a(1) by (simp add: slot_of_iff [OF d])
    then have "strength_at p x (pr_free p ! a) = x a" by (simp add: strength_at_def at_slot_def)
    moreover have "pr_free p ! a < pr_n p" using p a(1) by (simp add: problem_ok_def)
    ultimately show False using all [OF anchor(1)] all [of "pr_free p ! a"] a(2) by simp
  qed
  then obtain i where i: "i < pr_n p" "strength_at p x i \<noteq> ?mean" by blast
  have "0 < (\<Sum>i<pr_n p. weight_of p theta i * (strength_at p x i - ?mean)\<^sup>2)"
  proof (rule sum_pos2 [of _ i])
    show "0 < weight_of p theta i * (strength_at p x i - ?mean)\<^sup>2" using w i by simp
    show "0 \<le> weight_of p theta k * (strength_at p x k - ?mean)\<^sup>2" if "k \<in> {..<pr_n p}" for k
      using less_imp_le [OF w] that by (intro mult_nonneg_nonneg) auto
  qed (use i in auto)
  with games show "0 < quad (length (pr_free p)) (ent (length (pr_free p)) (snd (derivatives p theta))) x"
    unfolding curvature_form(3) [OF p] by linarith
qed

lemma damped_zero: "damped c m 0 = c"
proof -
  have "fold (\<lambda>k. add_at (k * m + k) 0) ks c = c" for ks by (induction ks) (simp_all add: add_at_def)
  then show ?thesis by (simp add: damped_def)
qed

lemma cholesky_iff:
  assumes "symmetric m a"
  shows "cholesky a m \<noteq> None \<longleftrightarrow> positive_definite m a"
  using cholesky_cases [of a m] factored_positive [OF _ assms] stuck_not_positive [OF _ assms] by (auto split: option.splits)

lemma damped_newton_step_first:
  assumes "positive_definite m c" "symmetric m c"
  shows "\<exists>factor. factored c m m 0 factor \<and> damped_newton_step c m g = Some (cholesky_solve factor m g)"
proof -
  from cholesky_iff [OF assms(2)] assms(1) obtain factor where f: "cholesky c m = Some factor" by auto
  have "damped_tries 40 u 0 c m g = Some (cholesky_solve factor m g)" for u
    by (simp add: eval_nat_numeral damped_zero f)
  with cholesky_cases [of c m] f show ?thesis by (auto simp: damped_newton_step_def)
qed

lemma dot_times:
  assumes "length g = m" "length x = m" "\<forall>a<m. mat_times m c x a = g ! a"
  shows "dot g x = quad m (ent m c) ((!) x)"
proof -
  have "dot g x = (\<Sum>a<m. g ! a * x ! a)"
    using assms by (simp add: dot_def sum_list_sum_nth atLeast0LessThan)
  also have "\<dots> = (\<Sum>a<m. (\<Sum>j<m. ent m c a j * x ! j) * x ! a)"
    by (rule sum.cong [OF refl]) (use assms(3) in \<open>simp add: mat_times_def\<close>)
  also have "\<dots> = quad m (ent m c) ((!) x)"
    unfolding quad_def sum_distrib_right by (intro sum.cong refl) (simp add: mult.assoc mult.commute)
  finally show ?thesis .
qed

section \<open>The problem of a matrix\<close>

lemma problem_of_ok:
  assumes "sound_matrix m"
  shows "problem_ok (problem_of m anchor)"
proof -
  have "v > 0" if "v \<in> set (map (virtual_games_of m) [0..<mx_n m])" for v
    using that by (auto simp: virtual_games_of_def PRIOR_FLOOR_GAMES_def less_max_iff_disj)
  then show ?thesis
    by (auto simp: problem_ok_def problem_of_def played_of_def)
qed

text \<open>A matrix as its callers build it: results added one head-to-head at a time.\<close>

definition built :: "nat \<Rightarrow> (nat \<times> nat \<times> real \<times> real) list \<Rightarrow> matrix" where
  "built n results = fold (\<lambda>(i, j, games, score). matrix_add i j games score) results (matrix_new n)"

lemma built_sound:
  assumes "list_all (\<lambda>(i, j, games, score). i < n \<and> j < n) results"
  shows "sound_matrix (built n results)" "mx_n (built n results) = n"
proof -
  have n: "mx_n (matrix_add i j games score m) = mx_n m" for i j games score m by (simp add: matrix_add_def Let_def)
  have "sound_matrix m \<Longrightarrow> mx_n m = n \<Longrightarrow> list_all (\<lambda>(i, j, games, score). i < n \<and> j < n) rs \<Longrightarrow>
      sound_matrix (fold (\<lambda>(i, j, games, score). matrix_add i j games score) rs m) \<and>
      mx_n (fold (\<lambda>(i, j, games, score). matrix_add i j games score) rs m) = n" for m rs
    by (induction rs arbitrary: m) (auto simp: matrix_add_sound n)
  from this [OF matrix_new_sound _ assms] show "sound_matrix (built n results)" "mx_n (built n results) = n"
    by (simp_all add: built_def matrix_new_def)
qed

section \<open>Properties\<close>

text \<open>C31: a symmetric matrix is factored exactly when it is positive definite, and the two substitutions with its factor
  solve it for every right-hand side.\<close>

theorem cholesky_factors_the_positive_definite:
  assumes "symmetric m a"
  shows "(cholesky a m \<noteq> None \<longleftrightarrow> positive_definite m a) \<and>
    (\<forall>factor b. cholesky a m = Some factor \<longrightarrow> length b = m \<longrightarrow>
      length (cholesky_solve factor m b) = m \<and> (\<forall>i<m. mat_times m a (cholesky_solve factor m b) i = b ! i))"
proof (intro conjI allI impI)
  show "cholesky a m \<noteq> None \<longleftrightarrow> positive_definite m a" by (rule cholesky_iff [OF assms])
next
  fix factor and b :: "real list" assume c: "cholesky a m = Some factor" "length b = m"
  with cholesky_cases [of a m] have "factored a m m 0 factor" by simp
  from cholesky_solves [OF this assms c(2)]
  show "length (cholesky_solve factor m b) = m" "\<And>i. i < m \<Longrightarrow> mat_times m a (cholesky_solve factor m b) i = b ! i" by simp_all
qed

lemma cholesky_factors_the_positive_definite_witness:
  "cholesky [4, 2, 2, 5] 2 = Some [2, 0, 1, 2] \<and> mat_times 2 [4, 2, 2, 5] (cholesky_solve [2, 0, 1, 2] 2 [8, 12]) 1 = 12 \<and>
     cholesky [1, 2, 2, 1] 2 = None"
proof -
  have c: "cholesky [4, 2, 2, 5] 2 = Some [2, 0, 1, 2]" "cholesky [1, 2, 2, 1] 2 = None"
    by (simp_all add: cholesky_def lower_cells_def cholesky_cell_def cell_sum_def eval_nat_numeral Let_def)
  have s: "symmetric 2 [4, 2, 2, 5]" by (simp add: symmetric_def ent_def less_Suc_eq eval_nat_numeral)
  from cholesky_factors_the_positive_definite [OF s] c(1)
  have "mat_times 2 [4, 2, 2, 5] (cholesky_solve [2, 0, 1, 2] 2 [8, 12]) 1 = [8, 12] ! 1" by (metis length_Cons list.size(3) one_less_numeral_iff semiring_norm(76) numeral_2_eq_2)
  with c show ?thesis by simp
qed

text \<open>C34: two configs are in the same component exactly when a chain of head-to-heads with games joins them.\<close>

theorem components_are_who_is_joined:
  assumes "list_all (\<lambda>(i, j, games, score). i < n \<and> j < n) results" "i < n" "j < n"
  shows "components (built n results) ! i = components (built n results) ! j \<longleftrightarrow> (plays (built n results))\<^sup>*\<^sup>* i j"
  using components_joined [OF built_sound(1) [OF assms(1)]] built_sound(2) [OF assms(1)] assms(2,3) by simp

lemma components_are_who_is_joined_witness:
  "(plays (built 3 [(0, 1, 10, 7), (1, 2, 4, 1)]))\<^sup>*\<^sup>* 0 2 \<and> \<not> (plays (built 3 [(0, 1, 10, 7)]))\<^sup>*\<^sup>* 0 2"
proof -
  have c: "components (built 3 [(0, 1, 10, 7), (1, 2, 4, 1)]) = [Some 0, Some 0, Some 0]"
    "components (built 3 [(0, 1, 10, 7)]) = [Some 0, Some 0, Some 1]"
    by (simp_all add: components_def built_def matrix_add_def matrix_new_def matrix_get_def no_games_def add_to_def visit_slot_def
      eval_nat_numeral Let_def)
  with components_are_who_is_joined [of 3 "[(0, 1, 10, 7), (1, 2, 4, 1)]" 0 2] components_are_who_is_joined [of 3 "[(0, 1, 10, 7)]" 0 2]
  show ?thesis by simp
qed

text \<open>C33: the gradient a step follows is the gradient of what is maximised: each free config's entry is the derivative
  of the log-likelihood and the virtual games together in its strength, with every other held.\<close>

theorem gradient_is_the_derivative:
  assumes "list_all (\<lambda>(i, j, games, score). i < n \<and> j < n) results" "length theta = n"
    "a < length (pr_free (problem_of (built n results) anchor))"
  shows "((\<lambda>x. objective (problem_of (built n results) anchor) (theta[pr_free (problem_of (built n results) anchor) ! a := x]))
    has_real_derivative fst (derivatives (problem_of (built n results) anchor) theta) ! a)
    (at (theta ! (pr_free (problem_of (built n results) anchor) ! a)))"
proof -
  let ?p = "problem_of (built n results) anchor"
  have p: "problem_ok ?p" by (rule problem_of_ok [OF built_sound(1) [OF assms(1)]])
  have n: "pr_n ?p = n" using built_sound(2) [OF assms(1)] by (simp add: problem_of_def)
  have f: "pr_free ?p ! a < pr_n ?p" using p assms(3) by (simp add: problem_ok_def)
  from objective_deriv [OF p _ f, of theta] gradient_sums [OF p assms(3), of theta] assms(2) n show ?thesis by simp
qed

lemma gradient_is_the_derivative_witness:
  "\<exists>d. ((\<lambda>x. objective (problem_of (built 2 [(0, 1, 10, 7)]) 0) ([0, 1][1 := x])) has_real_derivative d) (at 1)"
proof -
  have free: "pr_free (problem_of (built 2 [(0, 1, 10, 7)]) 0) = [1]"
    by (simp add: problem_of_def built_def matrix_add_def matrix_new_def Let_def eval_nat_numeral)
  from gradient_is_the_derivative [of 2 "[(0, 1, 10, 7)]" "[0, 1]" 0 0] show ?thesis unfolding free by auto
qed

text \<open>C32: in exact arithmetic every step factors undamped: it solves the curvature for the gradient, so the fit never
  gives up for want of one, and it climbs unless the gradient is zero already.\<close>

theorem newton_steps_climb:
  assumes "list_all (\<lambda>(i, j, games, score). i < n \<and> j < n) results" "anchor < n"
    "derivatives (problem_of (built n results) anchor) theta = (gradient, curvature)"
  shows "\<exists>step. damped_newton_step curvature (length gradient) gradient = Some step \<and> length step = length gradient \<and>
    (\<forall>a<length gradient. mat_times (length gradient) curvature step a = gradient ! a) \<and>
    (0 < dot gradient step \<or> (\<forall>a<length gradient. gradient ! a = 0))"
proof -
  let ?p = "problem_of (built n results) anchor" and ?m = "length gradient"
  have p: "problem_ok ?p" by (rule problem_of_ok [OF built_sound(1) [OF assms(1)]])
  have n: "pr_n ?p = n" using built_sound(2) [OF assms(1)] by (simp add: problem_of_def)
  have m: "?m = length (pr_free ?p)" using arg_cong [OF assms(3), of "\<lambda>d. length (fst d)"]
    by (simp add: derivatives_def Let_def case_prod_beta)
  have anchor: "anchor < pr_n ?p" "anchor \<notin> set (pr_free ?p)" using assms(2) n by (simp_all add: problem_of_def)
  have c: "positive_definite ?m curvature" "symmetric ?m curvature"
    using curvature_positive [OF p anchor, of theta] curvature_form(2) [OF p, of theta] assms(3) by (simp_all add: m)
  from damped_newton_step_first [OF c, of gradient] obtain factor where
    f: "factored curvature ?m ?m 0 factor" "damped_newton_step curvature ?m gradient = Some (cholesky_solve factor ?m gradient)" by blast
  let ?step = "cholesky_solve factor ?m gradient"
  note s = cholesky_solves [OF f(1) c(2) refl]
  have "0 < dot gradient ?step \<or> (\<forall>a<?m. gradient ! a = 0)"
  proof (cases "\<exists>a<?m. ?step ! a \<noteq> 0")
    case True
    with c(1) show ?thesis unfolding dot_times [OF refl s] positive_definite_def by blast
  next
    case False
    have "gradient ! a = 0" if "a < ?m" for a
    proof -
      have "mat_times ?m curvature ?step a = 0" using False by (simp add: mat_times_def)
      with s(2) that show ?thesis by simp
    qed
    then show ?thesis by blast
  qed
  with f(2) s show ?thesis by blast
qed

lemma newton_steps_climb_witness:
  "\<exists>step. damped_newton_step (snd (derivatives (problem_of (built 2 [(0, 1, 10, 7)]) 0) [0, 0])) 1
     (fst (derivatives (problem_of (built 2 [(0, 1, 10, 7)]) 0) [0, 0])) = Some step"
proof -
  obtain g c where d: "derivatives (problem_of (built 2 [(0, 1, 10, 7)]) 0) [0, 0] = (g, c)" by fastforce
  have "length (fst (derivatives (problem_of (built 2 [(0, 1, 10, 7)]) 0) [0, 0])) = 1"
    by (simp add: derivatives_def Let_def case_prod_beta problem_of_def built_def matrix_add_def matrix_new_def eval_nat_numeral)
  with d have g: "length g = 1" by simp
  have r: "list_all (\<lambda>(i, j, games, score). i < (2::nat) \<and> j < (2::nat)) [(0, 1, 10, 7)]" by simp
  from newton_steps_climb [OF r _ d] obtain step where "damped_newton_step c (length g) g = Some step" by auto
  with g show ?thesis unfolding d fst_conv snd_conv by (intro exI [of _ step]) simp
qed

end
