(* ===== verification/Ratings.thy ===== *)
theory Ratings
  imports Outcomes Results Admin_Purge Bradley_Terry
begin

text \<open>
  \<open>ratings.rs\<close>: who is rated, against what evidence, and the snapshots that result.  A fit reads the finished
  game pairs of the pool's scope and writes a run; the sweep refits what moved, and old runs are thinned.
  Every fit holds its pool's lock from its first read to its commit, so it is one function of the tables.
\<close>

section \<open>The tables\<close>

datatype trigger = Membership | Evidence | Manual | Anchor

fun trigger_text :: "trigger \<Rightarrow> ustr" where
  "trigger_text Membership = lit ''membership''"
| "trigger_text Evidence = lit ''evidence''"
| "trigger_text Manual = lit ''manual''"
| "trigger_text Anchor = lit ''anchor''"

record rating_pool =
  po_id :: nat
  po_name :: ustr
  po_variant :: ustr
  po_letterdist_id :: nat
  po_layout_id :: nat
  po_anchor :: nat
  po_anchor_rating :: real

record pool_member =
  pm_pool_id :: nat
  pm_player_config_id :: nat
  pm_added_by :: "nat option"

record stored_run = rating_run +
  ru_trigger :: trigger
  ru_method :: ustr
  ru_iterations :: int
  ru_converged :: bool
  ru_pairs_used :: int
  ru_jobs_used :: int

record config_rating =
  cg_run_id :: nat
  cg_player_config_id :: nat
  cg_rating :: real
  cg_stderr :: real
  cg_pairs_played :: int
  cg_connected :: bool
  cg_is_anchor :: bool

record cross_cell =
  cc_row :: nat
  cc_col :: nat
  cc_pairs :: real
  cc_actual :: real
  cc_predicted :: real
  cc_stderr :: f64
  cc_spread :: f64

text \<open>A row of \<open>rating_run_residuals\<close> is its run and its cell.\<close>

record rating_tables =
  rg_pools :: "rating_pool list"
  rg_members :: "pool_member list"
  rg_runs :: "stored_run list"
  rg_ratings :: "config_rating list"
  rg_residuals :: "(nat \<times> cross_cell) list"

text \<open>What a fit reads beside them, and what ranks text as the database orders it.\<close>

record evidence_source =
  es_jobs :: "job_row list"
  es_catalogue :: catalogue
  es_results :: "game_result_row list"
  es_collate :: "ustr \<Rightarrow> ustr"

section \<open>A head-to-head\<close>

text \<open>Sums of doubles that may not be finite.\<close>

fun f64_add :: "f64 \<Rightarrow> f64 \<Rightarrow> f64" where
  "f64_add (Fin a) (Fin b) = Fin (a + b)"
| "f64_add NaN _ = NaN"
| "f64_add _ NaN = NaN"
| "f64_add PInf NInf = NaN"
| "f64_add NInf PInf = NaN"
| "f64_add PInf _ = PInf"
| "f64_add _ PInf = PInf"
| "f64_add NInf _ = NInf"
| "f64_add _ NInf = NInf"

definition f64_scale :: "real \<Rightarrow> f64 \<Rightarrow> f64" where
  "f64_scale c x = (case x of Fin a \<Rightarrow> Fin (c * a) | NaN \<Rightarrow> NaN
    | PInf \<Rightarrow> (if c = 0 then NaN else if c > 0 then PInf else NInf)
    | NInf \<Rightarrow> (if c = 0 then NaN else if c > 0 then NInf else PInf))"

record head_to_head =
  hh_pentanomial :: "int list"
  hh_games :: int
  hh_spread_sum :: f64

definition no_evidence :: head_to_head where
  "no_evidence = \<lparr>hh_pentanomial = [0, 0, 0, 0, 0], hh_games = 0, hh_spread_sum = Fin 0\<rparr>"

definition add_bucket :: "bool \<Rightarrow> nat \<times> int \<Rightarrow> int list \<Rightarrow> int list" where
  "add_bucket flipped cell counts = (case cell of (k0, n) \<Rightarrow>
     let k = (if flipped then 4 - k0 else k0) in counts[k := as_u64 (counts ! k + n)])"

definition add_evidence :: "int list \<Rightarrow> int \<Rightarrow> f64 \<Rightarrow> bool \<Rightarrow> head_to_head \<Rightarrow> head_to_head" where
  "add_evidence pentanomial played spread_sum flipped h = h\<lparr>
     hh_pentanomial := fold (add_bucket flipped) (enumerate 0 pentanomial) (hh_pentanomial h),
     hh_games := as_i64 (hh_games h + played),
     hh_spread_sum := f64_add (hh_spread_sum h) (if flipped then f64_scale (- 1) spread_sum else spread_sum)\<rparr>"

definition score_and_stderr :: "head_to_head \<Rightarrow> real \<times> f64" where
  "score_and_stderr h =
     (let s = from_pentanomial (hh_pentanomial h) in
      if sa_n s = 0 then (1 / 2, PInf)
      else (sa_mean s, Fin (sqrt (max (sa_variance s) 0 / of_int (sa_n s)))))"

definition pair_spread :: "head_to_head \<Rightarrow> f64" where
  "pair_spread h = (if hh_games h \<le> 0 then Fin 0 else f64_scale (1 / of_int (hh_games h)) (hh_spread_sum h))"

definition mirrored :: "cross_cell \<Rightarrow> cross_cell" where
  "mirrored c = \<lparr>cc_row = cc_col c, cc_col = cc_row c, cc_pairs = cc_pairs c, cc_actual = 1 - cc_actual c,
     cc_predicted = 1 - cc_predicted c, cc_stderr = cc_stderr c, cc_spread = f64_scale (- 1) (cc_spread c)\<rparr>"

definition both_sides :: "cross_cell list \<Rightarrow> cross_cell list" where
  "both_sides cells = sort_key cc_row (sort_key cc_col (concat (map (\<lambda>c. [c, mirrored c]) cells)))"

section \<open>The evidence\<close>

definition members_in :: "rating_tables \<Rightarrow> nat \<Rightarrow> nat list" where
  "members_in rt pool_id = map pm_player_config_id (filter (\<lambda>m. pm_pool_id m = pool_id) (rg_members rt))"

text \<open>A member joined with its config, by name.\<close>

definition members_by_name :: "evidence_source \<Rightarrow> rating_tables \<Rightarrow> nat \<Rightarrow> nat list" where
  "members_by_name es rt pool_id =
     (let configs = map n_config (cat_players (es_catalogue es));
          joined = concat (map (\<lambda>i. map (\<lambda>c. (pc_name c, i)) (filter (\<lambda>c. pc_id c = i) configs)) (members_in rt pool_id))
      in map snd (sort_key (\<lambda>(name, _). es_collate es name) joined))"

definition eligible_jobs :: "evidence_source \<Rightarrow> rating_tables \<Rightarrow> rating_pool \<Rightarrow> (job_row \<times> nat \<times> nat) list" where
  "eligible_jobs es rt p =
     (let members = members_in rt (po_id p) in
      concat (map (\<lambda>j. map (\<lambda>(_, c). (j, pg_player1_config_id c, pg_player2_config_id c))
          (filter (\<lambda>(i, c). i = j_id j \<and> pg_player1_config_id c \<in> set members \<and> pg_player2_config_id c \<in> set members)
            (cat_game_pair (es_catalogue es))))
        (filter (\<lambda>j. j_job_type j = GamePairs \<and> j_variant j = po_variant p \<and> j_letterdist_id j = po_letterdist_id p \<and>
            j_layout_id j = po_layout_id p) (es_jobs es))))"

text \<open>One job's paired results, summed.\<close>

record job_evidence =
  je_p1 :: nat
  je_p2 :: nat
  je_job_id :: nat
  je_pent :: "int list"
  je_games :: int
  je_spread_sum :: f64

definition paired_results :: "evidence_source \<Rightarrow> nat \<Rightarrow> (int list \<times> game_result_row) list" where
  "paired_results es job_id = concat (map (\<lambda>r. case gs_pent r of None \<Rightarrow> [] | Some pent \<Rightarrow> [(pent, r)])
     (filter (\<lambda>r. gs_job_id r = job_id) (es_results es)))"

definition sum_results :: "nat \<times> nat \<Rightarrow> nat \<Rightarrow> (int list \<times> game_result_row) list \<Rightarrow> job_evidence" where
  "sum_results players job_id rows = \<lparr>je_p1 = fst players, je_p2 = snd players, je_job_id = job_id,
     je_pent = map (\<lambda>b. \<Sum>(pent, _)\<leftarrow>rows. pent ! b) [0, 1, 2, 3, 4],
     je_games = (\<Sum>(_, r)\<leftarrow>rows. gs_games r),
     je_spread_sum = fold (\<lambda>(_, r). f64_add (f64_scale (of_int (gs_games r))
       (f64_add (gs_p1_score_mean r) (f64_scale (- 1) (gs_p2_score_mean r))))) rows (Fin 0)\<rparr>"

definition evidence_rows :: "evidence_source \<Rightarrow> rating_tables \<Rightarrow> rating_pool \<Rightarrow> job_evidence list" where
  "evidence_rows es rt p = concat (map (\<lambda>(j, players). case paired_results es (j_id j) of
       [] \<Rightarrow> [] | rows \<Rightarrow> [sum_results players (j_id j) rows]) (eligible_jobs es rt p))"

record evidence =
  ev_members :: "nat list"
  ev_matrix :: matrix
  ev_pairs_used :: int
  ev_jobs :: "nat list"
  ev_head_to_heads :: "nat \<times> nat \<Rightarrow> head_to_head option"

definition pairs_of :: "job_evidence \<Rightarrow> real" where
  "pairs_of e = (\<Sum>c\<leftarrow>je_pent e. of_int c)"

definition score_of_p1 :: "job_evidence \<Rightarrow> real" where
  "score_of_p1 e = (\<Sum>(k, c)\<leftarrow>enumerate 0 (je_pent e). of_int c * (of_nat k / 4))"

text \<open>The float's cast to \<open>u64\<close> saturates.\<close>

definition float_as_u64 :: "real \<Rightarrow> int" where
  "float_as_u64 x = max 0 (min u64_max \<lfloor>x\<rfloor>)"

definition index_of :: "nat list \<Rightarrow> nat \<Rightarrow> nat option" where
  "index_of members i = map_of (zip members [0..<length members]) i"

definition insert_id :: "nat \<Rightarrow> nat list \<Rightarrow> nat list" where
  "insert_id i ids = (if i \<in> set ids then ids else ids @ [i])"

definition add_job :: "job_evidence \<Rightarrow> evidence \<Rightarrow> evidence" where
  "add_job e v = (case (index_of (ev_members v) (je_p1 e), index_of (ev_members v) (je_p2 e)) of
     (Some i, Some j) \<Rightarrow>
       if i = j then v
       else
         (let pairs = pairs_of e; key = (min i j, max i j);
              known = unwrap_or (ev_head_to_heads v key) no_evidence
          in if pairs \<le> 0 then v
             else v\<lparr>ev_matrix := matrix_add i j pairs (score_of_p1 e) (ev_matrix v),
               ev_pairs_used := as_u64 (ev_pairs_used v + float_as_u64 pairs),
               ev_jobs := insert_id (je_job_id e) (ev_jobs v),
               ev_head_to_heads := (ev_head_to_heads v)(key \<mapsto>
                 add_evidence (map (max 0) (je_pent e)) (je_games e) (je_spread_sum e) (i > j) known)\<rparr>)
   | _ \<Rightarrow> v)"

definition fresh_evidence :: "nat list \<Rightarrow> evidence" where
  "fresh_evidence members = \<lparr>ev_members = members, ev_matrix = matrix_new (length members), ev_pairs_used = 0, ev_jobs = [],
     ev_head_to_heads = (\<lambda>_. None)\<rparr>"

definition build_matrix :: "evidence_source \<Rightarrow> rating_tables \<Rightarrow> rating_pool \<Rightarrow> evidence" where
  "build_matrix es rt p = fold add_job (evidence_rows es rt p) (fresh_evidence (members_by_name es rt (po_id p)))"

section \<open>The fit\<close>

definition load_pool :: "rating_tables \<Rightarrow> nat \<Rightarrow> rating_pool app_result" where
  "load_pool rt pool_id = ok_or (row_with po_id pool_id (rg_pools rt)) (Not_found ''rating pool not found'')"

text \<open>\<open>COALESCE(SUM(games_completed), 0)\<close>.\<close>

definition evidence_games :: "evidence_source \<Rightarrow> rating_tables \<Rightarrow> rating_pool \<Rightarrow> int" where
  "evidence_games es rt p = (\<Sum>(j, _)\<leftarrow>eligible_jobs es rt p. j_games_completed j)"

definition run_before :: "('a rating_run_scheme) \<Rightarrow> ('a rating_run_scheme) \<Rightarrow> bool" where
  "run_before r s \<longleftrightarrow> ru_computed_at r < ru_computed_at s \<or> (ru_computed_at r = ru_computed_at s \<and> ru_id r < ru_id s)"

definition pool_runs :: "'a rating_run_scheme list \<Rightarrow> nat \<Rightarrow> 'a rating_run_scheme list" where
  "pool_runs runs pool_id = filter (\<lambda>r. ru_pool_id r = pool_id) runs"

definition latest_run :: "'a rating_run_scheme list \<Rightarrow> nat \<Rightarrow> ('a rating_run_scheme) option" where
  "latest_run runs pool_id = (let mine = pool_runs runs pool_id in find (\<lambda>r. \<not> list_ex (run_before r) mine) mine)"

definition rated_in :: "rating_tables \<Rightarrow> nat \<Rightarrow> nat list" where
  "rated_in rt run_id = sort (map cg_player_config_id (filter (\<lambda>g. cg_run_id g = run_id) (rg_ratings rt)))"

text \<open>The sweep's two questions: has the sum of games or the membership moved, and has the count of pairs.\<close>

definition same_games :: "evidence_source \<Rightarrow> rating_tables \<Rightarrow> rating_pool \<Rightarrow> bool" where
  "same_games es rt p = (case latest_run (rg_runs rt) (po_id p) of
     None \<Rightarrow> False
   | Some r \<Rightarrow> ru_evidence_games r = Some (evidence_games es rt p) \<and> rated_in rt (ru_id r) = sort (members_in rt (po_id p)))"

definition same_pairs :: "rating_tables \<Rightarrow> nat \<Rightarrow> evidence \<Rightarrow> stored_run option" where
  "same_pairs rt pool_id v = (case latest_run (rg_runs rt) pool_id of
     None \<Rightarrow> None
   | Some r \<Rightarrow> if ru_pairs_used r = as_i64 (ev_pairs_used v) \<and> rated_in rt (ru_id r) = sort (ev_members v) then Some r
       else None)"

definition F64_MAX :: real where "F64_MAX = (2 - 1 / 2 ^ 52) * 2 ^ 1023"

definition float_as_i64 :: "real \<Rightarrow> int" where
  "float_as_i64 x = max (- i64_max - 1) (min i64_max (if x < 0 then \<lceil>x\<rceil> else \<lfloor>x\<rfloor>))"

definition rating_row :: "nat \<Rightarrow> fit_result \<Rightarrow> nat \<Rightarrow> nat \<times> nat \<Rightarrow> config_rating" where
  "rating_row run_id f anchor_index im = (case im of (i, member) \<Rightarrow>
     let rated = fr_ratings f ! i in
     \<lparr>cg_run_id = run_id, cg_player_config_id = member, cg_rating = rd_rating rated,
      cg_stderr = (case rd_stderr rated of Some e \<Rightarrow> e | None \<Rightarrow> F64_MAX),
      cg_pairs_played = float_as_i64 (rd_games rated), cg_connected = (i = anchor_index \<or> is_rateable f i),
      cg_is_anchor = (i = anchor_index)\<rparr>)"

definition cell_of :: "evidence \<Rightarrow> residual \<Rightarrow> cross_cell" where
  "cell_of v r =
     (let h = unwrap_or (ev_head_to_heads v (re_i r, re_j r)) no_evidence in
      \<lparr>cc_row = ev_members v ! re_i r, cc_col = ev_members v ! re_j r, cc_pairs = re_games r, cc_actual = re_actual r,
       cc_predicted = re_predicted r, cc_stderr = snd (score_and_stderr h), cc_spread = pair_spread h\<rparr>)"

definition store_fit :: "evidence \<Rightarrow> rating_pool \<Rightarrow> nat \<Rightarrow> trigger \<Rightarrow> int \<Rightarrow> nat \<Rightarrow> time \<Rightarrow> rating_tables \<Rightarrow> rating_tables" where
  "store_fit v p anchor_index why played run_id clock rt =
     (let f = fit (ev_matrix v) anchor_index (po_anchor_rating p) in rt\<lparr>
        rg_runs := rg_runs rt @ [\<lparr>ru_id = run_id, ru_pool_id = po_id p, ru_computed_at = clock, ru_evidence_games = Some played,
          ru_trigger = why, ru_method = lit ''bradley_terry_newton'', ru_iterations = as_i32 (int (fr_iterations f)),
          ru_converged = fr_converged f, ru_pairs_used = as_i64 (ev_pairs_used v),
          ru_jobs_used = as_i32 (int (length (ev_jobs v)))\<rparr>],
        rg_ratings := rg_ratings rt @ map (rating_row run_id f anchor_index) (enumerate 0 (ev_members v)),
        rg_residuals := rg_residuals rt @ map (\<lambda>r. (run_id, cell_of v r)) (residuals f (ev_matrix v))\<rparr>)"

text \<open>The new run's id, when one is stored; the id and the clock of its insert are drawn by the database.\<close>

definition fit_within ::
  "evidence_source \<Rightarrow> nat \<Rightarrow> trigger \<Rightarrow> bool \<Rightarrow> nat \<times> time \<Rightarrow> rating_tables \<Rightarrow> (rating_tables \<times> nat option) app_result" where
  "fit_within es pool_id why only_if_changed drawn rt =
     and_then (load_pool rt pool_id) (\<lambda>p.
       let played = evidence_games es rt p; v = build_matrix es rt p in
       if only_if_changed \<and> same_games es rt p then Inr (rt, None)
       else (case (if only_if_changed then same_pairs rt pool_id v else None) of
           Some r \<Rightarrow> Inr (rt\<lparr>rg_runs := update_key ru_id (ru_id r) (\<lambda>r. r\<lparr>ru_evidence_games := Some played\<rparr>) (rg_runs rt)\<rparr>, None)
         | None \<Rightarrow>
             and_then (ok_or (index_of (ev_members v) (po_anchor p)) (Bad_request ''the anchor is not a member'')) (\<lambda>anchor_index.
               Inr (store_fit v p anchor_index why played (fst drawn) (snd drawn) rt, Some (fst drawn)))))"

definition recompute ::
  "evidence_source \<Rightarrow> nat \<Rightarrow> trigger \<Rightarrow> nat \<times> time \<Rightarrow> rating_tables \<Rightarrow> (rating_tables \<times> nat) app_result" where
  "recompute es pool_id why drawn rt =
     and_then (fit_within es pool_id why False drawn rt) (\<lambda>(rt', run_id).
       and_then (ok_or run_id (Internal ''an unconditional refit stored nothing'')) (\<lambda>i. Inr (rt', i)))"

section \<open>The sweep\<close>

text \<open>Each pool in its own transaction, which a failure undoes; \<open>meanwhile\<close> is what others commit before each.\<close>

fun sweep_pools ::
  "evidence_source \<Rightarrow> (nat \<Rightarrow> rating_tables \<Rightarrow> rating_tables) \<Rightarrow> (nat \<Rightarrow> nat \<times> time) \<Rightarrow> nat list \<Rightarrow> rating_tables \<Rightarrow> nat \<Rightarrow>
    rating_tables \<times> nat" where
  "sweep_pools es meanwhile drawn [] rt recomputed = (rt, recomputed)"
| "sweep_pools es meanwhile drawn (pool_id # rest) rt recomputed =
     (let now = meanwhile pool_id rt in
      case fit_within es pool_id Evidence True (drawn pool_id) now of
        Inl _ \<Rightarrow> sweep_pools es meanwhile drawn rest now recomputed
      | Inr (rt', None) \<Rightarrow> sweep_pools es meanwhile drawn rest rt' recomputed
      | Inr (rt', Some _) \<Rightarrow> sweep_pools es meanwhile drawn rest rt' (Suc recomputed))"

definition recompute_stale ::
  "evidence_source \<Rightarrow> (nat \<Rightarrow> rating_tables \<Rightarrow> rating_tables) \<Rightarrow> (nat \<Rightarrow> nat \<times> time) \<Rightarrow> rating_tables \<Rightarrow> rating_tables \<times> nat" where
  "recompute_stale es meanwhile drawn rt = sweep_pools es meanwhile drawn (map po_id (rg_pools rt)) rt 0"

section \<open>Thinning\<close>

definition RUN_FULL_RESOLUTION :: time where "RUN_FULL_RESOLUTION = 30 * 24 * 60 * 60 * 1000000"
definition THIN_BATCH :: nat where "THIN_BATCH = 1000"

definition utc_day :: "time \<Rightarrow> int" where
  "utc_day t = t div (24 * 60 * 60 * 1000000)"

definition old_runs :: "time \<Rightarrow> 'a rating_run_scheme list \<Rightarrow> 'a rating_run_scheme list" where
  "old_runs now runs = filter (\<lambda>r. ru_computed_at r < now - RUN_FULL_RESOLUTION) runs"

text \<open>The two row numbers: from the last of the pool's day backwards, and from the pool's first on.\<close>

definition n_in_day :: "'a rating_run_scheme list \<Rightarrow> 'a rating_run_scheme \<Rightarrow> nat" where
  "n_in_day old r = Suc (length (filter (\<lambda>s. ru_pool_id s = ru_pool_id r \<and>
     utc_day (ru_computed_at s) = utc_day (ru_computed_at r) \<and> run_before r s) old))"

definition n_in_pool :: "'a rating_run_scheme list \<Rightarrow> 'a rating_run_scheme \<Rightarrow> nat" where
  "n_in_pool old r = Suc (length (filter (\<lambda>s. ru_pool_id s = ru_pool_id r \<and> run_before s r) old))"

definition thinned :: "time \<Rightarrow> 'a rating_run_scheme list \<Rightarrow> 'a rating_run_scheme list" where
  "thinned now runs = (let old = old_runs now runs in filter (\<lambda>r. n_in_day old r > 1 \<and> n_in_pool old r > 1) old)"

definition thin_batch :: "time \<Rightarrow> 'a rating_run_scheme list \<Rightarrow> 'a rating_run_scheme list \<times> nat" where
  "thin_batch now runs =
     (let ids = map ru_id (take THIN_BATCH (thinned now runs))
      in (filter (\<lambda>r. ru_id r \<notin> set ids) runs, length (filter (\<lambda>r. ru_id r \<in> set ids) runs)))"

lemma thin_batch_shorter: "length (fst (thin_batch now runs)) + snd (thin_batch now runs) = length runs"
  using sum_length_filter_compl [of "\<lambda>r. ru_id r \<notin> set (map ru_id (take THIN_BATCH (thinned now runs)))" runs]
  by (simp add: thin_batch_def Let_def)

text \<open>Each batch is a statement at its own time.\<close>

function thin_from :: "(nat \<Rightarrow> time) \<Rightarrow> nat \<Rightarrow> 'a rating_run_scheme list \<Rightarrow> nat \<Rightarrow> 'a rating_run_scheme list \<times> nat" where
  "thin_from clock k runs deleted =
     (let left = fst (thin_batch (clock k) runs); batch = snd (thin_batch (clock k) runs) in
      if batch < THIN_BATCH then (left, deleted + batch) else thin_from clock (Suc k) left (deleted + batch))"
  by pat_completeness auto
termination
proof (relation "measure (\<lambda>(_, _, runs, _). length runs)")
  fix clock :: "nat \<Rightarrow> time" and k :: nat and runs :: "'a rating_run_scheme list" and deleted :: nat and left batch
  assume "left = fst (thin_batch (clock k) runs)" "batch = snd (thin_batch (clock k) runs)" "\<not> batch < THIN_BATCH"
  then show "((clock, Suc k, left, deleted + batch), clock, k, runs, deleted) \<in> measure (\<lambda>(_, _, runs, _). length runs)"
    using thin_batch_shorter [of "clock k" runs] by (simp add: THIN_BATCH_def)
qed simp

declare thin_from.simps [simp del]

text \<open>The ratings and residuals go with their run.\<close>

definition keep_runs :: "stored_run list \<Rightarrow> rating_tables \<Rightarrow> rating_tables" where
  "keep_runs runs rt = rt\<lparr>rg_runs := runs, rg_ratings := filter (\<lambda>g. cg_run_id g \<in> set (map ru_id runs)) (rg_ratings rt),
     rg_residuals := filter (\<lambda>(i, _). i \<in> set (map ru_id runs)) (rg_residuals rt)\<rparr>"

definition thin_old_runs :: "(nat \<Rightarrow> time) \<Rightarrow> rating_tables \<Rightarrow> rating_tables \<times> nat" where
  "thin_old_runs clock rt = (let (runs, deleted) = thin_from clock 0 (rg_runs rt) 0 in (keep_runs runs rt, deleted))"

end
