(* ===== verification/Rating_Pools.thy ===== *)
theory Rating_Pools
  imports Ratings Board Racks
begin

text \<open>
  \<open>routes/ratings.rs\<close>: what the public reads of a pool, and what an admin does to one.  An admin's change is one
  transaction; the refit after an addition or a removal is another, so others may commit between the two.
\<close>

section \<open>Reads\<close>

record pool_list_item =
  ql_id :: nat
  ql_name :: ustr
  ql_variant :: ustr
  ql_letter_distribution :: ustr
  ql_layout :: ustr
  ql_members :: nat
  ql_last_computed_at :: "time option"

text \<open>A pool joined with the rows of its letter distribution and its layout.\<close>

definition pool_files :: "catalogue \<Rightarrow> rating_pool \<Rightarrow> (input_row \<times> input_row) option" where
  "pool_files cat p = (case (input_of cat (po_letterdist_id p), input_of cat (po_layout_id p)) of
     (Some ld, Some lay) \<Rightarrow> Some (ld, lay) | _ \<Rightarrow> None)"

definition last_computed :: "stored_run list \<Rightarrow> time option" where
  "last_computed runs = (case map ru_computed_at runs of [] \<Rightarrow> None | t # ts \<Rightarrow> Some (foldl max t ts))"

definition pool_list_item_of :: "rating_tables \<Rightarrow> rating_pool \<Rightarrow> input_row \<times> input_row \<Rightarrow> pool_list_item" where
  "pool_list_item_of rt p files = \<lparr>ql_id = po_id p, ql_name = po_name p, ql_variant = po_variant p,
     ql_letter_distribution = in_name (fst files), ql_layout = in_name (snd files),
     ql_members = length (members_in rt (po_id p)), ql_last_computed_at = last_computed (pool_runs (rg_runs rt) (po_id p))\<rparr>"

definition list_pools :: "evidence_source \<Rightarrow> rating_tables \<Rightarrow> pool_list_item list" where
  "list_pools es rt = concat (map (\<lambda>p. case pool_files (es_catalogue es) p of None \<Rightarrow> []
       | Some files \<Rightarrow> [pool_list_item_of rt p files]) (sort_key (\<lambda>p. es_collate es (po_name p)) (rg_pools rt)))"

record pool_detail =
  pd_pool :: rating_pool
  pd_letter_distribution :: ustr
  pd_layout :: ustr
  pd_members :: "(nat \<times> ustr) list"
  pd_run :: "stored_run option"
  pd_ratings :: "(ustr \<times> config_rating) list"
  pd_head_to_heads :: "cross_cell list"

definition player_name :: "catalogue \<Rightarrow> nat \<Rightarrow> ustr option" where
  "player_name cat i = map_option (pc_name \<circ> n_config) (named_player cat i)"

text \<open>\<open>JOIN player_configs\<close>: each row with its config's name.\<close>

definition with_names :: "catalogue \<Rightarrow> ('r \<Rightarrow> nat) \<Rightarrow> 'r list \<Rightarrow> (ustr \<times> 'r) list" where
  "with_names cat config rows = concat (map (\<lambda>r. case player_name cat (config r) of None \<Rightarrow> [] | Some name \<Rightarrow> [(name, r)]) rows)"

definition run_ratings :: "rating_tables \<Rightarrow> nat \<Rightarrow> config_rating list" where
  "run_ratings rt run_id = filter (\<lambda>g. cg_run_id g = run_id) (rg_ratings rt)"

definition run_cells :: "rating_tables \<Rightarrow> nat \<Rightarrow> cross_cell list" where
  "run_cells rt run_id = map snd (filter (\<lambda>(i, _). i = run_id) (rg_residuals rt))"

definition pool_detail_of :: "evidence_source \<Rightarrow> rating_tables \<Rightarrow> nat \<Rightarrow> pool_detail app_result" where
  "pool_detail_of es rt pool_id =
     and_then (load_pool rt pool_id) (\<lambda>p.
     and_then (ok_or (pool_files (es_catalogue es) p) (Not_found ''rating pool not found'')) (\<lambda>(ld, lay).
       let cat = es_catalogue es; run = latest_run (rg_runs rt) pool_id;
           members = sort_key (\<lambda>(name, i). es_collate es name) (sort_key snd (with_names cat id (members_in rt pool_id)))
       in Inr \<lparr>pd_pool = p, pd_letter_distribution = in_name ld, pd_layout = in_name lay,
            pd_members = map (\<lambda>(name, i). (i, name)) members, pd_run = run,
            pd_ratings = (case run of None \<Rightarrow> []
              | Some r \<Rightarrow> sort_key (\<lambda>(_, g). - cg_rating g) (with_names cat cg_player_config_id (run_ratings rt (ru_id r)))),
            pd_head_to_heads = (case run of None \<Rightarrow> [] | Some r \<Rightarrow> both_sides (run_cells rt (ru_id r)))\<rparr>))"

section \<open>The history\<close>

definition MAX_HISTORY_RUNS :: nat where "MAX_HISTORY_RUNS = 500"
definition HISTORY_CONFIGS :: nat where "HISTORY_CONFIGS = 6"

text \<open>The row number is counted from one.\<close>

definition in_history :: "nat \<Rightarrow> nat \<Rightarrow> bool" where
  "in_history whole n \<longleftrightarrow> whole \<le> MAX_HISTORY_RUNS \<or>
     (n - 1) mod ((whole + MAX_HISTORY_RUNS - 1) div MAX_HISTORY_RUNS) = 0 \<or> n = whole"

definition history_runs :: "'a rating_run_scheme list \<Rightarrow> nat \<Rightarrow> 'a rating_run_scheme list" where
  "history_runs runs pool_id =
     (let mine = sort_key ru_computed_at (sort_key ru_id (pool_runs runs pool_id))
      in map snd (filter (\<lambda>(n, _). in_history (length mine) n) (enumerate 1 mine)))"

record history_point =
  hp_computed_at :: time
  hp_player_config_id :: nat
  hp_name :: ustr
  hp_rating :: real
  hp_stderr :: real

definition shown_configs :: "evidence_source \<Rightarrow> rating_tables \<Rightarrow> nat \<Rightarrow> nat \<Rightarrow> (nat \<times> ustr) list" where
  "shown_configs es rt pool_id newest =
     map (\<lambda>(name, g). (cg_player_config_id g, name))
       (take HISTORY_CONFIGS (sort_key (\<lambda>(_, g). - cg_rating g) (sort_key (\<lambda>(_, g). cg_player_config_id g)
         (with_names (es_catalogue es) cg_player_config_id
           (filter (\<lambda>g. cg_player_config_id g \<in> set (members_in rt pool_id) \<and> cg_connected g) (run_ratings rt newest))))))"

definition history_point_of :: "stored_run \<Rightarrow> (nat \<times> ustr) list \<Rightarrow> config_rating \<Rightarrow> history_point list" where
  "history_point_of run shown g = (case map_of shown (cg_player_config_id g) of
     Some name \<Rightarrow> if cg_connected g then [\<lparr>hp_computed_at = ru_computed_at run, hp_player_config_id = cg_player_config_id g,
       hp_name = name, hp_rating = cg_rating g, hp_stderr = cg_stderr g\<rparr>] else []
   | None \<Rightarrow> [])"

definition pool_history :: "evidence_source \<Rightarrow> rating_tables \<Rightarrow> nat \<Rightarrow> history_point list" where
  "pool_history es rt pool_id =
     (let runs = history_runs (rg_runs rt) pool_id in
      if runs = [] then []
      else
        (let shown = shown_configs es rt pool_id (ru_id (last runs));
             points = concat (map (\<lambda>run. concat (map (history_point_of run shown) (run_ratings rt (ru_id run)))) runs)
         in sort_key hp_computed_at (sort_key hp_name points)))"

section \<open>Creating a pool\<close>

record create_pool_body =
  cp_name :: ustr
  cp_variant :: ustr
  cp_letterdist_id :: nat
  cp_layout_id :: nat
  cp_anchor_player_config_id :: nat
  cp_anchor_rating :: "f64 option"

definition default_anchor_rating :: f64 where "default_anchor_rating = Fin 2000"
definition MAX_ABS_ANCHOR_RATING :: real where "MAX_ABS_ANCHOR_RATING = 10000"

definition anchor_rating_ok :: "f64 \<Rightarrow> bool" where
  "anchor_rating_ok r \<longleftrightarrow> is_finite r \<and> \<not> f64_lt (Fin MAX_ABS_ANCHOR_RATING) (f64_abs r)"

definition anchor_rating_of :: "create_pool_body \<Rightarrow> f64" where
  "anchor_rating_of b = unwrap_or (cp_anchor_rating b) default_anchor_rating"

definition create_pool_fields :: "create_pool_body \<Rightarrow> (string \<times> string) list" where
  "create_pool_fields b =
     (if trim (cp_name b) = [] then [(''name'', ''must not be empty'')]
      else field_problem ''name'' (name_problem (trim (cp_name b)))) @
     field_if (cp_variant b \<notin> {lit ''classic'', lit ''wordsmog''}) ''variant'' ''must be classic or wordsmog'' @
     field_if (\<not> anchor_rating_ok (anchor_rating_of b)) ''anchor_rating'' ''must be a number between -10000 and 10000''"

text \<open>The value of a rating that has been checked to be one.\<close>

fun finite_value :: "f64 \<Rightarrow> real" where
  "finite_value (Fin r) = r"
| "finite_value _ = 0"

text \<open>A foreign key on a config: a bad request naming it.\<close>

definition unknown_config :: "string \<Rightarrow> app_error" where
  "unknown_config field = Invalid ''that player does not exist'' [(field, ''no such player'')]"

definition is_config :: "catalogue \<Rightarrow> nat \<Rightarrow> bool" where
  "is_config cat i \<longleftrightarrow> named_player cat i \<noteq> None"

definition is_member :: "rating_tables \<Rightarrow> nat \<Rightarrow> nat \<Rightarrow> bool" where
  "is_member rt pool_id i \<longleftrightarrow> i \<in> set (members_in rt pool_id)"

text \<open>\<open>INSERT ... ON CONFLICT DO NOTHING\<close>: whether a row was inserted, or the foreign key's failure.\<close>

definition insert_member ::
  "catalogue \<Rightarrow> nat \<Rightarrow> string \<Rightarrow> nat \<Rightarrow> nat \<Rightarrow> rating_tables \<Rightarrow> (rating_tables \<times> bool) app_result" where
  "insert_member cat admin field pool_id i rt =
     (if is_member rt pool_id i then Inr (rt, False)
      else if \<not> is_config cat i then Inl (unknown_config field)
      else Inr (rt\<lparr>rg_members := rg_members rt @
        [\<lparr>pm_pool_id = pool_id, pm_player_config_id = i, pm_added_by = Some admin\<rparr>]\<rparr>, True))"

type_synonym pool_books = "rating_tables \<times> audit_row list"

definition log_pool :: "string \<Rightarrow> nat \<Rightarrow> string \<Rightarrow> nat \<Rightarrow> audit_row list \<Rightarrow> audit_row list" where
  "log_pool action admin target i = audit_log (lit action) (Some (By_user admin)) (Some (lit target, i)) None"

text \<open>The two rows a job would be created on, parsed as a job's are.\<close>

definition check_scope :: "catalogue \<Rightarrow> create_pool_body \<Rightarrow> check" where
  "check_scope cat b =
     and_then (require_role cat (cp_letterdist_id b) ''letterdist'') (\<lambda>letterdist_name.
     and_then (require_role cat (cp_layout_id b) ''layout'') (\<lambda>_.
     and_then (fetch_one (input_of cat (cp_letterdist_id b))) (\<lambda>letterdist.
     and_then (case parse (in_content letterdist) letterdist_name of
         Inl _ \<Rightarrow> Inl (Invalid ''no job can be created on that letter distribution'' [(''letterdist_id'', ''cannot be read'')])
       | Inr _ \<Rightarrow> ok) (\<lambda>_.
     and_then (fetch_one (input_of cat (cp_layout_id b))) (\<lambda>layout.
       if layout_problem (in_content layout) \<noteq> None
       then Inl (Invalid ''no job can be created on that board layout'' [(''layout_id'', ''refused by MAGPIE'')]) else ok)))))"

text \<open>The tables' unique name, then the key on the anchor; then the anchor is a member by construction.\<close>

definition create_pool ::
  "catalogue \<Rightarrow> check \<Rightarrow> nat \<Rightarrow> create_pool_body \<Rightarrow> nat \<Rightarrow> pool_books \<Rightarrow> (pool_books \<times> nat) app_result" where
  "create_pool cat csrf admin b pool_id books = (case books of (rt, audit) \<Rightarrow>
     and_then csrf (\<lambda>_.
     and_then (no_fields ''rating pool details are invalid'' (create_pool_fields b)) (\<lambda>_.
     and_then (check_scope cat b) (\<lambda>_.
       if list_ex (\<lambda>p. po_name p = trim (cp_name b)) (rg_pools rt) then Inl (Conflict ''that already exists'')
       else if \<not> is_config cat (cp_anchor_player_config_id b) then Inl (unknown_config ''anchor_player_config_id'')
       else Inr ((rt\<lparr>rg_pools := rg_pools rt @ [\<lparr>po_id = pool_id, po_name = trim (cp_name b), po_variant = cp_variant b,
              po_letterdist_id = cp_letterdist_id b, po_layout_id = cp_layout_id b,
              po_anchor = cp_anchor_player_config_id b, po_anchor_rating = finite_value (anchor_rating_of b)\<rparr>],
            rg_members := rg_members rt @ [\<lparr>pm_pool_id = pool_id,
              pm_player_config_id = cp_anchor_player_config_id b, pm_added_by = Some admin\<rparr>]\<rparr>,
          log_pool ''rating_pool.created'' admin ''rating_pool'' pool_id audit), pool_id)))))"

section \<open>Members\<close>

definition add_member_transaction ::
  "catalogue \<Rightarrow> nat \<Rightarrow> nat \<Rightarrow> nat \<Rightarrow> pool_books \<Rightarrow> (pool_books \<times> bool) app_result" where
  "add_member_transaction cat admin pool_id config_id books = (case books of (rt, audit) \<Rightarrow>
     and_then (load_pool rt pool_id) (\<lambda>_.
     and_then (insert_member cat admin ''player_config_id'' pool_id config_id rt) (\<lambda>(rt', added).
       if \<not> added then Inr (books, False)
       else Inr ((rt', log_pool ''rating_pool.member_added'' admin ''player_config'' config_id audit), True))))"

definition remove_member_transaction :: "nat \<Rightarrow> nat \<Rightarrow> nat \<Rightarrow> pool_books \<Rightarrow> pool_books app_result" where
  "remove_member_transaction admin pool_id config_id books = (case books of (rt, audit) \<Rightarrow>
     and_then (load_pool rt pool_id) (\<lambda>p.
       if po_anchor p = config_id then Inl (Bad_request ''cannot remove the anchor of the pool'')
       else if \<not> is_member rt pool_id config_id then Inl (Not_found ''that player is not in this pool'')
       else Inr (rt\<lparr>rg_members := filter (\<lambda>m. \<not> (pm_pool_id m = pool_id \<and> pm_player_config_id m = config_id)) (rg_members rt)\<rparr>,
         log_pool ''rating_pool.member_removed'' admin ''player_config'' config_id audit)))"

text \<open>The refit after a commit: on what \<open>meanwhile\<close> left, and its failure does not undo the change.\<close>

definition refit ::
  "evidence_source \<Rightarrow> nat \<Rightarrow> trigger \<Rightarrow> nat \<times> time \<Rightarrow> pool_books \<Rightarrow> pool_books \<times> nat option app_result" where
  "refit es pool_id why drawn books = (case recompute es pool_id why drawn (fst books) of
     Inl e \<Rightarrow> (books, Inl e) | Inr (rt, run_id) \<Rightarrow> ((rt, snd books), Inr (Some run_id)))"

definition add_member ::
  "evidence_source \<Rightarrow> check \<Rightarrow> nat \<Rightarrow> nat \<Rightarrow> nat \<Rightarrow> (pool_books \<Rightarrow> pool_books) \<Rightarrow> nat \<times> time \<Rightarrow> pool_books \<Rightarrow>
    pool_books \<times> nat option app_result" where
  "add_member es csrf admin pool_id config_id meanwhile drawn books =
     (case and_then csrf (\<lambda>_. add_member_transaction (es_catalogue es) admin pool_id config_id books) of
        Inl e \<Rightarrow> (books, Inl e)
      | Inr (books', False) \<Rightarrow> (books', Inr None)
      | Inr (books', True) \<Rightarrow> refit es pool_id Membership drawn (meanwhile books'))"

definition remove_member ::
  "evidence_source \<Rightarrow> check \<Rightarrow> nat \<Rightarrow> nat \<Rightarrow> nat \<Rightarrow> (pool_books \<Rightarrow> pool_books) \<Rightarrow> nat \<times> time \<Rightarrow> pool_books \<Rightarrow>
    pool_books \<times> nat option app_result" where
  "remove_member es csrf admin pool_id config_id meanwhile drawn books =
     (case and_then csrf (\<lambda>_. remove_member_transaction admin pool_id config_id books) of
        Inl e \<Rightarrow> (books, Inl e)
      | Inr books' \<Rightarrow> refit es pool_id Membership drawn (meanwhile books'))"

section \<open>The anchor\<close>

text \<open>How the log writes the change: \<open>show\<close> prints a double.\<close>

definition anchor_change :: "(real \<Rightarrow> ustr) \<Rightarrow> rating_pool \<Rightarrow> nat \<Rightarrow> real \<Rightarrow> ustr" where
  "anchor_change show_double p anchor rating = lit ''anchor='' @ show_nat (po_anchor p) @ lit ''@'' @
     show_double (po_anchor_rating p) @ lit '' -> '' @ show_nat anchor @ lit ''@'' @ show_double rating"

definition move_anchor ::
  "(real \<Rightarrow> ustr) \<Rightarrow> evidence_source \<Rightarrow> nat \<Rightarrow> rating_pool \<Rightarrow> nat \<Rightarrow> real \<Rightarrow> nat \<times> time \<Rightarrow> pool_books \<Rightarrow>
    (pool_books \<times> nat option) app_result" where
  "move_anchor show_double es admin p anchor rating drawn books = (case books of (rt, audit) \<Rightarrow>
     and_then (insert_member (es_catalogue es) admin ''anchor_player_config_id'' (po_id p) anchor rt) (\<lambda>(rt1, added).
       let audit1 = (if added then log_pool ''rating_pool.member_added'' admin ''player_config'' anchor audit else audit);
           rt2 = rt1\<lparr>rg_pools := update_key po_id (po_id p) (\<lambda>q. q\<lparr>po_anchor := anchor, po_anchor_rating := rating\<rparr>) (rg_pools rt1)\<rparr>;
           audit2 = log_detail (lit ''rating_pool.anchor_changed'') admin (lit ''rating_pool'') (po_id p) None
             (anchor_change show_double p anchor rating) audit1
       in and_then (recompute es (po_id p) Anchor drawn rt2) (\<lambda>(rt3, run_id). Inr ((rt3, audit2), Some run_id))))"

definition update_pool ::
  "(real \<Rightarrow> ustr) \<Rightarrow> evidence_source \<Rightarrow> check \<Rightarrow> nat \<Rightarrow> nat \<Rightarrow> nat option \<times> f64 option \<Rightarrow> nat \<times> time \<Rightarrow> pool_books \<Rightarrow>
    (pool_books \<times> nat option) app_result" where
  "update_pool show_double es csrf admin pool_id body drawn books = (case body of (new_anchor, new_rating) \<Rightarrow>
     and_then csrf (\<lambda>_.
     and_then (refuse_if (new_anchor = None \<and> new_rating = None) ''name an anchor, a rating, or both'') (\<lambda>_.
     and_then (no_fields ''rating pool details are invalid'' (field_if (is_some_and new_rating (\<lambda>r. \<not> anchor_rating_ok r))
       ''anchor_rating'' ''must be a number between -10000 and 10000'')) (\<lambda>_.
     and_then (load_pool (fst books) pool_id) (\<lambda>p.
       let anchor = unwrap_or new_anchor (po_anchor p);
           rating = unwrap_or (map_option finite_value new_rating) (po_anchor_rating p)
       in if anchor = po_anchor p \<and> rating = po_anchor_rating p then Inr (books, None)
          else move_anchor show_double es admin p anchor rating drawn books)))))"

section \<open>Deleting and refitting\<close>

definition pool_census :: "rating_tables \<Rightarrow> rating_pool \<Rightarrow> ustr" where
  "pool_census rt p = lit ''name='' @ po_name p @ lit '' members='' @ show_nat (length (members_in rt (po_id p))) @
     lit '' runs='' @ show_nat (length (pool_runs (rg_runs rt) (po_id p)))"

text \<open>\<open>DELETE FROM rating_pools\<close>, with what cascades.\<close>

definition forget_pool :: "nat \<Rightarrow> rating_tables \<Rightarrow> rating_tables" where
  "forget_pool pool_id rt =
     (let rt' = keep_runs (filter (\<lambda>r. ru_pool_id r \<noteq> pool_id) (rg_runs rt)) rt in rt'\<lparr>
        rg_pools := filter (\<lambda>p. po_id p \<noteq> pool_id) (rg_pools rt'),
        rg_members := filter (\<lambda>m. pm_pool_id m \<noteq> pool_id) (rg_members rt')\<rparr>)"

definition delete_pool :: "check \<Rightarrow> nat \<Rightarrow> nat \<Rightarrow> pool_books \<Rightarrow> pool_books app_result" where
  "delete_pool csrf admin pool_id books = (case books of (rt, audit) \<Rightarrow>
     and_then csrf (\<lambda>_.
     and_then (load_pool rt pool_id) (\<lambda>p.
       Inr (forget_pool pool_id rt, log_pool ''rating_pool.deleted'' admin ''rating_pool'' pool_id
         (log_detail (lit ''rating_pool.deleted.census'') admin (lit ''rating_pool'') pool_id None (pool_census rt p) audit)))))"

definition recompute_pool ::
  "evidence_source \<Rightarrow> check \<Rightarrow> nat \<Rightarrow> nat \<times> time \<Rightarrow> pool_books \<Rightarrow> pool_books \<times> nat option app_result" where
  "recompute_pool es csrf pool_id drawn books =
     (case csrf of Inl e \<Rightarrow> (books, Inl e) | Inr _ \<Rightarrow> refit es pool_id Manual drawn books)"

end
