(* ===== verification/Ratings_Spec.thy ===== *)
theory Ratings_Spec
  imports Rating_Pools Admin_Spec Job_Creation_Spec "HOL-Library.Multiset"
begin

text \<open>
  What the rating pools promise: thinning that ends and keeps the shape of every pool's history, pools whose anchor
  is always a member so that every pool can be refit, a sweep that leaves a fitted pool alone, and evidence that is
  the same from either side of a head-to-head.
\<close>

section \<open>Thinning\<close>

text \<open>A run older than the window with a later old run on its pool's day and an earlier one in its pool.\<close>

definition superseded :: "time \<Rightarrow> 'a rating_run_scheme list \<Rightarrow> 'a rating_run_scheme \<Rightarrow> bool" where
  "superseded now runs r \<longleftrightarrow> ru_computed_at r < now - RUN_FULL_RESOLUTION \<and>
     list_ex (\<lambda>s. ru_pool_id s = ru_pool_id r \<and> utc_day (ru_computed_at s) = utc_day (ru_computed_at r) \<and>
       run_before r s \<and> ru_computed_at s < now - RUN_FULL_RESOLUTION) runs \<and>
     list_ex (\<lambda>s. ru_pool_id s = ru_pool_id r \<and> run_before s r) runs"

lemma run_before_trans: "run_before a b \<Longrightarrow> run_before b c \<Longrightarrow> run_before a c"
  by (auto simp: run_before_def)

lemma run_before_asym: "run_before a b \<Longrightarrow> \<not> run_before b a"
  by (auto simp: run_before_def)

lemma run_before_irrefl [simp]: "\<not> run_before a a"
  by (simp add: run_before_def)

lemma run_before_weak: "run_before a b \<Longrightarrow> \<not> run_before c b \<Longrightarrow> run_before a c"
  "run_before b a \<Longrightarrow> \<not> run_before b c \<Longrightarrow> run_before c a"
  by (auto simp: run_before_def)

lemma run_before_at: "run_before a b \<Longrightarrow> ru_computed_at a \<le> ru_computed_at b"
  by (auto simp: run_before_def)

lemma filter_some: "0 < length (filter P xs) \<longleftrightarrow> list_ex P xs"
  by (induction xs) auto

lemma day_count:
  "n_in_day (old_runs now runs) r > 1 \<longleftrightarrow> list_ex (\<lambda>s. ru_pool_id s = ru_pool_id r \<and>
     utc_day (ru_computed_at s) = utc_day (ru_computed_at r) \<and> run_before r s \<and> ru_computed_at s < now - RUN_FULL_RESOLUTION) runs"
proof -
  have "n_in_day (old_runs now runs) r > 1 \<longleftrightarrow> list_ex (\<lambda>s. ru_pool_id s = ru_pool_id r \<and>
     utc_day (ru_computed_at s) = utc_day (ru_computed_at r) \<and> run_before r s) (old_runs now runs)"
    by (simp only: n_in_day_def One_nat_def Suc_less_eq filter_some)
  then show ?thesis unfolding old_runs_def list_ex_iff set_filter mem_Collect_eq by blast
qed

lemma pool_count:
  assumes "ru_computed_at r < now - RUN_FULL_RESOLUTION"
  shows "n_in_pool (old_runs now runs) r > 1 \<longleftrightarrow> list_ex (\<lambda>s. ru_pool_id s = ru_pool_id r \<and> run_before s r) runs"
proof -
  have "n_in_pool (old_runs now runs) r > 1 \<longleftrightarrow>
      list_ex (\<lambda>s. ru_pool_id s = ru_pool_id r \<and> run_before s r) (old_runs now runs)"
    by (simp only: n_in_pool_def One_nat_def Suc_less_eq filter_some)
  moreover have "ru_computed_at s < now - RUN_FULL_RESOLUTION" if "run_before s r" for s
    using run_before_at [OF that] assms by simp
  ultimately show ?thesis unfolding old_runs_def list_ex_iff set_filter mem_Collect_eq by blast
qed

lemma thinned_superseded: "thinned now runs = filter (superseded now runs) runs"
proof -
  have "thinned now runs = filter (\<lambda>r. ru_computed_at r < now - RUN_FULL_RESOLUTION \<and>
      n_in_day (old_runs now runs) r > 1 \<and> n_in_pool (old_runs now runs) r > 1) runs"
    unfolding thinned_def Let_def by (subst (3) old_runs_def) (simp add: conj_ac)
  also have "\<dots> = filter (superseded now runs) runs"
    by (rule filter_cong [OF refl]) (auto simp: superseded_def day_count [simplified] pool_count [simplified])
  finally show ?thesis .
qed

text \<open>A newest and an oldest run of a set.\<close>

lemma newest_of:
  assumes "finite A" "a \<in> A"
  obtains m where "m \<in> A" "\<And>x. x \<in> A \<Longrightarrow> \<not> run_before m x"
proof -
  have "asymp_on A run_before" "transp_on A run_before"
    by (auto intro!: asymp_onI transp_onI simp: run_before_def)
  from Finite_Set.bex_max_element [OF assms(1) this] assms(2) obtain m where
    "m \<in> A" "\<forall>x\<in>A. x \<noteq> m \<longrightarrow> \<not> run_before m x" by blast
  then show ?thesis using that [of m] run_before_irrefl by metis
qed

lemma oldest_of:
  assumes "finite A" "a \<in> A"
  obtains m where "m \<in> A" "\<And>x. x \<in> A \<Longrightarrow> \<not> run_before x m"
proof -
  have "asymp_on A run_before" "transp_on A run_before"
    by (auto intro!: asymp_onI transp_onI simp: run_before_def)
  from Finite_Set.bex_min_element [OF assms(1) this] assms(2) obtain m where
    "m \<in> A" "\<forall>x\<in>A. x \<noteq> m \<longrightarrow> \<not> run_before x m" by blast
  then show ?thesis using that [of m] run_before_irrefl by metis
qed

lemma superseded_later: "superseded now runs r \<Longrightarrow> now \<le> now' \<Longrightarrow> superseded now' runs r"
  by (fastforce simp: superseded_def list_ex_iff)

text \<open>What a batch leaves is superseded exactly where it was.\<close>

lemma superseded_left:
  assumes gone: "\<And>r. r \<in> G \<Longrightarrow> superseded now runs r" and later: "now \<le> now'"
  shows "superseded now' (filter (\<lambda>r. r \<notin> G) runs) r = superseded now' runs r"
proof
  assume r: "superseded now' runs r"
  let ?D = "{s \<in> set runs. ru_pool_id s = ru_pool_id r \<and> utc_day (ru_computed_at s) = utc_day (ru_computed_at r) \<and>
     ru_computed_at s < now' - RUN_FULL_RESOLUTION}"
  let ?P = "{s \<in> set runs. ru_pool_id s = ru_pool_id r}"
  from r obtain s where s: "s \<in> ?D" "run_before r s" by (auto simp: superseded_def list_ex_iff)
  obtain m where m: "m \<in> ?D" and top: "\<And>x. x \<in> ?D \<Longrightarrow> \<not> run_before m x"
    using newest_of [of ?D s] s(1) by auto
  have "m \<notin> G"
  proof
    assume "m \<in> G"
    then have "superseded now' runs m" using superseded_later [OF gone later] by blast
    then obtain x where "x \<in> ?D" "run_before m x" using m by (auto simp: superseded_def list_ex_iff)
    then show False using top by blast
  qed
  moreover have "run_before r m" using run_before_weak(1) [OF s(2)] top [OF s(1)] by blast
  moreover from r obtain t where t: "t \<in> ?P" "run_before t r" by (auto simp: superseded_def list_ex_iff)
  obtain n where n: "n \<in> ?P" and bottom: "\<And>x. x \<in> ?P \<Longrightarrow> \<not> run_before x n"
    using oldest_of [of ?P t] t(1) by auto
  have "n \<notin> G"
  proof
    assume "n \<in> G"
    from gone [OF this] obtain x where "x \<in> ?P" "run_before x n" using n by (auto simp: superseded_def list_ex_iff)
    then show False using bottom by blast
  qed
  moreover have "run_before n r" using run_before_weak(2) [OF t(2)] bottom [OF t(1)] by blast
  ultimately show "superseded now' (filter (\<lambda>r. r \<notin> G) runs) r"
    using r m n by (auto simp: superseded_def list_ex_iff)
qed (auto simp: superseded_def list_ex_iff)

lemma length_filter_split: "length (filter P xs) = length (filter (\<lambda>x. P x \<and> x \<in> G) xs) + length (filter (\<lambda>x. P x \<and> x \<notin> G) xs)"
  by (induction xs) auto

text \<open>One batch, with the rows it deletes.\<close>

lemma thin_batch_gone:
  fixes runs :: "'a rating_run_scheme list"
  assumes ids: "distinct (map ru_id runs)"
  obtains G where "\<And>r. r \<in> G \<Longrightarrow> superseded now runs r" "G \<subseteq> set runs"
    "thin_batch now runs = (filter (\<lambda>r. r \<notin> G) runs, length (filter (\<lambda>r. r \<in> G) runs))"
    "length (filter (\<lambda>r. r \<in> G) runs) = min THIN_BATCH (length (filter (superseded now runs) runs))"
    "length (filter (superseded now runs) runs) < THIN_BATCH \<Longrightarrow> G = {r \<in> set runs. superseded now runs r}"
proof -
  let ?some = "take THIN_BATCH (filter (superseded now runs) runs)"
  let ?G = "set ?some"
  have sub: "?G \<subseteq> set runs" using set_take_subset [of THIN_BATCH "filter (superseded now runs) runs"] by auto
  have iff: "ru_id r \<in> set (map ru_id ?some) \<longleftrightarrow> r \<in> ?G" if "r \<in> set runs" for r
  proof
    assume "ru_id r \<in> set (map ru_id ?some)"
    then obtain s where "s \<in> ?G" "ru_id s = ru_id r" by auto
    then show "r \<in> ?G" using distinct_map_inj_eq [OF ids _ that] sub by blast
  qed simp
  have d: "distinct runs" using ids distinct_map by blast
  then have "distinct ?some" by simp
  then have "card ?G = length ?some" by (rule distinct_card)
  moreover have "set (filter (\<lambda>r. r \<in> ?G) runs) = ?G" using sub by auto
  then have "card ?G = length (filter (\<lambda>r. r \<in> ?G) runs)"
    using distinct_card [of "filter (\<lambda>r. r \<in> ?G) runs"] d by simp
  ultimately have n: "length (filter (\<lambda>r. r \<in> ?G) runs) = min THIN_BATCH (length (filter (superseded now runs) runs))"
    by simp
  show ?thesis
  proof (rule that [of ?G])
    show "superseded now runs r" if "r \<in> ?G" for r using in_set_takeD [OF that] by simp
    show "thin_batch now runs = (filter (\<lambda>r. r \<notin> ?G) runs, length (filter (\<lambda>r. r \<in> ?G) runs))"
      unfolding thin_batch_def Let_def thinned_superseded
      by (simp only: prod.inject) (intro conjI filter_cong arg_cong [where f = length], auto simp: iff [simplified])
    show "?G = {r \<in> set runs. superseded now runs r}" if "length (filter (superseded now runs) runs) < THIN_BATCH"
      using that by auto
  qed (use sub n in auto)
qed

lemma thin_from_result:
  assumes "distinct (map ru_id runs)" "mono clock"
  shows "\<exists>m. thin_from clock k runs deleted = (filter (\<lambda>r. \<not> superseded (clock m) runs r) runs,
      deleted + length (filter (superseded (clock m) runs) runs)) \<and>
    m = k + length (filter (superseded (clock m) runs) runs) div THIN_BATCH"
  using assms
proof (induction clock k runs deleted rule: thin_from.induct)
  case (1 clock k runs deleted)
  obtain G where G: "\<And>r. r \<in> G \<Longrightarrow> superseded (clock k) runs r" "G \<subseteq> set runs"
    and batch: "thin_batch (clock k) runs = (filter (\<lambda>r. r \<notin> G) runs, length (filter (\<lambda>r. r \<in> G) runs))"
    and n: "length (filter (\<lambda>r. r \<in> G) runs) = min THIN_BATCH (length (filter (superseded (clock k) runs) runs))"
    and whole: "length (filter (superseded (clock k) runs) runs) < THIN_BATCH \<Longrightarrow> G = {r \<in> set runs. superseded (clock k) runs r}"
    by (rule thin_batch_gone [OF "1.prems"(1), of "clock k"]) (rule that, assumption+)
  show ?case
  proof (cases "length (filter (\<lambda>r. r \<in> G) runs) < THIN_BATCH")
    case True
    then have few: "length (filter (superseded (clock k) runs) runs) < THIN_BATCH" using n by simp
    have "filter (\<lambda>r. r \<notin> G) runs = filter (\<lambda>r. \<not> superseded (clock k) runs r) runs"
      by (rule filter_cong [OF refl]) (simp add: whole [OF few])
    with few n True show ?thesis
      by (intro exI [of _ k]) (simp add: thin_from.simps [of clock k] batch)
  next
    case False
    then have full: "length (filter (\<lambda>r. r \<in> G) runs) = THIN_BATCH" using n by simp
    let ?left = "filter (\<lambda>r. r \<notin> G) runs"
    have "distinct (map ru_id ?left)" using "1.prems"(1) by (rule distinct_map_filter)
    from "1.IH" [unfolded batch, OF _ _ _ this "1.prems"(2)] False obtain m where
      m: "thin_from clock (Suc k) ?left (deleted + length (filter (\<lambda>r. r \<in> G) runs)) =
          (filter (\<lambda>r. \<not> superseded (clock m) ?left r) ?left,
           deleted + length (filter (\<lambda>r. r \<in> G) runs) + length (filter (superseded (clock m) ?left) ?left))"
        "m = Suc k + length (filter (superseded (clock m) ?left) ?left) div THIN_BATCH" by auto
    have later: "clock k \<le> clock m" using "1.prems"(2) m(2) by (simp add: monoD)
    have same: "superseded (clock m) ?left = superseded (clock m) runs"
      by (rule ext, rule superseded_left [OF G(1) later])
    have G': "superseded (clock m) runs r" if "r \<in> G" for r using superseded_later [OF G(1) [OF that] later] .
    have kept: "filter (\<lambda>r. \<not> superseded (clock m) runs r) ?left = filter (\<lambda>r. \<not> superseded (clock m) runs r) runs"
      unfolding filter_filter by (rule filter_cong [OF refl]) (auto simp: G')
    have "length (filter (superseded (clock m) runs) runs) = THIN_BATCH + length (filter (superseded (clock m) runs) ?left)"
      unfolding length_filter_split [of "superseded (clock m) runs" runs G] filter_filter full [symmetric]
      by (intro arg_cong2 [where f = "(+)"] arg_cong [where f = length] filter_cong [OF refl]) (auto simp: G')
    with m kept full show ?thesis
      by (intro exI [of _ m]) (simp add: thin_from.simps [of clock k] batch same THIN_BATCH_def)
  qed
qed

text \<open>C36: thinning ends, after as many batches as it takes, and deletes exactly the runs older than the window
  that have a later old run on their pool's UTC day and an earlier run in their pool, with their ratings and
  residuals: every run inside the window, the first and the newest run of each pool stay.\<close>

theorem thinning_keeps_the_shape_of_a_history:
  assumes "distinct (map ru_id (rg_runs rt))" "mono clock"
  shows "(\<exists>k. thin_old_runs clock rt =
        (keep_runs (filter (\<lambda>r. \<not> superseded (clock k) (rg_runs rt) r) (rg_runs rt)) rt,
         length (filter (superseded (clock k) (rg_runs rt)) (rg_runs rt))) \<and>
      k = snd (thin_old_runs clock rt) div THIN_BATCH) \<and>
    (\<forall>r \<in> set (rg_runs rt). \<not> list_ex (\<lambda>s. ru_pool_id s = ru_pool_id r \<and> run_before r s) (rg_runs rt) \<or>
        \<not> list_ex (\<lambda>s. ru_pool_id s = ru_pool_id r \<and> run_before s r) (rg_runs rt) \<longrightarrow>
      r \<in> set (rg_runs (fst (thin_old_runs clock rt))))"
proof -
  from thin_from_result [OF assms, of 0 0] obtain k where
    k: "thin_from clock 0 (rg_runs rt) 0 = (filter (\<lambda>r. \<not> superseded (clock k) (rg_runs rt) r) (rg_runs rt),
        length (filter (superseded (clock k) (rg_runs rt)) (rg_runs rt)))"
      "k = length (filter (superseded (clock k) (rg_runs rt)) (rg_runs rt)) div THIN_BATCH" by auto
  then have eq: "thin_old_runs clock rt = (keep_runs (filter (\<lambda>r. \<not> superseded (clock k) (rg_runs rt) r) (rg_runs rt)) rt,
      length (filter (superseded (clock k) (rg_runs rt)) (rg_runs rt)))"
    by (simp add: thin_old_runs_def)
  show ?thesis
  proof (intro conjI)
    show "\<exists>k. thin_old_runs clock rt =
        (keep_runs (filter (\<lambda>r. \<not> superseded (clock k) (rg_runs rt) r) (rg_runs rt)) rt,
         length (filter (superseded (clock k) (rg_runs rt)) (rg_runs rt))) \<and>
      k = snd (thin_old_runs clock rt) div THIN_BATCH"
      using eq k(2) by (intro exI [of _ k]) simp
    show "\<forall>r \<in> set (rg_runs rt). \<not> list_ex (\<lambda>s. ru_pool_id s = ru_pool_id r \<and> run_before r s) (rg_runs rt) \<or>
        \<not> list_ex (\<lambda>s. ru_pool_id s = ru_pool_id r \<and> run_before s r) (rg_runs rt) \<longrightarrow>
      r \<in> set (rg_runs (fst (thin_old_runs clock rt)))"
      by (auto simp: eq keep_runs_def superseded_def list_ex_iff)
  qed
qed

definition sample_run :: "nat \<Rightarrow> time \<Rightarrow> stored_run" where
  "sample_run i t = \<lparr>ru_id = i, ru_pool_id = 7, ru_computed_at = t, ru_evidence_games = Some 0, ru_trigger = Evidence,
     ru_method = lit ''bradley_terry_newton'', ru_iterations = 3, ru_converged = True, ru_pairs_used = 0, ru_jobs_used = 0\<rparr>"

definition three_runs :: rating_tables where
  "three_runs = \<lparr>rg_pools = [], rg_members = [], rg_runs = [sample_run 1 10, sample_run 2 20, sample_run 3 30],
     rg_ratings = [], rg_residuals = []\<rparr>"

theorem thinning_keeps_the_shape_of_a_history_witness:
  "map ru_id (rg_runs (fst (thin_old_runs (\<lambda>_. 10 ^ 13) three_runs))) = [1, 3]"
proof -
  have "distinct (map ru_id (rg_runs three_runs))" "mono (\<lambda>_::nat. 10 ^ 13 :: time)"
    by (simp_all add: three_runs_def sample_run_def monoI)
  from thinning_keeps_the_shape_of_a_history [OF this] obtain n where
    "thin_old_runs (\<lambda>_. 10 ^ 13) three_runs =
      (keep_runs (filter (\<lambda>r. \<not> superseded (10 ^ 13) (rg_runs three_runs) r) (rg_runs three_runs)) three_runs, n)" by auto
  then show ?thesis
    by (simp add: keep_runs_def three_runs_def sample_run_def superseded_def run_before_def utc_day_def RUN_FULL_RESOLUTION_def)
qed

section \<open>Pools that can be refit\<close>

definition pools_ok :: "catalogue \<Rightarrow> rating_tables \<Rightarrow> bool" where
  "pools_ok cat rt \<longleftrightarrow> distinct (map po_id (rg_pools rt)) \<and>
     (\<forall>p \<in> set (rg_pools rt). is_member rt (po_id p) (po_anchor p) \<and> \<bar>po_anchor_rating p\<bar> \<le> MAX_ABS_ANCHOR_RATING) \<and>
     distinct (map (\<lambda>m. (pm_pool_id m, pm_player_config_id m)) (rg_members rt)) \<and>
     (\<forall>m \<in> set (rg_members rt). is_config cat (pm_player_config_id m) \<and> pm_pool_id m \<in> set (map po_id (rg_pools rt))) \<and>
     distinct (map ru_id (rg_runs rt)) \<and> (\<forall>r \<in> set (rg_runs rt). ru_pool_id r \<in> set (map po_id (rg_pools rt))) \<and>
     (\<forall>g \<in> set (rg_ratings rt). cg_run_id g \<in> set (map ru_id (rg_runs rt)))"

lemmas pools_okD = pools_ok_def [THEN iffD1, THEN conjunct1]
  pools_ok_def [THEN iffD1, THEN conjunct2, THEN conjunct1]
  pools_ok_def [THEN iffD1, THEN conjunct2, THEN conjunct2, THEN conjunct1]
  pools_ok_def [THEN iffD1, THEN conjunct2, THEN conjunct2, THEN conjunct2, THEN conjunct1]
  pools_ok_def [THEN iffD1, THEN conjunct2, THEN conjunct2, THEN conjunct2, THEN conjunct2, THEN conjunct1]

lemma load_pool_eq: "load_pool rt i = Inr p \<Longrightarrow> p \<in> set (rg_pools rt) \<and> po_id p = i"
  by (auto simp: load_pool_def row_with_def ok_or_def find_Some_iff split: option.splits)

lemma load_pool_found:
  assumes "p \<in> set (rg_pools rt)" "distinct (map po_id (rg_pools rt))"
  shows "load_pool rt (po_id p) = Inr p"
proof -
  have "row_with po_id (po_id p) (rg_pools rt) = Some p"
  proof (cases "row_with po_id (po_id p) (rg_pools rt)")
    case None
    then show ?thesis using assms(1) by (auto simp: row_with_def find_None_iff)
  next
    case (Some q)
    then have "q \<in> set (rg_pools rt)" "po_id q = po_id p" by (auto simp: row_with_def find_Some_iff)
    then show ?thesis using Some distinct_map_inj_eq [OF assms(2) _ assms(1)] by blast
  qed
  then show ?thesis by (simp add: load_pool_def ok_or_def)
qed

lemma add_job_members [simp]: "ev_members (add_job e v) = ev_members v"
  by (auto simp: add_job_def Let_def split: option.splits)

lemma fold_add_job_members [simp]: "ev_members (fold add_job es v) = ev_members v"
  by (induction es arbitrary: v) simp_all

lemma build_matrix_members [simp]: "ev_members (build_matrix es rt p) = members_by_name es rt (po_id p)"
  by (simp add: build_matrix_def fresh_evidence_def)

lemma member_by_name: "i \<in> set (members_in rt pool_id) \<Longrightarrow> is_config (es_catalogue es) i \<Longrightarrow> i \<in> set (members_by_name es rt pool_id)"
  by (force simp: members_by_name_def Let_def is_config_def named_player_def find_None_iff)

lemma index_of_member: "i \<in> set members \<Longrightarrow> index_of members i \<noteq> None"
  by (simp add: index_of_def map_of_eq_None_iff flip: list.set_map)

text \<open>The tables a fit leaves differ in its run, its ratings and its residuals only.\<close>

lemma fit_within_cases:
  assumes "fit_within es pool_id why b drawn rt = Inr (rt', run)"
  obtains (same) "rt' = rt" "run = None" "b"
    | (noted) r :: stored_run where "rt' = rt\<lparr>rg_runs := update_key ru_id (ru_id r) (\<lambda>r. r\<lparr>ru_evidence_games := Some (evidence_games es rt (the (row_with po_id pool_id (rg_pools rt))))\<rparr>) (rg_runs rt)\<rparr>" "run = None" "b"
    | (stored) p k where "load_pool rt pool_id = Inr p" "index_of (members_by_name es rt pool_id) (po_anchor p) = Some k"
        "rt' = store_fit (build_matrix es rt p) p k why (evidence_games es rt p) (fst drawn) (snd drawn) rt" "run = Some (fst drawn)"
proof -
  obtain p where p: "load_pool rt pool_id = Inr p" using assms
    by (cases "load_pool rt pool_id") (simp_all add: fit_within_def)
  have id: "po_id p = pool_id" using load_pool_eq [OF p] by simp
  have row: "row_with po_id pool_id (rg_pools rt) = Some p" using p
    by (auto simp: load_pool_def ok_or_def split: option.splits)
  consider (a) "b" "same_games es rt p"
    | (b) r :: stored_run where "\<not> (b \<and> same_games es rt p)" "(if b then same_pairs rt pool_id (build_matrix es rt p) else None) = Some r"
    | (c) "\<not> (b \<and> same_games es rt p)" "(if b then same_pairs rt pool_id (build_matrix es rt p) else None) = None"
    by (cases "b \<and> same_games es rt p"; cases "if b then same_pairs rt pool_id (build_matrix es rt p) else None") auto
  then show ?thesis
  proof cases
    case a
    then show ?thesis using assms p by (intro same) (simp_all add: fit_within_def Let_def)
  next
    case b
    moreover from b have "b" by (auto split: if_splits)
    ultimately show ?thesis using assms p row by (intro noted [of r]) (simp_all add: fit_within_def Let_def)
  next
    case c
    obtain k where k: "index_of (members_by_name es rt pool_id) (po_anchor p) = Some k"
      using assms p c id by (cases "index_of (members_by_name es rt pool_id) (po_anchor p)") (auto simp: fit_within_def Let_def ok_or_def split: if_splits)
    show ?thesis
      by (rule stored [OF p k]) (use assms p c id k in \<open>auto simp: fit_within_def Let_def ok_or_def split: if_splits\<close>)
  qed
qed

lemma fit_within_pools:
  assumes "fit_within es pool_id why b drawn rt = Inr (rt', run)"
  shows "rg_pools rt' = rg_pools rt \<and> rg_members rt' = rg_members rt"
  using assms by (rule fit_within_cases) (simp_all add: store_fit_def Let_def)

lemma is_member_cong: "rg_members rt' = rg_members rt \<Longrightarrow> is_member rt' = is_member rt"
  by (intro ext) (simp add: is_member_def members_in_def)

lemma update_key_map: "(\<And>r. f (g r) = f r) \<Longrightarrow> map f (update_key key k g rows) = map f rows"
  by (simp add: update_key_def update_where_def)

lemma fit_within_ok:
  assumes fit: "fit_within es pool_id why b drawn rt = Inr (rt', run)" and ok: "pools_ok cat rt"
    and fresh: "fst drawn \<notin> set (map ru_id (rg_runs rt))"
  shows "pools_ok cat rt'"
  using fit
proof (rule fit_within_cases)
  fix r :: stored_run
  assume rt': "rt' = rt\<lparr>rg_runs := update_key ru_id (ru_id r) (\<lambda>r. r\<lparr>ru_evidence_games := Some (evidence_games es rt (the (row_with po_id pool_id (rg_pools rt))))\<rparr>) (rg_runs rt)\<rparr>"
  have m: "is_member rt' = is_member rt" by (rule is_member_cong) (simp add: rt')
  have runs: "map ru_id (rg_runs rt') = map ru_id (rg_runs rt)" "map ru_pool_id (rg_runs rt') = map ru_pool_id (rg_runs rt)"
    by (simp_all add: rt' update_key_map)
  have "ru_pool_id ` set (rg_runs rt') = ru_pool_id ` set (rg_runs rt)" using arg_cong [OF runs(2), of set] by simp
  moreover have "ru_pool_id ` set (rg_runs rt) \<subseteq> set (map po_id (rg_pools rt))"
    using ok unfolding pools_ok_def by blast
  ultimately have "\<forall>s\<in>set (rg_runs rt'). ru_pool_id s \<in> set (map po_id (rg_pools rt))" by blast
  then show ?thesis using ok unfolding pools_ok_def m runs by (simp add: rt')
next
  fix p k assume p: "load_pool rt pool_id = Inr p"
    and rt': "rt' = store_fit (build_matrix es rt p) p k why (evidence_games es rt p) (fst drawn) (snd drawn) rt"
  have m: "is_member rt' = is_member rt" by (rule is_member_cong) (simp add: rt' store_fit_def Let_def)
  have "po_id p \<in> set (map po_id (rg_pools rt))" using load_pool_eq [OF p] by auto
  then show ?thesis using ok fresh unfolding pools_ok_def m
    by (auto simp: rt' store_fit_def Let_def rating_row_def split: prod.splits)
qed (use ok in simp)

lemma insert_member_ok:
  assumes ins: "insert_member cat admin field pool_id i rt = Inr (rt', added)" and ok: "pools_ok cat rt"
    and pool: "pool_id \<in> set (map po_id (rg_pools rt))"
  shows "pools_ok cat rt' \<and> is_member rt' pool_id i \<and> rg_pools rt' = rg_pools rt \<and> rg_runs rt' = rg_runs rt"
proof (cases "is_member rt pool_id i")
  case True
  then show ?thesis using ins ok by (simp add: insert_member_def)
next
  case False
  then have c: "is_config cat i" and
    rt': "rt' = rt\<lparr>rg_members := rg_members rt @ [\<lparr>pm_pool_id = pool_id, pm_player_config_id = i, pm_added_by = Some admin\<rparr>]\<rparr>"
    using ins by (auto simp: insert_member_def split: if_splits)
  have m: "is_member rt' j k \<longleftrightarrow> is_member rt j k \<or> (j = pool_id \<and> k = i)" for j k
    by (auto simp: rt' is_member_def members_in_def)
  have "(pool_id, i) \<notin> (\<lambda>m. (pm_pool_id m, pm_player_config_id m)) ` set (rg_members rt)"
    using False by (auto simp: is_member_def members_in_def)
  then show ?thesis using ok c pool unfolding pools_ok_def m by (simp add: rt')
qed

lemma field_if_nil: "field_if b field why = [] \<longleftrightarrow> \<not> b"
  by (simp add: field_if_def)

lemma anchor_rating_bound: "anchor_rating_ok r \<Longrightarrow> \<bar>finite_value r\<bar> \<le> MAX_ABS_ANCHOR_RATING"
  by (cases r) (auto simp: anchor_rating_ok_def)

lemma create_pool_ok:
  assumes made: "create_pool cat csrf admin b i (rt, audit) = Inr ((rt', audit'), j)" and ok: "pools_ok cat rt"
    and fresh: "i \<notin> set (map po_id (rg_pools rt))"
  shows "pools_ok cat rt'"
proof -
  from made have no_problem: "create_pool_fields b = []" and config: "is_config cat (cp_anchor_player_config_id b)"
    and rt': "rt' = rt\<lparr>rg_pools := rg_pools rt @ [\<lparr>po_id = i, po_name = trim (cp_name b), po_variant = cp_variant b,
              po_letterdist_id = cp_letterdist_id b, po_layout_id = cp_layout_id b,
              po_anchor = cp_anchor_player_config_id b, po_anchor_rating = finite_value (anchor_rating_of b)\<rparr>],
            rg_members := rg_members rt @ [\<lparr>pm_pool_id = i,
              pm_player_config_id = cp_anchor_player_config_id b, pm_added_by = Some admin\<rparr>]\<rparr>"
    by (auto simp: create_pool_def and_then_Inr split: if_splits)
  have bound: "\<bar>finite_value (anchor_rating_of b)\<bar> \<le> MAX_ABS_ANCHOR_RATING"
    using no_problem anchor_rating_bound by (simp add: create_pool_fields_def field_if_nil)
  have m: "is_member rt' k c \<longleftrightarrow> is_member rt k c \<or> (k = i \<and> c = cp_anchor_player_config_id b)" for k c
    by (auto simp: rt' is_member_def members_in_def)
  have new: "(i, cp_anchor_player_config_id b) \<notin> (\<lambda>m. (pm_pool_id m, pm_player_config_id m)) ` set (rg_members rt)"
    using ok fresh unfolding pools_ok_def by force
  show ?thesis using ok fresh config bound new unfolding pools_ok_def m by (auto simp: rt')
qed

lemma remove_member_ok:
  assumes removed: "remove_member_transaction admin pool_id c (rt, audit) = Inr (rt', audit')" and ok: "pools_ok cat rt"
  shows "pools_ok cat rt'"
proof -
  from removed obtain p where p: "load_pool rt pool_id = Inr p" "po_anchor p \<noteq> c"
    and rt': "rt' = rt\<lparr>rg_members := filter (\<lambda>m. \<not> (pm_pool_id m = pool_id \<and> pm_player_config_id m = c)) (rg_members rt)\<rparr>"
    by (auto simp: remove_member_transaction_def and_then_Inr split: if_splits)
  have m: "is_member rt' k d \<longleftrightarrow> is_member rt k d \<and> \<not> (k = pool_id \<and> d = c)" for k d
    by (auto simp: rt' is_member_def members_in_def)
  have "po_anchor q \<noteq> c" if "q \<in> set (rg_pools rt)" "po_id q = pool_id" for q
  proof -
    have "q = p" using distinct_map_inj_eq [OF pools_okD(1) [OF ok] that(1), of p] load_pool_eq [OF p(1)] that(2) by simp
    then show ?thesis using p(2) by simp
  qed
  then show ?thesis using ok unfolding pools_ok_def m by (auto simp: rt' distinct_map_filter)
qed

lemma keep_runs_ok:
  assumes ok: "pools_ok cat rt"
  shows "pools_ok cat (keep_runs (filter P (rg_runs rt)) rt)"
proof -
  have "is_member (keep_runs (filter P (rg_runs rt)) rt) = is_member rt"
    by (rule is_member_cong) (simp add: keep_runs_def)
  then show ?thesis using ok unfolding pools_ok_def by (auto simp: keep_runs_def distinct_map_filter)
qed

lemma forget_pool_ok:
  assumes ok: "pools_ok cat rt"
  shows "pools_ok cat (forget_pool pool_id rt)"
proof -
  have m: "is_member (forget_pool pool_id rt) k c \<longleftrightarrow> is_member rt k c \<and> k \<noteq> pool_id" for k c
    by (auto simp: forget_pool_def keep_runs_def Let_def is_member_def members_in_def)
  show ?thesis using keep_runs_ok [OF ok, of "\<lambda>r. ru_pool_id r \<noteq> pool_id"] ok unfolding pools_ok_def m
    by (auto simp: forget_pool_def keep_runs_def Let_def distinct_map_filter)
qed

lemma update_anchor_ok:
  assumes ok: "pools_ok cat rt" and member: "is_member rt pool_id anchor" and bound: "\<bar>rating\<bar> \<le> MAX_ABS_ANCHOR_RATING"
  shows "pools_ok cat (rt\<lparr>rg_pools := update_key po_id pool_id (\<lambda>q. q\<lparr>po_anchor := anchor, po_anchor_rating := rating\<rparr>) (rg_pools rt)\<rparr>)"
    (is "pools_ok cat ?rt'")
proof -
  have m: "is_member ?rt' = is_member rt" by (rule is_member_cong) simp
  have ids: "map po_id (rg_pools ?rt') = map po_id (rg_pools rt)" by (simp add: update_key_map)
  have "\<forall>p \<in> set (rg_pools ?rt'). is_member rt (po_id p) (po_anchor p) \<and> \<bar>po_anchor_rating p\<bar> \<le> MAX_ABS_ANCHOR_RATING"
    using ok member bound unfolding pools_ok_def by (auto simp: update_key_def update_where_def)
  then show ?thesis using ok unfolding pools_ok_def m ids by simp
qed

lemma update_pool_ok:
  assumes moved: "update_pool show_double es csrf admin pool_id body drawn (rt, audit) = Inr ((rt', audit'), run)"
    and ok: "pools_ok (es_catalogue es) rt" and fresh: "fst drawn \<notin> set (map ru_id (rg_runs rt))"
  shows "pools_ok (es_catalogue es) rt'"
proof -
  obtain new_anchor new_rating where body: "body = (new_anchor, new_rating)" by (cases body)
  from moved obtain p where p: "load_pool rt pool_id = Inr p" and given: "\<not> is_some_and new_rating (\<lambda>r. \<not> anchor_rating_ok r)"
    and rest: "(let anchor = unwrap_or new_anchor (po_anchor p);
        rating = unwrap_or (map_option finite_value new_rating) (po_anchor_rating p)
      in if anchor = po_anchor p \<and> rating = po_anchor_rating p then Inr ((rt, audit), None)
         else move_anchor show_double es admin p anchor rating drawn (rt, audit)) = Inr ((rt', audit'), run)"
    by (auto simp: update_pool_def body and_then_Inr field_if_nil)
  note pin = load_pool_eq [OF p]
  let ?rating = "unwrap_or (map_option finite_value new_rating) (po_anchor_rating p)"
  let ?anchor = "unwrap_or new_anchor (po_anchor p)"
  have bound: "\<bar>?rating\<bar> \<le> MAX_ABS_ANCHOR_RATING"
    using given anchor_rating_bound pools_okD(2) [OF ok] pin
    by (cases new_rating) (auto simp: unwrap_or_def is_some_and_def)
  show ?thesis
  proof (cases "?anchor = po_anchor p \<and> ?rating = po_anchor_rating p")
    case True
    then show ?thesis using rest ok by simp
  next
    case False
    with rest obtain rt1 added rt2 i where
      ins: "insert_member (es_catalogue es) admin ''anchor_player_config_id'' (po_id p) ?anchor rt = Inr (rt1, added)"
      and rt2: "rt2 = rt1\<lparr>rg_pools := update_key po_id (po_id p) (\<lambda>q. q\<lparr>po_anchor := ?anchor, po_anchor_rating := ?rating\<rparr>) (rg_pools rt1)\<rparr>"
      and fitted: "fit_within es (po_id p) Anchor False drawn rt2 = Inr (rt', Some i)"
      by (auto simp: move_anchor_def recompute_def and_then_Inr Let_def ok_or_def split: option.splits)
    have pool: "po_id p \<in> set (map po_id (rg_pools rt))" using pin by auto
    note one = insert_member_ok [OF ins ok pool]
    have "pools_ok (es_catalogue es) rt2" unfolding rt2 by (rule update_anchor_ok) (use one bound in auto)
    moreover have "fst drawn \<notin> set (map ru_id (rg_runs rt2))" using one fresh by (simp add: rt2)
    ultimately show ?thesis by (rule fit_within_ok [OF fitted])
  qed
qed

lemma new_config_ok:
  assumes "insert_player_config cat n = Inr cat'" "pools_ok cat rt"
  shows "pools_ok cat' rt"
proof -
  have "is_config cat' i" if "is_config cat i" for i
    using that assms(1) by (auto simp: insert_player_config_def is_config_def named_player_def Let_def find_None_iff split: if_splits)
  then show ?thesis using assms(2) unfolding pools_ok_def by blast
qed

text \<open>A config that a pool names is not deleted.\<close>

definition configs_in_pools :: "rating_tables \<Rightarrow> nat list" where
  "configs_in_pools rt = map po_anchor (rg_pools rt) @ map pm_player_config_id (rg_members rt) @
     map cg_player_config_id (rg_ratings rt)"

lemma deleted_config_ok:
  assumes deleted: "delete_player_config cat audit csrf admin (configs_in_pools rt) i = Inr (cat', audit')"
    and ok: "pools_ok cat rt"
  shows "pools_ok cat' rt"
proof -
  from deleted have i: "i \<notin> set (map pm_player_config_id (rg_members rt))"
    and cat': "cat' = cat\<lparr>cat_players := filter (\<lambda>n. pc_id (n_config n) \<noteq> i) (cat_players cat)\<rparr>"
    by (auto simp: delete_player_config_def and_then_Inr player_referenced_def configs_in_pools_def split: if_splits)
  have "is_config cat' j" if "is_config cat j" "j \<noteq> i" for j
    using that by (auto simp: cat' is_config_def named_player_def find_None_iff)
  then show ?thesis using ok i unfolding pools_ok_def by auto
qed

section \<open>Every state of the pools\<close>

type_synonym pools_state = "catalogue \<times> pool_books"

text \<open>Each transaction of an admin, of a fit or of the thinning; the ids the database draws are new.\<close>

inductive pools_step :: "pools_state \<Rightarrow> pools_state \<Rightarrow> bool" where
  Created: "create_pool cat csrf admin b i (rt, audit) = Inr (books, j) \<Longrightarrow> i \<notin> set (map po_id (rg_pools rt)) \<Longrightarrow>
    pools_step (cat, rt, audit) (cat, books)"
| Added: "add_member_transaction cat admin pool_id c (rt, audit) = Inr (books, added) \<Longrightarrow> pools_step (cat, rt, audit) (cat, books)"
| Removed: "remove_member_transaction admin pool_id c (rt, audit) = Inr books \<Longrightarrow> pools_step (cat, rt, audit) (cat, books)"
| Updated: "update_pool show_double es csrf admin pool_id body drawn (rt, audit) = Inr (books, run) \<Longrightarrow> es_catalogue es = cat \<Longrightarrow>
    fst drawn \<notin> set (map ru_id (rg_runs rt)) \<Longrightarrow> pools_step (cat, rt, audit) (cat, books)"
| Deleted: "delete_pool csrf admin pool_id (rt, audit) = Inr books \<Longrightarrow> pools_step (cat, rt, audit) (cat, books)"
| Fitted: "fit_within es pool_id why b drawn rt = Inr (rt', run) \<Longrightarrow> es_catalogue es = cat \<Longrightarrow>
    fst drawn \<notin> set (map ru_id (rg_runs rt)) \<Longrightarrow> pools_step (cat, rt, audit) (cat, rt', audit)"
| Thinned: "pools_step (cat, rt, audit) (cat, keep_runs (fst (thin_batch now (rg_runs rt))) rt, audit)"
| Config_made: "insert_player_config cat n = Inr cat' \<Longrightarrow> pools_step (cat, rt, audit) (cat', rt, audit)"
| Config_deleted: "delete_player_config cat audit csrf admin (configs_in_pools rt) i = Inr (cat', audit') \<Longrightarrow>
    pools_step (cat, rt, audit) (cat', rt, audit')"

definition no_pools :: rating_tables where
  "no_pools = \<lparr>rg_pools = [], rg_members = [], rg_runs = [], rg_ratings = [], rg_residuals = []\<rparr>"

inductive pools_reachable :: "pools_state \<Rightarrow> bool" where
  Empty: "pools_reachable (cat, no_pools, audit)"
| Step: "pools_reachable s \<Longrightarrow> pools_step s s' \<Longrightarrow> pools_reachable s'"

lemma pools_step_ok: "pools_step s s' \<Longrightarrow> pools_ok (fst s) (fst (snd s)) \<Longrightarrow> pools_ok (fst s') (fst (snd s'))"
proof (induction rule: pools_step.induct)
  case (Created cat csrf admin b i rt audit books j)
  then show ?case using create_pool_ok [of cat csrf admin b i rt audit "fst books" "snd books" j] by simp
next
  case (Added cat admin pool_id c rt audit books added)
  from Added(1) obtain p rt' where p: "load_pool rt pool_id = Inr p"
    and ins: "insert_member cat admin ''player_config_id'' pool_id c rt = Inr (rt', added)" and books: "\<not> added \<longrightarrow> fst books = rt" "added \<longrightarrow> fst books = rt'"
    by (auto simp: add_member_transaction_def and_then_Inr split: if_splits)
  show ?case using insert_member_ok [OF ins, of] Added(2) load_pool_eq [OF p] books by (cases added) auto
next
  case (Removed admin pool_id c rt audit books cat)
  then show ?case using remove_member_ok [of admin pool_id c rt audit "fst books" "snd books"] by simp
next
  case (Updated show_double es csrf admin pool_id body drawn rt audit books run cat)
  then show ?case using update_pool_ok [of show_double es csrf admin pool_id body drawn rt audit "fst books" "snd books" run] by simp
next
  case (Deleted csrf admin pool_id rt audit books cat)
  then show ?case using forget_pool_ok by (auto simp: delete_pool_def and_then_Inr)
next
  case (Fitted es pool_id why b drawn rt rt' run cat audit)
  then show ?case using fit_within_ok by simp
next
  case (Thinned cat rt audit now)
  then show ?case using keep_runs_ok by (simp add: thin_batch_def Let_def)
qed (use new_config_ok deleted_config_ok in simp_all)

lemma pools_reachable_ok: "pools_reachable s \<Longrightarrow> pools_ok (fst s) (fst (snd s))"
proof (induction rule: pools_reachable.induct)
  case (Empty cat audit)
  then show ?case by (simp add: pools_ok_def no_pools_def)
qed (rule pools_step_ok)

lemma run_ratings_stored:
  assumes ok: "pools_ok cat rt" and fresh: "i \<notin> set (map ru_id (rg_runs rt))"
  shows "run_ratings (store_fit v p k why n i t rt) i =
    map (rating_row i (fit (ev_matrix v) k (po_anchor_rating p)) k) (enumerate 0 (ev_members v))"
proof -
  have "filter (\<lambda>g. cg_run_id g = i) (rg_ratings rt) = []"
    using ok fresh unfolding pools_ok_def by (auto simp: filter_empty_conv)
  moreover have "filter (\<lambda>g. cg_run_id g = i) (map (rating_row i f k) ms) = map (rating_row i f k) ms" for f ms
    by (rule filter_True) (auto simp: rating_row_def Let_def split: prod.splits)
  ultimately show ?thesis by (simp add: run_ratings_def store_fit_def Let_def)
qed

lemma rated_configs: "map cg_player_config_id (map (rating_row i f k) (enumerate 0 ms)) = ms"
  by (rule nth_equalityI) (simp_all add: rating_row_def Let_def nth_enumerate_eq)

lemma index_of_nth: "index_of ms i = Some k \<Longrightarrow> k < length ms \<and> ms ! k = i"
  by (auto simp: index_of_def dest!: map_of_SomeD simp: in_set_zip)

lemma add_job_size [simp]: "mx_n (ev_matrix (add_job e v)) = mx_n (ev_matrix v)"
  by (auto simp: add_job_def matrix_add_def Let_def split: option.splits)

lemma fold_add_job_size [simp]: "mx_n (ev_matrix (fold add_job es v)) = mx_n (ev_matrix v)"
  by (induction es arbitrary: v) simp_all

lemma build_matrix_size [simp]: "mx_n (ev_matrix (build_matrix es rt p)) = length (members_by_name es rt (po_id p))"
  by (simp add: build_matrix_def fresh_evidence_def matrix_new_def)

lemma fit_anchor: "k < mx_n m \<Longrightarrow> rd_rating (fr_ratings (fit m k rating) ! k) = rating"
  by (simp add: fit_def Let_def split: prod.splits)

lemma recompute_stored:
  assumes ok: "pools_ok (es_catalogue es) rt" and p: "p \<in> set (rg_pools rt)"
  obtains k where "index_of (members_by_name es rt (po_id p)) (po_anchor p) = Some k"
    "recompute es (po_id p) why (i, t) rt =
       Inr (store_fit (build_matrix es rt p) p k why (evidence_games es rt p) i t rt, i)"
proof -
  have found: "load_pool rt (po_id p) = Inr p" by (rule load_pool_found [OF p pools_okD(1) [OF ok]])
  have "is_member rt (po_id p) (po_anchor p)" using pools_okD(2) [OF ok] p by blast
  then have anchor: "po_anchor p \<in> set (members_in rt (po_id p))" by (simp add: is_member_def)
  then have "is_config (es_catalogue es) (po_anchor p)"
    using pools_okD(4) [OF ok] by (auto simp: members_in_def)
  from index_of_member [OF member_by_name [OF anchor this]] obtain k where
    k: "index_of (members_by_name es rt (po_id p)) (po_anchor p) = Some k" by blast
  then show ?thesis by (intro that [of k]) (simp_all add: recompute_def fit_within_def found Let_def ok_or_def)
qed

text \<open>C35: whatever the admins, the fits and the thinning did to the pools and the players, every pool can be refit:
  its anchor is a member, so an unconditional refit stores its run, which rates each member of the pool once and
  the anchor at the rating it is pinned at.\<close>

theorem every_pool_can_be_refit:
  assumes "pools_reachable (cat, rt, audit)" "p \<in> set (rg_pools rt)" "es_catalogue es = cat" "i \<notin> set (map ru_id (rg_runs rt))"
  shows "\<exists>rt'. recompute es (po_id p) why (i, t) rt = Inr (rt', i) \<and> pools_ok cat rt' \<and>
    map cg_player_config_id (run_ratings rt' i) = members_by_name es rt (po_id p) \<and>
    list_ex (\<lambda>g. cg_player_config_id g = po_anchor p \<and> cg_rating g = po_anchor_rating p \<and> cg_connected g \<and> cg_is_anchor g)
      (run_ratings rt' i)"
proof -
  have ok: "pools_ok (es_catalogue es) rt" using pools_reachable_ok [OF assms(1)] assms(3) by simp
  obtain k where k: "index_of (members_by_name es rt (po_id p)) (po_anchor p) = Some k"
    and run: "recompute es (po_id p) why (i, t) rt =
       Inr (store_fit (build_matrix es rt p) p k why (evidence_games es rt p) i t rt, i)"
    by (rule recompute_stored [OF ok assms(2), of why i t])
  let ?v = "build_matrix es rt p"
  let ?rt' = "store_fit ?v p k why (evidence_games es rt p) i t rt"
  have "fit_within es (po_id p) why False (i, t) rt = Inr (?rt', Some i)"
    using run by (auto simp: recompute_def and_then_Inr ok_or_def split: option.splits)
  then have ok': "pools_ok cat ?rt'" using fit_within_ok ok assms(3,4) by fastforce
  have rows: "run_ratings ?rt' i = map (rating_row i (fit (ev_matrix ?v) k (po_anchor_rating p)) k)
      (enumerate 0 (members_by_name es rt (po_id p)))" (is "_ = ?rows")
    using run_ratings_stored [OF ok assms(4)] by simp
  note at_k = index_of_nth [OF k]
  have "?rows ! k \<in> set ?rows" using at_k by (intro nth_mem) simp
  moreover have row: "?rows ! k = rating_row i (fit (ev_matrix ?v) k (po_anchor_rating p)) k (k, po_anchor p)"
    using at_k by (simp add: nth_enumerate_eq)
  moreover have "cg_player_config_id (?rows ! k) = po_anchor p \<and> cg_rating (?rows ! k) = po_anchor_rating p \<and>
      cg_connected (?rows ! k) \<and> cg_is_anchor (?rows ! k)"
    unfolding row using at_k by (simp add: rating_row_def Let_def fit_anchor)
  ultimately have "list_ex (\<lambda>g. cg_player_config_id g = po_anchor p \<and> cg_rating g = po_anchor_rating p \<and>
      cg_connected g \<and> cg_is_anchor g) ?rows"
    unfolding list_ex_iff by blast
  then show ?thesis
    unfolding rows [symmetric] using run ok' rated_configs [of i "fit (ev_matrix ?v) k (po_anchor_rating p)" k] rows
    by (intro exI [of _ ?rt'] conjI) simp_all
qed

section \<open>A quiet pool\<close>

lemma joined_once:
  assumes "distinct (map key cs)" "c \<in> set cs"
  shows "filter (\<lambda>d. key d = key c) cs = [c]"
  using assms
proof (induction cs)
  case (Cons d cs)
  show ?case
  proof (cases "d = c")
    case True
    have "filter (\<lambda>d. key d = key c) cs = []"
      unfolding filter_empty_conv
    proof
      fix x assume "x \<in> set cs"
      then have "key x \<in> key ` set cs" by (rule imageI)
      then show "key x \<noteq> key c" using Cons.prems(1) True by auto
    qed
    then show ?thesis using True by simp
  next
    case False
    then have c: "c \<in> set cs" using Cons.prems(2) by simp
    then have "key c \<in> key ` set cs" by (rule imageI)
    then have "key d \<noteq> key c" using Cons.prems(1) by auto
    then show ?thesis using Cons.IH Cons.prems(1) c by simp
  qed
qed simp

lemma members_by_name_sorted:
  assumes unique: "distinct (map (pc_id \<circ> n_config) (cat_players (es_catalogue es)))"
    and known: "\<And>i. i \<in> set (members_in rt pool_id) \<Longrightarrow> is_config (es_catalogue es) i"
  shows "sort (members_by_name es rt pool_id) = sort (members_in rt pool_id)"
proof -
  let ?configs = "map n_config (cat_players (es_catalogue es))"
  have "map snd (map (\<lambda>c. (pc_name c, i)) (filter (\<lambda>c. pc_id c = i) ?configs)) = [i]" if "i \<in> set (members_in rt pool_id)" for i
  proof -
    from known [OF that] obtain c where "c \<in> set ?configs" "pc_id c = i"
      by (auto simp: is_config_def named_player_def find_None_iff)
    then show ?thesis using joined_once [of pc_id ?configs c] unique by simp
  qed
  then have "map snd (concat (map (\<lambda>i. map (\<lambda>c. (pc_name c, i)) (filter (\<lambda>c. pc_id c = i) ?configs)) ms)) = ms"
    if "set ms \<subseteq> set (members_in rt pool_id)" for ms
    using that by (induction ms) simp_all
  then have "mset (members_by_name es rt pool_id) = mset (members_in rt pool_id)"
    unfolding members_by_name_def Let_def mset_map mset_sort unfolding mset_map [symmetric] by simp
  then show ?thesis by (intro properties_for_sort) simp_all
qed

lemma latest_run_new:
  assumes "\<And>r. r \<in> set (pool_runs runs pool_id) \<Longrightarrow> run_before r new" "ru_pool_id new = pool_id"
  shows "latest_run (runs @ [new]) pool_id = Some new"
proof -
  have "find (\<lambda>r. \<not> list_ex (run_before r) (xs @ [new])) ys = None" if "\<And>r. r \<in> set ys \<Longrightarrow> run_before r new" for xs ys
    using that by (auto simp: find_None_iff)
  then have "find (\<lambda>r. \<not> list_ex (run_before r) (pool_runs runs pool_id @ [new])) (pool_runs runs pool_id) = None"
    using assms(1) by blast
  moreover have "\<not> list_ex (run_before new) (pool_runs runs pool_id @ [new])"
    using assms(1) run_before_asym by (simp add: list_ex_iff) blast
  moreover have "find P (xs @ [y]) = (if find P xs = None then (if P y then Some y else None) else find P xs)" for P xs and y :: "'a rating_run_scheme"
    by (induction xs) auto
  ultimately show ?thesis using assms(2) by (simp add: latest_run_def pool_runs_def Let_def)
qed

text \<open>The sweep leaves a pool alone that was just refit: on the same evidence and the same members it stores
  no run and changes nothing, whichever of its two questions it asks.\<close>

theorem sweep_leaves_a_fitted_pool:
  assumes "pools_ok (es_catalogue es) rt" "distinct (map (pc_id \<circ> n_config) (cat_players (es_catalogue es)))"
    "recompute es (po_id p) why (i, t) rt = Inr (rt', i)" "p \<in> set (rg_pools rt)" "i \<notin> set (map ru_id (rg_runs rt))"
    "\<forall>r \<in> set (rg_runs rt). ru_computed_at r < t"
  shows "fit_within es (po_id p) Evidence True drawn rt' = Inr (rt', None)"
proof -
  obtain k where rt': "rt' = store_fit (build_matrix es rt p) p k why (evidence_games es rt p) i t rt"
    by (rule recompute_stored [OF assms(1,4), of why i t]) (use assms(3) in simp)
  have pools: "rg_pools rt' = rg_pools rt" "rg_members rt' = rg_members rt" by (simp_all add: rt' store_fit_def Let_def)
  have found: "load_pool rt' (po_id p) = Inr p"
    using load_pool_found [OF assms(4) pools_okD(1) [OF assms(1)]] by (simp add: load_pool_def pools)
  have members: "members_in rt' = members_in rt" by (intro ext) (simp add: members_in_def pools)
  have games': "evidence_games es rt' p = evidence_games es rt p"
    by (simp add: evidence_games_def eligible_jobs_def members)
  have latest: "\<exists>r. latest_run (rg_runs rt') (po_id p) = Some r \<and> ru_id r = i \<and> ru_evidence_games r = Some (evidence_games es rt p)"
  proof -
    obtain new where new: "rg_runs rt' = rg_runs rt @ [new]" "ru_id new = i" "ru_pool_id new = po_id p" "ru_computed_at new = t"
      "ru_evidence_games new = Some (evidence_games es rt p)" by (simp add: rt' store_fit_def Let_def)
    have "latest_run (rg_runs rt') (po_id p) = Some new"
      unfolding new(1) by (rule latest_run_new) (use assms(6) new in \<open>auto simp: pool_runs_def run_before_def\<close>)
    then show ?thesis using new by blast
  qed
  have "map cg_player_config_id (run_ratings rt' i) = members_by_name es rt (po_id p)"
    unfolding rt' run_ratings_stored [OF assms(1,5)] build_matrix_members by (rule rated_configs)
  then have "rated_in rt' i = sort (members_by_name es rt (po_id p))"
    by (simp add: rated_in_def run_ratings_def)
  also have "\<dots> = sort (members_in rt (po_id p))"
    by (rule members_by_name_sorted [OF assms(2)]) (use pools_okD(4) [OF assms(1)] in \<open>auto simp: members_in_def\<close>)
  finally have "same_games es rt' p" using latest by (auto simp: same_games_def games' members)
  then show ?thesis by (simp add: fit_within_def found Let_def)
qed

section \<open>Either side of a head-to-head\<close>

text \<open>A job's results from its player 1's side, and whether player 1 is the head-to-head's first config.\<close>

type_synonym seated = "(int list \<times> int \<times> f64) \<times> bool"

definition evidence_from :: "bool \<Rightarrow> seated list \<Rightarrow> head_to_head" where
  "evidence_from first jobs = fold (\<lambda>((pent, n, spread_sum), seated_first). add_evidence pent n spread_sum (seated_first \<noteq> first)) jobs no_evidence"

lemma five: "length xs = 5 \<Longrightarrow> \<exists>a b c d e. xs = [a, b, c, d, e]"
  by (simp add: length_Suc_conv eval_nat_numeral) blast

lemma add_buckets:
  "fold (add_bucket False) (enumerate 0 [a, b, c, d, e]) [p, q, r, s, t] =
     [as_u64 (p + a), as_u64 (q + b), as_u64 (r + c), as_u64 (s + d), as_u64 (t + e)]"
  "fold (add_bucket True) (enumerate 0 [a, b, c, d, e]) [p, q, r, s, t] =
     [as_u64 (p + e), as_u64 (q + d), as_u64 (r + c), as_u64 (s + b), as_u64 (t + a)]"
  by (simp_all add: add_bucket_def eval_nat_numeral)

lemma f64_scale_add: "f64_scale (- 1) (f64_add x y) = f64_add (f64_scale (- 1) x) (f64_scale (- 1) y)"
  by (cases x; cases y) (simp_all add: f64_scale_def)

lemma f64_scale_twice [simp]: "f64_scale (- 1) (f64_scale (- 1) x) = x"
  by (cases x) (simp_all add: f64_scale_def)

lemma f64_scale_commute: "f64_scale c (f64_scale (- 1) x) = f64_scale (- 1) (f64_scale c x)"
  by (cases x) (simp_all add: f64_scale_def)

definition mirror_of :: "head_to_head \<Rightarrow> head_to_head" where
  "mirror_of h = \<lparr>hh_pentanomial = rev (hh_pentanomial h), hh_games = hh_games h,
     hh_spread_sum = f64_scale (- 1) (hh_spread_sum h)\<rparr>"

lemma add_evidence_mirror:
  assumes "length pent = 5" "length (hh_pentanomial h) = 5"
  shows "add_evidence pent n x (\<not> b) (mirror_of h) = mirror_of (add_evidence pent n x b h)"
proof -
  from five [OF assms(1)] five [OF assms(2)] obtain a1 a2 a3 a4 a5 c1 c2 c3 c4 c5 where
    l: "pent = [a1, a2, a3, a4, a5]" "hh_pentanomial h = [c1, c2, c3, c4, c5]" by blast
  show ?thesis by (cases b) (simp_all add: add_evidence_def mirror_of_def l add_buckets f64_scale_add del: fold_simps enumerate_simps)
qed

lemma add_evidence_length [simp]: "length (hh_pentanomial (add_evidence pent n x b h)) = length (hh_pentanomial h)"
proof -
  have "length (fold (add_bucket b) ks counts) = length counts" for ks counts
    by (induction ks arbitrary: counts) (simp_all add: add_bucket_def Let_def split: prod.splits)
  then show ?thesis by (simp add: add_evidence_def)
qed

lemma evidence_mirror:
  assumes "\<forall>j \<in> set jobs. length (fst (fst j)) = 5"
  shows "evidence_from False jobs = mirror_of (evidence_from True jobs)"
proof -
  have "fold (\<lambda>((pent, n, x), seated_first). add_evidence pent n x (seated_first \<noteq> False)) jobs (mirror_of h) =
      mirror_of (fold (\<lambda>((pent, n, x), seated_first). add_evidence pent n x (seated_first \<noteq> True)) jobs h)"
    if "length (hh_pentanomial h) = 5" for h
    using assms that
  proof (induction jobs arbitrary: h)
    case (Cons j jobs)
    obtain pent n x b where j: "j = ((pent, n, x), b)" by (metis prod.collapse)
    have "add_evidence pent n x b (mirror_of h) = mirror_of (add_evidence pent n x (\<not> b) h)"
      using add_evidence_mirror [of pent h n x "\<not> b"] Cons.prems by (simp add: j)
    then show ?case using Cons.IH [of "add_evidence pent n x (\<not> b) h"] Cons.prems by (simp add: j)
  qed simp
  from this [of no_evidence] show ?thesis
    by (simp add: evidence_from_def mirror_of_def no_evidence_def f64_scale_def)
qed

lemma moments_of_five:
  fixes B C D E n :: real
  shows "B / n / 4 + C / n / 2 + 3 * (D / n) / 4 + E / n = (B + 2 * C + 3 * D + 4 * E) / (4 * n)"
    "B / n / 16 + C / n / 4 + 9 * (D / n) / 16 + E / n = (B + 4 * C + 9 * D + 16 * E) / (16 * n)"
  by (cases "n = 0"; simp add: field_simps)+

lemma from_pentanomial_five:
  assumes "pairs_count [a, b, c, d, e] = n" "n \<noteq> 0"
  shows "from_pentanomial [a, b, c, d, e] =
    (let m = of_int (b + 2 * c + 3 * d + 4 * e) / (4 * of_int n); s = of_int (b + 4 * c + 9 * d + 16 * e) / (16 * of_int n)
     in \<lparr>sa_n = n, sa_mean = m, sa_variance = s - m * m\<rparr>)"
proof -
  let ?f = "\<lambda>(m, s) (i, count). let score = of_nat i / 4; weight = of_int count / of_int n
    in (m + score * weight, s + score * score * weight :: real)"
  have "foldl ?f (0, 0) (enumerate 0 [a, b, c, d, e]) =
      (of_int b / of_int n / 4 + of_int c / of_int n / 2 + 3 * (of_int d / of_int n) / 4 + of_int e / of_int n,
       of_int b / of_int n / 16 + of_int c / of_int n / 4 + 9 * (of_int d / of_int n) / 16 + of_int e / of_int n)"
    by simp
  then have "foldl ?f (0, 0) (enumerate 0 [a, b, c, d, e]) =
      (of_int (b + 2 * c + 3 * d + 4 * e) / (4 * of_int n), of_int (b + 4 * c + 9 * d + 16 * e) / (16 * of_int n))"
    unfolding moments_of_five by simp
  then show ?thesis using assms(2) by (simp only: from_pentanomial_def assms(1) Let_def if_False prod.case)
qed

lemma from_pentanomial_rev:
  assumes "length c = 5" "\<forall>x \<in> set c. 0 \<le> x" "sum_list c \<le> u64_max"
  shows "sa_n (from_pentanomial (rev c)) = sa_n (from_pentanomial c)"
    "sa_n (from_pentanomial c) \<noteq> 0 \<Longrightarrow> sa_mean (from_pentanomial (rev c)) = 1 - sa_mean (from_pentanomial c)"
    "sa_variance (from_pentanomial (rev c)) = sa_variance (from_pentanomial c)"
proof -
  from five [OF assms(1)] obtain x1 x2 x3 x4 x5 where c: "c = [x1, x2, x3, x4, x5]" by blast
  let ?n = "x1 + x2 + x3 + x4 + x5"
  have n: "pairs_count [x1, x2, x3, x4, x5] = ?n" "pairs_count [x5, x4, x3, x2, x1] = ?n"
    using assms(2,3) by (simp_all add: pairs_count_def c as_u64_id add.commute add.left_commute)
  show same: "sa_n (from_pentanomial (rev c)) = sa_n (from_pentanomial c)"
    unfolding c by (simp add: from_pentanomial_def n Let_def split: prod.splits)
  have "sa_n (from_pentanomial c) = ?n" unfolding c by (simp add: from_pentanomial_def n Let_def split: prod.splits)
  then have z: "sa_n (from_pentanomial c) = 0 \<longleftrightarrow> ?n = 0" by simp
  define S1 S2 N where "S1 = real_of_int (x2 + 2 * x3 + 3 * x4 + 4 * x5)" and "S2 = real_of_int (x2 + 4 * x3 + 9 * x4 + 16 * x5)"
    and "N = real_of_int ?n"
  have flipped: "real_of_int (x4 + 2 * x3 + 3 * x2 + 4 * x1) = 4 * N - S1"
    "real_of_int (x4 + 4 * x3 + 9 * x2 + 16 * x1) = 16 * N - 8 * S1 + S2"
    by (simp_all add: S1_def S2_def N_def)
  have eqs: "from_pentanomial c = (let m = S1 / (4 * N); s = S2 / (16 * N) in \<lparr>sa_n = ?n, sa_mean = m, sa_variance = s - m * m\<rparr>)"
    "from_pentanomial (rev c) = (let m = (4 * N - S1) / (4 * N); s = (16 * N - 8 * S1 + S2) / (16 * N)
       in \<lparr>sa_n = ?n, sa_mean = m, sa_variance = s - m * m\<rparr>)" if "?n \<noteq> 0"
    using from_pentanomial_five [OF n(1) that] from_pentanomial_five [OF n(2) that]
    unfolding c flipped S1_def [symmetric] S2_def [symmetric] N_def [symmetric] by simp_all
  have nz: "N \<noteq> 0" if "?n \<noteq> 0" using that by (simp add: N_def)
  show "sa_mean (from_pentanomial (rev c)) = 1 - sa_mean (from_pentanomial c)" if "sa_n (from_pentanomial c) \<noteq> 0"
    using that z eqs nz by (simp add: Let_def field_simps)
  show "sa_variance (from_pentanomial (rev c)) = sa_variance (from_pentanomial c)"
  proof (cases "?n = 0")
    case True
    then show ?thesis unfolding c by (simp add: from_pentanomial_def n)
  next
    case False
    show ?thesis using nz [OF False] by (simp add: eqs [OF False] Let_def field_simps power2_eq_square)
  qed
qed

lemma evidence_counts:
  assumes "\<forall>j \<in> set jobs. length (fst (fst j)) = 5 \<and> list_all ((\<le>) 0) (fst (fst j))"
    "(\<Sum>j\<leftarrow>jobs. sum_list (fst (fst j))) \<le> u64_max"
  shows "length (hh_pentanomial (evidence_from first jobs)) = 5 \<and> (\<forall>x \<in> set (hh_pentanomial (evidence_from first jobs)). 0 \<le> x) \<and>
    sum_list (hh_pentanomial (evidence_from first jobs)) = (\<Sum>j\<leftarrow>jobs. sum_list (fst (fst j)))"
proof -
  have step: "sum_list (hh_pentanomial (add_evidence pent n x b h)) = sum_list pent + sum_list (hh_pentanomial h) \<and>
      (\<forall>y \<in> set (hh_pentanomial (add_evidence pent n x b h)). 0 \<le> y)"
    if "length pent = 5" "list_all ((\<le>) 0) pent" "length (hh_pentanomial h) = 5" "\<forall>y \<in> set (hh_pentanomial h). 0 \<le> y"
      "sum_list pent + sum_list (hh_pentanomial h) \<le> u64_max" for pent n x b h
  proof -
    from five [OF that(1)] five [OF that(3)] obtain a1 a2 a3 a4 a5 c1 c2 c3 c4 c5 where
      l: "pent = [a1, a2, a3, a4, a5]" "hh_pentanomial h = [c1, c2, c3, c4, c5]" by blast
    show ?thesis using that unfolding l
      by (cases b) (simp_all add: add_evidence_def l add_buckets as_u64_id del: fold_simps enumerate_simps)
  qed
  have "length (hh_pentanomial (fold f jobs h)) = 5 \<and> (\<forall>x \<in> set (hh_pentanomial (fold f jobs h)). 0 \<le> x) \<and>
      sum_list (hh_pentanomial (fold f jobs h)) = (\<Sum>j\<leftarrow>jobs. sum_list (fst (fst j))) + sum_list (hh_pentanomial h)"
    if f: "f = (\<lambda>((pent, n, x), seated_first). add_evidence pent n x (seated_first \<noteq> first))"
      and "length (hh_pentanomial h) = 5" "\<forall>x \<in> set (hh_pentanomial h). 0 \<le> x"
      "(\<Sum>j\<leftarrow>jobs. sum_list (fst (fst j))) + sum_list (hh_pentanomial h) \<le> u64_max" for f h
    using assms(1) that(2-)
  proof (induction jobs arbitrary: h)
    case (Cons j jobs)
    obtain pent n x b where j: "j = ((pent, n, x), b)" by (metis prod.collapse)
    have "0 \<le> (\<Sum>j\<leftarrow>jobs. sum_list (fst (fst j)))"
      using Cons.prems(1) by (intro sum_list_nonneg) (auto simp: list_all_iff intro!: sum_list_nonneg)
    then have now: "sum_list (hh_pentanomial (f j h)) = sum_list pent + sum_list (hh_pentanomial h) \<and>
        (\<forall>y \<in> set (hh_pentanomial (f j h)). 0 \<le> y)" "length (hh_pentanomial (f j h)) = 5"
      using step [of pent h n x "b \<noteq> first"] Cons.prems by (auto simp: j f)
    then show ?case using Cons.IH [of "f j h"] Cons.prems by (simp add: j)
  qed simp
  from this [OF refl, of no_evidence] show ?thesis
    using assms(2) by (simp add: evidence_from_def no_evidence_def)
qed



section \<open>A pool to look at\<close>

definition trial_pool_body :: create_pool_body where
  "trial_pool_body = \<lparr>cp_name = lit ''english'', cp_variant = lit ''classic'', cp_letterdist_id = 1, cp_layout_id = 2,
     cp_anchor_player_config_id = 11, cp_anchor_rating = None\<rparr>"

definition trial_pool :: rating_pool where
  "trial_pool = \<lparr>po_id = 7, po_name = lit ''english'', po_variant = lit ''classic'', po_letterdist_id = 1, po_layout_id = 2,
     po_anchor = 11, po_anchor_rating = 2000\<rparr>"

definition trial_tables :: rating_tables where
  "trial_tables = \<lparr>rg_pools = [trial_pool], rg_members = [\<lparr>pm_pool_id = 7, pm_player_config_id = 11, pm_added_by = Some 5\<rparr>],
     rg_runs = [], rg_ratings = [], rg_residuals = []\<rparr>"

definition trial_source :: evidence_source where
  "trial_source = \<lparr>es_jobs = [], es_catalogue = trial_catalogue, es_results = [], es_collate = id\<rparr>"

lemma trial_scope: "check_scope trial_catalogue trial_pool_body = ok"
proof -
  have inputs: "\<exists>r. input_of trial_catalogue 1 = Some r \<and> in_content r = tiny_file"
    "\<exists>r. input_of trial_catalogue 2 = Some r \<and> in_content r = open_board"
    by (simp_all add: input_of_def trial_catalogue_def)
  obtain layout where "require_role trial_catalogue 2 ''layout'' = Inr layout"
    using trial_roles(2) by (auto simp: is_inr_def split: sum.splits)
  moreover obtain ld b where "input_of trial_catalogue 1 = Some ld" "in_content ld = tiny_file"
    "input_of trial_catalogue 2 = Some b" "in_content b = open_board" using inputs by blast
  ultimately show ?thesis
    by (simp add: check_scope_def trial_pool_body_def trial_roles(1) [simplified] parse_trial open_board_ok fetch_one_def ok_or_def)
qed

lemma trial_anchor: "is_config trial_catalogue 11"
  by (simp add: is_config_def named_player_def trial_catalogue_def static_player_def)

lemma trial_trim: "trim (lit ''english'') = lit ''english''"
  by code_simp

lemma trial_name: "name_problem (lit ''english'') = None" "lit ''english'' \<noteq> []"
  by code_simp+

lemma trial_fields: "create_pool_fields trial_pool_body = []"
  by (simp add: create_pool_fields_def trial_pool_body_def trial_trim trial_name anchor_rating_ok_def anchor_rating_of_def
    default_anchor_rating_def MAX_ABS_ANCHOR_RATING_def unwrap_or_def field_if_def field_problem_def)

lemma trial_pool_reached: "\<exists>audit. pools_reachable (trial_catalogue, trial_tables, audit)"
proof -
  have "create_pool trial_catalogue ok 5 trial_pool_body 7 (no_pools, []) =
      Inr ((trial_tables, log_pool ''rating_pool.created'' 5 ''rating_pool'' 7 []), 7)"
    using trial_anchor by (simp add: create_pool_def trial_fields trial_scope no_fields_def)
      (simp add: no_pools_def trial_tables_def trial_pool_def trial_pool_body_def trial_trim anchor_rating_of_def
        default_anchor_rating_def unwrap_or_def)
  from Created [OF this] have "pools_step (trial_catalogue, no_pools, []) (trial_catalogue, trial_tables,
      log_pool ''rating_pool.created'' 5 ''rating_pool'' 7 [])" by (simp add: no_pools_def)
  from Step [OF Empty this] show ?thesis by blast
qed

theorem every_pool_can_be_refit_witness:
  "\<exists>rt'. recompute trial_source 7 Manual (1, 100) trial_tables = Inr (rt', 1) \<and>
    list_ex (\<lambda>g. cg_player_config_id g = 11 \<and> cg_rating g = 2000 \<and> cg_connected g \<and> cg_is_anchor g) (run_ratings rt' 1)"
proof -
  obtain audit where r: "pools_reachable (trial_catalogue, trial_tables, audit)" using trial_pool_reached by blast
  have p: "trial_pool \<in> set (rg_pools trial_tables)" "es_catalogue trial_source = trial_catalogue"
    "1 \<notin> set (map ru_id (rg_runs trial_tables))" by (simp_all add: trial_tables_def trial_source_def)
  from every_pool_can_be_refit [OF r p, of Manual 100] show ?thesis by (auto simp: trial_pool_def)
qed

theorem sweep_leaves_a_fitted_pool_witness:
  "\<exists>rt'. recompute trial_source 7 Manual (1, 100) trial_tables = Inr (rt', 1) \<and>
    fit_within trial_source 7 Evidence True (2, 200) rt' = Inr (rt', None)"
proof -
  obtain audit where r: "pools_reachable (trial_catalogue, trial_tables, audit)" using trial_pool_reached by blast
  have ok: "pools_ok (es_catalogue trial_source) trial_tables"
    using pools_reachable_ok [OF r] by (simp add: trial_source_def)
  have p: "trial_pool \<in> set (rg_pools trial_tables)" "1 \<notin> set (map ru_id (rg_runs trial_tables))"
    "\<forall>r \<in> set (rg_runs trial_tables). ru_computed_at r < 100"
    by (simp_all add: trial_tables_def)
  have ids: "distinct (map (pc_id \<circ> n_config) (cat_players (es_catalogue trial_source)))"
    by (simp add: trial_source_def trial_catalogue_def static_player_def)
  obtain k where run: "recompute trial_source (po_id trial_pool) Manual (1, 100) trial_tables =
      Inr (store_fit (build_matrix trial_source trial_tables trial_pool) trial_pool k Manual
        (evidence_games trial_source trial_tables trial_pool) 1 100 trial_tables, 1)"
    by (rule recompute_stored [OF ok p(1), of Manual 1 100])
  from run sweep_leaves_a_fitted_pool [OF ok ids run p, of "(2, 200)"] show ?thesis
    by (intro exI conjI) (simp_all add: trial_pool_def)
qed

section \<open>The history\<close>

lemma multiples_below:
  assumes "0 < step" "whole \<le> 500 * step"
  shows "length (filter (\<lambda>n. (n - 1) mod step = 0) [1..<Suc whole]) \<le> 500"
proof -
  have sub: "{n. n \<in> {1..<Suc whole} \<and> (n - 1) mod step = 0} \<subseteq> (\<lambda>q. Suc (q * step)) ` {..<500}"
  proof
    fix n assume n: "n \<in> {n. n \<in> {1..<Suc whole} \<and> (n - 1) mod step = 0}"
    then have "step dvd n - 1" by (simp add: mod_eq_0_iff_dvd)
    then obtain q where q: "n - 1 = q * step" by (auto simp: dvd_def mult.commute)
    have "n - 1 < whole" using n by auto
    then have "q * step < 500 * step" unfolding q using assms(2) by (rule less_le_trans)
    then have "q < 500" by (rule mult_less_cancel2 [THEN iffD1, THEN conjunct2])
    then show "n \<in> (\<lambda>q. Suc (q * step)) ` {..<500}" using n q by (intro image_eqI [of _ _ q]) auto
  qed
  have "length (filter (\<lambda>n. (n - 1) mod step = 0) [1..<Suc whole]) = card (set (filter (\<lambda>n. (n - 1) mod step = 0) [1..<Suc whole]))"
    by (rule distinct_card [symmetric]) simp
  also have "set (filter (\<lambda>n. (n - 1) mod step = 0) [1..<Suc whole]) = {n. n \<in> {1..<Suc whole} \<and> (n - 1) mod step = 0}" by auto
  also have "card \<dots> \<le> card ((\<lambda>q. Suc (q * step)) ` {..<500})" by (rule card_mono [OF _ sub]) simp
  also have "\<dots> \<le> 500" using card_image_le [of "{..<500}" "\<lambda>q. Suc (q * step)"] by simp
  finally show ?thesis .
qed

lemma history_numbers: "length (filter (in_history whole) [1..<Suc whole]) \<le> Suc MAX_HISTORY_RUNS"
proof (cases "whole \<le> 500")
  case True
  have "length (filter (in_history whole) [1..<Suc whole]) \<le> length [1..<Suc whole]" by (rule length_filter_le)
  then show ?thesis using True by (simp add: MAX_HISTORY_RUNS_def del: upt_Suc)
next
  case False
  let ?step = "(whole + MAX_HISTORY_RUNS - 1) div MAX_HISTORY_RUNS"
  have step: "0 < ?step" "whole \<le> 500 * ?step" using False by (simp_all add: MAX_HISTORY_RUNS_def)
  have split: "length (filter (\<lambda>n. P n \<or> n = w) ns) \<le> length (filter P ns) + length (filter (\<lambda>n. n = w) ns)" for P w and ns :: "nat list"
    by (induction ns) auto
  have "length (filter (in_history whole) [1..<Suc whole]) =
      length (filter (\<lambda>n. (n - 1) mod ?step = 0 \<or> n = whole) [1..<Suc whole])"
    using False by (intro arg_cong [where f = length] filter_cong) (simp_all add: in_history_def MAX_HISTORY_RUNS_def)
  also have "\<dots> \<le> length (filter (\<lambda>n. (n - 1) mod ?step = 0) [1..<Suc whole]) + length (filter (\<lambda>n. n = whole) [1..<Suc whole])"
    by (rule split)
  also have "length (filter (\<lambda>n. n = whole) [1..<Suc whole]) = 1"
    using False by (simp add: filter_empty_conv)
  finally show ?thesis using multiples_below [OF step] by (simp add: MAX_HISTORY_RUNS_def)
qed

definition in_order :: "'a rating_run_scheme list \<Rightarrow> nat \<Rightarrow> 'a rating_run_scheme list" where
  "in_order runs pool_id = sort_key ru_computed_at (sort_key ru_id (pool_runs runs pool_id))"

lemma history_runs_eq: "history_runs runs pool_id =
    map snd (filter (\<lambda>(n, _). in_history (length (in_order runs pool_id)) n) (enumerate 1 (in_order runs pool_id)))"
  by (simp add: history_runs_def in_order_def Let_def)

lemma in_history_ends: "in_history whole 1" "in_history whole whole"
  by (simp_all add: in_history_def)

lemma kept_ends:
  assumes "xs \<noteq> []" "P 1" "P (length xs)"
  shows "hd (map snd (filter (\<lambda>(n, _). P n) (enumerate 1 xs))) = hd xs"
    "last (map snd (filter (\<lambda>(n, _). P n) (enumerate 1 xs))) = last xs"
proof -
  from assms(1) obtain y ys where y: "xs = y # ys" by (cases xs) auto
  show "hd (map snd (filter (\<lambda>(n, _). P n) (enumerate 1 xs))) = hd xs" using assms(2) by (simp add: y)
  from assms(1) obtain zs z where z: "xs = zs @ [z]" by (cases xs rule: rev_cases) auto
  show "last (map snd (filter (\<lambda>(n, _). P n) (enumerate 1 xs))) = last xs"
    using assms(3) by (simp add: z enumerate_append_eq)
qed

text \<open>A pool's history is bounded and keeps both its ends: whatever the pool's life, at most one more than
  \<open>MAX_HISTORY_RUNS\<close> of its runs, in the order they were computed, with the first of them and the last.\<close>

theorem history_is_bounded:
  assumes "pool_runs runs pool_id \<noteq> []"
  shows "length (history_runs runs pool_id) \<le> Suc MAX_HISTORY_RUNS \<and>
    sorted (map ru_computed_at (history_runs runs pool_id)) \<and>
    hd (history_runs runs pool_id) = hd (in_order runs pool_id) \<and>
    last (history_runs runs pool_id) = last (in_order runs pool_id)"
proof (intro conjI)
  let ?mine = "in_order runs pool_id"
  let ?P = "in_history (length ?mine)"
  have ne: "?mine \<noteq> []" using assms by (metis in_order_def length_0_conv length_sort)
  have "map fst (filter (\<lambda>(n, _). ?P n) (enumerate 1 ?mine)) = filter ?P (map fst (enumerate 1 ?mine))"
    unfolding filter_map by (simp add: comp_def case_prod_unfold)
  then have "length (history_runs runs pool_id) = length (filter ?P [1..<Suc (length ?mine)])"
    unfolding history_runs_eq by (metis length_map map_fst_enumerate One_nat_def plus_1_eq_Suc)
  then show "length (history_runs runs pool_id) \<le> Suc MAX_HISTORY_RUNS" using history_numbers by simp
  have "sorted (map (ru_computed_at \<circ> snd) (enumerate 1 ?mine))"
    unfolding map_map [symmetric] map_snd_enumerate by (simp add: in_order_def)
  then have "sorted (map (ru_computed_at \<circ> snd) (filter (\<lambda>(n, _). ?P n) (enumerate 1 ?mine)))" by (rule sorted_filter)
  then show "sorted (map ru_computed_at (history_runs runs pool_id))" unfolding history_runs_eq by simp
  show "hd (history_runs runs pool_id) = hd ?mine" "last (history_runs runs pool_id) = last ?mine"
    unfolding history_runs_eq by (rule kept_ends [OF ne, where P = ?P, OF in_history_ends])+
qed

theorem history_is_bounded_witness:
  "map ru_id [hd (history_runs (rg_runs three_runs) 7), last (history_runs (rg_runs three_runs) 7)] = [1, 3]"
proof -
  have "pool_runs (rg_runs three_runs) 7 \<noteq> []" by (simp add: pool_runs_def three_runs_def sample_run_def)
  from history_is_bounded [OF this] have "hd (history_runs (rg_runs three_runs) 7) = hd (in_order (rg_runs three_runs) 7) \<and>
    last (history_runs (rg_runs three_runs) 7) = last (in_order (rg_runs three_runs) 7)" by blast
  then show ?thesis by (simp add: in_order_def pool_runs_def three_runs_def sample_run_def)
qed

text \<open>The bound is reached: a thousand runs are thinned to 501 of them.\<close>

lemma odd_numbers: "length (filter odd [1..<Suc (2 * m)]) = m"
  by (induction m) simp_all

lemma history_of_a_thousand: "length (filter (in_history 1000) [1..<1001]) = 501"
proof -
  have split: "[1..<1001] = [1..<1000] @ [1000::nat]" using upt_Suc_append [of 1 1000] by (simp del: upt_Suc)
  have "filter (in_history 1000) [1..<1000] = filter odd [1..<1000]"
  proof (rule filter_cong [OF refl])
    fix n :: nat assume "n \<in> set [1..<1000]"
    then have n: "1 \<le> n" "n < 1000" by simp_all
    then have "in_history 1000 n = ((n - 1) mod 2 = 0)" by (simp add: in_history_def MAX_HISTORY_RUNS_def)
    then show "in_history 1000 n = odd n" using n(1) by presburger
  qed
  moreover have "[1..<Suc (2 * 500)] = [1..<1000] @ [1000::nat]" using split by (simp del: upt_Suc)
  then have "length (filter odd [1..<1000::nat]) = 500" using odd_numbers [of 500] by (simp del: upt_Suc)
  ultimately show ?thesis unfolding split by (simp add: in_history_ends del: upt_Suc)
qed

end
