(* ===== verification/Live.thy ===== *)
theory Live
  imports Job_Model
begin

text \<open>
  What a job's open pages are shown: the payload kept between builds (\<open>jobstats.rs\<close>), the channels of the
  subscribers and the pushes in flight (\<open>sse.rs\<close>), the loop that builds and publishes (\<open>routes/worker.rs\<close>) and the
  places among the live streams (\<open>routes/public.rs\<close>).  A payload is whatever its build read; times are instants of
  the process's clock, in microseconds.
\<close>

section \<open>The payload that is kept\<close>

record 'p kept_payload =
  kp_started :: time
  kp_json :: 'p

record 'p stats_cache =
  sc_payloads :: "nat \<rightharpoonup> 'p kept_payload"
  sc_forgotten :: "nat \<rightharpoonup> time"
  sc_failed :: "nat \<rightharpoonup> time"

text \<open>\<open>HashMap::retain\<close>.\<close>

definition retain :: "('v \<Rightarrow> bool) \<Rightarrow> (nat \<rightharpoonup> 'v) \<Rightarrow> nat \<rightharpoonup> 'v" where
  "retain P m = (\<lambda>k. case m k of Some v \<Rightarrow> if P v then Some v else None | None \<Rightarrow> None)"

definition FORGOTTEN_KEPT :: time where "FORGOTTEN_KEPT = 3600 * 1000000"

definition forget_payload :: "time \<Rightarrow> nat \<Rightarrow> 'p stats_cache \<Rightarrow> 'p stats_cache" where
  "forget_payload now job_id sc = sc\<lparr>sc_payloads := (sc_payloads sc)(job_id := None),
     sc_forgotten := (retain (\<lambda>t. now - t < FORGOTTEN_KEPT) (sc_forgotten sc))(job_id \<mapsto> now)\<rparr>"

text \<open>The end of \<open>build_payload\<close>, under the payloads' lock: whether the payload was kept.\<close>

definition keep_payload :: "time \<Rightarrow> time \<Rightarrow> nat \<Rightarrow> time \<Rightarrow> 'p \<Rightarrow> 'p stats_cache \<Rightarrow> 'p stats_cache \<times> bool" where
  "keep_payload now max_age job_id started json sc =
     (if max_age = 0 then (sc, True)
      else
        (let forgotten_after_start = (case sc_forgotten sc job_id of Some t \<Rightarrow> started < t | None \<Rightarrow> False);
             newer = (case sc_payloads sc job_id of Some e \<Rightarrow> started < kp_started e | None \<Rightarrow> False);
             superseded = forgotten_after_start \<or> newer;
             young = retain (\<lambda>e. now - kp_started e < max_age) (sc_payloads sc)
         in (sc\<lparr>sc_payloads := (if superseded then young
               else young(job_id \<mapsto> \<lparr>kp_started = started, kp_json = json\<rparr>))\<rparr>, \<not> superseded)))"

text \<open>\<open>since\<close> is when a request that waited asked.\<close>

definition cached_payload :: "time \<Rightarrow> time \<Rightarrow> time option \<Rightarrow> nat \<Rightarrow> 'p stats_cache \<Rightarrow> 'p option" where
  "cached_payload now max_age since job_id sc = (case sc_payloads sc job_id of
     None \<Rightarrow> None
   | Some e \<Rightarrow> if now - kp_started e < max_age \<or> (case since of None \<Rightarrow> False | Some t \<Rightarrow> t \<le> kp_started e + max_age)
       then Some (kp_json e) else None)"

definition failed_since :: "time \<Rightarrow> nat \<Rightarrow> time \<Rightarrow> 'p stats_cache \<Rightarrow> 'p stats_cache \<times> bool" where
  "failed_since now job_id since sc =
     (let failed = retain (\<lambda>t. now - t < 60 * 1000000) (sc_failed sc)
      in (sc\<lparr>sc_failed := failed\<rparr>, case failed job_id of Some t \<Rightarrow> since \<le> t | None \<Rightarrow> False))"

definition note_failure :: "time \<Rightarrow> nat \<Rightarrow> 'p stats_cache \<Rightarrow> 'p stats_cache" where
  "note_failure now job_id sc = sc\<lparr>sc_failed := (sc_failed sc)(job_id \<mapsto> now)\<rparr>"

definition busy :: app_error where
  "busy = Unavailable ''the server is busy; try again shortly''"

text \<open>\<open>payload\<close> before its turn at the build lock, and once it has it: an answer, or a build of its own.\<close>

datatype 'p ask = Answer "'p app_result" | Wait_turn | Build

definition payload_asked :: "time \<Rightarrow> time \<Rightarrow> nat \<Rightarrow> 'p stats_cache \<Rightarrow> 'p ask" where
  "payload_asked now max_age job_id sc =
     (if max_age = 0 then Build
      else case cached_payload now max_age None job_id sc of Some json \<Rightarrow> Answer (Inr json) | None \<Rightarrow> Wait_turn)"

definition payload_in_turn :: "time \<Rightarrow> time \<Rightarrow> time \<Rightarrow> nat \<Rightarrow> 'p stats_cache \<Rightarrow> 'p stats_cache \<times> 'p ask" where
  "payload_in_turn now max_age asked job_id sc = (case cached_payload now max_age (Some asked) job_id sc of
     Some json \<Rightarrow> (sc, Answer (Inr json))
   | None \<Rightarrow> (case failed_since now job_id asked sc of
         (sc', True) \<Rightarrow> (sc', Answer (Inl busy))
       | (sc', False) \<Rightarrow> (sc', Build)))"

text \<open>\<open>refresh_payload\<close>: what a push may send.\<close>

definition may_send :: "time \<Rightarrow> bool \<Rightarrow> 'p \<Rightarrow> 'p option" where
  "may_send max_age kept json = (if kept \<or> max_age = 0 then Some json else None)"

section \<open>The build locks\<close>

text \<open>A job's lock and how many requests hold the entry: one for each of them, the map's own apart.\<close>

type_synonym build_locks = "nat \<rightharpoonup> nat"

definition build_lock :: "nat \<Rightarrow> build_locks \<Rightarrow> build_locks" where
  "build_lock job_id locks = locks(job_id \<mapsto> (case locks job_id of None \<Rightarrow> 1 | Some n \<Rightarrow> Suc n))"

definition release_build_lock :: "nat \<Rightarrow> build_locks \<Rightarrow> build_locks" where
  "release_build_lock job_id locks = (case locks job_id of
     None \<Rightarrow> locks
   | Some n \<Rightarrow> if n - 1 = 0 then locks(job_id := None) else locks(job_id \<mapsto> n - 1))"

section \<open>Subscribers and pushes\<close>

text \<open>A channel is its receivers, each with what it has not read yet; one that lags loses the oldest.\<close>

type_synonym 'p channel = "(nat \<times> 'p list) list"

record push =
  pu_pending :: bool
  pu_urgent :: bool

record 'p broadcaster =
  sb_channels :: "nat \<rightharpoonup> 'p channel"
  sb_pushes :: "nat \<rightharpoonup> push"

definition no_channels :: "'p broadcaster" where
  "no_channels = \<lparr>sb_channels = (\<lambda>_. None), sb_pushes = (\<lambda>_. None)\<rparr>"

definition CHANNEL_CAPACITY :: nat where "CHANNEL_CAPACITY = 64"

definition subscribe :: "nat \<Rightarrow> nat \<Rightarrow> 'p broadcaster \<Rightarrow> 'p broadcaster" where
  "subscribe receiver job_id sb = sb\<lparr>sb_channels := (sb_channels sb)(job_id \<mapsto>
     (case sb_channels sb job_id of None \<Rightarrow> [] | Some receivers \<Rightarrow> receivers) @ [(receiver, [])])\<rparr>"

text \<open>A receiver dropped with its stream.\<close>

definition unsubscribe :: "nat \<Rightarrow> nat \<Rightarrow> 'p broadcaster \<Rightarrow> 'p broadcaster" where
  "unsubscribe receiver job_id sb = (case sb_channels sb job_id of
     None \<Rightarrow> sb
   | Some receivers \<Rightarrow> sb\<lparr>sb_channels := (sb_channels sb)(job_id \<mapsto> filter (\<lambda>(r, _). r \<noteq> receiver) receivers)\<rparr>)"

definition close_channel :: "nat \<Rightarrow> 'p broadcaster \<Rightarrow> 'p broadcaster" where
  "close_channel job_id sb = sb\<lparr>sb_channels := (sb_channels sb)(job_id := None)\<rparr>"

definition has_subscribers :: "nat \<Rightarrow> 'p broadcaster \<Rightarrow> 'p broadcaster \<times> bool" where
  "has_subscribers job_id sb = (case sb_channels sb job_id of
     None \<Rightarrow> (sb, False)
   | Some receivers \<Rightarrow> if receivers = [] then (close_channel job_id sb, False) else (sb, True))"

definition ask_for_push :: "nat \<Rightarrow> bool \<Rightarrow> 'p broadcaster \<Rightarrow> 'p broadcaster \<times> bool" where
  "ask_for_push job_id urgent sb = (case sb_pushes sb job_id of
     Some p \<Rightarrow> (sb\<lparr>sb_pushes := (sb_pushes sb)(job_id \<mapsto> \<lparr>pu_pending = True, pu_urgent = pu_urgent p \<or> urgent\<rparr>)\<rparr>, False)
   | None \<Rightarrow> (sb\<lparr>sb_pushes := (sb_pushes sb)(job_id \<mapsto> \<lparr>pu_pending = False, pu_urgent = False\<rparr>)\<rparr>, True))"

definition begin_push :: "nat \<Rightarrow> 'p broadcaster \<Rightarrow> 'p broadcaster \<times> bool" where
  "begin_push job_id sb = ask_for_push job_id False sb"

definition begin_urgent_push :: "nat \<Rightarrow> 'p broadcaster \<Rightarrow> 'p broadcaster \<times> bool" where
  "begin_urgent_push job_id sb = ask_for_push job_id True sb"

text \<open>The stored wake-up, if there is a push and one is stored: taken.\<close>

definition take_urgent :: "nat \<Rightarrow> 'p broadcaster \<Rightarrow> 'p broadcaster \<times> bool" where
  "take_urgent job_id sb = (case sb_pushes sb job_id of
     None \<Rightarrow> (sb, False)
   | Some p \<Rightarrow> (sb\<lparr>sb_pushes := (sb_pushes sb)(job_id \<mapsto> p\<lparr>pu_urgent := False\<rparr>)\<rparr>, pu_urgent p))"

definition abandon_push :: "nat \<Rightarrow> 'p broadcaster \<Rightarrow> 'p broadcaster" where
  "abandon_push job_id sb = sb\<lparr>sb_pushes := (sb_pushes sb)(job_id := None)\<rparr>"

definition end_push :: "nat \<Rightarrow> 'p broadcaster \<Rightarrow> 'p broadcaster \<times> bool" where
  "end_push job_id sb = (case sb_pushes sb job_id of
     Some p \<Rightarrow> if pu_pending p then (sb\<lparr>sb_pushes := (sb_pushes sb)(job_id \<mapsto> p\<lparr>pu_pending := False\<rparr>)\<rparr>, True)
       else (abandon_push job_id sb, False)
   | None \<Rightarrow> (sb, False))"

definition publish :: "nat \<Rightarrow> 'p \<Rightarrow> 'p broadcaster \<Rightarrow> 'p broadcaster" where
  "publish job_id payload sb = (case sb_channels sb job_id of
     None \<Rightarrow> sb
   | Some receivers \<Rightarrow> if receivers = [] then close_channel job_id sb
       else sb\<lparr>sb_channels := (sb_channels sb)(job_id \<mapsto> map (\<lambda>(r, unread).
         (r, if length unread < CHANNEL_CAPACITY then unread @ [payload] else tl unread @ [payload])) receivers)\<rparr>)"

section \<open>The push loop\<close>

definition MIN_STATS_PUSH_INTERVAL :: time where "MIN_STATS_PUSH_INTERVAL = 1000000"

text \<open>Where the loop is: about to build with so many tries left, building since an instant, or cooling down until one.\<close>

datatype loop_phase = About_to_build nat | Building nat time | Cooling time

datatype 'p build_result = Built 'p | Gone | Build_failed

definition start_loop :: loop_phase where
  "start_loop = About_to_build 3"

definition cool_down :: "time \<Rightarrow> time \<Rightarrow> loop_phase" where
  "cool_down now max_age = Cooling (now + max MIN_STATS_PUSH_INTERVAL max_age)"

text \<open>A wake-up stored before a build is spent by it; a try is used up.\<close>

definition start_build :: "time \<Rightarrow> nat \<Rightarrow> nat \<Rightarrow> 'p broadcaster \<Rightarrow> 'p broadcaster \<times> loop_phase" where
  "start_build now job_id tries sb = (fst (take_urgent job_id sb), Building (tries - 1) now)"

text \<open>A build that ends: published if it may be, built again if it was superseded and a try is left.  \<open>None\<close> is a loop
  that has ended.\<close>

definition build_ended ::
  "time \<Rightarrow> time \<Rightarrow> nat \<Rightarrow> nat \<Rightarrow> time \<Rightarrow> 'p build_result \<Rightarrow> 'p stats_cache \<times> 'p broadcaster \<Rightarrow>
    ('p stats_cache \<times> 'p broadcaster) \<times> loop_phase option" where
  "build_ended now max_age job_id tries started outcome st = (case st of (sc, sb) \<Rightarrow> (case outcome of
     Built json \<Rightarrow>
       (case keep_payload now max_age job_id started json sc of (sc', kept) \<Rightarrow>
          (case may_send max_age kept json of
             Some payload \<Rightarrow> ((sc', publish job_id payload sb), Some (cool_down now max_age))
           | None \<Rightarrow> ((sc', sb), Some (if tries = 0 then cool_down now max_age else About_to_build tries))))
   | Gone \<Rightarrow> ((sc, abandon_push job_id sb), None)
   | Build_failed \<Rightarrow> ((sc, sb), Some (cool_down now max_age))))"

text \<open>The cool-down ends at its instant or by an urgent ask's wake-up, and at once when the push is gone.\<close>

definition cooled :: "time \<Rightarrow> nat \<Rightarrow> time \<Rightarrow> 'p broadcaster \<Rightarrow> ('p broadcaster \<times> loop_phase option) option" where
  "cooled now job_id until sb =
     (if until \<le> now \<or> sb_pushes sb job_id = None \<or> snd (take_urgent job_id sb)
      then (let woken = (if until \<le> now then sb else fst (take_urgent job_id sb)) in
        case end_push job_id woken of (sb', again) \<Rightarrow> Some (sb', if again then Some start_loop else None))
      else None)"

text \<open>A submission's ask, and that of an admin's change, which forgets the kept payload first: whether a loop is to be started.\<close>

definition push_after_submission :: "nat \<Rightarrow> 'p broadcaster \<Rightarrow> 'p broadcaster \<times> bool" where
  "push_after_submission job_id sb = (case has_subscribers job_id sb of
     (sb', False) \<Rightarrow> (sb', False) | (sb', True) \<Rightarrow> begin_push job_id sb')"

definition push_after_change ::
  "time \<Rightarrow> nat \<Rightarrow> 'p stats_cache \<times> 'p broadcaster \<Rightarrow> ('p stats_cache \<times> 'p broadcaster) \<times> bool" where
  "push_after_change now job_id st = (case st of (sc, sb) \<Rightarrow>
     (case has_subscribers job_id sb of
        (sb', False) \<Rightarrow> ((forget_payload now job_id sc, sb'), False)
      | (sb', True) \<Rightarrow> (case begin_urgent_push job_id sb' of (sb'', owner) \<Rightarrow> ((forget_payload now job_id sc, sb''), owner))))"

section \<open>Places among the live streams\<close>

definition MAX_LIVE_STREAMS :: nat where "MAX_LIVE_STREAMS = 2000"
definition MAX_LIVE_STREAMS_PER_ADDRESS :: nat where "MAX_LIVE_STREAMS_PER_ADDRESS = 32"

text \<open>The streams open of each address, and the places left in the semaphore.\<close>

record 'a live_streams =
  ls_by_address :: "'a \<rightharpoonup> nat"
  ls_left :: nat

definition no_streams :: "'a live_streams" where
  "no_streams = \<lparr>ls_by_address = (\<lambda>_. None), ls_left = MAX_LIVE_STREAMS\<rparr>"

definition take_place :: "'a \<Rightarrow> nat \<Rightarrow> ('a \<rightharpoonup> nat) \<Rightarrow> ('a \<rightharpoonup> nat) \<times> bool" where
  "take_place address cap open_streams =
     (let n = (case open_streams address of None \<Rightarrow> 0 | Some n \<Rightarrow> n)
      in if n \<ge> cap then (open_streams(address \<mapsto> n), False) else (open_streams(address \<mapsto> Suc n), True))"

definition drop_place :: "'a \<Rightarrow> ('a \<rightharpoonup> nat) \<Rightarrow> ('a \<rightharpoonup> nat)" where
  "drop_place address open_streams = (case open_streams address of
     None \<Rightarrow> open_streams
   | Some n \<Rightarrow> if n - 1 = 0 then open_streams(address := None) else open_streams(address \<mapsto> n - 1))"

text \<open>The address's own place is given back when there is none left of all.\<close>

definition stream_permit :: "'a \<Rightarrow> nat \<Rightarrow> 'a live_streams \<Rightarrow> 'a live_streams \<times> check" where
  "stream_permit address per_address ls = (case take_place address per_address (ls_by_address ls) of
     (opened, False) \<Rightarrow> (ls\<lparr>ls_by_address := opened\<rparr>, Inl (Unavailable ''too many live pages are open from this address''))
   | (opened, True) \<Rightarrow>
       if ls_left ls = 0
       then (ls\<lparr>ls_by_address := drop_place address opened\<rparr>, Inl (Unavailable ''too many live pages are open''))
       else (ls\<lparr>ls_by_address := opened, ls_left := ls_left ls - 1\<rparr>, ok))"

text \<open>A stream that ends gives both places back.\<close>

definition end_stream :: "'a \<Rightarrow> 'a live_streams \<Rightarrow> 'a live_streams" where
  "end_stream address ls = ls\<lparr>ls_by_address := drop_place address (ls_by_address ls), ls_left := Suc (ls_left ls)\<rparr>"

end
