(* ===== verification/Live_Spec.thy ===== *)
theory Live_Spec
  imports Live
begin

text \<open>
  What open pages are promised: no payload from before an admin's change is served or pushed once the change has
  been made known, no ask for a push is lost, and the places among the live streams are those of the streams open.
\<close>

section \<open>One job's pages\<close>

text \<open>The clock, the cache, the channels and the loop, with when a change was last made known, when a push was last
  asked for, when the loop last started a build, whether the job is gone, and what was published: each payload with
  the last change of its moment.\<close>

record 'p live =
  li_now :: time
  li_cache :: "'p stats_cache"
  li_pages :: "'p broadcaster"
  li_loop :: "loop_phase option"
  li_changed :: time
  li_asked :: time
  li_built :: time
  li_gone :: bool
  li_sent :: "(time \<times> 'p) list"

definition begin_loop :: "bool \<Rightarrow> loop_phase option \<Rightarrow> loop_phase option" where
  "begin_loop owner phase = (if owner then Some start_loop else phase)"

definition watched :: "nat \<Rightarrow> 'p broadcaster \<Rightarrow> bool" where
  "watched job_id sb = snd (has_subscribers job_id sb)"

text \<open>\<open>truth t\<close> is what a read at \<open>t\<close> gives; a build reads between its start and its end.\<close>

inductive live_step :: "(time \<Rightarrow> 'p) \<Rightarrow> time \<Rightarrow> nat \<Rightarrow> 'p live \<Rightarrow> 'p live \<Rightarrow> bool"
  for truth :: "time \<Rightarrow> 'p" and max_age :: time and job_id :: nat where
  Change: "li_now s \<le> t \<Longrightarrow> push_after_change t job_id (li_cache s, li_pages s) = ((sc, sb), owner) \<Longrightarrow>
    live_step truth max_age job_id s (s\<lparr>li_now := t, li_cache := sc, li_pages := sb, li_loop := begin_loop owner (li_loop s),
      li_changed := t, li_asked := (if watched job_id (li_pages s) then t else li_asked s)\<rparr>)"
| Submission: "li_now s \<le> t \<Longrightarrow> push_after_submission job_id (li_pages s) = (sb, owner) \<Longrightarrow>
    live_step truth max_age job_id s (s\<lparr>li_now := t, li_pages := sb, li_loop := begin_loop owner (li_loop s),
      li_asked := (if watched job_id (li_pages s) then t else li_asked s)\<rparr>)"
| Start: "li_now s \<le> t \<Longrightarrow> li_loop s = Some (About_to_build (Suc tries)) \<Longrightarrow> start_build t job_id (Suc tries) (li_pages s) = (sb, phase) \<Longrightarrow>
    live_step truth max_age job_id s (s\<lparr>li_now := t, li_pages := sb, li_loop := Some phase, li_built := t\<rparr>)"
| Published: "li_now s \<le> t \<Longrightarrow> li_loop s = Some (Building tries started) \<Longrightarrow> started \<le> r \<Longrightarrow> r \<le> t \<Longrightarrow> t - started < FORGOTTEN_KEPT \<Longrightarrow>
    build_ended t max_age job_id tries started (Built (truth r)) (li_cache s, li_pages s) = ((sc, sb), phase) \<Longrightarrow>
    live_step truth max_age job_id s (s\<lparr>li_now := t, li_cache := sc, li_pages := sb, li_loop := phase,
      li_sent := li_sent s @ (case may_send max_age (snd (keep_payload t max_age job_id started (truth r) (li_cache s))) (truth r) of
        None \<Rightarrow> [] | Some json \<Rightarrow> [(li_changed s, json)])\<rparr>)"
| Failed: "li_now s \<le> t \<Longrightarrow> li_loop s = Some (Building tries started) \<Longrightarrow> outcome \<in> {Gone, Build_failed} \<Longrightarrow>
    build_ended t max_age job_id tries started outcome (li_cache s, li_pages s) = ((sc, sb), phase) \<Longrightarrow>
    live_step truth max_age job_id s (s\<lparr>li_now := t, li_cache := sc, li_pages := sb, li_loop := phase, li_gone := (li_gone s \<or> outcome = Gone)\<rparr>)"
| Cooled: "li_now s \<le> t \<Longrightarrow> li_loop s = Some (Cooling until) \<Longrightarrow> cooled t job_id until (li_pages s) = Some (sb, phase) \<Longrightarrow>
    live_step truth max_age job_id s (s\<lparr>li_now := t, li_pages := sb, li_loop := phase\<rparr>)"
| Viewer_built: "li_now s \<le> t \<Longrightarrow> 0 \<le> started \<Longrightarrow> started \<le> r \<Longrightarrow> r \<le> t \<Longrightarrow> t - started < FORGOTTEN_KEPT \<Longrightarrow>
    live_step truth max_age job_id s (s\<lparr>li_now := t,
      li_cache := fst (keep_payload t max_age job_id started (truth r) (li_cache s))\<rparr>)"
| Viewer_failed: "li_now s \<le> t \<Longrightarrow> live_step truth max_age job_id s (s\<lparr>li_now := t, li_cache := note_failure t job_id (li_cache s)\<rparr>)"
| Viewer_in_turn: "li_now s \<le> t \<Longrightarrow>
    live_step truth max_age job_id s (s\<lparr>li_now := t, li_cache := fst (payload_in_turn t max_age asked job_id (li_cache s))\<rparr>)"
| Another_changed: "li_now s \<le> t \<Longrightarrow> other \<noteq> job_id \<Longrightarrow>
    live_step truth max_age job_id s (s\<lparr>li_now := t, li_cache := forget_payload t other (li_cache s)\<rparr>)"
| Another_built: "li_now s \<le> t \<Longrightarrow> other \<noteq> job_id \<Longrightarrow>
    live_step truth max_age job_id s (s\<lparr>li_now := t, li_cache := fst (keep_payload t max_age other started json (li_cache s))\<rparr>)"
| Opened: "li_now s \<le> t \<Longrightarrow> live_step truth max_age job_id s (s\<lparr>li_now := t, li_pages := subscribe receiver job_id (li_pages s)\<rparr>)"
| Left: "li_now s \<le> t \<Longrightarrow> live_step truth max_age job_id s (s\<lparr>li_now := t, li_pages := unsubscribe receiver job_id (li_pages s)\<rparr>)"
| Closed: "li_now s \<le> t \<Longrightarrow> live_step truth max_age job_id s (s\<lparr>li_now := t, li_pages := close_channel job_id (li_pages s)\<rparr>)"

definition live_start :: "'p live" where
  "live_start = \<lparr>li_now = 0, li_cache = \<lparr>sc_payloads = (\<lambda>_. None), sc_forgotten = (\<lambda>_. None), sc_failed = (\<lambda>_. None)\<rparr>,
     li_pages = no_channels, li_loop = None, li_changed = 0, li_asked = 0, li_built = 0, li_gone = False, li_sent = []\<rparr>"

inductive live_reachable :: "(time \<Rightarrow> 'p) \<Rightarrow> time \<Rightarrow> nat \<Rightarrow> 'p live \<Rightarrow> bool" for truth max_age job_id where
  Live_start: "live_reachable truth max_age job_id live_start"
| Live_step: "live_reachable truth max_age job_id s \<Longrightarrow> live_step truth max_age job_id s s' \<Longrightarrow> live_reachable truth max_age job_id s'"

section \<open>The cache\<close>

text \<open>A payload read between two instants.\<close>

definition read_between :: "(time \<Rightarrow> 'p) \<Rightarrow> time \<Rightarrow> time \<Rightarrow> 'p \<Rightarrow> bool" where
  "read_between truth a b json \<longleftrightarrow> (\<exists>r. a \<le> r \<and> r \<le> b \<and> json = truth r)"

lemma read_between_wider: "read_between truth a b json \<Longrightarrow> a' \<le> a \<Longrightarrow> b \<le> b' \<Longrightarrow> read_between truth a' b' json"
  unfolding read_between_def by (metis order_trans)

lemma read_at: "a \<le> r \<Longrightarrow> r \<le> b \<Longrightarrow> read_between truth a b (truth r)"
  by (auto simp: read_between_def)

definition payloads_ok :: "(time \<Rightarrow> 'p) \<Rightarrow> nat \<Rightarrow> time \<Rightarrow> time \<Rightarrow> 'p stats_cache \<Rightarrow> bool" where
  "payloads_ok truth job_id now changed sc \<longleftrightarrow> 0 \<le> changed \<and> changed \<le> now \<and>
     (\<forall>e. sc_payloads sc job_id = Some e \<longrightarrow> changed \<le> kp_started e \<and> read_between truth (kp_started e) now (kp_json e)) \<and>
     (sc_forgotten sc job_id = Some changed \<or> changed = 0 \<or> FORGOTTEN_KEPT \<le> now - changed) \<and>
     (\<forall>t. sc_forgotten sc job_id = Some t \<longrightarrow> t \<le> changed)"

lemma payloads_ok_later: "payloads_ok truth job_id now changed sc \<Longrightarrow> now \<le> now' \<Longrightarrow> payloads_ok truth job_id now' changed sc"
  unfolding payloads_ok_def using read_between_wider by fastforce

lemma retain_Some: "retain P m k = Some v \<longleftrightarrow> m k = Some v \<and> P v"
  by (auto simp: retain_def split: option.splits)

lemma forget_payload_ok: "payloads_ok truth job_id now changed sc \<Longrightarrow> now \<le> t \<Longrightarrow> payloads_ok truth job_id t t (forget_payload t job_id sc)"
  by (auto simp: payloads_ok_def forget_payload_def)

lemma forget_other_ok:
  assumes "payloads_ok truth job_id now changed sc" "now \<le> t" "other \<noteq> job_id"
  shows "payloads_ok truth job_id t changed (forget_payload t other sc)"
proof -
  have "payloads_ok truth job_id t changed sc" using payloads_ok_later assms(1,2) by blast
  then show ?thesis using assms(3) unfolding payloads_ok_def forget_payload_def
    by (auto simp: retain_def split: option.splits)
qed

text \<open>A payload that is kept was started after the last change; so was one that may be sent.\<close>

lemma kept_is_current:
  assumes ok: "payloads_ok truth job_id now changed sc" and "now \<le> t" "0 \<le> started" "t - started < FORGOTTEN_KEPT" "0 < max_age"
    and kept: "snd (keep_payload t max_age job_id started json sc)"
  shows "changed \<le> started"
proof -
  have "\<not> (case sc_forgotten sc job_id of Some t \<Rightarrow> started < t | None \<Rightarrow> False)"
    using kept assms(5) by (auto simp: keep_payload_def Let_def)
  then show ?thesis using ok assms(2-4) unfolding payloads_ok_def by (auto split: option.splits)
qed

lemma keep_payload_ok:
  assumes ok: "payloads_ok truth job_id now changed sc" and t: "now \<le> t" and s: "0 \<le> started" "started \<le> r" "r \<le> t"
    and quick: "t - started < FORGOTTEN_KEPT"
  shows "payloads_ok truth job_id t changed (fst (keep_payload t max_age job_id started (truth r) sc))"
proof (cases "max_age = 0")
  case True
  then show ?thesis using payloads_ok_later [OF ok t] by (simp add: keep_payload_def)
next
  case False
  have later: "payloads_ok truth job_id t changed sc" by (rule payloads_ok_later [OF ok t])
  have young: "retain P (sc_payloads sc) job_id = Some e \<Longrightarrow> sc_payloads sc job_id = Some e" for P e
    by (simp add: retain_Some)
  show ?thesis
  proof (cases "snd (keep_payload t max_age job_id started (truth r) sc)")
    case True
    have "\<not> (case sc_forgotten sc job_id of Some t \<Rightarrow> started < t | None \<Rightarrow> False)"
      using True False by (auto simp: keep_payload_def Let_def)
    then have "changed \<le> started" using ok t s(1) quick unfolding payloads_ok_def by (auto split: option.splits)
    then show ?thesis using later True False read_at [OF s(2,3), of truth] unfolding payloads_ok_def
      by (auto simp: keep_payload_def Let_def)
  next
    case no: False
    then show ?thesis using later young False unfolding payloads_ok_def
      by (auto simp: keep_payload_def Let_def)
  qed
qed

lemma keep_other_ok:
  assumes "payloads_ok truth job_id now changed sc" "now \<le> t" "other \<noteq> job_id"
  shows "payloads_ok truth job_id t changed (fst (keep_payload t max_age other started json sc))"
proof -
  have "payloads_ok truth job_id t changed sc" using payloads_ok_later assms(1,2) by blast
  then show ?thesis using assms(3) unfolding payloads_ok_def by (auto simp: keep_payload_def Let_def retain_Some)
qed

lemma payload_in_turn_cache:
  "sc_payloads (fst (payload_in_turn t max_age asked job_id sc)) = sc_payloads sc \<and>
   sc_forgotten (fst (payload_in_turn t max_age asked job_id sc)) = sc_forgotten sc"
  by (auto simp: payload_in_turn_def failed_since_def Let_def split: option.splits bool.splits)

lemma payloads_ok_cong:
  "sc_payloads sc' = sc_payloads sc \<Longrightarrow> sc_forgotten sc' = sc_forgotten sc \<Longrightarrow>
    payloads_ok truth job_id now changed sc' = payloads_ok truth job_id now changed sc"
  by (simp add: payloads_ok_def)

section \<open>The pushes\<close>

lemma pushes_kept [simp]:
  "sb_pushes (subscribe receiver job_id sb) = sb_pushes sb" "sb_pushes (unsubscribe receiver job_id sb) = sb_pushes sb"
  "sb_pushes (close_channel job_id sb) = sb_pushes sb" "sb_pushes (fst (has_subscribers job_id sb)) = sb_pushes sb"
  "sb_pushes (publish job_id json sb) = sb_pushes sb"
  by (simp_all add: subscribe_def unsubscribe_def close_channel_def has_subscribers_def publish_def split: option.split)

lemma ask_for_push_pushes:
  "sb_pushes (fst (ask_for_push job_id urgent sb)) job_id =
     Some (case sb_pushes sb job_id of None \<Rightarrow> \<lparr>pu_pending = False, pu_urgent = False\<rparr>
       | Some p \<Rightarrow> \<lparr>pu_pending = True, pu_urgent = pu_urgent p \<or> urgent\<rparr>) \<and>
   snd (ask_for_push job_id urgent sb) = (sb_pushes sb job_id = None)"
  by (auto simp: ask_for_push_def split: option.split)

lemma take_urgent_pushes:
  "sb_pushes (fst (take_urgent job_id sb)) job_id = map_option (\<lambda>p. p\<lparr>pu_urgent := False\<rparr>) (sb_pushes sb job_id)"
  by (auto simp: take_urgent_def split: option.split)

lemma end_push_pushes:
  "snd (end_push job_id sb) = (case sb_pushes sb job_id of None \<Rightarrow> False | Some p \<Rightarrow> pu_pending p)"
  "sb_pushes (fst (end_push job_id sb)) job_id =
     (case sb_pushes sb job_id of None \<Rightarrow> None | Some p \<Rightarrow> if pu_pending p then Some (p\<lparr>pu_pending := False\<rparr>) else None)"
  by (auto simp: end_push_def abandon_push_def split: option.split)

definition phase_ok :: "time \<Rightarrow> loop_phase option \<Rightarrow> bool" where
  "phase_ok now phase = (case phase of None \<Rightarrow> True | Some (About_to_build k) \<Rightarrow> 0 < k
     | Some (Building k started) \<Rightarrow> 0 \<le> started \<and> started \<le> now | Some (Cooling t) \<Rightarrow> True)"

text \<open>An ask that no build has followed yet is waited for: by the loop's next build or by another round of it.\<close>

definition awaited :: "nat \<Rightarrow> 'p broadcaster \<Rightarrow> loop_phase option \<Rightarrow> bool" where
  "awaited job_id sb phase \<longleftrightarrow> (case phase of Some (About_to_build k) \<Rightarrow> True | _ \<Rightarrow> False) \<or>
     (case sb_pushes sb job_id of Some p \<Rightarrow> pu_pending p | None \<Rightarrow> False)"

definition live_ok :: "(time \<Rightarrow> 'p) \<Rightarrow> nat \<Rightarrow> 'p live \<Rightarrow> bool" where
  "live_ok truth job_id s \<longleftrightarrow> 0 \<le> li_now s \<and> payloads_ok truth job_id (li_now s) (li_changed s) (li_cache s) \<and>
     (li_loop s = None \<longleftrightarrow> sb_pushes (li_pages s) job_id = None) \<and> phase_ok (li_now s) (li_loop s) \<and>
     (li_gone s \<or> li_asked s \<le> li_built s \<or> awaited job_id (li_pages s) (li_loop s)) \<and> li_asked s \<le> li_now s \<and>
     list_all (\<lambda>(t, json). read_between truth t (li_now s) json) (li_sent s)"

lemma sent_later:
  "list_all (\<lambda>(t, json). read_between truth t now json) sent \<Longrightarrow> now \<le> now' \<Longrightarrow>
    list_all (\<lambda>(t, json). read_between truth t now' json) sent"
  unfolding list_all_iff by (auto intro: read_between_wider)

lemma phase_later: "phase_ok now phase \<Longrightarrow> now \<le> t \<Longrightarrow> phase_ok t phase"
  by (auto simp: phase_ok_def split: option.splits loop_phase.splits)

text \<open>Asking: by a submission or by a change.\<close>

lemma asked_ok:
  assumes ask: "ask_for_push job_id urgent sb = (sb', owner)" and loop: "phase = None \<longleftrightarrow> sb_pushes sb job_id = None"
    and phase: "phase_ok t phase"
  shows "(begin_loop owner phase = None \<longleftrightarrow> sb_pushes sb' job_id = None) \<and> phase_ok t (begin_loop owner phase) \<and>
    awaited job_id sb' (begin_loop owner phase)"
  using ask_for_push_pushes [of job_id urgent sb] loop phase
  by (auto simp: ask begin_loop_def start_loop_def phase_ok_def awaited_def split: option.splits)

lemma watched_ask:
  "has_subscribers job_id sb = (sb', b) \<Longrightarrow> watched job_id sb = b \<and> sb_pushes sb' = sb_pushes sb"
  using pushes_kept(4) [of job_id sb] by (simp add: watched_def)

text \<open>A step of the cache alone, and one of the channels alone.\<close>

lemma cache_step_ok:
  "live_ok truth job_id s \<Longrightarrow> li_now s \<le> t \<Longrightarrow> payloads_ok truth job_id t (li_changed s) sc \<Longrightarrow>
    live_ok truth job_id (s\<lparr>li_now := t, li_cache := sc\<rparr>)"
  using sent_later [of truth "li_now s" "li_sent s" t] phase_later [of "li_now s" "li_loop s" t] by (simp add: live_ok_def)

lemma pages_step_ok:
  "live_ok truth job_id s \<Longrightarrow> li_now s \<le> t \<Longrightarrow> sb_pushes sb = sb_pushes (li_pages s) \<Longrightarrow>
    live_ok truth job_id (s\<lparr>li_now := t, li_pages := sb\<rparr>)"
  using sent_later [of truth "li_now s" "li_sent s" t] phase_later [of "li_now s" "li_loop s" t]
    payloads_ok_later [of truth job_id "li_now s" "li_changed s" "li_cache s" t] by (simp add: live_ok_def awaited_def)

lemma live_step_ok:
  assumes "live_step truth max_age job_id s s'" "live_ok truth job_id s" "0 < max_age"
  shows "live_ok truth job_id s'"
  using assms
proof (induction rule: live_step.induct)
  case (Change s t sc sb owner)
  have cache: "payloads_ok truth job_id t t (forget_payload t job_id (li_cache s))"
    using Change(1,3) forget_payload_ok unfolding live_ok_def by blast
  obtain sb1 b where sub: "has_subscribers job_id (li_pages s) = (sb1, b)" by fastforce
  note w = watched_ask [OF sub]
  show ?case
  proof (cases b)
    case True
    then obtain sb2 where ask: "ask_for_push job_id True sb1 = (sb2, owner)" and eqs: "sb = sb2" "sc = forget_payload t job_id (li_cache s)"
      using Change(2) sub by (auto simp: push_after_change_def begin_urgent_push_def split: prod.splits)
    have "li_loop s = None \<longleftrightarrow> sb_pushes sb1 job_id = None" "phase_ok t (li_loop s)"
      using Change(1,3) w phase_later unfolding live_ok_def by auto
    from asked_ok [OF ask this] show ?thesis using Change(1,3) cache w True sent_later eqs
      unfolding live_ok_def by (auto intro: order_trans)
  next
    case False
    then have eqs: "sb = sb1" "sc = forget_payload t job_id (li_cache s)" "\<not> owner"
      using Change(2) sub by (auto simp: push_after_change_def)
    then show ?thesis using Change(1,3) cache w False sent_later phase_later
      unfolding live_ok_def by (auto simp: begin_loop_def awaited_def)
  qed
next
  case (Submission s t sb owner)
  have cache: "payloads_ok truth job_id t (li_changed s) (li_cache s)"
    using Submission(1,3) payloads_ok_later unfolding live_ok_def by blast
  obtain sb1 b where sub: "has_subscribers job_id (li_pages s) = (sb1, b)" by fastforce
  note w = watched_ask [OF sub]
  show ?case
  proof (cases b)
    case True
    then have ask: "ask_for_push job_id False sb1 = (sb, owner)"
      using Submission(2) sub by (simp add: push_after_submission_def begin_push_def)
    have "li_loop s = None \<longleftrightarrow> sb_pushes sb1 job_id = None" "phase_ok t (li_loop s)"
      using Submission(1,3) w phase_later unfolding live_ok_def by auto
    from asked_ok [OF ask this] show ?thesis using Submission(1,3) cache w True sent_later
      unfolding live_ok_def by (auto intro: order_trans)
  next
    case False
    then have eqs: "sb = sb1" "\<not> owner" using Submission(2) sub by (auto simp: push_after_submission_def)
    then show ?thesis using Submission(1,3) cache w False sent_later phase_later
      unfolding live_ok_def by (auto simp: begin_loop_def awaited_def)
  qed
next
  case (Start s t tries sb phase)
  then have eqs: "sb = fst (take_urgent job_id (li_pages s))" "phase = Building tries t" by (auto simp: start_build_def)
  have "payloads_ok truth job_id t (li_changed s) (li_cache s)"
    using Start(1,4) payloads_ok_later unfolding live_ok_def by blast
  then show ?case using Start(1,2,4) sent_later unfolding live_ok_def eqs
    by (auto simp: phase_ok_def take_urgent_pushes intro: order_trans)
next
  case (Published s t tries started r sc sb phase)
  let ?keep = "keep_payload t max_age job_id started (truth r) (li_cache s)"
  have ok: "payloads_ok truth job_id (li_now s) (li_changed s) (li_cache s)" and started: "0 \<le> started"
    using Published(2,7) unfolding live_ok_def by (auto simp: phase_ok_def)
  have cache: "payloads_ok truth job_id t (li_changed s) (fst ?keep)"
    by (rule keep_payload_ok [OF ok Published(1) started Published(3,4,5)])
  have sc: "sc = fst ?keep" using Published(6)
    by (auto simp: build_ended_def split: prod.splits option.splits)
  have pushes: "sb_pushes sb job_id = sb_pushes (li_pages s) job_id" using Published(6)
    by (auto simp: build_ended_def split: prod.splits option.splits)
  have phase: "phase \<noteq> None" "phase_ok t phase" using Published(6)
    by (auto simp: build_ended_def cool_down_def phase_ok_def split: prod.splits option.splits if_splits)
  have new: "read_between truth (li_changed s) t (truth r)" if "snd ?keep"
  proof (rule read_at [OF _ Published(4)])
    show "li_changed s \<le> r"
      using kept_is_current [OF ok Published(1) started Published(5) Published(8) that] Published(3) by simp
  qed
  have "awaited job_id (li_pages s) (li_loop s) \<Longrightarrow> awaited job_id sb phase"
    using Published(2) pushes by (auto simp: awaited_def split: option.splits)
  then show ?case using Published(1,2,7,8) cache sc pushes phase new sent_later unfolding live_ok_def
    by (auto simp: may_send_def split: option.splits intro: order_trans)
next
  case (Failed s t tries started outcome sc sb phase)
  have cache: "payloads_ok truth job_id t (li_changed s) (li_cache s)"
    using Failed(1,5) payloads_ok_later unfolding live_ok_def by blast
  show ?case
  proof (cases "outcome = Gone")
    case True
    then have "sc = li_cache s" "sb_pushes sb job_id = None" "phase = None" using Failed(4)
      by (auto simp: build_ended_def abandon_push_def)
    then show ?thesis using Failed(1,5) True cache sent_later unfolding live_ok_def
      by (auto simp: phase_ok_def intro: order_trans)
  next
    case False
    then have "sc = li_cache s" "sb = li_pages s" "phase = Some (cool_down t max_age)" using Failed(3,4)
      by (auto simp: build_ended_def)
    then show ?thesis using Failed(1,2,5) cache sent_later unfolding live_ok_def
      by (auto simp: phase_ok_def cool_down_def awaited_def intro: order_trans)
  qed
next
  case (Cooled s t until sb phase)
  let ?woken = "if until \<le> t then li_pages s else fst (take_urgent job_id (li_pages s))"
  have cache: "payloads_ok truth job_id t (li_changed s) (li_cache s)"
    using Cooled(1,4) payloads_ok_later unfolding live_ok_def by blast
  have eqs: "sb = fst (end_push job_id ?woken)" "phase = (if snd (end_push job_id ?woken) then Some start_loop else None)"
    using Cooled(3) by (auto simp: cooled_def Let_def split: if_splits prod.splits)
  have same: "(case sb_pushes ?woken job_id of Some p \<Rightarrow> pu_pending p | None \<Rightarrow> False) =
      (case sb_pushes (li_pages s) job_id of Some p \<Rightarrow> pu_pending p | None \<Rightarrow> False)"
    by (auto simp: take_urgent_pushes split: option.split)
  have "phase = None \<longleftrightarrow> sb_pushes sb job_id = None"
    unfolding eqs end_push_pushes by (auto split: option.splits)
  moreover have "awaited job_id (li_pages s) (li_loop s) \<Longrightarrow> awaited job_id sb phase"
    using Cooled(2) same unfolding eqs end_push_pushes
    by (auto simp: awaited_def start_loop_def split: option.splits)
  moreover have "phase_ok t phase" by (simp add: eqs phase_ok_def start_loop_def)
  ultimately show ?case using Cooled(1,4) cache sent_later unfolding live_ok_def
    by (auto intro: order_trans)
next
  case (Viewer_built s t started r)
  then show ?case by (intro cache_step_ok keep_payload_ok [of truth job_id "li_now s"]) (simp_all add: live_ok_def)
next
  case (Viewer_failed s t)
  then have "payloads_ok truth job_id t (li_changed s) (li_cache s)" using payloads_ok_later unfolding live_ok_def by blast
  then have "payloads_ok truth job_id t (li_changed s) (note_failure t job_id (li_cache s))"
    by (subst payloads_ok_cong [of _ "li_cache s"]) (simp_all add: note_failure_def)
  with Viewer_failed show ?case by (intro cache_step_ok)
next
  case (Viewer_in_turn s t asked)
  then have "payloads_ok truth job_id t (li_changed s) (li_cache s)" using payloads_ok_later unfolding live_ok_def by blast
  then have "payloads_ok truth job_id t (li_changed s) (fst (payload_in_turn t max_age asked job_id (li_cache s)))"
    by (subst payloads_ok_cong [of _ "li_cache s"]) (simp_all add: payload_in_turn_cache)
  with Viewer_in_turn show ?case by (intro cache_step_ok)
next
  case (Another_changed s t other)
  then show ?case by (intro cache_step_ok forget_other_ok [of truth job_id "li_now s"]) (simp_all add: live_ok_def)
next
  case (Another_built s t other started json)
  then show ?case by (intro cache_step_ok keep_other_ok [of truth job_id "li_now s"]) (simp_all add: live_ok_def)
qed (simp_all add: pages_step_ok)

section \<open>What the pages are shown\<close>

lemma live_reachable_ok:
  assumes "live_reachable truth max_age job_id s" "0 < max_age"
  shows "live_ok truth job_id s"
  using assms
proof (induction rule: live_reachable.induct)
  case Live_start
  show ?case by (simp add: live_ok_def live_start_def payloads_ok_def phase_ok_def no_channels_def)
next
  case (Live_step s s')
  then show ?case using live_step_ok by blast
qed

lemma answer_is_current:
  assumes ok: "live_ok truth job_id s" and asked: "asked \<le> li_now s"
    and answer: "payload_asked (li_now s) max_age job_id (li_cache s) = Answer (Inr json) \<or>
      snd (payload_in_turn (li_now s) max_age asked job_id (li_cache s)) = Answer (Inr json)"
  shows "read_between truth (max (li_changed s) (asked - max_age)) (li_now s) json"
proof -
  from answer obtain e where e: "sc_payloads (li_cache s) job_id = Some e" "kp_json e = json" "asked - max_age \<le> kp_started e"
    using asked by (auto simp: payload_asked_def payload_in_turn_def cached_payload_def failed_since_def Let_def
      split: option.splits if_splits bool.splits)
  then have "li_changed s \<le> kp_started e" "read_between truth (kp_started e) (li_now s) json"
    using ok by (auto simp: live_ok_def payloads_ok_def)
  then show ?thesis using e(3) by (auto elim: read_between_wider)
qed


text \<open>C39: no ask for a push is lost.  When the loop of a job that is still there has ended, its last build was started
  after the last ask, whether a submission's or a change's; while asks are coalesced, only one loop runs.\<close>

theorem no_ask_is_lost:
  assumes "live_reachable truth max_age job_id s" "0 < max_age" "li_loop s = None" "\<not> li_gone s"
  shows "li_asked s \<le> li_built s \<and> sb_pushes (li_pages s) job_id = None"
  using live_reachable_ok [OF assms(1,2)] assms(3,4) by (auto simp: live_ok_def awaited_def)

text \<open>A page opened, a submission, a build, its publication and the end of the loop.\<close>

definition stats_at :: "time \<Rightarrow> nat" where
  "stats_at t = nat t"

definition after_one_push :: "nat live" where
  "after_one_push = \<lparr>li_now = 10000004,
     li_cache = \<lparr>sc_payloads = (\<lambda>_. None)(7 \<mapsto> \<lparr>kp_started = 3, kp_json = 3\<rparr>), sc_forgotten = (\<lambda>_. None), sc_failed = (\<lambda>_. None)\<rparr>,
     li_pages = \<lparr>sb_channels = (\<lambda>_. None)(7 \<mapsto> [(1, [3])]), sb_pushes = (\<lambda>_. None)\<rparr>, li_loop = None, li_changed = 0,
     li_asked = 2, li_built = 3, li_gone = False, li_sent = [(0, 3)]\<rparr>"

lemma after_one_push_reached: "live_reachable stats_at 10000000 7 after_one_push"
proof -
  let ?cache = "\<lparr>sc_payloads = (\<lambda>_. None), sc_forgotten = (\<lambda>_. None), sc_failed = (\<lambda>_. None)\<rparr> :: nat stats_cache"
  let ?kept = "?cache\<lparr>sc_payloads := (\<lambda>_. None)(7 \<mapsto> \<lparr>kp_started = 3, kp_json = 3\<rparr>)\<rparr>"
  let ?opened = "\<lparr>sb_channels = (\<lambda>_. None)(7 \<mapsto> [(1, [])]), sb_pushes = (\<lambda>_. None)\<rparr> :: nat broadcaster"
  let ?asked = "?opened\<lparr>sb_pushes := (\<lambda>_. None)(7 \<mapsto> \<lparr>pu_pending = False, pu_urgent = False\<rparr>)\<rparr>"
  let ?sent = "?asked\<lparr>sb_channels := (\<lambda>_. None)(7 \<mapsto> [(1, [3])])\<rparr>"
  let ?s = "\<lambda>now cache pages phase asked built sent. \<lparr>li_now = now, li_cache = cache, li_pages = pages, li_loop = phase,
     li_changed = 0, li_asked = asked, li_built = built, li_gone = False, li_sent = sent\<rparr> :: nat live"
  note step = live_reachable.Live_step
  have 1: "live_reachable stats_at 10000000 7 (?s 1 ?cache ?opened None 0 0 [])"
    using step [OF live_reachable.Live_start Opened [where s = live_start and t = 1 and receiver = 1]]
    by (simp add: live_start_def no_channels_def subscribe_def)
  have 2: "live_reachable stats_at 10000000 7 (?s 2 ?cache ?asked (Some (About_to_build 3)) 2 0 [])"
    using step [OF 1 Submission [where s = "?s 1 ?cache ?opened None 0 0 []" and t = 2 and sb = ?asked and owner = True]]
    by (simp add: push_after_submission_def has_subscribers_def begin_push_def ask_for_push_def begin_loop_def start_loop_def watched_def)
  have 3: "live_reachable stats_at 10000000 7 (?s 3 ?cache ?asked (Some (Building 2 3)) 2 3 [])"
    using step [OF 2 Start [where s = "?s 2 ?cache ?asked (Some (About_to_build 3)) 2 0 []" and t = 3 and tries = 2
      and sb = ?asked and phase = "Building 2 3"]]
    by (simp add: start_build_def take_urgent_def)
  have 4: "live_reachable stats_at 10000000 7 (?s 4 ?kept ?sent (Some (Cooling 10000004)) 2 3 [(0, 3)])"
    using step [OF 3 Published [where s = "?s 3 ?cache ?asked (Some (Building 2 3)) 2 3 []" and t = 4 and r = 3 and tries = 2
      and started = 3 and sc = ?kept and sb = ?sent and phase = "Some (Cooling 10000004)"]]
    by (simp add: build_ended_def keep_payload_def may_send_def publish_def cool_down_def stats_at_def FORGOTTEN_KEPT_def
      MIN_STATS_PUSH_INTERVAL_def CHANNEL_CAPACITY_def retain_def Let_def)
  show ?thesis
    using step [OF 4 Cooled [where s = "?s 4 ?kept ?sent (Some (Cooling 10000004)) 2 3 [(0, 3)]" and t = 10000004 and
      until = 10000004 and sb = "?sent\<lparr>sb_pushes := (\<lambda>_. None)\<rparr>" and phase = None]]
    by (simp add: cooled_def end_push_def abandon_push_def after_one_push_def Let_def)
qed


theorem no_ask_is_lost_witness: "li_asked after_one_push \<le> li_built after_one_push"
proof -
  have "li_loop after_one_push = None" "\<not> li_gone after_one_push" by (simp_all add: after_one_push_def)
  from no_ask_is_lost [OF after_one_push_reached _ this] show ?thesis by simp
qed

section \<open>The streams open\<close>

inductive streams_reachable :: "'a list \<Rightarrow> 'a live_streams \<Rightarrow> bool" where
  None_open: "streams_reachable [] no_streams"
| Admitted: "streams_reachable opens ls \<Longrightarrow> stream_permit a MAX_LIVE_STREAMS_PER_ADDRESS ls = (ls', ok) \<Longrightarrow> streams_reachable (a # opens) ls'"
| Refused: "streams_reachable opens ls \<Longrightarrow> stream_permit a MAX_LIVE_STREAMS_PER_ADDRESS ls = (ls', Inl e) \<Longrightarrow> streams_reachable opens ls'"
| Ended: "streams_reachable opens ls \<Longrightarrow> a \<in> set opens \<Longrightarrow> streams_reachable (remove1 a opens) (end_stream a ls)"

definition places_ok :: "'a list \<Rightarrow> 'a live_streams \<Rightarrow> bool" where
  "places_ok opens ls \<longleftrightarrow> (\<forall>a. ls_by_address ls a = (if count_list opens a = 0 then None else Some (count_list opens a)) \<and>
      count_list opens a \<le> MAX_LIVE_STREAMS_PER_ADDRESS) \<and> ls_left ls + length opens = MAX_LIVE_STREAMS"

lemma stream_permit_cases:
  assumes "places_ok opens ls"
  shows "stream_permit a MAX_LIVE_STREAMS_PER_ADDRESS ls =
    (if count_list opens a \<ge> MAX_LIVE_STREAMS_PER_ADDRESS then (ls, Inl (Unavailable ''too many live pages are open from this address''))
     else if length opens = MAX_LIVE_STREAMS then (ls, Inl (Unavailable ''too many live pages are open''))
     else (ls\<lparr>ls_by_address := (ls_by_address ls)(a \<mapsto> Suc (count_list opens a)), ls_left := ls_left ls - 1\<rparr>, ok))"
proof -
  have n: "(case ls_by_address ls a of None \<Rightarrow> 0 | Some n \<Rightarrow> n) = count_list opens a" using assms by (simp add: places_ok_def)
  have left: "ls_left ls = 0 \<longleftrightarrow> length opens = MAX_LIVE_STREAMS" using assms by (auto simp: places_ok_def)
  have same: "(ls_by_address ls)(a \<mapsto> count_list opens a) = ls_by_address ls" if "0 < count_list opens a"
    using that assms by (auto simp: places_ok_def)
  have undo: "drop_place a ((ls_by_address ls)(a \<mapsto> Suc (count_list opens a))) = ls_by_address ls"
    using assms by (auto simp: drop_place_def places_ok_def)
  show ?thesis
    using same undo left by (simp add: stream_permit_def take_place_def n Let_def MAX_LIVE_STREAMS_PER_ADDRESS_def)
qed

lemma streams_reachable_ok: "streams_reachable opens ls \<Longrightarrow> places_ok opens ls"
proof (induction rule: streams_reachable.induct)
  case None_open
  show ?case by (simp add: places_ok_def no_streams_def)
next
  case (Admitted opens ls a ls')
  then have room: "count_list opens a < MAX_LIVE_STREAMS_PER_ADDRESS" "length opens \<noteq> MAX_LIVE_STREAMS"
    and ls': "ls' = ls\<lparr>ls_by_address := (ls_by_address ls)(a \<mapsto> Suc (count_list opens a)), ls_left := ls_left ls - 1\<rparr>"
    unfolding stream_permit_cases [OF Admitted(3)] by (auto split: if_splits)
  have "ls_left ls + length opens = MAX_LIVE_STREAMS" using Admitted(3) by (simp add: places_ok_def)
  then show ?case using Admitted(3) room unfolding ls' by (simp add: places_ok_def)
next
  case (Refused opens ls a ls' e)
  then show ?case unfolding stream_permit_cases [OF Refused(3)] by (auto split: if_splits)
next
  case (Ended opens ls a)
  have n: "count_list opens a \<noteq> 0" using Ended(2) by (simp add: count_list_0_iff)
  have c: "count_list (remove1 a opens) b = (if b = a then count_list opens b - 1 else count_list opens b)" for b
    by (induction opens) auto
  have "length opens \<noteq> 0" using Ended(2) by auto
  then have "Suc (length (remove1 a opens)) = length opens" using Ended(2) by (simp add: length_remove1)
  then show ?case using Ended(3) n unfolding places_ok_def c by (auto simp: end_stream_def drop_place_def intro: order_trans [OF diff_le_self])
qed

text \<open>The places among the live streams are those of the streams open, whatever opens, is refused or ends: the
  counts by address and the places left add up, no address holds more than its share, and a page is let in exactly
  when both its address and the server have a place.\<close>

theorem live_streams_are_counted:
  assumes "streams_reachable opens ls"
  shows "places_ok opens ls \<and> length opens \<le> MAX_LIVE_STREAMS \<and>
    (snd (stream_permit a MAX_LIVE_STREAMS_PER_ADDRESS ls) = ok) =
      (count_list opens a < MAX_LIVE_STREAMS_PER_ADDRESS \<and> length opens < MAX_LIVE_STREAMS)"
proof -
  have p: "places_ok opens ls" by (rule streams_reachable_ok [OF assms])
  then have "length opens \<le> MAX_LIVE_STREAMS" by (auto simp: places_ok_def)
  then show ?thesis using p by (auto simp: stream_permit_cases [OF p])
qed

theorem live_streams_are_counted_witness:
  "snd (stream_permit ''b'' MAX_LIVE_STREAMS_PER_ADDRESS (fst (stream_permit ''a'' MAX_LIVE_STREAMS_PER_ADDRESS no_streams))) = ok"
proof -
  have one: "stream_permit ''a'' MAX_LIVE_STREAMS_PER_ADDRESS no_streams =
      (fst (stream_permit ''a'' MAX_LIVE_STREAMS_PER_ADDRESS no_streams), ok)"
    by (simp add: stream_permit_def take_place_def no_streams_def MAX_LIVE_STREAMS_PER_ADDRESS_def MAX_LIVE_STREAMS_def)
  from live_streams_are_counted [OF Admitted [OF None_open one], of "''b''"] show ?thesis
    by (simp add: MAX_LIVE_STREAMS_PER_ADDRESS_def MAX_LIVE_STREAMS_def)
qed

end
