(* ===== verification/Turns.thy ===== *)
theory Turns
  imports Job_Model Text
begin

text \<open>
  What bounds the memory callers can hold: the turns of the password threads (\<open>auth/api_key.rs\<close>) and of the password
  scores (\<open>routes/auth.rs\<close>), and the reservations and deadlines of request bodies (\<open>extract.rs\<close>).
\<close>

section \<open>Turns\<close>

definition ARGON2_CONCURRENCY :: nat where "ARGON2_CONCURRENCY = 4"
definition ARGON2_QUEUE_WAIT :: time where "ARGON2_QUEUE_WAIT = 10 * 1000000"
definition SCORING_CONCURRENCY :: nat where "SCORING_CONCURRENCY = 2"
definition SCORING_QUEUE_WAIT :: time where "SCORING_QUEUE_WAIT = 10 * 1000000"

text \<open>The turns free, the requests waiting for one and since when, the jobs sent with their turn, the jobs on a thread,
  the requests whose caller has gone, and what the others were told.\<close>

record 'v turns =
  pt_free :: nat
  pt_waiting :: "(nat \<times> time) list"
  pt_queued :: "nat list"
  pt_running :: "nat list"
  pt_gone :: "nat list"
  pt_told :: "(nat \<times> 'v app_result) list"

definition all_free :: "nat \<Rightarrow> 'v turns" where
  "all_free n = \<lparr>pt_free = n, pt_waiting = [], pt_queued = [], pt_running = [], pt_gone = [], pt_told = []\<rparr>"

text \<open>A turn given back goes to the request that has waited longest.\<close>

definition turn_back :: "'v turns \<Rightarrow> 'v turns" where
  "turn_back st = (case pt_waiting st of
     [] \<Rightarrow> st\<lparr>pt_free := Suc (pt_free st)\<rparr>
   | (r, since) # rest \<Rightarrow> st\<lparr>pt_waiting := rest, pt_queued := pt_queued st @ [r]\<rparr>)"

definition ask_turn :: "time \<Rightarrow> nat \<Rightarrow> 'v turns \<Rightarrow> 'v turns" where
  "ask_turn now r st =
     (if 0 < pt_free st \<and> pt_waiting st = [] then st\<lparr>pt_free := pt_free st - 1, pt_queued := pt_queued st @ [r]\<rparr>
      else st\<lparr>pt_waiting := pt_waiting st @ [(r, now)]\<rparr>)"

definition busy_passwords :: app_error where
  "busy_passwords = Unavailable ''the server is busy checking passwords; try again in a few seconds''"

definition turn_timed_out :: "time \<Rightarrow> time \<Rightarrow> nat \<Rightarrow> 'v turns \<Rightarrow> 'v turns" where
  "turn_timed_out wait now r st =
     (if list_ex (\<lambda>(s, since). s = r \<and> wait \<le> now - since) (pt_waiting st)
      then st\<lparr>pt_waiting := filter (\<lambda>(s, _). s \<noteq> r) (pt_waiting st), pt_told := pt_told st @ [(r, Inl busy_passwords)]\<rparr>
      else st)"

text \<open>A caller that hangs up: out of the queue for a turn, or known to have gone when its job is reached.\<close>

definition hang_up :: "nat \<Rightarrow> 'v turns \<Rightarrow> 'v turns" where
  "hang_up r st = st\<lparr>pt_waiting := filter (\<lambda>(s, _). s \<noteq> r) (pt_waiting st),
     pt_gone := (if r \<in> set (pt_queued st) \<union> set (pt_running st) then r # pt_gone st else pt_gone st)\<rparr>"

text \<open>An idle thread takes the next job; one whose requester has gone is skipped.\<close>

definition take_job :: "nat \<Rightarrow> 'v turns \<Rightarrow> 'v turns" where
  "take_job threads st = (case pt_queued st of
     [] \<Rightarrow> st
   | r # rest \<Rightarrow>
       if threads \<le> length (pt_running st) then st
       else if r \<in> set (pt_gone st) then turn_back (st\<lparr>pt_queued := rest\<rparr>)
       else st\<lparr>pt_queued := rest, pt_running := pt_running st @ [r]\<rparr>)"

text \<open>The run ends: with a value, or by a panic.\<close>

definition job_done :: "nat \<Rightarrow> 'v option \<Rightarrow> 'v turns \<Rightarrow> 'v turns" where
  "job_done r outcome st =
     (if r \<notin> set (pt_running st) then st
      else turn_back (st\<lparr>pt_running := remove1 r (pt_running st),
        pt_told := (if r \<in> set (pt_gone st) then pt_told st
          else pt_told st @ [(r, case outcome of Some v \<Rightarrow> Inr v | None \<Rightarrow> Inl (Internal ''hashing a password did not finish''))])\<rparr>))"

text \<open>What the callers make of it.\<close>

definition hash_outcome :: "'v app_result app_result \<Rightarrow> 'v app_result" where
  "hash_outcome r = and_then r (\<lambda>hashed. hashed)"

fun is_unavailable :: "app_error \<Rightarrow> bool" where
  "is_unavailable (Unavailable _) = True"
| "is_unavailable _ = False"

definition verify_outcome :: "bool app_result \<Rightarrow> bool app_result" where
  "verify_outcome r = (case r of Inr verified \<Rightarrow> Inr verified | Inl e \<Rightarrow> if is_unavailable e then Inl e else Inr False)"

section \<open>Keys and codes\<close>

definition hex_digit :: "nat \<Rightarrow> uchar" where
  "hex_digit d = (if d < 10 then 48 + d else 87 + d)"

definition hex_of :: "nat list \<Rightarrow> ustr" where
  "hex_of bytes = concat (map (\<lambda>b. [hex_digit (b div 16), hex_digit (b mod 16)]) bytes)"

definition generate_raw_key :: "nat list \<Rightarrow> ustr" where
  "generate_raw_key bytes = lit ''bt_'' @ hex_of bytes"

definition generate_code :: "nat list \<Rightarrow> ustr" where
  "generate_code bytes = hex_of bytes"

section \<open>Request bodies\<close>

definition MAX_RESULT_BYTES :: nat where "MAX_RESULT_BYTES = 64 * 1024 * 1024"
definition LARGE_BODY_BYTES :: nat where "LARGE_BODY_BYTES = 1024 * 1024"
definition SMALL_BODY_DEADLINE :: time where "SMALL_BODY_DEADLINE = 30 * 1000000"
definition LARGE_BODY_SHARE_KIB :: nat where "LARGE_BODY_SHARE_KIB = MAX_RESULT_BYTES div 1024"
definition LARGE_BODY_MIN_RATE :: nat where "LARGE_BODY_MIN_RATE = 64 * 1024"
definition BODY_GRACE :: time where "BODY_GRACE = 30 * 1000000"
definition BODY_STALL :: time where "BODY_STALL = 30 * 1000000"

record 'w large_bodies =
  lb_kib :: nat
  lb_owners :: "'w \<rightharpoonup> nat"

definition LARGE_BODIES :: "'w large_bodies" where
  "LARGE_BODIES = \<lparr>lb_kib = 3 * MAX_RESULT_BYTES div 1024, lb_owners = (\<lambda>_. None)\<rparr>"

definition held_by :: "'w large_bodies \<Rightarrow> 'w \<Rightarrow> nat" where
  "held_by lb owner = (case lb_owners lb owner of None \<Rightarrow> 0 | Some kib \<Rightarrow> kib)"

text \<open>\<open>LargeCharge::drop\<close>.\<close>

definition release_charge :: "'w \<Rightarrow> nat \<Rightarrow> 'w large_bodies \<Rightarrow> 'w large_bodies" where
  "release_charge owner kib lb = lb\<lparr>lb_kib := lb_kib lb + kib,
     lb_owners := (case lb_owners lb owner of
       None \<Rightarrow> lb_owners lb
     | Some n \<Rightarrow> if n - kib = 0 then (lb_owners lb)(owner := None) else (lb_owners lb)(owner \<mapsto> n - kib))\<rparr>"

definition kib_of :: "nat \<Rightarrow> nat" where
  "kib_of bytes = (bytes + 1023) div 1024"

definition reserve_body :: "'w \<Rightarrow> nat \<Rightarrow> 'w large_bodies \<Rightarrow> 'w large_bodies \<times> nat app_result" where
  "reserve_body owner bytes lb =
     (let kib = kib_of bytes in
      if held_by lb owner + kib > LARGE_BODY_SHARE_KIB
      then (lb, Inl (Unavailable ''this worker is already sending as much as it may at once; try again shortly''))
      else if lb_kib lb < kib then (lb, Inl (Unavailable ''the server is receiving other large results; try again shortly''))
      else (lb\<lparr>lb_kib := lb_kib lb - kib, lb_owners := (lb_owners lb)(owner \<mapsto> held_by lb owner + kib)\<rparr>, Inr kib))"

text \<open>What the body's stream gives, and when: a chunk, its end, the route's length limit passed, or a broken connection.\<close>

datatype body_event = Chunk nat | Body_end | Limit_passed | Broken

fun read_chunks :: "time \<Rightarrow> time option \<Rightarrow> nat \<Rightarrow> time \<Rightarrow> nat \<Rightarrow> (time \<times> body_event) list \<Rightarrow> nat app_result" where
  "read_chunks deadline stall cap now got [] = Inl (Unavailable ''the request body did not arrive in time; send it again'')"
| "read_chunks deadline stall cap now got ((t, e) # events) =
     (let wait_until = (case stall of None \<Rightarrow> deadline | Some s \<Rightarrow> min deadline (now + s)) in
      if wait_until < t then Inl (Unavailable ''the request body did not arrive in time; send it again'')
      else (case e of
        Body_end \<Rightarrow> Inr got
      | Limit_passed \<Rightarrow> Inl (Payload_too_large ''the request body is larger than this endpoint accepts'')
      | Broken \<Rightarrow> Inl (Bad_request ''the request body could not be read'')
      | Chunk n \<Rightarrow> if got + n > cap then Inl (Payload_too_large ''the request body is larger than this endpoint accepts'')
          else read_chunks deadline stall cap t (got + n) events))"

text \<open>The tier a body is read in: its deadline, the longest stall and the bytes it may hold.\<close>

definition small_tier :: "time \<Rightarrow> time \<times> time option \<times> nat" where
  "small_tier started = (started + SMALL_BODY_DEADLINE, None, LARGE_BODY_BYTES)"

definition large_tier :: "time \<Rightarrow> nat \<Rightarrow> time \<times> time option \<times> nat" where
  "large_tier started bytes = (started + BODY_GRACE + int (bytes div LARGE_BODY_MIN_RATE) * 1000000, Some BODY_STALL, bytes)"

definition read_tier :: "time \<Rightarrow> time \<times> time option \<times> nat \<Rightarrow> (time \<times> body_event) list \<Rightarrow> nat app_result" where
  "read_tier started tier events = (case tier of (deadline, stall, cap) \<Rightarrow> read_chunks deadline stall cap started 0 events)"

text \<open>The bytes read, with the charge of a large body; the charge of one that is refused part-way is given back.
  \<open>large\<close> is the route that takes large bodies, of an owner it has checked.\<close>

definition read_body ::
  "bool \<Rightarrow> 'w option \<Rightarrow> nat option \<Rightarrow> time \<Rightarrow> (time \<times> body_event) list \<Rightarrow> 'w large_bodies \<Rightarrow>
    'w large_bodies \<times> (nat \<times> ('w \<times> nat) option) app_result" where
  "read_body large owner declared started events lb =
     (if declared \<noteq> None \<and> the declared > LARGE_BODY_BYTES
      then (case (if large then owner else None) of
          None \<Rightarrow> (lb, Inl (Payload_too_large ''the request body is larger than this endpoint accepts''))
        | Some owner \<Rightarrow>
            let bytes = min (the declared) MAX_RESULT_BYTES in
            (case reserve_body owner bytes lb of
               (lb', Inl e) \<Rightarrow> (lb', Inl e)
             | (lb', Inr kib) \<Rightarrow> (case read_tier started (large_tier started bytes) events of
                   Inl e \<Rightarrow> (release_charge owner kib lb', Inl e)
                 | Inr got \<Rightarrow> (lb', Inr (got, Some (owner, kib))))))
      else (case read_tier started (small_tier started) events of
          Inl e \<Rightarrow> (lb, Inl e) | Inr got \<Rightarrow> (lb, Inr (got, None))))"

end
