(* ===== verification/Turns_Spec.thy ===== *)
theory Turns_Spec
  imports Turns
begin

text \<open>
  The bounds hold whatever callers do: a turn is never lost nor doubled, a job with a turn never waits for a thread,
  a caller that has gone costs no run; and what large bodies have reserved is what the budget is short of.
\<close>

section \<open>Turns\<close>

definition firsts :: "(nat \<times> 'a) list \<Rightarrow> nat list" where
  "firsts xs = map fst xs"

lemma firsts_simps [simp]:
  "firsts [] = []" "firsts (x # xs) = fst x # firsts xs" "firsts (xs @ ys) = firsts xs @ firsts ys"
  by (simp_all add: firsts_def)

lemma firsts_filter:
  "set (firsts (filter (\<lambda>(s, _). s \<noteq> r) xs)) = set (firsts xs) - {r}"
  "distinct (firsts xs) \<Longrightarrow> distinct (firsts (filter (\<lambda>(s, _). s \<noteq> r) xs))"
  by (auto simp: firsts_def distinct_map_filter)

inductive turn_step :: "nat \<Rightarrow> time \<Rightarrow> 'v turns \<Rightarrow> 'v turns \<Rightarrow> bool" for threads :: nat and wait :: time where
  Asked: "r \<notin> set (firsts (pt_waiting st)) \<union> set (pt_queued st) \<union> set (pt_running st) \<union> set (pt_gone st) \<union> set (firsts (pt_told st)) \<Longrightarrow>
    turn_step threads wait st (ask_turn now r st)"
| Timed_out: "turn_step threads wait st (turn_timed_out wait now r st)"
| Hung_up: "turn_step threads wait st (hang_up r st)"
| Taken: "turn_step threads wait st (take_job threads st)"
| Ran: "turn_step threads wait st (job_done r outcome st)"

inductive turns_reachable :: "nat \<Rightarrow> time \<Rightarrow> 'v turns \<Rightarrow> bool" for threads :: nat and wait :: time where
  Idle: "turns_reachable threads wait (all_free threads)"
| Turn_step: "turns_reachable threads wait st \<Longrightarrow> turn_step threads wait st st' \<Longrightarrow> turns_reachable threads wait st'"

definition turns_ok :: "nat \<Rightarrow> 'v turns \<Rightarrow> bool" where
  "turns_ok n st \<longleftrightarrow> pt_free st + length (pt_queued st) + length (pt_running st) = n \<and>
     (pt_waiting st = [] \<or> pt_free st = 0) \<and>
     distinct (firsts (pt_waiting st) @ pt_queued st @ pt_running st @ firsts (pt_told st))"

lemma turn_back_ok:
  assumes "pt_free st + length (pt_queued st) + length (pt_running st) + 1 = n" "pt_waiting st = [] \<or> pt_free st = 0"
    "distinct (firsts (pt_waiting st) @ pt_queued st @ pt_running st @ firsts (pt_told st))"
  shows "turns_ok n (turn_back st)"
  using assms by (auto simp: turn_back_def turns_ok_def split: list.split)

lemma turn_step_ok: "turn_step n wait st st' \<Longrightarrow> turns_ok n st \<Longrightarrow> turns_ok n st'"
proof (induction rule: turn_step.induct)
  case (Asked r st now)
  then show ?case by (auto simp: ask_turn_def turns_ok_def)
next
  case (Timed_out st now r)
  have "r \<in> set (firsts (pt_waiting st))" if "list_ex (\<lambda>(s, since). s = r \<and> wait \<le> now - since) (pt_waiting st)"
    using that by (force simp: list_ex_iff firsts_def)
  then show ?case using Timed_out firsts_filter [where r = r and xs = "pt_waiting st"]
    by (auto simp: turn_timed_out_def turns_ok_def)
next
  case (Hung_up st r)
  then show ?case using firsts_filter [where r = r and xs = "pt_waiting st"]
    by (auto simp: hang_up_def turns_ok_def)
next
  case (Taken st)
  show ?case
  proof (cases "pt_queued st")
    case Nil
    then show ?thesis using Taken by (simp add: take_job_def)
  next
    case (Cons r rest)
    then have "turns_ok n (turn_back (st\<lparr>pt_queued := rest\<rparr>))"
      using Taken by (intro turn_back_ok) (auto simp: turns_ok_def)
    then show ?thesis using Taken Cons by (auto simp: take_job_def turns_ok_def)
  qed
next
  case (Ran st r outcome)
  show ?case
  proof (cases "r \<in> set (pt_running st)")
    case True
    then have n: "Suc (length (remove1 r (pt_running st))) = length (pt_running st)" using length_pos_if_in_set [OF True] by (simp add: length_remove1 True)
    have r: "r \<notin> set (firsts (pt_told st)) \<union> set (pt_queued st) \<union> set (firsts (pt_waiting st))" "r \<notin> set (remove1 r (pt_running st))"
      using Ran True by (auto simp: turns_ok_def)
    let ?st = "st\<lparr>pt_running := remove1 r (pt_running st),
        pt_told := (if r \<in> set (pt_gone st) then pt_told st
          else pt_told st @ [(r, case outcome of Some v \<Rightarrow> Inr v | None \<Rightarrow> Inl (Internal ''hashing a password did not finish''))])\<rparr>"
    have "turns_ok n (turn_back ?st)"
    proof (rule turn_back_ok)
      show "pt_free ?st + length (pt_queued ?st) + length (pt_running ?st) + 1 = n"
        using Ran n by (simp add: turns_ok_def)
      show "pt_waiting ?st = [] \<or> pt_free ?st = 0" using Ran by (simp add: turns_ok_def)
      show "distinct (firsts (pt_waiting ?st) @ pt_queued ?st @ pt_running ?st @ firsts (pt_told ?st))"
        using Ran r set_remove1_subset [of r "pt_running st"] by (auto simp: turns_ok_def)
    qed
    then show ?thesis using True by (simp add: job_done_def)
  qed (use Ran in \<open>simp add: job_done_def\<close>)
qed

lemma turns_reachable_ok: "turns_reachable n wait st \<Longrightarrow> turns_ok n st"
proof (induction rule: turns_reachable.induct)
  case Idle
  show ?case by (simp add: turns_ok_def all_free_def)
qed (rule turn_step_ok)

text \<open>The turns are conserved.  Whoever asks, waits, gives up, hangs up or runs, the turns free, those travelling
  with a queued job and those of running jobs are always all of them; a request waits only while none is free; a job
  with a turn finds an idle thread, which runs it unless its caller has gone; and no request is told twice.\<close>

theorem turns_are_conserved:
  assumes "turns_reachable n wait st"
  shows "pt_free st + length (pt_queued st) + length (pt_running st) = n \<and> length (pt_running st) \<le> n \<and>
    (pt_waiting st = [] \<or> pt_free st = 0) \<and> distinct (firsts (pt_told st)) \<and>
    (pt_queued st = [] \<or> set (pt_running (take_job n st)) \<subseteq> set (pt_running st) \<union> ({hd (pt_queued st)} - set (pt_gone st))) \<and>
    (pt_queued st = [] \<or> take_job n st \<noteq> st)"
proof -
  have ok: "turns_ok n st" by (rule turns_reachable_ok [OF assms])
  have idle: "length (pt_running st) < n" if "pt_queued st \<noteq> []" using ok that by (cases "pt_queued st") (auto simp: turns_ok_def)
  have moves: "take_job n st \<noteq> st \<and> set (pt_running (take_job n st)) \<subseteq> set (pt_running st) \<union> ({hd (pt_queued st)} - set (pt_gone st))"
    if ne: "pt_queued st \<noteq> []"
  proof -
    obtain r rest where q: "pt_queued st = r # rest" using ne by (cases "pt_queued st") auto
    show ?thesis
    proof (cases "r \<in> set (pt_gone st)")
      case True
      have take: "take_job n st = turn_back (st\<lparr>pt_queued := rest\<rparr>)" using idle [OF ne] True by (simp add: take_job_def q)
      show ?thesis
      proof (cases "pt_waiting st")
        case Nil
        then have "pt_free (take_job n st) = Suc (pt_free st)" by (simp add: take turn_back_def)
        then have "take_job n st \<noteq> st" by (metis n_not_Suc_n)
        then show ?thesis by (simp add: take turn_back_def Nil)
      next
        case (Cons w ws)
        then have "pt_waiting (take_job n st) = ws" by (cases w) (simp add: take turn_back_def)
        then have "take_job n st \<noteq> st" using Cons by (metis not_Cons_self2)
        then show ?thesis by (cases w) (simp add: take turn_back_def Cons)
      qed
    next
      case False
      then have take: "take_job n st = st\<lparr>pt_queued := rest, pt_running := pt_running st @ [r]\<rparr>"
        using idle [OF ne] by (simp add: take_job_def q)
      then have "pt_queued (take_job n st) = rest" by simp
      then have "take_job n st \<noteq> st" using q by (metis not_Cons_self2)
      then show ?thesis using False by (simp add: take q)
    qed
  qed
  show ?thesis using ok moves by (auto simp: turns_ok_def)
qed

text \<open>Two callers of the scores' two turns, one of whom hangs up while its job is queued.\<close>

theorem turns_are_conserved_witness:
  "pt_running (take_job 2 (hang_up 7 (ask_turn 0 7 (all_free 2 :: bool turns)))) = [] \<and>
   pt_free (take_job 2 (hang_up 7 (ask_turn 0 7 (all_free 2 :: bool turns)))) = 2"
proof -
  let ?st = "hang_up 7 (ask_turn 0 7 (all_free 2 :: bool turns))"
  have "turns_reachable 2 10 (ask_turn 0 7 (all_free 2 :: bool turns))"
    by (rule Turn_step [OF Idle Asked]) (simp add: all_free_def)
  then have st: "turns_reachable 2 10 ?st" by (rule Turn_step [OF _ Hung_up])
  have eq: "?st = \<lparr>pt_free = 1, pt_waiting = [], pt_queued = [7], pt_running = [], pt_gone = [7], pt_told = []\<rparr>"
    by (simp add: hang_up_def ask_turn_def all_free_def)
  have "turns_reachable 2 10 (take_job 2 ?st)" by (rule Turn_step [OF st Taken])
  from turns_are_conserved [OF this] show ?thesis
    unfolding eq by (simp add: take_job_def turn_back_def)
qed

section \<open>Request bodies\<close>

text \<open>A body that is read is within its cap, whatever chunks arrive.\<close>

lemma read_chunks_cap: "read_chunks deadline stall cap now got events = Inr n \<Longrightarrow> got \<le> cap \<Longrightarrow> n \<le> cap"
proof (induction deadline stall cap now got events rule: read_chunks.induct)
  case (2 deadline stall cap now got t e events)
  then show ?case by (cases e) (auto simp: Let_def split: if_splits)
qed simp

text \<open>The chunks read of a body that was read arrived by its deadline, none later after the one before than a stall.\<close>

lemma read_chunks_end:
  "read_chunks deadline stall cap now got events = Inr n \<Longrightarrow>
    list_ex (\<lambda>(t, e). e = Body_end \<and> t \<le> deadline) events"
proof (induction deadline stall cap now got events rule: read_chunks.induct)
  case (2 deadline stall cap now got t e events)
  then show ?case by (cases e; cases stall) (auto simp: Let_def split: if_splits)
qed simp

definition charges_of :: "('w \<times> nat) list \<Rightarrow> 'w \<Rightarrow> nat" where
  "charges_of charges owner = sum_list (map snd (filter (\<lambda>(o', _). o' = owner) charges))"

lemma charges_of_simps [simp]:
  "charges_of [] owner = 0" "charges_of (c # cs) owner = (if fst c = owner then snd c else 0) + charges_of cs owner"
  by (auto simp: charges_of_def split: prod.splits)

lemma charges_of_remove1: "c \<in> set cs \<Longrightarrow> charges_of cs owner = (if fst c = owner then snd c else 0) + charges_of (remove1 c cs) owner"
  by (induction cs) auto

lemma sum_remove1: "c \<in> set cs \<Longrightarrow> sum_list (map snd cs) = snd c + sum_list (map snd (remove1 c cs))"
  for cs :: "('w \<times> nat) list"
  by (induction cs) auto

text \<open>What is reserved: every charge outstanding, by its owner and in all.\<close>

definition charged_ok :: "('w \<times> nat) list \<Rightarrow> 'w large_bodies \<Rightarrow> bool" where
  "charged_ok charges lb \<longleftrightarrow> lb_kib lb + sum_list (map snd charges) = 3 * MAX_RESULT_BYTES div 1024 \<and>
     (\<forall>owner. held_by lb owner = charges_of charges owner \<and> charges_of charges owner \<le> LARGE_BODY_SHARE_KIB)"

lemma charged_okD:
  assumes "charged_ok charges lb"
  shows "lb_kib lb + sum_list (map snd charges) = 3 * MAX_RESULT_BYTES div 1024" "held_by lb owner = charges_of charges owner"
    "charges_of charges owner \<le> LARGE_BODY_SHARE_KIB"
  using assms by (simp_all add: charged_ok_def)

lemma held_by_update: "held_by (lb\<lparr>lb_kib := k, lb_owners := (lb_owners lb)(owner \<mapsto> n)\<rparr>) other = (if other = owner then n else held_by lb other)"
  by (simp add: held_by_def)

lemma reserve_body_ok:
  assumes ok: "charged_ok charges lb" and res: "reserve_body owner bytes lb = (lb', Inr kib)"
  shows "charged_ok ((owner, kib) # charges) lb' \<and> kib = kib_of bytes"
proof -
  from res have fits: "held_by lb owner + kib_of bytes \<le> LARGE_BODY_SHARE_KIB" "kib_of bytes \<le> lb_kib lb" "kib = kib_of bytes"
    and lb': "lb' = lb\<lparr>lb_kib := lb_kib lb - kib_of bytes, lb_owners := (lb_owners lb)(owner \<mapsto> held_by lb owner + kib_of bytes)\<rparr>"
    by (auto simp: reserve_body_def Let_def split: if_splits)
  have "held_by lb' other = charges_of ((owner, kib) # charges) other \<and>
      charges_of ((owner, kib) # charges) other \<le> LARGE_BODY_SHARE_KIB" for other
    unfolding lb' held_by_update using charged_okD(2,3) [OF ok] fits by auto
  moreover have "lb_kib lb' + sum_list (map snd ((owner, kib) # charges)) = 3 * MAX_RESULT_BYTES div 1024"
    using charged_okD(1) [OF ok] fits by (simp add: lb')
  ultimately show ?thesis using fits(3) unfolding charged_ok_def by blast
qed

lemma reserve_body_refused: "reserve_body owner bytes lb = (lb', Inl e) \<Longrightarrow> lb' = lb"
  by (auto simp: reserve_body_def Let_def split: if_splits)

lemma release_charge_ok:
  assumes ok: "charged_ok charges lb" and c: "(owner, kib) \<in> set charges"
  shows "charged_ok (remove1 (owner, kib) charges) (release_charge owner kib lb)"
proof -
  have "held_by (release_charge owner kib lb) other = charges_of (remove1 (owner, kib) charges) other" for other
    using charged_okD(2) [OF ok, of other] charges_of_remove1 [OF c, of other]
    by (auto simp: release_charge_def held_by_def split: option.splits if_splits)
  moreover have "charges_of (remove1 (owner, kib) charges) other \<le> LARGE_BODY_SHARE_KIB" for other
    using charged_okD(3) [OF ok, of other] charges_of_remove1 [OF c, of other] by simp
  moreover have "lb_kib (release_charge owner kib lb) + sum_list (map snd (remove1 (owner, kib) charges)) = 3 * MAX_RESULT_BYTES div 1024"
    using charged_okD(1) [OF ok] sum_remove1 [OF c] by (simp add: release_charge_def)
  ultimately show ?thesis unfolding charged_ok_def by blast
qed

text \<open>The state while bodies are read and handled: each outstanding charge, with the bytes its body has.\<close>

inductive bodies_reachable :: "('w \<times> nat) list \<Rightarrow> 'w large_bodies \<Rightarrow> bool" where
  No_bodies: "bodies_reachable [] LARGE_BODIES"
| Body_read: "bodies_reachable charges lb \<Longrightarrow>
    read_body large owner declared started events lb = (lb', Inr (got, charge)) \<Longrightarrow>
    bodies_reachable ((case charge of None \<Rightarrow> [] | Some c \<Rightarrow> [c]) @ charges) lb'"
| Body_refused: "bodies_reachable charges lb \<Longrightarrow>
    read_body large owner declared started events lb = (lb', Inl e) \<Longrightarrow> bodies_reachable charges lb'"
| Body_handled: "bodies_reachable charges lb \<Longrightarrow> (owner, kib) \<in> set charges \<Longrightarrow>
    bodies_reachable (remove1 (owner, kib) charges) (release_charge owner kib lb)"

lemma read_body_cases:
  assumes "read_body large owner declared started events lb = (lb', r)"
  obtains (small) "lb' = lb" "\<And>got charge. r = Inr (got, charge) \<Longrightarrow> charge = None \<and> got \<le> LARGE_BODY_BYTES"
    | (failed) e lb1 owner' bytes kib where "reserve_body owner' bytes lb = (lb1, Inr kib)" "lb' = release_charge owner' kib lb1" "r = Inl e"
    | (charged) got owner' bytes kib where "reserve_body owner' bytes lb = (lb', Inr kib)" "r = Inr (got, Some (owner', kib))" "got \<le> bytes"
proof (cases "declared \<noteq> None \<and> the declared > LARGE_BODY_BYTES")
  case False
  then show ?thesis using assms
    by (intro small) (auto simp: read_body_def read_tier_def small_tier_def split: sum.splits dest: read_chunks_cap)
next
  case True
  show ?thesis
  proof (cases "if large then owner else None")
    case None
    then show ?thesis using assms True by (intro small) (auto simp: read_body_def)
  next
    case (Some w)
    let ?bytes = "min (the declared) MAX_RESULT_BYTES"
    obtain lb1 q where q: "reserve_body w ?bytes lb = (lb1, q)" by fastforce
    show ?thesis
    proof (cases q)
      case (Inl e)
      then show ?thesis using assms True Some q reserve_body_refused by (intro small) (auto simp: read_body_def Let_def)
    next
      case (Inr kib)
      show ?thesis
      proof (cases "read_tier started (large_tier started ?bytes) events")
        case (Inl e)
        then show ?thesis using assms True Some q Inr by (intro failed [of w ?bytes lb1 kib e]) (auto simp: read_body_def Let_def)
      next
        case (Inr got)
        then have "got \<le> ?bytes" by (auto simp: read_tier_def large_tier_def dest: read_chunks_cap)
        then show ?thesis using assms True Some q Inr \<open>q = Inr kib\<close>
          by (intro charged [of w ?bytes kib got]) (auto simp: read_body_def Let_def)
      qed
    qed
  qed
qed

lemma bodies_reachable_ok: "bodies_reachable charges lb \<Longrightarrow> charged_ok charges lb"
proof (induction rule: bodies_reachable.induct)
  case No_bodies
  show ?case by (simp add: charged_ok_def LARGE_BODIES_def held_by_def)
next
  case (Body_read charges lb large owner declared started events lb' got charge)
  from Body_read(2) show ?case
  proof (cases rule: read_body_cases)
    case small
    then show ?thesis using Body_read(3) by auto
  next
    case (charged got owner' bytes kib)
    have "charge = Some (owner', kib)" using charged(2) by simp
    with reserve_body_ok [OF Body_read(3) charged(1), THEN conjunct1] show ?thesis by simp
  qed simp
next
  case (Body_refused charges lb large owner declared started events lb' e)
  from Body_refused(2) show ?case
  proof (cases rule: read_body_cases)
    case small
    then show ?thesis using Body_refused(3) by simp
  next
    case (failed e lb1 owner' bytes kib)
    have "charged_ok ((owner', kib) # charges) lb1" by (rule reserve_body_ok [OF Body_refused(3) failed(1), THEN conjunct1])
    then show ?thesis using release_charge_ok [of "(owner', kib) # charges" lb1 owner' kib] by (simp add: failed(2))
  qed simp
qed (rule release_charge_ok)

lemma kib_covers: "bytes \<le> 1024 * kib_of bytes"
  by (simp add: kib_of_def)

text \<open>C40: the large bodies' budget is what is not reserved, through every body read, refused part-way or handled: the
  charges outstanding and what is left make up three results of the largest size, no owner holds more than one of
  them, and a body that is read holds no more bytes than its charge, or than a small body's bound without one.\<close>

theorem body_charges_add_up:
  assumes "bodies_reachable charges lb"
    "read_body large owner declared started events lb = (lb', Inr (got, charge))"
  shows "lb_kib lb + sum_list (map snd charges) = 3 * LARGE_BODY_SHARE_KIB \<and>
    charges_of charges w \<le> LARGE_BODY_SHARE_KIB \<and>
    (case charge of None \<Rightarrow> got \<le> LARGE_BODY_BYTES \<and> lb' = lb
     | Some (owner', kib) \<Rightarrow> got \<le> 1024 * kib \<and> charged_ok ((owner', kib) # charges) lb')"
proof -
  have ok: "charged_ok charges lb" by (rule bodies_reachable_ok [OF assms(1)])
  have whole: "3 * MAX_RESULT_BYTES div 1024 = 3 * LARGE_BODY_SHARE_KIB" by (simp add: LARGE_BODY_SHARE_KIB_def MAX_RESULT_BYTES_def)
  from assms(2) have "case charge of None \<Rightarrow> got \<le> LARGE_BODY_BYTES \<and> lb' = lb
     | Some (owner', kib) \<Rightarrow> got \<le> 1024 * kib \<and> charged_ok ((owner', kib) # charges) lb'"
  proof (cases rule: read_body_cases)
    case (charged got' owner' bytes kib)
    note reserved = reserve_body_ok [OF ok charged(1)]
    have "got \<le> 1024 * kib" "charge = Some (owner', kib)"
      using reserved [THEN conjunct2] charged(2,3) kib_covers [of bytes] by simp_all
    with reserved [THEN conjunct1] show ?thesis by simp
  qed auto
  then show ?thesis using charged_okD(1,3) [OF ok] whole by simp
qed

theorem body_charges_add_up_witness:
  "charges_of [(''w'', 2048)] ''w'' \<le> LARGE_BODY_SHARE_KIB \<and>
   lb_kib (LARGE_BODIES\<lparr>lb_kib := 194560, lb_owners := (\<lambda>_. None)(''w'' \<mapsto> 2048)\<rparr>) + 2048 = 3 * LARGE_BODY_SHARE_KIB"
proof -
  let ?lb = "LARGE_BODIES\<lparr>lb_kib := 194560, lb_owners := (\<lambda>_. None)(''w'' \<mapsto> 2048)\<rparr>"
  have read: "read_body True (Some ''w'') (Some (2 * 1024 * 1024)) 0 [(5, Chunk 2000000), (9, Body_end)] LARGE_BODIES =
      (?lb, Inr (2000000, Some (''w'', 2048)))"
    by (simp add: read_body_def reserve_body_def read_tier_def large_tier_def LARGE_BODIES_def held_by_def kib_of_def
      LARGE_BODY_BYTES_def MAX_RESULT_BYTES_def LARGE_BODY_SHARE_KIB_def BODY_GRACE_def BODY_STALL_def LARGE_BODY_MIN_RATE_def)
  have one: "bodies_reachable [(''w'', 2048)] ?lb" using Body_read [OF No_bodies read] by simp
  have "read_body False None (Some 10) 0 [(5, Chunk 10), (9, Body_end)] ?lb = (?lb, Inr (10, None))"
    by (simp add: read_body_def read_tier_def small_tier_def LARGE_BODY_BYTES_def SMALL_BODY_DEADLINE_def)
  from body_charges_add_up [OF one this, of "''w''"] show ?thesis by simp
qed

end
