(* ===== verification/Spec2Isabelle.thy ===== *)
theory Spec2Isabelle
  imports Version Plausibility_Spec Racks_Spec Templates Holds Outcomes Games_Spec Books Shares_Spec
    Dispatch_Spec Task_Life Submit_Spec Results_Spec Derived_Spec Leave_Gen_Spec Leave_Builds_Spec
    Admin_Spec Job_Creation_Spec Accounts_Spec Imports_Spec Bradley_Terry_Spec Ratings_Spec Live_Spec Turns_Spec
begin

text \<open>
  birdtest hands out work to contributors' machines, which run MAGPIE, a crossword-game engine, and send back
  results: analysed opening racks, games, pairs of games, and generations of self-play that train leave values.
  This library models the task server (\<open>backend/src\<close>) and proves what keeps its books right.  The frontend, the
  infrastructure and the worker are other programs.

  \<^bold>\<open>How the server works.\<close>  An administrator creates player configurations and jobs from files imported of a data
  repository.  A worker claims a task: the scheduler orders the jobs by how far each is behind its share, the
  registry makes or finds a task of the first that can serve this worker, and the claim is issued with a deadline
  and a token.  The worker's result is decoded, held to plausibility rules and to what its task asked for, stored,
  and completes the claim and the task; counters of the task, the job and the contributor move in the same
  transaction.  Claims that are declined, or that pass their deadline, give their task back.  What finishes a job is
  checked after submissions; a leave job closes a generation instead, and builds its artifact.  Completed games
  rate the configurations of a pool.  Open pages are pushed a job's statistics.

  \<^bold>\<open>Reading the theories.\<close>  Each theory says at its top which source file it models; definitions keep the names of
  the functions they translate, in the order of the code.  A theory \<open>X_Spec\<close> holds the specification of \<open>X\<close> and
  its proofs.  Theories are listed with their parts of the program.

  \<^item> \<open>Prelude\<close> (\<open>error.rs\<close>): errors, results, integer casts, doubles, and the \<open>validator\<close> interface between a check
    and its specification.  \<open>Text\<close>: strings as lists of scalar values.
  \<^item> \<open>Version\<close>, \<open>Job_Model\<close> (\<open>models/job.rs\<close>), \<open>Wire\<close> (\<open>jobs/handler.rs\<close>): versions, rows and messages.
  \<^item> \<open>Plausibility\<close>, \<open>Games\<close>, \<open>Outcomes\<close>, \<open>Racks\<close>, \<open>Leaves\<close>, \<open>Results\<close>: what a result must be and what it is stored
    as, for each kind of job, and the task each kind makes next.  The specifications say which values are accepted
    without the code's loops: a grammar of racks, the tallies that some games produce, the racks of a bag as
    multisets and the bijection behind their numbering, the constraints of the schema.
  \<^item> \<open>Store\<close>: the tables as lists of rows, with the \<open>keyed_table\<close> interface that jobs, tasks, claims and contributors
    are instances of.  \<open>Holds\<close>, \<open>Templates\<close>: what the process keeps beside them (\<open>jobs/mod.rs\<close>, \<open>jobs/dispatch.rs\<close>).
  \<^item> \<open>Shares\<close>, \<open>Claims\<close>, \<open>Dispatch\<close> (\<open>scheduler.rs\<close>, \<open>jobs/registry.rs\<close>, \<open>routes/worker.rs\<close>): whose turn it is, the life
    of a claim, and the claim route whole.  \<open>Submit\<close>: heartbeats, declines and results.  \<open>Finish\<close>, \<open>Match_Test\<close>:
    the statistics that end a job.
  \<^item> \<open>Books\<close>: the invariant \<open>books_ok\<close> over everything the claim path can reach, as rule induction over
    \<open>dispatch_step\<close>; counters of tasks, jobs and contributors are what the claims say.  \<open>Task_Life\<close>: the abstract
    life of one task, and the \<open>simulation\<close> by which the tables refine it.  \<open>Shares_Spec\<close>: shares follow allocations.
  \<^item> \<open>Leave_Gen\<close>, \<open>Leave_Merge\<close>, \<open>Leave_Builds\<close> (\<open>jobs/leave_gen.rs\<close>): choosing racks with other transactions committing
    between the statements, merging what was staged in slices, closing a generation and checking its artifact.
  \<^item> \<open>Derived\<close> (\<open>derived.rs\<close>), \<open>Exports\<close> (\<open>exports.rs\<close>): files built for jobs and of results, under leases.
  \<^item> \<open>Compat\<close>, \<open>Board\<close>, \<open>Player_Configs\<close>, \<open>Job_Creation\<close>, \<open>Admin_Jobs\<close>, \<open>Admin_Purge\<close> (\<open>compat.rs\<close>, \<open>board.rs\<close>,
    \<open>routes/admin.rs\<close>): what administrators create, change, purge and delete.  \<open>Admin_Spec\<close> extends the books to the
    claim path and the administrators together.
  \<^item> \<open>Archive\<close>, \<open>Imports\<close> (\<open>inputdata.rs\<close>): the walk of an untrusted tarball, and the runs of imports beside the
    administrators who confirm them.
  \<^item> \<open>Account_Rules\<close>, \<open>Accounts\<close>, \<open>Rate_Limits\<close> (\<open>auth/\<close>, \<open>routes/auth.rs\<close>, \<open>routes/account.rs\<close>, \<open>ratelimit.rs\<close>,
    \<open>clientip.rs\<close>): accounts, sessions, keys, bans, and what lookups cost.  \<open>Turns\<close> (\<open>auth/api_key.rs\<close>, \<open>extract.rs\<close>):
    the turns of the password threads and the budget of large request bodies.
  \<^item> \<open>Bradley_Terry\<close>, \<open>Ratings\<close>, \<open>Rating_Pools\<close> (\<open>stats/bradley_terry.rs\<close>, \<open>ratings.rs\<close>, \<open>routes/ratings.rs\<close>): the fit
    of a pool, its evidence and runs, and its routes.
  \<^item> \<open>Live\<close> (\<open>jobstats.rs\<close>, \<open>sse.rs\<close>, \<open>routes/worker.rs\<close>, \<open>routes/public.rs\<close>): the payload kept of a job, the pushes to
    its pages, and the places of live streams.

  \<^bold>\<open>State and steps.\<close>  A table is a list of rows, in the order a tie would be read; a transaction is a function of
  the tables, and one that fails leaves them as they were.  An operation that commits several times is several
  functions, or takes as arguments what others commit between its statements, so that interleavings are sequences of
  steps: \<open>dispatch_step\<close> for the claim path, \<open>service_step\<close> for it with the administrators, \<open>foreign_step\<close> for the
  transactions a leave claim may meet, and the step relations of holds, builds, imports, accounts, pools, pages,
  turns and bodies.
  A refusal is a value of \<open>app_error\<close>; its message is reduced to the words that tell it from the others of its
  function, and \<open>Retry-After\<close> is left out.

  \<^bold>\<open>Numbers.\<close>  Machine integers keep their wrap-around where a value of a request can reach it: counts of results,
  casts between widths, versions.  Elsewhere they are \<open>int\<close> or \<open>nat\<close>; in particular the \<open>INTEGER\<close> of a session
  generation is taken not to overflow.  Doubles that the server only compares are IEEE values with infinities and
  NaN; those it computes with (ratios, match tests, ratings) are exact reals, so rounding is not modelled.  Times are
  whole microseconds, as Postgres keeps them, but for the nanoseconds of the limiters.

  \<^bold>\<open>Parameters.\<close>  Identifiers drawn at random, clocks, which rows others hold locked and whether a lock came within
  its wait are arguments.  So is code that is not the repository's: hashes, ciphers and password scores, \<open>governor\<close>'s
  limiters, GitHub's answers, the tar reader, the gzip encoder, the object store's failures, MAGPIE's builds,
  Unicode's case mappings, the collation of the database and its \<open>hashtext\<close>.

  \<^bold>\<open>Loops and bounds.\<close>  Every loop is a terminating recursion, by structure or by a measure given with it, but one:
  \<open>read_tiles\<close> of \<open>Racks\<close> is a partial function and \<open>canonical_rack_returns\<close> shows that it returns.  The numbers that bound
  loops are the code's own: the rounds of a claim (\<open>CLAIM_ROUNDS\<close>), the iterations of a fit (\<open>MAX_ITERATIONS\<close>) and
  the tries of its line search and damping, the tries of a push, the batches of a thinning.  No fuel is added; a claim
  that answers after its last round, or a fit that stops at its last iteration, does so in the code as well.  The
  walk of a tarball is over the finite list of its entries, and its bounds on files and bytes are the code's.

  \<^bold>\<open>Not modelled.\<close>  Start-up, configuration, connection pools and routing; mail; the client of the object store and
  the runs of MAGPIE; the read side of the public and the administrators' pages, which are queries; the artifact
  proxy; the counters of a running import's progress; the log.  Waits that end in a 503 before anything is read (a
  pool without a connection, the turn of a large result) are left out where they change nothing.
\<close>

end
